(* ===== verification/Prelude.thy ===== *)
theory Prelude
  imports Complex_Main "HOL-Library.AList" "HOL-Library.Sublist" "HOL-Library.Multiset"
begin

text \<open>
  What every component of the gateway's model shares: Go's 64-bit integers, times and
  durations, the functions of Go's \<open>strings\<close> package that the sources call, and the
  lemmas on lists and association lists that the component proofs use. A Go \<open>int\<close> is an
  \<open>int\<close> here, with \<open>i64\<close> written where the source's arithmetic can leave 64 bits; a
  \<open>float64\<close> is a rational number, so rounding, infinities and NaN are not modelled.
\<close>

named_theorems gate_simps \<open>unfolding rules of the provider gate and the routing policy\<close>
named_theorems inv_intros \<open>preservation lemmas of the components' invariants\<close>

section \<open>Integers, times and durations\<close>

type_synonym goint = int
type_synonym float64 = rat

text \<open>Two's complement wrap-around at 64 bits.\<close>

definition i64 :: "int \<Rightarrow> int" where
  "i64 x = (x + 2 ^ 63) mod 2 ^ 64 - 2 ^ 63"

definition max_i64 :: int where "max_i64 = 2 ^ 63 - 1"
definition min_i64 :: int where "min_i64 = - (2 ^ 63)"

lemma i64_id [simp]: "min_i64 \<le> x \<Longrightarrow> x \<le> max_i64 \<Longrightarrow> i64 x = x"
  by (simp add: i64_def min_i64_def max_i64_def)

lemma i64_range: "min_i64 \<le> i64 x" "i64 x \<le> max_i64"
proof -
  have "0 \<le> (x + 2 ^ 63) mod 2 ^ 64" "(x + 2 ^ 63) mod 2 ^ 64 < (2::int) ^ 64"
    by simp_all
  then show "min_i64 \<le> i64 x" "i64 x \<le> max_i64"
    by (simp_all add: i64_def min_i64_def max_i64_def)
qed

text \<open>
  A \<open>time.Time\<close> is the number of nanoseconds since Go's zero time (1 January of year 1),
  so the zero time of \<open>IsZero\<close> is 0 and every clock reading is positive. A
  \<open>time.Duration\<close> is a 64-bit number of nanoseconds. \<open>Time.Sub\<close> saturates.
\<close>

type_synonym gotime = int
type_synonym duration = int

definition nanosecond :: duration where "nanosecond = 1"
definition millisecond :: duration where "millisecond = 1000000"
definition second :: duration where "second = 1000000000"
definition minute :: duration where "minute = 60 * 1000000000"

definition is_zero_time :: "gotime \<Rightarrow> bool" where
  "is_zero_time t \<longleftrightarrow> t = 0"

definition time_sub :: "gotime \<Rightarrow> gotime \<Rightarrow> duration" where
  "time_sub t u = max min_i64 (min max_i64 (t - u))"

lemma time_sub_le: "u \<le> t \<Longrightarrow> time_sub t u \<le> t - u"
  by (simp add: time_sub_def min_i64_def)

lemma time_sub_nonneg [simp]: "u \<le> t \<Longrightarrow> 0 \<le> time_sub t u"
  by (simp add: time_sub_def min_i64_def max_i64_def)

lemma time_sub_exact [simp]: "min_i64 \<le> t - u \<Longrightarrow> t - u \<le> max_i64 \<Longrightarrow> time_sub t u = t - u"
  by (simp add: time_sub_def)

lemma time_sub_mono: "t \<le> t' \<Longrightarrow> time_sub t u \<le> time_sub t' u"
  by (simp add: time_sub_def)

text \<open>\<open>Duration.Seconds\<close> as an exact rational.\<close>

definition seconds_of :: "duration \<Rightarrow> float64" where
  "seconds_of d = of_int d / 1000000000"

lemma seconds_of_nonneg [simp]: "0 \<le> d \<Longrightarrow> 0 \<le> seconds_of d"
  by (simp add: seconds_of_def)

lemma seconds_of_mono: "d \<le> e \<Longrightarrow> seconds_of d \<le> seconds_of e"
  by (simp add: seconds_of_def divide_right_mono)

section \<open>Go strings\<close>

text \<open>
  A Go string is a sequence of bytes, as \<open>string\<close> is. \<open>strings.TrimSpace\<close> removes
  Unicode white space, whose code points are listed below in their UTF-8 encoding. The case
  functions are modelled on ASCII: on other bytes they are the identity.
\<close>

definition space_runes :: "string list" where
  "space_runes =
     [[CHR 0x09], [CHR 0x0A], [CHR 0x0B], [CHR 0x0C], [CHR 0x0D], [CHR 0x20],
      [CHR 0xC2, CHR 0x85], [CHR 0xC2, CHR 0xA0], [CHR 0xE1, CHR 0x9A, CHR 0x80],
      [CHR 0xE2, CHR 0x80, CHR 0x80], [CHR 0xE2, CHR 0x80, CHR 0x81],
      [CHR 0xE2, CHR 0x80, CHR 0x82], [CHR 0xE2, CHR 0x80, CHR 0x83],
      [CHR 0xE2, CHR 0x80, CHR 0x84], [CHR 0xE2, CHR 0x80, CHR 0x85],
      [CHR 0xE2, CHR 0x80, CHR 0x86], [CHR 0xE2, CHR 0x80, CHR 0x87],
      [CHR 0xE2, CHR 0x80, CHR 0x88], [CHR 0xE2, CHR 0x80, CHR 0x89],
      [CHR 0xE2, CHR 0x80, CHR 0x8A], [CHR 0xE2, CHR 0x80, CHR 0xA8],
      [CHR 0xE2, CHR 0x80, CHR 0xA9], [CHR 0xE2, CHR 0x80, CHR 0xAF],
      [CHR 0xE2, CHR 0x81, CHR 0x9F], [CHR 0xE3, CHR 0x80, CHR 0x80]]"

function strip_prefixes :: "string list \<Rightarrow> string \<Rightarrow> string" where
  "strip_prefixes ps s =
     (case find (\<lambda>p. p \<noteq> [] \<and> prefix p s) ps of
        None \<Rightarrow> s
      | Some p \<Rightarrow> strip_prefixes ps (drop (length p) s))"
  by pat_completeness auto
termination
proof (relation "measure (\<lambda>(ps, s). length s)", goal_cases)
  case (2 ps s p)
  then have "p \<noteq> []" "prefix p s"
    by (auto simp: find_Some_iff)
  then show ?case
    by (auto simp: prefix_def)
qed simp

declare strip_prefixes.simps [simp del]

definition trim_space :: "string \<Rightarrow> string" where
  "trim_space s =
     rev (strip_prefixes (map rev space_runes) (rev (strip_prefixes space_runes s)))"

definition lower_char :: "char \<Rightarrow> char" where
  "lower_char c =
     (let n = (of_char c :: nat) in if 65 \<le> n \<and> n \<le> 90 then char_of (n + 32) else c)"

definition upper_char :: "char \<Rightarrow> char" where
  "upper_char c =
     (let n = (of_char c :: nat) in if 97 \<le> n \<and> n \<le> 122 then char_of (n - 32) else c)"

definition to_lower :: "string \<Rightarrow> string" where "to_lower = map lower_char"
definition to_upper :: "string \<Rightarrow> string" where "to_upper = map upper_char"

definition equal_fold :: "string \<Rightarrow> string \<Rightarrow> bool" where
  "equal_fold a b \<longleftrightarrow> to_lower a = to_lower b"

definition trim_right_char :: "char \<Rightarrow> string \<Rightarrow> string" where
  "trim_right_char c s = rev (dropWhile (\<lambda>x. x = c) (rev s))"

fun str_contains :: "string \<Rightarrow> string \<Rightarrow> bool" where
  "str_contains [] sub \<longleftrightarrow> sub = []"
| "str_contains (c # s) sub \<longleftrightarrow> prefix sub (c # s) \<or> str_contains s sub"

section \<open>Lemmas on trimming and case\<close>

definition strip_done :: "string list \<Rightarrow> string \<Rightarrow> bool" where
  "strip_done ps s \<longleftrightarrow> find (\<lambda>p. p \<noteq> [] \<and> prefix p s) ps = None"

lemma strip_done_iff: "strip_done ps s \<longleftrightarrow> (\<forall>p \<in> set ps. p \<noteq> [] \<longrightarrow> \<not> prefix p s)"
  by (auto simp: strip_done_def find_None_iff)

lemma strip_prefixes_done: "strip_done ps (strip_prefixes ps s)"
proof (induction ps s rule: strip_prefixes.induct)
  case (1 ps s)
  then show ?case
    by (subst strip_prefixes.simps) (auto split: option.split simp: strip_done_def)
qed

lemma strip_prefixes_id: "strip_done ps s \<Longrightarrow> strip_prefixes ps s = s"
  by (subst strip_prefixes.simps) (simp add: strip_done_def)

lemma strip_prefixes_suffix: "suffix (strip_prefixes ps s) s"
proof (induction ps s rule: strip_prefixes.induct)
  case (1 ps s)
  then show ?case
    by (subst strip_prefixes.simps)
       (auto split: option.split intro: suffix_order.trans suffix_drop)
qed

lemma strip_done_prefix: "strip_done ps s \<Longrightarrow> prefix t s \<Longrightarrow> strip_done ps t"
  by (auto simp: strip_done_iff intro: prefix_order.trans)

lemma trim_space_idem [simp]: "trim_space (trim_space s) = trim_space s"
proof -
  let ?l = "strip_prefixes space_runes s"
  let ?r = "strip_prefixes (map rev space_runes) (rev ?l)"
  have "prefix (rev ?r) ?l"
    using strip_prefixes_suffix [of "map rev space_runes" "rev ?l"]
    by (simp add: suffix_to_prefix)
  then have "strip_done space_runes (rev ?r)"
    by (rule strip_done_prefix [OF strip_prefixes_done])
  then show ?thesis
    by (simp add: trim_space_def strip_prefixes_id strip_prefixes_done)
qed

lemma trim_space_Nil [simp]: "trim_space [] = []"
  by (simp add: trim_space_def strip_prefixes.simps space_runes_def)

lemma strip_prefixes_map:
  assumes "\<And>p c x. p \<in> set ps \<Longrightarrow> c \<in> set p \<Longrightarrow> (f x = c) = (x = c)"
  shows "strip_prefixes ps (map f s) = map f (strip_prefixes ps s)"
proof -
  have pre: "prefix p (map f t) = prefix p t" if "p \<in> set ps" for p t
  proof -
    have "prefix q (map f t) = prefix q t" if "\<forall>c \<in> set q. \<forall>x. (f x = c) = (x = c)" for q
      using that
    proof (induction q arbitrary: t)
      case (Cons c q)
      then have h: "(f a = c) = (a = c)" for a by simp
      have "prefix q (map f l) = prefix q l" for l
        using Cons by simp
      then show ?case by (cases t) (simp_all add: eq_commute [of c] h)
    qed simp
    then show ?thesis using assms [OF that] by blast
  qed
  have "find (\<lambda>p. p \<noteq> [] \<and> prefix p (map f t)) qs = find (\<lambda>p. p \<noteq> [] \<and> prefix p t) qs"
    if "set qs \<subseteq> set ps" for qs t
    using that by (induction qs) (auto simp: pre)
  then have fnd: "find (\<lambda>p. p \<noteq> [] \<and> prefix p (map f t)) ps = find (\<lambda>p. p \<noteq> [] \<and> prefix p t) ps" for t
    by simp
  show ?thesis
  proof (induction s rule: length_induct)
    case (1 s)
    show ?case
    proof (cases "find (\<lambda>p. p \<noteq> [] \<and> prefix p s) ps")
      case None
      with fnd show ?thesis
        by (simp add: strip_prefixes.simps [of ps s] strip_prefixes.simps [of ps "map f s"])
    next
      case (Some p)
      then have "p \<noteq> []" "prefix p s"
        by (auto simp: find_Some_iff)
      then have "length (drop (length p) s) < length s"
        by (auto simp: prefix_def)
      with 1 have "strip_prefixes ps (map f (drop (length p) s)) = map f (strip_prefixes ps (drop (length p) s))"
        by blast
      with Some fnd show ?thesis
        by (simp add: strip_prefixes.simps [of ps s] strip_prefixes.simps [of ps "map f s"] drop_map)
    qed
  qed
qed

text \<open>No byte of a space rune is a letter, so trimming commutes with the case functions.\<close>

lemma lower_char_space: "p \<in> set space_runes \<Longrightarrow> c \<in> set p \<Longrightarrow> (lower_char x = c) = (x = c)"
  by (auto simp: space_runes_def lower_char_def Let_def split: if_splits dest!: arg_cong [where f = "of_char :: char \<Rightarrow> nat"])

lemma upper_char_space: "p \<in> set space_runes \<Longrightarrow> c \<in> set p \<Longrightarrow> (upper_char x = c) = (x = c)"
  by (auto simp: space_runes_def upper_char_def Let_def split: if_splits dest!: arg_cong [where f = "of_char :: char \<Rightarrow> nat"])

lemma trim_space_map:
  assumes "\<And>p c x. p \<in> set space_runes \<Longrightarrow> c \<in> set p \<Longrightarrow> (f x = c) = (x = c)"
  shows "trim_space (map f s) = map f (trim_space s)"
proof -
  have "(f x = c) = (x = c)" if "p \<in> set (map rev space_runes)" "c \<in> set p" for p c x
  proof -
    from that obtain q where "q \<in> set space_runes" "p = rev q" by auto
    with that(2) show ?thesis using assms [of q c x] by simp
  qed
  then show ?thesis
    unfolding trim_space_def
    by (simp only: strip_prefixes_map [OF assms] rev_map strip_prefixes_map [of "map rev space_runes"])
qed

lemma trim_space_to_lower [simp]: "trim_space (to_lower s) = to_lower (trim_space s)"
  unfolding to_lower_def by (rule trim_space_map [OF lower_char_space])

lemma trim_space_to_upper [simp]: "trim_space (to_upper s) = to_upper (trim_space s)"
  unfolding to_upper_def by (rule trim_space_map [OF upper_char_space])

lemma lower_char_idem [simp]: "lower_char (lower_char c) = lower_char c"
proof (cases "65 \<le> (of_char c :: nat) \<and> (of_char c :: nat) \<le> 90")
  case True
  then have "of_char (lower_char c) = (of_char c :: nat) + 32"
    by (simp add: lower_char_def)
  with True show ?thesis
    by (subst lower_char_def) simp
next
  case False
  then have "lower_char c = c"
    by (auto simp: lower_char_def)
  then show ?thesis by simp
qed

lemma upper_char_idem [simp]: "upper_char (upper_char c) = upper_char c"
proof (cases "97 \<le> (of_char c :: nat) \<and> (of_char c :: nat) \<le> 122")
  case True
  then have "of_char (upper_char c) = (of_char c :: nat) - 32"
    by (auto simp: upper_char_def intro: mod_less)
  with True show ?thesis
    by (subst upper_char_def) (auto simp: Let_def)
next
  case False
  then have "upper_char c = c"
    by (auto simp: upper_char_def)
  then show ?thesis by simp
qed

lemma to_lower_idem [simp]: "to_lower (to_lower s) = to_lower s"
  by (simp add: to_lower_def)

lemma to_upper_idem [simp]: "to_upper (to_upper s) = to_upper s"
  by (simp add: to_upper_def)

lemma to_lower_Nil [simp]: "to_lower s = [] \<longleftrightarrow> s = []"
  by (simp add: to_lower_def)

lemma to_upper_Nil [simp]: "to_upper s = [] \<longleftrightarrow> s = []"
  by (simp add: to_upper_def)

lemma strip_prefixes_Nil:
  "strip_prefixes ps s = [] \<Longrightarrow> s \<noteq> [] \<Longrightarrow> \<exists>p \<in> set ps. p \<noteq> [] \<and> suffix p s"
proof (induction ps s rule: strip_prefixes.induct)
  case (1 ps s)
  then obtain p where p: "find (\<lambda>p. p \<noteq> [] \<and> prefix p s) ps = Some p"
    by (subst (asm) strip_prefixes.simps) (auto split: option.splits)
  then have in_ps: "p \<in> set ps" "p \<noteq> []" "prefix p s"
    by (auto simp: find_Some_iff)
  show ?case
  proof (cases "drop (length p) s = []")
    case True
    with in_ps have "p = s" by (auto simp: prefix_def)
    with in_ps show ?thesis by auto
  next
    case False
    have "strip_prefixes ps (drop (length p) s) = []"
      using "1.prems"(1) p by (subst (asm) strip_prefixes.simps) simp
    then obtain q where "q \<in> set ps" "q \<noteq> []" "suffix q (drop (length p) s)"
      using "1.IH" [OF p] False by blast
    then show ?thesis by (meson suffix_drop suffix_order.trans)
  qed
qed

lemma trim_space_not_blank:
  assumes "strip_done space_runes r" "r \<noteq> []"
  shows "trim_space r \<noteq> []"
proof
  assume "trim_space r = []"
  with assms have "strip_prefixes (map rev space_runes) (rev r) = []" "rev r \<noteq> []"
    by (simp_all add: trim_space_def strip_prefixes_id)
  then obtain q where "q \<in> set space_runes" "q \<noteq> []" "suffix (rev q) (rev r)"
    using strip_prefixes_Nil by fastforce
  with assms(1) show False
    by (auto simp: strip_done_iff suffix_to_prefix)
qed

lemma trim_space_strip_done: "strip_done space_runes (trim_space s)"
proof -
  let ?l = "strip_prefixes space_runes s"
  have "prefix (trim_space s) ?l"
    using strip_prefixes_suffix [of "map rev space_runes" "rev ?l"]
    by (simp add: suffix_to_prefix trim_space_def)
  then show ?thesis
    by (rule strip_done_prefix [OF strip_prefixes_done])
qed

lemma trim_right_char_prefix: "prefix (trim_right_char c s) s"
  unfolding trim_right_char_def
  by (metis rev_rev_ident suffix_dropWhile suffix_to_prefix)

text \<open>Cutting trailing characters off a trimmed string leaves nothing or a string that is not blank.\<close>

lemma trim_right_char_not_blank:
  "trim_right_char c (trim_space s) \<noteq> [] \<Longrightarrow> trim_space (trim_right_char c (trim_space s)) \<noteq> []"
  by (rule trim_space_not_blank [OF strip_done_prefix [OF trim_space_strip_done trim_right_char_prefix]])

section \<open>Chains of checks\<close>

text \<open>
  A Go function that returns at its first failing check is the first error of the list of its
  checks; a loop that returns the first failure of its body is \<open>for_each\<close>.
\<close>

definition check :: "bool \<Rightarrow> 'e \<Rightarrow> 'e option" where
  "check failed e = (if failed then Some e else None)"

fun first_error :: "'e option list \<Rightarrow> 'e option" where
  "first_error [] = None"
| "first_error (None # es) = first_error es"
| "first_error (Some e # es) = Some e"

fun for_each :: "(nat \<Rightarrow> 'a \<Rightarrow> 'e option) \<Rightarrow> nat \<Rightarrow> 'a list \<Rightarrow> 'e option" where
  "for_each f i [] = None"
| "for_each f i (x # xs) = (case f i x of Some e \<Rightarrow> Some e | None \<Rightarrow> for_each f (Suc i) xs)"

lemma check_None [simp]: "check b e = None \<longleftrightarrow> \<not> b"
  by (simp add: check_def)

lemma check_Some [simp]: "check b e = Some e' \<longleftrightarrow> b \<and> e' = e"
  by (auto simp: check_def)

lemma first_error_None: "first_error es = None \<longleftrightarrow> (\<forall>e \<in> set es. e = None)"
  by (induction es rule: first_error.induct) auto

lemma first_error_Cons: "first_error (x # xs) = (case x of None \<Rightarrow> first_error xs | Some e \<Rightarrow> Some e)"
  by (cases x) auto

lemma for_each_None: "for_each f i xs = None \<longleftrightarrow> (\<forall>k < length xs. f (i + k) (xs ! k) = None)"
proof (induction xs arbitrary: i)
  case (Cons x xs)
  show ?case
    by (auto simp: Cons.IH All_less_Suc2 split: option.splits)
qed simp

lemma for_each_Some:
  "for_each f i xs = Some e \<longleftrightarrow>
     (\<exists>k < length xs. f (i + k) (xs ! k) = Some e \<and> (\<forall>j < k. f (i + j) (xs ! j) = None))"
proof (induction xs arbitrary: i)
  case (Cons x xs)
  show ?case
  proof (cases "f i x")
    case None
    then show ?thesis
      by (simp add: Cons.IH Ex_less_Suc2 All_less_Suc2)
  next
    case (Some d)
    then show ?thesis
      by (auto simp: Ex_less_Suc2 All_less_Suc2)
  qed
qed simp

section \<open>Integer division\<close>

text \<open>Go's integer division truncates towards zero.\<close>

definition go_div :: "int \<Rightarrow> int \<Rightarrow> int" where
  "go_div a b = sgn a * sgn b * (\<bar>a\<bar> div \<bar>b\<bar>)"

lemma go_div_nonneg: "0 \<le> a \<Longrightarrow> 0 < b \<Longrightarrow> go_div a b = a div b"
  by (cases "a = 0") (simp_all add: go_div_def)

definition go_rem :: "int \<Rightarrow> int \<Rightarrow> int" where
  "go_rem a b = sgn a * (\<bar>a\<bar> mod \<bar>b\<bar>)"

lemma go_rem_nonneg [simp]: "0 \<le> a \<Longrightarrow> 0 < b \<Longrightarrow> go_rem a b = a mod b"
  by (cases "a = 0") (simp_all add: go_rem_def)

lemma go_rem_bounds: "0 < b \<Longrightarrow> - b < go_rem a b \<and> go_rem a b < b"
  using pos_mod_sign [of b "\<bar>a\<bar>"] pos_mod_bound [of b "\<bar>a\<bar>"]
  by (auto simp: go_rem_def sgn_if simp del: pos_mod_sign pos_mod_bound)

lemma nat_mod_int [simp]: "0 \<le> a \<Longrightarrow> nat (a mod int n) = nat a mod n"
  by (simp add: nat_mod_distrib)

section \<open>Round-robin scans\<close>

text \<open>
  The order in which a Go loop over \<open>xs[(start + i) % len(xs)]\<close> visits a slice.
\<close>

definition scan_from :: "nat \<Rightarrow> 'a list \<Rightarrow> 'a list" where
  "scan_from start xs = map (\<lambda>i. xs ! ((start + i) mod length xs)) [0..<length xs]"

lemma length_scan_from [simp]: "length (scan_from start xs) = length xs"
  by (simp add: scan_from_def)

lemma scan_from_Nil [simp]: "scan_from start [] = []"
  by (simp add: scan_from_def)

lemma scan_from_rotate: "scan_from start xs = rotate start xs"
  by (rule nth_equalityI) (simp_all add: scan_from_def nth_rotate)

lemma set_scan_from [simp]: "set (scan_from start xs) = set xs"
  by (simp add: scan_from_rotate)

lemma mset_scan_from [simp]: "mset (scan_from start xs) = mset xs"
  by (simp add: scan_from_rotate rotate_drop_take flip: mset_append)
     (metis append_take_drop_id mset_append union_commute)

lemma scan_from_mod: "scan_from (start mod length xs) xs = scan_from start xs"
  by (simp add: scan_from_def mod_add_left_eq)

lemma hd_scan_from: "xs \<noteq> [] \<Longrightarrow> hd (scan_from start xs) = xs ! (start mod length xs)"
  by (simp add: scan_from_rotate hd_rotate_conv_nth)

lemma find_Some_set: "find P xs = Some k \<Longrightarrow> k \<in> set xs \<and> P k"
  by (induction xs) (auto split: if_splits)

lemma find_None_set: "find P xs = None \<longleftrightarrow> (\<forall>x \<in> set xs. \<not> P x)"
  by (induction xs) auto

lemma find_hd: "xs \<noteq> [] \<Longrightarrow> P (hd xs) \<Longrightarrow> find P xs = Some (hd xs)"
  by (cases xs) auto

end
