(* ===== verification/Snapshot_Data.thy ===== *)
theory Snapshot_Data
  imports Prelude
begin

text \<open>
  The runtime snapshot of \<open>internal/gateway/snapshot/snapshot.go\<close>: the compiled, immutable
  configuration that the control plane publishes and the gateway runs on. One record per Go
  struct, with the struct's fields in its order; a map of strings is the list of its entries
  in the order an iteration visits them.
\<close>

definition CurrentSchemaVersion :: goint where "CurrentSchemaVersion = 1"

section \<open>Metadata, ingress and contract\<close>

record AdminTokenEntry =
  ate_Name :: string
  ate_Token :: string
  ate_Role :: string

record SnapshotMeta =
  meta_SnapshotID :: string
  meta_SchemaVersion :: goint
  meta_RevisionID :: string
  meta_GeneratedAt :: gotime
  meta_CompilerVersion :: string

record IngressConfig =
  ing_Listen :: string
  ing_ReadTimeoutMs :: goint
  ing_WriteTimeoutMs :: goint
  ing_IdleTimeoutMs :: goint
  ing_MaxBodyBytes :: goint

record ContractConfig =
  con_PublicAPI :: string
  con_EnabledRoutes :: "string list"

section \<open>Providers\<close>

record RateLimitConfig =
  rl_Enabled :: bool
  rl_RequestsPerSecond :: float64
  rl_Burst :: goint

record APIKey =
  ak_Name :: string
  ak_Value :: string
  ak_Disabled :: bool
  ak_FailCount :: goint

record Credentials =
  cred_Kind :: string
  cred_Value :: string
  cred_HeaderName :: string

record ModelMapping =
  mm_PublicModel :: string
  mm_UpstreamModel :: string

record CapabilityTable =
  cap_SupportsChatCompletions :: bool
  cap_SupportsStreaming :: bool
  cap_UsageAccounting :: string
  cap_ErrorClassifier :: string

record ExecutionPolicy =
  ep_Enabled :: bool
  ep_Weight :: goint
  ep_TimeoutMs :: goint
  ep_SameRetries :: goint
  ep_ProviderClass :: string
  ep_RateLimit :: RateLimitConfig

record ProviderSnapshot =
  ps_ProviderID :: string
  ps_UpstreamID :: string
  ps_ProtocolAdapter :: string
  ps_BaseURL :: string
  ps_AnthropicBaseURL :: string
  ps_Credentials :: Credentials
  ps_Headers :: "(string \<times> string) list"
  ps_ModelTable :: "ModelMapping list"
  ps_CapabilityTable :: CapabilityTable
  ps_ExecutionPolicy :: ExecutionPolicy
  ps_FallbackModels :: "string list"
  ps_APIKeys :: "APIKey list"

section \<open>Routing policy\<close>

record StickySessionConfig =
  ssc_Enabled :: bool
  ssc_TTLSec :: goint

record RetryBackoff =
  rb_InitialMs :: goint
  rb_MaxMs :: goint

record HealthConfig =
  hc_Enabled :: bool
  hc_IntervalSec :: goint
  hc_TimeoutMs :: goint
  hc_Path :: string

record FailurePolicy =
  fp_Threshold :: goint
  fp_CooldownSec :: goint
  fp_PassthroughAfterSec :: goint
  fp_QuotaRecoveryIntervalMin :: goint
  fp_DisableCooldown :: bool

record RetryPolicy =
  rty_InfiniteOnError :: bool
  rty_MaxElapsedMs :: goint
  rty_AllErrors :: bool
  rty_StatusCodes :: "goint list"
  rty_StatusCodeMin :: goint
  rty_MessageKeywords :: "string list"

record CacheConfig =
  cc_Enabled :: bool
  cc_MaxEntries :: goint
  cc_TTLSec :: goint
  cc_MaxBytesMB :: goint

record QueueConfig =
  qc_Enabled :: bool
  qc_MaxConcurrent :: goint
  qc_HighPriorityPct :: goint

record KeyRotationConfig =
  krc_Enabled :: bool

record CompressionConfig =
  cmp_Enabled :: bool
  cmp_MinSizeBytes :: goint
  cmp_Level :: goint

record SSRFConfig =
  ssrf_AllowLocalhost :: bool
  ssrf_AllowPrivateIP :: bool

record RoutingPolicy =
  rp_Strategy :: string
  rp_MaxRetries :: goint
  rp_RetryBackoff :: RetryBackoff
  rp_Health :: HealthConfig
  rp_SSRF :: SSRFConfig
  rp_StickySessions :: StickySessionConfig
  rp_FailurePolicy :: FailurePolicy
  rp_Retry :: RetryPolicy
  rp_RateLimit :: RateLimitConfig
  rp_Cache :: CacheConfig
  rp_Queue :: QueueConfig
  rp_KeyRotation :: KeyRotationConfig
  rp_Compression :: CompressionConfig

section \<open>Compatibility, telemetry, pricing\<close>

record BridgeRule =
  br_From :: string
  br_To :: string

record BridgePolicy =
  bp_Enabled :: bool
  bp_Rules :: "BridgeRule list"
  bp_ExcludeUserAgents :: "string list"

record CompatPolicy =
  cp_Bridge :: BridgePolicy

record BatchingConfig =
  bat_MaxBatchSize :: goint
  bat_FlushIntervalMs :: goint

record TelemetryEmitConfig =
  tec_Channel :: string
  tec_Batching :: BatchingConfig

record PricingSource =
  psrc_ID :: string
  psrc_Vendor :: string
  psrc_URL :: string
  psrc_Enabled :: bool
  psrc_TimeoutMs :: goint
  psrc_RefreshIntervalMinutes :: goint

record PricingFXConfig =
  pfx_Enabled :: bool
  pfx_CachePath :: string
  pfx_RefreshIntervalMinutes :: goint

record PricingManualPrice =
  pmp_Provider :: string
  pmp_Model :: string
  pmp_Currency :: string
  pmp_InputPer1M :: float64
  pmp_CachedInputPer1M :: float64
  pmp_OutputPer1M :: float64
  pmp_Enabled :: bool
  pmp_Source :: string

record PricingConfig =
  pc_CachePath :: string
  pc_RefreshIntervalMinutes :: goint
  pc_RequestTimeoutMs :: goint
  pc_Sources :: "PricingSource list"
  pc_FX :: PricingFXConfig
  pc_ManualPrices :: "PricingManualPrice list"

section \<open>The snapshot\<close>

record Snapshot =
  snap_Meta :: SnapshotMeta
  snap_Ingress :: IngressConfig
  snap_Contract :: ContractConfig
  snap_Providers :: "ProviderSnapshot list"
  snap_RoutingPolicy :: RoutingPolicy
  snap_CompatPolicy :: CompatPolicy
  snap_TelemetryEmit :: TelemetryEmitConfig
  snap_Pricing :: PricingConfig
  snap_AdminTokens :: "AdminTokenEntry list"

end
