(* ===== verification/Config_Data.thy ===== *)
theory Config_Data
  imports Snapshot_Data
begin

text \<open>
  The authoring configuration of \<open>internal/core/config.go\<close> and the provider entry of
  \<open>internal/core/types.go\<close>. A pointer field is an option. The structs that carry the
  name of a snapshot struct are prefixed with \<open>Core\<close>.
\<close>

section \<open>Server and administration\<close>

record ServerConfig =
  srv_Listen :: string
  srv_ReadTimeoutMs :: goint
  srv_WriteTimeoutMs :: goint
  srv_IdleTimeoutMs :: goint
  srv_MaxBodyBytes :: goint

record TokenConfig =
  tok_Name :: string
  tok_Token :: string
  tok_Role :: string

record AdminRateLimit =
  arl_RequestsPerSecond :: float64
  arl_Burst :: goint

record AdminConfig =
  adm_Enabled :: bool
  adm_BootstrapToken :: string
  adm_CookieSigningKey :: string
  adm_PublishHistoryLimit :: goint
  adm_Tokens :: "TokenConfig list"
  adm_Language :: string
  adm_RateLimit :: AdminRateLimit

section \<open>Routing\<close>

record RetryBackoffConfig =
  rbc_InitialMs :: goint
  rbc_MaxMs :: goint

record HealthCheckConfig =
  hcc_Enabled :: bool
  hcc_IntervalSec :: goint
  hcc_TimeoutMs :: goint
  hcc_Path :: string

record CoreStickySessionConfig =
  cssc_Enabled :: bool
  cssc_TTLSec :: goint

record FailurePolicyConfig =
  fpc_Threshold :: goint
  fpc_CooldownSec :: goint
  fpc_PassthroughAfterSec :: goint
  fpc_QuotaRecoveryIntervalMin :: goint
  fpc_DisableCooldown :: bool

record RetryPolicyConfig =
  rpc_InfiniteOnError :: bool
  rpc_MaxElapsedMs :: goint
  rpc_AllErrors :: bool
  rpc_StatusCodes :: "goint list"
  rpc_StatusCodeMin :: "goint option"
  rpc_MessageKeywords :: "string list"

record InterceptRule =
  ir_Name :: string
  ir_Enabled :: "bool option"
  ir_Paths :: "string list"
  ir_StatusCodes :: "goint list"
  ir_StatusCodeMin :: "goint option"
  ir_MessageKeywords :: "string list"
  ir_Action :: string

record CoreRateLimitConfig =
  crl_Enabled :: bool
  crl_RequestsPerSecond :: float64
  crl_Burst :: goint

record CoreCacheConfig =
  ccc_Enabled :: bool
  ccc_MaxEntries :: goint
  ccc_TTLSec :: goint

record CoreKeyRotationConfig =
  ckr_Enabled :: bool

record CoreQueueConfig =
  cqc_MaxConcurrent :: goint
  cqc_HighPriorityPct :: goint

record CoreCompressionConfig =
  ccmp_Level :: goint
  ccmp_MinSizeBytes :: goint

record CoreSSRFConfig =
  cssrf_AllowLocalhost :: bool
  cssrf_AllowPrivateIP :: bool

record RoutingConfig =
  rc_Strategy :: string
  rc_MaxRetries :: goint
  rc_RetryBackoff :: RetryBackoffConfig
  rc_Health :: HealthCheckConfig
  rc_StickySessions :: CoreStickySessionConfig
  rc_FailurePolicy :: FailurePolicyConfig
  rc_Retry :: RetryPolicyConfig
  rc_Intercepts :: "InterceptRule list"
  rc_RateLimit :: CoreRateLimitConfig
  rc_Cache :: CoreCacheConfig
  rc_KeyRotation :: CoreKeyRotationConfig
  rc_Queue :: CoreQueueConfig
  rc_Compression :: CoreCompressionConfig
  rc_SSRF :: CoreSSRFConfig

section \<open>Telemetry and pricing\<close>

record TelemetryConfig =
  tel_SQLitePath :: string
  tel_RetentionDays :: goint
  tel_AggregationSec :: goint
  tel_CacheTTLSec :: goint

record PricingSourceConfig =
  cps_ID :: string
  cps_Vendor :: string
  cps_URL :: string
  cps_Enabled :: "bool option"
  cps_TimeoutMs :: goint
  cps_RefreshIntervalMinutes :: goint

record CorePricingFXConfig =
  cfx_Enabled :: "bool option"
  cfx_CachePath :: string
  cfx_RefreshIntervalMinutes :: goint

record CorePricingManualPrice =
  cmpr_Provider :: string
  cmpr_Model :: string
  cmpr_Currency :: string
  cmpr_InputPer1M :: float64
  cmpr_CachedInputPer1M :: float64
  cmpr_OutputPer1M :: float64
  cmpr_Enabled :: "bool option"
  cmpr_Source :: string

record CorePricingConfig =
  cpc_CachePath :: string
  cpc_RefreshIntervalHours :: goint
  cpc_RefreshIntervalMinutes :: goint
  cpc_RequestTimeoutMs :: goint
  cpc_Sources :: "PricingSourceConfig list"
  cpc_FX :: CorePricingFXConfig
  cpc_ManualPrices :: "CorePricingManualPrice list"
  cpc_sourcesSet :: bool

section \<open>Benchmarking\<close>

record BenchmarkJudgeConfig =
  bj_PublicModel :: string
  bj_Provider :: string
  bj_TimeoutMs :: goint

record BenchmarkLimitsConfig =
  bl_MaxParallelRuns :: goint
  bl_MaxParallelCases :: goint
  bl_PerCaseTimeoutMs :: goint

record BenchmarkVerdictThresholds =
  bvt_NormalMaxGap :: float64
  bvt_SuspectMaxGap :: float64
  bvt_HighSuspectProtocolFailures :: goint

record BenchmarkAliasConfig =
  bal_CanonicalModelID :: string
  bal_Provider :: string
  bal_Models :: "string list"

record BenchmarkingConfig =
  bmc_Enabled :: bool
  bmc_DefaultSuite :: string
  bmc_Judge :: BenchmarkJudgeConfig
  bmc_Limits :: BenchmarkLimitsConfig
  bmc_VerdictThresholds :: BenchmarkVerdictThresholds
  bmc_Aliases :: "BenchmarkAliasConfig list"

section \<open>Compatibility\<close>

record CoreBridgeRule =
  cbr_From :: string
  cbr_To :: string

record BridgeConfig =
  brc_Enabled :: bool
  brc_Rules :: "CoreBridgeRule list"
  brc_ExcludeUserAgents :: "string list"

record FallbackConfig =
  fbc_Enabled :: bool
  fbc_DetectRepetition :: bool
  fbc_Models :: "(string \<times> string) list option"

record CompatConfig =
  cmc_Bridge :: BridgeConfig
  cmc_Fallback :: FallbackConfig

section \<open>Providers and the whole configuration\<close>

record Provider =
  prv_Name :: string
  prv_ProtocolAdapter :: string
  prv_BaseURL :: string
  prv_AnthropicBaseURL :: string
  prv_APIKey :: string
  prv_ProviderClass :: string
  prv_Models :: "string list"
  prv_ModelAliases :: "(string \<times> string) list"
  prv_Weight :: goint
  prv_TimeoutMs :: goint
  prv_SameRetries :: goint
  prv_RateLimit :: CoreRateLimitConfig
  prv_Enabled :: "bool option"
  prv_Headers :: "(string \<times> string) list"
  prv_FallbackModels :: "string list"

record Config =
  cfg_Server :: ServerConfig
  cfg_Admin :: AdminConfig
  cfg_Routing :: RoutingConfig
  cfg_Providers :: "Provider list"
  cfg_Telemetry :: TelemetryConfig
  cfg_Pricing :: CorePricingConfig
  cfg_Benchmarking :: BenchmarkingConfig
  cfg_Compat :: CompatConfig

end
