(* ===== verification/Config_Rules.thy ===== *)
theory Config_Rules
  imports Config_Data
begin

text \<open>
  Defaults and validation of the authoring configuration: the \<open>normalize\<close> methods and
  \<open>Config.Validate\<close> of \<open>internal/core/config.go\<close>, its string normalisers, and
  \<open>MillisecondsToDuration\<close> of \<open>internal/core/duration.go\<close>. A validation error is a
  constructor per message, with the index the message prints; no error is \<open>None\<close>.
\<close>

section \<open>String normalisers\<close>

definition StrategyHealthWeightedRR :: string where "StrategyHealthWeightedRR = ''health_weighted_rr''"
definition StrategyRoundRobin :: string where "StrategyRoundRobin = ''round_robin''"
definition StrategyWeightedRR :: string where "StrategyWeightedRR = ''weighted_rr''"
definition ProtocolAdapterOpenAIChatCompletions :: string where
  "ProtocolAdapterOpenAIChatCompletions = ''openai_chat_completions''"
definition ProtocolAdapterAnthropicMessages :: string where
  "ProtocolAdapterAnthropicMessages = ''anthropic_messages''"
definition BenchmarkSuiteGeneralProtocolV1 :: string where
  "BenchmarkSuiteGeneralProtocolV1 = ''general_protocol_v1''"
definition DefaultAdminPublishHistoryLimit :: goint where "DefaultAdminPublishHistoryLimit = 256"

lemmas config_consts =
  StrategyHealthWeightedRR_def StrategyRoundRobin_def StrategyWeightedRR_def
  ProtocolAdapterOpenAIChatCompletions_def ProtocolAdapterAnthropicMessages_def
  BenchmarkSuiteGeneralProtocolV1_def DefaultAdminPublishHistoryLimit_def

definition normalizeStrategy :: "string \<Rightarrow> string" where
  "normalizeStrategy s =
     (let k = to_lower (trim_space s) in
      if k = [] \<or> k = StrategyHealthWeightedRR then StrategyHealthWeightedRR
      else if k = StrategyRoundRobin then StrategyRoundRobin
      else if k = StrategyWeightedRR then StrategyWeightedRR
      else trim_space s)"

definition normalizeLanguage :: "string \<Rightarrow> string" where
  "normalizeLanguage lang =
     (let k = to_lower (trim_space lang) in
      if k \<in> {''en'', ''ja'', ''ko'', ''es'', ''fr'', ''de''} then k else ''zh'')"

definition normalizePricingCurrency :: "string \<Rightarrow> string" where
  "normalizePricingCurrency currency =
     (let c = to_upper (trim_space currency) in if c = [] then ''USD'' else c)"

definition NormalizeProviderClass :: "string \<Rightarrow> string" where
  "NormalizeProviderClass v =
     (if to_lower (trim_space v) \<in> {''free'', ''gratis'', ''public''} then ''free''
      else ''quota_limited'')"

definition NormalizeProtocolAdapter :: "string \<Rightarrow> string \<Rightarrow> string" where
  "NormalizeProtocolAdapter v anthropicBaseURL =
     (let k = to_lower (trim_space v) in
      if k = [] \<or> k = ProtocolAdapterOpenAIChatCompletions then
        (if trim_space anthropicBaseURL \<noteq> [] \<and> k = [] then ProtocolAdapterAnthropicMessages
         else ProtocolAdapterOpenAIChatCompletions)
      else if k = ProtocolAdapterAnthropicMessages then ProtocolAdapterAnthropicMessages
      else k)"

definition DefaultRetryKeywords :: "string list" where
  "DefaultRetryKeywords =
     [''429'', ''too many requests'', ''rate limit'', ''quota exceeded'', ''insufficient quota'',
      ''insufficient_quota'', ''exceeded your current quota'', ''billing hard limit'',
      ''credit balance is too low'', ''stream disconnected before completion'',
      ''stream closed before response.completed'', ''response.completed'',
      ''upstream request failed'', ''server busy'', ''system busy'', ''temporarily unavailable'',
      ''temporarily overloaded'', ''overloaded'', ''please try again later'',
      ''service unavailable'']"

section \<open>Defaults\<close>

definition ServerConfig_normalize :: "ServerConfig \<Rightarrow> ServerConfig" where
  "ServerConfig_normalize s = s\<lparr>
     srv_Listen := (if srv_Listen s = [] then '':18080'' else srv_Listen s),
     srv_ReadTimeoutMs := (if srv_ReadTimeoutMs s = 0 then 30000 else srv_ReadTimeoutMs s),
     srv_IdleTimeoutMs := (if srv_IdleTimeoutMs s = 0 then 120000 else srv_IdleTimeoutMs s),
     srv_MaxBodyBytes := (if srv_MaxBodyBytes s = 0 then 100 * 2 ^ 20 else srv_MaxBodyBytes s)\<rparr>"

definition AdminConfig_normalize :: "AdminConfig \<Rightarrow> AdminConfig" where
  "AdminConfig_normalize a = a\<lparr>
     adm_Language := normalizeLanguage (adm_Language a),
     adm_PublishHistoryLimit :=
       (if adm_PublishHistoryLimit a \<le> 0 then DefaultAdminPublishHistoryLimit
        else adm_PublishHistoryLimit a)\<rparr>"

definition dflt :: "goint \<Rightarrow> goint \<Rightarrow> goint" where
  "dflt d x = (if x = 0 then d else x)"

definition dflt_pos :: "goint \<Rightarrow> goint \<Rightarrow> goint" where
  "dflt_pos d x = (if x \<le> 0 then d else x)"

definition InterceptRule_normalize :: "InterceptRule \<Rightarrow> InterceptRule" where
  "InterceptRule_normalize r =
     (if trim_space (ir_Action r) = [] then r\<lparr>ir_Action := ''fail''\<rparr> else r)"

definition RoutingConfig_normalize :: "RoutingConfig \<Rightarrow> RoutingConfig" where
  "RoutingConfig_normalize r = r\<lparr>
     rc_Strategy := normalizeStrategy (rc_Strategy r),
     rc_MaxRetries := dflt 2 (rc_MaxRetries r),
     rc_RetryBackoff := (rc_RetryBackoff r)\<lparr>
       rbc_InitialMs := dflt 3000 (rbc_InitialMs (rc_RetryBackoff r)),
       rbc_MaxMs := dflt 30000 (rbc_MaxMs (rc_RetryBackoff r))\<rparr>,
     rc_Health := (rc_Health r)\<lparr>
       hcc_IntervalSec := dflt 10 (hcc_IntervalSec (rc_Health r)),
       hcc_TimeoutMs := dflt 2000 (hcc_TimeoutMs (rc_Health r)),
       hcc_Path := (if hcc_Path (rc_Health r) = [] then ''/v1/models'' else hcc_Path (rc_Health r))\<rparr>,
     rc_StickySessions := (rc_StickySessions r)\<lparr>
       cssc_TTLSec := dflt_pos 1800 (cssc_TTLSec (rc_StickySessions r))\<rparr>,
     rc_FailurePolicy := (rc_FailurePolicy r)\<lparr>
       fpc_Threshold := dflt 20 (fpc_Threshold (rc_FailurePolicy r)),
       fpc_CooldownSec := dflt 60 (fpc_CooldownSec (rc_FailurePolicy r)),
       fpc_PassthroughAfterSec := dflt 600 (fpc_PassthroughAfterSec (rc_FailurePolicy r))\<rparr>,
     rc_Retry := (rc_Retry r)\<lparr>
       rpc_StatusCodeMin := (case rpc_StatusCodeMin (rc_Retry r) of None \<Rightarrow> Some 500 | Some m \<Rightarrow> Some m),
       rpc_StatusCodes := (if rpc_StatusCodes (rc_Retry r) = [] then [408, 429]
                           else rpc_StatusCodes (rc_Retry r)),
       rpc_MessageKeywords := (if rpc_MessageKeywords (rc_Retry r) = [] then DefaultRetryKeywords
                               else rpc_MessageKeywords (rc_Retry r)),
       rpc_MaxElapsedMs := dflt_pos 120000 (rpc_MaxElapsedMs (rc_Retry r))\<rparr>,
     rc_Cache := (rc_Cache r)\<lparr>
       ccc_TTLSec := dflt 300 (ccc_TTLSec (rc_Cache r)),
       ccc_MaxEntries := dflt 1000 (ccc_MaxEntries (rc_Cache r))\<rparr>,
     rc_Queue := (rc_Queue r)\<lparr>
       cqc_MaxConcurrent := dflt 100 (cqc_MaxConcurrent (rc_Queue r)),
       cqc_HighPriorityPct := dflt 60 (cqc_HighPriorityPct (rc_Queue r))\<rparr>,
     rc_Compression := (rc_Compression r)\<lparr>
       ccmp_Level := dflt 5 (ccmp_Level (rc_Compression r)),
       ccmp_MinSizeBytes := dflt 1024 (ccmp_MinSizeBytes (rc_Compression r))\<rparr>,
     rc_Intercepts := map InterceptRule_normalize (rc_Intercepts r)\<rparr>"

definition TelemetryConfig_normalize :: "TelemetryConfig \<Rightarrow> TelemetryConfig" where
  "TelemetryConfig_normalize t = t\<lparr>
     tel_SQLitePath := (if tel_SQLitePath t = [] then ''data/telemetry.db'' else tel_SQLitePath t),
     tel_RetentionDays := dflt 30 (tel_RetentionDays t),
     tel_AggregationSec := dflt 60 (tel_AggregationSec t),
     tel_CacheTTLSec := dflt 5 (tel_CacheTTLSec t)\<rparr>"

text \<open>\<open>*bool\<close> fields default to true.\<close>

definition dflt_true :: "bool option \<Rightarrow> bool option" where
  "dflt_true e = (case e of None \<Rightarrow> Some True | Some b \<Rightarrow> Some b)"

definition is_enabled_ptr :: "bool option \<Rightarrow> bool" where
  "is_enabled_ptr e = (case e of None \<Rightarrow> True | Some b \<Rightarrow> b)"

definition InterceptRule_IsEnabled :: "InterceptRule \<Rightarrow> bool" where
  "InterceptRule_IsEnabled r = is_enabled_ptr (ir_Enabled r)"
definition PricingSourceConfig_IsEnabled :: "PricingSourceConfig \<Rightarrow> bool" where
  "PricingSourceConfig_IsEnabled s = is_enabled_ptr (cps_Enabled s)"
definition PricingFXConfig_IsEnabled :: "CorePricingFXConfig \<Rightarrow> bool" where
  "PricingFXConfig_IsEnabled c = is_enabled_ptr (cfx_Enabled c)"
definition PricingManualPrice_IsEnabled :: "CorePricingManualPrice \<Rightarrow> bool" where
  "PricingManualPrice_IsEnabled p = is_enabled_ptr (cmpr_Enabled p)"
definition Provider_IsEnabled :: "Provider \<Rightarrow> bool" where
  "Provider_IsEnabled p = is_enabled_ptr (prv_Enabled p)"

definition defaultPricingSources :: "goint \<Rightarrow> goint \<Rightarrow> PricingSourceConfig list" where
  "defaultPricingSources refreshIntervalMinutes timeoutMs =
     map (\<lambda>(i, url). \<lparr>cps_ID = i, cps_Vendor = i, cps_URL = url,
            cps_Enabled = Some (i \<noteq> ''xiaomi''), cps_TimeoutMs = timeoutMs,
            cps_RefreshIntervalMinutes = refreshIntervalMinutes\<rparr>)
       [(''openai'', ''https://openai.com/api/pricing/''),
        (''anthropic'', ''https://docs.anthropic.com/en/docs/about-claude/pricing''),
        (''gemini'', ''https://ai.google.dev/gemini-api/docs/pricing''),
        (''moonshot'', ''https://platform.moonshot.cn/docs/pricing/chat''),
        (''zhipu'', ''https://open.bigmodel.cn/pricing''),
        (''minimax'', ''https://platform.minimaxi.com/docs/pricing''),
        (''deepseek'', ''https://api-docs.deepseek.com/quick_start/pricing''),
        (''xai'', ''https://x.ai/api''),
        (''step'', ''https://platform.stepfun.com/docs/pricing''),
        (''xiaomi'', ''https://platform.xiaomi.com/'')]"

definition PricingSourceConfig_normalize :: "goint \<Rightarrow> goint \<Rightarrow> PricingSourceConfig \<Rightarrow> PricingSourceConfig" where
  "PricingSourceConfig_normalize refresh timeout s = s\<lparr>
     cps_ID := trim_space (cps_ID s),
     cps_Vendor := to_lower (trim_space (cps_Vendor s)),
     cps_URL := trim_space (cps_URL s),
     cps_RefreshIntervalMinutes := dflt_pos refresh (cps_RefreshIntervalMinutes s),
     cps_TimeoutMs := dflt_pos timeout (cps_TimeoutMs s),
     cps_Enabled := dflt_true (cps_Enabled s)\<rparr>"

definition PricingManualPrice_normalize :: "CorePricingManualPrice \<Rightarrow> CorePricingManualPrice" where
  "PricingManualPrice_normalize p = p\<lparr>
     cmpr_Provider := trim_space (cmpr_Provider p),
     cmpr_Model := trim_space (cmpr_Model p),
     cmpr_Currency := normalizePricingCurrency (cmpr_Currency p),
     cmpr_Source := (let s = trim_space (cmpr_Source p) in if s = [] then ''manual'' else s),
     cmpr_Enabled := dflt_true (cmpr_Enabled p)\<rparr>"

definition pricing_refresh_minutes :: "CorePricingConfig \<Rightarrow> goint" where
  "pricing_refresh_minutes p =
     (if cpc_RefreshIntervalMinutes p \<le> 0 then
        (if cpc_RefreshIntervalHours p > 0 then i64 (cpc_RefreshIntervalHours p * 60) else 15)
      else cpc_RefreshIntervalMinutes p)"

definition PricingConfig_normalize :: "CorePricingConfig \<Rightarrow> CorePricingConfig" where
  "PricingConfig_normalize p =
     (let minutes = pricing_refresh_minutes p;
          timeout = dflt_pos 15000 (cpc_RequestTimeoutMs p);
          fx = cpc_FX p;
          sources = (if cpc_Sources p = [] \<and> \<not> cpc_sourcesSet p
                     then defaultPricingSources minutes timeout else cpc_Sources p)
      in p\<lparr>
        cpc_CachePath := (if cpc_CachePath p = [] then ''data/pricing-cache.json'' else cpc_CachePath p),
        cpc_RefreshIntervalMinutes := minutes,
        cpc_RefreshIntervalHours := go_div (i64 (minutes + 59)) 60,
        cpc_RequestTimeoutMs := timeout,
        cpc_FX := fx\<lparr>
          cfx_CachePath := (if cfx_CachePath fx = [] then ''data/pricing-fx-cache.json'' else cfx_CachePath fx),
          cfx_RefreshIntervalMinutes := dflt_pos (24 * 60) (cfx_RefreshIntervalMinutes fx),
          cfx_Enabled := dflt_true (cfx_Enabled fx)\<rparr>,
        cpc_Sources := map (PricingSourceConfig_normalize minutes timeout) sources,
        cpc_ManualPrices := map PricingManualPrice_normalize (cpc_ManualPrices p)\<rparr>)"

definition CompatConfig_normalize :: "CompatConfig \<Rightarrow> CompatConfig" where
  "CompatConfig_normalize c = c\<lparr>
     cmc_Fallback := (cmc_Fallback c)\<lparr>
       fbc_Models := (case fbc_Models (cmc_Fallback c) of None \<Rightarrow> Some [] | Some m \<Rightarrow> Some m)\<rparr>\<rparr>"

definition BenchmarkAlias_normalize :: "BenchmarkAliasConfig \<Rightarrow> BenchmarkAliasConfig" where
  "BenchmarkAlias_normalize a = a\<lparr>
     bal_CanonicalModelID := trim_space (bal_CanonicalModelID a),
     bal_Provider := trim_space (bal_Provider a),
     bal_Models := filter (\<lambda>v. v \<noteq> []) (map trim_space (bal_Models a))\<rparr>"

definition BenchmarkingConfig_normalize :: "BenchmarkingConfig \<Rightarrow> BenchmarkingConfig" where
  "BenchmarkingConfig_normalize b = b\<lparr>
     bmc_DefaultSuite := (if bmc_DefaultSuite b = [] then BenchmarkSuiteGeneralProtocolV1
                          else bmc_DefaultSuite b),
     bmc_Judge := (bmc_Judge b)\<lparr>
       bj_PublicModel := trim_space (bj_PublicModel (bmc_Judge b)),
       bj_Provider := trim_space (bj_Provider (bmc_Judge b)),
       bj_TimeoutMs := dflt_pos 30000 (bj_TimeoutMs (bmc_Judge b))\<rparr>,
     bmc_Limits := (bmc_Limits b)\<lparr>
       bl_MaxParallelRuns := dflt_pos 1 (bl_MaxParallelRuns (bmc_Limits b)),
       bl_MaxParallelCases := dflt_pos 2 (bl_MaxParallelCases (bmc_Limits b)),
       bl_PerCaseTimeoutMs := dflt_pos 30000 (bl_PerCaseTimeoutMs (bmc_Limits b))\<rparr>,
     bmc_VerdictThresholds := (bmc_VerdictThresholds b)\<lparr>
       bvt_NormalMaxGap := (if bvt_NormalMaxGap (bmc_VerdictThresholds b) \<le> 0 then 8
                            else bvt_NormalMaxGap (bmc_VerdictThresholds b)),
       bvt_SuspectMaxGap := (if bvt_SuspectMaxGap (bmc_VerdictThresholds b) \<le> 0 then 20
                             else bvt_SuspectMaxGap (bmc_VerdictThresholds b)),
       bvt_HighSuspectProtocolFailures :=
         dflt_pos 2 (bvt_HighSuspectProtocolFailures (bmc_VerdictThresholds b))\<rparr>,
     bmc_Aliases := map BenchmarkAlias_normalize (bmc_Aliases b)\<rparr>"

definition Provider_normalize :: "Provider \<Rightarrow> Provider" where
  "Provider_normalize p = p\<lparr>
     prv_ProviderClass := NormalizeProviderClass (prv_ProviderClass p),
     prv_ProtocolAdapter := NormalizeProtocolAdapter (prv_ProtocolAdapter p) (prv_AnthropicBaseURL p),
     prv_Weight := dflt 1 (prv_Weight p),
     prv_TimeoutMs := dflt 30000 (prv_TimeoutMs p)\<rparr>"

definition Normalize :: "Config \<Rightarrow> Config" where
  "Normalize c = c\<lparr>
     cfg_Server := ServerConfig_normalize (cfg_Server c),
     cfg_Admin := AdminConfig_normalize (cfg_Admin c),
     cfg_Routing := RoutingConfig_normalize (cfg_Routing c),
     cfg_Telemetry := TelemetryConfig_normalize (cfg_Telemetry c),
     cfg_Pricing := PricingConfig_normalize (cfg_Pricing c),
     cfg_Benchmarking := BenchmarkingConfig_normalize (cfg_Benchmarking c),
     cfg_Compat := CompatConfig_normalize (cfg_Compat c),
     cfg_Providers := map Provider_normalize (cfg_Providers c)\<rparr>"

section \<open>Validation\<close>

datatype config_error =
    BootstrapTokenMissing | BootstrapTokenShort | CookieKeyMissing | CookieKeyShort
  | PublishHistoryLimitNegative
  | PricingRefreshHoursNegative | PricingRefreshMinutesNegative | PricingTimeoutNegative
  | PricingFXRefreshNegative
  | MaxParallelRunsNegative | MaxParallelCasesNegative | PerCaseTimeoutNegative
  | SourceIDEmpty nat | SourceVendorEmpty nat | SourceTimeoutNegative nat | SourceRefreshNegative nat
  | ManualModelEmpty nat | ManualInputNegative nat | ManualCachedNegative nat | ManualOutputNegative nat
  | JudgeModelMissing | NoEnabledProvider | JudgeProviderNotServing string string
  | JudgeModelNotServed string
  | DefaultSuiteUnknown | AliasCanonicalEmpty nat | AliasModelsEmpty nat
  | NoProviders | ProviderNameEmpty nat | ProviderBaseURLEmpty nat | ProviderAdapterUnknown nat
  | ProviderRPSNegative nat | ProviderBurstNegative nat | ProviderRPSRequired nat

definition Validate_admin :: "AdminConfig \<Rightarrow> config_error option" where
  "Validate_admin a =
     (if adm_Enabled a then first_error
        [check (adm_BootstrapToken a = []) BootstrapTokenMissing,
         check (length (adm_BootstrapToken a) < 32) BootstrapTokenShort,
         check (adm_CookieSigningKey a = []) CookieKeyMissing,
         check (length (adm_CookieSigningKey a) < 32) CookieKeyShort]
      else None)"

definition Validate_source :: "nat \<Rightarrow> PricingSourceConfig \<Rightarrow> config_error option" where
  "Validate_source i s = first_error
     [check (trim_space (cps_ID s) = []) (SourceIDEmpty i),
      check (trim_space (cps_Vendor s) = []) (SourceVendorEmpty i),
      check (cps_TimeoutMs s < 0) (SourceTimeoutNegative i),
      check (cps_RefreshIntervalMinutes s < 0) (SourceRefreshNegative i)]"

definition Validate_manual :: "nat \<Rightarrow> CorePricingManualPrice \<Rightarrow> config_error option" where
  "Validate_manual i m = first_error
     [check (trim_space (cmpr_Model m) = []) (ManualModelEmpty i),
      check (cmpr_InputPer1M m < 0) (ManualInputNegative i),
      check (cmpr_CachedInputPer1M m < 0) (ManualCachedNegative i),
      check (cmpr_OutputPer1M m < 0) (ManualOutputNegative i)]"

text \<open>The judge of an enabled benchmark must be advertised by an enabled provider.\<close>

definition judge_served_by :: "string \<Rightarrow> string \<Rightarrow> Provider \<Rightarrow> bool" where
  "judge_served_by judgeProviderName judgeModel p \<longleftrightarrow>
     Provider_IsEnabled p \<and>
     list_ex (\<lambda>m. equal_fold (trim_space m) judgeModel \<and>
                  (judgeProviderName = [] \<or> equal_fold (trim_space (prv_Name p)) judgeProviderName))
       (prv_Models p)"

definition Validate_benchmark :: "BenchmarkingConfig \<Rightarrow> Provider list \<Rightarrow> config_error option" where
  "Validate_benchmark b providers =
     (if bmc_Enabled b then
        (let judgeProviderName = trim_space (bj_Provider (bmc_Judge b));
             judgeModel = trim_space (bj_PublicModel (bmc_Judge b));
             judgeModelServed = list_ex (judge_served_by judgeProviderName judgeModel) providers
         in first_error
           [check (judgeModel = []) JudgeModelMissing,
            check (filter Provider_IsEnabled providers = []) NoEnabledProvider,
            check (judgeProviderName \<noteq> [] \<and> \<not> judgeModelServed)
              (JudgeProviderNotServing judgeProviderName judgeModel),
            check (judgeProviderName = [] \<and> \<not> judgeModelServed) (JudgeModelNotServed judgeModel)])
      else None)"

definition Validate_alias :: "nat \<Rightarrow> BenchmarkAliasConfig \<Rightarrow> config_error option" where
  "Validate_alias i a = first_error
     [check (trim_space (bal_CanonicalModelID a) = []) (AliasCanonicalEmpty i),
      check (bal_Models a = []) (AliasModelsEmpty i)]"

definition Validate_provider :: "nat \<Rightarrow> Provider \<Rightarrow> config_error option" where
  "Validate_provider i p =
     (let rl = prv_RateLimit p in first_error
     [check (prv_Name p = []) (ProviderNameEmpty i),
      check (prv_BaseURL p = []) (ProviderBaseURLEmpty i),
      check (NormalizeProtocolAdapter (prv_ProtocolAdapter p) (prv_AnthropicBaseURL p)
               \<notin> {ProtocolAdapterOpenAIChatCompletions, ProtocolAdapterAnthropicMessages})
        (ProviderAdapterUnknown i),
      check (crl_RequestsPerSecond rl < 0) (ProviderRPSNegative i),
      check (crl_Burst rl < 0) (ProviderBurstNegative i),
      check (crl_Enabled rl \<and> crl_RequestsPerSecond rl \<le> 0) (ProviderRPSRequired i)])"

definition Validate :: "Config \<Rightarrow> config_error option" where
  "Validate c =
     (let pricing = cfg_Pricing c; bench = cfg_Benchmarking c in first_error
     [Validate_admin (cfg_Admin c),
      check (adm_PublishHistoryLimit (cfg_Admin c) < 0) PublishHistoryLimitNegative,
      check (cpc_RefreshIntervalHours pricing < 0) PricingRefreshHoursNegative,
      check (cpc_RefreshIntervalMinutes pricing < 0) PricingRefreshMinutesNegative,
      check (cpc_RequestTimeoutMs pricing < 0) PricingTimeoutNegative,
      check (cfx_RefreshIntervalMinutes (cpc_FX pricing) < 0) PricingFXRefreshNegative,
      check (bl_MaxParallelRuns (bmc_Limits bench) < 0) MaxParallelRunsNegative,
      check (bl_MaxParallelCases (bmc_Limits bench) < 0) MaxParallelCasesNegative,
      check (bl_PerCaseTimeoutMs (bmc_Limits bench) < 0) PerCaseTimeoutNegative,
      for_each Validate_source 0 (cpc_Sources pricing),
      for_each Validate_manual 0 (cpc_ManualPrices pricing),
      Validate_benchmark bench (cfg_Providers c),
      check (bmc_DefaultSuite bench \<noteq> [] \<and> bmc_DefaultSuite bench \<noteq> BenchmarkSuiteGeneralProtocolV1)
        DefaultSuiteUnknown,
      for_each Validate_alias 0 (bmc_Aliases bench),
      check (cfg_Providers c = []) NoProviders,
      for_each Validate_provider 0 (cfg_Providers c)])"

section \<open>Durations\<close>

definition maxMillisecondsDuration :: int where
  "maxMillisecondsDuration = max_i64 div millisecond"

definition MillisecondsToDuration :: "goint \<Rightarrow> duration \<Rightarrow> duration" where
  "MillisecondsToDuration ms fallback =
     (if ms \<le> 0 then fallback
      else if ms > maxMillisecondsDuration then i64 (maxMillisecondsDuration * millisecond)
      else i64 (ms * millisecond))"

section \<open>Lemmas\<close>

lemma dflt_idem [simp]: "dflt d (dflt d x) = dflt d x"
  by (simp add: dflt_def)

lemma dflt_pos_idem [simp]: "dflt_pos d (dflt_pos d x) = dflt_pos d x"
  by (simp add: dflt_pos_def)

lemma dflt_true_idem [simp]: "dflt_true (dflt_true x) = dflt_true x"
  by (simp add: dflt_true_def split: option.split)

lemma normalizeStrategy_idem [simp]: "normalizeStrategy (normalizeStrategy s) = normalizeStrategy s"
proof -
  have "normalizeStrategy StrategyHealthWeightedRR = StrategyHealthWeightedRR"
    "normalizeStrategy StrategyRoundRobin = StrategyRoundRobin"
    "normalizeStrategy StrategyWeightedRR = StrategyWeightedRR" by code_simp+
  moreover have "normalizeStrategy (trim_space s) = normalizeStrategy s"
    by (simp add: normalizeStrategy_def Let_def)
  ultimately show ?thesis
    by (auto simp: normalizeStrategy_def Let_def)
qed

lemma normalizeLanguage_idem [simp]: "normalizeLanguage (normalizeLanguage s) = normalizeLanguage s"
proof -
  have "\<forall>k \<in> {''en'', ''ja'', ''ko'', ''es'', ''fr'', ''de'', ''zh''}. normalizeLanguage k = k"
    by code_simp
  then show ?thesis
    by (auto simp: normalizeLanguage_def [of s] Let_def)
qed

lemma normalizePricingCurrency_idem [simp]:
  "normalizePricingCurrency (normalizePricingCurrency s) = normalizePricingCurrency s"
proof -
  have "normalizePricingCurrency ''USD'' = ''USD''" by code_simp
  then show ?thesis
    by (auto simp: normalizePricingCurrency_def Let_def)
qed

lemma NormalizeProviderClass_idem [simp]:
  "NormalizeProviderClass (NormalizeProviderClass s) = NormalizeProviderClass s"
proof -
  have "NormalizeProviderClass ''free'' = ''free''"
    "NormalizeProviderClass ''quota_limited'' = ''quota_limited''" by code_simp+
  then show ?thesis
    by (simp add: NormalizeProviderClass_def [of s])
qed

lemma NormalizeProtocolAdapter_idem [simp]:
  "NormalizeProtocolAdapter (NormalizeProtocolAdapter v u) u = NormalizeProtocolAdapter v u"
proof -
  have "NormalizeProtocolAdapter ProtocolAdapterOpenAIChatCompletions u = ProtocolAdapterOpenAIChatCompletions"
    "NormalizeProtocolAdapter ProtocolAdapterAnthropicMessages u = ProtocolAdapterAnthropicMessages"
  proof -
    have "to_lower (trim_space ProtocolAdapterOpenAIChatCompletions) = ProtocolAdapterOpenAIChatCompletions"
      "to_lower (trim_space ProtocolAdapterAnthropicMessages) = ProtocolAdapterAnthropicMessages"
      "ProtocolAdapterOpenAIChatCompletions \<noteq> []" "ProtocolAdapterAnthropicMessages \<noteq> []"
      by code_simp+
    then show "NormalizeProtocolAdapter ProtocolAdapterOpenAIChatCompletions u = ProtocolAdapterOpenAIChatCompletions"
      "NormalizeProtocolAdapter ProtocolAdapterAnthropicMessages u = ProtocolAdapterAnthropicMessages"
      by (simp_all add: NormalizeProtocolAdapter_def)
  qed
  then show ?thesis
    by (auto simp: NormalizeProtocolAdapter_def [of v] NormalizeProtocolAdapter_def [of "to_lower (trim_space v)"] Let_def)
qed

lemma ServerConfig_normalize_idem [simp]:
  "ServerConfig_normalize (ServerConfig_normalize s) = ServerConfig_normalize s"
  by (simp add: ServerConfig_normalize_def)

lemma AdminConfig_normalize_idem [simp]:
  "AdminConfig_normalize (AdminConfig_normalize a) = AdminConfig_normalize a"
  by (simp add: AdminConfig_normalize_def config_consts)

lemma InterceptRule_normalize_idem [simp]:
  "InterceptRule_normalize (InterceptRule_normalize r) = InterceptRule_normalize r"
  by (simp add: InterceptRule_normalize_def)

lemma DefaultRetryKeywords_ne [simp]: "DefaultRetryKeywords \<noteq> []"
  by (simp add: DefaultRetryKeywords_def)

lemma RoutingConfig_normalize_idem [simp]:
  "RoutingConfig_normalize (RoutingConfig_normalize r) = RoutingConfig_normalize r"
  by (simp add: RoutingConfig_normalize_def split: option.split)

lemma TelemetryConfig_normalize_idem [simp]:
  "TelemetryConfig_normalize (TelemetryConfig_normalize t) = TelemetryConfig_normalize t"
  by (simp add: TelemetryConfig_normalize_def)

lemma PricingSourceConfig_normalize_idem [simp]:
  "PricingSourceConfig_normalize m t (PricingSourceConfig_normalize m t s) = PricingSourceConfig_normalize m t s"
  by (simp add: PricingSourceConfig_normalize_def)

lemma PricingManualPrice_normalize_idem [simp]:
  "PricingManualPrice_normalize (PricingManualPrice_normalize p) = PricingManualPrice_normalize p"
proof -
  have "trim_space ''manual'' = ''manual''" by code_simp
  then show ?thesis by (simp add: PricingManualPrice_normalize_def Let_def)
qed

lemma CompatConfig_normalize_idem [simp]:
  "CompatConfig_normalize (CompatConfig_normalize c) = CompatConfig_normalize c"
  by (simp add: CompatConfig_normalize_def split: option.split)

lemma filter_map_trim_idem:
  "filter (\<lambda>v. v \<noteq> []) (map trim_space (filter (\<lambda>v. v \<noteq> []) (map trim_space xs)))
     = filter (\<lambda>v. v \<noteq> []) (map trim_space xs)"
  by (induction xs) auto

lemma BenchmarkAlias_normalize_idem [simp]:
  "BenchmarkAlias_normalize (BenchmarkAlias_normalize a) = BenchmarkAlias_normalize a"
  by (simp add: BenchmarkAlias_normalize_def filter_map_trim_idem)

lemma BenchmarkingConfig_normalize_idem [simp]:
  "BenchmarkingConfig_normalize (BenchmarkingConfig_normalize b) = BenchmarkingConfig_normalize b"
  by (simp add: BenchmarkingConfig_normalize_def config_consts)

lemma Provider_normalize_idem [simp]: "Provider_normalize (Provider_normalize p) = Provider_normalize p"
  by (simp add: Provider_normalize_def)

lemma pricing_refresh_minutes_pos:
  "cpc_RefreshIntervalHours p * 60 \<le> max_i64 \<Longrightarrow> 0 < pricing_refresh_minutes p"
  by (simp add: pricing_refresh_minutes_def min_i64_def)

lemma defaultPricingSources_ne [simp]: "defaultPricingSources m t \<noteq> []"
  by (simp add: defaultPricingSources_def)

lemma PricingConfig_normalize_idem:
  assumes "cpc_RefreshIntervalHours p * 60 \<le> max_i64"
  shows "PricingConfig_normalize (PricingConfig_normalize p) = PricingConfig_normalize p"
proof -
  define q where "q = PricingConfig_normalize p"
  have minutes: "cpc_RefreshIntervalMinutes q = pricing_refresh_minutes p"
    "cpc_RequestTimeoutMs q = dflt_pos 15000 (cpc_RequestTimeoutMs p)"
    by (simp_all add: q_def PricingConfig_normalize_def Let_def)
  then have "pricing_refresh_minutes q = pricing_refresh_minutes p"
    using pricing_refresh_minutes_pos [OF assms] by (simp add: pricing_refresh_minutes_def [of q])
  then have "PricingConfig_normalize q = q"
    unfolding q_def by (simp add: PricingConfig_normalize_def Let_def)
  then show ?thesis by (simp add: q_def)
qed

lemma Validate_providerD:
  assumes "Validate_provider i p = None"
  shows "prv_Name p \<noteq> [] \<and> prv_BaseURL p \<noteq> [] \<and>
     NormalizeProtocolAdapter (prv_ProtocolAdapter p) (prv_AnthropicBaseURL p)
       \<in> {ProtocolAdapterOpenAIChatCompletions, ProtocolAdapterAnthropicMessages} \<and>
     0 \<le> crl_RequestsPerSecond (prv_RateLimit p) \<and> 0 \<le> crl_Burst (prv_RateLimit p) \<and>
     (crl_Enabled (prv_RateLimit p) \<longrightarrow> 0 < crl_RequestsPerSecond (prv_RateLimit p))"
  using assms by (auto simp: Validate_provider_def Let_def first_error_None)

lemma Validate_adminD:
  "Validate_admin a = None \<Longrightarrow> adm_Enabled a \<Longrightarrow>
     32 \<le> length (adm_BootstrapToken a) \<and> 32 \<le> length (adm_CookieSigningKey a)"
  by (simp add: Validate_admin_def first_error_None)

lemma Validate_benchmarkD:
  assumes "Validate_benchmark b ps = None" "bmc_Enabled b"
  shows "\<exists>p \<in> set ps. judge_served_by (trim_space (bj_Provider (bmc_Judge b)))
                                  (trim_space (bj_PublicModel (bmc_Judge b))) p"
  using assms
  by (cases "trim_space (bj_Provider (bmc_Judge b)) = []")
     (auto simp: Validate_benchmark_def Let_def first_error_None list_ex_iff)

lemma ValidateD:
  assumes "Validate c = None"
  shows "Validate_admin (cfg_Admin c) = None"
    "Validate_benchmark (cfg_Benchmarking c) (cfg_Providers c) = None"
    "cfg_Providers c \<noteq> []"
    "\<And>i. i < length (cfg_Providers c) \<Longrightarrow> Validate_provider i (cfg_Providers c ! i) = None"
  using assms by (simp_all add: Validate_def Let_def first_error_None for_each_None)

section \<open>A configuration for the witnesses\<close>

definition demo_provider :: Provider where
  "demo_provider = \<lparr>
     prv_Name = ''alpha'', prv_ProtocolAdapter = [], prv_BaseURL = ''https://alpha.example'',
     prv_AnthropicBaseURL = [], prv_APIKey = ''k'', prv_ProviderClass = ''paid'',
     prv_Models = [''m1'', '' m1 '', ''m2''], prv_ModelAliases = [(''m2'', ''up2'')],
     prv_Weight = 0, prv_TimeoutMs = 0, prv_SameRetries = 1,
     prv_RateLimit = \<lparr>crl_Enabled = True, crl_RequestsPerSecond = 2, crl_Burst = 4\<rparr>,
     prv_Enabled = None, prv_Headers = [], prv_FallbackModels = [''m3'']\<rparr>"

definition demo_routing :: RoutingConfig where
  "demo_routing = \<lparr>
     rc_Strategy = [], rc_MaxRetries = 0,
     rc_RetryBackoff = \<lparr>rbc_InitialMs = 0, rbc_MaxMs = 0\<rparr>,
     rc_Health = \<lparr>hcc_Enabled = False, hcc_IntervalSec = 0, hcc_TimeoutMs = 0, hcc_Path = []\<rparr>,
     rc_StickySessions = \<lparr>cssc_Enabled = True, cssc_TTLSec = 0\<rparr>,
     rc_FailurePolicy = \<lparr>fpc_Threshold = 0, fpc_CooldownSec = 0, fpc_PassthroughAfterSec = 0,
       fpc_QuotaRecoveryIntervalMin = 0, fpc_DisableCooldown = False\<rparr>,
     rc_Retry = \<lparr>rpc_InfiniteOnError = False, rpc_MaxElapsedMs = 0, rpc_AllErrors = False,
       rpc_StatusCodes = [], rpc_StatusCodeMin = None, rpc_MessageKeywords = []\<rparr>,
     rc_Intercepts = [],
     rc_RateLimit = \<lparr>crl_Enabled = False, crl_RequestsPerSecond = 0, crl_Burst = 0\<rparr>,
     rc_Cache = \<lparr>ccc_Enabled = True, ccc_MaxEntries = 0, ccc_TTLSec = 0\<rparr>,
     rc_KeyRotation = \<lparr>ckr_Enabled = False\<rparr>,
     rc_Queue = \<lparr>cqc_MaxConcurrent = 0, cqc_HighPriorityPct = 0\<rparr>,
     rc_Compression = \<lparr>ccmp_Level = 0, ccmp_MinSizeBytes = 0\<rparr>,
     rc_SSRF = \<lparr>cssrf_AllowLocalhost = False, cssrf_AllowPrivateIP = False\<rparr>\<rparr>"

definition demo_config :: Config where
  "demo_config = \<lparr>
     cfg_Server = \<lparr>srv_Listen = [], srv_ReadTimeoutMs = 0, srv_WriteTimeoutMs = 0,
       srv_IdleTimeoutMs = 0, srv_MaxBodyBytes = 0\<rparr>,
     cfg_Admin = \<lparr>adm_Enabled = False, adm_BootstrapToken = [], adm_CookieSigningKey = [],
       adm_PublishHistoryLimit = 0, adm_Tokens = [], adm_Language = [],
       adm_RateLimit = \<lparr>arl_RequestsPerSecond = 0, arl_Burst = 0\<rparr>\<rparr>,
     cfg_Routing = demo_routing,
     cfg_Providers = [demo_provider],
     cfg_Telemetry = \<lparr>tel_SQLitePath = [], tel_RetentionDays = 0, tel_AggregationSec = 0,
       tel_CacheTTLSec = 0\<rparr>,
     cfg_Pricing = \<lparr>cpc_CachePath = [], cpc_RefreshIntervalHours = 2,
       cpc_RefreshIntervalMinutes = 0, cpc_RequestTimeoutMs = 0, cpc_Sources = [],
       cpc_FX = \<lparr>cfx_Enabled = None, cfx_CachePath = [], cfx_RefreshIntervalMinutes = 0\<rparr>,
       cpc_ManualPrices = [], cpc_sourcesSet = False\<rparr>,
     cfg_Benchmarking = \<lparr>bmc_Enabled = True, bmc_DefaultSuite = [],
       bmc_Judge = \<lparr>bj_PublicModel = ''M2'', bj_Provider = [], bj_TimeoutMs = 0\<rparr>,
       bmc_Limits = \<lparr>bl_MaxParallelRuns = 0, bl_MaxParallelCases = 0, bl_PerCaseTimeoutMs = 0\<rparr>,
       bmc_VerdictThresholds = \<lparr>bvt_NormalMaxGap = 0, bvt_SuspectMaxGap = 0,
         bvt_HighSuspectProtocolFailures = 0\<rparr>,
       bmc_Aliases = []\<rparr>,
     cfg_Compat = \<lparr>cmc_Bridge = \<lparr>brc_Enabled = False, brc_Rules = [], brc_ExcludeUserAgents = []\<rparr>,
       cmc_Fallback = \<lparr>fbc_Enabled = False, fbc_DetectRepetition = False, fbc_Models = None\<rparr>\<rparr>\<rparr>"

lemma demo_config_valid: "Validate demo_config = None"
  by code_simp

section \<open>Properties\<close>

text \<open>
  Normalising a configuration twice is normalising it once, over every section: no default
  that the first pass fills in is changed by the second. The hypothesis keeps the conversion of
  the pricing interval from hours to minutes inside 64 bits.
\<close>

theorem Normalize_idempotent:
  assumes "cpc_RefreshIntervalHours (cfg_Pricing c) * 60 \<le> max_i64"
  shows "Normalize (Normalize c) = Normalize c"
  by (simp add: Normalize_def PricingConfig_normalize_idem [OF assms])

theorem Normalize_idempotent_witness: "Normalize (Normalize demo_config) = Normalize demo_config"
  by (rule Normalize_idempotent) (simp add: demo_config_def max_i64_def)

text \<open>
  C40 A configuration that \<open>Validate\<close> accepts has a provider; every provider has a name, a base
  URL and one of the two known adapters after normalisation, and rate limits that are not
  negative and, when enabled, positive; an enabled admin surface has secrets of at least 32
  bytes; and the judge of an enabled benchmark is advertised by an enabled provider.
\<close>

theorem Validate_sound:
  assumes "Validate c = None"
  shows "cfg_Providers c \<noteq> [] \<and>
    (\<forall>p \<in> set (cfg_Providers c).
       prv_Name p \<noteq> [] \<and> prv_BaseURL p \<noteq> [] \<and>
       NormalizeProtocolAdapter (prv_ProtocolAdapter p) (prv_AnthropicBaseURL p)
         \<in> {ProtocolAdapterOpenAIChatCompletions, ProtocolAdapterAnthropicMessages} \<and>
       0 \<le> crl_RequestsPerSecond (prv_RateLimit p) \<and> 0 \<le> crl_Burst (prv_RateLimit p) \<and>
       (crl_Enabled (prv_RateLimit p) \<longrightarrow> 0 < crl_RequestsPerSecond (prv_RateLimit p))) \<and>
    (adm_Enabled (cfg_Admin c) \<longrightarrow>
       32 \<le> length (adm_BootstrapToken (cfg_Admin c)) \<and>
       32 \<le> length (adm_CookieSigningKey (cfg_Admin c))) \<and>
    (bmc_Enabled (cfg_Benchmarking c) \<longrightarrow>
       (\<exists>p \<in> set (cfg_Providers c).
          judge_served_by (trim_space (bj_Provider (bmc_Judge (cfg_Benchmarking c))))
            (trim_space (bj_PublicModel (bmc_Judge (cfg_Benchmarking c)))) p))"
  using ValidateD [OF assms] Validate_providerD Validate_adminD Validate_benchmarkD
  by (metis in_set_conv_nth)

theorem Validate_sound_witness:
  "bmc_Enabled (cfg_Benchmarking demo_config) \<and>
   (\<exists>p \<in> set (cfg_Providers demo_config). prv_BaseURL p \<noteq> [] \<and> judge_served_by [] ''M2'' p)"
proof -
  have "bmc_Enabled (cfg_Benchmarking demo_config)"
    "trim_space (bj_Provider (bmc_Judge (cfg_Benchmarking demo_config))) = []"
    "trim_space (bj_PublicModel (bmc_Judge (cfg_Benchmarking demo_config))) = ''M2''"
    by code_simp+
  with Validate_sound [OF demo_config_valid] show ?thesis by metis
qed

text \<open>
  \<open>MillisecondsToDuration\<close> never wraps around: for a positive argument the result is the
  exact duration, cut off at the largest whole number of milliseconds that 64 bits hold, and for
  every other argument it is the fallback.
\<close>

theorem MillisecondsToDuration_exact:
  "MillisecondsToDuration ms fallback =
     (if 0 < ms then min ms maxMillisecondsDuration * millisecond else fallback) \<and>
   (0 < ms \<longrightarrow> 0 < MillisecondsToDuration ms fallback \<and>
               MillisecondsToDuration ms fallback \<le> max_i64)"
  by (auto simp: MillisecondsToDuration_def maxMillisecondsDuration_def max_i64_def
        millisecond_def min_i64_def min_def)

theorem MillisecondsToDuration_exact_witness:
  "MillisecondsToDuration 180000000000000 30 = 9223372036854000000"
  using MillisecondsToDuration_exact [of 180000000000000 30]
  by (simp add: maxMillisecondsDuration_def max_i64_def millisecond_def)

end
