(* ===== verification/Compiler.thy ===== *)
theory Compiler
  imports Config_Rules
begin

text \<open>
  The compiler of \<open>internal/control/compiler/compiler.go\<close>: it turns the authoring
  configuration into the runtime snapshot. The clock reading and the random snapshot id are
  arguments; so are \<open>url.Parse\<close> and \<open>URL.String\<close>, of which the compiler uses the fields of
  \<open>URL\<close> below; \<open>url_rest\<close> stands for the fields that it neither reads nor sets.
\<close>

record URL =
  url_Scheme :: string
  url_Host :: string
  url_Path :: string
  url_RawQuery :: string
  url_Fragment :: string
  url_rest :: string

type_synonym url_parser = "string \<Rightarrow> URL option"
type_synonym url_printer = "URL \<Rightarrow> string"

definition defaultQuotaRecoveryIntervalMin :: goint where "defaultQuotaRecoveryIntervalMin = 60"
definition minimumQuotaRecoveryIntervalMin :: goint where "minimumQuotaRecoveryIntervalMin = 5"

definition gatewayEnabledRoutes :: "string list" where
  "gatewayEnabledRoutes =
     [''POST /v1/chat/completions'', ''POST /v1/messages'', ''GET /v1/models'', ''GET /-/health'']"

datatype snapshot_error =
    SnapshotIDMissing | SchemaUnsupported goint | ListenMissing | ProvidersMissing
  | SnapProviderIDMissing nat | SnapBaseURLMissing nat | SnapModelTableMissing nat

datatype compile_error =
    ConfigNil
  | CompileNameEmpty nat | CompileBaseURLEmpty nat | CompileModelsEmpty nat
  | CompileAnthropicURLInvalid nat | CompileAnthropicURLRelative nat
  | SnapshotInvalid snapshot_error
  | RevisionIDRequired | RevisionSourceMissing | LoadConfigFailed string | RevisionNotFound string

section \<open>Sections of the snapshot\<close>

definition compileIngress :: "ServerConfig \<Rightarrow> IngressConfig" where
  "compileIngress cfg = \<lparr>
     ing_Listen = srv_Listen cfg, ing_ReadTimeoutMs = srv_ReadTimeoutMs cfg,
     ing_WriteTimeoutMs = (if srv_WriteTimeoutMs cfg \<le> 0 then 0 else srv_WriteTimeoutMs cfg),
     ing_IdleTimeoutMs = srv_IdleTimeoutMs cfg, ing_MaxBodyBytes = srv_MaxBodyBytes cfg\<rparr>"

definition compileCompatPolicy :: "CompatConfig \<Rightarrow> CompatPolicy" where
  "compileCompatPolicy cfg = \<lparr>cp_Bridge = \<lparr>
     bp_Enabled = brc_Enabled (cmc_Bridge cfg),
     bp_Rules =
       filter (\<lambda>r. br_From r \<noteq> [] \<and> br_To r \<noteq> [])
         (map (\<lambda>r. \<lparr>br_From = trim_space (cbr_From r), br_To = trim_space (cbr_To r)\<rparr>)
           (brc_Rules (cmc_Bridge cfg))),
     bp_ExcludeUserAgents = brc_ExcludeUserAgents (cmc_Bridge cfg)\<rparr>\<rparr>"

definition compilePricing :: "CorePricingConfig \<Rightarrow> PricingConfig" where
  "compilePricing cfg = \<lparr>
     pc_CachePath = cpc_CachePath cfg,
     pc_RefreshIntervalMinutes = cpc_RefreshIntervalMinutes cfg,
     pc_RequestTimeoutMs = cpc_RequestTimeoutMs cfg,
     pc_Sources = map (\<lambda>s. \<lparr>psrc_ID = cps_ID s, psrc_Vendor = cps_Vendor s, psrc_URL = cps_URL s,
       psrc_Enabled = PricingSourceConfig_IsEnabled s, psrc_TimeoutMs = cps_TimeoutMs s,
       psrc_RefreshIntervalMinutes = cps_RefreshIntervalMinutes s\<rparr>) (cpc_Sources cfg),
     pc_FX = \<lparr>pfx_Enabled = PricingFXConfig_IsEnabled (cpc_FX cfg),
       pfx_CachePath = cfx_CachePath (cpc_FX cfg),
       pfx_RefreshIntervalMinutes = cfx_RefreshIntervalMinutes (cpc_FX cfg)\<rparr>,
     pc_ManualPrices = map (\<lambda>m. \<lparr>pmp_Provider = cmpr_Provider m, pmp_Model = cmpr_Model m,
       pmp_Currency = cmpr_Currency m, pmp_InputPer1M = cmpr_InputPer1M m,
       pmp_CachedInputPer1M = cmpr_CachedInputPer1M m, pmp_OutputPer1M = cmpr_OutputPer1M m,
       pmp_Enabled = PricingManualPrice_IsEnabled m, pmp_Source = cmpr_Source m\<rparr>)
       (cpc_ManualPrices cfg)\<rparr>"

definition resolveQuotaRecoveryIntervalMin :: "FailurePolicyConfig \<Rightarrow> goint" where
  "resolveQuotaRecoveryIntervalMin policy =
     (if fpc_DisableCooldown policy then 0
      else let configured = fpc_QuotaRecoveryIntervalMin policy in
        if configured \<le> 0 then defaultQuotaRecoveryIntervalMin
        else if configured < minimumQuotaRecoveryIntervalMin then minimumQuotaRecoveryIntervalMin
        else configured)"

definition compileRateLimit :: "CoreRateLimitConfig \<Rightarrow> RateLimitConfig" where
  "compileRateLimit l = \<lparr>rl_Enabled = crl_Enabled l,
     rl_RequestsPerSecond = crl_RequestsPerSecond l, rl_Burst = crl_Burst l\<rparr>"

text \<open>Fields that the source leaves out of its struct literal have their zero value.\<close>

definition compileRoutingPolicy :: "RoutingConfig \<Rightarrow> RoutingPolicy" where
  "compileRoutingPolicy cfg = \<lparr>
     rp_Strategy = rc_Strategy cfg, rp_MaxRetries = rc_MaxRetries cfg,
     rp_RetryBackoff = \<lparr>rb_InitialMs = rbc_InitialMs (rc_RetryBackoff cfg),
       rb_MaxMs = rbc_MaxMs (rc_RetryBackoff cfg)\<rparr>,
     rp_Health = \<lparr>hc_Enabled = hcc_Enabled (rc_Health cfg),
       hc_IntervalSec = hcc_IntervalSec (rc_Health cfg), hc_TimeoutMs = hcc_TimeoutMs (rc_Health cfg),
       hc_Path = hcc_Path (rc_Health cfg)\<rparr>,
     rp_SSRF = \<lparr>ssrf_AllowLocalhost = cssrf_AllowLocalhost (rc_SSRF cfg),
       ssrf_AllowPrivateIP = cssrf_AllowPrivateIP (rc_SSRF cfg)\<rparr>,
     rp_StickySessions = \<lparr>ssc_Enabled = cssc_Enabled (rc_StickySessions cfg),
       ssc_TTLSec = cssc_TTLSec (rc_StickySessions cfg)\<rparr>,
     rp_FailurePolicy = \<lparr>fp_Threshold = fpc_Threshold (rc_FailurePolicy cfg),
       fp_CooldownSec = fpc_CooldownSec (rc_FailurePolicy cfg),
       fp_PassthroughAfterSec = fpc_PassthroughAfterSec (rc_FailurePolicy cfg),
       fp_QuotaRecoveryIntervalMin = resolveQuotaRecoveryIntervalMin (rc_FailurePolicy cfg),
       fp_DisableCooldown = fpc_DisableCooldown (rc_FailurePolicy cfg)\<rparr>,
     rp_Retry = \<lparr>rty_InfiniteOnError = rpc_InfiniteOnError (rc_Retry cfg),
       rty_MaxElapsedMs = rpc_MaxElapsedMs (rc_Retry cfg), rty_AllErrors = rpc_AllErrors (rc_Retry cfg),
       rty_StatusCodes = rpc_StatusCodes (rc_Retry cfg),
       rty_StatusCodeMin = (case rpc_StatusCodeMin (rc_Retry cfg) of None \<Rightarrow> 0 | Some m \<Rightarrow> m),
       rty_MessageKeywords = rpc_MessageKeywords (rc_Retry cfg)\<rparr>,
     rp_RateLimit = compileRateLimit (rc_RateLimit cfg),
     rp_Cache = \<lparr>cc_Enabled = ccc_Enabled (rc_Cache cfg), cc_MaxEntries = ccc_MaxEntries (rc_Cache cfg),
       cc_TTLSec = ccc_TTLSec (rc_Cache cfg), cc_MaxBytesMB = 0\<rparr>,
     rp_Queue = \<lparr>qc_Enabled = False, qc_MaxConcurrent = cqc_MaxConcurrent (rc_Queue cfg),
       qc_HighPriorityPct = cqc_HighPriorityPct (rc_Queue cfg)\<rparr>,
     rp_KeyRotation = \<lparr>krc_Enabled = ckr_Enabled (rc_KeyRotation cfg)\<rparr>,
     rp_Compression = \<lparr>cmp_Enabled = False, cmp_MinSizeBytes = ccmp_MinSizeBytes (rc_Compression cfg),
       cmp_Level = ccmp_Level (rc_Compression cfg)\<rparr>\<rparr>"

definition compileAdminTokens :: "AdminConfig \<Rightarrow> AdminTokenEntry list" where
  "compileAdminTokens cfg =
     (if trim_space (adm_BootstrapToken cfg) \<noteq> []
      then [\<lparr>ate_Name = ''bootstrap'', ate_Token = adm_BootstrapToken cfg, ate_Role = ''admin''\<rparr>]
      else []) @
     map (\<lambda>t. \<lparr>ate_Name = tok_Name t, ate_Token = tok_Token t,
            ate_Role = (if tok_Role t \<noteq> ''admin'' \<and> tok_Role t \<noteq> ''viewer'' then ''viewer''
                        else tok_Role t)\<rparr>)
       (filter (\<lambda>t. trim_space (tok_Token t) \<noteq> []) (adm_Tokens cfg))"

section \<open>Providers\<close>

definition normalizeUpstreamURL :: "url_parser \<Rightarrow> url_printer \<Rightarrow> string \<Rightarrow> string" where
  "normalizeUpstreamURL parse print rawURL =
     (let raw = trim_space rawURL in
      if raw = [] then []
      else case parse raw of
        None \<Rightarrow> trim_right_char (CHR ''/'') raw
      | Some u \<Rightarrow>
          if url_Scheme u = [] \<or> url_Host u = [] then trim_right_char (CHR ''/'') raw
          else print (u\<lparr>url_Scheme := to_lower (url_Scheme u), url_Host := to_lower (url_Host u),
                   url_Path := trim_right_char (CHR ''/'') (url_Path u),
                   url_RawQuery := [], url_Fragment := []\<rparr>))"

definition logicalUpstreamID :: "url_parser \<Rightarrow> url_printer \<Rightarrow> string \<Rightarrow> string \<Rightarrow> string \<Rightarrow> string" where
  "logicalUpstreamID parse print providerID baseURL anthropicBaseURL =
     (let effectiveURL = (if trim_space anthropicBaseURL = [] then trim_space baseURL
                          else trim_space anthropicBaseURL);
          normalized = normalizeUpstreamURL parse print effectiveURL
      in if normalized \<noteq> [] then normalized else trim_space providerID)"

definition compileCredentials :: "Provider \<Rightarrow> Credentials" where
  "compileCredentials p =
     (let apiKey = trim_space (prv_APIKey p) in
      if apiKey = [] then \<lparr>cred_Kind = [], cred_Value = [], cred_HeaderName = []\<rparr>
      else if trim_space (prv_AnthropicBaseURL p) \<noteq> [] \<or>
              NormalizeProtocolAdapter (prv_ProtocolAdapter p) (prv_AnthropicBaseURL p)
                = ProtocolAdapterAnthropicMessages
      then \<lparr>cred_Kind = ''api_key'', cred_Value = apiKey, cred_HeaderName = ''x-api-key''\<rparr>
      else \<lparr>cred_Kind = ''bearer'', cred_Value = apiKey, cred_HeaderName = []\<rparr>)"

definition compileHeaders :: "(string \<times> string) list \<Rightarrow> (string \<times> string) list" where
  "compileHeaders headers =
     fold (\<lambda>(key, v) compiled.
             let k = trim_space key in if k = [] then compiled else AList.update k v compiled)
       headers []"

text \<open>The loop of \<open>compileModelTable\<close>, with the set of the models it has seen.\<close>

fun compileModels :: "(string \<times> string) list \<Rightarrow> string list \<Rightarrow> string list \<Rightarrow> ModelMapping list" where
  "compileModels aliases seen [] = []"
| "compileModels aliases seen (raw # models) =
     (let model = trim_space raw in
      if model = [] then compileModels aliases seen models
      else if List.member seen model then compileModels aliases seen models
      else \<lparr>mm_PublicModel = model,
             mm_UpstreamModel =
               (case map_of aliases model of
                  Some alias \<Rightarrow> if trim_space alias \<noteq> [] then trim_space alias else model
                | None \<Rightarrow> model)\<rparr>
           # compileModels aliases (model # seen) models)"

definition compileModelTable :: "string list \<Rightarrow> (string \<times> string) list \<Rightarrow> ModelMapping list" where
  "compileModelTable models aliases = compileModels aliases [] models"

definition compileProvider ::
  "url_parser \<Rightarrow> url_printer \<Rightarrow> Provider \<Rightarrow> nat \<Rightarrow> compile_error + ProviderSnapshot" where
  "compileProvider parse print p index =
     (let providerID = trim_space (prv_Name p);
          baseURL = trim_space (prv_BaseURL p);
          modelTable = compileModelTable (prv_Models p) (prv_ModelAliases p);
          anthropicBaseURL = trim_space (prv_AnthropicBaseURL p);
          protocolAdapter = NormalizeProtocolAdapter (prv_ProtocolAdapter p) (prv_AnthropicBaseURL p);
          anthropic = (protocolAdapter = ProtocolAdapterAnthropicMessages)
      in case first_error
          [check (providerID = []) (CompileNameEmpty index),
           check (baseURL = []) (CompileBaseURLEmpty index),
           check (modelTable = []) (CompileModelsEmpty index),
           (if anthropicBaseURL = [] then None else case parse anthropicBaseURL of
              None \<Rightarrow> Some (CompileAnthropicURLInvalid index)
            | Some u \<Rightarrow> check (url_Scheme u = [] \<or> url_Host u = []) (CompileAnthropicURLRelative index))]
         of Some e \<Rightarrow> Inl e
          | None \<Rightarrow> Inr \<lparr>
              ps_ProviderID = providerID,
              ps_UpstreamID = logicalUpstreamID parse print providerID baseURL anthropicBaseURL,
              ps_ProtocolAdapter = protocolAdapter,
              ps_BaseURL = baseURL, ps_AnthropicBaseURL = anthropicBaseURL,
              ps_Credentials = compileCredentials p, ps_Headers = compileHeaders (prv_Headers p),
              ps_ModelTable = modelTable,
              ps_CapabilityTable = \<lparr>cap_SupportsChatCompletions = True, cap_SupportsStreaming = True,
                cap_UsageAccounting = (if anthropic then ''anthropic_usage'' else ''openai_usage''),
                cap_ErrorClassifier = (if anthropic then ''anthropic_error'' else ''openai_error'')\<rparr>,
              ps_ExecutionPolicy = \<lparr>ep_Enabled = Provider_IsEnabled p, ep_Weight = prv_Weight p,
                ep_TimeoutMs = prv_TimeoutMs p, ep_SameRetries = prv_SameRetries p,
                ep_ProviderClass = prv_ProviderClass p,
                ep_RateLimit = compileRateLimit (prv_RateLimit p)\<rparr>,
              ps_FallbackModels = prv_FallbackModels p, ps_APIKeys = []\<rparr>)"

fun compileProviders ::
  "url_parser \<Rightarrow> url_printer \<Rightarrow> nat \<Rightarrow> Provider list \<Rightarrow> compile_error + ProviderSnapshot list" where
  "compileProviders parse print i [] = Inr []"
| "compileProviders parse print i (p # ps) =
     (if \<not> Provider_IsEnabled p then compileProviders parse print (Suc i) ps
      else case compileProvider parse print p i of
        Inl e \<Rightarrow> Inl e
      | Inr s \<Rightarrow> (case compileProviders parse print (Suc i) ps of
          Inl e \<Rightarrow> Inl e
        | Inr ss \<Rightarrow> Inr (s # ss)))"

section \<open>Validation and the whole compilation\<close>

definition Compiler_Validate_provider :: "nat \<Rightarrow> ProviderSnapshot \<Rightarrow> snapshot_error option" where
  "Compiler_Validate_provider i p = first_error
     [check (ps_ProviderID p = []) (SnapProviderIDMissing i),
      check (ps_BaseURL p = []) (SnapBaseURLMissing i),
      check (ps_ModelTable p = []) (SnapModelTableMissing i)]"

definition Compiler_Validate :: "Snapshot \<Rightarrow> snapshot_error option" where
  "Compiler_Validate snap = first_error
     [check (meta_SnapshotID (snap_Meta snap) = []) SnapshotIDMissing,
      check (meta_SchemaVersion (snap_Meta snap) \<noteq> CurrentSchemaVersion)
        (SchemaUnsupported (meta_SchemaVersion (snap_Meta snap))),
      check (ing_Listen (snap_Ingress snap) = []) ListenMissing,
      check (snap_Providers snap = []) ProvidersMissing,
      for_each Compiler_Validate_provider 0 (snap_Providers snap)]"

definition CompileFromConfig ::
  "url_parser \<Rightarrow> url_printer \<Rightarrow> gotime \<Rightarrow> string \<Rightarrow> Config option \<Rightarrow> compile_error + Snapshot" where
  "CompileFromConfig parse print now snapshotID source =
     (case source of
        None \<Rightarrow> Inl ConfigNil
      | Some cfg \<Rightarrow>
          (let normalized = Normalize cfg in
           case compileProviders parse print 0 (cfg_Providers normalized) of
             Inl e \<Rightarrow> Inl e
           | Inr providers \<Rightarrow>
               (let snap = \<lparr>
                  snap_Meta = \<lparr>meta_SnapshotID = snapshotID, meta_SchemaVersion = CurrentSchemaVersion,
                    meta_RevisionID = [], meta_GeneratedAt = now, meta_CompilerVersion = ''1.0.0''\<rparr>,
                  snap_Ingress = compileIngress (cfg_Server normalized),
                  snap_Contract = \<lparr>con_PublicAPI = ''openai_chat_completions'',
                    con_EnabledRoutes = gatewayEnabledRoutes\<rparr>,
                  snap_Providers = providers,
                  snap_RoutingPolicy = compileRoutingPolicy (cfg_Routing normalized),
                  snap_CompatPolicy = compileCompatPolicy (cfg_Compat normalized),
                  snap_TelemetryEmit = \<lparr>tec_Channel = ''telemetry-ingest'',
                    tec_Batching = \<lparr>bat_MaxBatchSize = 256, bat_FlushIntervalMs = 100\<rparr>\<rparr>,
                  snap_Pricing = compilePricing (cfg_Pricing normalized),
                  snap_AdminTokens = compileAdminTokens (cfg_Admin normalized)\<rparr>
                in case Compiler_Validate snap of
                     Some e \<Rightarrow> Inl (SnapshotInvalid e)
                   | None \<Rightarrow> Inr snap)))"

text \<open>
  \<open>Compile\<close> loads the configuration of a stored revision: the source is absent, or returns an
  error, no configuration, or a configuration.
\<close>

definition Compile ::
  "url_parser \<Rightarrow> url_printer \<Rightarrow> gotime \<Rightarrow> string \<Rightarrow> (string \<Rightarrow> string + Config option) option
     \<Rightarrow> string \<Rightarrow> compile_error + Snapshot" where
  "Compile parse print now snapshotID revisionSource rawRevisionID =
     (let revisionID = trim_space rawRevisionID in
      if revisionID = [] then Inl RevisionIDRequired
      else case revisionSource of
        None \<Rightarrow> Inl RevisionSourceMissing
      | Some load \<Rightarrow> (case load revisionID of
          Inl e \<Rightarrow> Inl (LoadConfigFailed e)
        | Inr None \<Rightarrow> Inl (RevisionNotFound revisionID)
        | Inr (Some cfg) \<Rightarrow> (case CompileFromConfig parse print now snapshotID (Some cfg) of
            Inl e \<Rightarrow> Inl e
          | Inr snap \<Rightarrow> Inr (snap\<lparr>snap_Meta := (snap_Meta snap)\<lparr>meta_RevisionID := revisionID\<rparr>\<rparr>))))"

section \<open>Lemmas\<close>

lemma compileModels_props:
  "distinct (map mm_PublicModel (compileModels aliases seen models)) \<and>
   set (map mm_PublicModel (compileModels aliases seen models))
     = {m. m \<noteq> [] \<and> m \<in> trim_space ` set models \<and> m \<notin> set seen}"
proof (induction aliases seen models rule: compileModels.induct)
  case (2 aliases seen raw models)
  then show ?case by (auto simp: Let_def)
qed simp

lemma compileModels_upstream:
  "\<lparr>mm_PublicModel = m, mm_UpstreamModel = u\<rparr> \<in> set (compileModels aliases seen models) \<Longrightarrow>
     u = (case map_of aliases m of
            Some a \<Rightarrow> if trim_space a \<noteq> [] then trim_space a else m | None \<Rightarrow> m)"
  by (induction aliases seen models rule: compileModels.induct) (auto simp: Let_def split: if_splits)

lemma compileProviders_Inr:
  "compileProviders parse print i ps = Inr ss \<Longrightarrow>
     list_all2 (\<lambda>p s. \<exists>k. compileProvider parse print p k = Inr s) (filter Provider_IsEnabled ps) ss"
  by (induction parse print i ps arbitrary: ss rule: compileProviders.induct)
     (auto split: if_splits sum.splits)

lemma compileProvider_Inr:
  assumes "compileProvider parse print p k = Inr s"
  shows "ps_ProviderID s = trim_space (prv_Name p)" "ps_BaseURL s = trim_space (prv_BaseURL p)"
    "trim_space (prv_Name p) \<noteq> []" "trim_space (prv_BaseURL p) \<noteq> []"
    "ps_ModelTable s = compileModelTable (prv_Models p) (prv_ModelAliases p)"
    "ps_ModelTable s \<noteq> []" "ep_Enabled (ps_ExecutionPolicy s) = Provider_IsEnabled p"
    "ps_APIKeys s = []" "ps_FallbackModels s = prv_FallbackModels p"
    "ps_AnthropicBaseURL s = trim_space (prv_AnthropicBaseURL p)"
    "ps_UpstreamID s = logicalUpstreamID parse print (trim_space (prv_Name p))
       (trim_space (prv_BaseURL p)) (trim_space (prv_AnthropicBaseURL p))"
  using assms
  by (auto simp: compileProvider_def Let_def first_error_None split: option.splits)

lemma CompileFromConfig_Inr:
  assumes "CompileFromConfig parse print now sid (Some c) = Inr snap"
  shows "Compiler_Validate snap = None"
    "compileProviders parse print 0 (cfg_Providers (Normalize c)) = Inr (snap_Providers snap)"
    "snap_RoutingPolicy snap = compileRoutingPolicy (cfg_Routing (Normalize c))"
    "snap_AdminTokens snap = compileAdminTokens (cfg_Admin (Normalize c))"
    "meta_SnapshotID (snap_Meta snap) = sid" "meta_GeneratedAt (snap_Meta snap) = now"
  using assms by (auto simp: CompileFromConfig_def Let_def split: sum.splits option.splits)

lemma compiled_provider:
  assumes "CompileFromConfig parse print now sid (Some c) = Inr snap" "s \<in> set (snap_Providers snap)"
  obtains p k where "compileProvider parse print p k = Inr s"
proof -
  have "list_all2 (\<lambda>p s. \<exists>k. compileProvider parse print p k = Inr s) ps ss \<Longrightarrow> s \<in> set ss \<Longrightarrow>
      \<exists>p k. compileProvider parse print p k = Inr s" for ps ss
    by (induction rule: list_all2_induct) auto
  with compileProviders_Inr [OF CompileFromConfig_Inr(2) [OF assms(1)]] assms(2) that
  show thesis by blast
qed

lemma Provider_normalize_fields [simp]:
  "prv_Name (Provider_normalize p) = prv_Name p" "prv_Models (Provider_normalize p) = prv_Models p"
  "prv_ModelAliases (Provider_normalize p) = prv_ModelAliases p"
  "Provider_IsEnabled (Provider_normalize p) = Provider_IsEnabled p"
  by (simp_all add: Provider_normalize_def Provider_IsEnabled_def)

lemma logicalUpstreamID_not_blank:
  assumes "trim_space providerID \<noteq> []"
    and print: "\<And>u. url_Scheme u \<noteq> [] \<Longrightarrow> trim_space (print u) \<noteq> []"
  shows "trim_space (logicalUpstreamID parse print providerID baseURL anthropicBaseURL) \<noteq> []"
proof -
  have "trim_space (normalizeUpstreamURL parse print x) \<noteq> []"
    if "normalizeUpstreamURL parse print x \<noteq> []" for x
    using that trim_right_char_not_blank [of "CHR ''/''" x]
    by (auto simp: normalizeUpstreamURL_def Let_def split: option.splits if_splits intro!: print)
  then show ?thesis
    using assms(1) by (simp add: logicalUpstreamID_def Let_def)
qed

section \<open>A snapshot for the witnesses\<close>

definition demo_snapshot :: Snapshot where
  "demo_snapshot = projr (CompileFromConfig (\<lambda>_. None) (\<lambda>_. []) 1 ''snap_1'' (Some demo_config))"

lemma demo_snapshot_compiled:
  "CompileFromConfig (\<lambda>_. None) (\<lambda>_. []) 1 ''snap_1'' (Some demo_config) = Inr demo_snapshot"
proof -
  have "isl (CompileFromConfig (\<lambda>_. None) (\<lambda>_. []) 1 ''snap_1'' (Some demo_config)) = False"
    by code_simp
  then show ?thesis
    unfolding demo_snapshot_def
    by (cases "CompileFromConfig (\<lambda>_. None) (\<lambda>_. []) 1 ''snap_1'' (Some demo_config)") auto
qed

section \<open>Properties\<close>

text \<open>
  C39 A successful compilation passes the snapshot validation and compiles exactly the enabled
  providers of the configuration, in its order; each compiled provider is enabled and serves at
  least one model, and its model table names no public model twice: its public models are the
  configured ones with white space trimmed and blanks dropped.
\<close>

theorem CompileFromConfig_sound:
  assumes "CompileFromConfig parse print now sid (Some c) = Inr snap"
  shows "Compiler_Validate snap = None \<and>
    list_all2 (\<lambda>p s.
        ps_ProviderID s = trim_space (prv_Name p) \<and> ep_Enabled (ps_ExecutionPolicy s) \<and>
        ps_ModelTable s \<noteq> [] \<and> distinct (map mm_PublicModel (ps_ModelTable s)) \<and>
        mm_PublicModel ` set (ps_ModelTable s) = trim_space ` set (prv_Models p) - {[]})
      (filter Provider_IsEnabled (cfg_Providers c)) (snap_Providers snap)"
proof -
  let ?ps = "filter Provider_IsEnabled (map Provider_normalize (cfg_Providers c))"
  have "list_all2 (\<lambda>p s. \<exists>k. compileProvider parse print p k = Inr s) ?ps (snap_Providers snap)"
    using compileProviders_Inr [OF CompileFromConfig_Inr(2) [OF assms]] by (simp add: Normalize_def)
  then have "list_all2 (\<lambda>p s. \<exists>k. compileProvider parse print (Provider_normalize p) k = Inr s)
      (filter Provider_IsEnabled (cfg_Providers c)) (snap_Providers snap)"
    by (simp add: filter_map comp_def list_all2_map1)
  from this have "list_all2 (\<lambda>p s.
        ps_ProviderID s = trim_space (prv_Name p) \<and> ep_Enabled (ps_ExecutionPolicy s) \<and>
        ps_ModelTable s \<noteq> [] \<and> distinct (map mm_PublicModel (ps_ModelTable s)) \<and>
        mm_PublicModel ` set (ps_ModelTable s) = trim_space ` set (prv_Models p) - {[]})
      (filter Provider_IsEnabled (cfg_Providers c)) (snap_Providers snap)"
  proof (rule list.rel_mono_strong)
    fix p s
    assume p: "p \<in> set (filter Provider_IsEnabled (cfg_Providers c))"
      and "\<exists>k. compileProvider parse print (Provider_normalize p) k = Inr s"
    then obtain k where k: "compileProvider parse print (Provider_normalize p) k = Inr s" by blast
    show "ps_ProviderID s = trim_space (prv_Name p) \<and> ep_Enabled (ps_ExecutionPolicy s) \<and>
        ps_ModelTable s \<noteq> [] \<and> distinct (map mm_PublicModel (ps_ModelTable s)) \<and>
        mm_PublicModel ` set (ps_ModelTable s) = trim_space ` set (prv_Models p) - {[]}"
      using p compileProvider_Inr [OF k] compileModels_props [of "prv_ModelAliases p" "[]" "prv_Models p"]
      by (auto simp: compileModelTable_def)
  qed
  with CompileFromConfig_Inr(1) [OF assms] show ?thesis by simp
qed

theorem CompileFromConfig_sound_witness:
  "map ps_ProviderID (snap_Providers demo_snapshot) = [''alpha''] \<and>
   mm_PublicModel ` set (ps_ModelTable (hd (snap_Providers demo_snapshot))) = {''m1'', ''m2''}"
proof -
  have en: "Provider_IsEnabled demo_provider" "trim_space (prv_Name demo_provider) = ''alpha''"
    "map trim_space (prv_Models demo_provider) = [''m1'', ''m1'', ''m2'']"
    by code_simp+
  then have "set (map trim_space (prv_Models demo_provider)) = {''m1'', ''m2''}"
    by (simp only: en) simp
  then have models: "trim_space ` set (prv_Models demo_provider) = {''m1'', ''m2''}"
    by (simp only: set_map)
  have "cfg_Providers demo_config = [demo_provider]"
    by (simp add: demo_config_def)
  with CompileFromConfig_sound [OF demo_snapshot_compiled] en(1) have
    "list_all2 (\<lambda>p s.
        ps_ProviderID s = trim_space (prv_Name p) \<and> ep_Enabled (ps_ExecutionPolicy s) \<and>
        ps_ModelTable s \<noteq> [] \<and> distinct (map mm_PublicModel (ps_ModelTable s)) \<and>
        mm_PublicModel ` set (ps_ModelTable s) = trim_space ` set (prv_Models p) - {[]})
      [demo_provider] (snap_Providers demo_snapshot)"
    by simp
  then obtain s where "snap_Providers demo_snapshot = [s]" "ps_ProviderID s = ''alpha''"
    "mm_PublicModel ` set (ps_ModelTable s) = {''m1'', ''m2''} - {[]}"
    unfolding list_all2_Cons1 list.rel_distinct(1) en(2) models by (auto simp only: list_all2_Nil)
  then show ?thesis by simp
qed

text \<open>
  Every compiled provider carries an upstream identifier that is not blank, whatever URL it was
  given, so the publisher never finds a compiled provider whose derived fields are missing. The
  hypothesis is \<open>URL.String\<close>'s: it prints the scheme first, so a URL with a scheme does not print
  as a blank string.
\<close>

theorem compiled_UpstreamID_not_blank:
  assumes "CompileFromConfig parse print now sid (Some c) = Inr snap"
    and "s \<in> set (snap_Providers snap)"
    and print_scheme: "\<And>u. url_Scheme u \<noteq> [] \<Longrightarrow> trim_space (print u) \<noteq> []"
  shows "trim_space (ps_UpstreamID s) \<noteq> []"
proof -
  obtain p k where "compileProvider parse print p k = Inr s"
    using compiled_provider [OF assms(1,2)] .
  from compileProvider_Inr(3,11) [OF this] show ?thesis
    by (simp add: logicalUpstreamID_not_blank print_scheme)
qed

theorem compiled_UpstreamID_not_blank_witness:
  "trim_space (ps_UpstreamID (hd (snap_Providers
     (projr (CompileFromConfig (\<lambda>_. None) (\<lambda>u. CHR ''x'' # url_Scheme u) 1 ''s'' (Some demo_config)))))) \<noteq> []"
proof -
  let ?r = "CompileFromConfig (\<lambda>_. None) (\<lambda>u. CHR ''x'' # url_Scheme u) 1 ''s'' (Some demo_config)"
  have "isl ?r = False \<and> snap_Providers (projr ?r) \<noteq> []"
    by code_simp
  then have r: "?r = Inr (projr ?r)" "hd (snap_Providers (projr ?r)) \<in> set (snap_Providers (projr ?r))"
    by (cases ?r; simp)+
  have "trim_space (CHR ''x'' # t) \<noteq> []" for t
    by (rule trim_space_not_blank) (simp_all add: strip_done_def space_runes_def)
  then show ?thesis
    by (intro compiled_UpstreamID_not_blank [OF r])
qed

text \<open>
  The compiled failure policy recovers from an exhausted quota after no time at all exactly when
  the cooldown is disabled, and otherwise after at least five minutes: after the configured time
  where that is five minutes or more, and after an hour where nothing is configured.
\<close>

theorem compiled_quota_recovery:
  "let f = rc_FailurePolicy cfg; m = fp_QuotaRecoveryIntervalMin (rp_FailurePolicy (compileRoutingPolicy cfg)) in
   (m = 0 \<longleftrightarrow> fpc_DisableCooldown f) \<and>
   (\<not> fpc_DisableCooldown f \<longrightarrow> 5 \<le> m \<and>
      (5 \<le> fpc_QuotaRecoveryIntervalMin f \<longrightarrow> m = fpc_QuotaRecoveryIntervalMin f) \<and>
      (fpc_QuotaRecoveryIntervalMin f \<le> 0 \<longrightarrow> m = 60))"
  by (simp add: compileRoutingPolicy_def resolveQuotaRecoveryIntervalMin_def Let_def
        defaultQuotaRecoveryIntervalMin_def minimumQuotaRecoveryIntervalMin_def)

theorem compiled_quota_recovery_witness:
  "fp_QuotaRecoveryIntervalMin (rp_FailurePolicy (compileRoutingPolicy demo_routing)) = 60"
  using compiled_quota_recovery [of demo_routing] by (simp add: Let_def demo_routing_def)

text \<open>
  The administrator tokens of a compiled snapshot are never blank and carry one of the two known
  roles; a token is an administrator only if it is the bootstrap token or was configured with that
  very role, so an unknown role is never more than a viewer.
\<close>

theorem compiled_AdminTokens_roles:
  assumes "t \<in> set (compileAdminTokens cfg)"
  shows "trim_space (ate_Token t) \<noteq> [] \<and> ate_Role t \<in> {''admin'', ''viewer''} \<and>
    (ate_Role t = ''admin'' \<longrightarrow>
       ate_Token t = adm_BootstrapToken cfg \<or>
       (\<exists>k \<in> set (adm_Tokens cfg). tok_Token k = ate_Token t \<and> tok_Role k = ''admin''))"
  using assms by (auto simp: compileAdminTokens_def split: if_splits)

theorem compiled_AdminTokens_roles_witness:
  "ate_Role (last (compileAdminTokens ((cfg_Admin demo_config)\<lparr>adm_Tokens :=
      [\<lparr>tok_Name = ''ops'', tok_Token = ''t'', tok_Role = ''root''\<rparr>]\<rparr>))) \<in> {''admin'', ''viewer''}"
proof -
  let ?cfg = "(cfg_Admin demo_config)\<lparr>adm_Tokens := [\<lparr>tok_Name = ''ops'', tok_Token = ''t'', tok_Role = ''root''\<rparr>]\<rparr>"
  have "compileAdminTokens ?cfg \<noteq> []" by code_simp
  then show ?thesis using compiled_AdminTokens_roles [OF last_in_set] by blast
qed

text \<open>
  No compiled snapshot ever switches the request queue, the compression or the rotation of
  several keys on: the compiler leaves those fields of the policy at their zero values, whatever
  the configuration says.
\<close>

theorem compiled_queue_and_keys_off:
  assumes "CompileFromConfig parse print now sid (Some c) = Inr snap"
  shows "\<not> qc_Enabled (rp_Queue (snap_RoutingPolicy snap)) \<and>
    \<not> cmp_Enabled (rp_Compression (snap_RoutingPolicy snap)) \<and>
    (\<forall>s \<in> set (snap_Providers snap). ps_APIKeys s = [])"
proof -
  have "ps_APIKeys s = []" if "s \<in> set (snap_Providers snap)" for s
    by (rule compiled_provider [OF assms that]) (rule compileProvider_Inr(8))
  moreover have "\<not> qc_Enabled (rp_Queue (snap_RoutingPolicy snap))"
    "\<not> cmp_Enabled (rp_Compression (snap_RoutingPolicy snap))"
    unfolding CompileFromConfig_Inr(3) [OF assms] by (simp_all add: compileRoutingPolicy_def)
  ultimately show ?thesis by blast
qed

theorem compiled_queue_and_keys_off_witness:
  "\<not> qc_Enabled (rp_Queue (snap_RoutingPolicy demo_snapshot))"
  using compiled_queue_and_keys_off [OF demo_snapshot_compiled] by blast

end
