(* ===== verification/Routing.thy ===== *)
theory Routing
  imports Compiler "HOL-Library.Word"
begin

text \<open>
  Candidate selection and the retry policy of \<open>internal/gateway/api/routing.go\<close>, with the
  functions of \<open>compat.go\<close>, \<open>compat_body.go\<close> and \<open>streaming.go\<close> that decide which providers and
  models a request may use. \<open>routingSequence\<close>, an atomic 64-bit counter, is an argument and a
  result. \<open>path.Match\<close> is a parameter: \<open>None\<close> is its \<open>ErrBadPattern\<close>.
\<close>

record providerCandidate =
  pcd_provider :: ProviderSnapshot
  pcd_upstreamModel :: string
  pcd_weight :: goint

abbreviation pcd_id :: "providerCandidate \<Rightarrow> string" where
  "pcd_id c \<equiv> ps_ProviderID (pcd_provider c)"

definition normalizeWeight :: "goint \<Rightarrow> goint" where
  "normalizeWeight weight = (if weight \<le> 0 then 1 else weight)"

section \<open>Weighted order of the candidates\<close>

definition weightedPool :: "providerCandidate list \<Rightarrow> nat list" where
  "weightedPool cs =
     concat (map (\<lambda>(idx, c). replicate (nat (normalizeWeight (pcd_weight c))) idx) (enumerate 0 cs))"

text \<open>
  The selection loop: it visits the pool from the start, keeps the first candidate of each
  provider, and stops as soon as it has as many as there are candidates.
\<close>

fun order_loop :: "nat \<Rightarrow> string list \<Rightarrow> providerCandidate list \<Rightarrow> providerCandidate list" where
  "order_loop room seen [] = []"
| "order_loop 0 seen (c # cs) = []"
| "order_loop (Suc room) seen (c # cs) =
     (if List.member seen (pcd_id c) then order_loop (Suc room) seen cs
      else c # order_loop room (pcd_id c # seen) cs)"

definition orderProviderCandidates ::
  "providerCandidate list \<Rightarrow> 64 word \<Rightarrow> providerCandidate list \<times> 64 word" where
  "orderProviderCandidates cs seq =
     (if length cs \<le> 1 then (cs, seq)
      else let pool = weightedPool cs in
        if pool = [] then (cs, seq)
        else let start = unat (seq mod of_nat (length pool)) in
          (order_loop (length cs) [] (map (\<lambda>i. cs ! i) (scan_from start pool)), seq + 1))"

definition candidate_of :: "string \<Rightarrow> ProviderSnapshot \<Rightarrow> providerCandidate option" where
  "candidate_of model p =
     (if \<not> ep_Enabled (ps_ExecutionPolicy p) then None
      else case find (\<lambda>m. mm_PublicModel m = model) (ps_ModelTable p) of
          None \<Rightarrow> None
        | Some m \<Rightarrow> Some \<lparr>pcd_provider = p, pcd_upstreamModel = mm_UpstreamModel m,
            pcd_weight = normalizeWeight (ep_Weight (ps_ExecutionPolicy p))\<rparr>)"

definition collectProviderCandidatesForRequest ::
  "Snapshot option \<Rightarrow> string \<Rightarrow> providerCandidate list" where
  "collectProviderCandidatesForRequest snapshot model =
     (case snapshot of None \<Rightarrow> [] | Some snap \<Rightarrow> List.map_filter (candidate_of model) (snap_Providers snap))"

definition resolveUpstreamModel :: "ProviderSnapshot \<Rightarrow> string \<Rightarrow> string" where
  "resolveUpstreamModel p publicModel =
     (case find (\<lambda>m. mm_PublicModel m = publicModel) (ps_ModelTable p) of
        Some m \<Rightarrow> mm_UpstreamModel m | None \<Rightarrow> publicModel)"

definition providerProtocolAdapter :: "ProviderSnapshot option \<Rightarrow> string" where
  "providerProtocolAdapter provider =
     (case provider of
        None \<Rightarrow> ProtocolAdapterOpenAIChatCompletions
      | Some p \<Rightarrow> NormalizeProtocolAdapter (ps_ProtocolAdapter p) (ps_AnthropicBaseURL p))"

section \<open>Model bridging\<close>

definition wildcardMatch :: "(string \<Rightarrow> string \<Rightarrow> bool option) \<Rightarrow> string \<Rightarrow> string \<Rightarrow> bool" where
  "wildcardMatch path_match rawPattern rawValue =
     (let pattern = trim_space rawPattern; val = trim_space rawValue in
      if pattern = [] then False
      else if path_match pattern val = Some True then True
      else equal_fold pattern val)"

definition resolveBridgeModel ::
  "(string \<Rightarrow> string \<Rightarrow> bool option) \<Rightarrow> Snapshot option \<Rightarrow> string \<Rightarrow> string \<Rightarrow> string" where
  "resolveBridgeModel path_match snapshot rawModel userAgent =
     (let model = trim_space rawModel in
      case snapshot of
        None \<Rightarrow> model
      | Some snap \<Rightarrow>
          (let bridge = cp_Bridge (snap_CompatPolicy snap) in
           if \<not> bp_Enabled bridge \<or> model = [] then model
           else if list_ex (\<lambda>e. wildcardMatch path_match (trim_space e) userAgent)
             (bp_ExcludeUserAgents bridge) then model
           else case find (\<lambda>r. trim_space (br_To r) \<noteq> [] \<and>
                  wildcardMatch path_match (trim_space (br_From r)) model) (bp_Rules bridge) of
               Some r \<Rightarrow> trim_space (br_To r)
             | None \<Rightarrow> model))"

section \<open>Retry policy\<close>

definition HardRetryCap :: goint where "HardRetryCap = 20"

definition maxTotalAttempts :: "Snapshot option \<Rightarrow> goint" where
  "maxTotalAttempts snapshot =
     (case snapshot of
        None \<Rightarrow> 1
      | Some snap \<Rightarrow>
          (let base = i64 (1 + max (rp_MaxRetries (snap_RoutingPolicy snap)) 0) in
           if rty_InfiniteOnError (rp_Retry (snap_RoutingPolicy snap)) then 0
           else if HardRetryCap < base then HardRetryCap
           else base))"

definition determineRouteMode :: "providerCandidate list \<Rightarrow> Snapshot option \<Rightarrow> string" where
  "determineRouteMode cs snapshot =
     (if length cs \<le> 1 \<and> maxTotalAttempts snapshot \<le> 1 then ''direct''
      else case snapshot of
          None \<Rightarrow> ''weighted_failover''
        | Some snap \<Rightarrow>
            (let strategy = trim_space (rp_Strategy (snap_RoutingPolicy snap)) in
             if strategy \<noteq> [] then strategy else ''weighted_failover''))"

definition routeModeForAttempt :: "string \<Rightarrow> bool \<Rightarrow> bool \<Rightarrow> ProviderSnapshot option \<Rightarrow> string" where
  "routeModeForAttempt defaultMode usedFallback clientAnthropic provider =
     (if \<not> clientAnthropic \<and> providerProtocolAdapter provider = ProtocolAdapterAnthropicMessages
      then if usedFallback then ''bridge_fallback'' else ''bridged''
      else if usedFallback then ''model_fallback'' else defaultMode)"

text \<open>\<open>ctxDone\<close> is \<open>ctx != nil \<and> ctx.Err() != nil\<close>; \<open>forwardErr\<close> is the error's text, if any.\<close>

definition shouldRetryAttempt ::
  "bool \<Rightarrow> Snapshot option \<Rightarrow> goint \<Rightarrow> string \<Rightarrow> string option \<Rightarrow> bool" where
  "shouldRetryAttempt ctxDone snapshot statusCode errMsg forwardErr =
     (if ctxDone then False
      else if forwardErr \<noteq> None then True
      else case snapshot of
          None \<Rightarrow> False
        | Some snap \<Rightarrow>
            (let retry = rp_Retry (snap_RoutingPolicy snap) in
             if rty_AllErrors retry \<and> 400 \<le> statusCode then True
             else if List.member (rty_StatusCodes retry) statusCode then True
             else if 0 < rty_StatusCodeMin retry \<and> rty_StatusCodeMin retry \<le> statusCode then True
             else errMsg \<noteq> [] \<and>
               list_ex (\<lambda>keyword. keyword \<noteq> [] \<and> str_contains (to_lower errMsg) (to_lower keyword))
                 (rty_MessageKeywords retry)))"

text \<open>The doubling loop of \<open>waitRetryBackoff\<close>; durations wrap around at 64 bits.\<close>

fun backoff_loop :: "nat \<Rightarrow> duration \<Rightarrow> duration \<Rightarrow> duration" where
  "backoff_loop 0 maxDelay delay = delay"
| "backoff_loop (Suc n) maxDelay delay =
     (let d = i64 (delay * 2) in
      if 0 < maxDelay \<and> maxDelay \<le> d then maxDelay else backoff_loop n maxDelay d)"

definition waitRetryBackoff :: "Snapshot option \<Rightarrow> goint \<Rightarrow> duration option" where
  "waitRetryBackoff snapshot retryIndex =
     (case snapshot of
        None \<Rightarrow> None
      | Some snap \<Rightarrow>
          (let backoff = rp_RetryBackoff (snap_RoutingPolicy snap);
               delay = i64 (rb_InitialMs backoff * millisecond) in
           if delay \<le> 0 then None
           else Some (backoff_loop (nat retryIndex) (i64 (rb_MaxMs backoff * millisecond)) delay)))"

text \<open>\<open>None\<close> is a return without a timer, \<open>Some d\<close> a wait of \<open>d\<close> or until the request is cancelled.\<close>

section \<open>The contract of a candidate order\<close>

text \<open>
  What the runtime state relies on when it orders groups of candidates one after the other: an
  order returns the candidates it is given, each provider once.
\<close>

locale candidate_order =
  fixes order :: "'c list \<Rightarrow> 's \<Rightarrow> 'c list \<times> 's" and key :: "'c \<Rightarrow> 'k"
  assumes order_subset: "set (fst (order cs s)) \<subseteq> set cs"
    and order_keys: "key ` set (fst (order cs s)) = key ` set cs"
    and order_distinct: "distinct (map key cs) \<Longrightarrow> distinct (map key (fst (order cs s)))"
begin

lemma order_perm:
  assumes "distinct (map key cs)"
  shows "mset (fst (order cs s)) = mset cs"
proof -
  have "set (fst (order cs s)) = set cs"
  proof (rule equalityI [OF order_subset subsetI])
    fix c assume c: "c \<in> set cs"
    then obtain c' where "c' \<in> set (fst (order cs s))" "key c' = key c"
      using order_keys [of cs s] by (metis imageE imageI)
    then show "c \<in> set (fst (order cs s))"
      using order_subset [of cs s] c assms by (auto simp: distinct_map dest: inj_onD)
  qed
  then show ?thesis
    using assms order_distinct [OF assms] by (metis distinct_map set_eq_iff_mset_eq_distinct)
qed

lemma order_Nil [simp]: "fst (order [] s) = []"
  using order_subset [of "[]" s] by simp

text \<open>Two groups ordered one after the other, the second with the state the first leaves.\<close>

lemma order_two_perm:
  assumes "distinct (map key (as @ bs))"
  shows "mset (fst (order as s) @ fst (order bs s')) = mset (as @ bs)"
  using assms order_perm [of as s] order_perm [of bs s'] by simp

end

section \<open>Lemmas\<close>

lemma normalizeWeight_pos [simp]: "0 < normalizeWeight w" "\<not> normalizeWeight w \<le> 0"
  by (simp_all add: normalizeWeight_def)

lemma weightedPool_eq:
  "map (\<lambda>i. cs ! i) (weightedPool cs) =
     concat (map (\<lambda>c. replicate (nat (normalizeWeight (pcd_weight c))) c) cs)"
proof -
  have gen: "map (\<lambda>i. (ys @ zs) ! i)
      (concat (map (\<lambda>(idx, c). replicate (nat (normalizeWeight (pcd_weight c))) idx)
        (enumerate (length ys) zs)))
      = concat (map (\<lambda>c. replicate (nat (normalizeWeight (pcd_weight c))) c) zs)" for ys zs
  proof (induction zs arbitrary: ys)
    case (Cons z zs)
    have "map (\<lambda>i. (ys @ z # zs) ! i)
      (concat (map (\<lambda>(idx, c). replicate (nat (normalizeWeight (pcd_weight c))) idx)
        (enumerate (Suc (length ys)) zs)))
      = concat (map (\<lambda>c. replicate (nat (normalizeWeight (pcd_weight c))) c) zs)"
      using Cons [of "ys @ [z]"] by simp
    then show ?case by simp
  qed simp
  from gen [of "[]" cs] show ?thesis by (simp add: weightedPool_def)
qed

lemma weightedPool_Nil [simp]: "weightedPool cs = [] \<longleftrightarrow> cs = []"
proof
  assume "weightedPool cs = []"
  with weightedPool_eq [of cs] have "concat (map (\<lambda>c. replicate (nat (normalizeWeight (pcd_weight c))) c) cs) = []"
    by simp
  then show "cs = []"
    using normalizeWeight_pos by (cases cs) (auto simp: not_le)
qed (simp add: weightedPool_def)

lemma map_scan_from: "map f (scan_from s xs) = scan_from s (map f xs)"
  by (simp add: scan_from_rotate rotate_map)

lemma pool_set: "set (map (\<lambda>i. cs ! i) (weightedPool cs)) = set cs"
  unfolding weightedPool_eq using normalizeWeight_pos by (auto simp: not_le)

lemma order_loop_subset: "set (order_loop n seen cs) \<subseteq> set cs"
  by (induction n seen cs rule: order_loop.induct) auto

lemma order_loop_distinct:
  "distinct (map pcd_id (order_loop n seen cs)) \<and>
   set (map pcd_id (order_loop n seen cs)) \<inter> set seen = {}"
  by (induction n seen cs rule: order_loop.induct) auto

text \<open>The loop's bound never cuts it short: there are no more providers than candidates.\<close>

lemma order_loop_keys:
  "card (pcd_id ` set cs - set seen) \<le> n \<Longrightarrow>
     pcd_id ` set (order_loop n seen cs) = pcd_id ` set cs - set seen"
proof (induction n seen cs rule: order_loop.induct)
  case (2 seen c cs)
  then have "pcd_id ` set (c # cs) - set seen = {}" by simp
  then show ?case by simp
next
  case (3 room seen c cs)
  show ?case
  proof (cases "pcd_id c \<in> set seen")
    case True
    with 3 show ?thesis by (auto simp: insert_Diff_if)
  next
    case False
    have "pcd_id ` set (c # cs) - set seen = insert (pcd_id c) (pcd_id ` set cs - set (pcd_id c # seen))"
      using False by auto
    moreover from this have "card (pcd_id ` set cs - set (pcd_id c # seen)) \<le> room"
      using "3.prems" by (simp add: card_insert_if)
    ultimately show ?thesis
      using 3 False by auto
  qed
qed simp

lemma orderProviderCandidates_loop:
  assumes "2 \<le> length cs"
  shows "orderProviderCandidates cs seq =
    (order_loop (length cs) [] (scan_from (unat (seq mod of_nat (length (weightedPool cs))))
       (map (\<lambda>i. cs ! i) (weightedPool cs))), seq + 1)"
  using assms by (auto simp: orderProviderCandidates_def Let_def map_scan_from)

text \<open>The order of the source meets the contract.\<close>

interpretation weighted: candidate_order orderProviderCandidates pcd_id
proof
  fix cs :: "providerCandidate list" and seq :: "64 word"
  let ?v = "map (\<lambda>i. cs ! i) (weightedPool cs)"
  show "set (fst (orderProviderCandidates cs seq)) \<subseteq> set cs"
  proof (cases "2 \<le> length cs")
    case True
    then show ?thesis
      using order_loop_subset [of "length cs" "[]" "scan_from _ ?v"] pool_set [of cs]
      by (simp only: orderProviderCandidates_loop fst_conv set_scan_from)
  qed (simp add: orderProviderCandidates_def)
  show "pcd_id ` set (fst (orderProviderCandidates cs seq)) = pcd_id ` set cs"
  proof (cases "2 \<le> length cs")
    case True
    have "card (pcd_id ` set cs) \<le> length cs"
      by (metis card_image_le card_length finite_set order_trans)
    then have "pcd_id ` set (order_loop (length cs) [] (scan_from k ?v)) = pcd_id ` set cs" for k
      using order_loop_keys [of "scan_from k ?v" "[]" "length cs"] pool_set [of cs]
      by (simp only: set_scan_from) simp
    with True show ?thesis by (simp only: orderProviderCandidates_loop fst_conv)
  qed (simp add: orderProviderCandidates_def)
  assume "distinct (map pcd_id cs)"
  then show "distinct (map pcd_id (fst (orderProviderCandidates cs seq)))"
    by (cases "2 \<le> length cs")
       (simp add: orderProviderCandidates_loop order_loop_distinct,
        simp add: orderProviderCandidates_def)
qed

lemmas order_laws = weighted.order_subset weighted.order_keys weighted.order_distinct weighted.order_perm

text \<open>The candidates that consecutive calls put first.\<close>

fun order_heads :: "nat \<Rightarrow> providerCandidate list \<Rightarrow> 64 word \<Rightarrow> providerCandidate list" where
  "order_heads 0 cs seq = []"
| "order_heads (Suc n) cs seq =
     hd (fst (orderProviderCandidates cs seq)) # order_heads n cs (snd (orderProviderCandidates cs seq))"

lemma order_head:
  assumes "2 \<le> length cs" "length (weightedPool cs) < 2 ^ 64"
  shows "hd (fst (orderProviderCandidates cs seq)) =
    map (\<lambda>i. cs ! i) (weightedPool cs) ! (unat seq mod length (weightedPool cs))"
proof -
  let ?v = "map (\<lambda>i. cs ! i) (weightedPool cs)"
  let ?k = "unat (seq mod of_nat (length (weightedPool cs)))"
  have ne: "?v \<noteq> []" using assms(1) by auto
  have k: "?k = unat seq mod length (weightedPool cs)"
    using assms(2) by (simp add: unat_mod unat_of_nat)
  obtain n where n: "length cs = Suc n" using assms(1) by (cases "length cs") auto
  obtain c ds where "scan_from ?k ?v = c # ds"
    using ne by (cases "scan_from ?k ?v") (metis length_0_conv length_scan_from, blast)
  moreover from this have "c = ?v ! (?k mod length ?v)"
    using hd_scan_from [OF ne, of ?k] by simp
  ultimately show ?thesis
    using assms(1) by (simp add: orderProviderCandidates_loop n k)
qed

lemma order_heads_nth:
  assumes "2 \<le> length cs" "length (weightedPool cs) < 2 ^ 64" "unat seq + n < 2 ^ 64"
  shows "order_heads n cs seq =
    map (\<lambda>i. map (\<lambda>i. cs ! i) (weightedPool cs) ! ((unat seq + i) mod length (weightedPool cs))) [0..<n]"
  using assms(3)
proof (induction n arbitrary: seq)
  case (Suc n)
  have seq: "unat (seq + 1) = unat seq + 1"
    using Suc.prems by (simp add: unat_add_lem [THEN iffD1])
  have "snd (orderProviderCandidates cs seq) = seq + 1"
    using assms(1) by (simp add: orderProviderCandidates_loop)
  moreover have "order_heads n cs (seq + 1) = map (\<lambda>i. map (\<lambda>i. cs ! i) (weightedPool cs) !
      ((unat seq + Suc i) mod length (weightedPool cs))) [0..<n]"
    using Suc.IH [of "seq + 1"] Suc.prems by (simp add: seq)
  ultimately show ?case
    by (simp add: order_head [OF assms(1,2)] map_upt_Suc del: upt_Suc)
qed simp

lemma candidate_of_Some:
  "candidate_of model p = Some c \<longleftrightarrow>
     pcd_provider c = p \<and> ep_Enabled (ps_ExecutionPolicy p) \<and>
     (\<exists>m \<in> set (ps_ModelTable p). mm_PublicModel m = model) \<and>
     pcd_upstreamModel c = resolveUpstreamModel p model \<and>
     pcd_weight c = normalizeWeight (ep_Weight (ps_ExecutionPolicy p))"
proof (cases "find (\<lambda>m. mm_PublicModel m = model) (ps_ModelTable p)")
  case None
  then have "\<not> (\<exists>m \<in> set (ps_ModelTable p). mm_PublicModel m = model)"
    by (simp add: find_None_set)
  with None show ?thesis by (simp add: candidate_of_def)
next
  case (Some m)
  from find_Some_set [OF this] Some show ?thesis
    by (cases c) (auto simp: candidate_of_def resolveUpstreamModel_def)
qed

lemma candidate_of_provider: "candidate_of model p = Some c \<Longrightarrow> p = pcd_provider c"
  by (simp add: candidate_of_Some)

lemma candidate_of_None:
  "candidate_of model p = None \<longleftrightarrow> \<not> (ep_Enabled (ps_ExecutionPolicy p) \<and>
     (\<exists>m \<in> set (ps_ModelTable p). mm_PublicModel m = model))"
proof (cases "find (\<lambda>m. mm_PublicModel m = model) (ps_ModelTable p)")
  case None
  then have "\<not> (\<exists>m \<in> set (ps_ModelTable p). mm_PublicModel m = model)"
    by (simp add: find_None_set)
  with None show ?thesis by (simp add: candidate_of_def)
next
  case (Some m)
  from find_Some_set [OF this] Some show ?thesis
    by (auto simp: candidate_of_def)
qed

lemma collect_ids:
  "map pcd_id (collectProviderCandidatesForRequest (Some snap) model) =
     map ps_ProviderID (filter (\<lambda>p. ep_Enabled (ps_ExecutionPolicy p) \<and>
       (\<exists>m \<in> set (ps_ModelTable p). mm_PublicModel m = model)) (snap_Providers snap))"
proof -
  have "map pcd_id (List.map_filter (candidate_of model) ps) =
     map ps_ProviderID (filter (\<lambda>p. candidate_of model p \<noteq> None) ps)" for ps
  proof (induction ps)
    case (Cons p ps)
    have "pcd_id c = ps_ProviderID p" if "candidate_of model p = Some c" for c
      using candidate_of_provider [OF that] by simp
    with Cons show ?case
      by (cases "candidate_of model p") (simp_all add: map_filter_simps)
  qed (simp add: map_filter_simps)
  then show ?thesis
    by (simp add: collectProviderCandidatesForRequest_def candidate_of_None)
qed

lemma mem_map_filter: "c \<in> set (List.map_filter f ps) \<longleftrightarrow> (\<exists>p \<in> set ps. f p = Some c)"
  by (induction ps) (auto simp: map_filter_simps split: option.splits)

lemma collect_mem:
  "c \<in> set (collectProviderCandidatesForRequest (Some snap) model) \<longleftrightarrow>
     pcd_provider c \<in> set (snap_Providers snap) \<and> candidate_of model (pcd_provider c) = Some c"
proof
  assume "c \<in> set (collectProviderCandidatesForRequest (Some snap) model)"
  then obtain p where p: "p \<in> set (snap_Providers snap)" "candidate_of model p = Some c"
    by (auto simp only: collectProviderCandidatesForRequest_def option.case mem_map_filter)
  from candidate_of_provider [OF p(2)] p
  show "pcd_provider c \<in> set (snap_Providers snap) \<and> candidate_of model (pcd_provider c) = Some c"
    by simp
qed (auto simp only: collectProviderCandidatesForRequest_def option.case mem_map_filter)

lemma backoff_loop_min:
  "0 < d \<Longrightarrow> d \<le> M \<Longrightarrow> 2 * M \<le> max_i64 \<Longrightarrow> backoff_loop n M d = min (d * 2 ^ n) M"
proof (induction n M d rule: backoff_loop.induct)
  case (2 n M d)
  have d2: "i64 (d * 2) = d * 2"
    using 2 by (simp add: min_i64_def)
  show ?case
  proof (cases "M \<le> d * 2")
    case True
    have "d * 2 \<le> d * 2 ^ Suc n"
      using "2.prems" by simp
    with True have "min (d * 2 ^ Suc n) M = M"
      by (intro min_absorb2) simp
    with True 2 show ?thesis by (simp add: d2 Let_def)
  next
    case False
    with 2 show ?thesis by (simp add: d2 Let_def ac_simps)
  qed
qed simp

section \<open>Candidates for the witnesses\<close>

definition demo_candidate :: "string \<Rightarrow> goint \<Rightarrow> providerCandidate" where
  "demo_candidate name w = \<lparr>pcd_provider = \<lparr>
     ps_ProviderID = name, ps_UpstreamID = name, ps_ProtocolAdapter = [], ps_BaseURL = ''https://u'',
     ps_AnthropicBaseURL = [], ps_Credentials = \<lparr>cred_Kind = [], cred_Value = [], cred_HeaderName = []\<rparr>,
     ps_Headers = [], ps_ModelTable = [\<lparr>mm_PublicModel = ''m'', mm_UpstreamModel = ''um''\<rparr>],
     ps_CapabilityTable = \<lparr>cap_SupportsChatCompletions = True, cap_SupportsStreaming = True,
       cap_UsageAccounting = [], cap_ErrorClassifier = []\<rparr>,
     ps_ExecutionPolicy = \<lparr>ep_Enabled = True, ep_Weight = w, ep_TimeoutMs = 0, ep_SameRetries = 0,
       ep_ProviderClass = [],
       ep_RateLimit = \<lparr>rl_Enabled = False, rl_RequestsPerSecond = 0, rl_Burst = 0\<rparr>\<rparr>,
     ps_FallbackModels = [], ps_APIKeys = []\<rparr>, pcd_upstreamModel = ''um'', pcd_weight = w\<rparr>"

lemma demo_candidate_id [simp]: "pcd_id (demo_candidate n w) = n"
  by (simp add: demo_candidate_def)

lemma demo_candidate_weight [simp]: "pcd_weight (demo_candidate n w) = w"
  by (simp add: demo_candidate_def)

section \<open>Properties\<close>

text \<open>
  Failover loses nobody: ordering candidates of distinct providers returns exactly these
  candidates, each once, whatever the weights and wherever the global counter stands.
\<close>

theorem orderProviderCandidates_perm:
  assumes "distinct (map pcd_id cs)"
  shows "mset (fst (orderProviderCandidates cs seq)) = mset cs"
  by (rule weighted.order_perm [OF assms])

theorem orderProviderCandidates_perm_witness:
  "mset (fst (orderProviderCandidates [demo_candidate ''a'' 2, demo_candidate ''b'' (-1)] 4)) =
     {#demo_candidate ''a'' 2, demo_candidate ''b'' (-1)#}"
  by (subst orderProviderCandidates_perm) simp_all

text \<open>
  C13 The selection is weighted fairly: over as many consecutive calls as the weights sum up to,
  each of two or more candidates is put first exactly as often as its weight (1 where the weight is
  not positive) says. The hypothesis keeps the 64-bit counter from wrapping around on the way.
\<close>

theorem orderProviderCandidates_fair:
  assumes "2 \<le> length cs"
    and "W = (\<Sum>c \<leftarrow> cs. nat (normalizeWeight (pcd_weight c)))"
    and "unat seq + W < 2 ^ 64"
  shows "mset (order_heads W cs seq) =
    (\<Sum>c \<leftarrow> cs. replicate_mset (nat (normalizeWeight (pcd_weight c))) c)"
proof -
  let ?v = "map (\<lambda>i. cs ! i) (weightedPool cs)"
  have W: "W = length (weightedPool cs)"
    using arg_cong [OF weightedPool_eq [of cs], of length] assms(2)
    by (simp add: length_concat comp_def)
  have "order_heads W cs seq = scan_from (unat seq) ?v"
    using order_heads_nth [of cs seq W] assms by (simp add: W scan_from_def)
  then have "mset (order_heads W cs seq) = mset ?v"
    by (simp only: mset_scan_from)
  also have "\<dots> = (\<Sum>c \<leftarrow> cs. replicate_mset (nat (normalizeWeight (pcd_weight c))) c)"
    unfolding weightedPool_eq by (simp add: mset_concat comp_def)
  finally show ?thesis .
qed

theorem orderProviderCandidates_fair_witness:
  "count (mset (order_heads 4 [demo_candidate ''a'' 3, demo_candidate ''b'' 0] 9)) (demo_candidate ''a'' 3) = 3"
proof -
  have ne: "demo_candidate ''b'' 0 \<noteq> demo_candidate ''a'' 3"
    using arg_cong [of "demo_candidate ''b'' 0" "demo_candidate ''a'' 3" pcd_id]
    unfolding demo_candidate_id by blast
  have "mset (order_heads 4 [demo_candidate ''a'' 3, demo_candidate ''b'' 0] 9) =
      (\<Sum>c \<leftarrow> [demo_candidate ''a'' 3, demo_candidate ''b'' 0].
        replicate_mset (nat (normalizeWeight (pcd_weight c))) c)"
    by (rule orderProviderCandidates_fair) (simp_all add: normalizeWeight_def)
  with ne show ?thesis by (simp add: normalizeWeight_def)
qed

text \<open>
  A request may use exactly the enabled providers that advertise its model, in the snapshot's
  order, each under the upstream name of that model and with a positive weight.
\<close>

theorem collectProviderCandidates_exact:
  "map pcd_id (collectProviderCandidatesForRequest (Some snap) model) =
     map ps_ProviderID (filter (\<lambda>p. ep_Enabled (ps_ExecutionPolicy p) \<and>
       model \<in> mm_PublicModel ` set (ps_ModelTable p)) (snap_Providers snap)) \<and>
   (\<forall>c. c \<in> set (collectProviderCandidatesForRequest (Some snap) model) \<longrightarrow>
      pcd_provider c \<in> set (snap_Providers snap) \<and> 0 < pcd_weight c \<and>
      pcd_upstreamModel c = resolveUpstreamModel (pcd_provider c) model)"
  by (auto simp: collect_ids collect_mem candidate_of_Some image_iff
      intro!: arg_cong [where f = "map ps_ProviderID"] filter_cong)

theorem collectProviderCandidates_exact_witness:
  "map pcd_id (collectProviderCandidatesForRequest (Some demo_snapshot) ''m2'') = [''alpha''] \<and>
   pcd_upstreamModel (hd (collectProviderCandidatesForRequest (Some demo_snapshot) ''m2'')) = ''up2''"
proof -
  let ?cs = "collectProviderCandidatesForRequest (Some demo_snapshot) ''m2''"
  have ids: "map pcd_id ?cs = [''alpha'']"
    unfolding collectProviderCandidates_exact [THEN conjunct1] by code_simp
  then have "hd ?cs \<in> set ?cs" by (metis list.map_disc_iff list.set_sel(1) not_Cons_self2)
  with collectProviderCandidates_exact [of demo_snapshot "''m2''"]
  have "pcd_provider (hd ?cs) \<in> set (snap_Providers demo_snapshot)"
    "pcd_upstreamModel (hd ?cs) = resolveUpstreamModel (pcd_provider (hd ?cs)) ''m2''"
    by blast+
  moreover have "list_all (\<lambda>p. resolveUpstreamModel p ''m2'' = ''up2'') (snap_Providers demo_snapshot)"
    by code_simp
  ultimately show ?thesis using ids by (simp add: list_all_iff)
qed

text \<open>
  A request makes at most twenty attempts: the configured number of retries and one, cut off at
  the hard cap; 0 stands for no configured limit, exactly when retries are infinite. (The
  hypothesis excludes the one retry count whose successor wraps around.)
\<close>

theorem maxTotalAttempts_bounds:
  assumes "rp_MaxRetries (snap_RoutingPolicy snap) < max_i64"
  shows "0 \<le> maxTotalAttempts (Some snap) \<and> maxTotalAttempts (Some snap) \<le> 20 \<and>
    (maxTotalAttempts (Some snap) = 0 \<longleftrightarrow> rty_InfiniteOnError (rp_Retry (snap_RoutingPolicy snap))) \<and>
    (\<not> rty_InfiniteOnError (rp_Retry (snap_RoutingPolicy snap)) \<longrightarrow>
       maxTotalAttempts (Some snap) = min 20 (1 + max (rp_MaxRetries (snap_RoutingPolicy snap)) 0))"
proof -
  have "i64 (1 + max (rp_MaxRetries (snap_RoutingPolicy snap)) 0) =
      1 + max (rp_MaxRetries (snap_RoutingPolicy snap)) 0"
    using assms by (intro i64_id) (auto simp: min_i64_def max_i64_def)
  then show ?thesis
    by (simp add: maxTotalAttempts_def HardRetryCap_def Let_def) linarith
qed

lemma demo_retry_policy:
  "rp_MaxRetries (snap_RoutingPolicy demo_snapshot) = 2 \<and> \<not> rty_InfiniteOnError (rp_Retry (snap_RoutingPolicy demo_snapshot)) \<and>
   rb_InitialMs (rp_RetryBackoff (snap_RoutingPolicy demo_snapshot)) = 3000 \<and>
   rb_MaxMs (rp_RetryBackoff (snap_RoutingPolicy demo_snapshot)) = 30000"
  by code_simp

theorem maxTotalAttempts_bounds_witness: "maxTotalAttempts (Some demo_snapshot) = 3"
  using maxTotalAttempts_bounds [of demo_snapshot] demo_retry_policy by (simp add: max_i64_def)

text \<open>
  The wait between attempts doubles from the initial wait and stops at the configured maximum:
  before the retry with index \<open>n\<close> it is \<open>min (initial * 2^n) max\<close>, as long as twice the maximum is
  a 64-bit duration.
\<close>

theorem waitRetryBackoff_min:
  assumes "0 < rb_InitialMs (rp_RetryBackoff (snap_RoutingPolicy snap))"
    and "rb_InitialMs (rp_RetryBackoff (snap_RoutingPolicy snap)) \<le> rb_MaxMs (rp_RetryBackoff (snap_RoutingPolicy snap))"
    and "2 * (rb_MaxMs (rp_RetryBackoff (snap_RoutingPolicy snap)) * millisecond) \<le> max_i64"
  shows "waitRetryBackoff (Some snap) n =
    Some (min (rb_InitialMs (rp_RetryBackoff (snap_RoutingPolicy snap)) * millisecond * 2 ^ nat n)
      (rb_MaxMs (rp_RetryBackoff (snap_RoutingPolicy snap)) * millisecond))"
proof -
  define I M where "I = rb_InitialMs (rp_RetryBackoff (snap_RoutingPolicy snap)) * millisecond"
    and "M = rb_MaxMs (rp_RetryBackoff (snap_RoutingPolicy snap)) * millisecond"
  have "0 < I" "I \<le> M" "2 * M \<le> max_i64"
    using assms by (simp_all add: I_def M_def millisecond_def)
  moreover from this have "i64 I = I" "i64 M = M"
    by (simp_all add: min_i64_def)
  ultimately show ?thesis
    by (simp add: waitRetryBackoff_def I_def [symmetric] M_def [symmetric] Let_def backoff_loop_min)
qed

theorem waitRetryBackoff_min_witness:
  "map (waitRetryBackoff (Some demo_snapshot)) [0, 1, 9] =
     [Some (3000 * 1000000), Some (6000 * 1000000), Some (30000 * 1000000)]"
  using waitRetryBackoff_min [of demo_snapshot] demo_retry_policy by (simp add: max_i64_def millisecond_def)

end
