(* ===== verification/Json_Value.thy ===== *)
theory Json_Value
  imports Prelude "HOL-Library.List_Lexorder" "HOL-Library.Char_ord"
begin

text \<open>
  JSON values as Go's \<open>encoding/json\<close> hands them to the gateway: the tree that a document denotes,
  with a number as its literal text and an object as the list of its members in the document's
  order. Here are the two ways in which the source reads one: into a struct (\<open>each_field\<close> and the
  setters) and into a \<open>map[string]any\<close> (\<open>json_map\<close>). The text syntax itself is a parameter of the
  theories that use it.
\<close>

datatype json =
    JNull
  | JBool bool
  | JNumber string
  | JString string
  | JArray "json list"
  | JObject "(string \<times> json) list"

section \<open>Decoding into a struct\<close>

text \<open>
  Every member whose name is the field's, whatever its case, is stored in the field, the later ones
  over the earlier ones; \<open>None\<close> is the decoder's type error.
\<close>

fun each_field :: "string \<Rightarrow> (json \<Rightarrow> 'a \<Rightarrow> 'a option) \<Rightarrow> (string \<times> json) list \<Rightarrow> 'a \<Rightarrow> 'a option" where
  "each_field name store [] acc = Some acc"
| "each_field name store ((k, v) # kvs) acc =
     (if equal_fold k name
      then case store v acc of None \<Rightarrow> None | Some acc' \<Rightarrow> each_field name store kvs acc'
      else each_field name store kvs acc)"

definition set_string :: "json \<Rightarrow> string \<Rightarrow> string option" where
  "set_string v old = (case v of JNull \<Rightarrow> Some old | JString s \<Rightarrow> Some s | _ \<Rightarrow> None)"

definition set_bool :: "json \<Rightarrow> bool \<Rightarrow> bool option" where
  "set_bool v old = (case v of JNull \<Rightarrow> Some old | JBool b \<Rightarrow> Some b | _ \<Rightarrow> None)"

definition digit_value :: "char \<Rightarrow> int option" where
  "digit_value c = (let n = of_char c in if 48 \<le> n \<and> n \<le> 57 then Some (n - 48) else None)"

fun parse_digits :: "string \<Rightarrow> int \<Rightarrow> int option" where
  "parse_digits [] acc = Some acc"
| "parse_digits (c # cs) acc =
     (case digit_value c of None \<Rightarrow> None | Some d \<Rightarrow> parse_digits cs (10 * acc + d))"

text \<open>\<open>strconv.ParseInt\<close> on the literal of a number: no fraction, no exponent, within 64 bits.\<close>

definition parse_int64 :: "string \<Rightarrow> int option" where
  "parse_int64 s =
     (let (neg, ds) = (case s of [] \<Rightarrow> (False, []) | c # cs \<Rightarrow> if c = CHR ''-'' then (True, cs) else (False, s))
      in if ds = [] then None
         else case parse_digits ds 0 of
             None \<Rightarrow> None
           | Some n \<Rightarrow> (let k = (if neg then - n else n) in
               if min_i64 \<le> k \<and> k \<le> max_i64 then Some k else None))"

definition set_int64 :: "json \<Rightarrow> int \<Rightarrow> int option" where
  "set_int64 v old = (case v of JNull \<Rightarrow> Some old | JNumber s \<Rightarrow> parse_int64 s | _ \<Rightarrow> None)"

text \<open>A nested struct: \<open>null\<close> leaves it as it is, any value but an object is a type error.\<close>

definition set_struct :: "((string \<times> json) list \<Rightarrow> 'a \<Rightarrow> 'a option) \<Rightarrow> json \<Rightarrow> 'a \<Rightarrow> 'a option" where
  "set_struct fields v old = (case v of JNull \<Rightarrow> Some old | JObject kvs \<Rightarrow> fields kvs old | _ \<Rightarrow> None)"

section \<open>Decoding into a map\<close>

text \<open>The entries in the order of their keys, in which \<open>json.Marshal\<close> writes a map.\<close>

fun map_insert :: "string \<Rightarrow> json \<Rightarrow> (string \<times> json) list \<Rightarrow> (string \<times> json) list" where
  "map_insert k v [] = [(k, v)]"
| "map_insert k v ((k', v') # kvs) =
     (if k = k' then (k, v) # kvs
      else if k < k' then (k, v) # (k', v') # kvs
      else (k', v') # map_insert k v kvs)"

definition json_map :: "(string \<times> json) list \<Rightarrow> (string \<times> json) list" where
  "json_map kvs = fold (\<lambda>(k, v). map_insert k v) kvs []"

section \<open>Lemmas\<close>

lemma map_of_insert [simp]: "map_of (map_insert k v kvs) = (map_of kvs)(k \<mapsto> v)"
  by (induction kvs) auto

lemma set_map_insert: "fst ` set (map_insert k v kvs) = insert k (fst ` set kvs)"
  by (induction k v kvs rule: map_insert.induct) (simp_all add: insert_commute)

lemma sorted_map_insert:
  "sorted (map fst kvs) \<Longrightarrow> distinct (map fst kvs) \<Longrightarrow>
     sorted (map fst (map_insert k v kvs)) \<and> distinct (map fst (map_insert k v kvs))"
proof (induction kvs)
  case (Cons a kvs)
  obtain k' v' where a: "a = (k', v')" by (cases a)
  have keys: "set (map fst (map_insert k v kvs)) = insert k (set (map fst kvs))"
    using set_map_insert [of k v kvs] by simp
  show ?case
  proof (cases "k < k'")
    case True
    with Cons.prems a show ?thesis by (force simp: less_le)
  next
    case False
    with Cons a keys show ?thesis by (cases "k = k'") (auto simp del: set_map)
  qed
qed simp

lemma json_map_snoc: "json_map (kvs @ [(k, v)]) = map_insert k v (json_map kvs)"
  by (simp add: json_map_def)

lemma json_map_wf: "sorted (map fst (json_map kvs)) \<and> distinct (map fst (json_map kvs))"
proof (induction kvs rule: rev_induct)
  case Nil
  then show ?case by (simp add: json_map_def)
next
  case (snoc kv kvs)
  obtain k v where "kv = (k, v)" by (cases kv)
  with snoc sorted_map_insert [of "json_map kvs" k v] show ?case by (simp add: json_map_snoc)
qed

text \<open>The map has, for every key, the last member of the document.\<close>

lemma json_map_last: "map_of (json_map kvs) k = map_of (rev kvs) k"
proof (induction kvs rule: rev_induct)
  case Nil
  then show ?case by (simp add: json_map_def)
next
  case (snoc kv kvs)
  obtain k' v where "kv = (k', v)" by (cases kv)
  with snoc show ?case by (simp add: json_map_snoc)
qed

lemma each_field_const:
  "\<forall>(k, v) \<in> set kvs. \<not> equal_fold k name \<Longrightarrow> each_field name f kvs acc = Some acc"
  by (induction kvs) auto

lemma parse_int64_range: "parse_int64 s = Some n \<Longrightarrow> min_i64 \<le> n \<and> n \<le> max_i64"
  by (auto simp: parse_int64_def Let_def split: option.splits if_splits prod.splits)

end
