(* ===== verification/Response_Body.thy ===== *)
theory Response_Body
  imports Json_Value Snapshot_Data
begin

text \<open>
  What the gateway reads out of the bodies that pass through it, of
  \<open>internal/gateway/api/compat_body.go\<close> and \<open>handler.go\<close>: the token usage, the error message, the
  request's model and session, and the rewriting of the model. \<open>parse\<close> is \<open>json.Unmarshal\<close>'s syntax,
  \<open>marshal\<close> is \<open>json.Marshal\<close>.
\<close>

type_synonym parser = "string \<Rightarrow> json option"

section \<open>Usage\<close>

text \<open>Prompt, cached prompt and completion tokens.\<close>

type_synonym tokens = "int \<times> int \<times> int"

record usagePayload =
  up_PromptTokens :: int
  up_CompletionTokens :: int
  up_InputTokens :: int
  up_OutputTokens :: int
  up_CacheReadInputTokens :: int
  up_CacheCreationInputTokens :: int
  up_PromptDetails :: int
  up_InputDetails :: int

definition no_usage :: usagePayload where
  "no_usage = \<lparr>up_PromptTokens = 0, up_CompletionTokens = 0, up_InputTokens = 0, up_OutputTokens = 0,
     up_CacheReadInputTokens = 0, up_CacheCreationInputTokens = 0, up_PromptDetails = 0, up_InputDetails = 0\<rparr>"

definition bind :: "'a option \<Rightarrow> ('a \<Rightarrow> 'b option) \<Rightarrow> 'b option" where
  "bind x f = (case x of None \<Rightarrow> None | Some a \<Rightarrow> f a)"

definition cached_tokens :: "json \<Rightarrow> int \<Rightarrow> int option" where
  "cached_tokens = set_struct (each_field ''cached_tokens'' set_int64)"

definition decode_usage :: "(string \<times> json) list \<Rightarrow> usagePayload \<Rightarrow> usagePayload option" where
  "decode_usage kvs u =
     bind (each_field ''prompt_tokens'' set_int64 kvs (up_PromptTokens u)) (\<lambda>prompt.
     bind (each_field ''completion_tokens'' set_int64 kvs (up_CompletionTokens u)) (\<lambda>completion.
     bind (each_field ''input_tokens'' set_int64 kvs (up_InputTokens u)) (\<lambda>input.
     bind (each_field ''output_tokens'' set_int64 kvs (up_OutputTokens u)) (\<lambda>output.
     bind (each_field ''cache_read_input_tokens'' set_int64 kvs (up_CacheReadInputTokens u)) (\<lambda>cread.
     bind (each_field ''cache_creation_input_tokens'' set_int64 kvs (up_CacheCreationInputTokens u)) (\<lambda>creation.
     bind (each_field ''prompt_tokens_details'' cached_tokens kvs (up_PromptDetails u)) (\<lambda>promptDetails.
     bind (each_field ''input_tokens_details'' cached_tokens kvs (up_InputDetails u)) (\<lambda>inputDetails.
       Some \<lparr>up_PromptTokens = prompt, up_CompletionTokens = completion, up_InputTokens = input,
         up_OutputTokens = output, up_CacheReadInputTokens = cread,
         up_CacheCreationInputTokens = creation, up_PromptDetails = promptDetails,
         up_InputDetails = inputDetails\<rparr>))))))))"

definition usage_tokens :: "usagePayload \<Rightarrow> tokens" where
  "usage_tokens u =
     (let prompt0 = (if up_PromptTokens u = 0 then up_InputTokens u else up_PromptTokens u);
          prompt1 = (if 0 < up_CacheReadInputTokens u \<or> 0 < up_CacheCreationInputTokens u
            then i64 (i64 (up_InputTokens u + up_CacheCreationInputTokens u) + up_CacheReadInputTokens u)
            else prompt0);
          completion = (if up_CompletionTokens u = 0 then up_OutputTokens u else up_CompletionTokens u);
          cached0 = up_PromptDetails u;
          cached1 = (if cached0 = 0 then up_InputDetails u else cached0);
          cached = (if cached1 = 0 then up_CacheReadInputTokens u else cached1)
      in (if prompt1 < cached then cached else prompt1, cached, completion))"

definition extractUsage :: "parser \<Rightarrow> string \<Rightarrow> tokens" where
  "extractUsage parse body =
     (if body = [] then (0, 0, 0)
      else case bind (parse body) (\<lambda>v. set_struct (each_field ''usage'' (set_struct decode_usage)) v no_usage) of
          None \<Rightarrow> (0, 0, 0)
        | Some u \<Rightarrow> usage_tokens u)"

record anthropicUsage =
  au_InputTokens :: int
  au_OutputTokens :: int
  au_CacheReadInputTokens :: int
  au_CacheCreationTokens :: int

definition decode_anthropicUsage :: "(string \<times> json) list \<Rightarrow> anthropicUsage \<Rightarrow> anthropicUsage option" where
  "decode_anthropicUsage kvs u =
     bind (each_field ''input_tokens'' set_int64 kvs (au_InputTokens u)) (\<lambda>input.
     bind (each_field ''output_tokens'' set_int64 kvs (au_OutputTokens u)) (\<lambda>output.
     bind (each_field ''cache_read_input_tokens'' set_int64 kvs (au_CacheReadInputTokens u)) (\<lambda>cread.
     bind (each_field ''cache_creation_input_tokens'' set_int64 kvs (au_CacheCreationTokens u)) (\<lambda>creation.
       Some \<lparr>au_InputTokens = input, au_OutputTokens = output, au_CacheReadInputTokens = cread,
         au_CacheCreationTokens = creation\<rparr>))))"

definition tokenTriplet :: "anthropicUsage \<Rightarrow> tokens" where
  "tokenTriplet u =
     (let prompt = i64 (i64 (au_InputTokens u + au_CacheCreationTokens u) + au_CacheReadInputTokens u);
          cached = au_CacheReadInputTokens u
      in (if prompt < cached then cached else prompt, cached, au_OutputTokens u))"

definition no_anthropicUsage :: anthropicUsage where
  "no_anthropicUsage = \<lparr>au_InputTokens = 0, au_OutputTokens = 0, au_CacheReadInputTokens = 0, au_CacheCreationTokens = 0\<rparr>"

text \<open>\<open>None\<close> is a result that is not \<open>ok\<close>.\<close>

definition extractUsageFromSSEEvent :: "parser \<Rightarrow> string \<Rightarrow> tokens option" where
  "extractUsageFromSSEEvent parse data =
     (let trimmed = trim_space data in
      if trimmed = [] \<or> trimmed = ''[DONE]'' then None
      else
        let t0 = extractUsage parse trimmed;
            t = (if t0 = (0, 0, 0)
              then case bind (parse trimmed) (\<lambda>v. set_struct (each_field ''message''
                  (set_struct (each_field ''usage'' (set_struct decode_anthropicUsage)))) v no_anthropicUsage) of
                None \<Rightarrow> t0 | Some u \<Rightarrow> tokenTriplet u
              else t0)
        in if t = (0, 0, 0) then None else Some t)"

section \<open>The request\<close>

record chatCompletionRequestMeta =
  req_Model :: string
  req_Stream :: bool
  req_IncludeUsage :: bool
  req_User :: string
  req_SessionID :: string
  req_ConversationID :: string

definition parseChatCompletionRequestMeta :: "parser \<Rightarrow> string \<Rightarrow> chatCompletionRequestMeta option" where
  "parseChatCompletionRequestMeta parse body =
     bind (parse body) (\<lambda>v. set_struct (\<lambda>kvs _.
       bind (each_field ''model'' set_string kvs []) (\<lambda>model.
       bind (each_field ''stream'' set_bool kvs False) (\<lambda>stream.
       bind (each_field ''stream_options'' (set_struct (each_field ''include_usage'' set_bool)) kvs False) (\<lambda>include.
       bind (each_field ''user'' set_string kvs []) (\<lambda>user.
       bind (each_field ''session_id'' set_string kvs []) (\<lambda>session.
       bind (each_field ''conversation_id'' set_string kvs []) (\<lambda>conversation.
         Some \<lparr>req_Model = model, req_Stream = stream, req_IncludeUsage = include, req_User = user,
           req_SessionID = session, req_ConversationID = conversation\<rparr>)))))))
       v \<lparr>req_Model = [], req_Stream = False, req_IncludeUsage = False, req_User = [],
          req_SessionID = [], req_ConversationID = []\<rparr>)"

text \<open>\<open>get\<close> is \<open>Header.Get\<close> of the request's headers.\<close>

definition firstHeaderValue :: "(string \<Rightarrow> string) \<Rightarrow> string list \<Rightarrow> string" where
  "firstHeaderValue get keys =
     (case find (\<lambda>v. v \<noteq> []) (map (\<lambda>k. trim_space (get k)) keys) of Some v \<Rightarrow> v | None \<Rightarrow> [])"

definition resolveStickyKey :: "chatCompletionRequestMeta \<Rightarrow> (string \<Rightarrow> string) \<Rightarrow> string" where
  "resolveStickyKey meta get =
     (let v = firstHeaderValue get [''X-Sticky-Key'', ''X-Session-ID'', ''X-Client-Session'', ''OpenAI-Conversation-ID''] in
      if v \<noteq> [] then v
      else case find (\<lambda>v. v \<noteq> []) (map trim_space [req_SessionID meta, req_ConversationID meta, req_User meta]) of
          Some v \<Rightarrow> v | None \<Rightarrow> [])"

definition rewriteModelInBody :: "parser \<Rightarrow> (json \<Rightarrow> string option) \<Rightarrow> string \<Rightarrow> string \<Rightarrow> string \<Rightarrow> string" where
  "rewriteModelInBody parse marshal body oldModel newModel =
     (case parse body of
        Some (JObject kvs) \<Rightarrow>
          (let raw = json_map kvs;
               current = (case map_of raw ''model'' of
                 None \<Rightarrow> None | Some JNull \<Rightarrow> Some [] | Some (JString s) \<Rightarrow> Some s | Some _ \<Rightarrow> None)
           in if current = Some oldModel
              then case marshal (JObject (map_insert ''model'' (JString newModel) raw)) of
                  Some result \<Rightarrow> result | None \<Rightarrow> body
              else body)
      | _ \<Rightarrow> body)"

section \<open>Error messages\<close>

fun str_index :: "string \<Rightarrow> string \<Rightarrow> nat option" where
  "str_index [] sub = (if sub = [] then Some 0 else None)"
| "str_index (c # cs) sub =
     (if prefix sub (c # cs) then Some 0 else map_option Suc (str_index cs sub))"

definition sanitizeProviderError :: "string \<Rightarrow> string" where
  "sanitizeProviderError msg =
     (case str_index msg '': '' of
        Some idx \<Rightarrow> if 0 < idx \<and> idx \<le> 32 then drop (idx + 2) msg else msg
      | None \<Rightarrow> msg)"

definition extractErrorMessage :: "parser \<Rightarrow> string \<Rightarrow> string option \<Rightarrow> string" where
  "extractErrorMessage parse body forwardErr =
     (case forwardErr of
        Some err \<Rightarrow> sanitizeProviderError err
      | None \<Rightarrow>
          if body = [] then []
          else
            let fallback = take 512 (trim_space body);
                err = bind (parse body) (\<lambda>v. set_struct (each_field ''error'' (\<lambda>v _. Some v)) v JNull)
            in case err of
                Some (JString s) \<Rightarrow> if s \<noteq> [] then s else fallback
              | Some (JObject kvs) \<Rightarrow>
                  (case map_of (json_map kvs) ''message'' of
                     Some (JString s) \<Rightarrow> if s \<noteq> [] then s else fallback
                   | _ \<Rightarrow> fallback)
              | _ \<Rightarrow> fallback)"

definition error_type :: "goint \<Rightarrow> string \<Rightarrow> string" where
  "error_type status errType =
     (if trim_space errType \<noteq> [] then errType
      else if status = 401 then ''authentication_error''
      else if status = 404 then ''invalid_request_error''
      else if 500 \<le> status then ''upstream_error''
      else ''invalid_request_error'')"

text \<open>The body of \<open>writeErrorWithType\<close>, in the envelope of the OpenAI API.\<close>

definition error_envelope :: "goint \<Rightarrow> string \<Rightarrow> string \<Rightarrow> json" where
  "error_envelope status message errType =
     JObject [(''error'', JObject [(''code'', JNull), (''message'', JString message),
       (''param'', JNull), (''type'', JString (error_type status errType))])]"

section \<open>Lemmas\<close>

lemma bind_Some [simp]: "bind x f = Some b \<longleftrightarrow> (\<exists>a. x = Some a \<and> f a = Some b)"
  by (cases x) (simp_all add: bind_def)

lemma bind_None [simp]: "bind None f = None"
  by (simp add: bind_def)

lemma bind_of_Some [simp]: "bind (Some a) f = f a"
  by (simp add: bind_def)

lemma usage_tokens_cached: "case usage_tokens u of (prompt, cached, completion) \<Rightarrow> cached \<le> prompt"
  by (simp add: usage_tokens_def Let_def)

lemma tokenTriplet_cached: "tokenTriplet u = (prompt, cached, completion) \<Longrightarrow> cached \<le> prompt"
  by (auto simp: tokenTriplet_def Let_def split: if_splits)

lemma extractUsage_cached: "case extractUsage parse body of (prompt, cached, completion) \<Rightarrow> cached \<le> prompt"
  using usage_tokens_cached by (auto simp: extractUsage_def bind_def split: option.splits prod.splits)

lemma extractUsageFromSSEEvent_cached:
  "extractUsageFromSSEEvent parse data = Some (prompt, cached, completion) \<Longrightarrow>
     cached \<le> prompt \<and> (prompt, cached, completion) \<noteq> (0, 0, 0)"
  using extractUsage_cached [of parse "trim_space data"]
  by (auto dest: tokenTriplet_cached simp: extractUsageFromSSEEvent_def Let_def split: if_splits option.splits prod.splits)

lemma map_of_object [simp]: "map_of (json_map (map_insert k v (json_map kvs))) = (map_of (json_map kvs))(k \<mapsto> v)"
proof -
  have "distinct (map fst (map_insert k v (json_map kvs)))"
    using json_map_wf sorted_map_insert by blast
  then have "map_of (rev (map_insert k v (json_map kvs))) = map_of (map_insert k v (json_map kvs))"
    by (metis distinct_rev map_of_eqI map_of_inject_set rev_map rev_rev_ident set_rev)
  then show ?thesis by (simp add: json_map_last fun_eq_iff)
qed

section \<open>Properties\<close>

text \<open>
  However a response reports its usage, the cached prompt tokens that are accounted never exceed
  the prompt tokens, and the same holds for every event of a stream.
\<close>

theorem usage_cached_le_prompt:
  "(case extractUsage parse body of (prompt, cached, completion) \<Rightarrow> cached \<le> prompt) \<and>
   (case extractUsageFromSSEEvent parse body of None \<Rightarrow> True
      | Some (prompt, cached, completion) \<Rightarrow> cached \<le> prompt)"
  using extractUsage_cached extractUsageFromSSEEvent_cached by (auto split: option.split)

text \<open>
  Rewriting the model of a request changes that member and no other: if the body is an object
  whose model is the requested one, the body that is sent decodes to the same members with the new
  model.
\<close>

theorem rewriteModelInBody_only_model:
  assumes "parse body = Some (JObject kvs)" "map_of (json_map kvs) ''model'' = Some (JString old)"
    and "\<forall>v s. marshal v = Some s \<longrightarrow> parse s = Some v"
    and "marshal (JObject (map_insert ''model'' (JString new) (json_map kvs))) \<noteq> None"
  shows "\<exists>kvs'. parse (rewriteModelInBody parse marshal body old new) = Some (JObject kvs') \<and>
    map_of (json_map kvs') = (map_of (json_map kvs))(''model'' \<mapsto> JString new)"
proof -
  obtain s where s: "marshal (JObject (map_insert ''model'' (JString new) (json_map kvs))) = Some s"
    using assms(4) by blast
  then have "rewriteModelInBody parse marshal body old new = s"
    using assms(1,2) by (simp add: rewriteModelInBody_def Let_def)
  with s assms(3) show ?thesis by (intro exI [of _ "map_insert ''model'' (JString new) (json_map kvs)"]) simp
qed

definition demo_request :: json where
  "demo_request = JObject [(''model'', JString ''m''), (''stream'', JBool True), (''seed'', JNumber ''7'')]"

definition demo_rewritten :: json where
  "demo_rewritten = JObject [(''model'', JString ''up''), (''seed'', JNumber ''7''), (''stream'', JBool True)]"

definition demo_parse :: parser where
  "demo_parse s = (if s = ''A'' then Some demo_request else if s = ''B'' then Some demo_rewritten else None)"

definition demo_marshal :: "json \<Rightarrow> string option" where
  "demo_marshal v = (if v = demo_request then Some ''A'' else if v = demo_rewritten then Some ''B'' else None)"

theorem rewriteModelInBody_only_model_witness:
  "\<exists>kvs'. demo_parse (rewriteModelInBody demo_parse demo_marshal ''A'' ''m'' ''up'') = Some (JObject kvs') \<and>
    map_of (json_map kvs') ''seed'' = Some (JNumber ''7'') \<and> map_of (json_map kvs') ''model'' = Some (JString ''up'')"
proof -
  let ?kvs = "[(''model'', JString ''m''), (''stream'', JBool True), (''seed'', JNumber ''7'')]"
  have seed: "map_of (json_map ?kvs) ''seed'' = Some (JNumber ''7'')" by code_simp
  have "demo_parse ''A'' = Some (JObject ?kvs)" by (simp add: demo_parse_def demo_request_def)
  moreover have "map_of (json_map ?kvs) ''model'' = Some (JString ''m'')" by code_simp
  moreover have "\<forall>v s. demo_marshal v = Some s \<longrightarrow> demo_parse s = Some v"
    by (auto simp: demo_marshal_def demo_parse_def split: if_splits)
  moreover have "demo_marshal (JObject (map_insert ''model'' (JString ''up'') (json_map ?kvs))) \<noteq> None" by code_simp
  ultimately obtain kvs' where
    "demo_parse (rewriteModelInBody demo_parse demo_marshal ''A'' ''m'' ''up'') = Some (JObject kvs')"
    "map_of (json_map kvs') = (map_of (json_map ?kvs))(''model'' \<mapsto> JString ''up'')"
    using rewriteModelInBody_only_model [where parse = demo_parse and marshal = demo_marshal and body = "''A''"
        and kvs = ?kvs and old = "''m''" and new = "''up''"]
    by blast
  with seed show ?thesis by (intro exI [of _ kvs']) simp
qed

end
