(* ===== verification/Streaming.thy ===== *)
theory Streaming
  imports Response_Body
begin

text \<open>
  Responses to the client, of \<open>internal/gateway/api/streaming.go\<close>: the response writer, the pass-through
  of an upstream's event stream with the accounting of its usage, the error event, and the stream
  that is held open while a request is retried.
\<close>

section \<open>The response writer\<close>

text \<open>
  An \<open>http.ResponseWriter\<close>: the headers that are set, the status and the headers that were sent with
  it, the body, and the number of writes after which the client is gone, if it goes.
\<close>

record ResponseWriter =
  rw_header :: "string \<Rightarrow> string option"
  rw_status :: "goint option"
  rw_sent :: "string \<Rightarrow> string option"
  rw_body :: string
  rw_writes_left :: "nat option"

definition set_header :: "string \<Rightarrow> string \<Rightarrow> ResponseWriter \<Rightarrow> ResponseWriter" where
  "set_header k v w = w\<lparr>rw_header := (rw_header w)(k \<mapsto> v)\<rparr>"

definition write_header :: "goint \<Rightarrow> ResponseWriter \<Rightarrow> ResponseWriter" where
  "write_header status w =
     (if rw_status w = None then w\<lparr>rw_status := Some status, rw_sent := rw_header w\<rparr> else w)"

definition Write :: "string \<Rightarrow> ResponseWriter \<Rightarrow> bool \<times> ResponseWriter" where
  "Write data w0 =
     (let w = write_header 200 w0 in
      case rw_writes_left w of
        None \<Rightarrow> (True, w\<lparr>rw_body := rw_body w @ data\<rparr>)
      | Some 0 \<Rightarrow> (False, w)
      | Some (Suc n) \<Rightarrow> (True, w\<lparr>rw_body := rw_body w @ data, rw_writes_left := Some n\<rparr>))"

definition fresh_writer :: ResponseWriter where
  "fresh_writer = \<lparr>rw_header = (\<lambda>k. None), rw_status = None, rw_sent = (\<lambda>k. None), rw_body = [],
     rw_writes_left = None\<rparr>"

section \<open>The upstream's stream\<close>

text \<open>A body as the reader will see it: its bytes, and whether it ends with \<open>EOF\<close> or another error.\<close>

record stream_body =
  sb_content :: string
  sb_eof :: bool

abbreviation newline :: char where "newline \<equiv> CHR 0x0A"

text \<open>\<open>ReadBytes\<close>: the line with its delimiter, the rest, and whether the delimiter was found.\<close>

fun read_line :: "string \<Rightarrow> string \<times> string \<times> bool" where
  "read_line [] = ([], [], False)"
| "read_line (c # cs) =
     (if c = newline then ([c], cs, True)
      else case read_line cs of (line, rest, found) \<Rightarrow> (c # line, rest, found))"

lemma read_line_append: "read_line s = (line, rest, found) \<Longrightarrow> line @ rest = s"
  by (induction s arbitrary: line) (auto split: if_splits prod.splits)

lemma read_line_rest:
  "read_line s = (line, rest, True) \<Longrightarrow> length rest < length s"
  "read_line s = (line, rest, False) \<Longrightarrow> rest = []"
  by (induction s arbitrary: line) (auto split: if_splits prod.splits intro: less_SucI)

definition trim_right_newlines :: "string \<Rightarrow> string" where
  "trim_right_newlines s = rev (dropWhile (\<lambda>c. c = CHR 0x0D \<or> c = newline) (rev s))"

text \<open>The effect of one line on the data of the current event and on the usage.\<close>

definition take_usage :: "parser \<Rightarrow> string \<Rightarrow> tokens \<Rightarrow> tokens" where
  "take_usage parse event usage = (case extractUsageFromSSEEvent parse event of None \<Rightarrow> usage | Some u \<Rightarrow> u)"

definition event_line :: "parser \<Rightarrow> string \<Rightarrow> string \<times> tokens \<Rightarrow> string \<times> tokens" where
  "event_line parse line = (\<lambda>(event, usage).
     let trimmed = trim_right_newlines line in
     if trim_space trimmed = [] then ([], take_usage parse event usage)
     else if prefix ''data:'' trimmed
     then ((if event \<noteq> [] then event @ [newline] else event) @ trim_space (drop 5 trimmed), usage)
     else (event, usage))"

function copy_loop ::
  "parser \<Rightarrow> bool \<Rightarrow> string \<Rightarrow> string \<times> tokens \<Rightarrow> ResponseWriter \<Rightarrow> tokens \<times> ResponseWriter" where
  "copy_loop parse eof content acc w =
     (case read_line content of (line, rest, found) \<Rightarrow>
        let (ok, w') = (if line \<noteq> [] then Write line w else (True, w));
            acc' = (if line \<noteq> [] then event_line parse line acc else acc)
        in if \<not> ok then (snd acc, w')
           else if \<not> found then (if eof then take_usage parse (fst acc') (snd acc') else snd acc', w')
           else copy_loop parse eof rest acc' w')"
  by auto
termination
  by (relation "measure (\<lambda>(parse, eof, content, acc, w). length content)")
     (auto dest: read_line_rest(1) [OF sym])

definition copyStreamingBody :: "parser \<Rightarrow> stream_body option \<Rightarrow> ResponseWriter \<Rightarrow> tokens \<times> ResponseWriter" where
  "copyStreamingBody parse body w =
     (case body of
        None \<Rightarrow> ((0, 0, 0), w)
      | Some b \<Rightarrow> copy_loop parse (sb_eof b) (sb_content b) ([], (0, 0, 0)) w)"

definition stream_headers :: "string \<Rightarrow> ResponseWriter \<Rightarrow> ResponseWriter" where
  "stream_headers contentType w =
     set_header ''Connection'' ''keep-alive'' (set_header ''Cache-Control'' ''no-cache''
       (set_header ''Content-Type'' contentType w))"

definition handleStreamResponse ::
  "parser \<Rightarrow> goint \<Rightarrow> string \<Rightarrow> stream_body option \<Rightarrow> ResponseWriter \<Rightarrow> tokens \<times> ResponseWriter" where
  "handleStreamResponse parse statusCode contentType body w =
     copyStreamingBody parse body
       (write_header statusCode (stream_headers
         (if trim_space contentType = [] then ''text/event-stream'' else contentType) w))"

definition handleStartedStreamResponse ::
  "parser \<Rightarrow> stream_body option \<Rightarrow> ResponseWriter \<Rightarrow> tokens \<times> ResponseWriter" where
  "handleStartedStreamResponse parse body w = copyStreamingBody parse body w"

definition isSSE :: "string \<Rightarrow> bool" where
  "isSSE contentType = str_contains contentType ''text/event-stream''"

section \<open>A stream that waits for the upstream\<close>

text \<open>
  \<open>startStreamRetrySession\<close> commits the response to a stream with status 200; \<open>None\<close> is a client
  that cannot be written to. A heartbeat is one tick of the session's background loop.
\<close>

definition waiting_comment :: string where
  "waiting_comment = '': aigw waiting for upstream'' @ [newline, newline]"

definition keepalive_comment :: string where
  "keepalive_comment = '': aigw keep-alive'' @ [newline, newline]"

definition startStreamRetrySession :: "bool \<Rightarrow> ResponseWriter \<Rightarrow> bool \<times> ResponseWriter" where
  "startStreamRetrySession flusher w =
     (if \<not> flusher then (False, w)
      else Write waiting_comment (write_header 200 (stream_headers ''text/event-stream'' w)))"

definition heartbeat :: "ResponseWriter \<Rightarrow> bool \<times> ResponseWriter" where
  "heartbeat w = Write keepalive_comment w"

section \<open>Lemmas\<close>

text \<open>The lines of a body, each with its delimiter.\<close>

function split_lines :: "string \<Rightarrow> string list" where
  "split_lines s =
     (case read_line s of (line, rest, found) \<Rightarrow>
        (if line \<noteq> [] then [line] else []) @ (if found then split_lines rest else []))"
  by auto
termination
  by (relation "measure length") (auto dest: read_line_rest(1) [OF sym])

declare split_lines.simps [simp del] copy_loop.simps [simp del]

lemma concat_split_lines: "concat (split_lines s) = s"
proof (induction s rule: split_lines.induct)
  case (1 s)
  obtain line rest found where r: "read_line s = (line, rest, found)" by (metis surj_pair)
  show ?case
  proof (cases found)
    case True
    with 1 [OF r [symmetric] refl] r show ?thesis
      by (subst split_lines.simps) (use read_line_append [OF r] in auto)
  next
    case False
    with r read_line_rest(2) [of s line rest] show ?thesis
      by (subst split_lines.simps) (use read_line_append [OF r] in auto)
  qed
qed

text \<open>The writes that succeed are those that the client still accepts.\<close>

definition accepted :: "ResponseWriter \<Rightarrow> 'a list \<Rightarrow> 'a list" where
  "accepted w xs = (case rw_writes_left w of None \<Rightarrow> xs | Some n \<Rightarrow> take n xs)"

lemma write_ok:
  "Write data w = (ok, w') \<Longrightarrow> rw_body w' = (if ok then rw_body w @ data else rw_body w) \<and>
     accepted w (data # xs) = (if ok then data # accepted w' xs else [])"
  by (auto simp: Write_def write_header_def Let_def accepted_def split: option.splits nat.splits if_splits)

lemma copy_loop_body:
  "rw_body (snd (copy_loop parse eof content acc w)) = rw_body w @ concat (accepted w (split_lines content))"
proof (induction parse eof content acc w rule: copy_loop.induct)
  case (1 parse eof content acc w)
  obtain line rest found where r: "read_line content = (line, rest, found)" by (metis surj_pair)
  obtain ok w' where w: "(if line \<noteq> [] then Write line w else (True, w)) = (ok, w')" by fastforce
  have nl: "line \<noteq> []" if found using r that by (induction content) (auto split: prod.splits if_splits)
  have step: "split_lines content = (if line \<noteq> [] then [line] else []) @ (if found then split_lines rest else [])"
    by (subst split_lines.simps) (simp add: r)
  show ?case
  proof (cases "ok \<and> found")
    case True
    with nl w have wl: "Write line w = (True, w')" by auto
    have ih: "rw_body (snd (copy_loop parse eof rest (event_line parse line acc) w')) =
        rw_body w' @ concat (accepted w' (split_lines rest))"
      using 1 [OF r [symmetric] refl w [symmetric] refl] True nl by simp
    have "copy_loop parse eof content acc w = copy_loop parse eof rest (event_line parse line acc) w'"
      by (subst copy_loop.simps) (use r wl True nl in \<open>simp add: Let_def\<close>)
    with ih write_ok [OF wl, of "split_lines rest"] True nl show ?thesis by (simp add: step)
  next
    case False
    then have "snd (copy_loop parse eof content acc w) = w'"
      by (subst copy_loop.simps) (use r w in \<open>auto simp: Let_def split: if_splits\<close>)
    moreover have "rw_body w' = rw_body w @ concat (accepted w (split_lines content))"
    proof (cases "line = []")
      case True
      with w False nl show ?thesis by (auto simp: step accepted_def split: option.split)
    next
      case ne: False
      with w have "Write line w = (ok, w')" by simp
      from write_ok [OF this, of "if found then split_lines rest else []"] False ne show ?thesis
        by (auto simp: step accepted_def split: option.splits if_splits)
    qed
    ultimately show ?thesis by simp
  qed
qed

text \<open>
  The events of a stream: the data lines up to a blank line, joined by newlines. The last one is
  the event that the end of the stream cuts off.
\<close>

definition blank_line :: "string \<Rightarrow> bool" where
  "blank_line line \<longleftrightarrow> trim_space (trim_right_newlines line) = []"

definition data_of_line :: "string \<Rightarrow> string option" where
  "data_of_line line =
     (if prefix ''data:'' (trim_right_newlines line) then Some (trim_space (drop 5 (trim_right_newlines line)))
      else None)"

fun stream_events :: "string \<Rightarrow> string list \<Rightarrow> string list" where
  "stream_events event [] = [event]"
| "stream_events event (line # ls) =
     (if blank_line line then event # stream_events [] ls
      else case data_of_line line of
          None \<Rightarrow> stream_events event ls
        | Some d \<Rightarrow> stream_events ((if event \<noteq> [] then event @ [newline] else event) @ d) ls)"

lemma event_line_events:
  "stream_events event (line # ls) =
     (if blank_line line then [event] else []) @ stream_events (fst (event_line parse line (event, usage))) ls"
  "snd (event_line parse line (event, usage)) = (if blank_line line then take_usage parse event usage else usage)"
  by (simp_all add: event_line_def Let_def blank_line_def data_of_line_def)

lemma stream_events_not_Nil [simp]: "stream_events event ls \<noteq> []"
  by (induction ls arbitrary: event) (auto split: option.split)

lemma copy_loop_usage:
  assumes "rw_writes_left w = None"
  shows "fst (copy_loop parse eof content (event, usage) w) =
    fold (take_usage parse) (if eof then stream_events event (split_lines content)
      else butlast (stream_events event (split_lines content))) usage"
  using assms
proof (induction "length content" arbitrary: content event usage w rule: less_induct)
  case less
  obtain line rest found where r: "read_line content = (line, rest, found)" by (metis surj_pair)
  obtain w' where w: "(if line \<noteq> [] then Write line w else (True, w)) = (True, w')" "rw_writes_left w' = None"
  proof (rule that [of "snd (if line \<noteq> [] then Write line w else (True, w))"])
  qed (use less.prems in \<open>auto simp: Write_def write_header_def Let_def\<close>)
  have nl: "line \<noteq> []" if found using r that by (induction content) (auto split: prod.splits if_splits)
  have step: "split_lines content = (if line \<noteq> [] then [line] else []) @ (if found then split_lines rest else [])"
    by (subst split_lines.simps) (simp add: r)
  obtain event' usage' where e: "(if line \<noteq> [] then event_line parse line (event, usage) else (event, usage)) = (event', usage')"
    using prod.exhaust by blast
  show ?case
  proof (cases found)
    case True
    note el = event_line_events [where parse = parse and line = line and event = event and usage = usage]
    have e': "event_line parse line (event, usage) = (event', usage')" using e nl True by simp
    have "copy_loop parse eof content (event, usage) w = copy_loop parse eof rest (event', usage') w'"
      by (subst copy_loop.simps) (use r w nl True e' in \<open>simp add: Let_def\<close>)
    moreover have "length rest < length content" using read_line_rest(1) [of content line rest] r True by simp
    ultimately have "fst (copy_loop parse eof content (event, usage) w) =
        fold (take_usage parse) (if eof then stream_events event' (split_lines rest)
          else butlast (stream_events event' (split_lines rest))) usage'"
      using less.hyps w(2) by simp
    with el(1) [of "split_lines rest"] el(2) nl True show ?thesis
      by (simp add: step e' butlast_append)
  next
    case False
    have "copy_loop parse eof content (event, usage) w = (if eof then take_usage parse event' usage' else usage', w')"
      by (subst copy_loop.simps) (use r w False e in \<open>simp add: Let_def\<close>)
    with event_line_events(1) [where parse = parse and line = line and event = event and usage = usage and ls = "[]"]
      event_line_events(2) [where parse = parse and line = line and event = event and usage = usage]
      e False show ?thesis
      by (auto simp: step split: if_splits)
  qed
qed

lemma fold_take_usage:
  "fold (take_usage parse) events usage =
     (case rev (List.map_filter (extractUsageFromSSEEvent parse) events) of [] \<Rightarrow> usage | u # us \<Rightarrow> u)"
  by (induction events arbitrary: usage)
     (auto simp: take_usage_def map_filter_simps split: option.splits list.splits)

section \<open>Properties\<close>

text \<open>
  An event stream is passed through unchanged: a client that stays receives exactly the bytes of
  the upstream's body, with the upstream's status, and one that leaves has received a whole number of
  its lines from the beginning.
\<close>

theorem stream_passthrough:
  "let w' = snd (handleStreamResponse parse statusCode contentType (Some body) w) in
    (rw_writes_left w = None \<longrightarrow> rw_body w' = rw_body w @ sb_content body) \<and>
    (\<exists>n. rw_body w' = rw_body w @ concat (take n (split_lines (sb_content body)))) \<and>
    prefix (rw_body w') (rw_body w @ sb_content body)"
proof -
  let ?w = "write_header statusCode (stream_headers
    (if trim_space contentType = [] then ''text/event-stream'' else contentType) w)"
  let ?w' = "snd (handleStreamResponse parse statusCode contentType (Some body) w)"
  have w: "rw_writes_left ?w = rw_writes_left w" "rw_body ?w = rw_body w"
    by (simp_all add: write_header_def stream_headers_def set_header_def)
  have body: "rw_body ?w' = rw_body w @ concat (accepted ?w (split_lines (sb_content body)))"
    using copy_loop_body [of parse "sb_eof body" "sb_content body" _ ?w] w(2)
    by (simp add: handleStreamResponse_def copyStreamingBody_def)
  obtain n where n: "accepted ?w (split_lines (sb_content body)) = take n (split_lines (sb_content body))"
  proof (cases "rw_writes_left ?w")
    case None
    then show thesis by (intro that [of "length (split_lines (sb_content body))"]) (simp add: accepted_def)
  next
    case (Some k)
    then show thesis by (intro that [of k]) (simp add: accepted_def)
  qed
  have "prefix (concat (take n (split_lines (sb_content body)))) (sb_content body)"
    using concat_split_lines [of "sb_content body"] by (metis append_take_drop_id concat_append prefixI)
  moreover have "accepted ?w (split_lines (sb_content body)) = split_lines (sb_content body)"
    if "rw_writes_left w = None"
    using that w(1) by (simp add: accepted_def)
  ultimately show ?thesis
    using body n concat_split_lines by (auto simp: Let_def)
qed

theorem stream_passthrough_witness:
  "rw_body (snd (handleStreamResponse (\<lambda>s. None) 200 [] (Some \<lparr>sb_content = ''data: [DONE]'', sb_eof = True\<rparr>)
     fresh_writer)) = ''data: [DONE]''"
  using stream_passthrough [of "\<lambda>s. None" 200 "[]" "\<lparr>sb_content = ''data: [DONE]'', sb_eof = True\<rparr>" fresh_writer]
  by (simp add: Let_def fresh_writer_def)

text \<open>
  The usage that is accounted for a stream is that of the last event which reports one, the event
  that the end of the stream cuts off included, and none if no event does.
\<close>

theorem stream_usage_last_event:
  assumes "rw_writes_left w = None" "sb_eof body"
  shows "fst (handleStreamResponse parse statusCode contentType (Some body) w) =
    (case rev (List.map_filter (extractUsageFromSSEEvent parse) (stream_events [] (split_lines (sb_content body)))) of
       [] \<Rightarrow> (0, 0, 0) | u # us \<Rightarrow> u)"
proof -
  have "rw_writes_left (write_header statusCode (stream_headers ct w)) = None" for ct
    using assms(1) by (simp add: write_header_def stream_headers_def set_header_def)
  with assms(2) show ?thesis
    unfolding fold_take_usage [symmetric]
    by (simp add: handleStreamResponse_def copyStreamingBody_def copy_loop_usage)
qed

definition demo_usage_parse :: parser where
  "demo_usage_parse s = (if s = ''7'' then Some (JObject [(''usage'', JObject [(''prompt_tokens'', JNumber ''7'')])]) else None)"

definition demo_stream :: stream_body where
  "demo_stream = \<lparr>sb_content = ''data: 7'' @ [newline, newline] @ ''data: [DONE]'' @ [newline, newline], sb_eof = True\<rparr>"

theorem stream_usage_last_event_witness:
  "fst (handleStreamResponse demo_usage_parse 200 [] (Some demo_stream) fresh_writer) = (7, 0, 0)"
proof -
  have "fst (handleStreamResponse demo_usage_parse 200 [] (Some demo_stream) fresh_writer) =
    (case rev (List.map_filter (extractUsageFromSSEEvent demo_usage_parse) (stream_events [] (split_lines (sb_content demo_stream)))) of
       [] \<Rightarrow> (0, 0, 0) | u # us \<Rightarrow> u)"
    by (rule stream_usage_last_event) (simp_all add: fresh_writer_def demo_stream_def)
  also have "\<dots> = (7, 0, 0)" by code_simp
  finally show ?thesis .
qed

end
