(* ===== verification/Compat_Plan.thy ===== *)
theory Compat_Plan
  imports Routing Streaming
begin

text \<open>
  How a request is adapted to the protocol of its provider, and the response back to that of its
  client: the dispatch of \<open>internal/gateway/api/compat.go\<close>. The conversions of bodies and streams are
  the fields of \<open>converters\<close>.
\<close>

datatype clientFormat = formatChatCompletions | formatAnthropic | formatResponses

datatype responseCompatMode =
    responseCompatPassthrough | responseCompatAnthropicToOpenAI
  | responseCompatOpenAIToAnthropic | responseCompatChatToResponses

record compatPlan =
  cpl_forwardPath :: string
  cpl_forwardBody :: string
  cpl_upstreamIsAnthropic :: bool
  cpl_responseMode :: responseCompatMode
  cpl_clientModel :: string
  cpl_responsesCustomToolNames :: "string list"

text \<open>The zero value, which an error returns.\<close>

definition no_plan :: compatPlan where
  "no_plan = \<lparr>cpl_forwardPath = [], cpl_forwardBody = [], cpl_upstreamIsAnthropic = False,
     cpl_responseMode = responseCompatPassthrough, cpl_clientModel = [], cpl_responsesCustomToolNames = []\<rparr>"

text \<open>A conversion that can fail gives the text of its error or the converted body.\<close>

record converters =
  cv_parse :: parser
  cv_marshal :: "json \<Rightarrow> string option"
  cv_normalizeAnthropic :: "string \<Rightarrow> string"
  cv_normalizeOpenAI :: "string \<Rightarrow> string"
  cv_customToolNames :: "string \<Rightarrow> string list"
  cv_responsesToChat :: "string \<Rightarrow> string \<Rightarrow> string + string"
  cv_anthropicToChat :: "string \<Rightarrow> string \<Rightarrow> string + string"
  cv_chatToAnthropic :: "string \<Rightarrow> string \<Rightarrow> string + string"
  cv_chatResponseToResponses :: "string \<Rightarrow> string \<Rightarrow> string list \<Rightarrow> string + string"
  cv_chatResponseToAnthropic :: "string \<Rightarrow> string \<Rightarrow> string + string"
  cv_chatErrorToAnthropic :: "string \<Rightarrow> string"
  cv_anthropicResponseToChat :: "string \<Rightarrow> string + string"
  cv_anthropicErrorToChat :: "string \<Rightarrow> string"
  cv_bridgeStream :: "compatPlan \<Rightarrow> goint option \<Rightarrow> stream_body \<Rightarrow> ResponseWriter \<Rightarrow> tokens \<times> ResponseWriter"

definition sanitize_request :: "converters \<Rightarrow> clientFormat \<Rightarrow> string \<Rightarrow> string" where
  "sanitize_request cv fmt body =
     (case fmt of formatAnthropic \<Rightarrow> cv_normalizeAnthropic cv body | _ \<Rightarrow> cv_normalizeOpenAI cv body)"

definition rewritten :: "converters \<Rightarrow> string \<Rightarrow> string \<Rightarrow> string \<Rightarrow> string" where
  "rewritten cv body requestedModel upstreamModel =
     (if upstreamModel \<noteq> [] \<and> upstreamModel \<noteq> requestedModel
      then rewriteModelInBody (cv_parse cv) (cv_marshal cv) body requestedModel upstreamModel else body)"

definition buildCompatPlan ::
  "converters \<Rightarrow> clientFormat \<Rightarrow> ProviderSnapshot option \<Rightarrow> string \<Rightarrow> string \<Rightarrow> string \<Rightarrow> string option \<times> compatPlan" where
  "buildCompatPlan cv fmt provider requestedModel upstreamModel body =
     (let sanitized = sanitize_request cv fmt body;
          plan = \<lparr>cpl_forwardPath = ''/v1/chat/completions'', cpl_forwardBody = sanitized,
            cpl_upstreamIsAnthropic = False, cpl_responseMode = responseCompatPassthrough,
            cpl_clientModel = requestedModel, cpl_responsesCustomToolNames = []\<rparr>
      in if provider = None then (Some ''provider is required'', plan)
         else
           let anthropic = (providerProtocolAdapter provider = ProtocolAdapterAnthropicMessages) in
           case fmt of
             formatResponses \<Rightarrow>
               (case cv_responsesToChat cv sanitized upstreamModel of
                  Inl err \<Rightarrow> (Some err, no_plan)
                | Inr converted \<Rightarrow> (None, plan\<lparr>cpl_forwardBody := converted,
                    cpl_responseMode := responseCompatChatToResponses,
                    cpl_responsesCustomToolNames := cv_customToolNames cv sanitized\<rparr>))
           | formatAnthropic \<Rightarrow>
               if \<not> anthropic
               then (case cv_anthropicToChat cv sanitized upstreamModel of
                  Inl err \<Rightarrow> (Some err, no_plan)
                | Inr converted \<Rightarrow> (None, plan\<lparr>cpl_forwardBody := converted,
                    cpl_responseMode := responseCompatOpenAIToAnthropic\<rparr>))
               else (None, plan\<lparr>cpl_forwardPath := ''/v1/messages'', cpl_upstreamIsAnthropic := True,
                 cpl_forwardBody := rewritten cv sanitized requestedModel upstreamModel\<rparr>)
           | formatChatCompletions \<Rightarrow>
               if anthropic
               then (case cv_chatToAnthropic cv sanitized upstreamModel of
                  Inl err \<Rightarrow> (Some err, no_plan)
                | Inr converted \<Rightarrow> (None, plan\<lparr>cpl_forwardPath := ''/v1/messages'',
                    cpl_forwardBody := converted, cpl_upstreamIsAnthropic := True,
                    cpl_responseMode := responseCompatAnthropicToOpenAI\<rparr>))
               else (None, plan\<lparr>cpl_forwardBody := rewritten cv sanitized requestedModel upstreamModel\<rparr>))"

text \<open>The body, the content type (empty for the upstream's own), or an error.\<close>

definition adaptResponseBodyForClient ::
  "converters \<Rightarrow> compatPlan \<Rightarrow> goint \<Rightarrow> string \<Rightarrow> string + string \<times> string" where
  "adaptResponseBodyForClient cv plan statusCode body =
     (let as_json = (\<lambda>r. case r of Inl err \<Rightarrow> Inl err | Inr b \<Rightarrow> Inr (b, ''application/json'')) in
      case cpl_responseMode plan of
        responseCompatChatToResponses \<Rightarrow>
          if 400 \<le> statusCode then Inr (body, ''application/json'')
          else as_json (cv_chatResponseToResponses cv body (cpl_clientModel plan) (cpl_responsesCustomToolNames plan))
      | responseCompatOpenAIToAnthropic \<Rightarrow>
          if 400 \<le> statusCode then Inr (cv_chatErrorToAnthropic cv body, ''application/json'')
          else as_json (cv_chatResponseToAnthropic cv body (cpl_clientModel plan))
      | responseCompatPassthrough \<Rightarrow> Inr (body, [])
      | responseCompatAnthropicToOpenAI \<Rightarrow>
          if 400 \<le> statusCode then Inr (cv_anthropicErrorToChat cv body, ''application/json'')
          else as_json (cv_anthropicResponseToChat cv body))"

definition writeCompatStreamResponse ::
  "converters \<Rightarrow> goint \<Rightarrow> string \<Rightarrow> stream_body \<Rightarrow> compatPlan \<Rightarrow> ResponseWriter \<Rightarrow> tokens \<times> ResponseWriter" where
  "writeCompatStreamResponse cv statusCode contentType body plan w =
     (if cpl_responseMode plan = responseCompatPassthrough
      then handleStreamResponse (cv_parse cv) statusCode contentType (Some body) w
      else cv_bridgeStream cv plan (Some statusCode) body w)"

definition writeCompatStreamResponseStarted ::
  "converters \<Rightarrow> stream_body \<Rightarrow> compatPlan \<Rightarrow> ResponseWriter \<Rightarrow> tokens \<times> ResponseWriter" where
  "writeCompatStreamResponseStarted cv body plan w =
     (if cpl_responseMode plan = responseCompatPassthrough
      then handleStartedStreamResponse (cv_parse cv) (Some body) w
      else cv_bridgeStream cv plan None body w)"

section \<open>Lemmas\<close>

text \<open>The path and the response mode agree with the provider's protocol and the client's format.\<close>

lemma buildCompatPlan_protocol:
  assumes "buildCompatPlan cv fmt (Some p) requestedModel upstreamModel body = (None, plan)"
  shows "cpl_forwardPath plan = (if cpl_upstreamIsAnthropic plan then ''/v1/messages'' else ''/v1/chat/completions'')"
    and "fmt \<noteq> formatResponses \<Longrightarrow> cpl_upstreamIsAnthropic plan \<longleftrightarrow>
      providerProtocolAdapter (Some p) = ProtocolAdapterAnthropicMessages"
    and "cpl_responseMode plan = (case fmt of
        formatResponses \<Rightarrow> responseCompatChatToResponses
      | formatAnthropic \<Rightarrow> (if cpl_upstreamIsAnthropic plan then responseCompatPassthrough else responseCompatOpenAIToAnthropic)
      | formatChatCompletions \<Rightarrow> (if cpl_upstreamIsAnthropic plan then responseCompatAnthropicToOpenAI else responseCompatPassthrough))"
    and "cpl_clientModel plan = requestedModel"
  using assms
  by (auto simp: buildCompatPlan_def Let_def split: clientFormat.splits sum.splits if_splits)

end
