(* ===== verification/Key_Rotation.thy ===== *)
theory Key_Rotation
  imports Snapshot_Data
begin

text \<open>
  The API key rotator of \<open>internal/gateway/api/key_rotation.go\<close>: the keys of one provider, the
  counter that \<open>Next\<close> advances atomically, and the failure counters that take a key out of the
  rotation. The receiver's mutex makes each operation one step; clock readings are arguments.
\<close>

record rotatableKey =
  rk_name :: string
  rk_value :: string
  rk_disabled :: bool
  rk_failCount :: goint
  rk_lastFail :: gotime

record KeyRotator =
  kr_providerID :: string
  kr_keys :: "rotatableKey list"
  kr_index :: goint

definition maxFailCount :: goint where "maxFailCount = 3"

definition NewKeyRotator :: "ProviderSnapshot option \<Rightarrow> KeyRotator" where
  "NewKeyRotator provider =
     (case provider of
        None \<Rightarrow> \<lparr>kr_providerID = [], kr_keys = [], kr_index = 0\<rparr>
      | Some p \<Rightarrow> \<lparr>kr_providerID = ps_ProviderID p,
          kr_keys = map (\<lambda>ak. \<lparr>rk_name = ak_Name ak, rk_value = ak_Value ak,
            rk_disabled = ak_Disabled ak, rk_failCount = ak_FailCount ak, rk_lastFail = 0\<rparr>)
            (ps_APIKeys p),
          kr_index = 0\<rparr>)"

definition key_usable :: "rotatableKey \<Rightarrow> bool" where
  "key_usable k \<longleftrightarrow> \<not> rk_disabled k \<and> \<not> maxFailCount \<le> rk_failCount k"

text \<open>\<open>index.Add(1) - 1\<close> is the counter's value before the call, wrapped around to 64 bits.\<close>

definition next_start :: "KeyRotator \<Rightarrow> nat" where
  "next_start kr =
     (let s = go_rem (i64 (i64 (kr_index kr + 1) - 1)) (int (length (kr_keys kr)))
      in if s < 0 then 0 else nat s)"

definition KeyRotator_Next :: "KeyRotator \<Rightarrow> string \<times> KeyRotator" where
  "KeyRotator_Next kr =
     (if kr_keys kr = [] then ([], kr)
      else ((case find key_usable (scan_from (next_start kr) (kr_keys kr)) of
               Some k \<Rightarrow> rk_value k | None \<Rightarrow> []),
            kr\<lparr>kr_index := i64 (kr_index kr + 1)\<rparr>))"

text \<open>The two report operations change the first key that has the given value.\<close>

fun update_key :: "(rotatableKey \<Rightarrow> rotatableKey) \<Rightarrow> string \<Rightarrow> rotatableKey list \<Rightarrow> rotatableKey list" where
  "update_key f v [] = []"
| "update_key f v (k # ks) = (if rk_value k = v then f k # ks else k # update_key f v ks)"

definition KeyRotator_ReportSuccess :: "string \<Rightarrow> KeyRotator \<Rightarrow> KeyRotator" where
  "KeyRotator_ReportSuccess v kr =
     (if v = [] then kr
      else kr\<lparr>kr_keys := update_key (\<lambda>k. k\<lparr>rk_failCount := 0, rk_lastFail := 0\<rparr>) v (kr_keys kr)\<rparr>)"

definition KeyRotator_ReportFailure :: "gotime \<Rightarrow> string \<Rightarrow> KeyRotator \<Rightarrow> KeyRotator" where
  "KeyRotator_ReportFailure now v kr =
     (if v = [] then kr
      else kr\<lparr>kr_keys := update_key
        (\<lambda>k. k\<lparr>rk_failCount := i64 (rk_failCount k + 1), rk_lastFail := now\<rparr>) v (kr_keys kr)\<rparr>)"

definition KeyRotator_IsEnabled :: "KeyRotator \<Rightarrow> bool" where
  "KeyRotator_IsEnabled kr \<longleftrightarrow> kr_keys kr \<noteq> []"

definition key_recovers :: "gotime \<Rightarrow> duration \<Rightarrow> rotatableKey \<Rightarrow> bool" where
  "key_recovers now cooldown k \<longleftrightarrow>
     maxFailCount \<le> rk_failCount k \<and> \<not> is_zero_time (rk_lastFail k) \<and>
     0 < cooldown \<and> cooldown \<le> time_sub now (rk_lastFail k)"

definition KeyRotator_TryRecover :: "gotime \<Rightarrow> duration \<Rightarrow> KeyRotator \<Rightarrow> bool \<times> KeyRotator" where
  "KeyRotator_TryRecover now cooldown kr =
     (list_ex (key_recovers now cooldown) (kr_keys kr),
      kr\<lparr>kr_keys := map (\<lambda>k. if key_recovers now cooldown k then k\<lparr>rk_failCount := 0\<rparr> else k)
        (kr_keys kr)\<rparr>)"

section \<open>Histories of a rotator\<close>

datatype key_op =
    OpNext | OpSuccess string | OpFailure gotime string | OpRecover gotime duration

fun key_step :: "key_op \<Rightarrow> KeyRotator \<Rightarrow> KeyRotator" where
  "key_step OpNext kr = snd (KeyRotator_Next kr)"
| "key_step (OpSuccess v) kr = KeyRotator_ReportSuccess v kr"
| "key_step (OpFailure t v) kr = KeyRotator_ReportFailure t v kr"
| "key_step (OpRecover t c) kr = snd (KeyRotator_TryRecover t c kr)"

definition key_run :: "key_op list \<Rightarrow> KeyRotator \<Rightarrow> KeyRotator" where
  "key_run ops kr = fold key_step ops kr"

fun nexts :: "nat \<Rightarrow> KeyRotator \<Rightarrow> string list" where
  "nexts 0 kr = []"
| "nexts (Suc n) kr = fst (KeyRotator_Next kr) # nexts n (snd (KeyRotator_Next kr))"

definition is_failure_of :: "string \<Rightarrow> key_op \<Rightarrow> bool" where
  "is_failure_of v op = (case op of OpFailure _ w \<Rightarrow> w = v | _ \<Rightarrow> False)"

definition readmits :: "string \<Rightarrow> key_op \<Rightarrow> bool" where
  "readmits v op = (case op of OpSuccess w \<Rightarrow> w = v | OpRecover _ _ \<Rightarrow> True | _ \<Rightarrow> False)"

section \<open>Lemmas\<close>

lemma Next_keys [simp]:
  "kr_keys (snd (KeyRotator_Next kr)) = kr_keys kr"
  "kr_providerID (snd (KeyRotator_Next kr)) = kr_providerID kr"
  by (simp_all add: KeyRotator_Next_def)

lemma Next_start:
  assumes "0 \<le> kr_index kr" "kr_index kr < max_i64" "kr_keys kr \<noteq> []"
  shows "KeyRotator_Next kr =
    ((case find key_usable (scan_from (nat (kr_index kr)) (kr_keys kr)) of
        Some k \<Rightarrow> rk_value k | None \<Rightarrow> []), kr\<lparr>kr_index := kr_index kr + 1\<rparr>)"
proof -
  have "i64 (kr_index kr + 1) = kr_index kr + 1" "i64 (kr_index kr) = kr_index kr"
    using assms by (simp_all add: min_i64_def)
  moreover have "scan_from (nat (kr_index kr) mod length (kr_keys kr)) (kr_keys kr)
      = scan_from (nat (kr_index kr)) (kr_keys kr)"
    by (rule scan_from_mod)
  moreover have "\<not> kr_index kr mod int (length (kr_keys kr)) < 0"
    using assms(3) by (simp add: not_less)
  ultimately show ?thesis
    using assms by (simp add: KeyRotator_Next_def next_start_def Let_def)
qed

lemma update_key_values [simp]:
  "(\<And>k. rk_value (f k) = rk_value k) \<Longrightarrow> map rk_value (update_key f v ks) = map rk_value ks"
  by (induction f v ks rule: update_key.induct) auto

lemma update_key_set:
  "x \<in> set (update_key f v ks) \<Longrightarrow> x \<in> set ks \<or> (\<exists>k \<in> set ks. rk_value k = v \<and> x = f k)"
  by (induction f v ks rule: update_key.induct) (auto split: if_splits)

lemma update_key_distinct:
  assumes "distinct (map rk_value ks)"
  shows "update_key f v ks = map (\<lambda>k. if rk_value k = v then f k else k) ks"
  using assms
proof (induction f v ks rule: update_key.induct)
  case (2 f v k ks)
  have "map (\<lambda>k. if rk_value k = v then f k else k) ks = ks" if "rk_value k = v"
    by (rule map_idI) (use 2(2) that in \<open>auto simp: image_iff\<close>)
  with 2 show ?case by auto
qed simp

lemma Next_value:
  assumes "fst (KeyRotator_Next kr) \<noteq> []"
  shows "\<exists>k \<in> set (kr_keys kr). key_usable k \<and> rk_value k = fst (KeyRotator_Next kr)"
proof -
  from assms obtain s k where "find key_usable (scan_from s (kr_keys kr)) = Some k"
    "fst (KeyRotator_Next kr) = rk_value k"
    by (auto simp: KeyRotator_Next_def split: if_splits option.splits)
  then show ?thesis using find_Some_set by fastforce
qed

lemma Next_none:
  assumes "k \<in> set (kr_keys kr)" "key_usable k" "\<And>k. k \<in> set (kr_keys kr) \<Longrightarrow> rk_value k \<noteq> []"
  shows "fst (KeyRotator_Next kr) \<noteq> []"
proof -
  let ?f = "find key_usable (scan_from (next_start kr) (kr_keys kr))"
  have "kr_keys kr \<noteq> []" using assms(1) by auto
  then have "fst (KeyRotator_Next kr) = (case ?f of Some k \<Rightarrow> rk_value k | None \<Rightarrow> [])"
    by (simp add: KeyRotator_Next_def)
  moreover have "?f \<noteq> None"
    using assms(1,2) by (auto simp: find_None_set)
  ultimately show ?thesis
    using assms(3) find_Some_set [of key_usable "scan_from (next_start kr) (kr_keys kr)"]
    by (auto split: option.splits)
qed

text \<open>The failure count of a key, over a history that never readmits it.\<close>

lemma key_step_keys:
  assumes "distinct (map rk_value (kr_keys kr))" "v \<noteq> []" "\<not> readmits v op"
    and k: "k \<in> set (kr_keys (key_step op kr))" "rk_value k = v"
  obtains k0 where "k0 \<in> set (kr_keys kr)" "rk_value k0 = v"
    "rk_failCount k = (if is_failure_of v op then i64 (rk_failCount k0 + 1) else rk_failCount k0)"
  using assms
  by (cases op)
     (auto simp: KeyRotator_ReportSuccess_def KeyRotator_ReportFailure_def readmits_def
        is_failure_of_def update_key_distinct split: if_splits)

lemma key_step_values [simp]:
  "map rk_value (kr_keys (key_step op kr)) = map rk_value (kr_keys kr)"
  by (cases op)
     (simp_all add: KeyRotator_ReportSuccess_def KeyRotator_ReportFailure_def KeyRotator_TryRecover_def)

lemma key_run_failCount:
  assumes "distinct (map rk_value (kr_keys kr))" "v \<noteq> []" "\<forall>op \<in> set ops. \<not> readmits v op"
    "\<And>k. k \<in> set (kr_keys kr) \<Longrightarrow> rk_value k = v \<Longrightarrow>
       c \<le> rk_failCount k \<and> rk_failCount k + int (length ops) \<le> max_i64"
    "0 \<le> c" "k \<in> set (kr_keys (key_run ops kr))" "rk_value k = v"
  shows "c + int (length (filter (is_failure_of v) ops)) \<le> rk_failCount k"
  using assms
proof (induction ops arbitrary: kr c)
  case (Cons op ops)
  let ?c = "if is_failure_of v op then c + 1 else c"
  have step: "?c \<le> rk_failCount k' \<and> rk_failCount k' + int (length ops) \<le> max_i64"
    if "k' \<in> set (kr_keys (key_step op kr))" "rk_value k' = v" for k'
  proof -
    have "\<not> readmits v op" using Cons.prems(3) by simp
    from key_step_keys [OF Cons.prems(1,2) this that] obtain k0 where k0:
      "k0 \<in> set (kr_keys kr)" "rk_value k0 = v"
      "rk_failCount k' = (if is_failure_of v op then i64 (rk_failCount k0 + 1) else rk_failCount k0)"
      by blast
    from Cons.prems(4) [OF k0(1,2)] Cons.prems(5) k0(3) show ?thesis
      by (simp add: min_i64_def split: if_splits)
  qed
  have "?c + int (length (filter (is_failure_of v) ops)) \<le> rk_failCount k"
  proof (rule Cons.IH [of "key_step op kr" ?c])
    show "k \<in> set (kr_keys (key_run ops (key_step op kr)))"
      using Cons.prems(6) by (simp add: key_run_def)
  qed (use Cons.prems step in auto)
  then show ?case by (simp split: if_splits)
qed (simp add: key_run_def)

lemma nexts_rotate:
  assumes "0 \<le> kr_index kr" "kr_index kr + int m \<le> max_i64" "list_all key_usable (kr_keys kr)"
    "kr_keys kr \<noteq> []"
  shows "nexts m kr = map (\<lambda>i. rk_value (kr_keys kr ! ((nat (kr_index kr) + i) mod length (kr_keys kr)))) [0..<m]"
  using assms
proof (induction m arbitrary: kr)
  case (Suc m)
  let ?xs = "scan_from (nat (kr_index kr)) (kr_keys kr)"
  have "?xs \<noteq> []" "key_usable (hd ?xs)"
    using Suc.prems(3,4) by (metis length_0_conv length_scan_from)
      (metis Suc.prems(3,4) hd_in_set length_0_conv length_scan_from list_all_iff set_scan_from)
  then have hd: "find key_usable ?xs = Some (kr_keys kr ! (nat (kr_index kr) mod length (kr_keys kr)))"
    using Suc.prems(4) by (simp add: find_hd hd_scan_from)
  have nx: "KeyRotator_Next kr =
      (rk_value (kr_keys kr ! (nat (kr_index kr) mod length (kr_keys kr))), kr\<lparr>kr_index := kr_index kr + 1\<rparr>)"
    using Suc.prems by (simp add: Next_start hd)
  have "nexts m (kr\<lparr>kr_index := kr_index kr + 1\<rparr>) =
      map (\<lambda>i. rk_value (kr_keys kr ! ((nat (kr_index kr) + Suc i) mod length (kr_keys kr)))) [0..<m]"
    using Suc.IH [of "kr\<lparr>kr_index := kr_index kr + 1\<rparr>"] Suc.prems by (simp add: nat_add_distrib)
  then show ?case
    by (simp add: nx map_upt_Suc del: upt_Suc)
qed simp

section \<open>Properties\<close>

definition demo_rotator :: KeyRotator where
  "demo_rotator = \<lparr>kr_providerID = ''p'', kr_keys =
     [\<lparr>rk_name = ''a'', rk_value = ''ka'', rk_disabled = False, rk_failCount = 0, rk_lastFail = 0\<rparr>,
      \<lparr>rk_name = ''b'', rk_value = ''kb'', rk_disabled = False, rk_failCount = 0, rk_lastFail = 0\<rparr>,
      \<lparr>rk_name = ''c'', rk_value = ''kc'', rk_disabled = False, rk_failCount = 0, rk_lastFail = 0\<rparr>],
     kr_index = 0\<rparr>"

text \<open>
  The rotation is fair: while all keys are usable, as many calls of \<open>Next\<close> as there are keys
  return every key's value exactly once, wherever the counter stands.
\<close>

theorem Next_round_robin:
  assumes "0 \<le> kr_index kr" "kr_index kr + int (length (kr_keys kr)) \<le> max_i64"
    "list_all key_usable (kr_keys kr)"
  shows "mset (nexts (length (kr_keys kr)) kr) = mset (map rk_value (kr_keys kr))"
proof (cases "kr_keys kr = []")
  case False
  have "nexts (length (kr_keys kr)) kr = map rk_value (scan_from (nat (kr_index kr)) (kr_keys kr))"
    using nexts_rotate [OF assms False] by (simp add: scan_from_def comp_def)
  then show ?thesis by (simp only: mset_map mset_scan_from)
qed simp

theorem Next_round_robin_witness:
  "mset (nexts 3 (demo_rotator\<lparr>kr_index := 7\<rparr>)) = {#''ka'', ''kb'', ''kc''#}"
  using Next_round_robin [of "demo_rotator\<lparr>kr_index := 7\<rparr>"]
  by (simp add: demo_rotator_def max_i64_def key_usable_def maxFailCount_def numeral_3_eq_3)

text \<open>
  \<open>Next\<close> hands out the value of a usable key, and an empty string only when no key is usable
  (keys having values): it changes nothing but the counter.
\<close>

theorem Next_usable_or_empty:
  assumes "\<forall>k \<in> set (kr_keys kr). rk_value k \<noteq> []"
  shows "(if fst (KeyRotator_Next kr) = [] then \<forall>k \<in> set (kr_keys kr). \<not> key_usable k
          else \<exists>k \<in> set (kr_keys kr). key_usable k \<and> rk_value k = fst (KeyRotator_Next kr)) \<and>
         kr_keys (snd (KeyRotator_Next kr)) = kr_keys kr"
  using Next_value [of kr] Next_none [of _ kr] assms by auto

theorem Next_usable_or_empty_witness:
  "fst (KeyRotator_Next (demo_rotator\<lparr>kr_index := -5\<rparr>)) \<in> {''ka'', ''kb'', ''kc''}"
proof -
  have ne: "fst (KeyRotator_Next (demo_rotator\<lparr>kr_index := -5\<rparr>)) \<noteq> []" by code_simp
  have "\<forall>k \<in> set (kr_keys (demo_rotator\<lparr>kr_index := -5\<rparr>)). rk_value k \<noteq> []"
    by (simp add: demo_rotator_def)
  from Next_usable_or_empty [OF this] ne show ?thesis
    by (auto simp: demo_rotator_def)
qed

text \<open>
  A key is retired: when the values of the keys are distinct, a history that reports three
  failures of a key, no success of it, and runs no recovery, ends in a state where \<open>Next\<close> does not
  return that key.
\<close>

theorem failed_key_retired:
  assumes "distinct (map rk_value (kr_keys kr))" "v \<noteq> []"
    "\<forall>k \<in> set (kr_keys kr). 0 \<le> rk_failCount k \<and> rk_failCount k + int (length ops) \<le> max_i64"
    "\<forall>op \<in> set ops. \<not> readmits v op"
    "3 \<le> length (filter (is_failure_of v) ops)"
  shows "fst (KeyRotator_Next (key_run ops kr)) \<noteq> v"
proof
  assume "fst (KeyRotator_Next (key_run ops kr)) = v"
  with Next_value assms(2) obtain k where k:
    "k \<in> set (kr_keys (key_run ops kr))" "key_usable k" "rk_value k = v" by blast
  have "0 + int (length (filter (is_failure_of v) ops)) \<le> rk_failCount k"
    by (rule key_run_failCount [OF assms(1,2,4) _ _ k(1,3)]) (use assms(3) in auto)
  with assms(5) k(2) show False by (simp add: key_usable_def maxFailCount_def)
qed

theorem failed_key_retired_witness:
  "fst (KeyRotator_Next (key_run
     [OpFailure 5 ''ka'', OpNext, OpFailure 6 ''ka'', OpSuccess ''kb'', OpFailure 7 ''ka''] demo_rotator)) \<noteq> ''ka''"
  by (rule failed_key_retired)
     (simp_all add: demo_rotator_def readmits_def is_failure_of_def max_i64_def)

text \<open>
  \<open>TryRecover\<close> reports a change exactly when it makes one. A key comes back after the cooldown
  since its last failure has passed; a key whose failures came with the snapshot has no such time,
  so a fresh rotator never recovers one.
\<close>

theorem TryRecover_effect:
  "(fst (KeyRotator_TryRecover now cooldown kr) \<longleftrightarrow> snd (KeyRotator_TryRecover now cooldown kr) \<noteq> kr) \<and>
   map (\<lambda>k. key_usable k) (kr_keys (snd (KeyRotator_TryRecover now cooldown kr))) =
     map (\<lambda>k. \<not> rk_disabled k \<and> (rk_failCount k < 3 \<or>
       (rk_lastFail k \<noteq> 0 \<and> 0 < cooldown \<and> cooldown \<le> time_sub now (rk_lastFail k)))) (kr_keys kr) \<and>
   KeyRotator_TryRecover now cooldown (NewKeyRotator p) = (False, NewKeyRotator p)"
proof (intro conjI)
  let ?g = "\<lambda>k. if key_recovers now cooldown k then k\<lparr>rk_failCount := 0\<rparr> else k"
  have "?g k = k \<longleftrightarrow> \<not> key_recovers now cooldown k" for k :: rotatableKey
    by (cases k) (auto simp: key_recovers_def maxFailCount_def)
  then have "map ?g ks = ks \<longleftrightarrow> \<not> list_ex (key_recovers now cooldown) ks" for ks
    by (induction ks) auto
  then show "fst (KeyRotator_TryRecover now cooldown kr) \<longleftrightarrow> snd (KeyRotator_TryRecover now cooldown kr) \<noteq> kr"
    by (cases kr) (simp add: KeyRotator_TryRecover_def)
next
  have fresh: "rk_lastFail k = 0" if "k \<in> set (kr_keys (NewKeyRotator p))" for k
    using that by (auto simp: NewKeyRotator_def split: option.splits)
  then have "list_ex (key_recovers now cooldown) (kr_keys (NewKeyRotator p)) = False"
    "map (\<lambda>k. if key_recovers now cooldown k then k\<lparr>rk_failCount := 0\<rparr> else k)
       (kr_keys (NewKeyRotator p)) = kr_keys (NewKeyRotator p)"
    by (auto simp: list_ex_iff key_recovers_def is_zero_time_def intro: map_idI)
  then show "KeyRotator_TryRecover now cooldown (NewKeyRotator p) = (False, NewKeyRotator p)"
    by (simp add: KeyRotator_TryRecover_def)
qed (auto simp: KeyRotator_TryRecover_def key_usable_def key_recovers_def is_zero_time_def maxFailCount_def)

end
