(* ===== verification/Rate_Limit.thy ===== *)
theory Rate_Limit
  imports Snapshot_Data "HOL-Library.Word"
begin

text \<open>
  The two token buckets of the gateway: the per-key limiter of
  \<open>internal/gateway/ratelimit\<close> with its HTTP middleware, which rejects, and the per-upstream
  limiter of \<open>internal/gateway/api/runtime_state.go\<close>, which delays. Both meet the contract
  \<open>token_bucket\<close>, from which their rate bounds follow. Token counts are rationals here; every
  clock reading of an operation is an argument.
\<close>

section \<open>The contract of a token bucket\<close>

text \<open>
  A step consumes an input and grants a slot or does not. \<open>level\<close> is what the bucket holds at its
  \<open>clock\<close>; a grant costs at least \<open>cost\<close>, and the level grows by at most \<open>rate\<close> tokens a second.
\<close>

locale token_bucket =
  fixes step :: "'s \<Rightarrow> 'i \<Rightarrow> bool \<times> 's"
    and ok :: "'s \<Rightarrow> 'i \<Rightarrow> bool"
    and inv :: "'s \<Rightarrow> bool"
    and level :: "'s \<Rightarrow> rat"
    and clock :: "'s \<Rightarrow> gotime"
    and rate cap cost :: rat
  assumes step_inv: "inv s \<Longrightarrow> ok s i \<Longrightarrow> inv (snd (step s i))"
    and step_pays: "inv s \<Longrightarrow> ok s i \<Longrightarrow>
      cost * of_bool (fst (step s i)) + level (snd (step s i))
        \<le> level s + rate * seconds_of (clock (snd (step s i)) - clock s)"
    and level_bounds: "inv s \<Longrightarrow> 0 \<le> level s \<and> level s \<le> cap"
begin

fun run :: "'s \<Rightarrow> 'i list \<Rightarrow> nat \<times> 's" where
  "run s [] = (0, s)"
| "run s (i # is) =
     (let (g, s') = step s i; (n, s'') = run s' is in ((if g then Suc n else n), s''))"

fun oks :: "'s \<Rightarrow> 'i list \<Rightarrow> bool" where
  "oks s [] \<longleftrightarrow> True"
| "oks s (i # is) \<longleftrightarrow> ok s i \<and> oks (snd (step s i)) is"

lemma run_pays:
  "inv s \<Longrightarrow> oks s xs \<Longrightarrow>
     inv (snd (run s xs)) \<and>
     cost * of_nat (fst (run s xs)) + level (snd (run s xs))
       \<le> level s + rate * seconds_of (clock (snd (run s xs)) - clock s)"
proof (induction xs arbitrary: s)
  case (Cons i xs)
  let ?s = "snd (step s i)" and ?r = "run (snd (step s i)) xs"
  have ih: "inv (snd ?r)" "cost * of_nat (fst ?r) + level (snd ?r)
      \<le> level ?s + rate * seconds_of (clock (snd ?r) - clock ?s)"
    using Cons.IH [of ?s] Cons.prems step_inv by auto
  have "rate * seconds_of (clock (snd ?r) - clock ?s) + rate * seconds_of (clock ?s - clock s)
      = rate * seconds_of (clock (snd ?r) - clock s)"
    by (simp add: seconds_of_def field_simps)
  moreover have "cost * of_bool (fst (step s i)) + level ?s \<le> level s + rate * seconds_of (clock ?s - clock s)"
    using step_pays Cons.prems by simp
  ultimately show ?case
    using ih by (auto simp: split_beta algebra_simps)
qed (simp add: seconds_of_def)

text \<open>The rate bound: the slots of a run are paid for by a full bucket and the time that passes.\<close>

lemma run_bound:
  assumes "inv s" "oks s xs"
  shows "cost * of_nat (fst (run s xs)) \<le> cap + rate * seconds_of (clock (snd (run s xs)) - clock s)"
  using run_pays [OF assms] level_bounds [OF assms(1)] level_bounds [of "snd (run s xs)"] by linarith

end

section \<open>The per-key limiter\<close>

record bucket =
  b_tokens :: float64
  b_lastCheck :: gotime

record Limiter =
  l_buckets :: "(string \<times> bucket) list"
  l_rps :: float64
  l_burst :: goint
  l_maxBuckets :: goint
  l_callCount :: "64 word"

definition staleBucketTTL :: duration where "staleBucketTTL = 5 * minute"
definition defaultMaxBuckets :: goint where "defaultMaxBuckets = 65536"
definition cleanupInterval :: "64 word" where "cleanupInterval = 256"

definition NewLimiter :: "float64 \<Rightarrow> goint \<Rightarrow> Limiter" where
  "NewLimiter rps burst = \<lparr>l_buckets = [], l_rps = rps, l_burst = burst,
     l_maxBuckets = defaultMaxBuckets, l_callCount = 0\<rparr>"

definition cleanupStaleBucketsLocked :: "gotime \<Rightarrow> Limiter \<Rightarrow> Limiter" where
  "cleanupStaleBucketsLocked now l =
     (let cutoff = now - staleBucketTTL in
      l\<lparr>l_buckets := filter (\<lambda>(key, b). \<not> b_lastCheck b < cutoff) (l_buckets l)\<rparr>)"

text \<open>The second half of \<open>Allow\<close>: refill the bucket of the key, then take a token from it.\<close>

definition bucket_take :: "gotime \<Rightarrow> string \<Rightarrow> bucket \<Rightarrow> Limiter \<Rightarrow> bool \<times> Limiter" where
  "bucket_take now key b l =
     (let elapsed = seconds_of (time_sub now (b_lastCheck b));
          filled = b_tokens b + elapsed * l_rps l;
          tokens = (if of_int (l_burst l) < filled then of_int (l_burst l) else filled)
      in if tokens < 1
         then (False, l\<lparr>l_buckets := AList.update key \<lparr>b_tokens = tokens, b_lastCheck = now\<rparr> (l_buckets l)\<rparr>)
         else (True, l\<lparr>l_buckets := AList.update key \<lparr>b_tokens = tokens - 1, b_lastCheck = now\<rparr> (l_buckets l)\<rparr>))"

text \<open>\<open>t0\<close> and \<open>t1\<close> are the clock readings of the periodic cleanup and of the one at capacity.\<close>

definition Allow :: "gotime \<Rightarrow> gotime \<Rightarrow> gotime \<Rightarrow> string \<Rightarrow> Limiter \<Rightarrow> bool \<times> Limiter" where
  "Allow t0 t1 now key l0 =
     (let l1 = l0\<lparr>l_callCount := l_callCount l0 + 1\<rparr>;
          l = (if l_callCount l1 mod cleanupInterval = 0 then cleanupStaleBucketsLocked t0 l1 else l1)
      in case map_of (l_buckets l) key of
           Some b \<Rightarrow> bucket_take now key b l
         | None \<Rightarrow>
             let fresh = \<lparr>b_tokens = of_int (l_burst l), b_lastCheck = 0\<rparr> in
             if l_maxBuckets l \<le> int (length (l_buckets l))
             then let l' = cleanupStaleBucketsLocked t1 l in
               if l_maxBuckets l' \<le> int (length (l_buckets l')) then (False, l')
               else bucket_take now key fresh l'
             else bucket_take now key fresh l)"

subsection \<open>The middleware\<close>

definition extractAPIKey :: "string \<Rightarrow> string" where
  "extractAPIKey authHeader =
     (if prefix ''Bearer '' authHeader then trim_space (drop 7 authHeader) else [])"

text \<open>
  The host that \<open>net.SplitHostPort\<close> returns, \<open>None\<close> for its errors: the port follows the last
  colon, and a host in brackets may hold colons.
\<close>

definition last_colon :: "string \<Rightarrow> nat option" where
  "last_colon s = (if CHR '':'' \<in> set s
     then Some (length s - 1 - length (takeWhile (\<lambda>c. c \<noteq> CHR '':'') (rev s))) else None)"

definition SplitHostPort_host :: "string \<Rightarrow> string option" where
  "SplitHostPort_host hostport =
     (case last_colon hostport of
        None \<Rightarrow> None
      | Some i \<Rightarrow>
          if hd hostport = CHR ''['' then
            (let end = length (takeWhile (\<lambda>c. c \<noteq> CHR '']'') hostport) in
             if end = length hostport \<or> end + 1 \<noteq> i then None
             else if CHR ''['' \<in> set (drop 1 hostport) \<or> CHR '']'' \<in> set (drop (end + 1) hostport)
             then None
             else Some (take (end - 1) (drop 1 hostport)))
          else
            (let host = take i hostport in
             if CHR '':'' \<in> set host then None
             else if CHR ''['' \<in> set hostport \<or> CHR '']'' \<in> set hostport then None
             else Some host))"

text \<open>The request as the middleware reads it: three headers and the remote address.\<close>

record LimitedRequest =
  lr_Authorization :: string
  lr_XForwardedFor :: string
  lr_XRealIP :: string
  lr_RemoteAddr :: string

definition extractIP :: "LimitedRequest \<Rightarrow> string" where
  "extractIP r =
     (let fwd = trim_space (takeWhile (\<lambda>c. c \<noteq> CHR '','') (lr_XForwardedFor r)) in
      if lr_XForwardedFor r \<noteq> [] \<and> fwd \<noteq> [] then fwd
      else if lr_XRealIP r \<noteq> [] then trim_space (lr_XRealIP r)
      else case SplitHostPort_host (lr_RemoteAddr r) of
          None \<Rightarrow> lr_RemoteAddr r
        | Some host \<Rightarrow> host)"

text \<open>\<open>True\<close> when the request is served, \<open>False\<close> for the answer 429.\<close>

definition Middleware ::
  "gotime \<Rightarrow> gotime \<Rightarrow> gotime \<Rightarrow> LimitedRequest \<Rightarrow> Limiter \<Rightarrow> bool \<times> Limiter" where
  "Middleware t0 t1 now r l =
     (let auth = trim_space (lr_Authorization r) in
      if auth \<noteq> [] then
        (let key = extractAPIKey auth in
         if key \<noteq> [] then Allow t0 t1 now key l else (True, l))
      else
        (let ip = extractIP r in
         if ip \<noteq> [] then Allow t0 t1 now (''ip:'' @ ip) l else (True, l)))"

section \<open>The per-upstream limiter\<close>

record upstreamRateLimiter =
  u_rps :: float64
  u_burst :: goint
  u_tokens :: float64
  u_lastCheck :: gotime

definition newUpstreamRateLimiter :: "RateLimitConfig \<Rightarrow> gotime \<Rightarrow> upstreamRateLimiter" where
  "newUpstreamRateLimiter limit now =
     (let burst = (if rl_Burst limit \<le> 0 then 1 else rl_Burst limit) in
      \<lparr>u_rps = rl_RequestsPerSecond limit, u_burst = burst, u_tokens = of_int burst, u_lastCheck = now\<rparr>)"

definition upstream_matches :: "upstreamRateLimiter \<Rightarrow> RateLimitConfig \<Rightarrow> bool" where
  "upstream_matches l limit \<longleftrightarrow>
     u_rps l = rl_RequestsPerSecond limit \<and>
     u_burst l = (if rl_Burst limit \<le> 0 then 1 else rl_Burst limit)"

text \<open>The conversion of a \<open>float64\<close> to a duration cuts off its fraction.\<close>

definition duration_of_float :: "float64 \<Rightarrow> duration" where
  "duration_of_float x = (if 0 \<le> x then \<lfloor>x\<rfloor> else \<lceil>x\<rceil>)"

definition upstream_refill :: "gotime \<Rightarrow> upstreamRateLimiter \<Rightarrow> upstreamRateLimiter" where
  "upstream_refill now l0 =
     (let l = (if is_zero_time (u_lastCheck l0) then l0\<lparr>u_lastCheck := now\<rparr> else l0) in
      if u_lastCheck l < now then
        let filled = u_tokens l + seconds_of (time_sub now (u_lastCheck l)) * u_rps l in
        l\<lparr>u_tokens := (if of_int (u_burst l) < filled then of_int (u_burst l) else filled),
          u_lastCheck := now\<rparr>
      else l)"

definition reserveDelay :: "gotime \<Rightarrow> upstreamRateLimiter \<Rightarrow> duration \<times> upstreamRateLimiter" where
  "reserveDelay now l0 =
     (if u_rps l0 \<le> 0 then (0, l0)
      else let l = upstream_refill now l0 in
        if 1 \<le> u_tokens l then (0, l\<lparr>u_tokens := u_tokens l - 1\<rparr>)
        else
          let reservationBase = (if now < u_lastCheck l then u_lastCheck l else now);
              needed = 1 - u_tokens l;
              raw = duration_of_float (needed / u_rps l * of_int second);
              wait = (if raw \<le> 0 then nanosecond else raw);
              next = reservationBase + wait
          in (time_sub next now, l\<lparr>u_tokens := 0, u_lastCheck := next\<rparr>))"

section \<open>The per-key limiter meets the contract\<close>

text \<open>
  What the bucket of a key holds at a time: a key without a bucket would get a full one. The
  invariant relates the limiter to the time of its last call.
\<close>

definition bucket_level :: "string \<Rightarrow> Limiter \<Rightarrow> gotime \<Rightarrow> rat" where
  "bucket_level k l t =
     (case map_of (l_buckets l) k of
        None \<Rightarrow> of_int (l_burst l)
      | Some b \<Rightarrow> min (of_int (l_burst l)) (b_tokens b + l_rps l * seconds_of (t - b_lastCheck b)))"

definition limiter_inv :: "Limiter \<Rightarrow> gotime \<Rightarrow> bool" where
  "limiter_inv l t \<longleftrightarrow>
     0 \<le> l_rps l \<and> 0 \<le> l_burst l \<and> of_int (l_burst l) \<le> l_rps l * 300 \<and> 0 \<le> t \<and>
     distinct (map fst (l_buckets l)) \<and>
     (\<forall>(k, b) \<in> set (l_buckets l).
        0 \<le> b_tokens b \<and> b_tokens b \<le> of_int (l_burst l) \<and> 0 \<le> b_lastCheck b \<and> b_lastCheck b \<le> t)"

lemma limiter_inv_bucket:
  assumes "limiter_inv l t" "map_of (l_buckets l) k = Some b"
  shows "0 \<le> b_tokens b" "b_tokens b \<le> of_int (l_burst l)" "0 \<le> b_lastCheck b" "b_lastCheck b \<le> t"
  using assms map_of_SomeD [OF assms(2)] by (auto simp: limiter_inv_def)

lemma limiter_inv_later [inv_intros]: "limiter_inv l t \<Longrightarrow> t \<le> t' \<Longrightarrow> limiter_inv l t'"
  by (fastforce simp: limiter_inv_def)

lemma limiter_inv_callCount [simp]:
  "limiter_inv (l\<lparr>l_callCount := n\<rparr>) t = limiter_inv l t"
  "bucket_level k (l\<lparr>l_callCount := n\<rparr>) t = bucket_level k l t"
  by (simp_all add: limiter_inv_def bucket_level_def split: option.split)

lemma update_mem: "p \<in> set (AList.update k v xs) \<Longrightarrow> p = (k, v) \<or> p \<in> set xs"
  by (induction xs) (auto split: if_splits)

lemma seconds_of_0 [simp]: "seconds_of 0 = 0"
  by (simp add: seconds_of_def)

lemma seconds_of_add: "seconds_of (a + b) = seconds_of a + seconds_of b"
  by (simp add: seconds_of_def add_divide_distrib)

lemma bucket_level_bounds:
  assumes "limiter_inv l t"
  shows "0 \<le> bucket_level k l t" "bucket_level k l t \<le> of_int (l_burst l)"
proof -
  have "0 \<le> l_rps l * seconds_of (t - b_lastCheck b)" if "b_lastCheck b \<le> t" for b
    using assms that by (simp add: limiter_inv_def)
  then show "0 \<le> bucket_level k l t" "bucket_level k l t \<le> of_int (l_burst l)"
    using assms limiter_inv_bucket [OF assms]
    by (auto simp: bucket_level_def limiter_inv_def split: option.splits)
qed

lemma bucket_level_later:
  assumes "limiter_inv l t" "t \<le> t'"
  shows "bucket_level k l t' \<le> bucket_level k l t + l_rps l * seconds_of (t' - t)"
proof (cases "map_of (l_buckets l) k")
  case None
  with assms show ?thesis by (simp add: bucket_level_def limiter_inv_def)
next
  case (Some b)
  have "seconds_of (t' - b_lastCheck b) = seconds_of (t - b_lastCheck b) + seconds_of (t' - t)"
    by (simp add: seconds_of_def field_simps)
  moreover have "0 \<le> l_rps l * seconds_of (t' - t)"
    using assms by (simp add: limiter_inv_def)
  ultimately show ?thesis
    using Some by (simp add: bucket_level_def algebra_simps min_def)
qed

lemma cleanup_inv [inv_intros]:
  "limiter_inv l t \<Longrightarrow> limiter_inv (cleanupStaleBucketsLocked now l) t"
  by (auto simp: limiter_inv_def cleanupStaleBucketsLocked_def Let_def distinct_map_filter)

lemma cleanup_fields [simp]:
  "l_rps (cleanupStaleBucketsLocked now l) = l_rps l"
  "l_burst (cleanupStaleBucketsLocked now l) = l_burst l"
  "l_maxBuckets (cleanupStaleBucketsLocked now l) = l_maxBuckets l"
  by (simp_all add: cleanupStaleBucketsLocked_def Let_def)

text \<open>
  An evicted bucket was full: after five idle minutes the refill has reached the burst. This is
  where the hypothesis that five minutes fill a bucket is needed.
\<close>

lemma cleanup_level:
  assumes "limiter_inv l t" "now \<le> t'"
  shows "bucket_level k (cleanupStaleBucketsLocked now l) t' = bucket_level k l t'"
proof -
  have dist: "distinct (map fst (l_buckets l))"
    using assms(1) by (simp add: limiter_inv_def)
  have mo: "map_of (filter (\<lambda>(key, b). \<not> b_lastCheck b < c) bs) k =
      (case map_of bs k of None \<Rightarrow> None | Some b \<Rightarrow> if b_lastCheck b < c then None else Some b)"
    if "distinct (map fst bs)" for bs :: "(string \<times> bucket) list" and c
    using that by (induction bs) (auto split: option.splits simp: map_of_eq_None_iff image_iff)
  have full: "of_int (l_burst l) \<le> b_tokens b + l_rps l * seconds_of (t' - b_lastCheck b)"
    if b: "map_of (l_buckets l) k = Some b" and old: "b_lastCheck b < now - staleBucketTTL" for b
  proof -
    have "300 \<le> seconds_of (t' - b_lastCheck b)"
      using old assms(2) seconds_of_mono [of "300 * 1000000000" "t' - b_lastCheck b"]
      by (simp add: staleBucketTTL_def minute_def seconds_of_def)
    then have "l_rps l * 300 \<le> l_rps l * seconds_of (t' - b_lastCheck b)"
      using assms(1) by (intro mult_left_mono) (simp_all add: limiter_inv_def)
    with assms(1) limiter_inv_bucket(1) [OF assms(1) b] show ?thesis
      by (simp add: limiter_inv_def)
  qed
  show ?thesis
    using full by (auto simp: bucket_level_def cleanupStaleBucketsLocked_def Let_def mo [OF dist]
        split: option.splits)
qed

lemma bucket_take_spec:
  assumes inv: "limiter_inv l t" and "t \<le> now"
    and b: "0 \<le> b_tokens b" "b_tokens b \<le> of_int (l_burst l)" "0 \<le> b_lastCheck b" "b_lastCheck b \<le> now"
    and lvl: "min (of_int (l_burst l)) (b_tokens b + l_rps l * seconds_of (now - b_lastCheck b))
      \<le> bucket_level key l now"
  shows "limiter_inv (snd (bucket_take now key b l)) now"
    "of_bool (key = k \<and> fst (bucket_take now key b l)) + bucket_level k (snd (bucket_take now key b l)) now
       \<le> bucket_level k l now"
    "l_rps (snd (bucket_take now key b l)) = l_rps l"
    "l_burst (snd (bucket_take now key b l)) = l_burst l"
    "l_maxBuckets (snd (bucket_take now key b l)) = l_maxBuckets l"
    "set (map fst (l_buckets (snd (bucket_take now key b l)))) = insert key (set (map fst (l_buckets l)))"
proof -
  define e where "e = l_rps l * seconds_of (time_sub now (b_lastCheck b))"
  define tok where "tok = min (of_int (l_burst l)) (b_tokens b + e)"
  have e: "0 \<le> e" "e \<le> l_rps l * seconds_of (now - b_lastCheck b)"
    using inv b(4) by (auto simp: e_def limiter_inv_def intro!: mult_left_mono seconds_of_mono time_sub_le)
  have tok: "0 \<le> tok" "tok \<le> of_int (l_burst l)"
    "tok \<le> min (of_int (l_burst l)) (b_tokens b + l_rps l * seconds_of (now - b_lastCheck b))"
    using e b inv by (auto simp: tok_def limiter_inv_def)
  have take: "bucket_take now key b l =
     (if tok < 1
      then (False, l\<lparr>l_buckets := AList.update key \<lparr>b_tokens = tok, b_lastCheck = now\<rparr> (l_buckets l)\<rparr>)
      else (True, l\<lparr>l_buckets := AList.update key \<lparr>b_tokens = tok - 1, b_lastCheck = now\<rparr> (l_buckets l)\<rparr>))"
    by (simp add: bucket_take_def Let_def tok_def e_def min_def mult.commute)
  have upd: "limiter_inv (l\<lparr>l_buckets := AList.update key \<lparr>b_tokens = x, b_lastCheck = now\<rparr> (l_buckets l)\<rparr>) now"
    if "0 \<le> x" "x \<le> of_int (l_burst l)" for x
  proof -
    note mem = update_mem [of _ key "\<lparr>b_tokens = x, b_lastCheck = now\<rparr>" "l_buckets l"]
    show ?thesis
      using limiter_inv_later [OF inv \<open>t \<le> now\<close>] that
      by (fastforce simp: limiter_inv_def distinct_update dest: mem)
  qed
  show "limiter_inv (snd (bucket_take now key b l)) now"
    using tok by (simp add: take upd)
  show "of_bool (key = k \<and> fst (bucket_take now key b l)) + bucket_level k (snd (bucket_take now key b l)) now
       \<le> bucket_level k l now"
  proof (cases "key = k")
    case True
    have "tok \<le> bucket_level key l now" using order_trans [OF tok(3) lvl] .
    moreover have "bucket_level key (l\<lparr>l_buckets := AList.update key \<lparr>b_tokens = tok, b_lastCheck = now\<rparr> (l_buckets l)\<rparr>) now \<le> tok"
      "bucket_level key (l\<lparr>l_buckets := AList.update key \<lparr>b_tokens = tok - 1, b_lastCheck = now\<rparr> (l_buckets l)\<rparr>) now \<le> tok - 1"
      by (simp_all add: bucket_level_def update_conv')
    ultimately show ?thesis
      unfolding take True [symmetric] by simp
  next
    case False
    then show ?thesis by (simp add: take bucket_level_def update_conv' split: option.split)
  qed
qed (auto simp: bucket_take_def Let_def dom_update)

lemma update_length:
  "length (AList.update k v xs) = (if k \<in> set (map fst xs) then length xs else Suc (length xs))"
  by (induction xs) auto

lemma bucket_take_length:
  "length (l_buckets (snd (bucket_take now key b l))) =
     (if key \<in> set (map fst (l_buckets l)) then length (l_buckets l) else Suc (length (l_buckets l)))"
  by (simp add: bucket_take_def Let_def update_length)

lemma cleanup_length: "length (l_buckets (cleanupStaleBucketsLocked now l)) \<le> length (l_buckets l)"
  by (simp add: cleanupStaleBucketsLocked_def Let_def)

text \<open>One call of \<open>Allow\<close>, on every branch.\<close>

lemma Allow_spec:
  assumes inv: "limiter_inv l0 t" and times: "t \<le> t0" "t0 \<le> t1" "t1 \<le> now"
  shows "limiter_inv (snd (Allow t0 t1 now key l0)) now \<and>
    of_bool (key = k \<and> fst (Allow t0 t1 now key l0)) + bucket_level k (snd (Allow t0 t1 now key l0)) now
       \<le> bucket_level k l0 now \<and>
    l_rps (snd (Allow t0 t1 now key l0)) = l_rps l0 \<and>
    l_burst (snd (Allow t0 t1 now key l0)) = l_burst l0 \<and>
    l_maxBuckets (snd (Allow t0 t1 now key l0)) = l_maxBuckets l0 \<and>
    (int (length (l_buckets l0)) \<le> l_maxBuckets l0 \<longrightarrow>
       int (length (l_buckets (snd (Allow t0 t1 now key l0)))) \<le> l_maxBuckets l0)"
proof -
  define l1 where "l1 = l0\<lparr>l_callCount := l_callCount l0 + 1\<rparr>"
  define l where "l = (if l_callCount l1 mod cleanupInterval = 0 then cleanupStaleBucketsLocked t0 l1 else l1)"
  define fresh where "fresh = \<lparr>b_tokens = of_int (l_burst l0), b_lastCheck = 0\<rparr>"
  have now: "t \<le> now" "t0 \<le> now" "0 \<le> t" using times inv by (auto simp: limiter_inv_def)
  have l: "limiter_inv l t" "bucket_level k l now = bucket_level k l0 now" "l_rps l = l_rps l0"
    "l_burst l = l_burst l0" "l_maxBuckets l = l_maxBuckets l0"
    "length (l_buckets l) \<le> length (l_buckets l0)" for k
    using inv cleanup_inv [of l1 t] cleanup_level [of l1 t t0 now] now cleanup_length [of t0 l1]
    by (auto simp: l_def l1_def)
  let ?l' = "cleanupStaleBucketsLocked t1 l"
  have l': "limiter_inv ?l' t" "bucket_level k ?l' now = bucket_level k l now" for k
    using l(1) cleanup_inv cleanup_level times(3) by auto
  have fresh: "0 \<le> b_tokens fresh" "b_tokens fresh \<le> of_int (l_burst l0)" "0 \<le> b_lastCheck fresh"
    "b_lastCheck fresh \<le> now"
    using inv now by (auto simp: fresh_def limiter_inv_def)
  have fresh_level: "min (of_int (l_burst l0)) (b_tokens fresh + l_rps l0 * seconds_of (now - b_lastCheck fresh))
      \<le> bucket_level key m now" if "map_of (l_buckets m) key = None" "l_burst m = l_burst l0" for m
    using that by (simp add: bucket_level_def)
  have allow: "Allow t0 t1 now key l0 = (case map_of (l_buckets l) key of
      Some b \<Rightarrow> bucket_take now key b l
    | None \<Rightarrow> if l_maxBuckets l0 \<le> int (length (l_buckets l))
        then if l_maxBuckets l0 \<le> int (length (l_buckets ?l')) then (False, ?l')
          else bucket_take now key fresh ?l'
        else bucket_take now key fresh l)"
    unfolding Allow_def Let_def l1_def [symmetric] l_def [symmetric] fresh_def by (simp add: l split: option.split)
  have None': "map_of (l_buckets ?l') key = None" if "map_of (l_buckets l) key = None"
    using that by (auto simp: cleanupStaleBucketsLocked_def Let_def map_of_eq_None_iff image_iff)
  consider (found) b where "map_of (l_buckets l) key = Some b"
    | (full) "map_of (l_buckets l) key = None" "l_maxBuckets l0 \<le> int (length (l_buckets l))"
        "l_maxBuckets l0 \<le> int (length (l_buckets ?l'))"
    | (evicted) "map_of (l_buckets l) key = None" "l_maxBuckets l0 \<le> int (length (l_buckets l))"
        "\<not> l_maxBuckets l0 \<le> int (length (l_buckets ?l'))"
    | (room) "map_of (l_buckets l) key = None" "\<not> l_maxBuckets l0 \<le> int (length (l_buckets l))"
    by (cases "map_of (l_buckets l) key") auto
  then show ?thesis
  proof cases
    case found
    have b: "0 \<le> b_tokens b" "b_tokens b \<le> of_int (l_burst l)" "0 \<le> b_lastCheck b" "b_lastCheck b \<le> now"
      using limiter_inv_bucket [OF l(1) found] now by auto
    have "min (of_int (l_burst l)) (b_tokens b + l_rps l * seconds_of (now - b_lastCheck b))
        \<le> bucket_level key l now" by (simp add: bucket_level_def found)
    note spec = bucket_take_spec [OF l(1) now(1) b this]
    have "key \<in> set (map fst (l_buckets l))"
      using found by (metis map_of_eq_None_iff option.distinct(1) set_map)
    then show ?thesis
      using spec(1,3-5) spec(2) [of k] l by (auto simp: allow found bucket_take_length)
  next
    case full
    then show ?thesis
      using limiter_inv_later [OF l'(1) now(1)] l l' cleanup_length [of t1 l]
      by (auto simp: allow)
  next
    case evicted
    note spec = bucket_take_spec [OF l'(1) now(1), of fresh key]
    show ?thesis
      using spec(1,3-5) spec(2) [of k] fresh fresh_level [OF None' [OF evicted(1)]] evicted l l'
      by (auto simp: allow bucket_take_length)
  next
    case room
    note spec = bucket_take_spec [OF l(1) now(1), of fresh key]
    show ?thesis
      using spec(1,3-5) spec(2) [of k] fresh fresh_level [OF room(1)] room l
      by (auto simp: allow bucket_take_length)
  qed
qed

text \<open>The grants of one key, as a bucket; the second component is the time of the last call.\<close>

type_synonym allow_call = "gotime \<times> gotime \<times> gotime \<times> string"

fun limiter_step :: "string \<Rightarrow> Limiter \<times> gotime \<Rightarrow> allow_call \<Rightarrow> bool \<times> Limiter \<times> gotime" where
  "limiter_step k (l, t) (t0, t1, now, key) =
     (key = k \<and> fst (Allow t0 t1 now key l), snd (Allow t0 t1 now key l), now)"

fun limiter_ok :: "Limiter \<times> gotime \<Rightarrow> allow_call \<Rightarrow> bool" where
  "limiter_ok (l, t) (t0, t1, now, key) \<longleftrightarrow> t \<le> t0 \<and> t0 \<le> t1 \<and> t1 \<le> now"

interpretation lim: token_bucket "limiter_step k" limiter_ok
    "\<lambda>(l, t). limiter_inv l t \<and> l_rps l = rps \<and> l_burst l = burst"
    "\<lambda>(l, t). bucket_level k l t" snd rps "of_int burst" 1
  for k rps burst
proof
  fix s :: "Limiter \<times> gotime" and i :: allow_call
  obtain l t where s: "s = (l, t)" by (cases s)
  obtain t0 t1 now key where i: "i = (t0, t1, now, key)" by (cases i)
  assume "case s of (l, t) \<Rightarrow> limiter_inv l t \<and> l_rps l = rps \<and> l_burst l = burst" and "limiter_ok s i"
  then have l: "limiter_inv l t" "l_rps l = rps" "l_burst l = burst" "t \<le> t0" "t0 \<le> t1" "t1 \<le> now"
    by (auto simp: s i limiter_ok.simps)
  note spec = Allow_spec [OF l(1,4,5,6), of key k]
  show "case snd (limiter_step k s i) of (l, t) \<Rightarrow> limiter_inv l t \<and> l_rps l = rps \<and> l_burst l = burst"
    using spec l by (simp add: limiter_step.simps s i)
  have "bucket_level k l now \<le> bucket_level k l t + rps * seconds_of (now - t)"
    using bucket_level_later [OF l(1), of now] l by simp
  with spec show "1 * of_bool (fst (limiter_step k s i)) +
      (case snd (limiter_step k s i) of (l, t) \<Rightarrow> bucket_level k l t)
      \<le> (case s of (l, t) \<Rightarrow> bucket_level k l t) +
         rps * seconds_of (snd (snd (limiter_step k s i)) - snd s)"
    unfolding limiter_step.simps s i by simp
next
  fix s :: "Limiter \<times> gotime"
  assume "case s of (l, t) \<Rightarrow> limiter_inv l t \<and> l_rps l = rps \<and> l_burst l = burst"
  then show "0 \<le> (case s of (l, t) \<Rightarrow> bucket_level k l t) \<and>
      (case s of (l, t) \<Rightarrow> bucket_level k l t) \<le> of_int burst"
    using bucket_level_bounds by (auto split: prod.splits)
qed

section \<open>The per-upstream limiter meets the contract\<close>

text \<open>
  The invariant relates the limiter to the time of its last call: a bucket whose time lies ahead
  of that call has been emptied by a reservation.
\<close>

definition upstream_inv :: "upstreamRateLimiter \<Rightarrow> gotime \<Rightarrow> bool" where
  "upstream_inv l t \<longleftrightarrow>
     0 < u_rps l \<and> 1 \<le> u_burst l \<and> 0 < t \<and> t \<le> u_lastCheck l \<and>
     0 \<le> u_tokens l \<and> u_tokens l \<le> of_int (u_burst l) \<and> (t < u_lastCheck l \<longrightarrow> u_tokens l = 0)"

fun upstream_step ::
  "upstreamRateLimiter \<times> gotime \<Rightarrow> gotime \<Rightarrow> bool \<times> upstreamRateLimiter \<times> gotime" where
  "upstream_step (l, t) now = (True, snd (reserveDelay now l), now)"

fun upstream_ok :: "upstreamRateLimiter \<times> gotime \<Rightarrow> gotime \<Rightarrow> bool" where
  "upstream_ok (l, t) now \<longleftrightarrow> t \<le> now"

lemma upstream_refill_spec:
  assumes "upstream_inv l t" "t \<le> now"
  shows "u_lastCheck (upstream_refill now l) = max now (u_lastCheck l)"
    "0 \<le> u_tokens (upstream_refill now l)" "u_tokens (upstream_refill now l) \<le> of_int (u_burst l)"
    "u_rps (upstream_refill now l) = u_rps l" "u_burst (upstream_refill now l) = u_burst l"
    "now < u_lastCheck l \<Longrightarrow> u_tokens (upstream_refill now l) = 0"
    "u_tokens (upstream_refill now l) \<le> u_tokens l + u_rps l * seconds_of (max now (u_lastCheck l) - u_lastCheck l)"
proof -
  have nz: "\<not> is_zero_time (u_lastCheck l)" using assms by (simp add: upstream_inv_def is_zero_time_def)
  have e: "0 \<le> u_rps l * seconds_of (time_sub now (u_lastCheck l))"
    "u_rps l * seconds_of (time_sub now (u_lastCheck l)) \<le> u_rps l * seconds_of (now - u_lastCheck l)"
    if "u_lastCheck l < now"
    using assms(1) that time_sub_le [of "u_lastCheck l" now]
    by (auto simp: upstream_inv_def intro!: mult_left_mono seconds_of_mono)
  show "u_lastCheck (upstream_refill now l) = max now (u_lastCheck l)"
    "u_rps (upstream_refill now l) = u_rps l" "u_burst (upstream_refill now l) = u_burst l"
    using nz by (auto simp: upstream_refill_def Let_def)
  have tokens: "u_tokens (upstream_refill now l) = (if u_lastCheck l < now
      then min (of_int (u_burst l)) (u_tokens l + u_rps l * seconds_of (time_sub now (u_lastCheck l)))
      else u_tokens l)"
    using nz by (simp add: upstream_refill_def Let_def min_def mult.commute)
  show "0 \<le> u_tokens (upstream_refill now l)" "u_tokens (upstream_refill now l) \<le> of_int (u_burst l)"
    "now < u_lastCheck l \<Longrightarrow> u_tokens (upstream_refill now l) = 0"
    using e assms unfolding tokens by (auto simp: upstream_inv_def)
  show "u_tokens (upstream_refill now l) \<le> u_tokens l + u_rps l * seconds_of (max now (u_lastCheck l) - u_lastCheck l)"
  proof (cases "u_lastCheck l < now")
    case True
    have "u_tokens (upstream_refill now l) \<le> u_tokens l + u_rps l * seconds_of (time_sub now (u_lastCheck l))"
      using True by (simp add: tokens)
    also have "\<dots> \<le> u_tokens l + u_rps l * seconds_of (now - u_lastCheck l)"
      by (rule add_left_mono [OF e(2) [OF True]])
    finally show ?thesis using True by (simp add: max_def)
  qed (simp add: tokens max_def)
qed

text \<open>The wait covers the missing part of a token, up to the nanosecond that the conversion cuts off.\<close>

lemma wait_covers:
  assumes "0 < rps" "x < 1"
  shows "let raw = duration_of_float ((1 - x) / rps * of_int second);
             wait = (if raw \<le> 0 then nanosecond else raw)
         in 0 < wait \<and> 1 - x - rps / 1000000000 \<le> rps * seconds_of wait"
proof -
  let ?y = "(1 - x) / rps * 1000000000"
  have "0 \<le> ?y" using assms by simp
  then have raw: "duration_of_float ((1 - x) / rps * of_int second) = \<lfloor>?y\<rfloor>"
    by (simp add: duration_of_float_def second_def)
  have "?y \<le> of_int \<lfloor>?y\<rfloor> + 1" by linarith
  then have "rps * (?y / 1000000000) \<le> rps * ((of_int \<lfloor>?y\<rfloor> + 1) / 1000000000)"
    using assms(1) by (intro mult_left_mono divide_right_mono) simp_all
  moreover have "rps * (?y / 1000000000) = 1 - x"
    using assms(1) by simp
  ultimately have "1 - x - rps / 1000000000 \<le> rps * seconds_of \<lfloor>?y\<rfloor>"
    by (simp add: seconds_of_def add_divide_distrib distrib_left)
  moreover have "rps * seconds_of \<lfloor>?y\<rfloor> \<le> rps * seconds_of nanosecond" if "\<lfloor>?y\<rfloor> \<le> 0"
    using that assms(1) by (intro mult_left_mono seconds_of_mono) (simp_all only: nanosecond_def)
  moreover have "0 < nanosecond" by (simp add: nanosecond_def)
  ultimately have "if \<lfloor>?y\<rfloor> \<le> 0 then 0 < nanosecond \<and> 1 - x - rps / 1000000000 \<le> rps * seconds_of nanosecond
      else 0 < \<lfloor>?y\<rfloor> \<and> 1 - x - rps / 1000000000 \<le> rps * seconds_of \<lfloor>?y\<rfloor>"
    by (cases "\<lfloor>?y\<rfloor> \<le> 0") (simp_all only: if_True if_False not_le, auto)
  then show ?thesis
    unfolding raw Let_def by (simp only: simp_thms split: if_splits)
qed

lemma reserveDelay_cases:
  assumes inv: "upstream_inv l t" and "t \<le> now"
  obtains (now) r where "r = upstream_refill now l" "1 \<le> u_tokens r" "u_lastCheck r = now"
      "reserveDelay now l = (0, r\<lparr>u_tokens := u_tokens r - 1\<rparr>)"
  | (later) r wait where "r = upstream_refill now l" "u_tokens r < 1" "0 < wait"
      "1 - u_tokens r - u_rps l / 1000000000 \<le> u_rps l * seconds_of wait"
      "u_lastCheck r = max now (u_lastCheck l)"
      "reserveDelay now l = (time_sub (u_lastCheck r + wait) now, r\<lparr>u_tokens := 0, u_lastCheck := u_lastCheck r + wait\<rparr>)"
proof -
  define r where "r = upstream_refill now l"
  note r = upstream_refill_spec [OF assms, folded r_def]
  have rps: "0 < u_rps l" using inv by (simp add: upstream_inv_def)
  show thesis
  proof (cases "1 \<le> u_tokens r")
    case True
    then have "\<not> now < u_lastCheck l" using r(6) by auto
    with True show thesis
      using rps r(1) by (intro now [of r]) (simp_all add: reserveDelay_def Let_def r_def [symmetric])
  next
    case False
    define raw where "raw = duration_of_float ((1 - u_tokens r) / u_rps r * of_int second)"
    define wait where "wait = (if raw \<le> 0 then nanosecond else raw)"
    have "0 < wait \<and> 1 - u_tokens r - u_rps l / 1000000000 \<le> u_rps l * seconds_of wait"
      using wait_covers [OF rps, of "u_tokens r"] False unfolding Let_def wait_def raw_def r(4) by simp
    moreover have "(if now < u_lastCheck r then u_lastCheck r else now) = u_lastCheck r"
      using r(1) by simp
    moreover from this have "reserveDelay now l = (time_sub (u_lastCheck r + wait) now,
        r\<lparr>u_tokens := 0, u_lastCheck := u_lastCheck r + wait\<rparr>)"
      using False rps unfolding reserveDelay_def Let_def r_def [symmetric] raw_def [symmetric] wait_def [symmetric]
      by simp
    ultimately show thesis
      using False r(1) by (intro later [of r wait]) (simp_all add: r_def)
  qed
qed

lemma reserveDelay_spec:
  assumes inv: "upstream_inv l t" and le: "t \<le> now"
  shows "upstream_inv (snd (reserveDelay now l)) now \<and>
    1 - u_rps l / 1000000000 + u_tokens (snd (reserveDelay now l))
       \<le> u_tokens l + u_rps l * seconds_of (u_lastCheck (snd (reserveDelay now l)) - u_lastCheck l) \<and>
    u_rps (snd (reserveDelay now l)) = u_rps l \<and> u_burst (snd (reserveDelay now l)) = u_burst l \<and>
    u_lastCheck l \<le> u_lastCheck (snd (reserveDelay now l)) \<and>
    fst (reserveDelay now l) = time_sub (u_lastCheck (snd (reserveDelay now l))) now"
  using assms
proof (cases rule: reserveDelay_cases)
  case (now r)
  note refill = upstream_refill_spec [OF assms, folded now(1)]
  have "u_rps l / 1000000000 \<ge> 0" "u_lastCheck l \<le> now" "u_lastCheck r - u_lastCheck l = max now (u_lastCheck l) - u_lastCheck l"
    using inv refill(1) now(3) by (auto simp: upstream_inv_def)
  with refill inv le now(2,3) show ?thesis
    unfolding now(4) by (auto simp: upstream_inv_def time_sub_def min_i64_def max_i64_def)
next
  case (later r wait)
  note refill = upstream_refill_spec [OF assms, folded later(1)]
  have "seconds_of (u_lastCheck r + wait - u_lastCheck l)
      = seconds_of (max now (u_lastCheck l) - u_lastCheck l) + seconds_of wait"
    unfolding later(5) by (simp add: seconds_of_def field_simps)
  then have "u_rps l * seconds_of (u_lastCheck r + wait - u_lastCheck l)
      = u_rps l * seconds_of (max now (u_lastCheck l) - u_lastCheck l) + u_rps l * seconds_of wait"
    by (simp only: distrib_left)
  with refill inv le later(2-5) show ?thesis
    unfolding later(6) by (auto simp: upstream_inv_def)
qed

interpretation up: token_bucket upstream_step upstream_ok
    "\<lambda>(l, t). upstream_inv l t \<and> u_rps l = rps \<and> u_burst l = burst \<and> rps \<le> 1000000000"
    "\<lambda>(l, t). u_tokens l" "\<lambda>(l, t). u_lastCheck l" rps "of_int burst" "1 - rps / 1000000000"
  for rps burst
proof
  fix s :: "upstreamRateLimiter \<times> gotime" and now :: gotime
  obtain l t where s: "s = (l, t)" by (cases s)
  assume "case s of (l, t) \<Rightarrow> upstream_inv l t \<and> u_rps l = rps \<and> u_burst l = burst \<and> rps \<le> 1000000000"
    and "upstream_ok s now"
  then have l: "upstream_inv l t" "u_rps l = rps" "u_burst l = burst" "rps \<le> 1000000000" "t \<le> now"
    by (auto simp: s upstream_ok.simps)
  note spec = reserveDelay_spec [OF l(1,5)]
  show "case snd (upstream_step s now) of (l, t) \<Rightarrow>
      upstream_inv l t \<and> u_rps l = rps \<and> u_burst l = burst \<and> rps \<le> 1000000000"
    using spec l by (simp add: upstream_step.simps s)
  show "(1 - rps / 1000000000) * of_bool (fst (upstream_step s now)) +
      (case snd (upstream_step s now) of (l, t) \<Rightarrow> u_tokens l)
      \<le> (case s of (l, t) \<Rightarrow> u_tokens l) +
        rps * seconds_of ((case snd (upstream_step s now) of (l, t) \<Rightarrow> u_lastCheck l) -
          (case s of (l, t) \<Rightarrow> u_lastCheck l))"
    using spec l unfolding upstream_step.simps s by simp
next
  fix s :: "upstreamRateLimiter \<times> gotime"
  assume "case s of (l, t) \<Rightarrow> upstream_inv l t \<and> u_rps l = rps \<and> u_burst l = burst \<and> rps \<le> 1000000000"
  then show "0 \<le> (case s of (l, t) \<Rightarrow> u_tokens l) \<and> (case s of (l, t) \<Rightarrow> u_tokens l) \<le> of_int burst"
    by (auto simp: upstream_inv_def)
qed

section \<open>Histories of the two limiters\<close>

fun allow_run :: "Limiter \<Rightarrow> allow_call list \<Rightarrow> (string \<times> bool) list \<times> Limiter" where
  "allow_run l [] = ([], l)"
| "allow_run l ((t0, t1, now, key) # cs) =
     (let (as, l') = allow_run (snd (Allow t0 t1 now key l)) cs
      in ((key, fst (Allow t0 t1 now key l)) # as, l'))"

text \<open>The calls of a history read a clock that does not run backwards.\<close>

fun ordered_calls :: "gotime \<Rightarrow> allow_call list \<Rightarrow> bool" where
  "ordered_calls t [] \<longleftrightarrow> True"
| "ordered_calls t ((t0, t1, now, key) # cs) \<longleftrightarrow> t \<le> t0 \<and> t0 \<le> t1 \<and> t1 \<le> now \<and> ordered_calls now cs"

definition calls_end :: "gotime \<Rightarrow> allow_call list \<Rightarrow> gotime" where
  "calls_end t cs = (if cs = [] then t else fst (snd (snd (last cs))))"

definition grants :: "string \<Rightarrow> (string \<times> bool) list \<Rightarrow> nat" where
  "grants k rs = length (filter (\<lambda>(key, a). key = k \<and> a) rs)"

fun reserve_run :: "upstreamRateLimiter \<Rightarrow> gotime list \<Rightarrow> (gotime \<times> duration) list" where
  "reserve_run l [] = []"
| "reserve_run l (now # nows) = (now, fst (reserveDelay now l)) # reserve_run (snd (reserveDelay now l)) nows"

lemma lim_run:
  "fst (lim.run k (l, t) cs) = grants k (fst (allow_run l cs)) \<and>
   snd (lim.run k (l, t) cs) = (snd (allow_run l cs), calls_end t cs)"
proof (induction l cs arbitrary: t rule: allow_run.induct)
  case (2 l t0 t1 now key cs)
  from 2 [of now] show ?case
    by (cases "key = k") (auto simp: split_beta grants_def calls_end_def)
qed (simp_all add: grants_def calls_end_def)

lemma lim_oks: "ordered_calls t cs \<Longrightarrow> lim.oks k (l, t) cs"
  by (induction t cs arbitrary: l rule: ordered_calls.induct) auto

lemma ordered_calls_append:
  "ordered_calls t (xs @ ys) \<longleftrightarrow> ordered_calls t xs \<and> ordered_calls (calls_end t xs) ys"
  by (induction t xs rule: ordered_calls.induct) (auto simp: calls_end_def)

lemma NewLimiter_inv [inv_intros]:
  "0 \<le> rps \<Longrightarrow> 0 \<le> burst \<Longrightarrow> of_int burst \<le> rps * 300 \<Longrightarrow> 0 \<le> t \<Longrightarrow> limiter_inv (NewLimiter rps burst) t"
  by (simp add: limiter_inv_def NewLimiter_def)

lemma time_sub_below: "time_sub t u < max_i64 \<Longrightarrow> u \<le> t \<Longrightarrow> u + time_sub t u = t"
  by (auto simp: time_sub_def min_i64_def max_i64_def)

lemma up_run_bound:
  assumes "upstream_inv l t" "sorted (t # nows)" "u_rps l \<le> 1000000000" "i < length nows"
    "snd (reserve_run l nows ! i) < max_i64"
  shows "(1 - u_rps l / 1000000000) * of_nat (Suc i)
    \<le> of_int (u_burst l) + u_rps l * seconds_of (fst (reserve_run l nows ! i) + snd (reserve_run l nows ! i) - u_lastCheck l)"
proof -
  have oks: "up.oks (l, t) nows" if "sorted (t # nows)" for l t nows
    using that by (induction nows arbitrary: l t) auto
  have len: "fst (up.run (l, t) nows) = length nows" for l t nows
    by (induction nows arbitrary: l t) (auto simp: upstream_step.simps split_beta)
  have slot: "(let l' = fst (snd (up.run (l, t) (take (Suc i) nows))) in
      fst (reserve_run l nows ! i) + snd (reserve_run l nows ! i) = u_lastCheck l')"
    if "i < length nows" "upstream_inv l t" "sorted (t # nows)" "snd (reserve_run l nows ! i) < max_i64" for i l t nows
    using that
  proof (induction nows arbitrary: i l t)
    case (Cons now nows)
    note spec = reserveDelay_spec [OF Cons.prems(2), of now]
    show ?case
    proof (cases i)
      case 0
      have "now \<le> u_lastCheck (snd (reserveDelay now l))"
        using spec Cons.prems(3) by (simp add: upstream_inv_def)
      with spec Cons.prems 0 show ?thesis
        using time_sub_below [of "u_lastCheck (snd (reserveDelay now l))" now] by simp
    next
      case (Suc j)
      with Cons.IH [of j "snd (reserveDelay now l)" now] spec Cons.prems show ?thesis
        by (simp add: upstream_step.simps split_beta)
    qed
  qed simp
  have "sorted (t # take (Suc i) nows)"
    using assms(2) by (auto dest: in_set_takeD)
  from up.run_bound [where s = "(l, t)" and rps = "u_rps l" and burst = "u_burst l", OF _ oks [OF this]] assms slot [OF assms(4,1,2,5)]
  show ?thesis
    by (simp add: len Let_def split_beta)
qed

lemma allow_run_inv:
  assumes "limiter_inv l t" "ordered_calls t cs"
  shows "limiter_inv (snd (allow_run l cs)) (calls_end t cs) \<and>
    l_rps (snd (allow_run l cs)) = l_rps l \<and> l_burst (snd (allow_run l cs)) = l_burst l \<and>
    l_maxBuckets (snd (allow_run l cs)) = l_maxBuckets l \<and>
    (int (length (l_buckets l)) \<le> l_maxBuckets l \<longrightarrow>
       int (length (l_buckets (snd (allow_run l cs)))) \<le> l_maxBuckets l)"
  using assms
proof (induction l cs arbitrary: t rule: allow_run.induct)
  case (2 l t0 t1 now key cs)
  from 2(3) have "t \<le> t0" "t0 \<le> t1" "t1 \<le> now" by simp_all
  from Allow_spec [OF 2(2) this] 2(1) [of now] 2(3) show ?case
    by (auto simp: split_beta calls_end_def)
qed (simp add: calls_end_def)

section \<open>Properties\<close>

text \<open>
  C4 The per-key limiter keeps its rate in every window: after any history from a new limiter, the
  calls of a further window that are allowed for one key number at most the burst plus the rate
  times the length of the window, counted from the last call before it. Other keys' calls, the
  periodic cleanup and the eviction at capacity are part of the history. The eviction is why five
  minutes at the rate must fill a bucket: an evicted key comes back with a full one.
\<close>

theorem Allow_rate_bound:
  assumes "0 \<le> rps" "0 \<le> burst" "of_int burst \<le> rps * 300" "0 \<le> t"
    and "ordered_calls t (before @ window)"
  shows "of_nat (grants k (fst (allow_run (snd (allow_run (NewLimiter rps burst) before)) window)))
    \<le> of_int burst + rps * seconds_of (calls_end t (before @ window) - calls_end t before)"
proof -
  let ?l = "snd (allow_run (NewLimiter rps burst) before)" and ?t = "calls_end t before"
  have ord: "ordered_calls t before" "ordered_calls ?t window"
    using assms(5) by (simp_all add: ordered_calls_append)
  have "limiter_inv ?l ?t \<and> l_rps ?l = rps \<and> l_burst ?l = burst"
    using allow_run_inv [OF NewLimiter_inv [OF assms(1-4)] ord(1)] by (simp add: NewLimiter_def)
  then have "1 * of_nat (fst (lim.run k (?l, ?t) window))
      \<le> of_int burst + rps * seconds_of (snd (snd (lim.run k (?l, ?t) window)) - snd (?l, ?t))"
    by (intro lim.run_bound lim_oks ord(2)) simp
  moreover have "calls_end ?t window = calls_end t (before @ window)"
    by (simp add: calls_end_def)
  ultimately show ?thesis by (simp add: lim_run)
qed

text \<open>The witness allows three calls where its window permits at most three and a half.\<close>

theorem Allow_rate_bound_witness:
  "of_nat (grants ''a'' (fst (allow_run (snd (allow_run (NewLimiter 1 2) []))
      [(1, 1, 1, ''a''), (1, 1, 2, ''a''), (2, 2, 2, ''b''), (3, 3, 4, ''a''), (5, 5, 1500000001, ''a'')])))
    \<le> (7 / 2 :: rat) \<and>
   grants ''a'' (fst (allow_run (NewLimiter 1 2)
      [(1, 1, 1, ''a''), (1, 1, 2, ''a''), (2, 2, 2, ''b''), (3, 3, 4, ''a''), (5, 5, 1500000001, ''a'')])) = 3"
proof
  show "of_nat (grants ''a'' (fst (allow_run (snd (allow_run (NewLimiter 1 2) []))
      [(1, 1, 1, ''a''), (1, 1, 2, ''a''), (2, 2, 2, ''b''), (3, 3, 4, ''a''), (5, 5, 1500000001, ''a'')])))
    \<le> (7 / 2 :: rat)"
    using Allow_rate_bound [of 1 2 1 "[]"
      "[(1, 1, 1, ''a''), (1, 1, 2, ''a''), (2, 2, 2, ''b''), (3, 3, 4, ''a''), (5, 5, 1500000001, ''a'')]" "''a''"]
    by (simp add: calls_end_def seconds_of_def)
qed code_simp

text \<open>
  The limiter's memory is bounded: whatever keys are tried, it never holds more buckets than its
  maximum, and never two for one key.
\<close>

theorem Allow_bucket_bound:
  assumes "0 \<le> rps" "0 \<le> burst" "of_int burst \<le> rps * 300" "0 \<le> t" "ordered_calls t cs"
  shows "length (l_buckets (snd (allow_run (NewLimiter rps burst) cs))) \<le> 65536 \<and>
    distinct (map fst (l_buckets (snd (allow_run (NewLimiter rps burst) cs))))"
  using allow_run_inv [OF NewLimiter_inv [OF assms(1-4)] assms(5)]
  by (auto simp: NewLimiter_def defaultMaxBuckets_def limiter_inv_def)

theorem Allow_bucket_bound_witness:
  "length (l_buckets (snd (allow_run (NewLimiter 1 2) [(1, 1, 1, ''a''), (1, 1, 2, ''b'')]))) \<le> 65536"
  using Allow_bucket_bound [of 1 2 1 "[(1, 1, 1, ''a''), (1, 1, 2, ''b'')]"] by simp

text \<open>
  The middleware limits a request by the bearer token or, when there is no \<open>Authorization\<close>
  header, by the client's address; but a header with another scheme, or with an empty token, is
  served without touching the limiter, however often it comes.
\<close>

lemma Middleware_bypass:
  "(trim_space (lr_Authorization r) \<noteq> [] \<and> extractAPIKey (trim_space (lr_Authorization r)) = [] \<longrightarrow>
      Middleware t0 t1 now r l = (True, l)) \<and>
   (trim_space (lr_Authorization r) \<noteq> [] \<and> extractAPIKey (trim_space (lr_Authorization r)) \<noteq> [] \<longrightarrow>
      Middleware t0 t1 now r l = Allow t0 t1 now (extractAPIKey (trim_space (lr_Authorization r))) l) \<and>
   (trim_space (lr_Authorization r) = [] \<and> extractIP r \<noteq> [] \<longrightarrow>
      Middleware t0 t1 now r l = Allow t0 t1 now (''ip:'' @ extractIP r) l)"
  by (simp add: Middleware_def Let_def)

lemma Middleware_bypass_example:
  "Middleware 1 1 1 \<lparr>lr_Authorization = ''Basic abc'', lr_XForwardedFor = [], lr_XRealIP = [],
     lr_RemoteAddr = ''10.0.0.1:80''\<rparr> (NewLimiter 0 0) = (True, NewLimiter 0 0)"
proof -
  let ?r = "\<lparr>lr_Authorization = ''Basic abc'', lr_XForwardedFor = [], lr_XRealIP = [],
     lr_RemoteAddr = ''10.0.0.1:80''\<rparr>"
  have "trim_space (lr_Authorization ?r) \<noteq> [] \<and> extractAPIKey (trim_space (lr_Authorization ?r)) = []"
    by code_simp
  with Middleware_bypass show ?thesis by blast
qed

text \<open>
  The per-upstream limiter spaces requests out: the slot of the request with index \<open>i\<close> (the time
  at which it arrives plus the delay it is given) comes so late that the burst and the time since
  the limiter's start pay for \<open>i + 1\<close> requests, up to the nanosecond that each delay is rounded down
  by. The last hypothesis excludes delays at the end of the duration type, which saturate.
\<close>

theorem reserveDelay_rate_bound:
  assumes "0 < rl_RequestsPerSecond limit" "rl_RequestsPerSecond limit \<le> 1000000000" "0 < t"
    and "sorted (t # nows)" "i < length nows"
    and "snd (reserve_run (newUpstreamRateLimiter limit t) nows ! i) < max_i64"
  shows "(1 - rl_RequestsPerSecond limit / 1000000000) * of_nat (i + 1)
    \<le> of_int (max 1 (rl_Burst limit)) + rl_RequestsPerSecond limit *
       seconds_of (fst (reserve_run (newUpstreamRateLimiter limit t) nows ! i) +
                   snd (reserve_run (newUpstreamRateLimiter limit t) nows ! i) - t)"
proof -
  let ?l = "newUpstreamRateLimiter limit t"
  have fields: "u_rps ?l = rl_RequestsPerSecond limit" "u_burst ?l = max 1 (rl_Burst limit)"
    "u_lastCheck ?l = t" "u_tokens ?l = of_int (max 1 (rl_Burst limit))"
    by (simp_all add: newUpstreamRateLimiter_def Let_def max_def)
  have "upstream_inv ?l t"
    using assms(1,3) unfolding upstream_inv_def fields by simp
  from up_run_bound [OF this assms(4) _ assms(5,6)] assms(2) show ?thesis
    unfolding fields by simp
qed

theorem reserveDelay_rate_bound_witness:
  "reserve_run (newUpstreamRateLimiter \<lparr>rl_Enabled = True, rl_RequestsPerSecond = 2, rl_Burst = 1\<rparr> 5) [5, 5, 5]
     = [(5, 0), (5, 500000000), (5, 1000000000)] \<and>
   (1 - 2 / 1000000000) * 3 \<le> (1 :: rat) + 2 * seconds_of 1000000000"
proof -
  let ?limit = "\<lparr>rl_Enabled = True, rl_RequestsPerSecond = 2, rl_Burst = 1\<rparr>"
  have run: "reserve_run (newUpstreamRateLimiter ?limit 5) [5, 5, 5] = [(5, 0), (5, 500000000), (5, 1000000000)]"
    by code_simp
  with reserveDelay_rate_bound [of ?limit 5 "[5, 5, 5]" 2] show ?thesis
    by (simp add: max_i64_def)
qed

end
