(* ===== verification/Request_Queue.thy ===== *)
theory Request_Queue
  imports Prelude
begin

text \<open>
  The priority queue of \<open>internal/gateway/queue/queue.go\<close> as a transition system: its buffered
  channels, its semaphore, its atomic counters, and the goroutines that work on them (callers of
  \<open>Enqueue\<close>, schedulers, workers), each at a control point of its code. One step is one channel
  operation, atomic access or blocking select of one goroutine, so every interleaving is a run.
\<close>

section \<open>Priorities\<close>

type_synonym Priority = goint

definition PriorityHigh :: Priority where "PriorityHigh = 0"
definition PriorityMedium :: Priority where "PriorityMedium = 1"
definition PriorityLow :: Priority where "PriorityLow = 2"

text \<open>The three channels, in the order in which \<open>pick\<close> scans them.\<close>

datatype lane = High | Medium | Low

fun lane_index :: "lane \<Rightarrow> nat" where
  "lane_index High = 0"
| "lane_index Medium = 1"
| "lane_index Low = 2"

lemma lane_index_inj: "lane_index a = lane_index b \<Longrightarrow> a = b"
  by (cases a; cases b) simp_all

instantiation lane :: linorder
begin

definition less_eq_lane :: "lane \<Rightarrow> lane \<Rightarrow> bool" where
  "less_eq_lane a b \<longleftrightarrow> lane_index a \<le> lane_index b"

definition less_lane :: "lane \<Rightarrow> lane \<Rightarrow> bool" where
  "less_lane a b \<longleftrightarrow> lane_index a < lane_index b"

instance
  by standard (auto simp: less_eq_lane_def less_lane_def dest: lane_index_inj)

end

text \<open>
  \<open>Enqueue\<close> puts an unknown priority into the medium channel and counts it there; the other two
  places that adjust a counter, the rollback and the scheduler, know the three constants only.
\<close>

definition lane_of :: "Priority \<Rightarrow> lane" where
  "lane_of p = (if p = PriorityHigh then High else if p = PriorityMedium then Medium
     else if p = PriorityLow then Low else Medium)"

definition uncounted_lane :: "Priority \<Rightarrow> lane option" where
  "uncounted_lane p = (if p = PriorityHigh then Some High else if p = PriorityMedium then Some Medium
     else if p = PriorityLow then Some Low else None)"

definition known_priority :: "Priority \<Rightarrow> bool" where
  "known_priority p \<longleftrightarrow> p = PriorityHigh \<or> p = PriorityMedium \<or> p = PriorityLow"

lemma uncounted_known: "known_priority p \<Longrightarrow> uncounted_lane p = Some (lane_of p)"
  by (auto simp: known_priority_def uncounted_lane_def lane_of_def)

section \<open>Goroutines and the state\<close>

record PendingRequest =
  pr_id :: nat
  pr_Priority :: Priority

text \<open>A caller of \<open>Enqueue\<close>, before its select on the channel or before its signal.\<close>

datatype enqueuer = Sending PendingRequest | Signalling

text \<open>
  A scheduler: at the head of the loop of \<open>schedule\<close>, in \<open>pick\<close> before one of its three channel
  reads or before its wait, or with a request before the counter, the semaphore or the start of the
  worker; or returned.
\<close>

datatype scheduler =
    Checking | Scanning lane | Waiting
  | Picked PendingRequest | Acquiring PendingRequest | Acquired PendingRequest | Stopped

text \<open>A worker: executing its request, or between the release of the semaphore and of the counter.\<close>

datatype worker = Running PendingRequest | Released PendingRequest

record Queue =
  q_maxConc :: nat
  q_ch :: "lane \<Rightarrow> PendingRequest list"
  q_waiting :: "lane \<Rightarrow> int"
  q_sem :: nat
  q_notify :: nat
  q_activeCount :: int
  q_closed :: bool
  q_done :: bool
  q_enqueuers :: "enqueuer multiset"
  q_schedulers :: "scheduler multiset"
  q_workers :: "worker multiset"

text \<open>\<open>None\<close> is the panic on bad arguments; the percentage is used for nothing else.\<close>

definition NewQueue :: "goint \<Rightarrow> goint \<Rightarrow> Queue option" where
  "NewQueue maxConcurrent highPriorityPct =
     (if maxConcurrent \<le> 0 then None
      else if highPriorityPct < 0 \<or> 100 < highPriorityPct then None
      else Some \<lparr>q_maxConc = nat maxConcurrent, q_ch = (\<lambda>l. []), q_waiting = (\<lambda>l. 0), q_sem = 0,
        q_notify = 0, q_activeCount = 0, q_closed = False, q_done = False, q_enqueuers = {#},
        q_schedulers = replicate_mset (nat maxConcurrent) Checking, q_workers = {#}\<rparr>)"

definition add_waiting :: "lane option \<Rightarrow> int \<Rightarrow> Queue \<Rightarrow> Queue" where
  "add_waiting lane n q =
     (case lane of None \<Rightarrow> q | Some l \<Rightarrow> q\<lparr>q_waiting := (q_waiting q)(l := q_waiting q l + n)\<rparr>)"

record QueueStats =
  qs_HighWaiting :: goint
  qs_MedWaiting :: goint
  qs_LowWaiting :: goint
  qs_ActiveCount :: goint
  qs_MaxConcurrent :: goint

definition Stats :: "Queue \<Rightarrow> QueueStats" where
  "Stats q = \<lparr>qs_HighWaiting = q_waiting q High, qs_MedWaiting = q_waiting q Medium,
     qs_LowWaiting = q_waiting q Low, qs_ActiveCount = q_activeCount q,
     qs_MaxConcurrent = int (q_maxConc q)\<rparr>"

section \<open>Steps\<close>

text \<open>The next control point of a scheduler whose channel read finds nothing.\<close>

fun next_scan :: "lane \<Rightarrow> scheduler" where
  "next_scan High = Scanning Medium"
| "next_scan Medium = Scanning Low"
| "next_scan Low = Waiting"

text \<open>
  The steps of \<open>Enqueue\<close>: the counter is incremented after the check of \<open>closed\<close>; the select then
  sends into the channel's buffer, or gives up for a cancelled context, the caller's or the
  queue's, and rolls the counter back; after a send, the scheduler is notified unless the
  notification channel is full.
\<close>

inductive enqueue_step :: "Queue \<Rightarrow> Queue \<Rightarrow> bool" where
  enter: "\<not> q_closed q \<Longrightarrow>
    enqueue_step q (add_waiting (Some (lane_of (pr_Priority r))) 1
      (q\<lparr>q_enqueuers := add_mset (Sending r) (q_enqueuers q)\<rparr>))"
| send: "q_enqueuers q = add_mset (Sending r) E \<Longrightarrow>
    length (q_ch q (lane_of (pr_Priority r))) < q_maxConc q * 4 \<Longrightarrow>
    enqueue_step q (q\<lparr>q_enqueuers := add_mset Signalling E,
      q_ch := (q_ch q)(lane_of (pr_Priority r) := q_ch q (lane_of (pr_Priority r)) @ [r])\<rparr>)"
| cancel: "q_enqueuers q = add_mset (Sending r) E \<Longrightarrow>
    enqueue_step q (add_waiting (uncounted_lane (pr_Priority r)) (- 1) (q\<lparr>q_enqueuers := E\<rparr>))"
| signal: "q_enqueuers q = add_mset Signalling E \<Longrightarrow>
    enqueue_step q (q\<lparr>q_enqueuers := E, q_notify := min (q_maxConc q * 4) (q_notify q + 1)\<rparr>)"

text \<open>The steps of \<open>schedule\<close> and \<open>pick\<close>.\<close>

inductive schedule_step :: "Queue \<Rightarrow> Queue \<Rightarrow> bool" where
  go_on: "q_schedulers q = add_mset Checking S \<Longrightarrow> \<not> q_done q \<Longrightarrow>
    schedule_step q (q\<lparr>q_schedulers := add_mset (Scanning High) S\<rparr>)"
| stop: "q_schedulers q = add_mset Checking S \<Longrightarrow> q_done q \<Longrightarrow>
    schedule_step q (q\<lparr>q_schedulers := add_mset Stopped S\<rparr>)"
| take: "q_schedulers q = add_mset (Scanning l) S \<Longrightarrow> q_ch q l = r # rs \<Longrightarrow>
    schedule_step q (q\<lparr>q_schedulers := add_mset (Picked r) S, q_ch := (q_ch q)(l := rs)\<rparr>)"
| empty: "q_schedulers q = add_mset (Scanning l) S \<Longrightarrow> q_ch q l = [] \<Longrightarrow>
    schedule_step q (q\<lparr>q_schedulers := add_mset (next_scan l) S\<rparr>)"
| wake: "q_schedulers q = add_mset Waiting S \<Longrightarrow> q_notify q = Suc n \<Longrightarrow>
    schedule_step q (q\<lparr>q_schedulers := add_mset (Scanning High) S, q_notify := n\<rparr>)"
| give_up: "q_schedulers q = add_mset Waiting S \<Longrightarrow> q_done q \<Longrightarrow>
    schedule_step q (q\<lparr>q_schedulers := add_mset Checking S\<rparr>)"
| uncount: "q_schedulers q = add_mset (Picked r) S \<Longrightarrow>
    schedule_step q (add_waiting (uncounted_lane (pr_Priority r)) (- 1)
      (q\<lparr>q_schedulers := add_mset (Acquiring r) S\<rparr>))"
| acquire: "q_schedulers q = add_mset (Acquiring r) S \<Longrightarrow> q_sem q < q_maxConc q \<Longrightarrow>
    schedule_step q (q\<lparr>q_schedulers := add_mset (Acquired r) S, q_sem := q_sem q + 1\<rparr>)"
| abandon: "q_schedulers q = add_mset (Acquiring r) S \<Longrightarrow> q_done q \<Longrightarrow>
    schedule_step q (q\<lparr>q_schedulers := add_mset Stopped S\<rparr>)"
| spawn: "q_schedulers q = add_mset (Acquired r) S \<Longrightarrow>
    schedule_step q (q\<lparr>q_schedulers := add_mset Checking S,
      q_activeCount := q_activeCount q + 1, q_workers := add_mset (Running r) (q_workers q)\<rparr>)"

text \<open>A worker's \<open>Execute\<close> returns or panics, which is all the same to the queue.\<close>

inductive worker_step :: "Queue \<Rightarrow> Queue \<Rightarrow> bool" where
  release: "q_workers q = add_mset (Running r) W \<Longrightarrow> q_sem q = Suc n \<Longrightarrow>
    worker_step q (q\<lparr>q_workers := add_mset (Released r) W, q_sem := n\<rparr>)"
| uncount: "q_workers q = add_mset (Released r) W \<Longrightarrow>
    worker_step q (q\<lparr>q_workers := W, q_activeCount := q_activeCount q - 1\<rparr>)"

text \<open>\<open>Close\<close> sets the flag, then cancels the queue's context.\<close>

inductive close_step :: "Queue \<Rightarrow> Queue \<Rightarrow> bool" where
  flag: "close_step q (q\<lparr>q_closed := True\<rparr>)"
| cancel: "q_closed q \<Longrightarrow> close_step q (q\<lparr>q_done := True\<rparr>)"

inductive queue_step :: "Queue \<Rightarrow> Queue \<Rightarrow> bool" where
  enqueue: "enqueue_step q q' \<Longrightarrow> queue_step q q'"
| schedule: "schedule_step q q' \<Longrightarrow> queue_step q q'"
| work: "worker_step q q' \<Longrightarrow> queue_step q q'"
| close: "close_step q q' \<Longrightarrow> queue_step q q'"

text \<open>The states of a run all of whose requests have a priority that satisfies \<open>P\<close>.\<close>

inductive queue_run :: "(Priority \<Rightarrow> bool) \<Rightarrow> Queue \<Rightarrow> bool" for P where
  new: "NewQueue maxConcurrent pct = Some q \<Longrightarrow> queue_run P q"
| step: "queue_run P q \<Longrightarrow> queue_step q q' \<Longrightarrow>
    \<forall>r. Sending r \<in># q_enqueuers q' \<longrightarrow> P (pr_Priority r) \<Longrightarrow> queue_run P q'"

abbreviation queue_reachable :: "Queue \<Rightarrow> bool" where
  "queue_reachable \<equiv> queue_run (\<lambda>p. True)"

inductive_cases worker_stepE: "worker_step q q'"
inductive_cases close_stepE: "close_step q q'"



section \<open>The invariant\<close>

text \<open>How many elements of a multiset of goroutines are at a given kind of control point.\<close>

abbreviation mcount :: "('a \<Rightarrow> bool) \<Rightarrow> 'a multiset \<Rightarrow> nat" where
  "mcount P M \<equiv> size (filter_mset P M)"

fun holds_slot :: "scheduler \<Rightarrow> bool" where
  "holds_slot (Acquired r) = True"
| "holds_slot s = False"

fun is_running :: "worker \<Rightarrow> bool" where
  "is_running (Running r) = True"
| "is_running (Released r) = False"

fun sends_to :: "lane \<Rightarrow> enqueuer \<Rightarrow> bool" where
  "sends_to l (Sending r) = (lane_of (pr_Priority r) = l)"
| "sends_to l Signalling = False"

fun picked_from :: "lane \<Rightarrow> scheduler \<Rightarrow> bool" where
  "picked_from l (Picked r) = (lane_of (pr_Priority r) = l)"
| "picked_from l s = False"

text \<open>A scheduler that will look into a channel before it waits.\<close>

fun will_see :: "lane \<Rightarrow> scheduler \<Rightarrow> bool" where
  "will_see l (Scanning l') = (l' \<le> l)"
| "will_see l Waiting = False"
| "will_see l Stopped = False"
| "will_see l s = True"

definition slots_inv :: "Queue \<Rightarrow> bool" where
  "slots_inv q \<longleftrightarrow>
     0 < q_maxConc q \<and> q_sem q \<le> q_maxConc q \<and>
     q_sem q = mcount holds_slot (q_schedulers q) + mcount is_running (q_workers q) \<and>
     q_activeCount q = int (size (q_workers q)) \<and>
     size (q_schedulers q) = q_maxConc q"

definition lanes_inv :: "Queue \<Rightarrow> bool" where
  "lanes_inv q \<longleftrightarrow>
     q_notify q \<le> q_maxConc q * 4 \<and>
     (\<forall>l. length (q_ch q l) \<le> q_maxConc q * 4 \<and> (\<forall>r \<in> set (q_ch q l). lane_of (pr_Priority r) = l))"

text \<open>No wake-up is lost.\<close>

definition wake_inv :: "Queue \<Rightarrow> bool" where
  "wake_inv q \<longleftrightarrow>
     (\<not> q_done q \<longrightarrow> (\<forall>l. q_ch q l \<noteq> [] \<longrightarrow>
        0 < q_notify q \<or> Signalling \<in># q_enqueuers q \<or> (\<exists>s \<in># q_schedulers q. will_see l s))) \<and>
     (Stopped \<in># q_schedulers q \<longrightarrow> q_done q) \<and> (q_done q \<longrightarrow> q_closed q)"

lemma add_waiting_fields [simp]:
  "q_maxConc (add_waiting l n q) = q_maxConc q" "q_ch (add_waiting l n q) = q_ch q"
  "q_sem (add_waiting l n q) = q_sem q" "q_notify (add_waiting l n q) = q_notify q"
  "q_activeCount (add_waiting l n q) = q_activeCount q" "q_closed (add_waiting l n q) = q_closed q"
  "q_done (add_waiting l n q) = q_done q" "q_enqueuers (add_waiting l n q) = q_enqueuers q"
  "q_schedulers (add_waiting l n q) = q_schedulers q" "q_workers (add_waiting l n q) = q_workers q"
  by (simp_all add: add_waiting_def split: option.split)

lemma next_scan_simps [simp]:
  "\<not> holds_slot (next_scan l)" "\<not> picked_from l' (next_scan l)" "next_scan l \<noteq> Stopped"
  by (cases l; simp)+

lemma will_see_next_scan: "l' \<noteq> l \<Longrightarrow> l \<le> l' \<Longrightarrow> will_see l' (next_scan l)"
  by (cases l; cases l') (simp_all add: less_eq_lane_def)

lemma High_least [simp]: "High \<le> l"
  by (simp add: less_eq_lane_def)

lemma slots_inv_step [inv_intros]:
  assumes "queue_step q q'" "slots_inv q"
  shows "slots_inv q'"
  using assms
proof (cases rule: queue_step.cases)
  case enqueue
  then show ?thesis using assms(2) by (cases rule: enqueue_step.cases) (auto simp: slots_inv_def)
next
  case schedule
  then show ?thesis using assms(2) by (cases rule: schedule_step.cases) (auto simp: slots_inv_def)
next
  case work
  then show ?thesis using assms(2) by (auto elim!: worker_stepE simp: slots_inv_def)
next
  case close
  then show ?thesis using assms(2) by (auto elim!: close_stepE simp: slots_inv_def)
qed

lemma lanes_inv_step [inv_intros]:
  assumes "queue_step q q'" "lanes_inv q"
  shows "lanes_inv q'"
  using assms
proof (cases rule: queue_step.cases)
  case enqueue
  then show ?thesis using assms(2) by (cases rule: enqueue_step.cases) (auto simp: lanes_inv_def)
next
  case schedule
  then show ?thesis
  proof (cases rule: schedule_step.cases)
    case (take l S r rs)
    have "length (r # rs) \<le> q_maxConc q * 4 \<and> (\<forall>x \<in> set (r # rs). lane_of (pr_Priority x) = l)"
      using assms(2) take(3) by (metis lanes_inv_def)
    with assms(2) take show ?thesis by (simp add: lanes_inv_def)
  qed (use assms(2) in \<open>auto simp: lanes_inv_def\<close>)
next
  case work
  then show ?thesis using assms(2) by (auto elim!: worker_stepE simp: lanes_inv_def)
next
  case close
  then show ?thesis using assms(2) by (auto elim!: close_stepE simp: lanes_inv_def)
qed

lemma wake_inv_step [inv_intros]:
  assumes "queue_step q q'" "wake_inv q" "slots_inv q"
  shows "wake_inv q'"
  using assms(1)
proof (cases rule: queue_step.cases)
  case enqueue
  then show ?thesis using assms(2,3)
    by (cases rule: enqueue_step.cases) (auto simp: wake_inv_def slots_inv_def)
next
  case schedule
  then show ?thesis
  proof (cases rule: schedule_step.cases)
    case (go_on S)
    then show ?thesis using assms(2) by (simp add: wake_inv_def)
  next
    case (stop S)
    then show ?thesis using assms(2) by (simp add: wake_inv_def)
  next
    case (take l S r rs)
    then show ?thesis using assms(2) by (simp add: wake_inv_def)
  next
    case (empty l S)
    have "will_see l' (next_scan l)" if "l \<le> l'" "q_ch q l' \<noteq> []" for l'
      using that empty(3) by (intro will_see_next_scan) auto
    moreover have "Stopped \<in># q_schedulers q' \<longleftrightarrow> Stopped \<in># q_schedulers q"
      using empty by (cases l) simp_all
    ultimately show ?thesis using assms(2) empty by (auto simp: wake_inv_def)
  next
    case (wake S n)
    then show ?thesis using assms(2) by (simp add: wake_inv_def)
  next
    case (give_up S)
    then show ?thesis using assms(2) by (simp add: wake_inv_def)
  next
    case (uncount r S)
    then show ?thesis using assms(2) by (simp add: wake_inv_def)
  next
    case (acquire r S)
    then show ?thesis using assms(2) by (simp add: wake_inv_def)
  next
    case (abandon r S)
    then show ?thesis using assms(2) by (simp add: wake_inv_def)
  next
    case (spawn r S)
    then show ?thesis using assms(2) by (simp add: wake_inv_def)
  qed
next
  case work
  then show ?thesis using assms(2) by (auto elim!: worker_stepE simp: wake_inv_def)
next
  case close
  then show ?thesis using assms(2) by (auto elim!: close_stepE simp: wake_inv_def)
qed

lemma NewQueue_inv [inv_intros]:
  "NewQueue n pct = Some q \<Longrightarrow> slots_inv q \<and> lanes_inv q \<and> wake_inv q"
  by (auto simp: NewQueue_def slots_inv_def lanes_inv_def wake_inv_def filter_mset_eq_conv split: if_splits)

lemma queue_run_inv: "queue_run P q \<Longrightarrow> slots_inv q \<and> lanes_inv q \<and> wake_inv q"
proof (induction rule: queue_run.induct)
  case (new n pct q)
  then show ?case by (rule NewQueue_inv)
qed (blast intro: slots_inv_step lanes_inv_step wake_inv_step)

section \<open>The waiting counters\<close>

text \<open>
  A counter is its channel's length plus the requests that are counted but not yet in the channel,
  or no longer in it and not yet uncounted.
\<close>

definition waiting_load :: "Queue \<Rightarrow> lane \<Rightarrow> int" where
  "waiting_load q l =
     int (length (q_ch q l)) + int (mcount (sends_to l) (q_enqueuers q)) +
     int (mcount (picked_from l) (q_schedulers q))"

definition counters_inv :: "Queue \<Rightarrow> bool" where
  "counters_inv q \<longleftrightarrow>
     q_waiting q High = waiting_load q High \<and> q_waiting q Low = waiting_load q Low \<and>
     waiting_load q Medium \<le> q_waiting q Medium"

definition requests_known :: "Queue \<Rightarrow> bool" where
  "requests_known q \<longleftrightarrow>
     (\<forall>r. Sending r \<in># q_enqueuers q \<or> Picked r \<in># q_schedulers q \<or> (\<exists>l. r \<in> set (q_ch q l)) \<longrightarrow>
        known_priority (pr_Priority r))"

lemma waiting_add [simp]:
  "q_waiting (add_waiting l n q) = (case l of None \<Rightarrow> q_waiting q | Some l \<Rightarrow> (q_waiting q)(l := q_waiting q l + n))"
  by (simp add: add_waiting_def split: option.split)

lemma waiting_load_add [simp]: "waiting_load (add_waiting l n q) = waiting_load q"
  by (simp add: waiting_load_def fun_eq_iff)

lemma lane_of_cases: "lane_of p = (case uncounted_lane p of Some l \<Rightarrow> l | None \<Rightarrow> Medium)"
  by (simp add: lane_of_def uncounted_lane_def)

text \<open>What one step does to the distance between a counter and its load.\<close>

lemma uncount_effect:
  assumes "q_waiting q' = q_waiting (add_waiting (uncounted_lane p) (- 1) q0)" "q_waiting q0 = q_waiting q"
    "waiting_load q' l = waiting_load q l - (if lane_of p = l then 1 else 0)"
    "\<not> known_priority p \<Longrightarrow> \<not> requests_known q"
  shows "q_waiting q' l - waiting_load q' l = q_waiting q l - waiting_load q l \<or>
    (l = Medium \<and> q_waiting q' l - waiting_load q' l = q_waiting q l - waiting_load q l + 1 \<and> \<not> requests_known q)"
proof (cases "uncounted_lane p")
  case None
  then have "lane_of p = Medium" "\<not> known_priority p"
    using uncounted_known [of p] by (auto simp: lane_of_cases)
  with None assms show ?thesis by (cases "l = Medium") auto
next
  case (Some k)
  then have "lane_of p = k" by (simp add: lane_of_cases)
  with Some assms show ?thesis by auto
qed

lemma counters_step:
  assumes "queue_step q q'" "lanes_inv q"
  shows "q_waiting q' l - waiting_load q' l = q_waiting q l - waiting_load q l \<or>
    (l = Medium \<and> q_waiting q' l - waiting_load q' l = q_waiting q l - waiting_load q l + 1 \<and> \<not> requests_known q)"
  using assms(1)
proof (cases rule: queue_step.cases)
  case enqueue
  then show ?thesis
  proof (cases rule: enqueue_step.cases)
    case (cancel r E)
    have "\<not> requests_known q" if "\<not> known_priority (pr_Priority r)"
      using that cancel(2) by (auto simp: requests_known_def)
    moreover have "waiting_load q' l = waiting_load q l - (if lane_of (pr_Priority r) = l then 1 else 0)"
      using cancel by (simp add: waiting_load_def)
    ultimately show ?thesis
      using cancel(1) by (intro uncount_effect [of q' "pr_Priority r" "q\<lparr>q_enqueuers := E\<rparr>"]) simp_all
  qed (auto simp: waiting_load_def)
next
  case schedule
  then show ?thesis
  proof (cases rule: schedule_step.cases)
    case (take k S r rs)
    then have "lane_of (pr_Priority r) = k" using assms(2) by (auto simp: lanes_inv_def)
    with take show ?thesis by (auto simp: waiting_load_def)
  next
    case (uncount r S)
    have "\<not> requests_known q" if "\<not> known_priority (pr_Priority r)"
      using that uncount(2) by (auto simp: requests_known_def)
    moreover have "waiting_load q' l = waiting_load q l - (if lane_of (pr_Priority r) = l then 1 else 0)"
      using uncount by (simp add: waiting_load_def)
    ultimately show ?thesis
      using uncount(1)
      by (intro uncount_effect [of q' "pr_Priority r" "q\<lparr>q_schedulers := add_mset (Acquiring r) S\<rparr>"]) simp_all
  qed (auto simp: waiting_load_def)
next
  case work
  then show ?thesis by (auto elim!: worker_stepE simp: waiting_load_def)
next
  case close
  then show ?thesis by (auto elim!: close_stepE simp: waiting_load_def)
qed

lemma NewQueue_counters: "NewQueue n pct = Some q \<Longrightarrow> q_waiting q l = waiting_load q l"
  by (auto simp: NewQueue_def waiting_load_def filter_mset_eq_conv split: if_splits)

lemma queue_run_counters: "queue_run P q \<Longrightarrow> counters_inv q"
proof (induction rule: queue_run.induct)
  case (new n pct q)
  then show ?case by (simp add: counters_inv_def NewQueue_counters)
next
  case (step q q')
  then have lanes: "lanes_inv q" using queue_run_inv by blast
  show ?case
    using step.IH counters_step [OF step.hyps(2) lanes, of High] counters_step [OF step.hyps(2) lanes, of Medium]
      counters_step [OF step.hyps(2) lanes, of Low]
    by (auto simp: counters_inv_def)
qed

lemma requests_known_step:
  assumes "queue_step q q'" "requests_known q"
    "\<forall>r. Sending r \<in># q_enqueuers q' \<longrightarrow> known_priority (pr_Priority r)"
  shows "requests_known q'"
  using assms(1)
proof (cases rule: queue_step.cases)
  case enqueue
  then show ?thesis
  proof (cases rule: enqueue_step.cases)
    case (enter r)
    with assms(2,3) show ?thesis by (auto simp: requests_known_def)
  next
    case (send r E)
    then have "known_priority (pr_Priority r)" using assms(2) by (auto simp: requests_known_def)
    moreover have "x = r \<or> x \<in> set (q_ch q l)" if "x \<in> set (q_ch q' l)" for x l
      using that send(1) by (simp split: if_splits)
    ultimately show ?thesis using assms(2,3) send(1,2) unfolding requests_known_def
      by (metis (no_types, lifting) Queue.select_convs(10) Queue.surjective Queue.update_convs(2,9))
  next
    case (cancel r E)
    with assms(2,3) show ?thesis by (auto simp: requests_known_def)
  next
    case (signal E)
    with assms(2,3) show ?thesis by (auto simp: requests_known_def)
  qed
next
  case schedule
  then show ?thesis
  proof (cases rule: schedule_step.cases)
    case (take l S r rs)
    then have "\<exists>l. x \<in> set (q_ch q l)" if "x \<in> set (r # rs)" for x
      using that by (metis (no_types))
    with take assms(2,3) show ?thesis by (fastforce simp: requests_known_def split: if_splits)
  next
    case (empty l S)
    with assms(2,3) show ?thesis by (cases l) (auto simp: requests_known_def)
  qed (use assms(2,3) in \<open>auto simp: requests_known_def\<close>)
next
  case work
  then show ?thesis using assms(2,3) by (cases rule: worker_step.cases) (auto simp: requests_known_def)
next
  case close
  then show ?thesis using assms(2,3) by (cases rule: close_step.cases) (auto simp: requests_known_def)
qed

lemma known_run: "queue_run known_priority q \<Longrightarrow> requests_known q \<and> (\<forall>l. q_waiting q l = waiting_load q l)"
proof (induction rule: queue_run.induct)
  case (new n pct q)
  then show ?case by (auto simp: NewQueue_counters requests_known_def NewQueue_def split: if_splits)
next
  case (step q q')
  have "lanes_inv q" using queue_run_inv [OF step.hyps(1)] by blast
  then have "q_waiting q' l = waiting_load q' l" for l
    using counters_step [OF step.hyps(2), of l] step.IH by auto
  then show ?case using requests_known_step [OF step.hyps(2) _ step.hyps(3)] step.IH by blast
qed

section \<open>Priority order\<close>

text \<open>
  While nothing is sent, the channels only shrink, so what a scheduler's scan has found empty stays
  empty.
\<close>

inductive drain_step :: "Queue \<Rightarrow> Queue \<Rightarrow> bool" where
  schedule: "schedule_step q q' \<Longrightarrow> drain_step q q'"
| work: "worker_step q q' \<Longrightarrow> drain_step q q'"

inductive_simps drain_step_iff: "drain_step q q'"

definition scans_ok :: "Queue \<Rightarrow> bool" where
  "scans_ok q \<longleftrightarrow> (\<forall>l. Scanning l \<in># q_schedulers q \<longrightarrow> (\<forall>l' < l. q_ch q l' = []))"

lemma next_scan_lower: "next_scan l = Scanning k \<Longrightarrow> l' < k \<Longrightarrow> l' = l \<or> l' < l"
  by (cases l; cases k; cases l') (simp_all add: less_lane_def)

lemma scans_ok_step [inv_intros]:
  assumes "drain_step q q'" "scans_ok q"
  shows "scans_ok q'"
  using assms(1) unfolding drain_step_iff
proof (elim disjE)
  assume "schedule_step q q'"
  then show ?thesis
  proof (cases rule: schedule_step.cases)
    case (go_on S)
    with assms(2) show ?thesis by (auto simp: scans_ok_def less_lane_def)
  next
    case (empty l S)
    show ?thesis
      unfolding scans_ok_def
    proof (intro allI impI)
      fix k l' assume k: "Scanning k \<in># q_schedulers q'" "l' < k"
      then consider "Scanning k \<in># S" | "next_scan l = Scanning k" using empty(1) by auto
      then have "q_ch q l' = []"
      proof cases
        case 1
        then show ?thesis using assms(2) empty(2) k(2) by (simp add: scans_ok_def)
      next
        case 2
        from next_scan_lower [OF this k(2)] show ?thesis
          using assms(2) empty(2,3) by (auto simp: scans_ok_def)
      qed
      then show "q_ch q' l' = []" using empty(1) by simp
    qed
  next
    case (wake S n)
    with assms(2) show ?thesis by (auto simp: scans_ok_def less_lane_def)
  qed (use assms(2) in \<open>auto simp: scans_ok_def\<close>)
next
  assume "worker_step q q'"
  then show ?thesis using assms(2) by (auto elim!: worker_stepE simp: scans_ok_def)
qed

lemma drain_scans_ok: "drain_step\<^sup>*\<^sup>* q q' \<Longrightarrow> scans_ok q \<Longrightarrow> scans_ok q'"
  by (induction rule: rtranclp_induct) (auto intro: scans_ok_step)

section \<open>A closed queue\<close>

lemma stopped_step:
  assumes "queue_step q q'" "\<forall>s \<in># q_schedulers q. s = Stopped"
  shows "q_schedulers q' = q_schedulers q \<and> prefix (q_ch q l) (q_ch q' l) \<and>
    mcount is_running (q_workers q') \<le> mcount is_running (q_workers q)"
  using assms(1)
proof (cases rule: queue_step.cases)
  case enqueue
  then show ?thesis by (cases rule: enqueue_step.cases) auto
next
  case schedule
  then show ?thesis using assms(2) by (cases rule: schedule_step.cases) auto
next
  case work
  then show ?thesis by (cases rule: worker_step.cases) auto
next
  case close
  then show ?thesis by (cases rule: close_step.cases) auto
qed

section \<open>The work that is left\<close>

text \<open>
  The steps of the goroutines that there are, with no new call of \<open>Enqueue\<close> and no call of \<open>Close\<close>, and a
  bound on how many of them are left.
\<close>

inductive settle_step :: "Queue \<Rightarrow> Queue \<Rightarrow> bool" where
  schedule: "schedule_step q q' \<Longrightarrow> settle_step q q'"
| work: "worker_step q q' \<Longrightarrow> settle_step q q'"
| pending: "enqueue_step q q' \<Longrightarrow> size (q_enqueuers q') \<le> size (q_enqueuers q) \<Longrightarrow> settle_step q q'"

inductive_cases settle_stepE: "settle_step q q'"

fun scheduler_work :: "bool \<Rightarrow> scheduler \<Rightarrow> nat" where
  "scheduler_work d Stopped = 0"
| "scheduler_work d Checking = (if d then 1 else 6)"
| "scheduler_work d Waiting = 2"
| "scheduler_work d (Scanning l) = (case l of Low \<Rightarrow> 3 | Medium \<Rightarrow> 4 | High \<Rightarrow> 5)"
| "scheduler_work d (Acquired r) = 9"
| "scheduler_work d (Acquiring r) = 10"
| "scheduler_work d (Picked r) = 11"

fun enqueuer_work :: "enqueuer \<Rightarrow> nat" where
  "enqueuer_work (Sending r) = 15"
| "enqueuer_work Signalling = 5"

fun worker_work :: "worker \<Rightarrow> nat" where
  "worker_work (Running r) = 2"
| "worker_work (Released r) = 1"

definition queued :: "Queue \<Rightarrow> nat" where
  "queued q = length (q_ch q High) + length (q_ch q Medium) + length (q_ch q Low)"

definition queue_work :: "Queue \<Rightarrow> nat" where
  "queue_work q = (\<Sum>s \<in># q_schedulers q. scheduler_work (q_done q) s) + (\<Sum>e \<in># q_enqueuers q. enqueuer_work e) +
     (\<Sum>w \<in># q_workers q. worker_work w) + 9 * queued q + 4 * q_notify q"

lemma queued_update:
  "length (q_ch q l) + queued (q\<lparr>q_ch := (q_ch q)(l := rs)\<rparr>) = length rs + queued q"
  by (cases l) (simp_all add: queued_def)

lemma queued_congs [simp]:
  "queued (add_waiting l n q) = queued q" "queued (q_schedulers_update f q) = queued q" "queued (q_enqueuers_update g q) = queued q"
  "queued (q_workers_update h q) = queued q" "queued (q_notify_update k q) = queued q" "queued (q_sem_update m q) = queued q"
  "queued (q_activeCount_update a q) = queued q"
  by (simp_all add: queued_def)

lemma schedule_work:
  assumes "schedule_step q q'"
  shows "queue_work q' < queue_work q"
  using assms
proof (cases rule: schedule_step.cases)
  case (take l S r rs)
  then show ?thesis using queued_update [of q l rs]
    by (cases l) (simp_all add: queue_work_def queued_def)
next
  case (empty l S)
  then show ?thesis by (cases l) (simp_all add: queue_work_def)
qed (simp_all add: queue_work_def)

lemma worker_work_left: "worker_step q q' \<Longrightarrow> queue_work q' < queue_work q"
  by (elim worker_stepE) (simp_all add: queue_work_def)

lemma pending_work:
  assumes "enqueue_step q q'" "size (q_enqueuers q') \<le> size (q_enqueuers q)"
  shows "queue_work q' < queue_work q"
  using assms
proof (cases rule: enqueue_step.cases)
  case (send r E)
  then show ?thesis using queued_update [of q "lane_of (pr_Priority r)" "q_ch q (lane_of (pr_Priority r)) @ [r]"]
    by (cases "lane_of (pr_Priority r)") (simp_all add: queue_work_def queued_def)
qed (simp_all add: queue_work_def min_def)

lemma settle_work: "settle_step q q' \<Longrightarrow> queue_work q' < queue_work q"
  by (elim settle_stepE) (simp_all add: schedule_work worker_work_left pending_work)

lemma settle_steps: "(settle_step ^^ n) q q' \<Longrightarrow> n + queue_work q' \<le> queue_work q"
proof (induction n arbitrary: q')
  case (Suc n)
  then obtain q1 where "(settle_step ^^ n) q q1" "settle_step q1 q'" by auto
  with Suc.IH settle_work [of q1 q'] show ?case by fastforce
qed simp

section \<open>Example runs\<close>

definition one_slot :: Queue where
  "one_slot = the (NewQueue 1 50)"

lemma one_slot_reachable: "queue_run P one_slot"
  by (rule queue_run.new [of 1 50]) (simp add: one_slot_def NewQueue_def)

lemma one_slot_fields [simp]:
  "q_maxConc one_slot = 1" "q_ch one_slot = (\<lambda>l. [])" "q_waiting one_slot = (\<lambda>l. 0)" "q_sem one_slot = 0"
  "q_notify one_slot = 0" "q_activeCount one_slot = 0" "\<not> q_closed one_slot" "\<not> q_done one_slot"
  "q_enqueuers one_slot = {#}" "q_schedulers one_slot = {#Checking#}" "q_workers one_slot = {#}"
  by (simp_all add: one_slot_def NewQueue_def)

text \<open>A queue of one slot with one request in its channel, before and after its closing.\<close>

definition one_request :: Queue where
  "one_request = one_slot\<lparr>q_waiting := (\<lambda>l. 0)(High := 1), q_enqueuers := {#Signalling#},
     q_ch := (\<lambda>l. [])(High := [\<lparr>pr_id = 7, pr_Priority = PriorityHigh\<rparr>])\<rparr>"

lemma one_request_reachable:
  assumes "P PriorityHigh"
  shows "queue_run P one_request"
proof -
  let ?r = "\<lparr>pr_id = 7, pr_Priority = PriorityHigh\<rparr>"
  let ?q = "one_slot\<lparr>q_waiting := (\<lambda>l. 0)(High := 1), q_enqueuers := {#Sending ?r#}\<rparr>"
  have "enqueue_step one_slot (add_waiting (Some (lane_of (pr_Priority ?r))) 1
      (one_slot\<lparr>q_enqueuers := add_mset (Sending ?r) (q_enqueuers one_slot)\<rparr>))"
    by (rule enqueue_step.enter) simp
  moreover have "add_waiting (Some (lane_of (pr_Priority ?r))) 1
      (one_slot\<lparr>q_enqueuers := add_mset (Sending ?r) (q_enqueuers one_slot)\<rparr>) = ?q"
    by (simp add: add_waiting_def lane_of_def)
  ultimately have "queue_step one_slot ?q" by (simp add: queue_step.enqueue)
  then have "queue_run P ?q"
    by (rule queue_run.step [OF one_slot_reachable]) (use assms in simp)
  moreover have "enqueue_step ?q (?q\<lparr>q_enqueuers := add_mset Signalling {#},
      q_ch := (q_ch ?q)(lane_of (pr_Priority ?r) := q_ch ?q (lane_of (pr_Priority ?r)) @ [?r])\<rparr>)"
    by (rule enqueue_step.send) simp_all
  moreover have "?q\<lparr>q_enqueuers := add_mset Signalling {#},
      q_ch := (q_ch ?q)(lane_of (pr_Priority ?r) := q_ch ?q (lane_of (pr_Priority ?r)) @ [?r])\<rparr> = one_request"
    by (simp add: one_request_def lane_of_def)
  ultimately show ?thesis
    by (intro queue_run.step [of P ?q one_request]) (auto intro: queue_step.enqueue simp: one_request_def)
qed

definition closed_request :: Queue where
  "closed_request = one_request\<lparr>q_closed := True, q_done := True, q_schedulers := {#Stopped#}\<rparr>"

lemma closed_request_reachable: "queue_reachable closed_request"
proof -
  let ?q1 = "one_request\<lparr>q_closed := True\<rparr>" and ?q2 = "one_request\<lparr>q_closed := True, q_done := True\<rparr>"
  have "close_step one_request ?q1" by (rule close_step.flag)
  then have q1: "queue_reachable ?q1"
    by (intro queue_run.step [OF one_request_reachable queue_step.close]) simp_all
  have "close_step ?q1 (?q1\<lparr>q_done := True\<rparr>)" by (rule close_step.cancel) simp
  then have q2: "queue_reachable ?q2"
    by (intro queue_run.step [OF q1 queue_step.close]) simp_all
  have "schedule_step ?q2 (?q2\<lparr>q_schedulers := add_mset Stopped {#}\<rparr>)"
    by (rule schedule_step.stop) (simp_all add: one_request_def)
  then show ?thesis
    unfolding closed_request_def by (intro queue_run.step [OF q2 queue_step.schedule]) simp_all
qed

section \<open>Properties\<close>

text \<open>
  C3 The queue never executes more requests at once than its limit, in any interleaving of its
  goroutines; each executing request, and each that is about to, holds one slot of the semaphore.
\<close>

theorem queue_concurrency_bound:
  assumes "queue_reachable q"
  shows "mcount is_running (q_workers q) + mcount holds_slot (q_schedulers q) = q_sem q \<and>
    q_sem q \<le> q_maxConc q"
  using queue_run_inv [OF assms] by (simp add: slots_inv_def)

theorem queue_concurrency_bound_witness: "q_sem closed_request \<le> q_maxConc closed_request"
  using queue_concurrency_bound [OF closed_request_reachable] by blast



text \<open>
  The statistics count what waits: as long as all priorities are known ones, each waiting counter
  is the number of requests in its channel, about to be sent to it, or just taken from it.
\<close>

theorem queue_counters_exact:
  assumes "queue_run known_priority q"
  shows "q_waiting q l = waiting_load q l \<and> q_activeCount q = int (size (q_workers q))"
  using known_run [OF assms] queue_run_inv [OF assms] by (simp add: slots_inv_def)

theorem queue_counters_exact_witness: "q_waiting one_request High = waiting_load one_request High"
  using queue_counters_exact [of one_request High] one_request_reachable [of known_priority]
  by (simp add: known_priority_def)

text \<open>
  Priorities are strict within a batch: once no scheduler is in the middle of a scan and nothing
  more is sent, a request is taken from a channel only when every channel of a higher priority is
  empty.
\<close>

theorem queue_strict_priority:
  assumes "\<forall>l. Scanning l \<notin># q_schedulers q" "drain_step\<^sup>*\<^sup>* q q'"
    and "q_schedulers q' = add_mset (Scanning l) S" "q_ch q' l = r # rs" "l' < l"
  shows "q_ch q' l' = []"
proof -
  have "scans_ok q" using assms(1) by (simp add: scans_ok_def)
  from drain_scans_ok [OF assms(2) this] assms(3,5) show ?thesis by (simp add: scans_ok_def)
qed

theorem queue_strict_priority_witness:
  "q_ch (one_slot\<lparr>q_ch := (\<lambda>l. [])(Medium := [\<lparr>pr_id = 1, pr_Priority = 1\<rparr>]),
     q_schedulers := {#Scanning Medium#}\<rparr>) High = []"
proof -
  let ?ch = "(\<lambda>l. [])(Medium := [\<lparr>pr_id = 1, pr_Priority = 1\<rparr>])"
  let ?q = "\<lambda>s. one_slot\<lparr>q_ch := ?ch, q_schedulers := {#s#}\<rparr>"
  have "schedule_step (?q Checking) (?q Checking\<lparr>q_schedulers := add_mset (Scanning High) {#}\<rparr>)"
    by (rule schedule_step.go_on) simp_all
  moreover have "schedule_step (?q (Scanning High)) (?q (Scanning High)\<lparr>q_schedulers := add_mset (next_scan High) {#}\<rparr>)"
    by (rule schedule_step.empty) simp_all
  ultimately have "drain_step (?q Checking) (?q (Scanning High))" "drain_step (?q (Scanning High)) (?q (Scanning Medium))"
    by (simp_all add: drain_step_iff)
  then have run: "drain_step\<^sup>*\<^sup>* (?q Checking) (?q (Scanning Medium))"
    by (blast intro: rtranclp.rtrancl_into_rtrancl rtranclp.rtrancl_refl)
  show ?thesis
    by (rule queue_strict_priority [OF _ run, where l = Medium]) (simp_all add: less_lane_def)
qed

text \<open>
  C37 The queue comes to rest: without new calls, every run of the callers, schedulers and workers that there
  are is finite, whatever the interleaving, and after the closing too: no goroutine spins. The number of
  steps is bounded by the work that is queued, announced or in progress.\<close>

theorem queue_settles:
  "wfp settle_step\<inverse>\<inverse> \<and> ((settle_step ^^ n) q q' \<longrightarrow> n \<le> queue_work q)"
proof
  have "wf (measure queue_work)" by simp
  then have "wf {(q', q). settle_step q q'}" by (rule wf_subset) (auto dest: settle_work)
  then show "wfp settle_step\<inverse>\<inverse>" by (simp add: wfp_def conversep_iff)
  show "(settle_step ^^ n) q q' \<longrightarrow> n \<le> queue_work q" using settle_steps by fastforce
qed

lemma queue_settles_witness:
  "\<exists>q'. (settle_step ^^ 1) one_request q' \<and> 1 \<le> queue_work one_request"
proof -
  have "settle_step one_request (one_request\<lparr>q_schedulers := add_mset (Scanning High) {#}\<rparr>)"
    by (rule settle_step.schedule, rule schedule_step.go_on) (simp_all add: one_request_def)
  then have "(settle_step ^^ 1) one_request (one_request\<lparr>q_schedulers := add_mset (Scanning High) {#}\<rparr>)" by (simp add: eq_OO)
  with queue_settles [of 1 one_request] show ?thesis by blast
qed

text \<open>
  Closing strands what is queued: when all schedulers have stopped, no later step takes a request
  out of a channel or starts one, so an accepted request that is still queued is never executed and
  its caller waits until its own context ends.
\<close>

theorem queue_close_strands:
  assumes "\<forall>s \<in># q_schedulers q. s = Stopped" "queue_step\<^sup>*\<^sup>* q q'"
  shows "prefix (q_ch q l) (q_ch q' l) \<and> q_schedulers q' = q_schedulers q \<and>
    mcount is_running (q_workers q') \<le> mcount is_running (q_workers q)"
  using assms(2)
proof (induction rule: rtranclp_induct)
  case (step q' q'')
  from step.IH have "\<forall>s \<in># q_schedulers q'. s = Stopped" using assms(1) by simp
  from stopped_step [OF step.hyps(2) this, of l] step.IH show ?case
    by (intro conjI) (blast intro: prefix_order.trans, simp, linarith)
qed simp

theorem queue_close_strands_witness:
  "queue_reachable closed_request \<and> prefix [\<lparr>pr_id = 7, pr_Priority = PriorityHigh\<rparr>] (q_ch closed_request High)"
  using queue_close_strands [of closed_request closed_request High] closed_request_reachable
  by (simp add: closed_request_def one_request_def)

end
