(* ===== verification/Runtime_State.thy ===== *)
theory Runtime_State
  imports Key_Rotation Routing Rate_Limit Request_Queue
begin

text \<open>
  The gateway's live state of \<open>internal/gateway/api/runtime_state.go\<close>: the circuit breaker of each
  provider, the sticky bindings, the key rotators, the upstream rate limiters and the request queue.
  The mutex makes each operation one step. Maps are partial functions; \<open>s.clockNow()\<close> readings and
  the global \<open>routingSequence\<close> are arguments. The nil receiver and the nil snapshot, for which
  the operations do nothing, are the \<open>None\<close> of an option where a caller can pass them.
\<close>

record providerRuntimeState =
  pst_lastCheck :: gotime
  pst_lastSuccess :: gotime
  pst_lastFailure :: gotime
  pst_lastLatency :: duration
  pst_consecutiveFailures :: goint
  pst_quotaBlockedAt :: gotime

record stickyBinding =
  sb_providerID :: string
  sb_expiresAt :: gotime

record providerGateState =
  gs_blocked :: bool
  gs_passthroughEligible :: bool
  gs_cooldownUntil :: gotime

record RuntimeState =
  rs_providers :: "string \<Rightarrow> providerRuntimeState option"
  rs_sticky :: "string \<Rightarrow> stickyBinding option"
  rs_keyRotators :: "string \<Rightarrow> KeyRotator option"
  rs_upstreamRateLimiters :: "string \<Rightarrow> upstreamRateLimiter option"
  rs_requestQueue :: "Queue option"
  rs_queueConfig :: QueueConfig

record ProviderHealth =
  ph_Name :: string
  ph_UpstreamID :: string
  ph_ProviderIDs :: "string list"
  ph_BaseURL :: string
  ph_AnthropicBaseURL :: string
  ph_Healthy :: bool
  ph_LastCheck :: gotime
  ph_LastSuccess :: gotime
  ph_ConsecutiveFailures :: goint
  ph_CooldownUntil :: gotime
  ph_LatencyMs :: goint

definition fresh_provider :: providerRuntimeState where
  "fresh_provider = \<lparr>pst_lastCheck = 0, pst_lastSuccess = 0, pst_lastFailure = 0,
     pst_lastLatency = 0, pst_consecutiveFailures = 0, pst_quotaBlockedAt = 0\<rparr>"

definition no_queue :: QueueConfig where
  "no_queue = \<lparr>qc_Enabled = False, qc_MaxConcurrent = 0, qc_HighPriorityPct = 0\<rparr>"

definition NewRuntimeState :: RuntimeState where
  "NewRuntimeState = \<lparr>rs_providers = (\<lambda>k. None), rs_sticky = (\<lambda>k. None), rs_keyRotators = (\<lambda>k. None),
     rs_upstreamRateLimiters = (\<lambda>k. None), rs_requestQueue = None, rs_queueConfig = no_queue\<rparr>"

definition maxTime :: "gotime \<Rightarrow> gotime \<Rightarrow> gotime" where
  "maxTime a b = (if b < a then a else b)"

section \<open>The provider gate\<close>

definition providerGateStateFromLocked ::
  "providerRuntimeState \<Rightarrow> FailurePolicy \<Rightarrow> gotime \<Rightarrow> providerGateState" where
  "providerGateStateFromLocked st policy now =
     (let state0 = \<lparr>gs_blocked = False, gs_passthroughEligible = False, gs_cooldownUntil = 0\<rparr> in
      if fp_DisableCooldown policy then state0
      else
        let cooldownSec = max (fp_CooldownSec policy) 0;
            threshold = max (fp_Threshold policy) 0;
            passthroughAfter = i64 (max (fp_PassthroughAfterSec policy) 0 * second);
            block = (\<lambda>since until state.
              if now < until then
                state\<lparr>gs_blocked := True, gs_cooldownUntil := maxTime (gs_cooldownUntil state) until,
                  gs_passthroughEligible := (if 0 < passthroughAfter \<and> passthroughAfter \<le> time_sub now since
                    then True else gs_passthroughEligible state)\<rparr>
              else state);
            state1 = (if 0 < threshold \<and> threshold \<le> pst_consecutiveFailures st \<and>
                \<not> is_zero_time (pst_lastFailure st) \<and> 0 < cooldownSec
              then block (pst_lastFailure st) (pst_lastFailure st + i64 (cooldownSec * second)) state0
              else state0);
            state2 = (if \<not> is_zero_time (pst_quotaBlockedAt st)
              then block (pst_quotaBlockedAt st)
                (pst_quotaBlockedAt st + i64 (max (fp_QuotaRecoveryIntervalMin policy) 0 * minute)) state1
              else state1)
        in if \<not> gs_blocked state2 then state2\<lparr>gs_passthroughEligible := False\<rparr> else state2)"

definition isProviderFailure :: "goint \<Rightarrow> string option \<Rightarrow> bool" where
  "isProviderFailure statusCode forwardErr =
     (if forwardErr \<noteq> None then True
      else statusCode = 429 \<or> statusCode = 408 \<or> 500 \<le> statusCode)"

section \<open>Provider states and sticky bindings\<close>

definition provider_state :: "RuntimeState \<Rightarrow> string \<Rightarrow> providerRuntimeState" where
  "provider_state s providerID =
     (case rs_providers s providerID of Some st \<Rightarrow> st | None \<Rightarrow> fresh_provider)"

definition ensureProviderStateLocked :: "string \<Rightarrow> RuntimeState \<Rightarrow> RuntimeState" where
  "ensureProviderStateLocked providerID s =
     s\<lparr>rs_providers := (rs_providers s)(providerID \<mapsto> provider_state s providerID)\<rparr>"

definition stickyBindingKey :: "string \<Rightarrow> string \<Rightarrow> string" where
  "stickyBindingKey model stickyKey = model @ [CHR 0x00] @ stickyKey"

definition sticky_expired :: "gotime \<Rightarrow> stickyBinding \<Rightarrow> bool" where
  "sticky_expired now b \<longleftrightarrow> \<not> is_zero_time (sb_expiresAt b) \<and> sb_expiresAt b < now"

definition cleanupExpiredStickyLocked :: "gotime \<Rightarrow> RuntimeState \<Rightarrow> RuntimeState" where
  "cleanupExpiredStickyLocked now s =
     s\<lparr>rs_sticky := (\<lambda>k. case rs_sticky s k of None \<Rightarrow> None
        | Some b \<Rightarrow> if sticky_expired now b then None else Some b)\<rparr>"

definition lookupStickyProviderLocked ::
  "gotime \<Rightarrow> string \<Rightarrow> string \<Rightarrow> RuntimeState \<Rightarrow> string option \<times> RuntimeState" where
  "lookupStickyProviderLocked now model stickyKey s =
     (if stickyKey = [] then (None, s)
      else case rs_sticky s (stickyBindingKey model stickyKey) of
          None \<Rightarrow> (None, s)
        | Some b \<Rightarrow>
            if sticky_expired now b
            then (None, s\<lparr>rs_sticky := (rs_sticky s)(stickyBindingKey model stickyKey := None)\<rparr>)
            else (Some (sb_providerID b), s))"

definition rememberSticky ::
  "gotime \<Rightarrow> string \<Rightarrow> string \<Rightarrow> string \<Rightarrow> Snapshot \<Rightarrow> RuntimeState \<Rightarrow> RuntimeState" where
  "rememberSticky now model stickyKey providerID snap s =
     (let policy = rp_StickySessions (snap_RoutingPolicy snap); ttlSec = ssc_TTLSec policy in
      if \<not> ssc_Enabled policy \<or> stickyKey = [] \<or> providerID = [] \<or> ttlSec \<le> 0 then s
      else s\<lparr>rs_sticky := (rs_sticky s)(stickyBindingKey model stickyKey \<mapsto>
        \<lparr>sb_providerID = providerID, sb_expiresAt = now + i64 (ttlSec * second)\<rparr>)\<rparr>)"

definition reportAttemptResult ::
  "gotime \<Rightarrow> string \<Rightarrow> goint \<Rightarrow> duration \<Rightarrow> string option \<Rightarrow> RuntimeState \<Rightarrow> RuntimeState" where
  "reportAttemptResult now providerID statusCode latency forwardErr s =
     (if trim_space providerID = [] then s
      else
        let st = (provider_state s providerID)\<lparr>pst_lastCheck := now, pst_lastLatency := latency\<rparr>;
            st' = (if isProviderFailure statusCode forwardErr
              then st\<lparr>pst_lastFailure := now,
                pst_consecutiveFailures := i64 (pst_consecutiveFailures st + 1),
                pst_quotaBlockedAt := (if statusCode = 429 then now else pst_quotaBlockedAt st)\<rparr>
              else st\<lparr>pst_lastSuccess := now, pst_consecutiveFailures := 0, pst_quotaBlockedAt := 0\<rparr>)
        in s\<lparr>rs_providers := (rs_providers s)(providerID \<mapsto> st')\<rparr>)"

section \<open>The order of the candidates\<close>

text \<open>The variables of the loop of \<open>orderCandidates\<close>.\<close>

record order_acc =
  oa_preferred :: "providerCandidate option"
  oa_fallback :: "providerCandidate option"
  oa_available :: "providerCandidate list"
  oa_passthrough :: "providerCandidate list"

definition order_step ::
  "string option \<Rightarrow> FailurePolicy \<Rightarrow> gotime \<Rightarrow> providerCandidate \<Rightarrow> RuntimeState \<times> order_acc
     \<Rightarrow> RuntimeState \<times> order_acc" where
  "order_step sticky policy now c = (\<lambda>(s, acc).
     let gate = providerGateStateFromLocked (provider_state s (pcd_id c)) policy now;
         s' = ensureProviderStateLocked (pcd_id c) s
     in if gs_blocked gate then
          if gs_passthroughEligible gate then
            if sticky = Some (pcd_id c) \<and> oa_fallback acc = None
            then (s', acc\<lparr>oa_fallback := Some c\<rparr>)
            else (s', acc\<lparr>oa_passthrough := oa_passthrough acc @ [c]\<rparr>)
          else (s', acc)
        else if sticky = Some (pcd_id c) \<and> oa_preferred acc = None
        then (s', acc\<lparr>oa_preferred := Some c\<rparr>)
        else (s', acc\<lparr>oa_available := oa_available acc @ [c]\<rparr>))"

definition opt_list :: "'a option \<Rightarrow> 'a list" where
  "opt_list x = (case x of None \<Rightarrow> [] | Some a \<Rightarrow> [a])"

definition orderCandidates ::
  "gotime \<Rightarrow> gotime \<Rightarrow> Snapshot option \<Rightarrow> string \<Rightarrow> string \<Rightarrow> providerCandidate list \<Rightarrow> 64 word
     \<Rightarrow> RuntimeState \<Rightarrow> providerCandidate list \<times> 64 word \<times> RuntimeState" where
  "orderCandidates now now' snapshot model stickyKey cs seq s =
     (if cs = [] then ([], seq, s)
      else case snapshot of
        None \<Rightarrow> (let (ordered, seq') = orderProviderCandidates cs seq in (ordered, seq', s))
      | Some snap \<Rightarrow>
          let s1 = cleanupExpiredStickyLocked now s;
              (sticky, s2) = lookupStickyProviderLocked now' model stickyKey s1;
              (s3, acc) = fold (order_step sticky (rp_FailurePolicy (snap_RoutingPolicy snap)) now) cs
                (s2, \<lparr>oa_preferred = None, oa_fallback = None, oa_available = [], oa_passthrough = []\<rparr>);
              (available, seq1) = orderProviderCandidates (oa_available acc) seq;
              (passthrough, seq2) = orderProviderCandidates (oa_passthrough acc) seq1
          in (opt_list (oa_preferred acc) @ available @ opt_list (oa_fallback acc) @ passthrough, seq2, s3))"

section \<open>Applying a snapshot\<close>

definition upstreamRateLimitKey :: "ProviderSnapshot \<Rightarrow> string" where
  "upstreamRateLimitKey p =
     (if trim_space (ps_UpstreamID p) \<noteq> [] then trim_space (ps_UpstreamID p)
      else if trim_space (ps_AnthropicBaseURL p) \<noteq> [] then trim_space (ps_AnthropicBaseURL p)
      else if trim_space (ps_BaseURL p) \<noteq> [] then trim_space (ps_BaseURL p)
      else trim_space (ps_ProviderID p))"

definition limited :: "ProviderSnapshot \<Rightarrow> bool" where
  "limited p \<longleftrightarrow> rl_Enabled (ep_RateLimit (ps_ExecutionPolicy p)) \<and>
     0 < rl_RequestsPerSecond (ep_RateLimit (ps_ExecutionPolicy p))"

text \<open>The limiter a provider asks for: the existing one if it has the provider's limits.\<close>

definition limiter_for ::
  "gotime \<Rightarrow> ProviderSnapshot \<Rightarrow> (string \<Rightarrow> upstreamRateLimiter option) \<Rightarrow> upstreamRateLimiter" where
  "limiter_for now p limiters =
     (let limit = ep_RateLimit (ps_ExecutionPolicy p) in
      case limiters (upstreamRateLimitKey p) of
        None \<Rightarrow> newUpstreamRateLimiter limit now
      | Some existing \<Rightarrow>
          if upstream_matches existing limit then existing else newUpstreamRateLimiter limit now)"

definition apply_limiter ::
  "gotime \<times> ProviderSnapshot \<Rightarrow> (string \<Rightarrow> upstreamRateLimiter option) \<Rightarrow> string \<Rightarrow> upstreamRateLimiter option" where
  "apply_limiter = (\<lambda>(now, p) limiters.
     if limited p then limiters(upstreamRateLimitKey p \<mapsto> limiter_for now p limiters) else limiters)"

text \<open>\<open>None\<close> is the panic of \<open>NewQueue\<close> on a percentage that is out of range.\<close>

definition applyQueueConfigLocked :: "Snapshot option \<Rightarrow> RuntimeState \<Rightarrow> RuntimeState option" where
  "applyQueueConfigLocked snapshot s =
     (let cfg = (case snapshot of None \<Rightarrow> no_queue | Some snap \<Rightarrow> rp_Queue (snap_RoutingPolicy snap)) in
      if \<not> qc_Enabled cfg \<or> qc_MaxConcurrent cfg \<le> 0
      then Some (s\<lparr>rs_requestQueue := None, rs_queueConfig := no_queue\<rparr>)
      else if rs_requestQueue s \<noteq> None \<and> qc_Enabled (rs_queueConfig s) \<and>
          qc_MaxConcurrent (rs_queueConfig s) = qc_MaxConcurrent cfg \<and>
          qc_HighPriorityPct (rs_queueConfig s) = qc_HighPriorityPct cfg
      then Some (s\<lparr>rs_queueConfig := cfg\<rparr>)
      else case NewQueue (qc_MaxConcurrent cfg) (qc_HighPriorityPct cfg) of
          None \<Rightarrow> None
        | Some q \<Rightarrow> Some (s\<lparr>rs_requestQueue := Some q, rs_queueConfig := cfg\<rparr>))"

text \<open>\<open>clock i\<close> is the reading of the clock for the provider at position \<open>i\<close>.\<close>

definition RuntimeState_ApplySnapshot ::
  "(nat \<Rightarrow> gotime) \<Rightarrow> Snapshot option \<Rightarrow> RuntimeState \<Rightarrow> RuntimeState option" where
  "RuntimeState_ApplySnapshot clock snapshot s =
     (let providers = (case snapshot of None \<Rightarrow> [] | Some snap \<Rightarrow> snap_Providers snap);
          active = map ps_ProviderID providers;
          ensured = fold (\<lambda>p m. if m (ps_ProviderID p) = None then m(ps_ProviderID p \<mapsto> fresh_provider) else m)
            providers (rs_providers s);
          limiters = fold apply_limiter (zip (map clock [0..<length providers]) providers)
            (rs_upstreamRateLimiters s);
          activeLimiters = map upstreamRateLimitKey (filter limited providers)
      in applyQueueConfigLocked snapshot (s\<lparr>
           rs_providers := (\<lambda>k. if List.member active k then ensured k else None),
           rs_sticky := (\<lambda>k. case rs_sticky s k of None \<Rightarrow> None
             | Some b \<Rightarrow> if List.member active (sb_providerID b) then Some b else None),
           rs_keyRotators := fold (\<lambda>p m. if ps_APIKeys p \<noteq> [] then m(ps_ProviderID p \<mapsto> NewKeyRotator (Some p)) else m)
             providers (\<lambda>k. None),
           rs_upstreamRateLimiters := (\<lambda>k. if List.member activeLimiters k then limiters k else None)\<rparr>))"

section \<open>Health, keys and slots\<close>

definition health_entry :: "ProviderSnapshot \<Rightarrow> string \<Rightarrow> ProviderHealth" where
  "health_entry p upstreamID = \<lparr>ph_Name = upstreamID, ph_UpstreamID = upstreamID, ph_ProviderIDs = [],
     ph_BaseURL = ps_BaseURL p, ph_AnthropicBaseURL = ps_AnthropicBaseURL p, ph_Healthy = True,
     ph_LastCheck = 0, ph_LastSuccess = 0, ph_ConsecutiveFailures = 0, ph_CooldownUntil = 0,
     ph_LatencyMs = 0\<rparr>"

definition health_upstream :: "ProviderSnapshot \<Rightarrow> string" where
  "health_upstream p = (if trim_space (ps_UpstreamID p) = [] then ps_ProviderID p else ps_UpstreamID p)"

definition health_step ::
  "FailurePolicy \<Rightarrow> gotime \<Rightarrow> ProviderSnapshot \<Rightarrow> RuntimeState \<times> (string \<Rightarrow> ProviderHealth option)
     \<Rightarrow> RuntimeState \<times> (string \<Rightarrow> ProviderHealth option)" where
  "health_step policy now p = (\<lambda>(s, health).
     let st = provider_state s (ps_ProviderID p);
         gate = providerGateStateFromLocked st policy now;
         lastCheck = (if \<not> is_zero_time (pst_lastCheck st) then pst_lastCheck st
           else if \<not> is_zero_time (pst_lastFailure st) then pst_lastFailure st else pst_lastSuccess st);
         upstreamID = health_upstream p;
         current = (case health upstreamID of Some h \<Rightarrow> h | None \<Rightarrow> health_entry p upstreamID);
         latencyMs = go_div (pst_lastLatency st) millisecond
     in (ensureProviderStateLocked (ps_ProviderID p) s, health(upstreamID \<mapsto> current\<lparr>
          ph_ProviderIDs := ph_ProviderIDs current @ [ps_ProviderID p],
          ph_Healthy := ph_Healthy current \<and> \<not> gs_blocked gate,
          ph_LastCheck := maxTime (ph_LastCheck current) lastCheck,
          ph_LastSuccess := maxTime (ph_LastSuccess current) (pst_lastSuccess st),
          ph_ConsecutiveFailures := i64 (ph_ConsecutiveFailures current + pst_consecutiveFailures st),
          ph_CooldownUntil := maxTime (ph_CooldownUntil current) (gs_cooldownUntil gate),
          ph_LatencyMs := max (ph_LatencyMs current) latencyMs\<rparr>)))"

definition ProviderHealthSnapshot ::
  "gotime \<Rightarrow> Snapshot \<Rightarrow> RuntimeState \<Rightarrow> (string \<Rightarrow> ProviderHealth option) \<times> RuntimeState" where
  "ProviderHealthSnapshot now snap s =
     (let (s', health) = fold (health_step (rp_FailurePolicy (snap_RoutingPolicy snap)) now)
        (snap_Providers snap) (cleanupExpiredStickyLocked now s, \<lambda>k. None)
      in (health, s'))"

text \<open>The rotator for a provider, and whether it is the live one that later requests see too.\<close>

definition KeyRotatorForProvider :: "ProviderSnapshot \<Rightarrow> RuntimeState \<Rightarrow> KeyRotator \<times> bool" where
  "KeyRotatorForProvider p s =
     (if ps_APIKeys p = [] then (NewKeyRotator (Some p), False)
      else case rs_keyRotators s (ps_ProviderID p) of
          Some kr \<Rightarrow> (kr, True)
        | None \<Rightarrow> (NewKeyRotator (Some p), False))"

definition store_rotator :: "ProviderSnapshot \<Rightarrow> KeyRotator \<Rightarrow> bool \<Rightarrow> RuntimeState \<Rightarrow> RuntimeState" where
  "store_rotator p kr live s =
     (if live then s\<lparr>rs_keyRotators := (rs_keyRotators s)(ps_ProviderID p \<mapsto> kr)\<rparr> else s)"

definition recover_step ::
  "(nat \<Rightarrow> gotime) \<Rightarrow> duration \<Rightarrow> nat \<times> ProviderSnapshot \<Rightarrow> bool \<times> RuntimeState \<Rightarrow> bool \<times> RuntimeState" where
  "recover_step clock cooldown = (\<lambda>(i, p) (changed, s).
     if ps_APIKeys p = [] then (changed, s)
     else case rs_keyRotators s (ps_ProviderID p) of
         None \<Rightarrow> (changed, s)
       | Some kr \<Rightarrow>
           let (b, kr') = KeyRotator_TryRecover (clock i) cooldown kr
           in (changed \<or> b, s\<lparr>rs_keyRotators := (rs_keyRotators s)(ps_ProviderID p \<mapsto> kr')\<rparr>))"

definition TryRecoverAPIKeys ::
  "(nat \<Rightarrow> gotime) \<Rightarrow> Snapshot \<Rightarrow> duration \<Rightarrow> RuntimeState \<Rightarrow> bool \<times> RuntimeState" where
  "TryRecoverAPIKeys clock snap cooldown s =
     fold (recover_step clock cooldown) (enumerate 0 (snap_Providers snap)) (False, s)"

text \<open>
  The first half of \<open>WaitForUpstreamSlot\<close>: how long the caller has to wait, for a timer or the end of
  its context, with the two readings of the clock.
\<close>

definition WaitForUpstreamSlot ::
  "gotime \<Rightarrow> gotime \<Rightarrow> ProviderSnapshot \<Rightarrow> RuntimeState \<Rightarrow> duration \<times> RuntimeState" where
  "WaitForUpstreamSlot now now' p s =
     (if \<not> limited p then (0, s)
      else let limiter = limiter_for now p (rs_upstreamRateLimiters s);
          (wait, limiter') = reserveDelay now' limiter
        in (wait, s\<lparr>rs_upstreamRateLimiters :=
              (rs_upstreamRateLimiters s)(upstreamRateLimitKey p \<mapsto> limiter')\<rparr>))"

section \<open>Lemmas on the gate\<close>

text \<open>The two reasons for which a provider is blocked, each up to a time.\<close>

definition circuit_until :: "providerRuntimeState \<Rightarrow> FailurePolicy \<Rightarrow> gotime option" where
  "circuit_until st policy =
     (if 0 < fp_Threshold policy \<and> fp_Threshold policy \<le> pst_consecutiveFailures st \<and>
         pst_lastFailure st \<noteq> 0 \<and> 0 < fp_CooldownSec policy
      then Some (pst_lastFailure st + i64 (fp_CooldownSec policy * second)) else None)"

definition quota_until :: "providerRuntimeState \<Rightarrow> FailurePolicy \<Rightarrow> gotime option" where
  "quota_until st policy =
     (if pst_quotaBlockedAt st \<noteq> 0
      then Some (pst_quotaBlockedAt st + i64 (max (fp_QuotaRecoveryIntervalMin policy) 0 * minute)) else None)"

definition holds_until :: "gotime option \<Rightarrow> gotime \<Rightarrow> bool" where
  "holds_until until now \<longleftrightarrow> (case until of None \<Rightarrow> False | Some t \<Rightarrow> now < t)"

lemma gate_blocked [gate_simps]:
  "gs_blocked (providerGateStateFromLocked st policy now) \<longleftrightarrow>
     \<not> fp_DisableCooldown policy \<and>
     (holds_until (circuit_until st policy) now \<or> holds_until (quota_until st policy) now)"
  by (auto simp: providerGateStateFromLocked_def Let_def circuit_until_def quota_until_def
      holds_until_def is_zero_time_def max_def split: if_splits)

lemma gate_cooldownUntil [gate_simps]:
  assumes "0 \<le> now" "gs_blocked (providerGateStateFromLocked st policy now)"
  shows "gs_cooldownUntil (providerGateStateFromLocked st policy now) =
    (if holds_until (circuit_until st policy) now \<and> holds_until (quota_until st policy) now
     then max (the (circuit_until st policy)) (the (quota_until st policy))
     else if holds_until (circuit_until st policy) now then the (circuit_until st policy)
     else the (quota_until st policy))"
proof -
  have pos: "0 < max x 0 \<longleftrightarrow> 0 < x" "0 < x \<Longrightarrow> max x 0 = x" for x :: int by auto
  show ?thesis
  proof (cases "0 < fp_Threshold policy \<and> fp_Threshold policy \<le> pst_consecutiveFailures st \<and> pst_lastFailure st \<noteq> 0 \<and>
      0 < fp_CooldownSec policy")
    case True
    then show ?thesis using assms
      by (cases "pst_quotaBlockedAt st = 0") (simp_all add: providerGateStateFromLocked_def Let_def circuit_until_def quota_until_def
          holds_until_def is_zero_time_def maxTime_def pos split: if_splits)
  next
    case False
    then have "circuit_until st policy = None" by (simp add: circuit_until_def)
    moreover have "\<not> (0 < max (fp_Threshold policy) 0 \<and> max (fp_Threshold policy) 0 \<le> pst_consecutiveFailures st \<and>
        \<not> is_zero_time (pst_lastFailure st) \<and> 0 < max (fp_CooldownSec policy) 0)"
      using False pos(2) [of "fp_Threshold policy"] by (simp add: pos(1) is_zero_time_def)
    ultimately show ?thesis using assms
      by (simp add: providerGateStateFromLocked_def Let_def quota_until_def holds_until_def is_zero_time_def maxTime_def pos split: if_splits)
  qed
qed

lemma gate_passthrough_blocked [gate_simps]:
  "gs_passthroughEligible (providerGateStateFromLocked st policy now) \<Longrightarrow>
     gs_blocked (providerGateStateFromLocked st policy now)"
  by (auto simp: providerGateStateFromLocked_def Let_def split: if_splits)

section \<open>Lemmas on the order\<close>

lemma provider_state_ensure [simp]:
  "provider_state (ensureProviderStateLocked p s) q = provider_state s q"
  by (auto simp: provider_state_def ensureProviderStateLocked_def)

lemma provider_state_cleanup [simp]:
  "provider_state (cleanupExpiredStickyLocked now s) q = provider_state s q"
  by (simp add: provider_state_def cleanupExpiredStickyLocked_def)

lemma provider_state_lookup [simp]:
  "provider_state (snd (lookupStickyProviderLocked now model key s)) q = provider_state s q"
  by (auto simp: provider_state_def lookupStickyProviderLocked_def split: option.split)

lemma order_step_state: "provider_state (fst (order_step sticky policy now c (s, acc))) q = provider_state s q"
  by (auto simp: order_step_def Let_def)

definition gate_of :: "FailurePolicy \<Rightarrow> gotime \<Rightarrow> RuntimeState \<Rightarrow> providerCandidate \<Rightarrow> providerGateState" where
  "gate_of policy now s c = providerGateStateFromLocked (provider_state s (pcd_id c)) policy now"

text \<open>The candidates that are open, and those that are blocked but may be tried last.\<close>

definition open_candidates ::
  "FailurePolicy \<Rightarrow> gotime \<Rightarrow> RuntimeState \<Rightarrow> providerCandidate list \<Rightarrow> providerCandidate list" where
  "open_candidates policy now s cs = filter (\<lambda>c. \<not> gs_blocked (gate_of policy now s c)) cs"

definition last_resort ::
  "FailurePolicy \<Rightarrow> gotime \<Rightarrow> RuntimeState \<Rightarrow> providerCandidate list \<Rightarrow> providerCandidate list" where
  "last_resort policy now s cs = filter (\<lambda>c. gs_passthroughEligible (gate_of policy now s c)) cs"

lemma order_fold:
  assumes "distinct (map pcd_id cs)"
  shows "(let (s', acc) = fold (order_step sticky policy now) cs
      (s, \<lparr>oa_preferred = None, oa_fallback = None, oa_available = [], oa_passthrough = []\<rparr>) in
    (\<forall>q. provider_state s' q = provider_state s q) \<and>
    oa_preferred acc = find (\<lambda>c. sticky = Some (pcd_id c)) (open_candidates policy now s cs) \<and>
    oa_available acc = filter (\<lambda>c. sticky \<noteq> Some (pcd_id c)) (open_candidates policy now s cs) \<and>
    oa_fallback acc = find (\<lambda>c. sticky = Some (pcd_id c)) (last_resort policy now s cs) \<and>
    oa_passthrough acc = filter (\<lambda>c. sticky \<noteq> Some (pcd_id c)) (last_resort policy now s cs))"
  using assms
proof (induction cs rule: rev_induct)
  case Nil
  then show ?case by (simp add: open_candidates_def last_resort_def)
next
  case (snoc c cs)
  obtain s' acc where f: "fold (order_step sticky policy now) cs
      (s, \<lparr>oa_preferred = None, oa_fallback = None, oa_available = [], oa_passthrough = []\<rparr>) = (s', acc)"
    by fastforce
  from snoc f have ih: "\<forall>q. provider_state s' q = provider_state s q"
    "oa_preferred acc = find (\<lambda>c. sticky = Some (pcd_id c)) (open_candidates policy now s cs)"
    "oa_available acc = filter (\<lambda>c. sticky \<noteq> Some (pcd_id c)) (open_candidates policy now s cs)"
    "oa_fallback acc = find (\<lambda>c. sticky = Some (pcd_id c)) (last_resort policy now s cs)"
    "oa_passthrough acc = filter (\<lambda>c. sticky \<noteq> Some (pcd_id c)) (last_resort policy now s cs)"
    by auto
  have new: "find (\<lambda>d. sticky = Some (pcd_id d)) xs = None"
    if "set xs \<subseteq> set cs" "sticky = Some (pcd_id c)" for xs
    using that snoc.prems by (auto simp: find_None_set)
  have sub: "set (open_candidates policy now s cs) \<subseteq> set cs" "set (last_resort policy now s cs) \<subseteq> set cs"
    by (auto simp: open_candidates_def last_resort_def)
  have find_app: "find P (xs @ ys) = (case find P xs of None \<Rightarrow> find P ys | Some x \<Rightarrow> Some x)"
    for P and xs ys :: "providerCandidate list"
    by (induction xs) auto
  have gate: "providerGateStateFromLocked (provider_state s' (pcd_id c)) policy now = gate_of policy now s c"
    using ih(1) by (simp add: gate_of_def)
  consider "\<not> gs_blocked (gate_of policy now s c)" "\<not> gs_passthroughEligible (gate_of policy now s c)"
    | "gs_blocked (gate_of policy now s c)" "\<not> gs_passthroughEligible (gate_of policy now s c)"
    | "gs_blocked (gate_of policy now s c)" "gs_passthroughEligible (gate_of policy now s c)"
    using gate_passthrough_blocked by (auto simp: gate_of_def)
  then have split: "fold (order_step sticky policy now) (cs @ [c])
      (s, \<lparr>oa_preferred = None, oa_fallback = None, oa_available = [], oa_passthrough = []\<rparr>)
      = order_step sticky policy now c (s', acc) \<and>
    (case order_step sticky policy now c (s', acc) of (t, a) \<Rightarrow>
      (\<forall>q. provider_state t q = provider_state s q) \<and>
      oa_preferred a = find (\<lambda>c. sticky = Some (pcd_id c)) (open_candidates policy now s (cs @ [c])) \<and>
      oa_available a = filter (\<lambda>c. sticky \<noteq> Some (pcd_id c)) (open_candidates policy now s (cs @ [c])) \<and>
      oa_fallback a = find (\<lambda>c. sticky = Some (pcd_id c)) (last_resort policy now s (cs @ [c])) \<and>
      oa_passthrough a = filter (\<lambda>c. sticky \<noteq> Some (pcd_id c)) (last_resort policy now s (cs @ [c])))"
  proof cases
    case 1
    then show ?thesis
      using ih f new [OF sub(1)] gate
      by (cases "sticky = Some (pcd_id c)")
         (auto simp: order_step_def Let_def open_candidates_def last_resort_def find_app split: option.split)
  next
    case 2
    then show ?thesis
      using ih f gate by (auto simp: order_step_def Let_def open_candidates_def last_resort_def)
  next
    case 3
    then show ?thesis
      using ih f new [OF sub(2)] gate
      by (cases "sticky = Some (pcd_id c)")
         (auto simp: order_step_def Let_def open_candidates_def last_resort_def find_app split: option.split)
  qed
  then show ?case by (auto simp: Let_def)
qed

definition bound_provider :: "gotime \<Rightarrow> gotime \<Rightarrow> string \<Rightarrow> string \<Rightarrow> RuntimeState \<Rightarrow> string option" where
  "bound_provider now now' model stickyKey s =
     fst (lookupStickyProviderLocked now' model stickyKey (cleanupExpiredStickyLocked now s))"

lemma find_split_mset:
  assumes "distinct (map pcd_id xs)"
  shows "mset (opt_list (find (\<lambda>c. sticky = Some (pcd_id c)) xs) @ filter (\<lambda>c. sticky \<noteq> Some (pcd_id c)) xs) = mset xs"
  using assms
proof (induction xs)
  case (Cons x xs)
  have "filter (\<lambda>c. sticky \<noteq> Some (pcd_id c)) xs = xs" if "sticky = Some (pcd_id x)"
    using that Cons.prems by (auto simp: filter_id_conv)
  with Cons show ?case by (auto simp: opt_list_def split: option.splits)
qed (simp add: opt_list_def)

lemma distinct_ids_filter: "distinct (map pcd_id cs) \<Longrightarrow> distinct (map pcd_id (filter P cs))"
  by (rule distinct_map_filter)

text \<open>The groups of \<open>orderCandidates\<close>, from the contract of the candidate order.\<close>

lemma orderCandidates_groups:
  fixes now now' model key s snap
  defines "policy \<equiv> rp_FailurePolicy (snap_RoutingPolicy snap)"
    and "sticky \<equiv> bound_provider now now' model key s"
  assumes "distinct (map pcd_id cs)"
  obtains available passthrough seq' s' where
    "orderCandidates now now' (Some snap) model key cs seq s =
       (opt_list (find (\<lambda>c. sticky = Some (pcd_id c)) (open_candidates policy now s cs)) @ available @
        opt_list (find (\<lambda>c. sticky = Some (pcd_id c)) (last_resort policy now s cs)) @ passthrough, seq', s')"
    "mset (opt_list (find (\<lambda>c. sticky = Some (pcd_id c)) (open_candidates policy now s cs)) @ available)
       = mset (open_candidates policy now s cs)"
    "mset (opt_list (find (\<lambda>c. sticky = Some (pcd_id c)) (last_resort policy now s cs)) @ passthrough)
       = mset (last_resort policy now s cs)"
    "\<forall>q. provider_state s' q = provider_state s q"
proof (cases "cs = []")
  case True
  with that [of "[]" "[]" seq s] show thesis
    by (simp add: orderCandidates_def open_candidates_def last_resort_def opt_list_def)
next
  case False
  define s2 where "s2 = snd (lookupStickyProviderLocked now' model key (cleanupExpiredStickyLocked now s))"
  have look: "lookupStickyProviderLocked now' model key (cleanupExpiredStickyLocked now s) = (sticky, s2)"
    by (simp add: sticky_def s2_def bound_provider_def)
  have ps: "provider_state s2 q = provider_state s q" for q by (simp add: s2_def)
  have groups: "open_candidates policy now s2 cs = open_candidates policy now s cs"
    "last_resort policy now s2 cs = last_resort policy now s cs"
    by (simp_all add: open_candidates_def last_resort_def gate_of_def ps)
  obtain s3 acc where f: "fold (order_step sticky policy now) cs
      (s2, \<lparr>oa_preferred = None, oa_fallback = None, oa_available = [], oa_passthrough = []\<rparr>) = (s3, acc)"
    by fastforce
  note acc = order_fold [OF assms(3), of sticky policy now s2, unfolded f groups Let_def, simplified]
  obtain av seq1 where av: "orderProviderCandidates (oa_available acc) seq = (av, seq1)" by fastforce
  obtain pt seq2 where pt: "orderProviderCandidates (oa_passthrough acc) seq1 = (pt, seq2)" by fastforce
  have "distinct (map pcd_id (oa_available acc))" "distinct (map pcd_id (oa_passthrough acc))"
    using assms(3) acc by (simp_all add: open_candidates_def last_resort_def distinct_map_filter)
  then have m: "mset av = mset (oa_available acc)" "mset pt = mset (oa_passthrough acc)"
    using order_laws(4) [of "oa_available acc" seq] order_laws(4) [of "oa_passthrough acc" seq1] av pt by simp_all
  have d: "distinct (map pcd_id (open_candidates policy now s cs))" "distinct (map pcd_id (last_resort policy now s cs))"
    using assms(3) by (simp_all add: open_candidates_def last_resort_def distinct_map_filter)
  have res: "orderCandidates now now' (Some snap) model key cs seq s =
      (opt_list (oa_preferred acc) @ av @ opt_list (oa_fallback acc) @ pt, seq2, s3)"
    using False by (simp add: orderCandidates_def look policy_def [symmetric] f av pt)
  show thesis
  proof (rule that [of av pt seq2 s3])
    show "orderCandidates now now' (Some snap) model key cs seq s =
       (opt_list (find (\<lambda>c. sticky = Some (pcd_id c)) (open_candidates policy now s cs)) @ av @
        opt_list (find (\<lambda>c. sticky = Some (pcd_id c)) (last_resort policy now s cs)) @ pt, seq2, s3)"
      using acc by (simp add: res)
    show "mset (opt_list (find (\<lambda>c. sticky = Some (pcd_id c)) (open_candidates policy now s cs)) @ av)
       = mset (open_candidates policy now s cs)"
      using find_split_mset [OF d(1), of sticky] m(1) acc by simp
    show "mset (opt_list (find (\<lambda>c. sticky = Some (pcd_id c)) (last_resort policy now s cs)) @ pt)
       = mset (last_resort policy now s cs)"
      using find_split_mset [OF d(2), of sticky] m(2) acc by simp
    show "\<forall>q. provider_state s3 q = provider_state s q" using acc ps by simp
  qed
qed

text \<open>A binding that has not expired is found.\<close>

lemma bound_after_remember:
  assumes "ssc_Enabled (rp_StickySessions (snap_RoutingPolicy snap))" "key \<noteq> []" "p \<noteq> []"
    "0 < ssc_TTLSec (rp_StickySessions (snap_RoutingPolicy snap))"
    "now \<le> t + i64 (ssc_TTLSec (rp_StickySessions (snap_RoutingPolicy snap)) * second)"
    "now' \<le> t + i64 (ssc_TTLSec (rp_StickySessions (snap_RoutingPolicy snap)) * second)"
  shows "bound_provider now now' model key (rememberSticky t model key p snap s) = Some p"
  using assms
  by (simp add: bound_provider_def lookupStickyProviderLocked_def cleanupExpiredStickyLocked_def
      rememberSticky_def Let_def sticky_expired_def)

lemma rememberSticky_frame [simp]:
  "provider_state (rememberSticky t model key p snap s) q = provider_state s q"
  by (simp add: provider_state_def rememberSticky_def Let_def)

section \<open>Histories of one provider\<close>

text \<open>A report of an attempt: its time, status, latency and transport error.\<close>

type_synonym attempt_report = "gotime \<times> goint \<times> duration \<times> string option"

definition apply_report :: "string \<Rightarrow> attempt_report \<Rightarrow> RuntimeState \<Rightarrow> RuntimeState" where
  "apply_report p = (\<lambda>(now, status, latency, err). reportAttemptResult now p status latency err)"

definition failed :: "attempt_report \<Rightarrow> bool" where
  "failed = (\<lambda>(now, status, latency, err). isProviderFailure status err)"

abbreviation report_time :: "attempt_report \<Rightarrow> gotime" where "report_time \<equiv> fst"
abbreviation report_status :: "attempt_report \<Rightarrow> goint" where "report_status r \<equiv> fst (snd r)"

text \<open>The failures since the last success, the latest first.\<close>

definition recent_failures :: "attempt_report list \<Rightarrow> attempt_report list" where
  "recent_failures reports = takeWhile failed (rev reports)"

lemma report_state:
  assumes "trim_space p \<noteq> []" "rs_providers s p = None" "int (length reports) \<le> max_i64"
  shows "let st = provider_state (fold (apply_report p) reports s) p; fs = recent_failures reports;
             qs = filter (\<lambda>r. report_status r = 429) fs in
    pst_consecutiveFailures st = int (length fs) \<and>
    (fs \<noteq> [] \<longrightarrow> pst_lastFailure st = report_time (hd fs)) \<and>
    pst_quotaBlockedAt st = (if qs = [] then 0 else report_time (hd qs))"
  using assms(3)
proof (induction reports rule: rev_induct)
  case Nil
  then show ?case using assms(2) by (simp add: provider_state_def fresh_provider_def recent_failures_def)
next
  case (snoc r reports)
  obtain now status latency err where r: "r = (now, status, latency, err)" by (cases r)
  have len: "length (recent_failures reports) \<le> length reports"
    using length_takeWhile_le [of failed "rev reports"] by (simp add: recent_failures_def)
  have wrap: "i64 (int (length (recent_failures reports)) + 1) = int (length (recent_failures reports)) + 1"
    using snoc.prems len by (intro i64_id) (simp_all add: min_i64_def)
  show ?case
    using snoc wrap assms(1)
    by (auto simp: Let_def recent_failures_def failed_def r apply_report_def reportAttemptResult_def
        provider_state_def)
qed

lemma find_head:
  assumes "find P xs = Some x"
  shows "hd (opt_list (find P xs) @ ys) = x"
  using assms by (simp add: opt_list_def)

lemma find_unique:
  assumes "distinct (map pcd_id xs)" "c \<in> set xs" "sticky = Some (pcd_id c)"
  shows "find (\<lambda>c. sticky = Some (pcd_id c)) xs = Some c"
  using assms
proof (induction xs)
  case (Cons x xs)
  show ?case
  proof (cases "pcd_id x = pcd_id c")
    case True
    then have "c \<notin> set xs" using Cons.prems(1) by force
    then have "c = x" using Cons.prems(2) by simp
    with assms(3) show ?thesis by simp
  next
    case False
    then have "c \<in> set xs" using Cons.prems(2) by auto
    with Cons False show ?thesis by simp
  qed
qed simp

text \<open>The health report, provider by provider.\<close>

lemma i64_add_left [simp]: "i64 (i64 a + b) = i64 (a + b)"
  by (simp add: i64_def mod_simps algebra_simps)

definition upstream_group :: "ProviderSnapshot list \<Rightarrow> string \<Rightarrow> ProviderSnapshot list" where
  "upstream_group ps u = filter (\<lambda>p. health_upstream p = u) ps"

lemma upstream_group_snoc [simp]:
  "upstream_group (ps @ [p]) u = upstream_group ps u @ (if health_upstream p = u then [p] else [])"
  by (simp add: upstream_group_def)

definition provider_blocked :: "FailurePolicy \<Rightarrow> gotime \<Rightarrow> RuntimeState \<Rightarrow> ProviderSnapshot \<Rightarrow> bool" where
  "provider_blocked policy now s p \<longleftrightarrow>
     gs_blocked (providerGateStateFromLocked (provider_state s (ps_ProviderID p)) policy now)"

text \<open>What the health report says of one upstream, given the providers of the upstream.\<close>

definition health_of_group ::
  "FailurePolicy \<Rightarrow> gotime \<Rightarrow> RuntimeState \<Rightarrow> ProviderSnapshot list \<Rightarrow> ProviderHealth option \<Rightarrow> bool" where
  "health_of_group policy now s grp entry \<longleftrightarrow>
     (case entry of
        None \<Rightarrow> grp = []
      | Some h \<Rightarrow> grp \<noteq> [] \<and> ph_ProviderIDs h = map ps_ProviderID grp \<and>
          ph_Healthy h = list_all (\<lambda>p. \<not> provider_blocked policy now s p) grp \<and>
          ph_ConsecutiveFailures h =
            i64 (\<Sum>p \<leftarrow> grp. pst_consecutiveFailures (provider_state s (ps_ProviderID p))))"

lemma health_of_group_step:
  assumes "\<And>q. provider_state s' q = provider_state s q"
    and "health_of_group policy now s (upstream_group ps u) (health u)"
  shows "health_of_group policy now s (upstream_group (ps @ [p]) u)
    (snd (health_step policy now p (s', health)) u)"
proof (cases "health_upstream p = u")
  case False
  with assms show ?thesis by (simp add: health_step_def Let_def)
next
  case True
  show ?thesis
  proof (cases "health u")
    case None
    with assms True show ?thesis
      by (simp add: health_step_def Let_def health_of_group_def health_entry_def provider_blocked_def)
  next
    case (Some h)
    with assms True show ?thesis
      by (simp add: health_step_def Let_def health_of_group_def provider_blocked_def)
  qed
qed

lemma health_fold:
  "(\<forall>q. provider_state (fst (fold (health_step policy now) ps (s, \<lambda>k. None))) q = provider_state s q) \<and>
   (\<forall>u. health_of_group policy now s (upstream_group ps u)
      (snd (fold (health_step policy now) ps (s, \<lambda>k. None)) u))"
proof (induction ps rule: rev_induct)
  case Nil
  then show ?case by (simp add: health_of_group_def upstream_group_def)
next
  case (snoc p ps)
  obtain s' health where f: "fold (health_step policy now) ps (s, \<lambda>k. None) = (s', health)" by fastforce
  have step: "fold (health_step policy now) (ps @ [p]) (s, \<lambda>k. None) = health_step policy now p (s', health)"
    by (simp add: f)
  have "provider_state (fst (health_step policy now p (s', health))) q = provider_state s' q" for q
    by (simp add: health_step_def Let_def)
  with snoc health_of_group_step [of s' s policy now ps _ health p] show ?case
    unfolding step f by simp
qed

section \<open>Lemmas on applying a snapshot\<close>

lemma ensured_fold:
  "fold (\<lambda>p m. if m (ps_ProviderID p) = None then m(ps_ProviderID p \<mapsto> fresh_provider) else m) ps m k =
     (if m k \<noteq> None then m k else if k \<in> ps_ProviderID ` set ps then Some fresh_provider else None)"
proof (induction ps arbitrary: m)
  case (Cons p ps)
  show ?case
    unfolding fold_Cons o_apply Cons.IH by auto
qed simp

lemma rotators_fold:
  "fold (\<lambda>p m. if ps_APIKeys p \<noteq> [] then m(ps_ProviderID p \<mapsto> NewKeyRotator (Some p)) else m) ps m k \<noteq> None
     \<longleftrightarrow> m k \<noteq> None \<or> (\<exists>p \<in> set ps. ps_APIKeys p \<noteq> [] \<and> ps_ProviderID p = k)"
proof (induction ps arbitrary: m)
  case (Cons p ps)
  show ?case
    unfolding fold_Cons o_apply Cons.IH by auto
qed simp

lemma limiters_fold_dom:
  "fold apply_limiter (zip ts ps) m k \<noteq> None \<longleftrightarrow>
     m k \<noteq> None \<or> (\<exists>(t, p) \<in> set (zip ts ps). limited p \<and> upstreamRateLimitKey p = k)"
proof (induction ps arbitrary: m ts)
  case (Cons p ps)
  show ?case
  proof (cases ts)
    case (Cons t ts')
    have "apply_limiter (t, p) m k \<noteq> None \<longleftrightarrow> m k \<noteq> None \<or> limited p \<and> upstreamRateLimitKey p = k"
      by (simp add: apply_limiter_def)
    then show ?thesis
      unfolding Cons zip_Cons_Cons fold_Cons o_apply Cons.IH by auto
  qed simp
qed simp

text \<open>A limiter is kept when every provider that shares it still asks for its limits.\<close>

lemma limiters_fold_kept:
  assumes "m k = Some l"
    and "\<forall>p \<in> set ps. limited p \<and> upstreamRateLimitKey p = k \<longrightarrow>
      upstream_matches l (ep_RateLimit (ps_ExecutionPolicy p))"
  shows "fold apply_limiter (zip ts ps) m k = Some l"
  using assms
proof (induction ps arbitrary: m ts)
  case (Cons p ps)
  show ?case
  proof (cases ts)
    case (Cons t ts')
    have "apply_limiter (t, p) m k = Some l"
      using Cons.prems by (auto simp: apply_limiter_def limiter_for_def Let_def)
    then show ?thesis
      unfolding Cons zip_Cons_Cons fold_Cons o_apply using Cons.IH Cons.prems(2) by simp
  qed (use Cons.prems in simp)
qed simp

lemma applyQueueConfig_frame:
  assumes "applyQueueConfigLocked snap s = Some s'"
  shows "rs_providers s' = rs_providers s \<and> rs_sticky s' = rs_sticky s \<and>
    rs_keyRotators s' = rs_keyRotators s \<and> rs_upstreamRateLimiters s' = rs_upstreamRateLimiters s"
  using assms
  by (auto simp: applyQueueConfigLocked_def Let_def split: if_splits option.splits)

section \<open>States for the witnesses\<close>

definition demo_policy :: FailurePolicy where
  "demo_policy = \<lparr>fp_Threshold = 2, fp_CooldownSec = 30, fp_PassthroughAfterSec = 10,
     fp_QuotaRecoveryIntervalMin = 60, fp_DisableCooldown = False\<rparr>"

definition demo_runtime_snapshot :: Snapshot where
  "demo_runtime_snapshot = demo_snapshot\<lparr>
     snap_Providers := [pcd_provider (demo_candidate ''a'' 1), pcd_provider (demo_candidate ''b'' 2)],
     snap_RoutingPolicy := (snap_RoutingPolicy demo_snapshot)\<lparr>rp_FailurePolicy := demo_policy,
       rp_StickySessions := \<lparr>ssc_Enabled = True, ssc_TTLSec = 60\<rparr>, rp_Queue := no_queue\<rparr>\<rparr>"

lemma demo_runtime_policy [simp]:
  "rp_FailurePolicy (snap_RoutingPolicy demo_runtime_snapshot) = demo_policy"
  "rp_StickySessions (snap_RoutingPolicy demo_runtime_snapshot) = \<lparr>ssc_Enabled = True, ssc_TTLSec = 60\<rparr>"
  by (simp_all add: demo_runtime_snapshot_def)

section \<open>Properties\<close>



text \<open>
  Sessions are sticky: after a request of a session was served by a provider, a later request of
  the session for the same model tries that provider first, as long as the time to live has not
  passed, the provider is still a candidate and its gate is open.
\<close>

theorem sticky_session_first:
  assumes "ssc_Enabled (rp_StickySessions (snap_RoutingPolicy snap))" "key \<noteq> []" "pcd_id c \<noteq> []"
    and "0 < ssc_TTLSec (rp_StickySessions (snap_RoutingPolicy snap))"
    and "now \<le> now'" "now' \<le> t + i64 (ssc_TTLSec (rp_StickySessions (snap_RoutingPolicy snap)) * second)"
    and "distinct (map pcd_id cs)" "c \<in> set cs"
    and "\<not> gs_blocked (gate_of (rp_FailurePolicy (snap_RoutingPolicy snap)) now s c)"
  shows "hd (fst (orderCandidates now now' (Some snap) model key cs seq
    (rememberSticky t model key (pcd_id c) snap s))) = c"
proof -
  let ?s = "rememberSticky t model key (pcd_id c) snap s"
  let ?policy = "rp_FailurePolicy (snap_RoutingPolicy snap)"
  have bound: "bound_provider now now' model key ?s = Some (pcd_id c)"
    using assms by (intro bound_after_remember) simp_all
  have c: "c \<in> set (open_candidates ?policy now ?s cs)"
    using assms(8,9) by (simp add: open_candidates_def gate_of_def)
  have d: "distinct (map pcd_id (open_candidates ?policy now ?s cs))"
    using assms(7) by (simp add: open_candidates_def distinct_map_filter)
  obtain av bs seq' s' where "orderCandidates now now' (Some snap) model key cs seq ?s =
      (opt_list (find (\<lambda>d. Some (pcd_id c) = Some (pcd_id d)) (open_candidates ?policy now ?s cs)) @ av @ bs, seq', s')"
    using orderCandidates_groups [OF assms(7), of now now' snap model key seq ?s] unfolding bound by metis
  then show ?thesis
    using find_unique [OF d c refl] by (simp add: opt_list_def)
qed

theorem sticky_session_first_witness:
  "hd (fst (orderCandidates 50 60 (Some demo_runtime_snapshot) ''m'' ''session''
     [demo_candidate ''a'' 9, demo_candidate ''b'' 1] 0
     (rememberSticky 5 ''m'' ''session'' ''b'' demo_runtime_snapshot NewRuntimeState))) = demo_candidate ''b'' 1"
proof -
  have "\<not> gs_blocked (gate_of demo_policy 50 NewRuntimeState (demo_candidate ''b'' 1))"
    by (simp add: gate_of_def gate_blocked circuit_until_def quota_until_def holds_until_def
        NewRuntimeState_def provider_state_def fresh_provider_def)
  then show ?thesis
    using sticky_session_first [of demo_runtime_snapshot "''session''" "demo_candidate ''b'' 1" 50 60 5
        "[demo_candidate ''a'' 9, demo_candidate ''b'' 1]" NewRuntimeState "''m''" 0]
    by (simp add: second_def i64_id min_i64_def max_i64_def)
qed

text \<open>
  A blocked provider comes back: the gate reports a time after now, stays blocked until that
  time, and is open from that time on as long as nothing is reported.
\<close>

theorem gate_reopens:
  assumes "0 \<le> now" "gs_blocked (providerGateStateFromLocked st policy now)"
  shows "let until = gs_cooldownUntil (providerGateStateFromLocked st policy now) in
    now < until \<and>
    (\<forall>t. now \<le> t \<longrightarrow> (gs_blocked (providerGateStateFromLocked st policy t) \<longleftrightarrow> t < until))"
  using assms
  by (auto simp: Let_def gate_cooldownUntil gate_blocked holds_until_def split: option.splits if_splits)

theorem gate_reopens_witness:
  "\<not> gs_blocked (providerGateStateFromLocked
     (fresh_provider\<lparr>pst_lastFailure := 5, pst_consecutiveFailures := 3\<rparr>) demo_policy 30000000005)"
proof -
  let ?st = "fresh_provider\<lparr>pst_lastFailure := 5, pst_consecutiveFailures := 3\<rparr>"
  let ?g = "providerGateStateFromLocked ?st demo_policy 6"
  have "gs_blocked ?g \<and> gs_cooldownUntil ?g = 30000000005" by code_simp
  with gate_reopens [of 6 ?st demo_policy] show ?thesis by (auto simp: Let_def)
qed

text \<open>
  C2 The circuit breaker counts the failures since the last success. With none the gate is open;
  from the threshold on it is closed for the cooldown after the last of them; below the threshold,
  and without an exhausted quota (status 429) among them, it is open.
\<close>

theorem circuit_breaker:
  assumes "trim_space p \<noteq> []" "rs_providers s p = None" "int (length reports) \<le> max_i64"
    and "\<forall>r \<in> set reports. 0 < report_time r"
    and "\<not> fp_DisableCooldown policy" "0 < fp_Threshold policy" "0 < fp_CooldownSec policy"
    and "fp_CooldownSec policy * second \<le> max_i64"
  shows "let fs = recent_failures reports;
             gate = providerGateStateFromLocked (provider_state (fold (apply_report p) reports s) p) policy now in
    (fs = [] \<longrightarrow> \<not> gs_blocked gate) \<and>
    (fp_Threshold policy \<le> int (length fs) \<and> now < report_time (hd fs) + fp_CooldownSec policy * second
       \<longrightarrow> gs_blocked gate) \<and>
    (int (length fs) < fp_Threshold policy \<and> (\<forall>r \<in> set fs. report_status r \<noteq> 429) \<longrightarrow> \<not> gs_blocked gate)"
proof -
  let ?st = "provider_state (fold (apply_report p) reports s) p" and ?fs = "recent_failures reports"
  note st = report_state [OF assms(1-3), unfolded Let_def]
  have fs: "set ?fs \<subseteq> set reports"
    by (auto simp: recent_failures_def dest: set_takeWhileD)
  have wrap: "i64 (fp_CooldownSec policy * second) = fp_CooldownSec policy * second"
    using assms(7,8) by (intro i64_id) (simp_all add: min_i64_def second_def)
  have quota: "quota_until ?st policy = None" if "\<forall>r \<in> set ?fs. report_status r \<noteq> 429"
    using st that by (simp add: quota_until_def filter_empty_conv)
  have "circuit_until ?st policy = Some (report_time (hd ?fs) + fp_CooldownSec policy * second)"
    if "fp_Threshold policy \<le> int (length ?fs)"
  proof -
    have "?fs \<noteq> []" using that assms(6) by auto
    then have "hd ?fs \<in> set reports" using fs by auto
    then have "0 < report_time (hd ?fs)" using assms(4) by blast
    with st that assms(6,7) \<open>?fs \<noteq> []\<close> show ?thesis by (simp add: circuit_until_def wrap)
  qed
  moreover have "circuit_until ?st policy = None" if "int (length ?fs) < fp_Threshold policy"
    using st that by (simp add: circuit_until_def)
  ultimately show ?thesis
    using assms(5,6) quota by (auto simp: Let_def gate_blocked holds_until_def)
qed

theorem circuit_breaker_witness:
  "gs_blocked (providerGateStateFromLocked (provider_state
     (fold (apply_report ''a'') [(1, 500, 0, None), (2, 200, 0, None), (3, 500, 0, None), (4, 0, 0, Some ''eof'')]
       NewRuntimeState) ''a'') demo_policy 30000000003)"
proof -
  let ?rs = "[(1, 500, 0, None), (2, 200, 0, None), (3, 500, 0, None), (4, 0, 0, Some ''eof'')] :: attempt_report list"
  have rf: "recent_failures ?rs = [(4, 0, 0, Some ''eof''), (3, 500, 0, None)]"
    by (simp add: recent_failures_def failed_def isProviderFailure_def)
  have ts: "trim_space ''a'' \<noteq> []" by code_simp
  show ?thesis
    using circuit_breaker [OF ts, of NewRuntimeState ?rs demo_policy 30000000003, unfolded Let_def rf]
    by (simp add: NewRuntimeState_def demo_policy_def second_def max_i64_def)
qed

text \<open>
  Health is reported per upstream: an upstream has an entry exactly if a provider of the snapshot
  belongs to it; the entry lists those providers in order, is healthy exactly if the gate of none of
  them is closed, and its failures are the sum of theirs. Asking for the report changes no provider.
\<close>

theorem ProviderHealthSnapshot_exact:
  "let (health, s') = ProviderHealthSnapshot now snap s in
    (\<forall>u. health_of_group (rp_FailurePolicy (snap_RoutingPolicy snap)) now s
       (upstream_group (snap_Providers snap) u) (health u)) \<and>
    (\<forall>q. provider_state s' q = provider_state s q)"
proof -
  let ?policy = "rp_FailurePolicy (snap_RoutingPolicy snap)" and ?s = "cleanupExpiredStickyLocked now s"
  have "health_of_group ?policy now ?s grp h = health_of_group ?policy now s grp h" for grp h
    by (simp add: health_of_group_def provider_blocked_def split: option.split)
  then show ?thesis
    using health_fold [of ?policy now "snap_Providers snap" ?s]
    by (simp add: ProviderHealthSnapshot_def split_def Let_def)
qed

text \<open>
  C14 Applying a snapshot keeps what is still valid and drops the rest: afterwards there is a state
  for exactly the snapshot's providers, with the circuit breaker as it was; a session stays bound if
  its provider is still there; every provider with several keys has a rotator; and the limiter of an
  upstream survives if every provider that shares it still asks for the same limits.
\<close>

theorem ApplySnapshot_keeps_live_state:
  assumes "RuntimeState_ApplySnapshot clock (Some snap) s = Some s'"
  shows "dom (rs_providers s') = ps_ProviderID ` set (snap_Providers snap) \<and>
    (\<forall>p \<in> set (snap_Providers snap). provider_state s' (ps_ProviderID p) = provider_state s (ps_ProviderID p)) \<and>
    (\<forall>k b. rs_sticky s' k = Some b \<longleftrightarrow>
       rs_sticky s k = Some b \<and> sb_providerID b \<in> ps_ProviderID ` set (snap_Providers snap)) \<and>
    dom (rs_keyRotators s') = ps_ProviderID ` {p \<in> set (snap_Providers snap). ps_APIKeys p \<noteq> []} \<and>
    dom (rs_upstreamRateLimiters s') = upstreamRateLimitKey ` {p \<in> set (snap_Providers snap). limited p} \<and>
    (\<forall>k l. k \<in> dom (rs_upstreamRateLimiters s') \<and> rs_upstreamRateLimiters s k = Some l \<and>
       (\<forall>p \<in> set (snap_Providers snap). limited p \<and> upstreamRateLimitKey p = k \<longrightarrow>
          upstream_matches l (ep_RateLimit (ps_ExecutionPolicy p)))
       \<longrightarrow> rs_upstreamRateLimiters s' k = Some l)"
proof -
  let ?ps = "snap_Providers snap" and ?ts = "map clock [0..<length (snap_Providers snap)]"
  note frame = applyQueueConfig_frame [OF assms [unfolded RuntimeState_ApplySnapshot_def Let_def option.case]]
  have providers: "rs_providers s' k = (if k \<in> ps_ProviderID ` set ?ps
      then Some (provider_state s k) else None)" for k
    using frame by (simp add: ensured_fold provider_state_def split: option.split)
  have sticky: "rs_sticky s' k = (case rs_sticky s k of None \<Rightarrow> None
      | Some b \<Rightarrow> if sb_providerID b \<in> ps_ProviderID ` set ?ps then Some b else None)" for k
    using frame by (simp split: option.split)
  have rotators: "rs_keyRotators s' k \<noteq> None \<longleftrightarrow> (\<exists>p \<in> set ?ps. ps_APIKeys p \<noteq> [] \<and> ps_ProviderID p = k)" for k
    using frame rotators_fold [of ?ps "\<lambda>k. None" k] by simp
  have limiters: "rs_upstreamRateLimiters s' k = (if k \<in> upstreamRateLimitKey ` {p \<in> set ?ps. limited p}
      then fold apply_limiter (zip ?ts ?ps) (rs_upstreamRateLimiters s) k else None)" for k
    using frame by auto
  have made: "fold apply_limiter (zip ?ts ?ps) (rs_upstreamRateLimiters s) k \<noteq> None"
    if "k \<in> upstreamRateLimitKey ` {p \<in> set ?ps. limited p}" for k
  proof -
    from that obtain p where "p \<in> set ?ps" "limited p" "upstreamRateLimitKey p = k" by auto
    moreover from this(1) obtain t where "(t, p) \<in> set (zip ?ts ?ps)"
      by (metis in_set_impl_in_set_zip2 length_map length_upt minus_nat.diff_0)
    ultimately show ?thesis unfolding limiters_fold_dom by auto
  qed
  show ?thesis
  proof (intro conjI)
    show "dom (rs_providers s') = ps_ProviderID ` set ?ps" by (auto simp: dom_def providers)
    show "\<forall>p \<in> set ?ps. provider_state s' (ps_ProviderID p) = provider_state s (ps_ProviderID p)"
      by (simp add: provider_state_def [of s'] providers)
    show "\<forall>k b. rs_sticky s' k = Some b \<longleftrightarrow> rs_sticky s k = Some b \<and> sb_providerID b \<in> ps_ProviderID ` set ?ps"
      by (auto simp: sticky split: option.splits)
    show "dom (rs_keyRotators s') = ps_ProviderID ` {p \<in> set ?ps. ps_APIKeys p \<noteq> []}"
      using rotators by (auto simp: dom_def)
    show "dom (rs_upstreamRateLimiters s') = upstreamRateLimitKey ` {p \<in> set ?ps. limited p}"
      using made by (auto simp: dom_def limiters simp del: mem_Collect_eq split: if_splits)
    show "\<forall>k l. k \<in> dom (rs_upstreamRateLimiters s') \<and> rs_upstreamRateLimiters s k = Some l \<and>
       (\<forall>p \<in> set ?ps. limited p \<and> upstreamRateLimitKey p = k \<longrightarrow>
          upstream_matches l (ep_RateLimit (ps_ExecutionPolicy p)))
       \<longrightarrow> rs_upstreamRateLimiters s' k = Some l"
      using limiters_fold_kept [of "rs_upstreamRateLimiters s"] by (auto simp: limiters split: if_splits)
  qed
qed

theorem ApplySnapshot_keeps_live_state_witness:
  "\<exists>s'. RuntimeState_ApplySnapshot (\<lambda>i. 9) (Some demo_runtime_snapshot)
      (rememberSticky 5 ''m'' ''one'' ''gone'' demo_runtime_snapshot
        (rememberSticky 5 ''m'' ''session'' ''b'' demo_runtime_snapshot NewRuntimeState)) = Some s' \<and>
    rs_sticky s' (stickyBindingKey ''m'' ''session'') \<noteq> None \<and>
    rs_sticky s' (stickyBindingKey ''m'' ''one'') = None \<and> dom (rs_providers s') = {''a'', ''b''}"
proof -
  let ?s = "rememberSticky 5 ''m'' ''one'' ''gone'' demo_runtime_snapshot
    (rememberSticky 5 ''m'' ''session'' ''b'' demo_runtime_snapshot NewRuntimeState)"
  have ps: "ps_ProviderID ` set (snap_Providers demo_runtime_snapshot) = {''a'', ''b''}"
    by (simp add: demo_runtime_snapshot_def demo_candidate_def)
  have "RuntimeState_ApplySnapshot (\<lambda>i. 9) (Some demo_runtime_snapshot) ?s \<noteq> None"
    by (simp add: RuntimeState_ApplySnapshot_def applyQueueConfigLocked_def demo_runtime_snapshot_def no_queue_def Let_def)
  then obtain s' where s': "RuntimeState_ApplySnapshot (\<lambda>i. 9) (Some demo_runtime_snapshot) ?s = Some s'" by blast
  note kept = ApplySnapshot_keeps_live_state [OF s', unfolded ps]
  have bound: "rs_sticky ?s (stickyBindingKey ''m'' ''session'') =
      Some \<lparr>sb_providerID = ''b'', sb_expiresAt = 60000000005\<rparr>"
    "rs_sticky ?s (stickyBindingKey ''m'' ''one'') = Some \<lparr>sb_providerID = ''gone'', sb_expiresAt = 60000000005\<rparr>"
    by (simp_all add: rememberSticky_def stickyBindingKey_def second_def min_i64_def max_i64_def)
  have dom: "dom (rs_providers s') = {''a'', ''b''}" by (rule kept [THEN conjunct1])
  have sticky: "rs_sticky s' k = Some b \<longleftrightarrow> rs_sticky ?s k = Some b \<and> sb_providerID b \<in> {''a'', ''b''}" for k b
    using kept [THEN conjunct2, THEN conjunct2, THEN conjunct1] by blast
  have "rs_sticky s' (stickyBindingKey ''m'' ''session'') = Some \<lparr>sb_providerID = ''b'', sb_expiresAt = 60000000005\<rparr>"
    unfolding sticky bound by simp
  moreover have "rs_sticky s' (stickyBindingKey ''m'' ''one'') \<noteq> Some b" for b
    unfolding sticky bound by auto
  ultimately show ?thesis using s' dom by (metis option.exhaust option.distinct(1))
qed

end
