(* ===== verification/Upstream_Forward.thy ===== *)
theory Upstream_Forward
  imports Runtime_State Streaming
begin

text \<open>
  One request to an upstream: \<open>forwardToUpstream\<close> of \<open>internal/gateway/api/forward.go\<close>. The clock, the
  timers, the caller's context, the network and the SSRF checker (an interface of the source) are
  the fields of \<open>world\<close>, each a step of the world's state. The state of a request is the runtime
  state, the counter of the candidate order and the world, with the requests that were sent.
\<close>

section \<open>Requests, responses and the world\<close>

record HttpRequest =
  hr_URL :: string
  hr_Header :: "string \<Rightarrow> string option"
  hr_Body :: string
  hr_timeout :: "duration option"

text \<open>
  The outcome of a request: the error of the client with whether its context has ended or its
  deadline passed, or status, content type, body and the error that reading the body ends with.
\<close>

datatype HttpOutcome =
    HttpError string bool
  | HttpResponse goint string string "string option"

record 'w world =
  wo_now :: "'w \<Rightarrow> gotime \<times> 'w"
  wo_wait :: "duration option \<Rightarrow> duration \<Rightarrow> 'w \<Rightarrow> string option \<times> 'w"
  wo_ctx_err :: "'w \<Rightarrow> string option \<times> 'w"
  wo_validate :: "string \<Rightarrow> 'w \<Rightarrow> string option \<times> 'w"
  wo_url_error :: "string \<Rightarrow> string option"
  wo_do :: "HttpRequest \<Rightarrow> 'w \<Rightarrow> HttpOutcome \<times> 'w"

record 'w gateway =
  gw_runtime :: "RuntimeState option"
  gw_sequence :: "64 word"
  gw_world :: 'w
  gw_sent :: "HttpRequest list"

definition now_of :: "'w world \<Rightarrow> 'w gateway \<Rightarrow> gotime \<times> 'w gateway" where
  "now_of wo g = (let (t, w) = wo_now wo (gw_world g) in (t, g\<lparr>gw_world := w\<rparr>))"

definition ctx_err :: "'w world \<Rightarrow> 'w gateway \<Rightarrow> string option \<times> 'w gateway" where
  "ctx_err wo g = (let (e, w) = wo_ctx_err wo (gw_world g) in (e, g\<lparr>gw_world := w\<rparr>))"

record forward_result =
  fr_status :: goint
  fr_body :: string
  fr_stream :: "stream_body option"
  fr_contentType :: string
  fr_latency :: duration
  fr_err :: "string option"

definition forward_failed :: "goint \<Rightarrow> duration \<Rightarrow> string \<Rightarrow> forward_result" where
  "forward_failed status latency err = \<lparr>fr_status = status, fr_body = [], fr_stream = None,
     fr_contentType = [], fr_latency = latency, fr_err = Some err\<rparr>"

section \<open>The headers\<close>

text \<open>\<open>textproto.CanonicalMIMEHeaderKey\<close>, under which \<open>Header.Set\<close> stores a value.\<close>

definition in_range :: "nat \<Rightarrow> nat \<Rightarrow> char \<Rightarrow> bool" where
  "in_range lo hi c \<longleftrightarrow> lo \<le> of_char c \<and> of_char c \<le> hi"

definition token_char :: "char \<Rightarrow> bool" where
  "token_char c \<longleftrightarrow> in_range 97 122 c \<or> in_range 65 90 c \<or> in_range 48 57 c \<or>
     List.member (''!#$%&'' @ [CHR 0x27] @ ''*+-.^_`|~'') c"

fun canonical_from :: "bool \<Rightarrow> string \<Rightarrow> string" where
  "canonical_from start [] = []"
| "canonical_from start (c # cs) =
     (if start then upper_char c else lower_char c) # canonical_from (c = CHR ''-'') cs"

definition canonical_key :: "string \<Rightarrow> string" where
  "canonical_key k = (if list_all token_char k then canonical_from True k else k)"

definition Header_Set :: "string \<Rightarrow> string \<Rightarrow> (string \<Rightarrow> string option) \<Rightarrow> string \<Rightarrow> string option" where
  "Header_Set k v h = h(canonical_key k \<mapsto> v)"

definition key_header :: "Credentials \<Rightarrow> string \<Rightarrow> string" where
  "key_header cred v = (if cred_HeaderName cred = [] then ''x-api-key'' else cred_HeaderName cred)"

text \<open>The rotating key if there is one, and the static credentials otherwise.\<close>

definition set_credentials ::
  "Credentials \<Rightarrow> string \<Rightarrow> (string \<Rightarrow> string option) \<Rightarrow> string \<Rightarrow> string option" where
  "set_credentials cred rotatingKey h =
     (if rotatingKey \<noteq> [] then
        if cred_Kind cred = ''bearer'' then Header_Set ''Authorization'' (''Bearer '' @ rotatingKey) h
        else Header_Set (key_header cred rotatingKey) rotatingKey h
      else if cred_Kind cred = ''bearer'' \<and> cred_Value cred \<noteq> []
        then Header_Set ''Authorization'' (''Bearer '' @ cred_Value cred) h
      else if cred_Kind cred = ''api_key'' \<and> cred_Value cred \<noteq> []
        then Header_Set (key_header cred (cred_Value cred)) (cred_Value cred) h
      else h)"

definition request_header ::
  "ProviderSnapshot \<Rightarrow> string \<Rightarrow> bool \<Rightarrow> string \<Rightarrow> string \<Rightarrow> string option" where
  "request_header p rotatingKey isAnthropic userAgent =
     (let h1 = Header_Set ''Content-Type'' ''application/json'' (\<lambda>k. None);
          h2 = set_credentials (ps_Credentials p) rotatingKey h1;
          h3 = fold (\<lambda>(k, v). Header_Set k v) (ps_Headers p) h2;
          h4 = (if isAnthropic then Header_Set ''anthropic-version'' ''2023-06-01'' h3 else h3)
      in if userAgent \<noteq> [] then Header_Set ''User-Agent'' userAgent h4 else h4)"

section \<open>Waiting for the upstream's rate limit\<close>

definition wait_for_slot ::
  "'w world \<Rightarrow> ProviderSnapshot \<Rightarrow> duration option \<Rightarrow> 'w gateway \<Rightarrow> string option \<times> 'w gateway" where
  "wait_for_slot wo p timeout g =
     (case gw_runtime g of
        None \<Rightarrow> (None, g)
      | Some s \<Rightarrow>
          if \<not> limited p then (None, g)
          else
            let (now, g1) = now_of wo g; (now', g2) = now_of wo g1;
                (delay, s') = WaitForUpstreamSlot now now' p s;
                g3 = g2\<lparr>gw_runtime := Some s'\<rparr>
            in if delay \<le> 0 then (None, g3)
               else (let (e, w) = wo_wait wo timeout delay (gw_world g3) in (e, g3\<lparr>gw_world := w\<rparr>)))"

section \<open>The request\<close>

definition upstream_url :: "ProviderSnapshot \<Rightarrow> string \<Rightarrow> bool \<Rightarrow> string" where
  "upstream_url p path isAnthropic =
     (if isAnthropic \<and> ps_AnthropicBaseURL p \<noteq> []
      then trim_right_char (CHR ''/'') (ps_AnthropicBaseURL p) @ path
      else trim_right_char (CHR ''/'') (ps_BaseURL p) @ path)"

definition upstream_timeout :: "ProviderSnapshot \<Rightarrow> duration" where
  "upstream_timeout p =
     (let t = i64 (ep_TimeoutMs (ps_ExecutionPolicy p) * millisecond) in if t = 0 then 30 * second else t)"

definition maxRespBytes :: int where "maxRespBytes = 10 * 2 ^ 20"

definition too_large :: string where "too_large = ''upstream response exceeded 10 MB size limit''"

text \<open>The rotator a request uses: the live one, or one of its own.\<close>

definition rotator_of :: "ProviderSnapshot \<Rightarrow> 'w gateway \<Rightarrow> KeyRotator \<times> bool" where
  "rotator_of p g =
     (case gw_runtime g of
        None \<Rightarrow> (NewKeyRotator (Some p), False)
      | Some s \<Rightarrow> KeyRotatorForProvider p s)"

definition keep_rotator :: "ProviderSnapshot \<Rightarrow> KeyRotator \<Rightarrow> bool \<Rightarrow> 'w gateway \<Rightarrow> 'w gateway" where
  "keep_rotator p kr live g = g\<lparr>gw_runtime := map_option (store_rotator p kr live) (gw_runtime g)\<rparr>"

text \<open>The response, and what is reported to the rotator, with the clock for a failure.\<close>

definition receive ::
  "'w world \<Rightarrow> ProviderSnapshot \<Rightarrow> bool \<Rightarrow> string \<Rightarrow> KeyRotator \<Rightarrow> bool \<Rightarrow> duration \<Rightarrow> HttpOutcome \<Rightarrow>
     'w gateway \<Rightarrow> forward_result \<times> 'w gateway" where
  "receive wo p stream rotatingKey kr live latency outcome g =
     (case outcome of
        HttpError err ended \<Rightarrow> (forward_failed (if ended then 504 else 502) latency err, g)
      | HttpResponse status contentType body readErr \<Rightarrow>
          if stream \<and> status < 400 \<and> isSSE contentType then
            (\<lparr>fr_status = status, fr_body = [], fr_stream = Some \<lparr>sb_content = body, sb_eof = (readErr = None)\<rparr>,
               fr_contentType = contentType, fr_latency = latency, fr_err = None\<rparr>,
             if rotatingKey \<noteq> [] then keep_rotator p (KeyRotator_ReportSuccess rotatingKey kr) live g else g)
          else if maxRespBytes \<le> int (length body) then (forward_failed 502 latency too_large, g)
          else case readErr of
              Some err \<Rightarrow> (forward_failed status latency err, g)
            | None \<Rightarrow>
                (\<lparr>fr_status = status, fr_body = body, fr_stream = None, fr_contentType = [],
                   fr_latency = latency, fr_err = None\<rparr>,
                 if rotatingKey = [] then g
                 else if status = 401 \<or> status = 403
                 then (let (now, g') = now_of wo g in
                   keep_rotator p (KeyRotator_ReportFailure now rotatingKey kr) live g')
                 else if status < 400 then keep_rotator p (KeyRotator_ReportSuccess rotatingKey kr) live g
                 else g))"

definition send ::
  "'w world \<Rightarrow> ProviderSnapshot \<Rightarrow> string \<Rightarrow> string \<Rightarrow> bool \<Rightarrow> string \<Rightarrow> bool \<Rightarrow> 'w gateway \<Rightarrow>
     forward_result \<times> 'w gateway" where
  "send wo p url body stream userAgent isAnthropic g =
     (let (kr, live) = rotator_of p g;
          (rotatingKey, kr') = KeyRotator_Next kr;
          req = \<lparr>hr_URL = url, hr_Header = request_header p rotatingKey isAnthropic userAgent,
            hr_Body = body, hr_timeout = (if stream then None else Some (upstream_timeout p))\<rparr>;
          (start, g1) = now_of wo (keep_rotator p kr' live g);
          (outcome, w) = wo_do wo req (gw_world g1);
          (end, g2) = now_of wo (g1\<lparr>gw_world := w, gw_sent := gw_sent g1 @ [req]\<rparr>)
      in receive wo p stream rotatingKey kr' live (time_sub end start) outcome g2)"

definition forwardToUpstream ::
  "'w world \<Rightarrow> ProviderSnapshot \<Rightarrow> string \<Rightarrow> string \<Rightarrow> bool \<Rightarrow> string \<Rightarrow> bool \<Rightarrow> 'w gateway \<Rightarrow>
     forward_result \<times> 'w gateway" where
  "forwardToUpstream wo p path body stream userAgent isAnthropic g =
     (let url = upstream_url p path isAnthropic;
          (refused, w1) = wo_validate wo url (gw_world g);
          g1 = g\<lparr>gw_world := w1\<rparr>
      in case refused of
          Some err \<Rightarrow> (forward_failed 502 0 err, g1)
        | None \<Rightarrow>
            let (late, g2) = wait_for_slot wo p (if stream then None else Some (upstream_timeout p)) g1
            in case late of
                Some err \<Rightarrow> (forward_failed 504 0 err, g2)
              | None \<Rightarrow>
                  case wo_url_error wo url of
                    Some err \<Rightarrow> (forward_failed 500 0 err, g2)
                  | None \<Rightarrow> send wo p url body stream userAgent isAnthropic g2)"

section \<open>Lemmas\<close>

lemma now_of_frame [simp]:
  "gw_runtime (snd (now_of wo g)) = gw_runtime g" "gw_sent (snd (now_of wo g)) = gw_sent g"
  "gw_sequence (snd (now_of wo g)) = gw_sequence g"
  by (simp_all add: now_of_def Let_def split_def)

lemma ctx_err_frame [simp]:
  "gw_runtime (snd (ctx_err wo g)) = gw_runtime g" "gw_sent (snd (ctx_err wo g)) = gw_sent g"
  "gw_sequence (snd (ctx_err wo g)) = gw_sequence g"
  by (simp_all add: ctx_err_def Let_def split_def)

lemma keep_rotator_frame [simp]:
  "gw_sent (keep_rotator p kr live g) = gw_sent g" "gw_sequence (keep_rotator p kr live g) = gw_sequence g"
  by (simp_all add: keep_rotator_def)

definition rotators :: "'w gateway \<Rightarrow> string \<Rightarrow> KeyRotator option" where
  "rotators g k = (case gw_runtime g of None \<Rightarrow> None | Some s \<Rightarrow> rs_keyRotators s k)"

lemma rotators_world [simp]: "rotators (g\<lparr>gw_world := w\<rparr>) = rotators g"
  "rotators (g\<lparr>gw_sent := xs\<rparr>) = rotators g"
  "rotators (snd (now_of wo g)) = rotators g"
  by (simp_all add: rotators_def fun_eq_iff)

lemma WaitForUpstreamSlot_frame [simp]:
  "rs_keyRotators (snd (WaitForUpstreamSlot now now' p s)) = rs_keyRotators s"
  "rs_providers (snd (WaitForUpstreamSlot now now' p s)) = rs_providers s"
  "rs_sticky (snd (WaitForUpstreamSlot now now' p s)) = rs_sticky s"
  by (simp_all add: WaitForUpstreamSlot_def Let_def split_def)

lemma wait_for_slot_frame [simp]:
  "gw_sent (snd (wait_for_slot wo p timeout g)) = gw_sent g"
  "gw_sequence (snd (wait_for_slot wo p timeout g)) = gw_sequence g"
  "rotators (snd (wait_for_slot wo p timeout g)) = rotators g"
  by (auto simp: wait_for_slot_def Let_def split_def rotators_def fun_eq_iff split: option.split)

lemma wait_for_slot_runtime [simp]:
  "gw_runtime (snd (wait_for_slot wo p timeout g)) = None \<longleftrightarrow> gw_runtime g = None"
  by (auto simp: wait_for_slot_def Let_def split_def split: option.split)

lemma receive_sent [simp]: "gw_sent (snd (receive wo p stream k kr live latency outcome g)) = gw_sent g"
  by (auto simp: receive_def Let_def split_def split: HttpOutcome.split option.split)

lemma receive_sequence [simp]: "gw_sequence (snd (receive wo p stream k kr live latency outcome g)) = gw_sequence g"
  by (auto simp: receive_def Let_def split_def split: HttpOutcome.split option.split)

definition usable_keys :: "KeyRotator \<Rightarrow> string set" where
  "usable_keys kr = rk_value ` {k \<in> set (kr_keys kr). key_usable k}"

lemma Next_usable: "fst (KeyRotator_Next kr) = [] \<or> fst (KeyRotator_Next kr) \<in> usable_keys kr"
  by (auto simp: KeyRotator_Next_def usable_keys_def dest: find_Some_set split: option.split)

lemma send_sent:
  "\<exists>key req. gw_sent (snd (send wo p url body stream ua isA g)) = gw_sent g @ [req] \<and>
     hr_URL req = url \<and> hr_Body req = body \<and> hr_Header req = request_header p key isA ua \<and>
     (key = [] \<or> key \<in> usable_keys (fst (rotator_of p g)))"
  using Next_usable [of "fst (rotator_of p g)"]
  by (auto simp: send_def Let_def split_def)

lemma send_sequence [simp]: "gw_sequence (snd (send wo p url body stream ua isA g)) = gw_sequence g"
  by (simp add: send_def Let_def split_def)

lemma forward_sequence [simp]:
  "gw_sequence (snd (forwardToUpstream wo p path body stream ua isA g)) = gw_sequence g"
  by (auto simp: forwardToUpstream_def Let_def split_def split: option.split)

lemma rotator_of_wait [simp]: "rotator_of p (snd (wait_for_slot wo p timeout g)) = rotator_of p g"
proof (cases "gw_runtime g")
  case None
  then show ?thesis by (simp add: rotator_of_def wait_for_slot_def)
next
  case (Some s)
  then have "gw_runtime (snd (wait_for_slot wo p timeout g)) \<noteq> None" by simp
  then obtain s' where s': "gw_runtime (snd (wait_for_slot wo p timeout g)) = Some s'" by blast
  from fun_cong [OF wait_for_slot_frame(3) [of wo p timeout g], of "ps_ProviderID p", unfolded rotators_def] Some s'
  have "rs_keyRotators s' (ps_ProviderID p) = rs_keyRotators s (ps_ProviderID p)" by simp
  with Some s' show ?thesis by (simp add: rotator_of_def KeyRotatorForProvider_def)
qed

lemma rotator_of_world [simp]: "rotator_of p (g\<lparr>gw_world := w\<rparr>) = rotator_of p g"
  by (simp add: rotator_of_def)

lemma send_receives:
  assumes "gw_runtime g = Some s" "rotator_of p g = (kr, True)" "KeyRotator_Next kr = (key, kr')"
  obtains latency outcome g' where
    "send wo p url body stream ua isA g = receive wo p stream key kr' True latency outcome g'"
    "gw_runtime g' = Some (store_rotator p kr' True s)"
proof -
  have run: "gw_runtime (keep_rotator p kr' True g) = Some (store_rotator p kr' True s)"
    using assms(1) by (simp add: keep_rotator_def)
  show thesis
    by (rule that) (simp add: send_def Let_def split_def assms(2,3), simp add: run)
qed

section \<open>A world for the witnesses\<close>

text \<open>Outcomes from a script, a clock that stands still, no waiting and a checker that accepts.\<close>

definition scripted :: "HttpOutcome list world" where
  "scripted = \<lparr>wo_now = (\<lambda>w. (7, w)), wo_wait = (\<lambda>timeout d w. (None, w)), wo_ctx_err = (\<lambda>w. (None, w)),
     wo_validate = (\<lambda>url w. (None, w)), wo_url_error = (\<lambda>url. None),
     wo_do = (\<lambda>req w. case w of [] \<Rightarrow> (HttpError ''eof'' False, []) | r # rs \<Rightarrow> (r, rs))\<rparr>"

definition demo_keyed :: ProviderSnapshot where
  "demo_keyed = (pcd_provider (demo_candidate ''a'' 1))\<lparr>
     ps_APIKeys := [\<lparr>ak_Name = ''one'', ak_Value = ''k1'', ak_Disabled = False, ak_FailCount = 0\<rparr>,
       \<lparr>ak_Name = ''two'', ak_Value = ''k2'', ak_Disabled = False, ak_FailCount = 0\<rparr>]\<rparr>"

definition demo_keyed_state :: RuntimeState where
  "demo_keyed_state = NewRuntimeState\<lparr>rs_keyRotators := [ps_ProviderID demo_keyed \<mapsto> NewKeyRotator (Some demo_keyed)]\<rparr>"

definition demo_gateway :: "RuntimeState option \<Rightarrow> HttpOutcome list \<Rightarrow> HttpOutcome list gateway" where
  "demo_gateway s script = \<lparr>gw_runtime = s, gw_sequence = 0, gw_world = script, gw_sent = []\<rparr>"

section \<open>Properties\<close>


text \<open>
  The live rotator learns from every answer: after a response with status 401 or 403 the key that
  was sent has one failure more, after one below 400 it has none, after any other the keys are as
  they were.
\<close>

theorem forward_reports_key:
  assumes "gw_runtime g = Some s" "rs_keyRotators s (ps_ProviderID p) = Some kr" "ps_APIKeys p \<noteq> []"
    and "fst (KeyRotator_Next kr) = key" "key \<noteq> []"
    and "forwardToUpstream wo p path body stream ua isA g = (r, g')" "fr_err r = None"
  shows "\<exists>kr' now. rotators g' (ps_ProviderID p) = Some kr' \<and>
    kr_keys kr' =
      (if fr_status r = 401 \<or> fr_status r = 403
       then update_key (\<lambda>k. k\<lparr>rk_failCount := i64 (rk_failCount k + 1), rk_lastFail := now\<rparr>) key (kr_keys kr)
       else if fr_status r < 400 then update_key (\<lambda>k. k\<lparr>rk_failCount := 0, rk_lastFail := 0\<rparr>) key (kr_keys kr)
       else kr_keys kr)"
proof -
  let ?url = "upstream_url p path isA"
  let ?g1 = "g\<lparr>gw_world := snd (wo_validate wo ?url (gw_world g))\<rparr>"
  let ?wait = "wait_for_slot wo p (if stream then None else Some (upstream_timeout p)) ?g1"
  have send: "send wo p ?url body stream ua isA (snd ?wait) = (r, g')"
    using assms(6,7)
    by (auto simp: forwardToUpstream_def Let_def split_def forward_failed_def split: option.splits)
  have ro: "rotator_of p (snd ?wait) = (kr, True)"
    using assms(1-3) by (simp add: rotator_of_def [of p g] KeyRotatorForProvider_def)
  obtain s1 where s1: "gw_runtime (snd ?wait) = Some s1"
    using assms(1) wait_for_slot_runtime [of wo p _ ?g1] by fastforce
  obtain kr1 where nx: "KeyRotator_Next kr = (key, kr1)" "kr_keys kr1 = kr_keys kr"
    using assms(4) Next_keys [of kr] by (cases "KeyRotator_Next kr") simp
  obtain latency outcome g2 where recv: "receive wo p stream key kr1 True latency outcome g2 = (r, g')"
    and g2: "gw_runtime g2 = Some (store_rotator p kr1 True s1)"
    using send_receives [OF s1 ro nx(1)] send by metis
  have kept: "rotators (keep_rotator p kr2 True g3) (ps_ProviderID p) = Some kr2" if "gw_runtime g3 = Some s3" for kr2 g3 s3
    using that by (simp add: rotators_def keep_rotator_def store_rotator_def)
  have g2': "rotators g2 (ps_ProviderID p) = Some kr1"
    using g2 by (simp add: rotators_def store_rotator_def)
  have kept2: "rotators (keep_rotator p kr2 True g2) (ps_ProviderID p) = Some kr2"
    "rotators (keep_rotator p kr2 True (snd (now_of wo g2))) (ps_ProviderID p) = Some kr2" for kr2
    using g2 by (intro kept; simp)+
  from recv assms(5,7) g2' show ?thesis
    by (cases outcome)
       (auto simp: receive_def Let_def split_def forward_failed_def kept2 nx(2) KeyRotator_ReportSuccess_def
         KeyRotator_ReportFailure_def split: if_splits option.splits)
qed

theorem forward_reports_key_witness:
  "\<exists>kr. rotators (snd (forwardToUpstream scripted demo_keyed ''/v1'' ''x'' False [] False
       (demo_gateway (Some demo_keyed_state) [HttpResponse 401 [] ''denied'' None]))) (ps_ProviderID demo_keyed) = Some kr \<and>
     map rk_failCount (kr_keys kr) = [1, 0]"
proof -
  let ?g = "demo_gateway (Some demo_keyed_state) [HttpResponse 401 [] ''denied'' None]"
  let ?kr = "NewKeyRotator (Some demo_keyed)"
  obtain r g' where f: "forwardToUpstream scripted demo_keyed ''/v1'' ''x'' False [] False ?g = (r, g')"
    using prod.exhaust by blast
  have r: "fr_err r = None" "fr_status r = 401"
  proof -
    have "fr_err (fst (forwardToUpstream scripted demo_keyed ''/v1'' ''x'' False [] False ?g)) = None" by code_simp
    then show "fr_err r = None" by (simp add: f)
    have "fr_status (fst (forwardToUpstream scripted demo_keyed ''/v1'' ''x'' False [] False ?g)) = 401" by code_simp
    then show "fr_status r = 401" by (simp add: f)
  qed
  have "gw_runtime ?g = Some demo_keyed_state" by (simp add: demo_gateway_def)
  moreover have "rs_keyRotators demo_keyed_state (ps_ProviderID demo_keyed) = Some ?kr"
    by (simp add: demo_keyed_state_def)
  moreover have "ps_APIKeys demo_keyed \<noteq> []" by (simp add: demo_keyed_def)
  moreover have "fst (KeyRotator_Next ?kr) = ''k1''" by code_simp
  ultimately obtain kr' now where kr': "rotators g' (ps_ProviderID demo_keyed) = Some kr'"
    "kr_keys kr' = update_key (\<lambda>k. k\<lparr>rk_failCount := i64 (rk_failCount k + 1), rk_lastFail := now\<rparr>) ''k1'' (kr_keys ?kr)"
    using forward_reports_key [where g = ?g and s = demo_keyed_state and p = demo_keyed and kr = ?kr and key = "''k1''"
        and wo = scripted and path = "''/v1''" and body = "''x''" and stream = False and ua = "[]" and isA = False
        and r = r and g' = g'] f r
    by auto
  have "map rk_failCount (kr_keys kr') = [1, 0]"
    unfolding kr'(2) by (simp add: NewKeyRotator_def demo_keyed_def i64_def)
  with kr'(1) f show ?thesis by simp
qed

end
