(* ===== verification/Pricing.thy ===== *)
theory Pricing
  imports Prelude "HOL-Library.Char_ord"
begin

text \<open>
  Pricing a request: the resolution of a model's price of \<open>internal/telemetry/pricing.go\<close> and the
  costs that are fixed when a request ends, of \<open>internal/gateway/api/pricing.go\<close>. A catalog is the
  list of its entries; a price is an exact rational where the code has a \<open>float64\<close>.
\<close>

section \<open>Prices\<close>

record Pricing =
  pr_Currency :: string
  pr_InputPer1M :: float64
  pr_CachedInputPer1M :: float64
  pr_OutputPer1M :: float64
  pr_InputPer1MUsd :: float64
  pr_CachedInputPer1MUsd :: float64
  pr_OutputPer1MUsd :: float64
  pr_Source :: string
  pr_SourceID :: string
  pr_FXRateToUSD :: float64

type_synonym catalog = "(string \<times> Pricing) list"

definition pricingCurrency :: "string \<Rightarrow> string" where
  "pricingCurrency currency =
     (let c = to_upper (trim_space currency) in if c = [] then ''USD'' else c)"

definition normalizePricing :: "Pricing \<Rightarrow> Pricing" where
  "normalizePricing p =
     (let currency = pricingCurrency (pr_Currency p);
          input = (if pr_InputPer1M p = 0 \<and> 0 < pr_InputPer1MUsd p then pr_InputPer1MUsd p else pr_InputPer1M p);
          cached = (if pr_CachedInputPer1M p = 0 \<and> 0 < pr_CachedInputPer1MUsd p
            then pr_CachedInputPer1MUsd p else pr_CachedInputPer1M p);
          output = (if pr_OutputPer1M p = 0 \<and> 0 < pr_OutputPer1MUsd p then pr_OutputPer1MUsd p else pr_OutputPer1M p);
          usd = (currency = ''USD'')
      in p\<lparr>pr_Currency := currency, pr_InputPer1M := input, pr_CachedInputPer1M := cached, pr_OutputPer1M := output,
           pr_InputPer1MUsd := (if usd \<and> pr_InputPer1MUsd p = 0 then input else pr_InputPer1MUsd p),
           pr_CachedInputPer1MUsd := (if usd \<and> pr_CachedInputPer1MUsd p = 0 \<and> 0 < cached
             then cached else pr_CachedInputPer1MUsd p),
           pr_OutputPer1MUsd := (if usd \<and> pr_OutputPer1MUsd p = 0 then output else pr_OutputPer1MUsd p)\<rparr>)"

definition priced :: "string \<Rightarrow> float64 \<Rightarrow> float64 \<Rightarrow> float64 \<Rightarrow> Pricing" where
  "priced currency0 input cachedInput output =
     (let currency = pricingCurrency currency0;
          price = \<lparr>pr_Currency = currency, pr_InputPer1M = input, pr_CachedInputPer1M = cachedInput,
            pr_OutputPer1M = output, pr_InputPer1MUsd = 0, pr_CachedInputPer1MUsd = 0,
            pr_OutputPer1MUsd = 0, pr_Source = [], pr_SourceID = [], pr_FXRateToUSD = 0\<rparr>
      in if currency = ''USD''
         then price\<lparr>pr_InputPer1MUsd := input, pr_CachedInputPer1MUsd := cachedInput, pr_OutputPer1MUsd := output\<rparr>
         else price)"

section \<open>The names of a model\<close>

abbreviation dash :: char where "dash \<equiv> CHR ''-''"

text \<open>\<open>strings.ReplaceAll(model, "--", "-")\<close>, and the loop that repeats it.\<close>

fun halve_dashes :: "string \<Rightarrow> string" where
  "halve_dashes (a # b # s) = (if a = dash \<and> b = dash then dash # halve_dashes s else a # halve_dashes (b # s))"
| "halve_dashes s = s"

fun has_double_dash :: "string \<Rightarrow> bool" where
  "has_double_dash (a # b # s) \<longleftrightarrow> a = dash \<and> b = dash \<or> has_double_dash (b # s)"
| "has_double_dash s \<longleftrightarrow> False"

lemma halve_dashes_length: "length (halve_dashes s) \<le> length s"
  by (induction s rule: halve_dashes.induct) auto

lemma halve_dashes_less: "has_double_dash s \<Longrightarrow> length (halve_dashes s) < length s"
  by (induction s rule: halve_dashes.induct) (auto intro: le_imp_less_Suc le_SucI halve_dashes_length)

function squeeze_dashes :: "string \<Rightarrow> string" where
  "squeeze_dashes s = (if has_double_dash s then squeeze_dashes (halve_dashes s) else s)"
  by auto
termination
  by (relation "measure length") (auto intro: halve_dashes_less)

definition trim_dashes :: "string \<Rightarrow> string" where
  "trim_dashes s = rev (dropWhile (\<lambda>c. c = dash) (rev (dropWhile (\<lambda>c. c = dash) s)))"

definition alias_char :: "char \<Rightarrow> char" where
  "alias_char c = (if c = CHR ''_'' \<or> c = CHR '' '' then dash else if c = CHR 0x5C then CHR ''/'' else c)"

definition normalizePricingAlias :: "string \<Rightarrow> string" where
  "normalizePricingAlias model0 =
     (let model = trim_space (to_lower model0) in
      if model = [] then [] else trim_dashes (squeeze_dashes (map alias_char model)))"

text \<open>The text after the last occurrence of a character, and the text before it.\<close>

definition after_last :: "char \<Rightarrow> string \<Rightarrow> string option" where
  "after_last c s = (if List.member s c then Some (rev (takeWhile (\<lambda>x. x \<noteq> c) (rev s))) else None)"

definition before_last :: "char \<Rightarrow> string \<Rightarrow> string option" where
  "before_last c s = (if List.member s c then Some (rev (tl (dropWhile (\<lambda>x. x \<noteq> c) (rev s)))) else None)"

definition pricingAliasTail :: "string \<Rightarrow> string" where
  "pricingAliasTail model = (case after_last (CHR ''/'') model of None \<Rightarrow> [] | Some tail \<Rightarrow> tail)"

definition isDigits :: "string \<Rightarrow> bool" where
  "isDigits s \<longleftrightarrow> s \<noteq> [] \<and> list_all (\<lambda>c. CHR ''0'' \<le> c \<and> c \<le> CHR ''9'') s"

fun split_dash :: "string \<Rightarrow> string list" where
  "split_dash [] = [[]]"
| "split_dash (c # cs) =
     (if c = dash then [] # split_dash cs
      else case split_dash cs of [] \<Rightarrow> [[c]] | part # parts \<Rightarrow> (c # part) # parts)"

fun join_dash :: "string list \<Rightarrow> string" where
  "join_dash [] = []"
| "join_dash [part] = part"
| "join_dash (part # parts) = part @ dash # join_dash parts"

definition trimPricingSnapshotSuffix :: "string \<Rightarrow> string option" where
  "trimPricingSnapshotSuffix model =
     (let parts = split_dash model; n = length parts;
          dated = (4 \<le> n \<and>
            length (parts ! (n - 3)) = 4 \<and> length (parts ! (n - 2)) = 2 \<and> length (parts ! (n - 1)) = 2 \<and>
            isDigits (parts ! (n - 3)) \<and> isDigits (parts ! (n - 2)) \<and> isDigits (parts ! (n - 1)))
      in if dated then Some (join_dash (take (n - 3) parts))
         else if 2 \<le> n \<and> length (last parts) = 8 \<and> isDigits (last parts)
         then Some (join_dash (take (n - 1) parts))
         else None)"

definition trimPricingVariantSuffix :: "string \<Rightarrow> string option" where
  "trimPricingVariantSuffix model =
     (case before_last (CHR '':'') model of None \<Rightarrow> None | Some s \<Rightarrow> if s = [] then None else Some s)"

definition trim_suffix :: "string \<Rightarrow> string \<Rightarrow> string option" where
  "trim_suffix sub s = (if suffix sub s then Some (take (length s - length sub) s) else None)"

definition alias_suffixes :: "string list" where
  "alias_suffixes = [''-chat-latest'', ''-thinking'', ''-preview'', ''-latest'', ''-exp'']"

definition claude_suffixes :: "string list" where
  "claude_suffixes = [''-high'', ''-medium'', ''-low'', ''-max'']"

text \<open>The names that are queued for one name, in their order.\<close>

definition pricing_derived :: "string \<Rightarrow> string list" where
  "pricing_derived current =
     (let segment = pricingAliasTail current in
      (if segment \<noteq> [] \<and> segment \<noteq> current then [segment] else []) @
      (case trimPricingSnapshotSuffix current of Some t \<Rightarrow> [t] | None \<Rightarrow> []) @
      (case trimPricingVariantSuffix current of Some t \<Rightarrow> [t] | None \<Rightarrow> []) @
      List.map_filter (\<lambda>sub. trim_suffix sub current) alias_suffixes @
      (if prefix ''claude-'' current
       then List.map_filter (\<lambda>sub. trim_suffix sub current) claude_suffixes
       else []))"

section \<open>Derived names are shorter\<close>

lemma before_last_length: "before_last c s = Some t \<Longrightarrow> length t < length s"
proof -
  assume b: "before_last c s = Some t"
  then have "c \<in> set (rev s)" by (simp add: before_last_def split: if_splits)
  then have "dropWhile (\<lambda>x. x \<noteq> c) (rev s) \<noteq> []" by (simp add: dropWhile_eq_Nil_conv)
  moreover have "length (dropWhile (\<lambda>x. x \<noteq> c) (rev s)) \<le> length s"
    using length_dropWhile_le [of "\<lambda>x. x \<noteq> c" "rev s"] by simp
  ultimately show "length t < length s"
    using b by (cases "dropWhile (\<lambda>x. x \<noteq> c) (rev s)") (auto simp: before_last_def split: if_splits)
qed

lemma after_last_length: "after_last c s = Some t \<Longrightarrow> length t < length s"
proof -
  assume a: "after_last c s = Some t"
  then have "c \<in> set (rev s)" by (simp add: after_last_def split: if_splits)
  then have "dropWhile (\<lambda>x. x \<noteq> c) (rev s) \<noteq> []" by (simp add: dropWhile_eq_Nil_conv)
  then have "0 < length (dropWhile (\<lambda>x. x \<noteq> c) (rev s))" by simp
  moreover have "length (takeWhile (\<lambda>x. x \<noteq> c) (rev s)) + length (dropWhile (\<lambda>x. x \<noteq> c) (rev s)) = length s"
    by (metis length_append length_rev takeWhile_dropWhile_id)
  ultimately have "length (takeWhile (\<lambda>x. x \<noteq> c) (rev s)) < length s" by linarith
  with a show "length t < length s" by (auto simp: after_last_def split: if_splits)
qed

lemma join_split_dash: "join_dash (split_dash s) = s \<and> split_dash s \<noteq> []"
proof (induction s)
  case (Cons c s)
  then obtain part parts where sp: "split_dash s = part # parts" by (cases "split_dash s") auto
  with Cons show ?case by (cases parts) auto
qed simp

lemma length_join_append:
  "ys \<noteq> [] \<Longrightarrow> xs \<noteq> [] \<Longrightarrow> length (join_dash (xs @ ys)) = length (join_dash xs) + 1 + length (join_dash ys)"
proof (induction xs rule: join_dash.induct)
  case (2 part)
  then show ?case by (cases ys) auto
qed auto

lemma trimSnapshot_length: "trimPricingSnapshotSuffix s = Some t \<Longrightarrow> length t < length s"
proof -
  assume t: "trimPricingSnapshotSuffix s = Some t"
  then obtain k where k: "0 < k" "k < length (split_dash s)" "t = join_dash (take (length (split_dash s) - k) (split_dash s))"
    by (auto simp: trimPricingSnapshotSuffix_def Let_def split: if_splits intro: that [of 3] that [of 1])
  let ?n = "length (split_dash s) - k"
  have "take ?n (split_dash s) \<noteq> []" "drop ?n (split_dash s) \<noteq> []" using k by auto
  from length_join_append [OF this(2,1)] join_split_dash [of s] k(3) show "length t < length s" by simp
qed

lemma trim_suffix_length: "trim_suffix sub s = Some t \<Longrightarrow> sub \<noteq> [] \<Longrightarrow> length t < length s"
proof -
  assume t: "trim_suffix sub s = Some t" and "sub \<noteq> []"
  then have "suffix sub s" "0 < length sub" by (auto simp: trim_suffix_def split: if_splits)
  then have "0 < length s" using suffix_length_le [of sub s] by linarith
  with t \<open>0 < length sub\<close> show "length t < length s" by (auto simp: trim_suffix_def split: if_splits)
qed

lemma map_filter_trim_length:
  assumes "t \<in> set (List.map_filter (\<lambda>sub. trim_suffix sub s) subs)" "[] \<notin> set subs"
  shows "length t < length s"
proof -
  from assms obtain sub where "sub \<in> set subs" "trim_suffix sub s = Some t"
    by (auto simp: List.map_filter_def)
  with assms(2) show ?thesis by (metis trim_suffix_length)
qed

lemma suffixes_not_empty: "[] \<notin> set alias_suffixes" "[] \<notin> set claude_suffixes"
  by (simp_all add: alias_suffixes_def claude_suffixes_def)

lemma pricing_derived_length: "t \<in> set (pricing_derived s) \<Longrightarrow> length t < length s"
proof -
  assume "t \<in> set (pricing_derived s)"
  then consider "t = pricingAliasTail s" "pricingAliasTail s \<noteq> []"
    | "trimPricingSnapshotSuffix s = Some t" | "trimPricingVariantSuffix s = Some t"
    | "t \<in> set (List.map_filter (\<lambda>sub. trim_suffix sub s) alias_suffixes)"
    | "t \<in> set (List.map_filter (\<lambda>sub. trim_suffix sub s) claude_suffixes)"
    by (auto simp: pricing_derived_def Let_def split: option.splits if_splits)
  then show "length t < length s"
  proof cases
    case 1
    then show ?thesis by (auto simp: pricingAliasTail_def dest: after_last_length split: option.splits)
  next
    case 2
    then show ?thesis by (rule trimSnapshot_length)
  next
    case 3
    then show ?thesis
      by (auto simp: trimPricingVariantSuffix_def dest: before_last_length split: option.splits if_splits)
  next
    case 4
    then show ?thesis by (rule map_filter_trim_length) (rule suffixes_not_empty)
  next
    case 5
    then show ?thesis by (rule map_filter_trim_length) (rule suffixes_not_empty)
  qed
qed

section \<open>The aliases\<close>

text \<open>
  The work list of \<open>canonicalPricingAliases\<close>: a name is replaced by finitely many shorter ones, so
  the multiset of the lengths in the queue decreases.
\<close>

function alias_loop :: "string list \<Rightarrow> string list \<Rightarrow> string list" where
  "alias_loop [] aliases = aliases"
| "alias_loop (current # queue) aliases =
     (if current = [] \<or> List.member aliases current then alias_loop queue aliases
      else alias_loop (queue @ pricing_derived current) (aliases @ [current]))"
  by pat_completeness auto
termination
proof (relation "inv_image (mult less_than) (\<lambda>(queue, aliases). image_mset length (mset queue))")
  show "wf (inv_image (mult less_than) (\<lambda>(queue, aliases :: string list). image_mset length (mset queue)))"
    by (intro wf_inv_image wf_mult) simp
next
  fix current :: string and queue aliases :: "string list"
  show "((queue, aliases), (current # queue, aliases)) \<in>
      inv_image (mult less_than) (\<lambda>(queue, aliases). image_mset length (mset queue))"
    using one_step_implies_mult [of "{#length current#}" "{#}" less_than "image_mset length (mset queue)"]
    by simp
next
  fix current :: string and queue aliases :: "string list"
  show "((queue @ pricing_derived current, aliases @ [current]), (current # queue, aliases)) \<in>
      inv_image (mult less_than) (\<lambda>(queue, aliases). image_mset length (mset queue))"
    using one_step_implies_mult [of "{#length current#}" "image_mset length (mset (pricing_derived current))"
        less_than "image_mset length (mset queue)"] pricing_derived_length
    by (auto simp: add.commute)
qed

definition canonicalPricingAliases :: "string \<Rightarrow> string list" where
  "canonicalPricingAliases model0 =
     (let model = normalizePricingAlias model0 in if model = [] then [] else alias_loop [model] [])"

definition pricingLookupCandidates :: "string \<Rightarrow> string \<Rightarrow> string list" where
  "pricingLookupCandidates requestedModel effectiveModel =
     rev (fold (\<lambda>c acc. if c = [] \<or> List.member acc c then acc else c # acc)
       (canonicalPricingAliases requestedModel @ canonicalPricingAliases effectiveModel) [])"

definition providerScopedPricingKey :: "string \<Rightarrow> string \<Rightarrow> string" where
  "providerScopedPricingKey upstream0 model0 =
     (let upstream = normalizePricingAlias upstream0; model = normalizePricingAlias model0 in
      if upstream = [] \<or> model = [] then [] else ''provider::'' @ upstream @ ''::'' @ model)"

definition lookup_first :: "catalog \<Rightarrow> string list \<Rightarrow> (string \<times> Pricing) option" where
  "lookup_first cat keys =
     map_option (\<lambda>k. (k, normalizePricing (the (map_of cat k)))) (find (\<lambda>k. map_of cat k \<noteq> None) keys)"

definition ResolvePricing :: "catalog \<Rightarrow> string \<Rightarrow> string \<Rightarrow> string \<Rightarrow> (string \<times> Pricing) option" where
  "ResolvePricing cat requestedModel effectiveModel upstream =
     (let candidates = pricingLookupCandidates requestedModel effectiveModel;
          scope = normalizePricingAlias upstream;
          scoped = (if scope = [] then None else lookup_first cat (map (providerScopedPricingKey scope) candidates))
      in case scoped of Some r \<Rightarrow> Some r | None \<Rightarrow> lookup_first cat candidates)"

section \<open>The cost of a request\<close>

record Usage =
  us_PromptTokens :: int
  us_CachedPromptTokens :: int
  us_CompletionTokens :: int

record FixedPricing =
  fx_Status :: string
  fx_SourceID :: string
  fx_Currency :: string
  fx_FXRateToUSD :: float64
  fx_InputPer1M :: float64
  fx_CachedInputPer1M :: float64
  fx_OutputPer1M :: float64
  fx_PromptCost :: float64
  fx_CompletionCost :: float64
  fx_TotalCost :: float64
  fx_PromptCostUSD :: float64
  fx_CompletionCostUSD :: float64
  fx_TotalCostUSD :: float64

definition zero_pricing :: FixedPricing where
  "zero_pricing = \<lparr>fx_Status = [], fx_SourceID = [], fx_Currency = [], fx_FXRateToUSD = 0, fx_InputPer1M = 0,
     fx_CachedInputPer1M = 0, fx_OutputPer1M = 0, fx_PromptCost = 0, fx_CompletionCost = 0, fx_TotalCost = 0,
     fx_PromptCostUSD = 0, fx_CompletionCostUSD = 0, fx_TotalCostUSD = 0\<rparr>"

definition unpriced :: FixedPricing where
  "unpriced = zero_pricing\<lparr>fx_Status := ''unpriced''\<rparr>"

definition clampCachedPromptTokens :: "Usage \<Rightarrow> int" where
  "clampCachedPromptTokens u =
     (if us_CachedPromptTokens u < 0 then 0
      else if us_PromptTokens u < us_CachedPromptTokens u then us_PromptTokens u
      else us_CachedPromptTokens u)"

text \<open>The body that \<open>calculateNativeCost\<close> and \<open>calculateUSDCost\<close> share, at three rates.\<close>

definition cost_at :: "float64 \<Rightarrow> float64 \<Rightarrow> float64 \<Rightarrow> Usage \<Rightarrow> float64 \<times> float64 \<times> float64" where
  "cost_at input cachedInput output u =
     (let cached = clampCachedPromptTokens u;
          uncached = us_PromptTokens u - cached;
          prompt0 = of_int uncached / 1000000 * input;
          prompt = (if 0 < cached
            then prompt0 + of_int cached / 1000000 * (if cachedInput \<le> 0 then input else cachedInput)
            else prompt0);
          completion = of_int (us_CompletionTokens u) / 1000000 * output
      in (prompt, completion, prompt + completion))"

definition calculateNativeCost :: "Usage \<Rightarrow> Pricing \<Rightarrow> float64 \<times> float64 \<times> float64" where
  "calculateNativeCost u p = cost_at (pr_InputPer1M p) (pr_CachedInputPer1M p) (pr_OutputPer1M p) u"

definition calculateUSDCost :: "Usage \<Rightarrow> Pricing \<Rightarrow> float64 \<times> float64 \<times> float64" where
  "calculateUSDCost u p = cost_at (pr_InputPer1MUsd p) (pr_CachedInputPer1MUsd p) (pr_OutputPer1MUsd p) u"

definition fixed_at :: "Usage \<Rightarrow> Pricing \<Rightarrow> FixedPricing" where
  "fixed_at usage price =
     (let (promptCost, completionCost, totalCost) = calculateNativeCost usage price;
          (promptUSD, completionUSD, totalUSD) = calculateUSDCost usage price;
          sourceID = (if trim_space (pr_SourceID price) = [] then trim_space (pr_Source price)
            else trim_space (pr_SourceID price));
          currency = (let c = to_upper (trim_space (pr_Currency price)) in if c = [] then ''USD'' else c);
          fxRate = (if currency = ''USD'' \<and> pr_FXRateToUSD price = 0 then 1 else pr_FXRateToUSD price)
      in \<lparr>fx_Status = ''fixed'', fx_SourceID = sourceID, fx_Currency = currency, fx_FXRateToUSD = fxRate,
           fx_InputPer1M = pr_InputPer1M price, fx_CachedInputPer1M = pr_CachedInputPer1M price,
           fx_OutputPer1M = pr_OutputPer1M price, fx_PromptCost = promptCost,
           fx_CompletionCost = completionCost, fx_TotalCost = totalCost, fx_PromptCostUSD = promptUSD,
           fx_CompletionCostUSD = completionUSD, fx_TotalCostUSD = totalUSD\<rparr>)"

definition cache_pricing :: FixedPricing where
  "cache_pricing = zero_pricing\<lparr>fx_Status := ''fixed'', fx_SourceID := ''cache'', fx_Currency := ''USD''\<rparr>"

text \<open>\<open>resolver\<close> is the catalog of the resolver's snapshot, \<open>None\<close> if there is no resolver.\<close>

definition resolveFixedPricing ::
  "catalog option \<Rightarrow> string \<Rightarrow> string \<Rightarrow> string \<Rightarrow> int \<Rightarrow> int \<Rightarrow> int \<Rightarrow> bool \<Rightarrow> goint \<Rightarrow> FixedPricing" where
  "resolveFixedPricing resolver requestedModel effectiveModel providerID prompt cached completion cacheHit statusCode =
     (if cacheHit then cache_pricing
      else if statusCode < 200 \<or> 400 \<le> statusCode then unpriced
      else if prompt \<le> 0 \<and> cached \<le> 0 \<and> completion \<le> 0 then unpriced
      else case resolver of
          None \<Rightarrow> unpriced
        | Some cat \<Rightarrow>
            if cat = [] then unpriced
            else case ResolvePricing cat requestedModel effectiveModel providerID of
                None \<Rightarrow> unpriced
              | Some (key, price) \<Rightarrow>
                  fixed_at \<lparr>us_PromptTokens = prompt, us_CachedPromptTokens = cached, us_CompletionTokens = completion\<rparr> price)"

section \<open>Lemmas\<close>

text \<open>The names that can be reached from a name.\<close>

inductive_set reachable_names :: "string \<Rightarrow> string set" for model where
  start: "model \<noteq> [] \<Longrightarrow> model \<in> reachable_names model"
| derive: "m \<in> reachable_names model \<Longrightarrow> d \<in> set (pricing_derived m) \<Longrightarrow> d \<noteq> [] \<Longrightarrow> d \<in> reachable_names model"

text \<open>The work list never drops a name: what was taken has its derived names taken or queued.\<close>

lemma alias_loop_inv:
  assumes "distinct aliases" "[] \<notin> set aliases"
    and "set aliases \<union> set queue \<subseteq> insert [] R"
    and "\<forall>m \<in> R. \<forall>d \<in> set (pricing_derived m). d \<noteq> [] \<longrightarrow> d \<in> R"
    and "\<forall>m \<in> set aliases. set (pricing_derived m) \<subseteq> insert [] (set aliases \<union> set queue)"
  shows "distinct (alias_loop queue aliases) \<and> [] \<notin> set (alias_loop queue aliases) \<and>
    set aliases \<union> (set queue - {[]}) \<subseteq> set (alias_loop queue aliases) \<and>
    set (alias_loop queue aliases) \<subseteq> R \<and>
    (\<forall>m \<in> set (alias_loop queue aliases). set (pricing_derived m) \<subseteq> insert [] (set (alias_loop queue aliases)))"
  using assms
proof (induction queue aliases rule: alias_loop.induct)
  case (1 aliases)
  then show ?case by auto
next
  case (2 current queue aliases)
  show ?case
  proof (cases "current = [] \<or> List.member aliases current")
    case True
    have "\<forall>m \<in> set aliases. set (pricing_derived m) \<subseteq> insert [] (set aliases \<union> set queue)"
      using 2(7) True by auto
    with 2(1) [OF True] 2(3-6) True show ?thesis by auto
  next
    case False
    have "distinct (aliases @ [current])" "[] \<notin> set (aliases @ [current])"
      using 2(3,4) False by auto
    moreover have "set (aliases @ [current]) \<union> set (queue @ pricing_derived current) \<subseteq> insert [] R"
    proof -
      have "current \<in> R" using 2(5) False by auto
      with 2(6) have "set (pricing_derived current) \<subseteq> insert [] R" by auto
      with 2(5) show ?thesis by auto
    qed
    moreover have "\<forall>m \<in> set (aliases @ [current]).
        set (pricing_derived m) \<subseteq> insert [] (set (aliases @ [current]) \<union> set (queue @ pricing_derived current))"
      using 2(7) by auto
    ultimately have "?thesis \<longleftrightarrow> True"
      using 2(2) [OF False] 2(6) False by auto
    then show ?thesis by simp
  qed
qed

lemma alias_loop_prefix: "prefix aliases (alias_loop queue aliases)"
  by (induction queue aliases rule: alias_loop.induct) (auto dest: append_prefixD)

lemma lookup_first_Some:
  "lookup_first cat keys = Some (k, p) \<Longrightarrow>
     k \<in> set keys \<and> (\<exists>p0. map_of cat k = Some p0 \<and> p = normalizePricing p0)"
  by (auto simp: lookup_first_def dest: find_Some_set)

lemma lookup_first_None: "lookup_first cat keys = None \<longleftrightarrow> (\<forall>k \<in> set keys. map_of cat k = None)"
  by (auto simp: lookup_first_def find_None_set)

lemma pricingCurrency_idem [simp]:
  "pricingCurrency (pricingCurrency c) = pricingCurrency c"
proof -
  have "trim_space ''USD'' = ''USD''" "to_upper ''USD'' = ''USD''" by code_simp+
  then show ?thesis by (auto simp: pricingCurrency_def Let_def)
qed

lemma clamp_bounds:
  "0 \<le> us_PromptTokens u \<Longrightarrow> 0 \<le> clampCachedPromptTokens u \<and> clampCachedPromptTokens u \<le> us_PromptTokens u"
  by (auto simp: clampCachedPromptTokens_def)

lemma cost_at_bounds:
  assumes "0 \<le> us_PromptTokens u" "0 \<le> us_CompletionTokens u" "0 \<le> input" "0 \<le> output" "cachedInput \<le> input"
  shows "case cost_at input cachedInput output u of (prompt, completion, both) \<Rightarrow>
    0 \<le> prompt \<and> prompt \<le> of_int (us_PromptTokens u) / 1000000 * input \<and> 0 \<le> completion \<and> both = prompt + completion"
proof -
  let ?c = "clampCachedPromptTokens u" and ?p = "us_PromptTokens u"
  let ?rate = "if cachedInput \<le> 0 then input else cachedInput"
  have c: "0 \<le> ?c" "?c \<le> ?p" using clamp_bounds assms(1) by auto
  have rate: "0 \<le> ?rate" "?rate \<le> input" using assms(3,5) by auto
  have r0: "(0 :: rat) \<le> of_int ?c / 1000000" "(0 :: rat) \<le> of_int (?p - ?c) / 1000000" using c by simp_all
  have "(of_int ?c :: rat) / 1000000 * ?rate \<le> of_int ?c / 1000000 * input"
    using rate(2) r0(1) by (rule mult_left_mono)
  moreover have "(of_int (?p - ?c) :: rat) / 1000000 * input + of_int ?c / 1000000 * input = of_int ?p / 1000000 * input"
    by (simp add: field_simps)
  moreover have "(of_int (?p - ?c) :: rat) / 1000000 * input \<le> of_int ?p / 1000000 * input"
    using c assms(3) by (intro mult_right_mono) (simp_all add: divide_right_mono)
  moreover have "0 \<le> (of_int (?p - ?c) :: rat) / 1000000 * input" "0 \<le> (of_int ?c :: rat) / 1000000 * ?rate"
    using r0 assms(3) rate(1) by (auto intro: mult_nonneg_nonneg)
  moreover have "(0 :: rat) \<le> of_int (us_CompletionTokens u) / 1000000 * output"
    using assms(2,4) by simp
  ultimately show ?thesis
    by (auto simp: cost_at_def Let_def)
qed

lemma normalizePricing_rates:
  assumes "0 \<le> pr_InputPer1M p" "0 \<le> pr_InputPer1MUsd p" "0 \<le> pr_OutputPer1M p" "0 \<le> pr_OutputPer1MUsd p"
  shows "0 \<le> pr_InputPer1M (normalizePricing p)" "0 \<le> pr_OutputPer1M (normalizePricing p)"
    "0 \<le> pr_InputPer1MUsd (normalizePricing p)" "0 \<le> pr_OutputPer1MUsd (normalizePricing p)"
  using assms by (simp_all add: normalizePricing_def Let_def)

lemma ResolvePricing_Some:
  "ResolvePricing cat requested effective upstream = Some (k, p) \<Longrightarrow>
     \<exists>p0. (k, p0) \<in> set cat \<and> p = normalizePricing p0"
  by (auto simp: ResolvePricing_def Let_def dest!: lookup_first_Some map_of_SomeD split: option.splits if_splits)

section \<open>Properties\<close>

text \<open>
  The aliases under which a model's price is looked up are exactly the names that can be reached
  from its normalized name by dropping a path, a date, a variant or a known suffix, each once, and
  the normalized name itself comes first.
\<close>

theorem canonicalPricingAliases_exact:
  "let m = normalizePricingAlias model; aliases = canonicalPricingAliases model in
    distinct aliases \<and> set aliases = reachable_names m \<and> prefix (if m = [] then [] else [m]) aliases"
proof (cases "normalizePricingAlias model = []")
  case True
  have "x \<notin> reachable_names []" for x
  proof
    assume "x \<in> reachable_names []"
    then show False by induction (auto simp: pricing_derived_length)
  qed
  with True show ?thesis by (auto simp: canonicalPricingAliases_def)
next
  case False
  let ?m = "normalizePricingAlias model"
  let ?as = "alias_loop [?m] []"
  have "\<forall>m \<in> reachable_names ?m. \<forall>d \<in> set (pricing_derived m). d \<noteq> [] \<longrightarrow> d \<in> reachable_names ?m"
    using reachable_names.derive by blast
  with False have inv: "distinct ?as \<and> [] \<notin> set ?as \<and> {?m} \<subseteq> set ?as \<and> set ?as \<subseteq> reachable_names ?m \<and>
      (\<forall>m \<in> set ?as. set (pricing_derived m) \<subseteq> insert [] (set ?as))"
    using alias_loop_inv [of "[]" "[?m]" "reachable_names ?m"] reachable_names.start [of ?m] by simp
  have "x \<in> set ?as" if "x \<in> reachable_names ?m" for x
    using that by induction (use inv in blast)+
  with inv have "set ?as = reachable_names ?m" by blast
  moreover have "prefix [?m] ?as"
    using False alias_loop_prefix [of "[?m]" "pricing_derived ?m"] by simp
  ultimately show ?thesis
    using inv False by (simp add: canonicalPricingAliases_def Let_def)
qed

text \<open>
  A price comes from the catalog, from an entry for one of the model's names; an entry for the
  provider is preferred to a general one, and no price means that there is no entry at all.
\<close>

theorem ResolvePricing_sound:
  "let names = pricingLookupCandidates requestedModel effectiveModel; scope = normalizePricingAlias upstream;
       scoped = (if scope = [] then [] else map (providerScopedPricingKey scope) names) in
    case ResolvePricing cat requestedModel effectiveModel upstream of
      None \<Rightarrow> \<forall>k \<in> set (scoped @ names). map_of cat k = None
    | Some (k, p) \<Rightarrow> (\<exists>p0. map_of cat k = Some p0 \<and> p = normalizePricing p0) \<and>
        (k \<in> set scoped \<or> k \<in> set names \<and> (\<forall>k' \<in> set scoped. map_of cat k' = None))"
proof -
  let ?names = "pricingLookupCandidates requestedModel effectiveModel" and ?scope = "normalizePricingAlias upstream"
  let ?scoped = "if ?scope = [] then [] else map (providerScopedPricingKey ?scope) ?names"
  have "ResolvePricing cat requestedModel effectiveModel upstream =
      (case lookup_first cat ?scoped of Some r \<Rightarrow> Some r | None \<Rightarrow> lookup_first cat ?names)"
    by (simp add: ResolvePricing_def Let_def lookup_first_def)
  moreover have "\<forall>k \<in> set ?scoped. map_of cat k = None" if "lookup_first cat ?scoped = None"
    using that lookup_first_None by blast
  moreover have "\<forall>k \<in> set ?names. map_of cat k = None" if "lookup_first cat ?names = None"
    using that lookup_first_None by blast
  ultimately show ?thesis
    unfolding Let_def set_append
    by (cases "lookup_first cat ?scoped"; cases "lookup_first cat ?names")
       (auto simp del: set_map dest: lookup_first_Some)
qed

definition demo_catalog :: catalog where
  "demo_catalog = [(''gpt-5'', priced ''USD'' 2 0 8), (''provider::acme::gpt-5'', priced ''USD'' 1 0 4)]"

theorem ResolvePricing_sound_witness:
  "\<exists>k p. ResolvePricing demo_catalog ''GPT-5'' [] ''Acme'' = Some (k, p) \<and> k = ''provider::acme::gpt-5''"
proof -
  have "map_option fst (ResolvePricing demo_catalog ''GPT-5'' [] ''Acme'') = Some ''provider::acme::gpt-5''" by code_simp
  then obtain k p where r: "ResolvePricing demo_catalog ''GPT-5'' [] ''Acme'' = Some (k, p)"
    "k = ''provider::acme::gpt-5''" by auto
  with ResolvePricing_sound [where cat = demo_catalog and requestedModel = "''GPT-5''" and effectiveModel = "[]"
      and upstream = "''Acme''"] show ?thesis by auto
qed

text \<open>
  A request is charged for what it used: the total is the sum of its parts, nothing is negative,
  a prompt with cached tokens costs at most what it would cost without the cache, and a cache hit or
  a request that failed costs nothing.
\<close>

theorem fixed_pricing_cost:
  assumes "\<forall>(k, p) \<in> set cat. 0 \<le> pr_InputPer1M p \<and> 0 \<le> pr_InputPer1MUsd p \<and> 0 \<le> pr_OutputPer1M p \<and>
      0 \<le> pr_OutputPer1MUsd p \<and> pr_CachedInputPer1M (normalizePricing p) \<le> pr_InputPer1M (normalizePricing p)"
    and "0 \<le> prompt" "0 \<le> completion"
  shows "let f = resolveFixedPricing (Some cat) requested effective provider prompt cached completion hit status in
    fx_TotalCost f = fx_PromptCost f + fx_CompletionCost f \<and> 0 \<le> fx_PromptCost f \<and> 0 \<le> fx_CompletionCost f \<and>
    fx_PromptCost f \<le> of_int prompt / 1000000 * fx_InputPer1M f \<and>
    (hit \<or> status < 200 \<or> 400 \<le> status \<longrightarrow> fx_TotalCost f = 0)"
proof -
  let ?f = "resolveFixedPricing (Some cat) requested effective provider prompt cached completion hit status"
  let ?u = "\<lparr>us_PromptTokens = prompt, us_CachedPromptTokens = cached, us_CompletionTokens = completion\<rparr>"
  consider (free) "?f = unpriced \<or> ?f = cache_pricing"
    | (priced) k price where "\<not> (hit \<or> status < 200 \<or> 400 \<le> status)"
        "ResolvePricing cat requested effective provider = Some (k, price)" "?f = fixed_at ?u price"
  proof (cases "ResolvePricing cat requested effective provider")
    case None
    then have "?f = unpriced \<or> ?f = cache_pricing" by (simp add: resolveFixedPricing_def)
    then show thesis by (rule that(1))
  next
    case (Some kp)
    obtain k price where kp: "kp = (k, price)" using prod.exhaust by blast
    show thesis
    proof (cases "?f = unpriced \<or> ?f = cache_pricing")
      case True
      then show thesis by (rule that(1))
    next
      case False
      then have "\<not> (hit \<or> status < 200 \<or> 400 \<le> status)" "?f = fixed_at ?u price"
        using Some kp by (auto simp: resolveFixedPricing_def split: if_splits)
      with Some kp show thesis by (intro that(2)) simp_all
    qed
  qed
  then show ?thesis
  proof cases
    case free
    then have zero: "fx_TotalCost ?f = 0" "fx_PromptCost ?f = 0" "fx_CompletionCost ?f = 0" "fx_InputPer1M ?f = 0"
      by (auto simp: unpriced_def cache_pricing_def zero_pricing_def)
    show ?thesis unfolding Let_def zero by simp
  next
    case priced
    then obtain p where p: "(k, p) \<in> set cat" "price = normalizePricing p" using ResolvePricing_Some by blast
    with assms(1) have "0 \<le> pr_InputPer1M price" "0 \<le> pr_OutputPer1M price"
      "pr_CachedInputPer1M price \<le> pr_InputPer1M price"
      using normalizePricing_rates [of p] by auto
    with assms(2,3) have "case calculateNativeCost ?u price of (prompt', completion', both) \<Rightarrow>
        0 \<le> prompt' \<and> prompt' \<le> of_int prompt / 1000000 * pr_InputPer1M price \<and> 0 \<le> completion' \<and>
        both = prompt' + completion'"
      using cost_at_bounds [of ?u "pr_InputPer1M price" "pr_OutputPer1M price" "pr_CachedInputPer1M price"]
      by (simp add: calculateNativeCost_def)
    moreover have "fx_PromptCost ?f = fst (calculateNativeCost ?u price)"
      "fx_CompletionCost ?f = fst (snd (calculateNativeCost ?u price))"
      "fx_TotalCost ?f = snd (snd (calculateNativeCost ?u price))" "fx_InputPer1M ?f = pr_InputPer1M price"
      by (simp_all add: priced(3) fixed_at_def Let_def split_def)
    ultimately show ?thesis
      using priced(1) by (simp add: Let_def split_def)
  qed
qed

theorem fixed_pricing_cost_witness:
  "let f = resolveFixedPricing (Some demo_catalog) ''gpt-5'' [] ''acme'' 1000 10 20 False 200 in
    fx_TotalCost f = fx_PromptCost f + fx_CompletionCost f \<and> fx_PromptCost f \<le> 1000 / 1000000 * fx_InputPer1M f"
proof -
  have "\<forall>(k, p) \<in> set demo_catalog. 0 \<le> pr_InputPer1M p \<and> 0 \<le> pr_InputPer1MUsd p \<and> 0 \<le> pr_OutputPer1M p \<and>
      0 \<le> pr_OutputPer1MUsd p \<and> pr_CachedInputPer1M (normalizePricing p) \<le> pr_InputPer1M (normalizePricing p)"
    by code_simp
  from fixed_pricing_cost [OF this, where prompt = 1000 and completion = 20 and cached = 10 and requested = "''gpt-5''"
      and effective = "[]" and provider = "''acme''" and hit = False and status = 200]
  show ?thesis by (simp add: Let_def)
qed

end
