(* ===== verification/Response_Cache.thy ===== *)
theory Response_Cache
  imports Prelude
begin

text \<open>
  The response cache of \<open>internal/gateway/cache/cache.go\<close>: a map from keys to entries and a list
  of the same entries, most recently used first, with a limit on their number, a limit on their
  bytes and a time to live. Every operation holds the mutex, so it is one step; the background
  sweep is the operation \<open>sweepExpired\<close>. SHA-256 is a parameter.
\<close>

section \<open>The contract of a cache\<close>

text \<open>
  A cache may forget, but it never invents: after any history, what it holds is part of what a
  plain map would hold.
\<close>

datatype ('k, 'v) cache_op =
    OpGet 'k gotime | OpPut 'k 'v gotime | OpDelete 'k | OpSweep gotime

locale kv_cache =
  fixes get :: "gotime \<Rightarrow> 'k \<Rightarrow> 'c \<Rightarrow> 'v option \<times> 'c"
    and put :: "gotime \<Rightarrow> 'k \<Rightarrow> 'v \<Rightarrow> 'c \<Rightarrow> 'c"
    and del :: "'k \<Rightarrow> 'c \<Rightarrow> 'c"
    and sweep :: "gotime \<Rightarrow> 'c \<Rightarrow> 'c"
    and stored :: "'v \<Rightarrow> bool"
    and content :: "'c \<Rightarrow> 'k \<Rightarrow> ('v \<times> gotime) option"
    and fresh :: "'c \<Rightarrow> gotime \<Rightarrow> gotime \<Rightarrow> bool"
    and inv :: "'c \<Rightarrow> bool"
  assumes get_content: "inv c \<Longrightarrow> content (snd (get t k c)) \<subseteq>\<^sub>m content c"
    and get_value: "inv c \<Longrightarrow> fst (get t k c) = Some v \<Longrightarrow>
      \<exists>t0. content c k = Some (v, t0) \<and> fresh c t0 t"
    and put_content: "inv c \<Longrightarrow>
      content (put t k v c) \<subseteq>\<^sub>m (if stored v then (content c)(k \<mapsto> (v, t)) else content c)"
    and del_content: "inv c \<Longrightarrow> content (del k c) \<subseteq>\<^sub>m (content c)(k := None)"
    and sweep_content: "inv c \<Longrightarrow> content (sweep t c) \<subseteq>\<^sub>m content c"
    and get_inv: "inv c \<Longrightarrow> inv (snd (get t k c))"
    and put_inv: "inv c \<Longrightarrow> inv (put t k v c)"
    and del_inv: "inv c \<Longrightarrow> inv (del k c)"
    and sweep_inv: "inv c \<Longrightarrow> inv (sweep t c)"
begin

fun apply_op :: "('k, 'v) cache_op \<Rightarrow> 'c \<Rightarrow> 'c" where
  "apply_op (OpGet k t) c = snd (get t k c)"
| "apply_op (OpPut k v t) c = put t k v c"
| "apply_op (OpDelete k) c = del k c"
| "apply_op (OpSweep t) c = sweep t c"

fun spec_op :: "('k, 'v) cache_op \<Rightarrow> ('k \<Rightarrow> ('v \<times> gotime) option) \<Rightarrow> 'k \<Rightarrow> ('v \<times> gotime) option" where
  "spec_op (OpPut k v t) m = (if stored v then m(k \<mapsto> (v, t)) else m)"
| "spec_op (OpDelete k) m = m(k := None)"
| "spec_op _ m = m"

lemma map_le_upd: "m \<subseteq>\<^sub>m m' \<Longrightarrow> m(k := x) \<subseteq>\<^sub>m m'(k := x)"
  by (auto simp: map_le_def)

lemma refines:
  "inv c \<Longrightarrow> content c \<subseteq>\<^sub>m m \<Longrightarrow>
     inv (fold apply_op ops c) \<and> content (fold apply_op ops c) \<subseteq>\<^sub>m fold spec_op ops m"
proof (induction ops arbitrary: c m)
  case (Cons op ops)
  have "inv (apply_op op c)"
    using Cons.prems by (cases op) (simp_all add: get_inv put_inv del_inv sweep_inv)
  moreover have "content (apply_op op c) \<subseteq>\<^sub>m spec_op op m"
  proof (cases op)
    case (OpPut k v t)
    then show ?thesis
      using put_content [OF Cons.prems(1), of t k v] map_le_upd [OF Cons.prems(2)] Cons.prems(2)
      by (auto intro: map_le_trans split: if_splits)
  next
    case (OpDelete k)
    then show ?thesis
      using map_le_trans [OF del_content [OF Cons.prems(1)] map_le_upd [OF Cons.prems(2)]] by simp
  next
    case (OpGet k t)
    then show ?thesis
      using map_le_trans [OF get_content [OF Cons.prems(1)] Cons.prems(2)] by simp
  next
    case (OpSweep t)
    then show ?thesis
      using map_le_trans [OF sweep_content [OF Cons.prems(1)] Cons.prems(2)] by simp
  qed
  ultimately show ?case using Cons.IH by simp
qed simp

lemma get_sound:
  assumes "inv c" "content c \<subseteq>\<^sub>m m" "fst (get t k (fold apply_op ops c)) = Some v"
  shows "\<exists>t0. fold spec_op ops m k = Some (v, t0) \<and> fresh (fold apply_op ops c) t0 t"
proof -
  from refines [OF assms(1,2), of ops] get_value [of "fold apply_op ops c" t k v] assms(3)
  obtain t0 where "content (fold apply_op ops c) k = Some (v, t0)" "fresh (fold apply_op ops c) t0 t"
    "content (fold apply_op ops c) \<subseteq>\<^sub>m fold spec_op ops m" by blast
  then have "fold spec_op ops m k = Some (v, t0)"
    by (metis domI map_le_def)
  with \<open>fresh (fold apply_op ops c) t0 t\<close> show ?thesis by blast
qed

end

section \<open>The cache\<close>

type_synonym bytes = string

record entry =
  e_key :: string
  e_value :: bytes
  e_bytes :: goint
  e_cachedAt :: gotime

record CacheOptions =
  cco_MaxEntries :: goint
  cco_TTLSec :: goint
  cco_MaxBytes :: goint

record Cache =
  c_entries :: "(string \<times> entry) list"
  c_lru :: "entry list"
  c_maxItems :: goint
  c_ttl :: duration
  c_maxBytes :: goint
  c_currentBytes :: goint
  c_hits :: goint
  c_misses :: goint
  c_evictions :: goint

definition NewCacheWithConfig :: "CacheOptions \<Rightarrow> Cache" where
  "NewCacheWithConfig cfg =
     (let maxEntries = (if cco_MaxEntries cfg \<le> 0 then 1000 else cco_MaxEntries cfg);
          ttlSec = (if cco_TTLSec cfg \<le> 0 then 300 else cco_TTLSec cfg);
          maxBytes = (if cco_MaxBytes cfg \<le> 0 then 0 else cco_MaxBytes cfg)
      in \<lparr>c_entries = [], c_lru = [], c_maxItems = maxEntries, c_ttl = i64 (ttlSec * second),
          c_maxBytes = maxBytes, c_currentBytes = 0, c_hits = 0, c_misses = 0, c_evictions = 0\<rparr>)"

definition NewCache :: "goint \<Rightarrow> goint \<Rightarrow> Cache" where
  "NewCache maxEntries ttlSec =
     NewCacheWithConfig \<lparr>cco_MaxEntries = maxEntries, cco_TTLSec = ttlSec, cco_MaxBytes = 0\<rparr>"

definition removeEntry :: "entry \<Rightarrow> Cache \<Rightarrow> Cache" where
  "removeEntry e c =
     c\<lparr>c_entries := AList.delete (e_key e) (c_entries c), c_lru := remove1 e (c_lru c),
       c_currentBytes := c_currentBytes c - e_bytes e\<rparr>"

definition count_eviction :: "Cache \<Rightarrow> Cache" where
  "count_eviction c = c\<lparr>c_evictions := c_evictions c + 1\<rparr>"

definition expired :: "gotime \<Rightarrow> duration \<Rightarrow> entry \<Rightarrow> bool" where
  "expired now ttl e \<longleftrightarrow> ttl < time_sub now (e_cachedAt e)"

definition Cache_Get :: "gotime \<Rightarrow> string \<Rightarrow> Cache \<Rightarrow> bytes option \<times> Cache" where
  "Cache_Get now key c =
     (case map_of (c_entries c) key of
        None \<Rightarrow> (None, c\<lparr>c_misses := c_misses c + 1\<rparr>)
      | Some e \<Rightarrow>
          if expired now (c_ttl c) e
          then (None, count_eviction (removeEntry e (c\<lparr>c_misses := c_misses c + 1\<rparr>)))
          else (Some (e_value e), c\<lparr>c_lru := e # remove1 e (c_lru c), c_hits := c_hits c + 1\<rparr>))"

text \<open>The two eviction loops of \<open>Put\<close>; the last element of the list is the oldest entry.\<close>

function evict_by_count :: "Cache \<Rightarrow> Cache" where
  "evict_by_count c =
     (if c_lru c \<noteq> [] \<and> c_maxItems c \<le> int (length (c_lru c))
      then evict_by_count (count_eviction (removeEntry (last (c_lru c)) c)) else c)"
  by pat_completeness auto
termination
  by (relation "measure (\<lambda>c. length (c_lru c))")
     (auto simp: removeEntry_def count_eviction_def length_remove1)

function evict_by_bytes :: "goint \<Rightarrow> Cache \<Rightarrow> Cache" where
  "evict_by_bytes newBytes c =
     (if c_lru c \<noteq> [] \<and> 0 < c_maxBytes c \<and> c_maxBytes c < c_currentBytes c + newBytes
      then evict_by_bytes newBytes (count_eviction (removeEntry (last (c_lru c)) c)) else c)"
  by pat_completeness auto
termination
  by (relation "measure (\<lambda>(n, c). length (c_lru c))")
     (auto simp: removeEntry_def count_eviction_def length_remove1)

declare evict_by_count.simps [simp del] evict_by_bytes.simps [simp del]

definition push_entry :: "entry \<Rightarrow> Cache \<Rightarrow> Cache" where
  "push_entry e c =
     c\<lparr>c_lru := e # c_lru c, c_entries := AList.update (e_key e) e (c_entries c),
       c_currentBytes := c_currentBytes c + e_bytes e\<rparr>"

definition Cache_Put :: "gotime \<Rightarrow> string \<Rightarrow> bytes \<Rightarrow> Cache \<Rightarrow> Cache" where
  "Cache_Put now key val c0 =
     (if val = [] then c0
      else let newBytes = int (length val);
          c1 = (case map_of (c_entries c0) key of None \<Rightarrow> c0 | Some existing \<Rightarrow> removeEntry existing c0);
          c2 = evict_by_bytes newBytes (evict_by_count c1)
        in push_entry \<lparr>e_key = key, e_value = val, e_bytes = newBytes, e_cachedAt = now\<rparr> c2)"

definition Cache_Delete :: "string \<Rightarrow> Cache \<Rightarrow> Cache" where
  "Cache_Delete key c =
     (case map_of (c_entries c) key of None \<Rightarrow> c | Some e \<Rightarrow> removeEntry e c)"

definition Cache_Len :: "Cache \<Rightarrow> nat" where "Cache_Len c = length (c_entries c)"

definition Cache_MakeKey ::
  "(bytes \<Rightarrow> string) \<Rightarrow> bytes \<Rightarrow> string \<Rightarrow> string \<Rightarrow> string" where
  "Cache_MakeKey sha256hex body model namespace =
     sha256hex (body @ model @ (if namespace \<noteq> [] then namespace else []))"

definition Cache_sweepExpired :: "gotime \<Rightarrow> Cache \<Rightarrow> nat \<times> Cache" where
  "Cache_sweepExpired now c =
     (let old = filter (expired now (c_ttl c)) (map snd (c_entries c));
          c' = fold removeEntry old c
      in (length old, c'\<lparr>c_evictions := c_evictions c' + int (length old)\<rparr>))"

function ensure_loop :: "nat \<Rightarrow> Cache \<Rightarrow> nat \<times> Cache" where
  "ensure_loop n c =
     (if c_lru c \<noteq> [] \<and> c_maxBytes c < c_currentBytes c
      then ensure_loop (Suc n) (removeEntry (last (c_lru c)) c) else (n, c))"
  by pat_completeness auto
termination
  by (relation "measure (\<lambda>(n, c). length (c_lru c))") (auto simp: removeEntry_def length_remove1)

definition Cache_ensureSize :: "Cache \<Rightarrow> nat \<times> Cache" where
  "Cache_ensureSize c =
     (if c_maxBytes c \<le> 0 then (0, c)
      else let (evicted, c') = ensure_loop 0 c
        in (evicted, c'\<lparr>c_evictions := c_evictions c' + int evicted\<rparr>))"

declare ensure_loop.simps [simp del]

section \<open>The invariant\<close>

text \<open>The map and the list hold the same entries, and the byte count is their total size.\<close>

definition linked :: "Cache \<Rightarrow> bool" where
  "linked c \<longleftrightarrow>
     distinct (map e_key (c_lru c)) \<and> distinct (map fst (c_entries c)) \<and>
     set (c_entries c) = (\<lambda>e. (e_key e, e)) ` set (c_lru c) \<and>
     c_currentBytes c = sum_list (map e_bytes (c_lru c)) \<and>
     (\<forall>e \<in> set (c_lru c). e_bytes e = int (length (e_value e)) \<and> e_value e \<noteq> []) \<and>
     1 \<le> c_maxItems c \<and> 0 \<le> c_maxBytes c"

text \<open>
  The limits hold too, with one exception: a value larger than the byte limit is stored all the
  same, alone.
\<close>

definition within_limits :: "Cache \<Rightarrow> bool" where
  "within_limits c \<longleftrightarrow>
     int (length (c_lru c)) \<le> c_maxItems c \<and>
     (c_maxBytes c = 0 \<or> c_currentBytes c \<le> c_maxBytes c \<or> length (c_lru c) = 1)"

lemma linked_lookup:
  assumes "linked c"
  shows "map_of (c_entries c) k = Some e \<longleftrightarrow> e \<in> set (c_lru c) \<and> e_key e = k"
  using assms by (auto simp: linked_def map_of_eq_Some_iff image_iff)

lemma linked_length: "linked c \<Longrightarrow> length (c_entries c) = length (c_lru c)"
proof -
  assume "linked c"
  then have "set (map fst (c_entries c)) = set (map e_key (c_lru c))"
    "distinct (map fst (c_entries c))" "distinct (map e_key (c_lru c))"
    by (auto simp: linked_def image_image)
  then show ?thesis by (metis distinct_card length_map)
qed

lemma remove1_filter:
  assumes "distinct (map e_key es)" "e \<in> set es"
  shows "remove1 e es = filter (\<lambda>x. e_key x \<noteq> e_key e) es"
proof -
  have "remove1 e es = filter (\<lambda>x. x \<noteq> e) es"
    using assms(1) by (simp add: distinct_remove1_removeAll removeAll_filter_not_eq distinct_map eq_commute [of e])
  also have "\<dots> = filter (\<lambda>x. e_key x \<noteq> e_key e) es"
    using assms by (intro filter_cong) (auto simp: distinct_map dest: inj_onD)
  finally show ?thesis .
qed

lemma sum_remove1: "e \<in> set es \<Longrightarrow> sum_list (map f (remove1 e es)) = sum_list (map f es) - (f e :: int)"
  by (induction es) auto

lemma removeEntry_linked [inv_intros]:
  assumes "linked c" "e \<in> set (c_lru c)"
  shows "linked (removeEntry e c)"
proof -
  have "remove1 e (c_lru c) = filter (\<lambda>x. e_key x \<noteq> e_key e) (c_lru c)"
    using assms by (intro remove1_filter) (simp_all add: linked_def)
  then show ?thesis
    using assms sum_remove1 [OF assms(2), of e_bytes]
    by (auto simp: linked_def removeEntry_def distinct_delete AList.delete_eq distinct_map_filter image_iff)
qed

definition same_config :: "Cache \<Rightarrow> Cache \<Rightarrow> bool" where
  "same_config c c' \<longleftrightarrow> c_maxItems c' = c_maxItems c \<and> c_ttl c' = c_ttl c \<and> c_maxBytes c' = c_maxBytes c"

lemma same_config_trans: "same_config a b \<Longrightarrow> same_config b c \<Longrightarrow> same_config a c"
  by (simp add: same_config_def)

lemma same_config_refl [simp]: "same_config c c"
  by (simp add: same_config_def)

lemma removeEntry_fields [simp]:
  "c_lru (removeEntry e c) = remove1 e (c_lru c)"
  "same_config c (removeEntry e c)"
  "c_currentBytes (removeEntry e c) = c_currentBytes c - e_bytes e"
  by (simp_all add: removeEntry_def same_config_def)

lemma count_eviction_fields [simp]:
  "c_lru (count_eviction c) = c_lru c" "c_entries (count_eviction c) = c_entries c"
  "c_currentBytes (count_eviction c) = c_currentBytes c"
  "same_config c' (count_eviction c) = same_config c' c" "linked (count_eviction c) = linked c"
  by (simp_all add: count_eviction_def same_config_def linked_def)

lemma counters_frame [simp]:
  "linked (c\<lparr>c_evictions := x\<rparr>) = linked c" "same_config c' (c\<lparr>c_evictions := x\<rparr>) = same_config c' c"
  "linked (c\<lparr>c_misses := x\<rparr>) = linked c" "same_config c' (c\<lparr>c_misses := x\<rparr>) = same_config c' c"
  "linked (c\<lparr>c_hits := x\<rparr>) = linked c" "same_config c' (c\<lparr>c_hits := x\<rparr>) = same_config c' c"
  by (simp_all add: linked_def same_config_def)

lemma remove1_last: "distinct xs \<Longrightarrow> xs \<noteq> [] \<Longrightarrow> remove1 (last xs) xs = butlast xs"
  by (induction xs rule: rev_induct) (auto simp: remove1_append)

lemma linked_distinct: "linked c \<Longrightarrow> distinct (c_lru c)"
  by (simp add: linked_def distinct_map)

lemma evict_oldest:
  assumes "linked c" "c_lru c \<noteq> []"
  shows "linked (count_eviction (removeEntry (last (c_lru c)) c))"
    "c_lru (count_eviction (removeEntry (last (c_lru c)) c)) = butlast (c_lru c)"
    "same_config c (count_eviction (removeEntry (last (c_lru c)) c))"
  using removeEntry_linked [OF assms(1) last_in_set [OF assms(2)]]
    remove1_last [OF linked_distinct [OF assms(1)] assms(2)]
  by simp_all

lemma evict_by_count_spec:
  "linked c \<Longrightarrow>
     linked (evict_by_count c) \<and> same_config c (evict_by_count c) \<and>
     c_lru (evict_by_count c) =
       (if c_maxItems c \<le> int (length (c_lru c)) then take (nat (c_maxItems c - 1)) (c_lru c) else c_lru c)"
proof (induction c rule: evict_by_count.induct)
  case (1 c)
  have max: "1 \<le> c_maxItems c" using 1 by (simp add: linked_def)
  show ?case
  proof (cases "c_lru c \<noteq> [] \<and> c_maxItems c \<le> int (length (c_lru c))")
    case True
    let ?c = "count_eviction (removeEntry (last (c_lru c)) c)"
    have oldest: "linked ?c" "c_lru ?c = butlast (c_lru c)" "same_config c ?c"
      using evict_oldest [OF "1.prems"] True by blast+
    have step: "evict_by_count c = evict_by_count ?c"
      using True by (subst evict_by_count.simps) simp
    from "1.IH" [OF True oldest(1)]
    have ih: "linked (evict_by_count c)" "same_config ?c (evict_by_count c)"
      "c_lru (evict_by_count c) = (if c_maxItems ?c \<le> int (length (c_lru ?c))
         then take (nat (c_maxItems ?c - 1)) (c_lru ?c) else c_lru ?c)"
      unfolding step by blast+
    have m: "c_maxItems ?c = c_maxItems c" using oldest(3) by (simp add: same_config_def)
    have "nat (c_maxItems c - 1) \<le> length (c_lru c) - 1" using True by linarith
    moreover have "butlast (c_lru c) = take (nat (c_maxItems c - 1)) (c_lru c)"
      if "\<not> c_maxItems c \<le> int (length (butlast (c_lru c)))"
    proof -
      have "nat (c_maxItems c - 1) = length (c_lru c) - 1"
        using that True max by (simp add: of_nat_diff)
      then show ?thesis by (simp add: butlast_conv_take)
    qed
    ultimately show ?thesis
      using ih same_config_trans [OF oldest(3) ih(2)] True
      unfolding m oldest(2) by (auto simp: take_butlast min_def butlast_conv_take)
  next
    case False
    then have "evict_by_count c = c" by (subst evict_by_count.simps) auto
    with False max 1 show ?thesis by auto
  qed
qed

lemma evict_by_bytes_spec:
  "linked c \<Longrightarrow>
     linked (evict_by_bytes n c) \<and> same_config c (evict_by_bytes n c) \<and>
     (\<exists>k \<le> length (c_lru c). c_lru (evict_by_bytes n c) = take k (c_lru c) \<and>
        (k < length (c_lru c) \<longrightarrow>
           0 < c_maxBytes c \<and> c_maxBytes c < sum_list (map e_bytes (take (Suc k) (c_lru c))) + n) \<and>
        (k = 0 \<or> c_maxBytes c = 0 \<or> sum_list (map e_bytes (take k (c_lru c))) + n \<le> c_maxBytes c))"
proof (induction n c rule: evict_by_bytes.induct)
  case (1 n c)
  have cur: "c_currentBytes c = sum_list (map e_bytes (c_lru c))" "0 \<le> c_maxBytes c"
    using 1 by (simp_all add: linked_def)
  show ?case
  proof (cases "c_lru c \<noteq> [] \<and> 0 < c_maxBytes c \<and> c_maxBytes c < c_currentBytes c + n")
    case True
    let ?c = "count_eviction (removeEntry (last (c_lru c)) c)"
    have oldest: "linked ?c" "c_lru ?c = butlast (c_lru c)" "same_config c ?c"
      using evict_oldest [OF "1.prems"] True by blast+
    have step: "evict_by_bytes n c = evict_by_bytes n ?c"
      using True by (subst evict_by_bytes.simps) simp
    have m: "c_maxBytes ?c = c_maxBytes c" using oldest(3) by (simp add: same_config_def)
    from "1.IH" [OF True oldest(1)] obtain k where k: "k \<le> length (c_lru ?c)"
      "c_lru (evict_by_bytes n c) = take k (c_lru ?c)"
      "k < length (c_lru ?c) \<longrightarrow> 0 < c_maxBytes c \<and>
         c_maxBytes c < sum_list (map e_bytes (take (Suc k) (c_lru ?c))) + n"
      "k = 0 \<or> c_maxBytes c = 0 \<or> sum_list (map e_bytes (take k (c_lru ?c))) + n \<le> c_maxBytes c"
      unfolding step m by blast
    have len: "length (butlast (c_lru c)) = length (c_lru c) - 1" "c_lru c \<noteq> []" using True by simp_all
    have tk: "take j (butlast (c_lru c)) = take j (c_lru c)" if "j \<le> length (c_lru c) - 1" for j
      using that len(2) by (cases "j = length (c_lru c) - 1") (simp_all add: take_butlast butlast_conv_take)
    have "c_maxBytes c < sum_list (map e_bytes (take (Suc k) (c_lru c))) + n"
    proof (cases "k < length (c_lru c) - 1")
      case less: True
      with k(3) show ?thesis unfolding oldest(2) by (simp add: tk Suc_le_eq)
    next
      case False
      with k(1) have "Suc k = length (c_lru c)" unfolding oldest(2) using len by simp
      with True cur show ?thesis by simp
    qed
    moreover have "k < length (c_lru c)"
      using k(1) len unfolding oldest(2) by (cases "c_lru c") auto
    ultimately have "k \<le> length (c_lru c) \<and> c_lru (evict_by_bytes n c) = take k (c_lru c) \<and>
        (k < length (c_lru c) \<longrightarrow>
           0 < c_maxBytes c \<and> c_maxBytes c < sum_list (map e_bytes (take (Suc k) (c_lru c))) + n) \<and>
        (k = 0 \<or> c_maxBytes c = 0 \<or> sum_list (map e_bytes (take k (c_lru c))) + n \<le> c_maxBytes c)"
      using k True tk [of k] unfolding oldest(2) by simp
    moreover have "linked (evict_by_bytes n c)" "same_config c (evict_by_bytes n c)"
      using "1.IH" [OF True oldest(1)] same_config_trans [OF oldest(3)] unfolding step by blast+
    ultimately show ?thesis by blast
  next
    case False
    then have "evict_by_bytes n c = c" by (subst evict_by_bytes.simps) auto
    with False cur 1 show ?thesis by (intro conjI exI [of _ "length (c_lru c)"]) auto
  qed
qed

lemma take_keys: "set (take n es) \<subseteq> set es"
  by (rule set_take_subset)

lemma Cache_Delete_spec:
  assumes "linked c"
  shows "linked (Cache_Delete key c)" "same_config c (Cache_Delete key c)"
    "c_lru (Cache_Delete key c) = filter (\<lambda>e. e_key e \<noteq> key) (c_lru c)"
proof -
  have d: "distinct (map e_key (c_lru c))" using assms(1) by (simp add: linked_def)
  consider "map_of (c_entries c) key = None" | e where "map_of (c_entries c) key = Some e" by fastforce
  then have "linked (Cache_Delete key c) \<and> same_config c (Cache_Delete key c) \<and>
    c_lru (Cache_Delete key c) = filter (\<lambda>e. e_key e \<noteq> key) (c_lru c)"
  proof cases
    case 1
    then have "e_key e \<noteq> key" if "e \<in> set (c_lru c)" for e
      using linked_lookup [OF assms(1), of key e] that by auto
    then have "filter (\<lambda>e. e_key e \<noteq> key) (c_lru c) = c_lru c" by (simp add: filter_id_conv)
    with 1 assms show ?thesis by (simp add: Cache_Delete_def)
  next
    case 2
    then have "e \<in> set (c_lru c)" "e_key e = key" using linked_lookup [OF assms(1)] by auto
    with 2 show ?thesis
      using removeEntry_linked [OF assms(1)] remove1_filter [OF d] by (simp add: Cache_Delete_def)
  qed
  then show "linked (Cache_Delete key c)" "same_config c (Cache_Delete key c)"
    "c_lru (Cache_Delete key c) = filter (\<lambda>e. e_key e \<noteq> key) (c_lru c)" by blast+
qed

lemma update_new: "k \<notin> fst ` set xs \<Longrightarrow> AList.update k v xs = xs @ [(k, v)]"
  by (induction xs) auto

lemma push_entry_linked:
  assumes "linked c" "e_key e \<notin> e_key ` set (c_lru c)" "e_bytes e = int (length (e_value e))" "e_value e \<noteq> []"
  shows "linked (push_entry e c)"
proof -
  have "e_key e \<notin> fst ` set (c_entries c)"
    using assms(1,2) by (auto simp: linked_def image_image)
  then have "set (AList.update (e_key e) e (c_entries c)) = insert (e_key e, e) (set (c_entries c))"
    by (simp add: update_new)
  with assms show ?thesis
    by (auto simp: linked_def push_entry_def distinct_update image_iff)
qed

text \<open>
  What \<open>Put\<close> leaves: the new entry in front of as many of the most recently used other entries as
  the limits allow.
\<close>

lemma Cache_Put_spec:
  assumes "linked c" "v \<noteq> []" and es_def: "es = filter (\<lambda>e. e_key e \<noteq> key) (c_lru c)"
  shows "linked (Cache_Put now key v c) \<and> same_config c (Cache_Put now key v c) \<and>
    (\<exists>n \<le> length es.
       c_lru (Cache_Put now key v c) =
         \<lparr>e_key = key, e_value = v, e_bytes = int (length v), e_cachedAt = now\<rparr> # take n es \<and>
       int n \<le> c_maxItems c - 1 \<and>
       (n = 0 \<or> c_maxBytes c = 0 \<or> sum_list (map e_bytes (take n es)) + int (length v) \<le> c_maxBytes c) \<and>
       (n < length es \<longrightarrow> int n = c_maxItems c - 1 \<or>
          (0 < c_maxBytes c \<and> c_maxBytes c < sum_list (map e_bytes (take (Suc n) es)) + int (length v))))"
proof -
  define c1 where "c1 = Cache_Delete key c"
  define c2 where "c2 = evict_by_count c1"
  define c3 where "c3 = evict_by_bytes (int (length v)) c2"
  define e where "e = \<lparr>e_key = key, e_value = v, e_bytes = int (length v), e_cachedAt = now\<rparr>"
  define m where "m = (if c_maxItems c \<le> int (length es) then nat (c_maxItems c - 1) else length es)"
  note c1 = Cache_Delete_spec [OF assms(1), of key, folded c1_def es_def]
  have c2: "linked c2" "same_config c c2" "c_lru c2 = take m es"
    using evict_by_count_spec [OF c1(1)] same_config_trans [OF c1(2)] c1(2,3)
    by (auto simp: c2_def m_def same_config_def)
  have max: "1 \<le> c_maxItems c" "0 \<le> c_maxBytes c" using assms(1) by (simp_all add: linked_def)
  have m: "m \<le> length es" "int m \<le> c_maxItems c - 1" "m < length es \<longrightarrow> int m = c_maxItems c - 1"
    using max by (auto simp: m_def)
  obtain n where n: "n \<le> m" "c_lru c3 = take n es"
    "n < m \<longrightarrow> 0 < c_maxBytes c \<and> c_maxBytes c < sum_list (map e_bytes (take (Suc n) es)) + int (length v)"
    "n = 0 \<or> c_maxBytes c = 0 \<or> sum_list (map e_bytes (take n es)) + int (length v) \<le> c_maxBytes c"
    and c3: "linked c3" "same_config c c3"
  proof -
    have "length (take m es) = m" using m(1) by simp
    moreover obtain k where "k \<le> length (c_lru c2)" "c_lru c3 = take k (c_lru c2)"
      "k < length (c_lru c2) \<longrightarrow> 0 < c_maxBytes c2 \<and>
         c_maxBytes c2 < sum_list (map e_bytes (take (Suc k) (c_lru c2))) + int (length v)"
      "k = 0 \<or> c_maxBytes c2 = 0 \<or> sum_list (map e_bytes (take k (c_lru c2))) + int (length v) \<le> c_maxBytes c2"
      "linked c3" "same_config c2 c3"
      using evict_by_bytes_spec [OF c2(1), of "int (length v)"] unfolding c3_def by blast
    ultimately show thesis
      using that [of k] c2 same_config_trans [OF c2(2)]
      by (simp add: same_config_def min_absorb1 Suc_le_eq min_def split: if_splits)
  qed
  have put: "Cache_Put now key v c = push_entry e c3"
    using assms(2) by (simp add: Cache_Put_def Let_def Cache_Delete_def [symmetric] c1_def [symmetric]
        c2_def [symmetric] c3_def [symmetric] e_def)
  have "e_key e \<notin> e_key ` set (c_lru c3)"
    using set_take_subset [of n es] by (auto simp: n(2) e_def es_def)
  then have "linked (push_entry e c3)"
    using push_entry_linked [OF c3(1), of e] assms(2) by (simp add: e_def)
  moreover have "c_lru (push_entry e c3) = e # take n es" "same_config c (push_entry e c3)"
    using n(2) c3(2) by (simp_all add: push_entry_def same_config_def)
  moreover have "n < length es \<longrightarrow> int n = c_maxItems c - 1 \<or>
      (0 < c_maxBytes c \<and> c_maxBytes c < sum_list (map e_bytes (take (Suc n) es)) + int (length v))"
    using n(1,3) m by (cases "n < m") auto
  ultimately show ?thesis
    using n m unfolding put e_def by (intro conjI exI [of _ n]) auto
qed

text \<open>\<open>Get\<close> reports a fresh entry and moves it to the front; it drops an expired one.\<close>

lemma Cache_Get_spec:
  assumes "linked c"
  shows "case map_of (c_entries c) key of
      None \<Rightarrow> fst (Cache_Get now key c) = None \<and> c_lru (snd (Cache_Get now key c)) = c_lru c
    | Some e \<Rightarrow>
        if expired now (c_ttl c) e
        then fst (Cache_Get now key c) = None \<and>
          c_lru (snd (Cache_Get now key c)) = filter (\<lambda>e. e_key e \<noteq> key) (c_lru c)
        else fst (Cache_Get now key c) = Some (e_value e) \<and>
          c_lru (snd (Cache_Get now key c)) = e # filter (\<lambda>e. e_key e \<noteq> key) (c_lru c)"
    and "linked (snd (Cache_Get now key c))" "same_config c (snd (Cache_Get now key c))"
proof -
  have d: "distinct (map e_key (c_lru c))" using assms by (simp add: linked_def)
  show "case map_of (c_entries c) key of
      None \<Rightarrow> fst (Cache_Get now key c) = None \<and> c_lru (snd (Cache_Get now key c)) = c_lru c
    | Some e \<Rightarrow>
        if expired now (c_ttl c) e
        then fst (Cache_Get now key c) = None \<and>
          c_lru (snd (Cache_Get now key c)) = filter (\<lambda>e. e_key e \<noteq> key) (c_lru c)
        else fst (Cache_Get now key c) = Some (e_value e) \<and>
          c_lru (snd (Cache_Get now key c)) = e # filter (\<lambda>e. e_key e \<noteq> key) (c_lru c)"
  proof (cases "map_of (c_entries c) key")
    case None
    then show ?thesis by (simp add: Cache_Get_def)
  next
    case (Some e)
    then have e: "e \<in> set (c_lru c)" "e_key e = key" using linked_lookup [OF assms] by auto
    with Some remove1_filter [OF d e(1)] show ?thesis by (simp add: Cache_Get_def)
  qed
  show "linked (snd (Cache_Get now key c))" "same_config c (snd (Cache_Get now key c))"
  proof (atomize (full), cases "map_of (c_entries c) key")
    case None
    then show "linked (snd (Cache_Get now key c)) \<and> same_config c (snd (Cache_Get now key c))"
      using assms by (simp add: Cache_Get_def)
  next
    case (Some e)
    then have e: "e \<in> set (c_lru c)" "e_key e = key" using linked_lookup [OF assms] by auto
    have m: "mset (e # remove1 e (c_lru c)) = mset (c_lru c)" using e by simp
    from mset_eq_imp_distinct_iff [OF arg_cong [OF m, of "image_mset e_key", folded mset_map]]
    have "distinct (map e_key (e # remove1 e (c_lru c)))" using d by blast
    moreover have "sum_list (map e_bytes (e # remove1 e (c_lru c))) = sum_list (map e_bytes (c_lru c))"
      using sum_remove1 [OF e(1), of e_bytes] by simp
    moreover have "set (e # remove1 e (c_lru c)) = set (c_lru c)"
      using arg_cong [OF m, of set_mset] by (simp only: set_mset_mset)
    ultimately have "linked (c\<lparr>c_lru := e # remove1 e (c_lru c), c_hits := x\<rparr>)" for x
      using assms by (simp add: linked_def)
    then show "linked (snd (Cache_Get now key c)) \<and> same_config c (snd (Cache_Get now key c))"
      using Some removeEntry_linked [of "c\<lparr>c_misses := c_misses c + 1\<rparr>" e] e(1) assms
      by (auto simp: Cache_Get_def same_config_def removeEntry_def count_eviction_def)
  qed
qed

lemma sweep_fold:
  "linked c \<Longrightarrow> distinct (map e_key es) \<Longrightarrow> set es \<subseteq> set (c_lru c) \<Longrightarrow>
     linked (fold removeEntry es c) \<and> same_config c (fold removeEntry es c) \<and>
     c_lru (fold removeEntry es c) = filter (\<lambda>e. e_key e \<notin> e_key ` set es) (c_lru c)"
proof (induction es arbitrary: c)
  case (Cons e es)
  have d: "distinct (map e_key (c_lru c))" using Cons.prems(1) by (simp add: linked_def)
  have lru: "c_lru (removeEntry e c) = filter (\<lambda>x. e_key x \<noteq> e_key e) (c_lru c)"
    using remove1_filter [OF d, of e] Cons.prems(3) by simp
  have "set es \<subseteq> set (c_lru (removeEntry e c))"
    using Cons.prems(2,3) unfolding lru by auto (metis imageI)
  from Cons.IH [OF removeEntry_linked [OF Cons.prems(1)] _ this] Cons.prems
    same_config_trans [OF removeEntry_fields(2) [of c e]]
  show ?case unfolding lru by (auto intro!: filter_cong)
qed simp

lemma Cache_sweepExpired_spec:
  assumes "linked c"
  shows "linked (snd (Cache_sweepExpired now c))" "same_config c (snd (Cache_sweepExpired now c))"
    "c_lru (snd (Cache_sweepExpired now c)) = filter (\<lambda>e. \<not> expired now (c_ttl c) e) (c_lru c)"
    "fst (Cache_sweepExpired now c) = length (filter (expired now (c_ttl c)) (c_lru c))"
proof -
  let ?old = "filter (expired now (c_ttl c)) (map snd (c_entries c))"
  have fst: "fst p = e_key (snd p)" if "p \<in> set (c_entries c)" for p
    using assms that by (auto simp: linked_def)
  then have keys: "map e_key (map snd (c_entries c)) = map fst (c_entries c)" by simp
  have ents: "set (map snd (c_entries c)) = set (c_lru c)"
    using assms by (auto simp: linked_def image_image)
  have dist: "distinct (map e_key ?old)"
    using assms keys by (metis distinct_map_filter linked_def)
  have sub: "set ?old \<subseteq> set (c_lru c)" using ents by auto
  have inj: "e_key e \<notin> e_key ` set ?old \<longleftrightarrow> \<not> expired now (c_ttl c) e" if "e \<in> set (c_lru c)" for e
    using that ents assms by (auto simp: linked_def distinct_map dest: inj_onD)
  note fold = sweep_fold [OF assms dist sub]
  show "linked (snd (Cache_sweepExpired now c))" "same_config c (snd (Cache_sweepExpired now c))"
    using fold by (simp_all add: Cache_sweepExpired_def Let_def)
  show "c_lru (snd (Cache_sweepExpired now c)) = filter (\<lambda>e. \<not> expired now (c_ttl c) e) (c_lru c)"
  proof -
    have "c_lru (snd (Cache_sweepExpired now c)) = filter (\<lambda>e. e_key e \<notin> e_key ` set ?old) (c_lru c)"
      using fold by (simp add: Cache_sweepExpired_def Let_def)
    also have "\<dots> = filter (\<lambda>e. \<not> expired now (c_ttl c) e) (c_lru c)"
      by (rule filter_cong [OF refl inj])
    finally show ?thesis .
  qed
  have "distinct (map snd (c_entries c))" using assms keys by (metis distinct_map linked_def)
  then have "mset (map snd (c_entries c)) = mset (c_lru c)"
    using ents linked_distinct [OF assms] by (metis set_eq_iff_mset_eq_distinct)
  then have "size (mset ?old) = size (mset (filter (expired now (c_ttl c)) (c_lru c)))"
    by (simp only: mset_filter)
  then show "fst (Cache_sweepExpired now c) = length (filter (expired now (c_ttl c)) (c_lru c))"
    unfolding Cache_sweepExpired_def Let_def fst_conv size_mset .
qed

section \<open>The cache meets the contract\<close>

definition cache_content :: "Cache \<Rightarrow> string \<Rightarrow> (bytes \<times> gotime) option" where
  "cache_content c k = map_option (\<lambda>e. (e_value e, e_cachedAt e)) (find (\<lambda>e. e_key e = k) (c_lru c))"

definition cache_inv :: "duration \<Rightarrow> Cache \<Rightarrow> bool" where
  "cache_inv ttl c \<longleftrightarrow> linked c \<and> within_limits c \<and> c_ttl c = ttl"

lemma find_filter_key:
  "find (\<lambda>e. e_key e = k) (filter P es) = Some e \<Longrightarrow> distinct (map e_key es) \<Longrightarrow>
     find (\<lambda>e. e_key e = k) es = Some e"
  by (induction es) (auto split: if_splits dest!: find_Some_set)

lemma find_key_iff:
  "distinct (map e_key es) \<Longrightarrow> find (\<lambda>e. e_key e = k) es = Some e \<longleftrightarrow> e \<in> set es \<and> e_key e = k"
  by (induction es) (auto simp: image_iff split: if_splits)

lemma content_mono:
  assumes "distinct (map e_key (c_lru c))" "distinct (map e_key (c_lru c'))" "set (c_lru c') \<subseteq> set (c_lru c)"
  shows "cache_content c' \<subseteq>\<^sub>m cache_content c"
proof -
  have "find (\<lambda>e. e_key e = k) (c_lru c) = Some e" if "find (\<lambda>e. e_key e = k) (c_lru c') = Some e" for k e
    using that assms by (auto simp: find_key_iff)
  then show ?thesis
    by (auto simp: map_le_def cache_content_def dom_def)
qed

lemma cache_linked: "cache_inv ttl c \<Longrightarrow> linked c"
  by (simp add: cache_inv_def)

lemma linked_keys: "linked c \<Longrightarrow> distinct (map e_key (c_lru c))"
  by (simp add: linked_def)

text \<open>Operations that only drop entries keep the limits.\<close>

lemma within_limits_drop:
  assumes "linked c" "within_limits c" "linked c'" "same_config c c'" "set (c_lru c') \<subseteq> set (c_lru c)"
  shows "within_limits c'"
proof -
  have d: "distinct (c_lru c)" "distinct (c_lru c')" using assms linked_distinct by auto
  have len: "length (c_lru c') \<le> length (c_lru c)"
    using d assms(5) by (metis card_mono distinct_card finite_set)
  have nn: "0 \<le> e_bytes e" if "e \<in> set (c_lru c)" for e
    using assms(1) that by (auto simp: linked_def)
  have "c_currentBytes c' \<le> c_currentBytes c"
    using assms(1,3,5) d nn by (auto simp: linked_def sum_list_distinct_conv_sum_set intro!: sum_mono2)
  moreover have "length (c_lru c') = 1 \<or> c_currentBytes c' \<le> c_maxBytes c'" if "length (c_lru c) = 1"
    using len that assms(3) by (cases "c_lru c'") (auto simp: linked_def)
  ultimately show ?thesis
    using assms(2,4) len by (auto simp: within_limits_def same_config_def)
qed

lemma Cache_Put_limits:
  assumes "linked c" "v \<noteq> []"
  shows "within_limits (Cache_Put now key v c)"
proof -
  from Cache_Put_spec [OF assms refl, of now key] obtain n where n:
    "linked (Cache_Put now key v c)" "same_config c (Cache_Put now key v c)"
    "n \<le> length (filter (\<lambda>e. e_key e \<noteq> key) (c_lru c))"
    "c_lru (Cache_Put now key v c) = \<lparr>e_key = key, e_value = v, e_bytes = int (length v), e_cachedAt = now\<rparr>
       # take n (filter (\<lambda>e. e_key e \<noteq> key) (c_lru c))"
    "int n \<le> c_maxItems c - 1"
    "n = 0 \<or> c_maxBytes c = 0 \<or>
       sum_list (map e_bytes (take n (filter (\<lambda>e. e_key e \<noteq> key) (c_lru c)))) + int (length v) \<le> c_maxBytes c"
    by blast
  have "c_currentBytes (Cache_Put now key v c) = sum_list (map e_bytes (c_lru (Cache_Put now key v c)))"
    using n(1) by (simp add: linked_def)
  with n(2-6) show ?thesis
    unfolding within_limits_def n(4) same_config_def by auto
qed

interpretation cache: kv_cache Cache_Get Cache_Put Cache_Delete "\<lambda>t c. snd (Cache_sweepExpired t c)"
    "\<lambda>v. v \<noteq> []" cache_content "\<lambda>c t0 t. time_sub t t0 \<le> c_ttl c" "cache_inv ttl"
  for ttl
proof
  fix c :: Cache and t k v
  assume "cache_inv ttl c"
  then have c: "linked c" "within_limits c" "c_ttl c = ttl" by (simp_all add: cache_inv_def)
  note keys = linked_keys [OF c(1)]
  have lookup: "map_of (c_entries c) k = find (\<lambda>e. e_key e = k) (c_lru c)"
    using linked_lookup [OF c(1), of k] find_key_iff [OF keys, of k]
    by (metis not_Some_eq)
  have sub_get: "set (c_lru (snd (Cache_Get t k c))) \<subseteq> set (c_lru c)"
    using Cache_Get_spec(1) [OF c(1), where key = k and now = t] linked_lookup [OF c(1), of k]
    by (auto split: option.splits if_splits)
  show "cache_content (snd (Cache_Get t k c)) \<subseteq>\<^sub>m cache_content c"
    by (rule content_mono [OF keys linked_keys [OF Cache_Get_spec(2) [OF c(1)]] sub_get])
  show "cache_inv ttl (snd (Cache_Get t k c))"
    using within_limits_drop [OF c(1,2) Cache_Get_spec(2,3) [OF c(1)] sub_get] Cache_Get_spec(2,3) [OF c(1)] c(3)
    by (simp add: cache_inv_def same_config_def)
  show "\<exists>t0. cache_content c k = Some (v, t0) \<and> time_sub t t0 \<le> c_ttl c" if "fst (Cache_Get t k c) = Some v"
    using that Cache_Get_spec(1) [OF c(1), where key = k and now = t] unfolding lookup
    by (auto simp: cache_content_def expired_def split: option.splits if_splits)
  have del: "set (c_lru (Cache_Delete k c)) \<subseteq> set (c_lru c)"
    using Cache_Delete_spec(3) [OF c(1), of k] by auto
  show "cache_inv ttl (Cache_Delete k c)"
    using within_limits_drop [OF c(1,2) Cache_Delete_spec(1,2) [OF c(1)] del] Cache_Delete_spec(1,2) [OF c(1)] c(3)
    by (simp add: cache_inv_def same_config_def)
  have "cache_content (Cache_Delete k c) k = None"
    by (auto simp: cache_content_def Cache_Delete_spec(3) [OF c(1)] find_None_set)
  with content_mono [OF keys linked_keys [OF Cache_Delete_spec(1) [OF c(1)]] del]
  show "cache_content (Cache_Delete k c) \<subseteq>\<^sub>m (cache_content c)(k := None)"
    by (auto simp: map_le_def)
  have sweep: "set (c_lru (snd (Cache_sweepExpired t c))) \<subseteq> set (c_lru c)"
    using Cache_sweepExpired_spec(3) [OF c(1), of t] by auto
  show "cache_content (snd (Cache_sweepExpired t c)) \<subseteq>\<^sub>m cache_content c"
    by (rule content_mono [OF keys linked_keys [OF Cache_sweepExpired_spec(1) [OF c(1)]] sweep])
  show "cache_inv ttl (snd (Cache_sweepExpired t c))"
    using within_limits_drop [OF c(1,2) Cache_sweepExpired_spec(1,2) [OF c(1)] sweep]
      Cache_sweepExpired_spec(1,2) [OF c(1)] c(3)
    by (simp add: cache_inv_def same_config_def)
  show "cache_inv ttl (Cache_Put t k v c)"
  proof (cases "v = []")
    case True
    then show ?thesis using c by (simp add: Cache_Put_def cache_inv_def)
  next
    case False
    then show ?thesis
      using Cache_Put_limits [OF c(1) False, of t k] Cache_Put_spec [OF c(1) False refl, of t k] c(3)
      by (auto simp: cache_inv_def same_config_def)
  qed
  show "cache_content (Cache_Put t k v c) \<subseteq>\<^sub>m
      (if v \<noteq> [] then (cache_content c)(k \<mapsto> (v, t)) else cache_content c)"
  proof (cases "v = []")
    case True
    then show ?thesis by (simp add: Cache_Put_def)
  next
    case False
    from Cache_Put_spec [OF c(1) False refl, of t k] obtain n where n:
      "c_lru (Cache_Put t k v c) = \<lparr>e_key = k, e_value = v, e_bytes = int (length v), e_cachedAt = t\<rparr>
         # take n (filter (\<lambda>e. e_key e \<noteq> k) (c_lru c))" by blast
    have "find (\<lambda>e. e_key e = k') (c_lru c) = Some e"
      if "find (\<lambda>e. e_key e = k') (take n (filter (\<lambda>e. e_key e \<noteq> k) (c_lru c))) = Some e" for k' e
      using find_Some_set [OF that] set_take_subset [of n "filter (\<lambda>e. e_key e \<noteq> k) (c_lru c)"]
      by (auto simp: find_key_iff [OF keys])
    with False show ?thesis
      by (auto simp: map_le_def cache_content_def n dom_def)
  qed
qed

section \<open>Histories of the cache\<close>

fun cache_step :: "(string, bytes) cache_op \<Rightarrow> Cache \<Rightarrow> Cache" where
  "cache_step (OpGet k t) c = snd (Cache_Get t k c)"
| "cache_step (OpPut k v t) c = Cache_Put t k v c"
| "cache_step (OpDelete k) c = Cache_Delete k c"
| "cache_step (OpSweep t) c = snd (Cache_sweepExpired t c)"

text \<open>The same history on a plain map that never forgets.\<close>

fun map_step :: "(string, bytes) cache_op \<Rightarrow> (string \<Rightarrow> (bytes \<times> gotime) option) \<Rightarrow> string \<Rightarrow> (bytes \<times> gotime) option" where
  "map_step (OpPut k v t) m = (if v \<noteq> [] then m(k \<mapsto> (v, t)) else m)"
| "map_step (OpDelete k) m = m(k := None)"
| "map_step (OpGet k t) m = m"
| "map_step (OpSweep t) m = m"

definition cache_after :: "CacheOptions \<Rightarrow> (string, bytes) cache_op list \<Rightarrow> Cache" where
  "cache_after cfg ops = fold cache_step ops (NewCacheWithConfig cfg)"

lemma cache_step_eq: "cache_step = cache.apply_op" "map_step = cache.spec_op"
proof (rule ext, rule ext)
  fix op c show "cache_step op c = cache.apply_op op c" by (cases op) simp_all
next
  show "map_step = cache.spec_op"
  proof (rule ext, rule ext)
    fix op m show "map_step op m = cache.spec_op op m" by (cases op) simp_all
  qed
qed

lemma NewCache_inv:
  "cache_inv (c_ttl (NewCacheWithConfig cfg)) (NewCacheWithConfig cfg)"
  "cache_content (NewCacheWithConfig cfg) = Map.empty"
  by (auto simp: cache_inv_def linked_def within_limits_def NewCacheWithConfig_def Let_def cache_content_def)

lemma cache_after_inv: "cache_inv (c_ttl (NewCacheWithConfig cfg)) (cache_after cfg ops)"
  using cache.refines [OF NewCache_inv(1), where m = Map.empty and ops = ops] NewCache_inv(2)
  by (simp add: cache_after_def cache_step_eq)

lemma cache_after_config: "same_config (NewCacheWithConfig cfg) (cache_after cfg ops)"
proof -
  have "linked c \<Longrightarrow> linked (fold cache_step ops c) \<and> same_config c (fold cache_step ops c)" for c
  proof (induction ops arbitrary: c)
    case (Cons op ops)
    have "linked (cache_step op c) \<and> same_config c (cache_step op c)"
    proof (cases op)
      case (OpPut k v t)
      then show ?thesis
        using Cons.prems Cache_Put_spec [OF Cons.prems _ refl, of v t k]
        by (cases "v = []") (auto simp: Cache_Put_def)
    qed (use Cons.prems Cache_Get_spec(2,3) Cache_Delete_spec(1,2) Cache_sweepExpired_spec(1,2) in auto)
    then show ?case using Cons.IH same_config_trans by auto
  qed simp
  then show ?thesis using cache_linked [OF NewCache_inv(1)] by (simp add: cache_after_def)
qed

section \<open>Properties\<close>

text \<open>
  C5 The cache never lies: after any history of operations, an answer of \<open>Get\<close> is the value that
  the last \<open>Put\<close> of the key stored (with no \<open>Delete\<close> of it since), and it is not older than the time
  to live.
\<close>

theorem Cache_Get_sound:
  assumes "fst (Cache_Get now k (cache_after cfg ops)) = Some v"
  shows "\<exists>t0. fold map_step ops Map.empty k = Some (v, t0) \<and>
    time_sub now t0 \<le> c_ttl (NewCacheWithConfig cfg)"
proof -
  have "cache_content (NewCacheWithConfig cfg) \<subseteq>\<^sub>m Map.empty"
    by (simp add: NewCache_inv)
  from cache.get_sound [OF NewCache_inv(1) this, of now k ops v] assms
  obtain t0 where "fold map_step ops Map.empty k = Some (v, t0)"
    "time_sub now t0 \<le> c_ttl (cache_after cfg ops)"
    by (auto simp: cache_after_def cache_step_eq)
  then show ?thesis using cache_after_config [of cfg ops] by (auto simp: same_config_def)
qed

definition demo_cache :: CacheOptions where
  "demo_cache = \<lparr>cco_MaxEntries = 2, cco_TTLSec = 1, cco_MaxBytes = 5\<rparr>"

theorem Cache_Get_sound_witness:
  "\<exists>t0. fold map_step [OpPut ''k'' ''old'' 1, OpPut ''k'' ''new'' 2, OpGet ''k'' 3] Map.empty ''k''
     = Some (''new'', t0) \<and> time_sub 4 t0 \<le> c_ttl (NewCacheWithConfig demo_cache)"
  by (rule Cache_Get_sound) code_simp

text \<open>
  The cache's accounts agree after any history: the map and the list hold the same entries, one
  for each key and not more than the limit, and the byte count is the sum of the stored values. The
  count stays within the byte limit, except that one value larger than the limit may be held alone.
\<close>

theorem Cache_accounting:
  "let c = cache_after cfg ops in
     set (c_entries c) = (\<lambda>e. (e_key e, e)) ` set (c_lru c) \<and> distinct (map e_key (c_lru c)) \<and>
     Cache_Len c = length (c_lru c) \<and> int (Cache_Len c) \<le> c_maxItems (NewCacheWithConfig cfg) \<and>
     c_currentBytes c = (\<Sum>e \<leftarrow> c_lru c. int (length (e_value e))) \<and>
     (c_maxBytes (NewCacheWithConfig cfg) = 0 \<or> c_currentBytes c \<le> c_maxBytes (NewCacheWithConfig cfg) \<or>
      Cache_Len c = 1)"
proof -
  have inv: "linked (cache_after cfg ops)" "within_limits (cache_after cfg ops)"
    using cache_after_inv [of cfg ops] by (simp_all add: cache_inv_def)
  have "(\<Sum>e \<leftarrow> c_lru (cache_after cfg ops). int (length (e_value e))) =
      (\<Sum>e \<leftarrow> c_lru (cache_after cfg ops). e_bytes e)"
    using inv(1) by (intro arg_cong [where f = sum_list] map_cong) (auto simp: linked_def)
  with inv cache_after_config [of cfg ops] linked_length [OF inv(1)] show ?thesis
    by (auto simp: Let_def linked_def within_limits_def same_config_def Cache_Len_def)
qed

text \<open>The exception happens: a value of six bytes is stored under a limit of five.\<close>

lemma Cache_oversized_value:
  "c_currentBytes (cache_after demo_cache [OpPut ''a'' ''12'' 1, OpPut ''b'' ''123456'' 2]) = 6 \<and>
   Cache_Len (cache_after demo_cache [OpPut ''a'' ''12'' 1, OpPut ''b'' ''123456'' 2]) = 1"
  by code_simp

text \<open>
  Eviction is least recently used: after a history, \<open>Put\<close> of a value leaves it in front of the
  first of the other entries, in their order of use, and drops the next one only if the limit of
  entries, or the byte limit together with it, leaves no room.
\<close>

theorem Cache_Put_evicts_oldest:
  assumes "c = cache_after cfg ops" "v \<noteq> []" "es = filter (\<lambda>e. e_key e \<noteq> k) (c_lru c)"
  shows "\<exists>n \<le> length es.
    c_lru (Cache_Put now k v c) =
      \<lparr>e_key = k, e_value = v, e_bytes = int (length v), e_cachedAt = now\<rparr> # take n es \<and>
    (n < length es \<longrightarrow> int n = c_maxItems c - 1 \<or>
       (0 < c_maxBytes c \<and> c_maxBytes c < sum_list (map e_bytes (take (Suc n) es)) + int (length v)))"
proof -
  have "linked c" using cache_after_inv assms(1) cache_linked by blast
  from Cache_Put_spec [OF this assms(2,3), of now] show ?thesis by blast
qed

theorem Cache_Put_evicts_oldest_witness:
  "\<exists>n \<le> 2. map e_key (c_lru (Cache_Put 9 ''c'' ''1'' (cache_after demo_cache
     [OpPut ''a'' ''1'' 1, OpPut ''b'' ''2'' 2, OpGet ''a'' 3]))) = ''c'' # take n [''a'', ''b'']"
proof -
  let ?c = "cache_after demo_cache [OpPut ''a'' ''1'' 1, OpPut ''b'' ''2'' 2, OpGet ''a'' 3]"
  let ?es = "filter (\<lambda>e. e_key e \<noteq> ''c'') (c_lru ?c)"
  have es: "map e_key ?es = [''a'', ''b'']" by code_simp
  have "''1'' \<noteq> []" by simp
  from Cache_Put_evicts_oldest [OF refl this refl, where cfg = demo_cache and now = 9]
  obtain n where n: "n \<le> length ?es" "c_lru (Cache_Put 9 ''c'' ''1'' ?c) =
      \<lparr>e_key = ''c'', e_value = ''1'', e_bytes = int (length ''1''), e_cachedAt = 9\<rparr> # take n ?es"
    by blast
  have "map e_key (c_lru (Cache_Put 9 ''c'' ''1'' ?c)) = ''c'' # take n (map e_key ?es)"
    unfolding n(2) by (simp add: take_map)
  moreover have "length ?es = 2" using arg_cong [OF es, of length] by simp
  ultimately show ?thesis using n(1) unfolding es by auto
qed

text \<open>
  A stored value is found: right after \<open>Put\<close>, and until the time to live has passed, \<open>Get\<close>
  returns the value.
\<close>

theorem Cache_Get_after_Put:
  assumes "v \<noteq> []" "time_sub later now \<le> c_ttl (NewCacheWithConfig cfg)"
  shows "fst (Cache_Get later k (Cache_Put now k v (cache_after cfg ops))) = Some v"
proof -
  let ?c = "cache_after cfg ops" and ?p = "Cache_Put now k v (cache_after cfg ops)"
  let ?e = "\<lparr>e_key = k, e_value = v, e_bytes = int (length v), e_cachedAt = now\<rparr>"
  have "linked ?c" using cache_after_inv cache_linked by blast
  from Cache_Put_spec [OF this assms(1) refl, of now k]
  have put: "linked ?p" "same_config ?c ?p" "?e \<in> set (c_lru ?p)" by auto
  then have "map_of (c_entries ?p) k = Some ?e" by (simp add: linked_lookup)
  moreover have "c_ttl ?p = c_ttl (NewCacheWithConfig cfg)"
    using put(2) cache_after_config [of cfg ops] by (simp add: same_config_def)
  ultimately show ?thesis
    using Cache_Get_spec(1) [OF put(1), where key = k and now = later] assms(2) by (simp add: expired_def)
qed

theorem Cache_Get_after_Put_witness:
  "fst (Cache_Get 1000000007 ''k'' (Cache_Put 7 ''k'' ''v'' (cache_after demo_cache [OpPut ''k'' ''u'' 1]))) = Some ''v''"
  by (rule Cache_Get_after_Put)
     (simp_all add: NewCacheWithConfig_def demo_cache_def Let_def time_sub_def second_def
        min_i64_def max_i64_def i64_id)

end
