(* ===== verification/Json_Build.thy ===== *)
theory Json_Build
  imports Json_Value "HOL-Library.AList"
begin

text \<open>
  JSON values that the gateway builds: the text of a number, an object made from a Go map (which
  \<open>json.Marshal\<close> writes in the order of its keys), and what the conversions between API formats read
  out of a \<open>map[string]any\<close>.
\<close>

section \<open>Writing\<close>

text \<open>\<open>strconv.Itoa\<close>, as the encoder writes an integer.\<close>

fun show_nat :: "nat \<Rightarrow> string" where
  "show_nat n = (if n < 10 then [char_of (48 + n)] else show_nat (n div 10) @ [char_of (48 + n mod 10)])"

declare show_nat.simps [simp del]

definition show_int :: "int \<Rightarrow> string" where
  "show_int i = (if i < 0 then CHR ''-'' # show_nat (nat (- i)) else show_nat (nat i))"

definition jint :: "int \<Rightarrow> json" where "jint i = JNumber (show_int i)"

definition jobj :: "(string \<times> json) list \<Rightarrow> json" where "jobj kvs = JObject (json_map kvs)"

section \<open>Reading\<close>

text \<open>An array into a slice: \<open>null\<close> gives none, and every element is decoded into a zero value.\<close>

fun decode_all :: "(json \<Rightarrow> 'a option) \<Rightarrow> json list \<Rightarrow> 'a list option" where
  "decode_all f [] = Some []"
| "decode_all f (v # vs) =
     (case f v of None \<Rightarrow> None
      | Some a \<Rightarrow> (case decode_all f vs of None \<Rightarrow> None | Some as \<Rightarrow> Some (a # as)))"

definition set_list :: "(json \<Rightarrow> 'a \<Rightarrow> 'a option) \<Rightarrow> 'a \<Rightarrow> json \<Rightarrow> 'a list \<Rightarrow> 'a list option" where
  "set_list store zero v old =
     (case v of JNull \<Rightarrow> Some [] | JArray vs \<Rightarrow> decode_all (\<lambda>x. store x zero) vs | _ \<Rightarrow> None)"

text \<open>A field of type \<open>any\<close> or \<open>json.RawMessage\<close>; \<open>None\<close> is the field that is absent.\<close>

definition set_raw :: "json \<Rightarrow> json option \<Rightarrow> json option option" where
  "set_raw v old = Some (Some v)"

text \<open>\<open>m[k]\<close> on a map, and a type assertion to \<open>string\<close> whose second result is ignored.\<close>

definition member :: "string \<Rightarrow> (string \<times> json) list \<Rightarrow> json" where
  "member k kvs = (case map_of kvs k of None \<Rightarrow> JNull | Some v \<Rightarrow> v)"

definition as_string :: "json \<Rightarrow> string" where
  "as_string v = (case v of JString s \<Rightarrow> s | _ \<Rightarrow> [])"

lemma decode_all_length: "decode_all f vs = Some as \<Longrightarrow> length as = length vs"
  by (induction vs arbitrary: as) (auto split: option.splits)

text \<open>Updating an entry of a map that is kept in the order of insertion.\<close>

lemma set_update: "set (AList.update k t ts) \<subseteq> insert (k, t) (set ts)"
  by (induction ts) auto

lemma keys_update: "fst ` set (AList.update k t ts) = insert k (fst ` set ts)"
  by (induction ts) auto

lemma update_absent: "map_of ts k = None \<Longrightarrow> AList.update k t ts = ts @ [(k, t)]"
  by (induction ts) auto

lemma update_keys_present: "map_of ts k = Some t \<Longrightarrow> map fst (AList.update k t' ts) = map fst ts"
  by (induction ts) auto

end
