(* ===== verification/Execution.thy ===== *)
theory Execution
  imports Compat_Plan Upstream_Forward Pricing Response_Cache Json_Build
begin

text \<open>
  What one call of the request handler works on, and what it leaves behind: the options of a
  synthetic call and its result (\<open>internal/gateway/api/execution.go\<close>), the telemetry event, the
  error responses and the response cache (\<open>internal/gateway/api/handler.go\<close>). The services the
  handler is given from outside are the fields of \<open>services\<close>.
\<close>

section \<open>Options, results and events\<close>

record ExecutionOptions =
  eo_RequestID :: string
  eo_PinnedProviderID :: string
  eo_DisableCache :: bool
  eo_DisableFallback :: bool
  eo_DisableRetries :: bool
  eo_DisableSticky :: bool
  eo_SyntheticKind :: string
  eo_BenchmarkRunID :: string
  eo_BenchmarkTargetID :: string
  eo_BenchmarkCaseID :: string
  eo_Result :: bool

record ExecutionResult =
  er_StatusCode :: goint
  er_ContentType :: string
  er_Latency :: duration
  er_PromptTokens :: int
  er_CachedPromptTokens :: int
  er_CompletionTokens :: int
  er_ProviderID :: string
  er_EffectiveModel :: string
  er_RouteMode :: string
  er_PricingTotalCostUSD :: float64
  er_Error :: string

text \<open>\<open>telemetryingest.Event\<close> with the fields of its payload; the pricing fields are one record.\<close>

record Event =
  ev_EventID :: string
  ev_EmittedAt :: gotime
  ev_RequestID :: string
  ev_Timestamp :: gotime
  ev_Path :: string
  ev_RequestedModel :: string
  ev_EffectiveModel :: string
  ev_ProviderID :: string
  ev_RouteMode :: string
  ev_StatusCode :: goint
  ev_Latency :: duration
  ev_Attempts :: goint
  ev_tokens :: tokens
  ev_pricing :: FixedPricing
  ev_SyntheticKind :: string
  ev_BenchmarkRunID :: string
  ev_BenchmarkTargetID :: string
  ev_BenchmarkCaseID :: string
  ev_Stream :: bool
  ev_Error :: string

section \<open>The services and the state of a call\<close>

text \<open>
  The world of the upstream requests, the conversions, \<open>path.Match\<close>, the hash of the cache keys,
  the catalog of the pricing resolver, whether there is a telemetry client, whether the response can
  be flushed, \<open>uuid.New\<close>, and how many heartbeats of a waiting stream fall into one step.
\<close>

record 'w services =
  sv_world :: "'w world"
  sv_converters :: converters
  sv_path_match :: "string \<Rightarrow> string \<Rightarrow> bool option"
  sv_sha256 :: "bytes \<Rightarrow> string"
  sv_pricing :: "catalog option"
  sv_telemetry :: bool
  sv_flusher :: bool
  sv_uuid :: "'w \<Rightarrow> string \<times> 'w"
  sv_ticks :: "'w \<Rightarrow> nat \<times> 'w"

text \<open>The client's request: its body, whether reading it ends in an error, its headers and path.\<close>

record ClientRequest =
  rq_Body :: string
  rq_ReadFails :: bool
  rq_Get :: "string \<Rightarrow> string"
  rq_Path :: string

record 'w exchange =
  ex_gateway :: "'w gateway"
  ex_writer :: ResponseWriter
  ex_session :: bool
  ex_events :: "Event list"
  ex_result :: "ExecutionResult option"
  ex_cache :: "((goint \<times> goint) \<times> Cache) option"

text \<open>What is fixed for one call, once the request is parsed.\<close>

record call =
  cl_snap :: Snapshot
  cl_request :: ClientRequest
  cl_format :: clientFormat
  cl_opts :: "ExecutionOptions option"
  cl_requestID :: string
  cl_start :: gotime
  cl_meta :: chatCompletionRequestMeta
  cl_body :: string

definition on_gateway :: "('w gateway \<Rightarrow> 'a \<times> 'w gateway) \<Rightarrow> 'w exchange \<Rightarrow> 'a \<times> 'w exchange" where
  "on_gateway f x = (let (a, g) = f (ex_gateway x) in (a, x\<lparr>ex_gateway := g\<rparr>))"

definition on_writer :: "(ResponseWriter \<Rightarrow> 'a \<times> ResponseWriter) \<Rightarrow> 'w exchange \<Rightarrow> 'a \<times> 'w exchange" where
  "on_writer f x = (let (a, w) = f (ex_writer x) in (a, x\<lparr>ex_writer := w\<rparr>))"

definition on_world :: "('w \<Rightarrow> 'a \<times> 'w) \<Rightarrow> 'w gateway \<Rightarrow> 'a \<times> 'w gateway" where
  "on_world f g = (let (a, w) = f (gw_world g) in (a, g\<lparr>gw_world := w\<rparr>))"

definition clock :: "'w services \<Rightarrow> 'w exchange \<Rightarrow> gotime \<times> 'w exchange" where
  "clock sv = on_gateway (now_of (sv_world sv))"

definition cancelled :: "'w services \<Rightarrow> 'w exchange \<Rightarrow> bool \<times> 'w exchange" where
  "cancelled sv x = (let (e, x') = on_gateway (ctx_err (sv_world sv)) x in (e \<noteq> None, x'))"

section \<open>Telemetry and results\<close>

text \<open>An option of the call, or its zero value if there are no options.\<close>

definition option_of :: "(ExecutionOptions \<Rightarrow> 'a) \<Rightarrow> 'a \<Rightarrow> ExecutionOptions option \<Rightarrow> 'a" where
  "option_of f zero opts = (case opts of None \<Rightarrow> zero | Some o' \<Rightarrow> f o')"

definition emitTelemetry ::
  "'w services \<Rightarrow> call \<Rightarrow> string \<Rightarrow> string \<Rightarrow> string \<Rightarrow> goint \<Rightarrow> duration \<Rightarrow> goint \<Rightarrow> tokens \<Rightarrow> string \<Rightarrow>
     FixedPricing \<Rightarrow> 'w exchange \<Rightarrow> 'w exchange" where
  "emitTelemetry sv c effectiveModel providerID routeMode statusCode latency attempts toks errMsg pricing x =
     (if \<not> sv_telemetry sv then x
      else let (eventID, x1) = on_gateway (on_world (sv_uuid sv)) x; (now, x2) = clock sv x1 in
        x2\<lparr>ex_events := ex_events x2 @
          [\<lparr>ev_EventID = eventID, ev_EmittedAt = now, ev_RequestID = cl_requestID c, ev_Timestamp = cl_start c,
            ev_Path = rq_Path (cl_request c), ev_RequestedModel = req_Model (cl_meta c),
            ev_EffectiveModel = effectiveModel, ev_ProviderID = providerID, ev_RouteMode = routeMode,
            ev_StatusCode = statusCode, ev_Latency = latency, ev_Attempts = attempts, ev_tokens = toks,
            ev_pricing = pricing,
            ev_SyntheticKind = option_of eo_SyntheticKind [] (cl_opts c),
            ev_BenchmarkRunID = option_of eo_BenchmarkRunID [] (cl_opts c),
            ev_BenchmarkTargetID = option_of eo_BenchmarkTargetID [] (cl_opts c),
            ev_BenchmarkCaseID = option_of eo_BenchmarkCaseID [] (cl_opts c),
            ev_Stream = req_Stream (cl_meta c), ev_Error = errMsg\<rparr>]\<rparr>)"

definition captureExecutionResult ::
  "ExecutionOptions option \<Rightarrow> goint \<Rightarrow> string \<Rightarrow> duration \<Rightarrow> tokens \<Rightarrow> string \<Rightarrow> string \<Rightarrow> string \<Rightarrow> float64 \<Rightarrow>
     string \<Rightarrow> 'w exchange \<Rightarrow> 'w exchange" where
  "captureExecutionResult opts statusCode contentType latency toks providerID effectiveModel routeMode cost errMsg x =
     (if \<not> option_of eo_Result False opts then x
      else x\<lparr>ex_result := Some \<lparr>er_StatusCode = statusCode, er_ContentType = contentType, er_Latency = latency,
        er_PromptTokens = fst toks, er_CachedPromptTokens = fst (snd toks), er_CompletionTokens = snd (snd toks),
        er_ProviderID = providerID, er_EffectiveModel = effectiveModel, er_RouteMode = routeMode,
        er_PricingTotalCostUSD = cost, er_Error = errMsg\<rparr>\<rparr>)"

section \<open>Responses\<close>

definition put_response :: "goint \<Rightarrow> string \<Rightarrow> string \<Rightarrow> ResponseWriter \<Rightarrow> ResponseWriter" where
  "put_response status contentType body w =
     snd (Write body (write_header status (set_header ''Content-Type'' contentType w)))"

definition writeErrorWithType :: "converters \<Rightarrow> goint \<Rightarrow> string \<Rightarrow> string \<Rightarrow> ResponseWriter \<Rightarrow> ResponseWriter" where
  "writeErrorWithType cv status message errType w =
     (let w1 = write_header status (set_header ''Content-Type'' ''application/json'' w) in
      case cv_marshal cv (error_envelope status message errType) of
        None \<Rightarrow> w1
      | Some s \<Rightarrow> snd (Write (s @ [newline]) w1))"

definition writeError :: "converters \<Rightarrow> goint \<Rightarrow> string \<Rightarrow> ResponseWriter \<Rightarrow> ResponseWriter" where
  "writeError cv status message w = writeErrorWithType cv status message [] w"

definition stream_error_payload :: "converters \<Rightarrow> goint \<Rightarrow> string \<Rightarrow> string" where
  "stream_error_payload cv status message0 =
     (let message = (if trim_space message0 = [] then ''upstream request failed'' else message0) in
      case cv_marshal cv (JObject [(''error'', JObject [(''message'', JString message),
          (''status'', JNumber (show_int status))])]) of
        Some s \<Rightarrow> s
      | None \<Rightarrow> ''{\"error\":{\"message\":\"upstream request failed\"}}'')"

definition writeStreamErrorEvent :: "converters \<Rightarrow> goint \<Rightarrow> string \<Rightarrow> ResponseWriter \<Rightarrow> ResponseWriter" where
  "writeStreamErrorEvent cv status message w =
     fold (\<lambda>data w. snd (Write data w))
       [''event: error'' @ [newline], ''data: '', stream_error_payload cv status message, [newline, newline]] w"

text \<open>The write of an error on the exchange.\<close>

definition reject :: "'w services \<Rightarrow> goint \<Rightarrow> string \<Rightarrow> 'w exchange \<Rightarrow> 'w exchange" where
  "reject sv status message x = x\<lparr>ex_writer := writeError (sv_converters sv) status message (ex_writer x)\<rparr>"

definition respond :: "goint \<Rightarrow> string \<Rightarrow> string \<Rightarrow> 'w exchange \<Rightarrow> 'w exchange" where
  "respond status contentType body x = x\<lparr>ex_writer := put_response status contentType body (ex_writer x)\<rparr>"

section \<open>The response cache\<close>

text \<open>The shared cache, rebuilt when its configuration has changed.\<close>

definition getResponseCache :: "Snapshot \<Rightarrow> ((goint \<times> goint) \<times> Cache) option \<Rightarrow> Cache" where
  "getResponseCache snap slot =
     (let cfg = rp_Cache (snap_RoutingPolicy snap); key = (cc_MaxEntries cfg, cc_TTLSec cfg) in
      case slot of
        Some (key', c) \<Rightarrow> if key' = key then c else NewCache (cc_MaxEntries cfg) (cc_TTLSec cfg)
      | None \<Rightarrow> NewCache (cc_MaxEntries cfg) (cc_TTLSec cfg))"

definition keep_cache :: "Snapshot \<Rightarrow> Cache \<Rightarrow> 'w exchange \<Rightarrow> 'w exchange" where
  "keep_cache snap c x = x\<lparr>ex_cache :=
     Some ((cc_MaxEntries (rp_Cache (snap_RoutingPolicy snap)), cc_TTLSec (rp_Cache (snap_RoutingPolicy snap))), c)\<rparr>"

definition cache_key :: "'w services \<Rightarrow> call \<Rightarrow> string \<Rightarrow> string" where
  "cache_key sv c stickyKey = Cache_MakeKey (sv_sha256 sv) (cl_body c) (req_Model (cl_meta c)) stickyKey"

definition cache_allowed :: "call \<Rightarrow> bool" where
  "cache_allowed c \<longleftrightarrow> cc_Enabled (rp_Cache (snap_RoutingPolicy (cl_snap c))) \<and>
     \<not> option_of eo_DisableCache False (cl_opts c)"

definition cached_response :: "'w services \<Rightarrow> call \<Rightarrow> string \<Rightarrow> 'w exchange \<Rightarrow> bytes option \<times> 'w exchange" where
  "cached_response sv c stickyKey x =
     (if req_Stream (cl_meta c) \<or> \<not> cache_allowed c then (None, x)
      else let (now, x1) = clock sv x;
          (hit, cch) = Cache_Get now (cache_key sv c stickyKey) (getResponseCache (cl_snap c) (ex_cache x1))
        in (hit, keep_cache (cl_snap c) cch x1))"

definition cache_response :: "'w services \<Rightarrow> call \<Rightarrow> string \<Rightarrow> goint \<Rightarrow> bytes \<Rightarrow> 'w exchange \<Rightarrow> 'w exchange" where
  "cache_response sv c stickyKey statusCode body x =
     (if cache_allowed c \<and> statusCode < 400
      then let (now, x1) = clock sv x in
        keep_cache (cl_snap c)
          (Cache_Put now (cache_key sv c stickyKey) body (getResponseCache (cl_snap c) (ex_cache x1))) x1
      else x)"

end
