(* ===== verification/Fallback.thy ===== *)
theory Fallback
  imports Execution
begin

text \<open>
  The models that a request falls back to when every provider of its own model has failed:
  \<open>internal/gateway/api/fallback.go\<close>. An attempt is one candidate of one fallback model; the loops
  over models and candidates stop at the tenth attempt, when the call's context has ended, or when
  the retry budget is used up.
\<close>

section \<open>The fallback models\<close>

definition serves_model :: "string \<Rightarrow> ProviderSnapshot \<Rightarrow> bool" where
  "serves_model model p \<longleftrightarrow> list_ex (\<lambda>m. mm_PublicModel m = model) (ps_ModelTable p)"

definition add_fallback :: "string \<Rightarrow> string \<Rightarrow> string list \<Rightarrow> string list" where
  "add_fallback model fb acc =
     (if fb = [] \<or> fb = model \<or> List.member acc fb then acc else acc @ [fb])"

definition ResolveFallbackModels :: "Snapshot option \<Rightarrow> string \<Rightarrow> string list" where
  "ResolveFallbackModels snapshot model =
     (case snapshot of
        None \<Rightarrow> []
      | Some snap \<Rightarrow>
          fold (\<lambda>p acc. if serves_model model p then fold (add_fallback model) (ps_FallbackModels p) acc else acc)
            (snap_Providers snap) [])"

definition maxFallbackAttempts :: nat where "maxFallbackAttempts = 10"

section \<open>Ordering the candidates\<close>

definition order_with_runtime ::
  "'w services \<Rightarrow> Snapshot \<Rightarrow> string \<Rightarrow> string \<Rightarrow> providerCandidate list \<Rightarrow> 'w exchange \<Rightarrow>
     providerCandidate list \<times> 'w exchange" where
  "order_with_runtime sv snap model stickyKey cs x =
     (case gw_runtime (ex_gateway x) of
        None \<Rightarrow>
          (let (ordered, seq) = orderProviderCandidates cs (gw_sequence (ex_gateway x))
           in (ordered, x\<lparr>ex_gateway := (ex_gateway x)\<lparr>gw_sequence := seq\<rparr>\<rparr>))
      | Some s \<Rightarrow>
          (let (now, x1) = clock sv x; (now', x2) = clock sv x1;
               (ordered, seq, s') = orderCandidates now now' (Some snap) model stickyKey cs (gw_sequence (ex_gateway x2)) s
           in (ordered, x2\<lparr>ex_gateway := (ex_gateway x2)\<lparr>gw_sequence := seq, gw_runtime := Some s'\<rparr>\<rparr>)))"

section \<open>One request and its report\<close>

definition report_attempt ::
  "'w services \<Rightarrow> string \<Rightarrow> forward_result \<Rightarrow> 'w exchange \<Rightarrow> 'w exchange" where
  "report_attempt sv providerID r x =
     (case gw_runtime (ex_gateway x) of
        None \<Rightarrow> x
      | Some s \<Rightarrow>
          (let (now, x1) = clock sv x in
           x1\<lparr>ex_gateway := (ex_gateway x1)\<lparr>gw_runtime :=
             Some (reportAttemptResult now providerID (fr_status r) (fr_latency r) (fr_err r) s)\<rparr>\<rparr>))"

definition forward_attempt ::
  "'w services \<Rightarrow> call \<Rightarrow> ProviderSnapshot \<Rightarrow> compatPlan \<Rightarrow> 'w exchange \<Rightarrow> forward_result \<times> 'w exchange" where
  "forward_attempt sv c p plan =
     on_gateway (forwardToUpstream (sv_world sv) p (cpl_forwardPath plan) (cpl_forwardBody plan)
       (req_Stream (cl_meta c)) (rq_Get (cl_request c) ''User-Agent'') (cpl_upstreamIsAnthropic plan))"

definition attempt_succeeded :: "forward_result \<Rightarrow> bool" where
  "attempt_succeeded r \<longleftrightarrow> fr_err r = None \<and> fr_status r < 400"

definition plan_for :: "'w services \<Rightarrow> call \<Rightarrow> providerCandidate \<Rightarrow> string option \<times> compatPlan" where
  "plan_for sv c cand = buildCompatPlan (sv_converters sv) (cl_format c) (Some (pcd_provider cand))
     (req_Model (cl_meta c)) (pcd_upstreamModel cand) (cl_body c)"

definition pricing_of :: "'w services \<Rightarrow> call \<Rightarrow> string \<Rightarrow> string \<Rightarrow> tokens \<Rightarrow> goint \<Rightarrow> FixedPricing" where
  "pricing_of sv c effectiveModel providerID = (\<lambda>(prompt, cached, completion) status.
     resolveFixedPricing (sv_pricing sv) (req_Model (cl_meta c)) effectiveModel providerID prompt cached completion
       False status)"

section \<open>One fallback attempt\<close>

text \<open>The response of a fallback: its usage and content type, \<open>None\<close> if it cannot be adapted.\<close>

definition fallback_response ::
  "'w services \<Rightarrow> call \<Rightarrow> compatPlan \<Rightarrow> forward_result \<Rightarrow> 'w exchange \<Rightarrow> (tokens \<times> string) option \<times> 'w exchange" where
  "fallback_response sv c plan r x =
     (let cv = sv_converters sv in
      case (if req_Stream (cl_meta c) then fr_stream r else None) of
        Some body \<Rightarrow>
          (let (toks, x1) = on_writer (writeCompatStreamResponse cv (fr_status r) (fr_contentType r) body plan) x
           in (Some (toks, fr_contentType r), x1))
      | None \<Rightarrow>
          (case adaptResponseBodyForClient cv plan (fr_status r) (fr_body r) of
             Inl err \<Rightarrow> (None, x)
           | Inr (body, ct) \<Rightarrow>
               (let contentType = (if ct = [] then ''application/json'' else ct)
                in (Some (extractUsage (cv_parse cv) body, contentType), respond (fr_status r) contentType body x))))"

definition fallback_attempt :: "'w services \<Rightarrow> call \<Rightarrow> providerCandidate \<Rightarrow> 'w exchange \<Rightarrow> bool \<times> 'w exchange" where
  "fallback_attempt sv c cand x =
     (case plan_for sv c cand of
        (Some err, plan) \<Rightarrow> (False, x)
      | (None, plan) \<Rightarrow>
          (let p = pcd_provider cand; (r, x1) = forward_attempt sv c p plan x;
               x2 = report_attempt sv (ps_ProviderID p) r x1
           in if \<not> attempt_succeeded r then (False, x2)
              else (case fallback_response sv c plan r x2 of
                  (None, x3) \<Rightarrow> (False, x3)
                | (Some (toks, contentType), x3) \<Rightarrow>
                    (let pricing = pricing_of sv c (pcd_upstreamModel cand) (ps_ProviderID p) toks (fr_status r);
                         mode = routeModeForAttempt ''model_fallback'' True (cl_format c = formatAnthropic) (Some p);
                         x4 = emitTelemetry sv c (pcd_upstreamModel cand) (ps_ProviderID p) mode (fr_status r)
                           (fr_latency r) 1 toks [] pricing x3
                     in (True, captureExecutionResult (cl_opts c) (fr_status r) contentType (fr_latency r) toks
                           (ps_ProviderID p) (pcd_upstreamModel cand) mode (fx_TotalCostUSD pricing) [] x4)))))"

section \<open>The loops\<close>

definition retry_budget :: "Snapshot \<Rightarrow> duration" where
  "retry_budget snap = i64 (rty_MaxElapsedMs (rp_Retry (snap_RoutingPolicy snap)) * millisecond)"

definition budget_spent :: "'w services \<Rightarrow> duration \<Rightarrow> gotime \<Rightarrow> 'w exchange \<Rightarrow> bool \<times> 'w exchange" where
  "budget_spent sv budget since x =
     (if 0 < budget then (let (now, x1) = clock sv x in (budget \<le> time_sub now since, x1)) else (False, x))"

definition must_stop :: "'w services \<Rightarrow> call \<Rightarrow> 'w exchange \<Rightarrow> bool \<times> 'w exchange" where
  "must_stop sv c x =
     (let (gone, x1) = cancelled sv x in
      if gone then (True, x1) else budget_spent sv (retry_budget (cl_snap c)) (cl_start c) x1)"

text \<open>\<open>Some served\<close> is a return of \<open>tryFallbackModels\<close>, \<open>None\<close> the end of the inner loop.\<close>

fun fallback_candidates ::
  "'w services \<Rightarrow> call \<Rightarrow> providerCandidate list \<Rightarrow> nat \<Rightarrow> 'w exchange \<Rightarrow> bool option \<times> nat \<times> 'w exchange" where
  "fallback_candidates sv c [] n x = (None, n, x)"
| "fallback_candidates sv c (cand # cands) n x =
     (case must_stop sv c x of
        (True, x1) \<Rightarrow> (Some False, n, x1)
      | (False, x1) \<Rightarrow>
          if maxFallbackAttempts \<le> n then (Some False, n, x1)
          else (case fallback_attempt sv c cand x1 of
              (True, x2) \<Rightarrow> (Some True, Suc n, x2)
            | (False, x2) \<Rightarrow> fallback_candidates sv c cands (Suc n) x2))"

fun fallback_models :: "'w services \<Rightarrow> call \<Rightarrow> string list \<Rightarrow> nat \<Rightarrow> 'w exchange \<Rightarrow> bool \<times> 'w exchange" where
  "fallback_models sv c [] n x = (False, x)"
| "fallback_models sv c (model # models) n x =
     (case must_stop sv c x of
        (True, x1) \<Rightarrow> (False, x1)
      | (False, x1) \<Rightarrow>
          (case collectProviderCandidatesForRequest (Some (cl_snap c)) model of
             [] \<Rightarrow> fallback_models sv c models n x1
           | cand # cands \<Rightarrow>
               (case order_with_runtime sv (cl_snap c) model [] (cand # cands) x1 of
                  (ordered, x2) \<Rightarrow>
                    (case fallback_candidates sv c ordered n x2 of
                       (Some served, n', x3) \<Rightarrow> (served, x3)
                     | (None, n', x3) \<Rightarrow> fallback_models sv c models n' x3))))"

definition tryFallbackModels :: "'w services \<Rightarrow> call \<Rightarrow> 'w exchange \<Rightarrow> bool \<times> 'w exchange" where
  "tryFallbackModels sv c x =
     fallback_models sv c (ResolveFallbackModels (Some (cl_snap c)) (req_Model (cl_meta c))) 0 x"

end
