(* ===== verification/Handler.thy ===== *)
theory Handler
  imports Fallback
begin

text \<open>
  One request of a client: \<open>handleChatOrMessages\<close> of \<open>internal/gateway/api/handler.go\<close>. The handler is
  split where the source's is: the request, the cache, the candidates, the loop of attempts, the error
  response and the success response. The variables that the loop assigns are the record
  \<open>attempt_state\<close>.
\<close>

section \<open>The loop of attempts\<close>

record attempt_state =
  at_attempts :: goint
  at_statusCode :: goint
  at_respBody :: string
  at_streamBody :: "stream_body option"
  at_contentType :: string
  at_latency :: duration
  at_forwardErr :: "string option"
  at_provider :: "ProviderSnapshot option"
  at_effectiveModel :: string
  at_errorMessage :: string
  at_plan :: compatPlan
  at_streamRetry :: bool

definition initial_state :: "string \<Rightarrow> attempt_state" where
  "initial_state routingModel = \<lparr>at_attempts = 0, at_statusCode = 502, at_respBody = [], at_streamBody = None,
     at_contentType = [], at_latency = 0, at_forwardErr = None, at_provider = None,
     at_effectiveModel = routingModel, at_errorMessage = [], at_plan = no_plan, at_streamRetry = False\<rparr>"

text \<open>The heartbeats that fall into a step of a session which is running.\<close>

definition tick_session :: "'w services \<Rightarrow> 'w exchange \<Rightarrow> 'w exchange" where
  "tick_session sv x =
     (if ex_session x
      then let (n, x1) = on_gateway (on_world (sv_ticks sv)) x in
        x1\<lparr>ex_writer := ((\<lambda>w. snd (heartbeat w)) ^^ n) (ex_writer x1)\<rparr>
      else x)"

definition start_session :: "'w services \<Rightarrow> 'w exchange \<Rightarrow> bool \<times> 'w exchange" where
  "start_session sv x =
     (let (started, x1) = on_writer (startStreamRetrySession (sv_flusher sv)) x in (started, x1\<lparr>ex_session := started\<rparr>))"

definition stop_session :: "'w exchange \<Rightarrow> 'w exchange" where
  "stop_session x = x\<lparr>ex_session := False\<rparr>"

definition wait_backoff :: "'w services \<Rightarrow> call \<Rightarrow> goint \<Rightarrow> 'w exchange \<Rightarrow> 'w exchange" where
  "wait_backoff sv c retryIndex x =
     (case waitRetryBackoff (Some (cl_snap c)) retryIndex of
        None \<Rightarrow> x
      | Some d \<Rightarrow> snd (on_gateway (on_world (wo_wait (sv_world sv) None d)) x))"

definition hard_cap :: goint where "hard_cap = 20"

text \<open>The state after the response of an attempt.\<close>

definition after_response ::
  "converters \<Rightarrow> providerCandidate \<Rightarrow> compatPlan \<Rightarrow> forward_result \<Rightarrow> attempt_state \<Rightarrow> attempt_state" where
  "after_response cv cand plan r st = \<lparr>at_attempts = at_attempts st + 1, at_statusCode = fr_status r,
     at_respBody = fr_body r, at_streamBody = fr_stream r, at_contentType = fr_contentType r,
     at_latency = fr_latency r, at_forwardErr = fr_err r, at_provider = Some (pcd_provider cand),
     at_effectiveModel = pcd_upstreamModel cand,
     at_errorMessage = extractErrorMessage (cv_parse cv) (fr_body r) (fr_err r), at_plan = plan,
     at_streamRetry = at_streamRetry st\<rparr>"

text \<open>Between two attempts: the stream that waits is started, the response dropped, the backoff waited.\<close>

definition prepare_retry ::
  "'w services \<Rightarrow> call \<Rightarrow> goint \<Rightarrow> attempt_state \<Rightarrow> 'w exchange \<Rightarrow> attempt_state \<times> 'w exchange" where
  "prepare_retry sv c maxAttempts st x =
     (let (retrying, x1) =
        (if req_Stream (cl_meta c) \<and> maxAttempts = 0 \<and> \<not> at_streamRetry st
         then start_session sv x else (at_streamRetry st, x))
      in (st\<lparr>at_streamBody := None, at_streamRetry := retrying\<rparr>,
          tick_session sv (wait_backoff sv c (at_attempts st - 1) x1)))"

definition gives_up :: "call \<Rightarrow> goint \<Rightarrow> bool \<Rightarrow> forward_result \<Rightarrow> attempt_state \<Rightarrow> bool" where
  "gives_up c maxAttempts gone r st \<longleftrightarrow>
     \<not> shouldRetryAttempt gone (Some (cl_snap c)) (fr_status r) (at_errorMessage st) (fr_err r) \<or>
     maxAttempts \<noteq> 0 \<and> maxAttempts \<le> at_attempts st"

text \<open>One attempt at a candidate: whether the loop over the candidates ends with it.\<close>

definition send_attempt ::
  "'w services \<Rightarrow> call \<Rightarrow> goint \<Rightarrow> providerCandidate \<Rightarrow> compatPlan \<Rightarrow> attempt_state \<Rightarrow> 'w exchange \<Rightarrow>
     bool \<times> attempt_state \<times> 'w exchange" where
  "send_attempt sv c maxAttempts cand plan st x =
     (case forward_attempt sv c (pcd_provider cand) plan x of
        (r, x1) \<Rightarrow>
          let st1 = after_response (sv_converters sv) cand plan r st;
              x2 = report_attempt sv (ps_ProviderID (pcd_provider cand)) r (tick_session sv x1)
          in if attempt_succeeded r then (True, st1, x2)
             else (case cancelled sv x2 of
                 (gone, x3) \<Rightarrow>
                   if gives_up c maxAttempts gone r st1 then (True, st1, x3)
                   else (False, prepare_retry sv c maxAttempts st1 x3)))"

definition one_attempt ::
  "'w services \<Rightarrow> call \<Rightarrow> goint \<Rightarrow> gotime \<Rightarrow> providerCandidate \<Rightarrow> compatPlan \<Rightarrow> attempt_state \<Rightarrow> 'w exchange \<Rightarrow>
     bool \<times> attempt_state \<times> 'w exchange" where
  "one_attempt sv c maxAttempts startedAt cand plan st x =
     (case budget_spent sv (retry_budget (cl_snap c)) startedAt x of
        (True, x1) \<Rightarrow> (True, st\<lparr>at_forwardErr := Some ''context deadline exceeded'',
           at_errorMessage := ''retry time budget exhausted''\<rparr>, x1)
      | (False, x1) \<Rightarrow>
          if maxAttempts = 0 \<and> hard_cap \<le> at_attempts st then (True, st, x1)
          else send_attempt sv c maxAttempts cand plan st x1)"

lemma after_response_attempts [simp]:
  "at_attempts (after_response cv cand plan r st) = at_attempts st + 1"
  by (simp add: after_response_def)

lemma prepare_retry_attempts [simp]:
  "at_attempts (fst (prepare_retry sv c maxAttempts st x)) = at_attempts st"
  by (simp add: prepare_retry_def split_def Let_def)

text \<open>The two ends of an attempt.\<close>

lemma send_attempt_cases:
  assumes "send_attempt sv c m cand plan st x = (stop, st', x')"
    and "forward_attempt sv c (pcd_provider cand) plan x = (r, x1)"
  obtains (succeeded) "stop" "attempt_succeeded r" "st' = after_response (sv_converters sv) cand plan r st"
      "x' = report_attempt sv (ps_ProviderID (pcd_provider cand)) r (tick_session sv x1)"
  | (given_up) gone x2 where "stop" "\<not> attempt_succeeded r" "st' = after_response (sv_converters sv) cand plan r st"
      "cancelled sv (report_attempt sv (ps_ProviderID (pcd_provider cand)) r (tick_session sv x1)) = (gone, x2)"
      "x' = x2" "gives_up c m gone r st'"
  | (retried) gone x2 where "\<not> stop" "\<not> attempt_succeeded r"
      "cancelled sv (report_attempt sv (ps_ProviderID (pcd_provider cand)) r (tick_session sv x1)) = (gone, x2)"
      "\<not> gives_up c m gone r (after_response (sv_converters sv) cand plan r st)"
      "prepare_retry sv c m (after_response (sv_converters sv) cand plan r st) x2 = (st', x')"
proof -
  let ?x = "report_attempt sv (ps_ProviderID (pcd_provider cand)) r (tick_session sv x1)"
  obtain gone x2 where g: "cancelled sv ?x = (gone, x2)" by fastforce
  show thesis
  proof (cases "attempt_succeeded r")
    case True
    with assms succeeded show thesis by (simp add: send_attempt_def Let_def)
  next
    case False
    with assms g have "(if gives_up c m gone r (after_response (sv_converters sv) cand plan r st)
        then (True, after_response (sv_converters sv) cand plan r st, x2)
        else (False, prepare_retry sv c m (after_response (sv_converters sv) cand plan r st) x2)) = (stop, st', x')"
      by (simp add: send_attempt_def Let_def)
    with False g given_up retried show thesis by (simp split: if_splits)
  qed
qed

lemma send_attempt_counts:
  assumes "send_attempt sv c m cand plan st x = (stop, st', x')"
  shows "at_attempts st' = at_attempts st + 1 \<and> (\<not> stop \<longrightarrow> m \<noteq> 0 \<longrightarrow> at_attempts st' < m)"
proof -
  obtain r x1 where f: "forward_attempt sv c (pcd_provider cand) plan x = (r, x1)" by fastforce
  from assms f show ?thesis
  proof (cases rule: send_attempt_cases)
    case (retried gone x2)
    from retried(5) prepare_retry_attempts [of sv c m "after_response (sv_converters sv) cand plan r st" x2]
    have "at_attempts st' = at_attempts st + 1" by simp
    with retried(1,4) show ?thesis by (auto simp: gives_up_def)
  qed simp_all
qed

lemma one_attempt_counts:
  "one_attempt sv c maxAttempts startedAt cand plan st x = (False, st', x') \<Longrightarrow>
     at_attempts st' = at_attempts st + 1 \<and>
     (if maxAttempts = 0 then at_attempts st < hard_cap else at_attempts st' < maxAttempts)"
proof (cases "budget_spent sv (retry_budget (cl_snap c)) startedAt x")
  case (Pair spent x1)
  moreover assume "one_attempt sv c maxAttempts startedAt cand plan st x = (False, st', x')"
  ultimately have "\<not> (maxAttempts = 0 \<and> hard_cap \<le> at_attempts st)"
    "send_attempt sv c maxAttempts cand plan st x1 = (False, st', x')"
    by (auto simp: one_attempt_def split: bool.splits if_splits)
  with send_attempt_counts [OF this(2)] show ?thesis by auto
qed

text \<open>The attempts at one candidate; \<open>innerLimit = 0\<close> sets no limit for the provider.\<close>

function provider_attempts ::
  "'w services \<Rightarrow> call \<Rightarrow> goint \<Rightarrow> gotime \<Rightarrow> providerCandidate \<Rightarrow> compatPlan \<Rightarrow> goint \<Rightarrow> goint \<Rightarrow>
     attempt_state \<Rightarrow> 'w exchange \<Rightarrow> bool \<times> attempt_state \<times> 'w exchange" where
  "provider_attempts sv c maxAttempts startedAt cand plan innerLimit providerAttempt st x =
     (if (innerLimit = 0 \<or> providerAttempt < innerLimit) \<and> (maxAttempts = 0 \<or> at_attempts st < maxAttempts)
      then (case one_attempt sv c maxAttempts startedAt cand plan st x of
          (True, st', x') \<Rightarrow> (True, st', x')
        | (False, st', x') \<Rightarrow>
            provider_attempts sv c maxAttempts startedAt cand plan innerLimit (providerAttempt + 1) st' x')
      else (False, st, x))"
  by pat_completeness auto

termination provider_attempts
  by (relation "measure (\<lambda>(sv, c, maxAttempts, startedAt, cand, plan, innerLimit, providerAttempt, st, x).
       nat ((if maxAttempts = 0 then hard_cap else maxAttempts) - at_attempts st))")
     (auto simp: in_measure dest!: one_attempt_counts [OF sym] split: if_splits)

declare provider_attempts.simps [simp del]

definition inner_limit :: "call \<Rightarrow> goint \<Rightarrow> ProviderSnapshot \<Rightarrow> goint" where
  "inner_limit c maxAttempts p =
     (if maxAttempts = 0 then 0
      else if option_of eo_DisableRetries False (cl_opts c) then 1
      else i64 (1 + max (ep_SameRetries (ps_ExecutionPolicy p)) 0))"

text \<open>A request that cannot be converted for a candidate ends the loop with status 400.\<close>

definition not_convertible ::
  "providerCandidate \<Rightarrow> string \<Rightarrow> compatPlan \<Rightarrow> attempt_state \<Rightarrow> attempt_state" where
  "not_convertible cand err plan st = st\<lparr>at_statusCode := 400, at_forwardErr := None,
     at_provider := Some (pcd_provider cand), at_effectiveModel := pcd_upstreamModel cand,
     at_errorMessage := err, at_plan := plan\<rparr>"

fun attempt_loop ::
  "'w services \<Rightarrow> call \<Rightarrow> goint \<Rightarrow> gotime \<Rightarrow> providerCandidate list \<Rightarrow> attempt_state \<Rightarrow> 'w exchange \<Rightarrow>
     attempt_state \<times> 'w exchange" where
  "attempt_loop sv c maxAttempts startedAt [] st x = (st, x)"
| "attempt_loop sv c maxAttempts startedAt (cand # cands) st x =
     (case plan_for sv c cand of
        (Some err, plan) \<Rightarrow> (not_convertible cand err plan st, x)
      | (None, plan) \<Rightarrow>
          (case provider_attempts sv c maxAttempts startedAt cand plan
              (inner_limit c maxAttempts (pcd_provider cand)) 0 st x of
             (True, st', x') \<Rightarrow> (st', x')
           | (False, st', x') \<Rightarrow> attempt_loop sv c maxAttempts startedAt cands st' x'))"

section \<open>The responses\<close>

definition succeeded :: "attempt_state \<Rightarrow> bool" where
  "succeeded st \<longleftrightarrow> at_forwardErr st = None \<and> at_statusCode st < 400"

definition provider_id :: "attempt_state \<Rightarrow> string" where
  "provider_id st = (case at_provider st of None \<Rightarrow> [] | Some p \<Rightarrow> ps_ProviderID p)"

definition attempt_mode :: "call \<Rightarrow> string \<Rightarrow> attempt_state \<Rightarrow> string" where
  "attempt_mode c routeMode st = routeModeForAttempt routeMode False (cl_format c = formatAnthropic) (at_provider st)"

text \<open>The telemetry event and the captured result of the loop's outcome.\<close>

definition record_outcome ::
  "'w services \<Rightarrow> call \<Rightarrow> string \<Rightarrow> attempt_state \<Rightarrow> goint \<Rightarrow> string \<Rightarrow> tokens \<Rightarrow> string \<Rightarrow> float64 \<Rightarrow>
     'w exchange \<Rightarrow> 'w exchange" where
  "record_outcome sv c routeMode st statusCode contentType toks errMsg cost x =
     (let mode = attempt_mode c routeMode st;
          pricing = pricing_of sv c (at_effectiveModel st) (provider_id st) toks statusCode
      in captureExecutionResult (cl_opts c) statusCode contentType (at_latency st) toks (provider_id st)
           (at_effectiveModel st) mode cost errMsg
           (emitTelemetry sv c (at_effectiveModel st) (provider_id st) mode statusCode (at_latency st)
             (at_attempts st) toks errMsg pricing x))"

text \<open>The body of an error response, adapted to the client if it can be.\<close>

definition error_body :: "converters \<Rightarrow> attempt_state \<Rightarrow> string \<times> string" where
  "error_body cv st =
     (if at_respBody st = [] then ([], at_contentType st)
      else case adaptResponseBodyForClient cv (at_plan st) (at_statusCode st) (at_respBody st) of
          Inl err \<Rightarrow> (at_respBody st, at_contentType st)
        | Inr (body, ct) \<Rightarrow> (body, if ct = [] then at_contentType st else ct))"

definition error_response :: "'w services \<Rightarrow> call \<Rightarrow> string \<Rightarrow> attempt_state \<Rightarrow> 'w exchange \<Rightarrow> 'w exchange" where
  "error_response sv c routeMode st x =
     (let (body, contentType) = error_body (sv_converters sv) st;
          x1 = record_outcome sv c routeMode st (at_statusCode st) contentType (0, 0, 0) (at_errorMessage st) 0 x
      in if at_streamRetry st
         then (stop_session x1)\<lparr>ex_writer :=
           writeStreamErrorEvent (sv_converters sv) (at_statusCode st) (at_errorMessage st) (ex_writer x1)\<rparr>
         else if body \<noteq> []
         then respond (at_statusCode st)
           (if trim_space contentType = [] then ''application/json'' else contentType) body x1
         else reject sv (at_statusCode st) (at_errorMessage st) x1)"

definition success_outcome ::
  "'w services \<Rightarrow> call \<Rightarrow> string \<Rightarrow> attempt_state \<Rightarrow> string \<Rightarrow> tokens \<Rightarrow> 'w exchange \<Rightarrow> 'w exchange" where
  "success_outcome sv c routeMode st contentType toks x =
     record_outcome sv c routeMode st (at_statusCode st) contentType toks []
       (fx_TotalCostUSD (pricing_of sv c (at_effectiveModel st) (provider_id st) toks (at_statusCode st))) x"

definition stream_response :: "'w services \<Rightarrow> call \<Rightarrow> string \<Rightarrow> attempt_state \<Rightarrow> stream_body \<Rightarrow> 'w exchange \<Rightarrow> 'w exchange" where
  "stream_response sv c routeMode st body x =
     (let (toks, x1) =
        (if at_streamRetry st
         then on_writer (writeCompatStreamResponseStarted (sv_converters sv) body (at_plan st)) (stop_session x)
         else on_writer (writeCompatStreamResponse (sv_converters sv) (at_statusCode st) (at_contentType st) body
           (at_plan st)) x)
      in success_outcome sv c routeMode st (at_contentType st) toks x1)"

definition body_response :: "'w services \<Rightarrow> call \<Rightarrow> string \<Rightarrow> string \<Rightarrow> attempt_state \<Rightarrow> 'w exchange \<Rightarrow> 'w exchange" where
  "body_response sv c stickyKey routeMode st x =
     (case adaptResponseBodyForClient (sv_converters sv) (at_plan st) (at_statusCode st) (at_respBody st) of
        Inl err \<Rightarrow>
          record_outcome sv c routeMode st 502 ''application/json'' (0, 0, 0) err 0
            (reject sv 502 ''failed to adapt upstream response'' x)
      | Inr (body, ct) \<Rightarrow>
          (let contentType = (if trim_space ct = [] then ''application/json'' else ct);
               x1 = cache_response sv c stickyKey (at_statusCode st) body (respond (at_statusCode st) contentType body x)
           in success_outcome sv c routeMode st contentType (extractUsage (cv_parse (sv_converters sv)) body) x1))"

section \<open>The request\<close>

definition bind_session :: "'w services \<Rightarrow> call \<Rightarrow> string \<Rightarrow> string \<Rightarrow> attempt_state \<Rightarrow> 'w exchange \<Rightarrow> 'w exchange" where
  "bind_session sv c routingModel stickyKey st x =
     (case gw_runtime (ex_gateway x) of
        None \<Rightarrow> x
      | Some s \<Rightarrow>
          (let (now, x1) = clock sv x in
           x1\<lparr>ex_gateway := (ex_gateway x1)\<lparr>gw_runtime :=
             Some (rememberSticky now routingModel stickyKey (provider_id st) (cl_snap c) s)\<rparr>\<rparr>))"

definition may_fall_back :: "call \<Rightarrow> attempt_state \<Rightarrow> bool" where
  "may_fall_back c st \<longleftrightarrow> \<not> at_streamRetry st \<and> \<not> option_of eo_DisableFallback False (cl_opts c)"

definition fall_back_or ::
  "'w services \<Rightarrow> call \<Rightarrow> attempt_state \<Rightarrow> ('w exchange \<Rightarrow> 'w exchange) \<Rightarrow> 'w exchange \<Rightarrow> 'w exchange" where
  "fall_back_or sv c st otherwise x =
     (if may_fall_back c st
      then (case tryFallbackModels sv c x of (True, x') \<Rightarrow> x' | (False, x') \<Rightarrow> otherwise x')
      else otherwise x)"

definition finish ::
  "'w services \<Rightarrow> call \<Rightarrow> string \<Rightarrow> string \<Rightarrow> string \<Rightarrow> attempt_state \<Rightarrow> 'w exchange \<Rightarrow> 'w exchange" where
  "finish sv c routingModel stickyKey routeMode st x =
     (if at_provider st = None then fall_back_or sv c st (reject sv 502 ''no provider available'') x
      else if \<not> succeeded st then fall_back_or sv c st (error_response sv c routeMode st) x
      else
        let x1 = bind_session sv c routingModel stickyKey st x in
        case (if req_Stream (cl_meta c) then at_streamBody st else None) of
          Some body \<Rightarrow> stream_response sv c routeMode st body x1
        | None \<Rightarrow> body_response sv c stickyKey routeMode st x1)"

definition pinned_provider :: "call \<Rightarrow> string" where
  "pinned_provider c = trim_space (option_of eo_PinnedProviderID [] (cl_opts c))"

definition order_for ::
  "'w services \<Rightarrow> call \<Rightarrow> string \<Rightarrow> string \<Rightarrow> providerCandidate list \<Rightarrow> 'w exchange \<Rightarrow>
     providerCandidate list \<times> 'w exchange" where
  "order_for sv c routingModel stickyKey cands x =
     (if pinned_provider c \<noteq> [] then
        (let (ordered, seq) = orderProviderCandidates cands (gw_sequence (ex_gateway x))
         in (ordered, x\<lparr>ex_gateway := (ex_gateway x)\<lparr>gw_sequence := seq\<rparr>\<rparr>))
      else order_with_runtime sv (cl_snap c) routingModel stickyKey cands x)"

definition max_attempts :: "call \<Rightarrow> goint" where
  "max_attempts c = (if option_of eo_DisableRetries False (cl_opts c) then 1 else maxTotalAttempts (Some (cl_snap c)))"

text \<open>The request has candidates: order them, try them, answer.\<close>

definition route_request ::
  "'w services \<Rightarrow> call \<Rightarrow> string \<Rightarrow> string \<Rightarrow> providerCandidate list \<Rightarrow> 'w exchange \<Rightarrow> 'w exchange" where
  "route_request sv c routingModel stickyKey cands x =
     (let (ordered, x1) = order_for sv c routingModel stickyKey cands x;
          routeMode = (if routingModel \<noteq> req_Model (cl_meta c) then ''model_bridge''
            else determineRouteMode ordered (Some (cl_snap c)));
          (startedAt, x2) = clock sv x1;
          (st, x3) = attempt_loop sv c (max_attempts c) startedAt ordered (initial_state routingModel) x2
      in finish sv c routingModel stickyKey routeMode st x3)"

definition not_available :: string where "not_available = ''provider not available for requested model''"

definition candidates_of :: "call \<Rightarrow> string \<Rightarrow> providerCandidate list" where
  "candidates_of c routingModel =
     filter (\<lambda>cand. pinned_provider c = [] \<or> ps_ProviderID (pcd_provider cand) = pinned_provider c)
       (collectProviderCandidatesForRequest (Some (cl_snap c)) routingModel)"

definition select_candidates ::
  "'w services \<Rightarrow> call \<Rightarrow> string \<Rightarrow> string \<Rightarrow> 'w exchange \<Rightarrow> 'w exchange" where
  "select_candidates sv c routingModel stickyKey x =
     (if collectProviderCandidatesForRequest (Some (cl_snap c)) routingModel = []
      then reject sv 404 (''model not found: '' @ routingModel) x
      else if candidates_of c routingModel = []
      then
        let x1 = reject sv 404 not_available x; (now, x2) = clock sv x1
        in captureExecutionResult (cl_opts c) 404 ''application/json'' (time_sub now (cl_start c)) (0, 0, 0) []
             (req_Model (cl_meta c)) [] 0 not_available x2
      else route_request sv c routingModel stickyKey (candidates_of c routingModel) x)"

text \<open>The answer from the cache.\<close>

definition cache_hit :: "'w services \<Rightarrow> call \<Rightarrow> bytes \<Rightarrow> 'w exchange \<Rightarrow> 'w exchange" where
  "cache_hit sv c body x =
     (let x1 = x\<lparr>ex_writer := snd (Write body (write_header 200 (set_header ''X-Cache'' ''HIT''
            (set_header ''Content-Type'' ''application/json'' (ex_writer x)))))\<rparr>;
          model = req_Model (cl_meta c); (now, x2) = clock sv x1;
          x3 = emitTelemetry sv c model [] ''cache'' 200 (time_sub now (cl_start c)) 0 (0, 0, 0) []
            (resolveFixedPricing (sv_pricing sv) model model [] 0 0 0 True 200) x2;
          (now', x4) = clock sv x3
      in captureExecutionResult (cl_opts c) 200 ''application/json'' (time_sub now' (cl_start c)) (0, 0, 0) [] model
           ''cache'' 0 [] x4)"

definition routing_model :: "'w services \<Rightarrow> call \<Rightarrow> string" where
  "routing_model sv c = resolveBridgeModel (sv_path_match sv) (Some (cl_snap c)) (req_Model (cl_meta c))
     (rq_Get (cl_request c) ''User-Agent'')"

definition sticky_key :: "call \<Rightarrow> string" where
  "sticky_key c = (if option_of eo_DisableSticky False (cl_opts c) then []
     else resolveStickyKey (cl_meta c) (rq_Get (cl_request c)))"

definition handle_call :: "'w services \<Rightarrow> call \<Rightarrow> 'w exchange \<Rightarrow> 'w exchange" where
  "handle_call sv c x =
     (case cached_response sv c (sticky_key c) x of
        (Some body, x1) \<Rightarrow> cache_hit sv c body x1
      | (None, x1) \<Rightarrow> select_candidates sv c (routing_model sv c) (sticky_key c) x1)"

text \<open>What \<open>io.ReadAll\<close> returns of a body behind a \<open>LimitReader\<close>.\<close>

definition read_body :: "Snapshot \<Rightarrow> ClientRequest \<Rightarrow> string option" where
  "read_body snap r =
     (let limit = ing_MaxBodyBytes (snap_Ingress snap) in
      if rq_ReadFails r \<and> int (length (rq_Body r)) < limit then None
      else Some (take (nat limit) (rq_Body r)))"

definition handleChatOrMessages ::
  "'w services \<Rightarrow> Snapshot \<Rightarrow> ExecutionOptions option \<Rightarrow> clientFormat \<Rightarrow> ClientRequest \<Rightarrow> 'w exchange \<Rightarrow> 'w exchange" where
  "handleChatOrMessages sv snap opts fmt r x =
     (let (start, x1) = clock sv x; (uuid, x2) = on_gateway (on_world (sv_uuid sv)) x1;
          requestID = (if trim_space (option_of eo_RequestID [] opts) \<noteq> []
            then trim_space (option_of eo_RequestID [] opts) else uuid)
      in case read_body snap r of
          None \<Rightarrow> reject sv 400 ''failed to read request body'' x2
        | Some body \<Rightarrow>
            (case parseChatCompletionRequestMeta (cv_parse (sv_converters sv)) body of
               None \<Rightarrow> reject sv 400 ''invalid request body'' x2
             | Some meta \<Rightarrow>
                 if req_Model meta = [] then reject sv 400 ''model is required'' x2
                 else handle_call sv \<lparr>cl_snap = snap, cl_request = r, cl_format = fmt, cl_opts = opts,
                   cl_requestID = requestID, cl_start = start, cl_meta = meta, cl_body = body\<rparr> x2))"

definition HandleChatCompletion ::
  "'w services \<Rightarrow> Snapshot \<Rightarrow> ExecutionOptions option \<Rightarrow> ClientRequest \<Rightarrow> 'w exchange \<Rightarrow> 'w exchange" where
  "HandleChatCompletion sv snap opts = handleChatOrMessages sv snap opts formatChatCompletions"

definition HandleMessages ::
  "'w services \<Rightarrow> Snapshot \<Rightarrow> ExecutionOptions option \<Rightarrow> ClientRequest \<Rightarrow> 'w exchange \<Rightarrow> 'w exchange" where
  "HandleMessages sv snap opts = handleChatOrMessages sv snap opts formatAnthropic"

definition HandleResponses ::
  "'w services \<Rightarrow> Snapshot \<Rightarrow> ExecutionOptions option \<Rightarrow> ClientRequest \<Rightarrow> 'w exchange \<Rightarrow> 'w exchange" where
  "HandleResponses sv snap opts = handleChatOrMessages sv snap opts formatResponses"

section \<open>The ends of a request\<close>

text \<open>The state when the request has been read: the clock and the identifiers have been asked.\<close>

definition entered :: "'w services \<Rightarrow> 'w exchange \<Rightarrow> 'w exchange" where
  "entered sv x = snd (on_gateway (on_world (sv_uuid sv)) (snd (clock sv x)))"

lemma handle_cases:
  obtains (rejected) msg where "handleChatOrMessages sv snap opts fmt r x = reject sv 400 msg (entered sv x)"
  | (called) c where "cl_snap c = snap" "cl_opts c = opts" "cl_format c = fmt" "cl_request c = r"
      "cl_start c = fst (clock sv x)" "Some (cl_body c) = read_body snap r" "req_Model (cl_meta c) \<noteq> []"
      "parseChatCompletionRequestMeta (cv_parse (sv_converters sv)) (cl_body c) = Some (cl_meta c)"
      "handleChatOrMessages sv snap opts fmt r x = handle_call sv c (entered sv x)"
proof (cases "read_body snap r")
  case None
  with rejected show thesis by (simp add: handleChatOrMessages_def entered_def Let_def split_def)
next
  case body: (Some body)
  show thesis
  proof (cases "parseChatCompletionRequestMeta (cv_parse (sv_converters sv)) body")
    case None
    with body rejected show thesis by (simp add: handleChatOrMessages_def entered_def Let_def split_def)
  next
    case (Some meta)
    show thesis
    proof (cases "req_Model meta = []")
      case True
      with body Some rejected show thesis by (simp add: handleChatOrMessages_def entered_def Let_def split_def)
    next
      case False
      with body Some show thesis
        by (intro called [of "\<lparr>cl_snap = snap, cl_request = r, cl_format = fmt, cl_opts = opts,
            cl_requestID = (if trim_space (option_of eo_RequestID [] opts) \<noteq> []
              then trim_space (option_of eo_RequestID [] opts)
              else fst (on_gateway (on_world (sv_uuid sv)) (snd (clock sv x)))),
            cl_start = fst (clock sv x), cl_meta = meta, cl_body = body\<rparr>"])
           (simp_all add: handleChatOrMessages_def entered_def Let_def split_def)
    qed
  qed
qed

section \<open>A gateway for the witnesses\<close>

text \<open>
  Two providers of the model \<open>m\<close>, requests with one letter (\<open>s\<close> asks for a stream), upstream
  responses from a script; nothing is converted.
\<close>

definition demo_client_parse :: parser where
  "demo_client_parse s =
     (if s = ''r'' then Some (JObject [(''model'', JString ''m''), (''user'', JString ''u'')])
      else if s = ''s'' then Some (JObject [(''model'', JString ''m''), (''stream'', JBool True)])
      else None)"

definition demo_converters :: converters where
  "demo_converters = \<lparr>cv_parse = demo_client_parse, cv_marshal = (\<lambda>v. Some ''E''),
     cv_normalizeAnthropic = (\<lambda>b. b), cv_normalizeOpenAI = (\<lambda>b. b), cv_customToolNames = (\<lambda>b. []),
     cv_responsesToChat = (\<lambda>b m. Inr b), cv_anthropicToChat = (\<lambda>b m. Inr b), cv_chatToAnthropic = (\<lambda>b m. Inr b),
     cv_chatResponseToResponses = (\<lambda>b m ns. Inr b), cv_chatResponseToAnthropic = (\<lambda>b m. Inr b),
     cv_chatErrorToAnthropic = (\<lambda>b. b), cv_anthropicResponseToChat = (\<lambda>b. Inr b), cv_anthropicErrorToChat = (\<lambda>b. b),
     cv_bridgeStream = (\<lambda>plan status body w. ((0, 0, 0),
       case status of None \<Rightarrow> w | Some s \<Rightarrow> snd (Write (sb_content body) (write_header s w))))\<rparr>"

definition demo_services :: "HttpOutcome list services" where
  "demo_services = \<lparr>sv_world = scripted, sv_converters = demo_converters, sv_path_match = (\<lambda>p s. Some (p = s)),
     sv_sha256 = (\<lambda>b. b), sv_pricing = None, sv_telemetry = True, sv_flusher = True,
     sv_uuid = (\<lambda>w. (''id'', w)), sv_ticks = (\<lambda>w. (1, w))\<rparr>"

definition demo_request_of :: "string \<Rightarrow> ClientRequest" where
  "demo_request_of body = \<lparr>rq_Body = body, rq_ReadFails = False, rq_Get = (\<lambda>k. []), rq_Path = ''/v1/chat/completions''\<rparr>"

definition demo_gateway_snapshot :: "RetryPolicy \<Rightarrow> Snapshot" where
  "demo_gateway_snapshot retry = demo_runtime_snapshot\<lparr>
     snap_Ingress := (snap_Ingress demo_runtime_snapshot)\<lparr>ing_MaxBodyBytes := 100\<rparr>,
     snap_RoutingPolicy := (snap_RoutingPolicy demo_runtime_snapshot)\<lparr>rp_Retry := retry, rp_MaxRetries := 1,
       rp_RetryBackoff := \<lparr>rb_InitialMs = 0, rb_MaxMs = 0\<rparr>,
       rp_Cache := \<lparr>cc_Enabled = True, cc_MaxEntries = 10, cc_TTLSec = 60, cc_MaxBytesMB = 0\<rparr>\<rparr>\<rparr>"

definition demo_retry :: "bool \<Rightarrow> RetryPolicy" where
  "demo_retry forever = \<lparr>rty_InfiniteOnError = forever, rty_MaxElapsedMs = 0, rty_AllErrors = True,
     rty_StatusCodes = [], rty_StatusCodeMin = 0, rty_MessageKeywords = []\<rparr>"

definition demo_exchange :: "HttpOutcome list \<Rightarrow> HttpOutcome list exchange" where
  "demo_exchange script = \<lparr>ex_gateway = demo_gateway (Some NewRuntimeState) script, ex_writer = fresh_writer,
     ex_session = False, ex_events = [], ex_result = None, ex_cache = None\<rparr>"

definition demo_options :: ExecutionOptions where
  "demo_options = \<lparr>eo_RequestID = [], eo_PinnedProviderID = ''b'', eo_DisableCache = True, eo_DisableFallback = True,
     eo_DisableRetries = False, eo_DisableSticky = True, eo_SyntheticKind = ''benchmark'', eo_BenchmarkRunID = ''run'',
     eo_BenchmarkTargetID = [], eo_BenchmarkCaseID = [], eo_Result = True\<rparr>"

definition demo_call :: "bool \<Rightarrow> call" where
  "demo_call stream = \<lparr>cl_snap = demo_gateway_snapshot (demo_retry True), cl_request = demo_request_of ''r'',
     cl_format = formatChatCompletions, cl_opts = None, cl_requestID = ''id'', cl_start = 7,
     cl_meta = \<lparr>req_Model = ''m'', req_Stream = stream, req_IncludeUsage = False, req_User = ''u'',
       req_SessionID = [], req_ConversationID = []\<rparr>, cl_body = ''r''\<rparr>"

end
