(* ===== verification/Handler_Traffic.thy ===== *)
theory Handler_Traffic
  imports Handler
begin

text \<open>
  The requests that one call of the handler sends upstream: how many there are and where they go.
  \<open>traffic A n x x'\<close> relates the state before and after a step which sends at most \<open>n\<close> requests,
  all of them to addresses in \<open>A\<close>.
\<close>

section \<open>Traffic\<close>

abbreviation sent :: "'w exchange \<Rightarrow> HttpRequest list" where
  "sent x \<equiv> gw_sent (ex_gateway x)"

definition traffic :: "string set \<Rightarrow> nat \<Rightarrow> 'w exchange \<Rightarrow> 'w exchange \<Rightarrow> bool" where
  "traffic A n x x' \<longleftrightarrow>
     (\<exists>reqs. sent x' = sent x @ reqs \<and> length reqs \<le> n \<and> (\<forall>r \<in> set reqs. hr_URL r \<in> A))"

named_theorems silent \<open>operations that send nothing\<close>

lemma traffic_refl [simp, intro]: "traffic A n x x"
  by (simp add: traffic_def)

lemma traffic_silent: "sent x' = sent x \<Longrightarrow> traffic A n x x'"
  by (simp add: traffic_def)

lemma traffic_trans: "traffic A m x y \<Longrightarrow> traffic A n y z \<Longrightarrow> m + n \<le> k \<Longrightarrow> traffic A k x z"
  by (force simp: traffic_def)

lemma traffic_same:
  "sent y = sent x \<Longrightarrow> traffic A n y z \<longleftrightarrow> traffic A n x z"
  "sent y = sent x \<Longrightarrow> traffic A n z y \<longleftrightarrow> traffic A n z x"
  by (simp_all add: traffic_def)

section \<open>The operations that send nothing\<close>

lemma on_world_sent [silent]: "gw_sent (snd (on_world f g)) = gw_sent g"
  by (simp add: on_world_def Let_def split_def)

lemma on_gateway_sent [silent]:
  "(\<And>g. gw_sent (snd (f g)) = gw_sent g) \<Longrightarrow> sent (snd (on_gateway f x)) = sent x"
  by (simp add: on_gateway_def Let_def split_def)

lemma on_writer_sent [silent]: "sent (snd (on_writer f x)) = sent x"
  by (simp add: on_writer_def Let_def split_def)

lemma clock_sent [silent]: "sent (snd (clock sv x)) = sent x"
  by (simp add: clock_def on_gateway_sent)

lemma cancelled_sent [silent]: "sent (snd (cancelled sv x)) = sent x"
  by (simp add: cancelled_def Let_def split_def on_gateway_sent)

lemma budget_spent_sent [silent]: "sent (snd (budget_spent sv b t x)) = sent x"
  by (simp add: budget_spent_def Let_def split_def clock_sent)

lemma must_stop_sent [silent]: "sent (snd (must_stop sv c x)) = sent x"
  by (simp add: must_stop_def Let_def split_def silent)

lemma order_with_runtime_sent [silent]: "sent (snd (order_with_runtime sv snap m k cs x)) = sent x"
  by (simp add: order_with_runtime_def Let_def split_def silent split: option.split)

lemma report_attempt_sent [silent]: "sent (report_attempt sv p r x) = sent x"
  by (simp add: report_attempt_def Let_def split_def silent split: option.split)

lemma tick_session_sent [silent]: "sent (tick_session sv x) = sent x"
  by (simp add: tick_session_def Let_def split_def silent)

lemma start_session_sent [silent]: "sent (snd (start_session sv x)) = sent x"
  by (simp add: start_session_def Let_def split_def silent)

lemma wait_backoff_sent [silent]: "sent (wait_backoff sv c i x) = sent x"
  by (simp add: wait_backoff_def silent split: option.split)

lemma prepare_retry_sent [silent]: "sent (snd (prepare_retry sv c m st x)) = sent x"
  by (simp add: prepare_retry_def Let_def split_def silent)

lemma emitTelemetry_sent [silent]: "sent (emitTelemetry sv c em pid mode s l a t e p x) = sent x"
  by (simp add: emitTelemetry_def Let_def split_def silent)

lemma captureExecutionResult_sent [silent]:
  "sent (captureExecutionResult opts s ct l t pid em mode cost e x) = sent x"
  by (simp add: captureExecutionResult_def)

lemma responses_sent [silent]:
  "sent (reject sv s m x) = sent x" "sent (respond s ct b x) = sent x"
  by (simp_all add: reject_def respond_def)

lemma cache_sent [silent]:
  "sent (snd (cached_response sv c k x)) = sent x" "sent (cache_response sv c k s b x) = sent x"
  by (simp_all add: cached_response_def cache_response_def keep_cache_def Let_def split_def silent)

lemma bind_session_sent [silent]: "sent (bind_session sv c m k st x) = sent x"
  by (simp add: bind_session_def Let_def split_def silent split: option.split)

lemma record_outcome_sent [silent]: "sent (record_outcome sv c mode st s ct t e cost x) = sent x"
  by (simp add: record_outcome_def Let_def silent)

lemma error_response_sent [silent]: "sent (error_response sv c mode st x) = sent x"
  by (simp add: error_response_def stop_session_def Let_def split_def silent)

lemma stream_response_sent [silent]: "sent (stream_response sv c mode st b x) = sent x"
  by (simp add: stream_response_def success_outcome_def stop_session_def Let_def split_def silent)

lemma body_response_sent [silent]: "sent (body_response sv c k mode st x) = sent x"
  by (simp add: body_response_def success_outcome_def Let_def silent split: sum.split prod.split)

lemma fallback_response_sent [silent]: "sent (snd (fallback_response sv c plan r x)) = sent x"
  by (simp add: fallback_response_def Let_def split_def silent split: option.split sum.split)

lemma cache_hit_sent [silent]: "sent (cache_hit sv c b x) = sent x"
  by (simp add: cache_hit_def Let_def split_def silent)

section \<open>The addresses of a provider\<close>

definition provider_urls :: "ProviderSnapshot \<Rightarrow> string set" where
  "provider_urls p = {upstream_url p ''/v1/chat/completions'' False, upstream_url p ''/v1/messages'' True}"

lemma plan_urls:
  assumes "plan_for sv c cand = (None, plan)"
  shows "upstream_url (pcd_provider cand) (cpl_forwardPath plan) (cpl_upstreamIsAnthropic plan)
    \<in> provider_urls (pcd_provider cand)"
  using buildCompatPlan_protocol(1) [OF assms [unfolded plan_for_def]] by (simp add: provider_urls_def)

lemma forward_gateway_sent:
  "\<exists>reqs. gw_sent (snd (forwardToUpstream wo p path body stream ua isA g)) = gw_sent g @ reqs \<and>
     length reqs \<le> 1 \<and> (\<forall>r \<in> set reqs. hr_URL r = upstream_url p path isA)"
proof -
  have send: "\<exists>reqs. gw_sent (snd (send wo p url body stream ua isA g')) = gw_sent g @ reqs \<and>
      length reqs \<le> Suc 0 \<and> (\<forall>r \<in> set reqs. hr_URL r = url)" if "gw_sent g' = gw_sent g" for url g'
    using send_sent [of wo p url body stream ua isA g'] that by fastforce
  show ?thesis
    unfolding forwardToUpstream_def Let_def split_def
    by (simp split: option.split split del: if_split) (intro impI send, simp split del: if_split)
qed

lemma forward_traffic:
  assumes "plan_for sv c cand = (None, plan)" "provider_urls (pcd_provider cand) \<subseteq> A"
  shows "traffic A 1 x (snd (forward_attempt sv c (pcd_provider cand) plan x))"
proof -
  obtain reqs where reqs: "sent (snd (forward_attempt sv c (pcd_provider cand) plan x)) = sent x @ reqs"
    "length reqs \<le> 1"
    "\<forall>r \<in> set reqs. hr_URL r = upstream_url (pcd_provider cand) (cpl_forwardPath plan) (cpl_upstreamIsAnthropic plan)"
    using forward_gateway_sent [of "sv_world sv" "pcd_provider cand" "cpl_forwardPath plan" "cpl_forwardBody plan"
        "req_Stream (cl_meta c)" "rq_Get (cl_request c) ''User-Agent''" "cpl_upstreamIsAnthropic plan" "ex_gateway x"]
    unfolding forward_attempt_def on_gateway_def Let_def split_def by auto
  have "\<forall>r \<in> set reqs. hr_URL r \<in> A"
    using reqs(3) plan_urls [OF assms(1)] assms(2) by (simp add: subset_iff)
  with reqs(1,2) show ?thesis unfolding traffic_def by blast
qed

section \<open>The order keeps to the candidates\<close>

lemma orderProviderCandidates_subset: "set (fst (orderProviderCandidates cs seq)) \<subseteq> set cs"
proof (cases "2 \<le> length cs")
  case True
  have "set (scan_from k (map (\<lambda>i. cs ! i) (weightedPool cs))) \<subseteq> set cs" for k
    using pool_set [of cs] by (simp only: set_scan_from)
  then show ?thesis
    using order_loop_subset [of "length cs" "[]"] by (fastforce simp: orderProviderCandidates_loop [OF True])
next
  case False
  then show ?thesis by (simp add: orderProviderCandidates_def)
qed

definition collected :: "order_acc \<Rightarrow> providerCandidate set" where
  "collected acc = set (opt_list (oa_preferred acc) @ oa_available acc @ opt_list (oa_fallback acc) @ oa_passthrough acc)"

lemma order_step_collected:
  "collected (snd (order_step sticky policy now cand (s, acc))) \<subseteq> insert cand (collected acc)"
  by (auto simp: order_step_def collected_def opt_list_def Let_def split: if_splits option.splits)

lemma order_fold_collected:
  "collected (snd (fold (order_step sticky policy now) cs (s, acc))) \<subseteq> set cs \<union> collected acc"
proof (induction cs arbitrary: s acc)
  case (Cons cand cs)
  obtain s' acc' where st: "order_step sticky policy now cand (s, acc) = (s', acc')" by fastforce
  from Cons [of s' acc'] order_step_collected [of sticky policy now cand s acc] show ?case
    by (auto simp: st)
qed simp

lemma orderCandidates_subset: "set (fst (orderCandidates now now' (Some snap) m k cs seq s)) \<subseteq> set cs"
proof (cases "cs = []")
  case False
  define st where "st = lookupStickyProviderLocked now' m k (cleanupExpiredStickyLocked now s)"
  define acc where "acc = snd (fold (order_step (fst st) (rp_FailurePolicy (snap_RoutingPolicy snap)) now) cs
    (snd st, \<lparr>oa_preferred = None, oa_fallback = None, oa_available = [], oa_passthrough = []\<rparr>))"
  have acc: "collected acc \<subseteq> set cs"
    using order_fold_collected [of "fst st" "rp_FailurePolicy (snap_RoutingPolicy snap)" now cs "snd st"
        "\<lparr>oa_preferred = None, oa_fallback = None, oa_available = [], oa_passthrough = []\<rparr>"]
    by (simp add: acc_def) (simp add: collected_def opt_list_def)
  define avail where "avail = orderProviderCandidates (oa_available acc) seq"
  have "fst (orderCandidates now now' (Some snap) m k cs seq s) =
      opt_list (oa_preferred acc) @ fst avail @ opt_list (oa_fallback acc) @
      fst (orderProviderCandidates (oa_passthrough acc) (snd avail))"
    using False by (simp add: orderCandidates_def Let_def split_def acc_def st_def avail_def)
  moreover have "set (fst avail) \<subseteq> set (oa_available acc)"
    "set (fst (orderProviderCandidates (oa_passthrough acc) (snd avail))) \<subseteq> set (oa_passthrough acc)"
    by (simp_all add: avail_def orderProviderCandidates_subset)
  ultimately show ?thesis using acc by (auto simp: collected_def)
qed (simp add: orderCandidates_def)

lemma order_with_runtime_subset: "set (fst (order_with_runtime sv snap m k cs x)) \<subseteq> set cs"
  by (simp add: order_with_runtime_def Let_def split_def orderProviderCandidates_subset orderCandidates_subset
    split: option.split)

lemma order_for_subset: "set (fst (order_for sv c m k cs x)) \<subseteq> set cs"
  by (simp add: order_for_def Let_def split_def orderProviderCandidates_subset order_with_runtime_subset)

section \<open>The loop of attempts\<close>

lemma send_attempt_traffic:
  assumes "plan_for sv c cand = (None, plan)" "provider_urls (pcd_provider cand) \<subseteq> A"
    and "send_attempt sv c m cand plan st x = (stop, st', x')"
  shows "traffic A 1 x x' \<and> at_attempts st' = at_attempts st + 1"
proof -
  obtain r x1 where f: "forward_attempt sv c (pcd_provider cand) plan x = (r, x1)" by fastforce
  have "sent x' = sent x1"
    using assms(3) f
  proof (cases rule: send_attempt_cases)
    case (given_up gone x2)
    with cancelled_sent [of sv "report_attempt sv (ps_ProviderID (pcd_provider cand)) r (tick_session sv x1)"]
    show ?thesis by (simp add: silent)
  next
    case (retried gone x2)
    with cancelled_sent [of sv "report_attempt sv (ps_ProviderID (pcd_provider cand)) r (tick_session sv x1)"]
      prepare_retry_sent [of sv c m "after_response (sv_converters sv) cand plan r st" x2]
    show ?thesis by (simp add: silent)
  qed (simp_all add: silent)
  with forward_traffic [OF assms(1,2)] f send_attempt_counts [OF assms(3)] show ?thesis
    by (metis snd_conv traffic_same(2))
qed

text \<open>The attempts that a call may make.\<close>

definition attempt_cap :: "goint \<Rightarrow> goint" where
  "attempt_cap maxAttempts = (if maxAttempts = 0 then hard_cap else max maxAttempts 0)"

text \<open>Between two states of the loop: the attempts bound the traffic and stay within the cap.\<close>

definition attempts_ok ::
  "string set \<Rightarrow> goint \<Rightarrow> attempt_state \<Rightarrow> 'w exchange \<Rightarrow> attempt_state \<Rightarrow> 'w exchange \<Rightarrow> bool" where
  "attempts_ok A maxAttempts st x st' x' \<longleftrightarrow>
     at_attempts st \<le> at_attempts st' \<and> at_attempts st' \<le> attempt_cap maxAttempts \<and>
     traffic A (nat (at_attempts st' - at_attempts st)) x x'"

lemma attempts_ok_trans:
  "attempts_ok A m st x st1 x1 \<Longrightarrow> attempts_ok A m st1 x1 st2 x2 \<Longrightarrow> attempts_ok A m st x st2 x2"
  unfolding attempts_ok_def by (intro conjI; (rule traffic_trans)?) auto

lemma one_attempt_ok:
  assumes "plan_for sv c cand = (None, plan)" "provider_urls (pcd_provider cand) \<subseteq> A"
    and "one_attempt sv c m t cand plan st x = (stop, st', x')"
    and "at_attempts st \<le> attempt_cap m" "m = 0 \<or> at_attempts st < m"
  shows "attempts_ok A m st x st' x'"
proof (cases "budget_spent sv (retry_budget (cl_snap c)) t x")
  case (Pair spent x1)
  then have same: "sent x1 = sent x" using budget_spent_sent [of sv _ t x] by (metis snd_conv)
  show ?thesis
  proof (cases "spent \<or> m = 0 \<and> hard_cap \<le> at_attempts st")
    case True
    with assms(3) Pair have "at_attempts st' = at_attempts st" "x' = x1"
      by (auto simp: one_attempt_def split: bool.splits)
    with assms(4) same show ?thesis by (simp add: attempts_ok_def traffic_silent)
  next
    case False
    with assms(3) Pair have "send_attempt sv c m cand plan st x1 = (stop, st', x')"
      by (auto simp: one_attempt_def split: bool.splits if_splits)
    from send_attempt_traffic [OF assms(1,2) this] traffic_same(1) [OF same]
    have "traffic A 1 x x'" "at_attempts st' = at_attempts st + 1" by simp_all
    moreover have "at_attempts st + 1 \<le> attempt_cap m"
      using False assms(5) by (auto simp: attempt_cap_def)
    ultimately show ?thesis by (simp add: attempts_ok_def)
  qed
qed

lemma provider_attempts_ok:
  assumes "plan_for sv c cand = (None, plan)" "provider_urls (pcd_provider cand) \<subseteq> A"
  shows "provider_attempts sv c m t cand plan limit n st x = (stop, st', x') \<Longrightarrow>
    at_attempts st \<le> attempt_cap m \<Longrightarrow> attempts_ok A m st x st' x'"
  using assms
proof (induction sv c m t cand plan limit n st x arbitrary: st' x' rule: provider_attempts.induct)
  case (1 sv c m t cand plan limit n st x)
  show ?case
  proof (cases "(limit = 0 \<or> n < limit) \<and> (m = 0 \<or> at_attempts st < m)")
    case True
    obtain stop1 st1 x1 where one: "one_attempt sv c m t cand plan st x = (stop1, st1, x1)"
      by (cases "one_attempt sv c m t cand plan st x")
    have ok: "attempts_ok A m st x st1 x1"
      using one_attempt_ok [OF "1.prems"(3,4) one] "1.prems"(2) True by blast
    show ?thesis
    proof (cases stop1)
      case True
      with one "1.prems"(1) \<open>(limit = 0 \<or> n < limit) \<and> _\<close> ok show ?thesis
        by (simp add: provider_attempts.simps [of sv c m t cand plan limit n st x])
    next
      case False
      with one "1.prems"(1) True have "provider_attempts sv c m t cand plan limit (n + 1) st1 x1 = (stop, st', x')"
        by (simp add: provider_attempts.simps [of sv c m t cand plan limit n st x])
      moreover from ok have "at_attempts st1 \<le> attempt_cap m" by (simp add: attempts_ok_def)
      ultimately have "attempts_ok A m st1 x1 st' x'"
        using "1.IH" [OF True one [symmetric]] False "1.prems"(3,4) by blast
      with ok show ?thesis by (rule attempts_ok_trans)
    qed
  next
    case False
    with "1.prems"(1,2) show ?thesis
      by (auto simp: provider_attempts.simps [of sv c m t cand plan limit n st x] attempts_ok_def)
  qed
qed

lemma attempt_loop_ok:
  assumes "\<forall>cand \<in> set cands. provider_urls (pcd_provider cand) \<subseteq> A"
  shows "attempt_loop sv c m t cands st x = (st', x') \<Longrightarrow> at_attempts st \<le> attempt_cap m \<Longrightarrow>
    attempts_ok A m st x st' x'"
  using assms
proof (induction cands arbitrary: st x)
  case Nil
  then show ?case by (simp add: attempts_ok_def)
next
  case (Cons cand cands)
  obtain err plan where plan: "plan_for sv c cand = (err, plan)" by fastforce
  show ?case
  proof (cases err)
    case None
    obtain stop st1 x1 where run: "provider_attempts sv c m t cand plan
        (inner_limit c m (pcd_provider cand)) 0 st x = (stop, st1, x1)"
      by (cases "provider_attempts sv c m t cand plan (inner_limit c m (pcd_provider cand)) 0 st x")
    have ok: "attempts_ok A m st x st1 x1"
      using provider_attempts_ok [OF plan [unfolded None] _ run] Cons.prems(2,3) by simp
    then have "at_attempts st1 \<le> attempt_cap m" by (simp add: attempts_ok_def)
    with Cons plan None run ok show ?thesis
      by (cases stop) (auto intro: attempts_ok_trans)
  next
    case (Some e)
    with Cons.prems plan show ?thesis by (auto simp: attempts_ok_def not_convertible_def)
  qed
qed

section \<open>The fallback\<close>

lemma fallback_attempt_traffic:
  assumes "provider_urls (pcd_provider cand) \<subseteq> A"
  shows "traffic A 1 x (snd (fallback_attempt sv c cand x))"
proof -
  obtain err plan where plan: "plan_for sv c cand = (err, plan)" by fastforce
  show ?thesis
  proof (cases err)
    case None
    obtain r x1 where f: "forward_attempt sv c (pcd_provider cand) plan x = (r, x1)" by fastforce
    obtain out x3 where resp:
        "fallback_response sv c plan r (report_attempt sv (ps_ProviderID (pcd_provider cand)) r x1) = (out, x3)"
      by fastforce
    then have x3: "sent x3 = sent x1"
      using fallback_response_sent [of sv c plan r "report_attempt sv (ps_ProviderID (pcd_provider cand)) r x1"]
      by (simp add: silent)
    then have "sent (snd (fallback_attempt sv c cand x)) = sent x1"
      using plan None f resp x3 by (simp add: fallback_attempt_def Let_def silent split: option.split)
    with forward_traffic [OF plan [unfolded None] assms, of x] f show ?thesis
      by (metis snd_conv traffic_same(2))
  next
    case (Some e)
    with plan show ?thesis by (simp add: fallback_attempt_def)
  qed
qed

lemma fallback_candidates_traffic:
  assumes "\<forall>cand \<in> set cands. provider_urls (pcd_provider cand) \<subseteq> A"
  shows "fallback_candidates sv c cands n x = (out, n', x') \<Longrightarrow> n \<le> maxFallbackAttempts \<Longrightarrow>
    n \<le> n' \<and> n' \<le> maxFallbackAttempts \<and> traffic A (n' - n) x x'"
  using assms
proof (induction cands arbitrary: n x)
  case (Cons cand cands)
  obtain halt x1 where stop: "must_stop sv c x = (halt, x1)" by fastforce
  have same: "sent x1 = sent x" using must_stop_sent [of sv c x] stop by simp
  obtain served x2 where att: "fallback_attempt sv c cand x1 = (served, x2)" by fastforce
  have one: "traffic A 1 x x2"
    using fallback_attempt_traffic [of cand A x1 sv c] Cons.prems(3) att traffic_same(1) [OF same] by simp
  show ?case
  proof (cases "halt \<or> maxFallbackAttempts \<le> n")
    case True
    with Cons.prems(1,2) stop same show ?thesis by (auto intro: traffic_silent split: bool.splits)
  next
    case False
    show ?thesis
    proof (cases served)
      case True
      with False Cons.prems(1,2) stop att one show ?thesis by (auto split: bool.splits)
    next
      case notserved: False
      with False Cons.prems(1) stop att have "fallback_candidates sv c cands (Suc n) x2 = (out, n', x')"
        by (simp split: bool.splits)
      from Cons.IH [OF this] False Cons.prems(3) have "Suc n \<le> n'" "n' \<le> maxFallbackAttempts"
        "traffic A (n' - Suc n) x2 x'" by simp_all
      with one show ?thesis by (auto elim: traffic_trans)
    qed
  qed
qed simp

text \<open>The addresses of the enabled providers that serve a model.\<close>

definition model_urls :: "Snapshot \<Rightarrow> string \<Rightarrow> string set" where
  "model_urls snap model =
     (\<Union>cand \<in> set (collectProviderCandidatesForRequest (Some snap) model). provider_urls (pcd_provider cand))"

lemma fallback_models_traffic:
  assumes "\<forall>m \<in> set models. model_urls (cl_snap c) m \<subseteq> A"
  shows "n \<le> maxFallbackAttempts \<Longrightarrow> traffic A (maxFallbackAttempts - n) x (snd (fallback_models sv c models n x))"
  using assms
proof (induction models arbitrary: n x)
  case (Cons m models)
  obtain halt x1 where stop: "must_stop sv c x = (halt, x1)" by fastforce
  have same: "sent x1 = sent x" using must_stop_sent [of sv c x] stop by simp
  let ?cands = "collectProviderCandidatesForRequest (Some (cl_snap c)) m"
  show ?case
  proof (cases "halt \<or> ?cands = []")
    case True
    have "traffic A (maxFallbackAttempts - n) x (snd (fallback_models sv c models n x1))"
      using Cons.IH [OF Cons.prems(1), of x1] Cons.prems(2) traffic_same(1) [OF same] by simp
    with True stop same show ?thesis by (cases halt) (simp_all add: traffic_silent)
  next
    case False
    obtain ordered x2 where ord: "order_with_runtime sv (cl_snap c) m [] ?cands x1 = (ordered, x2)" by fastforce
    have "sent x2 = sent x" using order_with_runtime_sent [of sv "cl_snap c" m "[]" ?cands x1] ord same by simp
    moreover have urls: "\<forall>cand \<in> set ordered. provider_urls (pcd_provider cand) \<subseteq> A"
      using order_with_runtime_subset [of sv "cl_snap c" m "[]" ?cands x1] ord Cons.prems(2)
      by (auto simp: model_urls_def)
    moreover obtain out n' x3 where run: "fallback_candidates sv c ordered n x2 = (out, n', x3)"
      by (cases "fallback_candidates sv c ordered n x2")
    ultimately have step: "n \<le> n'" "n' \<le> maxFallbackAttempts" "traffic A (n' - n) x x3"
      using fallback_candidates_traffic [OF urls run Cons.prems(1)] traffic_same(1) [of x2 x] by simp_all
    have rest: "traffic A (maxFallbackAttempts - n') x3 (snd (fallback_models sv c models n' x3))"
      using Cons.IH [OF step(2)] Cons.prems(2) by simp
    have "fallback_models sv c (m # models) n x =
        (case out of Some served \<Rightarrow> (served, x3) | None \<Rightarrow> fallback_models sv c models n' x3)"
      using False stop ord run by (cases ?cands) auto
    with step rest show ?thesis
      by (auto elim: traffic_trans intro: traffic_trans [of A _ x x3 0] split: option.split)
  qed
qed simp

lemma tryFallbackModels_traffic:
  assumes "\<forall>m \<in> set (ResolveFallbackModels (Some (cl_snap c)) (req_Model (cl_meta c))). model_urls (cl_snap c) m \<subseteq> A"
  shows "traffic A maxFallbackAttempts x (snd (tryFallbackModels sv c x))"
  using fallback_models_traffic [OF assms, of 0] by (simp add: tryFallbackModels_def)

section \<open>A whole call\<close>

definition fallback_cap :: "call \<Rightarrow> nat" where
  "fallback_cap c = (if option_of eo_DisableFallback False (cl_opts c) then 0 else maxFallbackAttempts)"

text \<open>The addresses a call may use: those of its candidates, and of the fallbacks unless they are off.\<close>

definition call_urls :: "call \<Rightarrow> string \<Rightarrow> string set" where
  "call_urls c routingModel =
     (\<Union>cand \<in> set (candidates_of c routingModel). provider_urls (pcd_provider cand)) \<union>
     (if option_of eo_DisableFallback False (cl_opts c) then {}
      else \<Union>m \<in> set (ResolveFallbackModels (Some (cl_snap c)) (req_Model (cl_meta c))). model_urls (cl_snap c) m)"

lemma fall_back_or_traffic:
  assumes "\<And>y. sent (otherwise y) = sent y"
  shows "traffic (call_urls c m) (fallback_cap c) x (fall_back_or sv c st otherwise x)"
proof (cases "may_fall_back c st")
  case True
  then have on: "\<not> option_of eo_DisableFallback False (cl_opts c)" by (simp add: may_fall_back_def)
  obtain served x1 where run: "tryFallbackModels sv c x = (served, x1)" by fastforce
  have "traffic (call_urls c m) maxFallbackAttempts x x1"
    using tryFallbackModels_traffic [of c "call_urls c m" x sv] on run by (auto simp: call_urls_def)
  then show ?thesis
    using True run on traffic_same(2) [OF assms] by (cases served) (simp_all add: fall_back_or_def fallback_cap_def)
qed (simp add: fall_back_or_def assms traffic_silent)

lemma finish_traffic: "traffic (call_urls c m) (fallback_cap c) x (finish sv c m k mode st x)"
proof -
  have "traffic (call_urls c m) (fallback_cap c) x (fall_back_or sv c st (reject sv 502 msg) x)"
    "traffic (call_urls c m) (fallback_cap c) x (fall_back_or sv c st (error_response sv c mode st) x)" for msg
    by (rule fall_back_or_traffic, simp add: silent)+
  then show ?thesis
    by (auto simp: finish_def Let_def silent intro!: traffic_silent split: option.split)
qed

lemma route_request_traffic:
  "traffic (call_urls c m) (nat (attempt_cap (max_attempts c)) + fallback_cap c) x
     (route_request sv c m k (candidates_of c m) x)"
proof -
  obtain ordered x1 where ord: "order_for sv c m k (candidates_of c m) x = (ordered, x1)" by fastforce
  obtain startedAt x2 where clk: "clock sv x1 = (startedAt, x2)" by fastforce
  obtain st x3 where run: "attempt_loop sv c (max_attempts c) startedAt ordered (initial_state m) x2 = (st, x3)"
    by fastforce
  have "sent x1 = sent x"
    using ord order_with_runtime_sent [of sv "cl_snap c" m k "candidates_of c m" x]
    by (auto simp: order_for_def Let_def split_def split: if_splits)
  with clk clock_sent [of sv x1] have same: "sent x2 = sent x" by simp
  have urls: "\<forall>cand \<in> set ordered. provider_urls (pcd_provider cand) \<subseteq> call_urls c m"
    using order_for_subset [of sv c m k "candidates_of c m" x] ord by (auto simp: call_urls_def)
  have "attempts_ok (call_urls c m) (max_attempts c) (initial_state m) x2 st x3"
    using attempt_loop_ok [OF urls run] by (simp add: initial_state_def attempt_cap_def hard_cap_def)
  then have "traffic (call_urls c m) (nat (at_attempts st)) x x3" "at_attempts st \<le> attempt_cap (max_attempts c)"
    using traffic_same(1) [OF same] by (simp_all add: attempts_ok_def initial_state_def)
  then show ?thesis
    using finish_traffic [of c m x3 sv k] ord clk run
    by (auto simp: route_request_def Let_def elim!: traffic_trans)
qed

lemma handle_call_traffic:
  "\<exists>m. traffic (call_urls c m) (nat (attempt_cap (max_attempts c)) + fallback_cap c) x (handle_call sv c x)"
proof -
  define m where "m = routing_model sv c"
  define k where "k = sticky_key c"
  obtain hit x1 where look: "cached_response sv c k x = (hit, x1)" by fastforce
  have same: "sent x1 = sent x" using cache_sent(1) [of sv c k x] look by simp
  have "traffic (call_urls c m) (nat (attempt_cap (max_attempts c)) + fallback_cap c) x1 (select_candidates sv c m k x1)"
    using route_request_traffic [of c m x1 sv k]
    by (auto simp: select_candidates_def Let_def split_def silent intro!: traffic_silent)
  moreover have "handle_call sv c x =
      (case hit of Some body \<Rightarrow> cache_hit sv c body x1 | None \<Rightarrow> select_candidates sv c m k x1)"
    by (simp add: handle_call_def m_def [symmetric] k_def [symmetric] look split: option.split)
  ultimately show ?thesis
    using traffic_same(1) [OF same] same
    by (intro exI [of _ m]) (cases hit; simp add: silent traffic_silent)
qed

lemma attempt_cap_le: "attempt_cap (max_attempts c) \<le> (if option_of eo_DisableRetries False (cl_opts c) then 1 else 20)"
  by (auto simp: attempt_cap_def max_attempts_def maxTotalAttempts_def HardRetryCap_def hard_cap_def Let_def)

lemma entered_sent [silent]: "sent (entered sv x) = sent x"
  by (simp add: entered_def silent)

lemma handle_traffic:
  obtains "sent (handleChatOrMessages sv snap opts fmt r x) = sent x"
  | c m where "cl_snap c = snap" "cl_opts c = opts"
      "traffic (call_urls c m) (nat (attempt_cap (max_attempts c)) + fallback_cap c) x
         (handleChatOrMessages sv snap opts fmt r x)"
proof (cases rule: handle_cases [of sv snap opts fmt r x])
  case (rejected msg)
  with that(1) show thesis by (simp add: silent)
next
  case (called c)
  obtain m where "traffic (call_urls c m) (nat (attempt_cap (max_attempts c)) + fallback_cap c)
      (entered sv x) (handle_call sv c (entered sv x))"
    using handle_call_traffic by blast
  with called that(2) traffic_same(1) [OF entered_sent] show thesis by metis
qed

lemma call_urls_enabled:
  assumes "url \<in> call_urls c m"
  shows "\<exists>p \<in> set (snap_Providers (cl_snap c)). ep_Enabled (ps_ExecutionPolicy p) \<and> url \<in> provider_urls p"
  using assms
  by (fastforce simp: call_urls_def candidates_of_def model_urls_def collect_mem candidate_of_Some split: if_splits)

section \<open>Properties\<close>

text \<open>The addresses of the enabled providers that a condition selects.\<close>

definition enabled_urls :: "Snapshot \<Rightarrow> (ProviderSnapshot \<Rightarrow> bool) \<Rightarrow> string set" where
  "enabled_urls snap f = \<Union> (provider_urls ` {p \<in> set (snap_Providers snap). ep_Enabled (ps_ExecutionPolicy p) \<and> f p})"

lemma call_urls_pinned:
  assumes "option_of eo_DisableFallback False (cl_opts c)" "pinned_provider c \<noteq> []"
  shows "call_urls c m \<subseteq> enabled_urls (cl_snap c) (\<lambda>p. ps_ProviderID p = pinned_provider c)"
  using assms
  by (fastforce simp: call_urls_def candidates_of_def enabled_urls_def collect_mem candidate_of_Some)


text \<open>
  A call that is pinned to a provider and does not fall back sends requests to that provider
  only.
\<close>

theorem pinned_call_stays:
  assumes "option_of eo_DisableFallback False opts" "trim_space (option_of eo_PinnedProviderID [] opts) = pin" "pin \<noteq> []"
  shows "\<exists>reqs. sent (handleChatOrMessages sv snap opts fmt r x) = sent x @ reqs \<and>
    hr_URL ` set reqs \<subseteq> enabled_urls snap (\<lambda>p. ps_ProviderID p = pin)"
proof (cases rule: handle_traffic [of sv snap opts fmt r x])
  case 1
  then show ?thesis by simp
next
  case (2 c m)
  with call_urls_pinned [of c m] assms have "call_urls c m \<subseteq> enabled_urls snap (\<lambda>p. ps_ProviderID p = pin)"
    by (simp add: pinned_provider_def)
  with 2(3) show ?thesis unfolding traffic_def by (meson image_subsetI subsetD)
qed

theorem pinned_call_stays_witness:
  "\<exists>reqs. sent (handleChatOrMessages demo_services (demo_gateway_snapshot (demo_retry True)) (Some demo_options)
       formatChatCompletions (demo_request_of ''r'') (demo_exchange [])) = reqs \<and>
     hr_URL ` set reqs \<subseteq> enabled_urls (demo_gateway_snapshot (demo_retry True)) (\<lambda>p. ps_ProviderID p = ''b'')"
proof -
  have "option_of eo_DisableFallback False (Some demo_options)"
    "trim_space (option_of eo_PinnedProviderID [] (Some demo_options)) = ''b''"
    by code_simp+
  from pinned_call_stays [OF this, of demo_services "demo_gateway_snapshot (demo_retry True)" formatChatCompletions
      "demo_request_of ''r''" "demo_exchange []"]
  show ?thesis by (simp add: demo_exchange_def demo_gateway_def)
qed

end
