(* ===== verification/Stream_Bridge.thy ===== *)
theory Stream_Bridge
  imports Streaming Json_Build
begin

text \<open>
  The loop that the three stream bridges of \<open>internal/gateway/api/compat.go\<close> share: it reads the lines
  of the upstream's event stream, puts the data lines of an event together, and hands every event to
  a handler that has its own state and the response writer. Errors of the writer are ignored.
\<close>

section \<open>Writing events\<close>

definition write_all :: "string list \<Rightarrow> ResponseWriter \<Rightarrow> ResponseWriter" where
  "write_all xs w = fold (\<lambda>data w. snd (Write data w)) xs w"

text \<open>One event with its name, which may be empty. A payload that cannot be encoded is left out.\<close>

definition emit_event :: "(json \<Rightarrow> string option) \<Rightarrow> string \<Rightarrow> json \<Rightarrow> ResponseWriter \<Rightarrow> ResponseWriter" where
  "emit_event marshal event payload w =
     (case marshal payload of
        None \<Rightarrow> w
      | Some data \<Rightarrow>
          if data = [] then w
          else write_all ((if event \<noteq> [] then [''event: '', event, [newline]] else []) @
            [''data: '', data, [newline, newline]]) w)"

definition bridge_headers :: "goint \<Rightarrow> ResponseWriter \<Rightarrow> ResponseWriter" where
  "bridge_headers statusCode w = write_header statusCode (stream_headers ''text/event-stream'' w)"

section \<open>The reading loop\<close>

definition bridge_line :: "(string \<Rightarrow> 'a \<Rightarrow> 'a) \<Rightarrow> string \<Rightarrow> string \<times> 'a \<Rightarrow> string \<times> 'a" where
  "bridge_line handle line = (\<lambda>(event, acc).
     let trimmed = trim_right_newlines line in
     if trim_space trimmed = [] then ([], if event \<noteq> [] then handle event acc else acc)
     else if prefix ''data:'' trimmed
     then ((if event \<noteq> [] then event @ [newline] else event) @ trim_space (drop 5 trimmed), acc)
     else (event, acc))"

function bridge_loop ::
  "(string \<Rightarrow> 'a \<Rightarrow> 'a) \<Rightarrow> ('a \<Rightarrow> 'a) \<Rightarrow> bool \<Rightarrow> string \<Rightarrow> string \<times> 'a \<Rightarrow> 'a" where
  "bridge_loop handle finish eof content acc =
     (case read_line content of (line, rest, found) \<Rightarrow>
        let acc' = (if line \<noteq> [] then bridge_line handle line acc else acc) in
        if found then bridge_loop handle finish eof rest acc'
        else if eof then finish (if fst acc' \<noteq> [] then handle (fst acc') (snd acc') else snd acc')
        else snd acc')"
  by auto
termination
  by (relation "measure (\<lambda>(handle, finish, eof, content, acc). length content)")
     (auto dest: read_line_rest(1) [OF sym])

declare bridge_loop.simps [simp del]

text \<open>The loop hands over the events of the stream that have data, in order.\<close>

definition bridged_events :: "stream_body \<Rightarrow> string list" where
  "bridged_events body =
     filter (\<lambda>e. e \<noteq> []) ((if sb_eof body then id else butlast) (stream_events [] (split_lines (sb_content body))))"

lemma bridge_line_events:
  "stream_events event (line # ls) =
     (if blank_line line then [event] else []) @ stream_events (fst (bridge_line handle line (event, acc))) ls"
  "snd (bridge_line handle line (event, acc)) = (if blank_line line \<and> event \<noteq> [] then handle event acc else acc)"
  by (simp_all add: bridge_line_def Let_def blank_line_def data_of_line_def)

lemma bridge_loop_fold:
  "bridge_loop handle finish eof content (event, acc) =
     (if eof then finish else id)
       (fold handle (filter (\<lambda>e. e \<noteq> []) ((if eof then id else butlast) (stream_events event (split_lines content)))) acc)"
proof (induction "length content" arbitrary: content event acc rule: less_induct)
  case less
  obtain line rest found where r: "read_line content = (line, rest, found)" by (metis surj_pair)
  have nl: "line \<noteq> []" if found using r that by (induction content) (auto split: prod.splits if_splits)
  have step: "split_lines content = (if line \<noteq> [] then [line] else []) @ (if found then split_lines rest else [])"
    by (subst split_lines.simps) (simp add: r)
  obtain event' acc' where e: "(if line \<noteq> [] then bridge_line handle line (event, acc) else (event, acc)) = (event', acc')"
    using prod.exhaust by blast
  note el = bridge_line_events [where handle = handle and line = line and event = event and acc = acc]
  show ?case
  proof (cases found)
    case True
    have e': "bridge_line handle line (event, acc) = (event', acc')" using e nl True by simp
    have "bridge_loop handle finish eof content (event, acc) = bridge_loop handle finish eof rest (event', acc')"
      by (subst bridge_loop.simps) (use r nl True e' in \<open>simp add: Let_def\<close>)
    also have "\<dots> = (if eof then finish else id) (fold handle (filter (\<lambda>e. e \<noteq> [])
        ((if eof then id else butlast) (stream_events event' (split_lines rest)))) acc')"
      using less.hyps [of rest event' acc'] read_line_rest(1) [of content line rest] r True by simp
    finally show ?thesis
      using el(1) [of "split_lines rest"] el(2) nl True by (simp add: step e' butlast_append)
  next
    case False
    have "bridge_loop handle finish eof content (event, acc) =
        (if eof then finish (if event' \<noteq> [] then handle event' acc' else acc') else acc')"
      by (subst bridge_loop.simps) (use r False e in \<open>simp add: Let_def\<close>)
    with el(1) [of "[]"] el(2) e False show ?thesis
      by (auto simp: step split: if_splits)
  qed
qed

lemma bridge_loop_events:
  "bridge_loop handle finish (sb_eof body) (sb_content body) ([], acc) =
     (if sb_eof body then finish else id) (fold handle (bridged_events body) acc)"
  by (simp add: bridge_loop_fold bridged_events_def)

section \<open>What the bridges share\<close>

text \<open>A writer after some more of the body was written: status and headers are as they were.\<close>

definition sent_on :: "ResponseWriter \<Rightarrow> ResponseWriter \<Rightarrow> bool" where
  "sent_on w w' = (rw_header w' = rw_header w \<and> rw_status w' = rw_status w \<and> rw_sent w' = rw_sent w \<and>
     prefix (rw_body w) (rw_body w'))"

lemma sent_on_refl [simp]: "sent_on w w"
  by (simp add: sent_on_def)

lemma sent_on_trans: "sent_on w w' \<Longrightarrow> sent_on w' w'' \<Longrightarrow> sent_on w w''"
  by (auto simp: sent_on_def intro: prefix_order.trans)

lemma Write_sent_on: "rw_status w \<noteq> None \<Longrightarrow> sent_on w (snd (Write data w))"
  by (simp add: Write_def Let_def write_header_def sent_on_def split: option.split nat.split)

lemma fold_sent_on:
  assumes "\<And>x w. rw_status w \<noteq> None \<Longrightarrow> sent_on w (f x w)" "rw_status w \<noteq> None"
  shows "sent_on w (fold f xs w)"
  using assms(2)
proof (induction xs arbitrary: w)
  case (Cons x xs)
  from assms(1) [of w x] Cons.prems have x: "sent_on w (f x w)" by simp
  then have "rw_status (f x w) \<noteq> None" using Cons.prems by (simp add: sent_on_def)
  from sent_on_trans [OF x Cons.IH [OF this]] show ?case by simp
qed simp

lemma write_all_sent_on: "rw_status w \<noteq> None \<Longrightarrow> sent_on w (write_all xs w)"
  unfolding write_all_def by (rule fold_sent_on) (rule Write_sent_on)

lemma emit_event_sent_on: "rw_status w \<noteq> None \<Longrightarrow> sent_on w (emit_event marshal event payload w)"
  by (simp add: emit_event_def write_all_sent_on split: option.split)

text \<open>
  A bridge translates the events with a state of its own and writes what comes out, in its order. What
  it writes is determined by the outputs of the whole stream, and it only adds to the body.
\<close>

fun bridge_outputs :: "('e \<Rightarrow> 's \<Rightarrow> 'o list \<times> 's) \<Rightarrow> 'e list \<Rightarrow> 's \<Rightarrow> 'o list \<times> 's" where
  "bridge_outputs translate [] st = ([], st)"
| "bridge_outputs translate (e # es) st =
     (case translate e st of (out, st1) \<Rightarrow> (case bridge_outputs translate es st1 of (out', st2) \<Rightarrow> (out @ out', st2)))"

lemma bridge_outputs_append:
  "bridge_outputs translate (es @ es') st = (case bridge_outputs translate es st of (out, st1) \<Rightarrow>
     (case bridge_outputs translate es' st1 of (out', st2) \<Rightarrow> (out @ out', st2)))"
  by (induction es arbitrary: st) (auto split: prod.splits)

locale event_bridge =
  fixes translate :: "string \<Rightarrow> 's \<Rightarrow> 'o list \<times> 's" and conclude :: "'s \<Rightarrow> 'o list \<times> 's"
    and emit_one :: "'o \<Rightarrow> ResponseWriter \<Rightarrow> ResponseWriter"
    and handle :: "string \<Rightarrow> 's \<times> ResponseWriter \<Rightarrow> 's \<times> ResponseWriter" and finish :: "'s \<times> ResponseWriter \<Rightarrow> 's \<times> ResponseWriter"
  assumes handle_translate: "handle data (st, w) = (snd (translate data st), fold emit_one (fst (translate data st)) w)"
    and finish_conclude: "finish (st, w) = (snd (conclude st), fold emit_one (fst (conclude st)) w)"
    and emit_one_sent_on: "rw_status w \<noteq> None \<Longrightarrow> sent_on w (emit_one x w)"
begin

lemma fold_handle: "fold handle es (st, w) =
    (snd (bridge_outputs translate es st), fold emit_one (fst (bridge_outputs translate es st)) w)"
  by (induction es arbitrary: st w) (simp_all add: handle_translate split_beta)

lemma bridge_is_outputs: "bridge_loop handle finish (sb_eof b) (sb_content b) ([], (st, w)) =
    (let (out, st1) = bridge_outputs translate (bridged_events b) st; (out', st2) = (if sb_eof b then conclude st1 else ([], st1))
     in (st2, fold emit_one (out @ out') w))"
  by (simp add: bridge_loop_events fold_handle finish_conclude split_beta Let_def)

lemma bridge_sent_on:
  fixes b :: stream_body
  assumes "rw_status w \<noteq> None"
  shows "sent_on w (snd (bridge_loop handle finish (sb_eof b) (sb_content b) ([], (st, w))))"
  unfolding bridge_is_outputs by (simp add: split_beta Let_def fold_sent_on [where f = emit_one, OF emit_one_sent_on assms] del: fold_append)

end

end
