(* ===== verification/Protocol_Data.thy ===== *)
theory Protocol_Data
  imports Stream_Bridge
begin

text \<open>
  What the conversions between the API formats share (\<open>internal/gateway/api/compat.go\<close>): values of
  type \<open>any\<close>, the structs of both formats, content blocks, and the small maps between names.
\<close>

section \<open>The environment\<close>

text \<open>
  The JSON codec; what a number's literal becomes when it passes through a \<open>float64\<close>, where one that is
  out of range is an error; the text that
  \<open>fmt.Sprint\<close> gives for a number, an array or an object; the UUIDs that are made, in order; and the
  clock in seconds.
\<close>

record json_env =
  je_parse :: parser
  je_marshal :: "json \<Rightarrow> string option"
  je_float :: "string \<Rightarrow> string option"
  je_sprint :: "json \<Rightarrow> string"
  je_uuid :: "nat \<Rightarrow> string"
  je_now :: int

section \<open>Values of type any\<close>

text \<open>
  A document decoded into \<open>any\<close>: its numbers are floats and its objects maps. A map is a value \<open>JObject\<close>
  with its entries in the order of their keys, the nil value and the nil map are \<open>JNull\<close>.
\<close>

fun as_any :: "(string \<Rightarrow> string option) \<Rightarrow> json \<Rightarrow> json option"
  and as_any_list :: "(string \<Rightarrow> string option) \<Rightarrow> json list \<Rightarrow> json list option"
  and as_any_fields :: "(string \<Rightarrow> string option) \<Rightarrow> (string \<times> json) list \<Rightarrow> (string \<times> json) list option" where
  "as_any f JNull = Some JNull"
| "as_any f (JBool b) = Some (JBool b)"
| "as_any f (JNumber s) = map_option JNumber (f s)"
| "as_any f (JString s) = Some (JString s)"
| "as_any f (JArray vs) = map_option JArray (as_any_list f vs)"
| "as_any f (JObject kvs) = map_option (\<lambda>m. JObject (json_map m)) (as_any_fields f kvs)"
| "as_any_list f [] = Some []"
| "as_any_list f (v # vs) =
     (case as_any f v of None \<Rightarrow> None | Some x \<Rightarrow> map_option (\<lambda>xs. x # xs) (as_any_list f vs))"
| "as_any_fields f [] = Some []"
| "as_any_fields f ((k, v) # kvs) =
     (case as_any f v of None \<Rightarrow> None | Some x \<Rightarrow> map_option (\<lambda>xs. (k, x) # xs) (as_any_fields f kvs))"

definition field :: "string \<Rightarrow> json \<Rightarrow> json" where
  "field k v = (case v of JObject kvs \<Rightarrow> member k kvs | _ \<Rightarrow> JNull)"

definition has_field :: "string \<Rightarrow> json \<Rightarrow> bool" where
  "has_field k v = (case v of JObject kvs \<Rightarrow> map_of kvs k \<noteq> None | _ \<Rightarrow> False)"

definition set_field :: "string \<Rightarrow> json \<Rightarrow> json \<Rightarrow> json" where
  "set_field k x v = (case v of JObject kvs \<Rightarrow> JObject (map_insert k x kvs) | _ \<Rightarrow> JObject [(k, x)])"

definition delete_field :: "string \<Rightarrow> json \<Rightarrow> json" where
  "delete_field k v = (case v of JObject kvs \<Rightarrow> JObject (AList.delete k kvs) | _ \<Rightarrow> v)"

text \<open>\<open>fmt.Sprint\<close>; the nil value is written in angle brackets.\<close>

definition sprint :: "'x json_env_scheme \<Rightarrow> json \<Rightarrow> string" where
  "sprint env v =
     (case v of
        JNull \<Rightarrow> ''<nil>''
      | JString s \<Rightarrow> s
      | JBool b \<Rightarrow> (if b then ''true'' else ''false'')
      | _ \<Rightarrow> je_sprint env v)"

text \<open>Decoding a raw value into \<open>any\<close>, into a string, and into a slice of maps.\<close>

definition decode_string :: "json \<Rightarrow> string option" where "decode_string v = set_string v []"

definition decode_map :: "'x json_env_scheme \<Rightarrow> json \<Rightarrow> json option" where
  "decode_map env v = (case v of JNull \<Rightarrow> Some JNull | JObject kvs \<Rightarrow> as_any (je_float env) v | _ \<Rightarrow> None)"

definition decode_maps :: "'x json_env_scheme \<Rightarrow> json \<Rightarrow> json list option" where
  "decode_maps env v =
     (case v of JNull \<Rightarrow> Some [] | JArray vs \<Rightarrow> decode_all (decode_map env) vs | _ \<Rightarrow> None)"

section \<open>Names and small values\<close>

fun firstNonEmpty :: "string list \<Rightarrow> string" where
  "firstNonEmpty [] = []"
| "firstNonEmpty (v # vs) = (if trim_space v \<noteq> [] then trim_space v else firstNonEmpty vs)"

definition mapOpenAIFinishReasonToAnthropic :: "string \<Rightarrow> string" where
  "mapOpenAIFinishReasonToAnthropic reason =
     (let r = trim_space reason in
      if r = ''length'' then ''max_tokens''
      else if r = ''tool_calls'' \<or> r = ''function_call'' then ''tool_use''
      else ''end_turn'')"

definition mapAnthropicStopReason :: "string \<Rightarrow> string" where
  "mapAnthropicStopReason reason =
     (let r = trim_space reason in
      if r = ''max_tokens'' then ''length'' else if r = ''tool_use'' then ''tool_calls'' else ''stop'')"

definition normalizeTextLikeBlockType :: "string \<Rightarrow> string" where
  "normalizeTextLikeBlockType rawType =
     (let t = to_lower (trim_space rawType) in
      if t = ''input_text'' \<or> t = ''output_text'' then ''text'' else t)"

definition block_type :: "'x json_env_scheme \<Rightarrow> json \<Rightarrow> string" where
  "block_type env block = normalizeTextLikeBlockType (sprint env (field ''type'' block))"

definition extractTextFromContentBlock :: "json \<Rightarrow> string option" where
  "extractTextFromContentBlock block =
     (case field ''text'' block of JString t \<Rightarrow> Some t
      | _ \<Rightarrow> (case field ''input_text'' block of JString t \<Rightarrow> Some t
        | _ \<Rightarrow> (case field ''output_text'' block of JString t \<Rightarrow> Some t | _ \<Rightarrow> None)))"

definition compactJSONValue :: "'x json_env_scheme \<Rightarrow> json \<Rightarrow> string" where
  "compactJSONValue env v =
     (case v of
        JNull \<Rightarrow> ''{}''
      | JString s \<Rightarrow> (if trim_space s = [] then ''{}'' else trim_space s)
      | _ \<Rightarrow> (case je_marshal env v of None \<Rightarrow> ''{}'' | Some data \<Rightarrow> data))"

definition stringifyContentValue :: "'x json_env_scheme \<Rightarrow> json \<Rightarrow> string" where
  "stringifyContentValue env v = (case v of JNull \<Rightarrow> [] | JString s \<Rightarrow> s | _ \<Rightarrow> compactJSONValue env v)"

definition normalizeToolDescription :: "'x json_env_scheme \<Rightarrow> json \<Rightarrow> string" where
  "normalizeToolDescription env v = (case v of JNull \<Rightarrow> [] | JString s \<Rightarrow> s | _ \<Rightarrow> sprint env v)"

definition parseJSONOrString :: "'x json_env_scheme \<Rightarrow> string \<Rightarrow> json" where
  "parseJSONOrString env value =
     (let trimmed = trim_space value in
      if trimmed = [] then jobj []
      else case bind (je_parse env trimmed) (as_any (je_float env)) of Some v \<Rightarrow> v | None \<Rightarrow> JString trimmed)"

text \<open>\<open>strings.Join\<close>.\<close>

fun join :: "string \<Rightarrow> string list \<Rightarrow> string" where
  "join sep [] = []"
| "join sep [x] = x"
| "join sep (x # y # ys) = x @ sep @ join sep (y # ys)"

section \<open>Usage\<close>

record openAIUsagePayload =
  oup_PromptTokens :: int
  oup_CompletionTokens :: int
  oup_TotalTokens :: int
  oup_PromptTokensDetails :: int
  oup_InputTokensDetails :: int

definition no_openAIUsage :: openAIUsagePayload where
  "no_openAIUsage = \<lparr>oup_PromptTokens = 0, oup_CompletionTokens = 0, oup_TotalTokens = 0,
     oup_PromptTokensDetails = 0, oup_InputTokensDetails = 0\<rparr>"

definition decode_openAIUsage :: "(string \<times> json) list \<Rightarrow> openAIUsagePayload \<Rightarrow> openAIUsagePayload option" where
  "decode_openAIUsage kvs u =
     bind (each_field ''prompt_tokens'' set_int64 kvs (oup_PromptTokens u)) (\<lambda>prompt.
     bind (each_field ''completion_tokens'' set_int64 kvs (oup_CompletionTokens u)) (\<lambda>completion.
     bind (each_field ''total_tokens'' set_int64 kvs (oup_TotalTokens u)) (\<lambda>total.
     bind (each_field ''prompt_tokens_details'' cached_tokens kvs (oup_PromptTokensDetails u)) (\<lambda>promptDetails.
     bind (each_field ''input_tokens_details'' cached_tokens kvs (oup_InputTokensDetails u)) (\<lambda>inputDetails.
       Some \<lparr>oup_PromptTokens = prompt, oup_CompletionTokens = completion, oup_TotalTokens = total,
         oup_PromptTokensDetails = promptDetails, oup_InputTokensDetails = inputDetails\<rparr>)))))"

definition openAIUsageCachedTokens :: "openAIUsagePayload \<Rightarrow> int" where
  "openAIUsageCachedTokens u =
     (if 0 < oup_PromptTokensDetails u then oup_PromptTokensDetails u else oup_InputTokensDetails u)"

definition openAIUsageMap :: "int \<Rightarrow> int \<Rightarrow> int \<Rightarrow> json" where
  "openAIUsageMap promptTokens cachedTokens completionTokens =
     jobj [(''prompt_tokens'', jint promptTokens), (''completion_tokens'', jint completionTokens),
       (''total_tokens'', jint (i64 (promptTokens + completionTokens))),
       (''prompt_tokens_details'', jobj [(''cached_tokens'', jint cachedTokens)])]"

section \<open>The Anthropic structs\<close>

record anthropicContentBlock =
  acb_Type :: string
  acb_Text :: string
  acb_Name :: string
  acb_ID :: string
  acb_ToolUseID :: string
  acb_Input :: json
  acb_Content :: json

definition no_block :: anthropicContentBlock where
  "no_block = \<lparr>acb_Type = [], acb_Text = [], acb_Name = [], acb_ID = [], acb_ToolUseID = [], acb_Input = JNull, acb_Content = JNull\<rparr>"

definition set_any :: "'x json_env_scheme \<Rightarrow> json \<Rightarrow> json \<Rightarrow> json option" where
  "set_any env v old = as_any (je_float env) v"

definition decode_block :: "'x json_env_scheme \<Rightarrow> (string \<times> json) list \<Rightarrow> anthropicContentBlock \<Rightarrow> anthropicContentBlock option" where
  "decode_block env kvs b =
     bind (each_field ''type'' set_string kvs (acb_Type b)) (\<lambda>ty.
     bind (each_field ''text'' set_string kvs (acb_Text b)) (\<lambda>txt.
     bind (each_field ''name'' set_string kvs (acb_Name b)) (\<lambda>name.
     bind (each_field ''id'' set_string kvs (acb_ID b)) (\<lambda>i.
     bind (each_field ''tool_use_id'' set_string kvs (acb_ToolUseID b)) (\<lambda>useID.
     bind (each_field ''input'' (set_any env) kvs (acb_Input b)) (\<lambda>input.
     bind (each_field ''content'' (set_any env) kvs (acb_Content b)) (\<lambda>content.
       Some \<lparr>acb_Type = ty, acb_Text = txt, acb_Name = name, acb_ID = i, acb_ToolUseID = useID,
         acb_Input = input, acb_Content = content\<rparr>)))))))"

record anthropicResponsePayload =
  arp_ID :: string
  arp_Type :: string
  arp_Role :: string
  arp_Model :: string
  arp_Content :: "anthropicContentBlock list"
  arp_StopReason :: string
  arp_Usage :: anthropicUsage

definition no_response :: anthropicResponsePayload where
  "no_response = \<lparr>arp_ID = [], arp_Type = [], arp_Role = [], arp_Model = [], arp_Content = [], arp_StopReason = [],
     arp_Usage = no_anthropicUsage\<rparr>"

definition decode_response ::
  "'x json_env_scheme \<Rightarrow> (string \<times> json) list \<Rightarrow> anthropicResponsePayload \<Rightarrow> anthropicResponsePayload option" where
  "decode_response env kvs r =
     bind (each_field ''id'' set_string kvs (arp_ID r)) (\<lambda>i.
     bind (each_field ''type'' set_string kvs (arp_Type r)) (\<lambda>ty.
     bind (each_field ''role'' set_string kvs (arp_Role r)) (\<lambda>role.
     bind (each_field ''model'' set_string kvs (arp_Model r)) (\<lambda>model.
     bind (each_field ''content'' (set_list (set_struct (decode_block env)) no_block) kvs (arp_Content r)) (\<lambda>content.
     bind (each_field ''stop_reason'' set_string kvs (arp_StopReason r)) (\<lambda>reason.
     bind (each_field ''usage'' (set_struct decode_anthropicUsage) kvs (arp_Usage r)) (\<lambda>usage.
       Some \<lparr>arp_ID = i, arp_Type = ty, arp_Role = role, arp_Model = model, arp_Content = content,
         arp_StopReason = reason, arp_Usage = usage\<rparr>)))))))"

section \<open>The chat completion structs\<close>

record openAIToolCallFunction =
  ofn_Name :: string
  ofn_Arguments :: string

record openAICustomToolCall =
  octc_Name :: string
  octc_Input :: string

record openAIToolCall =
  otc_ID :: string
  otc_Type :: string
  otc_Function :: openAIToolCallFunction
  otc_Custom :: openAICustomToolCall

definition no_function :: openAIToolCallFunction where "no_function = \<lparr>ofn_Name = [], ofn_Arguments = []\<rparr>"

definition no_toolCall :: openAIToolCall where
  "no_toolCall = \<lparr>otc_ID = [], otc_Type = [], otc_Function = no_function, otc_Custom = \<lparr>octc_Name = [], octc_Input = []\<rparr>\<rparr>"

definition decode_function :: "(string \<times> json) list \<Rightarrow> openAIToolCallFunction \<Rightarrow> openAIToolCallFunction option" where
  "decode_function kvs f =
     bind (each_field ''name'' set_string kvs (ofn_Name f)) (\<lambda>name.
     bind (each_field ''arguments'' set_string kvs (ofn_Arguments f)) (\<lambda>args.
       Some \<lparr>ofn_Name = name, ofn_Arguments = args\<rparr>))"

definition decode_custom :: "(string \<times> json) list \<Rightarrow> openAICustomToolCall \<Rightarrow> openAICustomToolCall option" where
  "decode_custom kvs c =
     bind (each_field ''name'' set_string kvs (octc_Name c)) (\<lambda>name.
     bind (each_field ''input'' set_string kvs (octc_Input c)) (\<lambda>input.
       Some \<lparr>octc_Name = name, octc_Input = input\<rparr>))"

definition decode_toolCall :: "(string \<times> json) list \<Rightarrow> openAIToolCall \<Rightarrow> openAIToolCall option" where
  "decode_toolCall kvs t =
     bind (each_field ''id'' set_string kvs (otc_ID t)) (\<lambda>i.
     bind (each_field ''type'' set_string kvs (otc_Type t)) (\<lambda>ty.
     bind (each_field ''function'' (set_struct decode_function) kvs (otc_Function t)) (\<lambda>f.
     bind (each_field ''custom'' (set_struct decode_custom) kvs (otc_Custom t)) (\<lambda>c.
       Some \<lparr>otc_ID = i, otc_Type = ty, otc_Function = f, otc_Custom = c\<rparr>))))"

section \<open>Lemmas\<close>

text \<open>The two maps of reasons agree on what both formats can say.\<close>

lemma stop_reason_round_trip:
  "r \<in> {''stop'', ''length'', ''tool_calls''} \<Longrightarrow> mapAnthropicStopReason (mapOpenAIFinishReasonToAnthropic r) = r"
  "r \<in> {''end_turn'', ''max_tokens'', ''tool_use''} \<Longrightarrow> mapOpenAIFinishReasonToAnthropic (mapAnthropicStopReason r) = r"
  by (elim insertE emptyE; hypsubst; code_simp)+

lemma trim_firstNonEmpty [simp]: "trim_space (firstNonEmpty vs) = firstNonEmpty vs"
  by (induction vs) simp_all

lemma join_append: "xs \<noteq> [] \<Longrightarrow> ys \<noteq> [] \<Longrightarrow> join sep (xs @ ys) = join sep xs @ sep @ join sep ys"
  by (induction sep xs rule: join.induct) (cases ys; simp)+

end
