(* ===== verification/Convert_Anthropic_Request.thy ===== *)
theory Convert_Anthropic_Request
  imports Protocol_Data
begin

text \<open>
  The descriptions of tools that every request gets before it is converted, and the conversion of a
  request of the Anthropic messages API to a chat completion request
  (\<open>internal/gateway/api/compat.go\<close>).
\<close>

section \<open>Errors and raw documents\<close>

text \<open>
  A step that could not be decoded or encoded, whose error text the library completes, or a message of the
  conversion itself.
\<close>

datatype conversion_error = Undecodable string | Unencodable string | Rejected string

definition and_then :: "conversion_error + 'a \<Rightarrow> ('a \<Rightarrow> conversion_error + 'b) \<Rightarrow> conversion_error + 'b" where
  "and_then r f = (case r of Inl e \<Rightarrow> Inl e | Inr a \<Rightarrow> f a)"

definition or_error :: "conversion_error \<Rightarrow> 'a option \<Rightarrow> conversion_error + 'a" where
  "or_error e x = (case x of None \<Rightarrow> Inl e | Some a \<Rightarrow> Inr a)"

text \<open>A document as a map of raw values; \<open>null\<close> gives the nil map.\<close>

definition raw_map :: "json \<Rightarrow> (string \<times> json) list option" where
  "raw_map v = (case v of JNull \<Rightarrow> Some [] | JObject kvs \<Rightarrow> Some (json_map kvs) | _ \<Rightarrow> None)"

text \<open>A raw field that is copied when it can be decoded.\<close>

definition copyRawField :: "'x json_env_scheme \<Rightarrow> (string \<times> json) list \<Rightarrow> string \<Rightarrow> string \<Rightarrow> (string \<times> json) list" where
  "copyRawField env raw frm to =
     (case bind (map_of raw frm) (as_any (je_float env)) of None \<Rightarrow> [] | Some v \<Rightarrow> [(to, v)])"

section \<open>Tool descriptions\<close>

text \<open>The map with its description, and whether it was changed.\<close>

definition normalize_description :: "'x json_env_scheme \<Rightarrow> json \<Rightarrow> json \<times> bool" where
  "normalize_description env m =
     (let desc = field ''description'' m; normalized = JString (normalizeToolDescription env desc)
      in if has_field ''description'' m \<and> desc = normalized then (m, False)
         else (set_field ''description'' normalized m, True))"

definition is_map :: "json \<Rightarrow> bool" where
  "is_map v = (case v of JObject kvs \<Rightarrow> True | _ \<Rightarrow> False)"

definition normalizeOpenAIToolDescription :: "'x json_env_scheme \<Rightarrow> json \<Rightarrow> json \<times> bool" where
  "normalizeOpenAIToolDescription env tool =
     (if is_map (field ''function'' tool)
      then let (fn, changed) = normalize_description env (field ''function'' tool)
        in (if changed then set_field ''function'' fn tool else tool, changed)
      else if trim_space (sprint env (field ''type'' tool)) \<noteq> ''function'' then (tool, False)
      else (fold delete_field [''name'', ''description'', ''parameters'']
          (set_field ''function'' (jobj [(''name'', field ''name'' tool),
             (''description'', JString (normalizeToolDescription env (field ''description'' tool))),
             (''parameters'', field ''parameters'' tool)]) tool), True))"

text \<open>The elements of an array that are maps, each changed by \<open>f\<close>; other values are left alone.\<close>

definition each_map :: "(json \<Rightarrow> json \<times> bool) \<Rightarrow> string \<Rightarrow> json \<times> bool \<Rightarrow> json \<times> bool" where
  "each_map f key = (\<lambda>(payload, mutated).
     case field key payload of
       JArray vs \<Rightarrow>
         (set_field key (JArray (map (\<lambda>v. if is_map v then fst (f v) else v) vs)) payload,
          mutated \<or> list_ex (\<lambda>v. is_map v \<and> snd (f v)) vs)
     | _ \<Rightarrow> (payload, mutated))"

definition rewrite_payload :: "'x json_env_scheme \<Rightarrow> (json \<times> bool \<Rightarrow> json \<times> bool) \<Rightarrow> string \<Rightarrow> string" where
  "rewrite_payload env f body =
     (case bind (je_parse env body) (decode_map env) of
        None \<Rightarrow> body
      | Some payload \<Rightarrow>
          (case f (payload, False) of (payload', mutated) \<Rightarrow>
             if \<not> mutated then body
             else (case je_marshal env payload' of None \<Rightarrow> body | Some encoded \<Rightarrow> encoded)))"

definition normalizeOpenAIRequestToolDescriptions :: "'x json_env_scheme \<Rightarrow> string \<Rightarrow> string" where
  "normalizeOpenAIRequestToolDescriptions env =
     rewrite_payload env (each_map (normalize_description env) ''functions'' \<circ>
       each_map (normalizeOpenAIToolDescription env) ''tools'')"

definition normalizeAnthropicRequestToolDescriptions :: "'x json_env_scheme \<Rightarrow> string \<Rightarrow> string" where
  "normalizeAnthropicRequestToolDescriptions env =
     rewrite_payload env (each_map (normalize_description env) ''tools'')"

section \<open>Contents\<close>

definition text_parts :: "'x json_env_scheme \<Rightarrow> json \<Rightarrow> string list" where
  "text_parts env block =
     (case extractTextFromContentBlock block of
        Some t \<Rightarrow> (if trim_space t \<noteq> [] then [t] else []) | None \<Rightarrow> [])"

definition anthropicRawContentToText :: "'x json_env_scheme \<Rightarrow> json option \<Rightarrow> string" where
  "anthropicRawContentToText env raw =
     (case raw of
        None \<Rightarrow> []
      | Some v \<Rightarrow>
          (case v of JNull \<Rightarrow> [] | JString t \<Rightarrow> t
           | _ \<Rightarrow> (case decode_maps env v of
               Some blocks \<Rightarrow> join [newline] (concat (map (\<lambda>block.
                 let ty = block_type env block in
                 if ty = ''text'' then text_parts env block
                 else if ty = ''tool_result'' \<and> has_field ''content'' block
                 then [stringifyContentValue env (field ''content'' block)] else []) blocks))
             | None \<Rightarrow> (case as_any (je_float env) v of
                 Some x \<Rightarrow> stringifyContentValue env x | None \<Rightarrow> []))))"

definition tool_use_call :: "'x json_env_scheme \<Rightarrow> nat \<Rightarrow> json \<Rightarrow> json" where
  "tool_use_call env i block =
     (let blockID = trim_space (sprint env (field ''id'' block)) in
      jobj [(''id'', JString (if blockID = [] then ''toolu_'' @ show_nat i else blockID)), (''type'', JString ''function''),
        (''function'', jobj [(''name'', JString (trim_space (sprint env (field ''name'' block)))),
           (''arguments'', JString (compactJSONValue env (field ''input'' block)))])])"

definition assistant_message :: "json \<Rightarrow> json list \<Rightarrow> json" where
  "assistant_message content calls =
     jobj ([(''role'', JString ''assistant''), (''content'', content)] @
       (if calls = [] then [] else [(''tool_calls'', JArray calls)]))"

text \<open>A content that is absent cannot be decoded; \<open>null\<close> decodes to the empty string.\<close>

definition convertAnthropicAssistantMessageToOpenAI :: "'x json_env_scheme \<Rightarrow> json option \<Rightarrow> json" where
  "convertAnthropicAssistantMessageToOpenAI env raw =
     (case bind raw decode_string of
        Some t \<Rightarrow> assistant_message (JString t) []
      | None \<Rightarrow>
          (case bind raw (decode_maps env) of
             None \<Rightarrow> assistant_message (JString (anthropicRawContentToText env raw)) []
           | Some blocks \<Rightarrow>
               (let parts = concat (map (\<lambda>b. if block_type env b = ''text'' then text_parts env b else []) blocks);
                    calls = concat (map (\<lambda>(i, b). if block_type env b = ''tool_use'' then [tool_use_call env i b] else [])
                      (enumerate 0 blocks))
                in assistant_message (if parts = [] then JNull else JString (join [newline] parts)) calls)))"

definition convertAnthropicImageBlockToOpenAI :: "'x json_env_scheme \<Rightarrow> json \<Rightarrow> json option" where
  "convertAnthropicImageBlockToOpenAI env block =
     (let source = field ''source'' block; value = (\<lambda>k. trim_space (sprint env (field k source)));
          image = (\<lambda>url. jobj [(''type'', JString ''image_url''), (''image_url'', jobj [(''url'', JString url)])])
      in if \<not> is_map source \<or> source = JObject [] then None
         else if to_lower (value ''type'') = ''url''
         then (if value ''url'' = [] then None else Some (image (value ''url'')))
         else if to_lower (value ''type'') = ''base64''
         then (if value ''media_type'' = [] \<or> value ''data'' = [] then None
           else Some (image (''data:'' @ value ''media_type'' @ '';base64,'' @ value ''data'')))
         else None)"

definition openAIContentFromUserParts :: "'x json_env_scheme \<Rightarrow> json list \<Rightarrow> json" where
  "openAIContentFromUserParts env parts =
     (case parts of
        [] \<Rightarrow> JString []
      | [p] \<Rightarrow> (if trim_space (sprint env (field ''type'' p)) = ''text''
          then (case field ''text'' p of JString t \<Rightarrow> JString t | _ \<Rightarrow> JArray parts) else JArray parts)
      | _ \<Rightarrow> JArray parts)"

definition user_message :: "json \<Rightarrow> json" where
  "user_message content = jobj [(''role'', JString ''user''), (''content'', content)]"

definition tool_message :: "string \<Rightarrow> string \<Rightarrow> json" where
  "tool_message callID content =
     jobj [(''role'', JString ''tool''), (''tool_call_id'', JString callID), (''content'', JString content)]"

text \<open>The messages so far and the parts of the user message that is being built.\<close>

definition flushUserParts :: "'x json_env_scheme \<Rightarrow> json list \<times> json list \<Rightarrow> json list \<times> json list" where
  "flushUserParts env = (\<lambda>(messages, parts).
     if parts = [] then (messages, parts) else (messages @ [user_message (openAIContentFromUserParts env parts)], []))"

definition user_block :: "'x json_env_scheme \<Rightarrow> json \<Rightarrow> json list \<times> json list \<Rightarrow> json list \<times> json list" where
  "user_block env block = (\<lambda>(messages, parts).
     let ty = block_type env block in
     if ty = ''text''
     then (messages, parts @ map (\<lambda>t. jobj [(''type'', JString ''text''), (''text'', JString t)]) (text_parts env block))
     else if ty = ''image''
     then (messages, parts @ (case convertAnthropicImageBlockToOpenAI env block of None \<Rightarrow> [] | Some p \<Rightarrow> [p]))
     else if ty = ''tool_result''
     then case flushUserParts env (messages, parts) of (messages', parts') \<Rightarrow>
       (let useID = trim_space (sprint env (field ''tool_use_id'' block));
            callID = (if useID = [] then trim_space (sprint env (field ''id'' block)) else useID)
        in (messages' @ [tool_message callID (stringifyContentValue env (field ''content'' block))], parts'))
     else (messages, parts))"

definition convertAnthropicUserMessageToOpenAI :: "'x json_env_scheme \<Rightarrow> json option \<Rightarrow> json list" where
  "convertAnthropicUserMessageToOpenAI env raw =
     (case bind raw decode_string of
        Some t \<Rightarrow> [user_message (JString t)]
      | None \<Rightarrow>
          (case bind raw (decode_maps env) of
             None \<Rightarrow> [user_message (JString (anthropicRawContentToText env raw))]
           | Some blocks \<Rightarrow>
               (let messages = fst (flushUserParts env (fold (user_block env) blocks ([], [])))
                in if messages = [] then [user_message (JString [])] else messages)))"

section \<open>Tools\<close>

definition convertAnthropicToolsToOpenAI :: "'x json_env_scheme \<Rightarrow> json \<Rightarrow> conversion_error + json list" where
  "convertAnthropicToolsToOpenAI env raw =
     (case decode_maps env raw of
        None \<Rightarrow> Inl (Undecodable ''anthropic tools'')
      | Some tools \<Rightarrow> Inr (map (\<lambda>tool. jobj [(''type'', JString ''function''),
          (''function'', jobj [(''name'', field ''name'' tool),
             (''description'', JString (normalizeToolDescription env (field ''description'' tool))),
             (''parameters'', field ''input_schema'' tool)])]) tools))"

definition convertAnthropicToolChoiceToOpenAI :: "'x json_env_scheme \<Rightarrow> json \<Rightarrow> json option" where
  "convertAnthropicToolChoiceToOpenAI env raw =
     (case decode_map env raw of
        None \<Rightarrow> None
      | Some choice \<Rightarrow>
          (let ty = trim_space (sprint env (field ''type'' choice)) in
           if ty = ''auto'' then Some (JString ''auto'')
           else if ty = ''any'' then Some (JString ''required'')
           else if ty = ''tool''
           then (let name = trim_space (sprint env (field ''name'' choice)) in
             if name = [] then Some (JString ''required'')
             else Some (jobj [(''type'', JString ''function''), (''function'', jobj [(''name'', JString name)])]))
           else if ty = ''none'' then Some (JString ''none'')
           else None))"

section \<open>Requests\<close>

record anthropicRequestMessage =
  arm_Role :: string
  arm_Content :: "json option"

definition decode_requestMessage ::
  "(string \<times> json) list \<Rightarrow> anthropicRequestMessage \<Rightarrow> anthropicRequestMessage option" where
  "decode_requestMessage kvs m =
     bind (each_field ''role'' set_string kvs (arm_Role m)) (\<lambda>role.
     bind (each_field ''content'' set_raw kvs (arm_Content m)) (\<lambda>content.
       Some \<lparr>arm_Role = role, arm_Content = content\<rparr>))"

definition decode_requestMessages :: "json \<Rightarrow> anthropicRequestMessage list option" where
  "decode_requestMessages v =
     set_list (set_struct decode_requestMessage) \<lparr>arm_Role = [], arm_Content = None\<rparr> v []"

definition convert_request_message :: "'x json_env_scheme \<Rightarrow> anthropicRequestMessage \<Rightarrow> json list" where
  "convert_request_message env m =
     (if arm_Role m = ''assistant'' then [convertAnthropicAssistantMessageToOpenAI env (arm_Content m)]
      else if arm_Role m = ''user'' then convertAnthropicUserMessageToOpenAI env (arm_Content m)
      else [jobj [(''role'', JString (arm_Role m)), (''content'', JString (anthropicRawContentToText env (arm_Content m)))]])"

definition system_messages :: "'x json_env_scheme \<Rightarrow> (string \<times> json) list \<Rightarrow> json list" where
  "system_messages env raw =
     (case map_of raw ''system'' of
        None \<Rightarrow> []
      | Some v \<Rightarrow> (let t = anthropicRawContentToText env (Some v) in
          if trim_space t = [] then [] else [jobj [(''role'', JString ''system''), (''content'', JString t)]]))"

definition convertAnthropicRequestToOpenAIChat ::
  "'x json_env_scheme \<Rightarrow> string \<Rightarrow> string \<Rightarrow> conversion_error + string" where
  "convertAnthropicRequestToOpenAIChat env body upstreamModel =
     and_then (or_error (Undecodable ''anthropic request'') (bind (je_parse env body) raw_map)) (\<lambda>raw.
     and_then (or_error (Undecodable ''anthropic messages'') (bind (map_of raw ''messages'') decode_requestMessages)) (\<lambda>msgs.
     and_then (case map_of raw ''tools'' of None \<Rightarrow> Inr [] | Some v \<Rightarrow> convertAnthropicToolsToOpenAI env v) (\<lambda>tools.
       or_error (Unencodable ''chat request'') (je_marshal env (jobj (
         concat (map (\<lambda>(frm, to). copyRawField env raw frm to)
           [(''model'', ''model''), (''max_tokens'', ''max_tokens''), (''temperature'', ''temperature''), (''top_p'', ''top_p''),
            (''stream'', ''stream''), (''user'', ''user''), (''metadata'', ''metadata''), (''stop_sequences'', ''stop'')]) @
         (if trim_space upstreamModel = [] then [] else [(''model'', JString (trim_space upstreamModel))]) @
         [(''messages'', JArray (system_messages env raw @ concat (map (convert_request_message env) msgs)))] @
         (if tools = [] then [] else [(''tools'', JArray tools)]) @
         (case bind (map_of raw ''tool_choice'') (convertAnthropicToolChoiceToOpenAI env) of
            None \<Rightarrow> [] | Some choice \<Rightarrow> [(''tool_choice'', choice)])))))))"

section \<open>What a turn of the user carries\<close>

text \<open>The texts, images and results of tools of a turn, in their order: in its blocks and in chat messages.\<close>

datatype carried = C_Text string | C_Image json | C_Result string string

definition block_carries :: "'x json_env_scheme \<Rightarrow> json \<Rightarrow> carried list" where
  "block_carries env block =
     (let ty = block_type env block; useID = trim_space (sprint env (field ''tool_use_id'' block)) in
      if ty = ''text'' then map C_Text (text_parts env block)
      else if ty = ''image'' then (case convertAnthropicImageBlockToOpenAI env block of None \<Rightarrow> [] | Some p \<Rightarrow> [C_Image p])
      else if ty = ''tool_result''
      then [C_Result (if useID = [] then trim_space (sprint env (field ''id'' block)) else useID)
         (stringifyContentValue env (field ''content'' block))]
      else [])"

definition part_carries :: "json \<Rightarrow> carried" where
  "part_carries p = (if field ''type'' p = JString ''text'' then C_Text (as_string (field ''text'' p)) else C_Image p)"

definition message_carries :: "json \<Rightarrow> carried list" where
  "message_carries m =
     (if field ''role'' m = JString ''tool'' then [C_Result (as_string (field ''tool_call_id'' m)) (as_string (field ''content'' m))]
      else case field ''content'' m of
          JArray ps \<Rightarrow> map part_carries ps
        | JString t \<Rightarrow> (if t = [] then [] else [C_Text t])
        | _ \<Rightarrow> [])"

text \<open>A part that is text has one that is not blank.\<close>

definition part_ok :: "json \<Rightarrow> bool" where
  "part_ok p = ((\<exists>t. t \<noteq> [] \<and> p = jobj [(''type'', JString ''text''), (''text'', JString t)]) \<or>
     (\<exists>url. p = jobj [(''type'', JString ''image_url''), (''image_url'', jobj [(''url'', JString url)])]))"

lemma image_part_ok: "convertAnthropicImageBlockToOpenAI env block = Some p \<Longrightarrow> part_ok p \<and> part_carries p = C_Image p"
  by (auto simp: convertAnthropicImageBlockToOpenAI_def part_ok_def part_carries_def Let_def field_def member_def jobj_def
      json_map_def split: if_splits)

lemma text_part_ok: "t \<noteq> [] \<Longrightarrow> part_ok (jobj [(''type'', JString ''text''), (''text'', JString t)])"
  by (auto simp: part_ok_def)

lemma part_carries_text: "part_carries (jobj [(''type'', JString ''text''), (''text'', JString t)]) = C_Text t"
  by (simp add: part_carries_def field_def member_def jobj_def json_map_def as_string_def)

lemma text_parts_nonempty: "t \<in> set (text_parts env block) \<Longrightarrow> t \<noteq> []"
  by (auto simp: text_parts_def split: option.splits if_splits)

lemma user_message_carries:
  assumes "\<forall>p \<in> set parts. part_ok p" "parts \<noteq> []"
  shows "message_carries (user_message (openAIContentFromUserParts env parts)) = map part_carries parts"
proof -
  have fields: "field ''role'' (user_message c) = JString ''user''" "field ''content'' (user_message c) = c" for c
    by (simp_all add: user_message_def field_def member_def jobj_def json_map_def)
  have many: "message_carries (user_message (JArray ps)) = map part_carries ps" for ps by (simp add: message_carries_def fields)
  show ?thesis
  proof (cases parts)
    case (Cons p ps)
    show ?thesis
    proof (cases ps)
      case Nil
      have "part_ok p" using assms(1) Cons by simp
      then consider t where "t \<noteq> []" "p = jobj [(''type'', JString ''text''), (''text'', JString t)]"
        | url where "p = jobj [(''type'', JString ''image_url''), (''image_url'', jobj [(''url'', JString url)])]"
        by (auto simp: part_ok_def)
      then show ?thesis
      proof cases
        case 1
        have "trim_space ''text'' = ''text''" by code_simp
        moreover have "field ''type'' p = JString ''text''" "field ''text'' p = JString t"
          using 1(2) by (simp_all add: field_def member_def jobj_def json_map_def)
        ultimately show ?thesis using 1(1) Cons Nil
          by (simp add: openAIContentFromUserParts_def sprint_def message_carries_def fields part_carries_def as_string_def)
      next
        case 2
        have "trim_space ''image_url'' = ''image_url''" by code_simp
        moreover have "field ''type'' p = JString ''image_url''" using 2 by (simp add: field_def member_def jobj_def json_map_def)
        ultimately have "openAIContentFromUserParts env parts = JArray parts"
          using Cons Nil by (simp add: openAIContentFromUserParts_def sprint_def)
        then show ?thesis by (simp add: many)
      qed
    next
      case (Cons q qs)
      then show ?thesis using \<open>parts = p # ps\<close> by (simp add: openAIContentFromUserParts_def many)
    qed
  qed (use assms in simp)
qed

lemma tool_message_carries: "message_carries (tool_message i t) = [C_Result i t]"
  by (simp add: message_carries_def tool_message_def field_def member_def jobj_def json_map_def as_string_def)

definition state_carries :: "json list \<times> json list \<Rightarrow> carried list" where
  "state_carries = (\<lambda>(messages, parts). concat (map message_carries messages) @ map part_carries parts)"

lemma flush_carries:
  assumes "\<forall>p \<in> set (snd st). part_ok p"
  shows "state_carries (flushUserParts env st) = state_carries st \<and> snd (flushUserParts env st) = []"
  using assms by (cases st) (simp add: flushUserParts_def state_carries_def user_message_carries)

lemma user_block_carries:
  assumes "\<forall>p \<in> set (snd st). part_ok p"
  shows "state_carries (user_block env block st) = state_carries st @ block_carries env block \<and>
    (\<forall>p \<in> set (snd (user_block env block st)). part_ok p)"
proof -
  obtain messages parts where st: "st = (messages, parts)" by (cases st)
  obtain messages' parts' where fl: "flushUserParts env (messages, parts) = (messages', parts')" by fastforce
  have "parts' = []" "state_carries (messages', parts') = state_carries st"
    using flush_carries [OF assms, of env] by (auto simp: st fl)
  moreover have "map part_carries (map (\<lambda>t. jobj [(''type'', JString ''text''), (''text'', JString t)]) ts) = map C_Text ts" for ts
    by (simp add: part_carries_text)
  ultimately show ?thesis using assms
    by (auto simp: user_block_def st fl Let_def state_carries_def block_carries_def tool_message_carries image_part_ok part_carries_text
        text_part_ok dest!: text_parts_nonempty split: option.split)
qed

lemma user_blocks_carry:
  assumes "\<forall>p \<in> set (snd st). part_ok p"
  shows "state_carries (fold (user_block env) blocks st) = state_carries st @ concat (map (block_carries env) blocks) \<and>
    (\<forall>p \<in> set (snd (fold (user_block env) blocks st)). part_ok p)"
  using assms
proof (induction blocks arbitrary: st)
  case (Cons b blocks)
  from user_block_carries [OF Cons.prems, of env b] Cons.IH [of "user_block env b st"] show ?case by simp
qed simp

text \<open>
  A turn of the user whose content is a list of blocks becomes chat messages that carry the same texts,
  images and results of tools in the same order; each result is a message of its own under the identifier
  of its call, and there is at least one message.\<close>

theorem user_turn_kept:
  assumes "decode_maps env v = Some blocks" "v \<noteq> JNull"
  shows "concat (map message_carries (convertAnthropicUserMessageToOpenAI env (Some v))) = concat (map (block_carries env) blocks) \<and>
    convertAnthropicUserMessageToOpenAI env (Some v) \<noteq> []"
proof -
  obtain vs where v: "v = JArray vs" using assms by (cases v) (simp_all add: decode_maps_def)
  let ?st = "fold (user_block env) blocks ([], [])"
  have all: "state_carries ?st = concat (map (block_carries env) blocks)" "\<forall>p \<in> set (snd ?st). part_ok p"
    using user_blocks_carry [of "([], [])" env blocks] by (simp_all add: state_carries_def)
  let ?messages = "fst (flushUserParts env ?st)"
  have fl: "state_carries (flushUserParts env ?st) = state_carries ?st" "snd (flushUserParts env ?st) = []"
    using flush_carries [OF all(2), of env] by simp_all
  have "concat (map message_carries ?messages) = concat (map (block_carries env) blocks)"
    using all(1) fl by (cases "flushUserParts env ?st") (simp add: state_carries_def)
  moreover have "message_carries (user_message (JString [])) = []"
    by (simp add: message_carries_def user_message_def field_def member_def jobj_def json_map_def)
  ultimately show ?thesis using assms(1)
    by (auto simp: convertAnthropicUserMessageToOpenAI_def bind_def decode_string_def set_string_def v Let_def)
qed

definition demo_plain :: json_env where
  "demo_plain = \<lparr>je_parse = (\<lambda>s. None), je_marshal = (\<lambda>v. Some ''{}''), je_float = Some, je_sprint = (\<lambda>v. []),
     je_uuid = (\<lambda>n. ''1''), je_now = 7\<rparr>"

lemma user_turn_kept_witness:
  "concat (map message_carries (convertAnthropicUserMessageToOpenAI demo_plain (Some (JArray
      [JObject [(''text'', JString ''a''), (''type'', JString ''text'')],
       JObject [(''content'', JString ''r''), (''tool_use_id'', JString ''i''), (''type'', JString ''tool_result'')]])))) =
    [C_Text ''a'', C_Result ''i'' ''r'']"
proof -
  let ?v = "JArray [JObject [(''text'', JString ''a''), (''type'', JString ''text'')],
       JObject [(''content'', JString ''r''), (''tool_use_id'', JString ''i''), (''type'', JString ''tool_result'')]]"
  have "decode_maps demo_plain ?v = Some [JObject [(''text'', JString ''a''), (''type'', JString ''text'')],
       JObject [(''content'', JString ''r''), (''tool_use_id'', JString ''i''), (''type'', JString ''tool_result'')]]" by code_simp
  moreover have "concat (map (block_carries demo_plain) [JObject [(''text'', JString ''a''), (''type'', JString ''text'')],
       JObject [(''content'', JString ''r''), (''tool_use_id'', JString ''i''), (''type'', JString ''tool_result'')]]) =
      [C_Text ''a'', C_Result ''i'' ''r'']" by code_simp
  ultimately show ?thesis using user_turn_kept [of demo_plain ?v] by simp
qed

section \<open>The shape of the chat request\<close>

lemma and_then_Inr: "and_then r f = Inr b \<longleftrightarrow> (\<exists>a. r = Inr a \<and> f a = Inr b)"
  by (cases r) (simp_all add: and_then_def)

lemma or_error_Inr: "or_error e x = Inr a \<longleftrightarrow> x = Some a"
  by (cases x) (simp_all add: or_error_def)

text \<open>A message has a role and a content, which is \<open>null\<close> only in a message of the assistant.\<close>

inductive chat_message_shaped :: "json \<Rightarrow> bool" where
  "\<lbrakk>map_of kvs ''role'' = Some (JString r); map_of kvs ''content'' = Some c; c = JNull \<longrightarrow> r = ''assistant''\<rbrakk> \<Longrightarrow>
   chat_message_shaped (JObject kvs)"

inductive_cases chat_message_shapedE: "chat_message_shaped v"

lemma assistant_message_shaped: "chat_message_shaped (assistant_message c calls)"
  unfolding assistant_message_def jobj_def by (rule chat_message_shaped.intros) (simp add: json_map_last)+

lemma user_message_shaped: "c \<noteq> JNull \<Longrightarrow> chat_message_shaped (user_message c)"
  unfolding user_message_def jobj_def by (rule chat_message_shaped.intros) (simp add: json_map_last)+

lemma tool_message_shaped: "chat_message_shaped (tool_message i t)"
  unfolding tool_message_def jobj_def by (rule chat_message_shaped.intros) (simp add: json_map_last)+

lemma other_message_shaped: "chat_message_shaped (jobj [(''role'', JString r), (''content'', JString t)])"
  unfolding jobj_def by (rule chat_message_shaped.intros) (simp add: json_map_last)+

lemma userParts_not_null: "openAIContentFromUserParts env parts \<noteq> JNull"
  by (cases parts rule: remdups_adj.cases) (simp_all add: openAIContentFromUserParts_def split: json.split)

lemma flush_shaped:
  "list_all chat_message_shaped (fst acc) \<Longrightarrow> list_all chat_message_shaped (fst (flushUserParts env acc))"
  by (cases acc) (simp add: flushUserParts_def user_message_shaped userParts_not_null)

lemma user_block_shaped:
  "list_all chat_message_shaped (fst acc) \<Longrightarrow> list_all chat_message_shaped (fst (user_block env block acc))"
  using flush_shaped [of acc env] by (cases acc) (auto simp: user_block_def Let_def tool_message_shaped split: prod.split)

lemma user_turn_shaped: "list_all chat_message_shaped (convertAnthropicUserMessageToOpenAI env raw)"
proof -
  have "list_all chat_message_shaped (fst (fold (user_block env) blocks acc))" if "list_all chat_message_shaped (fst acc)" for blocks acc
    using that by (induction blocks arbitrary: acc) (simp_all add: user_block_shaped)
  from flush_shaped [OF this [of "([], [])"], of env] show ?thesis
    by (simp add: convertAnthropicUserMessageToOpenAI_def Let_def user_message_shaped split: option.split)
qed

lemma request_message_shaped: "list_all chat_message_shaped (convert_request_message env m)"
  by (simp add: convert_request_message_def user_turn_shaped other_message_shaped convertAnthropicAssistantMessageToOpenAI_def
      assistant_message_shaped Let_def split: option.split)

lemma anthropic_request_shaped:
  assumes "convertAnthropicRequestToOpenAIChat env body upstreamModel = Inr out"
  shows "\<exists>req ms. je_marshal env req = Some out \<and> field ''messages'' req = JArray ms \<and> list_all chat_message_shaped ms \<and>
    (trim_space upstreamModel = [] \<or> field ''model'' req = JString (trim_space upstreamModel))"
proof -
  obtain raw msgs tools where out: "je_marshal env (jobj (
         concat (map (\<lambda>(frm, to). copyRawField env raw frm to)
           [(''model'', ''model''), (''max_tokens'', ''max_tokens''), (''temperature'', ''temperature''), (''top_p'', ''top_p''),
            (''stream'', ''stream''), (''user'', ''user''), (''metadata'', ''metadata''), (''stop_sequences'', ''stop'')]) @
         (if trim_space upstreamModel = [] then [] else [(''model'', JString (trim_space upstreamModel))]) @
         [(''messages'', JArray (system_messages env raw @ concat (map (convert_request_message env) msgs)))] @
         (if tools = [] then [] else [(''tools'', JArray tools)]) @
         (case bind (map_of raw ''tool_choice'') (convertAnthropicToolChoiceToOpenAI env) of
            None \<Rightarrow> [] | Some choice \<Rightarrow> [(''tool_choice'', choice)]))) = Some out" (is "je_marshal env ?req = _")
    using assms unfolding convertAnthropicRequestToOpenAIChat_def and_then_Inr or_error_Inr by blast
  have "list_all chat_message_shaped (concat (map (convert_request_message env) msgs))"
    by (induction msgs) (simp_all add: request_message_shaped)
  moreover have "list_all chat_message_shaped (system_messages env raw)"
    by (simp add: system_messages_def Let_def other_message_shaped split: option.split)
  moreover have "field ''messages'' ?req = JArray (system_messages env raw @ concat (map (convert_request_message env) msgs))"
    by (simp add: jobj_def field_def member_def json_map_last split: option.split)
  moreover have "trim_space upstreamModel = [] \<or> field ''model'' ?req = JString (trim_space upstreamModel)"
    by (simp add: jobj_def field_def member_def json_map_last split: option.split)
  ultimately show ?thesis using out
    by (intro exI [of _ ?req] exI [of _ "system_messages env raw @ concat (map (convert_request_message env) msgs)"]) simp
qed

text \<open>A turn of the assistant with neither text nor calls becomes a message that the chat completions API refuses.\<close>

lemma empty_assistant_turn:
  "convertAnthropicAssistantMessageToOpenAI demo_plain
     (Some (JArray [JObject [(''text'', JString []), (''type'', JString ''text'')]])) = assistant_message JNull []"
  by code_simp

end
