(* ===== verification/Convert_Chat_Request.thy ===== *)
theory Convert_Chat_Request
  imports Convert_Anthropic_Request
begin

text \<open>
  The conversion of a chat completion request to a request of the Anthropic messages API
  (\<open>convertOpenAIChatRequestToAnthropic\<close> in \<open>internal/gateway/api/compat.go\<close>).
\<close>

section \<open>Messages of a chat request\<close>

record openAIChatMessage =
  ocm_Role :: string
  ocm_Content :: "json option"
  ocm_ToolCalls :: "openAIToolCall list"
  ocm_ToolCallID :: string
  ocm_Name :: string
  ocm_FunctionCall :: "openAIToolCallFunction option"

definition no_chatMessage :: openAIChatMessage where
  "no_chatMessage = \<lparr>ocm_Role = [], ocm_Content = None, ocm_ToolCalls = [], ocm_ToolCallID = [], ocm_Name = [],
     ocm_FunctionCall = None\<rparr>"

text \<open>A field that is a pointer to a struct.\<close>

definition set_pointer :: "((string \<times> json) list \<Rightarrow> 'a \<Rightarrow> 'a option) \<Rightarrow> 'a \<Rightarrow> json \<Rightarrow> 'a option \<Rightarrow> 'a option option" where
  "set_pointer store zero v old =
     (case v of
        JNull \<Rightarrow> Some None
      | JObject kvs \<Rightarrow> map_option Some (store kvs (case old of None \<Rightarrow> zero | Some a \<Rightarrow> a))
      | _ \<Rightarrow> None)"

definition decode_chatMessage :: "(string \<times> json) list \<Rightarrow> openAIChatMessage \<Rightarrow> openAIChatMessage option" where
  "decode_chatMessage kvs m =
     bind (each_field ''role'' set_string kvs (ocm_Role m)) (\<lambda>role.
     bind (each_field ''content'' set_raw kvs (ocm_Content m)) (\<lambda>content.
     bind (each_field ''tool_calls'' (set_list (set_struct decode_toolCall) no_toolCall) kvs (ocm_ToolCalls m)) (\<lambda>calls.
     bind (each_field ''tool_call_id'' set_string kvs (ocm_ToolCallID m)) (\<lambda>callID.
     bind (each_field ''name'' set_string kvs (ocm_Name m)) (\<lambda>name.
     bind (each_field ''function_call'' (set_pointer decode_function no_function) kvs (ocm_FunctionCall m)) (\<lambda>call.
       Some \<lparr>ocm_Role = role, ocm_Content = content, ocm_ToolCalls = calls, ocm_ToolCallID = callID, ocm_Name = name,
         ocm_FunctionCall = call\<rparr>))))))"

definition decode_chatMessages :: "json \<Rightarrow> openAIChatMessage list option" where
  "decode_chatMessages v = set_list (set_struct decode_chatMessage) no_chatMessage v []"

section \<open>Images\<close>

fun split_at :: "char \<Rightarrow> string \<Rightarrow> string list" where
  "split_at c [] = [[]]"
| "split_at c (x # xs) = (if x = c then [] # split_at c xs
     else case split_at c xs of [] \<Rightarrow> [[x]] | s # ss \<Rightarrow> (x # s) # ss)"

definition extractOpenAIImageURL :: "'x json_env_scheme \<Rightarrow> json \<Rightarrow> string option" where
  "extractOpenAIImageURL env v =
     (case v of
        JString s \<Rightarrow> (if trim_space s = [] then None else Some (trim_space s))
      | JObject kvs \<Rightarrow> (let url = trim_space (sprint env (field ''url'' v)) in if url = [] then None else Some url)
      | _ \<Rightarrow> None)"

text \<open>The media type and the data of a data URL of an image in base64.\<close>

definition parseDataURLImageSource :: "string \<Rightarrow> (string \<times> string) option" where
  "parseDataURLImageSource raw =
     (let value = trim_space raw in
      if \<not> prefix ''data:'' (to_lower value) then None
      else let rest = drop 5 value; meta = takeWhile (\<lambda>c. c \<noteq> CHR '','') rest in
        if meta = rest then None
        else let data = trim_space (drop (Suc (length meta)) rest); metaParts = split_at (CHR '';'') meta;
                 mediaType = trim_space (hd metaParts) in
          if data = [] \<or> mediaType = [] \<or> \<not> prefix ''image/'' (to_lower mediaType) then None
          else if list_ex (\<lambda>tok. equal_fold (trim_space tok) ''base64'') (tl metaParts) then Some (mediaType, data)
          else None)"

definition convertOpenAIImageURLBlockToAnthropic :: "'x json_env_scheme \<Rightarrow> json \<Rightarrow> conversion_error + json" where
  "convertOpenAIImageURLBlockToAnthropic env block =
     (case extractOpenAIImageURL env (field ''image_url'' block) of
        None \<Rightarrow> Inl (Rejected ''openai image_url content block missing image_url.url'')
      | Some url \<Rightarrow> Inr (jobj [(''type'', JString ''image''), (''source'',
          case parseDataURLImageSource url of
            Some (mediaType, data) \<Rightarrow> jobj [(''type'', JString ''base64''), (''media_type'', JString mediaType), (''data'', JString data)]
          | None \<Rightarrow> jobj [(''type'', JString ''url''), (''url'', JString url)])]))"

section \<open>Contents\<close>

text \<open>A content is a list of blocks that were decoded as maps, or any other value.\<close>

datatype anthropic_content = Blocks "json list" | Plain json

definition content_json :: "anthropic_content \<Rightarrow> json" where
  "content_json c = (case c of Blocks bs \<Rightarrow> JArray bs | Plain v \<Rightarrow> v)"

definition text_block :: "string \<Rightarrow> json" where
  "text_block t = jobj [(''type'', JString ''text''), (''text'', JString t)]"

definition convert_block :: "'x json_env_scheme \<Rightarrow> json \<Rightarrow> conversion_error + json list" where
  "convert_block env block =
     (let ty = block_type env block in
      if ty = ''text''
      then Inr (case extractTextFromContentBlock block of None \<Rightarrow> [] | Some t \<Rightarrow> [text_block t])
      else if ty = ''image_url''
      then and_then (convertOpenAIImageURLBlockToAnthropic env block) (\<lambda>b. Inr [b])
      else Inr [block])"

fun convert_each :: "('a \<Rightarrow> conversion_error + 'b list) \<Rightarrow> 'a list \<Rightarrow> conversion_error + 'b list" where
  "convert_each f [] = Inr []"
| "convert_each f (a # as) = and_then (f a) (\<lambda>bs. and_then (convert_each f as) (\<lambda>bs'. Inr (bs @ bs')))"

definition convertOpenAIContentToAnthropic :: "'x json_env_scheme \<Rightarrow> json option \<Rightarrow> conversion_error + anthropic_content" where
  "convertOpenAIContentToAnthropic env raw =
     (case raw of
        None \<Rightarrow> Inr (Plain (JString []))
      | Some v \<Rightarrow>
          (case v of JNull \<Rightarrow> Inr (Plain (JString [])) | JString t \<Rightarrow> Inr (Plain (JString t))
           | _ \<Rightarrow> (case decode_maps env v of
               Some blocks \<Rightarrow> and_then (convert_each (convert_block env) blocks) (\<lambda>bs. Inr (Blocks bs))
             | None \<Rightarrow> and_then (or_error (Undecodable ''openai content'') (as_any (je_float env) v)) (\<lambda>x. Inr (Plain x)))))"

definition anthropicBlocksFromContentValue :: "anthropic_content \<Rightarrow> conversion_error + json list" where
  "anthropicBlocksFromContentValue c =
     (case c of
        Blocks bs \<Rightarrow> Inr (filter (\<lambda>b. b \<noteq> JNull \<and> b \<noteq> JObject []) bs)
      | Plain v \<Rightarrow>
          (case v of
             JNull \<Rightarrow> Inr []
           | JString t \<Rightarrow> Inr (if trim_space t = [] then [] else [text_block t])
           | JArray vs \<Rightarrow> Inr (concat (map (\<lambda>item. case item of
               JObject kvs \<Rightarrow> [item]
             | JString t \<Rightarrow> (if trim_space t = [] then [] else [text_block t])
             | _ \<Rightarrow> []) vs))
           | _ \<Rightarrow> Inl (Rejected ''unsupported assistant content type'')))"

section \<open>Tool calls and results\<close>

definition decodeOpenAIToolArguments :: "'x json_env_scheme \<Rightarrow> string \<Rightarrow> conversion_error + json" where
  "decodeOpenAIToolArguments env arguments =
     (let trimmed = trim_space arguments in
      if trimmed = [] then Inr (JObject [])
      else or_error (Undecodable ''openai tool arguments'') (bind (je_parse env trimmed) (as_any (je_float env))))"

definition openAIToolCallToAnthropicBlock :: "'x json_env_scheme \<Rightarrow> openAIToolCall \<Rightarrow> nat \<Rightarrow> conversion_error + json" where
  "openAIToolCallToAnthropicBlock env call i =
     (let name = trim_space (ofn_Name (otc_Function call));
          toolID = (if trim_space (otc_ID call) = [] then ''tool_'' @ show_nat i else trim_space (otc_ID call))
      in if name = [] then Inl (Rejected ''openai tool call missing function name'')
         else and_then (decodeOpenAIToolArguments env (ofn_Arguments (otc_Function call))) (\<lambda>input.
           Inr (jobj [(''type'', JString ''tool_use''), (''id'', JString toolID), (''name'', JString name), (''input'', input)])))"

definition message_calls :: "openAIChatMessage \<Rightarrow> openAIToolCall list" where
  "message_calls m =
     (if ocm_ToolCalls m \<noteq> [] then ocm_ToolCalls m
      else case ocm_FunctionCall m of
          Some f \<Rightarrow> (if trim_space (ofn_Name f) = [] then []
            else [no_toolCall\<lparr>otc_ID := ''function_'' @ trim_space (ofn_Name f), otc_Type := ''function'', otc_Function := f\<rparr>])
        | None \<Rightarrow> [])"

definition convertOpenAIAssistantMessageToAnthropic ::
  "'x json_env_scheme \<Rightarrow> openAIChatMessage \<Rightarrow> conversion_error + anthropic_content" where
  "convertOpenAIAssistantMessageToAnthropic env m =
     and_then (convertOpenAIContentToAnthropic env (ocm_Content m)) (\<lambda>content.
       if message_calls m = [] then Inr content
       else and_then (anthropicBlocksFromContentValue content) (\<lambda>blocks.
         and_then (convert_each (\<lambda>(i, call). and_then (openAIToolCallToAnthropicBlock env call i) (\<lambda>b. Inr [b]))
             (enumerate 0 (message_calls m))) (\<lambda>calls.
           Inr (if blocks @ calls = [] then Plain (JString []) else Blocks (blocks @ calls)))))"

definition decodeOpenAIToolResultContent :: "'x json_env_scheme \<Rightarrow> json option \<Rightarrow> conversion_error + json" where
  "decodeOpenAIToolResultContent env raw =
     (case raw of
        None \<Rightarrow> Inr (JString [])
      | Some v \<Rightarrow>
          (case v of
             JNull \<Rightarrow> Inr (JString [])
           | JString t \<Rightarrow> Inr (case bind (je_parse env t) (as_any (je_float env)) of Some nested \<Rightarrow> nested | None \<Rightarrow> JString t)
           | _ \<Rightarrow> or_error (Undecodable ''openai tool result'') (as_any (je_float env) v)))"

definition tool_result :: "string \<Rightarrow> json \<Rightarrow> json" where
  "tool_result useID content =
     jobj [(''type'', JString ''tool_result''), (''tool_use_id'', JString useID), (''content'', content)]"

section \<open>The Anthropic request\<close>

record anthropicMessage =
  amg_Role :: string
  amg_Content :: anthropic_content

definition message_json :: "anthropicMessage \<Rightarrow> json" where
  "message_json m = JObject [(''role'', JString (amg_Role m)), (''content'', content_json (amg_Content m))]"

definition convertOpenAIToolMessageToAnthropic ::
  "'x json_env_scheme \<Rightarrow> openAIChatMessage \<Rightarrow> conversion_error + anthropicMessage" where
  "convertOpenAIToolMessageToAnthropic env m =
     (let useID = trim_space (ocm_ToolCallID m) in
      if useID = [] then Inl (Rejected ''openai tool message missing tool_call_id'')
      else and_then (decodeOpenAIToolResultContent env (ocm_Content m)) (\<lambda>content.
        Inr \<lparr>amg_Role = ''user'', amg_Content = Blocks [tool_result useID content]\<rparr>))"

definition convertOpenAIFunctionMessageToAnthropic ::
  "'x json_env_scheme \<Rightarrow> openAIChatMessage \<Rightarrow> conversion_error + anthropicMessage" where
  "convertOpenAIFunctionMessageToAnthropic env m =
     (let name = trim_space (ocm_Name m) in
      if name = [] then Inl (Rejected ''openai function message missing name'')
      else and_then (decodeOpenAIToolResultContent env (ocm_Content m)) (\<lambda>content.
        Inr \<lparr>amg_Role = ''user'', amg_Content = Blocks [tool_result (''function_'' @ name) content]\<rparr>))"

definition extractOpenAISystemText :: "'x json_env_scheme \<Rightarrow> json option \<Rightarrow> string" where
  "extractOpenAISystemText env raw =
     (case raw of
        None \<Rightarrow> []
      | Some v \<Rightarrow>
          (case v of JNull \<Rightarrow> [] | JString t \<Rightarrow> trim_space t
           | _ \<Rightarrow> (case decode_maps env v of
               None \<Rightarrow> []
             | Some blocks \<Rightarrow> join [newline, newline]
                 (concat (map (\<lambda>b. if block_type env b = ''text'' then text_parts env b else []) blocks)))))"

definition is_system :: "openAIChatMessage \<Rightarrow> bool" where
  "is_system m = (trim_space (ocm_Role m) \<in> {''system'', ''developer''})"

definition systemParts :: "'x json_env_scheme \<Rightarrow> openAIChatMessage list \<Rightarrow> string list" where
  "systemParts env msgs = filter (\<lambda>t. t \<noteq> []) (map (\<lambda>m. extractOpenAISystemText env (ocm_Content m)) (filter is_system msgs))"

text \<open>A message of any other role has no counterpart and is dropped.\<close>

definition convert_chat_message :: "'x json_env_scheme \<Rightarrow> openAIChatMessage \<Rightarrow> conversion_error + anthropicMessage list" where
  "convert_chat_message env m =
     (let role = trim_space (ocm_Role m); one = (\<lambda>r. and_then r (\<lambda>msg. Inr [msg])) in
      if role = ''user'' then one (and_then (convertOpenAIContentToAnthropic env (ocm_Content m))
        (\<lambda>c. Inr \<lparr>amg_Role = ''user'', amg_Content = c\<rparr>))
      else if role = ''assistant'' then one (and_then (convertOpenAIAssistantMessageToAnthropic env m)
        (\<lambda>c. Inr \<lparr>amg_Role = ''assistant'', amg_Content = c\<rparr>))
      else if role = ''tool'' then one (convertOpenAIToolMessageToAnthropic env m)
      else if role = ''function'' then one (convertOpenAIFunctionMessageToAnthropic env m)
      else Inr [])"

definition named_choice :: "string \<Rightarrow> json option" where
  "named_choice s =
     (let t = to_lower (trim_space s) in
      if t = [] \<or> t = ''auto'' then Some (jobj [(''type'', JString ''auto'')])
      else if t = ''required'' then Some (jobj [(''type'', JString ''any'')])
      else None)"

definition convertOpenAIToolChoiceToAnthropic :: "'x json_env_scheme \<Rightarrow> json \<Rightarrow> json option" where
  "convertOpenAIToolChoiceToAnthropic env v =
     (case v of
        JString s \<Rightarrow> named_choice s
      | JObject kvs \<Rightarrow>
          (let ty = to_lower (trim_space (sprint env (field ''type'' v))); fn = field ''function'' v;
               name = trim_space (sprint env (field ''name'' fn)) in
           if ty = ''function''
           then (if is_map fn \<and> name \<noteq> [] then Some (jobj [(''type'', JString ''tool''), (''name'', JString name)]) else None)
           else if ty \<in> {''auto'', ''required'', ''none''} then named_choice ty
           else None)
      | _ \<Rightarrow> None)"

definition extractFunctionFieldsFromOpenAITool :: "'x json_env_scheme \<Rightarrow> json \<Rightarrow> (json \<times> json \<times> json) option" where
  "extractFunctionFieldsFromOpenAITool env tool =
     (let fn = field ''function'' tool;
          src = (if is_map fn \<and> fn \<noteq> JObject [] then fn else tool)
      in if trim_space (sprint env (field ''type'' tool)) \<noteq> ''function'' then None
         else Some (field ''name'' src, field ''description'' src, field ''parameters'' src))"

definition anthropic_tool :: "'x json_env_scheme \<Rightarrow> json \<times> json \<times> json \<Rightarrow> json" where
  "anthropic_tool env = (\<lambda>(name, description, schema).
     jobj [(''name'', name), (''description'', JString (normalizeToolDescription env description)), (''input_schema'', schema)])"

definition convertOpenAIToolsToAnthropic :: "'x json_env_scheme \<Rightarrow> json \<Rightarrow> conversion_error + json list" where
  "convertOpenAIToolsToAnthropic env raw =
     and_then (or_error (Undecodable ''openai tools'') (decode_maps env raw)) (\<lambda>tools.
       Inr (map (anthropic_tool env) (List.map_filter (extractFunctionFieldsFromOpenAITool env) tools)))"

definition convertOpenAIFunctionsToAnthropic :: "'x json_env_scheme \<Rightarrow> json \<Rightarrow> conversion_error + json list" where
  "convertOpenAIFunctionsToAnthropic env raw =
     and_then (or_error (Undecodable ''openai functions'') (decode_maps env raw)) (\<lambda>fs.
       Inr (map (\<lambda>f. anthropic_tool env (field ''name'' f, field ''description'' f, field ''parameters'' f)) fs))"

definition request_tools :: "'x json_env_scheme \<Rightarrow> (string \<times> json) list \<Rightarrow> conversion_error + json list" where
  "request_tools env raw =
     (case map_of raw ''tools'' of
        Some v \<Rightarrow> convertOpenAIToolsToAnthropic env v
      | None \<Rightarrow> (case map_of raw ''functions'' of
          Some v \<Rightarrow> convertOpenAIFunctionsToAnthropic env v | None \<Rightarrow> Inr []))"

definition anthropic_request :: "'x json_env_scheme \<Rightarrow> string \<Rightarrow> (string \<times> json) list \<Rightarrow>
    string list \<Rightarrow> anthropicMessage list \<Rightarrow> json list \<Rightarrow> json" where
  "anthropic_request env upstreamModel raw system msgs tools =
     jobj ([(''model'', JString upstreamModel), (''messages'', JArray (map message_json msgs))] @
       (if system = [] then [] else [(''system'', JString (join [newline, newline] system))]) @
       (case copyRawField env raw ''max_tokens'' ''max_tokens'' of [] \<Rightarrow> [(''max_tokens'', jint 4096)] | fs \<Rightarrow> fs) @
       copyRawField env raw ''temperature'' ''temperature'' @ copyRawField env raw ''stream'' ''stream'' @
       (case bind (bind (map_of raw ''tool_choice'') (as_any (je_float env))) (convertOpenAIToolChoiceToAnthropic env) of
          None \<Rightarrow> [] | Some choice \<Rightarrow> [(''tool_choice'', choice)]) @
       (if tools = [] then [] else [(''tools'', JArray tools)]))"

definition convertOpenAIChatRequestToAnthropic ::
  "'x json_env_scheme \<Rightarrow> string \<Rightarrow> string \<Rightarrow> conversion_error + string" where
  "convertOpenAIChatRequestToAnthropic env body upstreamModel =
     and_then (or_error (Undecodable ''openai request'') (bind (je_parse env body) raw_map)) (\<lambda>raw.
     and_then (or_error (Undecodable ''openai messages'') (bind (map_of raw ''messages'') decode_chatMessages)) (\<lambda>msgs.
     and_then (convert_each (convert_chat_message env) msgs) (\<lambda>converted.
     and_then (request_tools env raw) (\<lambda>tools.
       or_error (Unencodable ''anthropic request'')
         (je_marshal env (anthropic_request env upstreamModel raw (systemParts env msgs) converted tools))))))"

section \<open>A turn of the assistant survives both conversions\<close>

text \<open>The blocks that a model writes: text, and calls of tools with an identifier, a name and an input.\<close>

datatype turn_block = Text_Block string | Tool_Use string string json

fun block_json :: "turn_block \<Rightarrow> json" where
  "block_json (Text_Block t) = text_block t"
| "block_json (Tool_Use i n v) =
     jobj [(''type'', JString ''tool_use''), (''id'', JString i), (''name'', JString n), (''input'', v)]"

text \<open>
  An input that the codec can write and reads back as it is, and whose text is neither blank nor padded;
  an identifier and a name that are trimmed.
\<close>

definition codec_keeps :: "'x json_env_scheme \<Rightarrow> json \<Rightarrow> bool" where
  "codec_keeps env v = (v \<noteq> JNull \<and> (\<forall>t. v \<noteq> JString t) \<and> as_any (je_float env) v = Some v \<and>
     (case je_marshal env v of None \<Rightarrow> False
      | Some s \<Rightarrow> s \<noteq> [] \<and> trim_space s = s \<and> je_parse env s = Some v))"

fun turn_block_ok :: "'x json_env_scheme \<Rightarrow> turn_block \<Rightarrow> bool" where
  "turn_block_ok env (Text_Block t) = (trim_space t \<noteq> [])"
| "turn_block_ok env (Tool_Use i n v) = (i \<noteq> [] \<and> trim_space i = i \<and> n \<noteq> [] \<and> trim_space n = n \<and> codec_keeps env v)"

definition turn_texts :: "turn_block list \<Rightarrow> string list" where
  "turn_texts bs = concat (map (\<lambda>b. case b of Text_Block t \<Rightarrow> [t] | Tool_Use i n v \<Rightarrow> []) bs)"

definition turn_calls :: "turn_block list \<Rightarrow> turn_block list" where
  "turn_calls bs = filter (\<lambda>b. case b of Text_Block t \<Rightarrow> False | Tool_Use i n v \<Rightarrow> True) bs"

lemma block_json_fields:
  "field ''type'' (block_json (Text_Block t)) = JString ''text''" "field ''text'' (block_json (Text_Block t)) = JString t"
  "field ''type'' (block_json (Tool_Use i n v)) = JString ''tool_use''" "field ''id'' (block_json (Tool_Use i n v)) = JString i"
  "field ''name'' (block_json (Tool_Use i n v)) = JString n" "field ''input'' (block_json (Tool_Use i n v)) = v"
  by (simp_all add: text_block_def jobj_def json_map_def field_def member_def)

lemma block_json_type:
  "block_type env (block_json (Text_Block t)) = ''text''" "block_type env (block_json (Tool_Use i n v)) = ''tool_use''"
proof -
  have "normalizeTextLikeBlockType ''text'' = ''text''" "normalizeTextLikeBlockType ''tool_use'' = ''tool_use''" by code_simp+
  then show "block_type env (block_json (Text_Block t)) = ''text''" "block_type env (block_json (Tool_Use i n v)) = ''tool_use''"
    by (simp_all add: block_type_def block_json_fields sprint_def del: block_json.simps)
qed

lemma block_json_canonical:
  "turn_block_ok env b \<Longrightarrow> as_any (je_float env) (block_json b) = Some (block_json b)"
  by (cases b) (simp_all add: text_block_def jobj_def json_map_def codec_keeps_def)

lemma decode_maps_blocks:
  assumes "\<forall>b \<in> set bs. turn_block_ok env b"
  shows "decode_maps env (JArray (map block_json bs)) = Some (map block_json bs)"
proof -
  have "decode_map env (block_json b) = Some (block_json b)" if "turn_block_ok env b" for b
    using block_json_canonical [OF that] by (cases b) (simp_all add: decode_map_def text_block_def jobj_def)
  then show ?thesis using assms by (induction bs) (simp_all add: decode_maps_def)
qed

text \<open>The call that the chat request has for a block.\<close>

definition call_of :: "'x json_env_scheme \<Rightarrow> turn_block \<Rightarrow> openAIToolCall" where
  "call_of env b = (case b of
      Tool_Use i n v \<Rightarrow> \<lparr>otc_ID = i, otc_Type = ''function'',
        otc_Function = \<lparr>ofn_Name = n, ofn_Arguments = compactJSONValue env v\<rparr>, otc_Custom = \<lparr>octc_Name = [], octc_Input = []\<rparr>\<rparr>
    | _ \<Rightarrow> no_toolCall)"

lemma tool_use_call_json:
  assumes "turn_block_ok env (Tool_Use i n v)"
  shows "set_struct decode_toolCall (tool_use_call env k (block_json (Tool_Use i n v))) no_toolCall = Some (call_of env (Tool_Use i n v))"
  using assms
  by (simp add: tool_use_call_def block_json_fields sprint_def call_of_def jobj_def json_map_def set_struct_def
      decode_toolCall_def decode_function_def bind_def equal_fold_def to_lower_def lower_char_def set_string_def no_toolCall_def
      no_function_def del: block_json.simps)

lemma turn_texts_parts:
  assumes "\<forall>b \<in> set bs. turn_block_ok env b"
  shows "concat (map (\<lambda>b. if block_type env b = ''text'' then text_parts env b else []) (map block_json bs)) = turn_texts bs"
proof -
  have "(if block_type env (block_json b) = ''text'' then text_parts env (block_json b) else []) =
      (case b of Text_Block t \<Rightarrow> [t] | Tool_Use i n v \<Rightarrow> [])" if "turn_block_ok env b" for b
    using that by (cases b) (simp_all add: block_json_type text_parts_def extractTextFromContentBlock_def block_json_fields
        del: block_json.simps)
  then show ?thesis using assms by (induction bs) (simp_all add: turn_texts_def del: block_json.simps)
qed

lemma turn_calls_json:
  assumes "\<forall>b \<in> set bs. turn_block_ok env b"
  shows "concat (map (\<lambda>(i, b). if block_type env b = ''tool_use'' then [tool_use_call env i b] else []) (enumerate k (map block_json bs))) =
    map (\<lambda>b. tool_use_call env 0 (block_json b)) (turn_calls bs)"
  using assms
proof (induction bs arbitrary: k)
  case (Cons b bs)
  have "(if block_type env (block_json b) = ''tool_use'' then [tool_use_call env k (block_json b)] else []) =
      map (\<lambda>b. tool_use_call env 0 (block_json b)) (turn_calls [b])"
    using Cons.prems by (cases b) (simp_all add: block_json_type turn_calls_def tool_use_call_def block_json_fields sprint_def
        del: block_json.simps)
  then show ?case using Cons by (simp add: turn_calls_def del: block_json.simps)
qed (simp add: turn_calls_def)

lemma decode_calls:
  assumes "\<forall>b \<in> set cs. \<exists>i n v. b = Tool_Use i n v \<and> turn_block_ok env b"
  shows "decode_all (\<lambda>x. set_struct decode_toolCall x no_toolCall) (map (\<lambda>b. tool_use_call env 0 (block_json b)) cs) =
    Some (map (call_of env) cs)"
  using assms by (induction cs) (auto simp: tool_use_call_json simp del: block_json.simps turn_block_ok.simps)

lemma assistant_message_decoded:
  assumes "content = JNull \<or> (\<exists>t. content = JString t)"
    and "decode_all (\<lambda>x. set_struct decode_toolCall x no_toolCall) calls = Some decoded"
  shows "set_struct decode_chatMessage (assistant_message content calls) no_chatMessage =
    Some (no_chatMessage\<lparr>ocm_Role := ''assistant'', ocm_Content := Some content, ocm_ToolCalls := decoded\<rparr>)"
proof (cases "calls = []")
  case True
  then show ?thesis using assms
    by (simp add: assistant_message_def jobj_def json_map_def set_struct_def decode_chatMessage_def bind_def equal_fold_def
        to_lower_def lower_char_def set_string_def set_raw_def no_chatMessage_def)
next
  case False
  then show ?thesis using assms
    by (simp add: assistant_message_def jobj_def json_map_def set_struct_def decode_chatMessage_def bind_def equal_fold_def
        to_lower_def lower_char_def set_string_def set_raw_def set_list_def no_chatMessage_def)
qed

lemma call_back:
  assumes "turn_block_ok env (Tool_Use i n v)"
  shows "openAIToolCallToAnthropicBlock env (call_of env (Tool_Use i n v)) k = Inr (block_json (Tool_Use i n v))"
proof -
  obtain s where s: "je_marshal env v = Some s" "s \<noteq> []" "trim_space s = s" "je_parse env s = Some v" "v \<noteq> JNull"
      "as_any (je_float env) v = Some v" "\<forall>t. v \<noteq> JString t"
    using assms by (auto simp: codec_keeps_def split: option.splits)
  then have "compactJSONValue env v = s" by (cases v) (simp_all add: compactJSONValue_def)
  then show ?thesis using assms s
    by (simp add: openAIToolCallToAnthropicBlock_def call_of_def decodeOpenAIToolArguments_def bind_def or_error_def and_then_def)
qed

lemma calls_back:
  assumes "\<forall>b \<in> set cs. \<exists>i n v. b = Tool_Use i n v \<and> turn_block_ok env b"
  shows "convert_each (\<lambda>(i, call). and_then (openAIToolCallToAnthropicBlock env call i) (\<lambda>b. Inr [b]))
    (enumerate k (map (call_of env) cs)) = Inr (map block_json cs)"
  using assms
proof (induction cs arbitrary: k)
  case (Cons b cs)
  then obtain i n v where b: "b = Tool_Use i n v" "turn_block_ok env (Tool_Use i n v)" by auto
  show ?case using Cons.IH [of "Suc k"] Cons.prems call_back [OF b(2), of k]
    by (simp add: b(1) and_then_def del: block_json.simps turn_block_ok.simps)
qed simp

text \<open>The content of the message that both conversions give.\<close>

definition turn_content :: "turn_block list \<Rightarrow> anthropic_content" where
  "turn_content bs =
     (let t = join [newline] (turn_texts bs) in
      if turn_calls bs = [] then Plain (JString t)
      else Blocks ((if trim_space t = [] then [] else [text_block t]) @ map block_json (turn_calls bs)))"

text \<open>
  C34 A turn of the assistant that goes from the Anthropic format to a chat message and back keeps its tool
  calls, in their order, with identifier, name and input; its texts come back as one text, joined by
  line breaks. The inputs are values that the JSON codec reads back as it wrote them.\<close>

theorem assistant_turn_round_trip:
  assumes "\<forall>b \<in> set bs. turn_block_ok env b"
  shows "\<exists>m. set_struct decode_chatMessage
      (convertAnthropicAssistantMessageToOpenAI env (Some (JArray (map block_json bs)))) no_chatMessage = Some m \<and>
    ocm_Role m = ''assistant'' \<and> convertOpenAIAssistantMessageToAnthropic env m = Inr (turn_content bs)"
proof -
  let ?content = "if turn_texts bs = [] then JNull else JString (join [newline] (turn_texts bs))"
  let ?calls = "map (\<lambda>b. tool_use_call env 0 (block_json b)) (turn_calls bs)"
  let ?m = "no_chatMessage\<lparr>ocm_Role := ''assistant'', ocm_Content := Some ?content, ocm_ToolCalls := map (call_of env) (turn_calls bs)\<rparr>"
  have calls: "\<forall>b \<in> set (turn_calls bs). \<exists>i n v. b = Tool_Use i n v \<and> turn_block_ok env b"
    using assms by (auto simp: turn_calls_def split: turn_block.splits)
  have "convertAnthropicAssistantMessageToOpenAI env (Some (JArray (map block_json bs))) = assistant_message ?content ?calls"
    using turn_texts_parts [OF assms] turn_calls_json [OF assms, of 0] decode_maps_blocks [OF assms]
    by (simp add: convertAnthropicAssistantMessageToOpenAI_def bind_def decode_string_def set_string_def Let_def del: block_json.simps)
  moreover have "set_struct decode_chatMessage (assistant_message ?content ?calls) no_chatMessage = Some ?m"
    by (rule assistant_message_decoded [OF _ decode_calls [OF calls]]) simp
  moreover have "message_calls (no_chatMessage\<lparr>ocm_Role := ''assistant'', ocm_Content := x, ocm_ToolCalls := map (call_of env) (turn_calls bs)\<rparr>) =
      map (call_of env) (turn_calls bs)" for x by (simp add: message_calls_def no_chatMessage_def)
  then have "convertOpenAIAssistantMessageToAnthropic env ?m = Inr (turn_content bs)"
    using calls_back [OF calls, of 0]
    by (simp add: convertOpenAIAssistantMessageToAnthropic_def convertOpenAIContentToAnthropic_def and_then_def turn_content_def
        anthropicBlocksFromContentValue_def Let_def)
  ultimately show ?thesis by auto
qed

definition demo_numbers :: json_env where
  "demo_numbers = \<lparr>je_parse = (\<lambda>s. if s = ''7'' then Some (JNumber ''7'') else None),
     je_marshal = (\<lambda>v. if v = JNumber ''7'' then Some ''7'' else Some ''{}''), je_float = Some, je_sprint = (\<lambda>v. []),
     je_uuid = (\<lambda>n. ''1''), je_now = 7\<rparr>"

lemma assistant_turn_round_trip_witness:
  "\<exists>m. set_struct decode_chatMessage (convertAnthropicAssistantMessageToOpenAI demo_numbers
      (Some (JArray (map block_json [Text_Block ''a'', Tool_Use ''i'' ''n'' (JNumber ''7''), Text_Block ''b''])))) no_chatMessage = Some m \<and>
    convertOpenAIAssistantMessageToAnthropic demo_numbers m =
      Inr (turn_content [Text_Block ''a'', Tool_Use ''i'' ''n'' (JNumber ''7''), Text_Block ''b''])"
proof -
  have "trim_space ''a'' = ''a''" "trim_space ''b'' = ''b''" "trim_space ''i'' = ''i''" "trim_space ''n'' = ''n''" "trim_space ''7'' = ''7''"
    by code_simp+
  then have "\<forall>b \<in> set [Text_Block ''a'', Tool_Use ''i'' ''n'' (JNumber ''7''), Text_Block ''b'']. turn_block_ok demo_numbers b"
    by (simp add: codec_keeps_def demo_numbers_def)
  from assistant_turn_round_trip [OF this] show ?thesis by blast
qed

section \<open>Results of tools\<close>

text \<open>
  A result that is text comes back as it was unless it is itself a JSON document, which is what tools
  usually give: then the Anthropic request has that value in place of the text.
\<close>

lemma tool_result_text:
  assumes "trim_space i \<noteq> []" "je_parse env t = None"
  shows "convertOpenAIToolMessageToAnthropic env (no_chatMessage\<lparr>ocm_ToolCallID := i, ocm_Content := Some (JString t)\<rparr>) =
    Inr \<lparr>amg_Role = ''user'', amg_Content = Blocks [tool_result (trim_space i) (JString t)]\<rparr>"
  using assms by (simp add: convertOpenAIToolMessageToAnthropic_def decodeOpenAIToolResultContent_def bind_def and_then_def)

lemma tool_result_reparsed:
  assumes "trim_space i \<noteq> []" "je_parse env t = Some v" "as_any (je_float env) v = Some x"
  shows "convertOpenAIToolMessageToAnthropic env (no_chatMessage\<lparr>ocm_ToolCallID := i, ocm_Content := Some (JString t)\<rparr>) =
    Inr \<lparr>amg_Role = ''user'', amg_Content = Blocks [tool_result (trim_space i) x]\<rparr>"
  using assms by (simp add: convertOpenAIToolMessageToAnthropic_def decodeOpenAIToolResultContent_def bind_def and_then_def)

text \<open>A tool choice of \<open>none\<close> has no counterpart and is left out, with which the model may call tools.\<close>

lemma tool_choice_none_dropped: "convertOpenAIToolChoiceToAnthropic env (JString ''none'') = None"
proof -
  have "named_choice ''none'' = None" by code_simp
  then show ?thesis by (simp add: convertOpenAIToolChoiceToAnthropic_def)
qed

section \<open>The request is well-typed\<close>

text \<open>What the Anthropic API requires of the shape of a request.\<close>

inductive message_typed :: "json \<Rightarrow> bool" where
  "r \<in> {''user'', ''assistant''} \<Longrightarrow> message_typed (JObject [(''role'', JString r), (''content'', c)])"

inductive tool_typed :: "json \<Rightarrow> bool" where
  "\<lbrakk>map_of kvs ''name'' = Some n; map_of kvs ''description'' = Some (JString d); map_of kvs ''input_schema'' = Some v\<rbrakk> \<Longrightarrow>
   tool_typed (JObject kvs)"

inductive request_typed :: "json \<Rightarrow> bool" where
  "\<lbrakk>map_of kvs ''model'' = Some (JString m); map_of kvs ''messages'' = Some (JArray ms); list_all message_typed ms;
    map_of kvs ''max_tokens'' = Some n; \<And>v. map_of kvs ''system'' = Some v \<Longrightarrow> \<exists>t. v = JString t;
    \<And>v. map_of kvs ''tools'' = Some v \<Longrightarrow> \<exists>ts. v = JArray ts \<and> ts \<noteq> [] \<and> list_all tool_typed ts\<rbrakk> \<Longrightarrow>
   request_typed (JObject kvs)"

inductive_cases message_typedE: "message_typed v"
inductive_cases tool_typedE: "tool_typed v"
inductive_cases request_typedE: "request_typed v"

lemma convert_each_all:
  assumes "convert_each f as = Inr bs" "\<And>a cs. f a = Inr cs \<Longrightarrow> list_all P cs"
  shows "list_all P bs"
  using assms(1) by (induction as arbitrary: bs) (auto simp: and_then_Inr dest: assms(2))

lemma anthropic_tool_typed: "tool_typed (anthropic_tool env f)"
proof -
  obtain n d sch where f: "f = (n, d, sch)" by (cases f)
  show ?thesis unfolding f anthropic_tool_def jobj_def split
    by (rule tool_typed.intros) (simp_all add: json_map_last)
qed

lemma request_tools_typed: "request_tools env raw = Inr tools \<Longrightarrow> list_all tool_typed tools"
  by (auto simp: request_tools_def convertOpenAIToolsToAnthropic_def convertOpenAIFunctionsToAnthropic_def and_then_Inr
      list_all_iff anthropic_tool_typed split: option.splits)

lemma convert_message_role:
  "convert_chat_message env m = Inr msgs \<Longrightarrow> map amg_Role msgs =
    (if trim_space (ocm_Role m) = ''assistant'' then [''assistant'']
     else if trim_space (ocm_Role m) \<in> {''user'', ''tool'', ''function''} then [''user''] else [])"
  by (auto simp: convert_chat_message_def and_then_Inr convertOpenAIToolMessageToAnthropic_def
      convertOpenAIFunctionMessageToAnthropic_def Let_def split: if_splits)

lemma message_json_typed: "amg_Role m \<in> {''user'', ''assistant''} \<Longrightarrow> message_typed (message_json m)"
  unfolding message_json_def by (rule message_typed.intros)

lemma copyRawField_cases: "copyRawField env raw frm to = [] \<or> (\<exists>v. copyRawField env raw frm to = [(to, v)])"
  by (simp add: copyRawField_def split: option.split)

lemma anthropic_request_fields:
  assumes "anthropic_request env model raw system msgs tools = JObject kvs"
  shows "map_of kvs ''model'' = Some (JString model)" "map_of kvs ''messages'' = Some (JArray (map message_json msgs))"
    "map_of kvs ''max_tokens'' \<noteq> None"
    "map_of kvs ''system'' = (if system = [] then None else Some (JString (join [newline, newline] system)))"
    "map_of kvs ''tools'' = (if tools = [] then None else Some (JArray tools))"
proof -
  obtain ct where ct: "copyRawField env raw ''temperature'' ''temperature'' = [] \<or>
      copyRawField env raw ''temperature'' ''temperature'' = [(''temperature'', ct)]" using copyRawField_cases by blast
  obtain cs where cs: "copyRawField env raw ''stream'' ''stream'' = [] \<or>
      copyRawField env raw ''stream'' ''stream'' = [(''stream'', cs)]" using copyRawField_cases by blast
  obtain cm where cm: "copyRawField env raw ''max_tokens'' ''max_tokens'' = [] \<or>
      copyRawField env raw ''max_tokens'' ''max_tokens'' = [(''max_tokens'', cm)]" using copyRawField_cases by blast
  obtain choice where choice: "bind (bind (map_of raw ''tool_choice'') (as_any (je_float env))) (convertOpenAIToolChoiceToAnthropic env) = choice"
    by simp
  define top where "top = (if system = [] then [] else [(''system'', JString (join [newline, newline] system))])"
  define mid where "mid = (case copyRawField env raw ''max_tokens'' ''max_tokens'' of [] \<Rightarrow> [(''max_tokens'', jint 4096)] | fs \<Rightarrow> fs)"
  have mid: "\<exists>x. mid = [(''max_tokens'', x)]" using cm by (auto simp: mid_def)
  define low where "low = copyRawField env raw ''temperature'' ''temperature'' @ copyRawField env raw ''stream'' ''stream'' @
      (case choice of None \<Rightarrow> [] | Some c \<Rightarrow> [(''tool_choice'', c)])"
  have low: "fst ` set low \<subseteq> {''temperature'', ''stream'', ''tool_choice''}"
    using ct cs by (auto simp: low_def split: option.splits)
  define tl' where "tl' = (if tools = [] then [] else [(''tools'', JArray tools)])"
  have kvs: "kvs = json_map ([(''model'', JString model), (''messages'', JArray (map message_json msgs))] @ top @ mid @ low @ tl')"
    using assms by (simp add: anthropic_request_def jobj_def choice top_def mid_def low_def tl'_def)
  have none: "map_of (rev low) k = None" if "k \<in> {''model'', ''messages'', ''max_tokens'', ''system'', ''tools''}" for k
    using low that by (auto simp: map_of_eq_None_iff)
  show "map_of kvs ''model'' = Some (JString model)" "map_of kvs ''messages'' = Some (JArray (map message_json msgs))"
    "map_of kvs ''max_tokens'' \<noteq> None"
    "map_of kvs ''system'' = (if system = [] then None else Some (JString (join [newline, newline] system)))"
    "map_of kvs ''tools'' = (if tools = [] then None else Some (JArray tools))"
    using mid by (auto simp: kvs json_map_last none top_def tl'_def map_add_def)
qed

text \<open>
  Whatever a chat completion request has in it, if it is converted then to a request of the shape that the
  Anthropic API asks for: the model of the route, a limit of tokens, messages of the roles \<open>user\<close> and
  \<open>assistant\<close> only, system prompts apart, and tools with a name, a description and a schema. The messages
  are those of the chat in their order, results of tools as messages of the user.\<close>

theorem chat_request_typed:
  assumes "convertOpenAIChatRequestToAnthropic env body model = Inr out"
  shows "\<exists>raw msgs req. bind (je_parse env body) raw_map = Some raw \<and>
    bind (map_of raw ''messages'') decode_chatMessages = Some msgs \<and> je_marshal env req = Some out \<and>
    request_typed req \<and> field ''model'' req = JString model \<and>
    (case field ''messages'' req of JArray ms \<Rightarrow> map (field ''role'') ms =
       map (\<lambda>m. JString (if trim_space (ocm_Role m) = ''assistant'' then ''assistant'' else ''user''))
         (filter (\<lambda>m. trim_space (ocm_Role m) \<in> {''assistant'', ''user'', ''tool'', ''function''}) msgs)
     | _ \<Rightarrow> False)"
proof -
  obtain raw msgs converted tools where
    raw: "bind (je_parse env body) raw_map = Some raw" and msgs: "bind (map_of raw ''messages'') decode_chatMessages = Some msgs"
    and conv: "convert_each (convert_chat_message env) msgs = Inr converted" and tools: "request_tools env raw = Inr tools"
    and out: "je_marshal env (anthropic_request env model raw (systemParts env msgs) converted tools) = Some out"
    using assms by (auto simp: convertOpenAIChatRequestToAnthropic_def and_then_Inr or_error_Inr)
  define req where "req = anthropic_request env model raw (systemParts env msgs) converted tools"
  obtain kvs where kvs: "req = JObject kvs" by (simp add: req_def anthropic_request_def jobj_def)
  note f = anthropic_request_fields [OF kvs [unfolded req_def]]
  have roles: "map amg_Role converted = map (\<lambda>m. if trim_space (ocm_Role m) = ''assistant'' then ''assistant'' else ''user'')
      (filter (\<lambda>m. trim_space (ocm_Role m) \<in> {''assistant'', ''user'', ''tool'', ''function''}) msgs)"
    using conv by (induction msgs arbitrary: converted) (auto simp: and_then_Inr dest!: convert_message_role)
  then have "set (map amg_Role converted) \<subseteq> {''user'', ''assistant''}" by auto
  then have "list_all message_typed (map message_json converted)"
    by (auto simp: list_all_iff intro!: message_json_typed)
  moreover obtain n where "map_of kvs ''max_tokens'' = Some n" using f(3) by auto
  ultimately have "request_typed req" unfolding kvs
    using f(1,2,4,5) request_tools_typed [OF tools]
    by (intro request_typed.intros) (auto split: if_splits)
  moreover have "map (field ''role'') (map message_json converted) = map JString (map amg_Role converted)"
    by (simp add: message_json_def field_def member_def)
  ultimately show ?thesis using raw msgs out roles f(1,2)
    by (intro exI [of _ raw] exI [of _ msgs] exI [of _ req]) (simp add: req_def [symmetric] kvs field_def member_def comp_def)
qed

definition demo_chat_request :: json_env where
  "demo_chat_request = \<lparr>je_parse = (\<lambda>s. if s = ''r'' then Some (JObject [(''messages'', JArray [
       JObject [(''role'', JString ''system''), (''content'', JString ''s'')], JObject [(''role'', JString ''user''), (''content'', JString ''u'')]]),
       (''functions'', JArray [JObject [(''name'', JString ''f'')]])]) else None),
     je_marshal = (\<lambda>v. Some ''{}''), je_float = Some, je_sprint = (\<lambda>v. []), je_uuid = (\<lambda>n. ''1''), je_now = 7\<rparr>"

lemma chat_request_typed_witness:
  "\<exists>req. je_marshal demo_chat_request req = Some ''{}'' \<and> request_typed req \<and> field ''model'' req = JString ''m''"
proof -
  have "convertOpenAIChatRequestToAnthropic demo_chat_request ''r'' ''m'' = Inr ''{}''" by code_simp
  from chat_request_typed [OF this] show ?thesis by blast
qed

end
