(* ===== verification/Convert_Response.thy ===== *)
theory Convert_Response
  imports Convert_Chat_Request
begin

text \<open>
  The conversion of whole responses and of errors between chat completions and the Anthropic messages
  API (\<open>internal/gateway/api/compat.go\<close>).
\<close>

section \<open>From chat completions to Anthropic\<close>

record chatResponseChoice =
  crc_Content :: json
  crc_ToolCalls :: "openAIToolCall list"
  crc_FinishReason :: string

definition no_responseChoice :: chatResponseChoice where
  "no_responseChoice = \<lparr>crc_Content = JNull, crc_ToolCalls = [], crc_FinishReason = []\<rparr>"

definition decode_responseChoice ::
  "'x json_env_scheme \<Rightarrow> (string \<times> json) list \<Rightarrow> chatResponseChoice \<Rightarrow> chatResponseChoice option" where
  "decode_responseChoice env kvs c =
     bind (each_field ''message'' (set_struct (\<lambda>fs (content, calls).
         bind (each_field ''content'' (set_any env) fs content) (\<lambda>t.
         bind (each_field ''tool_calls'' (set_list (set_struct decode_toolCall) no_toolCall) fs calls) (\<lambda>ts. Some (t, ts)))))
       kvs (crc_Content c, crc_ToolCalls c)) (\<lambda>(content, calls).
     bind (each_field ''finish_reason'' set_string kvs (crc_FinishReason c)) (\<lambda>reason.
       Some \<lparr>crc_Content = content, crc_ToolCalls = calls, crc_FinishReason = reason\<rparr>))"

record chatResponse =
  crp_ID :: string
  crp_Model :: string
  crp_Choices :: "chatResponseChoice list"
  crp_Usage :: openAIUsagePayload

definition decode_chatResponse :: "'x json_env_scheme \<Rightarrow> json \<Rightarrow> chatResponse option" where
  "decode_chatResponse env v = set_struct (\<lambda>kvs r.
     bind (each_field ''id'' set_string kvs (crp_ID r)) (\<lambda>i.
     bind (each_field ''model'' set_string kvs (crp_Model r)) (\<lambda>m.
     bind (each_field ''choices'' (set_list (set_struct (decode_responseChoice env)) no_responseChoice) kvs (crp_Choices r)) (\<lambda>cs.
     bind (each_field ''usage'' (set_struct decode_openAIUsage) kvs (crp_Usage r)) (\<lambda>u.
       Some \<lparr>crp_ID = i, crp_Model = m, crp_Choices = cs, crp_Usage = u\<rparr>)))))
     v \<lparr>crp_ID = [], crp_Model = [], crp_Choices = [], crp_Usage = no_openAIUsage\<rparr>"

definition choice_blocks :: "'x json_env_scheme \<Rightarrow> chatResponseChoice \<Rightarrow> anthropicContentBlock list" where
  "choice_blocks env c =
     (let t = trim_space (stringifyContentValue env (crc_Content c)) in
      (if t = [] then [] else [no_block\<lparr>acb_Type := ''text'', acb_Text := t\<rparr>]) @
      map (\<lambda>call. no_block\<lparr>acb_Type := ''tool_use'', acb_ID := otc_ID call, acb_Name := ofn_Name (otc_Function call),
        acb_Input := parseJSONOrString env (ofn_Arguments (otc_Function call))\<rparr>) (crc_ToolCalls c))"

text \<open>Only the first choice is converted.\<close>

definition anthropic_response :: "'x json_env_scheme \<Rightarrow> string \<Rightarrow> chatResponse \<Rightarrow> anthropicResponsePayload" where
  "anthropic_response env clientModel r =
     (let blocks = (case crp_Choices r of [] \<Rightarrow> [] | c # cs \<Rightarrow> choice_blocks env c) in
      \<lparr>arp_ID = (if crp_ID r = [] then ''msg_'' @ je_uuid env 0 else crp_ID r), arp_Type = ''message'', arp_Role = ''assistant'',
       arp_Model = (if trim_space clientModel = [] then crp_Model r else trim_space clientModel),
       arp_Content = (if blocks = [] then [no_block\<lparr>acb_Type := ''text''\<rparr>] else blocks),
       arp_StopReason = (case crp_Choices r of [] \<Rightarrow> ''end_turn'' | c # cs \<Rightarrow> mapOpenAIFinishReasonToAnthropic (crc_FinishReason c)),
       arp_Usage = \<lparr>au_InputTokens = oup_PromptTokens (crp_Usage r), au_OutputTokens = oup_CompletionTokens (crp_Usage r),
         au_CacheReadInputTokens = oup_PromptTokensDetails (crp_Usage r), au_CacheCreationTokens = 0\<rparr>\<rparr>)"

text \<open>The structs as the encoder writes them: fields in their order, those marked \<open>omitempty\<close> left out when empty.\<close>

definition omit_empty :: "string \<Rightarrow> string \<Rightarrow> (string \<times> json) list" where
  "omit_empty k s = (if s = [] then [] else [(k, JString s)])"

definition omit_nil :: "string \<Rightarrow> json \<Rightarrow> (string \<times> json) list" where
  "omit_nil k v = (if v = JNull then [] else [(k, v)])"

definition content_block_json :: "anthropicContentBlock \<Rightarrow> json" where
  "content_block_json b = JObject ([(''type'', JString (acb_Type b))] @ omit_empty ''text'' (acb_Text b) @
     omit_empty ''name'' (acb_Name b) @ omit_empty ''id'' (acb_ID b) @ omit_empty ''tool_use_id'' (acb_ToolUseID b) @
     omit_nil ''input'' (acb_Input b) @ omit_nil ''content'' (acb_Content b))"

definition usage_json :: "anthropicUsage \<Rightarrow> json" where
  "usage_json u = JObject [(''input_tokens'', jint (au_InputTokens u)), (''output_tokens'', jint (au_OutputTokens u)),
     (''cache_read_input_tokens'', jint (au_CacheReadInputTokens u)),
     (''cache_creation_input_tokens'', jint (au_CacheCreationTokens u))]"

definition response_json :: "anthropicResponsePayload \<Rightarrow> json" where
  "response_json r = JObject ([(''id'', JString (arp_ID r)), (''type'', JString (arp_Type r)), (''role'', JString (arp_Role r)),
     (''model'', JString (arp_Model r)), (''content'', JArray (map content_block_json (arp_Content r)))] @
     omit_empty ''stop_reason'' (arp_StopReason r) @ [(''usage'', usage_json (arp_Usage r))])"

definition adaptOpenAIResponseToAnthropic :: "'x json_env_scheme \<Rightarrow> string \<Rightarrow> string \<Rightarrow> conversion_error + string" where
  "adaptOpenAIResponseToAnthropic env respBody clientModel =
     and_then (or_error (Undecodable ''openai response'') (bind (je_parse env respBody) (decode_chatResponse env))) (\<lambda>r.
       or_error (Unencodable ''anthropic response'') (je_marshal env (response_json (anthropic_response env clientModel r))))"

section \<open>From Anthropic to chat completions\<close>

definition anthropicUsageToOpenAITokens :: "anthropicUsage \<Rightarrow> tokens" where
  "anthropicUsageToOpenAITokens u = tokenTriplet u"

definition anthropicBlocksToText :: "anthropicContentBlock list \<Rightarrow> string" where
  "anthropicBlocksToText blocks =
     join [newline] (map acb_Text (filter (\<lambda>b. acb_Type b = ''text'' \<and> trim_space (acb_Text b) \<noteq> []) blocks))"

definition anthropicBlocksToOpenAIToolCalls :: "'x json_env_scheme \<Rightarrow> anthropicContentBlock list \<Rightarrow> json list" where
  "anthropicBlocksToOpenAIToolCalls env blocks =
     concat (map (\<lambda>(i, b). if acb_Type b \<noteq> ''tool_use'' then []
       else [jobj [(''id'', JString (if trim_space (acb_ID b) = [] then ''tool_'' @ show_nat i else trim_space (acb_ID b))),
         (''type'', JString ''function''), (''function'', jobj [(''name'', JString (trim_space (acb_Name b))),
           (''arguments'', JString (compactJSONValue env (acb_Input b)))])]]) (enumerate 0 blocks))"

definition anthropicBlocksToOpenAIMessage :: "'x json_env_scheme \<Rightarrow> anthropicContentBlock list \<Rightarrow> json" where
  "anthropicBlocksToOpenAIMessage env blocks =
     (let t = anthropicBlocksToText blocks in
      assistant_message (if t = [] then JNull else JString t) (anthropicBlocksToOpenAIToolCalls env blocks))"

definition chat_response :: "'x json_env_scheme \<Rightarrow> anthropicResponsePayload \<Rightarrow> json" where
  "chat_response env r =
     (let (prompt, cached, completion) = anthropicUsageToOpenAITokens (arp_Usage r) in
      jobj ([(''id'', JString (arp_ID r)), (''object'', JString ''chat.completion''), (''created'', jint (je_now env)),
        (''model'', JString (arp_Model r)), (''choices'', JArray [jobj [(''index'', jint 0),
          (''message'', anthropicBlocksToOpenAIMessage env (arp_Content r)),
          (''finish_reason'', JString (mapAnthropicStopReason (arp_StopReason r)))]])] @
        (if 0 < prompt \<or> 0 < completion \<or> 0 < cached then [(''usage'', openAIUsageMap prompt cached completion)] else [])))"

definition adaptAnthropicResponseToOpenAI :: "'x json_env_scheme \<Rightarrow> string \<Rightarrow> conversion_error + string" where
  "adaptAnthropicResponseToOpenAI env respBody =
     and_then (or_error (Undecodable ''anthropic response'')
       (bind (je_parse env respBody) (\<lambda>v. set_struct (decode_response env) v no_response))) (\<lambda>r.
       or_error (Unencodable ''openai response'') (je_marshal env (chat_response env r)))"

section \<open>Errors\<close>

text \<open>The message and the type of an error in a chat completion response, inside of \<open>error\<close> or beside it.\<close>

definition decode_openAIError :: "'x json_env_scheme \<Rightarrow> json \<Rightarrow> ((string \<times> string \<times> json) \<times> string \<times> string) option" where
  "decode_openAIError env v = set_struct (\<lambda>kvs (err, message, ty).
     bind (each_field ''error'' (set_struct (\<lambda>fs (m, t, c).
         bind (each_field ''message'' set_string fs m) (\<lambda>m'.
         bind (each_field ''type'' set_string fs t) (\<lambda>t'.
         bind (each_field ''code'' (set_any env) fs c) (\<lambda>c'. Some (m', t', c')))))) kvs err) (\<lambda>err'.
     bind (each_field ''message'' set_string kvs message) (\<lambda>message'.
     bind (each_field ''type'' set_string kvs ty) (\<lambda>ty'.
       Some (err', message', ty'))))) v (([], [], JNull), [], [])"

definition adaptOpenAIErrorToAnthropic :: "'x json_env_scheme \<Rightarrow> string \<Rightarrow> string" where
  "adaptOpenAIErrorToAnthropic env respBody =
     (let ((m, t, c), message, ty) = (case bind (je_parse env respBody) (decode_openAIError env) of
            None \<Rightarrow> (([], [], JNull), [], []) | Some e \<Rightarrow> e);
          text1 = (if m \<noteq> [] then m else if message \<noteq> [] then message else trim_space respBody);
          errorMessage = (if text1 = [] then ''upstream request failed'' else text1);
          errorType = (if t \<noteq> [] then t else if ty \<noteq> [] then ty else ''api_error'')
      in case je_marshal env (jobj [(''type'', JString ''error''),
           (''error'', jobj [(''type'', JString errorType), (''message'', JString errorMessage)])]) of
          None \<Rightarrow> respBody | Some converted \<Rightarrow> converted)"

definition decode_anthropicError :: "'x json_env_scheme \<Rightarrow> json \<Rightarrow> (string \<times> string \<times> string \<times> json \<times> json) option" where
  "decode_anthropicError env v = set_struct (\<lambda>kvs (outer, err).
     bind (each_field ''type'' set_string kvs outer) (\<lambda>outer'.
     bind (each_field ''error'' (set_struct (\<lambda>fs (t, m, c, p).
         bind (each_field ''type'' set_string fs t) (\<lambda>t'.
         bind (each_field ''message'' set_string fs m) (\<lambda>m'.
         bind (each_field ''code'' (set_any env) fs c) (\<lambda>c'.
         bind (each_field ''param'' (set_any env) fs p) (\<lambda>p'. Some (t', m', c', p'))))))) kvs err) (\<lambda>err'.
       Some (outer', err')))) v ([], [], [], JNull, JNull)"

definition adaptAnthropicErrorToOpenAI :: "'x json_env_scheme \<Rightarrow> string \<Rightarrow> string" where
  "adaptAnthropicErrorToOpenAI env respBody =
     (if respBody = [] then ''{\"error\":{\"message\":\"upstream request failed\"}}''
      else case bind (je_parse env respBody) (decode_anthropicError env) of
          None \<Rightarrow> respBody
        | Some (outer, t, m, c, p) \<Rightarrow>
            (let message = (if trim_space m = [] then extractErrorMessage (je_parse env) respBody None else trim_space m) in
             case je_marshal env (jobj [(''error'', jobj [(''message'', JString message), (''type'', JString t),
                 (''code'', c), (''param'', p)])]) of
               None \<Rightarrow> respBody | Some converted \<Rightarrow> converted))"

section \<open>Reading back what was written\<close>

lemma digit_value_show: "d < 10 \<Longrightarrow> digit_value (char_of (48 + d :: nat)) = Some (int d)"
proof -
  assume "d < 10"
  then have "d \<in> {0,1,2,3,4,5,6,7,8,9}" by auto
  then show ?thesis by (elim insertE emptyE; hypsubst; code_simp)
qed

lemma parse_digits_append: "parse_digits (s @ t) acc = bind (parse_digits s acc) (parse_digits t)"
  by (induction s arbitrary: acc) (auto simp: bind_def split: option.splits)

lemma parse_show_nat: "parse_digits (show_nat n) 0 = Some (int n)"
proof (induction n rule: show_nat.induct)
  case (1 n)
  show ?case
  proof (cases "n < 10")
    case True
    then show ?thesis by (subst show_nat.simps) (simp add: digit_value_show)
  next
    case False
    have "10 * int (n div 10) + int (n mod 10) = int n"
      by (metis mult_div_mod_eq of_nat_add of_nat_mult of_nat_numeral)
    then show ?thesis using False
      by (subst show_nat.simps) (simp add: parse_digits_append 1 digit_value_show bind_def)
  qed
qed

lemma show_nat_nonempty [simp]: "show_nat n \<noteq> []"
  by (subst show_nat.simps) simp

lemma show_nat_digit: "hd (show_nat n) \<noteq> CHR ''-''"
proof (induction n rule: show_nat.induct)
  case (1 n)
  have "char_of (48 + n) \<noteq> CHR ''-''" if "n < 10"
    using digit_value_show [OF that] by (auto simp: digit_value_def Let_def)
  then show ?case using 1 by (subst show_nat.simps) (auto simp: hd_append)
qed

lemma parse_show_int:
  assumes "min_i64 \<le> i" "i \<le> max_i64"
  shows "parse_int64 (show_int i) = Some i"
proof (cases "i < 0")
  case True
  then show ?thesis using assms parse_show_nat [of "nat (- i)"] by (simp add: show_int_def parse_int64_def)
next
  case False
  obtain c cs where c: "show_nat (nat i) = c # cs" by (cases "show_nat (nat i)") simp_all
  then have "c \<noteq> CHR ''-''" using show_nat_digit [of "nat i"] by simp
  then show ?thesis using False assms parse_show_nat [of "nat i"] c by (simp add: show_int_def parse_int64_def)
qed

lemma each_field_append:
  "each_field name f (xs @ ys) acc = bind (each_field name f xs acc) (each_field name f ys)"
  by (induction name f xs acc rule: each_field.induct) (simp_all add: bind_def split: option.split)

lemma each_field_omit_empty:
  "each_field name f (omit_empty k s) acc = (if s = [] \<or> \<not> equal_fold k name then Some acc else f (JString s) acc)"
  by (simp add: omit_empty_def split: option.split)

lemma each_field_omit_nil:
  "each_field name f (omit_nil k v) acc = (if v = JNull \<or> \<not> equal_fold k name then Some acc else f v acc)"
  by (simp add: omit_nil_def split: option.split)

lemmas reading = each_field_append each_field_omit_empty each_field_omit_nil equal_fold_def to_lower_def lower_char_def
  set_string_def bind_def

text \<open>A block whose values of type \<open>any\<close> are as the decoder gives them, and a usage within 64 bits.\<close>

definition block_canonical :: "'x json_env_scheme \<Rightarrow> anthropicContentBlock \<Rightarrow> bool" where
  "block_canonical env b = (as_any (je_float env) (acb_Input b) = Some (acb_Input b) \<and>
     as_any (je_float env) (acb_Content b) = Some (acb_Content b))"

definition in_i64 :: "int \<Rightarrow> bool" where "in_i64 i = (min_i64 \<le> i \<and> i \<le> max_i64)"

definition usage_in_range :: "anthropicUsage \<Rightarrow> bool" where
  "usage_in_range u = (in_i64 (au_InputTokens u) \<and> in_i64 (au_OutputTokens u) \<and> in_i64 (au_CacheReadInputTokens u) \<and>
     in_i64 (au_CacheCreationTokens u))"

lemma content_block_read:
  assumes "block_canonical env b"
  shows "set_struct (decode_block env) (content_block_json b) no_block = Some b"
  using assms
  by (simp add: content_block_json_def set_struct_def decode_block_def reading no_block_def set_any_def block_canonical_def)

lemma content_read:
  assumes "\<forall>b \<in> set bs. block_canonical env b"
  shows "decode_all (\<lambda>x. set_struct (decode_block env) x no_block) (map content_block_json bs) = Some bs"
  using assms by (induction bs) (simp_all add: content_block_read)

lemma set_int64_jint: "in_i64 i \<Longrightarrow> set_int64 (jint i) old = Some i"
  by (simp add: set_int64_def jint_def parse_show_int in_i64_def)

lemma usage_read:
  assumes "usage_in_range u"
  shows "set_struct decode_anthropicUsage (usage_json u) old = Some u"
  using assms by (simp add: usage_json_def set_struct_def decode_anthropicUsage_def reading set_int64_jint usage_in_range_def)

lemma response_read:
  assumes "usage_in_range (arp_Usage r)" "\<forall>b \<in> set (arp_Content r). block_canonical env b"
  shows "set_struct (decode_response env) (response_json r) no_response = Some r"
proof -
  obtain i ty role m bs reason u where r: "r = \<lparr>arp_ID = i, arp_Type = ty, arp_Role = role, arp_Model = m, arp_Content = bs,
      arp_StopReason = reason, arp_Usage = u\<rparr>" by (cases r) simp
  have "usage_in_range u" "\<forall>b \<in> set bs. block_canonical env b" using assms by (simp_all add: r)
  then show ?thesis
    by (simp add: r response_json_def set_struct_def [of "decode_response env"] decode_response_def reading no_response_def
        set_list_def content_read usage_read)
qed

section \<open>A response through both conversions\<close>

text \<open>A tool call as an upstream gives it: trimmed identifier and name, and arguments that are a JSON document.\<close>

definition call_faithful :: "'x json_env_scheme \<Rightarrow> openAIToolCall \<Rightarrow> bool" where
  "call_faithful env call = (otc_ID call \<noteq> [] \<and> trim_space (otc_ID call) = otc_ID call \<and>
     trim_space (ofn_Name (otc_Function call)) = ofn_Name (otc_Function call) \<and>
     (\<exists>v. codec_keeps env v \<and> je_marshal env v = Some (ofn_Arguments (otc_Function call))))"

definition call_json :: "openAIToolCall \<Rightarrow> json" where
  "call_json call = jobj [(''id'', JString (otc_ID call)), (''type'', JString ''function''),
     (''function'', jobj [(''name'', JString (ofn_Name (otc_Function call))), (''arguments'', JString (ofn_Arguments (otc_Function call)))])]"

definition call_block :: "'x json_env_scheme \<Rightarrow> openAIToolCall \<Rightarrow> anthropicContentBlock" where
  "call_block env call = no_block\<lparr>acb_Type := ''tool_use'', acb_ID := otc_ID call, acb_Name := ofn_Name (otc_Function call),
     acb_Input := parseJSONOrString env (ofn_Arguments (otc_Function call))\<rparr>"

lemma call_input:
  assumes "call_faithful env call"
  shows "compactJSONValue env (parseJSONOrString env (ofn_Arguments (otc_Function call))) = ofn_Arguments (otc_Function call) \<and>
    as_any (je_float env) (parseJSONOrString env (ofn_Arguments (otc_Function call))) =
      Some (parseJSONOrString env (ofn_Arguments (otc_Function call)))"
proof -
  obtain v where v: "codec_keeps env v" "je_marshal env v = Some (ofn_Arguments (otc_Function call))"
    using assms by (auto simp: call_faithful_def)
  then have "parseJSONOrString env (ofn_Arguments (otc_Function call)) = v"
    by (simp add: codec_keeps_def parseJSONOrString_def bind_def)
  moreover have "compactJSONValue env v = ofn_Arguments (otc_Function call)"
    using v by (cases v) (simp_all add: codec_keeps_def compactJSONValue_def)
  ultimately show ?thesis using v(1) by (simp add: codec_keeps_def)
qed

lemma calls_of_blocks:
  assumes "\<forall>call \<in> set calls. call_faithful env call"
  shows "concat (map (\<lambda>(i, b). if acb_Type b \<noteq> ''tool_use'' then []
      else [jobj [(''id'', JString (if trim_space (acb_ID b) = [] then ''tool_'' @ show_nat i else trim_space (acb_ID b))),
        (''type'', JString ''function''), (''function'', jobj [(''name'', JString (trim_space (acb_Name b))),
          (''arguments'', JString (compactJSONValue env (acb_Input b)))])]]) (enumerate k (map (call_block env) calls))) =
    map call_json calls"
  using assms
proof (induction calls arbitrary: k)
  case (Cons call calls)
  have f: "call_faithful env call" using Cons.prems by simp
  show ?case using Cons call_input [OF f] f by (simp add: call_block_def call_json_def call_faithful_def)
qed simp

lemma no_calls_of_text: "anthropicBlocksToOpenAIToolCalls env (no_block\<lparr>acb_Type := ''text'', acb_Text := t\<rparr> # bs) =
    concat (map (\<lambda>(i, b). if acb_Type b \<noteq> ''tool_use'' then []
      else [jobj [(''id'', JString (if trim_space (acb_ID b) = [] then ''tool_'' @ show_nat i else trim_space (acb_ID b))),
        (''type'', JString ''function''), (''function'', jobj [(''name'', JString (trim_space (acb_Name b))),
          (''arguments'', JString (compactJSONValue env (acb_Input b)))])]]) (enumerate 1 bs))"
  by (simp add: anthropicBlocksToOpenAIToolCalls_def)

lemma text_of_calls: "filter (\<lambda>b. acb_Type b = ''text'' \<and> P b) (map (call_block env) calls) = []"
  by (induction calls) (simp_all add: call_block_def)

lemma message_round_trip:
  assumes calls: "\<forall>call \<in> set (crc_ToolCalls c). call_faithful env call"
  defines "t \<equiv> trim_space (stringifyContentValue env (crc_Content c))"
  shows "anthropicBlocksToOpenAIMessage env
      (if choice_blocks env c = [] then [no_block\<lparr>acb_Type := ''text''\<rparr>] else choice_blocks env c) =
    assistant_message (if t = [] then JNull else JString t) (map call_json (crc_ToolCalls c))"
proof -
  have blocks: "choice_blocks env c = (if t = [] then [] else [no_block\<lparr>acb_Type := ''text'', acb_Text := t\<rparr>]) @
      map (call_block env) (crc_ToolCalls c)"
    by (simp add: choice_blocks_def t_def call_block_def [abs_def] Let_def)
  have empty: "anthropicBlocksToOpenAIMessage env [no_block\<lparr>acb_Type := ''text''\<rparr>] = assistant_message JNull []"
    by (simp add: anthropicBlocksToOpenAIMessage_def anthropicBlocksToText_def anthropicBlocksToOpenAIToolCalls_def no_block_def)
  have idem: "trim_space t = t" by (simp add: t_def)
  show ?thesis
  proof (cases "t = []")
    case True
    then show ?thesis
    proof (cases "crc_ToolCalls c = []")
      case True
      have "choice_blocks env c = []" using True \<open>t = []\<close> by (simp add: blocks)
      then show ?thesis using True \<open>t = []\<close> empty by simp
    next
      case False
      then show ?thesis using \<open>t = []\<close> calls_of_blocks [OF calls, of 0]
        by (simp add: blocks anthropicBlocksToOpenAIMessage_def anthropicBlocksToOpenAIToolCalls_def anthropicBlocksToText_def text_of_calls)
    qed
  next
    case False
    then show ?thesis using calls_of_blocks [OF calls, of 1] idem
      by (simp add: blocks anthropicBlocksToOpenAIMessage_def no_calls_of_text anthropicBlocksToText_def text_of_calls)
  qed
qed

lemma each_field_keeps:
  assumes "each_field name f kvs a = Some b" "P a" "\<And>v x y. f v x = Some y \<Longrightarrow> P x \<Longrightarrow> P y"
  shows "P b"
  using assms(1,2)
proof (induction kvs arbitrary: a)
  case (Cons kv kvs)
  obtain k v where kv: "kv = (k, v)" by (cases kv)
  show ?case
  proof (cases "equal_fold k name")
    case True
    then obtain x where x: "f v a = Some x" "each_field name f kvs x = Some b"
      using Cons.prems(1) by (auto simp: kv split: option.splits)
    show ?thesis by (rule Cons.IH [OF x(2) assms(3) [OF x(1) Cons.prems(2)]])
  next
    case False
    then show ?thesis using Cons.IH Cons.prems by (simp add: kv)
  qed
qed simp

lemma set_struct_keeps:
  assumes "set_struct f v a = Some b" "P a" "\<And>kvs x y. f kvs x = Some y \<Longrightarrow> P x \<Longrightarrow> P y"
  shows "P b"
  using assms by (auto simp: set_struct_def split: json.splits)

lemma set_int64_range: "set_int64 v a = Some b \<Longrightarrow> in_i64 a \<Longrightarrow> in_i64 b"
  by (auto simp: set_int64_def in_i64_def dest: parse_int64_range split: json.splits)

definition openAIUsage_in_range :: "openAIUsagePayload \<Rightarrow> bool" where
  "openAIUsage_in_range u = (in_i64 (oup_PromptTokens u) \<and> in_i64 (oup_CompletionTokens u) \<and> in_i64 (oup_PromptTokensDetails u))"

lemma decode_usage_range: "decode_openAIUsage kvs u = Some u' \<Longrightarrow> openAIUsage_in_range u \<Longrightarrow> openAIUsage_in_range u'"
proof -
  have cached: "cached_tokens v a = Some b \<Longrightarrow> in_i64 a \<Longrightarrow> in_i64 b" for v a b
    unfolding cached_tokens_def by (erule set_struct_keeps) (auto elim!: each_field_keeps dest: set_int64_range)
  have int: "each_field name set_int64 kvs a = Some b \<Longrightarrow> in_i64 a \<Longrightarrow> in_i64 b" for name a b
    by (erule each_field_keeps) (auto dest: set_int64_range)
  have det: "each_field name cached_tokens kvs a = Some b \<Longrightarrow> in_i64 a \<Longrightarrow> in_i64 b" for name a b
    by (erule each_field_keeps) (auto dest: cached)
  assume "decode_openAIUsage kvs u = Some u'" "openAIUsage_in_range u"
  then show ?thesis
    by (auto simp: decode_openAIUsage_def openAIUsage_in_range_def bind_def split: option.splits dest: int det)
qed

lemma decode_chatResponse_range:
  assumes "decode_chatResponse env v = Some r"
  shows "openAIUsage_in_range (crp_Usage r)"
proof -
  have usage: "each_field ''usage'' (set_struct decode_openAIUsage) kvs a = Some b \<Longrightarrow> openAIUsage_in_range a \<Longrightarrow> openAIUsage_in_range b"
    for kvs a b
    by (erule each_field_keeps) (auto elim!: set_struct_keeps dest: decode_usage_range)
  show ?thesis
    by (rule set_struct_keeps [OF assms [unfolded decode_chatResponse_def], of "\<lambda>r. openAIUsage_in_range (crp_Usage r)"])
      (auto simp: no_openAIUsage_def openAIUsage_in_range_def [of "\<lparr>oup_PromptTokens = 0, oup_CompletionTokens = 0, oup_TotalTokens = 0, oup_PromptTokensDetails = 0, oup_InputTokensDetails = 0\<rparr>"]
        in_i64_def min_i64_def max_i64_def bind_def split: option.splits dest: usage)
qed

text \<open>The response to a client that speaks chat completions, as its choices and its usage show it.\<close>

definition chat_choice :: "json \<Rightarrow> json" where
  "chat_choice v = (case field ''choices'' v of JArray (c # cs) \<Rightarrow> c | _ \<Rightarrow> JNull)"


definition demo_answer :: json where
  "demo_answer = JObject [(''id'', JString ''x''), (''choices'', JArray [JObject [(''message'', JObject [(''content'', JString ''a''),
     (''tool_calls'', JArray [JObject [(''id'', JString ''i''), (''function'', JObject [(''name'', JString ''f''), (''arguments'', JString ''7'')])]])]),
     (''finish_reason'', JString ''tool_calls'')]])]"

definition demo_converted :: json where
  "demo_converted = JObject [(''id'', JString ''x''), (''type'', JString ''message''), (''role'', JString ''assistant''), (''model'', JString ''m''),
     (''content'', JArray [JObject [(''type'', JString ''text''), (''text'', JString ''a'')],
        JObject [(''type'', JString ''tool_use''), (''name'', JString ''f''), (''id'', JString ''i''), (''input'', JNumber ''7'')]]),
     (''stop_reason'', JString ''tool_use''), (''usage'', JObject [(''input_tokens'', JNumber ''0''), (''output_tokens'', JNumber ''0''),
        (''cache_read_input_tokens'', JNumber ''0''), (''cache_creation_input_tokens'', JNumber ''0'')])]"

definition demo_codec_env :: json_env where
  "demo_codec_env = \<lparr>je_parse = (\<lambda>s. if s = ''b'' then Some demo_answer else if s = ''o'' then Some demo_converted
       else if s = ''7'' then Some (JNumber ''7'') else None),
     je_marshal = (\<lambda>v. if v = JNumber ''7'' then Some ''7'' else Some ''o''), je_float = Some, je_sprint = (\<lambda>v. []),
     je_uuid = (\<lambda>n. ''1''), je_now = 7\<rparr>"


text \<open>
  The tokens of a response do not survive: a chat completion counts the cached tokens among the prompt
  tokens, the Anthropic usage beside them, and the conversion copies both.
\<close>

lemma cached_tokens_counted_twice:
  assumes "0 \<le> oup_PromptTokensDetails (crp_Usage r)" "0 \<le> oup_PromptTokens (crp_Usage r)"
    "oup_PromptTokens (crp_Usage r) + oup_PromptTokensDetails (crp_Usage r) \<le> max_i64"
  shows "anthropicUsageToOpenAITokens (arp_Usage (anthropic_response env model r)) =
    (oup_PromptTokens (crp_Usage r) + oup_PromptTokensDetails (crp_Usage r), oup_PromptTokensDetails (crp_Usage r),
     oup_CompletionTokens (crp_Usage r))"
  using assms by (simp add: anthropicUsageToOpenAITokens_def tokenTriplet_def anthropic_response_def Let_def i64_id min_i64_def)

text \<open>
  A response with no content gets an empty text block; \<open>omitempty\<close> leaves its text out, with which it is no
  longer a text block of the Anthropic API.
\<close>

lemma empty_answer_without_text:
  assumes "crp_Choices r = []"
  shows "arp_Content (anthropic_response env model r) = [no_block\<lparr>acb_Type := ''text''\<rparr>] \<and>
    content_block_json (no_block\<lparr>acb_Type := ''text''\<rparr>) = JObject [(''type'', JString ''text'')]"
  using assms by (simp add: anthropic_response_def Let_def content_block_json_def omit_empty_def omit_nil_def no_block_def)

end
