(* ===== verification/Stream_To_Responses.thy ===== *)
theory Stream_To_Responses
  imports Protocol_Data
begin

text \<open>
  The bridge from a stream of chat completion chunks to the events of the Responses API
  (\<open>bridgeChatStreamToResponses\<close> in \<open>internal/gateway/api/compat.go\<close>), with the functions it shares with
  the conversion of whole responses: identifiers and kinds of tool items, and the input of custom
  tools that were sent to the upstream as functions.
\<close>

section \<open>Tool items\<close>

definition normalizeChatToolCallKind :: "string \<Rightarrow> string" where
  "normalizeChatToolCallKind kind =
     (let k = to_lower (trim_space kind) in
      if k = ''custom'' then ''custom'' else if k = ''function'' \<or> k = [] then ''function'' else [])"

definition responsesToolItemIDPrefix :: "string \<Rightarrow> string" where
  "responsesToolItemIDPrefix kind = (if kind = ''custom'' then ''ctc'' else ''fc'')"

definition trim_prefix :: "string \<Rightarrow> string \<Rightarrow> string" where
  "trim_prefix p s = (if prefix p s then drop (length p) s else s)"

text \<open>The second result is whether the identifier was made from the UUID.\<close>

definition responsesToolItemID :: "string \<Rightarrow> string \<Rightarrow> string \<Rightarrow> string \<times> bool" where
  "responsesToolItemID uuid pre callID =
     (let suffix = trim_space callID in
      if suffix = [] then (pre @ ''_'' @ uuid, True)
      else let rest = fold trim_prefix [''call_'', ''fc_'', ''ctc_''] suffix
        in if trim_space rest = [] then (pre @ ''_'' @ uuid, True) else (pre @ ''_'' @ rest, False))"

definition stringifyResponsesToolInput :: "'x json_env_scheme \<Rightarrow> json \<Rightarrow> string" where
  "stringifyResponsesToolInput env v =
     (case v of JNull \<Rightarrow> [] | JString s \<Rightarrow> s
      | _ \<Rightarrow> (case je_marshal env v of None \<Rightarrow> sprint env v | Some data \<Rightarrow> data))"

definition extractCustomToolInputFromFunctionArguments :: "'x json_env_scheme \<Rightarrow> string \<Rightarrow> string" where
  "extractCustomToolInputFromFunctionArguments env arguments =
     (let trimmed = trim_space arguments in
      if trimmed = [] then []
      else case bind (je_parse env trimmed) (decode_map env) of
          Some payload \<Rightarrow> if has_field ''input'' payload then stringifyResponsesToolInput env (field ''input'' payload) else arguments
        | None \<Rightarrow> arguments)"

definition responsesUsageMap :: "int \<Rightarrow> int \<Rightarrow> int \<Rightarrow> int \<Rightarrow> json" where
  "responsesUsageMap inputTokens0 cachedInputTokens outputTokens totalTokens0 =
     (let inputTokens = (if inputTokens0 < cachedInputTokens then cachedInputTokens else inputTokens0);
          sum = i64 (inputTokens + outputTokens);
          totalTokens = (if totalTokens0 = 0 \<or> totalTokens0 < sum then sum else totalTokens0)
      in jobj ([(''input_tokens'', jint inputTokens), (''output_tokens'', jint outputTokens), (''total_tokens'', jint totalTokens)] @
        (if 0 < cachedInputTokens then [(''input_tokens_details'', jobj [(''cached_tokens'', jint cachedInputTokens)])] else [])))"

section \<open>The chunks of the upstream\<close>

record responsesToolDelta =
  rtd_Index :: goint
  rtd_ID :: string
  rtd_Type :: string
  rtd_Custom :: openAICustomToolCall
  rtd_Function :: openAIToolCallFunction

definition no_responsesToolDelta :: responsesToolDelta where
  "no_responsesToolDelta = \<lparr>rtd_Index = 0, rtd_ID = [], rtd_Type = [],
     rtd_Custom = \<lparr>octc_Name = [], octc_Input = []\<rparr>, rtd_Function = no_function\<rparr>"

definition decode_responsesToolDelta :: "(string \<times> json) list \<Rightarrow> responsesToolDelta \<Rightarrow> responsesToolDelta option" where
  "decode_responsesToolDelta kvs d =
     bind (each_field ''index'' set_int64 kvs (rtd_Index d)) (\<lambda>idx.
     bind (each_field ''id'' set_string kvs (rtd_ID d)) (\<lambda>i.
     bind (each_field ''type'' set_string kvs (rtd_Type d)) (\<lambda>ty.
     bind (each_field ''custom'' (set_struct decode_custom) kvs (rtd_Custom d)) (\<lambda>custom.
     bind (each_field ''function'' (set_struct decode_function) kvs (rtd_Function d)) (\<lambda>f.
       Some \<lparr>rtd_Index = idx, rtd_ID = i, rtd_Type = ty, rtd_Custom = custom, rtd_Function = f\<rparr>)))))"

record responsesChoice =
  rch_Content :: string
  rch_FunctionCall :: openAIToolCallFunction
  rch_ToolCalls :: "responsesToolDelta list"
  rch_FinishReason :: string

definition no_responsesChoice :: responsesChoice where
  "no_responsesChoice = \<lparr>rch_Content = [], rch_FunctionCall = no_function, rch_ToolCalls = [], rch_FinishReason = []\<rparr>"

definition decode_responsesChoice :: "(string \<times> json) list \<Rightarrow> responsesChoice \<Rightarrow> responsesChoice option" where
  "decode_responsesChoice kvs c =
     bind (each_field ''delta'' (set_struct (\<lambda>fs (content, call, tools).
         bind (each_field ''role'' set_string fs []) (\<lambda>role.
         bind (each_field ''content'' set_string fs content) (\<lambda>t.
         bind (each_field ''function_call'' (set_struct decode_function) fs call) (\<lambda>f.
         bind (each_field ''tool_calls'' (set_list (set_struct decode_responsesToolDelta) no_responsesToolDelta) fs tools) (\<lambda>ts.
           Some (t, f, ts)))))))
       kvs (rch_Content c, rch_FunctionCall c, rch_ToolCalls c)) (\<lambda>(content, call, tools).
     bind (each_field ''finish_reason'' set_string kvs (rch_FinishReason c)) (\<lambda>reason.
       Some \<lparr>rch_Content = content, rch_FunctionCall = call, rch_ToolCalls = tools, rch_FinishReason = reason\<rparr>))"

record responsesChunk =
  rck_ID :: string
  rck_Model :: string
  rck_Created :: int
  rck_Choices :: "responsesChoice list"
  rck_Usage :: openAIUsagePayload

definition decode_responsesChunk :: "json \<Rightarrow> responsesChunk option" where
  "decode_responsesChunk v = set_struct (\<lambda>kvs c.
     bind (each_field ''id'' set_string kvs (rck_ID c)) (\<lambda>i.
     bind (each_field ''model'' set_string kvs (rck_Model c)) (\<lambda>m.
     bind (each_field ''created'' set_int64 kvs (rck_Created c)) (\<lambda>created.
     bind (each_field ''choices'' (set_list (set_struct decode_responsesChoice) no_responsesChoice) kvs (rck_Choices c)) (\<lambda>choices.
     bind (each_field ''usage'' (set_struct decode_openAIUsage) kvs (rck_Usage c)) (\<lambda>usage.
       Some \<lparr>rck_ID = i, rck_Model = m, rck_Created = created, rck_Choices = choices, rck_Usage = usage\<rparr>))))))
     v \<lparr>rck_ID = [], rck_Model = [], rck_Created = 0, rck_Choices = [], rck_Usage = no_openAIUsage\<rparr>"

section \<open>State and events\<close>

record responsesStreamToolCallState =
  rtc_index :: goint
  rtc_outputIndex :: goint
  rtc_itemID :: string
  rtc_callID :: string
  rtc_kind :: string
  rtc_name :: string
  rtc_arguments :: string
  rtc_rawArguments :: string
  rtc_bridgedFunction :: bool
  rtc_added :: bool
  rtc_done :: bool

text \<open>The last field counts the UUIDs that were made.\<close>

record responsesStreamState =
  rss_model :: string
  rss_created :: int
  rss_customToolNames :: "string list"
  rss_promptTokens :: int
  rss_completionTokens :: int
  rss_cachedPromptTokens :: int
  rss_textStarted :: bool
  rss_textDone :: bool
  rss_text :: string
  rss_messageID :: string
  rss_messageOutputIndex :: goint
  rss_messageContentIndex :: goint
  rss_messageItemAdded :: bool
  rss_messagePartAdded :: bool
  rss_toolCalls :: "(goint \<times> responsesStreamToolCallState) list"
  rss_toolOutputBase :: goint
  rss_responseID :: string
  rss_finishReason :: string
  rss_usageEmitted :: bool
  rss_createdEventEmitted :: bool
  rss_inProgressEventEmitted :: bool
  rss_uuids :: nat

text \<open>An event carries what its JSON shows; the position of the message is its output and content index.\<close>

record final_response =
  fr_id :: string
  fr_created :: int
  fr_model :: string
  fr_message :: "(string \<times> string) option"
  fr_tools :: "responsesStreamToolCallState list"
  fr_promptTokens :: int
  fr_cachedPromptTokens :: int
  fr_completionTokens :: int

datatype responses_event =
    RE_Created string int string
  | RE_InProgress string int string
  | RE_MessageAdded string goint
  | RE_PartAdded string goint goint
  | RE_TextDelta string goint goint string
  | RE_TextDone string goint goint string
  | RE_PartDone string goint goint string
  | RE_MessageDone string goint string
  | RE_ToolAdded responsesStreamToolCallState
  | RE_ToolDelta responsesStreamToolCallState string
  | RE_ToolInputDone responsesStreamToolCallState
  | RE_ToolDone responsesStreamToolCallState
  | RE_Completed final_response

definition responsesItemType :: "responsesStreamToolCallState \<Rightarrow> string" where
  "responsesItemType c = (if rtc_kind c = ''custom'' then ''custom_tool_call'' else ''function_call'')"

definition inputFieldName :: "responsesStreamToolCallState \<Rightarrow> string" where
  "inputFieldName c = (if rtc_kind c = ''custom'' then ''input'' else ''arguments'')"

definition inputDeltaEventType :: "responsesStreamToolCallState \<Rightarrow> string" where
  "inputDeltaEventType c = (if rtc_kind c = ''custom'' then ''response.custom_tool_call_input.delta''
     else ''response.function_call_arguments.delta'')"

definition inputDoneEventType :: "responsesStreamToolCallState \<Rightarrow> string" where
  "inputDoneEventType c = (if rtc_kind c = ''custom'' then ''response.custom_tool_call_input.done''
     else ''response.function_call_arguments.done'')"

definition inProgressResponsesItem :: "responsesStreamToolCallState \<Rightarrow> json" where
  "inProgressResponsesItem c = jobj [(''id'', JString (rtc_itemID c)), (''type'', JString (responsesItemType c)),
     (''status'', JString ''in_progress''), (''call_id'', JString (rtc_callID c)), (''name'', JString (rtc_name c)),
     (inputFieldName c, JString [])]"

definition finalizeBridgedCustomInput :: "'x json_env_scheme \<Rightarrow> responsesStreamToolCallState \<Rightarrow> string \<times> responsesStreamToolCallState" where
  "finalizeBridgedCustomInput env c =
     (if \<not> rtc_bridgedFunction c then ([], c)
      else let input = extractCustomToolInputFromFunctionArguments env (rtc_rawArguments c)
        in if input = rtc_arguments c then ([], c) else (input, c\<lparr>rtc_arguments := input\<rparr>))"

text \<open>The item of a completed call; completing it finalises its input first.\<close>

definition completed_item :: "responsesStreamToolCallState \<Rightarrow> json" where
  "completed_item c = jobj [(''id'', JString (rtc_itemID c)), (''type'', JString (responsesItemType c)),
     (''status'', JString ''completed''), (''call_id'', JString (rtc_callID c)), (''name'', JString (rtc_name c)),
     (inputFieldName c, JString (rtc_arguments c))]"

definition completedResponsesItem :: "'x json_env_scheme \<Rightarrow> responsesStreamToolCallState \<Rightarrow> responsesStreamToolCallState" where
  "completedResponsesItem env c = snd (finalizeBridgedCustomInput env c)"

definition text_part :: "string \<Rightarrow> json" where
  "text_part t = jobj [(''type'', JString ''output_text''), (''text'', JString t), (''annotations'', JArray [])]"

definition message_item :: "string \<Rightarrow> string \<Rightarrow> json" where
  "message_item i t = jobj [(''id'', JString i), (''type'', JString ''message''), (''status'', JString ''completed''),
     (''role'', JString ''assistant''), (''content'', JArray [text_part t])]"

definition in_progress_response :: "string \<Rightarrow> int \<Rightarrow> string \<Rightarrow> json" where
  "in_progress_response i created m = jobj [(''id'', JString i), (''object'', JString ''response''),
     (''created_at'', jint created), (''status'', JString ''in_progress''), (''model'', JString m),
     (''output'', JArray []), (''usage'', JNull)]"

definition final_response_json :: "final_response \<Rightarrow> json" where
  "final_response_json r = jobj [(''id'', JString (fr_id r)), (''object'', JString ''response''),
     (''created_at'', jint (fr_created r)), (''model'', JString (fr_model r)), (''status'', JString ''completed''),
     (''output'', JArray ((case fr_message r of None \<Rightarrow> [] | Some (i, t) \<Rightarrow> [message_item i t]) @ map completed_item (fr_tools r))),
     (''usage'', responsesUsageMap (fr_promptTokens r) (fr_cachedPromptTokens r) (fr_completionTokens r) 0)]"

definition position :: "string \<Rightarrow> goint \<Rightarrow> goint \<Rightarrow> (string \<times> json) list" where
  "position i out content = [(''item_id'', JString i), (''output_index'', jint out), (''content_index'', jint content)]"

definition call_position :: "responsesStreamToolCallState \<Rightarrow> (string \<times> json) list" where
  "call_position c = [(''item_id'', JString (rtc_itemID c)), (''output_index'', jint (rtc_outputIndex c)),
     (''call_id'', JString (rtc_callID c))]"

fun responses_fields :: "responses_event \<Rightarrow> string \<times> (string \<times> json) list" where
  "responses_fields (RE_Created i n m) = (''response.created'', [(''response'', in_progress_response i n m)])"
| "responses_fields (RE_InProgress i n m) = (''response.in_progress'', [(''response'', in_progress_response i n m)])"
| "responses_fields (RE_MessageAdded i out) = (''response.output_item.added'', [(''output_index'', jint out),
     (''item'', jobj [(''id'', JString i), (''type'', JString ''message''), (''status'', JString ''in_progress''),
       (''role'', JString ''assistant''), (''content'', JArray [])])])"
| "responses_fields (RE_PartAdded i out k) = (''response.content_part.added'', position i out k @ [(''part'', text_part [])])"
| "responses_fields (RE_TextDelta i out k t) = (''response.output_text.delta'', position i out k @ [(''delta'', JString t)])"
| "responses_fields (RE_TextDone i out k t) = (''response.output_text.done'', position i out k @ [(''text'', JString t)])"
| "responses_fields (RE_PartDone i out k t) = (''response.content_part.done'', position i out k @ [(''part'', text_part t)])"
| "responses_fields (RE_MessageDone i out t) = (''response.output_item.done'',
     [(''output_index'', jint out), (''item'', message_item i t)])"
| "responses_fields (RE_ToolAdded c) = (''response.output_item.added'',
     [(''output_index'', jint (rtc_outputIndex c)), (''item'', inProgressResponsesItem c)])"
| "responses_fields (RE_ToolDelta c d) = (inputDeltaEventType c, call_position c @ [(''delta'', JString d)])"
| "responses_fields (RE_ToolInputDone c) = (inputDoneEventType c, call_position c @ [(inputFieldName c, JString (rtc_arguments c))])"
| "responses_fields (RE_ToolDone c) = (''response.output_item.done'',
     [(''output_index'', jint (rtc_outputIndex c)), (''item'', completed_item c)])"
| "responses_fields (RE_Completed r) = (''response.completed'', [(''response'', final_response_json r)])"

definition responses_json :: "responses_event \<Rightarrow> json" where
  "responses_json e = (let (ty, kvs) = responses_fields e in jobj ((''type'', JString ty) # kvs))"

section \<open>Identifiers\<close>

definition new_uuid :: "'x json_env_scheme \<Rightarrow> responsesStreamState \<Rightarrow> string \<times> responsesStreamState" where
  "new_uuid env st = (je_uuid env (rss_uuids st), st\<lparr>rss_uuids := Suc (rss_uuids st)\<rparr>)"

definition ensureResponseID :: "'x json_env_scheme \<Rightarrow> responsesStreamState \<Rightarrow> string \<times> responsesStreamState" where
  "ensureResponseID env st =
     (if trim_space (rss_responseID st) \<noteq> [] then (rss_responseID st, st)
      else let (u, st1) = new_uuid env st; i = ''resp_'' @ u in (i, st1\<lparr>rss_responseID := i\<rparr>))"

definition ensureMessageID :: "'x json_env_scheme \<Rightarrow> responsesStreamState \<Rightarrow> string \<times> responsesStreamState" where
  "ensureMessageID env st =
     (if trim_space (rss_messageID st) \<noteq> [] then (rss_messageID st, st)
      else let (respID, st1) = ensureResponseID env st in
        if prefix ''resp_'' respID \<and> 5 < length respID
        then let i = ''msg_'' @ trim_prefix ''resp_'' respID in (i, st1\<lparr>rss_messageID := i\<rparr>)
        else let (u, st2) = new_uuid env st1; i = ''msg_'' @ u in (i, st2\<lparr>rss_messageID := i\<rparr>))"

definition tool_item_id :: "'x json_env_scheme \<Rightarrow> string \<Rightarrow> string \<Rightarrow> responsesStreamState \<Rightarrow> string \<times> responsesStreamState" where
  "tool_item_id env kind callID st =
     (let (i, fresh) = responsesToolItemID (je_uuid env (rss_uuids st)) (responsesToolItemIDPrefix kind) callID
      in (i, if fresh then st\<lparr>rss_uuids := Suc (rss_uuids st)\<rparr> else st))"

section \<open>Text\<close>

definition ensureMessageStartedEvents :: "'x json_env_scheme \<Rightarrow> responsesStreamState \<Rightarrow> responses_event list \<times> responsesStreamState" where
  "ensureMessageStartedEvents env st =
     (if rss_messageItemAdded st then ([], st)
      else let (i, st1) = ensureMessageID env (st\<lparr>rss_messageItemAdded := True, rss_textStarted := True\<rparr>)
        in ([RE_MessageAdded i (rss_messageOutputIndex st1),
          RE_PartAdded i (rss_messageOutputIndex st1) (rss_messageContentIndex st1)], st1))"

definition finalizeTextEvents :: "'x json_env_scheme \<Rightarrow> responsesStreamState \<Rightarrow> responses_event list \<times> responsesStreamState" where
  "finalizeTextEvents env st =
     (if \<not> rss_textStarted st \<or> rss_textDone st then ([], st)
      else let (i, st1) = ensureMessageID env (st\<lparr>rss_textDone := True, rss_messagePartAdded := True\<rparr>);
               out = rss_messageOutputIndex st1; k = rss_messageContentIndex st1; t = rss_text st1
        in ([RE_TextDone i out k t, RE_PartDone i out k t, RE_MessageDone i out t], st1))"

definition text_delta_events :: "'x json_env_scheme \<Rightarrow> string \<Rightarrow> responsesStreamState \<Rightarrow> responses_event list \<times> responsesStreamState" where
  "text_delta_events env t st =
     (if t = [] then ([], st)
      else let (es, st1) = ensureMessageStartedEvents env st;
               (i, st2) = ensureMessageID env (st1\<lparr>rss_text := rss_text st1 @ t\<rparr>)
        in (es @ [RE_TextDelta i (rss_messageOutputIndex st2) (rss_messageContentIndex st2) t], st2))"

section \<open>Tool calls\<close>

definition set_call :: "responsesStreamToolCallState \<Rightarrow> goint \<Rightarrow> responsesStreamState \<Rightarrow> responsesStreamState" where
  "set_call c idx st = st\<lparr>rss_toolCalls := AList.update idx c (rss_toolCalls st)\<rparr>"

definition update_tool_call :: "'x json_env_scheme \<Rightarrow> string \<Rightarrow> string \<Rightarrow> string \<Rightarrow>
    responsesStreamToolCallState \<Rightarrow> responsesStreamState \<Rightarrow> responsesStreamToolCallState \<times> responsesStreamState" where
  "update_tool_call env tcID kind name c0 st =
     (let c1 = (if trim_space name \<noteq> [] then c0\<lparr>rtc_name := trim_space name\<rparr> else c0);
          c2 = (if trim_space tcID \<noteq> [] then c1\<lparr>rtc_callID := trim_space tcID\<rparr> else c1);
          normalizedKind = normalizeChatToolCallKind kind
      in if normalizedKind = [] \<or> (rtc_kind c2 = ''custom'' \<and> normalizedKind = ''function'' \<and> trim_space name = [])
         then (c2, st)
         else let (i, st1) = tool_item_id env normalizedKind (rtc_callID c2) st
           in (c2\<lparr>rtc_kind := normalizedKind, rtc_itemID := i\<rparr>, st1))"

definition new_tool_call :: "'x json_env_scheme \<Rightarrow> goint \<Rightarrow> string \<Rightarrow> string \<Rightarrow> string \<Rightarrow>
    responsesStreamState \<Rightarrow> responsesStreamToolCallState \<times> responsesStreamState" where
  "new_tool_call env idx tcID kind name st =
     (let (callID, st1) = (if trim_space tcID = [] then let (u, s) = new_uuid env st in (''call_'' @ u, s)
            else (trim_space tcID, st));
          normalizedKind = (if normalizeChatToolCallKind kind = [] then ''function'' else normalizeChatToolCallKind kind);
          (i, st2) = tool_item_id env normalizedKind callID st1;
          base = (if rss_messageItemAdded st then 1 else rss_toolOutputBase st)
      in (\<lparr>rtc_index = idx, rtc_outputIndex = i64 (base + idx), rtc_itemID = i, rtc_callID = callID, rtc_kind = normalizedKind,
           rtc_name = trim_space name, rtc_arguments = [], rtc_rawArguments = [], rtc_bridgedFunction = False,
           rtc_added = False, rtc_done = False\<rparr>, st2))"

definition responses_ensureToolCall :: "'x json_env_scheme \<Rightarrow> goint \<Rightarrow> string \<Rightarrow> string \<Rightarrow> string \<Rightarrow>
    responsesStreamState \<Rightarrow> responsesStreamToolCallState \<times> responsesStreamState" where
  "responses_ensureToolCall env idx tcID kind name st =
     (let (c, st1) = (case map_of (rss_toolCalls st) idx of
          Some c0 \<Rightarrow> update_tool_call env tcID kind name c0 st
        | None \<Rightarrow> new_tool_call env idx tcID kind name st)
      in (c, set_call c idx st1))"

text \<open>The kind, the name and the input of a delta, and whether it is a custom tool sent as a function.\<close>

definition classify_delta :: "string list \<Rightarrow> responsesToolDelta \<Rightarrow> string \<times> string \<times> string \<times> bool" where
  "classify_delta customNames d =
     (let kind = normalizeChatToolCallKind (rtd_Type d); name = ofn_Name (rtd_Function d) in
      if trim_space (octc_Name (rtd_Custom d)) \<noteq> [] \<or> kind = ''custom''
      then (''custom'', octc_Name (rtd_Custom d), octc_Input (rtd_Custom d), False)
      else if List.member customNames (trim_space name)
      then (''custom'', name, ofn_Arguments (rtd_Function d), True)
      else (kind, name, ofn_Arguments (rtd_Function d), False))"

definition tool_delta_events :: "'x json_env_scheme \<Rightarrow> responsesToolDelta \<Rightarrow> responsesStreamState \<Rightarrow>
    responses_event list \<times> responsesStreamState" where
  "tool_delta_events env d st =
     (let (kind, name, inputDelta, bridged) = classify_delta (rss_customToolNames st) d;
          (c0, st1) = responses_ensureToolCall env (rtd_Index d) (rtd_ID d) kind name st;
          c1 = c0\<lparr>rtc_bridgedFunction := rtc_bridgedFunction c0 \<or> bridged\<rparr>;
          c2 = c1\<lparr>rtc_added := True\<rparr>;
          added = (if rtc_added c1 then [] else [RE_ToolAdded c2]);
          idx = rtd_Index d
      in if inputDelta = [] then (added, set_call c2 idx st1)
         else if rtc_bridgedFunction c2
         then (added, set_call (c2\<lparr>rtc_rawArguments := rtc_rawArguments c2 @ inputDelta\<rparr>) idx st1)
         else let c3 = c2\<lparr>rtc_arguments := rtc_arguments c2 @ inputDelta\<rparr>
           in (added @ [RE_ToolDelta c3 inputDelta], set_call c3 idx st1))"

fun tool_deltas_events :: "'x json_env_scheme \<Rightarrow> responsesToolDelta list \<Rightarrow> responsesStreamState \<Rightarrow>
    responses_event list \<times> responsesStreamState" where
  "tool_deltas_events env [] st = ([], st)"
| "tool_deltas_events env (d # ds) st =
     (case tool_delta_events env d st of (es, st1) \<Rightarrow>
        (case tool_deltas_events env ds st1 of (es', st2) \<Rightarrow> (es @ es', st2)))"

definition orderedToolCalls :: "responsesStreamState \<Rightarrow> (goint \<times> responsesStreamToolCallState) list" where
  "orderedToolCalls st = sort_key fst (rss_toolCalls st)"

fun finalize_calls :: "'x json_env_scheme \<Rightarrow> (goint \<times> responsesStreamToolCallState) list \<Rightarrow> responsesStreamState \<Rightarrow>
    responses_event list \<times> responsesStreamState" where
  "finalize_calls env [] st = ([], st)"
| "finalize_calls env ((idx, c) # cs) st =
     (if rtc_done c then finalize_calls env cs st
      else case finalizeBridgedCustomInput env (c\<lparr>rtc_done := True\<rparr>) of
          (delta, c1) \<Rightarrow> (case finalize_calls env cs (set_call c1 idx st) of
            (es, st1) \<Rightarrow> ((if delta \<noteq> [] then [RE_ToolDelta c1 delta] else []) @ [RE_ToolInputDone c1, RE_ToolDone c1] @ es, st1)))"

definition finalizeToolCallEvents :: "'x json_env_scheme \<Rightarrow> responsesStreamState \<Rightarrow> responses_event list \<times> responsesStreamState" where
  "finalizeToolCallEvents env st = finalize_calls env (orderedToolCalls st) st"

section \<open>Chunks\<close>

definition started_events :: "'x json_env_scheme \<Rightarrow> responsesStreamState \<Rightarrow> responses_event list \<times> responsesStreamState" where
  "started_events env st =
     (let (es1, st1) = (if rss_createdEventEmitted st then ([], st)
            else let (i, s) = ensureResponseID env (st\<lparr>rss_createdEventEmitted := True\<rparr>)
              in ([RE_Created i (rss_created s) (rss_model s)], s));
          (es2, st2) = (if rss_inProgressEventEmitted st1 then ([], st1)
            else let (i, s) = ensureResponseID env (st1\<lparr>rss_inProgressEventEmitted := True\<rparr>)
              in ([RE_InProgress i (rss_created s) (rss_model s)], s))
      in (es1 @ es2, st2))"

definition choice_deltas :: "responsesChoice \<Rightarrow> responsesToolDelta list" where
  "choice_deltas c =
     (let f = rch_FunctionCall c in rch_ToolCalls c @
        (if trim_space (ofn_Name f) \<noteq> [] \<or> trim_space (ofn_Arguments f) \<noteq> []
         then [no_responsesToolDelta\<lparr>rtd_Type := ''function'', rtd_Function := f\<rparr>] else []))"

definition responses_choice :: "'x json_env_scheme \<Rightarrow> responsesChoice \<Rightarrow> responsesStreamState \<Rightarrow>
    responses_event list \<times> responsesStreamState" where
  "responses_choice env c st =
     (let (es1, st1) = text_delta_events env (rch_Content c) st;
          (es2, st2) = tool_deltas_events env (choice_deltas c) st1
      in if rch_FinishReason c = [] then (es1 @ es2, st2)
         else let (es3, st3) = finalizeTextEvents env (st2\<lparr>rss_finishReason := rch_FinishReason c\<rparr>);
                  (es4, st4) = finalizeToolCallEvents env st3
           in (es1 @ es2 @ es3 @ es4, st4))"

fun responses_choices :: "'x json_env_scheme \<Rightarrow> responsesChoice list \<Rightarrow> responsesStreamState \<Rightarrow>
    responses_event list \<times> responsesStreamState" where
  "responses_choices env [] st = ([], st)"
| "responses_choices env (c # cs) st =
     (case responses_choice env c st of (es, st1) \<Rightarrow>
        (case responses_choices env cs st1 of (es', st2) \<Rightarrow> (es @ es', st2)))"

definition take_responses_chunk :: "responsesChunk \<Rightarrow> responsesStreamState \<Rightarrow> responsesStreamState" where
  "take_responses_chunk c st =
     (let u = rck_Usage c; cached = openAIUsageCachedTokens u;
          prompt = (if 0 < oup_PromptTokens u then oup_PromptTokens u else rss_promptTokens st)
      in st\<lparr>rss_responseID := (if rck_ID c \<noteq> [] \<and> rss_responseID st = [] then ''resp_'' @ rck_ID c else rss_responseID st),
          rss_model := (if rck_Model c \<noteq> [] \<and> rss_model st = [] then rck_Model c else rss_model st),
          rss_created := (if 0 < rck_Created c then rck_Created c else rss_created st),
          rss_promptTokens := (if 0 < cached \<and> prompt < cached then cached else prompt),
          rss_completionTokens := (if 0 < oup_CompletionTokens u then oup_CompletionTokens u else rss_completionTokens st),
          rss_cachedPromptTokens := (if 0 < cached then cached else rss_cachedPromptTokens st)\<rparr>)"

definition responses_chunk_of :: "'x json_env_scheme \<Rightarrow> string \<Rightarrow> responsesChunk option" where
  "responses_chunk_of env data =
     (let trimmed = trim_space data in
      if trimmed = [] \<or> trimmed = ''[DONE]'' then None else bind (je_parse env trimmed) decode_responsesChunk)"

definition translateChatStreamEventToResponses :: "'x json_env_scheme \<Rightarrow> string \<Rightarrow> responsesStreamState \<Rightarrow>
    (responses_event list \<times> bool) \<times> responsesStreamState" where
  "translateChatStreamEventToResponses env data st =
     (if trim_space data = ''[DONE]'' then (([], True), st)
      else case responses_chunk_of env data of
          None \<Rightarrow> (([], False), st)
        | Some c \<Rightarrow>
            (let (es1, st1) = started_events env (take_responses_chunk c st);
                 (es2, st2) = responses_choices env (rck_Choices c) st1
             in ((es1 @ es2, False), st2)))"

section \<open>The bridge\<close>

fun final_items :: "'x json_env_scheme \<Rightarrow> (goint \<times> responsesStreamToolCallState) list \<Rightarrow> responsesStreamState \<Rightarrow>
    responsesStreamToolCallState list \<times> responsesStreamState" where
  "final_items env [] st = ([], st)"
| "final_items env ((idx, c) # cs) st =
     (let c' = completedResponsesItem env c in
      case final_items env cs (set_call c' idx st) of (items, st1) \<Rightarrow> (c' # items, st1))"

definition buildFinalResponse :: "'x json_env_scheme \<Rightarrow> responsesStreamState \<Rightarrow> final_response \<times> responsesStreamState" where
  "buildFinalResponse env st =
     (let (message, st1) = (if rss_textStarted st \<or> trim_space (rss_text st) \<noteq> []
            then let (i, s) = ensureMessageID env st in (Some (i, rss_text s), s) else (None, st));
          (tools, st2) = final_items env (orderedToolCalls st1) st1;
          (i, st3) = ensureResponseID env st2
      in (\<lparr>fr_id = i, fr_created = rss_created st3, fr_model = rss_model st3, fr_message = message, fr_tools = tools,
           fr_promptTokens = rss_promptTokens st3, fr_cachedPromptTokens = rss_cachedPromptTokens st3,
           fr_completionTokens = rss_completionTokens st3\<rparr>, st3))"

datatype responses_output = RO_Event responses_event | RO_Done

definition responses_completed :: "'x json_env_scheme \<Rightarrow> responsesStreamState \<Rightarrow> responses_output list \<times> responsesStreamState" where
  "responses_completed env st =
     (if rss_usageEmitted st then ([], st)
      else case buildFinalResponse env (st\<lparr>rss_usageEmitted := True\<rparr>) of
          (r, st1) \<Rightarrow> ([RO_Event (RE_Completed r), RO_Done], st1))"

definition to_responses_event :: "'x json_env_scheme \<Rightarrow> string \<Rightarrow> responsesStreamState \<Rightarrow> responses_output list \<times> responsesStreamState" where
  "to_responses_event env data st =
     (case translateChatStreamEventToResponses env data st of
        ((es, d), st1) \<Rightarrow>
          if d then (case responses_completed env st1 of (out, st2) \<Rightarrow> (map RO_Event es @ out, st2)) else (map RO_Event es, st1))"

fun emit_responses :: "'x json_env_scheme \<Rightarrow> responses_output \<Rightarrow> ResponseWriter \<Rightarrow> ResponseWriter" where
  "emit_responses env (RO_Event e) w = emit_event (je_marshal env) [] (responses_json e) w"
| "emit_responses env RO_Done w = write_all [''data: [DONE]'' @ [newline, newline]] w"

definition handle_chat_event :: "'x json_env_scheme \<Rightarrow> string \<Rightarrow>
    responsesStreamState \<times> ResponseWriter \<Rightarrow> responsesStreamState \<times> ResponseWriter" where
  "handle_chat_event env data = (\<lambda>(st, w).
     case to_responses_event env data st of (out, st') \<Rightarrow> (st', fold (emit_responses env) out w))"

definition finish_chat_stream :: "'x json_env_scheme \<Rightarrow>
    responsesStreamState \<times> ResponseWriter \<Rightarrow> responsesStreamState \<times> ResponseWriter" where
  "finish_chat_stream env = (\<lambda>(st, w). case responses_completed env st of (out, st') \<Rightarrow> (st', fold (emit_responses env) out w))"

definition fresh_responsesStream :: "'x json_env_scheme \<Rightarrow> string \<Rightarrow> string list \<Rightarrow> responsesStreamState" where
  "fresh_responsesStream env clientModel customNames = \<lparr>rss_model = trim_space clientModel, rss_created = je_now env,
     rss_customToolNames = customNames, rss_promptTokens = 0, rss_completionTokens = 0, rss_cachedPromptTokens = 0,
     rss_textStarted = False, rss_textDone = False, rss_text = [], rss_messageID = [], rss_messageOutputIndex = 0,
     rss_messageContentIndex = 0, rss_messageItemAdded = False, rss_messagePartAdded = False, rss_toolCalls = [],
     rss_toolOutputBase = 0, rss_responseID = [], rss_finishReason = [], rss_usageEmitted = False,
     rss_createdEventEmitted = False, rss_inProgressEventEmitted = False, rss_uuids = 0\<rparr>"

definition bridgeChatStreamToResponsesStarted ::
  "'x json_env_scheme \<Rightarrow> stream_body option \<Rightarrow> string \<Rightarrow> string list \<Rightarrow> ResponseWriter \<Rightarrow> tokens \<times> ResponseWriter" where
  "bridgeChatStreamToResponsesStarted env body clientModel customNames w =
     (case body of
        None \<Rightarrow> ((0, 0, 0), w)
      | Some b \<Rightarrow>
          (case bridge_loop (handle_chat_event env) (finish_chat_stream env) (sb_eof b) (sb_content b)
              ([], (fresh_responsesStream env clientModel customNames, w)) of
             (st, w') \<Rightarrow> ((rss_promptTokens st, rss_cachedPromptTokens st, rss_completionTokens st), w')))"

definition bridgeChatStreamToResponses ::
  "'x json_env_scheme \<Rightarrow> goint \<Rightarrow> stream_body option \<Rightarrow> string \<Rightarrow> string list \<Rightarrow> ResponseWriter \<Rightarrow> tokens \<times> ResponseWriter" where
  "bridgeChatStreamToResponses env statusCode body clientModel customNames w =
     bridgeChatStreamToResponsesStarted env body clientModel customNames (bridge_headers statusCode w)"

section \<open>What a client of the events knows\<close>

text \<open>
  A client that follows the events: how far the response has been opened, its identifier, the
  message and its text so far, and for each tool call its output index and its input so far. An event
  that does not fit is refused: a second announcement, a delta or an end of something that was not
  announced or that carries another identifier or index, an end whose text is not the text so far.
\<close>

record responses_view =
  rv_phase :: nat
  rv_id :: string
  rv_message :: "string option"
  rv_part :: bool
  rv_text :: string
  rv_textDone :: bool
  rv_tools :: "goint \<rightharpoonup> goint \<times> string"
  rv_closed :: "goint set"

definition fresh_responses_view :: responses_view where
  "fresh_responses_view = \<lparr>rv_phase = 0, rv_id = [], rv_message = None, rv_part = False, rv_text = [], rv_textDone = False,
     rv_tools = Map.empty, rv_closed = {}\<rparr>"

definition tool_known :: "responsesStreamToolCallState \<Rightarrow> responses_view \<Rightarrow> bool" where
  "tool_known c v = (rv_phase v = 2 \<and> rtc_index c \<notin> rv_closed v \<and>
     (case rv_tools v (rtc_index c) of None \<Rightarrow> False
      | Some (out, a) \<Rightarrow> rtc_outputIndex c = out \<and> (\<not> rtc_bridgedFunction c \<longrightarrow> rtc_arguments c = a)))"

definition text_known :: "string \<Rightarrow> goint \<Rightarrow> responses_view \<Rightarrow> bool" where
  "text_known i out v = (rv_phase v = 2 \<and> rv_message v = Some i \<and> rv_part v \<and> out = 0)"

fun view_responses_event :: "responses_event \<Rightarrow> responses_view \<Rightarrow> responses_view option" where
  "view_responses_event (RE_Created i n m) v = (if rv_phase v = 0 then Some (v\<lparr>rv_phase := 1, rv_id := i\<rparr>) else None)"
| "view_responses_event (RE_InProgress i n m) v = (if rv_phase v = 1 \<and> i = rv_id v then Some (v\<lparr>rv_phase := 2\<rparr>) else None)"
| "view_responses_event (RE_MessageAdded i out) v =
     (if rv_phase v = 2 \<and> rv_message v = None \<and> out = 0 then Some (v\<lparr>rv_message := Some i\<rparr>) else None)"
| "view_responses_event (RE_PartAdded i out k) v =
     (if rv_phase v = 2 \<and> rv_message v = Some i \<and> \<not> rv_part v \<and> out = 0 then Some (v\<lparr>rv_part := True\<rparr>) else None)"
| "view_responses_event (RE_TextDelta i out k t) v = (if text_known i out v then Some (v\<lparr>rv_text := rv_text v @ t\<rparr>) else None)"
| "view_responses_event (RE_TextDone i out k t) v =
     (if text_known i out v \<and> \<not> rv_textDone v \<and> t = rv_text v then Some (v\<lparr>rv_textDone := True\<rparr>) else None)"
| "view_responses_event (RE_PartDone i out k t) v = (if text_known i out v \<and> rv_textDone v \<and> t = rv_text v then Some v else None)"
| "view_responses_event (RE_MessageDone i out t) v = (if text_known i out v \<and> rv_textDone v \<and> t = rv_text v then Some v else None)"
| "view_responses_event (RE_ToolAdded c) v =
     (if rv_phase v = 2 \<and> rv_tools v (rtc_index c) = None
      then Some (v\<lparr>rv_tools := (rv_tools v)(rtc_index c \<mapsto> (rtc_outputIndex c, []))\<rparr>) else None)"
| "view_responses_event (RE_ToolDelta c d) v =
     (if rv_phase v \<noteq> 2 then None
      else case rv_tools v (rtc_index c) of None \<Rightarrow> None
       | Some (out, a) \<Rightarrow> if rtc_outputIndex c = out then Some (v\<lparr>rv_tools := (rv_tools v)(rtc_index c \<mapsto> (out, a @ d))\<rparr>) else None)"
| "view_responses_event (RE_ToolInputDone c) v = (if tool_known c v then Some v else None)"
| "view_responses_event (RE_ToolDone c) v = (if tool_known c v then Some (v\<lparr>rv_closed := insert (rtc_index c) (rv_closed v)\<rparr>) else None)"
| "view_responses_event (RE_Completed r) v = None"

fun view_responses :: "responses_event list \<Rightarrow> responses_view \<Rightarrow> responses_view option" where
  "view_responses [] v = Some v"
| "view_responses (e # es) v = (case view_responses_event e v of None \<Rightarrow> None | Some v' \<Rightarrow> view_responses es v')"

lemma view_responses_append:
  "view_responses (es @ es') v = (case view_responses es v of None \<Rightarrow> None | Some v' \<Rightarrow> view_responses es' v')"
  by (induction es arbitrary: v) (auto split: option.splits)

text \<open>The input that the tool deltas of the upstream carry for an index.\<close>

definition tool_input :: "string list \<Rightarrow> goint \<Rightarrow> responsesToolDelta list \<Rightarrow> string" where
  "tool_input customNames i ds =
     concat (map (\<lambda>d. if rtd_Index d = i then fst (snd (snd (classify_delta customNames d))) else []) ds)"

lemma tool_input_simps [simp]:
  "tool_input names i [] = []"
  "tool_input names i (ds @ [d]) = tool_input names i ds @
     (if rtd_Index d = i then fst (snd (snd (classify_delta names d))) else [])"
  by (simp_all add: tool_input_def)

text \<open>What the state of the bridge and the view have to do with each other.\<close>

definition call_agrees :: "string list \<Rightarrow> responsesToolDelta list \<Rightarrow> responses_view \<Rightarrow> goint \<Rightarrow>
    responsesStreamToolCallState \<Rightarrow> bool" where
  "call_agrees names ds v i c = (rtc_index c = i \<and> rtc_added c \<and> (rtc_done c \<longleftrightarrow> i \<in> rv_closed v) \<and>
     (\<exists>a. rv_tools v i = Some (rtc_outputIndex c, a) \<and>
       (\<not> rtc_bridgedFunction c \<longrightarrow> a = rtc_arguments c \<and> a = tool_input names i ds)))"

definition calls_agree :: "string list \<Rightarrow> responsesToolDelta list \<Rightarrow> responses_view \<Rightarrow>
    (goint \<times> responsesStreamToolCallState) list \<Rightarrow> bool" where
  "calls_agree names ds v calls = (distinct (map fst calls) \<and> rv_closed v \<subseteq> dom (map_of calls) \<and>
     (\<forall>i. case map_of calls i of None \<Rightarrow> rv_tools v i = None \<and> tool_input names i ds = []
        | Some c \<Rightarrow> call_agrees names ds v i c))"

definition message_agrees :: "responsesStreamState \<Rightarrow> responses_view \<Rightarrow> bool" where
  "message_agrees st v = (rss_textStarted st = rss_messageItemAdded st \<and> rv_part v = rss_messageItemAdded st \<and>
     rv_message v = (if rss_messageItemAdded st then Some (rss_messageID st) else None) \<and>
     (rss_messageItemAdded st \<longrightarrow> trim_space (rss_messageID st) \<noteq> []) \<and>
     rv_text v = rss_text st \<and> (rss_messageItemAdded st \<longleftrightarrow> rss_text st \<noteq> []) \<and>
     rv_textDone v = rss_textDone st \<and> rss_messageOutputIndex st = 0)"

definition opened :: "responsesStreamState \<Rightarrow> responses_view \<Rightarrow> bool" where
  "opened st v = (rss_createdEventEmitted st = (rv_phase v = 2) \<and> rss_inProgressEventEmitted st = (rv_phase v = 2) \<and>
     (rv_phase v = 0 \<or> rv_phase v = 2) \<and> (rv_phase v = 2 \<longrightarrow> rss_responseID st = rv_id v \<and> trim_space (rv_id v) \<noteq> []))"

definition responses_agrees :: "string list \<Rightarrow> responsesToolDelta list \<Rightarrow> responsesStreamState \<Rightarrow> responses_view \<Rightarrow> bool" where
  "responses_agrees names ds st v = (opened st v \<and> message_agrees st v \<and> calls_agree names ds v (rss_toolCalls st) \<and>
     rss_customToolNames st = names)"

section \<open>Identifiers\<close>

lemma msg_prefix_not_blank [simp]: "trim_space (''msg_'' @ x) \<noteq> []"
  by (rule trim_space_not_blank) (simp_all add: strip_done_iff space_runes_def)

lemma resp_prefix_not_blank [simp]: "trim_space (''resp_'' @ x) \<noteq> []"
  by (rule trim_space_not_blank) (simp_all add: strip_done_iff space_runes_def)

lemmas not_blank_simps [simp] = msg_prefix_not_blank [simplified] resp_prefix_not_blank [simplified]

text \<open>Making an identifier changes nothing but identifiers, and one that is there stays.\<close>

definition without_ids :: "responsesStreamState \<Rightarrow> responsesStreamState" where
  "without_ids st = st\<lparr>rss_responseID := [], rss_messageID := [], rss_uuids := 0\<rparr>"

definition only_ids :: "responsesStreamState \<Rightarrow> responsesStreamState \<Rightarrow> bool" where
  "only_ids st st' = (without_ids st' = without_ids st \<and>
     (trim_space (rss_responseID st) \<noteq> [] \<longrightarrow> rss_responseID st' = rss_responseID st) \<and>
     (trim_space (rss_messageID st) \<noteq> [] \<longrightarrow> rss_messageID st' = rss_messageID st))"

lemma without_ids_simps [simp]:
  "without_ids (st\<lparr>rss_uuids := n\<rparr>) = without_ids st"
  "without_ids (st\<lparr>rss_responseID := r\<rparr>) = without_ids st"
  "without_ids (st\<lparr>rss_messageID := r\<rparr>) = without_ids st"
  by (simp_all add: without_ids_def)

lemma only_ids_fields:
  assumes "only_ids st st'"
  shows "rss_model st' = rss_model st" "rss_created st' = rss_created st" "rss_customToolNames st' = rss_customToolNames st"
    "rss_promptTokens st' = rss_promptTokens st" "rss_completionTokens st' = rss_completionTokens st"
    "rss_cachedPromptTokens st' = rss_cachedPromptTokens st" "rss_textStarted st' = rss_textStarted st"
    "rss_textDone st' = rss_textDone st" "rss_text st' = rss_text st" "rss_messageOutputIndex st' = rss_messageOutputIndex st"
    "rss_messageContentIndex st' = rss_messageContentIndex st" "rss_messageItemAdded st' = rss_messageItemAdded st"
    "rss_toolCalls st' = rss_toolCalls st" "rss_toolOutputBase st' = rss_toolOutputBase st"
    "rss_usageEmitted st' = rss_usageEmitted st"
    "rss_createdEventEmitted st' = rss_createdEventEmitted st" "rss_inProgressEventEmitted st' = rss_inProgressEventEmitted st"
proof -
  have eq: "without_ids st' = without_ids st" using assms by (simp add: only_ids_def)
  note * = arg_cong [OF eq]
  show "rss_model st' = rss_model st" using * [of rss_model] by (simp add: without_ids_def)
  show "rss_created st' = rss_created st" using * [of rss_created] by (simp add: without_ids_def)
  show "rss_customToolNames st' = rss_customToolNames st" using * [of rss_customToolNames] by (simp add: without_ids_def)
  show "rss_promptTokens st' = rss_promptTokens st" using * [of rss_promptTokens] by (simp add: without_ids_def)
  show "rss_completionTokens st' = rss_completionTokens st" using * [of rss_completionTokens] by (simp add: without_ids_def)
  show "rss_cachedPromptTokens st' = rss_cachedPromptTokens st" using * [of rss_cachedPromptTokens] by (simp add: without_ids_def)
  show "rss_textStarted st' = rss_textStarted st" using * [of rss_textStarted] by (simp add: without_ids_def)
  show "rss_textDone st' = rss_textDone st" using * [of rss_textDone] by (simp add: without_ids_def)
  show "rss_text st' = rss_text st" using * [of rss_text] by (simp add: without_ids_def)
  show "rss_messageOutputIndex st' = rss_messageOutputIndex st" using * [of rss_messageOutputIndex] by (simp add: without_ids_def)
  show "rss_messageContentIndex st' = rss_messageContentIndex st" using * [of rss_messageContentIndex] by (simp add: without_ids_def)
  show "rss_messageItemAdded st' = rss_messageItemAdded st" using * [of rss_messageItemAdded] by (simp add: without_ids_def)
  show "rss_toolCalls st' = rss_toolCalls st" using * [of rss_toolCalls] by (simp add: without_ids_def)
  show "rss_toolOutputBase st' = rss_toolOutputBase st" using * [of rss_toolOutputBase] by (simp add: without_ids_def)
  show "rss_usageEmitted st' = rss_usageEmitted st" using * [of rss_usageEmitted] by (simp add: without_ids_def)
  show "rss_createdEventEmitted st' = rss_createdEventEmitted st" using * [of rss_createdEventEmitted] by (simp add: without_ids_def)
  show "rss_inProgressEventEmitted st' = rss_inProgressEventEmitted st"
    using * [of rss_inProgressEventEmitted] by (simp add: without_ids_def)
qed

lemma only_ids_refl [simp]: "only_ids st st" by (simp add: only_ids_def)

lemma only_ids_uuid [simp]: "only_ids st (st\<lparr>rss_uuids := n\<rparr>)" by (simp add: only_ids_def)

lemma ensureResponseID_facts:
  "ensureResponseID env st = (i, st') \<Longrightarrow> only_ids st st' \<and> i = rss_responseID st' \<and> trim_space i \<noteq> [] \<and>
    rss_messageID st' = rss_messageID st"
  by (auto simp: ensureResponseID_def new_uuid_def only_ids_def Let_def split: if_splits)

lemma ensureMessageID_facts:
  assumes "ensureMessageID env st = (i, st')"
  shows "only_ids st st' \<and> i = rss_messageID st' \<and> trim_space i \<noteq> []"
proof (cases "trim_space (rss_messageID st) = []")
  case True
  obtain r st1 where 1: "ensureResponseID env st = (r, st1)" by fastforce
  have "only_ids st st1" using ensureResponseID_facts [OF 1] by simp
  then show ?thesis using assms True 1
    by (auto simp: ensureMessageID_def new_uuid_def only_ids_def Let_def split: if_splits)
next
  case False
  then show ?thesis using assms by (auto simp: ensureMessageID_def)
qed

lemma only_ids_agrees:
  assumes "only_ids st st'" "responses_agrees names ds st v"
  shows "responses_agrees names ds st' v"
proof -
  have "opened st' v" using assms by (auto simp: responses_agrees_def opened_def only_ids_fields [OF assms(1)] only_ids_def)
  moreover have "message_agrees st' v" using assms
    by (auto simp: responses_agrees_def message_agrees_def only_ids_fields [OF assms(1)] only_ids_def)
  ultimately show ?thesis using assms(2) by (simp add: responses_agrees_def only_ids_fields [OF assms(1)])
qed

section \<open>Every step fits the view\<close>

text \<open>
  The events \<open>es\<close> take a client from \<open>v\<close> to a view that agrees with the state \<open>st\<close>; they bring the text
  \<open>t\<close>. \<open>ds\<close> are the tool deltas up to then, and \<open>u\<close> says whether the response has been completed.
\<close>

definition responses_pass :: "string list \<Rightarrow> bool \<Rightarrow> responses_event list \<Rightarrow> string \<Rightarrow> responsesToolDelta list \<Rightarrow>
    responsesStreamState \<Rightarrow> responses_view \<Rightarrow> bool" where
  "responses_pass names u es t ds st v = (\<exists>v'. view_responses es v = Some v' \<and> responses_agrees names ds st v' \<and>
     rv_phase v' = 2 \<and> rv_text v' = rv_text v @ t \<and> rss_usageEmitted st = u)"

lemma responses_pass_append:
  assumes "responses_pass names u es t ds st v"
    and "\<And>v'. responses_agrees names ds st v' \<Longrightarrow> rv_phase v' = 2 \<Longrightarrow> rss_usageEmitted st = u \<Longrightarrow>
      responses_pass names u es' t' ds' st' v'"
  shows "responses_pass names u (es @ es') (t @ t') ds' st' v"
proof -
  obtain v1 where 1: "view_responses es v = Some v1" "responses_agrees names ds st v1" "rv_phase v1 = 2"
      "rv_text v1 = rv_text v @ t" "rss_usageEmitted st = u"
    using assms(1) by (auto simp: responses_pass_def)
  then show ?thesis using assms(2) [OF 1(2,3,5)] by (auto simp: responses_pass_def view_responses_append)
qed

lemma responses_pass_Nil:
  "responses_agrees names ds st v \<Longrightarrow> rv_phase v = 2 \<Longrightarrow> rss_usageEmitted st = u \<Longrightarrow> responses_pass names u [] [] ds st v"
  by (simp add: responses_pass_def)

lemma calls_agree_view [simp]:
  "calls_agree names ds (v\<lparr>rv_phase := p\<rparr>) cs = calls_agree names ds v cs"
  "calls_agree names ds (v\<lparr>rv_id := i\<rparr>) cs = calls_agree names ds v cs"
  "calls_agree names ds (v\<lparr>rv_message := m\<rparr>) cs = calls_agree names ds v cs"
  "calls_agree names ds (v\<lparr>rv_part := b\<rparr>) cs = calls_agree names ds v cs"
  "calls_agree names ds (v\<lparr>rv_text := t\<rparr>) cs = calls_agree names ds v cs"
  "calls_agree names ds (v\<lparr>rv_textDone := b\<rparr>) cs = calls_agree names ds v cs"
  by (simp_all add: calls_agree_def call_agrees_def cong: option.case_cong)

lemma started_pass:
  assumes ev: "started_events env st = (es, st')" and ag: "responses_agrees names ds st v" and u: "rss_usageEmitted st = u"
  shows "responses_pass names u es [] ds st' v"
proof (cases "rv_phase v = 2")
  case True
  then have "es = []" "st' = st" using ev ag by (simp_all add: started_events_def responses_agrees_def opened_def)
  then show ?thesis using responses_pass_Nil [OF ag True u] by simp
next
  case False
  then have 0: "rv_phase v = 0" "\<not> rss_createdEventEmitted st" "\<not> rss_inProgressEventEmitted st"
    using ag by (auto simp: responses_agrees_def opened_def)
  obtain i s1 where 1: "ensureResponseID env (st\<lparr>rss_createdEventEmitted := True\<rparr>) = (i, s1)" by fastforce
  obtain j s2 where 2: "ensureResponseID env (s1\<lparr>rss_inProgressEventEmitted := True\<rparr>) = (j, s2)" by fastforce
  note f1 = ensureResponseID_facts [OF 1] and f2 = ensureResponseID_facts [OF 2]
  note k1 = only_ids_fields [OF f1 [THEN conjunct1]] and k2 = only_ids_fields [OF f2 [THEN conjunct1]]
  have same: "rss_responseID s2 = rss_responseID s1" using f1 f2 by (auto simp: only_ids_def)
  have idok: "trim_space (rss_responseID s1) \<noteq> []" using f1 by auto
  have es: "es = [RE_Created i (rss_created s1) (rss_model s1), RE_InProgress j (rss_created s2) (rss_model s2)]" "st' = s2"
    using ev 0 1 2 by (auto simp: started_events_def k1)
  have "message_agrees s2 v" using ag f1 f2 by (auto simp: responses_agrees_def message_agrees_def k1 k2)
  then show ?thesis using ag 0 f1 f2 same u idok
    by (simp add: responses_pass_def es responses_agrees_def opened_def message_agrees_def k1 k2)
qed

lemma message_started:
  assumes ev: "ensureMessageStartedEvents env st = (es, st')" and ag: "responses_agrees names ds st v" and ph: "rv_phase v = 2"
  shows "\<exists>v'. view_responses es v = Some v' \<and> rv_phase v' = 2 \<and> rv_text v' = rv_text v \<and> rv_message v' = Some (rss_messageID st') \<and> rv_part v' \<and>
    opened st' v' \<and> calls_agree names ds v' (rss_toolCalls st') \<and> rss_customToolNames st' = names \<and>
    rss_textStarted st' \<and> rss_messageItemAdded st' \<and> trim_space (rss_messageID st') \<noteq> [] \<and> rss_text st' = rss_text st \<and>
    rv_textDone v' = rss_textDone st' \<and> rss_messageOutputIndex st' = 0 \<and> rss_usageEmitted st' = rss_usageEmitted st"
proof (cases "rss_messageItemAdded st")
  case True
  then show ?thesis using ev ag ph by (simp add: ensureMessageStartedEvents_def responses_agrees_def message_agrees_def)
next
  case False
  obtain i s1 where 1: "ensureMessageID env (st\<lparr>rss_messageItemAdded := True, rss_textStarted := True\<rparr>) = (i, s1)" by fastforce
  note f = ensureMessageID_facts [OF 1] and k = only_ids_fields [OF ensureMessageID_facts [OF 1, THEN conjunct1]]
  have es: "es = [RE_MessageAdded i (rss_messageOutputIndex s1), RE_PartAdded i (rss_messageOutputIndex s1) (rss_messageContentIndex s1)]"
      "st' = s1"
    using ev 1 False by (auto simp: ensureMessageStartedEvents_def)
  have "opened s1 v" using ag f by (auto simp: responses_agrees_def opened_def only_ids_def k)
  moreover have "trim_space (rss_messageID s1) \<noteq> []" using f by auto
  ultimately show ?thesis using ag ph f False
    by (simp add: es responses_agrees_def message_agrees_def opened_def k)
qed

lemma text_delta_pass:
  assumes ev: "text_delta_events env t st = (es, st')" and ag: "responses_agrees names ds st v" and ph: "rv_phase v = 2"
    and u: "rss_usageEmitted st = u"
  shows "responses_pass names u es t ds st' v"
proof (cases "t = []")
  case True
  then show ?thesis using ev responses_pass_Nil [OF ag ph u] by (simp add: text_delta_events_def)
next
  case False
  obtain es1 s1 where 1: "ensureMessageStartedEvents env st = (es1, s1)" by fastforce
  obtain i s2 where 2: "ensureMessageID env (s1\<lparr>rss_text := rss_text s1 @ t\<rparr>) = (i, s2)" by fastforce
  note f = ensureMessageID_facts [OF 2] and k = only_ids_fields [OF ensureMessageID_facts [OF 2, THEN conjunct1]]
  have es: "es = es1 @ [RE_TextDelta i (rss_messageOutputIndex s2) (rss_messageContentIndex s2) t]" "st' = s2"
    using ev 1 2 False by (auto simp: text_delta_events_def)
  obtain v1 where v1: "view_responses es1 v = Some v1" "rv_phase v1 = 2" "rv_text v1 = rv_text v"
      "rv_message v1 = Some (rss_messageID s1)" "rv_part v1"
      "opened s1 v1" "calls_agree names ds v1 (rss_toolCalls s1)" "rss_customToolNames s1 = names"
      "rss_textStarted s1" "rss_messageItemAdded s1" "trim_space (rss_messageID s1) \<noteq> []" "rss_text s1 = rss_text st"
      "rv_textDone v1 = rss_textDone s1" "rss_messageOutputIndex s1 = 0" "rss_usageEmitted s1 = rss_usageEmitted st"
    using message_started [OF 1 ag ph] by blast
  have i: "i = rss_messageID s1" "rss_messageID s2 = rss_messageID s1" using f v1(11) by (simp_all add: only_ids_def)
  have "opened s2 v1" using v1(6) f by (auto simp: opened_def only_ids_def k)
  moreover have "rv_text v = rss_text st" using ag by (simp add: responses_agrees_def message_agrees_def)
  ultimately show ?thesis using v1 u False
    by (simp add: responses_pass_def es view_responses_append text_known_def responses_agrees_def message_agrees_def
        opened_def k i)
qed

lemma finalize_text_pass:
  assumes ev: "finalizeTextEvents env st = (es, st')" and ag: "responses_agrees names ds st v" and ph: "rv_phase v = 2"
    and u: "rss_usageEmitted st = u"
  shows "responses_pass names u es [] ds st' v"
proof (cases "\<not> rss_textStarted st \<or> rss_textDone st")
  case True
  then show ?thesis using ev responses_pass_Nil [OF ag ph u] by (simp add: finalizeTextEvents_def)
next
  case False
  obtain i s1 where 1: "ensureMessageID env (st\<lparr>rss_textDone := True, rss_messagePartAdded := True\<rparr>) = (i, s1)" by fastforce
  note f = ensureMessageID_facts [OF 1] and k = only_ids_fields [OF ensureMessageID_facts [OF 1, THEN conjunct1]]
  have es: "es = [RE_TextDone i (rss_messageOutputIndex s1) (rss_messageContentIndex s1) (rss_text s1),
      RE_PartDone i (rss_messageOutputIndex s1) (rss_messageContentIndex s1) (rss_text s1),
      RE_MessageDone i (rss_messageOutputIndex s1) (rss_text s1)]" "st' = s1"
    using ev 1 False by (auto simp: finalizeTextEvents_def Let_def)
  have "opened s1 v" "rss_messageID s1 = rss_messageID st"
    using ag f False by (auto simp: responses_agrees_def opened_def message_agrees_def only_ids_def k)
  then show ?thesis using ag ph f False u
    by (simp add: es responses_pass_def responses_agrees_def message_agrees_def opened_def text_known_def k)
qed

section \<open>Tool calls and the view\<close>

definition call_kept :: "goint \<Rightarrow> responsesStreamToolCallState option \<Rightarrow> responsesStreamToolCallState \<Rightarrow> bool" where
  "call_kept idx old c = (case old of
      None \<Rightarrow> rtc_index c = idx \<and> rtc_arguments c = [] \<and> \<not> rtc_bridgedFunction c \<and> \<not> rtc_added c \<and> \<not> rtc_done c
    | Some c0 \<Rightarrow> rtc_index c = rtc_index c0 \<and> rtc_outputIndex c = rtc_outputIndex c0 \<and> rtc_arguments c = rtc_arguments c0 \<and>
        rtc_bridgedFunction c = rtc_bridgedFunction c0 \<and> rtc_added c = rtc_added c0 \<and> rtc_done c = rtc_done c0)"

lemma tool_item_id_ids: "tool_item_id env kind callID st = (i, st') \<Longrightarrow> only_ids st st'"
  by (auto simp: tool_item_id_def split: prod.splits if_splits)

lemma only_ids_trans: "only_ids a b \<Longrightarrow> only_ids b c \<Longrightarrow> only_ids a c"
  by (auto simp: only_ids_def)

lemma update_tool_call_facts:
  "update_tool_call env tcID kind name c0 st = (c, st') \<Longrightarrow> only_ids st st' \<and> call_kept idx (Some c0) c"
  by (auto simp: update_tool_call_def call_kept_def Let_def split: if_splits prod.splits dest: tool_item_id_ids)

lemma new_tool_call_facts:
  assumes "new_tool_call env idx tcID kind name st = (c, st')"
  shows "only_ids st st' \<and> call_kept idx None c"
proof -
  obtain callID s1 where 1: "(if trim_space tcID = [] then let (u, s) = new_uuid env st in (''call_'' @ u, s)
      else (trim_space tcID, st)) = (callID, s1)" by fastforce
  have ids: "only_ids st s1" using 1 by (auto simp: new_uuid_def split: if_splits)
  obtain i s2 where 2: "tool_item_id env (if normalizeChatToolCallKind kind = [] then ''function''
      else normalizeChatToolCallKind kind) callID s1 = (i, s2)" by fastforce
  show ?thesis using assms only_ids_trans [OF ids tool_item_id_ids [OF 2]]
    by (auto simp: new_tool_call_def 1 2 call_kept_def Let_def)
qed

lemma ensure_call_facts:
  assumes "responses_ensureToolCall env idx tcID kind name st = (c, st')"
  shows "\<exists>s1. only_ids st s1 \<and> st' = set_call c idx s1 \<and> call_kept idx (map_of (rss_toolCalls st) idx) c"
proof (cases "map_of (rss_toolCalls st) idx")
  case None
  obtain c1 s1 where "new_tool_call env idx tcID kind name st = (c1, s1)" by fastforce
  then show ?thesis using assms None new_tool_call_facts by (fastforce simp: responses_ensureToolCall_def)
next
  case (Some c0)
  obtain c1 s1 where "update_tool_call env tcID kind name c0 st = (c1, s1)" by fastforce
  then show ?thesis using assms Some update_tool_call_facts by (fastforce simp: responses_ensureToolCall_def)
qed

lemma call_agrees_other:
  assumes "call_agrees names ds v j c" "j \<noteq> i" "rv_tools v' j = rv_tools v j" "j \<in> rv_closed v' \<longleftrightarrow> j \<in> rv_closed v"
    and "tool_input names j ds' = tool_input names j ds"
  shows "call_agrees names ds' v' j c"
  using assms by (simp add: call_agrees_def)

lemma calls_agree_update:
  assumes ag: "calls_agree names ds v cs" and c: "call_agrees names ds' v' i c"
    and tools: "\<And>j. j \<noteq> i \<Longrightarrow> rv_tools v' j = rv_tools v j"
    and closed: "rv_closed v' \<subseteq> insert i (rv_closed v)" "\<And>j. j \<noteq> i \<Longrightarrow> j \<in> rv_closed v' \<longleftrightarrow> j \<in> rv_closed v"
    and inp: "\<And>j. j \<noteq> i \<Longrightarrow> tool_input names j ds' = tool_input names j ds"
  shows "calls_agree names ds' v' (AList.update i c cs)"
proof -
  have "case map_of (AList.update i c cs) j of None \<Rightarrow> rv_tools v' j = None \<and> tool_input names j ds' = []
      | Some c \<Rightarrow> call_agrees names ds' v' j c" for j
  proof (cases "j = i")
    case True
    then show ?thesis using c by (simp add: update_conv')
  next
    case False
    have "case map_of cs j of None \<Rightarrow> rv_tools v j = None \<and> tool_input names j ds = [] | Some c \<Rightarrow> call_agrees names ds v j c"
      using ag by (simp add: calls_agree_def)
    then show ?thesis using False call_agrees_other [OF _ False tools [OF False] closed(2) [OF False] inp [OF False]]
      by (cases "map_of cs j") (simp_all add: update_conv' tools inp)
  qed
  moreover have "rv_closed v' \<subseteq> dom (map_of (AList.update i c cs))"
    using ag closed(1) by (auto simp: calls_agree_def update_conv')
  ultimately show ?thesis using ag by (simp add: calls_agree_def distinct_update)
qed

lemma tool_announced:
  assumes kept: "call_kept idx (map_of cs idx) c0" and ag: "calls_agree names ds v cs" and ph: "rv_phase v = 2"
    and c2: "rtc_index c2 = rtc_index c0" "rtc_outputIndex c2 = rtc_outputIndex c0"
    and br: "\<not> rtc_bridgedFunction c2 \<Longrightarrow> \<not> rtc_bridgedFunction c0"
  shows "\<exists>a. view_responses (if rtc_added c0 then [] else [RE_ToolAdded c2]) v =
      Some (v\<lparr>rv_tools := (rv_tools v)(idx \<mapsto> (rtc_outputIndex c0, a))\<rparr>) \<and> rtc_index c0 = idx \<and>
      (rtc_done c0 \<longleftrightarrow> idx \<in> rv_closed v) \<and>
      (\<not> rtc_bridgedFunction c2 \<longrightarrow> a = rtc_arguments c0 \<and> a = tool_input names idx ds)"
proof (cases "map_of cs idx")
  case None
  then have "rv_tools v idx = None" "tool_input names idx ds = []" "idx \<notin> rv_closed v"
    using ag by (auto simp: calls_agree_def dest!: spec [of _ idx])
  then show ?thesis using kept None ph c2 by (intro exI [of _ "[]"]) (simp add: call_kept_def)
next
  case (Some c)
  then have "call_agrees names ds v idx c" using ag by (auto simp: calls_agree_def dest!: spec [of _ idx])
  then obtain a where "rv_tools v idx = Some (rtc_outputIndex c, a)" "rtc_index c = idx" "rtc_added c"
      "rtc_done c \<longleftrightarrow> idx \<in> rv_closed v" "\<not> rtc_bridgedFunction c \<longrightarrow> a = rtc_arguments c \<and> a = tool_input names idx ds"
    by (auto simp: call_agrees_def)
  then show ?thesis using kept Some br by (intro exI [of _ a]) (auto simp: call_kept_def fun_upd_idem)
qed

lemma toolCalls_same [simp]:
  "opened (st\<lparr>rss_toolCalls := cs\<rparr>) v = opened st v" "message_agrees (st\<lparr>rss_toolCalls := cs\<rparr>) v = message_agrees st v"
  by (simp_all add: opened_def message_agrees_def)

lemma only_ids_agrees':
  assumes "only_ids st s1" "responses_agrees names ds st v" "calls_agree names ds' v' cs"
    and "\<And>c. message_agrees c v' = message_agrees c v" "\<And>c. opened c v' = opened c v"
  shows "responses_agrees names ds' (s1\<lparr>rss_toolCalls := cs\<rparr>) v'"
  using only_ids_agrees [OF assms(1,2)] assms(3-5) by (simp add: responses_agrees_def)

lemma tool_view_same [simp]:
  "message_agrees c (v\<lparr>rv_tools := m\<rparr>) = message_agrees c v" "opened c (v\<lparr>rv_tools := m\<rparr>) = opened c v"
  "message_agrees c (v\<lparr>rv_closed := k\<rparr>) = message_agrees c v" "opened c (v\<lparr>rv_closed := k\<rparr>) = opened c v"
  by (simp_all add: message_agrees_def opened_def)

lemma set_call_twice [simp]: "set_call c i (set_call c' i st) = set_call c i st"
  by (simp add: set_call_def update_last)

lemma tool_delta_pass:
  assumes ev: "tool_delta_events env d st = (es, st')" and ag: "responses_agrees names ds st v" and ph: "rv_phase v = 2"
    and u: "rss_usageEmitted st = u"
  shows "responses_pass names u es [] (ds @ [d]) st' v"
proof -
  obtain kind name inp br where cl: "classify_delta names d = (kind, name, inp, br)" by (metis prod_cases4)
  have names: "rss_customToolNames st = names" using ag by (simp add: responses_agrees_def)
  define idx where "idx = rtd_Index d"
  obtain c0 st1 where en: "responses_ensureToolCall env idx (rtd_ID d) kind name st = (c0, st1)" by fastforce
  obtain s1 where s1: "only_ids st s1" "st1 = set_call c0 idx s1" "call_kept idx (map_of (rss_toolCalls st) idx) c0"
    using ensure_call_facts [OF en] by blast
  define c2 where "c2 = c0\<lparr>rtc_bridgedFunction := rtc_bridgedFunction c0 \<or> br, rtc_added := True\<rparr>"
  have c2: "rtc_index c2 = rtc_index c0" "rtc_outputIndex c2 = rtc_outputIndex c0" "rtc_arguments c2 = rtc_arguments c0"
      "rtc_done c2 = rtc_done c0" "rtc_added c2" "\<not> rtc_bridgedFunction c2 \<Longrightarrow> \<not> rtc_bridgedFunction c0"
    by (simp_all add: c2_def)
  have cs: "rss_toolCalls s1 = rss_toolCalls st" "rss_usageEmitted s1 = u"
    using only_ids_fields [OF s1(1)] u by simp_all
  have calls: "calls_agree names ds v (rss_toolCalls st)" using ag by (simp add: responses_agrees_def)
  obtain a where a: "view_responses (if rtc_added c0 then [] else [RE_ToolAdded c2]) v =
        Some (v\<lparr>rv_tools := (rv_tools v)(idx \<mapsto> (rtc_outputIndex c0, a))\<rparr>)"
      "rtc_index c0 = idx" "rtc_done c0 \<longleftrightarrow> idx \<in> rv_closed v"
      "\<not> rtc_bridgedFunction c2 \<Longrightarrow> a = rtc_arguments c0 \<and> a = tool_input names idx ds"
    using tool_announced [OF s1(3) calls ph c2(1,2,6)] by blast
  have step: "responses_pass names u es [] (ds @ [d]) (set_call c' idx s1) v"
    if es: "es = (if rtc_added c0 then [] else [RE_ToolAdded c2]) @ rest"
      and rest: "view_responses rest (v\<lparr>rv_tools := (rv_tools v)(idx \<mapsto> (rtc_outputIndex c0, a))\<rparr>) =
        Some (v\<lparr>rv_tools := (rv_tools v)(idx \<mapsto> (rtc_outputIndex c0, a'))\<rparr>)"
      and c': "rtc_index c' = idx" "rtc_added c'" "rtc_done c' = rtc_done c0" "rtc_outputIndex c' = rtc_outputIndex c0"
        "rtc_bridgedFunction c' = rtc_bridgedFunction c2"
        "\<not> rtc_bridgedFunction c2 \<Longrightarrow> a' = rtc_arguments c' \<and> a' = tool_input names idx (ds @ [d])" for rest a' c'
  proof -
    let ?v = "v\<lparr>rv_tools := (rv_tools v)(idx \<mapsto> (rtc_outputIndex c0, a'))\<rparr>"
    have "call_agrees names (ds @ [d]) ?v idx c'"
      using c' a(3) by (cases "rtc_bridgedFunction c2") (auto simp: call_agrees_def simp del: tool_input_simps)
    then have "calls_agree names (ds @ [d]) ?v (AList.update idx c' (rss_toolCalls st))"
      by (rule calls_agree_update [OF calls]) (auto simp: idx_def)
    then have "responses_agrees names (ds @ [d]) (set_call c' idx s1) ?v"
      unfolding set_call_def cs by (rule only_ids_agrees' [OF s1(1) ag]) simp_all
    then show ?thesis using a(1) rest ph cs
      by (auto simp: responses_pass_def es view_responses_append set_call_def)
  qed
  have st': "es = (if rtc_added c0 then [] else [RE_ToolAdded c2]) @
      (if inp = [] \<or> rtc_bridgedFunction c2 then [] else [RE_ToolDelta (c2\<lparr>rtc_arguments := rtc_arguments c2 @ inp\<rparr>) inp])"
    "st' = set_call (if inp = [] then c2 else if rtc_bridgedFunction c2 then c2\<lparr>rtc_rawArguments := rtc_rawArguments c2 @ inp\<rparr>
      else c2\<lparr>rtc_arguments := rtc_arguments c2 @ inp\<rparr>) idx s1"
    using ev by (auto simp: tool_delta_events_def names cl en [unfolded idx_def] idx_def s1(2) c2_def Let_def split: if_splits)
  show ?thesis
  proof (cases "inp = [] \<or> rtc_bridgedFunction c2")
    case True
    show ?thesis unfolding st'(2)
      by (rule step [where rest = "[]" and a' = a]) (use True st'(1) c2 a cl in \<open>auto simp: idx_def\<close>)
  next
    case False
    show ?thesis unfolding st'(2)
      by (rule step [where rest = "[RE_ToolDelta (c2\<lparr>rtc_arguments := rtc_arguments c2 @ inp\<rparr>) inp]" and a' = "a @ inp"])
        (use False st'(1) c2 a cl ph in \<open>auto simp: idx_def\<close>)
  qed
qed

lemma tool_deltas_pass:
  assumes "tool_deltas_events env deltas st = (es, st')" "responses_agrees names ds st v" "rv_phase v = 2" "rss_usageEmitted st = u"
  shows "responses_pass names u es [] (ds @ deltas) st' v"
  using assms
proof (induction deltas arbitrary: st es ds v st')
  case Nil
  then show ?case using responses_pass_Nil [OF Nil(2,3)] by simp
next
  case (Cons d deltas)
  obtain es1 s1 where 1: "tool_delta_events env d st = (es1, s1)" by fastforce
  obtain es2 s2 where 2: "tool_deltas_events env deltas s1 = (es2, s2)" by fastforce
  have eq: "es = es1 @ es2" "st' = s2" using Cons.prems(1) 1 2 by simp_all
  have "responses_pass names u (es1 @ es2) ([] @ []) ((ds @ [d]) @ deltas) s2 v"
    by (rule responses_pass_append [OF tool_delta_pass [OF 1 Cons.prems(2-4)]]) (rule Cons.IH [OF 2])
  then show ?case by (simp add: eq)
qed

lemma finalize_call_facts:
  assumes "finalizeBridgedCustomInput env c = (delta, c')"
  shows "rtc_index c' = rtc_index c \<and> rtc_outputIndex c' = rtc_outputIndex c \<and> rtc_bridgedFunction c' = rtc_bridgedFunction c \<and>
    rtc_added c' = rtc_added c \<and> rtc_done c' = rtc_done c \<and>
    (\<not> rtc_bridgedFunction c \<longrightarrow> delta = [] \<and> rtc_arguments c' = rtc_arguments c)"
  using assms by (auto simp: finalizeBridgedCustomInput_def Let_def split: if_splits)

lemma finalize_calls_pass:
  assumes "finalize_calls env cs st = (es, st')" "responses_agrees names ds st v" "rv_phase v = 2" "rss_usageEmitted st = u"
    and "distinct (map fst cs)" "\<And>i c. (i, c) \<in> set cs \<Longrightarrow> map_of (rss_toolCalls st) i = Some c"
  shows "responses_pass names u es [] ds st' v"
  using assms
proof (induction cs arbitrary: st es v st')
  case Nil
  then show ?case using responses_pass_Nil [OF Nil(2,3)] by simp
next
  case (Cons e cs)
  obtain idx c where e: "e = (idx, c)" by (cases e)
  have rest: "distinct (map fst cs)" "\<And>i c. (i, c) \<in> set cs \<Longrightarrow> i \<noteq> idx"
    using Cons.prems(5) by (force simp: e)+
  have cur: "map_of (rss_toolCalls st) idx = Some c" using Cons.prems(6) by (simp add: e)
  have calls: "calls_agree names ds v (rss_toolCalls st)" using Cons.prems(2) by (simp add: responses_agrees_def)
  then have "call_agrees names ds v idx c" using cur by (auto simp: calls_agree_def dest!: spec [of _ idx])
  then obtain a where a: "rtc_index c = idx" "rtc_added c" "rtc_done c \<longleftrightarrow> idx \<in> rv_closed v"
      "rv_tools v idx = Some (rtc_outputIndex c, a)"
      "\<not> rtc_bridgedFunction c \<longrightarrow> a = rtc_arguments c \<and> a = tool_input names idx ds"
    by (auto simp: call_agrees_def)
  show ?case
  proof (cases "rtc_done c")
    case True
    show ?thesis
      by (rule Cons.IH [OF _ Cons.prems(2-4) rest(1)]) (use Cons.prems(1,6) True in \<open>simp_all add: e\<close>)
  next
    case False
    obtain delta c1 where f: "finalizeBridgedCustomInput env (c\<lparr>rtc_done := True\<rparr>) = (delta, c1)" by fastforce
    obtain es2 s2 where 2: "finalize_calls env cs (set_call c1 idx st) = (es2, s2)" by fastforce
    let ?es1 = "(if delta \<noteq> [] then [RE_ToolDelta c1 delta] else []) @ [RE_ToolInputDone c1, RE_ToolDone c1]"
    let ?v = "v\<lparr>rv_tools := (rv_tools v)(idx \<mapsto> (rtc_outputIndex c, a @ delta)), rv_closed := insert idx (rv_closed v)\<rparr>"
    note c1 = finalize_call_facts [OF f, simplified]
    have eq: "es = ?es1 @ es2" "st' = s2" using Cons.prems(1) False f 2 by (simp_all add: e)
    have "call_agrees names ds ?v idx c1" using c1 a by (auto simp: call_agrees_def)
    then have "calls_agree names ds ?v (AList.update idx c1 (rss_toolCalls st))"
      by (rule calls_agree_update [OF calls]) auto
    then have "responses_agrees names ds (st\<lparr>rss_toolCalls := AList.update idx c1 (rss_toolCalls st)\<rparr>) ?v"
      by (rule only_ids_agrees' [OF only_ids_refl Cons.prems(2)]) simp_all
    moreover have "view_responses ?es1 v = Some ?v"
      using c1 a False Cons.prems(3) by (auto simp: tool_known_def fun_upd_idem)
    ultimately have first: "responses_pass names u ?es1 [] ds (set_call c1 idx st) v"
      using Cons.prems(3,4) by (simp add: responses_pass_def set_call_def)
    have "responses_pass names u (?es1 @ es2) ([] @ []) ds s2 v"
      by (rule responses_pass_append [OF first], rule Cons.IH [OF 2 _ _ _ rest(1)])
        (use Cons.prems(6) rest(2) in \<open>auto simp: set_call_def update_conv' e\<close>)
    then show ?thesis by (simp add: eq)
  qed
qed

lemma ordered_calls:
  assumes "distinct (map fst (rss_toolCalls st))"
  shows "distinct (map fst (orderedToolCalls st))" "set (orderedToolCalls st) = set (rss_toolCalls st)"
    "sorted (map fst (orderedToolCalls st))" "(i, c) \<in> set (orderedToolCalls st) \<Longrightarrow> map_of (rss_toolCalls st) i = Some c"
  using assms by (auto simp: orderedToolCalls_def distinct_map map_of_is_SomeI intro: inj_on_subset)

section \<open>The whole stream\<close>

lemma finalize_tools_pass:
  assumes "finalizeToolCallEvents env st = (es, st')" "responses_agrees names ds st v" "rv_phase v = 2" "rss_usageEmitted st = u"
  shows "responses_pass names u es [] ds st' v"
proof -
  have "distinct (map fst (rss_toolCalls st))" using assms(2) by (simp add: responses_agrees_def calls_agree_def)
  note o = ordered_calls [OF this]
  show ?thesis
    by (rule finalize_calls_pass [OF _ assms(2-4) o(1)]) (use assms(1) o(4) in \<open>simp_all add: finalizeToolCallEvents_def\<close>)
qed

lemma finishReason_same [simp]:
  "responses_agrees names ds (st\<lparr>rss_finishReason := r\<rparr>) v = responses_agrees names ds st v"
  by (simp add: responses_agrees_def opened_def message_agrees_def)

lemma choice_pass:
  assumes ev: "responses_choice env c st = (es, st')" and ag: "responses_agrees names ds st v" "rv_phase v = 2" "rss_usageEmitted st = u"
  shows "responses_pass names u es (rch_Content c) (ds @ choice_deltas c) st' v"
proof -
  obtain es1 s1 where 1: "text_delta_events env (rch_Content c) st = (es1, s1)" by fastforce
  obtain es2 s2 where 2: "tool_deltas_events env (choice_deltas c) s1 = (es2, s2)" by fastforce
  have p2: "responses_pass names u (es1 @ es2) (rch_Content c @ []) (ds @ choice_deltas c) s2 v"
    by (rule responses_pass_append [OF text_delta_pass [OF 1 ag]]) (rule tool_deltas_pass [OF 2])
  show ?thesis
  proof (cases "rch_FinishReason c = []")
    case True
    then show ?thesis using ev p2 by (simp add: responses_choice_def 1 2)
  next
    case False
    obtain es3 s3 where 3: "finalizeTextEvents env (s2\<lparr>rss_finishReason := rch_FinishReason c\<rparr>) = (es3, s3)" by fastforce
    obtain es4 s4 where 4: "finalizeToolCallEvents env s3 = (es4, s4)" by fastforce
    have "responses_pass names u ((es1 @ es2) @ es3) ((rch_Content c @ []) @ []) (ds @ choice_deltas c) s3 v"
      by (rule responses_pass_append [OF p2], rule finalize_text_pass [OF 3]) simp_all
    then have "responses_pass names u (((es1 @ es2) @ es3) @ es4) (((rch_Content c @ []) @ []) @ []) (ds @ choice_deltas c) s4 v"
      by (rule responses_pass_append) (rule finalize_tools_pass [OF 4])
    then show ?thesis using ev False by (simp add: responses_choice_def 1 2 3 4)
  qed
qed

lemma responses_choices_pass:
  assumes "responses_choices env cs st = (es, st')" "responses_agrees names ds st v" "rv_phase v = 2" "rss_usageEmitted st = u"
  shows "responses_pass names u es (concat (map rch_Content cs)) (ds @ concat (map choice_deltas cs)) st' v"
  using assms
proof (induction cs arbitrary: st es ds v st')
  case Nil
  then show ?case using responses_pass_Nil [OF Nil(2,3)] by simp
next
  case (Cons c cs)
  obtain es1 s1 where 1: "responses_choice env c st = (es1, s1)" by fastforce
  obtain es2 s2 where 2: "responses_choices env cs s1 = (es2, s2)" by fastforce
  have eq: "es = es1 @ es2" "st' = s2" using Cons.prems(1) 1 2 by simp_all
  have "responses_pass names u (es1 @ es2) (rch_Content c @ concat (map rch_Content cs))
      ((ds @ choice_deltas c) @ concat (map choice_deltas cs)) s2 v"
    by (rule responses_pass_append [OF choice_pass [OF 1 Cons.prems(2-4)]]) (rule Cons.IH [OF 2])
  then show ?case by (simp add: eq)
qed

lemma take_chunk_agrees:
  assumes "responses_agrees names ds st v"
  shows "responses_agrees names ds (take_responses_chunk c st) v"
  using assms by (auto simp: responses_agrees_def take_responses_chunk_def Let_def message_agrees_def opened_def)

text \<open>The text and the tool deltas that the chunks of the events carry.\<close>

definition responses_choices_of :: "'x json_env_scheme \<Rightarrow> string \<Rightarrow> responsesChoice list" where
  "responses_choices_of env data = (case responses_chunk_of env data of None \<Rightarrow> [] | Some c \<Rightarrow> rck_Choices c)"

definition chat_choices :: "'x json_env_scheme \<Rightarrow> string list \<Rightarrow> responsesChoice list" where
  "chat_choices env events = concat (map (responses_choices_of env) events)"

lemma chat_choices_append: "chat_choices env (ds @ ds') = chat_choices env ds @ chat_choices env ds'"
  by (simp add: chat_choices_def)

text \<open>Before the first chunk the client has seen nothing.\<close>

definition stream_pass :: "string list \<Rightarrow> responses_event list \<Rightarrow> string \<Rightarrow> responsesToolDelta list \<Rightarrow>
    responsesStreamState \<Rightarrow> responses_view \<Rightarrow> bool" where
  "stream_pass names es t ds st v = (\<exists>v'. view_responses es v = Some v' \<and> responses_agrees names ds st v' \<and>
     rv_text v' = rv_text v @ t \<and> \<not> rss_usageEmitted st)"

lemma stream_pass_append:
  assumes "stream_pass names es t ds st v"
    and "\<And>v'. responses_agrees names ds st v' \<Longrightarrow> \<not> rss_usageEmitted st \<Longrightarrow> stream_pass names es' t' ds' st' v'"
  shows "stream_pass names (es @ es') (t @ t') ds' st' v"
proof -
  obtain v1 where 1: "view_responses es v = Some v1" "responses_agrees names ds st v1"
      "rv_text v1 = rv_text v @ t" "\<not> rss_usageEmitted st"
    using assms(1) by (auto simp: stream_pass_def)
  then show ?thesis using assms(2) [OF 1(2,4)] by (auto simp: stream_pass_def view_responses_append)
qed

lemma chunk_pass:
  assumes ev: "translateChatStreamEventToResponses env data st = ((es, fin), st')" and nd: "trim_space data \<noteq> ''[DONE]''"
    and ag: "responses_agrees names ds st v" and u: "\<not> rss_usageEmitted st"
  shows "\<not> fin \<and> stream_pass names es (concat (map rch_Content (responses_choices_of env data)))
      (ds @ concat (map choice_deltas (responses_choices_of env data))) st' v"
proof (cases "responses_chunk_of env data")
  case None
  then show ?thesis using ev nd ag u
    by (simp add: translateChatStreamEventToResponses_def responses_choices_of_def stream_pass_def)
next
  case (Some c)
  have u1: "rss_usageEmitted (take_responses_chunk c st) = False" using u by (simp add: take_responses_chunk_def Let_def)
  obtain es1 s1 where 1: "started_events env (take_responses_chunk c st) = (es1, s1)" by fastforce
  obtain es2 s2 where 2: "responses_choices env (rck_Choices c) s1 = (es2, s2)" by fastforce
  have "responses_pass names False (es1 @ es2) ([] @ concat (map rch_Content (rck_Choices c)))
      (ds @ concat (map choice_deltas (rck_Choices c))) s2 v"
    by (rule responses_pass_append [OF started_pass [OF 1 take_chunk_agrees [OF ag] u1]]) (rule responses_choices_pass [OF 2])
  then show ?thesis using ev nd Some
    by (auto simp: translateChatStreamEventToResponses_def responses_choices_of_def 1 2 stream_pass_def responses_pass_def)
qed

text \<open>What the bridge sends for the data of the events, and with the end of the stream.\<close>

abbreviation responses_outputs :: "'x json_env_scheme \<Rightarrow> string list \<Rightarrow> responsesStreamState \<Rightarrow>
    responses_output list \<times> responsesStreamState" where
  "responses_outputs env \<equiv> bridge_outputs (to_responses_event env)"

definition responses_output_of :: "'x json_env_scheme \<Rightarrow> string list \<Rightarrow> responsesStreamState \<Rightarrow>
    responses_output list \<times> responsesStreamState" where
  "responses_output_of env events st =
     (case responses_outputs env events st of (out, st1) \<Rightarrow>
        (case responses_completed env st1 of (out', st2) \<Rightarrow> (out @ out', st2)))"

lemma emit_responses_sent_on: "rw_status w \<noteq> None \<Longrightarrow> sent_on w (emit_responses env x w)"
  by (cases x) (simp_all add: emit_event_sent_on write_all_sent_on)

interpretation responses: event_bridge "to_responses_event env" "responses_completed env" "emit_responses env"
  "handle_chat_event env" "finish_chat_stream env" for env
  by unfold_locales (simp_all add: handle_chat_event_def finish_chat_stream_def emit_responses_sent_on split_beta)

lemma responses_bridge_output:
  assumes "sb_eof b"
  shows "bridgeChatStreamToResponses env statusCode (Some b) clientModel names w =
    (case responses_output_of env (bridged_events b) (fresh_responsesStream env clientModel names) of
       (out, st) \<Rightarrow> ((rss_promptTokens st, rss_cachedPromptTokens st, rss_completionTokens st),
          fold (emit_responses env) out (bridge_headers statusCode w)))"
  using assms
  unfolding bridgeChatStreamToResponses_def bridgeChatStreamToResponsesStarted_def option.simps responses.bridge_is_outputs
  by (simp add: responses_output_of_def split_beta Let_def)

lemma responses_outputs_pass:
  assumes "responses_outputs env events st = (out, st')" "\<forall>d \<in> set events. trim_space d \<noteq> ''[DONE]''"
    and "responses_agrees names ds st v" "\<not> rss_usageEmitted st"
  shows "\<exists>es. out = map RO_Event es \<and> stream_pass names es (concat (map rch_Content (chat_choices env events)))
    (ds @ concat (map choice_deltas (chat_choices env events))) st' v"
  using assms
proof (induction events arbitrary: st out ds v st')
  case Nil
  then show ?case by (simp add: chat_choices_def stream_pass_def)
next
  case (Cons d events)
  obtain es1 fin s1 where 1: "translateChatStreamEventToResponses env d st = ((es1, fin), s1)" by (metis prod.exhaust)
  note c = chunk_pass [OF 1 _ Cons.prems(3,4)]
  have nd: "trim_space d \<noteq> ''[DONE]''" using Cons.prems(2) by simp
  obtain out2 s2 where 2: "responses_outputs env events s1 = (out2, s2)" by fastforce
  have "to_responses_event env d st = (map RO_Event es1, s1)" using 1 c [OF nd] by (simp add: to_responses_event_def)
  then have eq: "out = map RO_Event es1 @ out2" "st' = s2" using Cons.prems(1) 2 by simp_all
  obtain v1 where v1: "responses_agrees names (ds @ concat (map choice_deltas (responses_choices_of env d))) s1 v1" "\<not> rss_usageEmitted s1"
    using c [OF nd] by (auto simp: stream_pass_def)
  obtain es2 where es2: "out2 = map RO_Event es2" using Cons.IH [OF 2 _ v1] Cons.prems(2) by auto
  have "stream_pass names (es1 @ es2) (concat (map rch_Content (responses_choices_of env d)) @
      concat (map rch_Content (chat_choices env events)))
      ((ds @ concat (map choice_deltas (responses_choices_of env d))) @ concat (map choice_deltas (chat_choices env events))) s2 v"
  proof (rule stream_pass_append)
    show "stream_pass names es1 (concat (map rch_Content (responses_choices_of env d)))
        (ds @ concat (map choice_deltas (responses_choices_of env d))) s1 v"
      using c [OF nd] by simp
  next
    fix v'
    assume a: "responses_agrees names (ds @ concat (map choice_deltas (responses_choices_of env d))) s1 v'" "\<not> rss_usageEmitted s1"
    show "stream_pass names es2 (concat (map rch_Content (chat_choices env events)))
        ((ds @ concat (map choice_deltas (responses_choices_of env d))) @ concat (map choice_deltas (chat_choices env events))) s2 v'"
      using Cons.IH [OF 2 _ a] Cons.prems(2) es2 by (auto simp: inj_map_eq_map inj_def)
  qed
  then show ?case by (intro exI [of _ "es1 @ es2"]) (simp add: eq es2 chat_choices_def)
qed

lemma completed_outputs:
  assumes "rss_usageEmitted st" "\<And>d. d \<in> set events \<Longrightarrow> responses_chunk_of env d = None"
  shows "responses_outputs env events st = ([], st)"
  using assms(2)
  by (induction events)
    (simp_all add: to_responses_event_def translateChatStreamEventToResponses_def responses_completed_def assms(1))

lemma final_items_facts:
  "final_items env cs st = (items, st') \<Longrightarrow>
    items = map (\<lambda>(i, c). completedResponsesItem env c) cs \<and> (\<exists>tc. st' = st\<lparr>rss_toolCalls := tc\<rparr>)"
proof (induction cs arbitrary: st items st')
  case (Cons e cs)
  obtain idx c where e: "e = (idx, c)" by (cases e)
  obtain items1 s1 where 1: "final_items env cs (set_call (completedResponsesItem env c) idx st) = (items1, s1)" by fastforce
  then show ?case using Cons.IH [OF 1] Cons.prems by (auto simp: e set_call_def)
next
  case Nil
  then have "st' = st\<lparr>rss_toolCalls := rss_toolCalls st\<rparr>" "items = []" by simp_all
  then show ?case by (intro conjI exI [of _ "rss_toolCalls st"]) simp_all
qed

text \<open>What the response at the end says, compared with what the client has seen.\<close>

definition response_fits :: "string list \<Rightarrow> responsesToolDelta list \<Rightarrow> final_response \<Rightarrow> responses_view \<Rightarrow> bool" where
  "response_fits names ds r v = (fr_message r = map_option (\<lambda>i. (i, rv_text v)) (rv_message v) \<and>
     (rv_phase v = 2 \<longrightarrow> fr_id r = rv_id v) \<and>
     sorted_wrt (<) (map rtc_index (fr_tools r)) \<and> set (map rtc_index (fr_tools r)) = dom (rv_tools v) \<and>
     (\<forall>c \<in> set (fr_tools r). \<exists>a. rv_tools v (rtc_index c) = Some (rtc_outputIndex c, a) \<and>
        (rtc_bridgedFunction c \<or> rtc_arguments c = a \<and> a = tool_input names (rtc_index c) ds)))"

lemma final_tools_fit:
  assumes "calls_agree names ds v (rss_toolCalls st)"
    and tools_def: "tools = map (\<lambda>(i, c). completedResponsesItem env c) (orderedToolCalls st)"
  shows "sorted_wrt (<) (map rtc_index tools)" "set (map rtc_index tools) = dom (rv_tools v)"
    "\<forall>c \<in> set tools. \<exists>a. rv_tools v (rtc_index c) = Some (rtc_outputIndex c, a) \<and>
        (rtc_bridgedFunction c \<or> rtc_arguments c = a \<and> a = tool_input names (rtc_index c) ds)"
proof -
  have dist: "distinct (map fst (rss_toolCalls st))" using assms(1) by (simp add: calls_agree_def)
  note o = ordered_calls [OF dist]
  have item: "call_agrees names ds v i c" if "(i, c) \<in> set (orderedToolCalls st)" for i c
    using assms(1) o(4) [OF that] by (auto simp: calls_agree_def dest!: spec [of _ i])
  have item_done: "call_agrees names ds v i (completedResponsesItem env c)" if "(i, c) \<in> set (orderedToolCalls st)" for i c
  proof -
    obtain delta c' where f: "finalizeBridgedCustomInput env c = (delta, c')" by fastforce
    show ?thesis using finalize_call_facts [OF f] item [OF that] f
      by (auto simp: call_agrees_def completedResponsesItem_def)
  qed
  have idx: "map rtc_index tools = map fst (orderedToolCalls st)"
    unfolding tools_def using item_done by (auto simp: call_agrees_def)
  show "sorted_wrt (<) (map rtc_index tools)" using o(1,3) by (simp add: idx strict_sorted_iff)
  have "rv_tools v i = None \<longleftrightarrow> map_of (rss_toolCalls st) i = None" for i
    using assms(1) by (cases "map_of (rss_toolCalls st) i") (auto simp: calls_agree_def call_agrees_def dest!: spec [of _ i])
  then have "dom (rv_tools v) = dom (map_of (rss_toolCalls st))" by (simp add: dom_def)
  then show "set (map rtc_index tools) = dom (rv_tools v)" unfolding idx using o(2) by (simp add: dom_map_of_conv_image_fst)
  show "\<forall>c \<in> set tools. \<exists>a. rv_tools v (rtc_index c) = Some (rtc_outputIndex c, a) \<and>
        (rtc_bridgedFunction c \<or> rtc_arguments c = a \<and> a = tool_input names (rtc_index c) ds)"
    using item_done by (fastforce simp: tools_def call_agrees_def)
qed

lemma final_response_fits:
  assumes bf: "buildFinalResponse env st = (r, st')" and ag: "responses_agrees names ds st v"
  shows "response_fits names ds r v \<and> rss_usageEmitted st' = rss_usageEmitted st \<and>
    (rss_promptTokens st', rss_cachedPromptTokens st', rss_completionTokens st') =
    (fr_promptTokens r, fr_cachedPromptTokens r, fr_completionTokens r)"
proof -
  obtain message s1 where 1: "(if rss_textStarted st \<or> trim_space (rss_text st) \<noteq> []
      then let (i, s) = ensureMessageID env st in (Some (i, rss_text s), s) else (None, st)) = (message, s1)" by fastforce
  obtain tools s2 where 2: "final_items env (orderedToolCalls s1) s1 = (tools, s2)" by fastforce
  obtain i s3 where 3: "ensureResponseID env s2 = (i, s3)" by fastforce
  have ids1: "only_ids st s1 \<and> message = map_option (\<lambda>i. (i, rv_text v)) (rv_message v)"
  proof (cases "rss_textStarted st \<or> trim_space (rss_text st) \<noteq> []")
    case True
    obtain j s where e: "ensureMessageID env st = (j, s)" by fastforce
    have "only_ids st s" "j = rss_messageID s" using ensureMessageID_facts [OF e] by simp_all
    then show ?thesis using 1 True e ag only_ids_fields(9) [of st s]
      by (auto simp: responses_agrees_def message_agrees_def only_ids_def)
  next
    case False
    then show ?thesis using 1 ag by (auto simp: responses_agrees_def message_agrees_def)
  qed
  note ag1 = only_ids_agrees [OF ids1 [THEN conjunct1] ag]
  obtain tc where s2: "s2 = s1\<lparr>rss_toolCalls := tc\<rparr>" "tools = map (\<lambda>(i, c). completedResponsesItem env c) (orderedToolCalls s1)"
    using final_items_facts [OF 2] by blast
  have f3: "only_ids s2 s3" "i = rss_responseID s3" using ensureResponseID_facts [OF 3] by simp_all
  have r: "r = \<lparr>fr_id = i, fr_created = rss_created s3, fr_model = rss_model s3, fr_message = message, fr_tools = tools,
      fr_promptTokens = rss_promptTokens s3, fr_cachedPromptTokens = rss_cachedPromptTokens s3,
      fr_completionTokens = rss_completionTokens s3\<rparr>" "st' = s3"
    using bf by (auto simp: buildFinalResponse_def 1 2 3 Let_def)
  have "rv_phase v = 2 \<longrightarrow> i = rv_id v" using ag1 f3 by (auto simp: s2(1) responses_agrees_def opened_def only_ids_def)
  moreover have "calls_agree names ds v (rss_toolCalls s1)" using ag1 by (simp add: responses_agrees_def)
  note final_tools_fit [OF this s2(2)]
  moreover have "rss_usageEmitted s3 = rss_usageEmitted st"
    using only_ids_fields(15) [OF f3(1)] only_ids_fields(15) [OF ids1 [THEN conjunct1]] by (simp add: s2(1))
  ultimately show ?thesis using ids1 by (simp add: response_fits_def r)
qed

lemma agrees_fresh_responses: "responses_agrees names [] (fresh_responsesStream env m names) fresh_responses_view"
  by (simp add: responses_agrees_def opened_def message_agrees_def calls_agree_def fresh_responsesStream_def fresh_responses_view_def)

lemma no_choices: "(\<And>d. d \<in> set events \<Longrightarrow> responses_chunk_of env d = None) \<Longrightarrow> chat_choices env events = []"
  by (simp add: chat_choices_def responses_choices_of_def)

lemma completed_once:
  assumes agr: "responses_agrees names ds st v" and unsent: "\<not> rss_usageEmitted st"
  shows "\<exists>r st'. responses_completed env st = ([RO_Event (RE_Completed r), RO_Done], st') \<and> response_fits names ds r v \<and>
    rss_usageEmitted st' \<and> (rss_promptTokens st', rss_cachedPromptTokens st', rss_completionTokens st') =
      (fr_promptTokens r, fr_cachedPromptTokens r, fr_completionTokens r)"
proof -
  obtain r st' where b: "buildFinalResponse env (st\<lparr>rss_usageEmitted := True\<rparr>) = (r, st')" by fastforce
  have "responses_agrees names ds (st\<lparr>rss_usageEmitted := True\<rparr>) v"
    using agr by (simp add: responses_agrees_def opened_def message_agrees_def)
  from final_response_fits [OF b this] show ?thesis using unsent by (simp add: responses_completed_def b)
qed


definition demo_tool_chunks :: parser where
  "demo_tool_chunks s =
     (if s = ''t'' then Some (JObject [(''choices'', JArray [JObject [(''delta'', JObject [(''tool_calls'', JArray [JObject
         [(''index'', JNumber ''0''), (''id'', JString ''call_7''), (''function'', JObject [(''name'', JString ''f''), (''arguments'', JString ''1'')])]])])]])])
      else if s = ''a'' then Some (JObject [(''choices'', JArray [JObject [(''delta'', JObject [(''content'', JString ''hi'')])]])])
      else if s = ''f'' then Some (JObject [(''choices'', JArray [JObject [(''finish_reason'', JString ''stop'')]])])
      else None)"

definition demo_responses :: json_env where
  "demo_responses = \<lparr>je_parse = demo_tool_chunks, je_marshal = (\<lambda>v. Some ''{}''), je_float = Some, je_sprint = (\<lambda>v. []),
     je_uuid = (\<lambda>n. ''1''), je_now = 7\<rparr>"

definition demo_tool_body :: stream_body where
  "demo_tool_body = \<lparr>sb_content = concat (map (\<lambda>d. ''data: '' @ d @ [newline, newline]) [''t'', ''a'', ''f'', ''[DONE]'']), sb_eof = True\<rparr>"


section \<open>Limits of the bridge\<close>

text \<open>
  The output indexes of the items that a stream announces. A tool call that comes before the text
  gets the index 0, and so does the message.
\<close>

fun added_at :: "responses_output \<Rightarrow> goint list" where
  "added_at (RO_Event (RE_MessageAdded i out)) = [out]"
| "added_at (RO_Event (RE_ToolAdded c)) = [rtc_outputIndex c]"
| "added_at out = []"

lemma output_index_collision:
  "concat (map added_at (fst (responses_outputs demo_responses [''t'', ''a''] (fresh_responsesStream demo_responses ''m'' [])))) = [0, 0]"
  by code_simp

text \<open>
  A later fragment of a custom tool call, which has no name and no type of its own, is taken for a
  function call without arguments: its input is lost.
\<close>

lemma custom_fragment_lost:
  assumes "\<not> List.member names []"
  shows "classify_delta names (no_responsesToolDelta\<lparr>rtd_Custom := \<lparr>octc_Name = [], octc_Input = x\<rparr>\<rparr>) = (''function'', [], [], False)"
  using assms by (simp add: classify_delta_def no_responsesToolDelta_def normalizeChatToolCallKind_def no_function_def to_lower_def)

end
