(* ===== verification/Convert_Responses.thy ===== *)
theory Convert_Responses
  imports Convert_Response Stream_To_Responses
begin

text \<open>
  Requests of the Responses API as chat completion requests, and chat completion responses as responses
  of that API (\<open>internal/gateway/api/compat.go\<close>). Custom tools go to the upstream as functions whose only
  argument is the input, and are restored in the response.
\<close>

section \<open>Texts and tools of a request\<close>

definition responsesTextFromRaw :: "'x json_env_scheme \<Rightarrow> json \<Rightarrow> string" where
  "responsesTextFromRaw env v =
     (case v of JNull \<Rightarrow> [] | JString t \<Rightarrow> t
      | _ \<Rightarrow> (case decode_maps env v of
          Some blocks \<Rightarrow> join [newline, newline]
            (concat (map (\<lambda>b. if block_type env b = ''text'' then text_parts env b else []) blocks))
        | None \<Rightarrow> (case as_any (je_float env) v of Some x \<Rightarrow> stringifyContentValue env x | None \<Rightarrow> [])))"

definition responsesInstructionsMessage :: "'x json_env_scheme \<Rightarrow> json option \<Rightarrow> json list" where
  "responsesInstructionsMessage env raw =
     (case raw of
        None \<Rightarrow> []
      | Some v \<Rightarrow> (let t = responsesTextFromRaw env v in
          if trim_space t = [] then [] else [jobj [(''role'', JString ''system''), (''content'', JString t)]]))"

definition function_choice :: "string \<Rightarrow> json" where
  "function_choice name = jobj [(''type'', JString ''function''), (''function'', jobj [(''name'', JString name)])]"

definition convertResponsesToolChoiceToChat :: "'x json_env_scheme \<Rightarrow> json \<Rightarrow> json option" where
  "convertResponsesToolChoiceToChat env raw =
     (case decode_string raw of
        Some t \<Rightarrow> Some (JString t)
      | None \<Rightarrow>
          (case decode_map env raw of
             None \<Rightarrow> None
           | Some choice \<Rightarrow>
               (let ty = to_lower (trim_space (sprint env (field ''type'' choice)));
                    name1 = trim_space (sprint env (field ''name'' choice)); fn = field ''function'' choice;
                    name = (if name1 = [] \<and> is_map fn then trim_space (sprint env (field ''name'' fn)) else name1)
                in if ty = ''custom'' \<or> ty = ''function'' then (if name = [] then None else Some (function_choice name))
                   else if ty \<in> {''auto'', ''required'', ''none''} then Some (JString ty)
                   else Some (JString ''auto''))))"

definition custom_tool_name :: "'x json_env_scheme \<Rightarrow> json \<Rightarrow> string list" where
  "custom_tool_name env tool =
     (if trim_space (sprint env (field ''type'' tool)) \<noteq> ''custom'' then []
      else let name = trim_space (sprint env (field ''name'' tool)) in if name = [] then [] else [name])"

definition decode_tools_field :: "'x json_env_scheme \<Rightarrow> json \<Rightarrow> json list option" where
  "decode_tools_field env v = set_struct (\<lambda>kvs tools. each_field ''tools'' (\<lambda>x _. decode_maps env x) kvs tools) v []"

definition extractResponsesCustomToolNames :: "'x json_env_scheme \<Rightarrow> string \<Rightarrow> string list" where
  "extractResponsesCustomToolNames env body =
     (case bind (je_parse env body) (decode_tools_field env) of
        None \<Rightarrow> [] | Some tools \<Rightarrow> concat (map (custom_tool_name env) tools))"

definition input_parameters :: json where
  "input_parameters = jobj [(''type'', JString ''object''), (''additionalProperties'', JBool False),
     (''properties'', jobj [(''input'', jobj [(''type'', JString ''string''), (''description'', JString ''Raw custom tool input.'')])]),
     (''required'', JArray [JString ''input''])]"

definition function_tool :: "json \<Rightarrow> string \<Rightarrow> json \<Rightarrow> json" where
  "function_tool name description parameters = jobj [(''type'', JString ''function''),
     (''function'', jobj [(''name'', name), (''description'', JString description), (''parameters'', parameters)])]"

definition convertResponsesCustomToolToChatFunction :: "'x json_env_scheme \<Rightarrow> json \<Rightarrow> json option" where
  "convertResponsesCustomToolToChatFunction env tool =
     (let name = trim_space (sprint env (field ''name'' tool)); given = normalizeToolDescription env (field ''description'' tool);
          description = (if trim_space given = [] then ''Call custom tool '' @ name @ ''.'' else given)
      in if name = [] then None else Some (function_tool (JString name) description input_parameters))"

text \<open>Tools that are built into the Responses API have no counterpart and are dropped.\<close>

definition convert_responses_tool :: "'x json_env_scheme \<Rightarrow> json \<Rightarrow> json list" where
  "convert_responses_tool env tool =
     (let ty = trim_space (sprint env (field ''type'' tool)) in
      if ty = ''function''
      then (case extractFunctionFieldsFromOpenAITool env tool of
          None \<Rightarrow> [] | Some (name, description, parameters) \<Rightarrow> [function_tool name (normalizeToolDescription env description) parameters])
      else if ty = ''custom''
      then (case convertResponsesCustomToolToChatFunction env tool of None \<Rightarrow> [] | Some f \<Rightarrow> [f])
      else [])"

section \<open>Items of the input\<close>

definition responsesCallID :: "'x json_env_scheme \<Rightarrow> json \<Rightarrow> string" where
  "responsesCallID env item =
     (let ids = filter (\<lambda>s. s \<noteq> [] \<and> s \<noteq> ''<nil>'') (map (\<lambda>k. trim_space (sprint env (field k item))) [''call_id'', ''id''])
      in case ids of [] \<Rightarrow> [] | i # is \<Rightarrow> i)"

definition stringifyResponsesToolOutput :: "'x json_env_scheme \<Rightarrow> json \<Rightarrow> string" where
  "stringifyResponsesToolOutput env v =
     (case v of JNull \<Rightarrow> [] | JString s \<Rightarrow> s
      | _ \<Rightarrow> (case je_marshal env v of None \<Rightarrow> sprint env v | Some data \<Rightarrow> data))"

text \<open>An assistant message with one call; the number counts the UUIDs that were made.\<close>

definition call_message :: "string \<Rightarrow> string \<Rightarrow> string \<Rightarrow> json" where
  "call_message callID name arguments = jobj [(''role'', JString ''assistant''), (''content'', JString []),
     (''tool_calls'', JArray [jobj [(''id'', JString callID), (''type'', JString ''function''),
        (''function'', jobj [(''name'', JString name), (''arguments'', JString arguments)])]])]"

definition call_item :: "'x json_env_scheme \<Rightarrow> string \<Rightarrow> json \<Rightarrow> nat \<Rightarrow> json list \<times> nat" where
  "call_item env arguments item n =
     (let name = trim_space (sprint env (field ''name'' item)); callID = responsesCallID env item in
      if name = [] then ([], n)
      else if callID = [] then ([call_message (''call_'' @ je_uuid env n) name arguments], Suc n)
      else ([call_message callID name arguments], n))"

definition convertResponsesCustomToolCallItemToChat :: "'x json_env_scheme \<Rightarrow> json \<Rightarrow> nat \<Rightarrow> json list \<times> nat" where
  "convertResponsesCustomToolCallItemToChat env item =
     call_item env (compactJSONValue env (jobj [(''input'', JString (stringifyResponsesToolInput env (field ''input'' item)))])) item"

definition convertResponsesFunctionCallItemToChat :: "'x json_env_scheme \<Rightarrow> json \<Rightarrow> nat \<Rightarrow> json list \<times> nat" where
  "convertResponsesFunctionCallItemToChat env item =
     call_item env (stringifyResponsesToolInput env (field ''arguments'' item)) item"

definition convertResponsesCustomToolCallOutputItemToChat :: "'x json_env_scheme \<Rightarrow> json \<Rightarrow> json list" where
  "convertResponsesCustomToolCallOutputItemToChat env item =
     (if responsesCallID env item = [] then []
      else [tool_message (responsesCallID env item) (stringifyResponsesToolOutput env (field ''output'' item))])"

definition convertResponsesFunctionCallOutputItemToChat :: "'x json_env_scheme \<Rightarrow> json \<Rightarrow> json list" where
  "convertResponsesFunctionCallOutputItemToChat env item =
     (if responsesCallID env item = [] then []
      else [tool_message (responsesCallID env item) (stringifyResponsesToolOutput env (field ''output'' item))])"

definition content_part :: "'x json_env_scheme \<Rightarrow> json \<Rightarrow> conversion_error + json list" where
  "content_part env p =
     (if \<not> is_map p then Inr []
      else let ty = block_type env p in
        if ty = ''text''
        then Inr [text_block (case extractTextFromContentBlock p of None \<Rightarrow> [] | Some t \<Rightarrow> t)]
        else if ty = ''input_image''
        then (case field ''image_url'' p of
            JString u \<Rightarrow> Inr [jobj [(''type'', JString ''image_url''), (''image_url'', jobj [(''url'', JString u)])]]
          | JObject kvs \<Rightarrow> Inr [jobj [(''type'', JString ''image_url''), (''image_url'', JObject kvs)]]
          | _ \<Rightarrow> Inl (Rejected ''responses input_image: image_url must be string or object''))
        else Inr [p])"

definition normalizeResponsesStyleContentToChatContent :: "'x json_env_scheme \<Rightarrow> json list \<Rightarrow> conversion_error + json" where
  "normalizeResponsesStyleContentToChatContent env parts =
     and_then (convert_each (content_part env) parts) (\<lambda>ps.
       Inr (case ps of
           [] \<Rightarrow> JString []
         | [p] \<Rightarrow> (if field ''type'' p = JString ''text''
             then (case field ''text'' p of JString t \<Rightarrow> JString t | _ \<Rightarrow> JArray ps) else JArray ps)
         | _ \<Rightarrow> JArray ps))"

definition convert_message_item :: "'x json_env_scheme \<Rightarrow> json \<Rightarrow> conversion_error + json list" where
  "convert_message_item env item =
     (let msg = (if field ''type'' item = JString ''message'' then delete_field ''type'' item else item) in
      if trim_space (as_string (field ''role'' msg)) = [] then Inr []
      else case field ''content'' msg of
          JNull \<Rightarrow> Inr [set_field ''content'' (JString []) msg]
        | JArray parts \<Rightarrow> and_then (normalizeResponsesStyleContentToChatContent env parts)
            (\<lambda>norm. Inr [set_field ''content'' norm msg])
        | _ \<Rightarrow> Inr [msg])"

definition convert_input_item :: "'x json_env_scheme \<Rightarrow> json \<Rightarrow> nat \<Rightarrow> conversion_error + json list \<times> nat" where
  "convert_input_item env item n =
     (let ty = as_string (field ''type'' item) in
      if ty = ''custom_tool_call'' then Inr (convertResponsesCustomToolCallItemToChat env item n)
      else if ty = ''custom_tool_call_output'' then Inr (convertResponsesCustomToolCallOutputItemToChat env item, n)
      else if ty = ''function_call'' then Inr (convertResponsesFunctionCallItemToChat env item n)
      else if ty = ''function_call_output'' then Inr (convertResponsesFunctionCallOutputItemToChat env item, n)
      else and_then (convert_message_item env item) (\<lambda>msgs. Inr (msgs, n)))"

fun convert_input_items :: "'x json_env_scheme \<Rightarrow> json list \<Rightarrow> nat \<Rightarrow> conversion_error + json list" where
  "convert_input_items env [] n = Inr []"
| "convert_input_items env (item # items) n =
     and_then (convert_input_item env item n) (\<lambda>(msgs, n').
       and_then (convert_input_items env items n') (\<lambda>msgs'. Inr (msgs @ msgs')))"

definition convertResponsesInputToChatMessages :: "'x json_env_scheme \<Rightarrow> json list \<Rightarrow> conversion_error + json list" where
  "convertResponsesInputToChatMessages env input =
     (if input = [] then Inl (Rejected ''responses input message list is empty'')
      else and_then (convert_input_items env input 0) (\<lambda>out.
        if out = [] then Inl (Rejected ''responses input contained no messages with a role'') else Inr out))"

definition responses_messages :: "'x json_env_scheme \<Rightarrow> json \<Rightarrow> conversion_error + json list" where
  "responses_messages env input =
     (case decode_string input of
        Some t \<Rightarrow> Inr [user_message (JString t)]
      | None \<Rightarrow> and_then (or_error (Undecodable ''responses input'') (decode_maps env input)) (convertResponsesInputToChatMessages env))"

definition responses_chat_request :: "'x json_env_scheme \<Rightarrow> string \<Rightarrow> (string \<times> json) list \<Rightarrow> json list \<Rightarrow> json" where
  "responses_chat_request env upstreamModel raw msgs =
     (let tools = (case bind (map_of raw ''tools'') (decode_maps env) of
            None \<Rightarrow> [] | Some ts \<Rightarrow> concat (map (convert_responses_tool env) ts))
      in jobj (concat (map (\<lambda>(frm, to). copyRawField env raw frm to)
           [(''model'', ''model''), (''stream'', ''stream''), (''temperature'', ''temperature''), (''top_p'', ''top_p''),
            (''max_output_tokens'', ''max_tokens''), (''parallel_tool_calls'', ''parallel_tool_calls'')]) @
         (case bind (map_of raw ''tool_choice'') (convertResponsesToolChoiceToChat env) of
            None \<Rightarrow> [] | Some choice \<Rightarrow> [(''tool_choice'', choice)]) @
         (if tools = [] then [] else [(''tools'', JArray tools)]) @
         (if trim_space upstreamModel = [] then [] else [(''model'', JString (trim_space upstreamModel))]) @
         [(''messages'', JArray (responsesInstructionsMessage env (map_of raw ''instructions'') @ msgs))]))"

definition convertResponsesRequestToChat :: "'x json_env_scheme \<Rightarrow> string \<Rightarrow> string \<Rightarrow> conversion_error + string" where
  "convertResponsesRequestToChat env body upstreamModel =
     and_then (or_error (Undecodable ''responses request'') (bind (je_parse env body) raw_map)) (\<lambda>raw.
     and_then (or_error (Rejected (''responses request missing '' @ [CHR 0x27] @ ''input'' @ [CHR 0x27] @ '' field'')) (map_of raw ''input'')) (\<lambda>input.
     and_then (responses_messages env input) (\<lambda>msgs.
       or_error (Unencodable ''chat request'') (je_marshal env (responses_chat_request env upstreamModel raw msgs)))))"

section \<open>Responses\<close>

record responsesSourceChoice =
  rsc_Content :: "json option"
  rsc_ToolCalls :: "openAIToolCall list"
  rsc_FunctionCall :: "openAIToolCallFunction option"

definition decode_sourceMessage :: "(string \<times> json) list \<Rightarrow> responsesSourceChoice \<Rightarrow> responsesSourceChoice option" where
  "decode_sourceMessage kvs c =
     bind (each_field ''role'' set_string kvs []) (\<lambda>role.
     bind (each_field ''content'' set_raw kvs (rsc_Content c)) (\<lambda>content.
     bind (each_field ''tool_calls'' (set_list (set_struct decode_toolCall) no_toolCall) kvs (rsc_ToolCalls c)) (\<lambda>calls.
     bind (each_field ''function_call'' (set_pointer decode_function no_function) kvs (rsc_FunctionCall c)) (\<lambda>call.
       Some \<lparr>rsc_Content = content, rsc_ToolCalls = calls, rsc_FunctionCall = call\<rparr>))))"

definition decode_sourceChoice :: "(string \<times> json) list \<Rightarrow> responsesSourceChoice \<Rightarrow> responsesSourceChoice option" where
  "decode_sourceChoice kvs c =
     bind (each_field ''index'' set_int64 kvs 0) (\<lambda>index.
     bind (each_field ''finish_reason'' set_string kvs []) (\<lambda>reason.
       each_field ''message'' (set_struct decode_sourceMessage) kvs c))"

record responsesSource =
  rsp_ID :: string
  rsp_Created :: int
  rsp_Model :: string
  rsp_Choices :: "responsesSourceChoice list"
  rsp_Usage :: openAIUsagePayload

definition decode_responsesSource :: "json \<Rightarrow> responsesSource option" where
  "decode_responsesSource v = set_struct (\<lambda>kvs r.
     bind (each_field ''id'' set_string kvs (rsp_ID r)) (\<lambda>i.
     bind (each_field ''object'' set_string kvs []) (\<lambda>obj.
     bind (each_field ''created'' set_int64 kvs (rsp_Created r)) (\<lambda>created.
     bind (each_field ''model'' set_string kvs (rsp_Model r)) (\<lambda>m.
     bind (each_field ''choices'' (set_list (set_struct decode_sourceChoice)
         \<lparr>rsc_Content = None, rsc_ToolCalls = [], rsc_FunctionCall = None\<rparr>) kvs (rsp_Choices r)) (\<lambda>cs.
     bind (each_field ''usage'' (set_struct decode_openAIUsage) kvs (rsp_Usage r)) (\<lambda>u.
       Some \<lparr>rsp_ID = i, rsp_Created = created, rsp_Model = m, rsp_Choices = cs, rsp_Usage = u\<rparr>)))))))
     v \<lparr>rsp_ID = [], rsp_Created = 0, rsp_Model = [], rsp_Choices = [], rsp_Usage = no_openAIUsage\<rparr>"

definition chatMessageContentText :: "'x json_env_scheme \<Rightarrow> json option \<Rightarrow> string" where
  "chatMessageContentText env raw =
     (case raw of
        None \<Rightarrow> []
      | Some v \<Rightarrow> (case v of JNull \<Rightarrow> [] | JString t \<Rightarrow> t
          | _ \<Rightarrow> (case decode_maps env v of
              None \<Rightarrow> []
            | Some blocks \<Rightarrow> join [newline]
                (concat (map (\<lambda>b. if block_type env b = ''text'' then text_parts env b else []) blocks)))))"

definition restoreResponsesCustomToolCall :: "'x json_env_scheme \<Rightarrow> string list \<Rightarrow> openAIToolCall \<Rightarrow> openAIToolCall" where
  "restoreResponsesCustomToolCall env names call =
     (let name = trim_space (ofn_Name (otc_Function call)) in
      if names = [] \<or> normalizeChatToolCallKind (otc_Type call) = ''custom'' \<or> \<not> List.member names name then call
      else call\<lparr>otc_Type := ''custom'', otc_Custom := \<lparr>octc_Name = name,
          octc_Input = extractCustomToolInputFromFunctionArguments env (ofn_Arguments (otc_Function call))\<rparr>,
        otc_Function := no_function\<rparr>)"

definition tool_call_kind :: "openAIToolCall \<Rightarrow> string" where
  "tool_call_kind call =
     (let kind = to_lower (trim_space (otc_Type call)) in
      if kind \<noteq> [] then kind else if trim_space (octc_Name (otc_Custom call)) \<noteq> [] then ''custom'' else ''function'')"

definition output_item :: "'x json_env_scheme \<Rightarrow> string \<Rightarrow> string \<Rightarrow> string \<Rightarrow> string \<Rightarrow> string \<Rightarrow> string \<Rightarrow> nat \<Rightarrow> json list \<times> nat" where
  "output_item env pre ty callID name key input n =
     (let (i, fresh) = responsesToolItemID (je_uuid env n) pre callID in
      ([jobj [(''id'', JString i), (''type'', JString ty), (''status'', JString ''completed''), (''call_id'', JString callID),
         (''name'', JString name), (key, JString input)]], if fresh then Suc n else n))"

definition chatToolCallToResponsesOutputItem :: "'x json_env_scheme \<Rightarrow> openAIToolCall \<Rightarrow> nat \<Rightarrow> json list \<times> nat" where
  "chatToolCallToResponsesOutputItem env call n =
     (let kind = tool_call_kind call;
          (callID, n1) = (if trim_space (otc_ID call) = [] then (''call_'' @ je_uuid env n, Suc n) else (trim_space (otc_ID call), n));
          customName = trim_space (octc_Name (otc_Custom call)); name = trim_space (ofn_Name (otc_Function call))
      in if kind = ''custom''
         then (if customName = [] then ([], n1)
           else output_item env ''ctc'' ''custom_tool_call'' callID customName ''input'' (octc_Input (otc_Custom call)) n1)
         else if kind = ''function''
         then (if name = [] then ([], n1)
           else output_item env ''fc'' ''function_call'' callID name ''arguments'' (ofn_Arguments (otc_Function call)) n1)
         else ([], n1))"

fun output_items :: "'x json_env_scheme \<Rightarrow> string list \<Rightarrow> openAIToolCall list \<Rightarrow> nat \<Rightarrow> json list \<times> nat" where
  "output_items env names [] n = ([], n)"
| "output_items env names (call # calls) n =
     (case chatToolCallToResponsesOutputItem env (restoreResponsesCustomToolCall env names call) n of (items, n1) \<Rightarrow>
        (case output_items env names calls n1 of (items', n2) \<Rightarrow> (items @ items', n2)))"

definition prefixed_id :: "'x json_env_scheme \<Rightarrow> string \<Rightarrow> string \<Rightarrow> nat \<Rightarrow> string \<times> nat" where
  "prefixed_id env pre i n =
     (if i = [] then (pre @ je_uuid env n, Suc n) else if prefix pre i then (i, n) else (pre @ i, n))"

definition output_message :: "string \<Rightarrow> string \<Rightarrow> json" where
  "output_message i t = jobj [(''type'', JString ''message''), (''id'', JString i), (''status'', JString ''completed''),
     (''role'', JString ''assistant''), (''content'', JArray [jobj [(''type'', JString ''output_text''), (''text'', JString t)]])]"

definition source_calls :: "'x json_env_scheme \<Rightarrow> responsesSourceChoice \<Rightarrow> nat \<Rightarrow> openAIToolCall list \<times> nat" where
  "source_calls env c n =
     (if rsc_ToolCalls c \<noteq> [] then (rsc_ToolCalls c, n)
      else case rsc_FunctionCall c of
          Some f \<Rightarrow> (if trim_space (ofn_Name f) = [] then ([], n)
            else ([no_toolCall\<lparr>otc_ID := ''call_'' @ je_uuid env n, otc_Type := ''function'', otc_Function := f\<rparr>], Suc n))
        | None \<Rightarrow> ([], n))"

definition choice_items :: "'x json_env_scheme \<Rightarrow> string list \<Rightarrow> string \<Rightarrow> responsesSourceChoice \<Rightarrow> nat \<Rightarrow> json list \<times> nat" where
  "choice_items env names msgID c n =
     (let t = chatMessageContentText env (rsc_Content c);
          (calls, n1) = source_calls env c n; (items, n2) = output_items env names calls n1
      in ((if trim_space t = [] then [] else [output_message msgID t]) @ items, n2))"

definition responses_items :: "'x json_env_scheme \<Rightarrow> string list \<Rightarrow> responsesSource \<Rightarrow> json list \<times> nat" where
  "responses_items env names r =
     (let (msgID, items, n) = (case rsp_Choices r of
            [] \<Rightarrow> ([], [], 0)
          | c # cs \<Rightarrow> (let (i, n1) = prefixed_id env ''msg_'' (rsp_ID r) 0; (items, n2) = choice_items env names i c n1
              in (i, items, n2)))
      in if items \<noteq> [] then (items, n)
         else if trim_space msgID = [] then ([output_message (''msg_'' @ je_uuid env n) []], Suc n)
         else ([output_message msgID []], n))"

definition responses_response :: "'x json_env_scheme \<Rightarrow> string \<Rightarrow> string list \<Rightarrow> responsesSource \<Rightarrow> json" where
  "responses_response env clientModel names r =
     (let (items, n) = responses_items env names r; u = rsp_Usage r in
      jobj [(''id'', JString (fst (prefixed_id env ''resp_'' (rsp_ID r) n))), (''object'', JString ''response''),
        (''created_at'', jint (rsp_Created r)),
        (''model'', JString (if trim_space clientModel = [] then rsp_Model r else trim_space clientModel)),
        (''output'', JArray items),
        (''usage'', responsesUsageMap (oup_PromptTokens u) (openAIUsageCachedTokens u) (oup_CompletionTokens u) (oup_TotalTokens u)),
        (''status'', JString ''completed'')])"

definition adaptChatResponseToResponses :: "'x json_env_scheme \<Rightarrow> string \<Rightarrow> string \<Rightarrow> string list \<Rightarrow> conversion_error + string" where
  "adaptChatResponseToResponses env respBody clientModel names =
     and_then (or_error (Undecodable ''chat response'') (bind (je_parse env respBody) decode_responsesSource)) (\<lambda>r.
       or_error (Unencodable ''responses response'') (je_marshal env (responses_response env clientModel names r)))"

section \<open>Custom tools\<close>

lemma call_message_decoded:
  "set_struct decode_sourceMessage (call_message i name a) c =
     Some \<lparr>rsc_Content = Some (JString []),
       rsc_ToolCalls = [no_toolCall\<lparr>otc_ID := i, otc_Type := ''function'', otc_Function := \<lparr>ofn_Name = name, ofn_Arguments = a\<rparr>\<rparr>],
       rsc_FunctionCall = rsc_FunctionCall c\<rparr>"
  by (simp add: call_message_def jobj_def json_map_def set_struct_def decode_sourceMessage_def bind_def equal_fold_def
      to_lower_def lower_char_def set_string_def set_raw_def set_list_def decode_toolCall_def decode_function_def
      no_toolCall_def no_function_def)

lemma responsesCallID_trimmed: "trim_space (responsesCallID env item) = responsesCallID env item"
  by (simp add: responsesCallID_def Let_def)

text \<open>What the restored call becomes in the response, apart from the identifier of the item.\<close>

definition custom_item :: "string \<Rightarrow> string \<Rightarrow> string \<Rightarrow> json \<Rightarrow> bool" where
  "custom_item callID name input item = (field ''type'' item = JString ''custom_tool_call'' \<and>
     field ''call_id'' item = JString callID \<and> field ''name'' item = JString name \<and> field ''input'' item = JString input)"

lemma function_kind: "normalizeChatToolCallKind ''function'' = ''function''"
  by code_simp

lemma restored_item:
  assumes "List.member names (trim_space name)" "trim_space name \<noteq> []" "trim_space i \<noteq> []"
  shows "\<exists>item. fst (chatToolCallToResponsesOutputItem env (restoreResponsesCustomToolCall env names
      (no_toolCall\<lparr>otc_ID := i, otc_Type := ''function'', otc_Function := \<lparr>ofn_Name = name, ofn_Arguments = a\<rparr>\<rparr>)) n) = [item] \<and>
    custom_item (trim_space i) (trim_space name) (extractCustomToolInputFromFunctionArguments env a) item"
proof -
  have "names \<noteq> []" using assms(1) by auto
  then have "restoreResponsesCustomToolCall env names
      (no_toolCall\<lparr>otc_ID := i, otc_Type := ''function'', otc_Function := \<lparr>ofn_Name = name, ofn_Arguments = a\<rparr>\<rparr>) =
    no_toolCall\<lparr>otc_ID := i, otc_Type := ''custom'', otc_Function := no_function,
      otc_Custom := \<lparr>octc_Name = trim_space name, octc_Input = extractCustomToolInputFromFunctionArguments env a\<rparr>\<rparr>"
    using assms(1) by (simp add: restoreResponsesCustomToolCall_def Let_def function_kind)
  moreover have "tool_call_kind (no_toolCall\<lparr>otc_ID := i, otc_Type := ''custom'', otc_Function := f, otc_Custom := c\<rparr>) = ''custom''"
    for f c
  proof -
    have "to_lower (trim_space ''custom'') = ''custom''" by code_simp
    then show ?thesis by (simp add: tool_call_kind_def Let_def)
  qed
  ultimately show ?thesis using assms
    by (simp add: chatToolCallToResponsesOutputItem_def output_item_def Let_def split_beta custom_item_def field_def
        jobj_def json_map_def member_def)
qed

text \<open>The input of a call survives its way through the arguments of a function.\<close>

lemma bridged_input:
  assumes "je_marshal env (jobj [(''input'', JString s)]) = Some a" "trim_space a \<noteq> []"
    "je_parse env (trim_space a) = Some (jobj [(''input'', JString s)])"
  shows "compactJSONValue env (jobj [(''input'', JString s)]) = a" "extractCustomToolInputFromFunctionArguments env a = s"
  using assms by (simp_all add: jobj_def json_map_def compactJSONValue_def extractCustomToolInputFromFunctionArguments_def
      decode_map_def bind_def has_field_def field_def member_def stringifyResponsesToolInput_def)

text \<open>
  A call of a custom tool in the history of a conversation becomes a call of a function in the chat
  request, and such a call from the upstream becomes, in the response, the call of the custom tool again:
  with its identifier, its name and its input, whatever text that is. The codec reads back the
  object that it wrote.\<close>

theorem custom_call_round_trip:
  assumes "s = stringifyResponsesToolInput env (field ''input'' item)" "name = trim_space (sprint env (field ''name'' item))"
    and "List.member names name" "name \<noteq> []" "responsesCallID env item \<noteq> []"
    and "je_marshal env (jobj [(''input'', JString s)]) = Some a" "trim_space a \<noteq> []"
      "je_parse env (trim_space a) = Some (jobj [(''input'', JString s)])"
  shows "\<exists>msg call item'. convertResponsesCustomToolCallItemToChat env item n = ([msg], n) \<and>
    map_option rsc_ToolCalls (set_struct decode_sourceMessage msg c) = Some [call] \<and>
    fst (chatToolCallToResponsesOutputItem env (restoreResponsesCustomToolCall env names call) k) = [item'] \<and>
    custom_item (responsesCallID env item) name s item'"
proof -
  have t: "trim_space name = name" by (simp add: assms(2))
  have "convertResponsesCustomToolCallItemToChat env item n = ([call_message (responsesCallID env item) name a], n)"
    using assms(4,5) by (simp add: convertResponsesCustomToolCallItemToChat_def call_item_def Let_def assms(2)
        bridged_input(1) [OF assms(6-8)] flip: assms(1))
  then show ?thesis using restored_item [of names name "responsesCallID env item" env a k] assms(3-5) t
    by (simp add: call_message_decoded responsesCallID_trimmed bridged_input(2) [OF assms(6-8)])
qed

text \<open>
  Every custom tool of a request is known by its name in the chat request when the response comes: its
  function has that name, and a call of the function is answered as a call of the custom tool, with the
  input taken out of the arguments.\<close>

theorem custom_tool_recognised:
  assumes "bind (je_parse env body) (decode_tools_field env) = Some tools" "tool \<in> set tools"
    and "trim_space (sprint env (field ''type'' tool)) = ''custom''" "trim_space (sprint env (field ''name'' tool)) \<noteq> []"
    and "trim_space i \<noteq> []"
  shows "\<exists>fn item. convert_responses_tool env tool = [fn] \<and>
    field ''name'' (field ''function'' fn) = JString (trim_space (sprint env (field ''name'' tool))) \<and>
    fst (chatToolCallToResponsesOutputItem env (restoreResponsesCustomToolCall env (extractResponsesCustomToolNames env body)
      (no_toolCall\<lparr>otc_ID := i, otc_Type := ''function'',
        otc_Function := \<lparr>ofn_Name = as_string (field ''name'' (field ''function'' fn)), ofn_Arguments = a\<rparr>\<rparr>)) n) = [item] \<and>
    custom_item (trim_space i) (trim_space (sprint env (field ''name'' tool))) (extractCustomToolInputFromFunctionArguments env a) item"
proof -
  let ?name = "trim_space (sprint env (field ''name'' tool))"
  have "List.member (extractResponsesCustomToolNames env body) ?name"
    using assms(1-4) by (auto simp: extractResponsesCustomToolNames_def custom_tool_name_def Let_def)
  then show ?thesis using restored_item [of "extractResponsesCustomToolNames env body" ?name i env a n] assms(3-5)
    by (simp add: convert_responses_tool_def convertResponsesCustomToolToChatFunction_def Let_def function_tool_def
        field_def jobj_def json_map_def member_def as_string_def)
qed

definition demo_tool :: json where
  "demo_tool = JObject [(''name'', JString ''grep''), (''type'', JString ''custom'')]"

definition demo_item :: json where
  "demo_item = JObject [(''call_id'', JString ''c7''), (''input'', JString ''x''), (''name'', JString ''grep''),
     (''type'', JString ''custom_tool_call'')]"

definition demo_custom :: json_env where
  "demo_custom = \<lparr>je_parse = (\<lambda>s. if s = ''t'' then Some (JObject [(''tools'', JArray [demo_tool])])
       else if s = ''a'' then Some (jobj [(''input'', JString ''x'')]) else None),
     je_marshal = (\<lambda>v. Some ''a''), je_float = Some, je_sprint = (\<lambda>v. []), je_uuid = (\<lambda>n. ''1''), je_now = 7\<rparr>"

lemma demo_trims: "trim_space ''grep'' = ''grep''" "trim_space ''c7'' = ''c7''" "trim_space ''custom'' = ''custom''" "trim_space ''a'' = ''a''"
  by code_simp+

lemma demo_fields: "field ''name'' demo_tool = JString ''grep''" "field ''type'' demo_tool = JString ''custom''"
  "field ''name'' demo_item = JString ''grep''" "field ''input'' demo_item = JString ''x''" "field ''call_id'' demo_item = JString ''c7''"
  by (simp_all add: demo_tool_def demo_item_def field_def member_def)

lemma custom_call_round_trip_witness:
  "\<exists>msg call item'. convertResponsesCustomToolCallItemToChat demo_custom demo_item 0 = ([msg], 0) \<and>
    map_option rsc_ToolCalls (set_struct decode_sourceMessage msg undefined) = Some [call] \<and>
    fst (chatToolCallToResponsesOutputItem demo_custom (restoreResponsesCustomToolCall demo_custom [''grep''] call) 0) = [item'] \<and>
    custom_item ''c7'' ''grep'' ''x'' item'"
proof -
  have i: "responsesCallID demo_custom demo_item = ''c7''"
    by (simp add: responsesCallID_def demo_fields demo_trims sprint_def)
  have p: "je_marshal demo_custom (jobj [(''input'', JString ''x'')]) = Some ''a''"
    "je_parse demo_custom (trim_space ''a'') = Some (jobj [(''input'', JString ''x'')])"
    by (simp_all add: demo_custom_def demo_trims)
  show ?thesis
    using custom_call_round_trip [of "''x''" demo_custom demo_item "''grep''" "[''grep'']" "''a''" 0 undefined 0] i p
    by (simp add: demo_fields demo_trims sprint_def stringifyResponsesToolInput_def)
qed

lemma custom_tool_recognised_witness:
  "\<exists>fn item. convert_responses_tool demo_custom demo_tool = [fn] \<and>
    fst (chatToolCallToResponsesOutputItem demo_custom (restoreResponsesCustomToolCall demo_custom
      (extractResponsesCustomToolNames demo_custom ''t'') (no_toolCall\<lparr>otc_ID := ''c7'', otc_Type := ''function'',
        otc_Function := \<lparr>ofn_Name = ''grep'', ofn_Arguments = ''a''\<rparr>\<rparr>)) 0) = [item] \<and> custom_item ''c7'' ''grep'' ''x'' item"
proof -
  have t: "bind (je_parse demo_custom ''t'') (decode_tools_field demo_custom) = Some [demo_tool]"
    by code_simp
  have x: "extractCustomToolInputFromFunctionArguments demo_custom ''a'' = ''x''" by code_simp
  from custom_tool_recognised [OF t, of demo_tool "''c7''" "''a''" 0] show ?thesis
    by (auto simp: demo_fields demo_trims sprint_def x as_string_def)
qed

section \<open>The messages of the chat request\<close>

text \<open>What the chat completions API requires of a message: a role and a content that is not \<open>null\<close>.\<close>

inductive chat_message_ok :: "json \<Rightarrow> bool" where
  "\<lbrakk>map_of kvs ''role'' = Some (JString r); trim_space r \<noteq> []; map_of kvs ''content'' = Some c; c \<noteq> JNull\<rbrakk> \<Longrightarrow>
   chat_message_ok (JObject kvs)"

inductive_cases chat_message_okE: "chat_message_ok v"

lemma trim_roles: "trim_space ''user'' \<noteq> []" "trim_space ''system'' \<noteq> []" "trim_space ''tool'' \<noteq> []" "trim_space ''assistant'' \<noteq> []"
  by code_simp+

lemma call_message_ok: "chat_message_ok (call_message i name a)"
  unfolding call_message_def jobj_def by (rule chat_message_ok.intros) (simp add: json_map_last trim_roles)+

lemma tool_message_ok: "chat_message_ok (tool_message i t)"
  unfolding tool_message_def jobj_def by (rule chat_message_ok.intros) (simp add: json_map_last trim_roles)+

lemma user_message_ok: "c \<noteq> JNull \<Longrightarrow> chat_message_ok (user_message c)"
  unfolding user_message_def jobj_def by (rule chat_message_ok.intros) (simp add: json_map_last trim_roles)+

lemma instructions_ok: "list_all chat_message_ok (responsesInstructionsMessage env raw)"
proof -
  have "chat_message_ok (jobj [(''role'', JString ''system''), (''content'', JString t)])" for t
    unfolding jobj_def by (rule chat_message_ok.intros) (simp add: json_map_last trim_roles)+
  then show ?thesis by (simp add: responsesInstructionsMessage_def Let_def split: option.split)
qed

lemma message_item_ok: "convert_message_item env item = Inr msgs \<Longrightarrow> list_all chat_message_ok msgs"
proof -
  assume c: "convert_message_item env item = Inr msgs"
  define msg where "msg = (if field ''type'' item = JString ''message'' then delete_field ''type'' item else item)"
  show "list_all chat_message_ok msgs"
  proof (cases "trim_space (as_string (field ''role'' msg)) = []")
    case True
    then show ?thesis using c by (simp add: convert_message_item_def flip: msg_def)
  next
    case False
    then obtain kvs r where msg: "msg = JObject kvs" "map_of kvs ''role'' = Some (JString r)" "trim_space r \<noteq> []"
      by (cases msg) (auto simp: field_def member_def as_string_def split: option.splits json.splits)
    have "chat_message_ok (set_field ''content'' x msg)" if "x \<noteq> JNull" for x
      unfolding msg(1) set_field_def using msg that by (auto intro!: chat_message_ok.intros)
    moreover have "chat_message_ok msg" if "field ''content'' msg \<noteq> JNull"
      using msg that by (auto simp: field_def member_def intro!: chat_message_ok.intros split: option.splits)
    moreover have "norm \<noteq> JNull" if "normalizeResponsesStyleContentToChatContent env parts = Inr norm" for parts norm
    proof (cases "convert_each (content_part env) parts")
      case (Inr ps)
      then show ?thesis using that
        by (cases ps rule: remdups_adj.cases)
          (auto simp: normalizeResponsesStyleContentToChatContent_def and_then_def split: json.splits if_splits)
    qed (use that in \<open>simp add: normalizeResponsesStyleContentToChatContent_def and_then_def\<close>)
    ultimately show ?thesis using c False
      by (auto simp: convert_message_item_def and_then_Inr simp flip: msg_def split: json.splits)
  qed
qed

lemma input_item_ok: "convert_input_item env item n = Inr (msgs, n') \<Longrightarrow> list_all chat_message_ok msgs"
  by (auto simp: convert_input_item_def Let_def and_then_Inr convertResponsesCustomToolCallItemToChat_def
      convertResponsesFunctionCallItemToChat_def call_item_def convertResponsesCustomToolCallOutputItemToChat_def
      convertResponsesFunctionCallOutputItemToChat_def call_message_ok tool_message_ok dest: message_item_ok split: if_splits)

lemma input_items_ok: "convert_input_items env items n = Inr msgs \<Longrightarrow> list_all chat_message_ok msgs"
  by (induction items arbitrary: n msgs) (auto simp: and_then_Inr dest: input_item_ok)

lemma responses_messages_ok: "responses_messages env input = Inr msgs \<Longrightarrow> msgs \<noteq> [] \<and> list_all chat_message_ok msgs"
  by (auto simp: responses_messages_def and_then_Inr convertResponsesInputToChatMessages_def user_message_ok dest: input_items_ok
      split: option.splits if_splits)

text \<open>
  A request of the Responses API that is converted has at least one message besides the instructions, and
  every message has a role and a content that is not \<open>null\<close>; its model is that of the route, if there is
  one. A request with no input, or whose items give no message, is an error.\<close>

theorem responses_request_typed:
  assumes "convertResponsesRequestToChat env body upstreamModel = Inr out"
  shows "\<exists>raw input msgs req. bind (je_parse env body) raw_map = Some raw \<and> map_of raw ''input'' = Some input \<and>
    responses_messages env input = Inr msgs \<and> msgs \<noteq> [] \<and> je_marshal env req = Some out \<and>
    field ''messages'' req = JArray (responsesInstructionsMessage env (map_of raw ''instructions'') @ msgs) \<and>
    list_all chat_message_ok (responsesInstructionsMessage env (map_of raw ''instructions'') @ msgs) \<and>
    (trim_space upstreamModel = [] \<or> field ''model'' req = JString (trim_space upstreamModel))"
proof -
  obtain raw input msgs where r: "bind (je_parse env body) raw_map = Some raw" "map_of raw ''input'' = Some input"
    "responses_messages env input = Inr msgs" "je_marshal env (responses_chat_request env upstreamModel raw msgs) = Some out"
    using assms by (auto simp: convertResponsesRequestToChat_def and_then_Inr or_error_Inr)
  moreover have "field ''messages'' (responses_chat_request env upstreamModel raw msgs) =
      JArray (responsesInstructionsMessage env (map_of raw ''instructions'') @ msgs)"
    by (simp add: responses_chat_request_def Let_def jobj_def field_def member_def json_map_last)
  moreover have "trim_space upstreamModel = [] \<or>
      field ''model'' (responses_chat_request env upstreamModel raw msgs) = JString (trim_space upstreamModel)"
    by (simp add: responses_chat_request_def Let_def jobj_def field_def member_def json_map_last)
  ultimately show ?thesis using responses_messages_ok [OF r(3)] instructions_ok
    by (intro exI [of _ raw] exI [of _ input] exI [of _ msgs] exI [of _ "responses_chat_request env upstreamModel raw msgs"]) simp
qed

definition demo_items :: json_env where
  "demo_items = \<lparr>je_parse = (\<lambda>s. if s = ''r'' then Some (JObject [(''input'', JArray [
       JObject [(''role'', JString ''user''), (''type'', JString ''message'')], demo_item])]) else None),
     je_marshal = (\<lambda>v. Some ''{}''), je_float = Some, je_sprint = (\<lambda>v. []), je_uuid = (\<lambda>n. ''1''), je_now = 7\<rparr>"

lemma responses_request_typed_witness:
  "\<exists>msgs req. msgs \<noteq> [] \<and> je_marshal demo_items req = Some ''{}'' \<and> field ''messages'' req = JArray msgs \<and>
    list_all chat_message_ok msgs \<and> field ''model'' req = JString ''m''"
proof -
  have c: "convertResponsesRequestToChat demo_items ''r'' ''m'' = Inr ''{}''" by code_simp
  have m: "trim_space ''m'' = ''m''" by code_simp
  obtain start msgs req where "msgs \<noteq> []" "je_marshal demo_items req = Some ''{}''" "field ''messages'' req = JArray (start @ msgs)"
    "list_all chat_message_ok (start @ msgs)" "trim_space ''m'' = [] \<or> field ''model'' req = JString (trim_space ''m'')"
    using responses_request_typed [OF c] by blast
  then show ?thesis by (intro exI [of _ "start @ msgs"] exI [of _ req]) (simp add: m)
qed

text \<open>
  Calls that the model made together are items next to each other. Each becomes a message of its own, where
  the chat completions API has one message with all the calls before their results.
\<close>

lemma parallel_calls_split:
  assumes "as_string (field ''type'' a) = ''function_call''" "trim_space (sprint env (field ''name'' a)) \<noteq> []" "responsesCallID env a \<noteq> []"
    "as_string (field ''type'' b) = ''function_call''" "trim_space (sprint env (field ''name'' b)) \<noteq> []" "responsesCallID env b \<noteq> []"
  shows "convertResponsesInputToChatMessages env [a, b] =
    Inr (map (\<lambda>i. call_message (responsesCallID env i) (trim_space (sprint env (field ''name'' i)))
      (stringifyResponsesToolInput env (field ''arguments'' i))) [a, b])"
  using assms by (simp add: convertResponsesInputToChatMessages_def convert_input_item_def and_then_def
      convertResponsesFunctionCallItemToChat_def call_item_def Let_def)

end
