(* ===== verification/Stream_To_Anthropic.thy ===== *)
theory Stream_To_Anthropic
  imports Protocol_Data
begin

text \<open>
  The bridge from a stream of chat completion chunks to a stream of Anthropic events
  (\<open>bridgeOpenAIStreamToAnthropic\<close> in \<open>internal/gateway/api/compat.go\<close>). A chunk is decoded, translated to
  events of the type \<open>anthropic_event\<close>, and these are written as the JSON that the source builds.
\<close>

section \<open>The chunks of the upstream\<close>

record openAIStreamToolDelta =
  std_Index :: goint
  std_ID :: string
  std_Type :: string
  std_FunctionName :: string
  std_FunctionArguments :: string

definition no_toolDelta :: openAIStreamToolDelta where
  "no_toolDelta = \<lparr>std_Index = 0, std_ID = [], std_Type = [], std_FunctionName = [], std_FunctionArguments = []\<rparr>"

definition decode_toolDelta :: "(string \<times> json) list \<Rightarrow> openAIStreamToolDelta \<Rightarrow> openAIStreamToolDelta option" where
  "decode_toolDelta kvs d =
     bind (each_field ''index'' set_int64 kvs (std_Index d)) (\<lambda>idx.
     bind (each_field ''id'' set_string kvs (std_ID d)) (\<lambda>i.
     bind (each_field ''type'' set_string kvs (std_Type d)) (\<lambda>ty.
     bind (each_field ''function'' (set_struct (\<lambda>fs (name, args).
         bind (each_field ''name'' set_string fs name) (\<lambda>n.
         bind (each_field ''arguments'' set_string fs args) (\<lambda>a. Some (n, a)))))
       kvs (std_FunctionName d, std_FunctionArguments d)) (\<lambda>(name, args).
       Some \<lparr>std_Index = idx, std_ID = i, std_Type = ty, std_FunctionName = name,
         std_FunctionArguments = args\<rparr>))))"

record openAIStreamChoice =
  osc_Role :: string
  osc_Content :: string
  osc_ToolCalls :: "openAIStreamToolDelta list"
  osc_FinishReason :: string

definition no_choice :: openAIStreamChoice where
  "no_choice = \<lparr>osc_Role = [], osc_Content = [], osc_ToolCalls = [], osc_FinishReason = []\<rparr>"

definition decode_choice :: "(string \<times> json) list \<Rightarrow> openAIStreamChoice \<Rightarrow> openAIStreamChoice option" where
  "decode_choice kvs c =
     bind (each_field ''delta'' (set_struct (\<lambda>fs (role, content, tools).
         bind (each_field ''role'' set_string fs role) (\<lambda>r.
         bind (each_field ''content'' set_string fs content) (\<lambda>t.
         bind (each_field ''tool_calls'' (set_list (set_struct decode_toolDelta) no_toolDelta) fs tools) (\<lambda>ts.
           Some (r, t, ts))))))
       kvs (osc_Role c, osc_Content c, osc_ToolCalls c)) (\<lambda>(role, content, tools).
     bind (each_field ''finish_reason'' set_string kvs (osc_FinishReason c)) (\<lambda>reason.
       Some \<lparr>osc_Role = role, osc_Content = content, osc_ToolCalls = tools, osc_FinishReason = reason\<rparr>))"

record openAIChunk =
  ock_ID :: string
  ock_Model :: string
  ock_Created :: int
  ock_Choices :: "openAIStreamChoice list"
  ock_Usage :: openAIUsagePayload
  ock_ErrorMessage :: string
  ock_ErrorType :: string

definition no_chunk :: openAIChunk where
  "no_chunk = \<lparr>ock_ID = [], ock_Model = [], ock_Created = 0, ock_Choices = [], ock_Usage = no_openAIUsage,
     ock_ErrorMessage = [], ock_ErrorType = []\<rparr>"

definition decode_error :: "(string \<times> json) list \<Rightarrow> string \<times> string \<Rightarrow> (string \<times> string) option" where
  "decode_error fs = (\<lambda>(message, ty).
     bind (each_field ''message'' set_string fs message) (\<lambda>m.
     bind (each_field ''type'' set_string fs ty) (\<lambda>t. Some (m, t))))"

definition decode_chunk :: "json \<Rightarrow> openAIChunk option" where
  "decode_chunk v = set_struct (\<lambda>kvs c.
     bind (each_field ''id'' set_string kvs (ock_ID c)) (\<lambda>i.
     bind (each_field ''model'' set_string kvs (ock_Model c)) (\<lambda>m.
     bind (each_field ''created'' set_int64 kvs (ock_Created c)) (\<lambda>created.
     bind (each_field ''choices'' (set_list (set_struct decode_choice) no_choice) kvs (ock_Choices c)) (\<lambda>choices.
     bind (each_field ''usage'' (set_struct decode_openAIUsage) kvs (ock_Usage c)) (\<lambda>usage.
     bind (each_field ''error'' (set_struct decode_error) kvs (ock_ErrorMessage c, ock_ErrorType c)) (\<lambda>(em, et).
       Some \<lparr>ock_ID = i, ock_Model = m, ock_Created = created, ock_Choices = choices, ock_Usage = usage,
         ock_ErrorMessage = em, ock_ErrorType = et\<rparr>)))))))  v no_chunk"

section \<open>The events for the client\<close>

datatype anthropic_event =
    AE_MessageStart string string
  | AE_TextStart nat
  | AE_ToolStart nat string string
  | AE_TextDelta nat string
  | AE_ToolDelta nat string
  | AE_BlockStop nat
  | AE_MessageDelta string int
  | AE_MessageStop
  | AE_Error string string

fun event_name :: "anthropic_event \<Rightarrow> string" where
  "event_name (AE_MessageStart i m) = ''message_start''"
| "event_name (AE_TextStart b) = ''content_block_start''"
| "event_name (AE_ToolStart b i n) = ''content_block_start''"
| "event_name (AE_TextDelta b t) = ''content_block_delta''"
| "event_name (AE_ToolDelta b p) = ''content_block_delta''"
| "event_name (AE_BlockStop b) = ''content_block_stop''"
| "event_name (AE_MessageDelta r n) = ''message_delta''"
| "event_name AE_MessageStop = ''message_stop''"
| "event_name (AE_Error t m) = ''error''"

fun event_fields :: "anthropic_event \<Rightarrow> (string \<times> json) list" where
  "event_fields (AE_MessageStart i m) = [(''message'', jobj [(''id'', JString i), (''type'', JString ''message''),
     (''role'', JString ''assistant''), (''model'', JString m), (''content'', JArray []), (''stop_reason'', JNull),
     (''stop_sequence'', JNull), (''usage'', jobj [(''input_tokens'', jint 0), (''output_tokens'', jint 0)])])]"
| "event_fields (AE_TextStart b) = [(''index'', jint (int b)),
     (''content_block'', jobj [(''type'', JString ''text''), (''text'', JString [])])]"
| "event_fields (AE_ToolStart b i n) = [(''index'', jint (int b)),
     (''content_block'', jobj [(''type'', JString ''tool_use''), (''id'', JString i), (''name'', JString n),
       (''input'', jobj [])])]"
| "event_fields (AE_TextDelta b t) = [(''index'', jint (int b)),
     (''delta'', jobj [(''type'', JString ''text_delta''), (''text'', JString t)])]"
| "event_fields (AE_ToolDelta b p) = [(''index'', jint (int b)),
     (''delta'', jobj [(''type'', JString ''input_json_delta''), (''partial_json'', JString p)])]"
| "event_fields (AE_BlockStop b) = [(''index'', jint (int b))]"
| "event_fields (AE_MessageDelta r n) = [(''delta'', jobj [(''stop_reason'', JString r), (''stop_sequence'', JNull)]),
     (''usage'', jobj [(''output_tokens'', jint n)])]"
| "event_fields AE_MessageStop = []"
| "event_fields (AE_Error t m) = [(''error'', jobj [(''type'', JString t), (''message'', JString m)])]"

definition event_json :: "anthropic_event \<Rightarrow> json" where
  "event_json e = jobj ((''type'', JString (event_name e)) # event_fields e)"

section \<open>Translation\<close>

record openAIStreamToolState =
  ost_id :: string
  ost_name :: string
  ost_block :: nat
  ost_started :: bool
  ost_arguments :: string

text \<open>The tools are the entries of a map, in the order of their insertion.\<close>

record openAIToAnthropicStreamState =
  oas_id :: string
  oas_model :: string
  oas_created :: int
  oas_usage :: openAIUsagePayload
  oas_messageStarted :: bool
  oas_textStarted :: bool
  oas_textBlock :: nat
  oas_nextBlock :: nat
  oas_tools :: "(goint \<times> openAIStreamToolState) list"
  oas_done :: bool

text \<open>The order in which a Go iteration visits the entries of the map belongs to the environment.\<close>

record bridge_env = json_env +
  be_visit :: "(goint \<times> openAIStreamToolState) list \<Rightarrow> (goint \<times> openAIStreamToolState) list"

definition openAI_mergeUsage :: "openAIUsagePayload \<Rightarrow> openAIUsagePayload \<Rightarrow> openAIUsagePayload" where
  "openAI_mergeUsage new old =
     (let u = old\<lparr>oup_PromptTokens := (if oup_PromptTokens old < oup_PromptTokens new then oup_PromptTokens new else oup_PromptTokens old),
            oup_CompletionTokens := (if oup_CompletionTokens old < oup_CompletionTokens new then oup_CompletionTokens new else oup_CompletionTokens old),
            oup_TotalTokens := (if oup_TotalTokens old < oup_TotalTokens new then oup_TotalTokens new else oup_TotalTokens old)\<rparr>;
          cached = openAIUsageCachedTokens new
      in if openAIUsageCachedTokens u < cached
         then u\<lparr>oup_PromptTokensDetails := cached, oup_InputTokensDetails := cached\<rparr> else u)"

definition ensureOpenAIToAnthropicMessageStarted ::
  "string \<Rightarrow> openAIToAnthropicStreamState \<Rightarrow> anthropic_event list \<times> openAIToAnthropicStreamState" where
  "ensureOpenAIToAnthropicMessageStarted uuid st =
     (if oas_messageStarted st then ([], st)
      else let i = (if oas_id st = [] then ''msg_'' @ uuid else oas_id st);
               m = (if oas_model st = [] then ''unknown'' else oas_model st)
        in ([AE_MessageStart i m], st\<lparr>oas_messageStarted := True, oas_id := i, oas_model := m\<rparr>))"

definition openAITextDeltaToAnthropic ::
  "string \<Rightarrow> openAIToAnthropicStreamState \<Rightarrow> anthropic_event list \<times> openAIToAnthropicStreamState" where
  "openAITextDeltaToAnthropic txt st =
     (if oas_textStarted st then ([AE_TextDelta (oas_textBlock st) txt], st)
      else let b = oas_nextBlock st
        in ([AE_TextStart b, AE_TextDelta b txt], st\<lparr>oas_textStarted := True, oas_textBlock := b, oas_nextBlock := Suc b\<rparr>))"

definition openAIToolDeltaToAnthropic ::
  "openAIStreamToolDelta \<Rightarrow> openAIToAnthropicStreamState \<Rightarrow> anthropic_event list \<times> openAIToAnthropicStreamState" where
  "openAIToolDeltaToAnthropic d st =
     (let (tool0, next) = (case map_of (oas_tools st) (std_Index d) of
              Some t \<Rightarrow> (t, oas_nextBlock st)
            | None \<Rightarrow> (\<lparr>ost_id = [], ost_name = [], ost_block = oas_nextBlock st, ost_started = False,
                ost_arguments = []\<rparr>, Suc (oas_nextBlock st)));
          i0 = (if trim_space (std_ID d) \<noteq> [] then trim_space (std_ID d) else ost_id tool0);
          n = (if trim_space (std_FunctionName d) \<noteq> [] then trim_space (std_FunctionName d) else ost_name tool0);
          i = (if i0 = [] then ''toolu_'' @ show_int (std_Index d) else i0);
          start = (if ost_started tool0 then [] else [AE_ToolStart (ost_block tool0) i n]);
          delta = (if std_FunctionArguments d \<noteq> [] then [AE_ToolDelta (ost_block tool0) (std_FunctionArguments d)] else []);
          tool = tool0\<lparr>ost_id := i, ost_name := n, ost_started := True,
            ost_arguments := ost_arguments tool0 @ std_FunctionArguments d\<rparr>
      in (start @ delta, st\<lparr>oas_tools := AList.update (std_Index d) tool (oas_tools st), oas_nextBlock := next\<rparr>))"

definition finalizeOpenAIToAnthropicStream ::
  "((goint \<times> openAIStreamToolState) list \<Rightarrow> (goint \<times> openAIStreamToolState) list) \<Rightarrow> string \<Rightarrow>
     openAIToAnthropicStreamState \<Rightarrow> anthropic_event list \<times> openAIToAnthropicStreamState" where
  "finalizeOpenAIToAnthropicStream visit stopReason st =
     (if oas_done st then ([], st)
      else ((if oas_textStarted st then [AE_BlockStop (oas_textBlock st)] else []) @
        map (\<lambda>(_, t). AE_BlockStop (ost_block t)) (filter (\<lambda>(_, t). ost_started t) (visit (oas_tools st))) @
        [AE_MessageDelta (firstNonEmpty [stopReason, ''end_turn'']) (oup_CompletionTokens (oas_usage st)), AE_MessageStop],
        st\<lparr>oas_done := True\<rparr>))"

fun tool_deltas :: "openAIStreamToolDelta list \<Rightarrow> openAIToAnthropicStreamState \<Rightarrow>
    anthropic_event list \<times> openAIToAnthropicStreamState" where
  "tool_deltas [] st = ([], st)"
| "tool_deltas (d # ds) st =
     (case openAIToolDeltaToAnthropic d st of (es, st1) \<Rightarrow>
        (case tool_deltas ds st1 of (es', st2) \<Rightarrow> (es @ es', st2)))"

definition translate_choice :: "bridge_env \<Rightarrow> openAIStreamChoice \<Rightarrow> openAIToAnthropicStreamState \<Rightarrow>
    anthropic_event list \<times> openAIToAnthropicStreamState" where
  "translate_choice env c st =
     (let (es1, st1) = (if osc_Content c \<noteq> [] then openAITextDeltaToAnthropic (osc_Content c) st else ([], st));
          (es2, st2) = tool_deltas (osc_ToolCalls c) st1;
          (es3, st3) = (if osc_FinishReason c \<noteq> []
            then finalizeOpenAIToAnthropicStream (be_visit env) (mapOpenAIFinishReasonToAnthropic (osc_FinishReason c)) st2
            else ([], st2))
      in (es1 @ es2 @ es3, st3))"

fun translate_choices :: "bridge_env \<Rightarrow> openAIStreamChoice list \<Rightarrow> openAIToAnthropicStreamState \<Rightarrow>
    anthropic_event list \<times> openAIToAnthropicStreamState" where
  "translate_choices env [] st = ([], st)"
| "translate_choices env (c # cs) st =
     (case translate_choice env c st of (es, st1) \<Rightarrow>
        (case translate_choices env cs st1 of (es', st2) \<Rightarrow> (es @ es', st2)))"

definition take_chunk :: "openAIChunk \<Rightarrow> openAIToAnthropicStreamState \<Rightarrow> openAIToAnthropicStreamState" where
  "take_chunk c st = st\<lparr>
     oas_id := (if ock_ID c \<noteq> [] then ock_ID c else oas_id st),
     oas_model := (if oas_model st = [] \<and> ock_Model c \<noteq> [] then ock_Model c else oas_model st),
     oas_created := (if 0 < ock_Created c then ock_Created c else oas_created st),
     oas_usage := openAI_mergeUsage (ock_Usage c) (oas_usage st)\<rparr>"

definition translate_chunk :: "bridge_env \<Rightarrow> openAIChunk \<Rightarrow> openAIToAnthropicStreamState \<Rightarrow>
    (anthropic_event list \<times> bool) \<times> openAIToAnthropicStreamState" where
  "translate_chunk env c st =
     (if ock_ErrorMessage c \<noteq> []
      then (([AE_Error (firstNonEmpty [ock_ErrorType c, ''api_error'']) (ock_ErrorMessage c)], True), st)
      else
        let (es1, st1) = ensureOpenAIToAnthropicMessageStarted (je_uuid env 0) (take_chunk c st);
            (es2, st2) = translate_choices env (ock_Choices c) st1
        in ((es1 @ es2, False), st2))"

text \<open>The second component is the source's \<open>done\<close>.\<close>

definition translateOpenAIEventToAnthropic :: "bridge_env \<Rightarrow> string \<Rightarrow> openAIToAnthropicStreamState \<Rightarrow>
    (anthropic_event list \<times> bool) \<times> openAIToAnthropicStreamState" where
  "translateOpenAIEventToAnthropic env data st =
     (let trimmed = trim_space data in
      if trimmed = [] then (([], False), st)
      else if trimmed = ''[DONE]'' then (([], True), st)
      else case bind (je_parse env trimmed) decode_chunk of
          None \<Rightarrow> (([], False), st)
        | Some c \<Rightarrow> translate_chunk env c st)"

section \<open>The bridge\<close>

definition to_anthropic_event :: "bridge_env \<Rightarrow> string \<Rightarrow> openAIToAnthropicStreamState \<Rightarrow>
    anthropic_event list \<times> openAIToAnthropicStreamState" where
  "to_anthropic_event env data st =
     (case translateOpenAIEventToAnthropic env data st of
        ((es, False), st1) \<Rightarrow> (es, st1)
      | ((es, True), st1) \<Rightarrow>
          (case finalizeOpenAIToAnthropicStream (be_visit env) ''end_turn'' st1 of (es', st2) \<Rightarrow> (es @ es', st2)))"

definition emit_anthropic :: "bridge_env \<Rightarrow> anthropic_event list \<Rightarrow> ResponseWriter \<Rightarrow> ResponseWriter" where
  "emit_anthropic env es w = fold (\<lambda>e. emit_event (je_marshal env) (event_name e) (event_json e)) es w"

definition handle_openAI_event :: "bridge_env \<Rightarrow> string \<Rightarrow>
    openAIToAnthropicStreamState \<times> ResponseWriter \<Rightarrow> openAIToAnthropicStreamState \<times> ResponseWriter" where
  "handle_openAI_event env data = (\<lambda>(st, w).
     case to_anthropic_event env data st of (es, st') \<Rightarrow> (st', emit_anthropic env es w))"

definition finish_openAI_stream :: "bridge_env \<Rightarrow>
    openAIToAnthropicStreamState \<times> ResponseWriter \<Rightarrow> openAIToAnthropicStreamState \<times> ResponseWriter" where
  "finish_openAI_stream env = (\<lambda>(st, w).
     case finalizeOpenAIToAnthropicStream (be_visit env) ''end_turn'' st of
       (es, st') \<Rightarrow> (st', emit_anthropic env es w))"

definition fresh_openAIToAnthropic :: "bridge_env \<Rightarrow> string \<Rightarrow> openAIToAnthropicStreamState" where
  "fresh_openAIToAnthropic env clientModel = \<lparr>oas_id = [], oas_model = trim_space clientModel, oas_created = je_now env,
     oas_usage = no_openAIUsage, oas_messageStarted = False, oas_textStarted = False, oas_textBlock = 0,
     oas_nextBlock = 0, oas_tools = [], oas_done = False\<rparr>"

definition bridgeOpenAIStreamToAnthropicStarted ::
  "bridge_env \<Rightarrow> stream_body option \<Rightarrow> string \<Rightarrow> ResponseWriter \<Rightarrow> tokens \<times> ResponseWriter" where
  "bridgeOpenAIStreamToAnthropicStarted env body clientModel w =
     (case body of
        None \<Rightarrow> ((0, 0, 0), w)
      | Some b \<Rightarrow>
          (case bridge_loop (handle_openAI_event env) (finish_openAI_stream env) (sb_eof b) (sb_content b)
              ([], (fresh_openAIToAnthropic env clientModel, w)) of
             (st, w') \<Rightarrow> ((oup_PromptTokens (oas_usage st), openAIUsageCachedTokens (oas_usage st),
               oup_CompletionTokens (oas_usage st)), w')))"

definition bridgeOpenAIStreamToAnthropic ::
  "bridge_env \<Rightarrow> goint \<Rightarrow> stream_body option \<Rightarrow> string \<Rightarrow> ResponseWriter \<Rightarrow> tokens \<times> ResponseWriter" where
  "bridgeOpenAIStreamToAnthropic env statusCode body clientModel w =
     bridgeOpenAIStreamToAnthropicStarted env body clientModel (bridge_headers statusCode w)"

section \<open>What a client may receive\<close>

text \<open>
  The protocol of the event stream, as a client sees it: the message starts once and first; blocks are
  numbered in the order in which they start; a delta belongs to a block of its kind that is open; all
  blocks are stopped before the message ends.
\<close>

record client_view =
  vw_started :: bool
  vw_text :: "nat set"
  vw_tools :: "nat set"
  vw_count :: nat
  vw_ended :: bool
  vw_stopped :: bool

definition fresh_view :: client_view where
  "fresh_view = \<lparr>vw_started = False, vw_text = {}, vw_tools = {}, vw_count = 0, vw_ended = False, vw_stopped = False\<rparr>"

definition in_message :: "client_view \<Rightarrow> bool" where
  "in_message v \<longleftrightarrow> vw_started v \<and> \<not> vw_ended v \<and> \<not> vw_stopped v"

fun view_event :: "anthropic_event \<Rightarrow> client_view \<Rightarrow> client_view option" where
  "view_event (AE_MessageStart i m) v = (if vw_started v then None else Some (v\<lparr>vw_started := True\<rparr>))"
| "view_event (AE_TextStart b) v =
     (if in_message v \<and> b = vw_count v then Some (v\<lparr>vw_text := insert b (vw_text v), vw_count := Suc b\<rparr>) else None)"
| "view_event (AE_ToolStart b i n) v =
     (if in_message v \<and> b = vw_count v \<and> i \<noteq> [] then Some (v\<lparr>vw_tools := insert b (vw_tools v), vw_count := Suc b\<rparr>) else None)"
| "view_event (AE_TextDelta b t) v = (if in_message v \<and> b \<in> vw_text v \<and> t \<noteq> [] then Some v else None)"
| "view_event (AE_ToolDelta b p) v = (if in_message v \<and> b \<in> vw_tools v \<and> p \<noteq> [] then Some v else None)"
| "view_event (AE_BlockStop b) v =
     (if in_message v \<and> b \<in> vw_text v \<union> vw_tools v
      then Some (v\<lparr>vw_text := vw_text v - {b}, vw_tools := vw_tools v - {b}\<rparr>) else None)"
| "view_event (AE_MessageDelta r n) v =
     (if in_message v \<and> vw_text v = {} \<and> vw_tools v = {} then Some (v\<lparr>vw_ended := True\<rparr>) else None)"
| "view_event AE_MessageStop v = (if vw_ended v \<and> \<not> vw_stopped v then Some (v\<lparr>vw_stopped := True\<rparr>) else None)"
| "view_event (AE_Error t m) v = None"

fun view_events :: "anthropic_event list \<Rightarrow> client_view \<Rightarrow> client_view option" where
  "view_events [] v = Some v"
| "view_events (e # es) v = (case view_event e v of None \<Rightarrow> None | Some v' \<Rightarrow> view_events es v')"

lemma view_events_append: "view_events (es @ es') v = (case view_events es v of None \<Rightarrow> None | Some v' \<Rightarrow> view_events es' v')"
  by (induction es arbitrary: v) (auto split: option.split)

text \<open>The events of a whole stream.\<close>

abbreviation anthropic_events :: "bridge_env \<Rightarrow> string list \<Rightarrow> openAIToAnthropicStreamState \<Rightarrow>
    anthropic_event list \<times> openAIToAnthropicStreamState" where
  "anthropic_events env \<equiv> bridge_outputs (to_anthropic_event env)"

definition stream_of_events :: "bridge_env \<Rightarrow> string list \<Rightarrow> openAIToAnthropicStreamState \<Rightarrow>
    anthropic_event list \<times> openAIToAnthropicStreamState" where
  "stream_of_events env ds st =
     (case anthropic_events env ds st of (es, st1) \<Rightarrow>
        (case finalizeOpenAIToAnthropicStream (be_visit env) ''end_turn'' st1 of (es', st2) \<Rightarrow> (es @ es', st2)))"

interpretation anthropic: event_bridge "to_anthropic_event env" "finalizeOpenAIToAnthropicStream (be_visit env) ''end_turn''"
  "\<lambda>e. emit_event (je_marshal env) (event_name e) (event_json e)" "handle_openAI_event env" "finish_openAI_stream env" for env
  by unfold_locales (simp_all add: handle_openAI_event_def finish_openAI_stream_def emit_anthropic_def emit_event_sent_on split_beta)

lemma bridge_is_stream_of_events:
  assumes "sb_eof body"
  shows "snd (bridgeOpenAIStreamToAnthropicStarted env (Some body) m w) =
    emit_anthropic env (fst (stream_of_events env (bridged_events body) (fresh_openAIToAnthropic env m))) w"
  using assms unfolding bridgeOpenAIStreamToAnthropicStarted_def option.simps anthropic.bridge_is_outputs
  by (simp add: stream_of_events_def emit_anthropic_def split_beta Let_def)

section \<open>The state and the client agree\<close>

definition text_blocks :: "openAIToAnthropicStreamState \<Rightarrow> nat set" where
  "text_blocks st = (if oas_textStarted st then {oas_textBlock st} else {})"

definition tool_blocks :: "openAIToAnthropicStreamState \<Rightarrow> nat list" where
  "tool_blocks st = map (\<lambda>(k, t). ost_block t) (oas_tools st)"

definition state_ok :: "openAIToAnthropicStreamState \<Rightarrow> bool" where
  "state_ok st \<longleftrightarrow> distinct (map fst (oas_tools st)) \<and> distinct (tool_blocks st) \<and>
     (\<forall>(k, t) \<in> set (oas_tools st). ost_started t \<and> ost_id t \<noteq> []) \<and>
     text_blocks st \<inter> set (tool_blocks st) = {} \<and> (\<forall>b \<in> text_blocks st \<union> set (tool_blocks st). b < oas_nextBlock st)"

definition agrees :: "openAIToAnthropicStreamState \<Rightarrow> client_view \<Rightarrow> bool" where
  "agrees st v \<longleftrightarrow> state_ok st \<and> vw_started v = oas_messageStarted st \<and> vw_ended v = oas_done st \<and> vw_stopped v = oas_done st \<and>
     (if oas_done st then oas_messageStarted st
      else vw_text v = text_blocks st \<and> vw_tools v = set (tool_blocks st) \<and> vw_count v = oas_nextBlock st \<and>
        (oas_messageStarted st \<or> (oas_nextBlock st = 0)))"

lemma agrees_open: "agrees st v \<Longrightarrow> \<not> oas_done st \<Longrightarrow> oas_messageStarted st \<Longrightarrow> in_message v"
  by (simp add: agrees_def in_message_def)

lemma agrees_fresh: "agrees (fresh_openAIToAnthropic env m) fresh_view"
  by (simp add: agrees_def state_ok_def fresh_openAIToAnthropic_def fresh_view_def text_blocks_def tool_blocks_def)

lemma agrees_cong:
  "oas_messageStarted st' = oas_messageStarted st \<Longrightarrow> oas_done st' = oas_done st \<Longrightarrow> oas_textStarted st' = oas_textStarted st \<Longrightarrow>
   oas_textBlock st' = oas_textBlock st \<Longrightarrow> oas_nextBlock st' = oas_nextBlock st \<Longrightarrow> oas_tools st' = oas_tools st \<Longrightarrow>
   agrees st' v = agrees st v"
  by (simp add: agrees_def state_ok_def text_blocks_def tool_blocks_def)

lemma text_delta_view:
  assumes ok: "agrees st v" "\<not> oas_done st" "oas_messageStarted st" and t: "t \<noteq> []"
    and step: "openAITextDeltaToAnthropic t st = (es, st')"
  shows "\<exists>v'. view_events es v = Some v' \<and> agrees st' v' \<and> \<not> oas_done st' \<and> oas_messageStarted st'"
proof (cases "oas_textStarted st")
  case True
  with step t ok agrees_open [OF ok] show ?thesis
    by (auto simp: openAITextDeltaToAnthropic_def agrees_def text_blocks_def)
next
  case False
  let ?v = "v\<lparr>vw_text := insert (oas_nextBlock st) (vw_text v), vw_count := Suc (oas_nextBlock st)\<rparr>"
  have "in_message ?v" using agrees_open [OF ok] by (simp add: in_message_def)
  with False step t ok agrees_open [OF ok] have "view_events es v = Some ?v"
    by (auto simp: openAITextDeltaToAnthropic_def agrees_def Let_def)
  moreover have "agrees st' ?v"
  proof -
    have st': "st' = st\<lparr>oas_textStarted := True, oas_textBlock := oas_nextBlock st, oas_nextBlock := Suc (oas_nextBlock st)\<rparr>"
      using False step by (simp add: openAITextDeltaToAnthropic_def Let_def)
    have blocks: "text_blocks st' = {oas_nextBlock st}" "tool_blocks st' = tool_blocks st" "text_blocks st = {}"
      using False by (simp_all add: st' text_blocks_def tool_blocks_def)
    from ok show ?thesis
      by (simp add: agrees_def state_ok_def blocks) (auto simp: st')
  qed
  moreover have "\<not> oas_done st'" "oas_messageStarted st'"
    using False step ok by (auto simp: openAITextDeltaToAnthropic_def Let_def)
  ultimately show ?thesis by blast
qed

text \<open>A tool is looked up or added, and its block is started at the first delta.\<close>

lemma tool_entry:
  assumes "state_ok st" "map_of (oas_tools st) k = Some t"
  shows "ost_started t" "ost_id t \<noteq> []" "ost_block t \<in> set (tool_blocks st)"
  using assms map_of_SomeD [OF assms(2)] by (auto simp: state_ok_def tool_blocks_def)

lemma update_present:
  assumes "map_of ts k = Some t" "ost_block t' = ost_block t"
  shows "map (\<lambda>(k, t). ost_block t) (AList.update k t' ts) = map (\<lambda>(k, t). ost_block t) ts"
    "map fst (AList.update k t' ts) = map fst ts"
  using assms by (induction ts) auto

lemma tool_delta_view:
  assumes ok: "agrees st v" "\<not> oas_done st" "oas_messageStarted st"
    and step: "openAIToolDeltaToAnthropic d st = (es, st')"
  shows "\<exists>v'. view_events es v = Some v' \<and> agrees st' v' \<and> \<not> oas_done st' \<and> oas_messageStarted st'"
proof (cases "map_of (oas_tools st) (std_Index d)")
  case (Some t)
  have sok: "state_ok st" using ok by (simp add: agrees_def)
  note entry = tool_entry [OF sok Some]
  obtain t' where st': "st' = st\<lparr>oas_tools := AList.update (std_Index d) t' (oas_tools st)\<rparr>"
    and t': "ost_block t' = ost_block t" "ost_started t'" "ost_id t' \<noteq> []"
    and es: "es = (if std_FunctionArguments d \<noteq> [] then [AE_ToolDelta (ost_block t) (std_FunctionArguments d)] else [])"
    using step Some entry(1,2) by (auto simp: openAIToolDeltaToAnthropic_def Let_def)
  have blocks: "tool_blocks st' = tool_blocks st" "map fst (oas_tools st') = map fst (oas_tools st)"
      "text_blocks st' = text_blocks st"
    using update_present [OF Some t'(1)] by (simp_all add: st' tool_blocks_def text_blocks_def)
  have "\<forall>(k, t) \<in> set (oas_tools st'). ost_started t \<and> ost_id t \<noteq> []"
    using set_update [of "std_Index d" t' "oas_tools st"] sok t'(2,3) by (auto simp: st' state_ok_def)
  with sok have "state_ok st'" by (simp add: state_ok_def blocks) (simp add: st')
  with ok have "agrees st' v" by (simp add: agrees_def blocks) (simp add: st')
  moreover have "view_events es v = Some v"
    using entry(3) ok agrees_open [OF ok] by (simp add: es agrees_def)
  moreover have "\<not> oas_done st'" "oas_messageStarted st'" using ok by (simp_all add: st')
  ultimately show ?thesis by blast
next
  case None
  let ?b = "oas_nextBlock st"
  let ?v = "v\<lparr>vw_tools := insert ?b (vw_tools v), vw_count := Suc ?b\<rparr>"
  obtain t' i n where st': "st' = st\<lparr>oas_tools := oas_tools st @ [(std_Index d, t')], oas_nextBlock := Suc ?b\<rparr>"
    and t': "ost_block t' = ?b" "ost_started t'" "ost_id t' = i" "i \<noteq> []"
    and es: "es = AE_ToolStart ?b i n # (if std_FunctionArguments d \<noteq> [] then [AE_ToolDelta ?b (std_FunctionArguments d)] else [])"
    using step None by (auto simp: openAIToolDeltaToAnthropic_def Let_def update_absent)
  have sok: "state_ok st" using ok by (simp add: agrees_def)
  have blocks: "tool_blocks st' = tool_blocks st @ [?b]" "text_blocks st' = text_blocks st"
    using t'(1) by (simp_all add: st' tool_blocks_def text_blocks_def)
  have "std_Index d \<notin> fst ` set (oas_tools st)" using None by (simp add: map_of_eq_None_iff)
  with sok t' have "state_ok st'"
    by (simp add: state_ok_def blocks) (auto simp: st' intro: less_SucI)
  with ok have "agrees st' ?v" by (simp add: agrees_def blocks) (simp add: st')
  moreover have "view_events es v = Some ?v"
    using ok t'(4) agrees_open [OF ok] by (auto simp: es agrees_def in_message_def)
  moreover have "\<not> oas_done st'" "oas_messageStarted st'" using ok by (simp_all add: st')
  ultimately show ?thesis by blast
qed

lemma tool_deltas_view:
  "agrees st v \<Longrightarrow> \<not> oas_done st \<Longrightarrow> oas_messageStarted st \<Longrightarrow> tool_deltas ds st = (es, st') \<Longrightarrow>
   \<exists>v'. view_events es v = Some v' \<and> agrees st' v' \<and> \<not> oas_done st' \<and> oas_messageStarted st'"
proof (induction ds arbitrary: st v es)
  case Nil
  then show ?case by auto
next
  case (Cons d ds)
  obtain es1 st1 where d: "openAIToolDeltaToAnthropic d st = (es1, st1)" by fastforce
  obtain es2 where ds: "tool_deltas ds st1 = (es2, st')" "es = es1 @ es2"
    using Cons.prems(4) d by (auto split: prod.splits)
  from tool_delta_view [OF Cons.prems(1-3) d] obtain v1 where v1: "view_events es1 v = Some v1" "agrees st1 v1"
    "\<not> oas_done st1" "oas_messageStarted st1" by blast
  from Cons.IH [OF v1(2-4) ds(1)] obtain v2 where "view_events es2 v1 = Some v2" "agrees st' v2"
    "\<not> oas_done st'" "oas_messageStarted st'" by blast
  then show ?case by (intro exI [of _ v2]) (simp add: ds(2) view_events_append v1(1))
qed

text \<open>The end of the message: every open block is stopped, in whatever order the map is visited.\<close>

lemma stop_blocks:
  assumes "in_message v" "distinct bs" "set bs \<subseteq> vw_text v \<union> vw_tools v"
  shows "view_events (map AE_BlockStop bs) v = Some (v\<lparr>vw_text := vw_text v - set bs, vw_tools := vw_tools v - set bs\<rparr>)"
  using assms
proof (induction bs arbitrary: v)
  case (Cons b bs)
  let ?v = "v\<lparr>vw_text := vw_text v - {b}, vw_tools := vw_tools v - {b}\<rparr>"
  have "view_events (map AE_BlockStop bs) ?v =
      Some (?v\<lparr>vw_text := vw_text ?v - set bs, vw_tools := vw_tools ?v - set bs\<rparr>)"
    using Cons.prems by (intro Cons.IH) (auto simp: in_message_def)
  moreover have "vw_text v - {b} - set bs = vw_text v - insert b (set bs)"
      "vw_tools v - {b} - set bs = vw_tools v - insert b (set bs)" by auto
  ultimately show ?case using Cons.prems by simp
qed simp

lemma finalize_view:
  assumes ok: "agrees st v" "oas_messageStarted st" and visit: "\<And>ts. mset (visit ts) = mset ts"
    and step: "finalizeOpenAIToAnthropicStream visit r st = (es, st')"
  shows "\<exists>v'. view_events es v = Some v' \<and> agrees st' v' \<and> oas_done st' \<and> oas_messageStarted st'"
proof (cases "oas_done st")
  case True
  with step ok show ?thesis by (auto simp: finalizeOpenAIToAnthropicStream_def)
next
  case False
  let ?ts = "visit (oas_tools st)"
  define bs where "bs = (if oas_textStarted st then [oas_textBlock st] else []) @ map (\<lambda>(k, t). ost_block t) ?ts"
  have sok: "state_ok st" using ok by (simp add: agrees_def)
  have same: "set ?ts = set (oas_tools st)" using visit mset_eq_setD by blast
  have "filter (\<lambda>(k, t). ost_started t) ?ts = ?ts"
    using sok same by (intro filter_True) (auto simp: state_ok_def)
  then have es: "es = map AE_BlockStop bs @ [AE_MessageDelta (firstNonEmpty [r, ''end_turn''])
      (oup_CompletionTokens (oas_usage st)), AE_MessageStop]" and st': "st' = st\<lparr>oas_done := True\<rparr>"
    using step False by (auto simp: finalizeOpenAIToAnthropicStream_def bs_def split_def)
  have "mset (map (\<lambda>(k, t). ost_block t) ?ts) = mset (tool_blocks st)"
    using visit by (simp add: tool_blocks_def)
  then have tb: "distinct (map (\<lambda>(k, t). ost_block t) ?ts)" "set (map (\<lambda>(k, t). ost_block t) ?ts) = set (tool_blocks st)"
    using sok by (metis state_ok_def mset_eq_imp_distinct_iff, metis mset_eq_setD)
  have set_bs: "set bs = text_blocks st \<union> set (tool_blocks st)"
    using tb(2) by (simp add: text_blocks_def bs_def del: set_map)
  moreover have "distinct bs"
    using tb sok by (auto simp: state_ok_def text_blocks_def bs_def simp del: set_map)
  moreover have vs: "vw_text v = text_blocks st" "vw_tools v = set (tool_blocks st)" "in_message v"
    using ok False by (simp_all add: agrees_def in_message_def)
  ultimately have "view_events (map AE_BlockStop bs) v =
      Some (v\<lparr>vw_text := vw_text v - set bs, vw_tools := vw_tools v - set bs\<rparr>)"
    by (intro stop_blocks) auto
  moreover have "vw_text v - set bs = {}" "vw_tools v - set bs = {}" using vs set_bs by auto
  ultimately have "view_events es v = Some (v\<lparr>vw_text := {}, vw_tools := {}, vw_ended := True, vw_stopped := True\<rparr>)"
    using vs(3) by (simp add: es view_events_append in_message_def)
  moreover have "state_ok st'" using sok by (simp add: st' state_ok_def text_blocks_def tool_blocks_def cong: if_cong)
  then have "agrees st' (v\<lparr>vw_text := {}, vw_tools := {}, vw_ended := True, vw_stopped := True\<rparr>)"
    using ok by (simp add: agrees_def st')
  ultimately show ?thesis using ok by (auto simp: st')
qed

section \<open>What the upstream sends\<close>

definition chunk_of :: "bridge_env \<Rightarrow> string \<Rightarrow> openAIChunk option" where
  "chunk_of env d =
     (if trim_space d = [] \<or> trim_space d = ''[DONE]'' then None else bind (je_parse env (trim_space d)) decode_chunk)"

text \<open>The choices of an event; the end marker counts as a choice that has finished.\<close>

definition choices_of :: "bridge_env \<Rightarrow> string \<Rightarrow> openAIStreamChoice list" where
  "choices_of env d =
     (if trim_space d = ''[DONE]'' then [no_choice\<lparr>osc_FinishReason := ''stop''\<rparr>]
      else case chunk_of env d of None \<Rightarrow> [] | Some c \<Rightarrow> ock_Choices c)"

text \<open>Nothing is added to the message after a choice has finished.\<close>

fun quiet_after_finish :: "bool \<Rightarrow> openAIStreamChoice list \<Rightarrow> bool" where
  "quiet_after_finish fin [] = True"
| "quiet_after_finish fin (c # cs) \<longleftrightarrow>
     (fin \<longrightarrow> osc_Content c = [] \<and> osc_ToolCalls c = []) \<and> quiet_after_finish (fin \<or> osc_FinishReason c \<noteq> []) cs"

definition finishes :: "openAIStreamChoice list \<Rightarrow> bool" where
  "finishes cs \<longleftrightarrow> list_ex (\<lambda>c. osc_FinishReason c \<noteq> []) cs"

lemma quiet_append: "quiet_after_finish fin (cs @ cs') \<longleftrightarrow>
    quiet_after_finish fin cs \<and> quiet_after_finish (fin \<or> finishes cs) cs'"
  by (induction cs arbitrary: fin) (auto simp: finishes_def)

definition chat_stream :: "bridge_env \<Rightarrow> string list \<Rightarrow> bool" where
  "chat_stream env ds \<longleftrightarrow> ds \<noteq> [] \<and> chunk_of env (hd ds) \<noteq> None \<and>
     list_all (\<lambda>d. case chunk_of env d of None \<Rightarrow> True | Some c \<Rightarrow> ock_ErrorMessage c = []) ds \<and>
     quiet_after_finish False (concat (map (choices_of env) ds))"

section \<open>A well-formed stream\<close>

text \<open>A part of the stream is passed on correctly.\<close>

definition passes :: "anthropic_event list \<Rightarrow> openAIToAnthropicStreamState \<Rightarrow> client_view \<Rightarrow> bool \<Rightarrow> bool" where
  "passes es st' v fin \<longleftrightarrow>
     (\<exists>v'. view_events es v = Some v' \<and> agrees st' v' \<and> oas_done st' = fin \<and> oas_messageStarted st')"

lemma passes_append:
  "passes es st1 v fin \<Longrightarrow> (\<And>v1. agrees st1 v1 \<Longrightarrow> passes es' st2 v1 fin') \<Longrightarrow> passes (es @ es') st2 v fin'"
  unfolding passes_def by (force simp: view_events_append)

lemma passes_Nil: "agrees st v \<Longrightarrow> oas_messageStarted st \<Longrightarrow> passes [] st v (oas_done st)"
  by (simp add: passes_def)

lemma finalize_done: "oas_done st \<Longrightarrow> finalizeOpenAIToAnthropicStream visit r st = ([], st)"
  by (simp add: finalizeOpenAIToAnthropicStream_def)

definition visits_all :: "bridge_env \<Rightarrow> bool" where
  "visits_all env \<longleftrightarrow> (\<forall>ts. mset (be_visit env ts) = mset ts)"

lemma finalize_passes:
  "visits_all env \<Longrightarrow> agrees st v \<Longrightarrow> oas_messageStarted st \<Longrightarrow>
   finalizeOpenAIToAnthropicStream (be_visit env) r st = (es, st') \<Longrightarrow> passes es st' v True"
  using finalize_view [of st v "be_visit env" r es st'] unfolding passes_def visits_all_def by blast

lemma choice_passes:
  assumes visit: "visits_all env" and ok: "agrees st v" "oas_messageStarted st"
    and quiet: "oas_done st \<longrightarrow> osc_Content c = [] \<and> osc_ToolCalls c = []"
    and step: "translate_choice env c st = (es, st')"
  shows "passes es st' v (oas_done st \<or> osc_FinishReason c \<noteq> [])"
proof -
  obtain es1 st1 where 1: "(if osc_Content c \<noteq> [] then openAITextDeltaToAnthropic (osc_Content c) st else ([], st)) = (es1, st1)"
    by fastforce
  obtain es2 st2 where 2: "tool_deltas (osc_ToolCalls c) st1 = (es2, st2)" by fastforce
  obtain es3 st3 where 3: "(if osc_FinishReason c \<noteq> []
      then finalizeOpenAIToAnthropicStream (be_visit env) (mapOpenAIFinishReasonToAnthropic (osc_FinishReason c)) st2
      else ([], st2)) = (es3, st3)" by fastforce
  have es: "es = es1 @ (es2 @ es3)" "st3 = st'" using step by (simp_all add: translate_choice_def 1 2 3)
  have deltas: "passes es2 st2 v1 (oas_done st)" if "agrees st1 v1" "oas_done st1 = oas_done st" "oas_messageStarted st1" for v1
  proof (cases "oas_done st")
    case True
    with quiet 2 that show ?thesis by (auto simp: passes_def)
  next
    case False
    with tool_deltas_view [OF that(1) _ that(3) 2] that(2) show ?thesis by (auto simp: passes_def)
  qed
  have p1: "passes es1 st1 v (oas_done st)"
  proof (cases "osc_Content c = []")
    case True
    with 1 ok show ?thesis by (auto simp: passes_def)
  next
    case False
    with quiet have nd: "\<not> oas_done st" by blast
    from text_delta_view [OF ok(1) nd ok(2) False, of es1 st1] 1 False nd show ?thesis by (auto simp: passes_def)
  qed
  have p3: "passes es3 st' v2 (oas_done st \<or> osc_FinishReason c \<noteq> [])"
    if "agrees st2 v2" "oas_done st2 = oas_done st" "oas_messageStarted st2" for v2
    using finalize_passes [OF visit that(1,3)] 3 that es(2) by (auto simp: passes_def split: if_splits)
  have same1: "oas_done st1 = oas_done st" "oas_messageStarted st1" using p1 by (auto simp: passes_def)
  show ?thesis unfolding es(1)
  proof (rule passes_append [OF p1], rule passes_append)
    fix v1 assume "agrees st1 v1"
    then show d: "passes es2 st2 v1 (oas_done st)" by (rule deltas [OF _ same1])
    fix v2 assume "agrees st2 v2"
    with d show "passes es3 st' v2 (oas_done st \<or> osc_FinishReason c \<noteq> [])"
      by (intro p3) (auto simp: passes_def)
  qed
qed

lemma passes_facts: "passes es st' v fin \<Longrightarrow> oas_done st' = fin \<and> oas_messageStarted st'"
  by (auto simp: passes_def)

lemma choices_pass:
  "visits_all env \<Longrightarrow> agrees st v \<Longrightarrow> oas_messageStarted st \<Longrightarrow> quiet_after_finish (oas_done st) cs \<Longrightarrow>
   translate_choices env cs st = (es, st') \<Longrightarrow> passes es st' v (oas_done st \<or> finishes cs)"
proof (induction cs arbitrary: st v es)
  case Nil
  then show ?case by (auto simp: passes_def finishes_def)
next
  case (Cons c cs)
  obtain es1 st1 where c: "translate_choice env c st = (es1, st1)" by fastforce
  obtain es2 where cs: "translate_choices env cs st1 = (es2, st')" "es = es1 @ es2"
    using Cons.prems(5) c by (auto split: prod.splits)
  have p1: "passes es1 st1 v (oas_done st \<or> osc_FinishReason c \<noteq> [])"
    by (rule choice_passes [OF Cons.prems(1-3) _ c]) (use Cons.prems(4) in simp)
  note f1 = passes_facts [OF p1]
  show ?case unfolding cs(2)
  proof (rule passes_append [OF p1])
    fix v1 assume "agrees st1 v1"
    then have "passes es2 st' v1 (oas_done st1 \<or> finishes cs)"
      using Cons.prems f1 by (intro Cons.IH [OF _ _ _ _ cs(1)]) auto
    then show "passes es2 st' v1 (oas_done st \<or> finishes (c # cs))"
      using f1 by (simp add: finishes_def disj_assoc)
  qed
qed

lemma take_chunk_fields [simp]:
  "agrees (take_chunk c st) v = agrees st v" "oas_done (take_chunk c st) = oas_done st"
  "oas_messageStarted (take_chunk c st) = oas_messageStarted st"
proof -
  show "agrees (take_chunk c st) v = agrees st v" by (rule agrees_cong) (simp_all add: take_chunk_def)
qed (simp_all add: take_chunk_def)

lemma start_passes:
  assumes ok: "agrees st v" and step: "ensureOpenAIToAnthropicMessageStarted uuid st = (es, st')"
  shows "passes es st' v (oas_done st)"
proof (cases "oas_messageStarted st")
  case True
  with assms show ?thesis by (auto simp: passes_def ensureOpenAIToAnthropicMessageStarted_def)
next
  case False
  let ?i = "if oas_id st = [] then ''msg_'' @ uuid else oas_id st"
  let ?m = "if oas_model st = [] then ''unknown'' else oas_model st"
  have nd: "\<not> oas_done st" using ok False by (auto simp: agrees_def)
  have st': "st' = st\<lparr>oas_messageStarted := True, oas_id := ?i, oas_model := ?m\<rparr>" and es: "es = [AE_MessageStart ?i ?m]"
    using False step by (auto simp: ensureOpenAIToAnthropicMessageStarted_def Let_def)
  have same: "text_blocks st' = text_blocks st" "tool_blocks st' = tool_blocks st" "state_ok st' = state_ok st"
    by (simp_all add: st' text_blocks_def tool_blocks_def state_ok_def cong: if_cong)
  have "agrees st' (v\<lparr>vw_started := True\<rparr>)" using ok nd by (simp add: agrees_def same) (simp add: st')
  moreover have "view_events es v = Some (v\<lparr>vw_started := True\<rparr>)" using ok False by (simp add: es agrees_def)
  ultimately show ?thesis using nd by (simp add: passes_def st')
qed

lemma chunk_passes:
  assumes "visits_all env" "agrees st v" "quiet_after_finish (oas_done st) (ock_Choices c)" "ock_ErrorMessage c = []"
    and step: "translate_chunk env c st = ((es, d), st')"
  shows "passes es st' v (oas_done st \<or> finishes (ock_Choices c)) \<and> \<not> d"
proof -
  obtain es1 st1 where 1: "ensureOpenAIToAnthropicMessageStarted (je_uuid env 0) (take_chunk c st) = (es1, st1)" by fastforce
  obtain es2 where 2: "translate_choices env (ock_Choices c) st1 = (es2, st')" "es = es1 @ es2" "\<not> d"
    using step assms(4) 1 by (auto simp: translate_chunk_def split: prod.splits)
  have p1: "passes es1 st1 v (oas_done st)" using start_passes [OF _ 1, of v] assms(2) by simp
  note f1 = passes_facts [OF p1]
  have "passes (es1 @ es2) st' v (oas_done st \<or> finishes (ock_Choices c))"
  proof (rule passes_append [OF p1])
    fix v1 assume "agrees st1 v1"
    with choices_pass [OF assms(1) this _ _ 2(1)] f1 assms(3) show "passes es2 st' v1 (oas_done st \<or> finishes (ock_Choices c))"
      by simp
  qed
  with 2 show ?thesis by simp
qed

lemma event_passes:
  assumes visit: "visits_all env" and ok: "agrees st v" "oas_messageStarted st \<or> chunk_of env d \<noteq> None"
    and quiet: "quiet_after_finish (oas_done st) (choices_of env d)"
    and no_error: "case chunk_of env d of None \<Rightarrow> True | Some c \<Rightarrow> ock_ErrorMessage c = []"
    and step: "to_anthropic_event env d st = (es, st')"
  shows "passes es st' v (oas_done st \<or> finishes (choices_of env d))"
proof (cases "chunk_of env d")
  case (Some c)
  then have chunk: "trim_space d \<noteq> []" "trim_space d \<noteq> ''[DONE]''" "bind (je_parse env (trim_space d)) decode_chunk = Some c"
    by (auto simp: chunk_of_def split: if_splits)
  obtain es1 b st1 where t: "translate_chunk env c st = ((es1, b), st1)" by (metis prod.collapse)
  have "quiet_after_finish (oas_done st) (ock_Choices c)" using quiet Some chunk by (simp add: choices_of_def)
  from chunk_passes [OF visit ok(1) this _ t] no_error Some
  have p: "passes es1 st1 v (oas_done st \<or> finishes (ock_Choices c)) \<and> \<not> b" by simp
  then have "(es, st') = (es1, st1)"
    using step chunk t by (simp add: to_anthropic_event_def translateOpenAIEventToAnthropic_def Let_def)
  with p chunk Some show ?thesis by (simp add: choices_of_def)
next
  case None
  then have started: "oas_messageStarted st" using ok(2) by simp
  show ?thesis
  proof (cases "trim_space d = ''[DONE]''")
    case True
    obtain es1 st1 where f: "finalizeOpenAIToAnthropicStream (be_visit env) ''end_turn'' st = (es1, st1)" by fastforce
    with step True have "es = es1" "st' = st1"
      by (simp_all add: to_anthropic_event_def translateOpenAIEventToAnthropic_def Let_def)
    with finalize_passes [OF visit ok(1) started f] True show ?thesis
      by (simp add: choices_of_def finishes_def)
  next
    case False
    with None step have "es = []" "st' = st"
      by (auto simp: to_anthropic_event_def translateOpenAIEventToAnthropic_def chunk_of_def Let_def split: if_splits)
    with None False ok started show ?thesis by (simp add: choices_of_def finishes_def passes_def)
  qed
qed

lemma events_pass:
  "visits_all env \<Longrightarrow> agrees st v \<Longrightarrow> oas_messageStarted st \<or> (ds \<noteq> [] \<and> chunk_of env (hd ds) \<noteq> None) \<Longrightarrow>
   quiet_after_finish (oas_done st) (concat (map (choices_of env) ds)) \<Longrightarrow>
   list_all (\<lambda>d. case chunk_of env d of None \<Rightarrow> True | Some c \<Rightarrow> ock_ErrorMessage c = []) ds \<Longrightarrow>
   anthropic_events env ds st = (es, st') \<Longrightarrow> \<exists>fin. passes es st' v fin"
proof (induction ds arbitrary: st v es)
  case Nil
  then show ?case by (auto simp: passes_def)
next
  case (Cons d ds)
  obtain es1 st1 where d: "to_anthropic_event env d st = (es1, st1)" by fastforce
  obtain es2 where ds: "anthropic_events env ds st1 = (es2, st')" "es = es1 @ es2"
    using Cons.prems(6) d by (auto split: prod.splits)
  have quiet: "quiet_after_finish (oas_done st) (choices_of env d)"
      "quiet_after_finish (oas_done st \<or> finishes (choices_of env d)) (concat (map (choices_of env) ds))"
    using Cons.prems(4) by (simp_all add: quiet_append)
  have p1: "passes es1 st1 v (oas_done st \<or> finishes (choices_of env d))"
    by (rule event_passes [OF Cons.prems(1,2) _ quiet(1) _ d]) (use Cons.prems(3,5) in auto)
  then obtain v1 where v1: "view_events es1 v = Some v1" "agrees st1 v1" by (auto simp: passes_def)
  note f1 = passes_facts [OF p1]
  from Cons.IH [OF Cons.prems(1) v1(2) _ _ _ ds(1)] f1 quiet(2) Cons.prems(5)
  obtain fin where "passes es2 st' v1 fin" by auto
  then have "passes es st' v fin" using v1(1) by (auto simp: passes_def ds(2) view_events_append)
  then show ?case by blast
qed

text \<open>The text of a stream, and the text that the upstream has sent.\<close>

fun text_of_event :: "anthropic_event \<Rightarrow> string" where
  "text_of_event (AE_TextDelta b t) = t"
| "text_of_event _ = []"

definition text_of :: "anthropic_event list \<Rightarrow> string" where "text_of es = concat (map text_of_event es)"

lemma text_of_append [simp]: "text_of (es @ es') = text_of es @ text_of es'" by (simp add: text_of_def)
lemma text_of_simps [simp]: "text_of [] = []" "text_of (e # es) = text_of_event e @ text_of es" by (simp_all add: text_of_def)

lemma text_of_tools: "tool_deltas ds st = (es, st') \<Longrightarrow> text_of es = []"
  by (induction ds arbitrary: st es)
    (auto simp: openAIToolDeltaToAnthropic_def Let_def split: prod.splits option.splits if_splits)

lemma text_of_finalize: "finalizeOpenAIToAnthropicStream visit r st = (es, st') \<Longrightarrow> text_of es = []"
  by (auto simp: finalizeOpenAIToAnthropicStream_def text_of_def split: if_splits prod.splits)

lemma text_of_choice:
  assumes "translate_choice env c st = (es, st')" shows "text_of es = osc_Content c"
proof -
  obtain es1 st1 where 1: "(if osc_Content c \<noteq> [] then openAITextDeltaToAnthropic (osc_Content c) st else ([], st)) = (es1, st1)"
    by fastforce
  then have "text_of es1 = osc_Content c" by (auto simp: openAITextDeltaToAnthropic_def Let_def split: if_splits)
  with assms 1 show ?thesis
    by (auto simp: translate_choice_def dest: text_of_tools text_of_finalize split: prod.splits if_splits)
qed

lemma text_of_choices: "translate_choices env cs st = (es, st') \<Longrightarrow> text_of es = concat (map osc_Content cs)"
  by (induction cs arbitrary: st es) (auto dest: text_of_choice split: prod.splits)

lemma text_of_translate:
  assumes "to_anthropic_event env d st = (es, st')"
    and "case chunk_of env d of None \<Rightarrow> True | Some c \<Rightarrow> ock_ErrorMessage c = []"
  shows "text_of es = concat (map osc_Content (choices_of env d))"
proof (cases "chunk_of env d")
  case (Some c)
  then have chunk: "trim_space d \<noteq> []" "trim_space d \<noteq> ''[DONE]''" "bind (je_parse env (trim_space d)) decode_chunk = Some c"
    by (auto simp: chunk_of_def split: if_splits)
  obtain es1 st1 where "ensureOpenAIToAnthropicMessageStarted (je_uuid env 0) (take_chunk c st) = (es1, st1)" "text_of es1 = []"
    by (cases "oas_messageStarted (take_chunk c st)") (auto simp: ensureOpenAIToAnthropicMessageStarted_def Let_def)
  with assms Some chunk show ?thesis
    by (auto simp: to_anthropic_event_def translateOpenAIEventToAnthropic_def translate_chunk_def choices_of_def Let_def
      dest: text_of_choices split: prod.splits)
next
  case None
  with assms show ?thesis
    by (auto simp: to_anthropic_event_def translateOpenAIEventToAnthropic_def chunk_of_def choices_of_def no_choice_def Let_def
      dest: text_of_finalize split: prod.splits if_splits)
qed

lemma text_of_events:
  "anthropic_events env ds st = (es, st') \<Longrightarrow>
   list_all (\<lambda>d. case chunk_of env d of None \<Rightarrow> True | Some c \<Rightarrow> ock_ErrorMessage c = []) ds \<Longrightarrow>
   text_of es = concat (map osc_Content (concat (map (choices_of env) ds)))"
  by (induction ds arbitrary: st es) (auto dest: text_of_translate split: prod.splits)

section \<open>Properties\<close>

text \<open>
  C18 A complete chat completion stream without an error, in which nothing is added after a choice has
  finished, reaches an Anthropic client as a complete message: the events are accepted by the protocol
  from the start of the message to its stop, with all blocks stopped, in whatever order Go visits the
  map of the tools; and the text deltas are the content of the chunks, nothing lost, repeated or
  reordered.
\<close>

theorem anthropic_stream_well_formed:
  assumes "visits_all env" "sb_eof body" "chat_stream env (bridged_events body)"
  shows "\<exists>es v. snd (bridgeOpenAIStreamToAnthropic env statusCode (Some body) m w) =
      emit_anthropic env es (bridge_headers statusCode w) \<and>
    view_events es fresh_view = Some v \<and> vw_stopped v \<and>
    text_of es = concat (map osc_Content (concat (map (choices_of env) (bridged_events body))))"
proof -
  let ?ds = "bridged_events body" and ?st = "fresh_openAIToAnthropic env m"
  obtain es1 st1 where 1: "anthropic_events env ?ds ?st = (es1, st1)" by fastforce
  obtain es2 st2 where 2: "finalizeOpenAIToAnthropicStream (be_visit env) ''end_turn'' st1 = (es2, st2)" by fastforce
  have es: "fst (stream_of_events env ?ds ?st) = es1 @ es2" by (simp add: stream_of_events_def 1 2)
  have "\<exists>fin. passes es1 st1 fresh_view fin"
    using assms(3) by (intro events_pass [OF assms(1) agrees_fresh _ _ _ 1])
      (auto simp: chat_stream_def fresh_openAIToAnthropic_def)
  then obtain v1 where v1: "view_events es1 fresh_view = Some v1" "agrees st1 v1" "oas_messageStarted st1"
    by (auto simp: passes_def)
  from finalize_passes [OF assms(1) v1(2,3) 2] obtain v2 where
      "view_events es2 v1 = Some v2" "agrees st2 v2" "oas_done st2"
    by (auto simp: passes_def)
  then have "view_events (es1 @ es2) fresh_view = Some v2" "vw_stopped v2"
    using v1(1) by (simp_all add: view_events_append agrees_def)
  moreover have "text_of (es1 @ es2) = concat (map osc_Content (concat (map (choices_of env) ?ds)))"
    using text_of_events [OF 1] assms(3) text_of_finalize [OF 2] by (simp add: chat_stream_def)
  moreover have "snd (bridgeOpenAIStreamToAnthropic env statusCode (Some body) m w) =
      emit_anthropic env (es1 @ es2) (bridge_headers statusCode w)"
    using bridge_is_stream_of_events [OF assms(2)] es by (simp add: bridgeOpenAIStreamToAnthropic_def)
  ultimately show ?thesis by blast
qed

text \<open>A stream with a text, its end, the usage, and the end marker.\<close>

definition demo_chunks :: parser where
  "demo_chunks s =
     (if s = ''a'' then Some (JObject [(''id'', JString ''x''), (''choices'', JArray [JObject [(''delta'', JObject [(''content'', JString ''hi'')])]])])
      else if s = ''f'' then Some (JObject [(''choices'', JArray [JObject [(''finish_reason'', JString ''stop'')]])])
      else if s = ''u'' then Some (JObject [(''usage'', JObject [(''completion_tokens'', JNumber ''5'')])])
      else None)"

definition demo_bridge :: bridge_env where
  "demo_bridge = \<lparr>je_parse = demo_chunks, je_marshal = (\<lambda>v. Some ''{}''), je_float = Some, je_sprint = (\<lambda>v. []), je_uuid = (\<lambda>n. ''1''), je_now = 7, be_visit = id\<rparr>"

definition demo_chat_body :: stream_body where
  "demo_chat_body = \<lparr>sb_content = concat (map (\<lambda>d. ''data: '' @ d @ [newline, newline]) [''a'', ''f'', ''u'', ''[DONE]'']), sb_eof = True\<rparr>"

lemma demo_bridged: "bridged_events demo_chat_body = [''a'', ''f'', ''u'', ''[DONE]'']"
  by code_simp

lemma anthropic_stream_well_formed_witness:
  "\<exists>es v. snd (bridgeOpenAIStreamToAnthropic demo_bridge 200 (Some demo_chat_body) ''m'' fresh_writer) =
      emit_anthropic demo_bridge es (bridge_headers 200 fresh_writer) \<and> view_events es fresh_view = Some v \<and> vw_stopped v \<and>
    text_of es = ''hi''"
proof -
  have "visits_all demo_bridge" by (simp add: visits_all_def demo_bridge_def)
  moreover have "sb_eof demo_chat_body" by (simp add: demo_chat_body_def)
  moreover have "chat_stream demo_bridge [''a'', ''f'', ''u'', ''[DONE]'']" by code_simp
  moreover have "concat (map osc_Content (concat (map (choices_of demo_bridge) [''a'', ''f'', ''u'', ''[DONE]'']))) = ''hi''"
    by code_simp
  ultimately show ?thesis
    using anthropic_stream_well_formed [of demo_bridge demo_chat_body 200 "''m''" fresh_writer] by (simp add: demo_bridged)
qed

text \<open>
  The usage that the upstream sends after the finish reason, as it does for \<open>include_usage\<close>, is accounted
  but not told to the client: the message has ended with no output tokens.
\<close>

lemma late_usage_not_told:
  "fst (stream_of_events demo_bridge [''a'', ''f'', ''u'', ''[DONE]''] (fresh_openAIToAnthropic demo_bridge ''m'')) =
     [AE_MessageStart ''x'' ''m'', AE_TextStart 0, AE_TextDelta 0 ''hi'', AE_BlockStop 0, AE_MessageDelta ''end_turn'' 0, AE_MessageStop]"
  "oup_CompletionTokens (oas_usage (snd (stream_of_events demo_bridge [''a'', ''f'', ''u'', ''[DONE]'']
     (fresh_openAIToAnthropic demo_bridge ''m'')))) = 5"
  by code_simp+

text \<open>
  An error before the first chunk ends a message that has not started, and a delta after the finish
  reason is sent after the message has stopped.
\<close>

lemma error_first_is_malformed:
  "ock_ErrorMessage c \<noteq> [] \<Longrightarrow>
   (case translate_chunk env c (fresh_openAIToAnthropic env m) of ((es, d), st) \<Rightarrow>
      view_events (es @ fst (finalizeOpenAIToAnthropicStream (be_visit env) ''end_turn'' st)) fresh_view) = None"
  by (simp add: translate_chunk_def)

lemma delta_after_stop:
  "to_anthropic_event demo_bridge ''a'' (snd (stream_of_events demo_bridge [''a'', ''f''] (fresh_openAIToAnthropic demo_bridge ''m''))) =
     ([AE_TextDelta 0 ''hi''], snd (stream_of_events demo_bridge [''a'', ''f''] (fresh_openAIToAnthropic demo_bridge ''m'')))"
  by code_simp

end
