(* ===== verification/Stream_To_Chat.thy ===== *)
theory Stream_To_Chat
  imports Protocol_Data
begin

text \<open>
  The bridge from a stream of Anthropic events to a stream of chat completion chunks
  (\<open>bridgeAnthropicStreamToOpenAI\<close> in \<open>internal/gateway/api/compat.go\<close>). What a chunk says is a value of
  \<open>chat_delta\<close>; it is written with the identifier, model and time that the state has when it is made.
\<close>

section \<open>The events of the upstream\<close>

record anthropicSSEDelta =
  asd_Type :: string
  asd_Text :: string
  asd_StopReason :: string
  asd_PartialJSON :: string

record anthropicSSEEvent =
  ase_Type :: string
  ase_Index :: goint
  ase_Delta :: anthropicSSEDelta
  ase_Message :: anthropicResponsePayload
  ase_ContentBlock :: anthropicContentBlock
  ase_Usage :: anthropicUsage
  ase_ErrorType :: string
  ase_ErrorMessage :: string

definition no_event :: anthropicSSEEvent where
  "no_event = \<lparr>ase_Type = [], ase_Index = 0,
     ase_Delta = \<lparr>asd_Type = [], asd_Text = [], asd_StopReason = [], asd_PartialJSON = []\<rparr>,
     ase_Message = no_response, ase_ContentBlock = no_block, ase_Usage = no_anthropicUsage,
     ase_ErrorType = [], ase_ErrorMessage = []\<rparr>"

definition decode_delta :: "(string \<times> json) list \<Rightarrow> anthropicSSEDelta \<Rightarrow> anthropicSSEDelta option" where
  "decode_delta kvs d =
     bind (each_field ''type'' set_string kvs (asd_Type d)) (\<lambda>ty.
     bind (each_field ''text'' set_string kvs (asd_Text d)) (\<lambda>txt.
     bind (each_field ''stop_reason'' set_string kvs (asd_StopReason d)) (\<lambda>reason.
     bind (each_field ''partial_json'' set_string kvs (asd_PartialJSON d)) (\<lambda>partial.
       Some \<lparr>asd_Type = ty, asd_Text = txt, asd_StopReason = reason, asd_PartialJSON = partial\<rparr>))))"

definition decode_event_error :: "(string \<times> json) list \<Rightarrow> string \<times> string \<Rightarrow> (string \<times> string) option" where
  "decode_event_error fs = (\<lambda>(ty, message).
     bind (each_field ''type'' set_string fs ty) (\<lambda>t.
     bind (each_field ''message'' set_string fs message) (\<lambda>m. Some (t, m))))"

definition decode_event :: "'x json_env_scheme \<Rightarrow> json \<Rightarrow> anthropicSSEEvent option" where
  "decode_event env v = set_struct (\<lambda>kvs e.
     bind (each_field ''type'' set_string kvs (ase_Type e)) (\<lambda>ty.
     bind (each_field ''index'' set_int64 kvs (ase_Index e)) (\<lambda>idx.
     bind (each_field ''delta'' (set_struct decode_delta) kvs (ase_Delta e)) (\<lambda>delta.
     bind (each_field ''message'' (set_struct (decode_response env)) kvs (ase_Message e)) (\<lambda>message.
     bind (each_field ''content_block'' (set_struct (decode_block env)) kvs (ase_ContentBlock e)) (\<lambda>block.
     bind (each_field ''usage'' (set_struct decode_anthropicUsage) kvs (ase_Usage e)) (\<lambda>usage.
     bind (each_field ''error'' (set_struct decode_event_error) kvs (ase_ErrorType e, ase_ErrorMessage e)) (\<lambda>(et, em).
       Some \<lparr>ase_Type = ty, ase_Index = idx, ase_Delta = delta, ase_Message = message, ase_ContentBlock = block,
         ase_Usage = usage, ase_ErrorType = et, ase_ErrorMessage = em\<rparr>)))))))) v no_event"

section \<open>The chunks for the client\<close>

datatype chat_delta =
    CD_Role
  | CD_ToolStart nat string string string
  | CD_ToolArguments nat string
  | CD_Text string
  | CD_Finish string
  | CD_Usage int int int
  | CD_Error string string

definition openAIToolCallDelta :: "nat \<Rightarrow> string \<Rightarrow> string \<Rightarrow> string \<Rightarrow> json" where
  "openAIToolCallDelta idx toolID toolName arguments =
     jobj ([(''index'', jint (int idx)),
       (''function'', jobj ((''arguments'', JString arguments) #
          (if trim_space toolName \<noteq> [] then [(''name'', JString toolName)] else [])))] @
       (if trim_space toolID \<noteq> [] then [(''id'', JString toolID), (''type'', JString ''function'')] else []))"

definition choice_with :: "(string \<times> json) list \<Rightarrow> (string \<times> json) list" where
  "choice_with kvs = [(''choices'', JArray [jobj ((''index'', jint 0) # kvs)])]"

fun delta_fields :: "chat_delta \<Rightarrow> (string \<times> json) list" where
  "delta_fields CD_Role = choice_with [(''delta'', jobj [(''role'', JString ''assistant'')])]"
| "delta_fields (CD_ToolStart n i name args) =
     choice_with [(''delta'', jobj [(''tool_calls'', JArray [openAIToolCallDelta n i name args])])]"
| "delta_fields (CD_ToolArguments n args) =
     choice_with [(''delta'', jobj [(''tool_calls'', JArray [openAIToolCallDelta n [] [] args])])]"
| "delta_fields (CD_Text t) = choice_with [(''delta'', jobj [(''content'', JString t)])]"
| "delta_fields (CD_Finish r) = choice_with [(''finish_reason'', JString r)]"
| "delta_fields (CD_Usage p c k) = [(''choices'', JArray []), (''usage'', openAIUsageMap p c k)]"
| "delta_fields (CD_Error m t) = []"

record chat_chunk =
  cc_id :: string
  cc_created :: int
  cc_model :: string
  cc_delta :: chat_delta

definition marshalOpenAIChunk :: "chat_chunk \<Rightarrow> json" where
  "marshalOpenAIChunk c =
     (case cc_delta c of
        CD_Error m t \<Rightarrow> jobj [(''error'', jobj [(''message'', JString m), (''type'', JString t)])]
      | d \<Rightarrow> jobj ([(''id'', JString (cc_id c)), (''object'', JString ''chat.completion.chunk''),
          (''created'', jint (cc_created c)), (''model'', JString (cc_model c))] @ delta_fields d))"

section \<open>Translation\<close>

record anthropicStreamToolCall =
  atc_ID :: string
  atc_Name :: string
  atc_OpenAIIndex :: nat
  atc_Arguments :: string

record anthropicStreamState =
  ass_id :: string
  ass_model :: string
  ass_created :: int
  ass_stopReason :: string
  ass_usage :: anthropicUsage
  ass_toolCalls :: "(goint \<times> anthropicStreamToolCall) list"
  ass_nextToolIndex :: nat
  ass_done :: bool

definition anthropic_mergeUsage :: "anthropicUsage \<Rightarrow> anthropicUsage \<Rightarrow> anthropicUsage" where
  "anthropic_mergeUsage new old = \<lparr>
     au_InputTokens = (if au_InputTokens old < au_InputTokens new then au_InputTokens new else au_InputTokens old),
     au_OutputTokens = (if au_OutputTokens old < au_OutputTokens new then au_OutputTokens new else au_OutputTokens old),
     au_CacheReadInputTokens = (if au_CacheReadInputTokens old < au_CacheReadInputTokens new
       then au_CacheReadInputTokens new else au_CacheReadInputTokens old),
     au_CacheCreationTokens = (if au_CacheCreationTokens old < au_CacheCreationTokens new
       then au_CacheCreationTokens new else au_CacheCreationTokens old)\<rparr>"

definition merge_stream_usage :: "anthropicUsage \<Rightarrow> anthropicStreamState \<Rightarrow> anthropicStreamState" where
  "merge_stream_usage u st = st\<lparr>ass_usage := anthropic_mergeUsage u (ass_usage st)\<rparr>"

definition ensureToolCall :: "goint \<Rightarrow> string \<Rightarrow> string \<Rightarrow> anthropicStreamState \<Rightarrow> anthropicStreamToolCall \<times> anthropicStreamState" where
  "ensureToolCall idx i name st =
     (let (call0, next) = (case map_of (ass_toolCalls st) idx of
              Some c \<Rightarrow> (c, ass_nextToolIndex st)
            | None \<Rightarrow> (\<lparr>atc_ID = [], atc_Name = [], atc_OpenAIIndex = ass_nextToolIndex st, atc_Arguments = []\<rparr>,
                Suc (ass_nextToolIndex st)));
          i0 = (if trim_space i \<noteq> [] then trim_space i else atc_ID call0);
          call = call0\<lparr>atc_ID := (if i0 = [] then ''tool_'' @ show_int idx else i0),
            atc_Name := (if trim_space name \<noteq> [] then trim_space name else atc_Name call0)\<rparr>
      in (call, st\<lparr>ass_toolCalls := AList.update idx call (ass_toolCalls st), ass_nextToolIndex := next\<rparr>))"

definition initialAnthropicToolArguments :: "'x json_env_scheme \<Rightarrow> json \<Rightarrow> string" where
  "initialAnthropicToolArguments env v =
     (let arguments = compactJSONValue env v in if arguments = ''null'' \<or> arguments = ''{}'' then [] else arguments)"

definition with_arguments :: "goint \<Rightarrow> anthropicStreamToolCall \<Rightarrow> string \<Rightarrow> anthropicStreamState \<Rightarrow> anthropicStreamState" where
  "with_arguments idx call args st = st\<lparr>ass_toolCalls := AList.update idx (call\<lparr>atc_Arguments := args\<rparr>) (ass_toolCalls st)\<rparr>"

definition chunk_now :: "anthropicStreamState \<Rightarrow> chat_delta \<Rightarrow> chat_chunk" where
  "chunk_now st d = \<lparr>cc_id = ass_id st, cc_created = ass_created st, cc_model = ass_model st, cc_delta = d\<rparr>"

definition message_start :: "anthropicSSEEvent \<Rightarrow> anthropicStreamState \<Rightarrow> chat_chunk list \<times> anthropicStreamState" where
  "message_start e st =
     (let m = ase_Message e;
          st1 = merge_stream_usage (arp_Usage m) (st\<lparr>
            ass_id := (if arp_ID m \<noteq> [] then arp_ID m else ass_id st),
            ass_model := (if arp_Model m \<noteq> [] then arp_Model m else ass_model st)\<rparr>)
      in ([chunk_now st1 CD_Role], st1))"

definition content_block_start ::
  "'x json_env_scheme \<Rightarrow> anthropicSSEEvent \<Rightarrow> anthropicStreamState \<Rightarrow> chat_chunk list \<times> anthropicStreamState" where
  "content_block_start env e st =
     (let b = ase_ContentBlock e in
      if acb_Type b \<noteq> ''tool_use'' then ([], st)
      else
        let (call, st1) = ensureToolCall (ase_Index e) (acb_ID b) (acb_Name b) st;
            arguments = initialAnthropicToolArguments env (acb_Input b);
            st2 = (if arguments \<noteq> [] \<and> arguments \<noteq> ''{}'' then with_arguments (ase_Index e) call arguments st1 else st1)
        in ([chunk_now st2 (CD_ToolStart (atc_OpenAIIndex call) (atc_ID call) (atc_Name call) arguments)], st2))"

definition content_block_delta :: "anthropicSSEEvent \<Rightarrow> anthropicStreamState \<Rightarrow> chat_chunk list \<times> anthropicStreamState" where
  "content_block_delta e st =
     (let d = ase_Delta e in
      if asd_Type d = ''input_json_delta''
      then
        if trim_space (asd_PartialJSON d) = [] then ([], st)
        else let (call, st1) = ensureToolCall (ase_Index e) [] [] st;
                 st2 = with_arguments (ase_Index e) call (atc_Arguments call @ asd_PartialJSON d) st1
          in ([chunk_now st2 (CD_ToolArguments (atc_OpenAIIndex call) (asd_PartialJSON d))], st2)
      else if asd_Text d = [] then ([], st)
      else ([chunk_now st (CD_Text (asd_Text d))], st))"

definition translate_event ::
  "'x json_env_scheme \<Rightarrow> anthropicSSEEvent \<Rightarrow> anthropicStreamState \<Rightarrow> (chat_chunk list \<times> bool) \<times> anthropicStreamState" where
  "translate_event env e st0 =
     (let st = merge_stream_usage (ase_Usage e) st0; ty = ase_Type e; going = (\<lambda>(cs, st'). ((cs, False), st')) in
      if ty = ''message_start'' then going (message_start e st)
      else if ty = ''content_block_start'' then going (content_block_start env e st)
      else if ty = ''content_block_delta'' then going (content_block_delta e st)
      else if ty = ''message_delta''
      then if asd_StopReason (ase_Delta e) = [] then (([], False), st)
        else let st1 = st\<lparr>ass_stopReason := asd_StopReason (ase_Delta e)\<rparr>
          in (([chunk_now st1 (CD_Finish (mapAnthropicStopReason (asd_StopReason (ase_Delta e))))], False), st1)
      else if ty = ''message_stop'' then (([], True), st)
      else if ty = ''error''
      then if ase_ErrorMessage e = [] then (([], True), st)
        else (([chunk_now st (CD_Error (ase_ErrorMessage e) (ase_ErrorType e))], True), st)
      else (([], False), st))"

definition event_of :: "'x json_env_scheme \<Rightarrow> string \<Rightarrow> anthropicSSEEvent option" where
  "event_of env data =
     (let trimmed = trim_space data in
      if trimmed = [] \<or> trimmed = ''[DONE]'' then None else bind (je_parse env trimmed) (decode_event env))"

definition translateAnthropicEventToOpenAI ::
  "'x json_env_scheme \<Rightarrow> string \<Rightarrow> anthropicStreamState \<Rightarrow> (chat_chunk list \<times> bool) \<times> anthropicStreamState" where
  "translateAnthropicEventToOpenAI env data st =
     (case event_of env data of None \<Rightarrow> (([], False), st) | Some e \<Rightarrow> translate_event env e st)"

definition usageChunk :: "anthropicStreamState \<Rightarrow> chat_chunk list" where
  "usageChunk st =
     (case tokenTriplet (ass_usage st) of (p, c, k) \<Rightarrow>
        if p = 0 \<and> c = 0 \<and> k = 0 then [] else [chunk_now st (CD_Usage p c k)])"

section \<open>The bridge\<close>

datatype chat_output = CO_Chunk chat_chunk | CO_Done

text \<open>The end of the stream is written once.\<close>

definition emitDone :: "anthropicStreamState \<Rightarrow> chat_output list \<times> anthropicStreamState" where
  "emitDone st =
     (if ass_done st then ([], st)
      else let st1 = st\<lparr>ass_done := True\<rparr> in (map CO_Chunk (usageChunk st1) @ [CO_Done], st1))"

definition to_chat_event :: "'x json_env_scheme \<Rightarrow> string \<Rightarrow> anthropicStreamState \<Rightarrow> chat_output list \<times> anthropicStreamState" where
  "to_chat_event env data st =
     (case translateAnthropicEventToOpenAI env data st of
        ((cs, d), st1) \<Rightarrow>
          if d then (case emitDone st1 of (out, st2) \<Rightarrow> (map CO_Chunk cs @ out, st2)) else (map CO_Chunk cs, st1))"

fun emit_output :: "'x json_env_scheme \<Rightarrow> chat_output \<Rightarrow> ResponseWriter \<Rightarrow> ResponseWriter" where
  "emit_output env (CO_Chunk c) w = emit_event (je_marshal env) [] (marshalOpenAIChunk c) w"
| "emit_output env CO_Done w = write_all [''data: [DONE]'' @ [newline, newline]] w"

definition emit_outputs :: "'x json_env_scheme \<Rightarrow> chat_output list \<Rightarrow> ResponseWriter \<Rightarrow> ResponseWriter" where
  "emit_outputs env out w = fold (emit_output env) out w"

definition handle_anthropic_event :: "'x json_env_scheme \<Rightarrow> string \<Rightarrow>
    anthropicStreamState \<times> ResponseWriter \<Rightarrow> anthropicStreamState \<times> ResponseWriter" where
  "handle_anthropic_event env data = (\<lambda>(st, w).
     case to_chat_event env data st of (out, st') \<Rightarrow> (st', emit_outputs env out w))"

definition finish_anthropic_stream :: "'x json_env_scheme \<Rightarrow>
    anthropicStreamState \<times> ResponseWriter \<Rightarrow> anthropicStreamState \<times> ResponseWriter" where
  "finish_anthropic_stream env = (\<lambda>(st, w). case emitDone st of (out, st') \<Rightarrow> (st', emit_outputs env out w))"

definition fresh_anthropicStream :: "'x json_env_scheme \<Rightarrow> anthropicStreamState" where
  "fresh_anthropicStream env = \<lparr>ass_id = [], ass_model = [], ass_created = je_now env, ass_stopReason = [],
     ass_usage = no_anthropicUsage, ass_toolCalls = [], ass_nextToolIndex = 0, ass_done = False\<rparr>"

definition bridgeAnthropicStreamToOpenAIStarted ::
  "'x json_env_scheme \<Rightarrow> stream_body option \<Rightarrow> ResponseWriter \<Rightarrow> tokens \<times> ResponseWriter" where
  "bridgeAnthropicStreamToOpenAIStarted env body w =
     (case body of
        None \<Rightarrow> ((0, 0, 0), w)
      | Some b \<Rightarrow>
          (case bridge_loop (handle_anthropic_event env) (finish_anthropic_stream env) (sb_eof b) (sb_content b)
              ([], (fresh_anthropicStream env, w)) of
             (st, w') \<Rightarrow> (tokenTriplet (ass_usage st), w')))"

definition bridgeAnthropicStreamToOpenAI ::
  "'x json_env_scheme \<Rightarrow> goint \<Rightarrow> stream_body option \<Rightarrow> ResponseWriter \<Rightarrow> tokens \<times> ResponseWriter" where
  "bridgeAnthropicStreamToOpenAI env statusCode body w =
     bridgeAnthropicStreamToOpenAIStarted env body (bridge_headers statusCode w)"

section \<open>The output of a whole stream\<close>

abbreviation chat_outputs :: "'x json_env_scheme \<Rightarrow> string list \<Rightarrow> anthropicStreamState \<Rightarrow> chat_output list \<times> anthropicStreamState" where
  "chat_outputs env \<equiv> bridge_outputs (to_chat_event env)"

definition complete_output :: "'x json_env_scheme \<Rightarrow> string list \<Rightarrow> anthropicStreamState \<Rightarrow> chat_output list \<times> anthropicStreamState" where
  "complete_output env ds st =
     (case chat_outputs env ds st of (out, st1) \<Rightarrow> (case emitDone st1 of (out', st2) \<Rightarrow> (out @ out', st2)))"

lemma emit_output_sent_on: "rw_status w \<noteq> None \<Longrightarrow> sent_on w (emit_output env x w)"
  by (cases x) (simp_all add: emit_event_sent_on write_all_sent_on)

interpretation chat: event_bridge "to_chat_event env" emitDone "emit_output env"
  "handle_anthropic_event env" "finish_anthropic_stream env" for env
  by unfold_locales (simp_all add: handle_anthropic_event_def finish_anthropic_stream_def emit_outputs_def emit_output_sent_on split_beta)

lemma bridge_is_complete_output:
  assumes "sb_eof body"
  shows "bridgeAnthropicStreamToOpenAIStarted env (Some body) w =
    (tokenTriplet (ass_usage (snd (complete_output env (bridged_events body) (fresh_anthropicStream env)))),
     emit_outputs env (fst (complete_output env (bridged_events body) (fresh_anthropicStream env))) w)"
  using assms unfolding bridgeAnthropicStreamToOpenAIStarted_def option.simps chat.bridge_is_outputs
  by (simp add: complete_output_def emit_outputs_def split_beta Let_def)

section \<open>The text, the end and the usage\<close>

fun delta_text :: "chat_output \<Rightarrow> string" where
  "delta_text (CO_Chunk c) = (case cc_delta c of CD_Text t \<Rightarrow> t | _ \<Rightarrow> [])"
| "delta_text CO_Done = []"

definition output_text :: "chat_output list \<Rightarrow> string" where "output_text out = concat (map delta_text out)"

definition event_text :: "anthropicSSEEvent \<Rightarrow> string" where
  "event_text e = (if ase_Type e = ''content_block_delta'' \<and> asd_Type (ase_Delta e) \<noteq> ''input_json_delta''
     then asd_Text (ase_Delta e) else [])"

definition events_of :: "'x json_env_scheme \<Rightarrow> string list \<Rightarrow> anthropicSSEEvent list" where
  "events_of env ds = List.map_filter (event_of env) ds"

lemma event_of_cases:
  obtains (none) "event_of env d = None" "to_chat_event env d st = ([], st)"
  | (some) e cs fin st1 where "event_of env d = Some e" "translate_event env e st = ((cs, fin), st1)"
      "to_chat_event env d st = (if fin then (map CO_Chunk cs @ fst (emitDone st1), snd (emitDone st1)) else (map CO_Chunk cs, st1))"
proof (cases "event_of env d")
  case None
  then show ?thesis by (intro none) (simp_all add: to_chat_event_def translateAnthropicEventToOpenAI_def)
next
  case (Some e)
  obtain cs fin st1 where "translate_event env e st = ((cs, fin), st1)" by (metis prod.collapse)
  moreover from this Some have "to_chat_event env d st =
      (if fin then (map CO_Chunk cs @ fst (emitDone st1), snd (emitDone st1)) else (map CO_Chunk cs, st1))"
    by (cases fin) (simp_all add: to_chat_event_def translateAnthropicEventToOpenAI_def split_def)
  ultimately show ?thesis using Some by (intro some)
qed

text \<open>What a translation leaves alone, and its text.\<close>

lemma ensureToolCall_fields:
  "ensureToolCall k i n st = (c, st') \<Longrightarrow> ass_done st' = ass_done st \<and> ass_usage st' = ass_usage st"
  by (auto simp: ensureToolCall_def Let_def split: option.splits)

lemma with_arguments_fields [simp]:
  "ass_done (with_arguments k c a st) = ass_done st" "ass_usage (with_arguments k c a st) = ass_usage st"
  by (simp_all add: with_arguments_def)

lemma merge_fields [simp]: "ass_done (merge_stream_usage u st) = ass_done st"
  by (simp add: merge_stream_usage_def)

lemma translate_event_done: "translate_event env e st = ((cs, fin), st') \<Longrightarrow> ass_done st' = ass_done st"
  by (auto simp: translate_event_def message_start_def content_block_start_def content_block_delta_def Let_def
    split: if_splits prod.splits dest: ensureToolCall_fields)

lemma translate_event_text: "translate_event env e st = ((cs, fin), st') \<Longrightarrow> output_text (map CO_Chunk cs) = event_text e"
  by (auto simp: translate_event_def message_start_def content_block_start_def content_block_delta_def Let_def
    chunk_now_def output_text_def event_text_def split: if_splits prod.splits)

lemma emitDone_facts:
  "output_text (fst (emitDone st)) = []" "ass_usage (snd (emitDone st)) = ass_usage st" "ass_done (snd (emitDone st))"
  "length (filter (\<lambda>x. x = CO_Done) (fst (emitDone st))) = (if ass_done st then 0 else 1)"
  by (auto simp: emitDone_def output_text_def usageChunk_def chunk_now_def Let_def split: prod.splits)

lemma output_text_append [simp]: "output_text (a @ b) = output_text a @ output_text b" by (simp add: output_text_def)

lemma no_done_in_chunks [simp]: "filter (\<lambda>x. x = CO_Done) (map CO_Chunk cs) = []" by (induction cs) auto

lemma to_chat_event_facts:
  assumes "to_chat_event env d st = (out, st')"
  shows "output_text out = (case event_of env d of None \<Rightarrow> [] | Some e \<Rightarrow> event_text e)"
    and "length (filter (\<lambda>x. x = CO_Done) out) = (if \<not> ass_done st \<and> ass_done st' then 1 else 0)"
    and "ass_done st \<Longrightarrow> ass_done st'"
proof -
  show "output_text out = (case event_of env d of None \<Rightarrow> [] | Some e \<Rightarrow> event_text e)"
  proof (cases rule: event_of_cases [of env d st])
    case none
    with assms show ?thesis by (simp add: output_text_def)
  next
    case (some e cs fin st1)
    with assms translate_event_text [OF some(2)] emitDone_facts(1) [of st1] show ?thesis by (auto split: if_splits)
  qed
  show "length (filter (\<lambda>x. x = CO_Done) out) = (if \<not> ass_done st \<and> ass_done st' then 1 else 0)"
  proof (cases rule: event_of_cases [of env d st])
    case (some e cs fin st1)
    with assms translate_event_done [OF some(2)] emitDone_facts(3,4) [of st1] show ?thesis by (auto split: if_splits)
  qed (use assms in simp)
  show "ass_done st'" if "ass_done st"
  proof (cases rule: event_of_cases [of env d st])
    case (some e cs fin st1)
    with assms that translate_event_done [OF some(2)] emitDone_facts(3) [of st1] show ?thesis by (auto split: if_splits)
  qed (use assms that in simp)
qed

lemma chat_outputs_facts:
  "chat_outputs env ds st = (out, st') \<Longrightarrow>
     output_text out = concat (map event_text (events_of env ds)) \<and>
     length (filter (\<lambda>x. x = CO_Done) out) = (if \<not> ass_done st \<and> ass_done st' then 1 else 0) \<and>
     (ass_done st \<longrightarrow> ass_done st')"
proof (induction ds arbitrary: st out)
  case Nil
  then show ?case by (simp add: output_text_def events_of_def map_filter_simps)
next
  case (Cons d ds)
  obtain out1 st1 where d: "to_chat_event env d st = (out1, st1)" by fastforce
  obtain out2 where ds: "chat_outputs env ds st1 = (out2, st')" "out = out1 @ out2"
    using Cons.prems d by (auto split: prod.splits)
  show ?case
    using Cons.IH [OF ds(1)] to_chat_event_facts [OF d] ds(2)
    by (auto simp: events_of_def map_filter_simps split: option.splits)
qed

lemma complete_output_facts:
  assumes "complete_output env ds (fresh_anthropicStream env) = (out, st)"
  shows "output_text out = concat (map event_text (events_of env ds))"
    and "length (filter (\<lambda>x. x = CO_Done) out) = 1"
proof -
  obtain out1 st1 where 1: "chat_outputs env ds (fresh_anthropicStream env) = (out1, st1)" by fastforce
  with assms have out: "out = out1 @ fst (emitDone st1)" by (simp add: complete_output_def split_def)
  have "\<not> ass_done (fresh_anthropicStream env)" by (simp add: fresh_anthropicStream_def)
  with chat_outputs_facts [OF 1] emitDone_facts [of st1] show
    "output_text out = concat (map event_text (events_of env ds))" "length (filter (\<lambda>x. x = CO_Done) out) = 1"
    by (auto simp: out)
qed

section \<open>The arguments of the tools\<close>

text \<open>What the client receives for its tool number \<open>n\<close>, and what the upstream has sent for its block \<open>k\<close>.\<close>

fun delta_args :: "nat \<Rightarrow> chat_output \<Rightarrow> string" where
  "delta_args n (CO_Chunk c) =
     (case cc_delta c of
        CD_ToolStart m i name args \<Rightarrow> if m = n then args else []
      | CD_ToolArguments m args \<Rightarrow> if m = n then args else []
      | _ \<Rightarrow> [])"
| "delta_args n CO_Done = []"

definition output_args :: "nat \<Rightarrow> chat_output list \<Rightarrow> string" where "output_args n out = concat (map (delta_args n) out)"

definition event_args :: "'x json_env_scheme \<Rightarrow> goint \<Rightarrow> anthropicSSEEvent \<Rightarrow> string" where
  "event_args env k e =
     (if ase_Index e \<noteq> k then []
      else if ase_Type e = ''content_block_start'' \<and> acb_Type (ase_ContentBlock e) = ''tool_use''
      then initialAnthropicToolArguments env (acb_Input (ase_ContentBlock e))
      else if ase_Type e = ''content_block_delta'' \<and> asd_Type (ase_Delta e) = ''input_json_delta'' \<and>
        trim_space (asd_PartialJSON (ase_Delta e)) \<noteq> []
      then asd_PartialJSON (ase_Delta e)
      else [])"

definition tool_number :: "anthropicStreamState \<Rightarrow> goint \<Rightarrow> nat option" where
  "tool_number st k = map_option atc_OpenAIIndex (map_of (ass_toolCalls st) k)"

definition tools_ok :: "anthropicStreamState \<Rightarrow> bool" where
  "tools_ok st \<longleftrightarrow> inj_on (tool_number st) (dom (tool_number st)) \<and> (\<forall>k n. tool_number st k = Some n \<longrightarrow> n < ass_nextToolIndex st)"

lemma tool_number_cong: "ass_toolCalls st' = ass_toolCalls st \<Longrightarrow> tool_number st' = tool_number st"
  by (simp add: tool_number_def fun_eq_iff)

lemma output_args_simps [simp]: "output_args n [] = []" "output_args n (x # xs) = delta_args n x @ output_args n xs"
  "output_args n (a @ b) = output_args n a @ output_args n b"
  by (simp_all add: output_args_def)

text \<open>One step: its effect on the numbers of the tools and on their arguments.\<close>

definition tool_step :: "'x json_env_scheme \<Rightarrow> anthropicSSEEvent \<Rightarrow> chat_chunk list \<Rightarrow>
    anthropicStreamState \<Rightarrow> anthropicStreamState \<Rightarrow> bool" where
  "tool_step env e cs st st' \<longleftrightarrow> tools_ok st' \<and> ass_nextToolIndex st \<le> ass_nextToolIndex st' \<and>
     (\<forall>k n. tool_number st k = Some n \<longrightarrow> tool_number st' k = Some n) \<and>
     (\<forall>k n. tool_number st' k = Some n \<longrightarrow> output_args n (map CO_Chunk cs) = event_args env k e \<and>
        (tool_number st k = None \<longrightarrow> ass_nextToolIndex st \<le> n)) \<and>
     (\<forall>k. tool_number st' k = None \<longrightarrow> event_args env k e = []) \<and>
     (\<forall>n \<ge> ass_nextToolIndex st'. output_args n (map CO_Chunk cs) = [])"

lemma tool_step_quiet:
  assumes "tools_ok st" "ass_toolCalls st' = ass_toolCalls st" "ass_nextToolIndex st' = ass_nextToolIndex st"
    and "\<And>n. output_args n (map CO_Chunk cs) = []" "\<And>k. event_args env k e = []"
  shows "tool_step env e cs st st'"
  using assms by (simp add: tool_step_def tools_ok_def tool_number_cong [OF assms(2)])

lemma ensure_entry:
  assumes "ensureToolCall k i name st = (call, st1)"
  shows "ass_toolCalls st1 = AList.update k call (ass_toolCalls st)"
    and "map_of (ass_toolCalls st) k = None \<Longrightarrow>
      atc_OpenAIIndex call = ass_nextToolIndex st \<and> ass_nextToolIndex st1 = Suc (ass_nextToolIndex st)"
    and "map_of (ass_toolCalls st) k = Some c \<Longrightarrow>
      atc_OpenAIIndex call = atc_OpenAIIndex c \<and> ass_nextToolIndex st1 = ass_nextToolIndex st"
proof -
  have call: "call = fst (ensureToolCall k i name st)" and st1: "st1 = snd (ensureToolCall k i name st)"
    using assms by simp_all
  show "ass_toolCalls st1 = AList.update k call (ass_toolCalls st)"
    unfolding call st1 ensureToolCall_def Let_def by (cases "map_of (ass_toolCalls st) k") simp_all
  show "atc_OpenAIIndex call = ass_nextToolIndex st \<and> ass_nextToolIndex st1 = Suc (ass_nextToolIndex st)"
    if "map_of (ass_toolCalls st) k = None"
    unfolding call st1 ensureToolCall_def Let_def that by simp
  show "atc_OpenAIIndex call = atc_OpenAIIndex c \<and> ass_nextToolIndex st1 = ass_nextToolIndex st"
    if "map_of (ass_toolCalls st) k = Some c"
    unfolding call st1 ensureToolCall_def Let_def that by simp
qed

lemma ensure_number:
  assumes ok: "tools_ok st" and step: "ensureToolCall k i name st = (call, st1)"
  shows "tool_number st1 = (tool_number st)(k \<mapsto> atc_OpenAIIndex call)"
    and "tool_number st k = None \<Longrightarrow> atc_OpenAIIndex call = ass_nextToolIndex st \<and> ass_nextToolIndex st1 = Suc (ass_nextToolIndex st)"
    and "tool_number st k \<noteq> None \<Longrightarrow> tool_number st k = Some (atc_OpenAIIndex call) \<and> ass_nextToolIndex st1 = ass_nextToolIndex st"
proof -
  show "tool_number st1 = (tool_number st)(k \<mapsto> atc_OpenAIIndex call)"
    by (simp add: tool_number_def ensure_entry(1) [OF step] update_conv' fun_eq_iff)
  show "atc_OpenAIIndex call = ass_nextToolIndex st \<and> ass_nextToolIndex st1 = Suc (ass_nextToolIndex st)"
    if "tool_number st k = None"
    using that ensure_entry(2) [OF step] by (simp add: tool_number_def)
  show "tool_number st k = Some (atc_OpenAIIndex call) \<and> ass_nextToolIndex st1 = ass_nextToolIndex st"
    if "tool_number st k \<noteq> None"
    using that ensure_entry(3) [OF step] by (auto simp: tool_number_def)
qed

lemma with_arguments_number:
  "tool_number st1 k = Some (atc_OpenAIIndex call) \<Longrightarrow> tool_number (with_arguments k call a st1) = tool_number st1"
  "ass_nextToolIndex (with_arguments k call a st1) = ass_nextToolIndex st1"
  by (auto simp: with_arguments_def tool_number_def update_conv' fun_eq_iff)

lemma tool_step_sends:
  assumes ok: "tools_ok st" and call: "ensureToolCall (ase_Index e) i name st = (call, st1)"
    and st': "tool_number st' = tool_number st1" "ass_nextToolIndex st' = ass_nextToolIndex st1"
    and sent: "\<And>n. output_args n (map CO_Chunk cs) = (if n = atc_OpenAIIndex call then args else [])"
    and args: "\<And>k. event_args env k e = (if k = ase_Index e then args else [])"
  shows "tool_step env e cs st st'"
proof -
  let ?k = "ase_Index e" and ?n = "atc_OpenAIIndex call"
  note num = ensure_number [OF ok call]
  have less: "?n < ass_nextToolIndex st1" and le: "ass_nextToolIndex st \<le> ass_nextToolIndex st1"
    and old: "tool_number st ?k \<noteq> None \<Longrightarrow> tool_number st ?k = Some ?n"
    using num(2,3) ok unfolding tools_ok_def by (cases "tool_number st ?k = None"; fastforce)+
  have others: "n \<noteq> ?n" if "tool_number st k = Some n" "k \<noteq> ?k" for k n
  proof (cases "tool_number st ?k")
    case None
    with num(2) that ok show ?thesis by (auto simp: tools_ok_def)
  next
    case (Some m)
    with old have "tool_number st ?k = Some ?n" by simp
    with that ok show ?thesis unfolding tools_ok_def inj_on_def by (metis domI)
  qed
  have "tools_ok st'"
  proof (cases "tool_number st ?k")
    case None
    have "inj_on ((tool_number st)(?k \<mapsto> ?n)) (dom ((tool_number st)(?k \<mapsto> ?n)))"
    proof (rule inj_onI)
      fix x y assume "x \<in> dom ((tool_number st)(?k \<mapsto> ?n))" "y \<in> dom ((tool_number st)(?k \<mapsto> ?n))"
        and eq: "((tool_number st)(?k \<mapsto> ?n)) x = ((tool_number st)(?k \<mapsto> ?n)) y"
      then show "x = y"
        using others [of x] others [of y] ok by (auto simp: tools_ok_def inj_on_def split: if_splits)
    qed
    moreover have "n < ass_nextToolIndex st1" if "((tool_number st)(?k \<mapsto> ?n)) k = Some n" for k n
      using that less le ok by (fastforce simp: tools_ok_def split: if_splits)
    ultimately show ?thesis by (simp add: tools_ok_def st' num(1))
  next
    case (Some m)
    with old num(3) have "(tool_number st)(?k \<mapsto> ?n) = tool_number st" "ass_nextToolIndex st1 = ass_nextToolIndex st"
      by (simp_all add: fun_upd_idem)
    with ok show ?thesis by (simp add: tools_ok_def st' num(1))
  qed
  moreover have "tool_number st' k = Some n" if "tool_number st k = Some n" for k n
    using that old by (auto simp: st' num(1))
  moreover have "output_args n (map CO_Chunk cs) = event_args env k e \<and> (tool_number st k = None \<longrightarrow> ass_nextToolIndex st \<le> n)"
    if "tool_number st' k = Some n" for k n
    using that others [of k n] num(2) by (auto simp: st' num(1) sent args split: if_splits)
  moreover have "event_args env k e = []" if "tool_number st' k = None" for k
    using that by (auto simp: st' num(1) args split: if_splits)
  moreover have "output_args n (map CO_Chunk cs) = []" if "ass_nextToolIndex st' \<le> n" for n
    using that less by (auto simp: st' sent)
  ultimately show ?thesis using le by (auto simp: tool_step_def st')
qed

lemma tool_step_merge:
  "tool_step env e cs (merge_stream_usage u st) st' \<Longrightarrow> tool_step env e cs st st'"
  by (simp add: tool_step_def tool_number_def merge_stream_usage_def)

lemma tools_ok_merge [simp]: "tools_ok (merge_stream_usage u st) = tools_ok st"
proof -
  have "tool_number (merge_stream_usage u st) = tool_number st" by (rule tool_number_cong) (simp add: merge_stream_usage_def)
  then show ?thesis by (simp add: tools_ok_def) (simp add: merge_stream_usage_def)
qed

lemma block_start_step:
  assumes ok: "tools_ok st" and ty: "ase_Type e = ''content_block_start''" and step: "content_block_start env e st = (cs, st')"
  shows "tool_step env e cs st st'"
proof (cases "acb_Type (ase_ContentBlock e) = ''tool_use''")
  case False
  with step have "cs = []" "st' = st" by (simp_all add: content_block_start_def Let_def)
  with ok ty False show ?thesis by (intro tool_step_quiet) (simp_all add: event_args_def)
next
  case True
  let ?b = "ase_ContentBlock e"
  obtain call st1 where call: "ensureToolCall (ase_Index e) (acb_ID ?b) (acb_Name ?b) st = (call, st1)" by fastforce
  let ?args = "initialAnthropicToolArguments env (acb_Input ?b)"
  note num = ensure_number(1) [OF ok call]
  have "tool_number st' = tool_number st1 \<and> ass_nextToolIndex st' = ass_nextToolIndex st1 \<and>
      (\<exists>c. cs = [c] \<and> cc_delta c = CD_ToolStart (atc_OpenAIIndex call) (atc_ID call) (atc_Name call) ?args)"
    using step True call with_arguments_number(1) [of st1 "ase_Index e" call ?args] num
    by (auto simp: content_block_start_def chunk_now_def with_arguments_number(2) Let_def)
  then show ?thesis using True ty by (intro tool_step_sends [OF ok call, of st' cs ?args]) (auto simp: event_args_def)
qed

lemma block_delta_step:
  assumes ok: "tools_ok st" and ty: "ase_Type e = ''content_block_delta''" and step: "content_block_delta e st = (cs, st')"
  shows "tool_step env e cs st st'"
proof (cases "asd_Type (ase_Delta e) = ''input_json_delta'' \<and> trim_space (asd_PartialJSON (ase_Delta e)) \<noteq> []")
  case False
  with step have "st' = st" "cs = [] \<or> (\<exists>c t. cs = [c] \<and> cc_delta c = CD_Text t)"
    by (auto simp: content_block_delta_def chunk_now_def Let_def split: if_splits)
  with ok ty False show ?thesis by (intro tool_step_quiet) (auto simp: event_args_def)
next
  case True
  obtain call st1 where call: "ensureToolCall (ase_Index e) [] [] st = (call, st1)" by fastforce
  let ?args = "asd_PartialJSON (ase_Delta e)"
  note num = ensure_number(1) [OF ok call]
  have "tool_number st' = tool_number st1 \<and> ass_nextToolIndex st' = ass_nextToolIndex st1 \<and>
      (\<exists>c. cs = [c] \<and> cc_delta c = CD_ToolArguments (atc_OpenAIIndex call) ?args)"
    using step True call with_arguments_number(1) [of st1 "ase_Index e" call "atc_Arguments call @ ?args"] num
    by (auto simp: content_block_delta_def chunk_now_def with_arguments_number(2) Let_def)
  then show ?thesis using True ty by (intro tool_step_sends [OF ok call, of st' cs ?args]) (auto simp: event_args_def)
qed

lemma translate_event_step:
  assumes ok: "tools_ok st" and step: "translate_event env e st = ((cs, fin), st')"
  shows "tool_step env e cs st st'"
proof -
  let ?st = "merge_stream_usage (ase_Usage e) st"
  have ok': "tools_ok ?st" using ok by simp
  consider (start) "ase_Type e = ''content_block_start''" | (delta) "ase_Type e = ''content_block_delta''"
    | (other) "ase_Type e \<noteq> ''content_block_start''" "ase_Type e \<noteq> ''content_block_delta''" by blast
  then have "tool_step env e cs ?st st'"
  proof cases
    case start
    with step block_start_step [OF ok' start] show ?thesis by (auto simp: translate_event_def Let_def split: prod.splits)
  next
    case delta
    with step block_delta_step [OF ok' delta] show ?thesis by (auto simp: translate_event_def Let_def split: prod.splits)
  next
    case other
    with step have "ass_toolCalls st' = ass_toolCalls ?st" "ass_nextToolIndex st' = ass_nextToolIndex ?st"
        "\<And>n. output_args n (map CO_Chunk cs) = []"
      by (auto simp: translate_event_def message_start_def merge_stream_usage_def chunk_now_def Let_def split: if_splits)
    with ok' other show ?thesis by (intro tool_step_quiet) (auto simp: event_args_def)
  qed
  then show ?thesis by (rule tool_step_merge)
qed

lemma emitDone_tools:
  "tool_number (snd (emitDone st)) = tool_number st" "ass_nextToolIndex (snd (emitDone st)) = ass_nextToolIndex st"
  "output_args n (fst (emitDone st)) = []"
  by (auto simp: emitDone_def tool_number_def usageChunk_def chunk_now_def Let_def split: prod.splits)

lemma to_chat_event_tools:
  assumes ok: "tools_ok st" and step: "to_chat_event env d st = (out, st')"
  shows "tools_ok st' \<and> ass_nextToolIndex st \<le> ass_nextToolIndex st' \<and>
    (\<forall>k n. tool_number st k = Some n \<longrightarrow> tool_number st' k = Some n) \<and>
    (\<forall>k n. tool_number st' k = Some n \<longrightarrow>
       output_args n out = (case event_of env d of None \<Rightarrow> [] | Some e \<Rightarrow> event_args env k e) \<and>
       (tool_number st k = None \<longrightarrow> ass_nextToolIndex st \<le> n)) \<and>
    (\<forall>k. tool_number st' k = None \<longrightarrow> (case event_of env d of None \<Rightarrow> [] | Some e \<Rightarrow> event_args env k e) = []) \<and>
    (\<forall>n \<ge> ass_nextToolIndex st'. output_args n out = [])"
proof (cases rule: event_of_cases [of env d st])
  case none
  with ok step show ?thesis by simp
next
  case (some e cs fin st1)
  from translate_event_step [OF ok some(2)] have ts: "tool_step env e cs st st1" .
  have "tool_number st' = tool_number st1" "ass_nextToolIndex st' = ass_nextToolIndex st1"
      "\<And>n. output_args n out = output_args n (map CO_Chunk cs)"
    using step some(3) by (auto simp: emitDone_tools split: if_splits)
  with ts some(1) show ?thesis by (simp add: tool_step_def tools_ok_def)
qed

lemma chat_outputs_tools:
  "tools_ok st \<Longrightarrow> chat_outputs env ds st = (out, st') \<Longrightarrow>
     tools_ok st' \<and> ass_nextToolIndex st \<le> ass_nextToolIndex st' \<and>
     (\<forall>k n. tool_number st k = Some n \<longrightarrow> tool_number st' k = Some n) \<and>
     (\<forall>k n. tool_number st' k = Some n \<longrightarrow>
       output_args n out = concat (map (event_args env k) (events_of env ds)) \<and>
       (tool_number st k = None \<longrightarrow> ass_nextToolIndex st \<le> n)) \<and>
     (\<forall>k. tool_number st' k = None \<longrightarrow> concat (map (event_args env k) (events_of env ds)) = []) \<and>
     (\<forall>n \<ge> ass_nextToolIndex st'. output_args n out = [])"
proof (induction ds arbitrary: st out)
  case Nil
  then show ?case by (auto simp: events_of_def map_filter_simps)
next
  case (Cons d ds)
  obtain out1 st1 where d: "to_chat_event env d st = (out1, st1)" by fastforce
  obtain out2 where ds: "chat_outputs env ds st1 = (out2, st')" "out = out1 @ out2"
    using Cons.prems(2) d by (auto split: prod.splits)
  note s1 = to_chat_event_tools [OF Cons.prems(1) d]
  then have ok1: "tools_ok st1" by blast
  note s2 = Cons.IH [OF ok1 ds(1)]
  let ?here = "\<lambda>k. case event_of env d of None \<Rightarrow> [] | Some e \<Rightarrow> event_args env k e"
  have split: "concat (map (event_args env k) (events_of env (d # ds))) =
      ?here k @ concat (map (event_args env k) (events_of env ds))" for k
    by (simp add: events_of_def map_filter_simps split: option.split)
  have here: "output_args n out1 = ?here k \<and> (tool_number st k = None \<longrightarrow> ass_nextToolIndex st \<le> n)"
    if "tool_number st' k = Some n" for k n
  proof (cases "tool_number st1 k")
    case None
    with s2 that have "ass_nextToolIndex st1 \<le> n" by blast
    with s1 have "output_args n out1 = []" "ass_nextToolIndex st \<le> n" by (blast, meson order_trans)
    moreover from None s1 have "?here k = []" by blast
    ultimately show ?thesis by simp
  next
    case (Some m)
    with s2 that have "m = n" by fastforce
    with Some s1 show ?thesis by blast
  qed
  have none: "tool_number st1 k = None" if "tool_number st' k = None" for k
    using s2 that by (cases "tool_number st1 k") auto
  have "output_args n out1 = []" if "ass_nextToolIndex st' \<le> n" for n
    using s1 s2 that by (meson order_trans)
  with s1 s2 here none show ?case
    unfolding ds(2) split by (simp add: order_trans [of "ass_nextToolIndex st" "ass_nextToolIndex st1" "ass_nextToolIndex st'"])
qed

section \<open>Properties\<close>

text \<open>
  C20 A complete Anthropic stream, whatever its events are, reaches a chat completion client with exactly
  one end marker; its text deltas are the texts of the upstream's deltas, nothing lost, repeated or
  reordered; and every tool block of the upstream has a number of its own, under which the client
  receives the block's initial input and partial inputs in order (those that are not only white space,
  which the source leaves out).
\<close>

theorem chat_stream_complete:
  assumes "sb_eof body"
  shows "\<exists>out num. snd (bridgeAnthropicStreamToOpenAI env statusCode (Some body) w) =
      emit_outputs env out (bridge_headers statusCode w) \<and>
    length (filter (\<lambda>x. x = CO_Done) out) = 1 \<and>
    output_text out = concat (map event_text (events_of env (bridged_events body))) \<and>
    inj_on num (dom num) \<and>
    (\<forall>k. case num k of
        Some n \<Rightarrow> output_args n out = concat (map (event_args env k) (events_of env (bridged_events body)))
      | None \<Rightarrow> concat (map (event_args env k) (events_of env (bridged_events body))) = [])"
proof -
  let ?ds = "bridged_events body" and ?st = "fresh_anthropicStream env"
  obtain out st where c: "complete_output env ?ds ?st = (out, st)" by fastforce
  obtain out1 st1 where 1: "chat_outputs env ?ds ?st = (out1, st1)" by fastforce
  with c have out: "out = out1 @ fst (emitDone st1)" by (simp add: complete_output_def split_def)
  have "tool_number ?st = Map.empty" by (simp add: fun_eq_iff tool_number_def fresh_anthropicStream_def)
  then have "tools_ok ?st" by (simp add: tools_ok_def)
  from chat_outputs_tools [OF this 1] have t: "tools_ok st1"
    "\<And>k n. tool_number st1 k = Some n \<Longrightarrow> output_args n out = concat (map (event_args env k) (events_of env ?ds))"
    "\<And>k. tool_number st1 k = None \<Longrightarrow> concat (map (event_args env k) (events_of env ?ds)) = []"
    by (simp_all add: out emitDone_tools)
  have "\<forall>k. case tool_number st1 k of
        Some n \<Rightarrow> output_args n out = concat (map (event_args env k) (events_of env ?ds))
      | None \<Rightarrow> concat (map (event_args env k) (events_of env ?ds)) = []"
    using t(2,3) by (auto split: option.split)
  moreover have "inj_on (tool_number st1) (dom (tool_number st1))" using t(1) by (simp add: tools_ok_def)
  moreover have "snd (bridgeAnthropicStreamToOpenAI env statusCode (Some body) w) =
      emit_outputs env out (bridge_headers statusCode w)"
    by (simp add: bridgeAnthropicStreamToOpenAI_def bridge_is_complete_output [OF assms] c)
  ultimately show ?thesis using complete_output_facts [OF c] by blast
qed

text \<open>A tool call whose argument is cut at a space, and the end of the message.\<close>

definition demo_events :: parser where
  "demo_events s =
     (if s = ''t'' then Some (JObject [(''type'', JString ''content_block_start''), (''index'', JNumber ''1''),
        (''content_block'', JObject [(''type'', JString ''tool_use''), (''id'', JString ''x''), (''name'', JString ''f'')])])
      else if s = ''a'' then Some (JObject [(''type'', JString ''content_block_delta''), (''index'', JNumber ''1''),
        (''delta'', JObject [(''type'', JString ''input_json_delta''), (''partial_json'', JString ''1'')])])
      else if s = ''b'' then Some (JObject [(''type'', JString ''content_block_delta''), (''index'', JNumber ''1''),
        (''delta'', JObject [(''type'', JString ''input_json_delta''), (''partial_json'', JString '' '')])])
      else if s = ''z'' then Some (JObject [(''type'', JString ''message_stop'')])
      else None)"

definition demo_json :: json_env where
  "demo_json = \<lparr>je_parse = demo_events, je_marshal = (\<lambda>v. Some ''{}''), je_float = Some, je_sprint = (\<lambda>v. []),
     je_uuid = (\<lambda>n. ''1''), je_now = 7\<rparr>"

definition demo_anthropic_body :: stream_body where
  "demo_anthropic_body = \<lparr>sb_content = concat (map (\<lambda>d. ''data: '' @ d @ [newline, newline]) [''t'', ''a'', ''z'']), sb_eof = True\<rparr>"

lemma chat_stream_complete_witness:
  "\<exists>out num. snd (bridgeAnthropicStreamToOpenAI demo_json 200 (Some demo_anthropic_body) fresh_writer) =
      emit_outputs demo_json out (bridge_headers 200 fresh_writer) \<and> length (filter (\<lambda>x. x = CO_Done) out) = 1 \<and>
    inj_on num (dom num) \<and> (case num (1::int) of Some n \<Rightarrow> output_args n out = ''1'' | None \<Rightarrow> False)"
proof -
  have "bridged_events demo_anthropic_body = [''t'', ''a'', ''z'']" by code_simp
  moreover have "concat (map (event_args demo_json 1) (events_of demo_json [''t'', ''a'', ''z''])) = ''1''" by code_simp
  moreover have "sb_eof demo_anthropic_body" by (simp add: demo_anthropic_body_def)
  ultimately obtain out num where out: "snd (bridgeAnthropicStreamToOpenAI demo_json 200 (Some demo_anthropic_body) fresh_writer) =
      emit_outputs demo_json out (bridge_headers 200 fresh_writer)" "length (filter (\<lambda>x. x = CO_Done) out) = 1" "inj_on num (dom num)"
    and args: "\<forall>k. case num k of
        Some n \<Rightarrow> output_args n out = concat (map (event_args demo_json k) (events_of demo_json [''t'', ''a'', ''z'']))
      | None \<Rightarrow> concat (map (event_args demo_json k) (events_of demo_json [''t'', ''a'', ''z''])) = []"
    and one: "concat (map (event_args demo_json 1) (events_of demo_json [''t'', ''a'', ''z''])) = ''1''"
    using chat_stream_complete [of demo_anthropic_body demo_json 200 fresh_writer] by metis
  from spec [OF args, of 1] one have "case num 1 of Some n \<Rightarrow> output_args n out = ''1'' | None \<Rightarrow> False"
    by (cases "num 1") simp_all
  with out show ?thesis by blast
qed

text \<open>
  A fragment of only white space is dropped although it may lie inside of a string: the arguments
  that the upstream sends as \<open>1\<close>, a space and \<open>1\<close> arrive as \<open>11\<close>.
\<close>

lemma blank_fragment_lost:
  "output_args 0 (fst (complete_output demo_json [''t'', ''a'', ''b'', ''a'', ''z''] (fresh_anthropicStream demo_json))) = ''11''"
  by code_simp

text \<open>The tokens that are accounted are those of the usage chunk that the client receives.\<close>

lemma usage_chunk_is_accounted:
  assumes "\<not> ass_done st" "tokenTriplet (ass_usage st) = (p, c, k)"
  shows "fst (emitDone st) = (if p = 0 \<and> c = 0 \<and> k = 0 then [] else [CO_Chunk (chunk_now (st\<lparr>ass_done := True\<rparr>) (CD_Usage p c k))]) @ [CO_Done]"
  using assms by (simp add: emitDone_def usageChunk_def Let_def)

end
