(* ===== verification/Handler_Response.thy ===== *)
theory Handler_Response
  imports Handler
begin

text \<open>
  What one call of the handler sends to the client and records: the status of the response, the
  telemetry event, the session of a stream that waits for its upstream.
\<close>

section \<open>The status of the response\<close>

abbreviation answer :: "'w exchange \<Rightarrow> goint option" where
  "answer x \<equiv> rw_status (ex_writer x)"

lemma write_header_status [simp]:
  "rw_status (write_header s w) = (case rw_status w of None \<Rightarrow> Some s | Some s' \<Rightarrow> Some s')"
  by (simp add: write_header_def split: option.split)

lemma set_header_status [simp]: "rw_status (set_header k v w) = rw_status w"
  by (simp add: set_header_def)

lemma Write_status [simp]:
  "rw_status (snd (Write data w)) = (case rw_status w of None \<Rightarrow> Some 200 | Some s \<Rightarrow> Some s)"
  by (auto simp: Write_def Let_def split: option.split nat.split)

lemma put_response_status [simp]:
  "rw_status (put_response s ct b w) = (case rw_status w of None \<Rightarrow> Some s | Some s' \<Rightarrow> Some s')"
  by (simp add: put_response_def split: option.split)

lemma writeError_status [simp]:
  "rw_status (writeError cv s m w) = (case rw_status w of None \<Rightarrow> Some s | Some s' \<Rightarrow> Some s')"
  by (simp add: writeError_def writeErrorWithType_def Let_def split: option.split)

lemma Writes_status [simp]:
  "rw_status w = Some s \<Longrightarrow> rw_status (fold (\<lambda>data w. snd (Write data w)) ds w) = Some s"
  by (induction ds arbitrary: w) simp_all

lemma writeStreamErrorEvent_status [simp]:
  "rw_status w = Some s \<Longrightarrow> rw_status (writeStreamErrorEvent cv s' m w) = Some s"
  unfolding writeStreamErrorEvent_def by (rule Writes_status)

lemma copy_loop_status: "rw_status w = Some s \<Longrightarrow> rw_status (snd (copy_loop parse eof content acc w)) = Some s"
proof (induction "length content" arbitrary: content acc w rule: less_induct)
  case less
  obtain line rest found where line: "read_line content = (line, rest, found)"
    by (cases "read_line content")
  obtain ok w' where step: "(if line \<noteq> [] then Write line w else (True, w)) = (ok, w')" by fastforce
  have "rw_status (snd (if line \<noteq> [] then Write line w else (True, w))) = Some s"
    using less.prems by simp
  then have w': "rw_status w' = Some s" unfolding step by simp
  have "copy_loop parse eof content acc w =
      (let acc' = (if line \<noteq> [] then event_line parse line acc else acc) in
       if \<not> ok then (snd acc, w')
       else if \<not> found then (if eof then take_usage parse (fst acc') (snd acc') else snd acc', w')
       else copy_loop parse eof rest acc' w')"
    by (subst copy_loop.simps) (simp add: line step Let_def split del: if_split)
  moreover have "rw_status (snd (copy_loop parse eof rest acc' w')) = Some s" if found for acc'
    using less.hyps [of rest w' acc'] read_line_rest(1) [of content line rest] line that w' by simp
  ultimately show ?case using w' by (auto simp: Let_def)
qed

lemma copyStreamingBody_status:
  "rw_status w = Some s \<Longrightarrow> rw_status (snd (copyStreamingBody parse body w)) = Some s"
  by (simp add: copyStreamingBody_def copy_loop_status split: option.split)

text \<open>What a bridge does with the status, as \<open>writeCompatStreamResponse\<close> and its variant for a started stream do.\<close>

definition bridge_status :: "converters \<Rightarrow> bool" where
  "bridge_status cv \<longleftrightarrow>
     (\<forall>plan s b w. rw_status (snd (cv_bridgeStream cv plan (Some s) b w)) = rw_status (write_header s w)) \<and>
     (\<forall>plan b w. rw_status w \<noteq> None \<longrightarrow> rw_status (snd (cv_bridgeStream cv plan None b w)) = rw_status w)"

lemma writeCompatStreamResponse_status:
  assumes "bridge_status cv"
  shows "rw_status (snd (writeCompatStreamResponse cv s ct b plan w)) =
    (case rw_status w of None \<Rightarrow> Some s | Some s' \<Rightarrow> Some s')"
  using assms copyStreamingBody_status
  by (auto simp: writeCompatStreamResponse_def bridge_status_def handleStreamResponse_def stream_headers_def
      split: option.split)

lemma writeCompatStreamResponseStarted_status:
  assumes "bridge_status cv" "rw_status w = Some s"
  shows "rw_status (snd (writeCompatStreamResponseStarted cv b plan w)) = Some s"
  using assms copyStreamingBody_status
  by (auto simp: writeCompatStreamResponseStarted_def bridge_status_def handleStartedStreamResponse_def)

section \<open>Operations that answer nothing\<close>

named_theorems quiet \<open>operations that leave the answer, the events and the session\<close>

lemma on_gateway_quiet [quiet]:
  "ex_writer (snd (on_gateway f x)) = ex_writer x" "ex_events (snd (on_gateway f x)) = ex_events x"
  "ex_session (snd (on_gateway f x)) = ex_session x"
  by (simp_all add: on_gateway_def Let_def split_def)

lemma on_writer_quiet [quiet]:
  "ex_writer (snd (on_writer f x)) = snd (f (ex_writer x))" "ex_events (snd (on_writer f x)) = ex_events x"
  "ex_session (snd (on_writer f x)) = ex_session x"
  by (simp_all add: on_writer_def Let_def split_def)

lemma clock_quiet [quiet]:
  "ex_writer (snd (clock sv x)) = ex_writer x" "ex_events (snd (clock sv x)) = ex_events x"
  "ex_session (snd (clock sv x)) = ex_session x"
  by (simp_all add: clock_def quiet)

lemma cancelled_quiet [quiet]:
  "ex_writer (snd (cancelled sv x)) = ex_writer x" "ex_events (snd (cancelled sv x)) = ex_events x"
  "ex_session (snd (cancelled sv x)) = ex_session x"
  by (simp_all add: cancelled_def Let_def split_def quiet)

lemma budget_spent_quiet [quiet]:
  "ex_writer (snd (budget_spent sv b t x)) = ex_writer x" "ex_events (snd (budget_spent sv b t x)) = ex_events x"
  "ex_session (snd (budget_spent sv b t x)) = ex_session x"
  by (simp_all add: budget_spent_def Let_def split_def quiet)

lemma must_stop_quiet [quiet]:
  "ex_writer (snd (must_stop sv c x)) = ex_writer x" "ex_events (snd (must_stop sv c x)) = ex_events x"
  "ex_session (snd (must_stop sv c x)) = ex_session x"
  by (simp_all add: must_stop_def Let_def split_def quiet)

lemma order_with_runtime_quiet [quiet]:
  "ex_writer (snd (order_with_runtime sv snap m k cs x)) = ex_writer x"
  "ex_events (snd (order_with_runtime sv snap m k cs x)) = ex_events x"
  "ex_session (snd (order_with_runtime sv snap m k cs x)) = ex_session x"
  by (simp_all add: order_with_runtime_def Let_def split_def quiet split: option.split)

lemma order_for_quiet [quiet]:
  "ex_writer (snd (order_for sv c m k cs x)) = ex_writer x"
  "ex_events (snd (order_for sv c m k cs x)) = ex_events x"
  "ex_session (snd (order_for sv c m k cs x)) = ex_session x"
  by (simp_all add: order_for_def Let_def split_def quiet)

lemma report_attempt_quiet [quiet]:
  "ex_writer (report_attempt sv p r x) = ex_writer x" "ex_events (report_attempt sv p r x) = ex_events x"
  "ex_session (report_attempt sv p r x) = ex_session x"
  by (simp_all add: report_attempt_def Let_def split_def quiet split: option.split)

lemma forward_attempt_quiet [quiet]:
  "ex_writer (snd (forward_attempt sv c p plan x)) = ex_writer x"
  "ex_events (snd (forward_attempt sv c p plan x)) = ex_events x"
  "ex_session (snd (forward_attempt sv c p plan x)) = ex_session x"
  by (simp_all add: forward_attempt_def quiet)

lemma wait_backoff_quiet [quiet]:
  "ex_writer (wait_backoff sv c i x) = ex_writer x" "ex_events (wait_backoff sv c i x) = ex_events x"
  "ex_session (wait_backoff sv c i x) = ex_session x"
  by (simp_all add: wait_backoff_def quiet split: option.split)

lemma captureExecutionResult_quiet [quiet]:
  "ex_writer (captureExecutionResult opts s ct l t pid em mode cost e x) = ex_writer x"
  "ex_events (captureExecutionResult opts s ct l t pid em mode cost e x) = ex_events x"
  "ex_session (captureExecutionResult opts s ct l t pid em mode cost e x) = ex_session x"
  by (simp_all add: captureExecutionResult_def)

lemma cache_quiet [quiet]:
  "ex_writer (snd (cached_response sv c k x)) = ex_writer x" "ex_events (snd (cached_response sv c k x)) = ex_events x"
  "ex_session (snd (cached_response sv c k x)) = ex_session x"
  "ex_writer (cache_response sv c k s b x) = ex_writer x" "ex_events (cache_response sv c k s b x) = ex_events x"
  "ex_session (cache_response sv c k s b x) = ex_session x"
  by (simp_all add: cached_response_def cache_response_def keep_cache_def Let_def split_def quiet)

lemma bind_session_quiet [quiet]:
  "ex_writer (bind_session sv c m k st x) = ex_writer x" "ex_events (bind_session sv c m k st x) = ex_events x"
  "ex_session (bind_session sv c m k st x) = ex_session x"
  by (simp_all add: bind_session_def Let_def split_def quiet split: option.split)

lemma responses_quiet [quiet]:
  "ex_events (reject sv s m x) = ex_events x" "ex_session (reject sv s m x) = ex_session x"
  "ex_events (respond s ct b x) = ex_events x" "ex_session (respond s ct b x) = ex_session x"
  "ex_writer (respond s ct b x) = put_response s ct b (ex_writer x)"
  "ex_writer (reject sv s m x) = writeError (sv_converters sv) s m (ex_writer x)"
  by (simp_all add: reject_def respond_def)

lemma entered_quiet [quiet]:
  "ex_writer (entered sv x) = ex_writer x" "ex_events (entered sv x) = ex_events x"
  "ex_session (entered sv x) = ex_session x"
  by (simp_all add: entered_def quiet)

text \<open>The heartbeats of a session write to a response that has its status.\<close>

lemma heartbeats_status: "rw_status w = Some s \<Longrightarrow> rw_status (((\<lambda>w. snd (heartbeat w)) ^^ n) w) = Some s"
  by (induction n) (simp_all add: heartbeat_def)

lemma tick_session_quiet [quiet]:
  "ex_events (tick_session sv x) = ex_events x" "ex_session (tick_session sv x) = ex_session x"
  by (simp_all add: tick_session_def Let_def split_def quiet)

lemma tick_session_status: "(ex_session x \<Longrightarrow> answer x \<noteq> None) \<Longrightarrow> answer (tick_session sv x) = answer x"
  by (auto simp: tick_session_def Let_def split_def quiet heartbeats_status)

section \<open>The event of a call\<close>

definition emitted :: "call \<Rightarrow> goint \<Rightarrow> 'w exchange \<Rightarrow> 'w exchange \<Rightarrow> bool" where
  "emitted c status x x' \<longleftrightarrow> ex_writer x' = ex_writer x \<and> ex_session x' = ex_session x \<and>
     (ex_events x' = ex_events x \<or>
      (\<exists>e. ex_events x' = ex_events x @ [e] \<and> ev_StatusCode e = status \<and> ev_RequestID e = cl_requestID c \<and>
         ev_Stream e = req_Stream (cl_meta c)))"

lemma emitTelemetry_emitted: "emitted c s x (emitTelemetry sv c em pid mode s l a t e p x)"
  by (simp add: emitted_def emitTelemetry_def Let_def split_def quiet)

lemma emitted_same:
  "ex_writer x = ex_writer y \<Longrightarrow> ex_session x = ex_session y \<Longrightarrow> ex_events x = ex_events y \<Longrightarrow>
     emitted c s x z \<longleftrightarrow> emitted c s y z"
  "ex_writer x = ex_writer y \<Longrightarrow> ex_session x = ex_session y \<Longrightarrow> ex_events x = ex_events y \<Longrightarrow>
     emitted c s z x \<longleftrightarrow> emitted c s z y"
  by (simp_all add: emitted_def)

lemma record_outcome_emitted: "emitted c s x (record_outcome sv c mode st s ct t e cost x)"
proof -
  have "emitted c s x (emitTelemetry sv c (at_effectiveModel st) (provider_id st) (attempt_mode c mode st) s
      (at_latency st) (at_attempts st) t e (pricing_of sv c (at_effectiveModel st) (provider_id st) t s) x)"
    by (rule emitTelemetry_emitted)
  then show ?thesis by (simp add: emitted_def record_outcome_def Let_def quiet)
qed

section \<open>An answered call\<close>

definition retries_forever :: "call \<Rightarrow> bool" where
  "retries_forever c \<longleftrightarrow> max_attempts c = 0"

text \<open>A response that is still open: not begun, or begun by a stream that waits for its upstream.\<close>

definition open_answer :: "call \<Rightarrow> 'w exchange \<Rightarrow> bool" where
  "open_answer c x \<longleftrightarrow> answer x = None \<or> answer x = Some 200 \<and> req_Stream (cl_meta c) \<and> retries_forever c"

text \<open>The response is given, with at most one event, which has its status.\<close>

definition answered :: "call \<Rightarrow> 'w exchange \<Rightarrow> 'w exchange \<Rightarrow> bool" where
  "answered c x x' \<longleftrightarrow> (\<exists>s. answer x' = Some s \<and>
     (ex_events x' = ex_events x \<or>
      (\<exists>e. ex_events x' = ex_events x @ [e] \<and> ev_RequestID e = cl_requestID c \<and>
         (ev_StatusCode e = s \<or> s = 200 \<and> ev_Stream e \<and> retries_forever c))))"

definition closed_with :: "goint \<Rightarrow> 'w exchange \<Rightarrow> 'w exchange \<Rightarrow> bool" where
  "closed_with s x x' \<longleftrightarrow> answer x' = (case answer x of None \<Rightarrow> Some s | Some s' \<Rightarrow> Some s')"

lemma answered_event:
  assumes "open_answer c x" "closed_with s x y" "ex_events y = ex_events x" "emitted c s y x'"
  shows "answered c x x'"
  using assms unfolding open_answer_def closed_with_def emitted_def answered_def by auto

lemma answered_after_event:
  assumes "open_answer c x" "emitted c s x y" "closed_with s y x'" "ex_events x' = ex_events y"
  shows "answered c x x'"
  using assms unfolding open_answer_def closed_with_def emitted_def answered_def by auto

lemma answered_no_event:
  assumes "closed_with s x x'" "ex_events x' = ex_events x"
  shows "answered c x x'"
  using assms unfolding closed_with_def answered_def by (auto split: option.split)

lemma answered_same:
  "ex_writer y = ex_writer x \<Longrightarrow> ex_events y = ex_events x \<Longrightarrow> answered c y z \<longleftrightarrow> answered c x z"
  by (simp add: answered_def)

lemma reject_closed: "closed_with s x (reject sv s m x)"
  by (simp add: closed_with_def quiet)

lemma respond_closed: "closed_with s x (respond s ct b x)"
  by (simp add: closed_with_def quiet)

lemma error_response_answered:
  assumes "open_answer c x" "at_streamRetry st \<Longrightarrow> answer x \<noteq> None"
  shows "answered c x (error_response sv c mode st x)"
proof -
  obtain body ct where b: "error_body (sv_converters sv) st = (body, ct)" by fastforce
  define y where "y = record_outcome sv c mode st (at_statusCode st) ct (0, 0, 0) (at_errorMessage st) 0 x"
  have y: "emitted c (at_statusCode st) x y" unfolding y_def by (rule record_outcome_emitted)
  have "closed_with (at_statusCode st) y (error_response sv c mode st x) \<and>
      ex_events (error_response sv c mode st x) = ex_events y"
  proof (cases "at_streamRetry st")
    case True
    with assms(2) y obtain s where "answer y = Some s" by (auto simp: emitted_def)
    with True b show ?thesis
      by (simp add: error_response_def y_def [symmetric] closed_with_def stop_session_def Let_def)
  next
    case False
    with b show ?thesis
      by (simp add: error_response_def y_def [symmetric] Let_def reject_closed respond_closed quiet)
  qed
  with y answered_after_event [OF assms(1)] show ?thesis by blast
qed

lemma stream_response_answered:
  assumes "open_answer c x" "at_streamRetry st \<Longrightarrow> answer x \<noteq> None" "bridge_status (sv_converters sv)"
  shows "answered c x (stream_response sv c mode st body x)"
proof -
  define y where "y = snd (if at_streamRetry st
      then on_writer (writeCompatStreamResponseStarted (sv_converters sv) body (at_plan st)) (stop_session x)
      else on_writer (writeCompatStreamResponse (sv_converters sv) (at_statusCode st) (at_contentType st) body (at_plan st)) x)"
  have "closed_with (at_statusCode st) x y" "ex_events y = ex_events x"
    using assms(2) writeCompatStreamResponse_status [OF assms(3)] writeCompatStreamResponseStarted_status [OF assms(3)]
    by (auto simp: y_def closed_with_def quiet stop_session_def split: option.split)
  moreover have "emitted c (at_statusCode st) y (stream_response sv c mode st body x)"
    unfolding stream_response_def Let_def split_def success_outcome_def y_def by (rule record_outcome_emitted)
  ultimately show ?thesis using answered_event [OF assms(1)] by blast
qed

lemma body_response_answered:
  assumes "open_answer c x"
  shows "answered c x (body_response sv c k mode st x)"
proof (cases "adaptResponseBodyForClient (sv_converters sv) (at_plan st) (at_statusCode st) (at_respBody st)")
  case (Inl err)
  then have "body_response sv c k mode st x = record_outcome sv c mode st 502 ''application/json'' (0, 0, 0) err 0
      (reject sv 502 ''failed to adapt upstream response'' x)"
    by (simp add: body_response_def)
  with answered_event [OF assms reject_closed] record_outcome_emitted show ?thesis
    by (metis responses_quiet(1))
next
  case (Inr out)
  obtain body ct where out: "out = (body, ct)" by fastforce
  let ?ct = "if trim_space ct = [] then ''application/json'' else ct"
  define y where "y = cache_response sv c k (at_statusCode st) body (respond (at_statusCode st) ?ct body x)"
  have "closed_with (at_statusCode st) x y" "ex_events y = ex_events x"
    using respond_closed [of "at_statusCode st" x ?ct body] by (simp_all add: y_def closed_with_def quiet)
  moreover have "emitted c (at_statusCode st) y (body_response sv c k mode st x)"
    unfolding body_response_def Inr out sum.case prod.case Let_def success_outcome_def y_def [symmetric]
    by (rule record_outcome_emitted)
  ultimately show ?thesis using answered_event [OF assms] by blast
qed

lemma cache_hit_answered:
  assumes "answer x = None"
  shows "answered c x (cache_hit sv c b x)"
proof -
  define y where "y = snd (clock sv (x\<lparr>ex_writer := snd (Write b (write_header 200 (set_header ''X-Cache'' ''HIT''
            (set_header ''Content-Type'' ''application/json'' (ex_writer x)))))\<rparr>))"
  have "closed_with 200 x y" "ex_events y = ex_events x"
    using assms by (simp_all add: y_def closed_with_def quiet)
  moreover have "emitted c 200 y (cache_hit sv c b x)"
    using emitTelemetry_emitted [of c 200 y]
    by (simp add: cache_hit_def Let_def split_def y_def [symmetric] emitted_def quiet)
  ultimately show ?thesis
    using answered_event [of c x] assms by (auto simp: open_answer_def)
qed

section \<open>The loop of attempts leaves the answer open\<close>

definition ready :: "call \<Rightarrow> attempt_state \<Rightarrow> 'w exchange \<Rightarrow> bool" where
  "ready c st x \<longleftrightarrow> open_answer c x \<and> (at_streamRetry st \<or> ex_session x \<longrightarrow> answer x \<noteq> None)"

text \<open>A step of the loop: no event, and the answer stays open.\<close>

definition keeps_open :: "call \<Rightarrow> attempt_state \<Rightarrow> 'w exchange \<Rightarrow> attempt_state \<Rightarrow> 'w exchange \<Rightarrow> bool" where
  "keeps_open c st x st' x' \<longleftrightarrow> (ready c st x \<longrightarrow> ready c st' x' \<and> ex_events x' = ex_events x)"

lemma keeps_open_trans: "keeps_open c st x st1 x1 \<Longrightarrow> keeps_open c st1 x1 st2 x2 \<Longrightarrow> keeps_open c st x st2 x2"
  by (simp add: keeps_open_def)

lemma keeps_open_same:
  "answer x' = answer x \<Longrightarrow> ex_events x' = ex_events x \<Longrightarrow> ex_session x' = ex_session x \<Longrightarrow>
     at_streamRetry st' = at_streamRetry st \<Longrightarrow> keeps_open c st x st' x'"
  by (simp add: keeps_open_def ready_def open_answer_def)

lemma tick_open: "keeps_open c st x st (tick_session sv x)"
  using tick_session_status [of x sv] by (auto simp: keeps_open_def ready_def open_answer_def quiet)

lemma start_session_open:
  assumes "req_Stream (cl_meta c)" "retries_forever c" "start_session sv x = (started, x')"
  shows "keeps_open c st x (st\<lparr>at_streamBody := None, at_streamRetry := started\<rparr>) x'"
proof -
  have started: "started = fst (startStreamRetrySession (sv_flusher sv) (ex_writer x))"
    and x': "ex_writer x' = snd (startStreamRetrySession (sv_flusher sv) (ex_writer x))"
      "ex_session x' = started" "ex_events x' = ex_events x"
    using assms(3) by (auto simp: start_session_def on_writer_def Let_def split_def)
  have "answer x' = (if sv_flusher sv then (case answer x of None \<Rightarrow> Some 200 | Some s \<Rightarrow> Some s) else answer x)"
    by (simp add: x' startStreamRetrySession_def stream_headers_def split: option.split)
  moreover have "started \<Longrightarrow> sv_flusher sv" by (simp add: started startStreamRetrySession_def split: if_splits)
  ultimately show ?thesis
    using assms(1,2) x' by (auto simp: keeps_open_def ready_def open_answer_def split: option.splits)
qed

lemma prepare_retry_open:
  assumes "m = 0 \<Longrightarrow> retries_forever c" "prepare_retry sv c m st x = (st', x')"
  shows "keeps_open c st x st' x'"
proof -
  obtain retrying x1 where r: "(if req_Stream (cl_meta c) \<and> m = 0 \<and> \<not> at_streamRetry st
      then start_session sv x else (at_streamRetry st, x)) = (retrying, x1)" by fastforce
  have st': "st' = st\<lparr>at_streamBody := None, at_streamRetry := retrying\<rparr>"
    and x': "x' = tick_session sv (wait_backoff sv c (at_attempts st - 1) x1)"
    using assms(2) by (simp_all add: prepare_retry_def r)
  have "keeps_open c st x st' x1"
  proof (cases "req_Stream (cl_meta c) \<and> m = 0 \<and> \<not> at_streamRetry st")
    case True
    with r st' assms(1) start_session_open [of c sv x retrying x1 st] show ?thesis by simp
  next
    case False
    with r st' show ?thesis by (auto intro: keeps_open_same)
  qed
  moreover have "keeps_open c st' x1 st' (wait_backoff sv c (at_attempts st - 1) x1)"
    by (rule keeps_open_same) (simp_all add: quiet)
  moreover have "keeps_open c st' (wait_backoff sv c (at_attempts st - 1) x1) st' x'"
    unfolding x' by (rule tick_open)
  ultimately show ?thesis by (blast intro: keeps_open_trans)
qed

lemma send_attempt_open:
  assumes "m = 0 \<Longrightarrow> retries_forever c" "send_attempt sv c m cand plan st x = (stop, st', x')"
  shows "keeps_open c st x st' x'"
proof -
  obtain r x1 where f: "forward_attempt sv c (pcd_provider cand) plan x = (r, x1)" by fastforce
  define st1 where "st1 = after_response (sv_converters sv) cand plan r st"
  define x2 where "x2 = report_attempt sv (ps_ProviderID (pcd_provider cand)) r (tick_session sv x1)"
  have "keeps_open c st x st1 x1"
    using forward_attempt_quiet [of sv c "pcd_provider cand" plan x] f
    by (intro keeps_open_same) (simp_all add: st1_def after_response_def)
  moreover have "keeps_open c st1 x1 st1 (tick_session sv x1)" by (rule tick_open)
  moreover have "keeps_open c st1 (tick_session sv x1) st1 x2"
    by (rule keeps_open_same) (simp_all add: x2_def quiet)
  ultimately have here: "keeps_open c st x st1 x2" by (blast intro: keeps_open_trans)
  obtain gone x3 where g: "cancelled sv x2 = (gone, x3)" by fastforce
  have "keeps_open c st1 x2 st1 x3"
    using cancelled_quiet [of sv x2] g by (intro keeps_open_same) simp_all
  with here have there: "keeps_open c st x st1 x3" by (rule keeps_open_trans)
  from assms(2) f show ?thesis
  proof (cases rule: send_attempt_cases)
    case succeeded
    with here show ?thesis by (simp add: st1_def x2_def)
  next
    case (given_up gone' x2')
    with there g show ?thesis by (simp add: st1_def x2_def)
  next
    case (retried gone' x2')
    with g have "prepare_retry sv c m st1 x3 = (st', x')" by (simp add: st1_def x2_def)
    from keeps_open_trans [OF there prepare_retry_open [OF assms(1) this]] show ?thesis .
  qed
qed

lemma one_attempt_open:
  assumes "m = 0 \<Longrightarrow> retries_forever c" "one_attempt sv c m t cand plan st x = (stop, st', x')"
  shows "keeps_open c st x st' x'"
proof (cases "budget_spent sv (retry_budget (cl_snap c)) t x")
  case (Pair spent x1)
  then have here: "keeps_open c st x st1 x1" if "at_streamRetry st1 = at_streamRetry st" for st1
    using that budget_spent_quiet [of sv "retry_budget (cl_snap c)" t x] by (intro keeps_open_same) simp_all
  show ?thesis
  proof (cases "spent \<or> m = 0 \<and> hard_cap \<le> at_attempts st")
    case True
    with assms(2) Pair here [of st'] show ?thesis
      by (auto simp: one_attempt_def split: bool.splits)
  next
    case False
    with assms(2) Pair have "send_attempt sv c m cand plan st x1 = (stop, st', x')"
      by (auto simp: one_attempt_def split: bool.splits if_splits)
    from keeps_open_trans [OF here [of st] send_attempt_open [OF assms(1) this]] show ?thesis by simp
  qed
qed

lemma provider_attempts_open:
  assumes "m = 0 \<Longrightarrow> retries_forever c"
  shows "provider_attempts sv c m t cand plan limit n st x = (stop, st', x') \<Longrightarrow> keeps_open c st x st' x'"
  using assms
proof (induction sv c m t cand plan limit n st x arbitrary: st' x' rule: provider_attempts.induct)
  case (1 sv c m t cand plan limit n st x)
  obtain stop1 st1 x1 where one: "one_attempt sv c m t cand plan st x = (stop1, st1, x1)"
    by (cases "one_attempt sv c m t cand plan st x")
  have ok: "keeps_open c st x st1 x1" using one_attempt_open [OF "1.prems"(2) one] .
  show ?case
  proof (cases "(limit = 0 \<or> n < limit) \<and> (m = 0 \<or> at_attempts st < m) \<and> \<not> stop1")
    case True
    with one "1.prems"(1) have "provider_attempts sv c m t cand plan limit (n + 1) st1 x1 = (stop, st', x')"
      by (simp add: provider_attempts.simps [of sv c m t cand plan limit n st x])
    with "1.IH" [OF _ one [symmetric]] True "1.prems"(2) have "keeps_open c st1 x1 st' x'" by blast
    with ok show ?thesis by (rule keeps_open_trans)
  next
    case False
    with one "1.prems"(1) have "st' = st1 \<and> x' = x1 \<or> st' = st \<and> x' = x"
      by (auto simp: provider_attempts.simps [of sv c m t cand plan limit n st x] split: if_splits bool.splits)
    with ok show ?thesis by (auto intro: keeps_open_same)
  qed
qed

lemma attempt_loop_open:
  assumes "m = 0 \<Longrightarrow> retries_forever c"
  shows "attempt_loop sv c m t cands st x = (st', x') \<Longrightarrow> keeps_open c st x st' x'"
proof (induction cands arbitrary: st x)
  case Nil
  then show ?case by (auto intro: keeps_open_same)
next
  case (Cons cand cands)
  obtain err plan where plan: "plan_for sv c cand = (err, plan)" by fastforce
  show ?case
  proof (cases err)
    case None
    obtain stop st1 x1 where run: "provider_attempts sv c m t cand plan
        (inner_limit c m (pcd_provider cand)) 0 st x = (stop, st1, x1)"
      by (cases "provider_attempts sv c m t cand plan (inner_limit c m (pcd_provider cand)) 0 st x")
    have "keeps_open c st x st1 x1" using provider_attempts_open [OF assms run] .
    with Cons plan None run show ?thesis by (cases stop) (auto intro: keeps_open_trans)
  next
    case (Some e)
    with Cons.prems plan show ?thesis by (auto simp: not_convertible_def intro: keeps_open_same)
  qed
qed

section \<open>The fallback answers or leaves the answer open\<close>

text \<open>An attempt that fails writes nothing.\<close>

definition untouched :: "'w exchange \<Rightarrow> 'w exchange \<Rightarrow> bool" where
  "untouched x x' \<longleftrightarrow> ex_writer x' = ex_writer x \<and> ex_events x' = ex_events x \<and> ex_session x' = ex_session x"

lemma untouched_trans: "untouched x y \<Longrightarrow> untouched y z \<Longrightarrow> untouched x z"
  by (simp add: untouched_def)

lemma untouched_answered: "untouched x y \<Longrightarrow> answered c y z \<Longrightarrow> answered c x z"
  by (simp add: untouched_def answered_def)

lemma untouched_open: "untouched x y \<Longrightarrow> open_answer c x \<Longrightarrow> open_answer c y"
  by (simp add: untouched_def open_answer_def)

text \<open>The outcome of a fallback: an answer, or nothing.\<close>

definition fallback_outcome :: "call \<Rightarrow> bool \<Rightarrow> 'w exchange \<Rightarrow> 'w exchange \<Rightarrow> bool" where
  "fallback_outcome c served x x' \<longleftrightarrow> (if served then answered c x x' else untouched x x')"

lemma fallback_outcome_after:
  "untouched x y \<Longrightarrow> fallback_outcome c served y z \<Longrightarrow> fallback_outcome c served x z"
  by (auto simp: fallback_outcome_def intro: untouched_trans untouched_answered)

lemma fallback_response_cases:
  assumes "bridge_status (sv_converters sv)" "fallback_response sv c plan r x = (out, x')"
  shows "if out = None then x' = x
    else closed_with (fr_status r) x x' \<and> ex_events x' = ex_events x \<and> ex_session x' = ex_session x"
proof (cases "if req_Stream (cl_meta c) then fr_stream r else None")
  case (Some body)
  obtain toks y where y: "on_writer (writeCompatStreamResponse (sv_converters sv) (fr_status r) (fr_contentType r) body plan) x
      = (toks, y)" by fastforce
  with Some assms(2) have out: "out = Some (toks, fr_contentType r)" "x' = y"
    by (auto simp: fallback_response_def Let_def)
  have "closed_with (fr_status r) x (snd (on_writer (writeCompatStreamResponse (sv_converters sv) (fr_status r)
      (fr_contentType r) body plan) x))"
    using writeCompatStreamResponse_status [OF assms(1)] by (simp add: closed_with_def quiet)
  with out y on_writer_quiet(2,3) [of "writeCompatStreamResponse (sv_converters sv) (fr_status r) (fr_contentType r) body plan" x]
  show ?thesis by simp
next
  case None
  with assms(2) show ?thesis
    by (auto simp: fallback_response_def Let_def respond_closed quiet split: sum.splits prod.splits)
qed

lemma fallback_attempt_outcome:
  assumes "bridge_status (sv_converters sv)" "open_answer c x" "fallback_attempt sv c cand x = (served, x')"
  shows "fallback_outcome c served x x'"
proof -
  obtain err plan where plan: "plan_for sv c cand = (err, plan)" by fastforce
  show ?thesis
  proof (cases err)
    case None
    obtain r x1 where f: "forward_attempt sv c (pcd_provider cand) plan x = (r, x1)" by fastforce
    define x2 where "x2 = report_attempt sv (ps_ProviderID (pcd_provider cand)) r x1"
    have x2: "untouched x x2"
      using forward_attempt_quiet [of sv c "pcd_provider cand" plan x] f by (simp add: untouched_def x2_def quiet)
    obtain out x3 where resp: "fallback_response sv c plan r x2 = (out, x3)" by fastforce
    have "fallback_outcome c served x2 x'"
    proof (cases "attempt_succeeded r \<and> out \<noteq> None")
      case True
      then obtain toks ct where out: "out = Some (toks, ct)" by auto
      let ?pid = "ps_ProviderID (pcd_provider cand)" and ?m = "pcd_upstreamModel cand"
      let ?mode = "routeModeForAttempt ''model_fallback'' True (cl_format c = formatAnthropic) (Some (pcd_provider cand))"
      let ?y = "emitTelemetry sv c ?m ?pid ?mode (fr_status r) (fr_latency r) 1 toks []
        (pricing_of sv c ?m ?pid toks (fr_status r)) x3"
      have res: "served" "x' = captureExecutionResult (cl_opts c) (fr_status r) ct (fr_latency r) toks ?pid ?m ?mode
          (fx_TotalCostUSD (pricing_of sv c ?m ?pid toks (fr_status r))) [] ?y"
        using assms(3) plan None f resp True out by (auto simp: fallback_attempt_def Let_def x2_def)
      have "emitted c (fr_status r) x3 ?y" by (rule emitTelemetry_emitted)
      then have "emitted c (fr_status r) x3 x'" by (simp add: res(2) emitted_def quiet)
      moreover have "closed_with (fr_status r) x2 x3" "ex_events x3 = ex_events x2"
        using fallback_response_cases [OF assms(1) resp] out by simp_all
      ultimately show ?thesis
        using answered_event untouched_open [OF x2 assms(2)] res(1) unfolding fallback_outcome_def by auto
    next
      case False
      with assms(3) plan None f resp fallback_response_cases [OF assms(1) resp]
      have "\<not> served" "x' = x2"
        by (auto simp: fallback_attempt_def Let_def x2_def split: if_splits option.splits prod.splits)
      then show ?thesis by (simp add: fallback_outcome_def untouched_def)
    qed
    with x2 show ?thesis by (rule fallback_outcome_after)
  next
    case (Some e)
    with assms(3) plan show ?thesis by (auto simp: fallback_attempt_def fallback_outcome_def untouched_def)
  qed
qed

lemma must_stop_untouched: "must_stop sv c x = (halt, x') \<Longrightarrow> untouched x x'"
  using must_stop_quiet [of sv c x] by (simp add: untouched_def)

lemma fallback_candidates_outcome:
  assumes "bridge_status (sv_converters sv)"
  shows "fallback_candidates sv c cands n x = (out, n', x') \<Longrightarrow> open_answer c x \<Longrightarrow>
    fallback_outcome c (out = Some True) x x'"
proof (induction cands arbitrary: n x)
  case Nil
  then show ?case by (auto simp: fallback_outcome_def untouched_def)
next
  case (Cons cand cands)
  obtain halt x1 where stop: "must_stop sv c x = (halt, x1)" by fastforce
  obtain served x2 where att: "fallback_attempt sv c cand x1 = (served, x2)" by fastforce
  note x1 = must_stop_untouched [OF stop]
  from untouched_open [OF x1 Cons.prems(2)]
  have one: "fallback_outcome c served x1 x2" and "open_answer c x1"
    using fallback_attempt_outcome [OF assms _ att] by simp_all
  then have x2: "open_answer c x2" if "\<not> served"
    using that untouched_open [of x1 x2 c] by (simp add: fallback_outcome_def)
  have "fallback_outcome c (out = Some True) x1 x'"
  proof (cases "halt \<or> maxFallbackAttempts \<le> n")
    case True
    with Cons.prems(1) stop show ?thesis by (auto simp: fallback_outcome_def untouched_def split: bool.splits)
  next
    case False
    show ?thesis
    proof (cases served)
      case True
      with False Cons.prems(1) stop att one show ?thesis by (auto split: bool.splits)
    next
      case notserved: False
      with False Cons.prems(1) stop att have "fallback_candidates sv c cands (Suc n) x2 = (out, n', x')"
        by (simp split: bool.splits)
      from Cons.IH [OF this x2 [OF notserved]] one notserved show ?thesis
        by (auto simp: fallback_outcome_def intro: untouched_trans untouched_answered)
    qed
  qed
  with x1 show ?case by (rule fallback_outcome_after)
qed

lemma fallback_models_outcome:
  assumes "bridge_status (sv_converters sv)"
  shows "fallback_models sv c models n x = (served, x') \<Longrightarrow> open_answer c x \<Longrightarrow> fallback_outcome c served x x'"
proof (induction models arbitrary: n x)
  case Nil
  then show ?case by (auto simp: fallback_outcome_def untouched_def)
next
  case (Cons m models)
  obtain halt x1 where stop: "must_stop sv c x = (halt, x1)" by fastforce
  note x1 = must_stop_untouched [OF stop]
  note o1 = untouched_open [OF x1 Cons.prems(2)]
  let ?cands = "collectProviderCandidatesForRequest (Some (cl_snap c)) m"
  obtain ordered x2 where ord: "order_with_runtime sv (cl_snap c) m [] ?cands x1 = (ordered, x2)" by fastforce
  have x2: "untouched x1 x2"
    using order_with_runtime_quiet [of sv "cl_snap c" m "[]" ?cands x1] ord by (simp add: untouched_def)
  obtain out n' x3 where run: "fallback_candidates sv c ordered n x2 = (out, n', x3)"
    by (cases "fallback_candidates sv c ordered n x2")
  have x3: "fallback_outcome c (out = Some True) x1 x3"
    using fallback_candidates_outcome [OF assms run untouched_open [OF x2 o1]] x2 by (rule fallback_outcome_after [rotated])
  have eq: "fallback_models sv c (m # models) n x =
      (if halt then (False, x1) else if ?cands = [] then fallback_models sv c models n x1
       else case out of Some served \<Rightarrow> (served, x3) | None \<Rightarrow> fallback_models sv c models n' x3)"
    using stop ord run by (cases ?cands; cases halt) auto
  have "fallback_outcome c served x1 x'"
  proof (cases "halt \<or> ?cands = []")
    case True
    with eq Cons.prems(1) Cons.IH [OF _ o1] show ?thesis
      by (auto simp: fallback_outcome_def untouched_def split: if_splits)
  next
    case False
    show ?thesis
    proof (cases out)
      case None
      with x3 have "untouched x1 x3" by (simp add: fallback_outcome_def)
      with None False eq Cons.prems(1) Cons.IH [OF _ untouched_open [OF _ o1]] show ?thesis
        by (auto intro: fallback_outcome_after)
    next
      case (Some b)
      with x3 False eq Cons.prems(1) show ?thesis by (cases b) auto
    qed
  qed
  with x1 show ?case by (rule fallback_outcome_after)
qed

section \<open>A whole call\<close>

lemma fall_back_or_answered:
  assumes "bridge_status (sv_converters sv)" "open_answer c x"
    and "\<And>y. untouched x y \<Longrightarrow> answered c y (otherwise y)"
  shows "answered c x (fall_back_or sv c st otherwise x)"
proof (cases "may_fall_back c st")
  case True
  obtain served x1 where run: "tryFallbackModels sv c x = (served, x1)" by fastforce
  have "fallback_outcome c served x x1"
    using fallback_models_outcome [OF assms(1) run [unfolded tryFallbackModels_def] assms(2)] .
  with True run assms(3) show ?thesis
    by (cases served) (auto simp: fall_back_or_def fallback_outcome_def intro: untouched_answered)
next
  case False
  with assms(3) [of x] show ?thesis by (simp add: fall_back_or_def untouched_def)
qed

lemma finish_answered:
  assumes "bridge_status (sv_converters sv)" "ready c st x"
  shows "answered c x (finish sv c m k mode st x)"
proof -
  from assms(2) have o: "open_answer c x" and a: "at_streamRetry st \<Longrightarrow> answer x \<noteq> None"
    by (auto simp: ready_def)
  have "answered c y (reject sv 502 msg y)" for msg and y :: "'a exchange"
    by (rule answered_no_event [OF reject_closed]) (simp add: quiet)
  then have "answered c x (fall_back_or sv c st (reject sv 502 msg) x)" for msg
    by (rule fall_back_or_answered [OF assms(1) o])
  moreover have "answered c x (fall_back_or sv c st (error_response sv c mode st) x)"
    using o a untouched_open by (intro fall_back_or_answered [OF assms(1) o] error_response_answered)
      (auto simp: untouched_def)
  moreover have "answered c x (stream_response sv c mode st b (bind_session sv c m k st x))"
    "answered c x (body_response sv c k mode st (bind_session sv c m k st x))" for b
  proof -
    let ?x = "bind_session sv c m k st x"
    have "untouched x ?x" by (simp add: untouched_def quiet)
    from untouched_answered [OF this] untouched_open [OF this o] a
      stream_response_answered [of c ?x st sv mode b] body_response_answered [of c ?x sv k mode st] assms(1)
    show "answered c x (stream_response sv c mode st b ?x)" "answered c x (body_response sv c k mode st ?x)"
      by (simp_all add: quiet)
  qed
  ultimately show ?thesis by (simp add: finish_def Let_def split: option.split)
qed

lemma route_request_answered:
  assumes "bridge_status (sv_converters sv)" "answer x = None" "\<not> ex_session x"
  shows "answered c x (route_request sv c m k cands x)"
proof -
  obtain ordered x1 where ord: "order_for sv c m k cands x = (ordered, x1)" by fastforce
  obtain startedAt x2 where clk: "clock sv x1 = (startedAt, x2)" by fastforce
  obtain st x3 where run: "attempt_loop sv c (max_attempts c) startedAt ordered (initial_state m) x2 = (st, x3)"
    by fastforce
  have same: "ex_writer x2 = ex_writer x" "ex_events x2 = ex_events x" "ex_session x2 = ex_session x"
    using order_for_quiet [of sv c m k cands x] clock_quiet [of sv x1] ord clk by simp_all
  then have "ready c (initial_state m) x2"
    using assms(2,3) by (simp add: ready_def open_answer_def initial_state_def)
  then have loop: "ready c st x3" "ex_events x3 = ex_events x2"
    using attempt_loop_open [of "max_attempts c" c, OF _ run] by (simp_all add: keeps_open_def retries_forever_def)
  have "answered c x3 (route_request sv c m k cands x)"
    using finish_answered [OF assms(1) loop(1)] by (simp add: route_request_def ord clk run Let_def)
  with loop(2) same(2) show ?thesis by (simp add: answered_def)
qed

lemma select_candidates_answered:
  assumes "bridge_status (sv_converters sv)" "answer x = None" "\<not> ex_session x"
  shows "answered c x (select_candidates sv c m k x)"
proof -
  have reject: "answered c x (reject sv s msg x)" for s msg
    by (rule answered_no_event [OF reject_closed]) (simp add: quiet)
  have "answered c x (captureExecutionResult (cl_opts c) 404 ''application/json'' d (0, 0, 0) [] e [] 0 f
      (snd (clock sv (reject sv 404 not_available x))))" for d e f
    using reject [of 404 not_available] by (simp add: answered_def quiet)
  with reject route_request_answered [OF assms] show ?thesis
    by (simp add: select_candidates_def Let_def split_def)
qed

lemma handle_call_answered:
  assumes "bridge_status (sv_converters sv)" "answer x = None" "\<not> ex_session x"
  shows "answered c x (handle_call sv c x)"
proof -
  obtain hit x1 where look: "cached_response sv c (sticky_key c) x = (hit, x1)" by fastforce
  have x1: "untouched x x1" using cache_quiet(1-3) [of sv c "sticky_key c" x] look by (simp add: untouched_def)
  with assms(2,3) have "answer x1 = None" "\<not> ex_session x1" by (simp_all add: untouched_def)
  then have "answered c x1 (handle_call sv c x)"
    by (cases hit) (auto simp: handle_call_def look intro: cache_hit_answered select_candidates_answered [OF assms(1)])
  with x1 show ?thesis by (rule untouched_answered)
qed

section \<open>The session of a waiting stream\<close>

lemma emitTelemetry_session [quiet]: "ex_session (emitTelemetry sv c em pid mode s l a t e p x) = ex_session x"
  by (simp add: emitTelemetry_def Let_def split_def quiet)

lemma record_outcome_session [quiet]: "ex_session (record_outcome sv c mode st s ct t e cost x) = ex_session x"
  by (simp add: record_outcome_def Let_def quiet)

lemma fallback_response_session [quiet]: "ex_session (snd (fallback_response sv c plan r x)) = ex_session x"
  by (simp add: fallback_response_def Let_def split_def quiet split: option.split sum.split)

lemma fallback_attempt_session [quiet]: "ex_session (snd (fallback_attempt sv c cand x)) = ex_session x"
proof -
  obtain err plan where plan: "plan_for sv c cand = (err, plan)" by fastforce
  obtain r x1 where f: "forward_attempt sv c (pcd_provider cand) plan x = (r, x1)" by fastforce
  obtain out x3 where resp:
      "fallback_response sv c plan r (report_attempt sv (ps_ProviderID (pcd_provider cand)) r x1) = (out, x3)"
    by fastforce
  have "ex_session x1 = ex_session x" "ex_session x3 = ex_session x1"
    using forward_attempt_quiet(3) [of sv c "pcd_provider cand" plan x] f resp
      fallback_response_session [of sv c plan r "report_attempt sv (ps_ProviderID (pcd_provider cand)) r x1"]
    by (simp_all add: quiet)
  with plan f resp show ?thesis
    by (simp add: fallback_attempt_def Let_def split_def quiet split: option.split)
qed

lemma fallback_candidates_session: "ex_session (snd (snd (fallback_candidates sv c cands n x))) = ex_session x"
proof (induction cands arbitrary: n x)
  case (Cons cand cands)
  obtain halt x1 where stop: "must_stop sv c x = (halt, x1)" by fastforce
  obtain served x2 where att: "fallback_attempt sv c cand x1 = (served, x2)" by fastforce
  have "ex_session x1 = ex_session x" "ex_session x2 = ex_session x1"
    using must_stop_quiet(3) [of sv c x] fallback_attempt_session [of sv c cand x1] stop att by simp_all
  with Cons stop att show ?case by (simp split: bool.split)
qed simp

lemma fallback_models_session: "ex_session (snd (fallback_models sv c models n x)) = ex_session x"
proof (induction models arbitrary: n x)
  case (Cons m models)
  let ?cands = "collectProviderCandidatesForRequest (Some (cl_snap c)) m"
  obtain halt x1 where stop: "must_stop sv c x = (halt, x1)" by fastforce
  obtain ordered x2 where ord: "order_with_runtime sv (cl_snap c) m [] ?cands x1 = (ordered, x2)" by fastforce
  obtain out n' x3 where run: "fallback_candidates sv c ordered n x2 = (out, n', x3)"
    by (cases "fallback_candidates sv c ordered n x2")
  have "ex_session x1 = ex_session x" "ex_session x2 = ex_session x1" "ex_session x3 = ex_session x2"
    using must_stop_quiet(3) [of sv c x] order_with_runtime_quiet(3) [of sv "cl_snap c" m "[]" ?cands x1]
      fallback_candidates_session [of sv c ordered n x2] stop ord run by simp_all
  with Cons stop ord run show ?case by (cases ?cands) (auto split: bool.split option.split)
qed simp

lemma tryFallbackModels_session [quiet]: "ex_session (snd (tryFallbackModels sv c x)) = ex_session x"
  by (simp add: tryFallbackModels_def fallback_models_session)

lemma fall_back_or_session:
  assumes "\<And>y. ex_session (otherwise y) \<Longrightarrow> ex_session y"
  shows "ex_session (fall_back_or sv c st otherwise x) \<Longrightarrow> ex_session x"
proof -
  obtain served x1 where run: "tryFallbackModels sv c x = (served, x1)" by fastforce
  have "ex_session x1 = ex_session x" using tryFallbackModels_session [of sv c x] run by simp
  with assms run show "ex_session (fall_back_or sv c st otherwise x) \<Longrightarrow> ex_session x"
    by (auto simp: fall_back_or_def split: if_splits bool.splits)
qed

lemma error_response_session:
  "ex_session (error_response sv c mode st x) \<longleftrightarrow> ex_session x \<and> \<not> at_streamRetry st"
  by (simp add: error_response_def stop_session_def Let_def split_def quiet)

lemma stream_response_session:
  "ex_session (stream_response sv c mode st b x) \<longleftrightarrow> ex_session x \<and> \<not> at_streamRetry st"
  by (simp add: stream_response_def success_outcome_def stop_session_def Let_def split_def quiet)

lemma body_response_session: "ex_session (body_response sv c k mode st x) = ex_session x"
  by (simp add: body_response_def success_outcome_def Let_def quiet split: sum.split prod.split)

section \<open>A stored response\<close>

lemma cached_after_store:
  assumes "linked (getResponseCache (cl_snap c) (ex_cache x))" "cache_allowed c" "status < 400" "body \<noteq> []"
    and "ex_cache y = ex_cache (cache_response sv c k status body x)" "\<not> req_Stream (cl_meta c)"
    and "time_sub (fst (clock sv y)) (fst (clock sv x)) \<le> c_ttl (getResponseCache (cl_snap c) (ex_cache x))"
  obtains y' where "cached_response sv c k y = (Some body, y')"
    "ex_writer y' = ex_writer y" "gw_sent (ex_gateway y') = gw_sent (ex_gateway y)"
proof -
  define cache where "cache = getResponseCache (cl_snap c) (ex_cache x)"
  define stored where "stored = Cache_Put (fst (clock sv x)) (cache_key sv c k) body cache"
  let ?e = "\<lparr>e_key = cache_key sv c k, e_value = body, e_bytes = int (length body), e_cachedAt = fst (clock sv x)\<rparr>"
  have keep: "ex_cache (snd (clock sv z)) = ex_cache z" for z :: "'a exchange"
    by (simp add: clock_def on_gateway_def Let_def split_def)
  have "ex_cache y = ex_cache (keep_cache (cl_snap c) stored (snd (clock sv x)))"
    using assms(2,3,5) by (simp add: cache_response_def Let_def split_def stored_def cache_def keep)
  then have slot: "getResponseCache (cl_snap c) (ex_cache (snd (clock sv y))) = stored"
    by (simp add: keep keep_cache_def getResponseCache_def Let_def)
  from Cache_Put_spec [OF assms(1) assms(4) refl, of "fst (clock sv x)" "cache_key sv c k"]
  have st: "linked stored" "c_ttl stored = c_ttl cache" "?e \<in> set (c_lru stored)"
    by (auto simp: stored_def cache_def same_config_def)
  then have "map_of (c_entries stored) (cache_key sv c k) = Some ?e" by (simp add: linked_lookup)
  then have "fst (Cache_Get (fst (clock sv y)) (cache_key sv c k) stored) = Some body"
    using Cache_Get_spec(1) [OF st(1), where key = "cache_key sv c k" and now = "fst (clock sv y)"] assms(7) st(2)
    by (simp add: expired_def cache_def)
  then have "fst (cached_response sv c k y) = Some body"
    using assms(2,6) by (simp add: cached_response_def Let_def split_def slot)
  moreover have "gw_sent (ex_gateway (snd (clock sv y))) = gw_sent (ex_gateway y)"
    by (simp add: clock_def on_gateway_def Let_def split_def)
  then have "gw_sent (ex_gateway (snd (cached_response sv c k y))) = gw_sent (ex_gateway y)"
    by (simp add: cached_response_def keep_cache_def Let_def split_def)
  moreover have "ex_writer (snd (cached_response sv c k y)) = ex_writer y" by (simp add: quiet)
  ultimately show thesis
    by (intro that [of "snd (cached_response sv c k y)"]) (auto simp: prod_eq_iff)
qed

section \<open>Properties\<close>

lemma handler_answered:
  assumes "bridge_status (sv_converters sv)" "answer x = None" "\<not> ex_session x"
    and "handleChatOrMessages sv snap opts fmt r x = x'"
  shows "\<exists>s. answer x' = Some s \<and>
    (ex_events x' = ex_events x \<or>
     (\<exists>e. ex_events x' = ex_events x @ [e] \<and>
        (ev_StatusCode e = s \<or> s = 200 \<and> ev_Stream e \<and> maxTotalAttempts (Some snap) = 0)))"
proof (cases rule: handle_cases [of sv snap opts fmt r x])
  case (rejected msg)
  with assms(2,4) show ?thesis by (auto simp: quiet)
next
  case (called c)
  have "answer (entered sv x) = None" "\<not> ex_session (entered sv x)" using assms(2,3) by (simp_all add: quiet)
  from handle_call_answered [OF assms(1) this, of c] called assms(4) have "answered c (entered sv x) x'" by simp
  with called(1) show ?thesis
    by (auto simp: answered_def quiet retries_forever_def max_attempts_def split: if_splits)
qed

text \<open>
  C36 A response is served again from the cache: after a success was stored for a call, the same call
  with another exchange that shares the cache, within the time to live, is answered with status 200
  and the stored body, and sends no upstream request.
\<close>

theorem repeated_call_cached:
  assumes "linked (getResponseCache (cl_snap c) (ex_cache x))" "cache_allowed c" "status < 400" "body \<noteq> []"
    and "ex_cache y = ex_cache (cache_response sv c (sticky_key c) status body x)" "\<not> req_Stream (cl_meta c)"
    and "time_sub (fst (clock sv y)) (fst (clock sv x)) \<le> c_ttl (getResponseCache (cl_snap c) (ex_cache x))"
    and "answer y = None" "rw_writes_left (ex_writer y) = None"
  shows "answer (handle_call sv c y) = Some 200 \<and>
    rw_body (ex_writer (handle_call sv c y)) = rw_body (ex_writer y) @ body \<and>
    gw_sent (ex_gateway (handle_call sv c y)) = gw_sent (ex_gateway y)"
proof -
  obtain y' where hit: "cached_response sv c (sticky_key c) y = (Some body, y')"
    and y': "ex_writer y' = ex_writer y" "gw_sent (ex_gateway y') = gw_sent (ex_gateway y)"
    using cached_after_store [OF assms(1-7)] by blast
  have "ex_writer (cache_hit sv c body y') = snd (Write body (write_header 200 (set_header ''X-Cache'' ''HIT''
      (set_header ''Content-Type'' ''application/json'' (ex_writer y')))))"
    by (simp add: cache_hit_def Let_def split_def quiet emitTelemetry_def)
  moreover have "gw_sent (ex_gateway (cache_hit sv c body y')) = gw_sent (ex_gateway y')"
    by (simp add: cache_hit_def emitTelemetry_def captureExecutionResult_def clock_def on_gateway_def on_world_def
      Let_def split_def)
  ultimately show ?thesis
    using assms(8,9) by (simp add: handle_call_def hit y' Write_def write_header_def set_header_def Let_def)
qed

theorem repeated_call_cached_witness:
  "answer (handle_call demo_services (demo_call False) ((demo_exchange [])\<lparr>ex_cache :=
     ex_cache (cache_response demo_services (demo_call False) (sticky_key (demo_call False)) 200 ''good''
       (demo_exchange []))\<rparr>)) = Some 200"
proof -
  let ?c = "demo_call False" and ?x = "demo_exchange []"
  have cache: "getResponseCache (cl_snap ?c) None = NewCache 10 60"
    by (simp add: getResponseCache_def demo_call_def demo_gateway_snapshot_def)
  have "linked (NewCache 10 60)"
    by (simp add: linked_def NewCache_def NewCacheWithConfig_def Let_def)
  moreover have "cache_allowed ?c"
    by (simp add: cache_allowed_def demo_call_def demo_gateway_snapshot_def option_of_def)
  moreover have "c_ttl (NewCache 10 60) = 60 * second"
    by (simp add: NewCache_def NewCacheWithConfig_def Let_def i64_def second_def)
  moreover have "fst (clock demo_services z) = 7" for z
    by (simp add: clock_def on_gateway_def now_of_def demo_services_def scripted_def)
  moreover have "time_sub 7 7 \<le> 60 * second" by (simp add: time_sub_def second_def i64_def min_i64_def max_i64_def)
  moreover have "\<not> req_Stream (cl_meta ?c)" by (simp add: demo_call_def)
  ultimately show ?thesis
    by (intro repeated_call_cached [where x = ?x and status = 200 and body = "''good''", THEN conjunct1])
       (simp_all add: cache demo_exchange_def fresh_writer_def)
qed

text \<open>
  A stream that waits for its upstream stops its heartbeats when the answer is given, with one
  exception, in which they go on after the handler has returned: the upstream succeeds at last, but
  without a stream.
\<close>

theorem waiting_stream_ends:
  assumes "at_provider st \<noteq> None" "ex_session x \<Longrightarrow> at_streamRetry st"
  shows "ex_session (finish sv c m k mode st x) \<longleftrightarrow>
    ex_session x \<and> succeeded st \<and> \<not> (req_Stream (cl_meta c) \<and> at_streamBody st \<noteq> None)"
proof (cases "succeeded st")
  case True
  with assms show ?thesis
    by (auto simp: finish_def Let_def stream_response_session body_response_session quiet split: option.split)
next
  case False
  have "\<not> ex_session (fall_back_or sv c st (error_response sv c mode st) x)"
  proof (cases "at_streamRetry st")
    case True
    then show ?thesis by (simp add: fall_back_or_def may_fall_back_def error_response_session)
  next
    case False
    with assms(2) fall_back_or_session [of "error_response sv c mode st" sv c st x]
    show ?thesis by (auto simp: error_response_session)
  qed
  with False assms(1) show ?thesis by (auto simp: finish_def)
qed

theorem waiting_stream_ends_witness:
  "ex_session (finish demo_services (demo_call True) ''m'' [] ''direct''
     ((initial_state ''m'')\<lparr>at_statusCode := 200, at_respBody := ''good'',
       at_provider := Some (pcd_provider (demo_candidate ''a'' 1)), at_streamRetry := True\<rparr>)
     ((demo_exchange [])\<lparr>ex_session := True\<rparr>))"
  by (subst waiting_stream_ends) (simp_all add: succeeded_def initial_state_def)

end
