(* ===== verification/Converters.thy ===== *)
theory Converters
  imports Convert_Responses Stream_To_Anthropic Stream_To_Chat Handler_Response
begin

text \<open>
  The protocol plan with the conversions of \<open>internal/gateway/api/compat.go\<close> themselves in place of the
  parameter that the handler has for them: what a plan sends upstream is a request of the protocol
  that it is sent to, and the handler's answer is given by the bridges as by the other responses.
\<close>

section \<open>The conversions of the plan\<close>

text \<open>The text of an error; the library completes the ones of its codec.\<close>

definition error_text :: "(conversion_error \<Rightarrow> string) \<Rightarrow> conversion_error \<Rightarrow> string" where
  "error_text lib e = (case e of Rejected message \<Rightarrow> message | _ \<Rightarrow> lib e)"

definition with_text :: "(conversion_error \<Rightarrow> string) \<Rightarrow> conversion_error + string \<Rightarrow> string + string" where
  "with_text lib r = (case r of Inl e \<Rightarrow> Inl (error_text lib e) | Inr b \<Rightarrow> Inr b)"

text \<open>
  The bridge of a plan's response mode, with the status to write or for a stream that has been started.
\<close>

definition bridge_stream :: "bridge_env \<Rightarrow> compatPlan \<Rightarrow> goint option \<Rightarrow> stream_body \<Rightarrow> ResponseWriter \<Rightarrow> tokens \<times> ResponseWriter" where
  "bridge_stream env plan status body w =
     (case (cpl_responseMode plan, status) of
        (responseCompatChatToResponses, Some s) \<Rightarrow>
          bridgeChatStreamToResponses env s (Some body) (cpl_clientModel plan) (cpl_responsesCustomToolNames plan) w
      | (responseCompatChatToResponses, None) \<Rightarrow>
          bridgeChatStreamToResponsesStarted env (Some body) (cpl_clientModel plan) (cpl_responsesCustomToolNames plan) w
      | (responseCompatOpenAIToAnthropic, Some s) \<Rightarrow> bridgeOpenAIStreamToAnthropic env s (Some body) (cpl_clientModel plan) w
      | (responseCompatOpenAIToAnthropic, None) \<Rightarrow> bridgeOpenAIStreamToAnthropicStarted env (Some body) (cpl_clientModel plan) w
      | (responseCompatAnthropicToOpenAI, Some s) \<Rightarrow> bridgeAnthropicStreamToOpenAI env s (Some body) w
      | (responseCompatAnthropicToOpenAI, None) \<Rightarrow> bridgeAnthropicStreamToOpenAIStarted env (Some body) w
      | (responseCompatPassthrough, Some s) \<Rightarrow> handleStreamResponse (je_parse env) s [] (Some body) w
      | (responseCompatPassthrough, None) \<Rightarrow> handleStartedStreamResponse (je_parse env) (Some body) w)"

definition code_converters :: "bridge_env \<Rightarrow> (conversion_error \<Rightarrow> string) \<Rightarrow> converters" where
  "code_converters env lib = \<lparr>cv_parse = je_parse env, cv_marshal = je_marshal env,
     cv_normalizeAnthropic = normalizeAnthropicRequestToolDescriptions env,
     cv_normalizeOpenAI = normalizeOpenAIRequestToolDescriptions env,
     cv_customToolNames = extractResponsesCustomToolNames env,
     cv_responsesToChat = (\<lambda>body m. with_text lib (convertResponsesRequestToChat env body m)),
     cv_anthropicToChat = (\<lambda>body m. with_text lib (convertAnthropicRequestToOpenAIChat env body m)),
     cv_chatToAnthropic = (\<lambda>body m. with_text lib (convertOpenAIChatRequestToAnthropic env body m)),
     cv_chatResponseToResponses = (\<lambda>body m names. with_text lib (adaptChatResponseToResponses env body m names)),
     cv_chatResponseToAnthropic = (\<lambda>body m. with_text lib (adaptOpenAIResponseToAnthropic env body m)),
     cv_chatErrorToAnthropic = adaptOpenAIErrorToAnthropic env,
     cv_anthropicResponseToChat = (\<lambda>body. with_text lib (adaptAnthropicResponseToOpenAI env body)),
     cv_anthropicErrorToChat = adaptAnthropicErrorToOpenAI env,
     cv_bridgeStream = bridge_stream env\<rparr>"

section \<open>The status of a bridged stream\<close>

lemma anthropic_status:
  "rw_status w \<noteq> None \<Longrightarrow> rw_status (snd (bridgeOpenAIStreamToAnthropicStarted env (Some b) m w)) = rw_status w"
  using anthropic.bridge_sent_on [of w env b] by (simp add: bridgeOpenAIStreamToAnthropicStarted_def sent_on_def split_beta)

lemma chat_status:
  "rw_status w \<noteq> None \<Longrightarrow> rw_status (snd (bridgeAnthropicStreamToOpenAIStarted env (Some b) w)) = rw_status w"
  using chat.bridge_sent_on [of w env b] by (simp add: bridgeAnthropicStreamToOpenAIStarted_def sent_on_def split_beta)

lemma responses_status:
  "rw_status w \<noteq> None \<Longrightarrow> rw_status (snd (bridgeChatStreamToResponsesStarted env (Some b) m names w)) = rw_status w"
  using responses.bridge_sent_on [of w env b] by (simp add: bridgeChatStreamToResponsesStarted_def sent_on_def split_beta)

lemma copied_status: "rw_status w \<noteq> None \<Longrightarrow> rw_status (snd (copyStreamingBody parse b w)) = rw_status w"
  using copyStreamingBody_status by auto

lemmas bridged_status = anthropic_status chat_status responses_status copied_status

lemma header_has_status: "rw_status (write_header s w) \<noteq> None"
  by (simp add: write_header_def)

lemma status_of_headers: "rw_status (stream_headers ct w) = rw_status w"
  by (simp add: stream_headers_def set_header_def)

lemmas status_after_header = bridged_status [OF header_has_status]

text \<open>With the bridges of the code, what the handler relies on holds.\<close>

lemma code_bridge_status: "bridge_status (code_converters env lib)"
proof -
  have "rw_status (snd (bridge_stream env plan (Some s) b w)) = rw_status (write_header s w)" for plan s b w
    by (cases "cpl_responseMode plan")
      (simp_all add: bridge_stream_def bridgeOpenAIStreamToAnthropic_def bridgeAnthropicStreamToOpenAI_def
        bridgeChatStreamToResponses_def bridge_headers_def handleStreamResponse_def status_of_headers status_after_header)
  moreover have "rw_status (snd (bridge_stream env plan None b w)) = rw_status w" if "rw_status w \<noteq> None" for plan b w
    using that by (cases "cpl_responseMode plan") (simp_all add: bridge_stream_def handleStartedStreamResponse_def bridged_status)
  ultimately show ?thesis by (simp add: bridge_status_def code_converters_def)
qed

section \<open>What a plan sends\<close>

definition chat_shaped :: "json \<Rightarrow> bool" where
  "chat_shaped req = (\<exists>ms. field ''messages'' req = JArray ms \<and> list_all chat_message_shaped ms)"

definition sends_request :: "bridge_env \<Rightarrow> (json \<Rightarrow> bool) \<Rightarrow> string \<Rightarrow> compatPlan \<Rightarrow> bool" where
  "sends_request env ok model plan =
     (\<exists>req. je_marshal env req = Some (cpl_forwardBody plan) \<and> ok req \<and> field ''model'' req = JString model)"

lemma chat_message_ok_shaped: "chat_message_ok m \<Longrightarrow> chat_message_shaped m"
  by (auto elim!: chat_message_okE intro!: chat_message_shaped.intros)

lemma with_text_Inr [simp]: "with_text lib r = Inr b \<longleftrightarrow> r = Inr b"
  by (cases r) (simp_all add: with_text_def)

lemma responses_request_shaped:
  assumes "convertResponsesRequestToChat env body m = Inr out" "trim_space m \<noteq> []"
  shows "\<exists>req. je_marshal env req = Some out \<and> chat_shaped req \<and> field ''model'' req = JString (trim_space m)"
proof -
  obtain ms req where "je_marshal env req = Some out" "field ''messages'' req = JArray ms" "list_all chat_message_ok ms"
    "field ''model'' req = JString (trim_space m)"
    using responses_request_typed [OF assms(1)] assms(2) by blast
  then show ?thesis by (auto simp: chat_shaped_def list_all_iff chat_message_ok_shaped)
qed

lemma built_plan:
  assumes "buildCompatPlan (code_converters env lib) fmt (Some p) requestedModel upstreamModel body = (None, plan)"
    and "b = sanitize_request (code_converters env lib) fmt body"
  shows "case cpl_responseMode plan of
     responseCompatAnthropicToOpenAI \<Rightarrow> cpl_forwardPath plan = ''/v1/messages'' \<and>
       convertOpenAIChatRequestToAnthropic env b upstreamModel = Inr (cpl_forwardBody plan)
   | responseCompatOpenAIToAnthropic \<Rightarrow> cpl_forwardPath plan = ''/v1/chat/completions'' \<and>
       convertAnthropicRequestToOpenAIChat env b upstreamModel = Inr (cpl_forwardBody plan)
   | responseCompatChatToResponses \<Rightarrow> cpl_forwardPath plan = ''/v1/chat/completions'' \<and>
       convertResponsesRequestToChat env b upstreamModel = Inr (cpl_forwardBody plan)
   | responseCompatPassthrough \<Rightarrow>
       cpl_forwardPath plan = (if fmt = formatAnthropic then ''/v1/messages'' else ''/v1/chat/completions'')"
proof (cases fmt)
  case formatResponses
  then show ?thesis using assms by (auto simp: buildCompatPlan_def Let_def code_converters_def split: sum.splits)
next
  case formatAnthropic
  then show ?thesis using assms
    by (cases "providerProtocolAdapter (Some p) = ProtocolAdapterAnthropicMessages")
      (auto simp: buildCompatPlan_def Let_def code_converters_def split: sum.splits)
next
  case formatChatCompletions
  then show ?thesis using assms
    by (cases "providerProtocolAdapter (Some p) = ProtocolAdapterAnthropicMessages")
      (auto simp: buildCompatPlan_def Let_def code_converters_def split: sum.splits)
qed


definition demo_conversions :: bridge_env where
  "demo_conversions = \<lparr>je_parse = (\<lambda>s. je_parse demo_chat_request ''r''), je_marshal = (\<lambda>v. Some ''{}''), je_float = Some,
     je_sprint = (\<lambda>v. []), je_uuid = (\<lambda>n. ''1''), je_now = 7, be_visit = (\<lambda>ts. ts)\<rparr>"

definition demo_anthropic_provider :: ProviderSnapshot where
  "demo_anthropic_provider = (pcd_provider (demo_candidate ''a'' 1))\<lparr>ps_ProtocolAdapter := ProtocolAdapterAnthropicMessages\<rparr>"


section \<open>The handler with the conversions of the code\<close>

text \<open>
  C17 Every request is answered: whatever the request is and whatever the providers do, the response has a
  status when the handler returns, through the bridges too. At most one telemetry event is recorded;
  its status is the status that the client got, except that a stream which waited for its upstream
  under infinite retries has been answered with status 200 before.\<close>

theorem handler_answers:
  assumes "sv_converters sv = code_converters env lib" "answer x = None" "\<not> ex_session x"
    and "handleChatOrMessages sv snap opts fmt r x = x'"
  shows "\<exists>s. answer x' = Some s \<and>
    (ex_events x' = ex_events x \<or>
     (\<exists>e. ex_events x' = ex_events x @ [e] \<and>
        (ev_StatusCode e = s \<or> s = 200 \<and> ev_Stream e \<and> maxTotalAttempts (Some snap) = 0)))"
proof -
  have "bridge_status (sv_converters sv)" by (simp add: assms(1) code_bridge_status)
  from handler_answered [OF this assms(2-4)] show ?thesis .
qed

lemma handler_answers_witness:
  "\<exists>s. answer (handleChatOrMessages (demo_services\<lparr>sv_converters := code_converters demo_conversions (\<lambda>e. [])\<rparr>)
     (demo_gateway_snapshot (demo_retry True)) None formatAnthropic (demo_request_of ''r'') (demo_exchange [])) = Some s"
proof -
  have c: "sv_converters (demo_services\<lparr>sv_converters := code_converters demo_conversions (\<lambda>e. [])\<rparr>) =
      code_converters demo_conversions (\<lambda>e. [])" by simp
  have "answer (demo_exchange []) = None" "\<not> ex_session (demo_exchange [])"
    by (simp_all add: demo_exchange_def fresh_writer_def)
  from handler_answers [OF c this refl] show ?thesis by blast
qed

end
