(* ===== verification/Ssrf.thy ===== *)
theory Ssrf
  imports Snapshot_Data "HOL-Library.Word"
begin

text \<open>
  The protection against server-side request forgery: \<open>internal/proxy/ssrf.go\<close>. An address is its
  bytes, four or sixteen; the parser of URLs, the resolver and \<open>SplitHostPort\<close>, \<open>ParseIP\<close>, \<open>String\<close> and
  \<open>JoinHostPort\<close> of \<open>net\<close> are parameters.
\<close>

unbundle bit_operations_syntax

section \<open>Addresses and networks\<close>

type_synonym ip = "8 word list"

text \<open>\<open>net.IP.To4\<close>: the four bytes of an IPv4 address, also if it is mapped into IPv6.\<close>

definition To4 :: "ip \<Rightarrow> ip option" where
  "To4 a =
     (if length a = 4 then Some a
      else if length a = 16 \<and> take 10 a = replicate 10 0 \<and> a ! 10 = 255 \<and> a ! 11 = 255 then Some (drop 12 a)
      else None)"

record IPNet =
  net_IP :: ip
  net_ones :: nat

text \<open>The bytes of \<open>net.CIDRMask\<close>.\<close>

fun cidr_mask :: "nat \<Rightarrow> nat \<Rightarrow> 8 word list" where
  "cidr_mask ones 0 = []"
| "cidr_mask ones (Suc len) =
     (if 8 \<le> ones then 255 # cidr_mask (ones - 8) len else push_bit (8 - ones) 255 # cidr_mask 0 len)"

text \<open>\<open>net.IPNet.Contains\<close>.\<close>

definition Contains :: "IPNet \<Rightarrow> ip \<Rightarrow> bool" where
  "Contains n a0 =
     (let a = (case To4 a0 of Some v4 \<Rightarrow> v4 | None \<Rightarrow> a0); mask = cidr_mask (net_ones n) (length (net_IP n))
      in length a = length (net_IP n) \<and> map2 (AND) (net_IP n) mask = map2 (AND) a mask)"

section \<open>The checker\<close>

record ProxySSRFConfig =
  pss_AllowLocalhost :: bool
  pss_AllowPrivateIP :: bool

record SSRFChecker =
  sc_blockedRanges :: "IPNet list"
  sc_allowedSchemes :: "string list"
  sc_config :: ProxySSRFConfig

definition ipv4_ranges :: "IPNet list" where
  "ipv4_ranges = map (\<lambda>(a, ones). \<lparr>net_IP = a, net_ones = ones\<rparr>)
     [([10, 0, 0, 0], 8), ([172, 16, 0, 0], 12), ([192, 168, 0, 0], 16), ([127, 0, 0, 0], 8), ([169, 254, 0, 0], 16),
      ([0, 0, 0, 0], 8), ([100, 64, 0, 0], 10), ([192, 0, 0, 0], 24), ([192, 0, 2, 0], 24), ([198, 51, 100, 0], 24),
      ([203, 0, 113, 0], 24), ([224, 0, 0, 0], 4), ([240, 0, 0, 0], 4), ([255, 255, 255, 255], 32)]"

definition ipv6_ranges :: "IPNet list" where
  "ipv6_ranges = map (\<lambda>(a, ones). \<lparr>net_IP = a, net_ones = ones\<rparr>)
     [(replicate 15 0 @ [1], 128), (0xfc # replicate 15 0, 7), (0xfe # 0x80 # replicate 14 0, 10),
      (0xff # replicate 15 0, 8), (1 # replicate 15 0, 64), ([0x20, 1, 0x0d, 0xb8] @ replicate 12 0, 32)]"

definition NewSSRFCheckerWithConfig :: "ProxySSRFConfig \<Rightarrow> SSRFChecker" where
  "NewSSRFCheckerWithConfig cfg =
     \<lparr>sc_blockedRanges = (if pss_AllowPrivateIP cfg then [] else ipv4_ranges @ ipv6_ranges),
      sc_allowedSchemes = [''https'', ''http'', ''wss'', ''ws''], sc_config = cfg\<rparr>"

definition NewSSRFChecker :: SSRFChecker where
  "NewSSRFChecker = NewSSRFCheckerWithConfig \<lparr>pss_AllowLocalhost = False, pss_AllowPrivateIP = False\<rparr>"

definition SetSSRFCheckerFromSnapshot :: "Snapshot option \<Rightarrow> SSRFChecker" where
  "SetSSRFCheckerFromSnapshot snapshot =
     (case snapshot of
        None \<Rightarrow> NewSSRFChecker
      | Some snap \<Rightarrow> NewSSRFCheckerWithConfig
          \<lparr>pss_AllowLocalhost = ssrf_AllowLocalhost (rp_SSRF (snap_RoutingPolicy snap)),
           pss_AllowPrivateIP = ssrf_AllowPrivateIP (rp_SSRF (snap_RoutingPolicy snap))\<rparr>)"

definition IsPrivateIP :: "SSRFChecker \<Rightarrow> ip \<Rightarrow> bool" where
  "IsPrivateIP s a0 =
     (let a = (case To4 a0 of Some v4 \<Rightarrow> v4 | None \<Rightarrow> a0) in list_ex (\<lambda>n. Contains n a) (sc_blockedRanges s))"

section \<open>Checking a URL\<close>

record ParsedURL =
  pu_Scheme :: string
  pu_Hostname :: string
  pu_User :: bool
  pu_Path :: string

datatype ssrf_error =
    invalid_url string | scheme_not_allowed string | localhost_not_allowed | metadata_not_allowed
  | dns_failed string string | private_ip ip | user_info_not_allowed | path_traversal | hex_host
  | invalid_address string string | no_addresses string

definition metadata_hosts :: "string list" where
  "metadata_hosts = [''169.254.169.254'', ''metadata.google.internal'']"

text \<open>\<open>ResolveAndValidateHost\<close>: the addresses of a host, all of them allowed.\<close>

definition ResolveAndValidateHost ::
  "(string \<Rightarrow> string + ip list) \<Rightarrow> SSRFChecker \<Rightarrow> string \<Rightarrow> ssrf_error + ip list" where
  "ResolveAndValidateHost lookup s host =
     (if sc_blockedRanges s = [] then Inr []
      else case lookup host of
          Inl err \<Rightarrow> Inl (dns_failed host err)
        | Inr ips \<Rightarrow>
            (case find (IsPrivateIP s) ips of Some a \<Rightarrow> Inl (private_ip a) | None \<Rightarrow> Inr ips))"

definition ValidateURL ::
  "(string \<Rightarrow> string + ParsedURL) \<Rightarrow> (string \<Rightarrow> string + ip list) \<Rightarrow> SSRFChecker \<Rightarrow> string \<Rightarrow> ssrf_error option" where
  "ValidateURL parse_url lookup s rawURL =
     (case parse_url rawURL of
        Inl err \<Rightarrow> Some (invalid_url err)
      | Inr u \<Rightarrow>
          (let scheme = to_lower (pu_Scheme u); host = to_lower (pu_Hostname u) in
           if \<not> List.member (sc_allowedSchemes s) scheme then Some (scheme_not_allowed scheme)
           else if \<not> pss_AllowLocalhost (sc_config s) \<and> List.member [''localhost'', ''127.0.0.1'', ''::1''] host
           then Some localhost_not_allowed
           else if List.member metadata_hosts host then Some metadata_not_allowed
           else case ResolveAndValidateHost lookup s host of
               Inl err \<Rightarrow> Some err
             | Inr ips \<Rightarrow>
                 if pu_User u then Some user_info_not_allowed
                 else if str_contains (pu_Path u) ''..'' then Some path_traversal
                 else if str_contains host ''0x'' then Some hex_host
                 else None))"

section \<open>Dialling\<close>

text \<open>
  \<open>pinnedIPDialer\<close>: the address that is dialled, or the error. The functions of \<open>net\<close> are the fields
  of \<open>net_functions\<close>.
\<close>

record net_functions =
  nf_SplitHostPort :: "string \<Rightarrow> string + string \<times> string"
  nf_ParseIP :: "string \<Rightarrow> ip option"
  nf_String :: "ip \<Rightarrow> string"
  nf_JoinHostPort :: "string \<Rightarrow> string \<Rightarrow> string"
  nf_LookupIP :: "string \<Rightarrow> string + ip list"

definition pinnedIPDialer :: "net_functions \<Rightarrow> SSRFChecker \<Rightarrow> string \<Rightarrow> ssrf_error + string" where
  "pinnedIPDialer nf s addr =
     (case nf_SplitHostPort nf addr of
        Inl err \<Rightarrow> Inl (invalid_address addr err)
      | Inr (host, port) \<Rightarrow>
          (case nf_ParseIP nf host of
             Some a \<Rightarrow> if IsPrivateIP s a then Inl (private_ip a) else Inr addr
           | None \<Rightarrow>
               (case ResolveAndValidateHost (nf_LookupIP nf) s host of
                  Inl err \<Rightarrow> Inl err
                | Inr [] \<Rightarrow> Inl (no_addresses host)
                | Inr (a # ips) \<Rightarrow> Inr (nf_JoinHostPort nf (nf_String nf a) port))))"

section \<open>Masks and prefixes\<close>

text \<open>An address as a number, and a network as the numbers that agree with it in the leading bits.\<close>

fun ip_number :: "ip \<Rightarrow> nat" where
  "ip_number [] = 0"
| "ip_number (b # a) = unat b * 2 ^ (8 * length a) + ip_number a"

lemma unat_byte: "unat (b :: 8 word) < 2 ^ 8"
  using unsigned_less [where 'a = nat, of b] by simp

lemma ip_number_less: "ip_number a < 2 ^ (8 * length a)"
proof (induction a)
  case (Cons b a)
  define X :: nat where "X = 2 ^ (8 * length a)"
  have "unat b * X \<le> 255 * X" using unat_byte [of b] by (intro mult_le_mono1) simp
  moreover have "2 ^ (8 * length (b # a)) = 256 * X" by (simp add: X_def power_add)
  ultimately show ?case using Cons unfolding ip_number.simps X_def [symmetric] by linarith
qed simp

lemma mask_byte: "ones \<le> 8 \<Longrightarrow>
  (x :: 8 word) AND push_bit (8 - ones) 255 = y AND push_bit (8 - ones) 255 \<longleftrightarrow>
    unat x div 2 ^ (8 - ones) = unat y div 2 ^ (8 - ones)"
proof -
  assume ones: "ones \<le> 8"
  have m: "x AND push_bit (8 - ones) 255 = push_bit (8 - ones) (drop_bit (8 - ones) x)" for x :: "8 word"
  proof (rule bit_eqI)
    fix n assume "possible_bit TYPE(8 word) n"
    then have n: "n < 8" by simp
    have eq: "(255 :: 8 word) = mask 8" by (simp add: mask_eq_exp_minus_1)
    have "bit (255 :: 8 word) k" if "k < 8" for k
      unfolding eq bit_mask_iff using that by simp
    then show "bit (x AND push_bit (8 - ones) 255) n = bit (push_bit (8 - ones) (drop_bit (8 - ones) x)) n"
      using n ones by (auto simp: bit_simps)
  qed
  have "push_bit (8 - ones) (drop_bit (8 - ones) x) = push_bit (8 - ones) (drop_bit (8 - ones) y) \<longleftrightarrow>
      drop_bit (8 - ones) x = drop_bit (8 - ones) y"
  proof
    assume eq: "push_bit (8 - ones) (drop_bit (8 - ones) x) = push_bit (8 - ones) (drop_bit (8 - ones) y)"
    show "drop_bit (8 - ones) x = drop_bit (8 - ones) y"
    proof (rule bit_eqI)
      fix n assume "possible_bit TYPE(8 word) n"
      then have n: "n < 8" by simp
      show "bit (drop_bit (8 - ones) x) n = bit (drop_bit (8 - ones) y) n"
      proof (cases "n < ones")
        case True
        then show ?thesis using arg_cong [OF eq, of "\<lambda>w. bit w (8 - ones + n)"] ones by (auto simp: bit_simps)
      next
        case False
        then show ?thesis using ones by (auto simp: bit_simps dest: bit_imp_le_length)
      qed
    qed
  qed simp
  also have "\<dots> \<longleftrightarrow> unat x div 2 ^ (8 - ones) = unat y div 2 ^ (8 - ones)"
    by (simp add: word_unat_eq_iff unsigned_drop_bit_eq take_bit_nat_eq_self unat_byte [simplified] flip: drop_bit_eq_div)
  finally show ?thesis by (simp add: m)
qed

lemma cidr_mask_length [simp]: "length (cidr_mask ones len) = len"
  by (induction ones len rule: cidr_mask.induct) simp_all

lemma masked_zero: "length (a :: ip) = length b \<Longrightarrow> map2 (AND) a (cidr_mask 0 (length a)) = map2 (AND) b (cidr_mask 0 (length b))"
proof (induction a b rule: list_induct2)
  case (Cons x a y b)
  then show ?case using mask_byte [of 0 x y] by (simp add: unat_byte [simplified])
qed simp

text \<open>Masking both addresses compares their first \<open>ones\<close> bits.\<close>

lemma masked_eq:
  "length (a :: ip) = length b \<Longrightarrow> ones \<le> 8 * length a \<Longrightarrow>
     map2 (AND) a (cidr_mask ones (length a)) = map2 (AND) b (cidr_mask ones (length b)) \<longleftrightarrow>
     ip_number a div 2 ^ (8 * length a - ones) = ip_number b div 2 ^ (8 * length b - ones)"
proof (induction a b arbitrary: ones rule: list_induct2)
  case (Cons x a y b)
  let ?l = "length a"
  show ?case
  proof (cases "8 \<le> ones")
    case True
    define k where "k = ones - 8"
    then have k: "ones = k + 8" "k \<le> 8 * ?l" using True Cons.prems by simp_all
    have split: "ip_number (z # c) div 2 ^ (8 * length (z # c) - ones) =
        unat z * 2 ^ k + ip_number c div 2 ^ (8 * length c - k)" if "length c = ?l" for z and c :: ip
    proof -
      have "(2 :: nat) ^ (8 * ?l) = 2 ^ k * 2 ^ (8 * ?l - k)"
        using k(2) by (simp add: power_add [symmetric])
      then have "ip_number (z # c) = (unat z * 2 ^ k) * 2 ^ (8 * ?l - k) + ip_number c"
        unfolding ip_number.simps that by (simp only: mult.assoc)
      moreover have "8 * length (z # c) - ones = 8 * ?l - k" using k that by simp
      ultimately show ?thesis
        unfolding that by (simp only: div_mult_self3 power_not_zero zero_neq_numeral not_False_eq_True)
    qed
    have low: "ip_number c div 2 ^ (8 * length c - k) < 2 ^ k" if "length c = ?l" for c :: ip
      using ip_number_less [of c] k(2) that
      by (simp add: less_mult_imp_div_less power_add [symmetric])
    have "map2 (AND) (x # a) (cidr_mask ones (length (x # a))) = map2 (AND) (y # b) (cidr_mask ones (length (y # b))) \<longleftrightarrow>
        x = y \<and> ip_number a div 2 ^ (8 * ?l - k) = ip_number b div 2 ^ (8 * length b - k)"
      using True Cons.IH [OF k(2)] mask_byte [of 8 x y] by (simp add: k_def word_unat_eq_iff)
    also have "\<dots> \<longleftrightarrow> unat x * 2 ^ k + ip_number a div 2 ^ (8 * ?l - k) = unat y * 2 ^ k + ip_number b div 2 ^ (8 * length b - k)"
    proof
      assume eq: "unat x * 2 ^ k + ip_number a div 2 ^ (8 * ?l - k) = unat y * 2 ^ k + ip_number b div 2 ^ (8 * length b - k)"
      have "unat x = (unat x * 2 ^ k + ip_number a div 2 ^ (8 * ?l - k)) div 2 ^ k" using low [of a] by simp
      also have "\<dots> = unat y" using low [of b] Cons.hyps unfolding eq by simp
      finally show "x = y \<and> ip_number a div 2 ^ (8 * ?l - k) = ip_number b div 2 ^ (8 * length b - k)"
        using eq by (simp add: word_unat_eq_iff)
    qed simp
    finally show ?thesis using split [of a x] split [of b y] Cons.hyps by simp
  next
    case False
    have "ip_number (z # c) div 2 ^ (8 * length (z # c) - ones) = unat z div 2 ^ (8 - ones)" if "length c = ?l" for z and c :: ip
    proof -
      have "8 * length (z # c) - ones = 8 * ?l + (8 - ones)" using that False by simp
      then show ?thesis using ip_number_less [of c] that by (simp add: power_add div_mult2_eq)
    qed
    then show ?thesis
      using False Cons.hyps mask_byte [of ones x y] masked_zero [of a b] by simp
  qed
qed simp

lemma Contains_prefix:
  assumes "net_ones n \<le> 8 * length (net_IP n)"
  shows "Contains n a \<longleftrightarrow>
    (let a' = (case To4 a of Some v4 \<Rightarrow> v4 | None \<Rightarrow> a) in
     length a' = length (net_IP n) \<and>
     ip_number (net_IP n) div 2 ^ (8 * length (net_IP n) - net_ones n) =
     ip_number a' div 2 ^ (8 * length a' - net_ones n))"
  unfolding Contains_def Let_def by (metis assms masked_eq)

lemma IsPrivateIP_mapped: "To4 a = Some v4 \<Longrightarrow> IsPrivateIP s a = IsPrivateIP s v4"
  by (auto simp: IsPrivateIP_def To4_def split: if_splits)

text \<open>The bytes under the masks that occur in the IPv4 ranges.\<close>

lemma full_mask [simp]: "(x :: 8 word) AND 255 = x"
proof -
  have eq: "(255 :: 8 word) = mask 8" by (simp add: mask_eq_exp_minus_1)
  show ?thesis unfolding eq take_bit_eq_mask [symmetric] by (rule take_bit_word_eq_self) simp
qed

lemma byte_masks: "push_bit (8 - 4) (255 :: 8 word) = 240" "push_bit (8 - 2) (255 :: 8 word) = 192"
  by code_simp+

lemma half_masks:
  "(k :: 8 word) AND 240 = x AND 240 \<longleftrightarrow> unat k div 16 = unat x div 16"
  "(k :: 8 word) AND 192 = x AND 192 \<longleftrightarrow> unat k div 64 = unat x div 64"
  using mask_byte [of 4 k x, unfolded byte_masks] mask_byte [of 2 k x, unfolded byte_masks] by simp_all

lemma masked_bytes [simp]:
  "16 = (x :: 8 word) AND 240 \<longleftrightarrow> unat x div 16 = 1"
  "224 = (x :: 8 word) AND 240 \<longleftrightarrow> unat x div 16 = 14"
  "240 = (x :: 8 word) AND 240 \<longleftrightarrow> unat x div 16 = 15"
  "64 = (x :: 8 word) AND 192 \<longleftrightarrow> unat x div 64 = 1"
  using half_masks(1) [of 16 x] half_masks(1) [of 224 x] half_masks(1) [of 240 x] half_masks(2) [of 64 x]
  by auto

declare cidr_mask.simps [simp del]

lemma cidr_masks [simp]:
  "cidr_mask 8 4 = [255, 0, 0, 0]" "cidr_mask 12 4 = [255, 240, 0, 0]" "cidr_mask 16 4 = [255, 255, 0, 0]"
  "cidr_mask 10 4 = [255, 192, 0, 0]" "cidr_mask 24 4 = [255, 255, 255, 0]" "cidr_mask 4 4 = [240, 0, 0, 0]"
  "cidr_mask 32 4 = [255, 255, 255, 255]"
  by code_simp+

lemma Contains_v4:
  "Contains \<lparr>net_IP = [p, q, r, t], net_ones = ones\<rparr> [a, b, c, d] \<longleftrightarrow>
     map2 (AND) [p, q, r, t] (cidr_mask ones 4) = map2 (AND) [a, b, c, d] (cidr_mask ones 4)"
proof -
  have "length [p, q, r, t] = 4" "To4 [a, b, c, d] = Some [a, b, c, d]" by (simp_all add: To4_def)
  then show ?thesis by (simp only: Contains_def Let_def IPNet.simps option.case) simp
qed

lemma v4_not_v6: "n \<in> set ipv6_ranges \<Longrightarrow> \<not> Contains n [a, b, c, d]"
  by (auto simp: ipv6_ranges_def Contains_def To4_def)

lemma resolved_public:
  assumes "ResolveAndValidateHost lookup s host = Inr ips" "sc_blockedRanges s \<noteq> []"
  shows "lookup host = Inr ips \<and> (\<forall>a \<in> set ips. \<not> IsPrivateIP s a)"
  using assms by (auto simp: ResolveAndValidateHost_def find_None_iff split: sum.splits option.splits)

lemma default_blocks: "sc_blockedRanges NewSSRFChecker = ipv4_ranges @ ipv6_ranges" "ipv4_ranges \<noteq> []"
  by (simp_all add: NewSSRFChecker_def NewSSRFCheckerWithConfig_def ipv4_ranges_def)

section \<open>A resolver for the witnesses\<close>

definition demo_net :: net_functions where
  "demo_net = \<lparr>nf_SplitHostPort = (\<lambda>addr. Inr (addr, ''443'')), nf_ParseIP = (\<lambda>host. None),
     nf_String = (\<lambda>a. ''8.8.8.8''), nf_JoinHostPort = (\<lambda>h p. h @ '':'' @ p),
     nf_LookupIP = (\<lambda>host. if host = ''api.example'' then Inr [[8, 8, 8, 8]] else Inr [[10, 0, 0, 1]])\<rparr>"

section \<open>Properties\<close>

text \<open>
  C12 The addresses that the default checker blocks among the IPv4 addresses, written out: the
  networks of RFC 1918, loopback, link-local with the metadata service, carrier NAT, the documentation
  and protocol networks, multicast and everything above. An IPv4 address that is mapped into IPv6 is
  blocked exactly if the IPv4 address is.
\<close>

theorem blocked_ipv4_exact:
  assumes "To4 x = Some [a, b, c, d]"
  shows "IsPrivateIP NewSSRFChecker x \<longleftrightarrow>
     a \<in> {0, 10, 127} \<or> a = 100 \<and> unat b div 64 = 1 \<or> a = 169 \<and> b = 254 \<or> a = 172 \<and> unat b div 16 = 1 \<or>
     a = 192 \<and> (b = 168 \<or> b = 0 \<and> (c = 0 \<or> c = 2)) \<or> a = 198 \<and> b = 51 \<and> c = 100 \<or>
     a = 203 \<and> b = 0 \<and> c = 113 \<or> 14 \<le> unat a div 16"
proof -
  have "IsPrivateIP NewSSRFChecker x \<longleftrightarrow> list_ex (\<lambda>n. Contains n [a, b, c, d]) ipv4_ranges"
    using v4_not_v6 by (auto simp: IsPrivateIP_def assms default_blocks list_ex_iff)
  also have "\<dots> \<longleftrightarrow> a \<in> {0, 10, 127} \<or> a = 100 \<and> unat b div 64 = 1 \<or> a = 169 \<and> b = 254 \<or>
      a = 172 \<and> unat b div 16 = 1 \<or> a = 192 \<and> (b = 168 \<or> b = 0 \<and> (c = 0 \<or> c = 2)) \<or>
      a = 198 \<and> b = 51 \<and> c = 100 \<or> a = 203 \<and> b = 0 \<and> c = 113 \<or>
      unat a div 16 = 14 \<or> unat a div 16 = 15"
    by (auto simp: ipv4_ranges_def Contains_v4)
  also have "unat a div 16 = 14 \<or> unat a div 16 = 15 \<longleftrightarrow> 14 \<le> unat a div 16"
    using unat_byte [of a] by auto
  finally show ?thesis .
qed

theorem blocked_ipv4_exact_witness:
  "IsPrivateIP NewSSRFChecker (replicate 10 0 @ [255, 255, 100, 100, 0, 1]) \<and> \<not> IsPrivateIP NewSSRFChecker [8, 8, 8, 8]"
proof -
  have "To4 (replicate 10 0 @ [255, 255, 100, 100, 0, 1]) = Some [100, 100, 0, 1]" "To4 [8, 8, 8, 8] = Some [8, 8, 8, 8]"
    by code_simp+
  from this [THEN blocked_ipv4_exact] show ?thesis by simp
qed

text \<open>
  C7 What the default checker lets through is dialled where it was checked: if a connection is made,
  the address that is dialled is not blocked, and for a host name it is one of the addresses of the
  very resolution that was checked, none of which is blocked. So a name that resolves differently
  later (DNS rebinding) gains nothing.
\<close>

theorem dialled_address_checked:
  assumes "pinnedIPDialer nf NewSSRFChecker addr = Inr target"
  shows "\<exists>host port a. nf_SplitHostPort nf addr = Inr (host, port) \<and> \<not> IsPrivateIP NewSSRFChecker a \<and>
    (if nf_ParseIP nf host = None
     then target = nf_JoinHostPort nf (nf_String nf a) port \<and>
       (\<exists>ips. nf_LookupIP nf host = Inr ips \<and> a \<in> set ips \<and> list_all (\<lambda>b. \<not> IsPrivateIP NewSSRFChecker b) ips)
     else target = addr \<and> nf_ParseIP nf host = Some a)"
proof (cases "nf_SplitHostPort nf addr")
  case (Inr hp)
  obtain host port where hp: "hp = (host, port)" by fastforce
  show ?thesis
  proof (cases "nf_ParseIP nf host")
    case (Some a)
    with assms Inr hp show ?thesis by (auto simp: pinnedIPDialer_def split: if_splits)
  next
    case None
    with assms Inr hp obtain a ips where r: "ResolveAndValidateHost (nf_LookupIP nf) NewSSRFChecker host = Inr (a # ips)"
      "target = nf_JoinHostPort nf (nf_String nf a) port"
      by (auto simp: pinnedIPDialer_def split: sum.splits list.splits)
    from resolved_public [OF r(1)] default_blocks None Inr hp r(2) show ?thesis
      by (auto simp: list_all_iff)
  qed
qed (use assms in \<open>simp add: pinnedIPDialer_def\<close>)

theorem dialled_address_checked_witness: "pinnedIPDialer demo_net NewSSRFChecker ''api.example'' = Inr ''8.8.8.8:443'' \<and>
  (\<exists>a. \<not> IsPrivateIP NewSSRFChecker a \<and> nf_JoinHostPort demo_net (nf_String demo_net a) ''443'' = ''8.8.8.8:443'')"
proof -
  have r: "pinnedIPDialer demo_net NewSSRFChecker ''api.example'' = Inr ''8.8.8.8:443''" by code_simp
  from dialled_address_checked [OF this] show ?thesis
    by (auto simp: r) (auto simp: demo_net_def)
qed

text \<open>
  C10 A URL that the default checker accepts has one of the four schemes, names neither the local host
  nor a metadata service, resolves, and only to addresses that are not blocked, has no user and no
  dot-dot in its path.
\<close>

theorem accepted_url_public:
  assumes "ValidateURL parse_url lookup NewSSRFChecker rawURL = None"
  shows "\<exists>u ips. parse_url rawURL = Inr u \<and> to_lower (pu_Scheme u) \<in> {''https'', ''http'', ''wss'', ''ws''} \<and>
    to_lower (pu_Hostname u) \<notin> {''localhost'', ''127.0.0.1'', ''::1'', ''169.254.169.254'', ''metadata.google.internal''} \<and>
    lookup (to_lower (pu_Hostname u)) = Inr ips \<and> list_all (\<lambda>a. \<not> IsPrivateIP NewSSRFChecker a) ips \<and>
    \<not> pu_User u \<and> \<not> str_contains (pu_Path u) ''..''"
proof (cases "parse_url rawURL")
  case (Inr u)
  with assms obtain ips where r: "ResolveAndValidateHost lookup NewSSRFChecker (to_lower (pu_Hostname u)) = Inr ips"
    by (auto simp: ValidateURL_def Let_def split: if_splits sum.splits)
  from assms Inr r resolved_public [OF r] default_blocks show ?thesis
    by (auto simp: ValidateURL_def Let_def list_all_iff NewSSRFChecker_def NewSSRFCheckerWithConfig_def metadata_hosts_def
      split: if_splits)
qed (use assms in \<open>simp add: ValidateURL_def\<close>)

theorem accepted_url_public_witness:
  "ValidateURL (\<lambda>s. Inr \<lparr>pu_Scheme = ''HTTPS'', pu_Hostname = ''api.example'', pu_User = False, pu_Path = ''/v1''\<rparr>)
     (nf_LookupIP demo_net) NewSSRFChecker ''u'' = None \<and>
   list_all (\<lambda>a. \<not> IsPrivateIP NewSSRFChecker a) [[8, 8, 8, 8]]"
proof -
  let ?parse = "\<lambda>s :: string. Inr \<lparr>pu_Scheme = ''HTTPS'', pu_Hostname = ''api.example'', pu_User = False, pu_Path = ''/v1''\<rparr>"
  have v: "ValidateURL ?parse (nf_LookupIP demo_net) NewSSRFChecker ''u'' = None" by code_simp
  have "to_lower ''api.example'' = ''api.example''" "nf_LookupIP demo_net ''api.example'' = Inr [[8, 8, 8, 8]]"
    by code_simp+
  with accepted_url_public [OF v] v show ?thesis by auto
qed

section \<open>Two gaps\<close>

text \<open>The unspecified IPv6 address, which reaches the local host on common systems, is in no range.\<close>

lemma unspecified_not_blocked: "\<not> IsPrivateIP NewSSRFChecker (replicate 16 0)"
  by code_simp

text \<open>A checker that allows private addresses lets no host name be dialled: it resolves nothing.\<close>

lemma allow_private_dials_no_name:
  assumes "pss_AllowPrivateIP cfg" "nf_SplitHostPort nf addr = Inr (host, port)" "nf_ParseIP nf host = None"
  shows "pinnedIPDialer nf (NewSSRFCheckerWithConfig cfg) addr = Inl (no_addresses host)"
  using assms by (simp add: pinnedIPDialer_def ResolveAndValidateHost_def NewSSRFCheckerWithConfig_def)

text \<open>Allowing the local host alone does not help: its addresses stay in the blocked ranges.\<close>

lemma allow_localhost_still_blocked:
  "\<not> pss_AllowPrivateIP cfg \<Longrightarrow> IsPrivateIP (NewSSRFCheckerWithConfig cfg) [127, 0, 0, 1]"
  by (simp add: NewSSRFCheckerWithConfig_def IsPrivateIP_def To4_def ipv4_ranges_def Contains_v4)

end
