(* ===== verification/Publisher_Store.thy ===== *)
theory Publisher_Store
  imports Compiler
begin

text \<open>
  The ledger of the control plane in its durable form: \<open>internal/control/publish/state_store.go\<close> and
  \<open>sqlite_store.go\<close>. The YAML and JSON encoders and the text form of a time are the fields of \<open>codec\<close>.
  A store is what the interface \<open>StateStore\<close> of the source says, an action that loads and one that
  saves; the locale \<open>state_store\<close> is its contract.
\<close>

section \<open>The ledger\<close>

record Revision =
  rv_RevisionID :: string
  rv_CreatedAt :: gotime
  rv_CreatedBy :: string
  rv_Description :: string
  rv_Config :: "Config option"
  rv_Snapshot :: "Snapshot option"

record PublishRecord =
  pub_PublishID :: string
  pub_RevisionID :: string
  pub_SnapshotID :: string
  pub_RequestedAt :: gotime
  pub_RequestedBy :: string
  pub_Kind :: string
  pub_Status :: string
  pub_Error :: string
  pub_ObservedAt :: gotime

record StoredRevision =
  sr_RevisionID :: string
  sr_CreatedAt :: string
  sr_CreatedBy :: string
  sr_Description :: string
  sr_ConfigYAML :: string
  sr_SnapshotYAML :: string

record PublisherState =
  pls_Version :: goint
  pls_ActiveRevisionID :: string
  pls_Revisions :: "StoredRevision list"
  pls_Publishes :: "PublishRecord list"

definition currentStateVersion :: goint where "currentStateVersion = 1"

record codec =
  cd_enc_config :: "Config \<Rightarrow> string + string"
  cd_dec_config :: "string \<Rightarrow> string + Config"
  cd_enc_snapshot :: "Snapshot \<Rightarrow> string + string"
  cd_dec_snapshot :: "string \<Rightarrow> string + Snapshot"
  cd_format_time :: "gotime \<Rightarrow> string"
  cd_parse_time :: "string \<Rightarrow> string + gotime"
  cd_enc_state :: "PublisherState \<Rightarrow> string + string"
  cd_dec_state :: "string \<Rightarrow> string + PublisherState"

text \<open>The errors of the package, with the texts of the libraries in them.\<close>

datatype publish_error =
    P_Encode string | P_Decode string | P_ParseTime string | P_Version goint
  | P_Read string | P_Write string | P_Constraint string
  | P_At nat publish_error
  | P_RevisionIDRequired | P_DuplicateRevision string | P_RevisionNotFound string | P_ActiveRevisionNotFound string
  | P_ConfigNil | P_UnsupportedConfig string | P_GatewayNotConfigured | P_CompilerNotConfigured | P_NoConfig string | P_NilSnapshot
  | P_Compile compile_error | P_SnapshotInvalid snapshot_error

abbreviation bind_sum :: "'e + 'a \<Rightarrow> ('a \<Rightarrow> 'e + 'b) \<Rightarrow> 'e + 'b" where
  "bind_sum r f \<equiv> (case r of Inl e \<Rightarrow> Inl e | Inr a \<Rightarrow> f a)"

definition lift_error :: "('e \<Rightarrow> publish_error) \<Rightarrow> 'e + 'a \<Rightarrow> publish_error + 'a" where
  "lift_error f r = (case r of Inl e \<Rightarrow> Inl (f e) | Inr a \<Rightarrow> Inr a)"

section \<open>Revisions in durable form\<close>

text \<open>A payload that is absent has the empty text.\<close>

definition encode_payload :: "('a \<Rightarrow> string + string) \<Rightarrow> 'a option \<Rightarrow> publish_error + string" where
  "encode_payload enc payload = (case payload of None \<Rightarrow> Inr [] | Some a \<Rightarrow> lift_error P_Encode (enc a))"

definition marshalStoredRevision :: "codec \<Rightarrow> Revision \<Rightarrow> publish_error + StoredRevision" where
  "marshalStoredRevision cd r =
     bind_sum (encode_payload (cd_enc_config cd) (rv_Config r)) (\<lambda>config.
     bind_sum (encode_payload (cd_enc_snapshot cd) (rv_Snapshot r)) (\<lambda>snap.
       Inr \<lparr>sr_RevisionID = rv_RevisionID r, sr_CreatedAt = cd_format_time cd (rv_CreatedAt r),
         sr_CreatedBy = rv_CreatedBy r, sr_Description = rv_Description r,
         sr_ConfigYAML = config, sr_SnapshotYAML = snap\<rparr>))"

definition decode_payload :: "(string \<Rightarrow> string + 'a) \<Rightarrow> string \<Rightarrow> publish_error + 'a option" where
  "decode_payload dec payload =
     (if trim_space payload = [] then Inr None
      else bind_sum (lift_error P_Decode (dec payload)) (\<lambda>a. Inr (Some a)))"

text \<open>A restored configuration is normalised.\<close>

definition unmarshalStoredRevision :: "codec \<Rightarrow> StoredRevision \<Rightarrow> publish_error + Revision" where
  "unmarshalStoredRevision cd stored =
     bind_sum (if sr_CreatedAt stored = [] then Inr 0
               else lift_error P_ParseTime (cd_parse_time cd (sr_CreatedAt stored))) (\<lambda>createdAt.
     bind_sum (decode_payload (cd_dec_config cd) (sr_ConfigYAML stored)) (\<lambda>config.
     bind_sum (decode_payload (cd_dec_snapshot cd) (sr_SnapshotYAML stored)) (\<lambda>snap.
       Inr \<lparr>rv_RevisionID = trim_space (sr_RevisionID stored), rv_CreatedAt = createdAt,
         rv_CreatedBy = sr_CreatedBy stored, rv_Description = sr_Description stored,
         rv_Config = map_option Normalize config, rv_Snapshot = snap\<rparr>)))"

section \<open>The contract of a store\<close>

record 'w StateStore =
  st_Load :: "'w \<Rightarrow> (publish_error + PublisherState option) \<times> 'w"
  st_Save :: "PublisherState \<Rightarrow> 'w \<Rightarrow> publish_error option \<times> 'w"

text \<open>
  A state that can be stored is found after it was saved. \<open>MigratingStateStore\<close> puts a store before
  another one and keeps the contract.
\<close>

locale state_store =
  fixes store :: "'w StateStore" and storable :: "PublisherState \<Rightarrow> bool"
  assumes load_saved: "storable s \<Longrightarrow> st_Save store s w = (None, w') \<Longrightarrow> fst (st_Load store w') = Inr (Some s)"

section \<open>A primary and a fallback\<close>

definition MigratingStateStore_Load ::
  "'w StateStore option \<Rightarrow> 'w StateStore option \<Rightarrow> 'w \<Rightarrow> (publish_error + PublisherState option) \<times> 'w" where
  "MigratingStateStore_Load primary fallback w =
     (let (first, w1) = (case primary of None \<Rightarrow> (Inr None, w) | Some p \<Rightarrow> st_Load p w) in
      case first of
        Inl e \<Rightarrow> (Inl e, w1)
      | Inr (Some s) \<Rightarrow> (Inr (Some s), w1)
      | Inr None \<Rightarrow>
          (case fallback of
             None \<Rightarrow> (Inr None, w1)
           | Some f \<Rightarrow>
               (case st_Load f w1 of
                  (Inr (Some s), w2) \<Rightarrow>
                    (Inr (Some s), case primary of None \<Rightarrow> w2 | Some p \<Rightarrow> snd (st_Save p s w2))
                | (r, w2) \<Rightarrow> (r, w2))))"

definition MigratingStateStore_Save ::
  "'w StateStore option \<Rightarrow> PublisherState \<Rightarrow> 'w \<Rightarrow> publish_error option \<times> 'w" where
  "MigratingStateStore_Save primary s w = (case primary of None \<Rightarrow> (None, w) | Some p \<Rightarrow> st_Save p s w)"

definition NewMigratingStateStore :: "'w StateStore option \<Rightarrow> 'w StateStore option \<Rightarrow> 'w StateStore" where
  "NewMigratingStateStore primary fallback =
     \<lparr>st_Load = MigratingStateStore_Load primary fallback, st_Save = MigratingStateStore_Save primary\<rparr>"

context state_store begin

lemma migrating: "state_store (NewMigratingStateStore (Some store) fallback) storable"
proof
  fix s w w'
  assume "storable s" "st_Save (NewMigratingStateStore (Some store) fallback) s w = (None, w')"
  then have "fst (st_Load store w') = Inr (Some s)"
    using load_saved by (simp add: NewMigratingStateStore_def MigratingStateStore_Save_def)
  then show "fst (st_Load (NewMigratingStateStore (Some store) fallback) w') = Inr (Some s)"
    by (simp add: NewMigratingStateStore_def MigratingStateStore_Load_def Let_def split_def)
qed

end

section \<open>The SQLite store\<close>

text \<open>
  The three tables; a publish is kept with its times as text. Inserting a row whose primary key is
  present fails, and a failed save is rolled back. \<open>None\<close> is a database file that does not exist.
\<close>

record publish_row =
  pr_record :: PublishRecord
  pr_requestedAt :: string
  pr_observedAt :: string

record Database =
  db_state :: "(goint \<times> string) option"
  db_revisions :: "(nat \<times> StoredRevision) list"
  db_publishes :: "(nat \<times> publish_row) list"

definition empty_database :: Database where
  "empty_database = \<lparr>db_state = None, db_revisions = [], db_publishes = []\<rparr>"

fun insert_rows :: "('r \<Rightarrow> string) \<Rightarrow> nat \<Rightarrow> 'r list \<Rightarrow> (nat \<times> 'r) list \<Rightarrow> publish_error + (nat \<times> 'r) list" where
  "insert_rows key idx [] table = Inr table"
| "insert_rows key idx (r # rs) table =
     (if list_ex (\<lambda>(_, r'). key r' = key r) table then Inl (P_Constraint (key r))
      else insert_rows key (Suc idx) rs (table @ [(idx, r)]))"

definition formatOptionalStoreTime :: "codec \<Rightarrow> gotime \<Rightarrow> string" where
  "formatOptionalStoreTime cd t = (if is_zero_time t then [] else cd_format_time cd t)"

definition parseStoreTime :: "codec \<Rightarrow> string \<Rightarrow> publish_error + gotime" where
  "parseStoreTime cd s = lift_error P_ParseTime (cd_parse_time cd (trim_space s))"

definition parseOptionalStoreTime :: "codec \<Rightarrow> string \<Rightarrow> publish_error + gotime" where
  "parseOptionalStoreTime cd s = (if trim_space s = [] then Inr 0 else parseStoreTime cd (trim_space s))"

definition to_row :: "codec \<Rightarrow> PublishRecord \<Rightarrow> publish_row" where
  "to_row cd r = \<lparr>pr_record = r\<lparr>pub_RequestedAt := 0, pub_ObservedAt := 0\<rparr>,
     pr_requestedAt = cd_format_time cd (pub_RequestedAt r),
     pr_observedAt = formatOptionalStoreTime cd (pub_ObservedAt r)\<rparr>"

definition of_row :: "codec \<Rightarrow> publish_row \<Rightarrow> publish_error + PublishRecord" where
  "of_row cd row =
     bind_sum (parseStoreTime cd (pr_requestedAt row)) (\<lambda>requested.
     bind_sum (parseOptionalStoreTime cd (pr_observedAt row)) (\<lambda>observed.
       Inr ((pr_record row)\<lparr>pub_RequestedAt := requested, pub_ObservedAt := observed\<rparr>)))"

fun all_rows :: "('a \<Rightarrow> 'e + 'b) \<Rightarrow> 'a list \<Rightarrow> 'e + 'b list" where
  "all_rows f [] = Inr []"
| "all_rows f (x # xs) = bind_sum (f x) (\<lambda>y. bind_sum (all_rows f xs) (\<lambda>ys. Inr (y # ys)))"

text \<open>\<open>SELECT ... ORDER BY seq ASC\<close>.\<close>

definition select_by_seq :: "(nat \<times> 'r) list \<Rightarrow> 'r list" where
  "select_by_seq table = map snd (sort_key fst table)"

definition SQLiteStateStore_Load ::
  "codec \<Rightarrow> Database option \<Rightarrow> (publish_error + PublisherState option) \<times> Database option" where
  "SQLiteStateStore_Load cd file =
     ((case file of
         None \<Rightarrow> Inr None
       | Some db \<Rightarrow>
           (case db_state db of
              None \<Rightarrow> Inr None
            | Some (version0, active) \<Rightarrow>
                (let version = (if version0 = 0 then currentStateVersion else version0) in
                 if version \<noteq> currentStateVersion then Inl (P_Version version)
                 else bind_sum (all_rows (of_row cd) (select_by_seq (db_publishes db))) (\<lambda>publishes.
                   Inr (Some \<lparr>pls_Version = version, pls_ActiveRevisionID = active,
                     pls_Revisions = select_by_seq (db_revisions db), pls_Publishes = publishes\<rparr>))))), file)"

definition SQLiteStateStore_Save ::
  "codec \<Rightarrow> PublisherState \<Rightarrow> Database option \<Rightarrow> publish_error option \<times> Database option" where
  "SQLiteStateStore_Save cd s file =
     (let db = (case file of None \<Rightarrow> empty_database | Some db \<Rightarrow> db) in
      case bind_sum (insert_rows sr_RevisionID 0 (pls_Revisions s) []) (\<lambda>revisions.
        bind_sum (insert_rows (\<lambda>r. pub_PublishID (pr_record r)) 0 (map (to_row cd) (pls_Publishes s)) []) (\<lambda>publishes.
          Inr \<lparr>db_state = Some (pls_Version s, pls_ActiveRevisionID s), db_revisions = revisions,
            db_publishes = publishes\<rparr>)) of
        Inl e \<Rightarrow> (Some e, Some db)
      | Inr db' \<Rightarrow> (None, Some db'))"

definition NewSQLiteStateStore :: "codec \<Rightarrow> Database option StateStore" where
  "NewSQLiteStateStore cd = \<lparr>st_Load = SQLiteStateStore_Load cd, st_Save = SQLiteStateStore_Save cd\<rparr>"

section \<open>The file store\<close>

text \<open>
  The file operations that the store uses, each on a state of the file system; a read gives no value
  for a file that does not exist, the others an error or none.
\<close>

record 'f files =
  fi_read :: "string \<Rightarrow> 'f \<Rightarrow> (string + string option) \<times> 'f"
  fi_mkdir :: "string \<Rightarrow> 'f \<Rightarrow> string option \<times> 'f"
  fi_write :: "string \<Rightarrow> string \<Rightarrow> 'f \<Rightarrow> string option \<times> 'f"
  fi_rename :: "string \<Rightarrow> string \<Rightarrow> 'f \<Rightarrow> string option \<times> 'f"
  fi_remove :: "string \<Rightarrow> 'f \<Rightarrow> string option \<times> 'f"
  fi_dir :: "string \<Rightarrow> string"

definition checked_version :: "PublisherState \<Rightarrow> publish_error + PublisherState" where
  "checked_version s0 =
     (let s = (if pls_Version s0 = 0 then s0\<lparr>pls_Version := currentStateVersion\<rparr> else s0) in
      if pls_Version s \<noteq> currentStateVersion then Inl (P_Version (pls_Version s)) else Inr s)"

definition FileStateStore_Load ::
  "codec \<Rightarrow> 'f files \<Rightarrow> string \<Rightarrow> 'f \<Rightarrow> (publish_error + PublisherState option) \<times> 'f" where
  "FileStateStore_Load cd fi path f =
     (if trim_space path = [] then (Inr None, f)
      else case fi_read fi path f of
          (Inl e, f') \<Rightarrow> (Inl (P_Read e), f')
        | (Inr None, f') \<Rightarrow> (Inr None, f')
        | (Inr (Some text), f') \<Rightarrow>
            (bind_sum (lift_error P_Decode (cd_dec_state cd text)) (\<lambda>s.
               bind_sum (checked_version s) (\<lambda>s'. Inr (Some s'))), f'))"

definition FileStateStore_Save ::
  "codec \<Rightarrow> 'f files \<Rightarrow> string \<Rightarrow> PublisherState \<Rightarrow> 'f \<Rightarrow> publish_error option \<times> 'f" where
  "FileStateStore_Save cd fi path s f =
     (if trim_space path = [] then (None, f)
      else case fi_mkdir fi (fi_dir fi path) f of
          (Some e, f1) \<Rightarrow> (Some (P_Write e), f1)
        | (None, f1) \<Rightarrow>
            (case cd_enc_state cd s of
               Inl e \<Rightarrow> (Some (P_Encode e), f1)
             | Inr text \<Rightarrow>
                 (case fi_write fi (path @ ''.tmp'') text f1 of
                    (Some e, f2) \<Rightarrow> (Some (P_Write e), f2)
                  | (None, f2) \<Rightarrow>
                      (case fi_rename fi (path @ ''.tmp'') path f2 of
                         (Some e, f3) \<Rightarrow> (Some (P_Write e), snd (fi_remove fi (path @ ''.tmp'') f3))
                       | (None, f3) \<Rightarrow> (None, f3)))))"

definition NewFileStateStore :: "codec \<Rightarrow> 'f files \<Rightarrow> string \<Rightarrow> 'f StateStore" where
  "NewFileStateStore cd fi path = \<lparr>st_Load = FileStateStore_Load cd fi path, st_Save = FileStateStore_Save cd fi path\<rparr>"

section \<open>The SQLite store keeps the contract\<close>

lemma insert_rows_enumerate:
  assumes "distinct (map key (map snd table @ rs))"
  shows "insert_rows key idx rs table = Inr (table @ enumerate idx rs)"
  using assms
proof (induction key idx rs table rule: insert_rows.induct)
  case (2 key idx r rs table)
  then have "\<not> list_ex (\<lambda>(_, r'). key r' = key r) table"
    by (force simp: list_ex_iff)
  with 2 show ?case by (simp add: enumerate_Suc_eq)
qed simp

lemma select_enumerate: "select_by_seq (enumerate n rs) = rs"
proof -
  have "sort_key fst (enumerate n rs) = enumerate n rs"
    by (rule sort_key_id_if_sorted) simp
  then show ?thesis by (simp add: select_by_seq_def)
qed

text \<open>A time that the codec brings back.\<close>

definition time_kept :: "codec \<Rightarrow> gotime \<Rightarrow> bool" where
  "time_kept cd t \<longleftrightarrow> trim_space (cd_format_time cd t) \<noteq> [] \<and>
     cd_parse_time cd (trim_space (cd_format_time cd t)) = Inr t"

definition sqlite_storable :: "codec \<Rightarrow> PublisherState \<Rightarrow> bool" where
  "sqlite_storable cd s \<longleftrightarrow> pls_Version s = currentStateVersion \<and>
     list_all (\<lambda>r. time_kept cd (pub_RequestedAt r) \<and> (is_zero_time (pub_ObservedAt r) \<or> time_kept cd (pub_ObservedAt r)))
       (pls_Publishes s)"

lemma of_to_row:
  assumes "time_kept cd (pub_RequestedAt r)" "is_zero_time (pub_ObservedAt r) \<or> time_kept cd (pub_ObservedAt r)"
  shows "of_row cd (to_row cd r) = Inr r"
  using assms
  by (auto simp: of_row_def to_row_def time_kept_def parseStoreTime_def parseOptionalStoreTime_def lift_error_def
    formatOptionalStoreTime_def is_zero_time_def trim_space_idem)

lemma all_rows_map: "list_all (\<lambda>x. f (g x) = Inr x) xs \<Longrightarrow> all_rows f (map g xs) = Inr xs"
  by (induction xs) simp_all

lemma insert_rows_distinct: "insert_rows key idx rs table = Inr t \<Longrightarrow> distinct (map key (map snd table)) \<Longrightarrow>
  distinct (map key (map snd table @ rs))"
proof (induction key idx rs table arbitrary: t rule: insert_rows.induct)
  case (2 key idx r rs table)
  then show ?case by (auto simp: list_ex_iff split: if_splits) (force simp: image_iff)+
qed simp

interpretation sqlite: state_store "NewSQLiteStateStore cd" "sqlite_storable cd" for cd
proof
  fix s and w w' :: "Database option"
  assume ok: "sqlite_storable cd s" and saved: "st_Save (NewSQLiteStateStore cd) s w = (None, w')"
  let ?rows = "map (to_row cd) (pls_Publishes s)"
  from saved obtain revisions publishes where ins:
      "insert_rows sr_RevisionID 0 (pls_Revisions s) [] = Inr revisions"
      "insert_rows (\<lambda>r. pub_PublishID (pr_record r)) 0 ?rows [] = Inr publishes"
    and w': "w' = Some \<lparr>db_state = Some (pls_Version s, pls_ActiveRevisionID s), db_revisions = revisions,
            db_publishes = publishes\<rparr>"
    by (auto simp: NewSQLiteStateStore_def SQLiteStateStore_Save_def Let_def split: sum.splits)
  from ins insert_rows_distinct [OF ins(1)] insert_rows_distinct [OF ins(2)]
  have rows: "revisions = enumerate 0 (pls_Revisions s)" "publishes = enumerate 0 ?rows"
    by (simp_all add: insert_rows_enumerate)
  have "all_rows (of_row cd) ?rows = Inr (pls_Publishes s)"
    using ok by (intro all_rows_map) (auto simp: sqlite_storable_def list_all_iff intro: of_to_row)
  with ok show "fst (st_Load (NewSQLiteStateStore cd) w') = Inr (Some s)"
    by (simp add: NewSQLiteStateStore_def SQLiteStateStore_Load_def w' rows select_enumerate sqlite_storable_def
      currentStateVersion_def)
qed

text \<open>The store of the control plane: SQLite, with the file of an older version as the fallback.\<close>

interpretation migrating:
  state_store "NewMigratingStateStore (Some (NewSQLiteStateStore cd)) fallback" "sqlite_storable cd" for cd fallback
  by (rule sqlite.migrating)

end
