(* ===== verification/Publisher.thy ===== *)
theory Publisher
  imports Publisher_Store
begin

text \<open>
  The publisher of the control plane: \<open>internal/control/publish/publisher.go\<close>. It keeps the ledger of
  revisions and publications, compiles a revision, sends its snapshot to the gateway and saves the
  ledger. An operation under the mutex is a function on the publisher's state; the gateway, the clock,
  the identifiers, the store and a custom compiler are the fields of \<open>control\<close>, each an action on the
  world.
\<close>

section \<open>State\<close>

record PublisherPolicy =
  pp_PublishHistoryLimit :: goint

record ApplySnapshotRequest =
  asr_SnapshotID :: string
  asr_RevisionID :: string
  asr_SnapshotBytes :: string
  asr_SchemaVersion :: goint
  asr_GeneratedAt :: gotime

record ApplySnapshotResponse =
  asp_Applied :: bool
  asp_Error :: string

record PublishResult =
  pres_Success :: bool
  pres_SnapshotID :: string
  pres_RevisionID :: string
  pres_PublishedAt :: gotime
  pres_ErrorMessage :: string

record RevisionInfo =
  ri_RevisionID :: string
  ri_CreatedAt :: gotime
  ri_CreatedBy :: string
  ri_Description :: string
  ri_IsActive :: bool

record 'w control =
  co_gateway :: "(ApplySnapshotRequest \<Rightarrow> 'w \<Rightarrow> (string + ApplySnapshotResponse) \<times> 'w) option"
  co_compiler :: bool
  co_revisionCompiler :: "(Revision \<Rightarrow> 'w \<Rightarrow> (Snapshot option \<times> string option) \<times> 'w) option"
  co_store :: "'w StateStore option"
  co_codec :: codec
  co_parseURL :: url_parser
  co_printURL :: url_printer
  co_now :: "'w \<Rightarrow> gotime \<times> 'w"
  co_newID :: "string \<Rightarrow> 'w \<Rightarrow> string \<times> 'w"

record 'w Publisher =
  pb_policy :: PublisherPolicy
  pb_revisions :: "Revision list"
  pb_activeIdx :: int
  pb_publishes :: "PublishRecord list"
  pb_world :: 'w

definition NormalizePublisherPolicy :: "PublisherPolicy \<Rightarrow> PublisherPolicy" where
  "NormalizePublisherPolicy policy =
     (if pp_PublishHistoryLimit policy \<le> 0
      then policy\<lparr>pp_PublishHistoryLimit := DefaultAdminPublishHistoryLimit\<rparr> else policy)"

definition PublisherPolicyFromConfig :: "Config option \<Rightarrow> PublisherPolicy" where
  "PublisherPolicyFromConfig cfg =
     (case cfg of
        None \<Rightarrow> NormalizePublisherPolicy \<lparr>pp_PublishHistoryLimit = 0\<rparr>
      | Some c \<Rightarrow> NormalizePublisherPolicy \<lparr>pp_PublishHistoryLimit = adm_PublishHistoryLimit (cfg_Admin c)\<rparr>)"

definition NewPublisher :: "'w \<Rightarrow> 'w Publisher" where
  "NewPublisher w = \<lparr>pb_policy = NormalizePublisherPolicy \<lparr>pp_PublishHistoryLimit = 0\<rparr>,
     pb_revisions = [], pb_activeIdx = -1, pb_publishes = [], pb_world = w\<rparr>"

definition on_pb_world :: "('w \<Rightarrow> 'a \<times> 'w) \<Rightarrow> 'w Publisher \<Rightarrow> 'a \<times> 'w Publisher" where
  "on_pb_world f p = (let (a, w) = f (pb_world p) in (a, p\<lparr>pb_world := w\<rparr>))"

section \<open>The ledger\<close>

definition trimPublishesLocked :: "'w Publisher \<Rightarrow> 'w Publisher" where
  "trimPublishesLocked p =
     (let limit = pp_PublishHistoryLimit (pb_policy p); n = length (pb_publishes p) in
      if limit \<le> 0 \<or> int n \<le> limit then p else p\<lparr>pb_publishes := drop (n - nat limit) (pb_publishes p)\<rparr>)"

definition active_revision :: "'w Publisher \<Rightarrow> Revision option" where
  "active_revision p =
     (if 0 \<le> pb_activeIdx p \<and> pb_activeIdx p < int (length (pb_revisions p))
      then Some (pb_revisions p ! nat (pb_activeIdx p)) else None)"

definition syncPolicyFromActiveRevisionLocked :: "'w Publisher \<Rightarrow> 'w Publisher" where
  "syncPolicyFromActiveRevisionLocked p =
     (case active_revision p of
        None \<Rightarrow> p
      | Some r \<Rightarrow>
          (case rv_Config r of
             None \<Rightarrow> p
           | Some c \<Rightarrow> trimPublishesLocked (p\<lparr>pb_policy := PublisherPolicyFromConfig (Some c)\<rparr>)))"

definition SetPolicy :: "PublisherPolicy \<Rightarrow> 'w Publisher \<Rightarrow> 'w Publisher" where
  "SetPolicy policy p = trimPublishesLocked (p\<lparr>pb_policy := NormalizePublisherPolicy policy\<rparr>)"

definition SetPublishRetention :: "goint \<Rightarrow> 'w Publisher \<Rightarrow> 'w Publisher" where
  "SetPublishRetention limit = SetPolicy \<lparr>pp_PublishHistoryLimit = limit\<rparr>"

definition revision_info :: "bool \<Rightarrow> Revision \<Rightarrow> RevisionInfo" where
  "revision_info active r = \<lparr>ri_RevisionID = rv_RevisionID r, ri_CreatedAt = rv_CreatedAt r,
     ri_CreatedBy = rv_CreatedBy r, ri_Description = rv_Description r, ri_IsActive = active\<rparr>"

definition currentRevisionInfoLocked :: "'w Publisher \<Rightarrow> RevisionInfo option" where
  "currentRevisionInfoLocked p = map_option (revision_info True) (active_revision p)"

definition GetHistory :: "goint \<Rightarrow> 'w Publisher \<Rightarrow> RevisionInfo list" where
  "GetHistory limit0 p =
     (let limit = (if limit0 \<le> 0 then 50 else limit0) in
      take (nat limit) (rev (map (\<lambda>(i, r). revision_info (int i = pb_activeIdx p) r) (enumerate 0 (pb_revisions p)))))"

text \<open>The index of a revision.\<close>

definition findRevisionLocked :: "string \<Rightarrow> 'w Publisher \<Rightarrow> nat option" where
  "findRevisionLocked revisionID p =
     map_option fst (find (\<lambda>(i, r). rv_RevisionID r = revisionID) (enumerate 0 (pb_revisions p)))"

fun all_at :: "(nat \<Rightarrow> 'a \<Rightarrow> publish_error + 'b) \<Rightarrow> nat \<Rightarrow> 'a list \<Rightarrow> publish_error + 'b list" where
  "all_at f i [] = Inr []"
| "all_at f i (x # xs) =
     (case f i x of
        Inl e \<Rightarrow> Inl (P_At i e)
      | Inr y \<Rightarrow> bind_sum (all_at f (Suc i) xs) (\<lambda>ys. Inr (y # ys)))"

definition ledger_state :: "codec \<Rightarrow> 'w Publisher \<Rightarrow> publish_error + PublisherState" where
  "ledger_state cd p =
     bind_sum (all_at (\<lambda>i. marshalStoredRevision cd) 0 (pb_revisions p)) (\<lambda>stored.
       Inr \<lparr>pls_Version = currentStateVersion,
         pls_ActiveRevisionID = (case active_revision p of None \<Rightarrow> [] | Some r \<Rightarrow> rv_RevisionID r),
         pls_Revisions = stored, pls_Publishes = pb_publishes p\<rparr>)"

definition persistStateLocked :: "'w control \<Rightarrow> 'w Publisher \<Rightarrow> publish_error option \<times> 'w Publisher" where
  "persistStateLocked co p =
     (case co_store co of
        None \<Rightarrow> (None, p)
      | Some st \<Rightarrow>
          (case ledger_state (co_codec co) p of
             Inl e \<Rightarrow> (Some e, p)
           | Inr s \<Rightarrow> on_pb_world (st_Save st s) p))"

text \<open>Each stored revision is read and checked in turn, so the first fault in the list is reported.\<close>

fun restored_revisions ::
  "codec \<Rightarrow> nat \<Rightarrow> string list \<Rightarrow> StoredRevision list \<Rightarrow> publish_error + Revision list" where
  "restored_revisions cd i seen [] = Inr []"
| "restored_revisions cd i seen (stored # ss) =
     (case unmarshalStoredRevision cd stored of
        Inl e \<Rightarrow> Inl (P_At i e)
      | Inr r \<Rightarrow>
          if rv_RevisionID r = [] then Inl (P_At i P_RevisionIDRequired)
          else if List.member seen (rv_RevisionID r) then Inl (P_At i (P_DuplicateRevision (rv_RevisionID r)))
          else bind_sum (restored_revisions cd (Suc i) (rv_RevisionID r # seen) ss) (\<lambda>rs. Inr (r # rs)))"

text \<open>The index of the active revision in a checked list.\<close>

definition index_of :: "string \<Rightarrow> Revision list \<Rightarrow> int" where
  "index_of revisionID rs =
     (case find (\<lambda>(i, r). rv_RevisionID r = revisionID) (enumerate 0 rs) of None \<Rightarrow> -1 | Some (i, r) \<Rightarrow> int i)"

definition restoreStateLocked :: "codec \<Rightarrow> PublisherState \<Rightarrow> 'w Publisher \<Rightarrow> publish_error option \<times> 'w Publisher" where
  "restoreStateLocked cd s p =
     (case restored_revisions cd 0 [] (pls_Revisions s) of
        Inl e \<Rightarrow> (Some e, p)
      | Inr rs \<Rightarrow>
          (let active = trim_space (pls_ActiveRevisionID s); idx = index_of active rs in
           if active \<noteq> [] \<and> idx = -1 then (Some (P_ActiveRevisionNotFound active), p)
           else
             let p1 = syncPolicyFromActiveRevisionLocked (p\<lparr>pb_revisions := rs, pb_activeIdx := idx\<rparr>)
             in (None, trimPublishesLocked (p1\<lparr>pb_publishes := pls_Publishes s\<rparr>))))"

text \<open>The result is whether a state was loaded.\<close>

definition LoadState :: "'w control \<Rightarrow> 'w Publisher \<Rightarrow> (publish_error + bool) \<times> 'w Publisher" where
  "LoadState co p =
     (case co_store co of
        None \<Rightarrow> (Inr False, p)
      | Some st \<Rightarrow>
          (case on_pb_world (st_Load st) p of
             (Inl e, p1) \<Rightarrow> (Inl e, p1)
           | (Inr None, p1) \<Rightarrow> (Inr False, p1)
           | (Inr (Some s), p1) \<Rightarrow>
               (case restoreStateLocked (co_codec co) s p1 of
                  (Some e, p2) \<Rightarrow> (Inl e, p2)
                | (None, p2) \<Rightarrow> (Inr True, p2))))"

section \<open>Copies\<close>

definition clone_payload ::
  "('a \<Rightarrow> string + string) \<Rightarrow> (string \<Rightarrow> string + 'a) \<Rightarrow> 'a option \<Rightarrow> publish_error + 'a option" where
  "clone_payload enc dec payload =
     (case payload of
        None \<Rightarrow> Inr None
      | Some a \<Rightarrow> bind_sum (lift_error P_Encode (enc a)) (\<lambda>text.
          bind_sum (lift_error P_Decode (dec text)) (\<lambda>b. Inr (Some b))))"

definition cloneConfig :: "codec \<Rightarrow> Config option \<Rightarrow> publish_error + Config option" where
  "cloneConfig cd = clone_payload (cd_enc_config cd) (cd_dec_config cd)"

definition cloneSnapshot :: "codec \<Rightarrow> Snapshot option \<Rightarrow> publish_error + Snapshot option" where
  "cloneSnapshot cd = clone_payload (cd_enc_snapshot cd) (cd_dec_snapshot cd)"

definition cloneRevision :: "codec \<Rightarrow> Revision \<Rightarrow> publish_error + Revision" where
  "cloneRevision cd r =
     bind_sum (cloneConfig cd (rv_Config r)) (\<lambda>config.
     bind_sum (cloneSnapshot cd (rv_Snapshot r)) (\<lambda>snap.
       Inr (r\<lparr>rv_Config := config, rv_Snapshot := snap\<rparr>)))"

section \<open>Changing the ledger\<close>

text \<open>Each revision is checked and copied in turn, so the first fault in the list is reported.\<close>

fun checked_revisions ::
  "codec \<Rightarrow> nat \<Rightarrow> string list \<Rightarrow> Revision list \<Rightarrow> publish_error + Revision list" where
  "checked_revisions cd i seen [] = Inr []"
| "checked_revisions cd i seen (r # rs) =
     (let revisionID = trim_space (rv_RevisionID r) in
      if revisionID = [] then Inl (P_At i P_RevisionIDRequired)
      else if List.member seen revisionID then Inl (P_At i (P_DuplicateRevision revisionID))
      else case cloneRevision cd (r\<lparr>rv_RevisionID := revisionID\<rparr>) of
          Inl e \<Rightarrow> Inl (P_At i e)
        | Inr c \<Rightarrow> bind_sum (checked_revisions cd (Suc i) (revisionID # seen) rs) (\<lambda>cs. Inr (c # cs)))"

definition ReplaceRevisions ::
  "'w control \<Rightarrow> Revision list \<Rightarrow> string \<Rightarrow> 'w Publisher \<Rightarrow> publish_error option \<times> 'w Publisher" where
  "ReplaceRevisions co rs activeID0 p =
     (let activeID = (case active_revision p of
          Some r \<Rightarrow> if trim_space activeID0 = [] then rv_RevisionID r else activeID0
        | None \<Rightarrow> activeID0)
      in case checked_revisions (co_codec co) 0 [] rs of
          Inl e \<Rightarrow> (Some e, p)
        | Inr cloned \<Rightarrow>
            (let idx = index_of activeID cloned in
             if trim_space activeID \<noteq> [] \<and> idx = -1 then (Some (P_ActiveRevisionNotFound activeID), p)
             else persistStateLocked co
               (syncPolicyFromActiveRevisionLocked (p\<lparr>pb_revisions := cloned, pb_activeIdx := idx\<rparr>))))"

definition UpsertRevision ::
  "'w control \<Rightarrow> Revision \<Rightarrow> bool \<Rightarrow> 'w Publisher \<Rightarrow> publish_error option \<times> 'w Publisher" where
  "UpsertRevision co r activate p =
     (let revisionID = trim_space (rv_RevisionID r) in
      if revisionID = [] then (Some P_RevisionIDRequired, p)
      else case cloneRevision (co_codec co) (r\<lparr>rv_RevisionID := revisionID\<rparr>) of
          Inl e \<Rightarrow> (Some e, p)
        | Inr cloned \<Rightarrow>
            (let (rs, idx) = (case findRevisionLocked revisionID p of
                Some i \<Rightarrow> ((pb_revisions p)[i := cloned], i)
              | None \<Rightarrow> (pb_revisions p @ [cloned], length (pb_revisions p)))
             in persistStateLocked co (syncPolicyFromActiveRevisionLocked
               (p\<lparr>pb_revisions := rs, pb_activeIdx := (if activate then int idx else pb_activeIdx p)\<rparr>))))"

section \<open>Compiling a revision\<close>

definition generateSnapshotID :: "'w control \<Rightarrow> 'w Publisher \<Rightarrow> string \<times> 'w Publisher" where
  "generateSnapshotID co = on_pb_world (co_newID co ''snap_'')"

definition generatePublishID :: "'w control \<Rightarrow> 'w Publisher \<Rightarrow> string \<times> 'w Publisher" where
  "generatePublishID co = on_pb_world (co_newID co ''pub_'')"

definition publisher_now :: "'w control \<Rightarrow> 'w Publisher \<Rightarrow> gotime \<times> 'w Publisher" where
  "publisher_now co = on_pb_world (co_now co)"

definition normalizeSnapshotUpstreamURL :: "url_parser \<Rightarrow> url_printer \<Rightarrow> string \<Rightarrow> string" where
  "normalizeSnapshotUpstreamURL parse print rawURL =
     (let raw = trim_space rawURL in
      if raw = [] then []
      else case parse raw of
          None \<Rightarrow> trim_right_char (CHR ''/'') raw
        | Some u \<Rightarrow>
            if url_Scheme u = [] \<or> url_Host u = [] then trim_right_char (CHR ''/'') raw
            else print (u\<lparr>url_Scheme := to_lower (url_Scheme u), url_Host := to_lower (url_Host u),
              url_Path := trim_right_char (CHR ''/'') (url_Path u), url_RawQuery := [], url_Fragment := []\<rparr>))"

definition logicalSnapshotUpstreamID :: "url_parser \<Rightarrow> url_printer \<Rightarrow> string \<Rightarrow> string \<Rightarrow> string \<Rightarrow> string" where
  "logicalSnapshotUpstreamID parse print providerID baseURL anthropicBaseURL =
     (let anthropic = trim_space anthropicBaseURL;
          effectiveURL = (if anthropic = [] then trim_space baseURL else anthropic);
          normalized = normalizeSnapshotUpstreamURL parse print effectiveURL
      in if normalized \<noteq> [] then normalized else trim_space providerID)"

definition snapshotNeedsDerivedFieldRefresh :: "Snapshot \<Rightarrow> bool" where
  "snapshotNeedsDerivedFieldRefresh snap = list_ex (\<lambda>p. trim_space (ps_UpstreamID p) = []) (snap_Providers snap)"

definition backfillSnapshotDerivedFields :: "url_parser \<Rightarrow> url_printer \<Rightarrow> Snapshot \<Rightarrow> Snapshot" where
  "backfillSnapshotDerivedFields parse print snap = snap\<lparr>snap_Providers := map (\<lambda>p.
     if trim_space (ps_UpstreamID p) = []
     then p\<lparr>ps_UpstreamID :=
       logicalSnapshotUpstreamID parse print (ps_ProviderID p) (ps_BaseURL p) (ps_AnthropicBaseURL p)\<rparr>
     else p) (snap_Providers snap)\<rparr>"

definition canCompileRevisionLocked :: "'w control \<Rightarrow> Revision \<Rightarrow> bool" where
  "canCompileRevisionLocked co r \<longleftrightarrow>
     co_revisionCompiler co \<noteq> None \<or> (co_compiler co \<and> rv_Config r \<noteq> None)"

definition set_snapshot :: "nat \<Rightarrow> Snapshot option \<Rightarrow> 'w Publisher \<Rightarrow> 'w Publisher" where
  "set_snapshot i snap p = p\<lparr>pb_revisions := (pb_revisions p)[i := (pb_revisions p ! i)\<lparr>rv_Snapshot := snap\<rparr>]\<rparr>"

definition backfillStoredSnapshotLocked ::
  "'w control \<Rightarrow> nat \<Rightarrow> Snapshot \<Rightarrow> 'w Publisher \<Rightarrow> (publish_error + Snapshot) \<times> 'w Publisher" where
  "backfillStoredSnapshotLocked co i stored p =
     (case cloneSnapshot (co_codec co) (Some stored) of
        Inr (Some copy) \<Rightarrow>
          (let snap = backfillSnapshotDerivedFields (co_parseURL co) (co_printURL co) copy
           in (Inr snap, set_snapshot i (Some snap) p))
      | Inr None \<Rightarrow> (Inl P_NilSnapshot, p)
      | Inl e \<Rightarrow> (Inl e, p))"

definition compile_config ::
  "'w control \<Rightarrow> Config \<Rightarrow> 'w Publisher \<Rightarrow> (publish_error + Snapshot) \<times> 'w Publisher" where
  "compile_config co c p =
     (let (now, p1) = publisher_now co p; (snapshotID, p2) = generateSnapshotID co p1
      in (lift_error P_Compile (CompileFromConfig (co_parseURL co) (co_printURL co) now snapshotID (Some c)), p2))"

text \<open>
  A custom compiler returns a snapshot and an error. The source assigns the error to a variable
  that shadows the one it tests afterwards, so only the snapshot counts.
\<close>

definition compile_revision ::
  "'w control \<Rightarrow> Revision \<Rightarrow> 'w Publisher \<Rightarrow> (publish_error + Snapshot) \<times> 'w Publisher" where
  "compile_revision co r p =
     (case co_revisionCompiler co of
        Some compiler \<Rightarrow>
          (case cloneRevision (co_codec co) r of
             Inl e \<Rightarrow> (Inl e, p)
           | Inr copy \<Rightarrow>
               (case on_pb_world (compiler copy) p of
                  ((Some snap, err), p1) \<Rightarrow> (Inr snap, p1)
                | ((None, err), p1) \<Rightarrow> (Inl P_NilSnapshot, p1)))
      | None \<Rightarrow>
          if \<not> co_compiler co then (Inl P_CompilerNotConfigured, p)
          else case rv_Config r of
              None \<Rightarrow> (Inl (P_NoConfig (rv_RevisionID r)), p)
            | Some c \<Rightarrow> compile_config co c p)"

text \<open>The compiled snapshot is stored in the revision; when its copy fails, the revision loses its snapshot.\<close>

definition compile_and_store ::
  "'w control \<Rightarrow> nat \<Rightarrow> 'w Publisher \<Rightarrow> (publish_error + Snapshot) \<times> 'w Publisher" where
  "compile_and_store co i p =
     (case compile_revision co (pb_revisions p ! i) p of
        (Inl e, p1) \<Rightarrow> (Inl e, p1)
      | (Inr snap, p1) \<Rightarrow>
          (case cloneSnapshot (co_codec co) (Some snap) of
             Inr (Some copy) \<Rightarrow> (Inr copy, set_snapshot i (Some copy) p1)
           | Inr None \<Rightarrow> (Inl P_NilSnapshot, set_snapshot i None p1)
           | Inl e \<Rightarrow> (Inl e, set_snapshot i None p1)))"

definition compileSnapshotLocked ::
  "'w control \<Rightarrow> nat \<Rightarrow> 'w Publisher \<Rightarrow> (publish_error + Snapshot) \<times> 'w Publisher" where
  "compileSnapshotLocked co i p =
     (case rv_Snapshot (pb_revisions p ! i) of
        None \<Rightarrow> compile_and_store co i p
      | Some stored \<Rightarrow>
          if \<not> snapshotNeedsDerivedFieldRefresh stored then (Inr stored, p)
          else if \<not> canCompileRevisionLocked co (pb_revisions p ! i) then backfillStoredSnapshotLocked co i stored p
          else compile_and_store co i p)"

section \<open>Publishing\<close>

definition serializeSnapshot :: "codec \<Rightarrow> Snapshot \<Rightarrow> publish_error + string" where
  "serializeSnapshot cd snap = lift_error P_Encode (cd_enc_snapshot cd snap)"

definition stamped :: "string \<Rightarrow> string \<Rightarrow> gotime \<Rightarrow> Snapshot \<Rightarrow> Snapshot" where
  "stamped snapshotID revisionID requestedAt snap =
     (let m = snap_Meta snap in snap\<lparr>snap_Meta := m\<lparr>
        meta_SnapshotID := snapshotID, meta_RevisionID := revisionID,
        meta_SchemaVersion := (if meta_SchemaVersion m = 0 then CurrentSchemaVersion else meta_SchemaVersion m),
        meta_GeneratedAt := (if is_zero_time (meta_GeneratedAt m) then requestedAt else meta_GeneratedAt m)\<rparr>\<rparr>)"

definition apply_request ::
  "codec \<Rightarrow> string \<Rightarrow> string \<Rightarrow> gotime \<Rightarrow> Snapshot \<Rightarrow> publish_error + ApplySnapshotRequest" where
  "apply_request cd snapshotID revisionID requestedAt compiled =
     bind_sum (cloneSnapshot cd (Some compiled)) (\<lambda>copy.
       case copy of
         None \<Rightarrow> Inl P_NilSnapshot
       | Some c \<Rightarrow>
           (let snap = stamped snapshotID revisionID requestedAt c in
            bind_sum (serializeSnapshot cd snap) (\<lambda>bytes.
              Inr \<lparr>asr_SnapshotID = meta_SnapshotID (snap_Meta snap), asr_RevisionID = revisionID,
                asr_SnapshotBytes = bytes, asr_SchemaVersion = meta_SchemaVersion (snap_Meta snap),
                asr_GeneratedAt = meta_GeneratedAt (snap_Meta snap)\<rparr>)))"

text \<open>An error of the store while publishing is logged only.\<close>

definition persist_quietly :: "'w control \<Rightarrow> 'w Publisher \<Rightarrow> 'w Publisher" where
  "persist_quietly co p = snd (persistStateLocked co p)"

definition stage_publish :: "'w control \<Rightarrow> PublishRecord \<Rightarrow> 'w Publisher \<Rightarrow> 'w Publisher" where
  "stage_publish co r p = persist_quietly co (trimPublishesLocked (p\<lparr>pb_publishes := pb_publishes p @ [r]\<rparr>))"

text \<open>The record that was staged is the last one.\<close>

definition mark_last :: "(PublishRecord \<Rightarrow> PublishRecord) \<Rightarrow> 'w Publisher \<Rightarrow> 'w Publisher" where
  "mark_last f p = p\<lparr>pb_publishes := butlast (pb_publishes p) @ [f (last (pb_publishes p))]\<rparr>"

definition fail_publish :: "'w control \<Rightarrow> string \<Rightarrow> 'w Publisher \<Rightarrow> 'w Publisher" where
  "fail_publish co err p = persist_quietly co (mark_last (\<lambda>r. r\<lparr>pub_Status := ''failed'', pub_Error := err\<rparr>) p)"

definition failed_result :: "string \<Rightarrow> string \<Rightarrow> PublishResult" where
  "failed_result revisionID err = \<lparr>pres_Success = False, pres_SnapshotID = [], pres_RevisionID = revisionID,
     pres_PublishedAt = 0, pres_ErrorMessage = err\<rparr>"

definition activate :: "'w control \<Rightarrow> nat \<Rightarrow> gotime \<Rightarrow> 'w Publisher \<Rightarrow> 'w Publisher" where
  "activate co i observedAt p =
     persist_quietly co (syncPolicyFromActiveRevisionLocked
       ((mark_last (\<lambda>r. r\<lparr>pub_Status := ''observed'', pub_ObservedAt := observedAt\<rparr>) p)\<lparr>pb_activeIdx := int i\<rparr>))"

definition send_publish ::
  "'w control \<Rightarrow> nat \<Rightarrow> gotime \<Rightarrow> ApplySnapshotRequest \<Rightarrow> 'w Publisher \<Rightarrow>
     (publish_error + PublishResult) \<times> 'w Publisher" where
  "send_publish co i requestedAt req p =
     (case co_gateway co of
        None \<Rightarrow> (Inl P_GatewayNotConfigured, fail_publish co ''gateway not configured'' p)
      | Some gateway \<Rightarrow>
          (case on_pb_world (gateway req) p of
             (Inl err, p1) \<Rightarrow> (Inr (failed_result (asr_RevisionID req) err), fail_publish co err p1)
           | (Inr resp, p1) \<Rightarrow>
               if \<not> asp_Applied resp
               then (Inr (failed_result (asr_RevisionID req) (asp_Error resp)), fail_publish co (asp_Error resp) p1)
               else
                 let (observedAt, p2) = publisher_now co p1
                 in (Inr \<lparr>pres_Success = True, pres_SnapshotID = asr_SnapshotID req,
                     pres_RevisionID = asr_RevisionID req, pres_PublishedAt = requestedAt, pres_ErrorMessage = []\<rparr>,
                   activate co i observedAt p2)))"

definition publishRevisionLocked ::
  "'w control \<Rightarrow> nat \<Rightarrow> string \<Rightarrow> 'w Publisher \<Rightarrow> (publish_error + PublishResult) \<times> 'w Publisher" where
  "publishRevisionLocked co i kind p =
     (case compileSnapshotLocked co i p of
        (Inl e, p1) \<Rightarrow> (Inl e, p1)
      | (Inr compiled, p1) \<Rightarrow>
          (let revisionID = rv_RevisionID (pb_revisions p1 ! i);
               (snapshotID, p2) = generateSnapshotID co p1;
               (requestedAt, p3) = publisher_now co p2
           in case apply_request (co_codec co) snapshotID revisionID requestedAt compiled of
               Inl e \<Rightarrow> (Inl e, p3)
             | Inr req \<Rightarrow>
                 (let (publishID, p4) = generatePublishID co p3
                  in send_publish co i requestedAt req (stage_publish co \<lparr>pub_PublishID = publishID,
                    pub_RevisionID = revisionID, pub_SnapshotID = snapshotID, pub_RequestedAt = requestedAt,
                    pub_RequestedBy = [], pub_Kind = kind, pub_Status = ''staged'', pub_Error = [],
                    pub_ObservedAt = 0\<rparr> p4))))"

definition Publish ::
  "'w control \<Rightarrow> string \<Rightarrow> 'w Publisher \<Rightarrow> (publish_error + PublishResult) \<times> 'w Publisher" where
  "Publish co revisionID p =
     (case findRevisionLocked revisionID p of
        None \<Rightarrow> (Inl (P_RevisionNotFound revisionID), p)
      | Some i \<Rightarrow> publishRevisionLocked co i ''publish'' p)"

definition Rollback ::
  "'w control \<Rightarrow> string \<Rightarrow> 'w Publisher \<Rightarrow> (publish_error + PublishResult) \<times> 'w Publisher" where
  "Rollback co revisionID p =
     (case findRevisionLocked revisionID p of
        None \<Rightarrow> (Inl (P_RevisionNotFound revisionID), p)
      | Some i \<Rightarrow> publishRevisionLocked co i ''rollback'' p)"

section \<open>A new configuration\<close>

text \<open>
  The configuration that a caller passes: a value, a pointer, a map with its YAML text (or the error of
  the encoder), or a value of another type with the name of the type.
\<close>

datatype config_input =
  CI_Config Config | CI_Pointer "Config option" | CI_Map "string + string" | CI_Other string

definition asCoreConfig :: "codec \<Rightarrow> config_input \<Rightarrow> publish_error + Config" where
  "asCoreConfig cd input =
     (case input of
        CI_Config c \<Rightarrow> Inr c
      | CI_Pointer None \<Rightarrow> Inl P_ConfigNil
      | CI_Pointer (Some c) \<Rightarrow> Inr c
      | CI_Map text \<Rightarrow> bind_sum (lift_error P_Encode text) (\<lambda>t. lift_error P_Decode (cd_dec_config cd t))
      | CI_Other type_name \<Rightarrow> Inl (P_UnsupportedConfig type_name))"

definition compile_checked ::
  "'w control \<Rightarrow> Config \<Rightarrow> 'w Publisher \<Rightarrow> (publish_error + Snapshot) \<times> 'w Publisher" where
  "compile_checked co c p =
     (case compile_config co c p of
        (Inl e, p1) \<Rightarrow> (Inl e, p1)
      | (Inr snap, p1) \<Rightarrow>
          (case Compiler_Validate snap of
             Some e \<Rightarrow> (Inl (P_SnapshotInvalid e), p1)
           | None \<Rightarrow> (Inr snap, p1)))"

record ConfigValidationResult =
  cvr_Valid :: bool
  cvr_Errors :: "publish_error list"
  cvr_Warnings :: "string list"

definition ValidateConfig ::
  "'w control \<Rightarrow> config_input \<Rightarrow> 'w Publisher \<Rightarrow> (publish_error + ConfigValidationResult) \<times> 'w Publisher" where
  "ValidateConfig co input p =
     (let invalid = (\<lambda>e. Inr \<lparr>cvr_Valid = False, cvr_Errors = [e], cvr_Warnings = []\<rparr>) in
      if \<not> co_compiler co then (Inl P_CompilerNotConfigured, p)
      else case asCoreConfig (co_codec co) input of
          Inl e \<Rightarrow> (invalid e, p)
        | Inr c \<Rightarrow>
            (case compile_checked co c p of
               (Inl e, p1) \<Rightarrow> (invalid e, p1)
             | (Inr snap, p1) \<Rightarrow> (Inr \<lparr>cvr_Valid = True, cvr_Errors = [], cvr_Warnings = []\<rparr>, p1)))"

text \<open>The new revision, before it is added.\<close>

definition new_revision ::
  "'w control \<Rightarrow> config_input \<Rightarrow> string \<Rightarrow> 'w Publisher \<Rightarrow> (publish_error + Revision) \<times> 'w Publisher" where
  "new_revision co input description p =
     (if \<not> co_compiler co then (Inl P_CompilerNotConfigured, p)
      else case asCoreConfig (co_codec co) input of
          Inl e \<Rightarrow> (Inl e, p)
        | Inr c \<Rightarrow>
            (case compile_checked co c p of
               (Inl e, p1) \<Rightarrow> (Inl e, p1)
             | (Inr snap, p1) \<Rightarrow>
                 (let (revisionID, p2) = on_pb_world (co_newID co ''rev_'') p1; (now, p3) = publisher_now co p2
                  in (Inr \<lparr>rv_RevisionID = revisionID, rv_CreatedAt = now, rv_CreatedBy = ''admin-ui'',
                       rv_Description = description, rv_Config = Some c, rv_Snapshot = Some snap\<rparr>, p3))))"

text \<open>When it cannot be published, the new revision is removed again.\<close>

definition UpdateConfig ::
  "'w control \<Rightarrow> config_input \<Rightarrow> string \<Rightarrow> 'w Publisher \<Rightarrow> (publish_error + PublishResult) \<times> 'w Publisher" where
  "UpdateConfig co input description p =
     (case new_revision co input description p of
        (Inl e, p1) \<Rightarrow> (Inl e, p1)
      | (Inr r, p1) \<Rightarrow>
          (let newIdx = length (pb_revisions p1) in
           case publishRevisionLocked co newIdx ''publish'' (p1\<lparr>pb_revisions := pb_revisions p1 @ [r]\<rparr>) of
             (Inl e, p2) \<Rightarrow> (Inl e, p2\<lparr>pb_revisions := take newIdx (pb_revisions p2)\<rparr>)
           | (Inr result, p2) \<Rightarrow> (Inr result, persist_quietly co p2)))"

section \<open>Reading\<close>

record CurrentConfigView =
  ccv_Revision :: "RevisionInfo option"
  ccv_Policy :: PublisherPolicy
  ccv_Config :: "Config option"
  ccv_RawYAML :: string

definition GetCurrentConfig :: "codec \<Rightarrow> 'w Publisher \<Rightarrow> publish_error + Config option" where
  "GetCurrentConfig cd p =
     (case active_revision p of None \<Rightarrow> Inr None | Some r \<Rightarrow> cloneConfig cd (rv_Config r))"

definition GetCurrentRevision :: "'w Publisher \<Rightarrow> RevisionInfo option" where
  "GetCurrentRevision p = currentRevisionInfoLocked p"

definition LoadRevisionConfig :: "codec \<Rightarrow> string \<Rightarrow> 'w Publisher \<Rightarrow> publish_error + Config option" where
  "LoadRevisionConfig cd revisionID p =
     (case findRevisionLocked revisionID p of
        None \<Rightarrow> Inr None
      | Some i \<Rightarrow>
          (case rv_Config (pb_revisions p ! i) of
             None \<Rightarrow> Inl (P_NoConfig revisionID)
           | Some c \<Rightarrow> cloneConfig cd (Some c)))"

definition GetCurrentConfigView :: "codec \<Rightarrow> 'w Publisher \<Rightarrow> CurrentConfigView" where
  "GetCurrentConfigView cd p =
     (let config = (case active_revision p of None \<Rightarrow> None | Some r \<Rightarrow> rv_Config r) in
      \<lparr>ccv_Revision = currentRevisionInfoLocked p, ccv_Policy = pb_policy p, ccv_Config = config,
        ccv_RawYAML = (case config of
            None \<Rightarrow> []
          | Some c \<Rightarrow> (case cd_enc_config cd c of Inl e \<Rightarrow> [] | Inr text \<Rightarrow> text))\<rparr>)"

end
