(* ===== verification/Publisher_Ledger.thy ===== *)
theory Publisher_Ledger
  imports Publisher
begin

text \<open>
  What holds of the publisher: the invariant of its ledger, what a publication does to it, and that
  the ledger survives a restart of the control plane.
\<close>

section \<open>What an operation leaves alone\<close>

named_theorems ledger

lemma on_pb_world_E:
  assumes "on_pb_world f p = (a, p')"
  obtains w where "f (pb_world p) = (a, w)" "p' = p\<lparr>pb_world := w\<rparr>"
  using assms by (auto simp: on_pb_world_def Let_def split: prod.splits)

lemma persist_E:
  assumes "persistStateLocked co p = (e, p')"
  obtains w where "p' = p\<lparr>pb_world := w\<rparr>"
proof (cases "co_store co")
  case None
  with assms have "p' = p\<lparr>pb_world := pb_world p\<rparr>" by (simp add: persistStateLocked_def)
  then show ?thesis by (rule that)
next
  case (Some st)
  show ?thesis
  proof (cases "ledger_state (co_codec co) p")
    case (Inl e)
    with Some assms have "p' = p\<lparr>pb_world := pb_world p\<rparr>" by (simp add: persistStateLocked_def)
    then show ?thesis by (rule that)
  next
    case (Inr s)
    with Some assms have "on_pb_world (st_Save st s) p = (e, p')" by (simp add: persistStateLocked_def)
    then show ?thesis by (elim on_pb_world_E) (rule that)
  qed
qed

lemma persist_quietly_E: obtains w where "persist_quietly co p = p\<lparr>pb_world := w\<rparr>"
  using persist_E [of co p "fst (persistStateLocked co p)" "persist_quietly co p"]
  by (auto simp: persist_quietly_def)

lemma persist_fields [ledger]:
  "pb_policy (persist_quietly co p) = pb_policy p"
  "pb_revisions (persist_quietly co p) = pb_revisions p"
  "pb_activeIdx (persist_quietly co p) = pb_activeIdx p"
  "pb_publishes (persist_quietly co p) = pb_publishes p"
  by (rule persist_quietly_E [of co p]; simp)+

lemma trim_fields [ledger]:
  "pb_policy (trimPublishesLocked p) = pb_policy p"
  "pb_revisions (trimPublishesLocked p) = pb_revisions p"
  "pb_activeIdx (trimPublishesLocked p) = pb_activeIdx p"
  by (simp_all add: trimPublishesLocked_def Let_def)

lemma trim_length: "0 < pp_PublishHistoryLimit (pb_policy p) \<Longrightarrow>
  int (length (pb_publishes (trimPublishesLocked p))) \<le> pp_PublishHistoryLimit (pb_policy p)"
  by (auto simp: trimPublishesLocked_def Let_def)

lemma policy_limit_pos: "0 < pp_PublishHistoryLimit (NormalizePublisherPolicy policy)"
  by (simp add: NormalizePublisherPolicy_def DefaultAdminPublishHistoryLimit_def)

lemma config_limit_pos: "0 < pp_PublishHistoryLimit (PublisherPolicyFromConfig c)"
  by (cases c) (simp_all add: PublisherPolicyFromConfig_def policy_limit_pos)

lemma sync_fields [ledger]:
  "pb_revisions (syncPolicyFromActiveRevisionLocked p) = pb_revisions p"
  "pb_activeIdx (syncPolicyFromActiveRevisionLocked p) = pb_activeIdx p"
  by (simp_all add: syncPolicyFromActiveRevisionLocked_def ledger split: option.splits)

lemma sync_cases:
  obtains (kept) "syncPolicyFromActiveRevisionLocked p = p"
  | (synced) r c where "active_revision p = Some r" "rv_Config r = Some c"
      "syncPolicyFromActiveRevisionLocked p = trimPublishesLocked (p\<lparr>pb_policy := PublisherPolicyFromConfig (Some c)\<rparr>)"
proof (cases "\<exists>r c. active_revision p = Some r \<and> rv_Config r = Some c")
  case True
  then obtain r c where "active_revision p = Some r" "rv_Config r = Some c" by blast
  then show ?thesis by (intro synced) (simp_all add: syncPolicyFromActiveRevisionLocked_def)
next
  case False
  then show ?thesis by (intro kept) (auto simp: syncPolicyFromActiveRevisionLocked_def split: option.splits)
qed

section \<open>The invariant\<close>

definition publisher_ok :: "'w Publisher \<Rightarrow> bool" where
  "publisher_ok p \<longleftrightarrow> distinct (map rv_RevisionID (pb_revisions p)) \<and>
     -1 \<le> pb_activeIdx p \<and> pb_activeIdx p < int (length (pb_revisions p)) \<and>
     0 < pp_PublishHistoryLimit (pb_policy p) \<and>
     int (length (pb_publishes p)) \<le> pp_PublishHistoryLimit (pb_policy p)"

definition ledger_bounded :: "'w Publisher \<Rightarrow> bool" where
  "ledger_bounded p \<longleftrightarrow> 0 < pp_PublishHistoryLimit (pb_policy p) \<and>
     int (length (pb_publishes p)) \<le> pp_PublishHistoryLimit (pb_policy p)"

lemma publisher_ok_iff:
  "publisher_ok p \<longleftrightarrow> distinct (map rv_RevisionID (pb_revisions p)) \<and>
     -1 \<le> pb_activeIdx p \<and> pb_activeIdx p < int (length (pb_revisions p)) \<and> ledger_bounded p"
  by (simp add: publisher_ok_def ledger_bounded_def)

lemma bounded_trim: "0 < pp_PublishHistoryLimit (pb_policy p) \<Longrightarrow> ledger_bounded (trimPublishesLocked p)"
  by (simp add: ledger_bounded_def ledger trim_length)

lemma bounded_persist [simp]: "ledger_bounded (persist_quietly co p) = ledger_bounded p"
  by (simp add: ledger_bounded_def ledger)

lemma bounded_sync: "ledger_bounded p \<Longrightarrow> ledger_bounded (syncPolicyFromActiveRevisionLocked p)"
proof (cases rule: sync_cases [of p])
  case (synced r c)
  then show ?thesis by (simp add: bounded_trim config_limit_pos)
qed simp

lemma limit_pos_sync: "0 < pp_PublishHistoryLimit (pb_policy p) \<Longrightarrow>
  0 < pp_PublishHistoryLimit (pb_policy (syncPolicyFromActiveRevisionLocked p))"
  by (cases rule: sync_cases [of p]) (simp_all add: ledger config_limit_pos)

lemma NewPublisher_ok: "publisher_ok (NewPublisher w)"
  by (simp add: publisher_ok_def NewPublisher_def policy_limit_pos less_imp_le)

lemma SetPolicy_ok: "publisher_ok p \<Longrightarrow> publisher_ok (SetPolicy policy p)"
  by (simp add: publisher_ok_iff SetPolicy_def ledger bounded_trim policy_limit_pos)

text \<open>Lists of revisions that were checked have distinct identifiers.\<close>

lemma cloneRevision_id: "cloneRevision cd r = Inr c \<Longrightarrow> rv_RevisionID c = rv_RevisionID r"
  by (auto simp: cloneRevision_def split: sum.splits)

lemma checked_revisions_ids: "checked_revisions cd i seen rs = Inr cs \<Longrightarrow>
  distinct (map rv_RevisionID cs) \<and> set (map rv_RevisionID cs) \<inter> set seen = {}"
proof (induction cd i seen rs arbitrary: cs rule: checked_revisions.induct)
  case (2 cd i seen r rs)
  from 2(2) obtain c cs' where c: "cloneRevision cd (r\<lparr>rv_RevisionID := trim_space (rv_RevisionID r)\<rparr>) = Inr c"
    and rest: "checked_revisions cd (Suc i) (trim_space (rv_RevisionID r) # seen) rs = Inr cs'" "cs = c # cs'"
    and new: "trim_space (rv_RevisionID r) \<noteq> []" "\<not> List.member seen (trim_space (rv_RevisionID r))"
    by (auto simp: Let_def split: if_splits sum.splits)
  have "distinct (map rv_RevisionID cs') \<and> set (map rv_RevisionID cs') \<inter> set (trim_space (rv_RevisionID r) # seen) = {}"
    by (rule 2(1) [OF refl new c rest(1)])
  with new(2) show ?case by (auto simp: rest(2) cloneRevision_id [OF c])
qed simp

lemma restored_revisions_ids: "restored_revisions cd i seen ss = Inr rs \<Longrightarrow>
  distinct (map rv_RevisionID rs) \<and> set (map rv_RevisionID rs) \<inter> set seen = {}"
proof (induction cd i seen ss arbitrary: rs rule: restored_revisions.induct)
  case (2 cd i seen s ss)
  from 2(2) obtain r rs' where r: "unmarshalStoredRevision cd s = Inr r"
    and rest: "restored_revisions cd (Suc i) (rv_RevisionID r # seen) ss = Inr rs'" "rs = r # rs'"
    and new: "rv_RevisionID r \<noteq> []" "\<not> List.member seen (rv_RevisionID r)"
    by (auto split: if_splits sum.splits)
  from 2(1) [OF r new rest(1)] new(2) show ?case by (auto simp: rest(2))
qed simp

lemma find_enumerate: "find P (enumerate n xs) = Some (i, x) \<Longrightarrow> n \<le> i \<and> i < n + length xs \<and> xs ! (i - n) = x \<and> P (i, x)"
  by (auto simp: find_Some_iff in_set_enumerate_eq nth_enumerate_eq)

lemma index_of_range: "-1 \<le> index_of k rs \<and> index_of k rs < int (length rs)"
proof (cases "find (\<lambda>(i, r). rv_RevisionID r = k) (enumerate 0 rs)")
  case (Some ix)
  then obtain i x where ix: "find (\<lambda>(i, r). rv_RevisionID r = k) (enumerate 0 rs) = Some (i, x)"
    by (cases ix) auto
  from find_enumerate [OF ix] ix show ?thesis by (simp add: index_of_def)
qed (simp add: index_of_def)

lemma findRevision_Some:
  assumes "findRevisionLocked k p = Some i"
  shows "i < length (pb_revisions p)" "rv_RevisionID (pb_revisions p ! i) = k"
proof -
  from assms obtain x where ix: "find (\<lambda>(i, r). rv_RevisionID r = k) (enumerate 0 (pb_revisions p)) = Some (i, x)"
    by (auto simp: findRevisionLocked_def)
  from find_enumerate [OF ix] show "i < length (pb_revisions p)" "rv_RevisionID (pb_revisions p ! i) = k" by auto
qed

lemma findRevision_None: "findRevisionLocked k p = None \<Longrightarrow> k \<notin> rv_RevisionID ` set (pb_revisions p)"
proof
  assume none: "findRevisionLocked k p = None" and "k \<in> rv_RevisionID ` set (pb_revisions p)"
  then obtain i where "i < length (pb_revisions p)" "rv_RevisionID (pb_revisions p ! i) = k"
    by (auto simp: in_set_conv_nth)
  then have "(i, pb_revisions p ! i) \<in> set (enumerate 0 (pb_revisions p))" by (simp add: in_set_enumerate_eq)
  with none \<open>rv_RevisionID (pb_revisions p ! i) = k\<close> show False
    by (auto simp: findRevisionLocked_def find_None_iff)
qed

lemma persist_ok: "publisher_ok p \<Longrightarrow> publisher_ok (snd (persistStateLocked co p))"
  by (rule persist_E [of co p "fst (persistStateLocked co p)" "snd (persistStateLocked co p)"])
    (simp_all add: publisher_ok_def)

lemma sync_ok:
  assumes "publisher_ok p" "distinct (map rv_RevisionID rs)" "-1 \<le> idx" "idx < int (length rs)"
  shows "publisher_ok (syncPolicyFromActiveRevisionLocked (p\<lparr>pb_revisions := rs, pb_activeIdx := idx\<rparr>))"
proof -
  have "ledger_bounded (p\<lparr>pb_revisions := rs, pb_activeIdx := idx\<rparr>)"
    using assms(1) by (simp add: publisher_ok_iff ledger_bounded_def)
  from bounded_sync [OF this] show ?thesis using assms by (simp add: publisher_ok_iff ledger)
qed

lemma ReplaceRevisions_ok:
  assumes "publisher_ok p" shows "publisher_ok (snd (ReplaceRevisions co rs k p))"
proof -
  obtain a where a: "a = (case active_revision p of
      Some r \<Rightarrow> if trim_space k = [] then rv_RevisionID r else k | None \<Rightarrow> k)" by simp
  show ?thesis
  proof (cases "checked_revisions (co_codec co) 0 [] rs")
    case (Inr cloned)
    then have "distinct (map rv_RevisionID cloned)" using checked_revisions_ids by blast
    then have "publisher_ok (snd (persistStateLocked co (syncPolicyFromActiveRevisionLocked
        (p\<lparr>pb_revisions := cloned, pb_activeIdx := index_of a cloned\<rparr>))))"
      using index_of_range [of a cloned] assms by (intro persist_ok sync_ok) auto
    with Inr assms show ?thesis by (simp add: ReplaceRevisions_def Let_def a)
  qed (simp add: ReplaceRevisions_def assms)
qed

lemma UpsertRevision_ok:
  assumes ok: "publisher_ok p" shows "publisher_ok (snd (UpsertRevision co r active p))"
proof (cases "trim_space (rv_RevisionID r) = []")
  case False
  let ?id = "trim_space (rv_RevisionID r)"
  show ?thesis
  proof (cases "cloneRevision (co_codec co) (r\<lparr>rv_RevisionID := ?id\<rparr>)")
    case (Inr c)
    then have cid: "rv_RevisionID c = ?id" using cloneRevision_id by fastforce
    have dist: "distinct (map rv_RevisionID (pb_revisions p))"
      and idx: "-1 \<le> pb_activeIdx p" "pb_activeIdx p < int (length (pb_revisions p))"
      using ok by (simp_all add: publisher_ok_def)
    show ?thesis
    proof (cases "findRevisionLocked ?id p")
      case None
      with findRevision_None [OF None] dist cid have "distinct (map rv_RevisionID (pb_revisions p @ [c]))"
        by auto
      then have "publisher_ok (snd (persistStateLocked co (syncPolicyFromActiveRevisionLocked
          (p\<lparr>pb_revisions := pb_revisions p @ [c],
             pb_activeIdx := if active then int (length (pb_revisions p)) else pb_activeIdx p\<rparr>))))"
        using idx ok by (intro persist_ok sync_ok) auto
      with Inr False None show ?thesis by (simp add: UpsertRevision_def Let_def)
    next
      case (Some i)
      have "map rv_RevisionID ((pb_revisions p)[i := c]) = map rv_RevisionID (pb_revisions p)"
        using findRevision_Some [OF Some] cid by (simp add: map_update list_update_same_conv)
      then have "publisher_ok (snd (persistStateLocked co (syncPolicyFromActiveRevisionLocked
          (p\<lparr>pb_revisions := (pb_revisions p)[i := c],
             pb_activeIdx := if active then int i else pb_activeIdx p\<rparr>))))"
        using idx ok dist findRevision_Some(1) [OF Some] by (intro persist_ok sync_ok) auto
      with Inr False Some show ?thesis by (simp add: UpsertRevision_def Let_def)
    qed
  qed (simp add: UpsertRevision_def Let_def False ok)
qed (simp add: UpsertRevision_def Let_def ok)

lemma restore_ok:
  assumes "publisher_ok p" "restoreStateLocked cd s p = (e, p')"
  shows "publisher_ok p'"
proof (cases "restored_revisions cd 0 [] (pls_Revisions s)")
  case (Inl e')
  with assms show ?thesis by (simp add: restoreStateLocked_def)
next
  case (Inr rs)
  let ?a = "trim_space (pls_ActiveRevisionID s)"
  let ?p1 = "syncPolicyFromActiveRevisionLocked (p\<lparr>pb_revisions := rs, pb_activeIdx := index_of ?a rs\<rparr>)"
  have ok1: "publisher_ok ?p1"
    using restored_revisions_ids [OF Inr] index_of_range [of ?a rs] assms(1) by (intro sync_ok) auto
  have "publisher_ok (trimPublishesLocked (?p1\<lparr>pb_publishes := pls_Publishes s\<rparr>))"
  proof -
    have "0 < pp_PublishHistoryLimit (pb_policy ?p1)" using ok1 by (simp add: publisher_ok_def)
    then have "ledger_bounded (trimPublishesLocked (?p1\<lparr>pb_publishes := pls_Publishes s\<rparr>))"
      by (intro bounded_trim) simp
    with ok1 show ?thesis by (simp add: publisher_ok_iff ledger)
  qed
  with Inr assms show ?thesis by (auto simp: restoreStateLocked_def Let_def split: if_splits)
qed

lemma world_ok [simp]: "publisher_ok (p\<lparr>pb_world := w\<rparr>) = publisher_ok p"
  by (simp add: publisher_ok_def)

lemma LoadState_ok:
  assumes ok: "publisher_ok p" and load: "LoadState co p = (r, p')"
  shows "publisher_ok p'"
proof (cases "co_store co")
  case None
  with assms show ?thesis by (simp add: LoadState_def)
next
  case (Some st)
  obtain l p1 where l: "on_pb_world (st_Load st) p = (l, p1)" by fastforce
  then have ok1: "publisher_ok p1" using ok by (auto elim: on_pb_world_E)
  show ?thesis
  proof (cases "\<exists>s. l = Inr (Some s)")
    case True
    then obtain s where s: "l = Inr (Some s)" by blast
    obtain e p2 where "restoreStateLocked (co_codec co) s p1 = (e, p2)" by fastforce
    with restore_ok [OF ok1 this] load Some l s show ?thesis
      by (auto simp: LoadState_def split: option.splits)
  next
    case False
    with load Some l have "p' = p1" by (auto simp: LoadState_def split: option.splits sum.splits)
    with ok1 show ?thesis by simp
  qed
qed

section \<open>Publishing\<close>

text \<open>What compiling a revision leaves alone.\<close>

definition only_snapshots :: "'w Publisher \<Rightarrow> 'w Publisher \<Rightarrow> bool" where
  "only_snapshots p p' \<longleftrightarrow>
     map rv_RevisionID (pb_revisions p') = map rv_RevisionID (pb_revisions p) \<and>
     map rv_Config (pb_revisions p') = map rv_Config (pb_revisions p) \<and>
     pb_activeIdx p' = pb_activeIdx p \<and> pb_policy p' = pb_policy p \<and> pb_publishes p' = pb_publishes p"

lemma only_snapshots_refl [simp]: "only_snapshots p p"
  by (simp add: only_snapshots_def)

lemma only_snapshots_trans: "only_snapshots p q \<Longrightarrow> only_snapshots q r \<Longrightarrow> only_snapshots p r"
  by (simp add: only_snapshots_def)

lemma only_snapshots_world [simp]: "only_snapshots p (q\<lparr>pb_world := w\<rparr>) = only_snapshots p q"
  by (simp add: only_snapshots_def)

lemma only_snapshots_set [simp]: "only_snapshots p (set_snapshot i snap p)"
proof (cases "i < length (pb_revisions p)")
  case True
  then show ?thesis by (simp add: only_snapshots_def set_snapshot_def map_update list_update_same_conv)
next
  case False
  then have "(pb_revisions p)[i := (pb_revisions p ! i)\<lparr>rv_Snapshot := snap\<rparr>] = pb_revisions p"
    by (simp add: list_update_beyond)
  then show ?thesis by (simp add: only_snapshots_def set_snapshot_def)
qed

lemma only_snapshots_set_after: "only_snapshots p q \<Longrightarrow> only_snapshots p (set_snapshot i snap q)"
  by (rule only_snapshots_trans [OF _ only_snapshots_set])

lemma only_snapshots_effect: "on_pb_world f p = (a, p') \<Longrightarrow> only_snapshots p p'"
  by (auto elim: on_pb_world_E)

lemma compile_config_effect: "compile_config co c p = (r, p') \<Longrightarrow> only_snapshots p p'"
  by (auto simp: compile_config_def Let_def publisher_now_def generateSnapshotID_def split: prod.splits
    dest!: only_snapshots_effect intro: only_snapshots_trans)

lemma compile_revision_effect: "compile_revision co r p = (s, p') \<Longrightarrow> only_snapshots p p'"
  by (auto simp: compile_revision_def split: option.splits sum.splits if_splits prod.splits
    dest: only_snapshots_effect compile_config_effect)

lemma compile_and_store_effect: "compile_and_store co i p = (s, p') \<Longrightarrow> only_snapshots p p'"
  by (auto simp: compile_and_store_def split: option.splits sum.splits prod.splits
    dest: compile_revision_effect intro: only_snapshots_set_after)

lemma compileSnapshot_effect:
  assumes "compileSnapshotLocked co i p = (s, p')"
  shows "only_snapshots p p'"
proof -
  have "only_snapshots p p'" if "backfillStoredSnapshotLocked co i st p = (s, p')" for st
    using that by (auto simp: backfillStoredSnapshotLocked_def Let_def split: option.splits sum.splits)
  with assms compile_and_store_effect show ?thesis
    by (auto simp: compileSnapshotLocked_def split: option.splits if_splits)
qed

text \<open>The steps of a publication on the ledger.\<close>

lemma mark_last_fields [ledger]:
  "pb_policy (mark_last f p) = pb_policy p" "pb_revisions (mark_last f p) = pb_revisions p"
  "pb_activeIdx (mark_last f p) = pb_activeIdx p"
  by (simp_all add: mark_last_def)

lemma mark_last_length: "pb_publishes p \<noteq> [] \<Longrightarrow> length (pb_publishes (mark_last f p)) = length (pb_publishes p)"
  by (simp add: mark_last_def)

lemma fail_publish_fields [ledger]:
  "pb_policy (fail_publish co e p) = pb_policy p" "pb_revisions (fail_publish co e p) = pb_revisions p"
  "pb_activeIdx (fail_publish co e p) = pb_activeIdx p"
  by (simp_all add: fail_publish_def ledger)

lemma stage_fields [ledger]:
  "pb_policy (stage_publish co r p) = pb_policy p" "pb_revisions (stage_publish co r p) = pb_revisions p"
  "pb_activeIdx (stage_publish co r p) = pb_activeIdx p"
  by (simp_all add: stage_publish_def ledger)

lemma stage_last:
  assumes "ledger_bounded p"
  shows "ledger_bounded (stage_publish co r p) \<and> pb_publishes (stage_publish co r p) \<noteq> [] \<and>
    last (pb_publishes (stage_publish co r p)) = r"
proof -
  let ?q = "p\<lparr>pb_publishes := pb_publishes p @ [r]\<rparr>"
  have lim: "0 < pp_PublishHistoryLimit (pb_policy p)" using assms by (simp add: ledger_bounded_def)
  then have "ledger_bounded (trimPublishesLocked ?q)" by (intro bounded_trim) simp
  moreover have "pb_publishes (trimPublishesLocked ?q) \<noteq> [] \<and> last (pb_publishes (trimPublishesLocked ?q)) = r"
    using lim by (auto simp: trimPublishesLocked_def Let_def)
  ultimately show ?thesis by (simp add: stage_publish_def ledger)
qed

lemma trim_last:
  assumes "0 < pp_PublishHistoryLimit (pb_policy p)" "pb_publishes p \<noteq> []"
  shows "pb_publishes (trimPublishesLocked p) \<noteq> [] \<and> last (pb_publishes (trimPublishesLocked p)) = last (pb_publishes p)"
  using assms by (auto simp: trimPublishesLocked_def Let_def)

lemma sync_last:
  assumes "pb_publishes p \<noteq> []"
  shows "pb_publishes (syncPolicyFromActiveRevisionLocked p) \<noteq> [] \<and>
    last (pb_publishes (syncPolicyFromActiveRevisionLocked p)) = last (pb_publishes p)"
proof (cases rule: sync_cases [of p])
  case (synced r c)
  show ?thesis
    unfolding synced(3) using trim_last [of "p\<lparr>pb_policy := PublisherPolicyFromConfig (Some c)\<rparr>"] assms
    by (simp add: config_limit_pos)
qed (simp add: assms)

text \<open>
  How a publication ends: the last record of the ledger has failed and nothing else has changed, or
  the gateway has applied the snapshot.
\<close>

lemma send_publish_cases:
  assumes send: "send_publish co i t req p = (res, p')"
  obtains (failed) err w where "p' = fail_publish co err (p\<lparr>pb_world := w\<rparr>)"
      "res = Inl P_GatewayNotConfigured \<or> res = Inr (failed_result (asr_RevisionID req) err)"
  | (applied) gateway w w' resp u now where "co_gateway co = Some gateway" "gateway req w = (Inr resp, w')"
      "asp_Applied resp" "p' = activate co i now (p\<lparr>pb_world := u\<rparr>)"
      "res = Inr \<lparr>pres_Success = True, pres_SnapshotID = asr_SnapshotID req,
        pres_RevisionID = asr_RevisionID req, pres_PublishedAt = t, pres_ErrorMessage = []\<rparr>"
proof (cases "co_gateway co")
  case None
  with send have "p' = fail_publish co ''gateway not configured'' (p\<lparr>pb_world := pb_world p\<rparr>)"
    "res = Inl P_GatewayNotConfigured" by (auto simp: send_publish_def)
  then show ?thesis by (intro failed [of "''gateway not configured''" "pb_world p"]) simp_all
next
  case (Some gateway)
  obtain reply p1 where call: "on_pb_world (gateway req) p = (reply, p1)" by fastforce
  then obtain w' where w': "gateway req (pb_world p) = (reply, w')" "p1 = p\<lparr>pb_world := w'\<rparr>"
    by (rule on_pb_world_E)
  show ?thesis
  proof (cases reply)
    case (Inl err)
    with send Some call w' show ?thesis by (intro failed [of err w']) (auto simp: send_publish_def)
  next
    case (Inr resp)
    show ?thesis
    proof (cases "asp_Applied resp")
      case True
      obtain now p2 where now: "publisher_now co p1 = (now, p2)" by fastforce
      then obtain u where "p2 = p1\<lparr>pb_world := u\<rparr>" by (auto simp: publisher_now_def elim: on_pb_world_E)
      with send Some call Inr True now w' show ?thesis
        by (intro applied [of gateway "pb_world p" resp w' now u]) (auto simp: send_publish_def)
    next
      case False
      with send Some call w' Inr show ?thesis
        by (intro failed [of "asp_Error resp" w']) (auto simp: send_publish_def)
    qed
  qed
qed

lemma apply_request_sound:
  assumes "apply_request cd sid rid t compiled = Inr req"
  obtains snap where "cd_enc_snapshot cd snap = Inr (asr_SnapshotBytes req)"
    "meta_SnapshotID (snap_Meta snap) = sid" "meta_RevisionID (snap_Meta snap) = rid"
    "meta_SchemaVersion (snap_Meta snap) \<noteq> 0" "asr_SnapshotID req = sid" "asr_RevisionID req = rid"
proof -
  from assms obtain c where "serializeSnapshot cd (stamped sid rid t c) = Inr (asr_SnapshotBytes req)"
      "asr_SnapshotID req = meta_SnapshotID (snap_Meta (stamped sid rid t c))" "asr_RevisionID req = rid"
    by (auto simp: apply_request_def Let_def split: sum.splits option.splits)
  then show ?thesis
    by (intro that [of "stamped sid rid t c"])
      (auto simp: serializeSnapshot_def lift_error_def stamped_def Let_def CurrentSchemaVersion_def split: sum.splits)
qed

lemma publishRevision_cases:
  assumes "publishRevisionLocked co i kind p = (res, p')"
  obtains (not_sent) e where "res = Inl e" "only_snapshots p p'"
  | (sent) q r req t compiled sid where "only_snapshots p q"
      "apply_request (co_codec co) sid (rv_RevisionID (pb_revisions q ! i)) t compiled = Inr req"
      "pub_RevisionID r = rv_RevisionID (pb_revisions q ! i)" "pub_Kind r = kind"
      "send_publish co i t req (stage_publish co r q) = (res, p')"
proof -
  obtain s p1 where s: "compileSnapshotLocked co i p = (s, p1)" by fastforce
  then have same1: "only_snapshots p p1" by (rule compileSnapshot_effect)
  show ?thesis
  proof (cases s)
    case (Inl e)
    with assms s same1 show ?thesis by (intro not_sent [of e]) (auto simp: publishRevisionLocked_def)
  next
    case (Inr compiled)
    obtain sid p2 where p2: "generateSnapshotID co p1 = (sid, p2)" by fastforce
    obtain t p3 where p3: "publisher_now co p2 = (t, p3)" by fastforce
    obtain pid p4 where p4: "generatePublishID co p3 = (pid, p4)" by fastforce
    have worlds: "\<exists>w. p3 = p1\<lparr>pb_world := w\<rparr>" "\<exists>w. p4 = p1\<lparr>pb_world := w\<rparr>"
      using p2 p3 p4 by (auto simp: generateSnapshotID_def publisher_now_def generatePublishID_def elim!: on_pb_world_E)
    then have same: "only_snapshots p p3" "only_snapshots p p4" "pb_revisions p4 = pb_revisions p1"
      using same1 by auto
    let ?rid = "rv_RevisionID (pb_revisions p1 ! i)"
    show ?thesis
    proof (cases "apply_request (co_codec co) sid ?rid t compiled")
      case (Inl e)
      with assms s Inr p2 p3 same show ?thesis
        by (intro not_sent [of e]) (auto simp: publishRevisionLocked_def Let_def)
    next
      case (Inr req)
      let ?r = "\<lparr>pub_PublishID = pid, pub_RevisionID = ?rid, pub_SnapshotID = sid, pub_RequestedAt = t,
        pub_RequestedBy = [], pub_Kind = kind, pub_Status = ''staged'', pub_Error = [], pub_ObservedAt = 0\<rparr>"
      have "send_publish co i t req (stage_publish co ?r p4) = (res, p')"
        using assms s \<open>s = Inr compiled\<close> p2 p3 p4 Inr by (simp add: publishRevisionLocked_def)
      with Inr same(2,3) show ?thesis by (intro sent [of p4 sid t compiled req ?r]) simp_all
    qed
  qed
qed

lemma only_snapshots_ok: "only_snapshots p q \<Longrightarrow> publisher_ok q = publisher_ok p"
  by (auto simp: only_snapshots_def publisher_ok_def dest: map_eq_imp_length_eq)

lemma only_snapshots_nth:
  assumes "only_snapshots p q" "i < length (pb_revisions p)"
  shows "i < length (pb_revisions q)" "rv_RevisionID (pb_revisions q ! i) = rv_RevisionID (pb_revisions p ! i)"
proof -
  have ids: "map rv_RevisionID (pb_revisions q) = map rv_RevisionID (pb_revisions p)"
    using assms(1) by (simp add: only_snapshots_def)
  from map_eq_imp_length_eq [OF ids] assms(2) show "i < length (pb_revisions q)" by simp
  with ids assms(2) show "rv_RevisionID (pb_revisions q ! i) = rv_RevisionID (pb_revisions p ! i)"
    by (metis nth_map)
qed

lemma fail_publish_last: "pub_Status (last (pb_publishes (fail_publish co err p))) = ''failed'' \<and>
  pub_RevisionID (last (pb_publishes (fail_publish co err p))) = pub_RevisionID (last (pb_publishes p)) \<and>
  pb_publishes (fail_publish co err p) \<noteq> []"
  by (simp add: fail_publish_def ledger) (simp add: mark_last_def)

lemma fail_publish_ok: "publisher_ok p \<Longrightarrow> pb_publishes p \<noteq> [] \<Longrightarrow> publisher_ok (fail_publish co err p)"
  by (simp add: fail_publish_def publisher_ok_def ledger mark_last_length)

lemma activate_last:
  assumes "publisher_ok p" "pb_publishes p \<noteq> []" "i < length (pb_revisions p)"
  shows "publisher_ok (activate co i now p) \<and> pb_activeIdx (activate co i now p) = int i \<and>
    pb_revisions (activate co i now p) = pb_revisions p \<and> pb_publishes (activate co i now p) \<noteq> [] \<and>
    pub_Status (last (pb_publishes (activate co i now p))) = ''observed'' \<and>
    pub_RevisionID (last (pb_publishes (activate co i now p))) = pub_RevisionID (last (pb_publishes p))"
proof -
  let ?f = "\<lambda>r. r\<lparr>pub_Status := ''observed'', pub_ObservedAt := now\<rparr>"
  let ?q = "(mark_last ?f p)\<lparr>pb_activeIdx := int i\<rparr>"
  have bounded: "ledger_bounded ?q"
    using assms(1) mark_last_length [OF assms(2), of ?f] by (simp add: publisher_ok_iff ledger_bounded_def ledger)
  have ne: "pb_publishes ?q \<noteq> []" by (simp add: mark_last_def)
  have "last (pb_publishes ?q) = ?f (last (pb_publishes p))" by (simp add: mark_last_def)
  moreover note sync_last [OF ne]
  moreover have "publisher_ok (activate co i now p)"
    using bounded_sync [OF bounded] assms(1,3) by (simp add: activate_def publisher_ok_iff ledger)
  ultimately show ?thesis by (simp add: activate_def ledger)
qed

text \<open>The stages of a publication in one statement, for any kind of publication.\<close>

definition publish_outcome ::
  "'w control \<Rightarrow> string \<Rightarrow> 'w Publisher \<Rightarrow> (publish_error + PublishResult) \<Rightarrow> 'w Publisher \<Rightarrow> bool" where
  "publish_outcome co rid p res p' \<longleftrightarrow>
     (case res of
        Inl e \<Rightarrow> pb_publishes p' = pb_publishes p \<or>
          (pb_publishes p' \<noteq> [] \<and> pub_Status (last (pb_publishes p')) = ''failed'')
      | Inr result \<Rightarrow> pb_publishes p' \<noteq> [] \<and> pres_RevisionID result = rid \<and>
          pub_RevisionID (last (pb_publishes p')) = rid \<and>
          pub_Status (last (pb_publishes p')) = (if pres_Success result then ''observed'' else ''failed'')) \<and>
     (case res of
        Inr result \<Rightarrow> pres_Success result \<longrightarrow>
          map_option rv_RevisionID (active_revision p') = Some rid \<and>
          (\<exists>gateway req w w' resp snap. co_gateway co = Some gateway \<and> gateway req w = (Inr resp, w') \<and>
             asp_Applied resp \<and> asr_RevisionID req = rid \<and> asr_SnapshotID req = pres_SnapshotID result \<and>
             cd_enc_snapshot (co_codec co) snap = Inr (asr_SnapshotBytes req) \<and>
             meta_SnapshotID (snap_Meta snap) = pres_SnapshotID result \<and> meta_RevisionID (snap_Meta snap) = rid)
      | Inl e \<Rightarrow> True) \<and>
     (pb_activeIdx p' \<noteq> pb_activeIdx p \<or> pb_policy p' \<noteq> pb_policy p \<longrightarrow>
        (\<exists>result. res = Inr result \<and> pres_Success result)) \<and>
     map rv_RevisionID (pb_revisions p') = map rv_RevisionID (pb_revisions p) \<and>
     map rv_Config (pb_revisions p') = map rv_Config (pb_revisions p)"

lemma active_revision_nth: "pb_activeIdx p = int i \<Longrightarrow> i < length (pb_revisions p) \<Longrightarrow>
  active_revision p = Some (pb_revisions p ! i)"
  by (simp add: active_revision_def)

lemma publishRevision_outcome:
  assumes run: "publishRevisionLocked co i kind p = (res, p')"
    and ok: "publisher_ok p" and i: "i < length (pb_revisions p)"
  shows "publisher_ok p' \<and> publish_outcome co (rv_RevisionID (pb_revisions p ! i)) p res p'"
  using run
proof (cases rule: publishRevision_cases)
  case (not_sent e)
  then show ?thesis using ok only_snapshots_ok [OF not_sent(2)]
    by (simp add: publish_outcome_def) (simp add: only_snapshots_def)
next
  case (sent q r req t compiled sid)
  let ?rid = "rv_RevisionID (pb_revisions p ! i)"
  let ?s = "stage_publish co r q"
  from only_snapshots_nth [OF sent(1) i] have iq: "i < length (pb_revisions q)"
    and rid: "rv_RevisionID (pb_revisions q ! i) = ?rid" by auto
  have okq: "publisher_ok q" using only_snapshots_ok [OF sent(1)] ok by simp
  then have staged: "ledger_bounded ?s" "pb_publishes ?s \<noteq> []" "last (pb_publishes ?s) = r"
    using stage_last [of q co r] by (simp_all add: publisher_ok_iff)
  then have oks: "publisher_ok ?s" using okq by (simp add: publisher_ok_iff ledger)
  have req_id: "asr_RevisionID req = ?rid" using sent(2) rid by (auto elim: apply_request_sound)
  from sent(5) show ?thesis
  proof (cases rule: send_publish_cases)
    case (failed err w)
    have "publisher_ok p'" unfolding failed(1) using oks staged(2) by (intro fail_publish_ok) simp_all
    moreover have "pub_Status (last (pb_publishes p')) = ''failed'' \<and> pub_RevisionID (last (pb_publishes p')) = ?rid \<and>
        pb_publishes p' \<noteq> []"
      unfolding failed(1) using fail_publish_last [of co err "?s\<lparr>pb_world := w\<rparr>"] staged(3) sent(3) rid by simp
    moreover have "pb_activeIdx p' = pb_activeIdx p" "pb_policy p' = pb_policy p"
        "map rv_RevisionID (pb_revisions p') = map rv_RevisionID (pb_revisions p)"
        "map rv_Config (pb_revisions p') = map rv_Config (pb_revisions p)"
      unfolding failed(1) using sent(1) by (simp_all add: ledger only_snapshots_def)
    ultimately show ?thesis using failed(2) req_id by (auto simp: publish_outcome_def failed_result_def)
  next
    case (applied gateway w w' resp u now)
    have p': "publisher_ok p'" "pb_activeIdx p' = int i" "pb_revisions p' = pb_revisions q" "pb_publishes p' \<noteq> []"
        "pub_Status (last (pb_publishes p')) = ''observed''" "pub_RevisionID (last (pb_publishes p')) = ?rid"
      unfolding applied(4)
      using activate_last [of "?s\<lparr>pb_world := u\<rparr>" i co now] oks staged(2,3) iq sent(3) rid by (simp_all add: ledger)
    then have "map_option rv_RevisionID (active_revision p') = Some ?rid"
      using active_revision_nth [of p' i] iq rid by simp
    moreover obtain snap where "cd_enc_snapshot (co_codec co) snap = Inr (asr_SnapshotBytes req)"
        "meta_SnapshotID (snap_Meta snap) = asr_SnapshotID req" "meta_RevisionID (snap_Meta snap) = ?rid"
      using apply_request_sound [OF sent(2)] rid by metis
    moreover have "map rv_RevisionID (pb_revisions p') = map rv_RevisionID (pb_revisions p)"
        "map rv_Config (pb_revisions p') = map rv_Config (pb_revisions p)"
      using p'(3) sent(1) by (simp_all add: only_snapshots_def)
    moreover have "\<exists>gateway req w w' resp snap'. co_gateway co = Some gateway \<and> gateway req w = (Inr resp, w') \<and>
        asp_Applied resp \<and> asr_RevisionID req = ?rid \<and> asr_SnapshotID req = pres_SnapshotID (projr res) \<and>
        cd_enc_snapshot (co_codec co) snap' = Inr (asr_SnapshotBytes req) \<and>
        meta_SnapshotID (snap_Meta snap') = pres_SnapshotID (projr res) \<and> meta_RevisionID (snap_Meta snap') = ?rid"
      if "cd_enc_snapshot (co_codec co) snap = Inr (asr_SnapshotBytes req)"
        "meta_SnapshotID (snap_Meta snap) = asr_SnapshotID req" "meta_RevisionID (snap_Meta snap) = ?rid" for snap
      using applied(1-3) req_id that unfolding applied(5)
      by (intro exI [of _ gateway] exI [of _ req] exI [of _ w] exI [of _ w'] exI [of _ resp] exI [of _ snap]) simp
    ultimately show ?thesis using p' req_id unfolding applied(5) publish_outcome_def by simp
  qed
qed

section \<open>Every history of operations\<close>

lemma new_revision_effect: "new_revision co input d p = (r, p') \<Longrightarrow> only_snapshots p p' \<and> pb_revisions p' = pb_revisions p"
  by (auto simp: new_revision_def compile_checked_def compile_config_def publisher_now_def generateSnapshotID_def
    Let_def split: if_splits sum.splits option.splits prod.splits elim!: on_pb_world_E)

lemma UpdateConfig_ok:
  assumes ok: "publisher_ok p" and run: "UpdateConfig co input d p = (res, p')"
    and fresh: "\<And>r p1. new_revision co input d p = (Inr r, p1) \<Longrightarrow> rv_RevisionID r \<notin> rv_RevisionID ` set (pb_revisions p)"
  shows "publisher_ok p'"
proof -
  obtain x p1 where x: "new_revision co input d p = (x, p1)" by fastforce
  from new_revision_effect [OF x] have same: "only_snapshots p p1" "pb_revisions p1 = pb_revisions p" by auto
  then have ok1: "publisher_ok p1" using ok only_snapshots_ok by blast
  show ?thesis
  proof (cases x)
    case (Inl e)
    with run x ok1 show ?thesis by (simp add: UpdateConfig_def)
  next
    case (Inr r)
    let ?n = "length (pb_revisions p1)" and ?q = "p1\<lparr>pb_revisions := pb_revisions p1 @ [r]\<rparr>"
    have okq: "publisher_ok ?q"
      using ok1 fresh [of r p1] x Inr same(2) by (auto simp: publisher_ok_def)
    obtain y p2 where y: "publishRevisionLocked co ?n ''publish'' ?q = (y, p2)" by fastforce
    from publishRevision_outcome [OF y okq]
    have out: "publisher_ok p2" "publish_outcome co (rv_RevisionID r) ?q y p2" by simp_all
    show ?thesis
    proof (cases y)
      case (Inl e)
      with run x Inr y have p': "p' = p2\<lparr>pb_revisions := take ?n (pb_revisions p2)\<rparr>" by (simp add: UpdateConfig_def)
      from out(2) Inl have "pb_activeIdx p2 = pb_activeIdx p1"
          "map rv_RevisionID (pb_revisions p2) = map rv_RevisionID (pb_revisions ?q)"
        by (auto simp: publish_outcome_def)
      moreover from map_eq_imp_length_eq [OF this(2)] have "length (pb_revisions p2) = Suc ?n" by simp
      ultimately show ?thesis using out(1) ok1
        by (simp add: publisher_ok_def p' take_map [symmetric])
    next
      case (Inr result)
      with run x \<open>x = Inr r\<close> y have "p' = persist_quietly co p2" by (simp add: UpdateConfig_def)
      with out(1) show ?thesis by (simp add: publisher_ok_def ledger)
    qed
  qed
qed

text \<open>
  The operations that change the publisher. The identifier that \<open>UpdateConfig\<close> makes from the clock is
  taken to be new, which the source does not check; other goroutines may change the world at any time.
\<close>

inductive publisher_step :: "'w control \<Rightarrow> 'w Publisher \<Rightarrow> 'w Publisher \<Rightarrow> bool" for co where
  PS_SetPolicy: "publisher_step co p (SetPolicy policy p)"
| PS_LoadState: "publisher_step co p (snd (LoadState co p))"
| PS_ReplaceRevisions: "publisher_step co p (snd (ReplaceRevisions co rs k p))"
| PS_UpsertRevision: "publisher_step co p (snd (UpsertRevision co r active p))"
| PS_Publish: "publisher_step co p (snd (Publish co rid p))"
| PS_Rollback: "publisher_step co p (snd (Rollback co rid p))"
| PS_UpdateConfig: "publisher_step co p (snd (UpdateConfig co input d p))"
    if "\<And>r p1. new_revision co input d p = (Inr r, p1) \<Longrightarrow> rv_RevisionID r \<notin> rv_RevisionID ` set (pb_revisions p)"
| PS_World: "publisher_step co p (p\<lparr>pb_world := w\<rparr>)"

lemma publishing_ok:
  assumes "publisher_ok p" "Publish co rid p = (res, p') \<or> Rollback co rid p = (res, p')"
  shows "publisher_ok p'"
proof (cases "findRevisionLocked rid p")
  case None
  with assms show ?thesis by (auto simp: Publish_def Rollback_def)
next
  case (Some i)
  with assms(2) obtain kind where "publishRevisionLocked co i kind p = (res, p')"
    by (auto simp: Publish_def Rollback_def)
  from publishRevision_outcome [OF this assms(1)] findRevision_Some [OF Some] show ?thesis by auto
qed

lemma publisher_step_ok: "publisher_step co p p' \<Longrightarrow> publisher_ok p \<Longrightarrow> publisher_ok p'"
proof (induction rule: publisher_step.induct)
  case (PS_LoadState p)
  then show ?case by (metis LoadState_ok prod.collapse)
next
  case (PS_Publish p rid)
  then show ?case using publishing_ok [of p co rid] by (metis prod.collapse)
next
  case (PS_Rollback p rid)
  then show ?case using publishing_ok [of p co rid] by (metis prod.collapse)
next
  case (PS_UpdateConfig input d p)
  then show ?case using UpdateConfig_ok [of p co input d] by (metis prod.collapse)
qed (simp_all add: SetPolicy_ok ReplaceRevisions_ok UpsertRevision_ok)

section \<open>A small publisher\<close>

definition demo_ledger_snapshot :: Snapshot where "demo_ledger_snapshot = demo_snapshot\<lparr>snap_Providers := []\<rparr>"

definition demo_revision :: "string \<Rightarrow> Revision" where
  "demo_revision k = \<lparr>rv_RevisionID = k, rv_CreatedAt = 7, rv_CreatedBy = ''ops'', rv_Description = ''first'',
     rv_Config = None, rv_Snapshot = Some demo_ledger_snapshot\<rparr>"

text \<open>The codec writes every value as a letter and reads back the values of the example.\<close>

definition demo_codec :: codec where
  "demo_codec = \<lparr>cd_enc_config = (\<lambda>_. Inr ''c''), cd_dec_config = (\<lambda>_. Inr demo_config),
     cd_enc_snapshot = (\<lambda>_. Inr ''s''), cd_dec_snapshot = (\<lambda>_. Inr demo_ledger_snapshot),
     cd_format_time = (\<lambda>_. ''t''), cd_parse_time = (\<lambda>_. Inr 7),
     cd_enc_state = (\<lambda>_. Inr ''p''), cd_dec_state = (\<lambda>_. Inl ''syntax'')\<rparr>"

definition demo_control :: "Database option control" where
  "demo_control = \<lparr>co_gateway = Some (\<lambda>req w. (Inr \<lparr>asp_Applied = True, asp_Error = []\<rparr>, w)),
     co_compiler = True, co_revisionCompiler = None,
     co_store = Some (NewMigratingStateStore (Some (NewSQLiteStateStore demo_codec)) None), co_codec = demo_codec,
     co_parseURL = (\<lambda>_. None), co_printURL = (\<lambda>_. []), co_now = (\<lambda>w. (7, w)), co_newID = (\<lambda>k w. (k @ ''1'', w))\<rparr>"

definition demo_publisher :: "Database option Publisher" where
  "demo_publisher = (NewPublisher None)\<lparr>pb_revisions := [demo_revision ''a'', demo_revision ''b''], pb_activeIdx := 0\<rparr>"

lemma demo_publisher_ok: "publisher_ok demo_publisher"
  by (simp add: demo_publisher_def NewPublisher_def publisher_ok_def demo_revision_def policy_limit_pos less_imp_le)

lemma demo_Publish: "\<exists>result p'. Publish demo_control ''b'' demo_publisher = (Inr result, p') \<and> pres_Success result"
  by (simp add: Publish_def findRevisionLocked_def demo_publisher_def NewPublisher_def demo_revision_def
    publishRevisionLocked_def compileSnapshotLocked_def snapshotNeedsDerivedFieldRefresh_def demo_ledger_snapshot_def
    generateSnapshotID_def generatePublishID_def publisher_now_def on_pb_world_def demo_control_def apply_request_def
    cloneSnapshot_def clone_payload_def lift_error_def demo_codec_def serializeSnapshot_def send_publish_def Let_def
    split_def enumerate_eq_zip)

section \<open>A restart\<close>

text \<open>A revision that the codec brings back.\<close>

definition text_kept :: "('a \<Rightarrow> string + string) \<Rightarrow> (string \<Rightarrow> string + 'a) \<Rightarrow> 'a option \<Rightarrow> bool" where
  "text_kept enc dec payload \<longleftrightarrow>
     (case payload of None \<Rightarrow> True | Some a \<Rightarrow> (\<exists>text. enc a = Inr text \<and> trim_space text \<noteq> [] \<and> dec text = Inr a))"

definition revision_kept :: "codec \<Rightarrow> Revision \<Rightarrow> bool" where
  "revision_kept cd r \<longleftrightarrow> rv_RevisionID r \<noteq> [] \<and> trim_space (rv_RevisionID r) = rv_RevisionID r \<and>
     cd_format_time cd (rv_CreatedAt r) \<noteq> [] \<and> cd_parse_time cd (cd_format_time cd (rv_CreatedAt r)) = Inr (rv_CreatedAt r) \<and>
     text_kept (cd_enc_config cd) (cd_dec_config cd) (rv_Config r) \<and>
     text_kept (cd_enc_snapshot cd) (cd_dec_snapshot cd) (rv_Snapshot r)"

definition restored :: "Revision \<Rightarrow> Revision" where
  "restored r = r\<lparr>rv_Config := map_option Normalize (rv_Config r)\<rparr>"

lemma restored_id [simp]: "rv_RevisionID (restored r) = rv_RevisionID r"
  by (simp add: restored_def)

lemma payload_kept:
  assumes "text_kept enc dec payload"
  obtains t where "encode_payload enc payload = Inr t" "decode_payload dec t = Inr payload"
  using assms by (cases payload) (auto simp: text_kept_def encode_payload_def decode_payload_def lift_error_def)

lemma unmarshal_marshal:
  assumes "revision_kept cd r"
  obtains stored where "marshalStoredRevision cd r = Inr stored" "unmarshalStoredRevision cd stored = Inr (restored r)"
    "sr_RevisionID stored = rv_RevisionID r"
proof -
  obtain c where c: "encode_payload (cd_enc_config cd) (rv_Config r) = Inr c"
      "decode_payload (cd_dec_config cd) c = Inr (rv_Config r)"
    using assms by (auto simp: revision_kept_def elim: payload_kept)
  obtain t where t: "encode_payload (cd_enc_snapshot cd) (rv_Snapshot r) = Inr t"
      "decode_payload (cd_dec_snapshot cd) t = Inr (rv_Snapshot r)"
    using assms by (auto simp: revision_kept_def elim: payload_kept)
  show ?thesis
    using c t assms
    by (intro that [of "\<lparr>sr_RevisionID = rv_RevisionID r, sr_CreatedAt = cd_format_time cd (rv_CreatedAt r),
        sr_CreatedBy = rv_CreatedBy r, sr_Description = rv_Description r, sr_ConfigYAML = c, sr_SnapshotYAML = t\<rparr>"])
      (simp_all add: marshalStoredRevision_def unmarshalStoredRevision_def revision_kept_def restored_def lift_error_def)
qed

lemma restored_marshalled:
  "list_all (revision_kept cd) rs \<Longrightarrow> distinct (map rv_RevisionID rs) \<Longrightarrow> set (map rv_RevisionID rs) \<inter> set seen = {} \<Longrightarrow>
   \<exists>ss. all_at (\<lambda>i. marshalStoredRevision cd) n rs = Inr ss \<and> restored_revisions cd m seen ss = Inr (map restored rs) \<and>
     map sr_RevisionID ss = map rv_RevisionID rs"
proof (induction rs arbitrary: n m seen)
  case (Cons r rs)
  obtain st where st: "marshalStoredRevision cd r = Inr st" "unmarshalStoredRevision cd st = Inr (restored r)"
      "sr_RevisionID st = rv_RevisionID r"
    using Cons.prems(1) by (auto elim: unmarshal_marshal)
  have "\<exists>ss. all_at (\<lambda>i. marshalStoredRevision cd) (Suc n) rs = Inr ss \<and>
      restored_revisions cd (Suc m) (rv_RevisionID r # seen) ss = Inr (map restored rs) \<and>
      map sr_RevisionID ss = map rv_RevisionID rs"
    using Cons.prems by (intro Cons.IH) auto
  then obtain ss where "all_at (\<lambda>i. marshalStoredRevision cd) (Suc n) rs = Inr ss"
      "restored_revisions cd (Suc m) (rv_RevisionID r # seen) ss = Inr (map restored rs)"
      "map sr_RevisionID ss = map rv_RevisionID rs" by blast
  with st Cons.prems show ?case
    by (intro exI [of _ "st # ss"]) (auto simp: revision_kept_def)
qed simp

lemma find_index:
  "distinct (map f xs) \<Longrightarrow> i < length xs \<Longrightarrow> find (\<lambda>(j, x). f x = f (xs ! i)) (enumerate n xs) = Some (n + i, xs ! i)"
proof (induction xs arbitrary: i n)
  case (Cons x xs)
  then show ?case
  proof (cases i)
    case (Suc j)
    with Cons.prems have "f x \<notin> f ` set xs" "j < length xs" by auto
    then have "f x \<noteq> f (xs ! j)" by (metis image_eqI nth_mem)
    with Cons Suc show ?thesis by simp
  qed simp
qed simp

lemma index_of_nth: "distinct (map rv_RevisionID rs) \<Longrightarrow> i < length rs \<Longrightarrow> index_of (rv_RevisionID (rs ! i)) rs = int i"
  by (simp add: index_of_def find_index [where f = rv_RevisionID])

lemma index_of_absent:
  assumes "k \<notin> rv_RevisionID ` set rs" shows "index_of k rs = -1"
proof -
  from assms have "find (\<lambda>(i, r). rv_RevisionID r = k) (enumerate 0 rs) = None"
    by (auto simp: find_None_iff in_set_enumerate_eq image_iff)
  then show ?thesis by (simp add: index_of_def)
qed

text \<open>The saved state, and the state that a fresh publisher has after it has loaded it.\<close>

lemma restore_ledger_state:
  assumes ok: "publisher_ok p" and kept: "list_all (revision_kept cd) (pb_revisions p)"
  obtains s q where "ledger_state cd p = Inr s" "pls_Publishes s = pb_publishes p" "pls_Version s = currentStateVersion"
    "restoreStateLocked cd s (NewPublisher w) = (None, q)" "pb_revisions q = map restored (pb_revisions p)"
    "pb_activeIdx q = pb_activeIdx p"
    "pb_publishes q = drop (length (pb_publishes p) - nat (pp_PublishHistoryLimit (pb_policy q))) (pb_publishes p)"
proof -
  have dist: "distinct (map rv_RevisionID (pb_revisions p))" using ok by (simp add: publisher_ok_def)
  from restored_marshalled [OF kept dist, of "[]" 0 0] obtain ss where
    ss: "all_at (\<lambda>i. marshalStoredRevision cd) 0 (pb_revisions p) = Inr ss"
      "restored_revisions cd 0 [] ss = Inr (map restored (pb_revisions p))" by auto
  let ?active = "case active_revision p of None \<Rightarrow> [] | Some r \<Rightarrow> rv_RevisionID r"
  let ?s = "\<lparr>pls_Version = currentStateVersion, pls_ActiveRevisionID = ?active, pls_Revisions = ss,
    pls_Publishes = pb_publishes p\<rparr>"
  have ids: "\<And>r. r \<in> set (pb_revisions p) \<Longrightarrow> rv_RevisionID r \<noteq> [] \<and> trim_space (rv_RevisionID r) = rv_RevisionID r"
    using kept by (auto simp: list_all_iff revision_kept_def)
  have trimmed: "trim_space ?active = ?active"
    using ids by (auto simp: active_revision_def split: option.splits if_splits)
  have idx: "index_of ?active (map restored (pb_revisions p)) = pb_activeIdx p \<and> (?active = [] \<longleftrightarrow> pb_activeIdx p = -1)"
  proof (cases "pb_activeIdx p = -1")
    case True
    then have "?active = []" by (simp add: active_revision_def)
    moreover have "index_of [] (map restored (pb_revisions p)) = -1"
      using ids by (intro index_of_absent) (auto dest: ids)
    ultimately show ?thesis using True by simp
  next
    case False
    with ok have "0 \<le> pb_activeIdx p" "pb_activeIdx p < int (length (pb_revisions p))" by (auto simp: publisher_ok_def)
    then obtain i where i: "pb_activeIdx p = int i" "i < length (pb_revisions p)"
      by (cases "pb_activeIdx p") auto
    then have "?active = rv_RevisionID (map restored (pb_revisions p) ! i)" by (simp add: active_revision_nth)
    with i ids dist show ?thesis
      using index_of_nth [of "map restored (pb_revisions p)" i] by (simp add: comp_def)
  qed
  define q1 where "q1 = syncPolicyFromActiveRevisionLocked ((NewPublisher w)\<lparr>pb_revisions := map restored (pb_revisions p),
    pb_activeIdx := pb_activeIdx p\<rparr>)"
  have "restoreStateLocked cd ?s (NewPublisher w) = (None, trimPublishesLocked (q1\<lparr>pb_publishes := pb_publishes p\<rparr>))"
    using idx by (auto simp: restoreStateLocked_def ss(2) trimmed q1_def Let_def)
  moreover have "0 < pp_PublishHistoryLimit (pb_policy q1)"
    unfolding q1_def by (rule limit_pos_sync) (simp add: NewPublisher_def policy_limit_pos)
  ultimately show ?thesis
    using ss(1) by (intro that [of ?s "trimPublishesLocked (q1\<lparr>pb_publishes := pb_publishes p\<rparr>)"])
      (auto simp: ledger_state_def ledger q1_def, auto simp: trimPublishesLocked_def Let_def)
qed

text \<open>Any store that keeps its contract brings the ledger back.\<close>

context state_store begin

lemma ledger_restored:
  assumes ok: "publisher_ok p" and kept: "list_all (revision_kept (co_codec co)) (pb_revisions p)"
    and co: "co_store co = Some store"
    and storable: "\<And>s. ledger_state (co_codec co) p = Inr s \<Longrightarrow> storable s"
    and saved: "persistStateLocked co p = (None, p')"
  shows "\<exists>q. LoadState co (NewPublisher (pb_world p')) = (Inr True, q) \<and>
    pb_revisions q = map restored (pb_revisions p) \<and> pb_activeIdx q = pb_activeIdx p \<and>
    pb_publishes q = drop (length (pb_publishes p) - nat (pp_PublishHistoryLimit (pb_policy q))) (pb_publishes p)"
proof -
  obtain w where w: "pb_world p' = w" by simp
  obtain r w2 where load: "st_Load store w = (r, w2)" by fastforce
  obtain s q where s: "ledger_state (co_codec co) p = Inr s"
    and q: "restoreStateLocked (co_codec co) s (NewPublisher w2) = (None, q)"
      "pb_revisions q = map restored (pb_revisions p)" "pb_activeIdx q = pb_activeIdx p"
      "pb_publishes q = drop (length (pb_publishes p) - nat (pp_PublishHistoryLimit (pb_policy q))) (pb_publishes p)"
    by (rule restore_ledger_state [OF ok kept, of w2]) blast
  from saved co s obtain w0 where "st_Save store s w0 = (None, w)"
    by (auto simp: persistStateLocked_def w [symmetric] elim!: on_pb_world_E)
  from load_saved [OF storable [OF s] this] load have "r = Inr (Some s)" by simp
  moreover have "on_pb_world (st_Load store) (NewPublisher w) = (r, NewPublisher w2)"
    using load by (simp add: on_pb_world_def NewPublisher_def)
  ultimately have "LoadState co (NewPublisher w) = (Inr True, q)"
    using co q(1) by (simp add: LoadState_def)
  with q w show ?thesis by blast
qed

end

section \<open>Properties\<close>



text \<open>
  C8 A revision becomes active only when the gateway has applied its snapshot: after a successful
  Publish or Rollback of a revision, that revision is active, the gateway has answered a request that
  carries the revision's and the snapshot's identifiers and a snapshot stamped with them, and the last
  publication is recorded as observed. After any other outcome the active revision and the policy are
  as before, and a publication that was added is recorded as failed, never left as staged. The
  identifiers and configurations of the ledger stay as they are.
\<close>

theorem publish_takes_effect:
  assumes "Publish co rid p = (res, p') \<or> Rollback co rid p = (res, p')" "publisher_ok p"
  shows "(\<forall>result. res = Inr result \<and> pres_Success result \<longrightarrow>
      map_option rv_RevisionID (active_revision p') = Some rid \<and>
      pub_Status (last (pb_publishes p')) = ''observed'' \<and>
      (\<exists>gateway req w w' resp snap. co_gateway co = Some gateway \<and> gateway req w = (Inr resp, w') \<and>
         asp_Applied resp \<and> asr_RevisionID req = rid \<and> asr_SnapshotID req = pres_SnapshotID result \<and>
         cd_enc_snapshot (co_codec co) snap = Inr (asr_SnapshotBytes req) \<and>
         meta_SnapshotID (snap_Meta snap) = pres_SnapshotID result \<and> meta_RevisionID (snap_Meta snap) = rid)) \<and>
    (\<not> (\<exists>result. res = Inr result \<and> pres_Success result) \<longrightarrow>
      pb_activeIdx p' = pb_activeIdx p \<and> pb_policy p' = pb_policy p \<and>
      (pb_publishes p' = pb_publishes p \<or>
        (pb_publishes p' \<noteq> [] \<and> pub_Status (last (pb_publishes p')) = ''failed''))) \<and>
    map rv_RevisionID (pb_revisions p') = map rv_RevisionID (pb_revisions p) \<and>
    map rv_Config (pb_revisions p') = map rv_Config (pb_revisions p)"
proof -
  have outcome: "publish_outcome co rid p res p'"
  proof (cases "findRevisionLocked rid p")
    case None
    with assms(1) show ?thesis by (auto simp: Publish_def Rollback_def publish_outcome_def)
  next
    case (Some i)
    with assms(1) obtain kind where "publishRevisionLocked co i kind p = (res, p')"
      by (auto simp: Publish_def Rollback_def)
    from publishRevision_outcome [OF this assms(2)] findRevision_Some [OF Some] show ?thesis by auto
  qed
  then show ?thesis
    unfolding publish_outcome_def by (cases res; (intro conjI)?) auto
qed

lemma publish_takes_effect_witness:
  "map_option rv_RevisionID (active_revision (snd (Publish demo_control ''b'' demo_publisher))) = Some ''b''"
proof -
  obtain result p' where p: "Publish demo_control ''b'' demo_publisher = (Inr result, p')" "pres_Success result"
    using demo_Publish by blast
  then have "Publish demo_control ''b'' demo_publisher = (Inr result, p') \<or>
      Rollback demo_control ''b'' demo_publisher = (Inr result, p')" by blast
  from publish_takes_effect [OF this demo_publisher_ok] p show ?thesis by simp
qed

text \<open>
  C11 A restart of the control plane keeps the ledger: when the ledger of a well-formed publisher was saved
  without an error to the store of the control plane (SQLite, with a file of an older version as the
  fallback), then a new publisher that loads it has the same revisions in the same order, with their
  configurations normalised, the same active revision, and the most recent publications up to the limit
  of its policy. The codec must bring back the configurations, snapshots and times that occur.
\<close>

theorem ledger_survives_restart:
  assumes "publisher_ok p" "list_all (revision_kept (co_codec co)) (pb_revisions p)"
    and "co_store co = Some (NewMigratingStateStore (Some (NewSQLiteStateStore (co_codec co))) fallback)"
    and "list_all (\<lambda>r. time_kept (co_codec co) (pub_RequestedAt r) \<and>
      (is_zero_time (pub_ObservedAt r) \<or> time_kept (co_codec co) (pub_ObservedAt r))) (pb_publishes p)"
    and "persistStateLocked co p = (None, p')"
  shows "\<exists>q. LoadState co (NewPublisher (pb_world p')) = (Inr True, q) \<and>
    pb_revisions q = map (\<lambda>r. r\<lparr>rv_Config := map_option Normalize (rv_Config r)\<rparr>) (pb_revisions p) \<and>
    pb_activeIdx q = pb_activeIdx p \<and>
    pb_publishes q = drop (length (pb_publishes p) - nat (pp_PublishHistoryLimit (pb_policy q))) (pb_publishes p)"
proof -
  have "sqlite_storable (co_codec co) s" if "ledger_state (co_codec co) p = Inr s" for s
    using that assms(4) by (auto simp: ledger_state_def sqlite_storable_def split: sum.splits)
  from migrating.ledger_restored [OF assms(1,2,3) this assms(5)] show ?thesis
    unfolding restored_def [abs_def] .
qed

lemma ledger_survives_restart_witness:
  "\<exists>q. LoadState demo_control (NewPublisher (pb_world (snd (persistStateLocked demo_control demo_publisher)))) = (Inr True, q) \<and>
    map rv_RevisionID (pb_revisions q) = [''a'', ''b''] \<and> pb_activeIdx q = 0"
proof -
  have kept: "list_all (revision_kept (co_codec demo_control)) (pb_revisions demo_publisher)"
    by (simp add: demo_publisher_def demo_revision_def demo_control_def demo_codec_def revision_kept_def text_kept_def)
      code_simp
  have store: "co_store demo_control =
      Some (NewMigratingStateStore (Some (NewSQLiteStateStore (co_codec demo_control))) None)"
    by (simp add: demo_control_def)
  have none: "pb_publishes demo_publisher = []" by (simp add: demo_publisher_def NewPublisher_def)
  obtain p' where saved: "persistStateLocked demo_control demo_publisher = (None, p')"
    by (simp add: persistStateLocked_def store NewMigratingStateStore_def MigratingStateStore_Save_def
      NewSQLiteStateStore_def SQLiteStateStore_Save_def ledger_state_def demo_publisher_def NewPublisher_def
      active_revision_def demo_revision_def marshalStoredRevision_def encode_payload_def demo_control_def demo_codec_def
      lift_error_def on_pb_world_def)
  from ledger_survives_restart [OF demo_publisher_ok kept store _ saved] none obtain q where
      "LoadState demo_control (NewPublisher (pb_world p')) = (Inr True, q)"
      "pb_revisions q = map (\<lambda>r. r\<lparr>rv_Config := map_option Normalize (rv_Config r)\<rparr>) (pb_revisions demo_publisher)"
      "pb_activeIdx q = pb_activeIdx demo_publisher" by auto
  with saved show ?thesis by (auto simp: demo_publisher_def demo_revision_def)
qed

end
