(* ===== verification/Telemetry_Client.thy ===== *)
theory Telemetry_Client
  imports Execution
begin

text \<open>
  The telemetry client of the gateway (\<open>internal/gateway/telemetry/client.go\<close>): events are buffered, a batch
  is taken by a flush and sent to the telemetry daemon, with retries and reconnection. The goroutines are
  steps of a relation; \<open>ingest_server\<close> is what the client relies on of the daemon.
\<close>

section \<open>Events and messages\<close>

text \<open>\<open>telemetryingest.Event\<close>: the record \<open>Event\<close> has the fields that the handler fills in for each request.\<close>

record TelemetryEvent =
  te_EventType :: string
  te_SchemaVersion :: goint
  te_SourceService :: string
  te_SourceInstance :: string
  te_Imported :: bool
  te_Event :: Event

definition attempt_completed :: string where "attempt_completed = ''gateway.attempt.completed''"

text \<open>What the handler gives to \<open>Emit\<close>.\<close>

definition handler_event :: "Event \<Rightarrow> TelemetryEvent" where
  "handler_event e = \<lparr>te_EventType = attempt_completed, te_SchemaVersion = 1, te_SourceService = ''gatewayd'',
     te_SourceInstance = [], te_Imported = False, te_Event = e\<rparr>"

record AppendBatchResponse =
  abr_Accepted :: goint
  abr_Dropped :: goint

section \<open>Errors of a call\<close>

datatype errno = ECONNREFUSED | ECONNRESET | EPIPE | ETIMEDOUT | ENETUNREACH | EHOSTUNREACH | OtherErrno

text \<open>What the client can tell of an error: a \<open>net.Error\<close> or \<open>net.ErrClosed\<close> in its chain, a system error, its text.\<close>

record rpc_error =
  re_NetError :: bool
  re_Closed :: bool
  re_Errno :: "errno option"
  re_Text :: string

definition isConnectionError :: "rpc_error \<Rightarrow> bool" where
  "isConnectionError e \<longleftrightarrow>
     re_NetError e \<or>
     (case re_Errno e of None \<Rightarrow> False
      | Some n \<Rightarrow> n \<in> {ECONNREFUSED, ECONNRESET, EPIPE, ETIMEDOUT, ENETUNREACH, EHOSTUNREACH}) \<or>
     re_Closed e \<or>
     list_ex (str_contains (re_Text e))
       [''broken pipe'', ''reset by peer'', ''connection refused'', ''connection reset'', ''use of closed'']"

section \<open>Sending a batch\<close>

record ClientConfig =
  ccf_BatchSize :: goint
  ccf_FlushInterval :: duration
  ccf_QueueSize :: goint
  ccf_SourceInstance :: string
  ccf_ReconnectInterval :: duration
  ccf_MaxReconnectAttempts :: goint

definition DefaultClientConfig :: ClientConfig where
  "DefaultClientConfig = \<lparr>ccf_BatchSize = 256, ccf_FlushInterval = 100 * millisecond, ccf_QueueSize = 1024,
     ccf_SourceInstance = ''gatewayd'', ccf_ReconnectInterval = 5 * second, ccf_MaxReconnectAttempts = 0\<rparr>"

text \<open>
  The connection: the call of \<open>AppendBatch\<close>, the dialer if there is one, whether the RPC client is not
  nil, and whether the client's context has been cancelled.
\<close>

record 'w rpc =
  tw_call :: "TelemetryEvent list \<Rightarrow> 'w \<Rightarrow> (rpc_error + AppendBatchResponse) \<times> 'w"
  tw_dial :: "('w \<Rightarrow> bool \<times> 'w) option"
  tw_connected :: "'w \<Rightarrow> bool"

definition reconnect :: "'w rpc \<Rightarrow> 'w \<Rightarrow> bool \<times> 'w" where
  "reconnect rpc w = (case tw_dial rpc of None \<Rightarrow> (False, w) | Some dial \<Rightarrow> dial w)"

datatype attempt_outcome = Settled goint goint | Again

text \<open>One pass of the loop of \<open>sendBatch\<close>; the flags say that it is the last one and that the context is cancelled.\<close>

definition send_once :: "'w rpc \<Rightarrow> bool \<Rightarrow> bool \<Rightarrow> TelemetryEvent list \<Rightarrow> 'w \<Rightarrow> attempt_outcome \<times> 'w" where
  "send_once rpc final ended events w =
     (let lost = Settled 0 (int (length events));
          (connected, w1) = (if tw_connected rpc w then (True, w) else reconnect rpc w)
      in if \<not> connected then (lost, w1)
         else case tw_call rpc events w1 of
             (Inr resp, w2) \<Rightarrow> (Settled (abr_Accepted resp) (abr_Dropped resp), w2)
           | (Inl err, w2) \<Rightarrow>
               (let (again, w3) = (if isConnectionError err then reconnect rpc w2 else (False, w2))
                in if again then (if final then lost else Again, w3)
                   else if final \<or> ended then (lost, w3) else (Again, w3)))"

definition max_attempts_of :: "ClientConfig \<Rightarrow> nat" where
  "max_attempts_of cfg = (if ccf_MaxReconnectAttempts cfg = 0 then 1000 else nat (ccf_MaxReconnectAttempts cfg))"

text \<open>The loop with the number of passes that are left; the context is read before each pass.\<close>

fun send_loop :: "'w rpc \<Rightarrow> ('w \<Rightarrow> bool) \<Rightarrow> TelemetryEvent list \<Rightarrow> nat \<Rightarrow> 'w \<Rightarrow> (goint \<times> goint) \<times> 'w" where
  "send_loop rpc ended events 0 w = ((0, int (length events)), w)"
| "send_loop rpc ended events (Suc left) w =
     (case send_once rpc (left = 0) (ended w) events w of
        (Settled a d, w') \<Rightarrow> ((a, d), w')
      | (Again, w') \<Rightarrow> send_loop rpc ended events left w')"

definition sendBatch :: "'w rpc \<Rightarrow> ClientConfig \<Rightarrow> ('w \<Rightarrow> bool) \<Rightarrow> TelemetryEvent list \<Rightarrow> 'w \<Rightarrow> (goint \<times> goint) \<times> 'w" where
  "sendBatch rpc cfg ended events w =
     (if events = [] then ((0, 0), w) else send_loop rpc ended events (max_attempts_of cfg) w)"

section \<open>The client\<close>

text \<open>
  A batch on its way: who sends it (a goroutine that \<open>Emit\<close> started, or the loop), its events, and how
  many attempts are left. The state of the client is what its mutex, its atomic counters and its goroutines
  hold; \<open>tc_pending\<close> counts the goroutines that have not yet taken the buffer, and \<open>tc_emitted\<close> has the
  events that \<open>Emit\<close> has accepted, which the code does not keep.
\<close>

datatype sender = Spawned | Loop

type_synonym sending = "sender \<times> TelemetryEvent list \<times> nat"

record 'w Client =
  tc_config :: ClientConfig
  tc_buffer :: "TelemetryEvent list"
  tc_pending :: nat
  tc_sending :: "sending multiset"
  tc_sent :: int
  tc_dropped :: int
  tc_cancelled :: bool
  tc_world :: 'w
  tc_emitted :: "TelemetryEvent list"

definition new_client :: "ClientConfig \<Rightarrow> 'w \<Rightarrow> 'w Client" where
  "new_client cfg w = \<lparr>tc_config = cfg, tc_buffer = [], tc_pending = 0, tc_sending = {#}, tc_sent = 0, tc_dropped = 0,
     tc_cancelled = False, tc_world = w, tc_emitted = []\<rparr>"

text \<open>The semaphore \<open>flushSem\<close>, of capacity 2, is held by the goroutines that \<open>Emit\<close> started.\<close>

definition flush_slots :: "'w Client \<Rightarrow> nat" where
  "flush_slots c = tc_pending c + size (filter_mset (\<lambda>s. fst s = Spawned) (tc_sending c))"

fun drop_oldest :: "nat \<Rightarrow> TelemetryEvent list \<Rightarrow> int \<Rightarrow> TelemetryEvent list \<times> int" where
  "drop_oldest q [] d = ([], d)"
| "drop_oldest q (e # b) d = (if q \<le> length (e # b) then drop_oldest q b (d + 1) else (e # b, d))"

definition queue_size :: "ClientConfig \<Rightarrow> nat" where
  "queue_size cfg = (if ccf_QueueSize cfg \<le> 0 then 1024 else nat (ccf_QueueSize cfg))"

text \<open>The first result is whether the event was taken; a cancelled client refuses it.\<close>

definition Emit :: "TelemetryEvent \<Rightarrow> 'w Client \<Rightarrow> bool \<times> 'w Client" where
  "Emit event c =
     (if tc_cancelled c then (False, c)
      else let event' = (if te_SourceInstance event = [] then event\<lparr>te_SourceInstance := ccf_SourceInstance (tc_config c)\<rparr> else event);
               (kept, dropped) = drop_oldest (queue_size (tc_config c)) (tc_buffer c) (tc_dropped c);
               c' = c\<lparr>tc_buffer := kept @ [event'], tc_dropped := dropped, tc_emitted := tc_emitted c @ [event']\<rparr>
           in (True, if ccf_BatchSize (tc_config c) \<le> int (length (kept @ [event'])) \<and> flush_slots c < 2
                then c'\<lparr>tc_pending := tc_pending c + 1\<rparr> else c'))"

text \<open>The first part of \<open>flush\<close>: the buffer becomes a batch.\<close>

definition take_buffer :: "sender \<Rightarrow> 'w Client \<Rightarrow> 'w Client" where
  "take_buffer who c =
     (if tc_buffer c = [] then c
      else c\<lparr>tc_buffer := [], tc_sending := add_mset (who, tc_buffer c, max_attempts_of (tc_config c)) (tc_sending c)\<rparr>)"

definition settle :: "goint \<Rightarrow> goint \<Rightarrow> 'w Client \<Rightarrow> 'w Client" where
  "settle a d c = c\<lparr>tc_sent := tc_sent c + a, tc_dropped := tc_dropped c + d\<rparr>"

text \<open>
  The steps: \<open>Emit\<close>; a started goroutine takes the buffer; the loop does, on a tick, for \<open>Flush\<close> or at
  the end, when it has no batch of its own under way; one attempt to send; the attempts of a batch are used
  up; and the cancellation by \<open>Close\<close>.
\<close>

inductive client_step :: "'w rpc \<Rightarrow> 'w Client \<Rightarrow> 'w Client \<Rightarrow> bool" for rpc where
  emit: "Emit event c = (True, c') \<Longrightarrow> client_step rpc c c'"
| spawned: "tc_pending c = Suc n \<Longrightarrow> client_step rpc c (take_buffer Spawned (c\<lparr>tc_pending := n\<rparr>))"
| tick: "\<forall>s \<in># tc_sending c. fst s \<noteq> Loop \<Longrightarrow> client_step rpc c (take_buffer Loop c)"
| settled: "tc_sending c = add_mset (who, events, Suc left) S \<Longrightarrow>
    send_once rpc (left = 0) (tc_cancelled c) events (tc_world c) = (Settled a d, w) \<Longrightarrow>
    client_step rpc c (settle a d (c\<lparr>tc_sending := S, tc_world := w\<rparr>))"
| again: "tc_sending c = add_mset (who, events, Suc left) S \<Longrightarrow>
    send_once rpc (left = 0) (tc_cancelled c) events (tc_world c) = (Again, w) \<Longrightarrow>
    client_step rpc c (c\<lparr>tc_sending := add_mset (who, events, left) S, tc_world := w\<rparr>)"
| exhausted: "tc_sending c = add_mset (who, events, 0) S \<Longrightarrow>
    client_step rpc c (settle 0 (int (length events)) (c\<lparr>tc_sending := S\<rparr>))"
| cancel: "client_step rpc c (c\<lparr>tc_cancelled := True\<rparr>)"

inductive_cases client_stepE: "client_step rpc c c'"

definition client_run :: "'w rpc \<Rightarrow> ClientConfig \<Rightarrow> 'w \<Rightarrow> 'w Client \<Rightarrow> bool" where
  "client_run rpc cfg w c \<longleftrightarrow> (client_step rpc)\<^sup>*\<^sup>* (new_client cfg w) c"

section \<open>Accounting\<close>

definition in_flight :: "'w Client \<Rightarrow> nat" where
  "in_flight c = (\<Sum>(who, events, left) \<in># tc_sending c. length events)"

definition accounted :: "'w Client \<Rightarrow> bool" where
  "accounted c \<longleftrightarrow> int (length (tc_emitted c)) = tc_sent c + tc_dropped c + int (length (tc_buffer c)) + int (in_flight c) \<and>
     length (tc_buffer c) \<le> queue_size (tc_config c) \<and> flush_slots c \<le> 2"

lemma drop_oldest_counts:
  "drop_oldest q b d = (kept, d') \<Longrightarrow> d' + int (length kept) = d + int (length b) \<and> (0 < q \<longrightarrow> length kept < q) \<and> suffix kept b"
  by (induction q b d rule: drop_oldest.induct) (auto simp: suffix_Cons split: if_splits)

lemma queue_size_pos: "0 < queue_size cfg"
  by (simp add: queue_size_def)

lemma in_flight_congs [simp]:
  "in_flight (c\<lparr>tc_pending := n\<rparr>) = in_flight c" "in_flight (c\<lparr>tc_cancelled := x\<rparr>) = in_flight c"
  "in_flight (c\<lparr>tc_buffer := b, tc_dropped := d, tc_emitted := e\<rparr>) = in_flight c"
  by (simp_all add: in_flight_def)

lemma Emit_accounted: "Emit event c = (True, c') \<Longrightarrow> accounted c \<Longrightarrow> accounted c'"
proof -
  assume e: "Emit event c = (True, c')" and a: "accounted c"
  obtain kept d where k: "drop_oldest (queue_size (tc_config c)) (tc_buffer c) (tc_dropped c) = (kept, d)" by fastforce
  from drop_oldest_counts [OF k] queue_size_pos [of "tc_config c"]
  have "d + int (length kept) = tc_dropped c + int (length (tc_buffer c))" "length kept < queue_size (tc_config c)" by auto
  with e a k show ?thesis
    by (auto simp: Emit_def accounted_def Let_def flush_slots_def in_flight_def split: if_splits)
qed

lemma take_buffer_accounted:
  assumes "accounted c" "who = Spawned \<longrightarrow> flush_slots c < 2"
  shows "accounted (take_buffer who c)"
  using assms by (cases who) (auto simp: take_buffer_def accounted_def in_flight_def flush_slots_def)

text \<open>Nothing is on its way that was not emitted.\<close>

definition from_emitted :: "'w Client \<Rightarrow> bool" where
  "from_emitted c \<longleftrightarrow> set (tc_buffer c) \<subseteq> set (tc_emitted c) \<and>
     (\<forall>(who, events, left) \<in># tc_sending c. set events \<subseteq> set (tc_emitted c))"

lemma step_from_emitted:
  assumes "client_step rpc c c'" "from_emitted c"
  shows "from_emitted c'"
  using assms
proof (cases rule: client_step.cases)
  case (emit event)
  obtain kept d where k: "drop_oldest (queue_size (tc_config c)) (tc_buffer c) (tc_dropped c) = (kept, d)" by fastforce
  have "set kept \<subseteq> set (tc_buffer c)" using drop_oldest_counts [OF k] set_mono_suffix by blast
  then show ?thesis using assms(2) emit k
    by (fastforce simp: Emit_def from_emitted_def Let_def split: if_splits)
qed (use assms(2) in \<open>auto simp: from_emitted_def take_buffer_def settle_def split: if_splits\<close>)

text \<open>
  What the client relies on: a reply counts every event of the batch, as accepted or as dropped.
\<close>

locale ingest_server =
  fixes rpc :: "'w rpc"
  assumes reply_counts: "tw_call rpc events w = (Inr resp, w') \<Longrightarrow> abr_Accepted resp + abr_Dropped resp = int (length events)"
begin

lemma attempt_counts:
  "send_once rpc final ended events w = (Settled a d, w') \<Longrightarrow> a + d = int (length events)"
  by (auto simp: send_once_def Let_def reply_counts split: prod.splits sum.splits if_splits)

lemma loop_counts: "send_loop rpc ended events n w = ((a, d), w') \<Longrightarrow> a + d = int (length events)"
  by (induction n arbitrary: w) (auto simp: attempt_counts split: prod.splits attempt_outcome.splits)

lemma sendBatch_counts: "sendBatch rpc cfg ended events w = ((a, d), w') \<Longrightarrow> a + d = int (length events)"
  by (auto simp: sendBatch_def loop_counts split: if_splits)

lemma step_accounted:
  assumes "client_step rpc c c'" "accounted c"
  shows "accounted c'"
  using assms
proof (cases rule: client_step.cases)
  case (spawned n)
  have "accounted (c\<lparr>tc_pending := n\<rparr>)" "flush_slots (c\<lparr>tc_pending := n\<rparr>) < 2"
    using assms(2) spawned(2) by (auto simp: accounted_def flush_slots_def)
  then show ?thesis unfolding spawned(1) by (simp add: take_buffer_accounted)
next
  case (settled who events left S a d w)
  from attempt_counts [OF settled(3)] settled(1,2) assms(2) show ?thesis
    by (auto simp: accounted_def settle_def in_flight_def flush_slots_def split: if_splits)
next
  case (emit event)
  then show ?thesis using assms(2) by (simp add: Emit_accounted)
next
  case tick
  then show ?thesis using assms(2) by (simp add: take_buffer_accounted)
qed (use assms(2) in \<open>auto simp: accounted_def settle_def in_flight_def flush_slots_def split: if_splits\<close>)

lemma run_accounted: "client_run rpc cfg w c \<Longrightarrow> accounted c"
proof -
  assume "client_run rpc cfg w c"
  then have "(client_step rpc)\<^sup>*\<^sup>* (new_client cfg w) c" by (simp add: client_run_def)
  then show ?thesis
  proof (induction rule: rtranclp_induct)
    case base
    then show ?case by (simp add: accounted_def new_client_def in_flight_def flush_slots_def)
  qed (rule step_accounted)
qed

end

end
