(* ===== verification/Telemetry_Log.thy ===== *)
theory Telemetry_Log
  imports Telemetry_Client Convert_Response
begin

text \<open>
  The event log of the telemetry daemon (\<open>internal/telemetry/eventlog/log.go\<close>) and its RPC
  (\<open>cmd/telemetryd/ingest_rpc.go\<close>): events become rows of a table that is only appended to. The table is its
  content; the result of an SQL statement is a parameter where it depends on the disk.
\<close>

section \<open>The payload of a row\<close>

text \<open>The JSON codec, the text of a \<open>float64\<close> and of a time in it, and how a number is read as a \<open>float64\<close>.\<close>

record log_env =
  lg_parse :: parser
  lg_marshal :: "json \<Rightarrow> string option"
  lg_float :: "float64 \<Rightarrow> string"
  lg_read_float :: "string \<Rightarrow> float64 option"
  lg_time :: "gotime \<Rightarrow> string"

definition payload_members :: "log_env \<Rightarrow> Event \<Rightarrow> (string \<times> json) list" where
  "payload_members env e =
     (let float = (\<lambda>x. JNumber (lg_float env x)); p = ev_pricing e; (prompt, cached, completion) = ev_tokens e in
      [(''request_id'', JString (ev_RequestID e)), (''timestamp'', JString (lg_time env (ev_Timestamp e))),
        (''path'', JString (ev_Path e)), (''requested_model'', JString (ev_RequestedModel e)),
        (''effective_model'', JString (ev_EffectiveModel e)), (''provider_id'', JString (ev_ProviderID e)),
        (''route_mode'', JString (ev_RouteMode e)), (''status_code'', jint (ev_StatusCode e)),
        (''latency_ms'', jint (go_div (ev_Latency e) millisecond)), (''attempts'', jint (ev_Attempts e)),
        (''prompt_tokens'', jint prompt), (''cached_prompt_tokens'', jint cached), (''completion_tokens'', jint completion),
        (''pricing_status'', JString (fx_Status p)), (''pricing_source_id'', JString (fx_SourceID p)),
        (''pricing_currency'', JString (fx_Currency p)), (''pricing_fx_rate_to_usd'', float (fx_FXRateToUSD p)),
        (''pricing_input_per_1m'', float (fx_InputPer1M p)), (''pricing_cached_input_per_1m'', float (fx_CachedInputPer1M p)),
        (''pricing_output_per_1m'', float (fx_OutputPer1M p)), (''pricing_prompt_cost'', float (fx_PromptCost p)),
        (''pricing_completion_cost'', float (fx_CompletionCost p)), (''pricing_total_cost'', float (fx_TotalCost p)),
        (''pricing_prompt_cost_usd'', float (fx_PromptCostUSD p)), (''pricing_completion_cost_usd'', float (fx_CompletionCostUSD p)),
        (''pricing_total_cost_usd'', float (fx_TotalCostUSD p)), (''synthetic_kind'', JString (ev_SyntheticKind e)),
        (''benchmark_run_id'', JString (ev_BenchmarkRunID e)), (''benchmark_target_id'', JString (ev_BenchmarkTargetID e)),
        (''benchmark_case_id'', JString (ev_BenchmarkCaseID e)), (''stream'', JBool (ev_Stream e)), (''error'', JString (ev_Error e))])"

definition payload_json :: "log_env \<Rightarrow> Event \<Rightarrow> json" where
  "payload_json env e = jobj (payload_members env e)"

definition serializePayload :: "log_env \<Rightarrow> Event \<Rightarrow> string option" where
  "serializePayload env e = lg_marshal env (payload_json env e)"

section \<open>The log\<close>

text \<open>A row; the time of emission stands for its text, and \<open>created_at\<close> is left out.\<close>

record log_row =
  lr_ID :: int
  lr_EventID :: string
  lr_EventType :: string
  lr_SchemaVersion :: goint
  lr_SourceService :: string
  lr_SourceInstance :: string
  lr_EmittedAt :: gotime
  lr_Imported :: bool
  lr_Payload :: string

text \<open>The rows in the order of their identifiers, and the highest identifier so far (\<open>AUTOINCREMENT\<close>).\<close>

record EventLog =
  el_rows :: "log_row list"
  el_seq :: int

definition empty_log :: EventLog where "empty_log = \<lparr>el_rows = [], el_seq = 0\<rparr>"

text \<open>Whether a transaction can be begun, each insertion can be written, and the transaction can be committed.\<close>

record append_io =
  ai_Begin :: bool
  ai_Insert :: "string \<Rightarrow> bool"
  ai_Commit :: bool

definition good_io :: append_io where
  "good_io = \<lparr>ai_Begin = True, ai_Insert = (\<lambda>i. True), ai_Commit = True\<rparr>"

definition event_row :: "TelemetryEvent \<Rightarrow> string \<Rightarrow> int \<Rightarrow> log_row" where
  "event_row te payload i = \<lparr>lr_ID = i, lr_EventID = ev_EventID (te_Event te), lr_EventType = te_EventType te,
     lr_SchemaVersion = te_SchemaVersion te, lr_SourceService = te_SourceService te, lr_SourceInstance = te_SourceInstance te,
     lr_EmittedAt = ev_EmittedAt (te_Event te), lr_Imported = te_Imported te, lr_Payload = payload\<rparr>"

text \<open>One event of the loop: \<open>event_id\<close> is \<open>UNIQUE\<close>, and an event that cannot be written is skipped.\<close>

definition insert_event :: "log_env \<Rightarrow> append_io \<Rightarrow> TelemetryEvent \<Rightarrow> EventLog \<Rightarrow> EventLog option" where
  "insert_event env io te l =
     (case serializePayload env (te_Event te) of
        None \<Rightarrow> None
      | Some payload \<Rightarrow>
          if ev_EventID (te_Event te) \<in> lr_EventID ` set (el_rows l) \<or> \<not> ai_Insert io (ev_EventID (te_Event te)) then None
          else Some \<lparr>el_rows = el_rows l @ [event_row te payload (el_seq l + 1)], el_seq = el_seq l + 1\<rparr>)"

fun append_loop :: "log_env \<Rightarrow> append_io \<Rightarrow> TelemetryEvent list \<Rightarrow> (nat \<times> nat) \<times> EventLog \<Rightarrow> (nat \<times> nat) \<times> EventLog" where
  "append_loop env io [] acc = acc"
| "append_loop env io (te # tes) ((n, d), l) =
     (case insert_event env io te l of
        None \<Rightarrow> append_loop env io tes ((n, d + 1), l)
      | Some l' \<Rightarrow> append_loop env io tes ((n + 1, d), l'))"

text \<open>The first result is whether there was an error; then nothing is written.\<close>

definition Append :: "log_env \<Rightarrow> append_io \<Rightarrow> TelemetryEvent list \<Rightarrow> EventLog \<Rightarrow> (bool \<times> nat \<times> nat) \<times> EventLog" where
  "Append env io events l =
     (if \<not> ai_Begin io then ((True, 0, length events), l)
      else case append_loop env io events ((0, 0), l) of
          ((n, d), l') \<Rightarrow>
            if ai_Commit io then ((False, n, d), l') else ((True, 0, length events), l))"

section \<open>The daemon\<close>

definition AppendEvents :: "log_env \<Rightarrow> append_io \<Rightarrow> TelemetryEvent list \<Rightarrow> EventLog \<Rightarrow> (bool \<times> nat \<times> nat) \<times> EventLog" where
  "AppendEvents env io events l =
     (case Append env io events l of
        ((err, n, d), l') \<Rightarrow> (if err then (True, 0, length events) else (False, n, d), l'))"

text \<open>The RPC reports an error of the log as a reply, not as an error of the call.\<close>

definition AppendBatch :: "log_env \<Rightarrow> append_io \<Rightarrow> TelemetryEvent list \<Rightarrow> EventLog \<Rightarrow> AppendBatchResponse \<times> EventLog" where
  "AppendBatch env io events l =
     (if events = [] then (\<lparr>abr_Accepted = 0, abr_Dropped = 0\<rparr>, l)
      else case AppendEvents env io events l of
          ((err, n, d), l') \<Rightarrow>
            (if err then \<lparr>abr_Accepted = 0, abr_Dropped = int (length events)\<rparr>
             else \<lparr>abr_Accepted = int n, abr_Dropped = int d\<rparr>, l'))"

text \<open>
  The client's connection to the daemon. What happens to a call is not up to them: it arrives and is
  answered, or it does not arrive, or its answer is lost.
\<close>

datatype call_fate = Answered append_io | Request_lost rpc_error | Reply_lost append_io rpc_error

record daemon_world =
  dw_log :: EventLog
  dw_calls :: "call_fate list"
  dw_dials :: "bool list"

definition daemon_call :: "log_env \<Rightarrow> TelemetryEvent list \<Rightarrow> daemon_world \<Rightarrow> (rpc_error + AppendBatchResponse) \<times> daemon_world" where
  "daemon_call env events w =
     (let w' = w\<lparr>dw_calls := tl (dw_calls w)\<rparr> in
      case (case dw_calls w of [] \<Rightarrow> Answered good_io | f # fs \<Rightarrow> f) of
        Answered io \<Rightarrow> (case AppendBatch env io events (dw_log w) of (resp, l) \<Rightarrow> (Inr resp, w'\<lparr>dw_log := l\<rparr>))
      | Request_lost err \<Rightarrow> (Inl err, w')
      | Reply_lost io err \<Rightarrow> (case AppendBatch env io events (dw_log w) of (resp, l) \<Rightarrow> (Inl err, w'\<lparr>dw_log := l\<rparr>)))"

definition daemon_dial :: "daemon_world \<Rightarrow> bool \<times> daemon_world" where
  "daemon_dial w = (case dw_dials w of [] \<Rightarrow> True | d # ds \<Rightarrow> d, w\<lparr>dw_dials := tl (dw_dials w)\<rparr>)"

definition daemon_rpc :: "log_env \<Rightarrow> daemon_world rpc" where
  "daemon_rpc env = \<lparr>tw_call = daemon_call env, tw_dial = Some daemon_dial, tw_connected = (\<lambda>w. True)\<rparr>"

section \<open>The log only grows\<close>

text \<open>
  Identifiers ascend, and no event is there twice.
\<close>

definition log_ok :: "EventLog \<Rightarrow> bool" where
  "log_ok l \<longleftrightarrow> sorted_wrt (<) (map lr_ID (el_rows l)) \<and> (\<forall>r \<in> set (el_rows l). 0 < lr_ID r \<and> lr_ID r \<le> el_seq l) \<and>
     distinct (map lr_EventID (el_rows l)) \<and> 0 \<le> el_seq l"

text \<open>What is added are rows of the given events, in their order.\<close>

definition row_of :: "log_env \<Rightarrow> TelemetryEvent list \<Rightarrow> log_row \<Rightarrow> bool" where
  "row_of env events r \<longleftrightarrow>
     (\<exists>te \<in> set events. \<exists>payload. serializePayload env (te_Event te) = Some payload \<and> r = event_row te payload (lr_ID r))"

definition grows_by :: "log_env \<Rightarrow> TelemetryEvent list \<Rightarrow> nat \<Rightarrow> EventLog \<Rightarrow> EventLog \<Rightarrow> bool" where
  "grows_by env events n l l' \<longleftrightarrow>
     (\<exists>rows. el_rows l' = el_rows l @ rows \<and> length rows = n \<and> list_all (row_of env events) rows) \<and>
     (log_ok l \<longrightarrow> log_ok l')"

lemma grows_by_refl: "grows_by env events 0 l l"
  by (simp add: grows_by_def)

lemma row_of_mono: "row_of env events r \<Longrightarrow> set events \<subseteq> set events' \<Longrightarrow> row_of env events' r"
  unfolding row_of_def by blast

lemma rows_of_mono: "list_all (row_of env events) rows \<Longrightarrow> set events \<subseteq> set events' \<Longrightarrow> list_all (row_of env events') rows"
  by (auto simp: list_all_iff intro: row_of_mono)

lemma grows_by_trans:
  assumes "grows_by env events n l l'" "grows_by env events' m l' l''"
  shows "grows_by env (events @ events') (n + m) l l''"
proof -
  obtain r1 r2 where "el_rows l' = el_rows l @ r1" "length r1 = n" "el_rows l'' = el_rows l' @ r2" "length r2 = m"
    "list_all (row_of env events) r1" "list_all (row_of env events') r2"
    using assms by (auto simp: grows_by_def)
  moreover from this have "list_all (row_of env (events @ events')) (r1 @ r2)"
    by (simp add: rows_of_mono)
  moreover have "log_ok l \<longrightarrow> log_ok l''" using assms by (simp add: grows_by_def)
  ultimately show ?thesis unfolding grows_by_def by (intro conjI exI [of _ "r1 @ r2"]) auto
qed

lemma insert_event_grows: "insert_event env io te l = Some l' \<Longrightarrow> grows_by env [te] 1 l l'"
  by (fastforce simp: insert_event_def grows_by_def log_ok_def row_of_def event_row_def sorted_wrt_append
      split: option.splits if_splits)

lemma append_loop_grows:
  "append_loop env io events ((a, d), l) = ((a', d'), l') \<Longrightarrow>
     a' + d' = a + d + length events \<and> a \<le> a' \<and> grows_by env events (a' - a) l l'"
proof (induction events arbitrary: a d l)
  case (Cons te tes)
  show ?case
  proof (cases "insert_event env io te l")
    case None
    with Cons.IH [of a "d + 1" l] Cons.prems grows_by_trans [OF grows_by_refl [of env "[te]" l], of tes "a' - a" l'] show ?thesis by simp
  next
    case (Some l1)
    with Cons.prems have "append_loop env io tes ((a + 1, d), l1) = ((a', d'), l')" by simp
    from Cons.IH [OF this] grows_by_trans [OF insert_event_grows [OF Some], of tes "a' - (a + 1)" l'] show ?thesis
      by (simp add: Suc_diff_Suc Suc_le_eq)
  qed
qed (simp add: grows_by_refl)

lemma Append_grows:
  assumes "Append env io events l = ((err, a, d), l')"
  shows "a + d = length events \<and> grows_by env events a l l'"
proof (cases "ai_Begin io \<and> ai_Commit io")
  case True
  with assms append_loop_grows [of env io events 0 0 l] show ?thesis by (auto simp: Append_def split: prod.splits)
qed (use assms in \<open>auto simp: Append_def grows_by_refl split: prod.splits if_splits\<close>)

lemma AppendBatch_grows:
  assumes "AppendBatch env io events l = (resp, l')"
  shows "\<exists>n. abr_Accepted resp = int n \<and> int n + abr_Dropped resp = int (length events) \<and> grows_by env events n l l'"
proof (cases "events = []")
  case False
  obtain err a d l1 where ap: "Append env io events l = ((err, a, d), l1)" by (metis prod.exhaust)
  from Append_grows [OF ap] False assms ap show ?thesis
    by (cases err) (auto simp: AppendBatch_def AppendEvents_def Append_def grows_by_refl split: prod.splits if_splits)
qed (use assms in \<open>auto simp: AppendBatch_def grows_by_refl\<close>)

interpretation telemetryd: ingest_server "daemon_rpc env" for env
proof
  fix events w resp w'
  assume "tw_call (daemon_rpc env) events w = (Inr resp, w')"
  then obtain io l where "AppendBatch env io events (dw_log w) = (resp, l)"
    by (auto simp: daemon_rpc_def daemon_call_def Let_def split: call_fate.splits prod.splits)
  from AppendBatch_grows [OF this] show "abr_Accepted resp + abr_Dropped resp = int (length events)" by auto
qed

section \<open>From Emit to the log\<close>

lemma daemon_call_grows:
  assumes "daemon_call env events w = (r, w')"
  shows "\<exists>n. grows_by env events n (dw_log w) (dw_log w') \<and> (\<forall>resp. r = Inr resp \<longrightarrow> abr_Accepted resp = int n)"
proof -
  obtain fate where f: "(case dw_calls w of [] \<Rightarrow> Answered good_io | f # fs \<Rightarrow> f) = fate" by simp
  show ?thesis
  proof (cases fate)
    case (Answered io)
    obtain resp l where "AppendBatch env io events (dw_log w) = (resp, l)" by fastforce
    with AppendBatch_grows [OF this] assms f Answered show ?thesis by (auto simp: daemon_call_def Let_def)
  next
    case (Request_lost err)
    with assms f show ?thesis using grows_by_refl [of env events "dw_log w"] by (auto simp: daemon_call_def Let_def)
  next
    case (Reply_lost io err)
    obtain resp l where "AppendBatch env io events (dw_log w) = (resp, l)" by fastforce
    with AppendBatch_grows [OF this] assms f Reply_lost show ?thesis by (auto simp: daemon_call_def Let_def)
  qed
qed

lemma reconnect_log: "reconnect (daemon_rpc env) w = (b, w') \<Longrightarrow> dw_log w' = dw_log w"
  by (auto simp: reconnect_def daemon_rpc_def daemon_dial_def)

lemma attempt_grows:
  assumes "send_once (daemon_rpc env) final ended events w = (out, w')"
  shows "\<exists>n. grows_by env events n (dw_log w) (dw_log w') \<and> (\<forall>a d. out = Settled a d \<longrightarrow> a \<le> int n)"
proof -
  obtain r w2 where call: "daemon_call env events w = (r, w2)" by fastforce
  from daemon_call_grows [OF call] obtain n where n: "grows_by env events n (dw_log w) (dw_log w2)"
    "\<And>resp. r = Inr resp \<Longrightarrow> abr_Accepted resp = int n" by blast
  show ?thesis
  proof (cases r)
    case (Inl err)
    obtain b w3 where b: "(if isConnectionError err then reconnect (daemon_rpc env) w2 else (False, w2)) = (b, w3)" by fastforce
    then have "dw_log w3 = dw_log w2" by (auto simp: reconnect_log split: if_splits)
    moreover have "w' = w3 \<and> (\<forall>a d. out = Settled a d \<longrightarrow> a = 0)"
      using assms call Inl b by (auto simp: send_once_def Let_def daemon_rpc_def split: if_splits)
    ultimately show ?thesis using n(1) by auto
  next
    case (Inr resp)
    with assms call n show ?thesis by (auto simp: send_once_def Let_def daemon_rpc_def)
  qed
qed

text \<open>
  What the log has got since the client started are rows of emitted events, at least as many as the client
  says were sent.
\<close>

definition logged :: "log_env \<Rightarrow> EventLog \<Rightarrow> daemon_world Client \<Rightarrow> bool" where
  "logged env l0 c \<longleftrightarrow> log_ok (dw_log (tc_world c)) \<and>
     (\<exists>rows. el_rows (dw_log (tc_world c)) = el_rows l0 @ rows \<and> tc_sent c \<le> int (length rows) \<and>
       list_all (row_of env (tc_emitted c)) rows)"

lemma logged_sends:
  assumes "logged env l0 c" "from_emitted c" "(who, events, left) \<in># tc_sending c"
    "grows_by env events n (dw_log (tc_world c)) (dw_log w)" "tc_sent c' \<le> tc_sent c + int n"
    "tc_emitted c' = tc_emitted c" "tc_world c' = w"
  shows "logged env l0 c'"
proof -
  obtain rows where "el_rows (dw_log (tc_world c)) = el_rows l0 @ rows" "tc_sent c \<le> int (length rows)"
    "list_all (row_of env (tc_emitted c)) rows" using assms(1) by (auto simp: logged_def)
  moreover obtain rows' where "el_rows (dw_log w) = el_rows (dw_log (tc_world c)) @ rows'" "length rows' = n"
    "list_all (row_of env events) rows'" using assms(4) by (auto simp: grows_by_def)
  moreover have "set events \<subseteq> set (tc_emitted c)" using assms(2,3) by (auto simp: from_emitted_def)
  moreover from calculation have "list_all (row_of env (tc_emitted c)) (rows @ rows')" by (simp add: rows_of_mono)
  moreover have "log_ok (dw_log w)" using assms(1,4) by (simp add: logged_def grows_by_def)
  ultimately show ?thesis unfolding logged_def assms(6,7) using assms(5) by (intro conjI exI [of _ "rows @ rows'"]) auto
qed

lemma logged_quiet:
  assumes "logged env l0 c" "tc_sent c' = tc_sent c" "tc_world c' = tc_world c" "set (tc_emitted c) \<subseteq> set (tc_emitted c')"
  shows "logged env l0 c'"
  using assms by (auto simp: logged_def intro: rows_of_mono)

lemma step_logged:
  assumes "client_step (daemon_rpc env) c c'" "logged env l0 c" "from_emitted c"
  shows "logged env l0 c'"
  using assms(1)
proof (cases rule: client_step.cases)
  case (emit event)
  then show ?thesis
    by (intro logged_quiet [OF assms(2)]) (auto simp: Emit_def Let_def split: if_splits prod.splits)
next
  case (spawned n)
  then show ?thesis by (intro logged_quiet [OF assms(2)]) (auto simp: take_buffer_def)
next
  case tick
  then show ?thesis by (intro logged_quiet [OF assms(2)]) (auto simp: take_buffer_def)
next
  case (settled who events left S a d w)
  from attempt_grows [OF settled(3)] obtain n where "grows_by env events n (dw_log (tc_world c)) (dw_log w)" "a \<le> int n" by auto
  then show ?thesis using settled(1,2)
    by (intro logged_sends [OF assms(2,3), of who events "Suc left" n w]) (auto simp: settle_def)
next
  case (again who events left S w)
  from attempt_grows [OF again(3)] obtain n where "grows_by env events n (dw_log (tc_world c)) (dw_log w)" by auto
  then show ?thesis using again(1,2)
    by (intro logged_sends [OF assms(2,3), of who events "Suc left" n w]) auto
next
  case (exhausted who events S)
  then show ?thesis by (intro logged_quiet [OF assms(2)]) (auto simp: settle_def)
next
  case cancel
  then show ?thesis by (intro logged_quiet [OF assms(2)]) auto
qed

lemma run_logged:
  assumes "client_run (daemon_rpc env) cfg w c" "log_ok (dw_log w)"
  shows "logged env (dw_log w) c \<and> from_emitted c"
  using assms(1) unfolding client_run_def
proof (induction rule: rtranclp_induct)
  case base
  then show ?case using assms(2) by (simp add: logged_def new_client_def from_emitted_def)
qed (blast intro: step_logged step_from_emitted)

text \<open>
  C21 The accounts of the client are right, in every interleaving of its goroutines and whatever calls,
  answers and writes are lost: every event that \<open>Emit\<close> accepted is counted as sent or dropped or is
  still buffered or on its way, at most as many are counted as sent as the log has got, the log has no
  event twice although batches are sent again, and it has only what was emitted. The buffer stays within
  the queue size, and at most two goroutines flush besides the loop.\<close>

theorem telemetry_accounting:
  assumes "client_run (daemon_rpc env) cfg w c" "log_ok (dw_log w)"
  shows "int (length (tc_emitted c)) = tc_sent c + tc_dropped c + int (length (tc_buffer c)) + int (in_flight c) \<and>
    length (tc_buffer c) \<le> queue_size (tc_config c) \<and> flush_slots c \<le> 2 \<and> log_ok (dw_log (tc_world c)) \<and>
    (\<exists>rows. el_rows (dw_log (tc_world c)) = el_rows (dw_log w) @ rows \<and> tc_sent c \<le> int (length rows) \<and>
      list_all (row_of env (tc_emitted c)) rows)"
  using telemetryd.run_accounted [OF assms(1)] run_logged [OF assms] by (simp add: accounted_def logged_def)

definition demo_log_env :: log_env where
  "demo_log_env = \<lparr>lg_parse = (\<lambda>s. None), lg_marshal = (\<lambda>v. Some ''{}''), lg_float = (\<lambda>x. ''0''), lg_read_float = (\<lambda>s. Some 0),
     lg_time = (\<lambda>t. [])\<rparr>"

definition demo_event :: "string \<Rightarrow> Event" where
  "demo_event i = \<lparr>ev_EventID = i, ev_EmittedAt = 7, ev_RequestID = ''r'', ev_Timestamp = 7, ev_Path = ''/'', ev_RequestedModel = ''m'',
     ev_EffectiveModel = ''m'', ev_ProviderID = ''p'', ev_RouteMode = ''direct'', ev_StatusCode = 200, ev_Latency = 5000000,
     ev_Attempts = 1, ev_tokens = (3, 1, 4), ev_pricing = zero_pricing, ev_SyntheticKind = [], ev_BenchmarkRunID = [],
     ev_BenchmarkTargetID = [], ev_BenchmarkCaseID = [], ev_Stream = False, ev_Error = []\<rparr>"

text \<open>A client that emits one event, loses the reply to its batch, and sends it again, which counts it as dropped.\<close>

definition demo_daemon :: daemon_world where
  "demo_daemon = \<lparr>dw_log = empty_log, dw_calls = [Reply_lost good_io \<lparr>re_NetError = True, re_Closed = False, re_Errno = None, re_Text = []\<rparr>],
     dw_dials = []\<rparr>"

definition demo_emitted :: TelemetryEvent where
  "demo_emitted = handler_event (demo_event ''e'')\<lparr>te_SourceInstance := ''gatewayd''\<rparr>"

definition demo_client :: "daemon_world Client" where
  "demo_client = \<lparr>tc_config = DefaultClientConfig, tc_buffer = [], tc_pending = 0, tc_sending = {#}, tc_sent = 0, tc_dropped = 1,
     tc_cancelled = False, tc_world = \<lparr>dw_log = \<lparr>el_rows = [event_row demo_emitted ''{}'' 1], el_seq = 1\<rparr>, dw_calls = [], dw_dials = []\<rparr>,
     tc_emitted = [demo_emitted]\<rparr>"

lemma demo_client_run: "client_run (daemon_rpc demo_log_env) DefaultClientConfig demo_daemon demo_client"
proof -
  let ?rpc = "daemon_rpc demo_log_env" and ?te = demo_emitted
  let ?c0 = "new_client DefaultClientConfig demo_daemon"
  let ?c1 = "?c0\<lparr>tc_buffer := [?te], tc_emitted := [?te]\<rparr>"
  let ?c2 = "?c1\<lparr>tc_buffer := [], tc_sending := {#(Loop, [?te], 1000)#}\<rparr>"
  let ?w3 = "tc_world demo_client"
  let ?c3 = "?c2\<lparr>tc_sending := {#(Loop, [?te], 999)#}, tc_world := ?w3\<rparr>"
  have emit: "Emit (handler_event (demo_event ''e'')) ?c0 = (True, ?c1)"
    by (simp add: Emit_def new_client_def demo_emitted_def handler_event_def DefaultClientConfig_def queue_size_def Let_def)
  have 1: "client_step ?rpc ?c0 ?c1" by (rule client_step.emit [OF emit])
  have 2: "client_step ?rpc ?c1 ?c2"
    using client_step.tick [of ?c1 ?rpc] by (simp add: new_client_def take_buffer_def max_attempts_of_def DefaultClientConfig_def)
  have call: "daemon_call demo_log_env [?te] demo_daemon =
      (Inl \<lparr>re_NetError = True, re_Closed = False, re_Errno = None, re_Text = []\<rparr>, ?w3)"
    by (simp add: daemon_call_def demo_daemon_def demo_client_def AppendBatch_def AppendEvents_def Append_def good_io_def insert_event_def
        serializePayload_def demo_log_env_def empty_log_def)
  have "send_once ?rpc False False [?te] demo_daemon = (Again, ?w3)"
    using call by (simp add: send_once_def daemon_rpc_def isConnectionError_def reconnect_def daemon_dial_def demo_client_def)
  then have 3: "client_step ?rpc ?c2 ?c3"
    using client_step.again [of ?c2 Loop "[?te]" 999 "{#}" ?rpc ?w3] by (simp add: new_client_def)
  have "daemon_call demo_log_env [?te] ?w3 = (Inr \<lparr>abr_Accepted = 0, abr_Dropped = 1\<rparr>, ?w3)"
    by (simp add: daemon_call_def demo_client_def AppendBatch_def AppendEvents_def Append_def good_io_def insert_event_def
        serializePayload_def demo_log_env_def event_row_def)
  then have "send_once ?rpc False False [?te] ?w3 = (Settled 0 1, ?w3)" by (simp add: send_once_def daemon_rpc_def)
  then have 4: "client_step ?rpc ?c3 demo_client"
    using client_step.settled [of ?c3 Loop "[?te]" 998 "{#}" ?rpc 0 1 ?w3]
    by (simp add: new_client_def settle_def demo_client_def)
  show ?thesis unfolding client_run_def using 1 2 3 4 by (meson converse_rtranclp_into_rtranclp rtranclp.rtrancl_refl)
qed

lemma telemetry_accounting_witness:
  "log_ok (dw_log (tc_world demo_client)) \<and>
   int (length (tc_emitted demo_client)) = tc_sent demo_client + tc_dropped demo_client + int (in_flight demo_client)"
proof -
  have "log_ok (dw_log demo_daemon)" by (simp add: log_ok_def demo_daemon_def empty_log_def)
  from telemetry_accounting [OF demo_client_run this] show ?thesis by (simp add: demo_client_def)
qed

text \<open>In that run the event is in the log, and the client counts it as dropped.\<close>

lemma resent_event_counted_dropped:
  "\<exists>c. client_run (daemon_rpc demo_log_env) DefaultClientConfig demo_daemon c \<and>
     length (el_rows (dw_log (tc_world c))) = 1 \<and> tc_sent c = 0 \<and> tc_dropped c = 1"
  using demo_client_run by (intro exI [of _ demo_client]) (simp add: demo_client_def)

end
