(* ===== verification/Telemetry_Projection.thy ===== *)
theory Telemetry_Projection
  imports Telemetry_Log
begin

text \<open>
  The projection of the event log into the query store (\<open>internal/telemetry/project/worker.go\<close>,
  \<open>internal/telemetry/query/store.go\<close>): facts, one for each completed attempt, aggregates per minute, model and
  provider, and the checkpoint, which are written in one transaction.
\<close>

section \<open>Facts\<close>

text \<open>The payload as it is read back; the prices are one record.\<close>

record eventPayload =
  pl_RequestID :: string
  pl_Timestamp :: string
  pl_Path :: string
  pl_RequestedModel :: string
  pl_EffectiveModel :: string
  pl_ProviderID :: string
  pl_RouteMode :: string
  pl_StatusCode :: goint
  pl_LatencyMs :: int
  pl_Attempts :: goint
  pl_PromptTokens :: int
  pl_CachedPromptTokens :: int
  pl_CompletionTokens :: int
  pl_Pricing :: FixedPricing
  pl_SyntheticKind :: string
  pl_BenchmarkRunID :: string
  pl_BenchmarkTargetID :: string
  pl_BenchmarkCaseID :: string
  pl_Stream :: bool
  pl_Error :: string

definition set_float :: "log_env \<Rightarrow> json \<Rightarrow> float64 \<Rightarrow> float64 option" where
  "set_float env v old = (case v of JNull \<Rightarrow> Some old | JNumber s \<Rightarrow> lg_read_float env s | _ \<Rightarrow> None)"

definition decode_pricing :: "log_env \<Rightarrow> (string \<times> json) list \<Rightarrow> FixedPricing option" where
  "decode_pricing env kvs =
     bind (each_field ''pricing_status'' set_string kvs []) (\<lambda>status.
     bind (each_field ''pricing_source_id'' set_string kvs []) (\<lambda>source.
     bind (each_field ''pricing_currency'' set_string kvs []) (\<lambda>currency.
     bind (each_field ''pricing_fx_rate_to_usd'' (set_float env) kvs 0) (\<lambda>fx.
     bind (each_field ''pricing_input_per_1m'' (set_float env) kvs 0) (\<lambda>input.
     bind (each_field ''pricing_cached_input_per_1m'' (set_float env) kvs 0) (\<lambda>cached.
     bind (each_field ''pricing_output_per_1m'' (set_float env) kvs 0) (\<lambda>output.
     bind (each_field ''pricing_prompt_cost'' (set_float env) kvs 0) (\<lambda>prompt.
     bind (each_field ''pricing_completion_cost'' (set_float env) kvs 0) (\<lambda>completion.
     bind (each_field ''pricing_total_cost'' (set_float env) kvs 0) (\<lambda>total.
     bind (each_field ''pricing_prompt_cost_usd'' (set_float env) kvs 0) (\<lambda>promptUSD.
     bind (each_field ''pricing_completion_cost_usd'' (set_float env) kvs 0) (\<lambda>completionUSD.
     bind (each_field ''pricing_total_cost_usd'' (set_float env) kvs 0) (\<lambda>totalUSD.
       Some \<lparr>fx_Status = status, fx_SourceID = source, fx_Currency = currency, fx_FXRateToUSD = fx, fx_InputPer1M = input,
         fx_CachedInputPer1M = cached, fx_OutputPer1M = output, fx_PromptCost = prompt, fx_CompletionCost = completion,
         fx_TotalCost = total, fx_PromptCostUSD = promptUSD, fx_CompletionCostUSD = completionUSD,
         fx_TotalCostUSD = totalUSD\<rparr>)))))))))))))"

definition decode_eventPayload :: "log_env \<Rightarrow> (string \<times> json) list \<Rightarrow> eventPayload option" where
  "decode_eventPayload env kvs =
     bind (each_field ''request_id'' set_string kvs []) (\<lambda>requestID.
     bind (each_field ''timestamp'' set_string kvs []) (\<lambda>timestamp.
     bind (each_field ''path'' set_string kvs []) (\<lambda>path.
     bind (each_field ''requested_model'' set_string kvs []) (\<lambda>requested.
     bind (each_field ''effective_model'' set_string kvs []) (\<lambda>effective.
     bind (each_field ''provider_id'' set_string kvs []) (\<lambda>provider.
     bind (each_field ''route_mode'' set_string kvs []) (\<lambda>mode.
     bind (each_field ''status_code'' set_int64 kvs 0) (\<lambda>status.
     bind (each_field ''latency_ms'' set_int64 kvs 0) (\<lambda>latency.
     bind (each_field ''attempts'' set_int64 kvs 0) (\<lambda>attempts.
     bind (each_field ''prompt_tokens'' set_int64 kvs 0) (\<lambda>prompt.
     bind (each_field ''cached_prompt_tokens'' set_int64 kvs 0) (\<lambda>cached.
     bind (each_field ''completion_tokens'' set_int64 kvs 0) (\<lambda>completion.
     bind (decode_pricing env kvs) (\<lambda>pricing.
     bind (each_field ''synthetic_kind'' set_string kvs []) (\<lambda>kind.
     bind (each_field ''benchmark_run_id'' set_string kvs []) (\<lambda>runID.
     bind (each_field ''benchmark_target_id'' set_string kvs []) (\<lambda>targetID.
     bind (each_field ''benchmark_case_id'' set_string kvs []) (\<lambda>caseID.
     bind (each_field ''stream'' set_bool kvs False) (\<lambda>stream.
     bind (each_field ''error'' set_string kvs []) (\<lambda>err.
       Some \<lparr>pl_RequestID = requestID, pl_Timestamp = timestamp, pl_Path = path, pl_RequestedModel = requested,
         pl_EffectiveModel = effective, pl_ProviderID = provider, pl_RouteMode = mode, pl_StatusCode = status, pl_LatencyMs = latency,
         pl_Attempts = attempts, pl_PromptTokens = prompt, pl_CachedPromptTokens = cached, pl_CompletionTokens = completion,
         pl_Pricing = pricing, pl_SyntheticKind = kind, pl_BenchmarkRunID = runID, pl_BenchmarkTargetID = targetID,
         pl_BenchmarkCaseID = caseID, pl_Stream = stream, pl_Error = err\<rparr>))))))))))))))))))))"

definition PricingStatusFixed :: string where "PricingStatusFixed = ''fixed''"
definition PricingStatusEstimatedLegacy :: string where "PricingStatusEstimatedLegacy = ''estimated_legacy''"
definition PricingStatusUnpriced :: string where "PricingStatusUnpriced = ''unpriced''"

definition normalizeProjectedPricingStatus :: "string \<Rightarrow> int \<Rightarrow> int \<Rightarrow> int \<Rightarrow> string" where
  "normalizeProjectedPricingStatus status promptTokens cachedPromptTokens completionTokens =
     (if status \<in> {PricingStatusFixed, PricingStatusEstimatedLegacy, PricingStatusUnpriced} then status
      else if 0 < promptTokens \<or> 0 < cachedPromptTokens \<or> 0 < completionTokens then PricingStatusEstimatedLegacy
      else PricingStatusUnpriced)"

text \<open>The store has the same function under another name.\<close>

definition normalizePricingStatus :: "string \<Rightarrow> int \<Rightarrow> int \<Rightarrow> int \<Rightarrow> string" where
  "normalizePricingStatus status promptTokens cachedPromptTokens completionTokens =
     (if status \<in> {PricingStatusFixed, PricingStatusEstimatedLegacy, PricingStatusUnpriced} then status
      else if 0 < promptTokens \<or> 0 < cachedPromptTokens \<or> 0 < completionTokens then PricingStatusEstimatedLegacy
      else PricingStatusUnpriced)"

text \<open>A fact: the fields that are copied from the payload are its record; times stand for their texts.\<close>

record ProjectionFact =
  pf_EventID :: string
  pf_Timestamp :: gotime
  pf_Bucket :: gotime
  pf_PricingStatus :: string
  pf_Payload :: eventPayload

definition truncateToMinute :: "gotime \<Rightarrow> gotime" where
  "truncateToMinute t = t - t mod minute"

text \<open>Rows of another type and rows whose payload cannot be read give no fact.\<close>

definition row_facts :: "log_env \<Rightarrow> log_row \<Rightarrow> ProjectionFact list" where
  "row_facts env r =
     (if lr_EventType r \<noteq> attempt_completed then []
      else case bind (lg_parse env (lr_Payload r)) (\<lambda>v. case v of JObject kvs \<Rightarrow> decode_eventPayload env kvs | JNull \<Rightarrow> decode_eventPayload env []
          | _ \<Rightarrow> None) of
          None \<Rightarrow> []
        | Some p \<Rightarrow> [\<lparr>pf_EventID = lr_EventID r, pf_Timestamp = lr_EmittedAt r, pf_Bucket = truncateToMinute (lr_EmittedAt r),
            pf_PricingStatus = normalizeProjectedPricingStatus (fx_Status (pl_Pricing p)) (pl_PromptTokens p)
              (pl_CachedPromptTokens p) (pl_CompletionTokens p), pf_Payload = p\<rparr>])"

section \<open>The query store\<close>

record projectionAggregate =
  ag_requests :: int
  ag_successes :: int
  ag_failures :: int
  ag_inputTokens :: int
  ag_cachedPromptTokens :: int
  ag_outputTokens :: int
  ag_totalLatency :: int

definition zero_agg :: projectionAggregate where
  "zero_agg = \<lparr>ag_requests = 0, ag_successes = 0, ag_failures = 0, ag_inputTokens = 0, ag_cachedPromptTokens = 0,
     ag_outputTokens = 0, ag_totalLatency = 0\<rparr>"

text \<open>The key of the table of aggregates: bucket, model and provider.\<close>

type_synonym agg_key = "gotime \<times> string \<times> string"

definition fact_key :: "ProjectionFact \<Rightarrow> agg_key" where
  "fact_key f = (pf_Bucket f, pl_EffectiveModel (pf_Payload f), pl_ProviderID (pf_Payload f))"

text \<open>
  The key of the map of a batch, which is a text with bars between its parts; the bucket's has none.
\<close>

definition batch_key :: "ProjectionFact \<Rightarrow> gotime \<times> string" where
  "batch_key f = (pf_Bucket f, pl_EffectiveModel (pf_Payload f) @ ''|'' @ pl_ProviderID (pf_Payload f))"

definition is_success :: "ProjectionFact \<Rightarrow> bool" where
  "is_success f \<longleftrightarrow> 200 \<le> pl_StatusCode (pf_Payload f) \<and> pl_StatusCode (pf_Payload f) < 400"

definition count_fact :: "ProjectionFact \<Rightarrow> projectionAggregate \<Rightarrow> projectionAggregate" where
  "count_fact f a = \<lparr>ag_requests = i64 (ag_requests a + 1),
     ag_successes = (if is_success f then i64 (ag_successes a + 1) else ag_successes a),
     ag_failures = (if is_success f then ag_failures a else i64 (ag_failures a + 1)),
     ag_inputTokens = i64 (ag_inputTokens a + pl_PromptTokens (pf_Payload f)),
     ag_cachedPromptTokens = i64 (ag_cachedPromptTokens a + pl_CachedPromptTokens (pf_Payload f)),
     ag_outputTokens = i64 (ag_outputTokens a + pl_CompletionTokens (pf_Payload f)),
     ag_totalLatency = i64 (ag_totalLatency a + pl_LatencyMs (pf_Payload f))\<rparr>"

text \<open>
  The tables: facts in the order of their insertion, aggregates, and the checkpoint of the projection.
\<close>

record QueryStore =
  sto_facts :: "ProjectionFact list"
  sto_aggs :: "agg_key \<Rightarrow> projectionAggregate option"
  sto_checkpoint :: "int option"

definition empty_store :: QueryStore where
  "empty_store = \<lparr>sto_facts = [], sto_aggs = (\<lambda>k. None), sto_checkpoint = None\<rparr>"

definition LoadProjectionCheckpoint :: "QueryStore \<Rightarrow> int" where
  "LoadProjectionCheckpoint s = (case sto_checkpoint s of None \<Rightarrow> 0 | Some i \<Rightarrow> i)"

type_synonym agg_updates = "((gotime \<times> string) \<times> agg_key \<times> projectionAggregate) list"

text \<open>One fact of a batch: a fact whose event is there already is ignored, synthetic ones are not aggregated.\<close>

definition insert_fact :: "ProjectionFact \<Rightarrow> (ProjectionFact list \<times> int) \<times> agg_updates \<Rightarrow> (ProjectionFact list \<times> int) \<times> agg_updates" where
  "insert_fact f acc = (case acc of ((facts, n), aggs) \<Rightarrow>
     if pf_EventID f \<in> pf_EventID ` set facts then acc
     else let p = pf_Payload f;
              stored = f\<lparr>pf_PricingStatus := normalizePricingStatus (pf_PricingStatus f) (pl_PromptTokens p)
                (pl_CachedPromptTokens p) (pl_CompletionTokens p)\<rparr>
          in ((facts @ [stored], i64 (n + 1)),
              if pl_SyntheticKind p \<noteq> [] then aggs
              else case map_of aggs (batch_key f) of
                  None \<Rightarrow> aggs @ [(batch_key f, fact_key f, count_fact f zero_agg)]
                | Some (k, a) \<Rightarrow> AList.update (batch_key f) (k, count_fact f a) aggs))"

text \<open>The upsert adds the columns in SQL.\<close>

definition agg_plus :: "projectionAggregate \<Rightarrow> projectionAggregate \<Rightarrow> projectionAggregate" where
  "agg_plus a b = \<lparr>ag_requests = ag_requests a + ag_requests b, ag_successes = ag_successes a + ag_successes b,
     ag_failures = ag_failures a + ag_failures b, ag_inputTokens = ag_inputTokens a + ag_inputTokens b,
     ag_cachedPromptTokens = ag_cachedPromptTokens a + ag_cachedPromptTokens b,
     ag_outputTokens = ag_outputTokens a + ag_outputTokens b, ag_totalLatency = ag_totalLatency a + ag_totalLatency b\<rparr>"

definition upsert :: "agg_key \<times> projectionAggregate \<Rightarrow> (agg_key \<Rightarrow> projectionAggregate option) \<Rightarrow> agg_key \<Rightarrow> projectionAggregate option" where
  "upsert = (\<lambda>(k, a) aggs. aggs(k \<mapsto> (case aggs k of None \<Rightarrow> a | Some old \<Rightarrow> agg_plus old a)))"

text \<open>The transaction; the flag says whether it can be committed. \<open>None\<close> is an error, which leaves the store as it was.\<close>

definition ApplyProjectionBatch :: "bool \<Rightarrow> int \<Rightarrow> ProjectionFact list \<Rightarrow> QueryStore \<Rightarrow> int option \<times> QueryStore" where
  "ApplyProjectionBatch committed lastEventID facts s =
     (if \<not> committed then (None, s)
      else case fold insert_fact facts ((sto_facts s, 0), []) of
          ((facts', n), aggs) \<Rightarrow>
            (Some n, \<lparr>sto_facts = facts', sto_aggs = fold upsert (map snd aggs) (sto_aggs s),
               sto_checkpoint = Some (case sto_checkpoint s of None \<Rightarrow> lastEventID | Some c \<Rightarrow> max lastEventID c)\<rparr>))"

section \<open>The projector\<close>

text \<open>\<open>None\<close> is an error; otherwise the number of new facts and the last identifier that was read.\<close>

definition projectNewEvents :: "log_env \<Rightarrow> bool \<Rightarrow> int \<Rightarrow> EventLog \<Rightarrow> QueryStore \<Rightarrow> (int \<times> int) option \<times> QueryStore" where
  "projectNewEvents env committed lastID l s =
     (let rows = take 1000 (filter (\<lambda>r. lastID < lr_ID r) (el_rows l));
          maxID = (if rows = [] then lastID else lr_ID (last rows))
      in if maxID = lastID then (Some (0, lastID), s)
         else case ApplyProjectionBatch committed maxID (concat (map (row_facts env) rows)) s of
             (None, s') \<Rightarrow> (None, s')
           | (Some n, s') \<Rightarrow> (Some (n, maxID), s'))"

text \<open>A tick of \<open>Run\<close>, with the identifier that it keeps in memory.\<close>

definition run_tick :: "log_env \<Rightarrow> bool \<Rightarrow> EventLog \<Rightarrow> int \<times> QueryStore \<Rightarrow> int \<times> QueryStore" where
  "run_tick env committed l = (\<lambda>(lastID, s).
     case projectNewEvents env committed lastID l s of
       (None, s') \<Rightarrow> (lastID, s')
     | (Some (n, maxID), s') \<Rightarrow> (if lastID < maxID then maxID else lastID, s'))"

lemma project_advances:
  assumes "projectNewEvents env committed lastID l s = (Some (n, maxID), s')" "lastID < maxID"
  shows "length (filter (\<lambda>r. maxID < lr_ID r) (el_rows l)) < length (filter (\<lambda>r. lastID < lr_ID r) (el_rows l))"
proof -
  let ?new = "filter (\<lambda>r. lastID < lr_ID r) (el_rows l)"
  have ne: "take 1000 ?new \<noteq> []" and m: "maxID = lr_ID (last (take 1000 ?new))"
    using assms by (auto simp: projectNewEvents_def Let_def split: if_splits prod.splits option.splits)
  then have "last (take 1000 ?new) \<in> set ?new" by (meson in_set_takeD last_in_set)
  then have "last (take 1000 ?new) \<in> set ?new" "\<not> maxID < lr_ID (last (take 1000 ?new))" using m by auto
  then have "length (filter (\<lambda>r. maxID < lr_ID r) ?new) < length ?new" by (rule length_filter_less)
  moreover have "filter (\<lambda>r. maxID < lr_ID r) ?new = filter (\<lambda>r. maxID < lr_ID r) (el_rows l)"
    using assms(2) by (auto simp: filter_filter intro: filter_cong)
  ultimately show ?thesis by simp
qed

text \<open>
  \<open>Drain\<close> on a log to which nothing is added meanwhile; the numbers of the passes say which are committed.
  The results are whether it ended without an error, the facts projected and the last identifier.
\<close>

function drain_loop :: "log_env \<Rightarrow> (nat \<Rightarrow> bool) \<Rightarrow> nat \<Rightarrow> EventLog \<Rightarrow> int \<Rightarrow> int \<Rightarrow> QueryStore \<Rightarrow> (bool \<times> int \<times> int) \<times> QueryStore" where
  "drain_loop env committed pass l projected lastID s =
     (case projectNewEvents env (committed pass) lastID l s of
        (None, s') \<Rightarrow> ((False, projected, lastID), s')
      | (Some (n, maxID), s') \<Rightarrow>
          if maxID \<le> lastID then ((True, projected + n, maxID), s')
          else drain_loop env committed (Suc pass) l (projected + n) maxID s')"
  by auto
termination
proof (relation "measure (\<lambda>(env, committed, pass, l, projected, lastID, s). length (filter (\<lambda>r. lastID < lr_ID r) (el_rows l)))", simp)
  fix env committed pass l projected lastID s x s' result n maxID
  assume "(x, s') = projectNewEvents env (committed (pass :: nat)) lastID l s" "x = Some result" "(n, maxID) = result" "\<not> maxID \<le> lastID"
  then have "length (filter (\<lambda>r. maxID < lr_ID r) (el_rows l)) < length (filter (\<lambda>r. lastID < lr_ID r) (el_rows l))"
    using project_advances [of env "committed pass" lastID l s n maxID s'] by simp
  then show "((env, committed, Suc pass, l, projected + n, maxID, s'), env, committed, pass, l, projected, lastID, s) \<in>
      measure (\<lambda>(env, committed, pass, l, projected, lastID, s). length (filter (\<lambda>r. lastID < lr_ID r) (el_rows l)))"
    by simp
qed

declare drain_loop.simps [simp del]

definition Drain :: "log_env \<Rightarrow> (nat \<Rightarrow> bool) \<Rightarrow> EventLog \<Rightarrow> QueryStore \<Rightarrow> (bool \<times> int \<times> int) \<times> QueryStore" where
  "Drain env committed l s = drain_loop env committed 0 l 0 (LoadProjectionCheckpoint s) s"

end
