(* ===== verification/Telemetry_Aggregates.thy ===== *)
theory Telemetry_Aggregates
  imports Telemetry_Projection
begin

text \<open>
  A batch of the projection: which facts it adds, and that it adds their sums to the aggregates.
\<close>

section \<open>Facts of rows\<close>

lemma PricingStatus_cases [simp]:
  "normalizePricingStatus (normalizeProjectedPricingStatus status p c q) p c q = normalizeProjectedPricingStatus status p c q"
  by (simp add: normalizePricingStatus_def normalizeProjectedPricingStatus_def)

definition facts_of :: "log_env \<Rightarrow> log_row list \<Rightarrow> ProjectionFact list" where
  "facts_of env rows = concat (map (row_facts env) rows)"

lemma facts_of_simps [simp]:
  "facts_of env [] = []" "facts_of env (r # rs) = row_facts env r @ facts_of env rs"
  "facts_of env (rs @ rs') = facts_of env rs @ facts_of env rs'"
  by (simp_all add: facts_of_def)

definition stored_fact :: "ProjectionFact \<Rightarrow> ProjectionFact" where
  "stored_fact f = f\<lparr>pf_PricingStatus := normalizePricingStatus (pf_PricingStatus f) (pl_PromptTokens (pf_Payload f))
     (pl_CachedPromptTokens (pf_Payload f)) (pl_CompletionTokens (pf_Payload f))\<rparr>"

lemma row_facts_view:
  "f \<in> set (row_facts env r) \<Longrightarrow> pf_EventID f = lr_EventID r \<and> pf_Bucket f = truncateToMinute (lr_EmittedAt r) \<and> stored_fact f = f"
  by (auto simp: row_facts_def stored_fact_def split: if_splits option.splits)

lemma row_facts_one: "row_facts env r = [] \<or> (\<exists>f. row_facts env r = [f])"
  by (simp add: row_facts_def split: option.splits)

lemma facts_of_stored: "map stored_fact (facts_of env rows) = facts_of env rows"
proof (induction rows)
  case (Cons r rs)
  have "map stored_fact (row_facts env r) = row_facts env r"
    by (rule map_idI) (use row_facts_view in blast)
  with Cons show ?case by simp
qed simp

lemma facts_of_ids: "pf_EventID ` set (facts_of env rows) \<subseteq> lr_EventID ` set rows"
  by (induction rows) (auto dest: row_facts_view)

lemma facts_of_distinct:
  assumes "distinct (map lr_EventID rows)"
  shows "distinct (map pf_EventID (facts_of env rows))"
  using assms
proof (induction rows)
  case (Cons r rs)
  have "pf_EventID ` set (row_facts env r) \<subseteq> {lr_EventID r}" by (auto dest: row_facts_view)
  moreover have "distinct (map pf_EventID (row_facts env r))" using row_facts_one [of env r] by auto
  moreover have "lr_EventID r \<notin> pf_EventID ` set (facts_of env rs)" using Cons.prems facts_of_ids [of env rs] by auto
  ultimately show ?case using Cons by auto
qed simp

section \<open>A batch\<close>

lemma insert_known: "pf_EventID f \<in> pf_EventID ` set facts \<Longrightarrow> insert_fact f ((facts, n), aggs) = ((facts, n), aggs)"
  by (simp add: insert_fact_def)

lemma insert_all_known:
  "pf_EventID ` set fs \<subseteq> pf_EventID ` set facts \<Longrightarrow> fold insert_fact fs ((facts, n), aggs) = ((facts, n), aggs)"
  by (induction fs) (simp_all add: insert_known)

lemma insert_new_fact:
  "pf_EventID f \<notin> pf_EventID ` set facts \<Longrightarrow> \<exists>aggs'. insert_fact f ((facts, n), aggs) = ((facts @ [stored_fact f], i64 (n + 1)), aggs')"
  by (simp add: insert_fact_def stored_fact_def Let_def)

lemma stored_fact_id [simp]: "pf_EventID (stored_fact f) = pf_EventID f"
  by (simp add: stored_fact_def)

lemma insert_all_new:
  "distinct (map pf_EventID (facts @ fs)) \<Longrightarrow> 0 \<le> n \<Longrightarrow> n + int (length fs) \<le> max_i64 \<Longrightarrow>
   \<exists>aggs'. fold insert_fact fs ((facts, n), aggs) = ((facts @ map stored_fact fs, n + int (length fs)), aggs')"
proof (induction fs arbitrary: facts n aggs)
  case (Cons f fs)
  then have "pf_EventID f \<notin> pf_EventID ` set facts" by auto
  moreover have "i64 (n + 1) = n + 1" using Cons.prems(2,3) by (intro i64_id) (auto simp: min_i64_def)
  ultimately obtain aggs1 where "insert_fact f ((facts, n), aggs) = ((facts @ [stored_fact f], n + 1), aggs1)"
    using insert_new_fact [of f facts n aggs] by auto
  moreover have "distinct (map pf_EventID ((facts @ [stored_fact f]) @ fs))" using Cons.prems(1) by simp
  from Cons.IH [OF this, of "n + 1" aggs1] Cons.prems(2,3) obtain aggs' where
    "fold insert_fact fs ((facts @ [stored_fact f], n + 1), aggs1) =
      (((facts @ [stored_fact f]) @ map stored_fact fs, n + 1 + int (length fs)), aggs')" by auto
  ultimately show ?case by simp
qed simp

section \<open>Sums of facts\<close>

definition tally :: "ProjectionFact \<Rightarrow> projectionAggregate" where
  "tally f = \<lparr>ag_requests = 1, ag_successes = (if is_success f then 1 else 0), ag_failures = (if is_success f then 0 else 1),
     ag_inputTokens = pl_PromptTokens (pf_Payload f), ag_cachedPromptTokens = pl_CachedPromptTokens (pf_Payload f),
     ag_outputTokens = pl_CompletionTokens (pf_Payload f), ag_totalLatency = pl_LatencyMs (pf_Payload f)\<rparr>"

fun agg_sum :: "ProjectionFact list \<Rightarrow> projectionAggregate" where
  "agg_sum [] = zero_agg"
| "agg_sum (f # fs) = agg_plus (tally f) (agg_sum fs)"

definition counted :: "agg_key \<Rightarrow> ProjectionFact list \<Rightarrow> ProjectionFact list" where
  "counted k fs = filter (\<lambda>f. fact_key f = k \<and> pl_SyntheticKind (pf_Payload f) = []) fs"

text \<open>What the table of aggregates should hold for the facts: no row where no request is counted.\<close>

definition agg_table :: "ProjectionFact list \<Rightarrow> agg_key \<Rightarrow> projectionAggregate option" where
  "agg_table fs k = (if counted k fs = [] then None else Some (agg_sum (counted k fs)))"

text \<open>The model's name has no bar, and the numbers are those of a request.\<close>

definition plain_fact :: "ProjectionFact \<Rightarrow> bool" where
  "plain_fact f \<longleftrightarrow> CHR ''|'' \<notin> set (pl_EffectiveModel (pf_Payload f)) \<and>
     pl_PromptTokens (pf_Payload f) \<in> {0..<2^53} \<and> pl_CachedPromptTokens (pf_Payload f) \<in> {0..<2^53} \<and>
     pl_CompletionTokens (pf_Payload f) \<in> {0..<2^53} \<and> pl_LatencyMs (pf_Payload f) \<in> {0..<2^53}"

lemma agg_plus_zero [simp]: "agg_plus zero_agg a = a" "agg_plus a zero_agg = a"
  by (simp_all add: agg_plus_def zero_agg_def)

lemma agg_plus_assoc: "agg_plus (agg_plus a b) c = agg_plus a (agg_plus b c)"
  by (simp add: agg_plus_def)

lemma agg_sum_append: "agg_sum (fs @ gs) = agg_plus (agg_sum fs) (agg_sum gs)"
  by (induction fs) (simp_all add: agg_plus_assoc)

lemma counted_append [simp]: "counted k (fs @ gs) = counted k fs @ counted k gs"
  by (simp add: counted_def)

definition opt_plus :: "projectionAggregate option \<Rightarrow> projectionAggregate option \<Rightarrow> projectionAggregate option" where
  "opt_plus x y = (case x of None \<Rightarrow> y | Some a \<Rightarrow> (case y of None \<Rightarrow> x | Some b \<Rightarrow> Some (agg_plus a b)))"

lemma agg_table_nil: "agg_table [] = (\<lambda>k. None)"
  by (simp add: agg_table_def counted_def fun_eq_iff)

lemma agg_table_append: "agg_table (fs @ gs) k = opt_plus (agg_table fs k) (agg_table gs k)"
  by (simp add: agg_table_def opt_plus_def agg_sum_append)

definition agg_within :: "int \<Rightarrow> projectionAggregate \<Rightarrow> bool" where
  "agg_within b a \<longleftrightarrow> list_all (\<lambda>x. 0 \<le> x \<and> x \<le> b) [ag_requests a, ag_successes a, ag_failures a, ag_inputTokens a,
     ag_cachedPromptTokens a, ag_outputTokens a, ag_totalLatency a]"

lemma agg_sum_within:
  "list_all plain_fact fs \<Longrightarrow> agg_within (int (length fs) * 2^53) (agg_sum fs)"
proof (induction fs)
  case (Cons f fs)
  then have "plain_fact f" "agg_within (int (length fs) * 2^53) (agg_sum fs)" by auto
  then show ?case by (simp add: agg_within_def agg_plus_def tally_def plain_fact_def)
qed (simp add: agg_within_def zero_agg_def)

lemma agg_within_zero: "0 \<le> b \<Longrightarrow> agg_within b zero_agg"
  by (simp add: agg_within_def zero_agg_def)

lemma count_fact_exact:
  assumes "plain_fact f" "agg_within (999 * 2^53) a"
  shows "count_fact f a = agg_plus a (tally f)"
  using assms
  by (simp add: count_fact_def agg_plus_def tally_def plain_fact_def agg_within_def min_i64_def max_i64_def)

section \<open>The updates of a batch\<close>

definition key_text :: "agg_key \<Rightarrow> gotime \<times> string" where
  "key_text = (\<lambda>(b, m, p). (b, m @ ''|'' @ p))"

lemma batch_key_text: "batch_key f = key_text (fact_key f)"
  by (simp add: batch_key_def key_text_def fact_key_def)

lemma key_text_inj:
  assumes "key_text k = key_text k'" "CHR ''|'' \<notin> set (fst (snd k))" "CHR ''|'' \<notin> set (fst (snd k'))"
  shows "k = k'"
proof -
  obtain b m p b' m' p' where k: "k = (b, m, p)" "k' = (b', m', p')" by (cases k, cases k') auto
  have "takeWhile (\<lambda>c. c \<noteq> CHR ''|'') (m @ CHR ''|'' # p) = m" "takeWhile (\<lambda>c. c \<noteq> CHR ''|'') (m' @ CHR ''|'' # p') = m'"
    using assms(2,3) k by (auto intro!: trans [OF takeWhile_append2])
  with assms(1) k show ?thesis by (auto simp: key_text_def)
qed

definition batch_ok :: "agg_updates \<Rightarrow> ProjectionFact list \<Rightarrow> bool" where
  "batch_ok A fs \<longleftrightarrow> distinct (map fst A) \<and>
     (\<forall>(b, k, a) \<in> set A. b = key_text k \<and> CHR ''|'' \<notin> set (fst (snd k)) \<and> agg_table fs k = Some a) \<and>
     (\<forall>k. agg_table fs k \<noteq> None \<longrightarrow> k \<in> fst ` snd ` set A)"

lemma batch_entry: "batch_ok A fs \<Longrightarrow> (b, k, a) \<in> set A \<Longrightarrow> b = key_text k \<and> CHR ''|'' \<notin> set (fst (snd k)) \<and> agg_table fs k = Some a"
  by (auto simp: batch_ok_def)

lemma batch_key_there:
  assumes "batch_ok A fs" "agg_table fs k \<noteq> None"
  obtains b a where "(b, k, a) \<in> set A"
proof -
  have "k \<in> fst ` snd ` set A" using assms unfolding batch_ok_def by blast
  then obtain x where "x \<in> set A" "k = fst (snd x)" by auto
  then show thesis using that [of "fst x" "snd (snd x)"] by simp
qed

lemma agg_table_other: "fact_key f \<noteq> k \<or> pl_SyntheticKind (pf_Payload f) \<noteq> [] \<Longrightarrow> agg_table (fs @ [f]) k = agg_table fs k"
  by (auto simp: agg_table_def counted_def)

lemma agg_table_same:
  "pl_SyntheticKind (pf_Payload f) = [] \<Longrightarrow>
   agg_table (fs @ [f]) (fact_key f) = Some (agg_plus (case agg_table fs (fact_key f) of None \<Rightarrow> zero_agg | Some a \<Rightarrow> a) (tally f))"
  by (simp add: agg_table_def counted_def agg_sum_append)

lemma agg_table_within:
  assumes "agg_table fs k = Some a" "list_all plain_fact fs" "length fs \<le> 999"
  shows "agg_within (999 * 2^53) a"
proof -
  have "length (counted k fs) \<le> 999" using assms(3) unfolding counted_def by (rule order_trans [OF length_filter_le])
  moreover have "agg_within (int (length (counted k fs)) * 2^53) a"
    using assms(1,2) agg_sum_within [of "counted k fs"] by (auto simp: agg_table_def counted_def list_all_iff split: if_splits)
  ultimately show ?thesis by (auto simp: agg_within_def)
qed

lemma fact_key_model [simp]: "fst (snd (fact_key f)) = pl_EffectiveModel (pf_Payload f)"
  by (simp add: fact_key_def)

lemma update_batch_ok:
  assumes "batch_ok A fs" "plain_fact f" "list_all plain_fact fs" "length fs \<le> 999" "pl_SyntheticKind (pf_Payload f) = []"
  shows "batch_ok (case map_of A (batch_key f) of None \<Rightarrow> A @ [(batch_key f, fact_key f, count_fact f zero_agg)]
     | Some (k, a) \<Rightarrow> AList.update (batch_key f) (k, count_fact f a) A) (fs @ [f])"
proof (cases "map_of A (batch_key f)")
  case None
  have none: "agg_table fs (fact_key f) = None"
  proof (rule ccontr)
    assume "agg_table fs (fact_key f) \<noteq> None"
    then obtain b a where e: "(b, fact_key f, a) \<in> set A" using assms(1) batch_key_there by blast
    have "batch_key f = b" using batch_entry [OF assms(1) e] by (simp add: batch_key_text)
    with e None show False by (auto simp: map_of_eq_None_iff image_iff)
  qed
  have one: "agg_table (fs @ [f]) (fact_key f) = Some (count_fact f zero_agg)"
    using none assms(2,5) count_fact_exact [of f zero_agg] agg_within_zero by (simp add: agg_table_same)
  have other: "agg_table (fs @ [f]) k = agg_table fs k" if "k \<noteq> fact_key f" for k
    using that by (intro agg_table_other) auto
  have "batch_key f \<notin> fst ` set A" using None by (simp add: map_of_eq_None_iff)
  moreover have "agg_table (fs @ [f]) k = Some a" if "(b, k, a) \<in> set A" for b k a
    using batch_entry [OF assms(1) that] none other [of k] by (cases "k = fact_key f") auto
  ultimately show ?thesis using assms(1,2) None one other
    by (auto simp: batch_ok_def batch_key_text plain_fact_def)
next
  case (Some ka)
  obtain k a where ka: "ka = (k, a)" by fastforce
  from Some ka have e: "(batch_key f, k, a) \<in> set A" by (auto dest: map_of_SomeD)
  have k: "k = fact_key f"
    using batch_entry [OF assms(1) e] assms(2) by (intro key_text_inj) (auto simp: batch_key_text plain_fact_def)
  have a: "agg_table fs (fact_key f) = Some a" using batch_entry [OF assms(1) e] k by simp
  have one: "agg_table (fs @ [f]) (fact_key f) = Some (count_fact f a)"
    using a assms(2,5) count_fact_exact [OF assms(2) agg_table_within [OF a assms(3,4)]] by (simp add: agg_table_same)
  have other: "agg_table (fs @ [f]) k = agg_table fs k" if "k \<noteq> fact_key f" for k
    using that by (intro agg_table_other) auto
  let ?A = "AList.update (batch_key f) (fact_key f, count_fact f a) A"
  have d: "distinct (map fst A)" using assms(1) by (simp add: batch_ok_def)
  then have d': "distinct (map fst ?A)" by (simp add: distinct_update)
  have upd: "map_of ?A = (map_of A)(batch_key f \<mapsto> (fact_key f, count_fact f a))" by (simp add: update_conv')
  have mem: "(b, k, x) \<in> set ?A \<longleftrightarrow> (if b = batch_key f then k = fact_key f \<and> x = count_fact f a else (b, k, x) \<in> set A)" for b k x
    unfolding map_of_eq_Some_iff [OF d', symmetric] map_of_eq_Some_iff [OF d, symmetric] upd by auto
  have entry: "b = key_text k \<and> CHR ''|'' \<notin> set (fst (snd k)) \<and> agg_table (fs @ [f]) k = Some x" if "(b, k, x) \<in> set ?A" for b k x
  proof (cases "b = batch_key f")
    case True
    with that mem one assms(2) show ?thesis by (simp add: batch_key_text plain_fact_def)
  next
    case False
    then have "(b, k, x) \<in> set A" using that mem by simp
    with batch_entry [OF assms(1) this] False other [of k] show ?thesis by (auto simp: batch_key_text)
  qed
  have keys: "k \<in> fst ` snd ` set ?A" if t: "agg_table (fs @ [f]) k \<noteq> None" for k
  proof (cases "k = fact_key f")
    case True
    have "(batch_key f, fact_key f, count_fact f a) \<in> set ?A" by (simp add: mem)
    then show ?thesis using True by force
  next
    case False
    with t other have "agg_table fs k \<noteq> None" by simp
    then obtain b x where bx: "(b, k, x) \<in> set A" using assms(1) batch_key_there by blast
    have "b \<noteq> batch_key f"
      using batch_entry [OF assms(1) bx] False assms(2) key_text_inj [of k "fact_key f"]
      by (auto simp: batch_key_text plain_fact_def)
    then have "(b, k, x) \<in> set ?A" using bx mem by simp
    then show ?thesis by force
  qed
  show ?thesis unfolding Some ka k option.case prod.case batch_ok_def using d' entry keys by blast
qed

lemma insert_batch_ok:
  assumes "batch_ok A fs" "plain_fact f" "list_all plain_fact fs" "length fs \<le> 999"
    "pf_EventID f \<notin> pf_EventID ` set facts" "insert_fact f ((facts, n), A) = (x, A')"
  shows "batch_ok A' (fs @ [f])"
proof (cases "pl_SyntheticKind (pf_Payload f) = []")
  case True
  with assms(5,6) update_batch_ok [OF assms(1-4) True] show ?thesis by (auto simp: insert_fact_def Let_def)
next
  case False
  have "agg_table (fs @ [f]) = agg_table fs" using False agg_table_other by blast
  with assms(1,5,6) False show ?thesis by (simp add: insert_fact_def Let_def batch_ok_def)
qed

lemma fold_batch_ok:
  assumes "distinct (map pf_EventID (facts @ gs))" "list_all plain_fact (fs @ gs)" "length (fs @ gs) \<le> 1000" "batch_ok A fs"
    "fold insert_fact gs ((facts, n), A) = (x, A')"
  shows "batch_ok A' (fs @ gs)"
  using assms
proof (induction gs arbitrary: fs facts n A)
  case (Cons g gs)
  have new: "pf_EventID g \<notin> pf_EventID ` set facts" using Cons.prems(1) by auto
  from insert_new_fact [OF this, of n A] obtain A1
    where i: "insert_fact g ((facts, n), A) = ((facts @ [stored_fact g], i64 (n + 1)), A1)" by blast
  have "batch_ok A1 (fs @ [g])" by (rule insert_batch_ok [OF Cons.prems(4) _ _ _ new i]) (use Cons.prems(2,3) in simp_all)
  with Cons.IH [of "facts @ [stored_fact g]" "fs @ [g]" A1 "i64 (n + 1)"] Cons.prems i show ?case by simp
qed simp

section \<open>The table\<close>

lemma fold_upsert:
  "distinct (map fst ups) \<Longrightarrow> fold upsert ups aggs k = opt_plus (aggs k) (map_of ups k)"
proof (induction ups arbitrary: aggs)
  case (Cons u ups)
  obtain k' a where u: "u = (k', a)" by fastforce
  have "k' \<notin> fst ` set ups" using Cons.prems u by simp
  then have "map_of ups k' = None" by (simp add: map_of_eq_None_iff)
  with Cons u show ?case by (simp add: upsert_def opt_plus_def split: option.split)
qed (simp add: opt_plus_def split: option.split)

lemma batch_upserts:
  assumes "batch_ok A fs"
  shows "fold upsert (map snd A) aggs k = opt_plus (aggs k) (agg_table fs k)"
proof -
  have d: "distinct (map fst A)" and t: "\<And>b k a. (b, k, a) \<in> set A \<Longrightarrow> b = key_text k" using assms by (auto simp: batch_ok_def)
  have "distinct (map fst (map snd A))" using d t
  proof (induction A)
    case (Cons x A)
    obtain b k a where x: "x = (b, k, a)" by (cases x) auto
    have "k \<notin> fst ` snd ` set A"
    proof
      assume "k \<in> fst ` snd ` set A"
      then obtain b' a' where e: "(b', k, a') \<in> set A" by fastforce
      then have "b' = b" using Cons.prems(2) [of b' k a'] Cons.prems(2) [of b k a] x by simp
      with e Cons.prems(1) x show False by force
    qed
    moreover have "distinct (map fst (map snd A))" using Cons.prems by (intro Cons.IH) (simp, meson list.set_intros(2))
    ultimately show ?case using x by (simp add: image_image)
  qed simp
  moreover from this have "map_of (map snd A) k = agg_table fs k"
  proof -
    have e: "agg_table fs k = Some a" if "(k, a) \<in> set (map snd A)" for a
      using that batch_entry [OF assms] by auto
    have n: "agg_table fs k = None" if "k \<notin> fst ` set (map snd A)"
      using that assms unfolding batch_ok_def set_map by blast
    show ?thesis
    proof (cases "map_of (map snd A) k")
      case None
      then have "k \<notin> fst ` set (map snd A)" by (simp add: map_of_eq_None_iff)
      with n None show ?thesis by simp
    next
      case (Some a)
      with e map_of_SomeD [OF Some] show ?thesis by simp
    qed
  qed
  ultimately show ?thesis by (simp add: fold_upsert)
qed

end
