(* ===== verification/Telemetry_Pipeline.thy ===== *)
theory Telemetry_Pipeline
  imports Telemetry_Aggregates
begin

text \<open>
  What the projection of \<open>Telemetry_Projection\<close> gives: the steps of the daemon in any order, restarts and failed
  transactions included, keep the query store equal to the log up to the checkpoint.
\<close>

section \<open>The store and the log\<close>

definition rows_upto :: "int \<Rightarrow> EventLog \<Rightarrow> log_row list" where
  "rows_upto i l = filter (\<lambda>r. lr_ID r \<le> i) (el_rows l)"

definition projected :: "log_env \<Rightarrow> EventLog \<Rightarrow> QueryStore \<Rightarrow> bool" where
  "projected env l s \<longleftrightarrow> log_ok l \<and> (LoadProjectionCheckpoint s = 0 \<or> LoadProjectionCheckpoint s \<in> lr_ID ` set (el_rows l)) \<and>
     sto_facts s = facts_of env (rows_upto (LoadProjectionCheckpoint s) l) \<and>
     (list_all plain_fact (facts_of env (el_rows l)) \<longrightarrow> sto_aggs s = agg_table (sto_facts s))"

lemma sorted_split:
  assumes "sorted_wrt (<) (map lr_ID rows)" "i \<le> j"
  shows "filter (\<lambda>r. lr_ID r \<le> j) rows = filter (\<lambda>r. lr_ID r \<le> i) rows @ filter (\<lambda>r. i < lr_ID r \<and> lr_ID r \<le> j) rows"
  using assms
proof (induction rows)
  case (Cons r rs)
  show ?case
  proof (cases "lr_ID r \<le> i")
    case False
    with Cons.prems have "\<forall>x \<in> set rs. i < lr_ID x" by auto
    then have "filter (\<lambda>r. lr_ID r \<le> i) rs = []" "filter (\<lambda>r. i < lr_ID r \<and> lr_ID r \<le> j) rs = filter (\<lambda>r. lr_ID r \<le> j) rs"
      by (auto simp: filter_empty_conv intro: filter_cong)
    with False show ?thesis by auto
  qed (use Cons in auto)
qed simp

text \<open>The rows of a batch are those above \<open>lastID\<close> up to the last one.\<close>

lemma batch_rows:
  assumes "sorted_wrt (<) (map lr_ID rows)" "batch = take k (filter (\<lambda>r. i < lr_ID r) rows)" "batch \<noteq> []"
  shows "batch = filter (\<lambda>r. i < lr_ID r \<and> lr_ID r \<le> lr_ID (last batch)) rows \<and> i < lr_ID (last batch) \<and> last batch \<in> set rows"
proof -
  let ?new = "filter (\<lambda>r. i < lr_ID r) rows"
  have s: "sorted_wrt (<) (map lr_ID ?new)" using assms(1) by (simp add: sorted_wrt_map sorted_wrt_filter)
  have new: "?new = batch @ drop k ?new" unfolding assms(2) by simp
  from s have s': "sorted_wrt (<) (map lr_ID (batch @ drop k ?new))" using new by simp
  have "\<forall>r \<in> set batch. lr_ID r \<le> lr_ID (last batch)"
  proof
    fix r assume "r \<in> set batch"
    have "sorted_wrt (<) (map lr_ID (butlast batch @ [last batch]))" using s' assms(3) by (simp add: sorted_wrt_append)
    then have "\<forall>r \<in> set (butlast batch). lr_ID r < lr_ID (last batch)" by (simp add: sorted_wrt_append)
    moreover have "r \<in> set (butlast batch) \<or> r = last batch"
      using \<open>r \<in> set batch\<close> assms(3) by (metis append_butlast_last_id in_set_conv_decomp rotate1.simps(2) set_ConsD set_rotate1)
    ultimately show "lr_ID r \<le> lr_ID (last batch)" by auto
  qed
  moreover have "\<forall>r \<in> set (drop k ?new). \<not> lr_ID r \<le> lr_ID (last batch)"
    using s' last_in_set [OF assms(3)] by (force simp: sorted_wrt_append)
  ultimately have "filter (\<lambda>r. lr_ID r \<le> lr_ID (last batch)) (batch @ drop k ?new) = batch"
    by (simp add: filter_id_conv filter_empty_conv)
  then have "batch = filter (\<lambda>r. lr_ID r \<le> lr_ID (last batch)) ?new" using new by simp
  moreover have "last batch \<in> set ?new" using new assms(3) by (metis Un_iff last_in_set set_append)
  ultimately show ?thesis by (auto simp: filter_filter conj_commute)
qed

lemma batch_new:
  assumes "projected env l s" "i \<le> LoadProjectionCheckpoint s" "batch = take k (filter (\<lambda>r. i < lr_ID r) (el_rows l))" "batch \<noteq> []"
    "m = lr_ID (last batch)"
  obtains new where "rows_upto (max m (LoadProjectionCheckpoint s)) l = rows_upto (LoadProjectionCheckpoint s) l @ new"
    "length new \<le> k" "m \<in> lr_ID ` set (el_rows l)" "0 < m" "distinct (map pf_EventID (sto_facts s @ facts_of env new))"
    "fold insert_fact (facts_of env batch) ((sto_facts s, 0), []) = fold insert_fact (facts_of env new) ((sto_facts s, 0), [])"
proof -
  let ?cp = "LoadProjectionCheckpoint s"
  let ?new = "filter (\<lambda>r. ?cp < lr_ID r \<and> lr_ID r \<le> m) (el_rows l)"
  have srt: "sorted_wrt (<) (map lr_ID (el_rows l))" and ids: "distinct (map lr_EventID (el_rows l))"
    and pos: "\<forall>r \<in> set (el_rows l). 0 < lr_ID r \<and> lr_ID r \<le> el_seq l"
    using assms(1) by (auto simp: projected_def log_ok_def)
  from batch_rows [OF srt assms(3,4)] assms(5)
  have b: "batch = filter (\<lambda>r. i < lr_ID r \<and> lr_ID r \<le> m) (el_rows l)" "i < m" "last batch \<in> set (el_rows l)" by auto
  have split: "\<exists>old. batch = old @ ?new \<and> set old \<subseteq> set (rows_upto ?cp l)"
  proof (cases "m \<le> ?cp")
    case True
    then show ?thesis using b(1) by (intro exI [of _ batch]) (auto simp: rows_upto_def filter_empty_conv)
  next
    case False
    from sorted_split [of "filter (\<lambda>r. i < lr_ID r) (el_rows l)" ?cp m] srt False
    have "filter (\<lambda>r. lr_ID r \<le> m) (filter (\<lambda>r. i < lr_ID r) (el_rows l)) =
        filter (\<lambda>r. lr_ID r \<le> ?cp) (filter (\<lambda>r. i < lr_ID r) (el_rows l)) @
        filter (\<lambda>r. ?cp < lr_ID r \<and> lr_ID r \<le> m) (filter (\<lambda>r. i < lr_ID r) (el_rows l))"
      by (simp add: sorted_wrt_map sorted_wrt_filter)
    moreover have "filter (\<lambda>r. ?cp < lr_ID r \<and> lr_ID r \<le> m) (filter (\<lambda>r. i < lr_ID r) (el_rows l)) = ?new"
      using assms(2) by (auto simp: filter_filter intro: filter_cong)
    ultimately show ?thesis using b(1)
      by (intro exI [of _ "filter (\<lambda>r. lr_ID r \<le> ?cp) (filter (\<lambda>r. i < lr_ID r) (el_rows l))"])
        (auto simp: filter_filter rows_upto_def conj_commute)
  qed
  then obtain old where old: "batch = old @ ?new" "set old \<subseteq> set (rows_upto ?cp l)" by blast
  then have "length ?new \<le> length batch" by (metis le_add2 length_append)
  also have "\<dots> \<le> k" unfolding assms(3) by simp
  finally have len: "length ?new \<le> k" .
  have facts: "sto_facts s = facts_of env (rows_upto ?cp l)" using assms(1) by (simp add: projected_def)
  have upto: "rows_upto (max m ?cp) l = rows_upto ?cp l @ ?new"
    using sorted_split [OF srt, of ?cp "max m ?cp"] by (auto simp: rows_upto_def max_def intro: filter_cong)
  have "set (facts_of env old) \<subseteq> set (facts_of env (rows_upto ?cp l))" using old(2) by (auto simp: facts_of_def)
  then have known: "pf_EventID ` set (facts_of env old) \<subseteq> pf_EventID ` set (sto_facts s)" using facts by auto
  have "distinct (map lr_EventID (rows_upto ?cp l @ ?new))"
    unfolding upto [symmetric] unfolding rows_upto_def using ids by (rule distinct_map_filter)
  from facts_of_distinct [OF this, of env] have dist: "distinct (map pf_EventID (sto_facts s @ facts_of env ?new))" using facts by simp
  have "m \<in> lr_ID ` set (el_rows l)" "0 < m" using pos b(3) assms(5) by force+
  moreover have "fold insert_fact (facts_of env batch) ((sto_facts s, 0), []) = fold insert_fact (facts_of env ?new) ((sto_facts s, 0), [])"
    unfolding arg_cong [OF old(1), of "facts_of env"] using insert_all_known [OF known, of 0 "[]"] by simp
  ultimately show thesis using that [OF upto len _ _ dist] by blast
qed

lemma facts_of_length: "length (facts_of env rows) \<le> length rows"
proof (induction rows)
  case (Cons r rs)
  then show ?case using row_facts_one [of env r] by auto
qed simp

lemma batch_empty: "batch_ok [] []"
  by (simp add: batch_ok_def agg_table_def counted_def)

lemma Apply_projects:
  assumes "projected env l s" "i \<le> LoadProjectionCheckpoint s" "batch = take 1000 (filter (\<lambda>r. i < lr_ID r) (el_rows l))" "batch \<noteq> []"
    "m = lr_ID (last batch)"
  shows "\<exists>s'. ApplyProjectionBatch True m (facts_of env batch) s = (Some (int (length (sto_facts s')) - int (length (sto_facts s))), s') \<and>
    projected env l s' \<and> LoadProjectionCheckpoint s' = max m (LoadProjectionCheckpoint s)"
proof -
  let ?cp = "LoadProjectionCheckpoint s"
  obtain new where upto: "rows_upto (max m ?cp) l = rows_upto ?cp l @ new" and len: "length new \<le> 1000"
    and m: "m \<in> lr_ID ` set (el_rows l)" "0 < m" and dist: "distinct (map pf_EventID (sto_facts s @ facts_of env new))"
    and old: "fold insert_fact (facts_of env batch) ((sto_facts s, 0), []) = fold insert_fact (facts_of env new) ((sto_facts s, 0), [])"
    by (rule batch_new [OF assms])
  have few: "length (facts_of env new) \<le> 1000" using facts_of_length [of env new] len by simp
  then have "0 + int (length (facts_of env new)) \<le> max_i64" by (simp add: max_i64_def)
  from insert_all_new [OF dist _ this, of "[]"] obtain aggs where fold:
    "fold insert_fact (facts_of env new) ((sto_facts s, 0), []) = ((sto_facts s @ facts_of env new, int (length (facts_of env new))), aggs)"
    unfolding facts_of_stored by auto
  have facts: "sto_facts s @ facts_of env new = facts_of env (rows_upto (max m ?cp) l)"
    using assms(1) by (simp add: projected_def upto)
  have aggs: "fold upsert (map snd aggs) (sto_aggs s) = agg_table (sto_facts s @ facts_of env new)"
    if plain: "list_all plain_fact (facts_of env (el_rows l))"
  proof
    fix k
    have "set new \<subseteq> set (el_rows l)" using upto unfolding rows_upto_def by (metis Un_iff filter_is_subset set_append subset_iff)
    then have "list_all plain_fact (facts_of env new)" using plain by (auto simp: facts_of_def list_all_iff)
    with fold_batch_ok [OF dist _ _ batch_empty fold] few have "batch_ok aggs (facts_of env new)" by simp
    with assms(1) plain show "fold upsert (map snd aggs) (sto_aggs s) k = agg_table (sto_facts s @ facts_of env new) k"
      by (simp add: batch_upserts agg_table_append projected_def)
  qed
  let ?s = "\<lparr>sto_facts = sto_facts s @ facts_of env new, sto_aggs = fold upsert (map snd aggs) (sto_aggs s),
      sto_checkpoint = Some (max m ?cp)\<rparr>"
  have "ApplyProjectionBatch True m (facts_of env batch) s = (Some (int (length (facts_of env new))), ?s)"
    using fold old m(2) by (simp add: ApplyProjectionBatch_def LoadProjectionCheckpoint_def split: option.split)
  moreover have "LoadProjectionCheckpoint ?s = max m ?cp" by (simp add: LoadProjectionCheckpoint_def)
  moreover from this have "projected env l ?s" using assms(1) m facts aggs by (auto simp: projected_def max_def)
  ultimately show ?thesis by (intro exI [of _ ?s]) simp
qed

text \<open>A pass, committed or not, keeps the store as the log up to the checkpoint says.\<close>

lemma pass_projects:
  assumes "projected env l s" "i \<le> LoadProjectionCheckpoint s" "projectNewEvents env committed i l s = (r, s')"
  shows "projected env l s' \<and> LoadProjectionCheckpoint s \<le> LoadProjectionCheckpoint s' \<and>
    (\<forall>n m. r = Some (n, m) \<longrightarrow> i \<le> m \<and> m \<le> LoadProjectionCheckpoint s' \<and>
      int (length (sto_facts s')) = int (length (sto_facts s)) + n \<and> (m \<le> i \<longrightarrow> rows_upto i l = el_rows l)) \<and>
    (committed \<longrightarrow> r \<noteq> None)"
proof -
  let ?batch = "take 1000 (filter (\<lambda>r. i < lr_ID r) (el_rows l))"
  have srt: "sorted_wrt (<) (map lr_ID (el_rows l))" using assms(1) by (simp add: projected_def log_ok_def)
  have above: "i < lr_ID (last ?batch)" if "?batch \<noteq> []" using batch_rows [OF srt refl that] by blast
  show ?thesis
  proof (cases "?batch = [] \<or> \<not> committed")
    case True
    have "rows_upto i l = el_rows l" if "?batch = []"
      using that by (auto simp: rows_upto_def filter_empty_conv filter_id_conv)
    with True assms above show ?thesis
      by (auto simp: projectNewEvents_def ApplyProjectionBatch_def Let_def split: if_splits)
  next
    case False
    with above have "i < lr_ID (last ?batch)" by blast
    with False Apply_projects [OF assms(1,2) refl, of "lr_ID (last ?batch)"] assms(2,3) show ?thesis
      by (auto simp: projectNewEvents_def Let_def facts_of_def split: if_splits)
  qed
qed

section \<open>The daemon\<close>

text \<open>The daemon's state: the log, the store, and the identifier in the memory of \<open>Run\<close>.\<close>

record pipeline =
  pp_log :: EventLog
  pp_store :: QueryStore
  pp_last :: int

definition fresh_pipeline :: pipeline where
  "fresh_pipeline = \<lparr>pp_log = empty_log, pp_store = empty_store, pp_last = 0\<rparr>"

text \<open>
  A batch arrives; a tick, whose transaction is committed or not; a restart, which reads the checkpoint or
  fails to; and a \<open>Drain\<close> of the tool that migrates.
\<close>

inductive pipeline_step :: "log_env \<Rightarrow> pipeline \<Rightarrow> pipeline \<Rightarrow> bool" for env where
  append: "AppendBatch env io events (pp_log p) = (resp, l) \<Longrightarrow> pipeline_step env p (p\<lparr>pp_log := l\<rparr>)"
| tick: "run_tick env committed (pp_log p) (pp_last p, pp_store p) = (i, s) \<Longrightarrow>
    pipeline_step env p (p\<lparr>pp_store := s, pp_last := i\<rparr>)"
| restart: "i = LoadProjectionCheckpoint (pp_store p) \<or> i = 0 \<Longrightarrow> pipeline_step env p (p\<lparr>pp_last := i\<rparr>)"
| drain: "Drain env commits (pp_log p) (pp_store p) = (r, s) \<Longrightarrow> pipeline_step env p (p\<lparr>pp_store := s\<rparr>)"

definition pipeline_run :: "log_env \<Rightarrow> pipeline \<Rightarrow> bool" where
  "pipeline_run env p \<longleftrightarrow> (pipeline_step env)\<^sup>*\<^sup>* fresh_pipeline p"

definition pipeline_ok :: "log_env \<Rightarrow> pipeline \<Rightarrow> bool" where
  "pipeline_ok env p \<longleftrightarrow> projected env (pp_log p) (pp_store p) \<and> pp_last p \<le> LoadProjectionCheckpoint (pp_store p)"

lemma grows_projected:
  assumes "projected env l s" "grows_by env events n l l'"
  shows "projected env l' s"
proof -
  obtain rows where rows: "el_rows l' = el_rows l @ rows" using assms(2) by (auto simp: grows_by_def)
  have ok: "log_ok l'" using assms by (simp add: grows_by_def projected_def)
  then have "\<forall>r \<in> set rows. 0 < lr_ID r \<and> (\<forall>r' \<in> set (el_rows l). lr_ID r' < lr_ID r)"
    by (auto simp: log_ok_def rows sorted_wrt_append)
  then have "rows_upto (LoadProjectionCheckpoint s) l' = rows_upto (LoadProjectionCheckpoint s) l"
    using assms(1) by (fastforce simp: rows_upto_def rows projected_def filter_empty_conv)
  with assms(1) ok show ?thesis by (auto simp: projected_def rows)
qed

lemma drain_loop_projects:
  assumes "projected env l s" "i \<le> LoadProjectionCheckpoint s" "drain_loop env commits pass l done i s = ((ok, n, m), s')"
  shows "projected env l s' \<and> LoadProjectionCheckpoint s \<le> LoadProjectionCheckpoint s' \<and> m \<le> LoadProjectionCheckpoint s' \<and>
    int (length (sto_facts s')) = int (length (sto_facts s)) + (n - done) \<and> (ok \<longrightarrow> rows_upto m l = el_rows l) \<and>
    ((\<forall>k. commits k) \<longrightarrow> ok)"
  using assms
proof (induction env commits pass l "done" i s rule: drain_loop.induct)
  case (1 env commits pass l "done" i s)
  obtain x s1 where x: "projectNewEvents env (commits pass) i l s = (x, s1)" by fastforce
  note p = pass_projects [OF "1.prems"(1,2) x]
  show ?case
  proof (cases x)
    case None
    then have "s1 = s" using x by (auto simp: projectNewEvents_def ApplyProjectionBatch_def Let_def split: if_splits prod.splits)
    with None p x "1.prems" show ?thesis by (auto simp: drain_loop.simps [of env commits pass l "done"])
  next
    case (Some nm)
    obtain n1 m1 where nm: "nm = (n1, m1)" by fastforce
    show ?thesis
    proof (cases "m1 \<le> i")
      case True
      with p x Some nm "1.prems"(3) show ?thesis by (auto simp: drain_loop.simps [of env commits pass l "done"])
    next
      case False
      with x Some nm "1.prems"(3) have "drain_loop env commits (Suc pass) l (done + n1) m1 s1 = ((ok, n, m), s')"
        by (simp add: drain_loop.simps [of env commits pass l "done"])
      from "1.IH" [OF x [symmetric] Some nm [symmetric] False _ _ this] p Some nm show ?thesis by auto
    qed
  qed
qed

lemma step_pipeline_ok:
  assumes "pipeline_step env p p'" "pipeline_ok env p"
  shows "pipeline_ok env p'"
  using assms(1)
proof (cases rule: pipeline_step.cases)
  case (append io events resp l)
  from AppendBatch_grows [OF append(2)] obtain n where "grows_by env events n (pp_log p) l" by blast
  with assms(2) append(1) show ?thesis by (auto simp: pipeline_ok_def intro: grows_projected)
next
  case (tick committed i s)
  obtain x s1 where x: "projectNewEvents env committed (pp_last p) (pp_log p) (pp_store p) = (x, s1)" by fastforce
  with pass_projects [OF _ _ x] tick assms(2) show ?thesis
    by (auto simp: pipeline_ok_def run_tick_def split: option.splits prod.splits if_splits)
next
  case (restart i)
  have "0 \<le> LoadProjectionCheckpoint (pp_store p)"
    using assms(2) by (force simp: pipeline_ok_def projected_def log_ok_def)
  with restart assms(2) show ?thesis by (auto simp: pipeline_ok_def LoadProjectionCheckpoint_def)
next
  case (drain commits r s)
  obtain ok n m where r: "r = (ok, n, m)" by (cases r) auto
  from drain_loop_projects [OF _ _ drain(2) [unfolded Drain_def r]] drain(1) assms(2) show ?thesis
    by (auto simp: pipeline_ok_def)
qed

lemma run_pipeline_ok: "pipeline_run env p \<Longrightarrow> pipeline_ok env p"
proof -
  assume "pipeline_run env p"
  then have "(pipeline_step env)\<^sup>*\<^sup>* fresh_pipeline p" by (simp add: pipeline_run_def)
  then show ?thesis
  proof (induction rule: rtranclp_induct)
    case base
    show ?case
      by (simp add: pipeline_ok_def projected_def fresh_pipeline_def log_ok_def empty_log_def empty_store_def
          LoadProjectionCheckpoint_def rows_upto_def agg_table_nil)
  qed (rule step_pipeline_ok)
qed

section \<open>The payload\<close>

definition price_values :: "FixedPricing \<Rightarrow> float64 set" where
  "price_values p = {fx_FXRateToUSD p, fx_InputPer1M p, fx_CachedInputPer1M p, fx_OutputPer1M p, fx_PromptCost p, fx_CompletionCost p,
     fx_TotalCost p, fx_PromptCostUSD p, fx_CompletionCostUSD p, fx_TotalCostUSD p}"

text \<open>What the payload of an event should be read as.\<close>

definition event_payload :: "log_env \<Rightarrow> Event \<Rightarrow> eventPayload" where
  "event_payload env e = \<lparr>pl_RequestID = ev_RequestID e, pl_Timestamp = lg_time env (ev_Timestamp e), pl_Path = ev_Path e,
     pl_RequestedModel = ev_RequestedModel e, pl_EffectiveModel = ev_EffectiveModel e, pl_ProviderID = ev_ProviderID e,
     pl_RouteMode = ev_RouteMode e, pl_StatusCode = ev_StatusCode e, pl_LatencyMs = go_div (ev_Latency e) millisecond,
     pl_Attempts = ev_Attempts e, pl_PromptTokens = fst (ev_tokens e), pl_CachedPromptTokens = fst (snd (ev_tokens e)),
     pl_CompletionTokens = snd (snd (ev_tokens e)), pl_Pricing = ev_pricing e, pl_SyntheticKind = ev_SyntheticKind e,
     pl_BenchmarkRunID = ev_BenchmarkRunID e, pl_BenchmarkTargetID = ev_BenchmarkTargetID e,
     pl_BenchmarkCaseID = ev_BenchmarkCaseID e, pl_Stream = ev_Stream e, pl_Error = ev_Error e\<rparr>"

definition event_in_range :: "Event \<Rightarrow> bool" where
  "event_in_range e \<longleftrightarrow> list_all in_i64 [ev_StatusCode e, go_div (ev_Latency e) millisecond, ev_Attempts e, fst (ev_tokens e),
     fst (snd (ev_tokens e)), snd (snd (ev_tokens e))]"

lemma each_field_once:
  assumes "distinct (map fst kvs)" "\<forall>k \<in> fst ` set kvs. to_lower k = k" "to_lower name = name"
  shows "each_field name f kvs acc = (case map_of kvs name of None \<Rightarrow> Some acc | Some v \<Rightarrow> f v acc)"
  using assms
proof (induction kvs arbitrary: acc)
  case (Cons kv kvs)
  obtain k v where kv: "kv = (k, v)" by fastforce
  have eq: "equal_fold k name \<longleftrightarrow> k = name" using Cons.prems kv by (simp add: equal_fold_def)
  have none: "each_field k f kvs acc' = Some acc'" for acc'
  proof (rule each_field_const, clarify)
    fix k' v' assume "(k', v') \<in> set kvs" "equal_fold k' k"
    with Cons.prems kv have "k' = k" by (force simp: equal_fold_def)
    with \<open>(k', v') \<in> set kvs\<close> Cons.prems(1) kv show False by force
  qed
  show ?case
  proof (cases "k = name")
    case True
    with eq kv none show ?thesis by (auto split: option.split)
  next
    case False
    with eq kv Cons show ?thesis by auto
  qed
qed simp

lemma each_field_jobj:
  assumes "distinct (map fst kvs)" "list_all (\<lambda>k. to_lower k = k) (map fst kvs)" "to_lower name = name"
  shows "each_field name f (json_map kvs) acc = (case map_of kvs name of None \<Rightarrow> Some acc | Some v \<Rightarrow> f v acc)"
proof -
  have "map_of (rev kvs) = map_of kvs" using assms(1) by (subst map_of_inject_set) (simp_all add: rev_map [symmetric])
  then have eq: "map_of (json_map kvs) = map_of kvs" by (simp add: json_map_last fun_eq_iff)
  then have "fst ` set (json_map kvs) = fst ` set kvs" by (metis dom_map_of_conv_image_fst)
  then have "\<forall>k \<in> fst ` set (json_map kvs). to_lower k = k" using assms(2) by (auto simp: list_all_iff)
  with each_field_once [OF conjunct2 [OF json_map_wf [of kvs]] this assms(3)] eq show ?thesis by simp
qed

lemma payload_names:
  "distinct (map fst (payload_members env e)) \<and> list_all (\<lambda>k. to_lower k = k) (map fst (payload_members env e))"
proof -
  have "map fst (payload_members env e) = [''request_id'', ''timestamp'', ''path'', ''requested_model'', ''effective_model'', ''provider_id'',
    ''route_mode'', ''status_code'', ''latency_ms'', ''attempts'', ''prompt_tokens'', ''cached_prompt_tokens'',
    ''completion_tokens'', ''pricing_status'', ''pricing_source_id'', ''pricing_currency'',
    ''pricing_fx_rate_to_usd'', ''pricing_input_per_1m'', ''pricing_cached_input_per_1m'',
    ''pricing_output_per_1m'', ''pricing_prompt_cost'', ''pricing_completion_cost'', ''pricing_total_cost'',
    ''pricing_prompt_cost_usd'', ''pricing_completion_cost_usd'', ''pricing_total_cost_usd'', ''synthetic_kind'',
    ''benchmark_run_id'', ''benchmark_target_id'', ''benchmark_case_id'', ''stream'', ''error'']"
    by (simp add: payload_members_def Let_def split: prod.split)
  moreover have "distinct [''request_id'', ''timestamp'', ''path'', ''requested_model'', ''effective_model'', ''provider_id'',
    ''route_mode'', ''status_code'', ''latency_ms'', ''attempts'', ''prompt_tokens'', ''cached_prompt_tokens'',
    ''completion_tokens'', ''pricing_status'', ''pricing_source_id'', ''pricing_currency'',
    ''pricing_fx_rate_to_usd'', ''pricing_input_per_1m'', ''pricing_cached_input_per_1m'',
    ''pricing_output_per_1m'', ''pricing_prompt_cost'', ''pricing_completion_cost'', ''pricing_total_cost'',
    ''pricing_prompt_cost_usd'', ''pricing_completion_cost_usd'', ''pricing_total_cost_usd'', ''synthetic_kind'',
    ''benchmark_run_id'', ''benchmark_target_id'', ''benchmark_case_id'', ''stream'', ''error'']" by code_simp
  moreover have "list_all (\<lambda>k. to_lower k = k) [''request_id'', ''timestamp'', ''path'', ''requested_model'', ''effective_model'', ''provider_id'',
    ''route_mode'', ''status_code'', ''latency_ms'', ''attempts'', ''prompt_tokens'', ''cached_prompt_tokens'',
    ''completion_tokens'', ''pricing_status'', ''pricing_source_id'', ''pricing_currency'',
    ''pricing_fx_rate_to_usd'', ''pricing_input_per_1m'', ''pricing_cached_input_per_1m'',
    ''pricing_output_per_1m'', ''pricing_prompt_cost'', ''pricing_completion_cost'', ''pricing_total_cost'',
    ''pricing_prompt_cost_usd'', ''pricing_completion_cost_usd'', ''pricing_total_cost_usd'', ''synthetic_kind'',
    ''benchmark_run_id'', ''benchmark_target_id'', ''benchmark_case_id'', ''stream'', ''error'']" by code_simp
  ultimately show ?thesis by simp
qed

lemma payload_field:
  "to_lower name = name \<Longrightarrow> each_field name f (json_map (payload_members env e)) acc =
     (case map_of (payload_members env e) name of None \<Rightarrow> Some acc | Some v \<Rightarrow> f v acc)"
  using payload_names [of env e] by (simp add: each_field_jobj)

lemmas payload_lookup = payload_members_def [THEN arg_cong [where f = map_of]]

lemmas field_names = to_lower_def lower_char_def

lemma pricing_read:
  assumes "\<forall>x \<in> price_values (ev_pricing e). lg_read_float env (lg_float env x) = Some x"
  shows "decode_pricing env (json_map (payload_members env e)) = Some (ev_pricing e)"
proof -
  obtain prompt cached completion where tk: "ev_tokens e = (prompt, cached, completion)" by (cases "ev_tokens e") auto
  show ?thesis
    unfolding decode_pricing_def
    using assms by (simp add: payload_field field_names payload_lookup tk Let_def set_string_def set_float_def price_values_def)
qed

lemma payload_read:
  assumes "event_in_range e" "\<forall>x \<in> price_values (ev_pricing e). lg_read_float env (lg_float env x) = Some x"
  shows "decode_eventPayload env (json_map (payload_members env e)) = Some (event_payload env e)"
proof -
  obtain prompt cached completion where tk: "ev_tokens e = (prompt, cached, completion)" by (cases "ev_tokens e") auto
  show ?thesis
    unfolding decode_eventPayload_def
    using assms(1) by (simp add: pricing_read [OF assms(2)] payload_field field_names payload_lookup tk Let_def
        set_string_def set_bool_def set_int64_jint event_in_range_def event_payload_def)
qed

definition event_fact :: "log_env \<Rightarrow> Event \<Rightarrow> ProjectionFact" where
  "event_fact env e = \<lparr>pf_EventID = ev_EventID e, pf_Timestamp = ev_EmittedAt e, pf_Bucket = truncateToMinute (ev_EmittedAt e),
     pf_PricingStatus = normalizeProjectedPricingStatus (fx_Status (ev_pricing e)) (fst (ev_tokens e)) (fst (snd (ev_tokens e)))
       (snd (snd (ev_tokens e))), pf_Payload = event_payload env e\<rparr>"

lemma event_row_facts:
  assumes "te_EventType te = attempt_completed" "lg_parse env s = Some (payload_json env (te_Event te))" "event_in_range (te_Event te)"
    "\<forall>x \<in> price_values (ev_pricing (te_Event te)). lg_read_float env (lg_float env x) = Some x"
  shows "row_facts env (event_row te s i) = [event_fact env (te_Event te)]"
  using assms(1,2) payload_read [OF assms(3,4)]
  by (simp add: row_facts_def event_row_def event_fact_def payload_json_def jobj_def event_payload_def)

section \<open>A run\<close>

definition demo_log_codec :: log_env where
  "demo_log_codec = demo_log_env\<lparr>lg_parse := (\<lambda>s. Some (payload_json demo_log_env (demo_event ''e'')))\<rparr>"

definition demo_row :: log_row where "demo_row = event_row (handler_event (demo_event ''e'')) ''{}'' 1"

definition demo_log :: EventLog where "demo_log = \<lparr>el_rows = [demo_row], el_seq = 1\<rparr>"

lemma demo_row_facts: "row_facts demo_log_codec demo_row = [event_fact demo_log_codec (demo_event ''e'')]"
proof -
  let ?te = "handler_event (demo_event ''e'')"
  have "\<forall>x \<in> price_values (ev_pricing (te_Event ?te)). lg_read_float demo_log_codec (lg_float demo_log_codec x) = Some x"
    by (simp add: price_values_def handler_event_def demo_event_def zero_pricing_def demo_log_codec_def demo_log_env_def)
  moreover have "event_in_range (te_Event ?te)"
    by (simp add: event_in_range_def handler_event_def demo_event_def in_i64_def min_i64_def max_i64_def millisecond_def go_div_def)
  moreover have "lg_parse demo_log_codec ''{}'' = Some (payload_json demo_log_codec (te_Event ?te))"
    by (simp add: handler_event_def demo_log_codec_def payload_json_def payload_members_def demo_log_env_def)
  ultimately have "row_facts demo_log_codec (event_row ?te ''{}'' 1) = [event_fact demo_log_codec (te_Event ?te)]"
    by (intro event_row_facts) (simp_all add: handler_event_def)
  then show ?thesis by (simp add: demo_row_def handler_event_def)
qed

lemma demo_append: "AppendBatch demo_log_codec good_io [handler_event (demo_event ''e'')] empty_log = (\<lparr>abr_Accepted = 1, abr_Dropped = 0\<rparr>, demo_log)"
  by (simp add: AppendBatch_def AppendEvents_def Append_def good_io_def insert_event_def serializePayload_def demo_log_codec_def demo_log_env_def
      empty_log_def demo_log_def demo_row_def)

definition demo_store :: QueryStore where
  "demo_store = snd (ApplyProjectionBatch True 1 [event_fact demo_log_codec (demo_event ''e'')] empty_store)"

lemma demo_store_facts: "sto_facts demo_store = [event_fact demo_log_codec (demo_event ''e'')] \<and> LoadProjectionCheckpoint demo_store = 1 \<and>
    ApplyProjectionBatch True 1 [event_fact demo_log_codec (demo_event ''e'')] empty_store = (Some 1, demo_store)"
  by (simp add: demo_store_def ApplyProjectionBatch_def insert_fact_def empty_store_def Let_def event_fact_def event_payload_def
      LoadProjectionCheckpoint_def min_i64_def max_i64_def)

lemma demo_pass: "projectNewEvents demo_log_codec True 0 demo_log empty_store = (Some (1, 1), demo_store)"
  using demo_row_facts demo_store_facts
  by (simp add: projectNewEvents_def demo_log_def Let_def) (simp add: demo_row_def event_row_def)

lemma demo_pipeline_run:
  "pipeline_run demo_log_codec (fresh_pipeline\<lparr>pp_log := demo_log\<rparr>)"
  "pipeline_run demo_log_codec \<lparr>pp_log = demo_log, pp_store = demo_store, pp_last = 1\<rparr>"
proof -
  let ?p = "fresh_pipeline\<lparr>pp_log := demo_log\<rparr>"
  have 1: "pipeline_step demo_log_codec fresh_pipeline ?p"
    using pipeline_step.append [of demo_log_codec good_io _ fresh_pipeline] demo_append by (simp add: fresh_pipeline_def)
  have 2: "pipeline_step demo_log_codec ?p \<lparr>pp_log = demo_log, pp_store = demo_store, pp_last = 1\<rparr>"
    using pipeline_step.tick [of demo_log_codec True ?p 1 demo_store] demo_pass by (simp add: fresh_pipeline_def run_tick_def)
  show "pipeline_run demo_log_codec ?p" using 1 by (simp add: pipeline_run_def)
  show "pipeline_run demo_log_codec \<lparr>pp_log = demo_log, pp_store = demo_store, pp_last = 1\<rparr>"
    unfolding pipeline_run_def using 1 2 by (meson converse_rtranclp_into_rtranclp rtranclp.rtrancl_refl)
qed

section \<open>The properties\<close>

text \<open>
  C22 Each completed attempt is projected exactly once, whatever is appended between the passes, whichever
  transactions fail, and wherever the daemon restarts, even with its checkpoint unread: the facts are those of
  the rows up to the checkpoint, in the log's order, none twice; the projector never skips a row; and the
  aggregates are the sums of these facts by minute, model and provider, for models without a bar in their
  names and numbers below 2 to the 53.\<close>

theorem projection_exactly_once:
  assumes "pipeline_run env p"
  shows "sto_facts (pp_store p) = facts_of env (rows_upto (LoadProjectionCheckpoint (pp_store p)) (pp_log p)) \<and>
    distinct (map pf_EventID (sto_facts (pp_store p))) \<and> pp_last p \<le> LoadProjectionCheckpoint (pp_store p) \<and>
    (list_all plain_fact (facts_of env (el_rows (pp_log p))) \<longrightarrow> sto_aggs (pp_store p) = agg_table (sto_facts (pp_store p)))"
proof -
  have ok: "pipeline_ok env p" by (rule run_pipeline_ok [OF assms])
  then have "distinct (map lr_EventID (rows_upto (LoadProjectionCheckpoint (pp_store p)) (pp_log p)))"
    by (simp add: pipeline_ok_def projected_def log_ok_def rows_upto_def distinct_map_filter)
  from facts_of_distinct [OF this] ok show ?thesis by (simp add: pipeline_ok_def projected_def)
qed

lemma projection_exactly_once_witness:
  "sto_facts demo_store = facts_of demo_log_codec (rows_upto 1 demo_log) \<and> length (sto_facts demo_store) = 1"
proof -
  have "length (sto_facts demo_store) = 1" using demo_store_facts by (metis One_nat_def length_Cons list.size(3))
  with projection_exactly_once [OF demo_pipeline_run(2)] demo_store_facts show ?thesis by simp
qed



text \<open>
  C24 A row that the handler's event became is read back as the fact of this attempt: the payload has every field,
  price and count as the handler reported them, when the JSON codec gives back what it was given and the numbers
  fit in 64 bits.\<close>

theorem attempt_projected_faithfully:
  assumes "serializePayload env e = Some s" "lg_parse env s = Some (payload_json env e)" "event_in_range e"
    "\<forall>x \<in> price_values (ev_pricing e). lg_read_float env (lg_float env x) = Some x"
  shows "row_facts env (event_row (handler_event e) s i) =
    [\<lparr>pf_EventID = ev_EventID e, pf_Timestamp = ev_EmittedAt e, pf_Bucket = truncateToMinute (ev_EmittedAt e),
      pf_PricingStatus = normalizeProjectedPricingStatus (fx_Status (ev_pricing e)) (fst (ev_tokens e)) (fst (snd (ev_tokens e)))
        (snd (snd (ev_tokens e))), pf_Payload = event_payload env e\<rparr>]"
  using event_row_facts [of "handler_event e" env s i] assms by (simp add: handler_event_def event_fact_def)

lemma attempt_projected_faithfully_witness:
  "row_facts demo_log_codec (event_row (handler_event (demo_event ''e'')) ''{}'' 1) \<noteq> []"
proof -
  have "serializePayload demo_log_codec (demo_event ''e'') = Some ''{}''"
    by (simp add: serializePayload_def demo_log_codec_def demo_log_env_def)
  moreover have "lg_parse demo_log_codec ''{}'' = Some (payload_json demo_log_codec (demo_event ''e''))"
    by (simp add: demo_log_codec_def payload_json_def payload_members_def demo_log_env_def)
  moreover have "event_in_range (demo_event ''e'')"
    by (simp add: event_in_range_def demo_event_def in_i64_def min_i64_def max_i64_def millisecond_def go_div_def)
  moreover have "\<forall>x \<in> price_values (ev_pricing (demo_event ''e'')). lg_read_float demo_log_codec (lg_float demo_log_codec x) = Some x"
    by (simp add: price_values_def demo_event_def zero_pricing_def demo_log_codec_def demo_log_env_def)
  ultimately show ?thesis using attempt_projected_faithfully [of demo_log_codec "demo_event ''e''" "''{}''" 1] by simp
qed

end
