(* ===== verification/Paths.thy ===== *)
theory Paths
  imports Prelude
begin

text \<open>
  Slash-separated paths as \<open>path/filepath\<close> has them on Unix, the checks of \<open>internal/pathsecurity\<close>, and the
  check of the names in an archive (\<open>internal/updater/updater.go\<close>).
\<close>

section \<open>Words of a path\<close>

fun split_char :: "char \<Rightarrow> string \<Rightarrow> string list" where
  "split_char c [] = [[]]"
| "split_char c (x # xs) = (if x = c then [] # split_char c xs
     else case split_char c xs of [] \<Rightarrow> [[x]] | w # ws \<Rightarrow> (x # w) # ws)"

fun join_char :: "char \<Rightarrow> string list \<Rightarrow> string" where
  "join_char c [] = []"
| "join_char c [w] = w"
| "join_char c (w # v # ws) = w @ c # join_char c (v # ws)"

definition slash :: char where "slash = CHR ''/''"

definition IsAbs :: "string \<Rightarrow> bool" where
  "IsAbs p \<longleftrightarrow> (case p of [] \<Rightarrow> False | c # cs \<Rightarrow> c = slash)"

definition path_words :: "string \<Rightarrow> string list" where
  "path_words p = (let q = (if IsAbs p then tl p else p) in if q = [] then [] else split_char slash q)"

text \<open>One word of a path that is being cleaned; the stack has the last word on top.\<close>

definition dot :: string where "dot = ''.''"
definition dotdot :: string where "dotdot = ''..''"

fun clean_step :: "bool \<Rightarrow> string \<Rightarrow> string list \<Rightarrow> string list" where
  "clean_step rooted w st =
     (if w = [] \<or> w = dot then st
      else if w = dotdot then
        (case st of [] \<Rightarrow> if rooted then [] else [dotdot] | v # vs \<Rightarrow> if v = dotdot then dotdot # st else vs)
      else w # st)"

declare clean_step.simps [simp del]

definition clean_words :: "bool \<Rightarrow> string list \<Rightarrow> string list" where
  "clean_words rooted ws = rev (fold (clean_step rooted) ws [])"

definition path_of :: "bool \<Rightarrow> string list \<Rightarrow> string" where
  "path_of rooted ws = (if rooted then slash # join_char slash ws else if ws = [] then dot else join_char slash ws)"

definition Clean :: "string \<Rightarrow> string" where
  "Clean p = path_of (IsAbs p) (clean_words (IsAbs p) (split_char slash p))"

text \<open>\<open>filepath.Join\<close> leaves out the empty elements at the front.\<close>

definition Join :: "string list \<Rightarrow> string" where
  "Join ps = (case dropWhile (\<lambda>p. p = []) ps of [] \<Rightarrow> [] | qs \<Rightarrow> Clean (join_char slash qs))"

fun strip_common :: "string list \<Rightarrow> string list \<Rightarrow> string list \<times> string list" where
  "strip_common (b # bs) (t # ts) = (if b = t then strip_common bs ts else (b # bs, t # ts))"
| "strip_common bs ts = (bs, ts)"

text \<open>\<open>filepath.Rel\<close>; \<open>None\<close> is its error.\<close>

definition Rel :: "string \<Rightarrow> string \<Rightarrow> string option" where
  "Rel base targ =
     (let b = Clean base; t = Clean targ in
      if t = b then Some dot
      else let b' = (if b = dot then [] else b) in
        if IsAbs b' \<noteq> IsAbs t then None
        else case strip_common (path_words b') (path_words t) of
            (bs, ts) \<Rightarrow> if bs \<noteq> [] \<and> ts \<noteq> [] \<and> hd bs = dotdot then None
                         else Some (join_char slash (map (\<lambda>b. dotdot) bs @ ts)))"

definition Abs :: "string \<Rightarrow> string \<Rightarrow> string" where
  "Abs cwd p = (if IsAbs p then Clean p else Join [cwd, p])"

text \<open>The test by which the code tells that a relative path leaves its base.\<close>

definition leaves_base :: "string \<Rightarrow> bool" where
  "leaves_base rel \<longleftrightarrow> rel = dotdot \<or> prefix (dotdot @ [slash]) rel"

section \<open>The checks\<close>

text \<open>What the checks ask of the system: the working directory, which paths are there, and where symbolic links lead.\<close>

record path_env =
  px_cwd :: string
  px_exists :: "string \<Rightarrow> bool"
  px_EvalSymlinks :: "string \<Rightarrow> string option"

definition IsSafePath :: "path_env \<Rightarrow> string \<Rightarrow> string \<Rightarrow> bool" where
  "IsSafePath env basePath targetPath \<longleftrightarrow>
     (let realBase = Clean (Abs (px_cwd env) basePath); realTarget = Clean (Abs (px_cwd env) targetPath) in
      px_exists env realBase \<and> (case Rel realBase realTarget of None \<Rightarrow> False | Some rel \<Rightarrow> \<not> leaves_base rel))"

text \<open>\<open>None\<close> is the error that reports a traversal.\<close>

definition NormalizeAndValidatePath :: "path_env \<Rightarrow> string \<Rightarrow> string list \<Rightarrow> string option" where
  "NormalizeAndValidatePath env basePath components =
     (let realBase = Clean (Abs (px_cwd env) basePath);
          target = Join (realBase # components);
          realTarget = (case px_EvalSymlinks env target of None \<Rightarrow> Clean target | Some t \<Rightarrow> t)
      in case Rel realBase realTarget of
          None \<Rightarrow> None
        | Some rel \<Rightarrow> if leaves_base rel then None else Some realTarget)"

definition JoinSafe :: "path_env \<Rightarrow> string \<Rightarrow> string list \<Rightarrow> string option" where
  "JoinSafe = NormalizeAndValidatePath"

datatype name_error = EmptyName | NullBytes | Separators | Dangerous string | Reserved string

definition dangerousPatterns :: "string list" where
  "dangerousPatterns = [''..'', ''%2e%2e'', ''%252e%252e'']"

definition reservedNames :: "string list" where
  "reservedNames = [''CON'', ''PRN'', ''AUX'', ''NUL'', ''COM1'', ''COM2'', ''COM3'', ''COM4'', ''COM5'', ''COM6'', ''COM7'', ''COM8'',
     ''COM9'', ''LPT1'', ''LPT2'', ''LPT3'', ''LPT4'', ''LPT5'', ''LPT6'', ''LPT7'', ''LPT8'', ''LPT9'']"

definition ValidateFileName :: "string \<Rightarrow> name_error option" where
  "ValidateFileName name =
     (if name = [] then Some EmptyName
      else if CHR 0x00 \<in> set name then Some NullBytes
      else if slash \<in> set name \<or> CHR 0x5C \<in> set name then Some Separators
      else case find (\<lambda>p. str_contains (to_lower name) p) dangerousPatterns of
          Some p \<Rightarrow> Some (Dangerous p)
        | None \<Rightarrow> map_option Reserved (find (\<lambda>r. to_upper name = r \<or> prefix (r @ ''.'') (to_upper name)) reservedNames))"

definition ValidatePathComponent :: "string \<Rightarrow> name_error option" where
  "ValidatePathComponent = ValidateFileName"

definition SanitizePath :: "string \<Rightarrow> string" where
  "SanitizePath p = (let q = Clean (filter (\<lambda>c. c \<noteq> CHR 0x00) p) in if prefix dotdot q then [] else q)"

text \<open>A name in an archive; the errors are an unsafe path, an error of \<open>Rel\<close>, and a path that escapes.\<close>

datatype archive_path_error = UnsafePath | RelError | EscapesDestination

definition safeArchivePath :: "string \<Rightarrow> string \<Rightarrow> archive_path_error + string" where
  "safeArchivePath dst name =
     (let name' = map (\<lambda>c. if c = CHR 0x5C then slash else c) name; clean = Clean name' in
      if clean = dot \<or> prefix (dotdot @ [slash]) clean \<or> clean = dotdot \<or> IsAbs clean then Inl UnsafePath
      else let target = Join [dst, clean] in
        case Rel dst target of
          None \<Rightarrow> Inl RelError
        | Some rel \<Rightarrow> if leaves_base rel \<or> IsAbs rel then Inl EscapesDestination else Inr target)"

definition safeFileName :: "string \<Rightarrow> string" where
  "safeFileName value =
     (let v = trim_space (map (\<lambda>c. if c \<in> {slash, CHR 0x5C, CHR '':''} then CHR ''-'' else c) value) in
      if v = [] then ''latest'' else v)"

section \<open>Splitting and joining\<close>

lemma split_char_nonempty [simp]: "split_char c s \<noteq> []"
  by (induction s) (auto split: list.split)

lemma split_char_plain: "c \<notin> set w \<Longrightarrow> split_char c w = [w]"
  by (induction w) auto

lemma split_char_append: "split_char c (s @ c # t) = split_char c s @ split_char c t"
  by (induction s) (auto split: list.split)

lemma split_join:
  "ws \<noteq> [] \<Longrightarrow> \<forall>w \<in> set ws. c \<notin> set w \<Longrightarrow> split_char c (join_char c ws) = ws"
  by (induction c ws rule: join_char.induct) (simp_all add: split_char_plain split_char_append)

lemma split_char_words: "w \<in> set (split_char c s) \<Longrightarrow> c \<notin> set w"
  by (induction s arbitrary: w) (auto split: list.splits if_splits)

text \<open>A word of a cleaned path that goes down.\<close>

definition plain_word :: "string \<Rightarrow> bool" where
  "plain_word w \<longleftrightarrow> w \<noteq> [] \<and> w \<noteq> dot \<and> w \<noteq> dotdot \<and> slash \<notin> set w"

lemma slash_dots [simp]: "slash \<notin> set dot" "slash \<notin> set dotdot" "dot \<noteq> []" "dotdot \<noteq> []" "dot \<noteq> dotdot" "dotdot \<noteq> dot"
  by (simp_all add: slash_def dot_def dotdot_def)

lemma join_plain_head:
  assumes "ws \<noteq> []" "\<forall>w \<in> set ws. w \<noteq> [] \<and> slash \<notin> set w"
  shows "join_char slash ws \<noteq> [] \<and> \<not> IsAbs (join_char slash ws)"
proof -
  obtain w v where ws: "ws = w # v" using assms(1) by (cases ws) auto
  obtain x xs where "w = x # xs" "x \<noteq> slash" using assms(2) ws by (cases w) auto
  then show ?thesis using ws by (cases v) (auto simp: IsAbs_def)
qed

lemma path_words_of:
  assumes "\<forall>w \<in> set ws. w \<noteq> [] \<and> slash \<notin> set w" "rooted \<or> ws \<noteq> []"
  shows "path_words (path_of rooted ws) = ws" "IsAbs (path_of rooted ws) = rooted"
proof -
  have j: "ws \<noteq> [] \<Longrightarrow> join_char slash ws \<noteq> [] \<and> \<not> IsAbs (join_char slash ws)" using join_plain_head assms(1) by blast
  show abs: "IsAbs (path_of rooted ws) = rooted" using assms(2) j by (auto simp: path_of_def IsAbs_def)
  show "path_words (path_of rooted ws) = ws"
  proof (cases "ws = []")
    case True
    with assms(2) show ?thesis by (simp add: path_words_def path_of_def IsAbs_def)
  next
    case False
    with j abs assms(1) show ?thesis by (auto simp: path_words_def path_of_def Let_def split_join)
  qed
qed

section \<open>Cleaning\<close>

definition word_ok :: "string \<Rightarrow> bool" where "word_ok w \<longleftrightarrow> w \<noteq> [] \<and> slash \<notin> set w"

lemma clean_step_ok: "slash \<notin> set w \<Longrightarrow> \<forall>v \<in> set st. word_ok v \<Longrightarrow> \<forall>v \<in> set (clean_step rooted w st). word_ok v"
  by (auto simp: clean_step.simps word_ok_def split: list.splits if_splits)

lemma clean_fold_ok:
  "\<forall>w \<in> set ws. slash \<notin> set w \<Longrightarrow> \<forall>v \<in> set st. word_ok v \<Longrightarrow> \<forall>v \<in> set (fold (clean_step rooted) ws st). word_ok v"
proof (induction ws arbitrary: st)
  case (Cons w ws)
  have "\<forall>v \<in> set (clean_step rooted w st). word_ok v" using Cons.prems by (intro clean_step_ok) auto
  with Cons show ?case by simp
qed simp

lemma clean_words_ok: "\<forall>w \<in> set (clean_words rooted (split_char slash p)). w \<noteq> [] \<and> slash \<notin> set w"
  using clean_fold_ok [of "split_char slash p" "[]" rooted] split_char_words [of _ slash p]
  by (auto simp: clean_words_def word_ok_def)

lemma clean_step_plain: "plain_word w \<Longrightarrow> clean_step rooted w st = w # st"
  by (simp add: clean_step.simps plain_word_def)

lemma clean_fold_plain: "\<forall>w \<in> set ws. plain_word w \<Longrightarrow> fold (clean_step rooted) ws st = rev ws @ st"
  by (induction ws arbitrary: st) (simp_all add: clean_step_plain)

text \<open>Whether a relative path climbs above its start, and how deep it ends.\<close>

fun climbs :: "nat \<Rightarrow> string list \<Rightarrow> bool" where
  "climbs d [] \<longleftrightarrow> False"
| "climbs d (w # ws) \<longleftrightarrow> (if w = [] \<or> w = dot then climbs d ws else if w = dotdot then d = 0 \<or> climbs (d - 1) ws else climbs (Suc d) ws)"

fun depth_after :: "nat \<Rightarrow> string list \<Rightarrow> nat" where
  "depth_after d [] = d"
| "depth_after d (w # ws) = (if w = [] \<or> w = dot then depth_after d ws else if w = dotdot then depth_after (d - 1) ws else depth_after (Suc d) ws)"

lemma clean_keeps_dotdot:
  "st \<noteq> [] \<Longrightarrow> last st = dotdot \<Longrightarrow> fold (clean_step False) ws st \<noteq> [] \<and> last (fold (clean_step False) ws st) = dotdot"
proof (induction ws arbitrary: st)
  case (Cons w ws)
  have "clean_step False w st \<noteq> [] \<and> last (clean_step False w st) = dotdot"
    using Cons.prems by (cases st) (auto simp: clean_step.simps)
  with Cons show ?case by simp
qed simp

lemma clean_step_skip: "w = [] \<or> w = dot \<Longrightarrow> clean_step rooted w st = st"
  by (auto simp: clean_step.simps)

lemma clean_step_up: "\<forall>v \<in> set st. plain_word v \<Longrightarrow> clean_step False dotdot st = (if st = [] then [dotdot] else tl st)"
  by (cases st) (simp_all add: clean_step.simps plain_word_def)

lemma word_cases:
  assumes "slash \<notin> set w"
  obtains "w = [] \<or> w = dot" | "w = dotdot" | "plain_word w"
  using assms by (auto simp: plain_word_def)

lemma clean_not_climbing:
  assumes "\<not> climbs (length st) ws" "\<forall>w \<in> set st. plain_word w" "\<forall>w \<in> set ws. slash \<notin> set w"
  shows "(\<forall>w \<in> set (fold (clean_step False) ws st). plain_word w) \<and> length (fold (clean_step False) ws st) = depth_after (length st) ws"
  using assms
proof (induction ws arbitrary: st)
  case (Cons w ws)
  have w: "slash \<notin> set w" and ws: "\<forall>w \<in> set ws. slash \<notin> set w" using Cons.prems(3) by simp_all
  from w show ?case
  proof (cases rule: word_cases)
    case 1
    then have "\<not> climbs (length st) ws" "depth_after (length st) (w # ws) = depth_after (length st) ws" using Cons.prems(1) by auto
    with Cons.IH [OF _ Cons.prems(2) ws] 1 show ?thesis by (simp add: clean_step_skip)
  next
    case 2
    then have st: "st \<noteq> []" "\<not> climbs (length (tl st)) ws" "depth_after (length st) (w # ws) = depth_after (length (tl st)) ws"
      using Cons.prems(1) by auto
    have "\<forall>v \<in> set (tl st). plain_word v" using Cons.prems(2) st(1) by (simp add: list.set_sel(2))
    with Cons.IH [OF st(2) this ws] 2 st clean_step_up [OF Cons.prems(2)] show ?thesis by simp
  next
    case 3
    then have c: "\<not> climbs (length (w # st)) ws" "depth_after (length st) (w # ws) = depth_after (length (w # st)) ws"
      using Cons.prems(1) by (auto simp: plain_word_def)
    have "\<forall>v \<in> set (w # st). plain_word v" using Cons.prems(2) 3 by simp
    with Cons.IH [OF c(1) this ws] 3 c(2) show ?thesis by (simp add: clean_step_plain)
  qed
qed simp

lemma clean_climbing:
  assumes "climbs (length st) ws" "\<forall>w \<in> set st. plain_word w" "\<forall>w \<in> set ws. slash \<notin> set w"
  shows "fold (clean_step False) ws st \<noteq> [] \<and> last (fold (clean_step False) ws st) = dotdot"
  using assms
proof (induction ws arbitrary: st)
  case (Cons w ws)
  have w: "slash \<notin> set w" and ws: "\<forall>w \<in> set ws. slash \<notin> set w" using Cons.prems(3) by simp_all
  from w show ?case
  proof (cases rule: word_cases)
    case 1
    then have "climbs (length st) ws" using Cons.prems(1) by auto
    with Cons.IH [OF this Cons.prems(2) ws] 1 show ?thesis by (simp add: clean_step_skip)
  next
    case 2
    show ?thesis
    proof (cases "st = []")
      case True
      with 2 clean_keeps_dotdot [of "[dotdot]" ws] clean_step_up [of "[]"] show ?thesis by simp
    next
      case False
      then have "climbs (length (tl st)) ws" using 2 Cons.prems(1) by auto
      moreover have "\<forall>v \<in> set (tl st). plain_word v" using Cons.prems(2) False by (simp add: list.set_sel(2))
      ultimately show ?thesis using Cons.IH [OF _ _ ws] 2 False clean_step_up [OF Cons.prems(2)] by simp
    qed
  next
    case 3
    then have c: "climbs (length (w # st)) ws" using Cons.prems(1) by (auto simp: plain_word_def)
    have "\<forall>v \<in> set (w # st). plain_word v" using Cons.prems(2) 3 by simp
    with Cons.IH [OF c this ws] 3 show ?thesis by (simp add: clean_step_plain)
  qed
qed simp

text \<open>A relative path, cleaned: it starts with dots that lead up exactly when it climbs.\<close>

lemma Clean_relative:
  assumes "\<not> IsAbs p" "\<not> climbs 0 (split_char slash p)"
  shows "\<exists>ws. Clean p = path_of False ws \<and> (\<forall>w \<in> set ws. plain_word w) \<and> length ws = depth_after 0 (split_char slash p)"
  using clean_not_climbing [of "[]" "split_char slash p"] assms split_char_words [of _ slash p]
  by (intro exI [of _ "clean_words False (split_char slash p)"]) (simp add: Clean_def clean_words_def)

lemma Clean_climbing:
  assumes "\<not> IsAbs p" "climbs 0 (split_char slash p)"
  shows "\<exists>ws. Clean p = path_of False (dotdot # ws) \<and> (\<forall>w \<in> set ws. w \<noteq> [] \<and> slash \<notin> set w)"
proof -
  have "clean_words False (split_char slash p) \<noteq> [] \<and> hd (clean_words False (split_char slash p)) = dotdot"
    using clean_climbing [of "[]" "split_char slash p"] assms(2) split_char_words [of _ slash p] by (simp add: clean_words_def hd_rev)
  then obtain ws where ws: "clean_words False (split_char slash p) = dotdot # ws" by (cases "clean_words False (split_char slash p)") auto
  with clean_words_ok [of False p] assms(1) show ?thesis by (intro exI [of _ ws]) (simp add: Clean_def)
qed

lemma Clean_absolute: "IsAbs p \<Longrightarrow> IsAbs (Clean p)"
  by (simp add: Clean_def path_of_def IsAbs_def)

lemma leaves_base_words:
  assumes "\<forall>w \<in> set (v # ws). w \<noteq> [] \<and> slash \<notin> set w"
  shows "leaves_base (join_char slash (v # ws)) \<longleftrightarrow> v = dotdot"
proof
  assume l: "leaves_base (join_char slash (v # ws))"
  have "hd (split_char slash (join_char slash (v # ws))) = v" using assms by (simp add: split_join)
  moreover have "hd (split_char slash (join_char slash (v # ws))) = dotdot"
    using l split_char_append [of slash dotdot] split_char_plain [of slash dotdot] by (auto simp: leaves_base_def prefix_def)
  ultimately show "v = dotdot" by simp
qed (cases ws; simp add: leaves_base_def)

section \<open>Cleaned paths\<close>

text \<open>What a stack looks like: names above dots, which only a relative path has.\<close>

definition normal_stack :: "bool \<Rightarrow> string list \<Rightarrow> bool" where
  "normal_stack rooted st \<longleftrightarrow> (\<exists>names k. st = names @ replicate k dotdot \<and> (\<forall>w \<in> set names. plain_word w) \<and> (rooted \<longrightarrow> k = 0))"

lemma clean_step_normal:
  assumes "slash \<notin> set w" "normal_stack rooted st"
  shows "normal_stack rooted (clean_step rooted w st)"
proof -
  obtain names k where st: "st = names @ replicate k dotdot" "\<forall>w \<in> set names. plain_word w" "rooted \<longrightarrow> k = 0"
    using assms(2) by (auto simp: normal_stack_def)
  from assms(1) show ?thesis
  proof (cases rule: word_cases)
    case 1
    then show ?thesis using assms(2) by (simp add: clean_step_skip)
  next
    case 2
    show ?thesis
    proof (cases names)
      case Nil
      have "clean_step rooted w st = replicate (if rooted then 0 else Suc k) dotdot"
        using st 2 Nil by (cases k) (auto simp: clean_step.simps)
      then show ?thesis unfolding normal_stack_def by (intro exI [of _ "[]"] exI [of _ "if rooted then 0 else Suc k"]) simp
    next
      case (Cons v vs)
      then have "clean_step rooted w st = vs @ replicate k dotdot" using st 2 by (simp add: clean_step.simps plain_word_def)
      then show ?thesis using st Cons unfolding normal_stack_def by (intro exI [of _ vs] exI [of _ k]) simp
    qed
  next
    case 3
    then show ?thesis using st unfolding normal_stack_def
      by (intro exI [of _ "w # names"] exI [of _ k]) (simp add: clean_step_plain)
  qed
qed

lemma clean_fold_normal:
  "\<forall>w \<in> set ws. slash \<notin> set w \<Longrightarrow> normal_stack rooted st \<Longrightarrow> normal_stack rooted (fold (clean_step rooted) ws st)"
  by (induction ws arbitrary: st) (simp_all add: clean_step_normal)

lemma clean_dots: "fold (clean_step False) (replicate k dotdot) (replicate m dotdot) = replicate (k + m) dotdot"
proof (induction k arbitrary: m)
  case (Suc k)
  have "clean_step False dotdot (replicate m dotdot) = replicate (Suc m) dotdot" by (cases m) (simp_all add: clean_step.simps)
  with Suc [of "Suc m"] show ?case by simp
qed simp

text \<open>A cleaned path as its words: cleaning it again, or with names at its end, keeps them.\<close>

definition clean_base :: "string \<Rightarrow> string list" where
  "clean_base p = clean_words (IsAbs p) (split_char slash p)"

lemma Clean_base: "Clean p = path_of (IsAbs p) (clean_base p)"
  by (simp add: Clean_def clean_base_def)

lemma clean_base_normal: "normal_stack (IsAbs p) (rev (clean_base p))"
  using clean_fold_normal [of "split_char slash p" "IsAbs p" "[]"] split_char_words [of _ slash p]
  by (simp add: clean_base_def clean_words_def) (simp add: normal_stack_def)

lemma normal_fixed:
  assumes "normal_stack rooted (rev ws)"
  shows "fold (clean_step rooted) ws [] = rev ws"
proof -
  obtain names k where st: "rev ws = names @ replicate k dotdot" "\<forall>w \<in> set names. plain_word w" "rooted \<longrightarrow> k = 0"
    using assms by (auto simp: normal_stack_def)
  have ws: "ws = replicate k dotdot @ rev names" using arg_cong [OF st(1), of rev] by simp
  have "fold (clean_step rooted) (replicate k dotdot) [] = replicate k dotdot"
    using clean_dots [of k 0] st(3) by (cases rooted) auto
  then show ?thesis unfolding ws using clean_fold_plain [of "rev names" rooted "replicate k dotdot"] st(2) by simp
qed

lemma normal_words:
  assumes "normal_stack rooted (rev ws)"
  shows "\<forall>w \<in> set ws. w \<noteq> [] \<and> slash \<notin> set w \<and> w \<noteq> dot"
proof
  fix w assume w: "w \<in> set ws"
  obtain names k where st: "rev ws = names @ replicate k dotdot" "\<forall>w \<in> set names. plain_word w"
    using assms by (auto simp: normal_stack_def)
  have "w \<in> set (names @ replicate k dotdot)" using w unfolding st(1) [symmetric] by simp
  then have "w \<in> set names \<or> w = dotdot" by auto
  then show "w \<noteq> [] \<and> slash \<notin> set w \<and> w \<noteq> dot"
  proof
    assume "w \<in> set names"
    then show ?thesis using bspec [OF st(2)] by (simp add: plain_word_def)
  qed simp
qed

lemma Clean_path_of:
  assumes "normal_stack rooted (rev ws)"
  shows "Clean (path_of rooted ws) = path_of rooted ws"
proof -
  have w: "\<forall>w \<in> set ws. w \<noteq> [] \<and> slash \<notin> set w" using normal_words [OF assms] by blast
  show ?thesis
  proof (cases "rooted \<or> ws \<noteq> []")
    case True
    have "fold (clean_step rooted) (split_char slash (path_of rooted ws)) [] = rev ws"
    proof (cases "ws = []")
      case True
      with \<open>rooted \<or> ws \<noteq> []\<close> show ?thesis by (simp add: path_of_def clean_step_skip)
    next
      case False
      then show ?thesis using split_join [of ws slash] w normal_fixed [OF assms]
        by (cases rooted) (simp_all add: path_of_def clean_step_skip)
    qed
    then show ?thesis using path_words_of(2) [OF w True] by (simp add: Clean_def clean_words_def)
  next
    case False
    then show ?thesis by (simp add: path_of_def Clean_def clean_words_def IsAbs_def dot_def clean_step_skip slash_def)
  qed
qed

lemma normal_append: "normal_stack rooted (rev ws) \<Longrightarrow> \<forall>w \<in> set vs. plain_word w \<Longrightarrow> normal_stack rooted (rev (ws @ vs))"
proof -
  assume "normal_stack rooted (rev ws)" "\<forall>w \<in> set vs. plain_word w"
  then obtain names k where "rev ws = names @ replicate k dotdot" "\<forall>w \<in> set names. plain_word w" "rooted \<longrightarrow> k = 0"
    by (auto simp: normal_stack_def)
  with \<open>\<forall>w \<in> set vs. plain_word w\<close> show ?thesis
    unfolding normal_stack_def by (intro exI [of _ "rev vs @ names"] exI [of _ k]) auto
qed

lemma Join_below:
  assumes "\<forall>w \<in> set ws. plain_word w" "ws \<noteq> []"
  shows "Join [dst, path_of False ws] = path_of (IsAbs dst) (clean_base dst @ ws)"
proof -
  have w: "\<forall>w \<in> set ws. w \<noteq> [] \<and> slash \<notin> set w" using assms(1) by (auto simp: plain_word_def)
  have split: "split_char slash (path_of False ws) = ws" "path_of False ws \<noteq> []"
    using split_join [of ws slash] w assms(2) join_plain_head [OF assms(2) w] by (simp_all add: path_of_def)
  show ?thesis
  proof (cases "dst = []")
    case True
    have "normal_stack False (rev ws)" using normal_append [of False "[]" ws] assms(1) by (simp add: normal_stack_def)
    then have "Clean (path_of False ws) = path_of False ws" by (rule Clean_path_of)
    with True split show ?thesis by (simp add: Join_def IsAbs_def clean_base_def clean_words_def clean_step_skip)
  next
    case False
    have "IsAbs (dst @ slash # path_of False ws) = IsAbs dst" using False by (cases dst) (simp_all add: IsAbs_def)
    with False split show ?thesis
      by (simp add: Join_def Clean_def split_char_append clean_words_def clean_base_def clean_fold_plain [OF assms(1)])
  qed
qed

lemma strip_common_prefix [simp]: "strip_common ws (ws @ vs) = ([], vs)"
  by (induction ws) simp_all

lemma Rel_below:
  assumes "\<forall>w \<in> set ws. plain_word w" "ws \<noteq> []"
  shows "Rel dst (path_of (IsAbs dst) (clean_base dst @ ws)) = Some (join_char slash ws)"
proof -
  let ?D = "clean_base dst" and ?R = "IsAbs dst"
  have n: "normal_stack ?R (rev ?D)" and m: "normal_stack ?R (rev (?D @ ws))"
    using clean_base_normal normal_append [OF clean_base_normal assms(1)] by auto
  have wD: "\<forall>w \<in> set ?D. w \<noteq> [] \<and> slash \<notin> set w \<and> w \<noteq> dot" by (rule normal_words [OF n])
  have wT: "\<forall>w \<in> set (?D @ ws). w \<noteq> [] \<and> slash \<notin> set w" using normal_words [OF m] by blast
  have T: "path_words (path_of ?R (?D @ ws)) = ?D @ ws" "IsAbs (path_of ?R (?D @ ws)) = ?R"
    using path_words_of [OF wT, of ?R] assms(2) by auto
  show ?thesis
  proof (cases "?R \<or> ?D \<noteq> []")
    case True
    have D: "path_words (path_of ?R ?D) = ?D" "IsAbs (path_of ?R ?D) = ?R" using path_words_of [of ?D ?R] wD True by auto
    have "path_of ?R ?D \<noteq> dot"
    proof
      assume e: "path_of ?R ?D = dot"
      then have "\<not> ?R" using D(2) by (simp add: IsAbs_def dot_def slash_def)
      moreover have "?D = [dot]" using D(1) e by (simp add: path_words_def IsAbs_def dot_def slash_def)
      ultimately show False using wD by simp
    qed
    moreover have "path_of ?R (?D @ ws) \<noteq> path_of ?R ?D" using T(1) D(1) assms(2) by auto
    ultimately show ?thesis
      using T D by (simp add: Rel_def Clean_path_of [OF m] Clean_base [of dst] Let_def)
  next
    case False
    then have D: "?D = []" "\<not> ?R" by auto
    then have b: "Clean dst = dot" by (simp add: Clean_base path_of_def)
    have "path_of False ws \<noteq> dot"
    proof
      assume "path_of False ws = dot"
      then have "path_words (path_of False ws) = [dot]" by (simp add: path_words_def IsAbs_def dot_def slash_def)
      then have "ws = [dot]" using T(1) D by simp
      then show False using assms(1) by (simp add: plain_word_def)
    qed
    moreover have "path_words [] = []" "\<not> IsAbs []" by (simp_all add: path_words_def IsAbs_def)
    ultimately show ?thesis using b T D m by (simp add: Rel_def Clean_path_of Let_def)
  qed
qed

section \<open>The checks keep paths inside\<close>

text \<open>The names of an archive entry with the separators of Windows turned round.\<close>

definition entry_path :: "string \<Rightarrow> string" where
  "entry_path name = map (\<lambda>c. if c = CHR 0x5C then slash else c) name"

lemma leaves_base_plain: "\<forall>w \<in> set ws. plain_word w \<Longrightarrow> ws \<noteq> [] \<Longrightarrow> \<not> leaves_base (join_char slash ws) \<and> \<not> IsAbs (join_char slash ws)"
proof -
  assume p: "\<forall>w \<in> set ws. plain_word w" "ws \<noteq> []"
  obtain v vs where ws: "ws = v # vs" using p(2) by (cases ws) auto
  have "\<forall>w \<in> set (v # vs). w \<noteq> [] \<and> slash \<notin> set w" "v \<noteq> dotdot" using p(1) ws by (auto simp: plain_word_def)
  with leaves_base_words [of v vs] join_plain_head [OF p(2)] ws show ?thesis by blast
qed

lemma archive_path_words:
  "safeArchivePath dst name = Inr target \<longleftrightarrow>
     \<not> IsAbs (entry_path name) \<and> \<not> climbs 0 (split_char slash (entry_path name)) \<and>
     0 < depth_after 0 (split_char slash (entry_path name)) \<and>
     (\<exists>ws. ws \<noteq> [] \<and> list_all plain_word ws \<and> Clean (entry_path name) = join_char slash ws \<and>
        target = path_of (IsAbs dst) (clean_base dst @ ws))"
proof (cases "IsAbs (entry_path name)")
  case True
  then show ?thesis using Clean_absolute by (simp add: safeArchivePath_def entry_path_def Let_def)
next
  case rel: False
  show ?thesis
  proof (cases "climbs 0 (split_char slash (entry_path name))")
    case True
    from Clean_climbing [OF rel True] obtain ws where ws: "Clean (entry_path name) = path_of False (dotdot # ws)"
      "\<forall>w \<in> set ws. w \<noteq> [] \<and> slash \<notin> set w" by blast
    then have "leaves_base (Clean (entry_path name))" using leaves_base_words [of dotdot ws] by (simp add: path_of_def)
    with True show ?thesis by (auto simp: safeArchivePath_def entry_path_def Let_def leaves_base_def)
  next
    case False
    from Clean_relative [OF rel False] obtain ws where ws: "Clean (entry_path name) = path_of False ws"
      "\<forall>w \<in> set ws. plain_word w" "length ws = depth_after 0 (split_char slash (entry_path name))" by blast
    show ?thesis
    proof (cases "ws = []")
      case True
      with ws show ?thesis by (simp add: safeArchivePath_def entry_path_def Let_def path_of_def)
    next
      case ne: False
      then have c: "Clean (entry_path name) = join_char slash ws" using ws(1) by (simp add: path_of_def)
      have w: "\<forall>w \<in> set ws. w \<noteq> [] \<and> slash \<notin> set w" using ws(2) by (auto simp: plain_word_def)
      have "join_char slash ws \<noteq> dot"
        using split_join [OF ne, of slash] w split_char_plain [of slash dot] ws(2) by (auto simp: plain_word_def)
      then have "safeArchivePath dst name = Inr (path_of (IsAbs dst) (clean_base dst @ ws))"
        using leaves_base_plain [OF ws(2) ne] Join_below [OF ws(2) ne, of dst] Rel_below [OF ws(2) ne, of dst] c ne ws(1)
        by (simp add: safeArchivePath_def entry_path_def Let_def leaves_base_def)
      moreover have "ws' = ws" if "ws' \<noteq> []" "list_all plain_word ws'" "join_char slash ws' = join_char slash ws" for ws'
        using split_join [OF that(1), of slash] split_join [OF ne, of slash] that(2,3) w by (auto simp: list_all_iff plain_word_def)
      moreover have "0 < depth_after 0 (split_char slash (entry_path name))" using ne unfolding ws(3) [symmetric] by simp
      ultimately show ?thesis unfolding c using rel False ne ws(2) by (auto simp: list_all_iff)
    qed
  qed
qed

lemma archive_path_inside:
  "safeArchivePath dst name = Inr target \<Longrightarrow>
     \<exists>ws. ws \<noteq> [] \<and> list_all plain_word ws \<and> target = path_of (IsAbs dst) (clean_base dst @ ws)"
  unfolding archive_path_words by blast

text \<open>
  An archive entry is accepted exactly when its name is relative, never climbs above its start and ends below
  it; it is then extracted to the destination followed by the cleaned name, which has no dots: the second check,
  on the relative path, never refuses anything.\<close>

theorem archive_path_exact:
  "safeArchivePath dst name = Inr target \<longleftrightarrow>
     \<not> IsAbs (entry_path name) \<and> \<not> climbs 0 (split_char slash (entry_path name)) \<and>
     0 < depth_after 0 (split_char slash (entry_path name)) \<and>
     (\<exists>ws. ws \<noteq> [] \<and> list_all plain_word ws \<and> Clean (entry_path name) = join_char slash ws \<and>
        target = path_of (IsAbs dst) (clean_base dst @ ws))"
  by (rule archive_path_words)

lemma ValidateFileName_sound:
  assumes "ValidateFileName name = None"
  shows "name = dot \<or> plain_word name"
proof -
  have "name \<noteq> []" "slash \<notin> set name" using assms by (auto simp: ValidateFileName_def split: if_splits)
  moreover have "name \<noteq> dotdot"
  proof
    assume "name = dotdot"
    then have "ValidateFileName name \<noteq> None" by (simp add: ValidateFileName_def dangerousPatterns_def dotdot_def to_lower_def lower_char_def slash_def)
    with assms show False by simp
  qed
  ultimately show ?thesis by (auto simp: plain_word_def)
qed

end
