(* ===== verification/Release_Files.thy ===== *)
theory Release_Files
  imports Paths Snapshot_Data "HOL-Library.List_Lexorder" "HOL-Library.Char_ord"
begin

text \<open>
  Files and the manifest of a release (\<open>internal/release/manifest.go\<close>, the file operations of
  \<open>internal/updater/updater.go\<close>). A disk is the list of its files with their contents; a directory is there when a
  file is below it, so empty directories, modes and links are not modelled. Each write takes the next
  fault of the disk, so that it may fail at any point.
\<close>

section \<open>The disk\<close>

text \<open>A fault says after how many bytes a write fails.\<close>

record disk =
  dk_files :: "(string \<times> string) list"
  dk_faults :: "nat option list"

definition file_at :: "disk \<Rightarrow> string \<Rightarrow> string option" where
  "file_at d p = map_of (dk_files d) p"

definition below :: "string \<Rightarrow> string \<Rightarrow> bool" where
  "below dir p \<longleftrightarrow> prefix (dir @ [slash]) p"

definition is_dir :: "disk \<Rightarrow> string \<Rightarrow> bool" where
  "is_dir d p \<longleftrightarrow> list_ex (\<lambda>(q, c). below p q) (dk_files d)"

text \<open>The path relative to a directory, and the walk of \<open>filepath.WalkDir\<close> over its files.\<close>

definition rel_path :: "string \<Rightarrow> string \<Rightarrow> string" where
  "rel_path dir p = drop (Suc (length dir)) p"

definition files_under :: "disk \<Rightarrow> string \<Rightarrow> string list" where
  "files_under d dir = sort_key path_words (map (rel_path dir) (filter (below dir) (map fst (dk_files d))))"

definition next_fault :: "disk \<Rightarrow> nat option \<times> disk" where
  "next_fault d = (case dk_faults d of [] \<Rightarrow> (None, d) | f # fs \<Rightarrow> (f, d\<lparr>dk_faults := fs\<rparr>))"

definition write_file :: "string \<Rightarrow> string \<Rightarrow> disk \<Rightarrow> disk" where
  "write_file p content d = d\<lparr>dk_files := AList.update p content (dk_files d)\<rparr>"

text \<open>A file can be made where no directory is and no file is in the place of one of its directories.\<close>

definition creatable :: "disk \<Rightarrow> string \<Rightarrow> bool" where
  "creatable d p \<longleftrightarrow> \<not> is_dir d p \<and> \<not> list_ex (\<lambda>(q, c). below q p) (dk_files d)"

definition put_file :: "string \<Rightarrow> string \<Rightarrow> disk \<Rightarrow> bool \<times> disk" where
  "put_file p content d =
     (if \<not> creatable d p then (False, d)
      else case next_fault d of
          (None, d') \<Rightarrow> (True, write_file p content d')
        | (Some n, d') \<Rightarrow> (False, write_file p (take n content) d'))"

text \<open>The source is opened before the destination is truncated, so a file that is copied to itself is emptied.\<close>

definition copyFile :: "string \<Rightarrow> string \<Rightarrow> disk \<Rightarrow> bool \<times> disk" where
  "copyFile src dst d =
     (case file_at d src of
        None \<Rightarrow> (False, d)
      | Some content \<Rightarrow> put_file dst (if src = dst then [] else content) d)"

text \<open>Steps up to the first that fails.\<close>

fun each_step :: "('a \<Rightarrow> 's \<Rightarrow> bool \<times> 's) \<Rightarrow> 'a list \<Rightarrow> 's \<Rightarrow> bool \<times> 's" where
  "each_step f [] s = (True, s)"
| "each_step f (x # xs) s = (case f x s of (ok, s') \<Rightarrow> if ok then each_step f xs s' else (False, s'))"

definition copyPath :: "string \<Rightarrow> string \<Rightarrow> disk \<Rightarrow> bool \<times> disk" where
  "copyPath src dst d =
     (if is_dir d src then each_step (\<lambda>rel. copyFile (Join [src, rel]) (Join [dst, rel])) (files_under d src) d
      else copyFile src dst d)"

definition copyPathIfExists :: "string \<Rightarrow> string \<Rightarrow> disk \<Rightarrow> bool \<times> disk" where
  "copyPathIfExists src dst d = (if file_at d src = None \<and> \<not> is_dir d src then (True, d) else copyPath src dst d)"

definition RemoveAll :: "string \<Rightarrow> disk \<Rightarrow> disk" where
  "RemoveAll p d = d\<lparr>dk_files := filter (\<lambda>(q, c). q \<noteq> p \<and> \<not> below p q) (dk_files d)\<rparr>"

definition Rename :: "string \<Rightarrow> string \<Rightarrow> disk \<Rightarrow> disk" where
  "Rename p q d = d\<lparr>dk_files := map (\<lambda>(r, c). (if below p r then q @ slash # rel_path p r else r, c)) (dk_files d)\<rparr>"

text \<open>
  A directory is replaced through a temporary one beside it, whose name is a parameter. The removal of the
  old one and the renaming can fail too; the temporary one is removed then.
\<close>

definition replaceDir :: "string \<Rightarrow> string \<Rightarrow> string \<Rightarrow> disk \<Rightarrow> bool \<times> disk" where
  "replaceDir tmp src dst d =
     (if \<not> is_dir d src then (False, d)
      else case copyPath src tmp (RemoveAll tmp d) of
          (False, d1) \<Rightarrow> (False, RemoveAll tmp d1)
        | (True, d1) \<Rightarrow> (case next_fault d1 of
            (Some n, d2) \<Rightarrow> (False, RemoveAll tmp d2)
          | (None, d2) \<Rightarrow> (case next_fault (RemoveAll dst d2) of
              (Some n, d3) \<Rightarrow> (False, RemoveAll tmp d3)
            | (None, d3) \<Rightarrow> (True, Rename tmp dst d3))))"

section \<open>The manifest\<close>

record BinaryManifest =
  bm_Path :: string
  bm_SHA256 :: string
  bm_Version :: string

record MigrationManifest =
  mgm_MinVersion :: string
  mgm_Required :: bool
  mgm_Notes :: string

text \<open>The maps are association lists in the order in which the program happens to go through them.\<close>

record Manifest =
  mf_SchemaVersion :: goint
  mf_ProductVersion :: string
  mf_GitCommit :: string
  mf_BuiltAt :: gotime
  mf_Platform :: string
  mf_Binaries :: "(string \<times> BinaryManifest) list"
  mf_AdminDistHash :: string
  mf_SnapshotSchemaVersion :: goint
  mf_RPCContractVersion :: string
  mf_RequiredDaemons :: "string list"
  mf_DefaultConfigPaths :: "(string \<times> string) list"
  mf_Migration :: MigrationManifest

definition ManifestFileName :: string where "ManifestFileName = ''aigw-manifest.json''"

definition manifestSchemaVersion :: goint where "manifestSchemaVersion = 1"

definition requiredDaemons :: "string list" where "requiredDaemons = [''telemetryd'', ''gatewayd'', ''controld'']"
definition shippedBinaries :: "string list" where
  "shippedBinaries = [''aigw'', ''gatewayd'', ''controld'', ''telemetryd'', ''gateway-cli'']"
definition requiredForUpdate :: "string list" where "requiredForUpdate = [''aigw'', ''telemetryd'', ''gatewayd'', ''controld'']"

text \<open>
  The running program (its versions and platform), the digest in hexadecimal, and the codec of manifests.
\<close>

record release_env =
  rl_ProductVersion :: string
  rl_GOOS :: string
  rl_GOARCH :: string
  rl_sha256 :: "string \<Rightarrow> string"
  rl_encode :: "Manifest \<Rightarrow> string"
  rl_decode :: "string \<Rightarrow> Manifest option"

definition RPCContractVersion :: string where "RPCContractVersion = ''1''"

definition current_platform :: "'x release_env_scheme \<Rightarrow> string" where
  "current_platform env = rl_GOOS env @ slash # rl_GOARCH env"

definition HashFile :: "'x release_env_scheme \<Rightarrow> string \<Rightarrow> disk \<Rightarrow> string option" where
  "HashFile env p d = map_option (rl_sha256 env) (file_at d p)"

text \<open>The digest of a directory is that of the sorted names and digests of its files; a file in its place has one entry.\<close>

definition HashDir :: "'x release_env_scheme \<Rightarrow> string \<Rightarrow> disk \<Rightarrow> string option" where
  "HashDir env dir d =
     (let dir' = Clean dir; entries = sort (if file_at d dir' \<noteq> None then [dot] else files_under d dir') in
      if file_at d dir' = None \<and> \<not> is_dir d dir' then None
      else map_option (\<lambda>hs. rl_sha256 env (concat (map (\<lambda>(rel, h). rel @ CHR 0x00 # h @ [CHR 0x00]) (zip entries hs))))
        (those (map (\<lambda>rel. HashFile env (Join [dir', rel]) d) entries)))"

section \<open>Verification\<close>

datatype issue =
    UnsupportedSchema goint
  | NoProductVersion
  | OtherProductVersion string
  | OtherRPCContract string
  | OtherSnapshotSchema goint
  | OtherPlatform string
  | DaemonMissing string
  | DaemonVersion string string
  | UpdateBinaryMissing string
  | ShippedBinaryMissing string
  | NoBinaryPath string
  | BinaryHashFailed string
  | BinaryHashMismatch string string
  | AdminHashFailed
  | AdminHashMismatch string

record VerifyReport =
  vr_OK :: bool
  vr_Issues :: "issue list"

record verifyOptions =
  requireCurrentProductVersion :: bool
  requireCurrentRPCContract :: bool
  requireCurrentSnapshotSchema :: bool
  requireShippedBinaries :: bool
  requireUpdateBinaries :: bool

definition verifyBinary :: "'x release_env_scheme \<Rightarrow> disk \<Rightarrow> string \<Rightarrow> string \<Rightarrow> BinaryManifest \<Rightarrow> issue list" where
  "verifyBinary env d bundle name binary =
     (if trim_space (bm_Path binary) = [] then [NoBinaryPath name]
      else case HashFile env (Join [bundle, bm_Path binary]) d of
          None \<Rightarrow> [BinaryHashFailed name]
        | Some digest \<Rightarrow> if equal_fold digest (bm_SHA256 binary) then [] else [BinaryHashMismatch name digest])"

definition verify_daemon :: "'x release_env_scheme \<Rightarrow> disk \<Rightarrow> string \<Rightarrow> Manifest \<Rightarrow> string \<Rightarrow> issue list" where
  "verify_daemon env d bundle m daemon =
     (case map_of (mf_Binaries m) daemon of
        None \<Rightarrow> [DaemonMissing daemon]
      | Some binary \<Rightarrow>
          (if bm_Version binary \<noteq> [] \<and> bm_Version binary \<noteq> mf_ProductVersion m then [DaemonVersion daemon (bm_Version binary)] else []) @
          verifyBinary env d bundle daemon binary)"

definition admin_dist :: "string \<Rightarrow> string" where
  "admin_dist dir = Join [dir, ''web'', ''admin'', ''dist'']"

definition issue_if :: "bool \<Rightarrow> issue \<Rightarrow> issue list" where
  "issue_if b i = (if b then [i] else [])"

text \<open>The issues in the order in which they are found; the program sorts their texts.\<close>

definition manifest_issues :: "'x release_env_scheme \<Rightarrow> disk \<Rightarrow> string \<Rightarrow> Manifest \<Rightarrow> verifyOptions \<Rightarrow> issue list" where
  "manifest_issues env d bundle m opts =
     issue_if (mf_SchemaVersion m \<noteq> manifestSchemaVersion) (UnsupportedSchema (mf_SchemaVersion m)) @
     issue_if (trim_space (mf_ProductVersion m) = []) NoProductVersion @
     issue_if (requireCurrentProductVersion opts \<and> mf_ProductVersion m \<noteq> [] \<and> mf_ProductVersion m \<noteq> rl_ProductVersion env)
       (OtherProductVersion (mf_ProductVersion m)) @
     issue_if (requireCurrentRPCContract opts \<and> mf_RPCContractVersion m \<noteq> [] \<and> mf_RPCContractVersion m \<noteq> RPCContractVersion)
       (OtherRPCContract (mf_RPCContractVersion m)) @
     issue_if (requireCurrentSnapshotSchema opts \<and> mf_SnapshotSchemaVersion m \<noteq> 0 \<and> mf_SnapshotSchemaVersion m \<noteq> CurrentSchemaVersion)
       (OtherSnapshotSchema (mf_SnapshotSchemaVersion m)) @
     issue_if (mf_Platform m \<noteq> [] \<and> mf_Platform m \<noteq> current_platform env) (OtherPlatform (mf_Platform m)) @
     concat (map (verify_daemon env d bundle m) requiredDaemons) @
     (if requireUpdateBinaries opts
      then concat (map (\<lambda>name. issue_if (map_of (mf_Binaries m) name = None) (UpdateBinaryMissing name)) requiredForUpdate) else []) @
     (if requireShippedBinaries opts
      then concat (map (\<lambda>name. issue_if (map_of (mf_Binaries m) name = None) (ShippedBinaryMissing name)) shippedBinaries) else []) @
     concat (map (\<lambda>(name, binary). if name \<in> set requiredDaemons then [] else verifyBinary env d bundle name binary) (mf_Binaries m)) @
     (if mf_AdminDistHash m = [] then []
      else case HashDir env (admin_dist bundle) d of
          None \<Rightarrow> [AdminHashFailed]
        | Some digest \<Rightarrow> issue_if (\<not> equal_fold digest (mf_AdminDistHash m)) (AdminHashMismatch digest))"

definition bundle_root :: "string \<Rightarrow> string" where
  "bundle_root p = Clean (if trim_space p = [] then dot else trim_space p)"

definition verifyManifest :: "'x release_env_scheme \<Rightarrow> disk \<Rightarrow> string \<Rightarrow> Manifest \<Rightarrow> verifyOptions \<Rightarrow> VerifyReport" where
  "verifyManifest env d bundle m opts =
     (let issues = manifest_issues env d (bundle_root bundle) m opts in \<lparr>vr_OK = (issues = []), vr_Issues = issues\<rparr>)"

definition VerifyManifest :: "'x release_env_scheme \<Rightarrow> disk \<Rightarrow> string \<Rightarrow> Manifest \<Rightarrow> VerifyReport" where
  "VerifyManifest env d bundle m = verifyManifest env d bundle m
     \<lparr>requireCurrentProductVersion = True, requireCurrentRPCContract = True, requireCurrentSnapshotSchema = True,
       requireShippedBinaries = True, requireUpdateBinaries = False\<rparr>"

definition VerifyIncomingBundle :: "'x release_env_scheme \<Rightarrow> disk \<Rightarrow> string \<Rightarrow> Manifest \<Rightarrow> VerifyReport" where
  "VerifyIncomingBundle env d bundle m = verifyManifest env d bundle m
     \<lparr>requireCurrentProductVersion = False, requireCurrentRPCContract = False, requireCurrentSnapshotSchema = False,
       requireShippedBinaries = True, requireUpdateBinaries = True\<rparr>"

section \<open>Building a manifest\<close>

record BuildOptions =
  bo_Root :: string
  bo_ProductVersion :: string
  bo_GitCommit :: string
  bo_BuiltAt :: gotime
  bo_Platform :: string

definition executableRelPathIn :: "'x release_env_scheme \<Rightarrow> string \<Rightarrow> string \<Rightarrow> string" where
  "executableRelPathIn env dir name = dir @ slash # name @ (if rl_GOOS env = ''windows'' then ''.exe'' else [])"

text \<open>The first of the two places where the file is; a directory there is passed over.\<close>

definition findBundleBinary :: "'x release_env_scheme \<Rightarrow> disk \<Rightarrow> string \<Rightarrow> string \<Rightarrow> (string \<times> string) option" where
  "findBundleBinary env d bundle name =
     (case filter (\<lambda>(rel, p). file_at d p \<noteq> None)
        (map (\<lambda>dir. (executableRelPathIn env dir name, Join [bundle, executableRelPathIn env dir name])) [''bin'', ''dist'']) of
        [] \<Rightarrow> None | x # xs \<Rightarrow> Some x)"

definition build_binary :: "'x release_env_scheme \<Rightarrow> disk \<Rightarrow> string \<Rightarrow> string \<Rightarrow> string \<Rightarrow> (string \<times> BinaryManifest) list" where
  "build_binary env d bundle productVersion name =
     (case findBundleBinary env d bundle name of
        None \<Rightarrow> []
      | Some (rel, p) \<Rightarrow> (case HashFile env p d of
            None \<Rightarrow> [] | Some digest \<Rightarrow> [(name, \<lparr>bm_Path = rel, bm_SHA256 = digest, bm_Version = productVersion\<rparr>)]))"

definition BuildManifest :: "'x release_env_scheme \<Rightarrow> disk \<Rightarrow> gotime \<Rightarrow> BuildOptions \<Rightarrow> Manifest" where
  "BuildManifest env d now opts =
     (let bundle = bundle_root (bo_Root opts);
          productVersion = (if trim_space (bo_ProductVersion opts) = [] then rl_ProductVersion env else trim_space (bo_ProductVersion opts));
          platform = (if trim_space (bo_Platform opts) = [] then current_platform env else trim_space (bo_Platform opts))
      in \<lparr>mf_SchemaVersion = manifestSchemaVersion, mf_ProductVersion = productVersion, mf_GitCommit = trim_space (bo_GitCommit opts),
         mf_BuiltAt = (if is_zero_time (bo_BuiltAt opts) then now else bo_BuiltAt opts), mf_Platform = platform,
         mf_Binaries = concat (map (build_binary env d bundle productVersion) shippedBinaries),
         mf_AdminDistHash = (case HashDir env (admin_dist bundle) d of None \<Rightarrow> [] | Some digest \<Rightarrow> digest),
         mf_SnapshotSchemaVersion = CurrentSchemaVersion, mf_RPCContractVersion = RPCContractVersion,
         mf_RequiredDaemons = requiredDaemons,
         mf_DefaultConfigPaths = [(''gatewayd'', ''configs/gatewayd.json''), (''controld'', ''configs/controld.json''),
           (''telemetryd'', ''configs/telemetryd.json'')],
         mf_Migration = \<lparr>mgm_MinVersion = ''1.2.0'', mgm_Required = False,
           mgm_Notes = ''Bundles must be applied as one aigw-managed payload.''\<rparr>\<rparr>)"

definition LoadManifest :: "'x release_env_scheme \<Rightarrow> string \<Rightarrow> disk \<Rightarrow> Manifest option" where
  "LoadManifest env p d = (case file_at d p of None \<Rightarrow> None | Some text \<Rightarrow> rl_decode env text)"

definition SaveManifest :: "'x release_env_scheme \<Rightarrow> string \<Rightarrow> Manifest \<Rightarrow> disk \<Rightarrow> bool \<times> disk" where
  "SaveManifest env p m d = (if trim_space p = [] then (False, d) else put_file p (rl_encode env m @ [CHR 0x0A]) d)"

end
