(* ===== verification/Updater.thy ===== *)
theory Updater
  imports Release_Files Json_Value "HOL-Library.Product_Lexorder"
begin

text \<open>
  The updater (\<open>internal/updater/updater.go\<close>): the order of versions, the check for a release, the extraction of
  its archive, and the replacement of the installed files with a backup and a rollback. The network, the
  readers of archives and the JSON codec are parameters.
\<close>

section \<open>Versions\<close>

fun cut_at :: "char \<Rightarrow> string \<Rightarrow> string \<times> string option" where
  "cut_at c [] = ([], None)"
| "cut_at c (x # xs) = (if x = c then ([], Some xs) else case cut_at c xs of (a, b) \<Rightarrow> (x # a, b))"

definition NormalizeVersion :: "string \<Rightarrow> string" where
  "NormalizeVersion value =
     (let v = trim_space value; v' = (if prefix ''v'' v then drop 1 v else v) in fst (cut_at (CHR ''+'') v'))"

record parsedVersion =
  pv_nums :: "int \<times> int \<times> int"
  pv_pre :: string

text \<open>\<open>strconv.Atoi\<close>.\<close>

definition Atoi :: "string \<Rightarrow> int option" where
  "Atoi s =
     (let (neg, ds) = (case s of [] \<Rightarrow> (False, []) | c # cs \<Rightarrow>
          if c = CHR ''-'' then (True, cs) else if c = CHR ''+'' then (False, cs) else (False, s))
      in if ds = [] then None
         else case parse_digits ds 0 of
             None \<Rightarrow> None
           | Some n \<Rightarrow> (let k = (if neg then - n else n) in if min_i64 \<le> k \<and> k \<le> max_i64 then Some k else None))"

definition version_part :: "string \<Rightarrow> int option" where
  "version_part part = (if part = [] then None else case Atoi part of None \<Rightarrow> None | Some n \<Rightarrow> if n < 0 then None else Some n)"

definition parseVersion :: "string \<Rightarrow> parsedVersion option" where
  "parseVersion value =
     (let v = NormalizeVersion value in
      if v = [] then None
      else case cut_at (CHR ''-'') v of (base, pre) \<Rightarrow>
        (case map version_part (split_char (CHR ''.'') base) of
           [Some a, Some b, Some c] \<Rightarrow> Some \<lparr>pv_nums = (a, b, c), pv_pre = (case pre of None \<Rightarrow> [] | Some p \<Rightarrow> p)\<rparr>
         | _ \<Rightarrow> None))"

definition IsReleaseVersion :: "string \<Rightarrow> bool" where
  "IsReleaseVersion value \<longleftrightarrow> parseVersion value \<noteq> None"

definition strings_Compare :: "string \<Rightarrow> string \<Rightarrow> int" where
  "strings_Compare a b = (if a < b then -1 else if b < a then 1 else 0)"

fun compare_nums :: "int list \<Rightarrow> int list \<Rightarrow> int" where
  "compare_nums (a # as) (b # bs) = (if a < b then -1 else if b < a then 1 else compare_nums as bs)"
| "compare_nums as bs = 0"

definition nums_list :: "int \<times> int \<times> int \<Rightarrow> int list" where
  "nums_list = (\<lambda>(a, b, c). [a, b, c])"

definition CompareVersions :: "string \<Rightarrow> string \<Rightarrow> int" where
  "CompareVersions left right =
     (case (parseVersion left, parseVersion right) of
        (None, None) \<Rightarrow> strings_Compare (NormalizeVersion left) (NormalizeVersion right)
      | (None, Some b) \<Rightarrow> 0
      | (Some a, None) \<Rightarrow> 0
      | (Some a, Some b) \<Rightarrow>
          (let c = compare_nums (nums_list (pv_nums a)) (nums_list (pv_nums b)) in
           if c \<noteq> 0 then c
           else if pv_pre a = pv_pre b then 0
           else if pv_pre a = [] then 1
           else if pv_pre b = [] then -1
           else strings_Compare (pv_pre a) (pv_pre b)))"

section \<open>The latest release\<close>

record Asset =
  as_Name :: string
  as_URL :: string
  as_Size :: goint

record ReleaseInfo =
  ri_TagName :: string
  ri_HTMLURL :: string
  ri_PublishedAt :: gotime
  ri_Prerelease :: bool
  ri_Assets :: "Asset list"

record Options =
  op_CurrentVersion :: string
  op_Repository :: string
  op_APIBaseURL :: string
  op_Platform :: string
  op_DownloadDir :: string
  op_InstallDir :: string
  op_StateDir :: string

datatype entry_kind = DirEntry | RegularEntry | OtherEntry

text \<open>An entry of an archive: its data are \<open>None\<close> when they cannot be read.\<close>

record archive_entry =
  ae_Name :: string
  ae_Kind :: entry_kind
  ae_Size :: goint
  ae_Data :: "string option"

text \<open>
  The network gives a status and a body, or an error. An archive is read as its entries, and whether it ends
  without an error after them.
\<close>

record update_env = release_env +
  ue_http :: "string \<Rightarrow> (goint \<times> string) option"
  ue_release :: "string \<Rightarrow> ReleaseInfo option"
  ue_zip :: "string \<Rightarrow> archive_entry list option"
  ue_targz :: "string \<Rightarrow> (archive_entry list \<times> bool) option"
  ue_stamp :: "gotime \<Rightarrow> string"
  ue_tmp :: string

definition DefaultRepository :: string where "DefaultRepository = ''SSC-STUDIO/Ai-Model-Gateway''"
definition DefaultAPIBaseURL :: string where "DefaultAPIBaseURL = ''https://api.github.com''"

definition or_default :: "string \<Rightarrow> string \<Rightarrow> string" where
  "or_default v d = (if trim_space v = [] then d else v)"

definition normalizeOptions :: "'x update_env_scheme \<Rightarrow> Options \<Rightarrow> Options" where
  "normalizeOptions env opts =
     (let stateDir = or_default (op_StateDir opts) (Join [''.gateway-runtime'', ''update'']) in
      \<lparr>op_CurrentVersion = or_default (op_CurrentVersion opts) (rl_ProductVersion env),
       op_Repository = or_default (op_Repository opts) DefaultRepository,
       op_APIBaseURL = or_default (op_APIBaseURL opts) DefaultAPIBaseURL,
       op_Platform = or_default (op_Platform opts) (current_platform env),
       op_DownloadDir = or_default (op_DownloadDir opts) (Join [stateDir, ''downloads'']),
       op_InstallDir = or_default (op_InstallDir opts) dot,
       op_StateDir = stateDir\<rparr>)"

datatype update_error =
    BadRepository
  | RequestFailed
  | BadStatus goint
  | BadReleaseInfo
  | NoTagName
  | NoAsset
  | NoNewerRelease
  | DownloadFailed
  | ExtractFailed
  | NoManifest
  | BundleNotVerified "issue list"
  | NoBundleRoot
  | BackupFailed
  | CopyFailed
  | NoBackups
  | RestoreFailed
  | NoBundle

definition trim_slashes :: "string \<Rightarrow> string" where
  "trim_slashes s = dropWhile (\<lambda>c. c = slash) (trim_right_char slash s)"

definition fetchLatestRelease :: "'x update_env_scheme \<Rightarrow> Options \<Rightarrow> update_error + ReleaseInfo" where
  "fetchLatestRelease env opts =
     (let repository = trim_slashes (trim_space (op_Repository opts));
          base = trim_right_char slash (trim_space (op_APIBaseURL opts));
          apiBase = (if base = [] then DefaultAPIBaseURL else base)
      in if repository = [] \<or> slash \<notin> set repository then Inl BadRepository
         else case ue_http env (apiBase @ ''/repos/'' @ repository @ ''/releases/latest'') of
             None \<Rightarrow> Inl RequestFailed
           | Some (status, body) \<Rightarrow>
               if status < 200 \<or> 300 \<le> status then Inl (BadStatus status)
               else case ue_release env (take (2 * 1024 * 1024) body) of
                   None \<Rightarrow> Inl BadReleaseInfo
                 | Some info \<Rightarrow> if trim_space (ri_TagName info) = [] then Inl NoTagName else Inr info)"

definition ArchiveNameForPlatform :: "'x update_env_scheme \<Rightarrow> string \<Rightarrow> string" where
  "ArchiveNameForPlatform env platform =
     (case split_char slash (or_default (trim_space platform) (current_platform env)) of
        [goos, goarch] \<Rightarrow> ''ai-model-gateway-'' @ goos @ ''-'' @ goarch @ (if goos = ''windows'' then ''.zip'' else ''.tar.gz'')
      | _ \<Rightarrow> [])"

definition findReleaseAsset :: "Asset list \<Rightarrow> string \<Rightarrow> Asset option" where
  "findReleaseAsset assets want =
     (let w = to_lower (trim_space want) in
      if w = [] then None else find (\<lambda>a. to_lower (trim_space (as_Name a)) = w) assets)"

record CheckResult =
  ck_CurrentVersion :: string
  ck_LatestVersion :: string
  ck_LatestTag :: string
  ck_UpdateAvailable :: bool
  ck_Platform :: string
  ck_Repository :: string
  ck_AssetName :: string
  ck_AssetURL :: string
  ck_AssetSize :: goint
  ck_ReleaseURL :: string
  ck_PublishedAt :: gotime
  ck_Prerelease :: bool
  ck_CheckedAt :: gotime
  ck_Message :: string

definition CheckLatest :: "'x update_env_scheme \<Rightarrow> gotime \<Rightarrow> Options \<Rightarrow> update_error + CheckResult" where
  "CheckLatest env now options =
     (let opts = normalizeOptions env options in
      case fetchLatestRelease env opts of
        Inl err \<Rightarrow> Inl err
      | Inr info \<Rightarrow>
          (let latestVersion = NormalizeVersion (ri_TagName info);
               asset = findReleaseAsset (ri_Assets info) (ArchiveNameForPlatform env (op_Platform opts));
               available = CompareVersions (op_CurrentVersion opts) latestVersion < 0
           in Inr \<lparr>ck_CurrentVersion = op_CurrentVersion opts, ck_LatestVersion = latestVersion, ck_LatestTag = ri_TagName info,
             ck_UpdateAvailable = available, ck_Platform = op_Platform opts, ck_Repository = op_Repository opts,
             ck_AssetName = (case asset of None \<Rightarrow> [] | Some a \<Rightarrow> as_Name a), ck_AssetURL = (case asset of None \<Rightarrow> [] | Some a \<Rightarrow> as_URL a),
             ck_AssetSize = (case asset of None \<Rightarrow> 0 | Some a \<Rightarrow> as_Size a), ck_ReleaseURL = ri_HTMLURL info,
             ck_PublishedAt = ri_PublishedAt info, ck_Prerelease = ri_Prerelease info, ck_CheckedAt = now,
             ck_Message = (if asset = None then ''latest release has no asset for this platform''
               else if available then ''new version available''
               else if \<not> IsReleaseVersion (op_CurrentVersion opts) then ''current build is not a release version''
               else ''already on the latest release'')\<rparr>))"

section \<open>Extraction\<close>

definition maxArchiveEntryBytes :: goint where "maxArchiveEntryBytes = 256 * 2^20"
definition maxArchiveTotalBytes :: goint where "maxArchiveTotalBytes = 768 * 2^20"

text \<open>Writes an entry; more than the limit is an error, and at most one byte more is written.\<close>

definition copyArchiveEntry :: "string \<Rightarrow> string option \<Rightarrow> goint \<Rightarrow> disk \<Rightarrow> (bool \<times> goint) \<times> disk" where
  "copyArchiveEntry target data limit d =
     (case data of
        None \<Rightarrow> ((False, 0), snd (put_file target [] d))
      | Some bytes \<Rightarrow>
          (let copied = take (nat (limit + 1)) bytes in
           case put_file target copied d of
             (ok, d') \<Rightarrow> ((ok \<and> int (length copied) \<le> limit, int (length copied)), d')))"

text \<open>One entry of a zip archive, and one of a tar archive, with the bytes extracted so far.\<close>

definition dir_possible :: "disk \<Rightarrow> string \<Rightarrow> bool" where
  "dir_possible d p \<longleftrightarrow> file_at d p = None \<and> \<not> list_ex (\<lambda>(q, c). below q p) (dk_files d)"

definition extract_zip_entry :: "string \<Rightarrow> archive_entry \<Rightarrow> goint \<times> disk \<Rightarrow> bool \<times> goint \<times> disk" where
  "extract_zip_entry dst e = (\<lambda>(written, d).
     case safeArchivePath dst (ae_Name e) of
       Inl err \<Rightarrow> (False, written, d)
     | Inr target \<Rightarrow>
         if ae_Kind e = DirEntry then (dir_possible d target, written, d)
         else let remaining = maxArchiveTotalBytes - written in
           if remaining \<le> 0 \<or> maxArchiveEntryBytes < ae_Size e \<or> remaining < ae_Size e \<or> ae_Data e = None then (False, written, d)
           else case copyArchiveEntry target (ae_Data e) (min maxArchiveEntryBytes remaining) d of
               ((ok, copied), d') \<Rightarrow> (ok, if ok then written + copied else written, d'))"

definition extractZip :: "'x update_env_scheme \<Rightarrow> string \<Rightarrow> string \<Rightarrow> disk \<Rightarrow> (bool \<times> goint) \<times> disk" where
  "extractZip env content dst d =
     (case ue_zip env content of
        None \<Rightarrow> ((False, 0), d)
      | Some entries \<Rightarrow> (case each_step (extract_zip_entry dst) entries (0, d) of (ok, written, d') \<Rightarrow> ((ok, written), d')))"

definition extract_tar_entry :: "string \<Rightarrow> archive_entry \<Rightarrow> goint \<times> disk \<Rightarrow> bool \<times> goint \<times> disk" where
  "extract_tar_entry dst e = (\<lambda>(written, d).
     case safeArchivePath dst (ae_Name e) of
       Inl err \<Rightarrow> (False, written, d)
     | Inr target \<Rightarrow>
         (case ae_Kind e of
            DirEntry \<Rightarrow> (dir_possible d target, written, d)
          | OtherEntry \<Rightarrow> (True, written, d)
          | RegularEntry \<Rightarrow>
              (let remaining = maxArchiveTotalBytes - written in
               if ae_Size e < 0 \<or> remaining \<le> 0 \<or> maxArchiveEntryBytes < ae_Size e \<or> remaining < ae_Size e then (False, written, d)
               else case copyArchiveEntry target (ae_Data e) (min maxArchiveEntryBytes remaining) d of
                   ((ok, copied), d') \<Rightarrow> (ok, if ok then written + copied else written, d'))))"

definition extractTarGz :: "'x update_env_scheme \<Rightarrow> string \<Rightarrow> string \<Rightarrow> disk \<Rightarrow> (bool \<times> goint) \<times> disk" where
  "extractTarGz env content dst d =
     (case ue_targz env content of
        None \<Rightarrow> ((False, 0), d)
      | Some (entries, ended) \<Rightarrow>
          (case each_step (extract_tar_entry dst) entries (0, d) of (ok, written, d') \<Rightarrow> ((ok \<and> ended, written), d')))"

text \<open>The results are whether all went well and how many bytes were extracted.\<close>

definition extractArchive :: "'x update_env_scheme \<Rightarrow> string \<Rightarrow> string \<Rightarrow> disk \<Rightarrow> (bool \<times> goint) \<times> disk" where
  "extractArchive env archivePath dst d =
     (let d1 = RemoveAll dst d; lower = to_lower archivePath in
      case file_at d1 archivePath of
        None \<Rightarrow> ((False, 0), d1)
      | Some content \<Rightarrow>
          if suffix ''.zip'' lower then extractZip env content dst d1
          else if suffix ''.tar.gz'' lower \<or> suffix ''.tgz'' lower then extractTarGz env content dst d1
          else ((False, 0), d1))"

end
