(* ===== verification/Update_Apply.thy ===== *)
theory Update_Apply
  imports Updater
begin

text \<open>
  Download, installation and rollback of an update, and the manager that records them
  (\<open>internal/updater/updater.go\<close>).
\<close>

section \<open>Download\<close>

definition downloadFile :: "'x update_env_scheme \<Rightarrow> string \<Rightarrow> string \<Rightarrow> disk \<Rightarrow> bool \<times> disk" where
  "downloadFile env url dst d =
     (if trim_space url = [] then (False, d)
      else case ue_http env url of
          None \<Rightarrow> (False, d)
        | Some (status, body) \<Rightarrow>
            if status < 200 \<or> 300 \<le> status then (False, d)
            else let tmp = dst @ ''.tmp'' in
              if \<not> creatable d tmp then (False, d)
              else case put_file tmp body d of
                (False, d1) \<Rightarrow> (False, RemoveAll tmp d1)
              | (True, d1) \<Rightarrow> (case next_fault d1 of
                    (Some n, d2) \<Rightarrow> (False, d2)
                  | (None, d2) \<Rightarrow>
                      if creatable (RemoveAll tmp d2) dst then (True, write_file dst body (RemoveAll tmp d2)) else (False, d2)))"

record FetchResult =
  ft_Check :: CheckResult
  ft_ArchivePath :: string
  ft_BundleDir :: string
  ft_Manifest :: Manifest
  ft_Verify :: VerifyReport

definition FetchLatest :: "'x update_env_scheme \<Rightarrow> gotime \<Rightarrow> Options \<Rightarrow> bool \<Rightarrow> disk \<Rightarrow> (update_error + FetchResult) \<times> disk" where
  "FetchLatest env now options force d =
     (case CheckLatest env now options of
        Inl err \<Rightarrow> (Inl err, d)
      | Inr chk \<Rightarrow>
          if ck_AssetURL chk = [] then (Inl NoAsset, d)
          else if \<not> force \<and> \<not> ck_UpdateAvailable chk then (Inl NoNewerRelease, d)
          else
            let opts = normalizeOptions env options;
                targetDir = Join [op_DownloadDir opts, safeFileName (ck_LatestTag chk @ ''-'' @ ck_Platform chk)];
                archivePath = Join [targetDir, ck_AssetName chk];
                bundleDir = Join [targetDir, ''bundle'']
            in case downloadFile env (ck_AssetURL chk) archivePath (RemoveAll targetDir d) of
                 (False, d1) \<Rightarrow> (Inl DownloadFailed, d1)
               | (True, d1) \<Rightarrow> (case extractArchive env archivePath bundleDir d1 of
                     ((False, n), d2) \<Rightarrow> (Inl ExtractFailed, d2)
                   | ((True, n), d2) \<Rightarrow> (case LoadManifest env (Join [bundleDir, ManifestFileName]) d2 of
                         None \<Rightarrow> (Inl NoManifest, d2)
                       | Some manifest \<Rightarrow>
                           let verify = VerifyIncomingBundle env d2 bundleDir manifest in
                           (if vr_OK verify
                            then Inr \<lparr>ft_Check = chk, ft_ArchivePath = archivePath, ft_BundleDir = bundleDir, ft_Manifest = manifest,
                              ft_Verify = verify\<rparr>
                            else Inl (BundleNotVerified (vr_Issues verify)), d2))))"

section \<open>Installation\<close>

definition dist_path :: string where "dist_path = ''web/admin/dist''"

definition backup_paths :: "Manifest \<Rightarrow> string list" where
  "backup_paths m = ManifestFileName # map (bm_Path \<circ> snd) (mf_Binaries m) @
     (if trim_space (mf_AdminDistHash m) \<noteq> [] then [dist_path] else [])"

definition backupInstallPayload :: "string \<Rightarrow> string \<Rightarrow> Manifest \<Rightarrow> disk \<Rightarrow> bool \<times> disk" where
  "backupInstallPayload installDir backupDir m =
     each_step (\<lambda>rel. copyPathIfExists (Join [installDir, rel]) (Join [backupDir, rel])) (backup_paths m)"

text \<open>The temporary directory is made beside the directory that is replaced.\<close>

definition dist_tmp :: "'x update_env_scheme \<Rightarrow> string \<Rightarrow> string" where
  "dist_tmp env installDir = Join [installDir, ''web'', ''admin'', ''.dist.tmp-'' @ ue_tmp env]"

definition copyBundlePayload :: "'x update_env_scheme \<Rightarrow> string \<Rightarrow> string \<Rightarrow> Manifest \<Rightarrow> disk \<Rightarrow> bool \<times> disk" where
  "copyBundlePayload env bundleRoot installDir m d =
     (case copyFile (Join [bundleRoot, ManifestFileName]) (Join [installDir, ManifestFileName]) d of
        (False, d1) \<Rightarrow> (False, d1)
      | (True, d1) \<Rightarrow> (case each_step (\<lambda>b. copyFile (Join [bundleRoot, bm_Path (snd b)]) (Join [installDir, bm_Path (snd b)]))
            (mf_Binaries m) d1 of
          (False, d2) \<Rightarrow> (False, d2)
        | (True, d2) \<Rightarrow>
            if trim_space (mf_AdminDistHash m) = [] then (True, d2)
            else replaceDir (dist_tmp env installDir) (admin_dist bundleRoot) (admin_dist installDir) d2))"

definition restoreInstallPayload :: "string \<Rightarrow> string \<Rightarrow> disk \<Rightarrow> bool \<times> disk" where
  "restoreInstallPayload backupDir installDir d =
     (if \<not> is_dir d backupDir then (False, d)
      else each_step (\<lambda>rel. copyFile (Join [backupDir, rel]) (Join [installDir, rel])) (files_under d backupDir) d)"

record ApplyOptions =
  ao_BundleRoot :: string
  ao_InstallDir :: string
  ao_StateDir :: string
  ao_DryRun :: bool

record ApplyResult =
  ap_Applied :: bool
  ap_ProductVersion :: string
  ap_BackupDir :: string
  ap_Verify :: VerifyReport
  ap_AppliedAt :: gotime

definition no_report :: VerifyReport where "no_report = \<lparr>vr_OK = False, vr_Issues = []\<rparr>"

definition no_apply :: ApplyResult where
  "no_apply = \<lparr>ap_Applied = False, ap_ProductVersion = [], ap_BackupDir = [], ap_Verify = no_report, ap_AppliedAt = 0\<rparr>"

definition apply_install_dir :: "string \<Rightarrow> string" where
  "apply_install_dir p = (if trim_space p = [] then dot else trim_space p)"

definition apply_state_dir :: "string \<Rightarrow> string" where
  "apply_state_dir p = (if trim_space p = [] then Join [''.gateway-runtime'', ''update''] else trim_space p)"

definition ApplyBundle :: "'x update_env_scheme \<Rightarrow> gotime \<Rightarrow> ApplyOptions \<Rightarrow> disk \<Rightarrow> (update_error option \<times> ApplyResult) \<times> disk" where
  "ApplyBundle env now opts d =
     (let bundleRoot = trim_space (ao_BundleRoot opts); installDir = apply_install_dir (ao_InstallDir opts);
          stateDir = apply_state_dir (ao_StateDir opts)
      in if bundleRoot = [] then ((Some NoBundleRoot, no_apply), d)
         else case LoadManifest env (Join [bundleRoot, ManifestFileName]) d of
             None \<Rightarrow> ((Some NoManifest, no_apply), d)
           | Some m \<Rightarrow>
               let verify = VerifyIncomingBundle env d bundleRoot m;
                   result = no_apply\<lparr>ap_ProductVersion := mf_ProductVersion m, ap_Verify := verify\<rparr>;
                   backupDir = Join [stateDir, ''backups'', ue_stamp env now];
                   result' = result\<lparr>ap_BackupDir := backupDir\<rparr>
               in if \<not> vr_OK verify then ((Some (BundleNotVerified (vr_Issues verify)), result), d)
                  else if ao_DryRun opts then ((None, result'), d)
                  else case backupInstallPayload installDir backupDir m d of
                      (False, d1) \<Rightarrow> ((Some BackupFailed, result'), d1)
                    | (True, d1) \<Rightarrow> (case copyBundlePayload env bundleRoot installDir m d1 of
                          (False, d2) \<Rightarrow> ((Some CopyFailed, result'), snd (restoreInstallPayload backupDir installDir d2))
                        | (True, d2) \<Rightarrow> ((None, result'\<lparr>ap_Applied := True, ap_AppliedAt := now\<rparr>), d2)))"

section \<open>Rollback\<close>

text \<open>The directories in a directory, and the last one.\<close>

definition dirs_in :: "disk \<Rightarrow> string \<Rightarrow> string list" where
  "dirs_in d dir = sort (remdups (map (hd \<circ> path_words) (filter (\<lambda>rel. 2 \<le> length (path_words rel)) (files_under d dir))))"

definition latestBackup :: "disk \<Rightarrow> string \<Rightarrow> string option" where
  "latestBackup d dir = (case dirs_in d dir of [] \<Rightarrow> None | ns \<Rightarrow> Some (Join [dir, last ns]))"

definition updater_Rollback :: "string \<Rightarrow> string \<Rightarrow> disk \<Rightarrow> (update_error + string) \<times> disk" where
  "updater_Rollback installDir stateDir d =
     (case latestBackup d (Join [apply_state_dir stateDir, ''backups'']) of
        None \<Rightarrow> (Inl NoBackups, d)
      | Some backupDir \<Rightarrow> (case restoreInstallPayload backupDir (apply_install_dir installDir) d of
            (False, d') \<Rightarrow> (Inl RestoreFailed, d')
          | (True, d') \<Rightarrow> (Inr backupDir, d')))"

section \<open>The manager\<close>

record Status =
  us_CurrentVersion :: string
  us_Platform :: string
  us_Repository :: string
  us_InstallDir :: string
  us_StateDir :: string
  us_DownloadDir :: string
  us_LatestVersion :: string
  us_LatestTag :: string
  us_UpdateAvailable :: bool
  us_AssetName :: string
  us_AssetURL :: string
  us_ReleaseURL :: string
  us_PublishedAt :: gotime
  us_LastCheckedAt :: gotime
  us_LastCheckError :: "update_error option"
  us_CachedBundleDir :: string
  us_CachedArchivePath :: string
  us_CachedVersion :: string
  us_CachedVerify :: VerifyReport
  us_LastAppliedAt :: gotime
  us_LastApplyError :: "update_error option"
  us_LastBackupDir :: string
  us_LastRolledBackAt :: gotime
  us_LastRollbackError :: "update_error option"

text \<open>
  The manager with what is on disk: the files, the status file (\<open>None\<close> when there is none or it cannot be read),
  and whether the next status can be saved. Errors stand for their texts, and the messages are left out.
\<close>

record Manager =
  um_opts :: Options
  um_disk :: disk
  um_saved :: "Status option"
  um_can_save :: bool

definition baseStatus :: "Options \<Rightarrow> Status" where
  "baseStatus opts = \<lparr>us_CurrentVersion = op_CurrentVersion opts, us_Platform = op_Platform opts, us_Repository = op_Repository opts,
     us_InstallDir = op_InstallDir opts, us_StateDir = op_StateDir opts, us_DownloadDir = op_DownloadDir opts,
     us_LatestVersion = [], us_LatestTag = [], us_UpdateAvailable = False, us_AssetName = [], us_AssetURL = [], us_ReleaseURL = [],
     us_PublishedAt = 0, us_LastCheckedAt = 0, us_LastCheckError = None, us_CachedBundleDir = [], us_CachedArchivePath = [],
     us_CachedVersion = [], us_CachedVerify = no_report, us_LastAppliedAt = 0, us_LastApplyError = None, us_LastBackupDir = [],
     us_LastRolledBackAt = 0, us_LastRollbackError = None\<rparr>"

definition mergeStatus :: "Status \<Rightarrow> Status \<Rightarrow> Status" where
  "mergeStatus base stored = stored\<lparr>us_CurrentVersion := us_CurrentVersion base, us_Platform := us_Platform base,
     us_Repository := us_Repository base, us_InstallDir := us_InstallDir base, us_StateDir := us_StateDir base,
     us_DownloadDir := us_DownloadDir base\<rparr>"

definition Manager_Status :: "'x update_env_scheme \<Rightarrow> Manager \<Rightarrow> Status" where
  "Manager_Status env um =
     (let base = baseStatus (normalizeOptions env (um_opts um)) in
      case um_saved um of None \<Rightarrow> base | Some stored \<Rightarrow> mergeStatus base stored)"

definition applyCheck :: "CheckResult \<Rightarrow> Status \<Rightarrow> Status" where
  "applyCheck r s = s\<lparr>us_CurrentVersion := ck_CurrentVersion r, us_Platform := ck_Platform r, us_Repository := ck_Repository r,
     us_LatestVersion := ck_LatestVersion r, us_LatestTag := ck_LatestTag r, us_UpdateAvailable := ck_UpdateAvailable r,
     us_AssetName := ck_AssetName r, us_AssetURL := ck_AssetURL r, us_ReleaseURL := ck_ReleaseURL r,
     us_PublishedAt := ck_PublishedAt r, us_LastCheckedAt := ck_CheckedAt r\<rparr>"

definition saveStatus :: "Status \<Rightarrow> Manager \<Rightarrow> bool \<times> Manager" where
  "saveStatus s um = (if um_can_save um then (True, um\<lparr>um_saved := Some s\<rparr>) else (False, um))"

datatype manager_error = UpdateFailed update_error | SaveFailed

text \<open>The end of an operation: a failure is saved if it can be, a success must be.\<close>

definition finish_failed :: "update_error \<Rightarrow> Status \<Rightarrow> Manager \<Rightarrow> (Status \<times> manager_error option) \<times> Manager" where
  "finish_failed err s um = ((s, Some (UpdateFailed err)), snd (saveStatus s um))"

definition finish_done :: "Status \<Rightarrow> Manager \<Rightarrow> (Status \<times> manager_error option) \<times> Manager" where
  "finish_done s um = (case saveStatus s um of (saved, um') \<Rightarrow> ((s, if saved then None else Some SaveFailed), um'))"

definition Manager_Check :: "'x update_env_scheme \<Rightarrow> gotime \<Rightarrow> Manager \<Rightarrow> (Status \<times> manager_error option) \<times> Manager" where
  "Manager_Check env now um =
     (let opts = normalizeOptions env (um_opts um); status = Manager_Status env um in
      case CheckLatest env now opts of
        Inl err \<Rightarrow> finish_failed err (status\<lparr>us_LastCheckedAt := now, us_LastCheckError := Some err\<rparr>) um
      | Inr r \<Rightarrow> finish_done ((applyCheck r status)\<lparr>us_LastCheckError := None\<rparr>) um)"

definition with_fetched :: "FetchResult \<Rightarrow> Status \<Rightarrow> Status" where
  "with_fetched r s = (applyCheck (ft_Check r) s)\<lparr>us_CachedBundleDir := ft_BundleDir r, us_CachedArchivePath := ft_ArchivePath r,
     us_CachedVersion := mf_ProductVersion (ft_Manifest r), us_CachedVerify := ft_Verify r\<rparr>"

definition Manager_Fetch :: "'x update_env_scheme \<Rightarrow> gotime \<Rightarrow> bool \<Rightarrow> Manager \<Rightarrow> (Status \<times> manager_error option) \<times> Manager" where
  "Manager_Fetch env now force um =
     (let opts = normalizeOptions env (um_opts um); status = Manager_Status env um in
      case FetchLatest env now opts force (um_disk um) of
        (Inl err, d) \<Rightarrow> finish_failed err (status\<lparr>us_LastCheckError := Some err\<rparr>) (um\<lparr>um_disk := d\<rparr>)
      | (Inr r, d) \<Rightarrow> finish_done ((with_fetched r status)\<lparr>us_LastCheckError := None\<rparr>) (um\<lparr>um_disk := d\<rparr>))"

definition apply_from :: "'x update_env_scheme \<Rightarrow> gotime \<Rightarrow> string \<Rightarrow> bool \<Rightarrow> Status \<Rightarrow> Manager \<Rightarrow> (Status \<times> manager_error option) \<times> Manager" where
  "apply_from env now bundleDir dryRun status um =
     (let opts = normalizeOptions env (um_opts um);
          dir = (if bundleDir = [] then trim_space (us_CachedBundleDir status) else bundleDir) in
      if dir = [] then finish_failed NoBundle (status\<lparr>us_LastApplyError := Some NoBundle\<rparr>) um
      else case ApplyBundle env now \<lparr>ao_BundleRoot = dir, ao_InstallDir = op_InstallDir opts, ao_StateDir = op_StateDir opts,
            ao_DryRun = dryRun\<rparr> (um_disk um) of
          ((err, r), d) \<Rightarrow>
            let s = status\<lparr>us_CachedBundleDir := dir, us_CachedVersion := ap_ProductVersion r, us_CachedVerify := ap_Verify r\<rparr> in
            case err of
              Some e \<Rightarrow> finish_failed e (s\<lparr>us_LastApplyError := Some e\<rparr>) (um\<lparr>um_disk := d\<rparr>)
            | None \<Rightarrow> finish_done (s\<lparr>us_LastApplyError := None, us_LastAppliedAt := ap_AppliedAt r, us_LastBackupDir := ap_BackupDir r\<rparr>)
                (um\<lparr>um_disk := d\<rparr>))"

definition Manager_Apply :: "'x update_env_scheme \<Rightarrow> gotime \<Rightarrow> string \<Rightarrow> bool \<Rightarrow> bool \<Rightarrow> bool \<Rightarrow> Manager \<Rightarrow>
    (Status \<times> manager_error option) \<times> Manager" where
  "Manager_Apply env now bundle download dryRun force um =
     (let opts = normalizeOptions env (um_opts um); status = Manager_Status env um; bundleDir = trim_space bundle in
      if bundleDir = [] \<and> download
      then case FetchLatest env now opts force (um_disk um) of
          (Inl err, d) \<Rightarrow> finish_failed err (status\<lparr>us_LastApplyError := Some err\<rparr>) (um\<lparr>um_disk := d\<rparr>)
        | (Inr r, d) \<Rightarrow> apply_from env now (ft_BundleDir r) dryRun (with_fetched r status) (um\<lparr>um_disk := d\<rparr>)
      else apply_from env now bundleDir dryRun status um)"

definition Manager_Rollback :: "'x update_env_scheme \<Rightarrow> gotime \<Rightarrow> Manager \<Rightarrow> (Status \<times> manager_error option) \<times> Manager" where
  "Manager_Rollback env now um =
     (let opts = normalizeOptions env (um_opts um); status = Manager_Status env um in
      case updater_Rollback (op_InstallDir opts) (op_StateDir opts) (um_disk um) of
        (Inl err, d) \<Rightarrow> finish_failed err (status\<lparr>us_LastRollbackError := Some err\<rparr>) (um\<lparr>um_disk := d\<rparr>)
      | (Inr dir, d) \<Rightarrow> finish_done (status\<lparr>us_LastRollbackError := None, us_LastRolledBackAt := now, us_LastBackupDir := dir\<rparr>)
          (um\<lparr>um_disk := d\<rparr>))"

end
