(* ===== verification/Update_Rollback.thy ===== *)
theory Update_Rollback
  imports Updater_Safety
begin

text \<open>
  An update and its rollback: what is replaced comes back. Paths below a directory are taken apart into their words.
\<close>

section \<open>Paths below a directory\<close>

definition plain_words :: "string list \<Rightarrow> bool" where
  "plain_words ws \<longleftrightarrow> ws \<noteq> [] \<and> list_all plain_word ws"

definition sub_path :: "string \<Rightarrow> string list \<Rightarrow> string" where
  "sub_path dir ws = path_of (IsAbs dir) (clean_base dir @ ws)"

lemma plain_words_ok: "plain_words ws \<Longrightarrow> \<forall>w \<in> set ws. plain_word w" "plain_words ws \<Longrightarrow> ws \<noteq> []"
  by (auto simp: plain_words_def list_all_iff)

lemma plain_words_append: "plain_words ws \<Longrightarrow> list_all plain_word vs \<Longrightarrow> plain_words (ws @ vs)"
  by (simp add: plain_words_def)

lemma Join_sub: "plain_words ws \<Longrightarrow> Join [dir, join_char slash ws] = sub_path dir ws"
  using Join_below [of ws dir] by (simp add: sub_path_def path_of_def plain_words_def list_all_iff)

lemma sub_normal: "plain_words ws \<Longrightarrow> normal_stack (IsAbs dir) (rev (clean_base dir @ ws))"
  using normal_append [OF clean_base_normal] plain_words_ok by blast

lemma sub_words:
  assumes "plain_words ws"
  shows "path_words (sub_path dir ws) = clean_base dir @ ws" "IsAbs (sub_path dir ws) = IsAbs dir"
proof -
  have "\<forall>w \<in> set (clean_base dir @ ws). w \<noteq> [] \<and> slash \<notin> set w" using normal_words [OF sub_normal [OF assms]] by blast
  from path_words_of [OF this, of "IsAbs dir"] assms
  show "path_words (sub_path dir ws) = clean_base dir @ ws" "IsAbs (sub_path dir ws) = IsAbs dir"
    by (simp_all add: sub_path_def plain_words_def)
qed

lemma sub_inj: "plain_words ws \<Longrightarrow> plain_words vs \<Longrightarrow> sub_path dir ws = sub_path dir vs \<Longrightarrow> ws = vs"
proof -
  assume "plain_words ws" "plain_words vs" and eq: "sub_path dir ws = sub_path dir vs"
  from sub_words(1) [OF this(1), of dir] sub_words(1) [OF this(2), of dir] have "clean_base dir @ ws = clean_base dir @ vs" unfolding eq by (rule trans [OF sym])
  then show ?thesis by simp
qed

lemma clean_base_sub:
  assumes "plain_words ws"
  shows "clean_base (sub_path dir ws) = clean_base dir @ ws"
proof -
  let ?p = "sub_path dir ws"
  have "Clean ?p = ?p" using Clean_path_of [OF sub_normal [OF assms]] by (simp add: sub_path_def)
  then have eq: "path_of (IsAbs ?p) (clean_base ?p) = ?p" unfolding Clean_base .
  have "\<forall>w \<in> set (clean_base ?p). w \<noteq> [] \<and> slash \<notin> set w \<and> w \<noteq> dot"
    by (rule normal_words [OF clean_base_normal])
  then have ok: "\<forall>w \<in> set (clean_base ?p). w \<noteq> [] \<and> slash \<notin> set w" by blast
  show ?thesis
  proof (cases "IsAbs ?p \<or> clean_base ?p \<noteq> []")
    case True
    have "path_words ?p = clean_base ?p" using path_words_of(1) [OF ok True] unfolding eq .
    then show ?thesis unfolding sub_words(1) [OF assms] by (rule sym)
  next
    case False
    then have "path_of (IsAbs ?p) (clean_base ?p) = dot" by (simp add: path_of_def)
    then have "?p = dot" unfolding eq .
    then have "path_words ?p = [dot]" by (simp add: path_words_def IsAbs_def dot_def slash_def)
    then have "dot \<in> set (clean_base dir @ ws)" unfolding sub_words(1) [OF assms] by simp
    then show ?thesis using bspec [OF normal_words [OF sub_normal [OF assms, of dir]]] by blast
  qed
qed

lemma sub_sub: "plain_words ws \<Longrightarrow> sub_path (sub_path dir ws) vs = sub_path dir (ws @ vs)"
  unfolding sub_path_def [of "sub_path dir ws"] clean_base_sub sub_words(2) by (simp add: sub_path_def)

text \<open>The paths of the files on a disk are clean.\<close>

definition clean_path :: "string \<Rightarrow> bool" where
  "clean_path p \<longleftrightarrow> Clean p = p \<and> clean_base p \<noteq> []"

lemma sub_clean: "plain_words ws \<Longrightarrow> clean_path (sub_path dir ws)"
  using Clean_path_of [OF sub_normal [of ws dir]] clean_base_sub [of ws dir] by (simp add: clean_path_def plain_words_def sub_path_def)

lemma normal_after_plain:
  assumes "normal_stack rooted (rev (us @ ws @ vs))" "plain_words ws" "w \<in> set vs"
  shows "plain_word w"
proof -
  obtain names k where st: "rev (us @ ws @ vs) = names @ replicate k dotdot" "\<forall>w \<in> set names. plain_word w"
    using assms(1) unfolding normal_stack_def by blast
  have all: "us @ ws @ vs = replicate k dotdot @ rev names" using arg_cong [OF st(1), of rev] by simp
  have ne: "ws \<noteq> []" using assms(2) by (simp add: plain_words_def)
  let ?n = "length us + length ws - 1"
  obtain z zs where "ws = zs @ [z]" using ne by (cases ws rule: rev_cases) auto
  then have "(us @ ws @ vs) ! ?n = last ws" by (simp add: nth_append)
  moreover have "plain_word (last ws)" using assms(2) ne by (simp add: plain_words_def list_all_iff)
  ultimately have "(replicate k dotdot @ rev names) ! ?n \<noteq> dotdot" unfolding all by (simp add: plain_word_def)
  then have "k \<le> ?n" by (cases "?n < k") (simp_all add: nth_append)
  obtain j where j: "j < length vs" "w = vs ! j" using assms(3) by (metis in_set_conv_nth)
  let ?i = "length us + length ws + j"
  have "w = (us @ ws @ vs) ! ?i" using j by (simp add: nth_append)
  also have "\<dots> = (replicate k dotdot @ rev names) ! ?i" unfolding all ..
  also have "\<dots> = rev names ! (?i - k)"
  proof -
    have "\<not> ?i < k" using \<open>k \<le> ?n\<close> by linarith
    then show ?thesis by (simp add: nth_append)
  qed
  finally have "w = rev names ! (?i - k)" .
  moreover have "?i - k < length (rev names)" using arg_cong [OF all, of length] j(1) \<open>k \<le> ?n\<close> by simp
  ultimately have "w \<in> set names" by (metis nth_mem set_rev)
  then show ?thesis using st(2) by blast
qed

lemma join_split: "join_char c (split_char c s) = s"
proof (induction s)
  case (Cons x xs)
  obtain w ws where w: "split_char c xs = w # ws" using split_char_nonempty [of c xs] by (cases "split_char c xs") auto
  with Cons show ?case by (cases ws) auto
qed simp

lemma words_below:
  assumes "path_words p \<noteq> []" "IsAbs (p @ slash # r) = IsAbs p"
  shows "path_words (p @ slash # r) = path_words p @ split_char slash r"
proof -
  let ?t = "if IsAbs p then tl p else p"
  have t: "?t \<noteq> []" using assms(1) by (auto simp: path_words_def Let_def)
  have "(if IsAbs (p @ slash # r) then tl (p @ slash # r) else p @ slash # r) = ?t @ slash # r"
    using assms(2) t by (cases p) auto
  then show ?thesis using t by (simp add: path_words_def Let_def split_char_append)
qed

text \<open>What is below a directory of plain words, as a path and as words.\<close>

lemma below_sub:
  assumes "plain_words ws" "clean_path p" "below (sub_path dir ws) p"
  obtains vs where "plain_words vs" "p = sub_path dir (ws @ vs)" "rel_path (sub_path dir ws) p = join_char slash vs"
proof -
  obtain rooted qs where q: "normal_stack rooted (rev qs)" "qs \<noteq> []" "p = path_of rooted qs" using assms(2) clean_base_normal [of p] Clean_base [of p] unfolding clean_path_def by metis
  let ?s = "sub_path dir ws"
  obtain r where r: "p = ?s @ slash # r" using assms(3) by (auto simp: below_def prefix_def)
  have qw: "\<forall>w \<in> set qs. w \<noteq> [] \<and> slash \<notin> set w" using normal_words [OF q(1)] by blast
  have pw: "path_words p = qs" "IsAbs p = rooted" using path_words_of [OF qw] q(2) unfolding q(3) by auto
  have ne: "path_words ?s \<noteq> []" unfolding sub_words(1) [OF assms(1)] using assms(1) by (simp add: plain_words_def)
  then have "?s \<noteq> []" by (auto simp: path_words_def IsAbs_def)
  then have abs: "IsAbs (?s @ slash # r) = IsAbs ?s" by (cases ?s) (simp_all add: IsAbs_def)
  let ?vs = "split_char slash r"
  have "path_words p = path_words ?s @ ?vs" unfolding r by (rule words_below [OF ne abs])
  then have qs: "qs = clean_base dir @ ws @ ?vs" unfolding pw(1) sub_words(1) [OF assms(1)] by simp
  have "\<forall>w \<in> set ?vs. plain_word w" using normal_after_plain [of rooted "clean_base dir" ws ?vs] q(1) assms(1) unfolding qs by blast
  then have plain: "plain_words ?vs" by (simp add: plain_words_def list_all_iff)
  have "rooted = IsAbs dir" using pw(2) abs sub_words(2) [OF assms(1), of dir] unfolding r by simp
  then have "p = sub_path dir (ws @ ?vs)" unfolding q(3) qs sub_path_def by simp
  moreover have "rel_path ?s p = join_char slash ?vs" unfolding r join_split by (simp add: rel_path_def)
  ultimately show thesis using that [OF plain] by blast
qed

lemma join_char_append:
  "us \<noteq> [] \<Longrightarrow> vs \<noteq> [] \<Longrightarrow> join_char c (us @ vs) = join_char c us @ c # join_char c vs"
proof (induction us)
  case (Cons u us)
  obtain v vs' where v: "vs = v # vs'" using Cons.prems(2) by (cases vs) auto
  show ?case
  proof (cases us)
    case Nil
    then show ?thesis using v by simp
  next
    case us: (Cons u' us')
    then show ?thesis using Cons.IH Cons.prems by simp
  qed
qed simp

lemma sub_below:
  assumes "plain_words ws" "plain_words vs"
  shows "below (sub_path dir ws) (sub_path dir (ws @ vs)) \<and> rel_path (sub_path dir ws) (sub_path dir (ws @ vs)) = join_char slash vs"
proof -
  have "sub_path dir (ws @ vs) = sub_path dir ws @ slash # join_char slash vs"
    using assms join_char_append [of "clean_base dir @ ws" vs slash] by (simp add: sub_path_def path_of_def plain_words_def)
  then show ?thesis by (simp add: below_def rel_path_def)
qed

section \<open>Parts of the disk\<close>

definition apart :: "string \<Rightarrow> string \<Rightarrow> bool" where
  "apart a b \<longleftrightarrow> a \<noteq> b \<and> \<not> below a b \<and> \<not> below b a"

lemma apart_below: "apart a b \<Longrightarrow> p = a \<or> below a p \<Longrightarrow> p \<noteq> b \<and> \<not> below b p"
proof -
  assume a: "apart a b" and p: "p = a \<or> below a p"
  have "\<not> below b p" if "below a p"
  proof
    assume "below b p"
    with that have "prefix (a @ [slash]) (b @ [slash]) \<or> prefix (b @ [slash]) (a @ [slash])"
      unfolding below_def by (rule prefix_same_cases)
    then show False using a by (auto simp: apart_def below_def prefix_snoc)
  qed
  then show ?thesis using a p by (auto simp: apart_def)
qed

lemma is_dir_iff: "is_dir d p \<longleftrightarrow> (\<exists>q. below p q \<and> file_at d q \<noteq> None)"
  by (force simp: is_dir_def file_at_def list_ex_iff map_of_eq_None_iff)

lemma files_under_iff: "r \<in> set (files_under d dir) \<longleftrightarrow> (\<exists>q. below dir q \<and> file_at d q \<noteq> None \<and> r = rel_path dir q)"
  by (force simp: files_under_def file_at_def map_of_eq_None_iff)

text \<open>Files are kept, and a loop whose steps all keep a property and reach a goal each.\<close>

definition keeps :: "disk \<Rightarrow> disk \<Rightarrow> bool" where
  "keeps d d' \<longleftrightarrow> (\<forall>q. file_at d q \<noteq> None \<longrightarrow> file_at d' q \<noteq> None)"

lemma keeps_refl [simp]: "keeps d d"
  by (simp add: keeps_def)

lemma keeps_trans: "keeps d d' \<Longrightarrow> keeps d' d'' \<Longrightarrow> keeps d d''"
  by (simp add: keeps_def)

lemma each_step_reaches:
  assumes "each_step f xs s = (True, s')" "P s"
    "\<And>x t t'. x \<in> set xs \<Longrightarrow> P t \<Longrightarrow> f x t = (True, t') \<Longrightarrow> P t' \<and> keeps t t' \<and> Q x t'"
    "\<And>x t t'. keeps t t' \<Longrightarrow> Q x t \<Longrightarrow> Q x t'"
  shows "P s' \<and> keeps s s' \<and> (\<forall>x \<in> set xs. Q x s')"
  using assms(1-3)
proof (induction xs arbitrary: s)
  case (Cons x xs)
  obtain ok t where f: "f x s = (ok, t)" by (cases "f x s")
  with Cons.prems(1) have ok: "ok" "each_step f xs t = (True, s')" by (cases ok; simp)+
  have one: "P t \<and> keeps s t \<and> Q x t" using Cons.prems(3) [of x s t] Cons.prems(2) f ok(1) by simp
  have "P s' \<and> keeps t s' \<and> (\<forall>y \<in> set xs. Q y s')"
  proof (rule Cons.IH [OF ok(2)])
    show "P t" using one by simp
    show "P u' \<and> keeps u u' \<and> Q y u'" if "y \<in> set xs" "P u" "f y u = (True, u')" for y u u'
      using Cons.prems(3) [of y u u'] that by simp
  qed
  then show ?case using one keeps_trans [of s t s'] assms(4) [of t s' x] by simp
qed simp

section \<open>The backup\<close>

text \<open>A backup holds what the install directory held, and nothing else was changed.\<close>

definition mirrors :: "string \<Rightarrow> string \<Rightarrow> disk \<Rightarrow> disk \<Rightarrow> bool" where
  "mirrors I B d e \<longleftrightarrow> (\<forall>p. \<not> below B p \<longrightarrow> file_at e p = file_at d p) \<and>
     (\<forall>ws. plain_words ws \<longrightarrow> file_at e (sub_path B ws) = None \<or> file_at e (sub_path B ws) = file_at d (sub_path I ws)) \<and>
     (\<forall>p. file_at e p \<noteq> None \<longrightarrow> clean_path p)"

lemma mirrors_copy:
  assumes "mirrors I B d e" "plain_words ws" "copyFile (sub_path I ws) (sub_path B ws) e = (True, e')"
    "below B (sub_path B ws)" "\<not> below B (sub_path I ws)"
  shows "mirrors I B d e' \<and> keeps e e' \<and> file_at e' (sub_path B ws) \<noteq> None"
proof -
  have ne: "sub_path I ws \<noteq> sub_path B ws" using assms(4,5) by auto
  note at = copyFile_at [OF assms(3) ne]
  have src: "file_at e (sub_path I ws) = file_at d (sub_path I ws)" using assms(1,5) unfolding mirrors_def by blast
  have new: "file_at e' (sub_path B ws) = file_at d (sub_path I ws)" "file_at e' (sub_path B ws) \<noteq> None" using at src by auto
  have old: "q \<noteq> sub_path B ws \<Longrightarrow> file_at e' q = file_at e q" for q using at [of q] by blast
  have "file_at e' p = file_at d p" if "\<not> below B p" for p
  proof -
    have "p \<noteq> sub_path B ws" using that assms(4) by auto
    then show ?thesis using old [of p] that assms(1) unfolding mirrors_def by simp
  qed
  moreover have "file_at e' (sub_path B vs) = None \<or> file_at e' (sub_path B vs) = file_at d (sub_path I vs)" if "plain_words vs" for vs
  proof (cases "vs = ws")
    case False
    then have "sub_path B vs \<noteq> sub_path B ws" using sub_inj [OF that assms(2)] by blast
    then show ?thesis using old [of "sub_path B vs"] that assms(1) unfolding mirrors_def by simp
  qed (use new(1) in simp)
  moreover have "clean_path p" if "file_at e' p \<noteq> None" for p
  proof (cases "p = sub_path B ws")
    case True
    then show ?thesis using sub_clean [OF assms(2)] by simp
  next
    case False
    then show ?thesis using old [OF False] that assms(1) unfolding mirrors_def by simp
  qed
  moreover have "keeps e e'"
    unfolding keeps_def
  proof (intro allI impI)
    fix q assume "file_at e q \<noteq> None"
    then show "file_at e' q \<noteq> None" using new(2) old [of q] by (cases "q = sub_path B ws") simp_all
  qed
  ultimately show ?thesis using new(2) unfolding mirrors_def by blast
qed

definition disk_ok :: "disk \<Rightarrow> bool" where
  "disk_ok d \<longleftrightarrow> list_all (\<lambda>(p, c). clean_path p \<and> \<not> is_dir d p) (dk_files d)"

lemma disk_okD: "disk_ok d \<Longrightarrow> file_at d p \<noteq> None \<Longrightarrow> clean_path p \<and> \<not> is_dir d p"
  by (auto simp: disk_ok_def list_all_iff file_at_def dest!: map_of_SomeD)

text \<open>What a path of the payload covers: itself as a file, or the files below it.\<close>

definition backed_up :: "string \<Rightarrow> string \<Rightarrow> disk \<Rightarrow> string list \<Rightarrow> disk \<Rightarrow> bool" where
  "backed_up I B d ws e \<longleftrightarrow> (\<forall>vs. vs = [] \<or> plain_words vs \<longrightarrow> file_at d (sub_path I (ws @ vs)) \<noteq> None \<longrightarrow>
     file_at e (sub_path B (ws @ vs)) \<noteq> None)"

lemma backed_up_keeps: "keeps e e' \<Longrightarrow> backed_up I B d ws e \<Longrightarrow> backed_up I B d ws e'"
  by (simp add: backed_up_def keeps_def)

lemma backup_path:
  assumes "mirrors I B d e" "disk_ok d" "plain_words ws" "B = sub_path S bs" "plain_words bs" "apart (sub_path I ws) B"
    "copyPathIfExists (sub_path I ws) (sub_path B ws) e = (True, e')"
  shows "mirrors I B d e' \<and> keeps e e' \<and> backed_up I B d ws e'"
proof -
  let ?src = "sub_path I ws"
  have in_B: "below B (sub_path B vs)" if "plain_words vs" for vs
    using sub_below [OF assms(5) that, of S] sub_sub [OF assms(5), of S vs] assms(4) by simp
  have same: "file_at e p = file_at d p" if "p = ?src \<or> below ?src p" for p
    using apart_below [OF assms(6) that] assms(1) unfolding mirrors_def by blast
  have sub: "below ?src (sub_path I (ws @ vs)) \<and> plain_words (ws @ vs)" if "plain_words vs" for vs
    using sub_below [OF assms(3) that, of I] plain_words_append [OF assms(3), of vs] that by (simp add: plain_words_def)
  have dirs: "is_dir e ?src \<longleftrightarrow> is_dir d ?src" unfolding is_dir_iff using same by auto
  show ?thesis
  proof (cases "is_dir e ?src")
    case True
    have loop: "each_step (\<lambda>rel. copyFile (Join [?src, rel]) (Join [sub_path B ws, rel])) (files_under e ?src) e = (True, e')"
      using assms(7) True by (simp add: copyPathIfExists_def copyPath_def)
    define Q where "Q rel t \<longleftrightarrow> (\<forall>vs. plain_words vs \<longrightarrow> rel = join_char slash vs \<longrightarrow> file_at t (sub_path B (ws @ vs)) \<noteq> None)" for rel t
    have "mirrors I B d e' \<and> keeps e e' \<and> (\<forall>rel \<in> set (files_under e ?src). Q rel e')"
    proof (rule each_step_reaches [OF loop])
      show "mirrors I B d e" by (rule assms(1))
      show "Q x t'" if "keeps t t'" "Q x t" for x t t' using that by (simp add: Q_def keeps_def)
      fix rel t t'
      assume rel: "rel \<in> set (files_under e ?src)" and m: "mirrors I B d t"
        and c: "copyFile (Join [?src, rel]) (Join [sub_path B ws, rel]) t = (True, t')"
      obtain q where q: "below ?src q" "file_at e q \<noteq> None" "rel = rel_path ?src q" using rel unfolding files_under_iff by blast
      have "clean_path q" using assms(1) q(2) unfolding mirrors_def by blast
      from below_sub [OF assms(3) this q(1)] obtain vs where vs: "plain_words vs" "rel = join_char slash vs" using q(3) by metis
      have wv: "plain_words (ws @ vs)" using sub [OF vs(1)] by simp
      have join: "Join [sub_path D ws, rel] = sub_path D (ws @ vs)" for D
        unfolding vs(2) Join_sub [OF vs(1)] by (rule sub_sub [OF assms(3)])
      have "\<not> below B (sub_path I (ws @ vs))" using apart_below [OF assms(6)] sub [OF vs(1)] by blast
      from mirrors_copy [OF m wv c [unfolded join] in_B [OF wv] this]
      have r: "mirrors I B d t'" "keeps t t'" "file_at t' (sub_path B (ws @ vs)) \<noteq> None" by auto
      have "Q rel t'" unfolding Q_def
      proof (intro allI impI)
        fix us assume us: "plain_words us" "rel = join_char slash us"
        have "sub_path ?src us = sub_path ?src vs" using Join_sub [OF us(1)] Join_sub [OF vs(1)] us(2) vs(2) by metis
        then have "us = vs" by (rule sub_inj [OF us(1) vs(1)])
        then show "file_at t' (sub_path B (ws @ us)) \<noteq> None" using r(3) by simp
      qed
      with r show "mirrors I B d t' \<and> keeps t t' \<and> Q rel t'" by blast
    qed
    then have r: "mirrors I B d e'" "keeps e e'" "\<And>rel. rel \<in> set (files_under e ?src) \<Longrightarrow> Q rel e'" by auto
    have "backed_up I B d ws e'" unfolding backed_up_def
    proof (intro allI impI)
      fix vs assume vs: "vs = [] \<or> plain_words vs" and f: "file_at d (sub_path I (ws @ vs)) \<noteq> None"
      have "vs \<noteq> []"
      proof
        assume "vs = []"
        then show False using f True dirs disk_okD [OF assms(2), of ?src] by simp
      qed
      with vs have v: "plain_words vs" by blast
      note sb = sub_below [OF assms(3) v, of I]
      have "file_at e (sub_path I (ws @ vs)) \<noteq> None" using f same [of "sub_path I (ws @ vs)"] sb by simp
      then have "join_char slash vs \<in> set (files_under e ?src)" unfolding files_under_iff
        using sb by (intro exI [of _ "sub_path I (ws @ vs)"]) simp
      from r(3) [OF this] v show "file_at e' (sub_path B (ws @ vs)) \<noteq> None" unfolding Q_def by blast
    qed
    with r show ?thesis by blast
  next
    case False
    then have none: "file_at d (sub_path I (ws @ vs)) = None" if "plain_words vs" for vs
      using dirs sub [OF that] unfolding is_dir_iff by blast
    show ?thesis
    proof (cases "file_at e ?src = None")
      case True
      then have "e' = e" using assms(7) False by (simp add: copyPathIfExists_def)
      moreover have "file_at d ?src = None" using True same [of ?src] by simp
      ultimately show ?thesis using assms(1) none by (auto simp: backed_up_def)
    next
      case is_file: False
      then have c: "copyFile ?src (sub_path B ws) e = (True, e')" using assms(7) False is_file by (auto simp: copyPathIfExists_def copyPath_def)
      have "\<not> below B ?src" using apart_below [OF assms(6), of ?src] by simp
      from mirrors_copy [OF assms(1,3) c in_B [OF assms(3)] this] none show ?thesis by (auto simp: backed_up_def)
    qed
  qed
qed

section \<open>What an installation leaves alone\<close>

definition undisturbed :: "string \<Rightarrow> disk \<Rightarrow> disk \<Rightarrow> bool" where
  "undisturbed B d d' \<longleftrightarrow> (\<forall>p. below B p \<longrightarrow> file_at d' p = file_at d p)"

definition clean_disk :: "disk \<Rightarrow> bool" where
  "clean_disk d \<longleftrightarrow> (\<forall>p. file_at d p \<noteq> None \<longrightarrow> clean_path p)"

lemma undisturbed_refl [simp]: "undisturbed B d d"
  by (simp add: undisturbed_def)

lemma undisturbed_trans: "undisturbed B d d' \<Longrightarrow> undisturbed B d' d'' \<Longrightarrow> undisturbed B d d''"
  by (simp add: undisturbed_def)

lemma copyFile_other: "copyFile src dst d = (ok, d') \<Longrightarrow> q \<noteq> dst \<Longrightarrow> file_at d' q = file_at d q"
proof -
  assume c: "copyFile src dst d = (ok, d')" and q: "q \<noteq> dst"
  show ?thesis
  proof (cases "file_at d src")
    case None
    with c show ?thesis by (simp add: copyFile_def)
  next
    case (Some x)
    with c have "put_file dst (if src = dst then [] else x) d = (ok, d')" by (simp add: copyFile_def)
    from put_file_at [OF this, of q] q show ?thesis by blast
  qed
qed

lemma copyFile_undisturbed: "copyFile src dst d = (ok, d') \<Longrightarrow> \<not> below B dst \<Longrightarrow> undisturbed B d d'"
  unfolding undisturbed_def
proof (intro allI impI)
  fix p assume c: "copyFile src dst d = (ok, d')" and "\<not> below B dst" "below B p"
  then have "p \<noteq> dst" by auto
  then show "file_at d' p = file_at d p" by (rule copyFile_other [OF c])
qed

lemma copyFile_clean: "copyFile src dst d = (ok, d') \<Longrightarrow> clean_path dst \<Longrightarrow> clean_disk d \<Longrightarrow> clean_disk d'"
  unfolding clean_disk_def
proof (intro allI impI)
  fix q assume c: "copyFile src dst d = (ok, d')" "clean_path dst" "\<forall>p. file_at d p \<noteq> None \<longrightarrow> clean_path p" "file_at d' q \<noteq> None"
  show "clean_path q"
  proof (cases "q = dst")
    case False
    then show ?thesis using copyFile_other [OF c(1) False] c(3,4) by simp
  qed (use c(2) in simp)
qed

lemma each_step_undisturbed:
  assumes "\<And>x t b t'. x \<in> set xs \<Longrightarrow> P t \<Longrightarrow> f x t = (b, t') \<Longrightarrow> P t' \<and> undisturbed B t t'" "each_step f xs s = (ok, s')" "P s"
  shows "P s' \<and> undisturbed B s s'"
  using assms
proof (induction xs arbitrary: s)
  case (Cons x xs)
  obtain b t where f: "f x s = (b, t)" by (cases "f x s")
  have one: "P t \<and> undisturbed B s t" using Cons.prems(1) [of x s b t] Cons.prems(3) f by simp
  show ?case
  proof (cases b)
    case True
    have "P s' \<and> undisturbed B t s'"
    proof (rule Cons.IH)
      show "each_step f xs t = (ok, s')" using Cons.prems(2) f True by simp
      show "P t" using one by simp
      show "P u' \<and> undisturbed B u u'" if "y \<in> set xs" "P u" "f y u = (c, u')" for y u c u'
        using Cons.prems(1) [of y u c u'] that by simp
    qed
    then show ?thesis using one undisturbed_trans by blast
  next
    case False
    then show ?thesis using Cons.prems(2) f one by simp
  qed
qed simp

lemma RemoveAll_undisturbed: "apart p B \<Longrightarrow> undisturbed B d (RemoveAll p d)"
  unfolding undisturbed_def
proof (intro allI impI)
  fix q assume "apart p B" "below B q"
  then have "\<not> (q = p \<or> below p q)" using apart_below by blast
  then show "file_at (RemoveAll p d) q = file_at d q" by (simp add: RemoveAll_at)
qed

lemma map_of_rename:
  assumes "\<And>r. f r = p \<longleftrightarrow> r = p"
  shows "map_of (map (\<lambda>(r, c). (f r, c)) xs) p = map_of xs p"
proof (induction xs)
  case (Cons x xs)
  obtain r c where x: "x = (r, c)" by (cases x)
  show ?case using Cons assms [of r] by (cases "r = p") (simp_all add: x fun_upd_def)
qed simp

lemma Rename_undisturbed:
  assumes "apart tmp B" "apart dst B"
  shows "undisturbed B d (Rename tmp dst d)"
  unfolding undisturbed_def
proof (intro allI impI)
  fix p assume p: "below B p"
  let ?f = "\<lambda>r. if below tmp r then dst @ slash # rel_path tmp r else r"
  have "\<not> below tmp p" using apart_below [OF assms(1), of p] p by blast
  moreover have "dst @ slash # r \<noteq> p" for r
  proof
    assume "dst @ slash # r = p"
    then have "below dst p" by (auto simp: below_def)
    then show False using apart_below [OF assms(2), of p] p by blast
  qed
  ultimately have "?f r = p \<longleftrightarrow> r = p" for r by auto
  from map_of_rename [of ?f p "dk_files d", OF this]
  have "map_of (map (\<lambda>(r, c). (?f r, c)) (dk_files d)) p = map_of (dk_files d) p" .
  then show "file_at (Rename tmp dst d) p = file_at d p" unfolding file_at_def Rename_def by simp
qed

lemma next_fault_at: "next_fault d = (f, d') \<Longrightarrow> file_at d' p = file_at d p"
  by (auto simp: next_fault_def file_at_def split: list.splits)

lemma replaceDir_undisturbed:
  assumes "replaceDir tmp src dst d = (ok, d')" "clean_disk d" "src = sub_path R ws" "plain_words ws"
    "tmp = sub_path I ts" "plain_words ts" "apart tmp B" "apart dst B"
  shows "undisturbed B d d'"
proof (cases "is_dir d src")
  case True
  let ?d0 = "RemoveAll tmp d"
  obtain ok1 d1 where c: "copyPath src tmp ?d0 = (ok1, d1)" by (cases "copyPath src tmp ?d0")
  have tmp: "\<not> below B tmp" using apart_below [OF assms(7), of tmp] by simp
  have "undisturbed B ?d0 d1"
  proof (cases "is_dir ?d0 src")
    case True
    then have loop: "each_step (\<lambda>rel. copyFile (Join [src, rel]) (Join [tmp, rel])) (files_under ?d0 src) ?d0 = (ok1, d1)"
      using c by (simp add: copyPath_def)
    have "(\<lambda>t. True) d1 \<and> undisturbed B ?d0 d1"
    proof (rule each_step_undisturbed [OF _ loop])
      fix rel t b t'
      assume rel: "rel \<in> set (files_under ?d0 src)" and cp: "copyFile (Join [src, rel]) (Join [tmp, rel]) t = (b, t')"
      obtain q where q: "below src q" "file_at ?d0 q \<noteq> None" "rel = rel_path src q" using rel unfolding files_under_iff by blast
      have "clean_path q" using assms(2) q(2) by (auto simp: clean_disk_def RemoveAll_at split: if_splits)
      from below_sub [OF assms(4) this q(1) [unfolded assms(3)]] obtain vs where vs: "plain_words vs" "rel = join_char slash vs"
        using q(3) assms(3) by metis
      have "Join [tmp, rel] = sub_path I (ts @ vs)" unfolding vs(2) Join_sub [OF vs(1)] assms(5) by (rule sub_sub [OF assms(6)])
      then have "below tmp (Join [tmp, rel])" using sub_below [OF assms(6) vs(1), of I] assms(5) by simp
      then have "\<not> below B (Join [tmp, rel])" using apart_below [OF assms(7)] by blast
      then show "True \<and> undisturbed B t t'" using copyFile_undisturbed [OF cp] by blast
    qed simp
    then show ?thesis by blast
  next
    case False
    then have "copyFile src tmp ?d0 = (ok1, d1)" using c by (simp add: copyPath_def)
    from copyFile_undisturbed [OF this tmp] show ?thesis .
  qed
  then have u1: "undisturbed B d d1" using undisturbed_trans RemoveAll_undisturbed [OF assms(7)] by blast
  obtain f1 d2 where f1: "next_fault d1 = (f1, d2)" by (cases "next_fault d1")
  obtain f2 d3 where f2: "next_fault (RemoveAll dst d2) = (f2, d3)" by (cases "next_fault (RemoveAll dst d2)")
  have u2: "undisturbed B d d2" using u1 next_fault_at [OF f1] by (simp add: undisturbed_def)
  have "undisturbed B d (RemoveAll dst d2)" using undisturbed_trans [OF u2 RemoveAll_undisturbed [OF assms(8)]] .
  then have u3: "undisturbed B d d3" using next_fault_at [OF f2] by (simp add: undisturbed_def)
  have "d' = RemoveAll tmp d1 \<or> d' = RemoveAll tmp d2 \<or> d' = RemoveAll tmp d3 \<or> d' = Rename tmp dst d3"
    using assms(1) True c f1 f2 by (auto simp: replaceDir_def split: bool.splits option.splits)
  then show ?thesis
    using undisturbed_trans [OF u1 RemoveAll_undisturbed [OF assms(7)]] undisturbed_trans [OF u2 RemoveAll_undisturbed [OF assms(7)]]
      undisturbed_trans [OF u3 RemoveAll_undisturbed [OF assms(7)]] undisturbed_trans [OF u3 Rename_undisturbed [OF assms(7,8)]]
    by (elim disjE) simp_all
qed (use assms(1) in \<open>simp add: replaceDir_def\<close>)

end
