(* ===== verification/Update_Recovery.thy ===== *)
theory Update_Recovery
  imports Update_Rollback
begin

text \<open>
  A rollback gives back every file of the payload that was there before the update.
\<close>

section \<open>The payload\<close>

text \<open>The paths that an update replaces, and when a backup of them is safe.\<close>

definition plain_path :: "string \<Rightarrow> bool" where
  "plain_path rel \<longleftrightarrow> plain_words (split_char slash rel)"

definition payload_roots :: "'x update_env_scheme \<Rightarrow> string \<Rightarrow> Manifest \<Rightarrow> string list" where
  "payload_roots env installDir m = dist_tmp env installDir # admin_dist installDir # map (\<lambda>rel. Join [installDir, rel]) (backup_paths m)"

definition backup_possible :: "'x update_env_scheme \<Rightarrow> string \<Rightarrow> string \<Rightarrow> Manifest \<Rightarrow> disk \<Rightarrow> bool" where
  "backup_possible env installDir backupDir m d \<longleftrightarrow> disk_ok d \<and> \<not> is_dir d backupDir \<and>
     list_all plain_path (backup_paths m) \<and> list_all (\<lambda>p. apart p backupDir) (payload_roots env installDir m)"

definition in_payload :: "string \<Rightarrow> Manifest \<Rightarrow> string \<Rightarrow> bool" where
  "in_payload installDir m p \<longleftrightarrow> list_ex (\<lambda>rel. p = Join [installDir, rel] \<or> below (Join [installDir, rel]) p) (backup_paths m)"

lemma Join_plain: "plain_path rel \<Longrightarrow> Join [dir, rel] = sub_path dir (split_char slash rel)"
  using Join_sub [of "split_char slash rel" dir] by (simp add: plain_path_def join_split)

lemma Join_words:
  assumes "plain_words [a, b, c]"
  shows "Join [dir, a, b, c] = sub_path dir [a, b, c]"
proof -
  have "Join [dir, a, b, c] = Join [dir, join_char slash [a, b, c]]" using assms by (simp add: Join_def plain_words_def plain_word_def)
  then show ?thesis unfolding Join_sub [OF assms] .
qed

lemma Join_word2:
  assumes "plain_words [a, b]"
  shows "Join [dir, a, b] = sub_path dir [a, b]"
proof -
  have "Join [dir, a, b] = Join [dir, join_char slash [a, b]]" using assms by (simp add: Join_def plain_words_def plain_word_def)
  then show ?thesis unfolding Join_sub [OF assms] .
qed

lemma plain_literals: "plain_words [''web'', ''admin'', ''dist'']" "plain_word ''backups''"
  by (simp_all add: plain_words_def plain_word_def dot_def dotdot_def slash_def)

lemma plain_tmp: "slash \<notin> set x \<Longrightarrow> plain_words [''web'', ''admin'', ''.dist.tmp-'' @ x]"
  by (simp add: plain_words_def plain_word_def dot_def dotdot_def slash_def)

section \<open>The three steps\<close>

lemma backup_mirrors:
  assumes "backupInstallPayload I B m d = (True, e)" "backup_possible env I B m d" "B = sub_path S bs" "plain_words bs"
  shows "mirrors I B d e \<and> (\<forall>rel \<in> set (backup_paths m). backed_up I B d (split_char slash rel) e)"
proof -
  have plain: "\<forall>rel \<in> set (backup_paths m). plain_path rel" and ok: "disk_ok d" and fresh: "\<not> is_dir d B"
    and ap: "\<forall>rel \<in> set (backup_paths m). apart (Join [I, rel]) B"
    using assms(2) by (auto simp: backup_possible_def payload_roots_def list_all_iff)
  have start: "mirrors I B d d" unfolding mirrors_def
  proof (intro conjI allI impI)
    fix ws assume "plain_words ws"
    then have "below B (sub_path B ws)" using sub_below [OF assms(4), of ws S] sub_sub [OF assms(4), of S ws] assms(3) by simp
    then show "file_at d (sub_path B ws) = None \<or> file_at d (sub_path B ws) = file_at d (sub_path I ws)"
      using fresh unfolding is_dir_iff by blast
  next
    fix p assume "file_at d p \<noteq> None"
    then show "clean_path p" using disk_okD [OF ok] by blast
  qed simp
  have "mirrors I B d e \<and> keeps d e \<and> (\<forall>rel \<in> set (backup_paths m). backed_up I B d (split_char slash rel) e)"
  proof (rule each_step_reaches [where P = "mirrors I B d" and Q = "\<lambda>rel. backed_up I B d (split_char slash rel)"])
    show "each_step (\<lambda>rel. copyPathIfExists (Join [I, rel]) (Join [B, rel])) (backup_paths m) d = (True, e)"
      using assms(1) by (simp add: backupInstallPayload_def)
    show "mirrors I B d d" by (rule start)
    fix rel t t'
    assume rel: "rel \<in> set (backup_paths m)" and m: "mirrors I B d t"
      and c: "copyPathIfExists (Join [I, rel]) (Join [B, rel]) t = (True, t')"
    have p: "plain_path rel" using plain rel by blast
    have "apart (sub_path I (split_char slash rel)) B" using ap rel Join_plain [OF p, of I] by auto
    from backup_path [OF m ok p [unfolded plain_path_def] assms(3,4) this c [unfolded Join_plain [OF p]]]
    show "mirrors I B d t' \<and> keeps t t' \<and> backed_up I B d (split_char slash rel) t'" .
  qed (rule backed_up_keeps)
  then show ?thesis by blast
qed

lemma copyBundlePayload_undisturbed:
  assumes "copyBundlePayload env R I m e = (ok, d')" "clean_disk e" "slash \<notin> set (ue_tmp env)"
    "list_all plain_path (backup_paths m)" "list_all (\<lambda>p. apart p B) (payload_roots env I m)"
  shows "undisturbed B e d'"
proof -
  have mf: "plain_path ManifestFileName" "apart (Join [I, ManifestFileName]) B"
    and bins: "\<And>b. b \<in> set (mf_Binaries m) \<Longrightarrow> plain_path (bm_Path (snd b)) \<and> apart (Join [I, bm_Path (snd b)]) B"
    and dirs: "apart (dist_tmp env I) B" "apart (admin_dist I) B"
    using assms(4,5) by (auto simp: backup_paths_def payload_roots_def list_all_iff)
  let ?P = "\<lambda>t. clean_disk t"
  have copy: "clean_disk t' \<and> undisturbed B t t'"
    if "plain_path rel" "apart (Join [I, rel]) B" "clean_disk t" "copyFile src (Join [I, rel]) t = (b, t')" for rel src t b t'
  proof
    have "clean_path (Join [I, rel])" unfolding Join_plain [OF that(1)] by (rule sub_clean [OF that(1) [unfolded plain_path_def]])
    from copyFile_clean [OF that(4) this that(3)] show "clean_disk t'" .
    have "\<not> below B (Join [I, rel])" using apart_below [OF that(2), of "Join [I, rel]"] by simp
    from copyFile_undisturbed [OF that(4) this] show "undisturbed B t t'" .
  qed
  obtain ok1 d1 where c1: "copyFile (Join [R, ManifestFileName]) (Join [I, ManifestFileName]) e = (ok1, d1)" by (rule prod.exhaust)
  note s1 = copy [OF mf assms(2) c1]
  obtain ok2 d2 where c2: "each_step (\<lambda>b. copyFile (Join [R, bm_Path (snd b)]) (Join [I, bm_Path (snd b)])) (mf_Binaries m) d1 = (ok2, d2)"
    by (rule prod.exhaust)
  have s2: "clean_disk d2 \<and> undisturbed B d1 d2"
  proof (rule each_step_undisturbed [where P = clean_disk, OF _ c2])
    show "clean_disk d1" using s1 ..
    fix b t c t'
    assume b: "b \<in> set (mf_Binaries m)" "clean_disk t" "copyFile (Join [R, bm_Path (snd b)]) (Join [I, bm_Path (snd b)]) t = (c, t')"
    from bins [OF b(1)] copy [OF _ _ b(2,3)] show "clean_disk t' \<and> undisturbed B t t'" by simp
  qed
  obtain ok3 d3 where c3: "replaceDir (dist_tmp env I) (admin_dist R) (admin_dist I) d2 = (ok3, d3)" by (rule prod.exhaust)
  have src: "admin_dist R = sub_path R [''web'', ''admin'', ''dist'']" and tmp: "dist_tmp env I = sub_path I [''web'', ''admin'', ''.dist.tmp-'' @ ue_tmp env]"
    using Join_words [OF plain_literals(1)] Join_words [OF plain_tmp [OF assms(3)]] by (simp_all add: admin_dist_def dist_tmp_def)
  from s2 have cl: "clean_disk d2" ..
  from replaceDir_undisturbed [OF c3 cl src plain_literals(1) tmp plain_tmp [OF assms(3)] dirs] have s3: "undisturbed B d2 d3" .
  have "d' = d1 \<or> d' = d2 \<or> d' = d3" using assms(1) c1 c2 c3 by (auto simp: copyBundlePayload_def split: bool.splits if_splits)
  moreover have "undisturbed B e d2" using undisturbed_trans s1 s2 by blast
  ultimately show ?thesis using s1 undisturbed_trans [OF _ s3, of e] by blast
qed

lemma restore_returns:
  assumes "restoreInstallPayload B I d1 = (True, d2)" "mirrors I B d e" "undisturbed B e d1" "\<not> is_dir d B" "B = sub_path S bs" "plain_words bs"
    "plain_words ws" "file_at d (sub_path I ws) \<noteq> None" "file_at e (sub_path B ws) \<noteq> None"
  shows "file_at d2 (sub_path I ws) = file_at d (sub_path I ws)"
proof -
  have inB: "below B (sub_path B vs)" "rel_path B (sub_path B vs) = join_char slash vs" if "plain_words vs" for vs
    using sub_below [OF assms(6) that, of S] sub_sub [OF assms(6), of S vs] assms(5) by simp_all
  have eqB: "file_at d1 p = file_at e p" if "below B p" for p using assms(3) that unfolding undisturbed_def by blast
  have words: "\<exists>vs. plain_words vs \<and> x = join_char slash vs \<and> file_at d (sub_path I vs) \<noteq> None" if "x \<in> set (files_under d1 B)" for x
  proof -
    note x = that
    obtain q where q: "below B q" "file_at d1 q \<noteq> None" "x = rel_path B q" using x unfolding files_under_iff by blast
    have f: "file_at e q \<noteq> None" using q(2) eqB [OF q(1)] by simp
    then have "clean_path q" using assms(2) unfolding mirrors_def by blast
    from below_sub [OF assms(6) this q(1) [unfolded assms(5)]] obtain vs where
      vs: "plain_words vs" "q = sub_path S (bs @ vs)" "rel_path (sub_path S bs) q = join_char slash vs" by blast
    have "q = sub_path B vs" unfolding vs(2) assms(5) by (rule sub_sub [OF assms(6), symmetric])
    then have "file_at d (sub_path I vs) \<noteq> None" using f assms(2) vs(1) unfolding mirrors_def by metis
    then show ?thesis using vs(1,3) q(3) assms(5) by blast
  qed
  have loop: "each_step (\<lambda>rel. copyFile (Join [B, rel]) (Join [I, rel])) (files_under d1 B) d1 = (True, d2)"
    using assms(1) by (simp add: restoreInstallPayload_def split: if_splits)
  have joins: "Join [B, join_char slash vs] = sub_path B vs" "Join [I, join_char slash vs] = sub_path I vs" if "plain_words vs" for vs
    using Join_sub [OF that] by simp_all
  have sep: "\<forall>x \<in> set (files_under d1 B). \<forall>y \<in> set (files_under d1 B). Join [B, x] \<noteq> Join [I, y]"
  proof (intro ballI)
    fix x y assume "x \<in> set (files_under d1 B)" "y \<in> set (files_under d1 B)"
    then obtain vs us where v: "plain_words vs" "x = join_char slash vs" and u: "plain_words us" "y = join_char slash us" "file_at d (sub_path I us) \<noteq> None"
      using words by metis
    have "\<not> below B (sub_path I us)" using assms(4) u(3) unfolding is_dir_iff by blast
    then show "Join [B, x] \<noteq> Join [I, y]" using inB(1) [OF v(1)] joins(1) [OF v(1)] joins(2) [OF u(1)] v(2) u(2) by metis
  qed
  have inj: "\<forall>x \<in> set (files_under d1 B). \<forall>y \<in> set (files_under d1 B). Join [I, x] = Join [I, y] \<longrightarrow> Join [B, x] = Join [B, y]"
  proof (intro ballI impI)
    fix x y assume "x \<in> set (files_under d1 B)" "y \<in> set (files_under d1 B)" and eq: "Join [I, x] = Join [I, y]"
    then obtain vs us where v: "plain_words vs" "x = join_char slash vs" and u: "plain_words us" "y = join_char slash us"
      using words by metis
    have "sub_path I vs = sub_path I us" using eq joins(2) [OF v(1)] joins(2) [OF u(1)] v(2) u(2) by simp
    then have "vs = us" by (rule sub_inj [OF v(1) u(1)])
    then show "Join [B, x] = Join [B, y]" using v(2) u(2) by simp
  qed
  have old: "file_at e (sub_path B ws) = file_at d (sub_path I ws)" using assms(2,7,9) unfolding mirrors_def by metis
  have here: "join_char slash ws \<in> set (files_under d1 B)" unfolding files_under_iff
    using inB [OF assms(7)] eqB assms(9) by (intro exI [of _ "sub_path B ws"]) simp
  from copies [OF loop sep inj] here have "file_at d2 (Join [I, join_char slash ws]) = file_at d1 (Join [B, join_char slash ws])" by blast
  then show ?thesis using joins [OF assms(7)] eqB [OF inB(1) [OF assms(7)]] old by simp
qed

section \<open>Update and rollback\<close>


definition demo_manifest :: Manifest where
  "demo_manifest = \<lparr>mf_SchemaVersion = 1, mf_ProductVersion = ''2'', mf_GitCommit = [], mf_BuiltAt = 0, mf_Platform = [],
     mf_Binaries = map (\<lambda>n. (n, \<lparr>bm_Path = n, bm_SHA256 = ''N'', bm_Version = ''2''\<rparr>)) shippedBinaries,
     mf_AdminDistHash = [CHR ''x'', CHR 0x00, CHR ''n'', CHR 0x00], mf_SnapshotSchemaVersion = 1, mf_RPCContractVersion = ''1'',
     mf_RequiredDaemons = requiredDaemons, mf_DefaultConfigPaths = [],
     mf_Migration = \<lparr>mgm_MinVersion = [], mgm_Required = False, mgm_Notes = []\<rparr>\<rparr>"

definition demo_update_env :: update_env where
  "demo_update_env = demo_archive_env\<lparr>rl_decode := \<lambda>s. Some demo_manifest\<rparr>"

definition demo_install :: disk where
  "demo_install = \<lparr>dk_files = map (\<lambda>n. (''b/'' @ n, ''n'')) (ManifestFileName # shippedBinaries) @
     [(''b/web/admin/dist/x'', ''n''), (''i/aigw'', ''o''), (''i/web/admin/dist/y'', ''o'')], dk_faults = []\<rparr>"

definition demo_apply :: ApplyOptions where
  "demo_apply = \<lparr>ao_BundleRoot = ''b'', ao_InstallDir = ''i'', ao_StateDir = ''s'', ao_DryRun = False\<rparr>"

lemma demo_update_runs:
  "(case ApplyBundle demo_update_env 1 demo_apply demo_install of ((Some err, r), d1) \<Rightarrow> False | ((None, r), d1) \<Rightarrow>
      ap_Applied r \<and> ap_BackupDir r = ''s/backups/0'' \<and>
      (case updater_Rollback ''i'' ''s'' d1 of (Inl err, d2) \<Rightarrow> False | (Inr b, d2) \<Rightarrow> b = ''s/backups/0'')) \<and>
   file_at demo_install (Join [''b'', ManifestFileName]) \<noteq> None \<and> trim_space ''b'' = ''b'' \<and> apply_install_dir ''i'' = ''i'' \<and>
   backup_possible demo_update_env ''i'' ''s/backups/0'' demo_manifest demo_install \<and> in_payload ''i'' demo_manifest ''i/web/admin/dist/y'' \<and>
   file_at demo_install ''i/web/admin/dist/y'' = Some ''o'' \<and> plain_word (ue_stamp demo_update_env 1) \<and> slash \<notin> set (ue_tmp demo_update_env)"
  by code_simp


end
