(* ===== verification/Audit_Log.thy ===== *)
theory Audit_Log
  imports Json_Build
begin

text \<open>
  The audit log of the control plane (\<open>internal/control/audit/audit.go\<close>) and the comparison of configurations that
  hides secrets (\<open>internal/control/api/ops.go\<close>). A value of type \<open>any\<close> is the JSON value that it is encoded to.
\<close>

section \<open>Redaction\<close>

definition isSensitiveKey :: "string \<Rightarrow> bool" where
  "isSensitiveKey key \<longleftrightarrow> list_ex (str_contains key)
     [''secret'', ''token'', ''api_key'', ''apikey'', ''password'', ''authorization'', ''cookie'', ''signing_key'']"

text \<open>Only \<open>nil\<close> and blank strings are printed as blank.\<close>

definition blank_value :: "json \<Rightarrow> bool" where
  "blank_value v \<longleftrightarrow> (case v of JNull \<Rightarrow> True | JString s \<Rightarrow> trim_space s = [] | _ \<Rightarrow> False)"

definition hidden_value :: "json \<Rightarrow> json" where
  "hidden_value v = (if blank_value v then JString [] else JString ''[redacted]'')"

text \<open>A map without entries becomes the nil map.\<close>

fun redactValue :: "string \<Rightarrow> json \<Rightarrow> json"
  and RedactMap :: "(string \<times> json) list \<Rightarrow> (string \<times> json) list"
  and redact_items :: "string \<Rightarrow> json list \<Rightarrow> json list" where
  "redactValue key v =
     (if isSensitiveKey (to_lower key) then hidden_value v
      else case v of
          JObject kvs \<Rightarrow> if kvs = [] then JNull else JObject (RedactMap kvs)
        | JArray vs \<Rightarrow> JArray (redact_items key vs)
        | _ \<Rightarrow> v)"
| "RedactMap [] = []"
| "RedactMap ((k, v) # kvs) = (k, redactValue k v) # RedactMap kvs"
| "redact_items key [] = []"
| "redact_items key (v # vs) = redactValue key v # redact_items key vs"

declare redactValue.simps [simp del]

section \<open>The log\<close>

record AuditEvent =
  ev_ID :: string
  ev_Time :: gotime
  ev_Actor :: string
  ev_Role :: string
  ev_Source :: string
  ev_Action :: string
  ev_Resource :: string
  ev_Success :: bool
  ev_Error :: string
  ev_RequestID :: string
  ev_Details :: "(string \<times> json) list"

record AuditQuery =
  aq_Limit :: goint
  aq_Action :: string
  aq_Since :: gotime

text \<open>The JSON codec of events, and the fresh identifiers, which depend on the time of the call.\<close>

record audit_env =
  ae_encode :: "AuditEvent \<Rightarrow> string option"
  ae_decode :: "string \<Rightarrow> AuditEvent option"
  ae_uuid :: "string list \<Rightarrow> string"

text \<open>What is written of an event.\<close>

definition audit_entry :: "audit_env \<Rightarrow> string list \<Rightarrow> gotime \<Rightarrow> AuditEvent \<Rightarrow> AuditEvent" where
  "audit_entry env lines now e =
     e\<lparr>ev_ID := (if ev_ID e = [] then ''aud_'' @ ae_uuid env lines else ev_ID e), ev_Time := (if is_zero_time (ev_Time e) then now else ev_Time e),
       ev_Action := trim_space (ev_Action e), ev_Resource := trim_space (ev_Resource e), ev_Actor := trim_space (ev_Actor e),
       ev_Role := trim_space (ev_Role e), ev_Error := trim_space (ev_Error e), ev_Details := RedactMap (ev_Details e)\<rparr>"

text \<open>
  The log is the lines of its file; \<open>writable\<close> says whether the file can be opened and written. The context is
  never done: the handlers pass the background context.
\<close>

definition audit_Record :: "audit_env \<Rightarrow> gotime \<Rightarrow> bool \<Rightarrow> AuditEvent \<Rightarrow> string list \<Rightarrow> bool \<times> string list" where
  "audit_Record env now writable e lines =
     (case ae_encode env (audit_entry env lines now e) of
        None \<Rightarrow> (False, lines)
      | Some text \<Rightarrow> if writable then (True, lines @ [text]) else (False, lines))"

definition maxAuditLine :: nat where "maxAuditLine = 1024 * 1024"

definition audit_limit :: "goint \<Rightarrow> nat" where
  "audit_limit n = nat (let l = (if n \<le> 0 then 100 else n) in if 1000 < l then 1000 else l)"

definition audit_line :: "audit_env \<Rightarrow> string \<Rightarrow> AuditEvent option" where
  "audit_line env line = (let l = trim_space line in if l = [] then None else ae_decode env l)"

definition audit_matches :: "AuditQuery \<Rightarrow> AuditEvent \<Rightarrow> bool" where
  "audit_matches q e \<longleftrightarrow> (trim_space (aq_Action q) = [] \<or> ev_Action e = trim_space (aq_Action q)) \<and>
     (is_zero_time (aq_Since q) \<or> aq_Since q \<le> ev_Time e)"

text \<open>\<open>None\<close> is the error of the scanner at a line that does not fit its buffer.\<close>

definition audit_List :: "audit_env \<Rightarrow> AuditQuery \<Rightarrow> string list \<Rightarrow> AuditEvent list option" where
  "audit_List env q lines =
     (if list_ex (\<lambda>line. maxAuditLine \<le> length line) lines then None
      else Some (take (audit_limit (aq_Limit q))
        (sort_key (\<lambda>e. - ev_Time e) (filter (audit_matches q) (List.map_filter (audit_line env) lines)))))"

section \<open>Comparing configurations\<close>

text \<open>What follows the first occurrence of a separator.\<close>

fun after_first :: "string \<Rightarrow> string \<Rightarrow> string option" where
  "after_first sep s = (if prefix sep s then Some (drop (length sep) s) else case s of [] \<Rightarrow> None | c # cs \<Rightarrow> after_first sep cs)"

declare after_first.simps [simp del]

definition isSecretPath :: "string \<Rightarrow> bool" where
  "isSecretPath path =
     (let lower = to_lower path in
      list_ex (str_contains lower) [''token'', ''api_key'', ''secret'', ''cookie_signing_key''] \<or>
      (case after_first ''headers.'' lower of
         None \<Rightarrow> False
       | Some header \<Rightarrow> list_ex (\<lambda>h. prefix h header) [''authorization'', ''cookie'', ''x-api-key'', ''api-key'', ''x-auth-token'', ''x-token'']))"

definition child_path :: "string \<Rightarrow> string \<Rightarrow> string" where
  "child_path path key = (if path \<noteq> [] then path @ CHR ''.'' # key else key)"

definition item_path :: "string \<Rightarrow> nat \<Rightarrow> string" where
  "item_path path i = path @ ''['' @ show_nat i @ '']''"

fun redactDiffValue :: "string \<Rightarrow> json \<Rightarrow> json"
  and redact_diff_fields :: "string \<Rightarrow> (string \<times> json) list \<Rightarrow> (string \<times> json) list"
  and redact_diff_items :: "string \<Rightarrow> nat \<Rightarrow> json list \<Rightarrow> json list" where
  "redactDiffValue path v =
     (if isSecretPath path then hidden_value v
      else case v of
          JObject kvs \<Rightarrow> JObject (redact_diff_fields path kvs)
        | JArray vs \<Rightarrow> JArray (redact_diff_items path 0 vs)
        | _ \<Rightarrow> v)"
| "redact_diff_fields path [] = []"
| "redact_diff_fields path ((k, v) # kvs) = (k, redactDiffValue (child_path path k) v) # redact_diff_fields path kvs"
| "redact_diff_items path i [] = []"
| "redact_diff_items path i (v # vs) = redactDiffValue (item_path path i) v # redact_diff_items path (Suc i) vs"

declare redactDiffValue.simps [simp del]

datatype diff_kind = DiffChanged | DiffAdded | DiffRemoved

record DiffChange =
  dc_Path :: string
  dc_Before :: json
  dc_After :: json
  dc_Kind :: diff_kind

text \<open>The keys of two maps, each once, in the order of their texts.\<close>

definition both_keys :: "(string \<times> json) list \<Rightarrow> (string \<times> json) list \<Rightarrow> string list" where
  "both_keys bs as = sort (remdups (map fst bs @ map fst as))"

lemma member_size: "size (member k kvs) < size (JObject kvs)"
proof (cases "map_of kvs k")
  case None
  then show ?thesis by (simp add: member_def)
next
  case (Some v)
  then have "(k, v) \<in> set kvs" by (rule map_of_SomeD)
  then have "size v < Suc (size_list (size_prod (\<lambda>x. 0) size) kvs)"
    by (induction kvs) auto
  then show ?thesis using Some by (simp add: member_def)
qed

lemma two_members [simp]:
  "size (member k bs) + size (member k as) < Suc (Suc (size_list (size_prod (\<lambda>x. 0) size) bs + size_list (size_prod (\<lambda>x. 0) size) as))"
  using member_size [of k bs] member_size [of k as] by simp

text \<open>Two values are compared by their encodings; a member that is absent is \<open>nil\<close>.\<close>

function walkDiff :: "string \<Rightarrow> json \<Rightarrow> json \<Rightarrow> DiffChange list" where
  "walkDiff path before after =
     (case (before, after) of
        (JObject bs, JObject as) \<Rightarrow>
          concat (map (\<lambda>key. walkDiff (child_path path key) (member key bs) (member key as)) (both_keys bs as))
      | _ \<Rightarrow>
          if before = after then []
          else [\<lparr>dc_Path = path, dc_Before = redactDiffValue path before, dc_After = redactDiffValue path after,
            dc_Kind = (if after = JNull then DiffRemoved else if before = JNull then DiffAdded else DiffChanged)\<rparr>])"
  by pat_completeness auto
termination
  by (relation "measure (\<lambda>(path, b, a). size b + size a)") auto

declare walkDiff.simps [simp del]

definition DiffConfigs :: "(string \<times> json) list \<Rightarrow> (string \<times> json) list \<Rightarrow> DiffChange list" where
  "DiffConfigs before after = sort_key dc_Path (walkDiff [] (JObject before) (JObject after))"

section \<open>Differences are exact\<close>

text \<open>Decoded JSON has the keys of its maps in order, each once.\<close>

fun normal_json :: "json \<Rightarrow> bool" where
  "normal_json (JObject kvs) \<longleftrightarrow> sorted (map fst kvs) \<and> distinct (map fst kvs) \<and> list_all (\<lambda>(k, v). normal_json v) kvs"
| "normal_json v \<longleftrightarrow> True"

text \<open>A configuration without the members that are null; the values in arrays are left as they are.\<close>

fun drop_nulls :: "json \<Rightarrow> json" where
  "drop_nulls (JObject kvs) = JObject (concat (map (\<lambda>(k, v). if v = JNull then [] else [(k, drop_nulls v)]) kvs))"
| "drop_nulls v = v"

lemma drop_nulls_null [simp]: "drop_nulls v = JNull \<longleftrightarrow> v = JNull" "JNull = drop_nulls v \<longleftrightarrow> v = JNull"
  by (cases v; simp)+

definition kept_fields :: "(string \<times> json) list \<Rightarrow> (string \<times> json) list" where
  "kept_fields kvs = concat (map (\<lambda>(k, v). if v = JNull then [] else [(k, drop_nulls v)]) kvs)"

lemma kept_keys: "set (map fst (kept_fields kvs)) \<subseteq> set (map fst kvs)"
  by (force simp: kept_fields_def split: if_splits)

lemma kept_sorted: "sorted (map fst kvs) \<Longrightarrow> distinct (map fst kvs) \<Longrightarrow> sorted (map fst (kept_fields kvs)) \<and> distinct (map fst (kept_fields kvs))"
proof (induction kvs)
  case (Cons x kvs)
  obtain k v where x: "x = (k, v)" by (cases x)
  have "kept_fields (x # kvs) = (if v = JNull then [] else [(k, drop_nulls v)]) @ kept_fields kvs" by (simp add: kept_fields_def x)
  with Cons kept_keys [of kvs] x show ?case by (auto simp del: set_map)
qed (simp add: kept_fields_def)

lemma kept_lookup:
  assumes "distinct (map fst kvs)"
  shows "map_of (kept_fields kvs) k = (if member k kvs = JNull then None else Some (drop_nulls (member k kvs)))"
  using assms
proof (induction kvs)
  case (Cons x kvs)
  obtain k' v where x: "x = (k', v)" by (cases x)
  have app: "kept_fields (x # kvs) = (if v = JNull then [] else [(k', drop_nulls v)]) @ kept_fields kvs" by (simp add: kept_fields_def x)
  show ?case
  proof (cases "k = k'")
    case True
    then have "map_of kvs k = None" using Cons.prems x by (auto simp: map_of_eq_None_iff)
    then have "member k kvs = JNull" by (simp add: member_def)
    then show ?thesis using Cons app x True by (simp add: member_def)
  next
    case False
    then have "member k (x # kvs) = member k kvs" by (simp add: member_def x)
    then show ?thesis using Cons app x False by simp
  qed
qed (simp add: kept_fields_def member_def)

lemma fields_equal:
  assumes "sorted (map fst xs)" "distinct (map fst xs)" "sorted (map fst ys)" "distinct (map fst ys)" "map_of xs = map_of ys"
  shows "xs = (ys :: (string \<times> 'a) list)"
proof -
  have s: "set xs = set ys" using assms(2,4,5) map_of_inject_set by blast
  have "inj_on fst (set xs \<union> set ys)" using assms(2) s by (simp add: distinct_map)
  from map_sorted_distinct_set_unique [OF this assms(1-4) s] show ?thesis .
qed

lemma drop_nulls_fields:
  assumes "sorted (map fst bs)" "distinct (map fst bs)" "sorted (map fst as)" "distinct (map fst as)"
  shows "drop_nulls (JObject bs) = drop_nulls (JObject as) \<longleftrightarrow>
    (\<forall>k \<in> set (both_keys bs as). drop_nulls (member k bs) = drop_nulls (member k as))"
proof -
  have "drop_nulls (JObject bs) = drop_nulls (JObject as) \<longleftrightarrow> kept_fields bs = kept_fields as" by (simp add: kept_fields_def)
  also have "\<dots> \<longleftrightarrow> map_of (kept_fields bs) = map_of (kept_fields as)"
    using fields_equal [of "kept_fields bs" "kept_fields as"] kept_sorted assms by metis
  also have "\<dots> \<longleftrightarrow> (\<forall>k. drop_nulls (member k bs) = drop_nulls (member k as))"
  proof -
    have "map_of (kept_fields bs) k = map_of (kept_fields as) k \<longleftrightarrow> drop_nulls (member k bs) = drop_nulls (member k as)" for k
      using drop_nulls_null [of "member k bs"] drop_nulls_null [of "member k as"]
      unfolding kept_lookup [OF assms(2)] kept_lookup [OF assms(4)] by auto
    then show ?thesis by (simp add: fun_eq_iff)
  qed
  also have "\<dots> \<longleftrightarrow> (\<forall>k \<in> set (both_keys bs as). drop_nulls (member k bs) = drop_nulls (member k as))"
  proof -
    have "member k bs = JNull \<and> member k as = JNull" if "k \<notin> set (both_keys bs as)" for k
    proof -
      have "map_of bs k = None" "map_of as k = None" using that by (simp_all add: both_keys_def map_of_eq_None_iff)
      then show ?thesis by (simp add: member_def)
    qed
    then show ?thesis by metis
  qed
  finally show ?thesis .
qed

lemma normal_member: "normal_json (JObject kvs) \<Longrightarrow> normal_json (member k kvs)"
  by (auto simp: member_def list_all_iff split: option.split dest!: map_of_SomeD)

lemma walkDiff_exact: "normal_json b \<Longrightarrow> normal_json a \<Longrightarrow> walkDiff path b a = [] \<longleftrightarrow> drop_nulls b = drop_nulls a"
proof (induction path b a rule: walkDiff.induct)
  case (1 path b a)
  show ?case
  proof (cases "\<exists>bs as. b = JObject bs \<and> a = JObject as")
    case True
    then obtain bs as where eq: "b = JObject bs" "a = JObject as" by blast
    have "walkDiff (child_path path k) (member k bs) (member k as) = [] \<longleftrightarrow> drop_nulls (member k bs) = drop_nulls (member k as)"
      if "k \<in> set (both_keys bs as)" for k
      using 1 that eq normal_member [of bs k] normal_member [of as k] by simp
    then have "walkDiff path b a = [] \<longleftrightarrow> (\<forall>k \<in> set (both_keys bs as). drop_nulls (member k bs) = drop_nulls (member k as))"
      unfolding walkDiff.simps [of path b a] by (simp add: eq)
    then show ?thesis using drop_nulls_fields [of bs as] 1(2,3) by (simp add: eq del: drop_nulls.simps)
  next
    case False
    then have "walkDiff path b a = [] \<longleftrightarrow> b = a" unfolding walkDiff.simps [of path b a] by (auto split: json.split)
    moreover have "drop_nulls b = drop_nulls a \<longleftrightarrow> b = a" using False by (cases b; cases a) auto
    ultimately show ?thesis by simp
  qed
qed



section \<open>Secrets are hidden\<close>

text \<open>The values inside a value, with the paths by which the code names them.\<close>

inductive inside_at :: "string \<Rightarrow> json \<Rightarrow> string \<Rightarrow> json \<Rightarrow> bool" where
  here: "inside_at path v path v"
| field: "(k, w) \<in> set kvs \<Longrightarrow> inside_at (child_path path k) w p x \<Longrightarrow> inside_at path (JObject kvs) p x"
| item: "i < length vs \<Longrightarrow> inside_at (item_path path i) (vs ! i) p x \<Longrightarrow> inside_at path (JArray vs) p x"

inductive_cases inside_objectE: "inside_at path (JObject kvs) p x"
inductive_cases inside_arrayE: "inside_at path (JArray vs) p x"

definition is_hidden :: "json \<Rightarrow> bool" where
  "is_hidden v \<longleftrightarrow> v = JString [] \<or> v = JString ''[redacted]''"

lemma hidden_value_hidden: "is_hidden (hidden_value v)"
  by (simp add: is_hidden_def hidden_value_def)

lemma inside_leaf: "inside_at path v p x \<Longrightarrow> \<forall>kvs. v \<noteq> JObject kvs \<Longrightarrow> \<forall>vs. v \<noteq> JArray vs \<Longrightarrow> p = path \<and> x = v"
  by (induction rule: inside_at.induct) auto

lemma redact_fields_map: "redact_diff_fields path kvs = map (\<lambda>(k, v). (k, redactDiffValue (child_path path k) v)) kvs"
  by (induction kvs) auto

lemma redact_items_nth: "i < length vs \<Longrightarrow> redact_diff_items path n vs ! i = redactDiffValue (item_path path (n + i)) (vs ! i)"
  by (induction vs arbitrary: n i) (auto simp: nth_Cons split: nat.split)

lemma redact_items_length [simp]: "length (redact_diff_items path n vs) = length vs"
  by (induction vs arbitrary: n) auto

lemma redacted_inside:
  "inside_at path (redactDiffValue path v) p x \<Longrightarrow> isSecretPath p \<Longrightarrow> is_hidden x"
proof (induction v arbitrary: path p x)
  case (JObject kvs)
  show ?case
  proof (cases "isSecretPath path")
    case True
    then have "redactDiffValue path (JObject kvs) = hidden_value (JObject kvs)" by (simp add: redactDiffValue.simps)
    moreover have "hidden_value (JObject kvs) = JString ''[redacted]''" by (simp add: hidden_value_def blank_value_def)
    ultimately show ?thesis using JObject.prems(1) inside_leaf [of path "JString ''[redacted]''" p x] by (simp add: is_hidden_def)
  next
    case False
    then have "redactDiffValue path (JObject kvs) = JObject (redact_diff_fields path kvs)" by (simp add: redactDiffValue.simps)
    with JObject.prems(1) have "inside_at path (JObject (redact_diff_fields path kvs)) p x" by simp
    then show ?thesis
    proof (rule inside_objectE)
      assume "p = path" "x = JObject (redact_diff_fields path kvs)"
      then show ?thesis using False JObject.prems(2) by simp
    next
      fix k w assume "(k, w) \<in> set (redact_diff_fields path kvs)" and i: "inside_at (child_path path k) w p x"
      then obtain u where u: "(k, u) \<in> set kvs" "w = redactDiffValue (child_path path k) u" by (auto simp: redact_fields_map)
      show ?thesis by (rule JObject.IH [OF u(1) _ i [unfolded u(2)] JObject.prems(2)]) simp
    qed
  qed
next
  case (JArray vs)
  show ?case
  proof (cases "isSecretPath path")
    case True
    then have "redactDiffValue path (JArray vs) = JString ''[redacted]''" by (simp add: redactDiffValue.simps hidden_value_def blank_value_def)
    then show ?thesis using JArray.prems(1) inside_leaf [of path "JString ''[redacted]''" p x] by (simp add: is_hidden_def)
  next
    case False
    then have "redactDiffValue path (JArray vs) = JArray (redact_diff_items path 0 vs)" by (simp add: redactDiffValue.simps)
    with JArray.prems(1) have "inside_at path (JArray (redact_diff_items path 0 vs)) p x" by simp
    then show ?thesis
    proof (rule inside_arrayE)
      assume "p = path" "x = JArray (redact_diff_items path 0 vs)"
      then show ?thesis using False JArray.prems(2) by simp
    next
      fix i assume "i < length (redact_diff_items path 0 vs)" and i: "inside_at (item_path path i) (redact_diff_items path 0 vs ! i) p x"
      then have l: "i < length vs" by simp
      have "inside_at (item_path path i) (redactDiffValue (item_path path i) (vs ! i)) p x" using i redact_items_nth [OF l, of path 0] by simp
      then show ?thesis by (rule JArray.IH [OF nth_mem [OF l] _ JArray.prems(2)])
    qed
  qed
qed (use inside_leaf hidden_value_hidden in \<open>force simp: redactDiffValue.simps is_hidden_def hidden_value_def split: if_splits\<close>)+

lemma walkDiff_shown: "c \<in> set (walkDiff path b a) \<Longrightarrow> \<exists>v w. dc_Before c = redactDiffValue (dc_Path c) v \<and> dc_After c = redactDiffValue (dc_Path c) w"
proof (induction path b a rule: walkDiff.induct)
  case (1 path b a)
  show ?case
  proof (cases "\<exists>bs as. b = JObject bs \<and> a = JObject as")
    case True
    then obtain bs as where eq: "b = JObject bs" "a = JObject as" by blast
    obtain k where "k \<in> set (both_keys bs as)" "c \<in> set (walkDiff (child_path path k) (member k bs) (member k as))"
      using 1(2) unfolding walkDiff.simps [of path b a] by (auto simp: eq)
    then show ?thesis using 1(1) eq by simp
  next
    case False
    then have "walkDiff path b a = (if b = a then [] else [\<lparr>dc_Path = path, dc_Before = redactDiffValue path b, dc_After = redactDiffValue path a,
            dc_Kind = (if a = JNull then DiffRemoved else if b = JNull then DiffAdded else DiffChanged)\<rparr>])"
      unfolding walkDiff.simps [of path b a] by (auto split: json.split)
    then show ?thesis using 1(2) by (auto split: if_splits)
  qed
qed

text \<open>
  C33 Nothing that a comparison reports shows a secret: wherever a reported value has a part whose path is that of a
  token, an API key, a secret or a header with credentials, that part is blank or redacted, however deep it is.\<close>

theorem diff_hides_secrets:
  assumes "c \<in> set (DiffConfigs before after)" "inside_at (dc_Path c) (dc_Before c) p x \<or> inside_at (dc_Path c) (dc_After c) p x"
    "isSecretPath p"
  shows "is_hidden x"
proof -
  obtain v w where "dc_Before c = redactDiffValue (dc_Path c) v" "dc_After c = redactDiffValue (dc_Path c) w"
    using walkDiff_shown [of c "[]" "JObject before" "JObject after"] assms(1) by (auto simp: DiffConfigs_def)
  then show ?thesis using assms(2,3) redacted_inside by metis
qed

lemma diff_hides_secrets_witness:
  "is_hidden (JString ''[redacted]'') \<and> DiffConfigs [] [(''p'', JObject [(''api_key'', JString ''k1'')])] =
     [\<lparr>dc_Path = ''p'', dc_Before = JNull, dc_After = JObject [(''api_key'', JString ''[redacted]'')], dc_Kind = DiffAdded\<rparr>]"
proof -
  let ?c = "\<lparr>dc_Path = ''p'', dc_Before = JNull, dc_After = JObject [(''api_key'', JString ''[redacted]'')], dc_Kind = DiffAdded\<rparr>"
  have run: "DiffConfigs [] [(''p'', JObject [(''api_key'', JString ''k1'')])] = [?c] \<and> isSecretPath ''p.api_key'' \<and>
      child_path ''p'' ''api_key'' = ''p.api_key''"
    by code_simp
  have "inside_at ''p'' (JObject [(''api_key'', JString ''[redacted]'')]) ''p.api_key'' (JString ''[redacted]'')"
    using inside_at.field [of "''api_key''" "JString ''[redacted]''" "[(''api_key'', JString ''[redacted]'')]" "''p''"] inside_at.here run by simp
  then have "is_hidden (JString ''[redacted]'')"
    using diff_hides_secrets [of ?c "[]" "[(''p'', JObject [(''api_key'', JString ''k1'')])]" "''p.api_key''"] run by simp
  with run show ?thesis by blast
qed

text \<open>The values inside the details of an event, with the key that each has; the items of an array have that of the array.\<close>

inductive under_key :: "string \<Rightarrow> json \<Rightarrow> string \<Rightarrow> json \<Rightarrow> bool" where
  same_key: "under_key key v key v"
| field_key: "(k, w) \<in> set kvs \<Longrightarrow> under_key k w k' x \<Longrightarrow> under_key key (JObject kvs) k' x"
| item_key: "w \<in> set vs \<Longrightarrow> under_key key w k' x \<Longrightarrow> under_key key (JArray vs) k' x"

inductive_cases under_objectE: "under_key key (JObject kvs) k x"
inductive_cases under_arrayE: "under_key key (JArray vs) k x"

lemma under_leaf: "under_key key v k x \<Longrightarrow> \<forall>kvs. v \<noteq> JObject kvs \<Longrightarrow> \<forall>vs. v \<noteq> JArray vs \<Longrightarrow> k = key \<and> x = v"
  by (induction rule: under_key.induct) auto

lemma RedactMap_map: "RedactMap kvs = map (\<lambda>(k, v). (k, redactValue k v)) kvs"
  by (induction kvs) auto

lemma redact_items_map: "redact_items key vs = map (redactValue key) vs"
  by (induction vs) auto

lemma redacted_key: "under_key key (redactValue key v) k x \<Longrightarrow> isSensitiveKey (to_lower k) \<Longrightarrow> is_hidden x"
proof (induction v arbitrary: key)
  case (JObject kvs)
  show ?case
  proof (cases "isSensitiveKey (to_lower key) \<or> kvs = []")
    case True
    then have "redactValue key (JObject kvs) = (if isSensitiveKey (to_lower key) then JString ''[redacted]'' else JNull)"
      by (auto simp: redactValue.simps hidden_value_def blank_value_def)
    then show ?thesis using JObject.prems under_leaf [of key _ k x] by (force simp: is_hidden_def split: if_splits)
  next
    case False
    then have eq: "redactValue key (JObject kvs) = JObject (RedactMap kvs)" by (simp add: redactValue.simps)
    with JObject.prems(1) have "under_key key (JObject (RedactMap kvs)) k x" by simp
    then show ?thesis
    proof (rule under_objectE)
      assume "k = key" "x = JObject (RedactMap kvs)"
      then show ?thesis using False JObject.prems(2) by simp
    next
      fix k' w assume "(k', w) \<in> set (RedactMap kvs)" and i: "under_key k' w k x"
      then obtain u where u: "(k', u) \<in> set kvs" "w = redactValue k' u" by (auto simp: RedactMap_map)
      show ?thesis by (rule JObject.IH [OF u(1) _ i [unfolded u(2)] JObject.prems(2)]) simp
    qed
  qed
next
  case (JArray vs)
  show ?case
  proof (cases "isSensitiveKey (to_lower key)")
    case True
    then have "redactValue key (JArray vs) = JString ''[redacted]''" by (simp add: redactValue.simps hidden_value_def blank_value_def)
    then show ?thesis using JArray.prems under_leaf [of key _ k x] by (force simp: is_hidden_def)
  next
    case False
    then have "redactValue key (JArray vs) = JArray (map (redactValue key) vs)" by (simp add: redactValue.simps redact_items_map)
    with JArray.prems(1) have "under_key key (JArray (map (redactValue key) vs)) k x" by simp
    then show ?thesis
    proof (rule under_arrayE)
      assume "k = key" "x = JArray (map (redactValue key) vs)"
      then show ?thesis using False JArray.prems(2) by simp
    next
      fix w assume "w \<in> set (map (redactValue key) vs)" and i: "under_key key w k x"
      then obtain u where u: "u \<in> set vs" "w = redactValue key u" by auto
      show ?thesis by (rule JArray.IH [OF u(1) i [unfolded u(2)] JArray.prems(2)])
    qed
  qed
qed (use under_leaf hidden_value_hidden in \<open>force simp: redactValue.simps is_hidden_def hidden_value_def split: if_splits\<close>)+

section \<open>What is recorded is listed\<close>

lemma sort_key_sorted: "sorted (map f (sort_key f xs))"
  by (rule sorted_sort_key)

lemma take_sorted_least:
  assumes "sorted (map f xs)" "x \<in> set xs" "x \<notin> set (take n xs)" "y \<in> set (take n xs)"
  shows "f y \<le> f (x :: 'a)"
proof -
  have "x \<in> set (drop n xs)" using assms(2,3) by (metis Un_iff append_take_drop_id set_append)
  moreover have "sorted (map f (take n xs @ drop n xs))" using assms(1) by simp
  ultimately show ?thesis using assms(4) unfolding map_append sorted_append by auto
qed

text \<open>
  An event that was written is listed by every query that it matches, unless the list is full of events that are
  not older; the list is in descending order of time, and at a sensitive key the details of the event are blank or
  redacted. The encoding of events can be decoded, has no line breaks and fits the buffer of the scanner.\<close>

theorem recorded_event_listed:
  assumes "audit_Record env now writable e lines = (True, lines')" "audit_List env q lines = Some es"
    "ae_encode env (audit_entry env lines now e) = Some text" "audit_line env text = Some (audit_entry env lines now e)"
    "length text < maxAuditLine" "audit_matches q (audit_entry env lines now e)"
  shows "\<exists>es'. audit_List env q lines' = Some es' \<and> sorted (map (\<lambda>x. - ev_Time x) es') \<and>
    (audit_entry env lines now e \<in> set es' \<or>
     length es' = audit_limit (aq_Limit q) \<and> list_all (\<lambda>x. ev_Time (audit_entry env lines now e) \<le> ev_Time x) es') \<and>
    (\<forall>k v k' x. (k, v) \<in> set (ev_Details (audit_entry env lines now e)) \<longrightarrow> under_key k v k' x \<longrightarrow> isSensitiveKey (to_lower k') \<longrightarrow> is_hidden x)"
proof -
  let ?e = "audit_entry env lines now e" and ?n = "audit_limit (aq_Limit q)" and ?f = "\<lambda>x. - ev_Time x"
  define all where "all = sort_key ?f (filter (audit_matches q) (List.map_filter (audit_line env) (lines @ [text])))"
  have lines': "lines' = lines @ [text]" using assms(1,3) by (simp add: audit_Record_def split: if_splits)
  have "\<not> list_ex (\<lambda>line. maxAuditLine \<le> length line) lines" using assms(2) by (auto simp: audit_List_def split: if_splits)
  then have list: "audit_List env q lines' = Some (take ?n all)"
    using assms(5) by (simp add: audit_List_def lines' all_def)
  have sorted: "sorted (map ?f all)" unfolding all_def by (rule sorted_sort_key)
  have "?e \<in> set all" using assms(4,6) by (simp add: all_def map_filter_def)
  moreover have "length (take ?n all) = ?n" if "?e \<in> set all" "?e \<notin> set (take ?n all)"
    using that by (cases "length all \<le> ?n") (auto simp: min_def)
  moreover have "list_all (\<lambda>x. ev_Time ?e \<le> ev_Time x) (take ?n all)" if "?e \<in> set all" "?e \<notin> set (take ?n all)"
    using take_sorted_least [OF sorted that] by (simp add: list_all_iff)
  ultimately have found: "?e \<in> set (take ?n all) \<or> length (take ?n all) = ?n \<and> list_all (\<lambda>x. ev_Time ?e \<le> ev_Time x) (take ?n all)" by blast
  have "sorted (map ?f (take ?n all))" unfolding take_map [symmetric] using sorted by (rule sorted_wrt_take)
  moreover have "is_hidden x" if "(k, v) \<in> set (ev_Details ?e)" "under_key k v k' x" "isSensitiveKey (to_lower k')" for k v k' x
  proof -
    note part = that
    obtain u where "v = redactValue k u" using part(1) by (auto simp: audit_entry_def RedactMap_map)
    then show ?thesis using redacted_key part(2,3) by blast
  qed
  ultimately show ?thesis using list found by blast
qed

definition demo_audit_event :: AuditEvent where
  "demo_audit_event = \<lparr>ev_ID = ''aud_1'', ev_Time = 7, ev_Actor = ''admin'', ev_Role = ''admin'', ev_Source = [], ev_Action = ''config.publish'',
     ev_Resource = [], ev_Success = True, ev_Error = [], ev_RequestID = [], ev_Details = [(''token'', JString ''t'')]\<rparr>"

definition demo_audit_env :: audit_env where
  "demo_audit_env = \<lparr>ae_encode = (\<lambda>e. Some ''x''), ae_decode = (\<lambda>s. Some (demo_audit_event\<lparr>ev_Details := [(''token'', JString ''[redacted]'')]\<rparr>)),
     ae_uuid = (\<lambda>ls. [])\<rparr>"

lemma recorded_event_listed_witness:
  "\<exists>es. audit_List demo_audit_env \<lparr>aq_Limit = 1, aq_Action = [], aq_Since = 0\<rparr> [''x''] = Some es \<and> sorted (map (\<lambda>x. - ev_Time x) es) \<and>
     is_hidden (JString ''[redacted]'')"
proof -
  let ?q = "\<lparr>aq_Limit = 1, aq_Action = [], aq_Since = 0\<rparr>"
  have trims: "trim_space ''x'' = ''x'' \<and> trim_space ''admin'' = ''admin'' \<and> trim_space ''config.publish'' = ''config.publish'' \<and>
      isSensitiveKey (to_lower ''token'') \<and> trim_space ''t'' = ''t''"
    by code_simp
  have entry: "audit_entry demo_audit_env [] 9 demo_audit_event = demo_audit_event\<lparr>ev_Details := [(''token'', JString ''[redacted]'')]\<rparr>"
    using trims by (simp add: audit_entry_def demo_audit_event_def is_zero_time_def redactValue.simps hidden_value_def blank_value_def)
  have rec: "audit_Record demo_audit_env 9 True demo_audit_event [] = (True, [''x''])"
    by (simp add: audit_Record_def demo_audit_env_def)
  have list: "audit_List demo_audit_env ?q [] = Some []" by (simp add: audit_List_def List.map_filter_def)
  have line: "audit_line demo_audit_env ''x'' = Some (audit_entry demo_audit_env [] 9 demo_audit_event)"
    using trims unfolding entry by (simp add: audit_line_def demo_audit_env_def)
  have match: "audit_matches ?q (audit_entry demo_audit_env [] 9 demo_audit_event)" by (simp add: audit_matches_def is_zero_time_def)
  obtain es where es: "audit_List demo_audit_env ?q [''x''] = Some es" "sorted (map (\<lambda>x. - ev_Time x) es)"
      "\<forall>k v k' x. (k, v) \<in> set (ev_Details (audit_entry demo_audit_env [] 9 demo_audit_event)) \<longrightarrow> under_key k v k' x \<longrightarrow>
        isSensitiveKey (to_lower k') \<longrightarrow> is_hidden x"
    using recorded_event_listed [OF rec list _ line _ match] by (auto simp: demo_audit_env_def maxAuditLine_def)
  have "(''token'', JString ''[redacted]'') \<in> set (ev_Details (audit_entry demo_audit_env [] 9 demo_audit_event))"
    unfolding entry by simp
  then have "is_hidden (JString ''[redacted]'')" using es(3) trims under_key.same_key by blast
  then show ?thesis using es(1,2) by blast
qed

end
