(* ===== verification/Admin_Auth.thy ===== *)
theory Admin_Auth
  imports Updater Config_Data Convert_Response Rate_Limit Audit_Log
begin

text \<open>
  Who may use the admin API: tokens and signed cookies (\<open>internal/infra/auth/cookie.go\<close>), the middleware with its
  check of the origin, and the pages for login, logout and the session (\<open>cmd/controld/http.go\<close>).
\<close>

section \<open>Requests and responses\<close>

text \<open>
  A request as the handlers read it: \<open>ad_form\<close> is \<open>r.Form\<close> with whether it was parsed without an error. A header
  is looked up by its canonical name; several cookies may have the same name.
\<close>

record AdminRequest =
  ad_Method :: string
  ad_Path :: string
  ad_URI :: string
  ad_Host :: string
  ad_TLS :: bool
  ad_Header :: "(string \<times> string) list"
  ad_Cookies :: "(string \<times> string) list"
  ad_Query :: "(string \<times> string) list"
  ad_Form :: "bool \<times> (string \<times> string) list"
  ad_Body :: string
  ad_RemoteAddr :: string

definition first_value :: "(string \<times> string) list \<Rightarrow> string \<Rightarrow> string" where
  "first_value vs name = (case map_of vs name of None \<Rightarrow> [] | Some v \<Rightarrow> v)"

record AuthCookie =
  ac_Value :: string
  ac_MaxAge :: goint
  ac_Secure :: bool

record SessionInfo =
  sn_enabled :: bool
  sn_authenticated :: bool
  sn_name :: string
  sn_role :: string

datatype 'b admin_body =
    AuthError string
  | AuthPage string
  | LoginPage string string
  | Session SessionInfo
  | EmptyBody
  | ApiBody 'b

record 'b AdminResponse =
  ar_Status :: goint
  ar_Location :: "string option"
  ar_SetCookie :: "AuthCookie list"
  ar_Body :: "'b admin_body"

definition reply_with :: "goint \<Rightarrow> 'b admin_body \<Rightarrow> 'b AdminResponse" where
  "reply_with status body = \<lparr>ar_Status = status, ar_Location = None, ar_SetCookie = [], ar_Body = body\<rparr>"

definition redirect_to :: "string \<Rightarrow> 'b AdminResponse" where
  "redirect_to target = \<lparr>ar_Status = 303, ar_Location = Some target, ar_SetCookie = [], ar_Body = EmptyBody\<rparr>"

section \<open>Tokens and cookies\<close>

record AuthInfo =
  au_Name :: string
  au_Role :: string

record TokenEntry =
  te_Name :: string
  te_Token :: string
  te_Role :: string

record Authenticator =
  at_bootstrapToken :: string
  at_cookieSigningKey :: string
  at_tokens :: "TokenEntry list"
  at_cookieSecure :: bool

text \<open>
  The encoded MAC of a payload under a key, the parser of URLs (scheme and host), the escaping of a query value, and
  whether a host is the address of the loopback interface.
\<close>

record auth_env =
  av_mac :: "string \<Rightarrow> string \<Rightarrow> string"
  av_parse_url :: "string \<Rightarrow> (string \<times> string) option"
  av_escape :: "string \<Rightarrow> string"
  av_loopback :: "string \<Rightarrow> bool"

definition CookieName :: string where "CookieName = ''aigw''"
definition RoleAdmin :: string where "RoleAdmin = ''admin''"
definition RoleViewer :: string where "RoleViewer = ''viewer''"
definition cookieMaxAge :: duration where "cookieMaxAge = 24 * 3600 * second"

definition known_role :: "string \<Rightarrow> string" where
  "known_role role = (if role \<noteq> RoleAdmin \<and> role \<noteq> RoleViewer then RoleViewer else role)"

definition resolveToken :: "Authenticator \<Rightarrow> string \<Rightarrow> AuthInfo option" where
  "resolveToken a token =
     (if token = at_bootstrapToken a then Some \<lparr>au_Name = ''bootstrap'', au_Role = RoleAdmin\<rparr>
      else map_option (\<lambda>t. \<lparr>au_Name = te_Name t, au_Role = known_role (te_Role t)\<rparr>)
        (find (\<lambda>t. token = te_Token t) (at_tokens a)))"

text \<open>\<open>Time.Unix\<close> and \<open>time.Unix\<close>: seconds since 1970, with the arithmetic of the library's 64-bit seconds.\<close>

definition unix_seconds :: "gotime \<Rightarrow> int" where "unix_seconds t = t div second - 62135596800"
definition unix_time :: "int \<Rightarrow> gotime" where "unix_time s = i64 (s + 62135596800) * second"

definition newPayload :: "gotime \<Rightarrow> string \<Rightarrow> string" where
  "newPayload now role = role @ '':'' @ show_int (unix_seconds now)"

definition cookie_sign :: "auth_env \<Rightarrow> Authenticator \<Rightarrow> string \<Rightarrow> string" where
  "cookie_sign env a payload = payload @ ''.'' @ av_mac env (at_cookieSigningKey a) payload"

definition Login :: "auth_env \<Rightarrow> Authenticator \<Rightarrow> gotime \<Rightarrow> string \<Rightarrow> AuthCookie option" where
  "Login env a now token =
     map_option (\<lambda>info. \<lparr>ac_Value = cookie_sign env a (newPayload now (au_Role info)), ac_MaxAge = cookieMaxAge div second,
       ac_Secure = at_cookieSecure a\<rparr>) (resolveToken a token)"

definition LoginInfo :: "Authenticator \<Rightarrow> string \<Rightarrow> AuthInfo option" where "LoginInfo = resolveToken"

definition Logout :: "Authenticator \<Rightarrow> AuthCookie" where
  "Logout a = \<lparr>ac_Value = [], ac_MaxAge = -1, ac_Secure = at_cookieSecure a\<rparr>"

datatype auth_error = InvalidBearer | NoCredential | MalformedCookie | SignatureMismatch | InvalidTimestamp | CookieExpired

text \<open>The role and the time stamp of a payload; an old payload is a time stamp alone, of an admin.\<close>

definition payload_parts :: "string \<Rightarrow> string \<times> string" where
  "payload_parts payload =
     (case last_colon payload of None \<Rightarrow> (RoleAdmin, payload) | Some i \<Rightarrow> (take i payload, drop (Suc i) payload))"

definition verify_cookie :: "auth_env \<Rightarrow> Authenticator \<Rightarrow> gotime \<Rightarrow> string \<Rightarrow> auth_error + string" where
  "verify_cookie env a now value =
     (case cut_at (CHR ''.'') value of
        (payload, None) \<Rightarrow> Inl MalformedCookie
      | (payload, Some sig) \<Rightarrow>
          if sig \<noteq> av_mac env (at_cookieSigningKey a) payload then Inl SignatureMismatch
          else case payload_parts payload of (role, ts) \<Rightarrow>
            (case Atoi ts of
               None \<Rightarrow> Inl InvalidTimestamp
             | Some issued \<Rightarrow>
                 if cookieMaxAge < time_sub now (unix_time issued) then Inl CookieExpired else Inr (known_role role)))"

definition extractBearer :: "AdminRequest \<Rightarrow> string" where
  "extractBearer r =
     (let h = first_value (ad_Header r) ''Authorization'' in
      if 7 < length h \<and> equal_fold (take 7 h) ''bearer '' then trim_space (drop 7 h) else [])"

definition Authenticate :: "auth_env \<Rightarrow> Authenticator \<Rightarrow> gotime \<Rightarrow> AdminRequest \<Rightarrow> auth_error + AuthInfo" where
  "Authenticate env a now r =
     (let bearer = extractBearer r in
      if bearer \<noteq> [] then (case resolveToken a bearer of None \<Rightarrow> Inl InvalidBearer | Some info \<Rightarrow> Inr info)
      else case map_of (ad_Cookies r) CookieName of
          None \<Rightarrow> Inl NoCredential
        | Some value \<Rightarrow> (case verify_cookie env a now value of
              Inl err \<Rightarrow> Inl err
            | Inr role \<Rightarrow> Inr \<lparr>au_Name = ''cookie-user'', au_Role = role\<rparr>))"

section \<open>The authenticator of the daemon\<close>

definition trim_brackets :: "string \<Rightarrow> string" where
  "trim_brackets s = (let b = (\<lambda>c. c = CHR ''['' \<or> c = CHR '']'') in rev (dropWhile b (rev (dropWhile b s))))"

definition isLoopbackListenAddr :: "auth_env \<Rightarrow> string \<Rightarrow> bool" where
  "isLoopbackListenAddr env address =
     (let addr = trim_space address in
      if addr = [] \<or> prefix '':'' addr then False
      else case (if CHR '':'' \<in> set addr then SplitHostPort_host addr else Some addr) of
          None \<Rightarrow> False
        | Some h \<Rightarrow> let host = trim_brackets h in equal_fold host ''localhost'' \<or> av_loopback env host)"

text \<open>The current configuration, or that it cannot be read; without one, or without admin access, nothing is checked.\<close>

definition currentAuthenticator :: "auth_env \<Rightarrow> string \<Rightarrow> 'e + Config option \<Rightarrow> 'e + Authenticator option" where
  "currentAuthenticator env listen current =
     (case current of
        Inl err \<Rightarrow> Inl err
      | Inr None \<Rightarrow> Inr None
      | Inr (Some cfg) \<Rightarrow>
          let admin = cfg_Admin cfg in
          if \<not> adm_Enabled admin then Inr None
          else Inr (Some \<lparr>at_bootstrapToken = adm_BootstrapToken admin, at_cookieSigningKey = adm_CookieSigningKey admin,
            at_tokens = map (\<lambda>t. \<lparr>te_Name = tok_Name t, te_Token = tok_Token t, te_Role = tok_Role t\<rparr>) (adm_Tokens admin),
            at_cookieSecure = (\<not> isLoopbackListenAddr env listen)\<rparr>))"

section \<open>The middleware\<close>

definition read_method :: "string \<Rightarrow> bool" where
  "read_method m \<longleftrightarrow> m = ''GET'' \<or> m = ''HEAD'' \<or> m = ''OPTIONS''"

definition isCookieAuthenticated :: "AdminRequest \<Rightarrow> bool" where
  "isCookieAuthenticated r \<longleftrightarrow> list_ex (\<lambda>(name, v). name = ''aigw'') (ad_Cookies r)"

definition isSameOriginWriteRequired :: "string \<Rightarrow> string \<Rightarrow> bool" where
  "isSameOriginWriteRequired path m \<longleftrightarrow> \<not> read_method m \<and>
     list_ex (\<lambda>p. prefix p path) [''/api/admin/config'', ''/api/admin/upstreams'', ''/api/admin/pricing/refresh'', ''/api/admin/runtime/preflight'',
       ''/api/admin/update/'', ''/api/admin/probe/'', ''/api/admin/replay'', ''/api/admin/benchmark/baselines/import'', ''/api/admin/benchmark/runs'']"

definition firstForwardedValue :: "string \<Rightarrow> string" where
  "firstForwardedValue v = trim_space (fst (cut_at (CHR '','') v))"

definition requestHostForSameOrigin :: "AdminRequest \<Rightarrow> string" where
  "requestHostForSameOrigin r =
     (let forwarded = firstForwardedValue (first_value (ad_Header r) ''X-Forwarded-Host'') in
      if forwarded \<noteq> [] then forwarded else trim_space (ad_Host r))"

definition requestSchemeForSameOrigin :: "AdminRequest \<Rightarrow> string" where
  "requestSchemeForSameOrigin r =
     (let forwarded = firstForwardedValue (first_value (ad_Header r) ''X-Forwarded-Proto'') in
      if forwarded \<noteq> [] then to_lower forwarded else if ad_TLS r then ''https'' else ''http'')"

definition defaultPortForScheme :: "string \<Rightarrow> string" where
  "defaultPortForScheme scheme = (if to_lower (trim_space scheme) = ''https'' then ''443'' else ''80'')"

definition splitOriginHostPort :: "string \<Rightarrow> string \<Rightarrow> string \<times> string" where
  "splitOriginHostPort hostport scheme =
     (let hp = trim_space hostport in
      if hp = [] then ([], defaultPortForScheme scheme)
      else case (SplitHostPort_host hp, last_colon hp) of
          (Some host, Some i) \<Rightarrow> (trim_brackets host, drop (Suc i) hp)
        | _ \<Rightarrow> (trim_brackets hp, defaultPortForScheme scheme))"

definition isSameOrigin :: "auth_env \<Rightarrow> string \<Rightarrow> string \<Rightarrow> string \<Rightarrow> bool" where
  "isSameOrigin env rawURL expectedHost expectedScheme =
     (case av_parse_url env rawURL of
        None \<Rightarrow> False
      | Some (scheme, host) \<Rightarrow>
          equal_fold scheme expectedScheme \<and>
          (case (splitOriginHostPort host expectedScheme, splitOriginHostPort expectedHost expectedScheme) of
             ((actualName, actualPort), (expectedName, expectedPort)) \<Rightarrow>
               actualPort = expectedPort \<and> equal_fold actualName expectedName))"

definition isValidSameOriginRequest :: "auth_env \<Rightarrow> AdminRequest \<Rightarrow> bool" where
  "isValidSameOriginRequest env r =
     (let expectedHost = requestHostForSameOrigin r; expectedScheme = requestSchemeForSameOrigin r;
          origin = first_value (ad_Header r) ''Origin''; referer = first_value (ad_Header r) ''Referer'' in
      if expectedHost = [] \<or> expectedScheme = [] then False
      else if origin \<noteq> [] then isSameOrigin env origin expectedHost expectedScheme
      else if referer \<noteq> [] then isSameOrigin env referer expectedHost expectedScheme
      else False)"

definition canAccessAdminRoute :: "string \<Rightarrow> string \<Rightarrow> bool" where
  "canAccessAdminRoute role m \<longleftrightarrow> role = RoleAdmin \<or> role = RoleViewer \<and> read_method m"

definition isBrowserAdminPath :: "string \<Rightarrow> bool" where
  "isBrowserAdminPath path \<longleftrightarrow> path = ''/admin'' \<or> prefix ''/admin/'' path"

definition isPublicAdminShellRequest :: "AdminRequest \<Rightarrow> bool" where
  "isPublicAdminShellRequest r \<longleftrightarrow> isBrowserAdminPath (ad_Path r) \<and> read_method (ad_Method r)"

definition buildAdminLoginURL :: "auth_env \<Rightarrow> string \<Rightarrow> string" where
  "buildAdminLoginURL env target =
     (if trim_space target \<noteq> [] then ''/admin/login?next='' @ av_escape env target else ''/admin/login'')"

definition defaultAdminNext :: "string \<Rightarrow> string" where
  "defaultAdminNext target =
     (let n = trim_space target in
      if n = [] \<or> \<not> prefix ''/'' n \<or> prefix ''//'' n \<or> prefix ''/admin/login'' n then ''/admin'' else n)"

definition writeAdminAuthError :: "AdminRequest \<Rightarrow> goint \<Rightarrow> string \<Rightarrow> 'b AdminResponse" where
  "writeAdminAuthError r status message =
     reply_with status (if prefix ''/api/admin/'' (ad_Path r) then AuthError message else AuthPage message)"

text \<open>
  The middleware around a handler, which gets the role of the request: none is given when nothing was checked. A
  handler works on a state.
\<close>

type_synonym ('b, 's) admin_handler = "string \<Rightarrow> AdminRequest \<Rightarrow> 's \<Rightarrow> 'b AdminResponse \<times> 's"

definition adminAuthMiddleware ::
  "auth_env \<Rightarrow> gotime \<Rightarrow> 'e + Authenticator option \<Rightarrow> ('b, 's) admin_handler \<Rightarrow> AdminRequest \<Rightarrow> 's \<Rightarrow> 'b AdminResponse \<times> 's" where
  "adminAuthMiddleware env now authenticator handler r s =
     (case authenticator of
        Inl err \<Rightarrow> (writeAdminAuthError r 503 ''admin auth unavailable'', s)
      | Inr None \<Rightarrow> handler [] r s
      | Inr (Some a) \<Rightarrow>
          (case Authenticate env a now r of
             Inl err \<Rightarrow>
               if isPublicAdminShellRequest r then handler [] r s
               else if isBrowserAdminPath (ad_Path r) then (redirect_to (buildAdminLoginURL env (ad_URI r)), s)
               else (writeAdminAuthError r 401 ''authentication required'', s)
           | Inr info \<Rightarrow>
               if isCookieAuthenticated r \<and> isSameOriginWriteRequired (ad_Path r) (ad_Method r) \<and> \<not> isValidSameOriginRequest env r
               then (writeAdminAuthError r 403 ''same-origin check failed'', s)
               else if \<not> canAccessAdminRoute (au_Role info) (ad_Method r)
               then (writeAdminAuthError r 403 ''insufficient admin privileges'', s)
               else handler (au_Role info) r s))"

section \<open>Login, logout and session\<close>

definition login_page :: "goint \<Rightarrow> string \<Rightarrow> string \<Rightarrow> 'b AdminResponse" where
  "login_page status message target = reply_with status (LoginPage message (defaultAdminNext target))"

text \<open>The page; the cookie is set only by a valid token.\<close>

definition adminLoginPageHandler :: "auth_env \<Rightarrow> gotime \<Rightarrow> 'e + Authenticator option \<Rightarrow> AdminRequest \<Rightarrow> 'b AdminResponse" where
  "adminLoginPageHandler env now authenticator r =
     (case authenticator of
        Inl err \<Rightarrow> reply_with 503 (AuthPage ''admin auth unavailable'')
      | Inr None \<Rightarrow> redirect_to ''/admin''
      | Inr (Some a) \<Rightarrow>
          (case Authenticate env a now r of
             Inr info \<Rightarrow> redirect_to (defaultAdminNext (first_value (ad_Query r) ''next''))
           | Inl err \<Rightarrow>
               if ad_Method r = ''GET'' then login_page 200 [] (first_value (ad_Query r) ''next'')
               else if ad_Method r = ''POST'' then
                 let target = first_value (snd (ad_Form r)) ''next'' in
                 if \<not> fst (ad_Form r) then login_page 400 ''invalid form submission'' target
                 else (case Login env a now (trim_space (first_value (snd (ad_Form r)) ''token'')) of
                     None \<Rightarrow> login_page 401 ''invalid token'' target
                   | Some cookie \<Rightarrow> (redirect_to (defaultAdminNext target))\<lparr>ar_SetCookie := [cookie]\<rparr>)
               else reply_with 405 (AuthPage ''method not allowed'')))"

definition logout_cookies :: "'e + Authenticator option \<Rightarrow> AuthCookie list" where
  "logout_cookies authenticator = (case authenticator of Inr (Some a) \<Rightarrow> [Logout a] | _ \<Rightarrow> [])"

definition adminBrowserLogoutHandler :: "'e + Authenticator option \<Rightarrow> 'b AdminResponse" where
  "adminBrowserLogoutHandler authenticator = (redirect_to ''/admin/login'')\<lparr>ar_SetCookie := logout_cookies authenticator\<rparr>"

text \<open>An event for the audit log, as the login and the handlers of the API make it; the log completes it.\<close>

definition audit_event :: "string \<Rightarrow> AdminRequest \<Rightarrow> string \<Rightarrow> string \<Rightarrow> bool \<Rightarrow> string \<Rightarrow> (string \<times> json) list \<Rightarrow> AuditEvent" where
  "audit_event role r action resource success err details =
     \<lparr>ev_ID = [], ev_Time = 0, ev_Actor = (if role = [] then ''anonymous'' else role), ev_Role = role, ev_Source = ad_RemoteAddr r,
       ev_Action = action, ev_Resource = resource, ev_Success = success, ev_Error = err, ev_RequestID = [], ev_Details = details\<rparr>"

definition session_body :: "bool \<Rightarrow> bool \<Rightarrow> string \<Rightarrow> string \<Rightarrow> 'b AdminResponse" where
  "session_body enabled authenticated name role =
     reply_with 200 (Session \<lparr>sn_enabled = enabled, sn_authenticated = authenticated, sn_name = name, sn_role = role\<rparr>)"

text \<open>
  The token of the body (\<open>None\<close> when it is not valid JSON for a login); the response and the event that is recorded.
  The token is looked up without its surrounding space, but the login that follows takes it as it came.
\<close>

definition login_token :: "json \<Rightarrow> string option" where
  "login_token v = set_struct (each_field ''token'' set_string) v []"

definition adminLoginAPIHandler ::
  "auth_env \<Rightarrow> gotime \<Rightarrow> 'e + Authenticator option \<Rightarrow> string option \<Rightarrow> AdminRequest \<Rightarrow> 'b AdminResponse \<times> AuditEvent option" where
  "adminLoginAPIHandler env now authenticator body r =
     (if ad_Method r \<noteq> ''POST'' then (writeAdminAuthError r 405 ''method not allowed'', None)
      else case authenticator of
          Inl err \<Rightarrow> (writeAdminAuthError r 503 ''admin auth unavailable'', None)
        | Inr None \<Rightarrow> (writeAdminAuthError r 404 ''admin auth disabled'', None)
        | Inr (Some a) \<Rightarrow>
            (case body of
               None \<Rightarrow> (writeAdminAuthError r 400 ''invalid request body'', None)
             | Some token \<Rightarrow>
                 (case LoginInfo a (trim_space token) of
                    None \<Rightarrow> (writeAdminAuthError r 401 ''invalid token'', Some (audit_event [] r ''auth.login'' ''admin'' False ''invalid token'' []))
                  | Some info \<Rightarrow>
                      (case Login env a now token of
                         None \<Rightarrow> (writeAdminAuthError r 401 ''invalid token'',
                           Some (audit_event [] r ''auth.login'' (au_Name info) False ''invalid token'' []))
                       | Some cookie \<Rightarrow> ((session_body True True (au_Name info) (au_Role info))\<lparr>ar_SetCookie := [cookie]\<rparr>,
                           Some (audit_event [] r ''auth.login'' (au_Name info) True [] [(''role'', JString (au_Role info))]))))))"

definition adminLogoutAPIHandler :: "'e + Authenticator option \<Rightarrow> AdminRequest \<Rightarrow> 'b AdminResponse \<times> AuditEvent option" where
  "adminLogoutAPIHandler authenticator r =
     (if ad_Method r \<noteq> ''POST'' then (writeAdminAuthError r 405 ''method not allowed'', None)
      else ((session_body True False [] [])\<lparr>ar_SetCookie := logout_cookies authenticator\<rparr>,
        Some (audit_event [] r ''auth.logout'' ''admin'' True [] [])))"

definition adminSessionAPIHandler :: "auth_env \<Rightarrow> gotime \<Rightarrow> 'e + Authenticator option \<Rightarrow> AdminRequest \<Rightarrow> 'b AdminResponse" where
  "adminSessionAPIHandler env now authenticator r =
     (if ad_Method r \<noteq> ''GET'' then writeAdminAuthError r 405 ''method not allowed''
      else case authenticator of
          Inl err \<Rightarrow> writeAdminAuthError r 503 ''admin auth unavailable''
        | Inr None \<Rightarrow> session_body False True [] RoleAdmin
        | Inr (Some a) \<Rightarrow>
            (case Authenticate env a now r of
               Inl err \<Rightarrow> session_body True False [] []
             | Inr info \<Rightarrow> session_body True True (au_Name info) (au_Role info)))"

end
