(* ===== verification/Admin_Api.thy ===== *)
theory Admin_Api
  imports Publisher Update_Apply Admin_Auth "HOL-Library.AList"
begin

text \<open>
  The handlers of the admin API that read and change the configuration (\<open>internal/control/api/routes.go\<close>, \<open>ops.go\<close>), with
  the adapters of the control daemon behind them (\<open>cmd/controld/adapters.go\<close>, \<open>config_tools.go\<close>, \<open>daemon.go\<close>).
\<close>

section \<open>What the handlers work on\<close>

text \<open>
  The state: the publisher, whose world the clock and the other processes share, the update manager and the lines of
  the audit log, where there are any.
\<close>

record 'w control_plane =
  cpl_publisher :: "'w Publisher"
  cpl_updates :: "Manager option"
  cpl_audit :: "string list option"

text \<open>A body of a request, read as JSON; \<open>NoBody\<close> is the end of the input before any value.\<close>

datatype body_read = NoBody | BadBody | JsonBody json

text \<open>The calls of the operating system that replace a file; a call that fails gives the text of its error.\<close>

record 'w os_calls =
  os_mkdir_all :: "string \<Rightarrow> 'w \<Rightarrow> string option \<times> 'w"
  os_create_temp :: "string \<Rightarrow> string \<Rightarrow> 'w \<Rightarrow> (string + string) \<times> 'w"
  os_write :: "string \<Rightarrow> string \<Rightarrow> 'w \<Rightarrow> string option \<times> 'w"
  os_close :: "string \<Rightarrow> 'w \<Rightarrow> string option \<times> 'w"
  os_rename :: "string \<Rightarrow> string \<Rightarrow> 'w \<Rightarrow> string option \<times> 'w"
  os_remove :: "string \<Rightarrow> 'w \<Rightarrow> 'w"

text \<open>The paths and addresses of the daemon, which the diagnostics show.\<close>

record control_settings =
  cs_Version :: string
  cs_ConfigPath :: string
  cs_DataDir :: string
  cs_Listen :: string
  cs_GatewaySocket :: string
  cs_TelemetrySocket :: string
  cs_StartedAt :: gotime

text \<open>
  The libraries and the other parts the handlers use: the texts of errors, JSON, YAML and times, the files, and whether the
  gateway is connected.
\<close>

record 'w admin_env =
  am_settings :: control_settings
  am_auth :: auth_env
  am_audit :: audit_env
  am_writable :: "'w \<Rightarrow> bool"
  am_update :: update_env
  am_control :: "'w control"
  am_os :: "'w os_calls"
  am_body :: "string \<Rightarrow> body_read"
  am_input :: "json \<Rightarrow> config_input"
  am_yaml :: "json \<Rightarrow> string + string"
  am_config_json :: "Config \<Rightarrow> (string \<times> json) list"
  am_publish_text :: "publish_error \<Rightarrow> string"
  am_manager_text :: "manager_error \<Rightarrow> string"
  am_update_text :: "update_error \<Rightarrow> string"
  am_load_config :: "string \<Rightarrow> 'w \<Rightarrow> (string + Config) \<times> 'w"
  am_mod_time :: "string \<Rightarrow> 'w \<Rightarrow> gotime option \<times> 'w"
  am_hash :: "Config \<Rightarrow> string + string"
  am_gateway_up :: "'w \<Rightarrow> bool"
  am_parse_time :: "string \<Rightarrow> gotime option"
  am_format_time :: "gotime \<Rightarrow> string"
  am_show_duration :: "duration \<Rightarrow> string"

definition on_plane :: "('w \<Rightarrow> 'a \<times> 'w) \<Rightarrow> 'w control_plane \<Rightarrow> 'a \<times> 'w control_plane" where
  "on_plane f s = (case on_pb_world f (cpl_publisher s) of (a, p) \<Rightarrow> (a, s\<lparr>cpl_publisher := p\<rparr>))"

definition on_publisher :: "('w Publisher \<Rightarrow> 'a \<times> 'w Publisher) \<Rightarrow> 'w control_plane \<Rightarrow> 'a \<times> 'w control_plane" where
  "on_publisher f s = (case f (cpl_publisher s) of (a, p) \<Rightarrow> (a, s\<lparr>cpl_publisher := p\<rparr>))"

definition world_of :: "'w control_plane \<Rightarrow> 'w" where "world_of s = pb_world (cpl_publisher s)"

text \<open>\<open>filepath.Dir\<close>, \<open>filepath.Base\<close> and \<open>strings.Join\<close>.\<close>

definition Dir :: "string \<Rightarrow> string" where "Dir p = Clean (rev (dropWhile (\<lambda>c. c \<noteq> slash) (rev p)))"

definition Base :: "string \<Rightarrow> string" where
  "Base p =
     (if p = [] then dot
      else let q = dropWhile (\<lambda>c. c = slash) (rev p) in if q = [] then [slash] else rev (takeWhile (\<lambda>c. c \<noteq> slash) q))"

fun join_text :: "string \<Rightarrow> string list \<Rightarrow> string" where
  "join_text sep [] = []"
| "join_text sep [w] = w"
| "join_text sep (w # v # ws) = w @ sep @ join_text sep (v # ws)"

section \<open>Answers\<close>

record ConfigPreviewResponse =
  cpr_Valid :: bool
  cpr_Errors :: "string list"
  cpr_Warnings :: "string list"
  cpr_RevisionID :: string
  cpr_SnapshotSchemaVersion :: goint
  cpr_CompilerVersion :: string
  cpr_IngressListen :: string
  cpr_ProviderCount :: goint
  cpr_EnabledProviderCount :: goint
  cpr_Models :: "string list"
  cpr_EnabledRoutes :: "string list"
  cpr_PricingSources :: "(string \<times> string) list"

record ConfigDiffResponse =
  cdr_FromRevisionID :: string
  cdr_ToRevisionID :: string
  cdr_Changes :: "DiffChange list"

record ProbeResult =
  prb_Diagnostic :: bool
  prb_ProviderID :: string
  prb_Model :: string
  prb_StatusCode :: goint
  prb_LatencyMs :: goint
  prb_Healthy :: bool
  prb_Error :: string
  prb_ResponseExcerpt :: string
  prb_Headers :: "(string \<times> string) list"
  prb_ProbedAt :: gotime

record secretStatusItem =
  ssi_Name :: string
  ssi_Kind :: string
  ssi_Present :: bool
  ssi_Reference :: string

datatype api_body =
    ErrorText string
  | RpcBody json
  | ViewBody CurrentConfigView
  | HistoryBody "RevisionInfo list"
  | PublishBody PublishResult
  | ValidationBody ConfigValidationResult
  | PreviewBody ConfigPreviewResponse
  | DiffBody ConfigDiffResponse
  | FieldsBody "(string \<times> json) list"
  | PreflightBody bool "(string \<times> bool \<times> string) list"
  | UpdateBody Status
  | AuditBody "AuditEvent list"
  | ProbeBody ProbeResult
  | DiagnosticsBody gotime "(string \<times> json) list" "AuditEvent list"
  | SecretsBody "secretStatusItem list" nat
  | MetricsBody bool bool "goint option"
  | FileBody string

type_synonym 'w api_handler = "(api_body, 'w control_plane) admin_handler"
type_synonym 'w api_result = "api_body AdminResponse \<times> 'w control_plane"

definition writeJSON :: "goint \<Rightarrow> api_body \<Rightarrow> 'w control_plane \<Rightarrow> 'w api_result" where
  "writeJSON status body s = (reply_with status (ApiBody body), s)"

definition admin_error :: "goint \<Rightarrow> string \<Rightarrow> 'w control_plane \<Rightarrow> 'w api_result" where
  "admin_error status message = writeJSON status (ErrorText message)"

definition methodNotAllowed :: "'w control_plane \<Rightarrow> 'w api_result" where
  "methodNotAllowed = admin_error 405 ''method not allowed''"

section \<open>Helpers of the handlers\<close>

definition intQuery :: "AdminRequest \<Rightarrow> string \<Rightarrow> goint \<Rightarrow> goint" where
  "intQuery r key fallback =
     (let raw = trim_space (first_value (ad_Query r) key) in
      if raw = [] then fallback
      else if equal_fold raw ''all'' then 365 * 24
      else case Atoi raw of None \<Rightarrow> fallback | Some v \<Rightarrow> v)"

definition stringListQuery :: "AdminRequest \<Rightarrow> string \<Rightarrow> string list" where
  "stringListQuery r key =
     (let raw = trim_space (first_value (ad_Query r) key) in
      if raw = [] then [] else filter (\<lambda>x. x \<noteq> []) (map trim_space (split_char (CHR '','') raw)))"

definition firstQuery :: "AdminRequest \<Rightarrow> string list \<Rightarrow> string" where
  "firstQuery r keys =
     (case filter (\<lambda>v. v \<noteq> []) (map (\<lambda>k. trim_space (first_value (ad_Query r) k)) keys) of [] \<Rightarrow> [] | v # vs \<Rightarrow> v)"

definition timeQuery :: "'w admin_env \<Rightarrow> AdminRequest \<Rightarrow> string \<Rightarrow> gotime option" where
  "timeQuery env r key =
     (let raw = trim_space (first_value (ad_Query r) key) in if raw = [] then None else am_parse_time env raw)"

definition isRPCDisconnectedError :: "string \<Rightarrow> bool" where
  "isRPCDisconnectedError err =
     (let message = to_lower (trim_space err) in
      message \<noteq> [] \<and> list_ex (str_contains message)
        [''connection is shut down'', ''broken pipe'', ''connection refused'', ''transport is closing'',
         ''use of closed network connection'', ''no such file or directory'', ''connect: cannot assign requested address'',
         ''unexpected eof'', ''eof''])"

definition writeTelemetryError :: "string \<Rightarrow> 'w control_plane \<Rightarrow> 'w api_result" where
  "writeTelemetryError err = (if isRPCDisconnectedError err then admin_error 503 ''telemetry not connected'' else admin_error 500 err)"

definition writeGatewayError :: "string \<Rightarrow> 'w control_plane \<Rightarrow> 'w api_result" where
  "writeGatewayError err = (if isRPCDisconnectedError err then admin_error 503 ''gateway not connected'' else admin_error 500 err)"

definition first_filled :: "string list \<Rightarrow> string" where
  "first_filled vs = (case filter (\<lambda>v. v \<noteq> []) (map trim_space vs) of [] \<Rightarrow> [] | v # _ \<Rightarrow> v)"

text \<open>The decoding of a body into a struct: an error at the end of the input, too, unless the body is optional.\<close>

definition decode_body :: "'w admin_env \<Rightarrow> (json \<Rightarrow> 'a \<Rightarrow> 'a option) \<Rightarrow> 'a \<Rightarrow> AdminRequest \<Rightarrow> 'a option" where
  "decode_body env dec zero r = (case am_body env (ad_Body r) of JsonBody v \<Rightarrow> dec v zero | _ \<Rightarrow> None)"

definition decodeOptionalJSON :: "'w admin_env \<Rightarrow> (json \<Rightarrow> 'a \<Rightarrow> 'a option) \<Rightarrow> 'a \<Rightarrow> AdminRequest \<Rightarrow> 'a option" where
  "decodeOptionalJSON env dec zero r =
     (case am_body env (ad_Body r) of JsonBody v \<Rightarrow> dec v zero | NoBody \<Rightarrow> Some zero | BadBody \<Rightarrow> None)"

text \<open>A field of interface type takes any value; \<open>null\<close> is \<open>nil\<close>.\<close>

definition set_value :: "json \<Rightarrow> json \<Rightarrow> json option" where "set_value v old = Some v"

definition then_field :: "('k \<Rightarrow> 'a \<Rightarrow> 'a option) \<Rightarrow> ('k \<Rightarrow> 'a \<Rightarrow> 'a option) \<Rightarrow> 'k \<Rightarrow> 'a \<Rightarrow> 'a option" where
  "then_field f g kvs a = (case f kvs a of None \<Rightarrow> None | Some a' \<Rightarrow> g kvs a')"

definition on_fst :: "('j \<Rightarrow> 'a \<Rightarrow> 'a option) \<Rightarrow> 'j \<Rightarrow> 'a \<times> 'b \<Rightarrow> ('a \<times> 'b) option" where
  "on_fst f v x = map_option (\<lambda>a. (a, snd x)) (f v (fst x))"

definition on_snd :: "('j \<Rightarrow> 'b \<Rightarrow> 'b option) \<Rightarrow> 'j \<Rightarrow> 'a \<times> 'b \<Rightarrow> ('a \<times> 'b) option" where
  "on_snd f v x = map_option (\<lambda>b. (fst x, b)) (f v (snd x))"

definition set_revision :: "json \<Rightarrow> string \<Rightarrow> string option" where
  "set_revision = set_struct (each_field ''revision_id'' set_string)"

definition set_config :: "json \<Rightarrow> json \<Rightarrow> json option" where
  "set_config = set_struct (each_field ''config'' set_value)"

definition set_config_text :: "string \<Rightarrow> json \<Rightarrow> json \<times> string \<Rightarrow> (json \<times> string) option" where
  "set_config_text name =
     set_struct (then_field (each_field ''config'' (on_fst set_value)) (each_field name (on_snd set_string)))"

text \<open>An event for the audit log, if there is one; an event that cannot be written is lost.\<close>

definition recordAudit ::
  "'w admin_env \<Rightarrow> string \<Rightarrow> AdminRequest \<Rightarrow> string \<Rightarrow> string \<Rightarrow> bool \<Rightarrow> string \<Rightarrow> (string \<times> json) list \<Rightarrow> 'w control_plane \<Rightarrow> 'w control_plane" where
  "recordAudit env role r action resource success err details s =
     (case cpl_audit s of
        None \<Rightarrow> s
      | Some lines \<Rightarrow>
          (case on_plane (co_now (am_control env)) s of
             (now, s') \<Rightarrow> s'\<lparr>cpl_audit := Some (snd (audit_Record (am_audit env) now (am_writable env (world_of s'))
               (audit_event role r action resource success err details) lines))\<rparr>))"

text \<open>
  The end of a handler that does something: an error is recorded, with details, and answered with a status; a result is
  recorded as the handler says and answered.
\<close>

definition answer_noting ::
  "(string \<times> json) list \<Rightarrow> 'w admin_env \<Rightarrow> string \<Rightarrow> AdminRequest \<Rightarrow> string \<Rightarrow> string \<Rightarrow> goint \<Rightarrow>
     ('a \<Rightarrow> string \<times> bool \<times> string \<times> (string \<times> json) list) \<Rightarrow> ('a \<Rightarrow> api_body) \<Rightarrow> (string + 'a) \<times> 'w control_plane \<Rightarrow> 'w api_result" where
  "answer_noting noted env role r action resource status event body outcome =
     (case outcome of
        (Inl err, s) \<Rightarrow> admin_error status err (recordAudit env role r action resource False err noted s)
      | (Inr a, s) \<Rightarrow>
          (case event a of (about, success, err, details) \<Rightarrow>
             writeJSON 200 (body a) (recordAudit env role r action about success err details s)))"

abbreviation answered where "answered \<equiv> answer_noting []"

text \<open>The text of an error of the publisher.\<close>

definition publish_text :: "'w admin_env \<Rightarrow> (publish_error + 'a) \<times> 's \<Rightarrow> (string + 'a) \<times> 's" where
  "publish_text env = (\<lambda>(res, s). (case res of Inl e \<Rightarrow> Inl (am_publish_text env e) | Inr a \<Rightarrow> Inr a, s))"

definition result_event :: "string \<Rightarrow> PublishResult \<Rightarrow> string \<times> bool \<times> string \<times> (string \<times> json) list" where
  "result_event resource result = (resource, pres_Success result, pres_ErrorMessage result, [])"

section \<open>The commands behind the handlers\<close>

text \<open>
  The authoring file is replaced by renaming a file that was written beside it; on a failure that file is removed.
\<close>

definition discard_temp :: "'w os_calls \<Rightarrow> string \<Rightarrow> string \<Rightarrow> 'w \<Rightarrow> string option \<times> 'w" where
  "discard_temp os tmp err w = (Some err, os_remove os tmp w)"

definition replace_file :: "'w os_calls \<Rightarrow> string \<Rightarrow> string \<Rightarrow> 'w \<Rightarrow> string option \<times> 'w" where
  "replace_file os path text w =
     (case os_create_temp os (Dir path) (CHR ''.'' # Base path @ ''.tmp-*'') w of
        (Inl err, w1) \<Rightarrow> (Some (''create authoring config temp file: '' @ err), w1)
      | (Inr tmp, w1) \<Rightarrow>
          (case os_write os tmp text w1 of
             (Some err, w2) \<Rightarrow> discard_temp os tmp (''write authoring config temp file: '' @ err) (snd (os_close os tmp w2))
           | (None, w2) \<Rightarrow>
               (case os_close os tmp w2 of
                  (Some err, w3) \<Rightarrow> discard_temp os tmp (''close authoring config temp file: '' @ err) w3
                | (None, w3) \<Rightarrow>
                    (case os_rename os tmp path w3 of
                       (Some err, w4) \<Rightarrow> discard_temp os tmp (''replace authoring config: '' @ err) w4
                     | (None, w4) \<Rightarrow> (None, w4)))))"

definition persistAuthoringConfig :: "'w admin_env \<Rightarrow> string \<Rightarrow> json \<Rightarrow> 'w \<Rightarrow> string option \<times> 'w" where
  "persistAuthoringConfig env configPath cfg w =
     (let path = trim_space configPath in
      if path = [] then (None, w)
      else case am_yaml env cfg of
          Inl err \<Rightarrow> (Some (''marshal authoring config: '' @ err), w)
        | Inr text \<Rightarrow>
            (case os_mkdir_all (am_os env) (Dir path) w of
               (Some err, w1) \<Rightarrow> (Some (''create authoring config directory: '' @ err), w1)
             | (None, w1) \<Rightarrow> replace_file (am_os env) path text w1))"

definition commands_UpdateConfig ::
  "'w admin_env \<Rightarrow> json \<Rightarrow> string \<Rightarrow> 'w control_plane \<Rightarrow> (string + PublishResult) \<times> 'w control_plane" where
  "commands_UpdateConfig env cfg description s =
     (case publish_text env (on_publisher (UpdateConfig (am_control env) (am_input env cfg) description) s) of
        (Inl err, s1) \<Rightarrow> (Inl err, s1)
      | (Inr result, s1) \<Rightarrow>
          if \<not> pres_Success result then (Inr result, s1)
          else case on_plane (persistAuthoringConfig env (cs_ConfigPath (am_settings env)) cfg) s1 of
              (Some err, s2) \<Rightarrow> (Inl err, s2)
            | (None, s2) \<Rightarrow> (Inr result, s2))"

text \<open>The identifier is a digest of the normalised configuration.\<close>

definition revisionIDFromConfig :: "'w admin_env \<Rightarrow> Config \<Rightarrow> string + string" where
  "revisionIDFromConfig env cfg =
     (case am_hash env (Normalize cfg) of
        Inl err \<Rightarrow> Inl (''marshal config revision: '' @ err)
      | Inr digest \<Rightarrow> Inr (''rev_'' @ digest))"

definition loadInitialRevision :: "'w admin_env \<Rightarrow> string \<Rightarrow> 'w control_plane \<Rightarrow> (string + Revision) \<times> 'w control_plane" where
  "loadInitialRevision env configPath s =
     (let path = Clean configPath in
      case on_plane (am_load_config env path) s of
        (Inl err, s1) \<Rightarrow> (Inl (''load config '' @ path @ '': '' @ err), s1)
      | (Inr cfg, s1) \<Rightarrow>
          (case revisionIDFromConfig env cfg of
             Inl err \<Rightarrow> (Inl err, s1)
           | Inr revisionID \<Rightarrow>
               (case on_plane (co_now (am_control env)) s1 of (now, s2) \<Rightarrow>
                (case on_plane (am_mod_time env path) s2 of (modified, s3) \<Rightarrow>
                  (Inr \<lparr>rv_RevisionID = revisionID, rv_CreatedAt = (case modified of None \<Rightarrow> now | Some t \<Rightarrow> t), rv_CreatedBy = ''system'',
                     rv_Description = ''seeded from '' @ path, rv_Config = Some cfg, rv_Snapshot = None\<rparr>, s3)))))"

text \<open>The revision becomes the active one before it is published; without a gateway it is not published.\<close>

definition applyWatchedRevision ::
  "'w admin_env \<Rightarrow> Revision \<Rightarrow> 'w control_plane \<Rightarrow> (string + PublishResult) \<times> 'w control_plane" where
  "applyWatchedRevision env revision s =
     (case on_publisher (UpsertRevision (am_control env) revision True) s of
        (Some e, s1) \<Rightarrow> (Inl (am_publish_text env e), s1)
      | (None, s1) \<Rightarrow>
          if \<not> am_gateway_up env (world_of s1)
          then (Inr \<lparr>pres_Success = True, pres_SnapshotID = [], pres_RevisionID = rv_RevisionID revision, pres_PublishedAt = 0,
            pres_ErrorMessage = []\<rparr>, s1)
          else case publish_text env (on_publisher (Publish (am_control env) (rv_RevisionID revision)) s1) of
              (Inl err, s2) \<Rightarrow> (Inl err, s2)
            | (Inr result, s2) \<Rightarrow>
                if pres_Success result then (Inr result, s2)
                else (Inl (''publish '' @ rv_RevisionID revision @ '' failed: '' @ pres_ErrorMessage result), s2))"

definition reloadConfigFromSource :: "'w admin_env \<Rightarrow> 'w control_plane \<Rightarrow> (string + PublishResult) \<times> 'w control_plane" where
  "reloadConfigFromSource env s =
     (if trim_space (cs_ConfigPath (am_settings env)) = [] then (Inl ''config path is not configured'', s)
      else case loadInitialRevision env (cs_ConfigPath (am_settings env)) s of
          (Inl err, s1) \<Rightarrow> (Inl err, s1)
        | (Inr revision, s1) \<Rightarrow> applyWatchedRevision env revision s1)"

section \<open>Reading and changing the configuration\<close>

definition configHandler :: "'w admin_env \<Rightarrow> 'w api_handler" where
  "configHandler env role r s =
     (if ad_Method r = ''GET''
      then let view = GetCurrentConfigView (co_codec (am_control env)) (cpl_publisher s) in
        writeJSON 200 (ViewBody (if role \<noteq> [] \<and> role \<noteq> RoleAdmin then view\<lparr>ccv_Config := None, ccv_RawYAML := []\<rparr> else view)) s
      else methodNotAllowed s)"

definition configHistoryHandler :: "'w admin_env \<Rightarrow> 'w api_handler" where
  "configHistoryHandler env role r s =
     (if ad_Method r \<noteq> ''GET'' then methodNotAllowed s else writeJSON 200 (HistoryBody (GetHistory 50 (cpl_publisher s))) s)"

definition configPublishHandler :: "'w admin_env \<Rightarrow> 'w api_handler" where
  "configPublishHandler env role r s =
     (if ad_Method r \<noteq> ''POST'' then methodNotAllowed s
      else case decode_body env set_revision [] r of
          None \<Rightarrow> admin_error 400 ''invalid request body'' s
        | Some revisionID \<Rightarrow> answered env role r ''config.publish'' revisionID 500 (result_event revisionID) PublishBody
            (publish_text env (on_publisher (Publish (am_control env) revisionID) s)))"

definition configReloadHandler :: "'w admin_env \<Rightarrow> 'w api_handler" where
  "configReloadHandler env role r s =
     (if ad_Method r \<noteq> ''POST'' then methodNotAllowed s
      else answered env role r ''config.reload'' ''source'' 500 (result_event ''source'') PublishBody (reloadConfigFromSource env s))"

definition configRollbackHandler :: "'w admin_env \<Rightarrow> 'w api_handler" where
  "configRollbackHandler env role r s =
     (if ad_Method r \<noteq> ''POST'' then methodNotAllowed s
      else case decode_body env set_revision [] r of
          None \<Rightarrow> admin_error 400 ''invalid request body'' s
        | Some revisionID \<Rightarrow> answered env role r ''config.rollback'' revisionID 500 (result_event revisionID) PublishBody
            (publish_text env (on_publisher (Rollback (am_control env) revisionID) s)))"

definition validation_event :: "'w admin_env \<Rightarrow> ConfigValidationResult \<Rightarrow> string \<times> bool \<times> string \<times> (string \<times> json) list" where
  "validation_event env result =
     (''draft'', cvr_Valid result, join_text ''; '' (map (am_publish_text env) (cvr_Errors result)), [])"

definition configValidateHandler :: "'w admin_env \<Rightarrow> 'w api_handler" where
  "configValidateHandler env role r s =
     (if ad_Method r \<noteq> ''POST'' then methodNotAllowed s
      else case decode_body env set_config JNull r of
          None \<Rightarrow> admin_error 400 ''invalid request body'' s
        | Some cfg \<Rightarrow>
            if cfg = JNull then admin_error 400 ''config is required'' s
            else answered env role r ''config.validate'' ''draft'' 500 (validation_event env) ValidationBody
              (publish_text env (on_publisher (ValidateConfig (am_control env) (am_input env cfg)) s)))"

definition update_event :: "string \<Rightarrow> PublishResult \<Rightarrow> string \<times> bool \<times> string \<times> (string \<times> json) list" where
  "update_event description result =
     (pres_RevisionID result, pres_Success result, pres_ErrorMessage result, [(''description'', JString description)])"

definition configUpdateHandler :: "'w admin_env \<Rightarrow> 'w api_handler" where
  "configUpdateHandler env role r s =
     (if ad_Method r \<noteq> ''POST'' then methodNotAllowed s
      else case decode_body env (set_config_text ''description'') (JNull, []) r of
          None \<Rightarrow> admin_error 400 ''invalid request body'' s
        | Some (cfg, description) \<Rightarrow>
            if cfg = JNull then admin_error 400 ''config is required'' s
            else answered env role r ''config.update'' ''draft'' 500 (update_event description) PublishBody
              (commands_UpdateConfig env cfg description s))"

section \<open>Preview and difference\<close>

definition decodeToolConfig :: "'w admin_env \<Rightarrow> json \<Rightarrow> string + Config" where
  "decodeToolConfig env raw =
     (case am_yaml env raw of
        Inl err \<Rightarrow> Inl (''marshal config: '' @ err)
      | Inr text \<Rightarrow> (case cd_dec_config (co_codec (am_control env)) text of
            Inl err \<Rightarrow> Inl (''unmarshal config: '' @ err)
          | Inr cfg \<Rightarrow> Inr (Normalize cfg)))"

text \<open>The configuration of a revision, or of the active one when none is named.\<close>

definition loadBaseConfig :: "'w admin_env \<Rightarrow> string \<Rightarrow> 'w control_plane \<Rightarrow> string + Config \<times> string" where
  "loadBaseConfig env given s =
     (let revisionID = trim_space given; cd = co_codec (am_control env); p = cpl_publisher s in
      if revisionID \<noteq> []
      then case LoadRevisionConfig cd revisionID p of
          Inl e \<Rightarrow> Inl (am_publish_text env e)
        | Inr None \<Rightarrow> Inl (''revision not found: '' @ revisionID)
        | Inr (Some cfg) \<Rightarrow> Inr (cfg, revisionID)
      else case GetCurrentConfig cd p of
          Inl e \<Rightarrow> Inl (am_publish_text env e)
        | Inr None \<Rightarrow> Inl ''active config not found''
        | Inr (Some cfg) \<Rightarrow> Inr (cfg, case GetCurrentRevision p of None \<Rightarrow> [] | Some info \<Rightarrow> ri_RevisionID info))"

definition loadConfigForTools :: "'w admin_env \<Rightarrow> json \<Rightarrow> string \<Rightarrow> 'w control_plane \<Rightarrow> string + Config \<times> string" where
  "loadConfigForTools env raw revisionID s =
     (if raw \<noteq> JNull then (case decodeToolConfig env raw of Inl err \<Rightarrow> Inl err | Inr cfg \<Rightarrow> Inr (cfg, ''draft''))
      else loadBaseConfig env revisionID s)"

text \<open>The public models are sorted, each once; a source that comes later replaces one with its name.\<close>

definition SummarizeSnapshot :: "Snapshot \<Rightarrow> string \<Rightarrow> string list \<Rightarrow> ConfigPreviewResponse" where
  "SummarizeSnapshot snap revisionID warnings =
     \<lparr>cpr_Valid = True, cpr_Errors = [], cpr_Warnings = warnings, cpr_RevisionID = revisionID,
       cpr_SnapshotSchemaVersion = meta_SchemaVersion (snap_Meta snap), cpr_CompilerVersion = meta_CompilerVersion (snap_Meta snap),
       cpr_IngressListen = ing_Listen (snap_Ingress snap), cpr_ProviderCount = int (length (snap_Providers snap)),
       cpr_EnabledProviderCount = int (length (filter (\<lambda>p. ep_Enabled (ps_ExecutionPolicy p)) (snap_Providers snap))),
       cpr_Models = sort (remdups (concat (map (\<lambda>p. map mm_PublicModel (ps_ModelTable p)) (snap_Providers snap)))),
       cpr_EnabledRoutes = con_EnabledRoutes (snap_Contract snap),
       cpr_PricingSources = fold (\<lambda>src. AList.update (psrc_ID src) (psrc_Vendor src)) (pc_Sources (snap_Pricing snap)) []\<rparr>"

definition failed_preview :: "string \<Rightarrow> ConfigPreviewResponse" where
  "failed_preview err = \<lparr>cpr_Valid = False, cpr_Errors = [err], cpr_Warnings = [], cpr_RevisionID = [], cpr_SnapshotSchemaVersion = 0,
     cpr_CompilerVersion = [], cpr_IngressListen = [], cpr_ProviderCount = 0, cpr_EnabledProviderCount = 0, cpr_Models = [],
     cpr_EnabledRoutes = [], cpr_PricingSources = []\<rparr>"

definition PreviewConfig ::
  "'w admin_env \<Rightarrow> json \<times> string \<Rightarrow> 'w control_plane \<Rightarrow> (string + ConfigPreviewResponse) \<times> 'w control_plane" where
  "PreviewConfig env req s =
     (case loadConfigForTools env (fst req) (snd req) s of
        Inl err \<Rightarrow> (Inl err, s)
      | Inr (cfg, revisionID) \<Rightarrow>
          (case publish_text env (on_publisher (compile_config (am_control env) cfg) s) of
             (Inl err, s1) \<Rightarrow> (Inr (failed_preview err), s1)
           | (Inr snap, s1) \<Rightarrow> (Inr (SummarizeSnapshot snap revisionID []), s1)))"

record ConfigDiffRequest =
  dq_From :: string
  dq_To :: string
  dq_Config :: json

definition set_diff_request :: "json \<Rightarrow> ConfigDiffRequest \<Rightarrow> ConfigDiffRequest option" where
  "set_diff_request =
     set_struct (then_field (each_field ''from_revision_id'' (\<lambda>v q. map_option (\<lambda>t. q\<lparr>dq_From := t\<rparr>) (set_string v (dq_From q))))
       (then_field (each_field ''to_revision_id'' (\<lambda>v q. map_option (\<lambda>t. q\<lparr>dq_To := t\<rparr>) (set_string v (dq_To q))))
         (each_field ''config'' (\<lambda>v q. Some (q\<lparr>dq_Config := v\<rparr>)))))"

definition diff_target :: "'w admin_env \<Rightarrow> ConfigDiffRequest \<Rightarrow> 'w control_plane \<Rightarrow> string + Config \<times> string" where
  "diff_target env q s =
     (if dq_Config q \<noteq> JNull
      then (case decodeToolConfig env (dq_Config q) of Inl err \<Rightarrow> Inl err | Inr cfg \<Rightarrow> Inr (cfg, ''draft''))
      else if trim_space (dq_To q) \<noteq> []
      then (case LoadRevisionConfig (co_codec (am_control env)) (dq_To q) (cpl_publisher s) of
          Inl e \<Rightarrow> Inl (am_publish_text env e)
        | Inr None \<Rightarrow> Inl ''target config not found''
        | Inr (Some cfg) \<Rightarrow> Inr (cfg, trim_space (dq_To q)))
      else Inl ''config or to_revision_id is required'')"

definition DiffConfig :: "'w admin_env \<Rightarrow> ConfigDiffRequest \<Rightarrow> 'w control_plane \<Rightarrow> string + ConfigDiffResponse" where
  "DiffConfig env q s =
     (case loadBaseConfig env (dq_From q) s of
        Inl err \<Rightarrow> Inl err
      | Inr (before, fromID) \<Rightarrow>
          (case diff_target env q s of
             Inl err \<Rightarrow> Inl err
           | Inr (after, toID) \<Rightarrow> Inr \<lparr>cdr_FromRevisionID = fromID, cdr_ToRevisionID = toID,
               cdr_Changes = DiffConfigs (am_config_json env before) (am_config_json env after)\<rparr>))"

definition preview_event :: "string \<Rightarrow> ConfigPreviewResponse \<Rightarrow> string \<times> bool \<times> string \<times> (string \<times> json) list" where
  "preview_event revisionID resp =
     (revisionID, cpr_Valid resp, join_text ''; '' (cpr_Errors resp), [(''provider_count'', jint (cpr_ProviderCount resp))])"

definition configPreviewHandler :: "'w admin_env \<Rightarrow> 'w api_handler" where
  "configPreviewHandler env role r s =
     (if ad_Method r \<noteq> ''POST'' then methodNotAllowed s
      else case decode_body env (set_config_text ''revision_id'') (JNull, []) r of
          None \<Rightarrow> admin_error 400 ''invalid request body'' s
        | Some req \<Rightarrow> answered env role r ''config.preview'' (snd req) 400 (preview_event (snd req)) PreviewBody (PreviewConfig env req s))"

definition diff_event :: "string \<Rightarrow> ConfigDiffResponse \<Rightarrow> string \<times> bool \<times> string \<times> (string \<times> json) list" where
  "diff_event toID resp = (toID, True, [], [(''change_count'', jint (int (length (cdr_Changes resp))))])"

definition configDiffHandler :: "'w admin_env \<Rightarrow> 'w api_handler" where
  "configDiffHandler env role r s =
     (if ad_Method r \<noteq> ''POST'' then methodNotAllowed s
      else case decode_body env set_diff_request \<lparr>dq_From = [], dq_To = [], dq_Config = JNull\<rparr> r of
          None \<Rightarrow> admin_error 400 ''invalid request body'' s
        | Some q \<Rightarrow> answered env role r ''config.diff'' (dq_To q) 400 (diff_event (dq_To q)) DiffBody (DiffConfig env q s, s))"

section \<open>Secrets\<close>

definition secret_item :: "string \<Rightarrow> string \<Rightarrow> string \<Rightarrow> secretStatusItem" where
  "secret_item name kind v = \<lparr>ssi_Name = name, ssi_Kind = kind, ssi_Present = (trim_space v \<noteq> []), ssi_Reference = []\<rparr>"

definition or_unnamed :: "string \<Rightarrow> string" where
  "or_unnamed name = (if trim_space name = [] then ''unnamed'' else trim_space name)"

definition secretItemsFromConfig :: "Config option \<Rightarrow> secretStatusItem list" where
  "secretItemsFromConfig cfg =
     (case cfg of
        None \<Rightarrow> []
      | Some c \<Rightarrow>
          [secret_item ''admin.bootstrap_token'' ''admin'' (adm_BootstrapToken (cfg_Admin c)),
           secret_item ''admin.cookie_signing_key'' ''admin'' (adm_CookieSigningKey (cfg_Admin c))] @
          map (\<lambda>t. secret_item (''admin.tokens.'' @ or_unnamed (tok_Name t)) ''admin_token'' (tok_Token t)) (adm_Tokens (cfg_Admin c)) @
          map (\<lambda>p. secret_item (''providers.'' @ or_unnamed (prv_Name p) @ ''.api_key'') ''provider_api_key'' (prv_APIKey p)) (cfg_Providers c))"

definition secretsStatusHandler :: "'w admin_env \<Rightarrow> 'w api_handler" where
  "secretsStatusHandler env role r s =
     (if ad_Method r \<noteq> ''GET'' then methodNotAllowed s
      else let items = secretItemsFromConfig (ccv_Config (GetCurrentConfigView (co_codec (am_control env)) (cpl_publisher s))) in
        writeJSON 200 (SecretsBody items (length (filter (\<lambda>i. \<not> ssi_Present i) items))) s)"

end
