(* ===== verification/Admin_Ops.thy ===== *)
theory Admin_Ops
  imports Admin_Api
begin

text \<open>
  The other handlers of the admin API: the status of the processes, the queries that telemetry answers, benchmarks, updates,
  probes, the audit log and the metrics (\<open>internal/control/api/routes.go\<close>, \<open>ops.go\<close>, \<open>cmd/controld/probe.go\<close>), and the table
  of all routes with the daemon's own (\<open>Mount\<close>, \<open>createHandler\<close> of \<open>cmd/controld/http.go\<close>).
\<close>

section \<open>The other processes\<close>

record TelemetryFilters =
  tfl_Models :: "string list"
  tfl_Providers :: "string list"
  tfl_StatusCodes :: "goint list"
  tfl_ErrorsOnly :: bool
  tfl_MinLatencyMs :: goint
  tfl_MaxLatencyMs :: goint
  tfl_SyntheticKind :: string
  tfl_BenchmarkRunID :: string
  tfl_BenchmarkTargetID :: string
  tfl_BenchmarkCaseID :: string

definition no_filters :: TelemetryFilters where
  "no_filters = \<lparr>tfl_Models = [], tfl_Providers = [], tfl_StatusCodes = [], tfl_ErrorsOnly = False, tfl_MinLatencyMs = 0, tfl_MaxLatencyMs = 0,
     tfl_SyntheticKind = [], tfl_BenchmarkRunID = [], tfl_BenchmarkTargetID = [],
     tfl_BenchmarkCaseID = []\<rparr>"

text \<open>The calls of telemetry: windows, events, buckets of time and models, with their arguments in the order of the contract.\<close>

datatype telemetry_query =
    GetOverview "(string \<times> duration) list"
  | GetTelemetry goint goint goint TelemetryFilters
  | GetTimeSeries goint goint string
  | GetModelBenchmark goint "string list" string "gotime option" "gotime option"

datatype benchmark_call = ListBaselineSnapshots | ImportBaseline json | ListRuns goint | StartRun json | GetRun string

record PingResponse =
  png_Version :: string
  png_ServerTime :: gotime
  png_EventCount :: goint
  png_Healthy :: bool

text \<open>The status of the gateway, with its JSON.\<close>

record GatewayStatus =
  gws_json :: json
  gws_Readiness :: string
  gws_Listener :: string
  gws_ActiveSnapshotID :: string
  gws_ActiveRequests :: goint
  gws_Healthy :: "bool list"
  gws_RemediationReason :: string
  gws_RemediationAt :: gotime

record RunBenchmarkCaseRequest =
  rbq_RunID :: string
  rbq_CaseID :: string
  rbq_BenchmarkTargetID :: string
  rbq_ProviderID :: string
  rbq_PublicModel :: string
  rbq_Protocol :: string
  rbq_RequestBody :: json
  rbq_Headers :: "(string \<times> string) list"
  rbq_TimeoutMs :: goint
  rbq_SyntheticKind :: string
  rbq_DisableCache :: bool
  rbq_DisableFallback :: bool
  rbq_DisableRetries :: bool

record RunBenchmarkCaseResponse =
  rbs_StatusCode :: goint
  rbs_Headers :: "(string \<times> string list) list"
  rbs_ResponseBody :: string
  rbs_ContentType :: string
  rbs_LatencyMs :: goint
  rbs_PromptTokens :: goint
  rbs_CachedPromptTokens :: goint
  rbs_CompletionTokens :: goint
  rbs_ProviderID :: string
  rbs_EffectiveModel :: string
  rbs_RouteMode :: string
  rbs_PricingTotalCostUSD :: float64
  rbs_Error :: string

text \<open>
  The clients of the other processes and the parts that are not modelled: the benchmark service, the replay and the files
  of the frontend. A call gives the text of an error or a result; that of a probe fails, too, when the request is cancelled.
\<close>

record 'w admin_rpc =
  rc_telemetry_up :: "'w \<Rightarrow> bool"
  rc_telemetry :: "telemetry_query \<Rightarrow> 'w \<Rightarrow> (string + json) \<times> 'w"
  rc_ping :: "'w \<Rightarrow> (string + PingResponse) \<times> 'w"
  rc_gateway_status :: "'w \<Rightarrow> (string + GatewayStatus) \<times> 'w"
  rc_pricing_status :: "'w \<Rightarrow> (string + json) \<times> 'w"
  rc_pricing_refresh :: "'w \<Rightarrow> (string + bool \<times> string \<times> json) \<times> 'w"
  rc_run_case :: "RunBenchmarkCaseRequest \<Rightarrow> 'w \<Rightarrow> (string + RunBenchmarkCaseResponse) \<times> 'w"
  rc_import_request :: "json \<Rightarrow> bool"
  rc_start_request :: "json \<Rightarrow> bool"
  rc_benchmark :: "(benchmark_call \<Rightarrow> 'w \<Rightarrow> (string + json option) \<times> 'w) option"
  rc_replay :: "(AdminRequest \<Rightarrow> 'w \<Rightarrow> (goint \<times> json) \<times> 'w) option"
  rc_page :: "AdminRequest \<Rightarrow> 'w \<Rightarrow> (goint \<times> string) \<times> 'w"

type_synonym 'w rpc_handler = "'w admin_env \<Rightarrow> 'w admin_rpc \<Rightarrow> 'w api_handler"

section \<open>Telemetry and pricing\<close>

definition ask_telemetry :: "telemetry_query \<Rightarrow> 'w admin_rpc \<Rightarrow> 'w control_plane \<Rightarrow> 'w api_result" where
  "ask_telemetry q rpc s =
     (if \<not> rc_telemetry_up rpc (world_of s) then admin_error 503 ''telemetry not connected'' s
      else case on_plane (rc_telemetry rpc q) s of
          (Inl err, s1) \<Rightarrow> writeTelemetryError err s1
        | (Inr v, s1) \<Rightarrow> writeJSON 200 (RpcBody v) s1)"

definition overviewHandler :: "'w rpc_handler" where
  "overviewHandler env rpc role r =
     ask_telemetry (GetOverview [(''last_1m'', minute), (''last_5m'', 5 * minute), (''last_1h'', 60 * minute), (''last_24h'', 24 * 60 * minute)]) rpc"

definition telemetryHandler :: "'w rpc_handler" where
  "telemetryHandler env rpc role r =
     ask_telemetry (GetTelemetry (intQuery r ''hours'' 24) (intQuery r ''limit'' 100) (intQuery r ''offset'' 0) no_filters) rpc"

definition timeseriesHandler :: "'w rpc_handler" where
  "timeseriesHandler env rpc role r =
     ask_telemetry (GetTimeSeries (intQuery r ''hours'' 24) (intQuery r ''bucket'' 5) (first_value (ad_Query r) ''group_by'')) rpc"

definition benchmarkHandler :: "'w rpc_handler" where
  "benchmarkHandler env rpc role r =
     ask_telemetry (GetModelBenchmark (intQuery r ''hours'' 24) (stringListQuery r ''models'') (firstQuery r [''group'', ''group_by''])
       (timeQuery env r ''start'') (timeQuery env r ''end'')) rpc"

definition pricingStatusHandler :: "'w rpc_handler" where
  "pricingStatusHandler env rpc role r s =
     (if \<not> am_gateway_up env (world_of s) then admin_error 503 ''gateway not connected'' s
      else case on_plane (rc_pricing_status rpc) s of
          (Inl err, s1) \<Rightarrow> writeGatewayError err s1
        | (Inr v, s1) \<Rightarrow> writeJSON 200 (RpcBody v) s1)"

definition pricingRefreshHandler :: "'w rpc_handler" where
  "pricingRefreshHandler env rpc role r s =
     (if ad_Method r \<noteq> ''POST'' then methodNotAllowed s
      else if \<not> am_gateway_up env (world_of s) then admin_error 503 ''gateway not connected'' s
      else case on_plane (rc_pricing_refresh rpc) s of
          (Inl err, s1) \<Rightarrow> writeGatewayError err (recordAudit env role r ''pricing.refresh'' ''pricing'' False err [] s1)
        | (Inr (refreshed, err, v), s1) \<Rightarrow>
            writeJSON 200 (RpcBody v) (recordAudit env role r ''pricing.refresh'' ''pricing'' refreshed err [] s1))"

section \<open>Benchmarks\<close>

definition ask_benchmarks ::
  "'w admin_rpc \<Rightarrow> benchmark_call \<Rightarrow> goint \<Rightarrow> (json \<Rightarrow> json) \<Rightarrow> 'w control_plane \<Rightarrow> 'w api_result" where
  "ask_benchmarks rpc c status shape s =
     (case rc_benchmark rpc of
        None \<Rightarrow> admin_error 503 ''benchmarking not available'' s
      | Some service \<Rightarrow>
          (case on_plane (service c) s of
             (Inl err, s1) \<Rightarrow> admin_error status err s1
           | (Inr None, s1) \<Rightarrow> admin_error 404 ''run not found'' s1
           | (Inr (Some v), s1) \<Rightarrow> writeJSON 200 (RpcBody (shape v)) s1))"

definition post_benchmark ::
  "'w admin_env \<Rightarrow> 'w admin_rpc \<Rightarrow> (json \<Rightarrow> bool) \<Rightarrow> (json \<Rightarrow> benchmark_call) \<Rightarrow> AdminRequest \<Rightarrow> 'w control_plane \<Rightarrow> 'w api_result" where
  "post_benchmark env rpc valid c r s =
     (case am_body env (ad_Body r) of
        JsonBody v \<Rightarrow> if valid v then ask_benchmarks rpc (c v) 400 (\<lambda>v. v) s else admin_error 400 ''invalid request body'' s
      | _ \<Rightarrow> admin_error 400 ''invalid request body'' s)"

definition benchmarkBaselinesHandler :: "'w rpc_handler" where
  "benchmarkBaselinesHandler env rpc role r s =
     (if ad_Method r \<noteq> ''GET'' then methodNotAllowed s
      else ask_benchmarks rpc ListBaselineSnapshots 500 (\<lambda>v. JObject [(''snapshots'', v)]) s)"

definition benchmarkBaselineImportHandler :: "'w rpc_handler" where
  "benchmarkBaselineImportHandler env rpc role r s =
     (if ad_Method r \<noteq> ''POST'' then methodNotAllowed s
      else if rc_benchmark rpc = None then admin_error 503 ''benchmarking not available'' s
      else post_benchmark env rpc (rc_import_request rpc) ImportBaseline r s)"

definition benchmarkRunsHandler :: "'w rpc_handler" where
  "benchmarkRunsHandler env rpc role r s =
     (if rc_benchmark rpc = None then admin_error 503 ''benchmarking not available'' s
      else if ad_Method r = ''GET'' then ask_benchmarks rpc (ListRuns (intQuery r ''limit'' 50)) 500 (\<lambda>v. JObject [(''runs'', v)]) s
      else if ad_Method r = ''POST'' then post_benchmark env rpc (rc_start_request rpc) StartRun r s
      else methodNotAllowed s)"

definition strip_route :: "string \<Rightarrow> string \<Rightarrow> string" where
  "strip_route p s = (if prefix p s then drop (length p) s else s)"

definition parseBenchmarkRunPath :: "string \<Rightarrow> string \<times> string" where
  "parseBenchmarkRunPath path =
     (case cut_at slash (trim_slashes (strip_route ''/api/admin/benchmark/runs/'' path)) of
        (a, rest) \<Rightarrow> (trim_space a, case rest of None \<Rightarrow> [] | Some b \<Rightarrow> trim_space b))"

definition benchmarkRunDetailHandler :: "'w rpc_handler" where
  "benchmarkRunDetailHandler env rpc role r s =
     (if ad_Method r \<noteq> ''GET'' then methodNotAllowed s
      else case parseBenchmarkRunPath (ad_Path r) of (runID, subresource) \<Rightarrow>
        if runID = [] then admin_error 400 ''run id is required'' s
        else if subresource = [] then ask_benchmarks rpc (GetRun runID) 500 (\<lambda>v. v) s
        else if subresource = ''telemetry''
        then ask_telemetry (GetTelemetry (intQuery r ''hours'' 24) (intQuery r ''limit'' 200) (intQuery r ''offset'' 0)
          (no_filters\<lparr>tfl_Models := stringListQuery r ''models'', tfl_Providers := stringListQuery r ''providers'',
            tfl_SyntheticKind := ''benchmark'', tfl_BenchmarkRunID := runID,
            tfl_BenchmarkTargetID := trim_space (first_value (ad_Query r) ''target_id''),
            tfl_BenchmarkCaseID := trim_space (first_value (ad_Query r) ''case_id'')\<rparr>)) rpc s
        else admin_error 404 ''benchmark run subresource not found'' s)"

section \<open>Status\<close>

definition rpc_trouble :: "string \<Rightarrow> string" where
  "rpc_trouble err = (if isRPCDisconnectedError err then ''disconnected'' else ''error'')"

definition gateway_fields :: "'w admin_env \<Rightarrow> GatewayStatus \<Rightarrow> (string \<times> json) list" where
  "gateway_fields env g =
     (let healthy = length (filter (\<lambda>h. h) (gws_Healthy g)) in
      [(''gateway_status'', JString ''connected''), (''gateway'', gws_json g), (''gateway_readiness'', JString (gws_Readiness g)),
       (''gateway_listener'', JString (gws_Listener g)), (''active_snapshot_id'', JString (gws_ActiveSnapshotID g)),
       (''active_requests'', jint (gws_ActiveRequests g)), (''provider_health_count'', jint (int (length (gws_Healthy g)))),
       (''healthy_provider_count'', jint (int healthy)),
       (''unhealthy_provider_count'', jint (int (length (gws_Healthy g)) - int healthy))] @
      (if gws_RemediationReason g = [] then []
       else (''gateway_last_auto_remediation_reason'', JString (gws_RemediationReason g)) #
         (if is_zero_time (gws_RemediationAt g) then []
          else [(''gateway_last_auto_remediation_at'', JString (am_format_time env (gws_RemediationAt g)))])))"

definition gateway_part :: "'w admin_env \<Rightarrow> 'w admin_rpc \<Rightarrow> 'w control_plane \<Rightarrow> (string \<times> json) list \<times> 'w control_plane" where
  "gateway_part env rpc s =
     (if \<not> am_gateway_up env (world_of s) then ([(''gateway_status'', JString ''disconnected'')], s)
      else case on_plane (rc_gateway_status rpc) s of
          (Inl err, s1) \<Rightarrow> ([(''gateway_status'', JString (rpc_trouble err)), (''gateway_error'', JString err)], s1)
        | (Inr g, s1) \<Rightarrow>
            (case on_plane (rc_pricing_status rpc) s1 of
               (pricing, s2) \<Rightarrow> (gateway_fields env g @ (case pricing of Inl err \<Rightarrow> [] | Inr v \<Rightarrow> [(''pricing'', v)]), s2)))"

definition ping_fields :: "PingResponse \<Rightarrow> (string \<times> json) list" where
  "ping_fields p =
     (if png_Healthy p then [(''telemetry_status'', JString ''connected'')]
      else [(''telemetry_status'', JString ''error''), (''telemetry_error'', JString ''telemetry unhealthy'')]) @
     [(''telemetry_version'', JString (png_Version p)), (''telemetry_event_count'', jint (png_EventCount p))]"

definition telemetry_part :: "'w admin_rpc \<Rightarrow> 'w control_plane \<Rightarrow> (string \<times> json) list \<times> 'w control_plane" where
  "telemetry_part rpc s =
     (if \<not> rc_telemetry_up rpc (world_of s) then ([(''telemetry_status'', JString ''disconnected'')], s)
      else case on_plane (rc_ping rpc) s of
          (Inl err, s1) \<Rightarrow> ([(''telemetry_status'', JString (rpc_trouble err)), (''telemetry_error'', JString err)], s1)
        | (Inr p, s1) \<Rightarrow> (ping_fields p, s1))"

definition buildStatusPayload :: "'w admin_env \<Rightarrow> 'w admin_rpc \<Rightarrow> 'w control_plane \<Rightarrow> (string \<times> json) list \<times> 'w control_plane" where
  "buildStatusPayload env rpc s =
     (let started = cs_StartedAt (am_settings env); started_text = JString (am_format_time env started) in
      case on_plane (co_now (am_control env)) s of (now, s1) \<Rightarrow>
      (case gateway_part env rpc s1 of (gateway, s2) \<Rightarrow>
      (case on_plane (co_now (am_control env)) s2 of (checked, s3) \<Rightarrow>
      (case telemetry_part rpc s3 of (telemetry, s4) \<Rightarrow>
        ([(''version'', JString (cs_Version (am_settings env))), (''product_version'', JString (rl_ProductVersion (am_update env))),
          (''rpc_contract_version'', JString RPCContractVersion), (''startedAt'', started_text),
          (''uptime'', JString (am_show_duration env (time_sub now started)))] @
         (if is_zero_time started then [] else [(''started_at'', started_text)]) @ gateway @
         [(''telemetry_last_checked_at'', JString (am_format_time env checked))] @ telemetry, s4)))))"

text \<open>A field as \<open>fmt.Sprint\<close> prints it: all that are printed are texts or missing.\<close>

definition shown_field :: "(string \<times> json) list \<Rightarrow> string \<Rightarrow> string" where
  "shown_field fs name = (case map_of fs name of Some (JString t) \<Rightarrow> t | _ \<Rightarrow> ''<nil>'')"

definition field_is :: "(string \<times> json) list \<Rightarrow> string \<Rightarrow> string \<Rightarrow> bool" where
  "field_is fs name t \<longleftrightarrow> map_of fs name = Some (JString t)"

definition runtime_config :: "'w admin_env \<Rightarrow> json" where
  "runtime_config env =
     (let c = am_settings env in
      JObject (filter (\<lambda>(k, v). v \<noteq> JString [])
        [(''bundle_version'', JString (cs_Version c)), (''bundle_manifest'', JString ''aigw-manifest.json''),
         (''config_path'', JString (cs_ConfigPath c)), (''data_dir'', JString (cs_DataDir c)), (''listen'', JString (cs_Listen c)),
         (''gateway_socket'', JString (cs_GatewaySocket c)), (''telemetry_socket'', JString (cs_TelemetrySocket c)),
         (''config_paths'', JObject [(''controld'', JString ''configs/controld.json''), (''gatewayd'', JString ''configs/gatewayd.json''),
           (''telemetryd'', JString ''configs/telemetryd.json'')])]))"

definition statusHandler :: "'w rpc_handler" where
  "statusHandler env rpc role r s = (case buildStatusPayload env rpc s of (fs, s1) \<Rightarrow> writeJSON 200 (FieldsBody fs) s1)"

definition runtimeStatusHandler :: "'w rpc_handler" where
  "runtimeStatusHandler env rpc role r s =
     (case buildStatusPayload env rpc s of (fs, s1) \<Rightarrow> writeJSON 200 (FieldsBody (fs @ [(''runtime'', runtime_config env)])) s1)"

definition preflightCheck :: "string \<Rightarrow> bool \<Rightarrow> string \<Rightarrow> string \<times> bool \<times> string" where
  "preflightCheck name ok detail = (name, ok, if trim_space detail \<noteq> [] \<and> detail \<noteq> ''<nil>'' then detail else [])"

definition preflight_checks :: "(string \<times> json) list \<Rightarrow> (string \<times> bool \<times> string) list" where
  "preflight_checks fs =
     [preflightCheck ''gateway_connected'' (field_is fs ''gateway_status'' ''connected'') (shown_field fs ''gateway_error''),
      preflightCheck ''gateway_ready'' (field_is fs ''gateway_readiness'' ''ready'') (shown_field fs ''gateway_readiness''),
      preflightCheck ''telemetry_connected'' (field_is fs ''telemetry_status'' ''connected'') (shown_field fs ''telemetry_error'')]"

definition check_json :: "string \<times> bool \<times> string \<Rightarrow> json" where
  "check_json c = JObject ([(''name'', JString (fst c)), (''ok'', JBool (fst (snd c)))] @
     (if snd (snd c) = [] then [] else [(''detail'', JString (snd (snd c)))]))"

definition runtimePreflightHandler :: "'w rpc_handler" where
  "runtimePreflightHandler env rpc role r s =
     (if ad_Method r \<noteq> ''POST'' then methodNotAllowed s
      else case buildStatusPayload env rpc s of (fs, s1) \<Rightarrow>
        let checks = preflight_checks fs; ok = list_all (\<lambda>c. fst (snd c)) checks in
        writeJSON 200 (PreflightBody ok checks)
          (recordAudit env role r ''runtime.preflight'' ''runtime'' ok [] [(''checks'', JArray (map check_json checks))] s1))"

section \<open>Updates\<close>

text \<open>An operation of the manager at a time, with the text of its error.\<close>

definition with_manager ::
  "'w admin_env \<Rightarrow> (gotime \<Rightarrow> Manager \<Rightarrow> (Status \<times> manager_error option) \<times> Manager) \<Rightarrow> Manager \<Rightarrow> 'w control_plane \<Rightarrow>
     (string + Status) \<times> 'w control_plane" where
  "with_manager env f um s =
     (case on_plane (co_now (am_control env)) s of (now, s1) \<Rightarrow>
       (case f now um of ((status, err), um') \<Rightarrow>
         (case err of None \<Rightarrow> Inr status | Some e \<Rightarrow> Inl (am_manager_text env e), s1\<lparr>cpl_updates := Some um'\<rparr>)))"

definition updateStatusHandler :: "'w rpc_handler" where
  "updateStatusHandler env rpc role r s =
     (if ad_Method r \<noteq> ''GET'' then methodNotAllowed s
      else case cpl_updates s of
          None \<Rightarrow> admin_error 503 ''update manager not available'' s
        | Some um \<Rightarrow> writeJSON 200 (UpdateBody (Manager_Status (am_update env) um)) s)"

text \<open>The handlers that need the manager.\<close>

definition update_post ::
  "(Manager \<Rightarrow> 'w control_plane \<Rightarrow> 'w api_result) \<Rightarrow> AdminRequest \<Rightarrow> 'w control_plane \<Rightarrow> 'w api_result" where
  "update_post f r s =
     (if ad_Method r \<noteq> ''POST'' then methodNotAllowed s
      else case cpl_updates s of None \<Rightarrow> admin_error 503 ''update manager not available'' s | Some um \<Rightarrow> f um s)"

definition updateCheckHandler :: "'w rpc_handler" where
  "updateCheckHandler env rpc role r =
     update_post (\<lambda>um s. answered env role r ''update.check'' ''release'' 502
       (\<lambda>st. (us_LatestTag st, True, [], [(''update_available'', JBool (us_UpdateAvailable st))])) UpdateBody
       (with_manager env (Manager_Check (am_update env)) um s)) r"

definition set_force :: "json \<Rightarrow> bool \<Rightarrow> bool option" where
  "set_force = set_struct (each_field ''force'' set_bool)"

definition update_error_text :: "'w admin_env \<Rightarrow> update_error option \<Rightarrow> string" where
  "update_error_text env err = (case err of None \<Rightarrow> [] | Some e \<Rightarrow> am_update_text env e)"

definition fetch_event :: "'w admin_env \<Rightarrow> Status \<Rightarrow> string \<times> bool \<times> string \<times> (string \<times> json) list" where
  "fetch_event env st =
     (us_CachedVersion st, vr_OK (us_CachedVerify st),
      first_filled [update_error_text env (us_LastCheckError st), update_error_text env (us_LastApplyError st)],
      [(''bundle_dir'', JString (us_CachedBundleDir st))])"

definition updateFetchHandler :: "'w rpc_handler" where
  "updateFetchHandler env rpc role r =
     update_post (\<lambda>um s. case decodeOptionalJSON env set_force False r of
         None \<Rightarrow> admin_error 400 ''invalid request body'' s
       | Some force \<Rightarrow> answered env role r ''update.fetch'' ''release'' 502 (fetch_event env) UpdateBody
           (with_manager env (\<lambda>now. Manager_Fetch (am_update env) now force) um s)) r"

record UpdateApplyRequest =
  uq_BundleDir :: string
  uq_Download :: bool
  uq_DryRun :: bool
  uq_Force :: bool

definition set_apply_request :: "json \<Rightarrow> UpdateApplyRequest \<Rightarrow> UpdateApplyRequest option" where
  "set_apply_request =
     set_struct (then_field (each_field ''bundle_dir'' (\<lambda>v q. map_option (\<lambda>t. q\<lparr>uq_BundleDir := t\<rparr>) (set_string v (uq_BundleDir q))))
       (then_field (each_field ''download'' (\<lambda>v q. map_option (\<lambda>b. q\<lparr>uq_Download := b\<rparr>) (set_bool v (uq_Download q))))
       (then_field (each_field ''dry_run'' (\<lambda>v q. map_option (\<lambda>b. q\<lparr>uq_DryRun := b\<rparr>) (set_bool v (uq_DryRun q))))
         (each_field ''force'' (\<lambda>v q. map_option (\<lambda>b. q\<lparr>uq_Force := b\<rparr>) (set_bool v (uq_Force q)))))))"

text \<open>The directory that a request names, cleaned, or why it is refused.\<close>

definition checked_bundle_dir :: "string \<Rightarrow> string + string" where
  "checked_bundle_dir dir =
     (if dir = [] then Inr []
      else let cleaned = Clean dir in
        if str_contains cleaned ''..'' then Inl ''bundle_dir must not contain path traversal sequences''
        else if cleaned = ''.'' \<or> cleaned = [] then Inl ''bundle_dir must be a valid directory path''
        else Inr cleaned)"

definition apply_event :: "bool \<Rightarrow> Status \<Rightarrow> string \<times> bool \<times> string \<times> (string \<times> json) list" where
  "apply_event dryRun st =
     (us_CachedVersion st, True, [],
      [(''dry_run'', JBool dryRun), (''bundle_dir'', JString (us_CachedBundleDir st)), (''backup_dir'', JString (us_LastBackupDir st))])"

definition updateApplyHandler :: "'w rpc_handler" where
  "updateApplyHandler env rpc role r =
     update_post (\<lambda>um s. case decodeOptionalJSON env set_apply_request
           \<lparr>uq_BundleDir = [], uq_Download = False, uq_DryRun = False, uq_Force = False\<rparr> r of
         None \<Rightarrow> admin_error 400 ''invalid request body'' s
       | Some q \<Rightarrow>
           (case checked_bundle_dir (uq_BundleDir q) of
              Inl err \<Rightarrow> admin_error 400 err s
            | Inr dir \<Rightarrow> answer_noting [(''dry_run'', JBool (uq_DryRun q)), (''download'', JBool (uq_Download q))]
                env role r ''update.apply'' dir 400 (apply_event (uq_DryRun q)) UpdateBody
                (with_manager env (\<lambda>now um. Manager_Apply (am_update env) now dir (uq_Download q) (uq_DryRun q) (uq_Force q) um) um s))) r"

definition updateRollbackHandler :: "'w rpc_handler" where
  "updateRollbackHandler env rpc role r =
     update_post (\<lambda>um s. answered env role r ''update.rollback'' ''last-backup'' 400 (\<lambda>st. (us_LastBackupDir st, True, [], [])) UpdateBody
       (with_manager env (Manager_Rollback (am_update env)) um s)) r"

end
