(* ===== verification/Admin_Routes.thy ===== *)
theory Admin_Routes
  imports Admin_Ops
begin

text \<open>
  The rest of the admin API: probes (\<open>cmd/controld/probe.go\<close>), the audit log, diagnostics and metrics, and the table of all
  routes with the daemon's own (\<open>Mount\<close> of \<open>internal/control/api/routes.go\<close>, \<open>createHandler\<close> of \<open>cmd/controld/http.go\<close>).
\<close>

section \<open>Probes\<close>

record ProbeRequest =
  pbr_ProviderID :: string
  pbr_Model :: string
  pbr_Protocol :: string
  pbr_Prompt :: string
  pbr_Headers :: "(string \<times> string) list"
  pbr_TimeoutMs :: goint

text \<open>A map of texts; the headers of the request are added to those that are there.\<close>

definition set_text_map :: "json \<Rightarrow> (string \<times> string) list \<Rightarrow> (string \<times> string) list option" where
  "set_text_map v old =
     (case v of
        JNull \<Rightarrow> Some []
      | JObject kvs \<Rightarrow> fold (\<lambda>(k, x) acc. case acc of None \<Rightarrow> None | Some m \<Rightarrow>
          map_option (\<lambda>t. AList.update k t m) (set_string x [])) kvs (Some old)
      | _ \<Rightarrow> None)"

definition set_probe :: "json \<Rightarrow> ProbeRequest \<Rightarrow> ProbeRequest option" where
  "set_probe =
     set_struct (then_field (each_field ''provider_id'' (\<lambda>v q. map_option (\<lambda>t. q\<lparr>pbr_ProviderID := t\<rparr>) (set_string v (pbr_ProviderID q))))
       (then_field (each_field ''model'' (\<lambda>v q. map_option (\<lambda>t. q\<lparr>pbr_Model := t\<rparr>) (set_string v (pbr_Model q))))
       (then_field (each_field ''protocol'' (\<lambda>v q. map_option (\<lambda>t. q\<lparr>pbr_Protocol := t\<rparr>) (set_string v (pbr_Protocol q))))
       (then_field (each_field ''prompt'' (\<lambda>v q. map_option (\<lambda>t. q\<lparr>pbr_Prompt := t\<rparr>) (set_string v (pbr_Prompt q))))
       (then_field (each_field ''headers'' (\<lambda>v q. map_option (\<lambda>t. q\<lparr>pbr_Headers := t\<rparr>) (set_text_map v (pbr_Headers q))))
         (each_field ''timeout_ms'' (\<lambda>v q. map_option (\<lambda>t. q\<lparr>pbr_TimeoutMs := t\<rparr>) (set_int64 v (pbr_TimeoutMs q)))))))))"

text \<open>
  The first enabled provider with the wanted name that serves the wanted model, with the model; without a wanted model a
  provider that serves none is chosen, too, and the search ends with it.
\<close>

fun selectProbeTarget :: "Provider list \<Rightarrow> string \<Rightarrow> string \<Rightarrow> (Provider \<times> string) option" where
  "selectProbeTarget [] providerID model = None"
| "selectProbeTarget (p # ps) providerID model =
     (if \<not> Provider_IsEnabled p \<or> providerID \<noteq> [] \<and> \<not> equal_fold (prv_Name p) providerID then selectProbeTarget ps providerID model
      else case find (\<lambda>c. c \<noteq> [] \<and> (model = [] \<or> equal_fold c model)) (map trim_space (prv_Models p)) of
          Some c \<Rightarrow> Some (p, c)
        | None \<Rightarrow> if model = [] then Some (p, []) else selectProbeTarget ps providerID model)"

definition probeRequestBody :: "string \<Rightarrow> string \<Rightarrow> string \<Rightarrow> json" where
  "probeRequestBody protocol model prompt0 =
     (let prompt = (if trim_space prompt0 = [] then ''Reply with exactly ok.'' else prompt0);
          message = (''messages'', JArray [JObject [(''content'', JString prompt), (''role'', JString ''user'')]]) in
      if NormalizeProtocolAdapter protocol [] = ''anthropic_messages''
      then JObject [(''max_tokens'', jint 8), message, (''model'', JString model)]
      else JObject [(''max_tokens'', jint 8), message, (''model'', JString model), (''temperature'', jint 0)])"

definition responseExcerpt :: "string \<Rightarrow> string" where "responseExcerpt body = take 512 (trim_space body)"

definition firstHeaderValues :: "(string \<times> string list) list \<Rightarrow> (string \<times> string) list" where
  "firstHeaderValues hs = map (\<lambda>(k, vs). (k, hd vs)) (filter (\<lambda>(k, vs). vs \<noteq> []) hs)"

definition probe_case :: "ProbeRequest \<Rightarrow> Provider \<Rightarrow> string \<Rightarrow> RunBenchmarkCaseRequest" where
  "probe_case req p publicModel =
     (let protocol = (if trim_space (pbr_Protocol req) = [] then NormalizeProtocolAdapter (prv_ProtocolAdapter p) (prv_AnthropicBaseURL p)
            else trim_space (pbr_Protocol req)) in
      \<lparr>rbq_RunID = ''diagnostic-probe'', rbq_CaseID = ''manual'', rbq_BenchmarkTargetID = [], rbq_ProviderID = prv_Name p, rbq_PublicModel = publicModel, rbq_Protocol = protocol,
        rbq_RequestBody = probeRequestBody protocol publicModel (pbr_Prompt req), rbq_Headers = pbr_Headers req,
        rbq_TimeoutMs = (if 0 < pbr_TimeoutMs req then pbr_TimeoutMs req else if 0 < prv_TimeoutMs p then prv_TimeoutMs p else 30000),
        rbq_SyntheticKind = ''probe'', rbq_DisableCache = True, rbq_DisableFallback = True, rbq_DisableRetries = True\<rparr>)"

definition probe_result :: "Provider \<Rightarrow> string \<Rightarrow> gotime \<Rightarrow> RunBenchmarkCaseResponse \<Rightarrow> ProbeResult" where
  "probe_result p publicModel now resp =
     \<lparr>prb_Diagnostic = True, prb_ProviderID = prv_Name p, prb_Model = publicModel, prb_StatusCode = rbs_StatusCode resp, prb_LatencyMs = rbs_LatencyMs resp,
       prb_Healthy = (rbs_Error resp = [] \<and> 200 \<le> rbs_StatusCode resp \<and> rbs_StatusCode resp < 500), prb_Error = rbs_Error resp,
       prb_ResponseExcerpt = responseExcerpt (rbs_ResponseBody resp), prb_Headers = firstHeaderValues (rbs_Headers resp), prb_ProbedAt = now\<rparr>"

definition probe ::
  "'w admin_env \<Rightarrow> 'w admin_rpc \<Rightarrow> bool \<Rightarrow> ProbeRequest \<Rightarrow> 'w control_plane \<Rightarrow> (string + ProbeResult) \<times> 'w control_plane" where
  "probe env rpc providerRequired req s =
     (if \<not> am_gateway_up env (world_of s) then (Inl ''gateway not connected'', s)
      else case GetCurrentConfig (co_codec (am_control env)) (cpl_publisher s) of
          Inl e \<Rightarrow> (Inl (am_publish_text env e), s)
        | Inr None \<Rightarrow> (Inl ''active config not found'', s)
        | Inr (Some cfg) \<Rightarrow>
            let providerID = trim_space (pbr_ProviderID req); model = trim_space (pbr_Model req) in
            if providerRequired \<and> providerID = [] then (Inl ''provider_id is required'', s)
            else case selectProbeTarget (cfg_Providers cfg) providerID model of
                None \<Rightarrow> (Inl ''probe target not found'', s)
              | Some (p, publicModel) \<Rightarrow>
                  if publicModel = [] then (Inl ''probe model not found'', s)
                  else case on_plane (rc_run_case rpc (probe_case req p publicModel)) s of
                      (Inl err, s1) \<Rightarrow> (Inl err, s1)
                    | (Inr resp, s1) \<Rightarrow>
                        (case on_plane (co_now (am_control env)) s1 of (now, s2) \<Rightarrow> (Inr (probe_result p publicModel now resp), s2)))"

definition probe_event :: "string \<Rightarrow> ProbeResult \<Rightarrow> string \<times> bool \<times> string \<times> (string \<times> json) list" where
  "probe_event resource resp =
     (resource, prb_Healthy resp, prb_Error resp, [(''status_code'', jint (prb_StatusCode resp)), (''latency_ms'', jint (prb_LatencyMs resp))])"

definition handleProbe :: "bool \<Rightarrow> 'w rpc_handler" where
  "handleProbe provider env rpc role r s =
     (if ad_Method r \<noteq> ''POST'' then methodNotAllowed s
      else case decode_body env set_probe
          \<lparr>pbr_ProviderID = [], pbr_Model = [], pbr_Protocol = [], pbr_Prompt = [], pbr_Headers = [], pbr_TimeoutMs = 0\<rparr> r of
          None \<Rightarrow> admin_error 400 ''invalid request body'' s
        | Some req \<Rightarrow>
            let resource = trim_space (pbr_ProviderID req @ ''/'' @ pbr_Model req) in
            answered env role r (if provider then ''probe.provider'' else ''probe.model'') resource 400 (probe_event resource) ProbeBody
              (probe env rpc provider req s))"

section \<open>Audit log, diagnostics and metrics\<close>

definition auditHandler :: "'w rpc_handler" where
  "auditHandler env rpc role r s =
     (if ad_Method r \<noteq> ''GET'' then methodNotAllowed s
      else case cpl_audit s of
          None \<Rightarrow> writeJSON 200 (AuditBody []) s
        | Some lines \<Rightarrow>
            (case audit_List (am_audit env) \<lparr>aq_Limit = intQuery r ''limit'' 100, aq_Action = trim_space (first_value (ad_Query r) ''action''),
                 aq_Since = (case timeQuery env r ''since'' of None \<Rightarrow> 0 | Some t \<Rightarrow> t)\<rparr> lines of
               None \<Rightarrow> admin_error 500 ''bufio.Scanner: token too long'' s
             | Some events \<Rightarrow> writeJSON 200 (AuditBody events) s))"

definition audit_tail :: "'w admin_env \<Rightarrow> 'w control_plane \<Rightarrow> AuditEvent list" where
  "audit_tail env s =
     (case cpl_audit s of
        None \<Rightarrow> []
      | Some lines \<Rightarrow> (case audit_List (am_audit env) \<lparr>aq_Limit = 20, aq_Action = [], aq_Since = 0\<rparr> lines of None \<Rightarrow> [] | Some es \<Rightarrow> es))"

definition diagnosticsHandler :: "'w rpc_handler" where
  "diagnosticsHandler env rpc role r s =
     (if ad_Method r \<noteq> ''GET'' then methodNotAllowed s
      else let events = audit_tail env s in
        case on_plane (co_now (am_control env)) s of (now, s1) \<Rightarrow>
        (case buildStatusPayload env rpc s1 of (fs, s2) \<Rightarrow>
          writeJSON 200 (DiagnosticsBody now fs events) (recordAudit env role r ''diagnostics.generate'' ''diagnostics'' True [] [] s2)))"

text \<open>The report is logged, too; only the message goes to the audit log.\<close>

definition set_client_error :: "json \<Rightarrow> (string \<times> string) \<times> string \<times> string \<Rightarrow> ((string \<times> string) \<times> string \<times> string) option" where
  "set_client_error =
     set_struct (then_field (each_field ''message'' (on_fst (on_fst set_string)))
       (then_field (each_field ''stack'' (on_fst (on_snd set_string)))
       (then_field (each_field ''source'' (on_snd (on_fst set_string))) (each_field ''url'' (on_snd (on_snd set_string))))))"

definition clientErrorHandler :: "'w rpc_handler" where
  "clientErrorHandler env rpc role r s =
     (if ad_Method r \<noteq> ''POST'' then methodNotAllowed s
      else case decode_body env set_client_error (([], []), [], []) r of
          None \<Rightarrow> admin_error 400 ''invalid request body'' s
        | Some ((message, stack), source, url) \<Rightarrow>
            (reply_with 204 EmptyBody, recordAudit env role r ''client.error'' ''client'' True message [] s))"

definition numericStatusValue :: "(string \<times> json) list \<Rightarrow> string \<Rightarrow> goint option" where
  "numericStatusValue fs name = (case map_of fs name of Some (JNumber t) \<Rightarrow> parse_int64 t | _ \<Rightarrow> None)"

definition metricsHandler :: "'w rpc_handler" where
  "metricsHandler env rpc role r s =
     (case buildStatusPayload env rpc s of (fs, s1) \<Rightarrow>
        writeJSON 200 (MetricsBody (field_is fs ''gateway_status'' ''connected'') (field_is fs ''telemetry_status'' ''connected'')
          (numericStatusValue fs ''active_requests'')) s1)"

definition replay_route :: "'w rpc_handler" where
  "replay_route env rpc role r s =
     (case rc_replay rpc of
        None \<Rightarrow> admin_error 503 ''replay not available'' s
      | Some replay \<Rightarrow> (case on_plane (replay r) s of ((status, v), s1) \<Rightarrow> writeJSON status (RpcBody v) s1))"

definition frontendHandler :: "'w rpc_handler" where
  "frontendHandler env rpc role r s = (case on_plane (rc_page rpc r) s of ((status, text), s1) \<Rightarrow> writeJSON status (FileBody text) s1)"

definition healthHandler :: "'w rpc_handler" where
  "healthHandler env rpc role r s =
     writeJSON 200 (FieldsBody
       [(''status'', JString (if am_gateway_up env (world_of s) \<and> rc_telemetry_up rpc (world_of s) then ''healthy'' else ''degraded'')),
        (''version'', JString (cs_Version (am_settings env))), (''startedAt'', JString (am_format_time env (cs_StartedAt (am_settings env))))]) s"

section \<open>The routes\<close>

text \<open>The handlers behind the middleware, by the path they are mounted at.\<close>

definition api_routes :: "(string \<times> 'w rpc_handler) list" where
  "api_routes =
     [(''/api/admin/overview'', overviewHandler), (''/api/admin/config'', \<lambda>env rpc. configHandler env),
      (''/api/admin/config/history'', \<lambda>env rpc. configHistoryHandler env), (''/api/admin/config/publish'', \<lambda>env rpc. configPublishHandler env),
      (''/api/admin/config/reload'', \<lambda>env rpc. configReloadHandler env), (''/api/admin/config/rollback'', \<lambda>env rpc. configRollbackHandler env),
      (''/api/admin/config/validate'', \<lambda>env rpc. configValidateHandler env), (''/api/admin/config/update'', \<lambda>env rpc. configUpdateHandler env),
      (''/api/admin/config/preview'', \<lambda>env rpc. configPreviewHandler env), (''/api/admin/config/diff'', \<lambda>env rpc. configDiffHandler env),
      (''/api/admin/telemetry'', telemetryHandler), (''/api/admin/timeseries'', timeseriesHandler), (''/api/admin/benchmark'', benchmarkHandler),
      (''/api/admin/benchmark/baselines'', benchmarkBaselinesHandler),
      (''/api/admin/benchmark/baselines/import'', benchmarkBaselineImportHandler), (''/api/admin/benchmark/runs'', benchmarkRunsHandler),
      (''/api/admin/status'', statusHandler), (''/api/admin/runtime/status'', runtimeStatusHandler),
      (''/api/admin/runtime/preflight'', runtimePreflightHandler), (''/api/admin/update/status'', updateStatusHandler),
      (''/api/admin/update/check'', updateCheckHandler), (''/api/admin/update/fetch'', updateFetchHandler),
      (''/api/admin/update/apply'', updateApplyHandler), (''/api/admin/update/rollback'', updateRollbackHandler),
      (''/api/admin/audit'', auditHandler), (''/api/admin/probe/provider'', handleProbe True), (''/api/admin/probe/model'', handleProbe False),
      (''/api/admin/diagnostics'', diagnosticsHandler), (''/api/admin/client-error'', clientErrorHandler),
      (''/api/admin/secrets/status'', \<lambda>env rpc. secretsStatusHandler env), (''/api/admin/replay'', replay_route),
      (''/api/admin/pricing/status'', pricingStatusHandler), (''/api/admin/pricing/refresh'', pricingRefreshHandler),
      (''/admin'', frontendHandler)]"

text \<open>A path with no route of its own belongs to the tree it is in.\<close>

definition api_route :: "string \<Rightarrow> 'w rpc_handler option" where
  "api_route path =
     (case map_of api_routes path of
        Some h \<Rightarrow> Some h
      | None \<Rightarrow> if prefix ''/api/admin/benchmark/runs/'' path then Some benchmarkRunDetailHandler
          else if prefix ''/admin/'' path then Some frontendHandler else None)"

definition record_login :: "'w admin_env \<Rightarrow> api_body AdminResponse \<times> AuditEvent option \<Rightarrow> 'w control_plane \<Rightarrow> 'w api_result" where
  "record_login env outcome s =
     (case outcome of
        (resp, None) \<Rightarrow> (resp, s)
      | (resp, Some e) \<Rightarrow>
          (case cpl_audit s of
             None \<Rightarrow> (resp, s)
           | Some lines \<Rightarrow>
               (case on_plane (co_now (am_control env)) s of
                  (now, s1) \<Rightarrow> (resp, s1\<lparr>cpl_audit := Some (snd (audit_Record (am_audit env) now (am_writable env (world_of s1)) e lines))\<rparr>))))"

text \<open>
  The handler of the daemon, for a request with a cleaned path at a time: its own routes, the metrics and the icons need
  no authentication, all others go through the middleware with the authenticator of the active configuration.
\<close>

definition daemon_authenticator :: "'w admin_env \<Rightarrow> 'w control_plane \<Rightarrow> publish_error + Authenticator option" where
  "daemon_authenticator env s =
     currentAuthenticator (am_auth env) (cs_Listen (am_settings env)) (GetCurrentConfig (co_codec (am_control env)) (cpl_publisher s))"

definition createHandler :: "'w admin_env \<Rightarrow> 'w admin_rpc \<Rightarrow> gotime \<Rightarrow> AdminRequest \<Rightarrow> 'w control_plane \<Rightarrow> 'w api_result" where
  "createHandler env rpc now r s =
     (let path = ad_Path r; a = daemon_authenticator env s; auth = am_auth env in
      if path = ''/-/health'' then healthHandler env rpc [] r s
      else if path = ''/admin/login'' then (adminLoginPageHandler auth now a r, s)
      else if path = ''/admin/logout'' then (adminBrowserLogoutHandler a, s)
      else if path = ''/api/admin/login''
      then record_login env (adminLoginAPIHandler auth now a (decode_body env (\<lambda>v t. login_token v) [] r) r) s
      else if path = ''/api/admin/logout'' then record_login env (adminLogoutAPIHandler a r) s
      else if path = ''/api/admin/session'' then (adminSessionAPIHandler auth now a r, s)
      else if path = ''/metrics'' then metricsHandler env rpc [] r s
      else if path \<in> {''/icon.svg'', ''/favicon.svg'', ''/manifest.json''} then frontendHandler env rpc [] r s
      else case api_route path of
          None \<Rightarrow> (reply_with 404 EmptyBody, s)
        | Some h \<Rightarrow> adminAuthMiddleware auth now a (h env rpc) r s)"

end
