(* ===== verification/Cookies.thy ===== *)
theory Cookies
  imports Admin_Auth
begin

text \<open>
  What a login cookie is worth: the cookie of a login is accepted for its role until it is older than a day, and
  whatever cookie is accepted was signed with the key and is not older than a day.
\<close>

section \<open>Helpers\<close>

lemma cut_at_append: "c \<notin> set p \<Longrightarrow> cut_at c (p @ c # q) = (p, Some q)"
  by (induction p) auto

lemma cut_at_join: "cut_at c s = (p, Some q) \<Longrightarrow> s = p @ c # q \<and> c \<notin> set p"
  by (induction s arbitrary: p) (auto split: if_splits prod.splits)

lemma show_nat_digits: "d \<in> set (show_nat n) \<Longrightarrow> digit_value d \<noteq> None"
proof (induction n rule: show_nat.induct)
  case (1 n)
  show ?case
  proof (cases "n < 10")
    case True
    then show ?thesis using "1.prems" by (subst (asm) show_nat.simps) (simp add: digit_value_show)
  next
    case False
    then have "d \<in> set (show_nat (n div 10)) \<or> d = char_of (48 + n mod 10)"
      using "1.prems" by (subst (asm) show_nat.simps) auto
    then show ?thesis using "1.IH" [OF False] digit_value_show [of "n mod 10"] by auto
  qed
qed

lemma show_nat_plain: "CHR '':'' \<notin> set (show_nat n)" "CHR ''.'' \<notin> set (show_nat n)" "CHR ''+'' \<notin> set (show_nat n)"
proof -
  have "digit_value (CHR '':'') = None" "digit_value (CHR ''.'') = None" "digit_value (CHR ''+'') = None" by code_simp+
  then show "CHR '':'' \<notin> set (show_nat n)" "CHR ''.'' \<notin> set (show_nat n)" "CHR ''+'' \<notin> set (show_nat n)"
    by (auto dest: show_nat_digits)
qed

lemma show_int_plain: "CHR '':'' \<notin> set (show_int i)" "CHR ''.'' \<notin> set (show_int i)" "CHR ''+'' \<notin> set (show_int i)"
  using show_nat_plain by (auto simp: show_int_def)

lemma parse_int64_Atoi: "CHR ''+'' \<notin> set s \<Longrightarrow> Atoi s = parse_int64 s"
  unfolding Atoi_def parse_int64_def by (cases s) auto

lemma Atoi_show: "min_i64 \<le> i \<Longrightarrow> i \<le> max_i64 \<Longrightarrow> Atoi (show_int i) = Some i"
  by (simp add: parse_int64_Atoi show_int_plain parse_show_int)

lemma last_colon_split: "CHR '':'' \<notin> set q \<Longrightarrow> last_colon (p @ CHR '':'' # q) = Some (length p)"
proof -
  assume q: "CHR '':'' \<notin> set q"
  have "takeWhile (\<lambda>c. c \<noteq> CHR '':'') (rev q @ CHR '':'' # rev p) = rev q"
    using q by (subst takeWhile_append2) auto
  then show ?thesis by (simp add: last_colon_def)
qed

lemma resolved_role: "resolveToken a token = Some info \<Longrightarrow> au_Role info = RoleAdmin \<or> au_Role info = RoleViewer"
  by (auto simp: resolveToken_def known_role_def split: if_splits)

lemma issued_time:
  assumes "0 \<le> t" "t \<le> max_i64 * second"
  shows "unix_time (unix_seconds t) = second * (t div second)"
    and "min_i64 \<le> unix_seconds t" "unix_seconds t \<le> max_i64"
proof -
  have d: "0 \<le> t div second" "t div second \<le> max_i64"
    using assms by (auto simp: second_def intro: div_int_pos_iff [THEN iffD2])
  then show "min_i64 \<le> unix_seconds t" "unix_seconds t \<le> max_i64" "unix_time (unix_seconds t) = second * (t div second)"
    by (auto simp: unix_time_def unix_seconds_def min_i64_def max_i64_def)
qed

text \<open>The verification of a cookie the login makes.\<close>

lemma verify_login_cookie:
  assumes "role = RoleAdmin \<or> role = RoleViewer" "0 \<le> issued" "issued \<le> max_i64 * second"
  shows "verify_cookie env a now (cookie_sign env a (newPayload issued role)) =
           (if cookieMaxAge < time_sub now (second * (issued div second)) then Inl CookieExpired else Inr role)"
proof -
  let ?p = "role @ CHR '':'' # show_int (unix_seconds issued)"
  note it = issued_time [OF assms(2,3)]
  have p: "newPayload issued role = ?p" by (simp add: newPayload_def)
  have dot: "CHR ''.'' \<notin> set ?p" using assms(1) show_int_plain(2) by (auto simp: RoleAdmin_def RoleViewer_def)
  have parts: "payload_parts ?p = (role, show_int (unix_seconds issued))"
    by (simp add: payload_parts_def last_colon_split show_int_plain)
  have k: "known_role role = role" using assms(1) by (auto simp: known_role_def)
  show ?thesis
    unfolding p cookie_sign_def verify_cookie_def
    using cut_at_append [OF dot, of "av_mac env (at_cookieSigningKey a) ?p"] parts Atoi_show [OF it(2,3)] it(1) k by simp
qed

lemma Authenticate_cookie:
  assumes "extractBearer r = []" "map_of (ad_Cookies r) CookieName = Some val"
  shows "Authenticate env a now r =
           (case verify_cookie env a now val of Inl err \<Rightarrow> Inl err | Inr role \<Rightarrow> Inr \<lparr>au_Name = ''cookie-user'', au_Role = role\<rparr>)"
  using assms by (simp add: Authenticate_def)

section \<open>Properties\<close>

text \<open>
  C30 A login works: the cookie it sets authenticates a request that carries it, under the same signing key, with the
  role of the token, until more than 24 hours have passed since the second of the login; then it is refused as
  expired. Nothing else of the authenticator need stay the same: a token that was revoked keeps its cookie.
\<close>

theorem cookie_round_trip:
  assumes "Login env a issued token = Some cookie" "resolveToken a token = Some info"
    and "0 \<le> issued" "issued \<le> max_i64 * second" "at_cookieSigningKey a' = at_cookieSigningKey a"
    and "extractBearer r = []" "map_of (ad_Cookies r) CookieName = Some (ac_Value cookie)"
  shows "Authenticate env a' now r =
    (if cookieMaxAge < time_sub now (second * (issued div second)) then Inl CookieExpired
     else Inr \<lparr>au_Name = ''cookie-user'', au_Role = au_Role info\<rparr>)"
proof -
  have "ac_Value cookie = cookie_sign env a (newPayload issued (au_Role info))"
    using assms(1,2) by (auto simp: Login_def)
  then have "ac_Value cookie = cookie_sign env a' (newPayload issued (au_Role info))"
    using assms(5) by (simp add: cookie_sign_def)
  with assms(6,7) show ?thesis
    by (simp add: Authenticate_cookie verify_login_cookie [OF resolved_role [OF assms(2)] assms(3,4)])
qed

definition demo_auth_env :: auth_env where
  "demo_auth_env = \<lparr>av_mac = (\<lambda>key p. ''x'' @ key), av_parse_url = (\<lambda>u. None), av_escape = (\<lambda>s. s), av_loopback = (\<lambda>h. False)\<rparr>"

definition demo_authenticator :: Authenticator where
  "demo_authenticator = \<lparr>at_bootstrapToken = ''boot'', at_cookieSigningKey = ''key'',
     at_tokens = [\<lparr>te_Name = ''ci'', te_Token = ''t1'', te_Role = ''viewer''\<rparr>], at_cookieSecure = True\<rparr>"

definition demo_visit :: "string \<Rightarrow> string \<Rightarrow> string \<Rightarrow> AdminRequest" where
  "demo_visit m path cookie = \<lparr>ad_Method = m, ad_Path = path, ad_URI = path, ad_Host = ''gw'', ad_TLS = False, ad_Header = [],
     ad_Cookies = (if cookie = [] then [] else [(''aigw'', cookie)]), ad_Query = [], ad_Form = (True, []), ad_Body = [], ad_RemoteAddr = ''c''\<rparr>"

theorem cookie_round_trip_witness:
  "Authenticate demo_auth_env demo_authenticator (62135596805 * second) (demo_visit ''GET'' ''/admin'' ''viewer:5.xkey'') =
     Inr \<lparr>au_Name = ''cookie-user'', au_Role = ''viewer''\<rparr>"
proof -
  have l: "Login demo_auth_env demo_authenticator (62135596805 * second) ''t1'' =
      Some \<lparr>ac_Value = ''viewer:5.xkey'', ac_MaxAge = 86400, ac_Secure = True\<rparr>"
    "resolveToken demo_authenticator ''t1'' = Some \<lparr>au_Name = ''ci'', au_Role = ''viewer''\<rparr>"
    by code_simp+
  show ?thesis
    by (subst cookie_round_trip [OF l, where a' = demo_authenticator])
      (simp_all add: demo_visit_def extractBearer_def first_value_def CookieName_def max_i64_def second_def cookieMaxAge_def time_sub_def min_i64_def Let_def)
qed

text \<open>
  C31 No cookie is accepted that was not signed: when a request is authenticated by its cookie, the value is a payload
  without a dot and the signature of that payload under the key, the time stamp in the payload is not more than 24
  hours old, and the role is the one in the payload, admin for a payload without a role and viewer for any role that
  is not known.
\<close>

theorem accepted_cookie_signed:
  assumes "Authenticate env a now r = Inr info" "extractBearer r = []"
  shows "au_Name info = ''cookie-user'' \<and>
    (\<exists>payload role ts issued.
       map_of (ad_Cookies r) CookieName = Some (cookie_sign env a payload) \<and> CHR ''.'' \<notin> set payload \<and>
       payload_parts payload = (role, ts) \<and> Atoi ts = Some issued \<and> time_sub now (unix_time issued) \<le> cookieMaxAge \<and>
       au_Role info = known_role role)"
proof -
  obtain val where v: "map_of (ad_Cookies r) CookieName = Some val"
    using assms by (auto simp: Authenticate_def split: option.splits)
  obtain role' where r': "verify_cookie env a now val = Inr role'" and i: "info = \<lparr>au_Name = ''cookie-user'', au_Role = role'\<rparr>"
    using assms(1) unfolding Authenticate_cookie [OF assms(2) v] by (auto split: sum.splits)
  obtain p sig where c: "cut_at (CHR ''.'') val = (p, Some sig)"
    using r' by (auto simp: verify_cookie_def split: prod.splits option.splits)
  obtain role ts where pp: "payload_parts p = (role, ts)" by (cases "payload_parts p")
  have "sig = av_mac env (at_cookieSigningKey a) p" using r' c by (auto simp: verify_cookie_def split: if_splits)
  then have s: "val = cookie_sign env a p" "CHR ''.'' \<notin> set p" using cut_at_join [OF c] by (auto simp: cookie_sign_def)
  obtain issued where "Atoi ts = Some issued" "time_sub now (unix_time issued) \<le> cookieMaxAge" "role' = known_role role"
    using r' c pp by (auto simp: verify_cookie_def split: if_splits option.splits)
  with v s pp i show ?thesis by auto
qed

theorem accepted_cookie_signed_witness:
  "\<exists>payload. cookie_sign demo_auth_env demo_authenticator payload = ''viewer:5.xkey''"
proof -
  have "Authenticate demo_auth_env demo_authenticator (62135596805 * second) (demo_visit ''GET'' ''/admin'' ''viewer:5.xkey'') =
      Inr \<lparr>au_Name = ''cookie-user'', au_Role = ''viewer''\<rparr>"
    "extractBearer (demo_visit ''GET'' ''/admin'' ''viewer:5.xkey'') = []"
    by code_simp+
  from accepted_cookie_signed [OF this] show ?thesis by (auto simp: demo_visit_def CookieName_def)
qed

end
