(* ===== verification/Admin_Access.thy ===== *)
theory Admin_Access
  imports Admin_Routes Cookies
begin

text \<open>
  What the admin API guarantees for any request: who may change the configuration or the installation, that every such
  change is in the audit log, and what a viewer sees of the configuration.
\<close>

section \<open>What a request changes\<close>

definition ledger_of :: "'w control_plane \<Rightarrow> PublisherPolicy \<times> Revision list \<times> int \<times> PublishRecord list" where
  "ledger_of s = (pb_policy (cpl_publisher s), pb_revisions (cpl_publisher s), pb_activeIdx (cpl_publisher s), pb_publishes (cpl_publisher s))"

text \<open>The ledger of the publisher, with the installation and the log.\<close>

definition core :: "'w control_plane \<Rightarrow> (PublisherPolicy \<times> Revision list \<times> int \<times> PublishRecord list) \<times> Manager option" where
  "core s = (ledger_of s, cpl_updates s)"

named_theorems core_simps
named_theorems core_kept

lemma on_world_core [core_kept]: "on_plane f s = (a, s') \<Longrightarrow> core s' = core s \<and> cpl_audit s' = cpl_audit s"
  by (auto simp: on_plane_def on_pb_world_def core_def ledger_of_def split: prod.splits)

lemma core_on_world [core_simps]: "core (snd (on_plane f s)) = core s" "cpl_audit (snd (on_plane f s)) = cpl_audit s"
  by (auto simp: on_plane_def on_pb_world_def core_def ledger_of_def split: prod.splits)

lemma on_publisher_audit: "on_publisher f s = (a, s') \<Longrightarrow> cpl_audit s' = cpl_audit s \<and> cpl_updates s' = cpl_updates s"
  by (auto simp: on_publisher_def split: prod.splits)

lemma core_audit_update [core_simps]: "core (s\<lparr>cpl_audit := l\<rparr>) = core s"
  by (simp add: core_def ledger_of_def)

lemma core_recordAudit [core_simps]: "core (recordAudit env role r action resource success err details s) = core s"
  by (auto simp: recordAudit_def core_simps dest: core_kept split: option.splits prod.splits)

lemma snd_writeJSON [core_simps]: "snd (writeJSON status body s) = s" by (simp add: writeJSON_def)
lemma snd_writeError [core_simps]: "snd (admin_error status msg s) = s" by (simp add: admin_error_def core_simps)
lemma snd_methodNotAllowed [core_simps]: "snd (methodNotAllowed s) = s" by (simp add: methodNotAllowed_def core_simps)
lemma snd_telemetryError [core_simps]: "snd (writeTelemetryError err s) = s" by (simp add: writeTelemetryError_def core_simps)
lemma snd_gatewayError [core_simps]: "snd (writeGatewayError err s) = s" by (simp add: writeGatewayError_def core_simps)

lemma snd_publish_text [simp]: "snd (publish_text env x) = snd x" by (cases x) (simp add: publish_text_def)

text \<open>An answer to an outcome: the state of the outcome with an event.\<close>

lemma snd_answer:
  "\<exists>action' resource success err details. snd (answer_noting noted env role r action resource0 status event body outcome) =
     recordAudit env role r action resource success err details (snd outcome)"
  by (cases outcome) (auto simp: answer_noting_def core_simps split: sum.splits prod.splits)

lemma core_answer [core_simps]: "core (snd (answer_noting noted env role r action resource status event body outcome)) = core (snd outcome)"
  using snd_answer [of noted env role r action resource status event body outcome] by (auto simp: core_simps)

section \<open>The compiler does not touch the ledger\<close>

lemma compile_config_core: "core (snd (on_publisher (compile_config co c) s)) = core s"
  by (simp add: on_publisher_def compile_config_def publisher_now_def generateSnapshotID_def on_pb_world_def core_def ledger_of_def
      split: prod.splits)

lemma compile_checked_ledger:
  "compile_checked co c p = (x, p') \<Longrightarrow>
     pb_policy p' = pb_policy p \<and> pb_revisions p' = pb_revisions p \<and> pb_activeIdx p' = pb_activeIdx p \<and> pb_publishes p' = pb_publishes p"
  by (auto simp: compile_checked_def compile_config_def publisher_now_def generateSnapshotID_def on_pb_world_def
      split: prod.splits sum.splits option.splits)

lemma ValidateConfig_core: "core (snd (on_publisher (ValidateConfig co input) s)) = core s"
  by (auto simp: on_publisher_def ValidateConfig_def core_def ledger_of_def Let_def dest!: compile_checked_ledger split: prod.splits sum.splits)

lemma PreviewConfig_core [core_simps]: "core (snd (PreviewConfig env req s)) = core s"
proof -
  have "publish_text env (on_publisher (compile_config co c) s) = (x, s') \<Longrightarrow> core s' = core s" for co c x s'
    using compile_config_core [of co c s] snd_publish_text [of env "on_publisher (compile_config co c) s"] by simp
  then show ?thesis by (auto simp: PreviewConfig_def split: sum.splits prod.splits)
qed

section \<open>Handlers that only read\<close>

lemma ask_telemetry_core [core_simps]: "core (snd (ask_telemetry q rpc s)) = core s"
  by (auto simp: ask_telemetry_def core_simps dest: core_kept split: prod.splits sum.splits)

lemma ask_benchmarks_core [core_simps]: "core (snd (ask_benchmarks rpc c status shape s)) = core s"
  by (auto simp: ask_benchmarks_def core_simps dest: core_kept split: prod.splits sum.splits option.splits)

lemma post_benchmark_core [core_simps]: "core (snd (post_benchmark env rpc valid c r s)) = core s"
  by (simp add: post_benchmark_def core_simps split: body_read.splits)

lemma gateway_part_core [core_kept]: "gateway_part env rpc s = (x, s') \<Longrightarrow> core s' = core s \<and> cpl_audit s' = cpl_audit s"
  by (auto simp: gateway_part_def dest!: core_kept split: if_splits prod.splits sum.splits)

lemma telemetry_part_core [core_kept]: "telemetry_part rpc s = (x, s') \<Longrightarrow> core s' = core s \<and> cpl_audit s' = cpl_audit s"
  by (auto simp: telemetry_part_def dest!: core_kept split: if_splits prod.splits sum.splits)

lemma buildStatusPayload_core [core_kept]: "buildStatusPayload env rpc s = (x, s') \<Longrightarrow> core s' = core s \<and> cpl_audit s' = cpl_audit s"
  unfolding buildStatusPayload_def Let_def
  by (auto dest!: core_kept split: prod.splits)

lemma probe_core [core_simps]: "core (snd (probe env rpc required req s)) = core s"
  unfolding probe_def Let_def
  by (auto dest!: core_kept split: prod.splits sum.splits option.splits if_splits)

definition reads_only :: "'w rpc_handler \<Rightarrow> bool" where
  "reads_only h \<longleftrightarrow> (\<forall>env rpc role r s. core (snd (h env rpc role r s)) = core s)"

lemma reading_handlers:
  "reads_only overviewHandler" "reads_only (\<lambda>env rpc. configHandler env)" "reads_only (\<lambda>env rpc. configHistoryHandler env)"
  "reads_only telemetryHandler" "reads_only timeseriesHandler" "reads_only benchmarkHandler" "reads_only benchmarkBaselinesHandler"
  "reads_only benchmarkBaselineImportHandler" "reads_only benchmarkRunsHandler" "reads_only benchmarkRunDetailHandler"
  by (simp_all add: reads_only_def overviewHandler_def configHandler_def configHistoryHandler_def telemetryHandler_def
      timeseriesHandler_def benchmarkHandler_def benchmarkBaselinesHandler_def benchmarkBaselineImportHandler_def
      benchmarkRunsHandler_def benchmarkRunDetailHandler_def core_simps Let_def split: prod.splits)

lemma reading_status:
  "reads_only statusHandler" "reads_only runtimeStatusHandler" "reads_only runtimePreflightHandler" "reads_only metricsHandler" "reads_only diagnosticsHandler"
  unfolding reads_only_def statusHandler_def runtimeStatusHandler_def runtimePreflightHandler_def metricsHandler_def diagnosticsHandler_def Let_def
  by (auto simp: core_simps dest!: core_kept split: prod.splits)

lemma reading_rest:
  "reads_only updateStatusHandler" "reads_only auditHandler" "reads_only clientErrorHandler" "reads_only replay_route" "reads_only frontendHandler"
  "reads_only (\<lambda>env rpc. secretsStatusHandler env)" "reads_only pricingStatusHandler" "reads_only pricingRefreshHandler" "reads_only (handleProbe provider)"
  unfolding reads_only_def updateStatusHandler_def auditHandler_def clientErrorHandler_def replay_route_def frontendHandler_def
    secretsStatusHandler_def pricingStatusHandler_def pricingRefreshHandler_def handleProbe_def Let_def
  by (auto simp: core_simps dest!: core_kept split: prod.splits sum.splits option.splits)

lemma reading_tools:
  "reads_only (\<lambda>env rpc. configValidateHandler env)" "reads_only (\<lambda>env rpc. configPreviewHandler env)" "reads_only (\<lambda>env rpc. configDiffHandler env)"
  unfolding reads_only_def configValidateHandler_def configPreviewHandler_def configDiffHandler_def
  by (auto simp: core_simps ValidateConfig_core split: option.splits)

section \<open>Handlers that change something\<close>

text \<open>A change comes with a POST request, and with an event in the log that the state before it had.\<close>

definition logged_change :: "'w admin_env \<Rightarrow> string \<Rightarrow> AdminRequest \<Rightarrow> 'w control_plane \<Rightarrow> 'w control_plane \<Rightarrow> bool" where
  "logged_change env role r s s' \<longleftrightarrow> core s' = core s \<or> ad_Method r = ''POST'' \<and>
     (\<exists>s1 action resource success err details. s' = recordAudit env role r action resource success err details s1 \<and> cpl_audit s1 = cpl_audit s)"

definition writing :: "'w rpc_handler \<Rightarrow> bool" where
  "writing h \<longleftrightarrow> (\<forall>env rpc role r s. logged_change env role r s (snd (h env rpc role r s)))"

lemma logged_same [simp]: "logged_change env role r s s" by (simp add: logged_change_def)

lemma logged_answer:
  assumes "ad_Method r = ''POST''" "cpl_audit (snd outcome) = cpl_audit s"
  shows "logged_change env role r s (snd (answer_noting noted env role r action resource status event body outcome))"
  using snd_answer [of noted env role r action resource status event body outcome] assms unfolding logged_change_def by metis

lemma on_publisher_log [simp]: "cpl_audit (snd (on_publisher f s)) = cpl_audit s"
  by (simp add: on_publisher_def split: prod.splits)

lemma publish_text_log: "publish_text env x = (y, s') \<Longrightarrow> s' = snd x"
  using snd_publish_text [of env x] by simp

lemma UpdateConfig_log: "cpl_audit (snd (commands_UpdateConfig env cfg description s)) = cpl_audit s"
  unfolding commands_UpdateConfig_def
  by (auto dest!: publish_text_log core_kept split: prod.splits sum.splits option.splits)

lemma loadInitialRevision_log: "loadInitialRevision env path s = (x, s') \<Longrightarrow> cpl_audit s' = cpl_audit s"
  unfolding loadInitialRevision_def Let_def
  by (auto dest!: core_kept split: prod.splits sum.splits)

lemma applyWatchedRevision_log: "cpl_audit (snd (applyWatchedRevision env revision s)) = cpl_audit s"
  unfolding applyWatchedRevision_def
  by (auto dest!: publish_text_log on_publisher_audit split: prod.splits sum.splits option.splits)

lemma reload_log: "cpl_audit (snd (reloadConfigFromSource env s)) = cpl_audit s"
  unfolding reloadConfigFromSource_def
  by (auto simp: applyWatchedRevision_log dest!: loadInitialRevision_log split: prod.splits sum.splits)

lemma with_manager_log: "cpl_audit (snd (with_manager env f um s)) = cpl_audit s"
  unfolding with_manager_def by (auto dest!: core_kept split: prod.splits)

lemma writing_config:
  "writing (\<lambda>env rpc. configPublishHandler env)" "writing (\<lambda>env rpc. configReloadHandler env)"
  "writing (\<lambda>env rpc. configRollbackHandler env)" "writing (\<lambda>env rpc. configUpdateHandler env)"
  unfolding writing_def configPublishHandler_def configReloadHandler_def configRollbackHandler_def configUpdateHandler_def
  by (auto simp: core_simps reload_log UpdateConfig_log intro!: logged_answer split: option.splits)

lemma logged_update_post:
  assumes "\<And>um s. ad_Method r = ''POST'' \<Longrightarrow> logged_change env role r s (snd (f um s))"
  shows "logged_change env role r s (snd (update_post f r s))"
  using assms by (simp add: update_post_def core_simps split: option.splits)

lemma writing_update:
  "writing updateCheckHandler" "writing updateFetchHandler" "writing updateApplyHandler" "writing updateRollbackHandler"
  unfolding writing_def updateCheckHandler_def updateFetchHandler_def updateApplyHandler_def updateRollbackHandler_def
  by (auto simp: core_simps with_manager_log intro!: logged_update_post logged_answer split: option.splits sum.splits)

lemma write_paths:
  "list_all (\<lambda>p. isSameOriginWriteRequired p ''POST'')
     [''/api/admin/config/publish'', ''/api/admin/config/reload'', ''/api/admin/config/rollback'', ''/api/admin/config/update'',
      ''/api/admin/update/check'', ''/api/admin/update/fetch'', ''/api/admin/update/apply'', ''/api/admin/update/rollback'']"
  by code_simp

lemma route_kinds:
  "(path, h) \<in> set api_routes \<Longrightarrow> reads_only h \<or> writing h \<and> isSameOriginWriteRequired path ''POST''"
  using write_paths
  by (auto simp: api_routes_def reading_handlers reading_status reading_rest reading_tools writing_config writing_update)

lemma api_route_kinds:
  "api_route path = Some h \<Longrightarrow> reads_only h \<or> writing h \<and> isSameOriginWriteRequired path ''POST''"
  using route_kinds reading_handlers(10) reading_rest(5)
  by (auto simp: api_route_def dest: map_of_SomeD split: option.splits if_splits)

section \<open>The middleware\<close>

text \<open>The roles with which the handler of a request runs, if it runs.\<close>

definition admitted :: "auth_env \<Rightarrow> gotime \<Rightarrow> 'e + Authenticator option \<Rightarrow> AdminRequest \<Rightarrow> string \<Rightarrow> bool" where
  "admitted env now a r role \<longleftrightarrow>
     a = Inr None \<and> role = [] \<or>
     (\<exists>au. a = Inr (Some au) \<and>
       (isPublicAdminShellRequest r \<and> role = [] \<or>
        (\<exists>info. Authenticate env au now r = Inr info \<and> role = au_Role info \<and> canAccessAdminRoute role (ad_Method r) \<and>
          (isCookieAuthenticated r \<and> isSameOriginWriteRequired (ad_Path r) (ad_Method r) \<longrightarrow> isValidSameOriginRequest env r))))"

lemma middleware_cases:
  "(\<exists>resp. adminAuthMiddleware env now a h r s = (resp, s) \<and> (\<forall>b. ar_Body resp \<noteq> ApiBody b)) \<or>
   (\<exists>role. admitted env now a r role \<and> adminAuthMiddleware env now a h r s = h role r s)"
proof (cases a)
  case (Inl err)
  then show ?thesis by (simp add: adminAuthMiddleware_def writeAdminAuthError_def reply_with_def)
next
  case (Inr current)
  show ?thesis
  proof (cases current)
    case None
    then show ?thesis using Inr by (auto simp: adminAuthMiddleware_def admitted_def)
  next
    case (Some au)
    note a = Inr Some
    show ?thesis
    proof (cases "Authenticate env au now r")
      case (Inl err)
      then show ?thesis using a
        by (auto simp: adminAuthMiddleware_def admitted_def writeAdminAuthError_def redirect_to_def reply_with_def)
    next
      case (Inr info)
      then show ?thesis using a
        by (cases "canAccessAdminRoute (au_Role info) (ad_Method r)")
          (auto simp: adminAuthMiddleware_def admitted_def writeAdminAuthError_def reply_with_def)
    qed
  qed
qed

lemma admitted_post:
  assumes "admitted env now a r role" "ad_Method r = ''POST''"
  shows "a = Inr None \<and> role = [] \<or>
    (\<exists>au info. a = Inr (Some au) \<and> Authenticate env au now r = Inr info \<and> role = au_Role info \<and> role = RoleAdmin \<and>
      (isCookieAuthenticated r \<and> isSameOriginWriteRequired (ad_Path r) ''POST'' \<longrightarrow> isValidSameOriginRequest env r))"
  using assms by (auto simp: admitted_def isPublicAdminShellRequest_def canAccessAdminRoute_def read_method_def)

text \<open>The handler of the daemon: one of the routes behind the middleware, or nothing changes.\<close>

lemma record_login_core: "core (snd (record_login env outcome s)) = core s"
  unfolding record_login_def by (auto simp: core_simps dest!: core_kept split: prod.splits option.splits)

lemma reading_core: "reads_only h \<Longrightarrow> core (snd (h env rpc role r s)) = core s" by (simp add: reads_only_def)

text \<open>An answer that shows a configuration, or what was made of one.\<close>

fun config_shown :: "api_body admin_body \<Rightarrow> bool" where
  "config_shown (ApiBody (ViewBody view)) \<longleftrightarrow> ccv_Config view \<noteq> None \<or> ccv_RawYAML view \<noteq> []"
| "config_shown (ApiBody (PreviewBody p)) \<longleftrightarrow> True"
| "config_shown (ApiBody (DiffBody d)) \<longleftrightarrow> True"
| "config_shown b \<longleftrightarrow> False"

lemma plain_body [simp]: "(\<And>b. body \<noteq> ApiBody b) \<Longrightarrow> \<not> config_shown body" by (cases body) auto

named_theorems shown_rules

lemma shown_writeJSON [shown_rules]: "ar_Body (fst (writeJSON status b s)) = ApiBody b" by (simp add: writeJSON_def reply_with_def)
lemma shown_writeError [shown_rules]: "ar_Body (fst (admin_error status msg s)) = ApiBody (ErrorText msg)" by (simp add: admin_error_def shown_rules)
lemma shown_method [shown_rules]: "ar_Body (fst (methodNotAllowed s)) = ApiBody (ErrorText ''method not allowed'')"
  by (simp add: methodNotAllowed_def shown_rules)
lemma shown_telemetryError [shown_rules]: "\<not> config_shown (ar_Body (fst (writeTelemetryError err s)))" by (simp add: writeTelemetryError_def shown_rules)
lemma shown_gatewayError [shown_rules]: "\<not> config_shown (ar_Body (fst (writeGatewayError err s)))" by (simp add: writeGatewayError_def shown_rules)

lemma shown_answer [shown_rules]:
  "(\<And>a. \<not> config_shown (ApiBody (body a))) \<Longrightarrow>
     \<not> config_shown (ar_Body (fst (answer_noting noted env role r action resource status event body outcome)))"
  by (auto simp: answer_noting_def shown_rules split: prod.splits sum.splits)

lemma shown_ask [shown_rules]: "\<not> config_shown (ar_Body (fst (ask_telemetry q rpc s)))" "\<not> config_shown (ar_Body (fst (ask_benchmarks rpc c status shape s)))"
  by (auto simp: ask_telemetry_def ask_benchmarks_def shown_rules split: prod.splits sum.splits option.splits)

lemma shown_post [shown_rules]: "\<not> config_shown (ar_Body (fst (post_benchmark env rpc valid c r s)))"
  by (simp add: post_benchmark_def shown_rules split: body_read.splits)

lemma shown_update [shown_rules]:
  "(\<And>um s. \<not> config_shown (ar_Body (fst (f um s)))) \<Longrightarrow> \<not> config_shown (ar_Body (fst (update_post f r s)))"
  by (simp add: update_post_def shown_rules split: option.splits)

text \<open>A handler that shows one only to a POST request, or not to a viewer.\<close>

definition discreet :: "'w rpc_handler \<Rightarrow> bool" where
  "discreet h \<longleftrightarrow> (\<forall>env rpc role r s. \<not> config_shown (ar_Body (fst (h env rpc role r s))))"

definition guarded :: "'w rpc_handler \<Rightarrow> bool" where
  "guarded h \<longleftrightarrow> (\<forall>env rpc role r s. config_shown (ar_Body (fst (h env rpc role r s))) \<longrightarrow>
     ad_Method r = ''POST'' \<or> role = [] \<or> role = RoleAdmin)"

lemma discreet_queries:
  "discreet overviewHandler" "discreet (\<lambda>env rpc. configHistoryHandler env)" "discreet telemetryHandler" "discreet timeseriesHandler"
  "discreet benchmarkHandler" "discreet benchmarkBaselinesHandler" "discreet benchmarkBaselineImportHandler"
  "discreet benchmarkRunsHandler" "discreet benchmarkRunDetailHandler"
  by (simp_all add: discreet_def overviewHandler_def configHistoryHandler_def telemetryHandler_def
      timeseriesHandler_def benchmarkHandler_def benchmarkBaselinesHandler_def benchmarkBaselineImportHandler_def
      benchmarkRunsHandler_def benchmarkRunDetailHandler_def shown_rules Let_def split: prod.splits)

lemma discreet_status:
  "discreet statusHandler" "discreet runtimeStatusHandler" "discreet runtimePreflightHandler" "discreet metricsHandler" "discreet diagnosticsHandler"
  by (simp_all add: discreet_def statusHandler_def runtimeStatusHandler_def runtimePreflightHandler_def metricsHandler_def
      diagnosticsHandler_def Let_def shown_rules split: prod.splits)

lemma discreet_rest:
  "discreet updateStatusHandler" "discreet auditHandler" "discreet clientErrorHandler" "discreet replay_route" "discreet frontendHandler"
  "discreet (\<lambda>env rpc. secretsStatusHandler env)" "discreet pricingStatusHandler" "discreet pricingRefreshHandler" "discreet (handleProbe provider)"
  by (simp_all add: discreet_def updateStatusHandler_def auditHandler_def clientErrorHandler_def replay_route_def frontendHandler_def
    secretsStatusHandler_def pricingStatusHandler_def pricingRefreshHandler_def handleProbe_def Let_def shown_rules reply_with_def
    split: prod.splits sum.splits option.splits)

lemma discreet_changes:
  "discreet (\<lambda>env rpc. configPublishHandler env)" "discreet (\<lambda>env rpc. configReloadHandler env)"
  "discreet (\<lambda>env rpc. configRollbackHandler env)" "discreet (\<lambda>env rpc. configUpdateHandler env)"
  "discreet (\<lambda>env rpc. configValidateHandler env)"
  "discreet updateCheckHandler" "discreet updateFetchHandler" "discreet updateApplyHandler" "discreet updateRollbackHandler"
  unfolding discreet_def configPublishHandler_def configReloadHandler_def configRollbackHandler_def configUpdateHandler_def
    configValidateHandler_def updateCheckHandler_def updateFetchHandler_def updateApplyHandler_def updateRollbackHandler_def
  by (auto simp: shown_rules split: option.splits sum.splits)

lemma guarded_tools:
  "guarded (\<lambda>env rpc. configPreviewHandler env)" "guarded (\<lambda>env rpc. configDiffHandler env)" "guarded (\<lambda>env rpc. configHandler env)"
  by (auto simp: guarded_def configPreviewHandler_def configDiffHandler_def configHandler_def Let_def shown_rules split: if_splits)

lemma discreet_guarded: "discreet h \<Longrightarrow> guarded h" by (simp add: discreet_def guarded_def)

lemma routes_guarded: "(path, h) \<in> set api_routes \<Longrightarrow> guarded h \<and> (discreet h \<or> \<not> isBrowserAdminPath path)"
  by (auto simp: api_routes_def discreet_queries discreet_status discreet_rest discreet_changes guarded_tools discreet_guarded
      isBrowserAdminPath_def)

lemma api_route_guarded: "api_route path = Some h \<Longrightarrow> guarded h \<and> (discreet h \<or> \<not> isBrowserAdminPath path)"
  using routes_guarded discreet_queries(9) discreet_rest(5) discreet_guarded
  by (auto simp: api_route_def dest: map_of_SomeD split: option.splits if_splits)

text \<open>The pages of the login are plain.\<close>

lemma login_bodies:
  "ar_Body (adminLoginPageHandler env now a r) \<noteq> ApiBody b" "ar_Body (adminBrowserLogoutHandler a) \<noteq> ApiBody b"
  "ar_Body (adminSessionAPIHandler env now a r) \<noteq> ApiBody b" "ar_Body (fst (adminLoginAPIHandler env now a t r)) \<noteq> ApiBody b"
  "ar_Body (fst (adminLogoutAPIHandler a r)) \<noteq> ApiBody b"
  by (simp_all add: adminLoginPageHandler_def adminBrowserLogoutHandler_def adminSessionAPIHandler_def adminLoginAPIHandler_def
      adminLogoutAPIHandler_def login_page_def reply_with_def redirect_to_def session_body_def writeAdminAuthError_def Let_def
      split: sum.splits option.splits)

lemma record_login_fst: "fst (record_login env outcome s) = fst outcome"
  by (simp add: record_login_def split: prod.splits option.splits)

section \<open>The handler of the daemon\<close>

lemma discreet_body: "discreet h \<Longrightarrow> \<not> config_shown (ar_Body (fst (h env rpc role r s)))" by (simp add: discreet_def)

lemma createHandler_cases:
  fixes env :: "'w admin_env"
  shows "core (snd (createHandler env rpc now r s)) = core s \<and> \<not> config_shown (ar_Body (fst (createHandler env rpc now r s))) \<or>
    (\<exists>h role. api_route (ad_Path r) = Some h \<and> admitted (am_auth env) now (daemon_authenticator env s) r role \<and>
      createHandler env rpc now r s = h env rpc role r s)"
proof -
  have own: "core (snd (healthHandler env rpc [] r s)) = core s" "core (snd (metricsHandler env rpc [] r s)) = core s"
    "core (snd (frontendHandler env rpc [] r s)) = core s" "\<not> config_shown (ar_Body (fst (healthHandler env rpc [] r s)))"
    "\<not> config_shown (ar_Body (fst (metricsHandler env rpc [] r s)))" "\<not> config_shown (ar_Body (fst (frontendHandler env rpc [] r s)))"
    by (simp_all add: healthHandler_def core_simps shown_rules reading_core reading_status reading_rest discreet_body discreet_status discreet_rest)
  show ?thesis
  proof (cases "api_route (ad_Path r) :: 'w rpc_handler option")
    case None
    then show ?thesis
      by (auto simp: createHandler_def own record_login_core record_login_fst login_bodies reply_with_def Let_def)
  next
    case (Some h)
    show ?thesis
      using middleware_cases [of "am_auth env" now "daemon_authenticator env s" "h env rpc" r s] Some
      by (auto simp: createHandler_def own record_login_core record_login_fst login_bodies Let_def)
  qed
qed

text \<open>What a change of the ledger or of the installation comes from.\<close>

lemma change_route:
  assumes "createHandler env rpc now r s = (resp, s')" "core s' \<noteq> core s"
  obtains h role where "api_route (ad_Path r) = Some h" "admitted (am_auth env) now (daemon_authenticator env s) r role"
    "(resp, s') = h env rpc role r s" "logged_change env role r s s'" "isSameOriginWriteRequired (ad_Path r) ''POST''"
proof -
  obtain h role where h: "api_route (ad_Path r) = Some h" "admitted (am_auth env) now (daemon_authenticator env s) r role"
    "(resp, s') = h env rpc role r s"
    using createHandler_cases [of env rpc now r s] assms by auto
  have changed: "core (snd (h env rpc role r s)) \<noteq> core s" using h(3) assms(2) by (metis snd_conv)
  then have "\<not> reads_only h" by (auto simp: reading_core)
  with api_route_kinds [OF h(1)] have w: "writing h" "isSameOriginWriteRequired (ad_Path r) ''POST''" by blast+
  have "logged_change env role r s (snd (h env rpc role r s))" using w(1) by (simp add: writing_def)
  then have "logged_change env role r s s'" using h(3) by (metis snd_conv)
  with that h w(2) show thesis by blast
qed

lemma core_change: "ledger_of s' \<noteq> ledger_of s \<or> cpl_updates s' \<noteq> cpl_updates s \<longleftrightarrow> core s' \<noteq> core s"
  by (auto simp: core_def)

section \<open>A daemon for the witnesses\<close>

text \<open>A daemon with admin access, an empty log, and an update manager with nothing to roll back to.\<close>

definition demo_admin_config :: Config where
  "demo_admin_config = demo_config\<lparr>cfg_Admin := (cfg_Admin demo_config)\<lparr>adm_Enabled := True, adm_BootstrapToken := ''boot'',
     adm_CookieSigningKey := ''key'', adm_Tokens := []\<rparr>\<rparr>"

definition demo_admin_control :: "unit control" where
  "demo_admin_control = \<lparr>co_gateway = None, co_compiler = True, co_revisionCompiler = None, co_store = None,
     co_codec = \<lparr>cd_enc_config = (\<lambda>_. Inr ''c''), cd_dec_config = (\<lambda>_. Inr demo_admin_config), cd_enc_snapshot = (\<lambda>_. Inr ''s''),
       cd_dec_snapshot = (\<lambda>_. Inl ''syntax''), cd_format_time = (\<lambda>_. ''t''), cd_parse_time = (\<lambda>_. Inr 7), cd_enc_state = (\<lambda>_. Inr ''p''),
       cd_dec_state = (\<lambda>_. Inl ''syntax'')\<rparr>,
     co_parseURL = (\<lambda>_. None), co_printURL = (\<lambda>_. []), co_now = (\<lambda>w. (7, w)), co_newID = (\<lambda>k w. (k @ ''1'', w))\<rparr>"

definition demo_admin_env :: "unit admin_env" where
  "demo_admin_env = \<lparr>
     am_settings = \<lparr>cs_Version = ''1'', cs_ConfigPath = [], cs_DataDir = ''d'', cs_Listen = ''localhost:1'', cs_GatewaySocket = ''g'',
       cs_TelemetrySocket = ''t'', cs_StartedAt = 1\<rparr>,
     am_auth = demo_auth_env, am_audit = \<lparr>ae_encode = (\<lambda>e. Some (ev_Role e)), ae_decode = (\<lambda>l. None), ae_uuid = (\<lambda>ls. ''u'')\<rparr>,
     am_writable = (\<lambda>w. True),
     am_update = \<lparr>rl_ProductVersion = ''1.0.0'', rl_GOOS = ''linux'', rl_GOARCH = ''amd64'', rl_sha256 = (\<lambda>t. t), rl_encode = (\<lambda>m. []),
       rl_decode = (\<lambda>t. None), ue_http = (\<lambda>url. None), ue_release = (\<lambda>t. None), ue_zip = (\<lambda>t. None), ue_targz = (\<lambda>t. None),
       ue_stamp = (\<lambda>t. ''0''), ue_tmp = ''1''\<rparr>, am_control = demo_admin_control,
     am_os = \<lparr>os_mkdir_all = (\<lambda>p w. (None, w)), os_create_temp = (\<lambda>d n w. (Inr n, w)), os_write = (\<lambda>p t w. (None, w)),
       os_close = (\<lambda>p w. (None, w)), os_rename = (\<lambda>p q w. (None, w)), os_remove = (\<lambda>p w. w)\<rparr>,
     am_body = (\<lambda>b. NoBody), am_input = (\<lambda>v. CI_Other ''x''), am_yaml = (\<lambda>v. Inr ''c''), am_config_json = (\<lambda>c. []),
     am_publish_text = (\<lambda>e. ''e''), am_manager_text = (\<lambda>e. ''e''), am_update_text = (\<lambda>e. ''e''),
     am_load_config = (\<lambda>p w. (Inl ''e'', w)), am_mod_time = (\<lambda>p w. (None, w)), am_hash = (\<lambda>c. Inr ''h''),
     am_gateway_up = (\<lambda>w. False), am_parse_time = (\<lambda>t. None), am_format_time = (\<lambda>t. ''t''), am_show_duration = (\<lambda>t. ''t'')\<rparr>"

definition demo_admin_rpc :: "unit admin_rpc" where
  "demo_admin_rpc = \<lparr>rc_telemetry_up = (\<lambda>w. False), rc_telemetry = (\<lambda>q w. (Inl ''e'', w)), rc_ping = (\<lambda>w. (Inl ''e'', w)),
     rc_gateway_status = (\<lambda>w. (Inl ''e'', w)), rc_pricing_status = (\<lambda>w. (Inl ''e'', w)), rc_pricing_refresh = (\<lambda>w. (Inl ''e'', w)),
     rc_run_case = (\<lambda>q w. (Inl ''e'', w)), rc_import_request = (\<lambda>v. True), rc_start_request = (\<lambda>v. True), rc_benchmark = None,
     rc_replay = None, rc_page = (\<lambda>r w. ((200, ''page''), w))\<rparr>"

definition demo_plane :: "unit control_plane" where
  "demo_plane = \<lparr>
     cpl_publisher = \<lparr>pb_policy = \<lparr>pp_PublishHistoryLimit = 5\<rparr>,
       pb_revisions = [\<lparr>rv_RevisionID = ''r1'', rv_CreatedAt = 1, rv_CreatedBy = ''x'', rv_Description = [], rv_Config = Some demo_admin_config,
         rv_Snapshot = None\<rparr>], pb_activeIdx = 0, pb_publishes = [], pb_world = ()\<rparr>,
     cpl_updates = Some \<lparr>um_opts = \<lparr>op_CurrentVersion = ''1.0.0'', op_Repository = [], op_APIBaseURL = [], op_Platform = [], op_DownloadDir = ''dl'',
       op_InstallDir = ''i'', op_StateDir = ''s''\<rparr>, um_disk = \<lparr>dk_files = [], dk_faults = []\<rparr>, um_saved = None, um_can_save = True\<rparr>,
     cpl_audit = Some []\<rparr>"

definition demo_admin_request :: "string \<Rightarrow> string \<Rightarrow> AdminRequest" where
  "demo_admin_request m path = (demo_visit m path [])\<lparr>ad_Header := [(''Authorization'', ''Bearer boot'')]\<rparr>"

lemma demo_daemon_auth:
  "daemon_authenticator demo_admin_env demo_plane =
     Inr (Some \<lparr>at_bootstrapToken = ''boot'', at_cookieSigningKey = ''key'', at_tokens = [], at_cookieSecure = False\<rparr>)"
  by code_simp

lemma demo_routes:
  "api_route ''/api/admin/update/rollback'' = Some updateRollbackHandler" "api_route ''/api/admin/config'' = Some (\<lambda>env rpc. configHandler env)"
  by (simp_all add: api_route_def api_routes_def)

lemma demo_admitted:
  "adminAuthMiddleware demo_auth_env 1 (Inr (Some \<lparr>at_bootstrapToken = ''boot'', at_cookieSigningKey = ''key'', at_tokens = [], at_cookieSecure = False\<rparr>))
     h (demo_admin_request m path) s = h RoleAdmin (demo_admin_request m path) s"
proof -
  have "extractBearer (demo_admin_request m path) = extractBearer (demo_admin_request [] [])"
    by (simp add: extractBearer_def demo_admin_request_def demo_visit_def)
  moreover have "extractBearer (demo_admin_request [] []) = ''boot''" by code_simp
  moreover have "ad_Cookies (demo_admin_request m path) = []" by (simp add: demo_admin_request_def demo_visit_def)
  ultimately show ?thesis
    by (simp add: adminAuthMiddleware_def Authenticate_def resolveToken_def isCookieAuthenticated_def canAccessAdminRoute_def)
qed

lemma demo_request_fields:
  "ad_Path (demo_admin_request m path) = path" "ad_Method (demo_admin_request m path) = m" "am_auth demo_admin_env = demo_auth_env"
  by (simp_all add: demo_admin_request_def demo_visit_def demo_admin_env_def)

lemma demo_served:
  "createHandler demo_admin_env demo_admin_rpc 1 (demo_admin_request m ''/api/admin/update/rollback'') demo_plane =
    updateRollbackHandler demo_admin_env demo_admin_rpc RoleAdmin (demo_admin_request m ''/api/admin/update/rollback'') demo_plane"
  "createHandler demo_admin_env demo_admin_rpc 1 (demo_admin_request m ''/api/admin/config'') demo_plane =
    configHandler demo_admin_env RoleAdmin (demo_admin_request m ''/api/admin/config'') demo_plane"
  by (simp_all add: createHandler_def demo_request_fields demo_daemon_auth demo_routes demo_admitted)

lemma demo_config_read:
  "config_shown (ar_Body (fst (createHandler demo_admin_env demo_admin_rpc 1 (demo_admin_request ''GET'' ''/api/admin/config'') demo_plane)))"
proof -
  have "ccv_Config (GetCurrentConfigView (co_codec (am_control demo_admin_env)) (cpl_publisher demo_plane)) \<noteq> None"
    by (simp add: GetCurrentConfigView_def active_revision_def demo_plane_def Let_def)
  then show ?thesis by (simp add: demo_served configHandler_def demo_request_fields Let_def shown_rules)
qed

lemma demo_rollback_saves:
  "um_saved (snd (Manager_Rollback (am_update demo_admin_env) t (the (cpl_updates demo_plane)))) \<noteq> None"
  "um_saved (the (cpl_updates demo_plane)) = None"
  by (simp_all add: demo_plane_def Manager_Rollback_def finish_failed_def finish_done_def saveStatus_def Let_def split: sum.splits prod.splits)

lemma demo_rollback_runs:
  "cpl_updates (snd (createHandler demo_admin_env demo_admin_rpc 1 (demo_admin_request ''POST'' ''/api/admin/update/rollback'') demo_plane)) \<noteq>
     cpl_updates demo_plane"
proof -
  obtain um where um: "cpl_updates demo_plane = Some um" "um_saved um = None" by (simp add: demo_plane_def)
  let ?w = "with_manager demo_admin_env (Manager_Rollback (am_update demo_admin_env)) um demo_plane"
  have "core (snd (createHandler demo_admin_env demo_admin_rpc 1 (demo_admin_request ''POST'' ''/api/admin/update/rollback'') demo_plane)) =
      core (snd ?w)"
    by (simp add: demo_served updateRollbackHandler_def update_post_def demo_request_fields um core_simps)
  then have "cpl_updates (snd (createHandler demo_admin_env demo_admin_rpc 1 (demo_admin_request ''POST'' ''/api/admin/update/rollback'') demo_plane)) =
      cpl_updates (snd ?w)"
    by (simp add: core_def)
  moreover obtain t s1 where t: "on_plane (co_now (am_control demo_admin_env)) demo_plane = (t, s1)" by (rule prod.exhaust)
  have "cpl_updates (snd ?w) = Some (snd (Manager_Rollback (am_update demo_admin_env) t um))"
    by (simp add: with_manager_def t split: prod.splits)
  moreover have "snd (Manager_Rollback (am_update demo_admin_env) t um) \<noteq> um"
    using demo_rollback_saves(1) [of t] um by force
  ultimately show ?thesis using um(1) by simp
qed

section \<open>Properties\<close>

text \<open>
  C27 Only an admin changes anything: when a request changes the ledger of the publisher (its policy, its revisions, which
  one is active, or its publish records) or the state of the update manager with the files of the installation, then it is
  a POST request, and unless admin access is switched off it was authenticated with the role admin; if it carries the
  cookie, its origin is that of the daemon.
\<close>

theorem writes_need_admin:
  assumes "createHandler env rpc now r s = (resp, s')"
    and "ledger_of s' \<noteq> ledger_of s \<or> cpl_updates s' \<noteq> cpl_updates s"
  shows "ad_Method r = ''POST'' \<and>
    (daemon_authenticator env s = Inr None \<or>
     (\<exists>a info. daemon_authenticator env s = Inr (Some a) \<and> Authenticate (am_auth env) a now r = Inr info \<and> au_Role info = RoleAdmin \<and>
        (isCookieAuthenticated r \<longrightarrow> isValidSameOriginRequest (am_auth env) r)))"
proof -
  have "core s' \<noteq> core s" using assms(2) by (rule core_change [THEN iffD1])
  from change_route [OF assms(1) this] obtain role where
    role: "admitted (am_auth env) now (daemon_authenticator env s) r role" "logged_change env role r s s'"
    "isSameOriginWriteRequired (ad_Path r) ''POST''" by metis
  then have "ad_Method r = ''POST''" using \<open>core s' \<noteq> core s\<close> by (simp add: logged_change_def)
  with admitted_post [OF role(1) this] role(3) show ?thesis by metis
qed

theorem writes_need_admin_witness:
  "\<exists>info. Authenticate demo_auth_env \<lparr>at_bootstrapToken = ''boot'', at_cookieSigningKey = ''key'', at_tokens = [], at_cookieSecure = False\<rparr> 1
      (demo_admin_request ''POST'' ''/api/admin/update/rollback'') = Inr info \<and> au_Role info = ''admin''"
proof -
  let ?x = "createHandler demo_admin_env demo_admin_rpc 1 (demo_admin_request ''POST'' ''/api/admin/update/rollback'') demo_plane"
  have "?x = (fst ?x, snd ?x)" by simp
  from writes_need_admin [OF this] demo_rollback_runs(1) demo_daemon_auth show ?thesis
    by (auto simp: demo_admin_env_def RoleAdmin_def)
qed

text \<open>
  C28 Every change is accounted for: when events can be encoded and the file of the audit log can be written, a request
  that changes the ledger or the installation adds exactly one line to the log. It is the line of an event with the role
  that the request was authenticated with, which is admin unless admin access is switched off, and with its address.
\<close>

theorem changes_are_logged:
  assumes "createHandler env rpc now r s = (resp, s')"
    and "ledger_of s' \<noteq> ledger_of s \<or> cpl_updates s' \<noteq> cpl_updates s"
    and "cpl_audit s = Some ls" "\<And>e. ae_encode (am_audit env) e \<noteq> None" "\<And>w. am_writable env w"
  shows "\<exists>e line. cpl_audit s' = Some (ls @ [line]) \<and> ae_encode (am_audit env) e = Some line \<and>
    ev_Source e = ad_RemoteAddr r \<and> ev_Role e = (if daemon_authenticator env s = Inr None then [] else RoleAdmin)"
proof -
  have changed: "core s' \<noteq> core s" using assms(2) by (rule core_change [THEN iffD1])
  from change_route [OF assms(1) this] obtain role where
    role: "admitted (am_auth env) now (daemon_authenticator env s) r role" "logged_change env role r s s'" by metis
  then obtain s1 action resource success err details where
    s1: "s' = recordAudit env role r action resource success err details s1" "cpl_audit s1 = cpl_audit s" and post: "ad_Method r = ''POST''"
    using changed by (auto simp: logged_change_def)
  obtain t s2 where w: "on_plane (co_now (am_control env)) s1 = (t, s2)" by (cases "on_plane (co_now (am_control env)) s1")
  define e where "e = audit_entry (am_audit env) ls t (audit_event role r action resource success err details)"
  obtain line where line: "ae_encode (am_audit env) e = Some line" using assms(4) [of e] by auto
  have "cpl_audit s' = Some (ls @ [line])"
    using s1 assms(3) w line assms(5) by (simp add: recordAudit_def audit_Record_def e_def)
  moreover have "role = (if daemon_authenticator env s = Inr None then [] else RoleAdmin)"
    using admitted_post [OF role(1) post] by auto
  moreover have "trim_space [] = []" "trim_space RoleAdmin = RoleAdmin" by code_simp+
  ultimately show ?thesis using line by (auto simp: e_def audit_entry_def audit_event_def intro!: exI [of _ e])
qed

theorem changes_are_logged_witness:
  "cpl_audit (snd (createHandler demo_admin_env demo_admin_rpc 1 (demo_admin_request ''POST'' ''/api/admin/update/rollback'') demo_plane)) =
     Some [''admin'']"
proof -
  let ?x = "createHandler demo_admin_env demo_admin_rpc 1 (demo_admin_request ''POST'' ''/api/admin/update/rollback'') demo_plane"
  have "?x = (fst ?x, snd ?x)" "cpl_audit demo_plane = Some []" by (simp_all add: demo_plane_def)
  from changes_are_logged [OF this(1) disjI2 this(2)] demo_rollback_runs(1) demo_daemon_auth show ?thesis
    by (auto simp: demo_admin_env_def RoleAdmin_def)
qed

text \<open>
  C29 A viewer sees no configuration: with admin access switched on, an answer that shows the configuration, its YAML, a
  preview of a draft or a difference goes only to a request that was authenticated with the role admin.
\<close>

theorem viewer_sees_no_config:
  assumes "createHandler env rpc now r s = (resp, s')" "config_shown (ar_Body resp)" "daemon_authenticator env s \<noteq> Inr None"
  shows "\<exists>a info. daemon_authenticator env s = Inr (Some a) \<and> Authenticate (am_auth env) a now r = Inr info \<and> au_Role info = RoleAdmin"
proof -
  obtain h role where h: "api_route (ad_Path r) = Some h" "admitted (am_auth env) now (daemon_authenticator env s) r role"
    "(resp, s') = h env rpc role r s"
    using createHandler_cases [of env rpc now r s] assms(1,2) by auto
  have shows_it: "config_shown (ar_Body (fst (h env rpc role r s)))" using h(3) assms(2) by (metis fst_conv)
  then have "\<not> discreet h" by (auto simp: discreet_body)
  with api_route_guarded [OF h(1)] have g: "guarded h" "\<not> isBrowserAdminPath (ad_Path r)" by blast+
  have "ad_Method r = ''POST'' \<or> role = [] \<or> role = RoleAdmin" using g(1) shows_it unfolding guarded_def by blast
  moreover have "role \<noteq> []" if "Authenticate (am_auth env) a now r = Inr info" "role = au_Role info"
    "canAccessAdminRoute role (ad_Method r)" for a info
    using that by (auto simp: canAccessAdminRoute_def RoleAdmin_def RoleViewer_def)
  ultimately show ?thesis
    using h(2) assms(3) g(2) by (auto simp: admitted_def isPublicAdminShellRequest_def canAccessAdminRoute_def read_method_def)
qed

theorem viewer_sees_no_config_witness:
  "\<exists>info. Authenticate demo_auth_env \<lparr>at_bootstrapToken = ''boot'', at_cookieSigningKey = ''key'', at_tokens = [], at_cookieSecure = False\<rparr> 1
      (demo_admin_request ''GET'' ''/api/admin/config'') = Inr info \<and> au_Role info = ''admin''"
proof -
  let ?x = "createHandler demo_admin_env demo_admin_rpc 1 (demo_admin_request ''GET'' ''/api/admin/config'') demo_plane"
  have "?x = (fst ?x, snd ?x)" by simp
  from viewer_sees_no_config [OF this demo_config_read] demo_daemon_auth show ?thesis
    by (auto simp: demo_admin_env_def RoleAdmin_def)
qed

end
