(* ===== verification/Spec2Isabelle.thy ===== *)
theory Spec2Isabelle
  imports Compiler Handler_Traffic Converters Ssrf Publisher_Ledger Telemetry_Pipeline Update_Recovery Admin_Access
begin

text \<open>
  A model of the AI model gateway (\<open>internal/gateway\<close>, \<open>internal/core\<close>, \<open>internal/control\<close>,
  \<open>internal/telemetry\<close>, \<open>internal/updater\<close>, \<open>cmd/controld\<close>): a reverse proxy for the APIs of language models. The control plane compiles
  an authoring configuration into an immutable snapshot; the gateway process serves requests on
  the snapshot, choosing a provider, forwarding the request, converting between API formats,
  and accounting for the tokens that were used.

  The parts and their theories:

  \<^item> \<open>Prelude\<close>: 64-bit arithmetic, clock readings, Go's string functions, validation chains.
  \<^item> \<open>Snapshot_Data\<close>: the snapshot (\<open>internal/gateway/snapshot/snapshot.go\<close>), one record per struct.
  \<^item> \<open>Config_Data\<close>, \<open>Config_Rules\<close>: the authoring configuration, \<open>Normalize\<close> and \<open>Validate\<close>
    (\<open>internal/core\<close>).
  \<^item> \<open>Compiler\<close>: from the configuration to the snapshot (\<open>internal/control/compiler\<close>).
  \<^item> \<open>Key_Rotation\<close>: the API keys of a provider (\<open>key_rotation.go\<close>).
  \<^item> \<open>Routing\<close>: which providers may serve a request, in which weighted order, and how often a
    request is retried (\<open>routing.go\<close>). The interface \<open>candidate_order\<close> is what the runtime state
    relies on; the weighted order provides it.
  \<^item> \<open>Rate_Limit\<close>: the limiter per client key and its middleware, and the limiter per upstream. The
    interface \<open>token_bucket\<close> has the rate bound; both limiters provide it.
  \<^item> \<open>Response_Cache\<close>: the cache of responses (\<open>cache.go\<close>). The interface \<open>kv_cache\<close> relates a history
    of operations to a map with ages; the cache provides it.
  \<^item> \<open>Request_Queue\<close>: the priority queue (\<open>queue.go\<close>), as the interleaved steps of its goroutines.
  \<^item> \<open>Runtime_State\<close>: circuit breakers, sticky sessions, the live rotators and limiters, and what a
    new snapshot keeps of them (\<open>runtime_state.go\<close>).
  \<^item> \<open>Json_Value\<close>, \<open>Response_Body\<close>: JSON values, and what is read out of and rewritten in bodies
    (\<open>compat_body.go\<close>, parts of \<open>handler.go\<close>).
  \<^item> \<open>Streaming\<close>: the pass-through of event streams (\<open>streaming.go\<close>).
  \<^item> \<open>Upstream_Forward\<close>: one request to an upstream (\<open>forward.go\<close>).
  \<^item> \<open>Compat_Plan\<close>: which path, body and adaptation a request gets at a provider (\<open>compat.go\<close>); the
    conversions are fields of the record \<open>converters\<close>, which \<open>Converters\<close> fills with those of the code:
    there, what a plan sends is a request of the protocol it is sent to, and what the handler relies
    on of the bridges is proved.
  \<^item> \<open>Execution\<close>, \<open>Fallback\<close>, \<open>Handler\<close>: one request of a client from its body to the response, on a
    state with the response, the upstream requests sent, the telemetry events and the cache
    (\<open>execution.go\<close>, \<open>fallback.go\<close>, \<open>handler.go\<close>). \<open>Handler_Traffic\<close> bounds the requests that a call
    sends and says where they go; \<open>Handler_Response\<close> says what the client gets and what is recorded.
  \<^item> \<open>Ssrf\<close>: which addresses and URLs may be requested, and the dialer that pins the address it has
    checked (\<open>internal/proxy/ssrf.go\<close>).
  \<^item> \<open>Publisher_Store\<close>, \<open>Publisher\<close>: the ledger of revisions and publications, its stores and the
    operations of the control plane on it (\<open>internal/control/publish\<close>). The interface \<open>state_store\<close> is the
    contract of a store; SQLite and the migrating store provide it. \<open>Publisher_Ledger\<close> has the
    invariant, the effect of a publication and the restart.
  \<^item> \<open>Json_Build\<close>, \<open>Protocol_Data\<close>: the JSON values that the conversions read and build, and the structs
    they decode into (\<open>compat.go\<close>). \<open>Stream_Bridge\<close> is the loop that the bridges share; it equals a
    fold over the data of the events. Its interface \<open>event_bridge\<close> (a translation of events with a state
    and a writer of its outputs) gives the output of a whole stream and that a bridge only adds to the
    body; \<open>Stream_To_Anthropic\<close>, \<open>Stream_To_Chat\<close> and \<open>Stream_To_Responses\<close> provide it. What the client
    gets is checked by a client that follows the events and refuses what does not fit.
  \<^item> \<open>Convert_Anthropic_Request\<close>, \<open>Convert_Chat_Request\<close>, \<open>Convert_Response\<close>, \<open>Convert_Responses\<close>: the
    conversions of whole requests, responses and errors, with what survives them: the turns of user and
    assistant, the answer, the calls of custom tools (\<open>compat.go\<close>).
  \<^item> \<open>Pricing\<close>: the price and the cost of a request (\<open>telemetry/pricing.go\<close>, \<open>api/pricing.go\<close>).

  \<^item> \<open>Telemetry_Client\<close>: the gateway's buffer of events and its goroutines (\<open>gateway/telemetry/client.go\<close>), as
    steps of a relation. The interface \<open>ingest_server\<close> is what it relies on of the daemon; the log of
    \<open>Telemetry_Log\<close> (\<open>eventlog/log.go\<close>, \<open>cmd/telemetryd/ingest_rpc.go\<close>) provides it, so every recorded event is
    buffered, acknowledged or counted as lost.
  \<^item> \<open>Telemetry_Projection\<close>, \<open>Telemetry_Aggregates\<close>, \<open>Telemetry_Pipeline\<close>: facts, aggregates and checkpoint of the
    query store (\<open>project/worker.go\<close>, \<open>query/store.go\<close>), and that restarts and failed transactions leave
    each row of the log projected exactly once.
  \<^item> \<open>Paths\<close>: cleaning, joining and relating paths as \<open>path/filepath\<close> does on Unix, and the checks on them
    (\<open>internal/pathsecurity\<close>, \<open>safeArchivePath\<close>): accepted archive paths stay below the destination.
  \<^item> \<open>Release_Files\<close>, \<open>Updater\<close>, \<open>Update_Apply\<close>: manifests of releases and their verification on a disk
    (\<open>internal/release/manifest.go\<close>); versions, download, extraction, installation, backup, rollback and the manager
    (\<open>internal/updater/updater.go\<close>). A disk is the list of its files with the failures of writes to come.
    \<open>Updater_Safety\<close> has the order of versions and that an extraction stays inside; \<open>Update_Rollback\<close> and
    \<open>Update_Recovery\<close> take the paths below a directory apart and show that a rollback gives back what an update replaced.
  \<^item> \<open>Audit_Log\<close>: the audit log with its redaction (\<open>internal/control/audit\<close>) and the comparison of configurations
    (\<open>control/api/ops.go\<close>): it reports every difference and no secret.
  \<^item> \<open>Admin_Auth\<close>, \<open>Cookies\<close>: tokens and signed cookies (\<open>internal/infra/auth/cookie.go\<close>), the middleware, login, logout
    and session (\<open>cmd/controld/http.go\<close>); what a cookie is worth.
  \<^item> \<open>Admin_Api\<close>, \<open>Admin_Ops\<close>, \<open>Admin_Routes\<close>: the handlers of the control plane with the adapters behind them and the table of
    routes (\<open>control/api/routes.go\<close>, \<open>ops.go\<close>, \<open>cmd/controld\<close>), on a state of publisher, update manager and log. An
    event is recorded by \<open>answer_noting\<close> where the source calls \<open>recordAudit\<close> on both branches; formats of times are not told
    apart. \<open>Admin_Access\<close> composes them: only an admin changes anything, every change is logged, a viewer sees no configuration.

  Conventions. A Go \<open>int\<close> or \<open>int64\<close> is an \<open>int\<close>, with \<open>i64\<close> written where the arithmetic can leave 64
  bits; the routing counter is a \<open>64 word\<close>; a \<open>float64\<close> is an exact rational; a \<open>time.Time\<close> is the
  number of its nanoseconds with 0 for the zero time. An operation under a mutex is one function
  from state to state; clock readings are arguments. Loops are structural recursions or recursive
  functions with a termination proof, so no operation has a bound on its steps. The network, timers
  and contexts, the SSRF checker (an interface in the source), \<open>net/url\<close>, \<open>path.Match\<close> and the JSON
  syntax are parameters.

  Not modelled: the package \<open>gateway/converter\<close>, which only a test command uses; the queries of the telemetry
  daemon over SQLite and the control plane's own request log, the retrieval of price lists, benchmarking, the replay of failed requests
  and the files of the frontend, the WebSocket proxy, the start of the processes and the command lines.
\<close>

end
